(* ===== verification/Bridle_Prelude.thy ===== *)
theory Bridle_Prelude
  imports Complex_Main "HOL-Library.AList"
begin

text \<open>
  Shared vocabulary of the development: the errors the backend raises, JSON values with
  the dictionary and truth-value conventions of Python, the few string operations the
  sources use, and the SQL table operations (a table is the list of its rows in insertion
  order, which is the order of its AUTOINCREMENT column).
\<close>

section \<open>Proof support\<close>

named_theorems table_simps \<open>rewrite rules for the SQL table operations\<close>
named_theorems dict_simps \<open>rewrite rules for Python dictionaries\<close>

section \<open>Errors\<close>

text \<open>
  The exceptions of \<^verbatim>\<open>bridle/api/errors.py\<close> that the modelled code raises, with
  the resource and the stable error code (the human readable message is dropped), the two
  builtin exceptions the sources raise with a code as their message, and, as
  \<open>BuiltinError\<close>, an exception of Python or SQLite that no code of the sources raises.
\<close>

datatype bridle_error =
    NotFoundError string
  | ValidationError string string
  | ConflictError string string
  | ForbiddenError string string
  | MailboxError string
  | ValueError string
  | RuntimeError string
  | BuiltinError string

fun error_code :: "bridle_error \<Rightarrow> string" where
  "error_code (NotFoundError _) = ''not_found''"
| "error_code (ValidationError _ _) = ''validation_error''"
| "error_code (ConflictError _ c) = c"
| "error_code (ForbiddenError _ c) = c"
| "error_code (MailboxError c) = c"
| "error_code (ValueError c) = c"
| "error_code (RuntimeError c) = c"
| "error_code (BuiltinError c) = c"

type_synonym 'a result = "bridle_error + 'a"

fun is_ok :: "'a result \<Rightarrow> bool" where
  "is_ok (Inl _) = False"
| "is_ok (Inr _) = True"

fun bind_result :: "'a result \<Rightarrow> ('a \<Rightarrow> 'b result) \<Rightarrow> 'b result" where
  "bind_result (Inl e) f = Inl e"
| "bind_result (Inr x) f = f x"

lemma bind_result_Inr: "bind_result r f = Inr y \<longleftrightarrow> (\<exists>x. r = Inr x \<and> f x = Inr y)"
  by (cases r) auto

lemma bind_result_Inl:
  "bind_result r f = Inl e \<longleftrightarrow> r = Inl e \<or> (\<exists>x. r = Inr x \<and> f x = Inl e)"
  by (cases r) auto

lemma is_ok_iff: "is_ok r \<longleftrightarrow> (\<exists>x. r = Inr x)"
  by (cases r) auto

lemma is_ok_bind_total: "(\<And>x. is_ok (f x)) \<Longrightarrow> is_ok (bind_result r f) = is_ok r"
  by (cases r) auto

section \<open>Python strings\<close>

text \<open>
  A Python string is a list of characters; \<^typ>\<open>char\<close> covers the code points up to 255,
  and the whitespace characters below are those \<^verbatim>\<open>str.strip\<close> removes in that range.
\<close>

definition is_space :: "char \<Rightarrow> bool" where
  "is_space c \<longleftrightarrow> (let n = (of_char c :: nat) in
     (9 \<le> n \<and> n \<le> 13) \<or> (28 \<le> n \<and> n \<le> 32) \<or> n = 133 \<or> n = 160)"

definition strip :: "string \<Rightarrow> string" where
  "strip s = rev (dropWhile is_space (rev (dropWhile is_space s)))"

lemma dropWhile_strip: "dropWhile is_space (strip s) = strip s" "dropWhile is_space (rev (strip s)) = rev (strip s)"
proof -
  let ?t = "dropWhile is_space s"
  have id: "dropWhile P xs = xs" if "xs \<noteq> [] \<Longrightarrow> \<not> P (hd xs)" for P and xs :: string
    using that by (cases xs) auto
  show "dropWhile is_space (rev (strip s)) = rev (strip s)"
    by (rule id) (simp add: strip_def hd_dropWhile)
  show "dropWhile is_space (strip s) = strip s"
  proof (rule id)
    assume ne: "strip s \<noteq> []"
    have "rev ?t = takeWhile is_space (rev ?t) @ dropWhile is_space (rev ?t)" by simp
    then have "?t = strip s @ rev (takeWhile is_space (rev ?t))" unfolding strip_def by (metis rev_append rev_rev_ident)
    then have "hd ?t = hd (strip s)" using ne by (metis hd_append2)
    moreover have "?t \<noteq> []" using ne by (metis strip_def dropWhile.simps(1) rev.simps(1))
    then have "\<not> is_space (hd ?t)" by (rule hd_dropWhile)
    ultimately show "\<not> is_space (hd (strip s))" by simp
  qed
qed

lemma strip_strip [simp]: "strip (strip s) = strip s"
  by (simp add: strip_def [of "strip s"] dropWhile_strip)

definition startswith :: "string \<Rightarrow> string \<Rightarrow> bool" where
  "startswith s p \<longleftrightarrow> take (length p) s = p"

definition endswith :: "string \<Rightarrow> string \<Rightarrow> bool" where
  "endswith s p \<longleftrightarrow> length p \<le> length s \<and> drop (length s - length p) s = p"

fun split_on :: "char \<Rightarrow> string \<Rightarrow> string list" where
  "split_on d [] = [[]]"
| "split_on d (c # s) =
     (if c = d then [] # split_on d s
      else (case split_on d s of [] \<Rightarrow> [[c]] | w # ws \<Rightarrow> (c # w) # ws))"

fun join_with :: "string \<Rightarrow> string list \<Rightarrow> string" where
  "join_with sep [] = []"
| "join_with sep [w] = w"
| "join_with sep (w # v # ws) = w @ sep @ join_with sep (v # ws)"

fun replace_char :: "char \<Rightarrow> string \<Rightarrow> string \<Rightarrow> string" where
  "replace_char a b [] = []"
| "replace_char a b (c # s) = (if c = a then b @ replace_char a b s else c # replace_char a b s)"

fun nat_str :: "nat \<Rightarrow> string" where
  "nat_str n = (if n < 10 then [char_of (48 + n)] else nat_str (n div 10) @ [char_of (48 + n mod 10)])"

declare nat_str.simps [simp del]

definition int_str :: "int \<Rightarrow> string" where
  "int_str i = (if i < 0 then ''-'' @ nat_str (nat (- i)) else nat_str (nat i))"

lemma startswith_append [simp]: "startswith (p @ s) p"
  by (simp add: startswith_def)

lemma startswith_iff: "startswith s p \<longleftrightarrow> (\<exists>t. s = p @ t)"
  by (auto simp: startswith_def) (metis append_take_drop_id)

lemma endswith_iff: "endswith s p \<longleftrightarrow> (\<exists>t. s = t @ p)"
  by (auto simp: endswith_def) (metis append_take_drop_id)

lemma split_on_ne [simp]: "split_on d s \<noteq> []"
  by (induction s) (auto split: list.splits)

lemma split_on_no_delim: "w \<in> set (split_on d s) \<Longrightarrow> d \<notin> set w"
  by (induction s arbitrary: w) (auto split: list.splits if_splits)

lemma join_split_on [simp]: "join_with [d] (split_on d s) = s"
proof (induction s)
  case Nil
  show ?case by simp
next
  case (Cons c s)
  then show ?case
    by (cases "split_on d s"; cases "tl (split_on d s)") auto
qed

lemma split_on_word: "d \<notin> set w \<Longrightarrow> split_on d w = [w]"
  by (induction w) auto

lemma split_on_append: "d \<notin> set w \<Longrightarrow> split_on d (w @ d # s) = w # split_on d s"
  by (induction w) auto

lemma split_join_on:
  "ws \<noteq> [] \<Longrightarrow> \<forall>w \<in> set ws. d \<notin> set w \<Longrightarrow> split_on d (join_with [d] ws) = ws"
proof (induction "[d]" ws rule: join_with.induct)
  case (3 w v ws)
  then show ?case by (simp add: split_on_append)
qed (auto simp: split_on_word)

lemma replace_char_absent: "a \<notin> set s \<Longrightarrow> replace_char a b s = s"
  by (induction s) auto

section \<open>JSON values\<close>

text \<open>
  A decoded JSON value. An object keeps its keys in insertion order; \<open>AList.update\<close>
  overwrites a present key in place and appends an absent one, as \<^verbatim>\<open>d[k] = v\<close> does.
  No modelled decision looks at a floating point member, so numbers are integers.
\<close>

datatype json =
    JNull
  | JBool bool
  | JInt int
  | JStr string
  | JList "json list"
  | JObj "(string \<times> json) list"

type_synonym dict = "(string \<times> json) list"

fun truthy :: "json \<Rightarrow> bool" where
  "truthy JNull = False"
| "truthy (JBool b) = b"
| "truthy (JInt i) = (i \<noteq> 0)"
| "truthy (JStr s) = (s \<noteq> [])"
| "truthy (JList l) = (l \<noteq> [])"
| "truthy (JObj d) = (d \<noteq> [])"

definition dict_get :: "dict \<Rightarrow> string \<Rightarrow> json" where
  "dict_get d k = (case map_of d k of None \<Rightarrow> JNull | Some v \<Rightarrow> v)"

abbreviation dict_put :: "dict \<Rightarrow> string \<Rightarrow> json \<Rightarrow> dict" where
  "dict_put d k v \<equiv> AList.update k v d"

fun opt_str :: "string option \<Rightarrow> json" where
  "opt_str None = JNull"
| "opt_str (Some s) = JStr s"

lemma dict_get_put [dict_simps]:
  "dict_get (dict_put d k v) k' = (if k' = k then v else dict_get d k')"
  by (simp add: dict_get_def update_conv')

text \<open>
  \<^verbatim>\<open>str(value)\<close>: strings are returned as they are; inside a list or a dictionary a
  string is shown by its \<^verbatim>\<open>repr\<close>, between single quotes unless it contains one and no
  double quote, with backslash, the chosen quote and control characters escaped.
\<close>

definition hex_digit :: "nat \<Rightarrow> char" where
  "hex_digit n = char_of (if n < 10 then 48 + n else 87 + n)"

definition repr_char :: "char \<Rightarrow> char \<Rightarrow> string" where
  "repr_char q c =
     (let n = (of_char c :: nat) in
      if c = q \<or> n = 92 then [char_of (92::nat), c]
      else if n = 10 then [char_of (92::nat), CHR ''n'']
      else if n = 13 then [char_of (92::nat), CHR ''r'']
      else if n = 9 then [char_of (92::nat), CHR ''t'']
      else if n < 32 \<or> (127 \<le> n \<and> n \<le> 160) \<or> n = 173
        then [char_of (92::nat), CHR ''x'', hex_digit (n div 16), hex_digit (n mod 16)]
      else [c])"

definition str_repr :: "string \<Rightarrow> string" where
  "str_repr s =
     (let q = (if char_of (39::nat) \<in> set s \<and> char_of (34::nat) \<notin> set s
               then char_of (34::nat) else char_of (39::nat))
      in [q] @ concat (map (repr_char q) s) @ [q])"

fun py_repr :: "json \<Rightarrow> string" where
  "py_repr JNull = ''None''"
| "py_repr (JBool b) = (if b then ''True'' else ''False'')"
| "py_repr (JInt i) = int_str i"
| "py_repr (JStr s) = str_repr s"
| "py_repr (JList l) = ''['' @ join_with '', '' (map py_repr l) @ '']''"
| "py_repr (JObj d) =
     ''{'' @ join_with '', '' (map (\<lambda>(k, v). str_repr k @ '': '' @ py_repr v) d) @ ''}''"

fun py_str :: "json \<Rightarrow> string" where
  "py_str (JStr s) = s"
| "py_str v = py_repr v"

text \<open>\<^verbatim>\<open>str(d.get(k) or "")\<close>\<close>

definition get_str :: "dict \<Rightarrow> string \<Rightarrow> string" where
  "get_str d k = (let v = dict_get d k in if truthy v then py_str v else [])"

fun dicts_of :: "json list \<Rightarrow> dict list" where
  "dicts_of [] = []"
| "dicts_of (JObj d # vs) = d # dicts_of vs"
| "dicts_of (_ # vs) = dicts_of vs"

section \<open>SQL tables\<close>

text \<open>
  \<open>find P rows\<close> is a SELECT with at most one row; \<open>update_rows P f rows\<close> is
  \<^verbatim>\<open>UPDATE ... SET f WHERE P\<close> and \<open>rowcount P rows\<close> its row count; \<open>last_row P rows\<close> is
  \<^verbatim>\<open>ORDER BY sequence DESC LIMIT 1\<close>.
\<close>

definition update_rows :: "('r \<Rightarrow> bool) \<Rightarrow> ('r \<Rightarrow> 'r) \<Rightarrow> 'r list \<Rightarrow> 'r list" where
  "update_rows P f rows = map (\<lambda>r. if P r then f r else r) rows"

definition rowcount :: "('r \<Rightarrow> bool) \<Rightarrow> 'r list \<Rightarrow> nat" where
  "rowcount P rows = length (filter P rows)"

definition last_row :: "('r \<Rightarrow> bool) \<Rightarrow> 'r list \<Rightarrow> 'r option" where
  "last_row P rows = find P (rev rows)"

definition unique_key :: "('r \<Rightarrow> 'k) \<Rightarrow> 'r list \<Rightarrow> bool" where
  "unique_key key rows \<longleftrightarrow> distinct (map key rows)"

lemma update_rows_Nil [simp]: "update_rows P f [] = []"
  and update_rows_Cons [simp]:
    "update_rows P f (r # rows) = (if P r then f r else r) # update_rows P f rows"
  and length_update_rows [simp]: "length (update_rows P f rows) = length rows"
  and update_rows_append [simp]:
    "update_rows P f (xs @ ys) = update_rows P f xs @ update_rows P f ys"
  by (simp_all add: update_rows_def)

lemma in_update_rows [table_simps]:
  "r \<in> set (update_rows P f rows) \<longleftrightarrow>
     (\<exists>r0 \<in> set rows. r = (if P r0 then f r0 else r0))"
  by (auto simp: update_rows_def)

lemma map_update_rows:
  "(\<And>r. P r \<Longrightarrow> g (f r) = g r) \<Longrightarrow> map g (update_rows P f rows) = map g rows"
  by (simp add: update_rows_def)

lemma update_rows_none: "(\<And>r. r \<in> set rows \<Longrightarrow> \<not> P r) \<Longrightarrow> update_rows P f rows = rows"
  by (induction rows) auto

lemma unique_key_update [table_simps]:
  "(\<And>r. P r \<Longrightarrow> key (f r) = key r) \<Longrightarrow> unique_key key (update_rows P f rows) = unique_key key rows"
  by (simp add: unique_key_def map_update_rows)

lemma unique_key_append1 [table_simps]:
  "unique_key key (rows @ [r]) \<longleftrightarrow> unique_key key rows \<and> (\<forall>x \<in> set rows. key x \<noteq> key r)"
  by (auto simp: unique_key_def) (metis imageI)

lemma unique_keyD:
  "unique_key key rows \<Longrightarrow> a \<in> set rows \<Longrightarrow> b \<in> set rows \<Longrightarrow> key a = key b \<Longrightarrow> a = b"
  by (auto simp: unique_key_def distinct_map inj_on_def)

lemma find_SomeD: "find P rows = Some r \<Longrightarrow> r \<in> set rows \<and> P r"
  by (auto simp: find_Some_iff)

lemma find_NoneD: "find P rows = None \<Longrightarrow> r \<in> set rows \<Longrightarrow> \<not> P r"
  by (auto simp: find_None_iff)

lemma find_append: "find P (xs @ ys) = (case find P xs of None \<Rightarrow> find P ys | Some r \<Rightarrow> Some r)"
  by (induction xs) auto

lemma find_key_unique:
  "unique_key key rows \<Longrightarrow> r \<in> set rows \<Longrightarrow> find (\<lambda>x. key x = key r) rows = Some r"
  by (induction rows) (auto simp: unique_key_def image_iff)

lemma filter_key_unique:
  "unique_key key rows \<Longrightarrow> r \<in> set rows \<Longrightarrow> filter (\<lambda>x. key x = key r) rows = [r]"
  by (induction rows) (auto simp: unique_key_def image_iff filter_empty_conv)

lemma find_update_rows:
  "(\<And>r. P r \<Longrightarrow> Q (f r) = Q r) \<Longrightarrow>
   find Q (update_rows P f rows) = map_option (\<lambda>r. if P r then f r else r) (find Q rows)"
  by (induction rows) auto

lemma rowcount_eq_0: "rowcount P rows = 0 \<longleftrightarrow> (\<forall>r \<in> set rows. \<not> P r)"
  by (auto simp: rowcount_def filter_empty_conv)

lemma rowcount_key_le1:
  assumes "unique_key key rows" and "\<And>r. P r \<Longrightarrow> key r = k"
  shows "rowcount P rows \<le> 1"
  using assms by (induction rows) (auto simp: rowcount_def unique_key_def filter_empty_conv)

lemma rowcount_key_1:
  assumes "unique_key key rows" and "\<And>r. P r \<Longrightarrow> key r = k"
  shows "rowcount P rows = 1 \<longleftrightarrow> (\<exists>r \<in> set rows. P r)"
proof -
  have "rowcount P rows \<le> 1" using assms by (rule rowcount_key_le1)
  moreover have "rowcount P rows = 0 \<longleftrightarrow> (\<forall>r \<in> set rows. \<not> P r)" by (rule rowcount_eq_0)
  ultimately show ?thesis by auto
qed

lemma last_row_append1 [table_simps]:
  "last_row P (rows @ [r]) = (if P r then Some r else last_row P rows)"
  by (simp add: last_row_def)

lemma last_row_update:
  "(\<And>r. P r \<Longrightarrow> Q (f r) = Q r) \<Longrightarrow>
   last_row Q (update_rows P f rows) = map_option (\<lambda>r. if P r then f r else r) (last_row Q rows)"
  by (simp add: last_row_def update_rows_def rev_map, fold update_rows_def, rule find_update_rows)

lemma last_row_SomeD: "last_row P rows = Some r \<Longrightarrow> r \<in> set rows \<and> P r"
  by (auto simp: last_row_def dest: find_SomeD)

lemma last_row_NoneD: "last_row P rows = None \<Longrightarrow> r \<in> set rows \<Longrightarrow> \<not> P r"
  by (auto simp: last_row_def find_None_iff)

end
