(* ===== verification/Modification_Workflow.thy ===== *)
theory Modification_Workflow
  imports Bridle_Prelude "HOL-Library.Sublist"
begin

text \<open>
  The gate of \<^verbatim>\<open>agent/runtime/modification_workflow.py\<close>: its states, its events and the
  transition table \<^verbatim>\<open>_TRANSITIONS\<close>; the step relation the table describes, and what every
  run of it guarantees about the order of verification events.
\<close>

section \<open>States, events, transition table\<close>

datatype mod_state =
    TEST_AUTHORING
  | TEST_CONTRACT_APPROVED
  | RED_ALLOWED
  | RED_VERIFYING
  | RED_CONFIRMED
  | IMPLEMENTING
  | SUBMITTED
  | FINAL_VERIFYING
  | READY_TO_PUBLISH
  | PUBLISHED
  | VERIFICATION_BLOCKED

datatype mod_event =
    E_START
  | E_TEST_CONTRACT_APPROVED
  | E_RED_ALLOWED
  | E_RED_VERIFICATION_STARTED
  | E_RED_CONFIRMED
  | E_IMPLEMENTATION_STARTED
  | E_SUBMITTED
  | E_FINAL_VERIFICATION_STARTED
  | E_FINAL_VERIFICATION_PASSED
  | E_PUBLISHED
  | E_INVALID_TEST
  | E_INFRASTRUCTURE_FAILED
  | E_BASELINE_EXPIRED
  | E_FINAL_VERIFICATION_FAILED
  | E_VERIFICATION_RETRY_EXHAUSTED

text \<open>The string values of the two \<^verbatim>\<open>StrEnum\<close> classes, as the store persists them.\<close>

fun state_value :: "mod_state \<Rightarrow> string" where
  "state_value TEST_AUTHORING = ''TEST_AUTHORING''"
| "state_value TEST_CONTRACT_APPROVED = ''TEST_CONTRACT_APPROVED''"
| "state_value RED_ALLOWED = ''RED_ALLOWED''"
| "state_value RED_VERIFYING = ''RED_VERIFYING''"
| "state_value RED_CONFIRMED = ''RED_CONFIRMED''"
| "state_value IMPLEMENTING = ''IMPLEMENTING''"
| "state_value SUBMITTED = ''SUBMITTED''"
| "state_value FINAL_VERIFYING = ''FINAL_VERIFYING''"
| "state_value READY_TO_PUBLISH = ''READY_TO_PUBLISH''"
| "state_value PUBLISHED = ''PUBLISHED''"
| "state_value VERIFICATION_BLOCKED = ''VERIFICATION_BLOCKED''"

fun event_value :: "mod_event \<Rightarrow> string" where
  "event_value E_START = ''start''"
| "event_value E_TEST_CONTRACT_APPROVED = ''test_contract_approved''"
| "event_value E_RED_ALLOWED = ''red_allowed''"
| "event_value E_RED_VERIFICATION_STARTED = ''red_verification_started''"
| "event_value E_RED_CONFIRMED = ''red_confirmed''"
| "event_value E_IMPLEMENTATION_STARTED = ''implementation_started''"
| "event_value E_SUBMITTED = ''submitted''"
| "event_value E_FINAL_VERIFICATION_STARTED = ''final_verification_started''"
| "event_value E_FINAL_VERIFICATION_PASSED = ''final_verification_passed''"
| "event_value E_PUBLISHED = ''published''"
| "event_value E_INVALID_TEST = ''invalid_test''"
| "event_value E_INFRASTRUCTURE_FAILED = ''infrastructure_failed''"
| "event_value E_BASELINE_EXPIRED = ''baseline_expired''"
| "event_value E_FINAL_VERIFICATION_FAILED = ''final_verification_failed''"
| "event_value E_VERIFICATION_RETRY_EXHAUSTED = ''verification_retry_exhausted''"

text \<open>
  \<^verbatim>\<open>_TRANSITIONS\<close>: the states an event may fire from (\<open>None\<close>: no workflow yet) and its
  target.
\<close>

fun transitions :: "mod_event \<Rightarrow> mod_state option list \<times> mod_state" where
  "transitions E_START = ([None], TEST_AUTHORING)"
| "transitions E_TEST_CONTRACT_APPROVED = ([Some TEST_AUTHORING], TEST_CONTRACT_APPROVED)"
| "transitions E_RED_ALLOWED = ([Some TEST_CONTRACT_APPROVED], RED_ALLOWED)"
| "transitions E_RED_VERIFICATION_STARTED = ([Some RED_ALLOWED], RED_VERIFYING)"
| "transitions E_RED_CONFIRMED = ([Some RED_VERIFYING], RED_CONFIRMED)"
| "transitions E_IMPLEMENTATION_STARTED = ([Some RED_CONFIRMED], IMPLEMENTING)"
| "transitions E_SUBMITTED = ([Some IMPLEMENTING], SUBMITTED)"
| "transitions E_FINAL_VERIFICATION_STARTED = ([Some SUBMITTED], FINAL_VERIFYING)"
| "transitions E_FINAL_VERIFICATION_PASSED = ([Some FINAL_VERIFYING], READY_TO_PUBLISH)"
| "transitions E_PUBLISHED = ([Some READY_TO_PUBLISH], PUBLISHED)"
| "transitions E_INVALID_TEST = ([Some RED_VERIFYING], TEST_AUTHORING)"
| "transitions E_INFRASTRUCTURE_FAILED = ([Some RED_VERIFYING], RED_ALLOWED)"
| "transitions E_BASELINE_EXPIRED =
     ([Some TEST_CONTRACT_APPROVED, Some RED_ALLOWED, Some RED_VERIFYING, Some RED_CONFIRMED,
       Some IMPLEMENTING, Some SUBMITTED, Some FINAL_VERIFYING, Some READY_TO_PUBLISH],
      TEST_AUTHORING)"
| "transitions E_FINAL_VERIFICATION_FAILED = ([Some FINAL_VERIFYING], IMPLEMENTING)"
| "transitions E_VERIFICATION_RETRY_EXHAUSTED =
     ([Some RED_VERIFYING, Some FINAL_VERIFYING], VERIFICATION_BLOCKED)"

abbreviation allowed_from :: "mod_event \<Rightarrow> mod_state option list" where
  "allowed_from e \<equiv> fst (transitions e)"

abbreviation target_of :: "mod_event \<Rightarrow> mod_state" where
  "target_of e \<equiv> snd (transitions e)"

section \<open>The step relation and its runs\<close>

inductive gate_step :: "mod_state option \<Rightarrow> mod_event \<Rightarrow> mod_state option \<Rightarrow> bool" where
  fire: "s \<in> set (allowed_from e) \<Longrightarrow> gate_step s e (Some (target_of e))"

inductive_cases gate_stepE: "gate_step s e t"
inductive_simps gate_step_iff: "gate_step s e t"

fun gate_run :: "mod_state option \<Rightarrow> mod_event list \<Rightarrow> mod_state option \<Rightarrow> bool" where
  "gate_run s [] t = (s = t)"
| "gate_run s (e # es) t = (s \<in> set (allowed_from e) \<and> gate_run (Some (target_of e)) es t)"

lemma gate_run_append: "gate_run s (es @ es') t \<longleftrightarrow> (\<exists>u. gate_run s es u \<and> gate_run u es' t)"
  by (induction es arbitrary: s) auto

lemma gate_run_snoc:
  "gate_run s (es @ [e]) t \<longleftrightarrow>
     (\<exists>u. gate_run s es u \<and> u \<in> set (allowed_from e) \<and> t = Some (target_of e))"
  by (auto simp: gate_run_append)

lemma gate_run_deterministic: "gate_run s es t \<Longrightarrow> gate_run s es u \<Longrightarrow> t = u"
  by (induction es arbitrary: s) auto

lemma state_value_inj [simp]: "state_value a = state_value b \<longleftrightarrow> a = b"
  by (cases a; cases b) simp_all

lemma event_value_inj [simp]: "event_value a = event_value b \<longleftrightarrow> a = b"
  by (cases a; cases b) simp_all

section \<open>Order of the verification events\<close>

text \<open>
  Events that send the workflow back to test authoring, what has happened since the last of
  them, and the events each state presupposes.
\<close>

definition reauthors :: "mod_event \<Rightarrow> bool" where
  "reauthors e \<longleftrightarrow> target_of e = TEST_AUTHORING"

definition since_authoring :: "mod_event list \<Rightarrow> mod_event list" where
  "since_authoring es = rev (takeWhile (\<lambda>e. \<not> reauthors e) (rev es))"

definition milestones :: "mod_event list" where
  "milestones =
     [E_TEST_CONTRACT_APPROVED, E_RED_ALLOWED, E_RED_VERIFICATION_STARTED, E_RED_CONFIRMED,
      E_IMPLEMENTATION_STARTED, E_SUBMITTED, E_FINAL_VERIFICATION_STARTED,
      E_FINAL_VERIFICATION_PASSED, E_PUBLISHED]"

fun rank :: "mod_state \<Rightarrow> nat" where
  "rank TEST_AUTHORING = 0"
| "rank TEST_CONTRACT_APPROVED = 1"
| "rank RED_ALLOWED = 2"
| "rank RED_VERIFYING = 3"
| "rank RED_CONFIRMED = 4"
| "rank IMPLEMENTING = 5"
| "rank SUBMITTED = 6"
| "rank FINAL_VERIFYING = 7"
| "rank READY_TO_PUBLISH = 8"
| "rank PUBLISHED = 9"
| "rank VERIFICATION_BLOCKED = 3"

abbreviation presupposed :: "mod_state \<Rightarrow> mod_event list" where
  "presupposed s \<equiv> take (rank s) milestones"

lemma since_authoring_snoc:
  "since_authoring (es @ [e]) = (if reauthors e then [] else since_authoring es @ [e])"
  by (simp add: since_authoring_def)

lemma presupposed_step:
  "Some s \<in> set (allowed_from e) \<Longrightarrow> \<not> reauthors e \<Longrightarrow>
   subseq (presupposed (target_of e)) (presupposed s @ [e])"
  by (cases e) (auto simp: reauthors_def milestones_def)

lemma presupposed_subseq:
  "gate_run None es (Some s) \<Longrightarrow> subseq (presupposed s) (since_authoring es)"
proof (induction es arbitrary: s rule: rev_induct)
  case Nil
  then show ?case by simp
next
  case (snoc e es)
  then obtain u where u: "gate_run None es u" "u \<in> set (allowed_from e)" "s = target_of e"
    by (auto simp: gate_run_snoc)
  show ?case
  proof (cases "reauthors e \<or> u = None")
    case True
    then have "presupposed s = []"
      using u(2,3) by (cases e) (auto simp: reauthors_def)
    then show ?thesis by (simp only: list_emb_Nil)
  next
    case False
    then obtain s0 where s0: "u = Some s0" by auto
    with u have "subseq (presupposed s0) (since_authoring es)" by (auto intro: snoc.IH)
    then have "subseq (presupposed s0 @ [e]) (since_authoring es @ [e])"
      by (simp add: list_emb_append_mono)
    moreover have "subseq (presupposed s) (presupposed s0 @ [e])"
      using presupposed_step [of s0 e] False s0 u(2,3) by auto
    ultimately show ?thesis
      using False by (auto simp: since_authoring_snoc intro: subseq_order.order_trans)
  qed
qed

text \<open>
  Whatever events a workflow has gone through, if it may be published or has been, then
  since it last returned to test authoring it has passed contract approval, the red
  allowance, a started and a confirmed red run, the implementation, a submission, and a
  started and a passed final verification, in this order.
\<close>

theorem publish_needs_red_and_final:
  assumes "gate_run None es (Some s)" and "s = READY_TO_PUBLISH \<or> s = PUBLISHED"
  shows "subseq
    [E_TEST_CONTRACT_APPROVED, E_RED_ALLOWED, E_RED_VERIFICATION_STARTED, E_RED_CONFIRMED,
     E_IMPLEMENTATION_STARTED, E_SUBMITTED, E_FINAL_VERIFICATION_STARTED,
     E_FINAL_VERIFICATION_PASSED] (since_authoring es)"
proof -
  have "subseq (presupposed READY_TO_PUBLISH) (presupposed s)"
    using assms(2) by (auto simp: milestones_def)
  moreover have "subseq (presupposed s) (since_authoring es)"
    using assms(1) by (rule presupposed_subseq)
  ultimately show ?thesis by (auto simp: milestones_def intro: subseq_order.order_trans)
qed

section \<open>Terminal states and progress\<close>

lemma terminal_no_step: "Some PUBLISHED \<notin> set (allowed_from e)"
    "Some VERIFICATION_BLOCKED \<notin> set (allowed_from e)"
  by (cases e; simp)+

text \<open>The events that lead a live workflow to publication.\<close>

definition route :: "mod_state \<Rightarrow> mod_event list" where
  "route s = drop (rank s) milestones"

lemma route_publishes: "s \<noteq> VERIFICATION_BLOCKED \<Longrightarrow> gate_run (Some s) (route s) (Some PUBLISHED)"
  by (cases s) (auto simp: route_def milestones_def)

text \<open>
  The gate never strands a live workflow: publication stays reachable from a state
  exactly when the state is not \<open>VERIFICATION_BLOCKED\<close>, and the two terminal states are
  absorbing, no event leaves them.
\<close>

theorem publication_reachable:
  "(\<exists>es. gate_run (Some s) es (Some PUBLISHED)) = (s \<noteq> VERIFICATION_BLOCKED)
   \<and> {(es, t). gate_run (Some PUBLISHED) es t} = {([], Some PUBLISHED)}
   \<and> {(es, t). gate_run (Some VERIFICATION_BLOCKED) es t} = {([], Some VERIFICATION_BLOCKED)}"
proof -
  have absorbing: "gate_run (Some u) es t \<longleftrightarrow> es = [] \<and> t = Some u"
    if "u = PUBLISHED \<or> u = VERIFICATION_BLOCKED" for u es t
    using that terminal_no_step by (cases es) auto
  then show ?thesis
    using route_publishes [of s] by auto
qed

theorem publish_needs_red_and_final_witness:
  "subseq [E_TEST_CONTRACT_APPROVED, E_RED_ALLOWED, E_RED_VERIFICATION_STARTED, E_RED_CONFIRMED,
     E_IMPLEMENTATION_STARTED, E_SUBMITTED, E_FINAL_VERIFICATION_STARTED,
     E_FINAL_VERIFICATION_PASSED] (since_authoring (E_START # route TEST_AUTHORING))"
  by (rule publish_needs_red_and_final [of _ PUBLISHED]) (simp_all add: route_def milestones_def)

end
