(* ===== verification/Canonical_Json.thy ===== *)
theory Canonical_Json
  imports Bridle_Prelude "HOL-Library.List_Lexorder" "HOL-Library.Char_ord"
begin

text \<open>
  The canonical JSON text every hash and every stored payload of the backend is built from:
  \<^verbatim>\<open>json.dumps(value, ensure_ascii=False, sort_keys=True, separators=(",", ":"))\<close>. Keys are
  sorted by code points, which is the lexicographic order of lists of characters.
\<close>

definition json_escape :: "char \<Rightarrow> string" where
  "json_escape c =
     (let n = (of_char c :: nat); b = char_of (92::nat) in
      if n = 34 \<or> n = 92 then [b, c]
      else if n = 10 then [b, CHR ''n'']
      else if n = 13 then [b, CHR ''r'']
      else if n = 9 then [b, CHR ''t'']
      else if n = 8 then [b, CHR ''b'']
      else if n = 12 then [b, CHR ''f'']
      else if n < 32 then [b, CHR ''u'', CHR ''0'', CHR ''0'', hex_digit (n div 16), hex_digit (n mod 16)]
      else [c])"

definition json_quote :: "string \<Rightarrow> string" where
  "json_quote s = [char_of (34::nat)] @ concat (map json_escape s) @ [char_of (34::nat)]"

fun canonical_json :: "json \<Rightarrow> string" where
  "canonical_json JNull = ''null''"
| "canonical_json (JBool b) = (if b then ''true'' else ''false'')"
| "canonical_json (JInt i) = int_str i"
| "canonical_json (JStr s) = json_quote s"
| "canonical_json (JList vs) = ''['' @ join_with '','' (map canonical_json vs) @ '']''"
| "canonical_json (JObj d) =
     ''{'' @ join_with '',''
       (map (\<lambda>(k, t). json_quote k @ '':'' @ t)
         (sort_key fst (map (\<lambda>(k, v). (k, canonical_json v)) d))) @ ''}''"

end
