(* ===== verification/Plan_Store.thy ===== *)
theory Plan_Store
  imports Modification_Workflow Canonical_Json
begin

text \<open>
  The verification tables of \<^verbatim>\<open>ProjectPlanStore\<close> (\<^verbatim>\<open>features/project_map/store.py\<close>) and
  the operations on test contracts and on the modification workflow. One operation is one
  SQLite transaction: an exception rolls it back, so an operation returns either the error
  or the result with the new store. \<open>db_clock\<close> is what CURRENT\_TIMESTAMP evaluates to.
  The SHA-256 digest of a text is the parameter \<open>sha\<close> of the operations that hash.
\<close>

section \<open>Tables\<close>

datatype contract_state = Frozen | Invalidated

record workflow_row =
  wf_node :: string
  wf_state :: mod_state
  wf_revision :: int
  wf_contract :: "string option"
  wf_updated_at :: int

record event_row =
  ev_id :: string
  ev_node :: string
  ev_event :: mod_event
  ev_from :: "mod_state option"
  ev_to :: mod_state
  ev_revision :: int
  ev_payload :: dict

record contract_row =
  tc_node :: string
  tc_version :: string
  tc_snapshot :: dict
  tc_state :: contract_state
  tc_reason :: "string option"
  tc_frozen_at :: int
  tc_invalidated_at :: "int option"

datatype run_phase = Red | Final

datatype run_state = Queued | Running | Completed | Failed

record run_row =
  vr_run_id :: string
  vr_node :: string
  vr_phase :: run_phase
  vr_source_revision :: int
  vr_contract :: string
  vr_candidate :: "string option"
  vr_state :: run_state
  vr_attempt :: int
  vr_next_retry_at :: "rat option"
  vr_max_attempts :: int
  vr_terminal_reason :: "string option"
  vr_lease_token :: "string option"
  vr_lease_expires_at :: "rat option"
  vr_outcome :: "dict option"
  vr_error_code :: "string option"

record change_row =
  ch_entity_type :: string
  ch_entity_id :: string
  ch_operation :: string
  ch_payload :: dict

record plan_store =
  workflows :: "workflow_row list"
  mod_events :: "event_row list"
  contracts :: "contract_row list"
  runs :: "run_row list"
  changes :: "change_row list"
  db_clock :: int

definition empty_store :: "int \<Rightarrow> plan_store" where
  "empty_store t = \<lparr>workflows = [], mod_events = [], contracts = [], runs = [], changes = [],
     db_clock = t\<rparr>"

definition record_change :: "plan_store \<Rightarrow> string \<Rightarrow> string \<Rightarrow> string \<Rightarrow> dict \<Rightarrow> plan_store" where
  "record_change s entity_type entity_id operation payload =
     s\<lparr>changes := changes s @ [\<lparr>ch_entity_type = entity_type, ch_entity_id = entity_id,
        ch_operation = operation, ch_payload = payload\<rparr>]\<rparr>"

definition latest_change_seq :: "plan_store \<Rightarrow> int" where
  "latest_change_seq s = int (length (changes s))"

section \<open>Reads\<close>

definition get_modification_workflow :: "plan_store \<Rightarrow> string \<Rightarrow> workflow_row option" where
  "get_modification_workflow s node = find (\<lambda>w. wf_node w = node) (workflows s)"

definition list_modification_events :: "plan_store \<Rightarrow> string \<Rightarrow> event_row list" where
  "list_modification_events s node = filter (\<lambda>e. ev_node e = node) (mod_events s)"

definition list_modification_workflows :: "plan_store \<Rightarrow> mod_state list \<Rightarrow> workflow_row list" where
  "list_modification_workflows s states =
     (if states = [] then []
      else sort_key (\<lambda>w. wf_updated_at w)
             (sort_key wf_node (filter (\<lambda>w. wf_state w \<in> set states) (workflows s))))"

definition get_active_test_contract :: "plan_store \<Rightarrow> string \<Rightarrow> contract_row option" where
  "get_active_test_contract s node =
     find (\<lambda>c. tc_node c = node \<and> tc_state c = Frozen) (contracts s)"

definition get_test_contract :: "plan_store \<Rightarrow> string \<Rightarrow> string \<Rightarrow> contract_row option" where
  "get_test_contract s node version =
     find (\<lambda>c. tc_node c = node \<and> tc_version c = version) (contracts s)"

section \<open>Freezing and invalidating a test contract\<close>

record contract_result =
  cr_node :: string
  cr_version :: string
  cr_state :: contract_state
  cr_reason :: "string option"
  cr_applied :: bool

definition contract_entity :: "string \<Rightarrow> string \<Rightarrow> string" where
  "contract_entity node version = node @ '':'' @ version"

definition freeze_test_contract ::
  "(string \<Rightarrow> string) \<Rightarrow> plan_store \<Rightarrow> string \<Rightarrow> string \<Rightarrow> dict \<Rightarrow> (contract_result \<times> plan_store) result"
where
  "freeze_test_contract sha s node version snapshot =
     (if get_str snapshot ''contract_version'' \<noteq> version
      then Inl (ValidationError ''test_contract'' ''Test contract snapshot version does not match'')
      else if sha (canonical_json (JObj (AList.delete ''contract_version'' snapshot))) \<noteq> version
      then Inl (ValidationError ''test_contract''
                 ''Test contract content hash does not match its version'')
      else (case get_test_contract s node version of
        Some c \<Rightarrow>
          (if canonical_json (JObj (tc_snapshot c)) \<noteq> canonical_json (JObj snapshot)
           then Inl (ConflictError ''test_contract'' ''test_contract_version_conflict'')
           else if tc_state c \<noteq> Frozen
           then Inl (ConflictError ''test_contract'' ''test_contract_version_invalidated'')
           else Inr (\<lparr>cr_node = node, cr_version = version, cr_state = Frozen, cr_reason = None,
                      cr_applied = False\<rparr>, s))
      | None \<Rightarrow>
          (case get_active_test_contract s node of
             Some _ \<Rightarrow> Inl (ConflictError ''test_contract'' ''test_contract_active_conflict'')
           | None \<Rightarrow>
               Inr (\<lparr>cr_node = node, cr_version = version, cr_state = Frozen, cr_reason = None,
                     cr_applied = True\<rparr>,
                 record_change
                   (s\<lparr>contracts := contracts s @
                      [\<lparr>tc_node = node, tc_version = version, tc_snapshot = snapshot,
                        tc_state = Frozen, tc_reason = None, tc_frozen_at = db_clock s,
                        tc_invalidated_at = None\<rparr>]\<rparr>)
                   ''test_contract'' (contract_entity node version) ''freeze''
                   [(''node_id'', JStr node), (''contract_version'', JStr version)]))))"

definition mark_invalidated ::
  "int \<Rightarrow> string \<Rightarrow> string \<Rightarrow> string \<Rightarrow> contract_row list \<Rightarrow> contract_row list" where
  "mark_invalidated now node version reason =
     update_rows (\<lambda>c. tc_node c = node \<and> tc_version c = version \<and> tc_state c = Frozen)
       (\<lambda>c. c\<lparr>tc_state := Invalidated, tc_reason := Some reason, tc_invalidated_at := Some now\<rparr>)"

definition invalidate_test_contract ::
  "plan_store \<Rightarrow> string \<Rightarrow> string \<Rightarrow> string \<Rightarrow> (contract_result \<times> plan_store) result" where
  "invalidate_test_contract s node version reason =
     (let normalized = strip reason in
      if normalized = []
      then Inl (ValidationError ''test_contract'' ''Test contract invalidation reason is required'')
      else (case get_test_contract s node version of
        None \<Rightarrow> Inl (NotFoundError ''test_contract'')
      | Some c \<Rightarrow>
          (if tc_state c = Invalidated
           then Inr (\<lparr>cr_node = node, cr_version = version, cr_state = Invalidated,
                      cr_reason = Some (case tc_reason c of None \<Rightarrow> [] | Some r \<Rightarrow> r),
                      cr_applied = False\<rparr>, s)
           else Inr (\<lparr>cr_node = node, cr_version = version, cr_state = Invalidated,
                      cr_reason = Some normalized, cr_applied = True\<rparr>,
             record_change
               (s\<lparr>contracts := mark_invalidated (db_clock s) node version normalized (contracts s)\<rparr>)
               ''test_contract'' (contract_entity node version) ''invalidate''
               [(''node_id'', JStr node), (''contract_version'', JStr version),
                (''reason'', JStr normalized)]))))"

section \<open>One modification transition\<close>

record transition_result =
  tr_node :: string
  tr_state :: mod_state
  tr_revision :: int
  tr_contract :: json
  tr_applied :: bool

text \<open>
  \<^verbatim>\<open>apply_modification_transition\<close> in the order of its text: an event identifier seen
  before is answered from its row, the revision and source state are checked, the event's
  effect on the test contracts is worked out, and the workflow, its event and a change are
  written.
\<close>

definition replay_transition ::
  "event_row \<Rightarrow> string \<Rightarrow> mod_event \<Rightarrow> mod_state \<Rightarrow> transition_result result" where
  "replay_transition r node event to_state =
     (if ev_node r \<noteq> node \<or> ev_event r \<noteq> event \<or> ev_to r \<noteq> to_state
      then Inl (ConflictError ''modification_workflow'' ''modification_event_conflict'')
      else Inr \<lparr>tr_node = node, tr_state = ev_to r, tr_revision = ev_revision r,
                tr_contract = dict_get (ev_payload r) ''test_contract_version'',
                tr_applied = False\<rparr>)"

definition transition_guard ::
  "mod_state option \<Rightarrow> int \<Rightarrow> int option \<Rightarrow> mod_state option list \<Rightarrow> bridle_error option" where
  "transition_guard current_state current_revision expected allowed =
     (if expected \<noteq> None \<and> expected \<noteq> Some current_revision
      then Some (ConflictError ''modification_workflow'' ''modification_revision_conflict'')
      else if current_state \<notin> set allowed
      then Some (ConflictError ''modification_workflow'' ''modification_transition_invalid'')
      else None)"

definition contract_effect ::
  "plan_store \<Rightarrow> string \<Rightarrow> mod_event \<Rightarrow> string option \<Rightarrow> dict \<Rightarrow>
   (string option \<times> dict \<times> contract_row list) result" where
  "contract_effect s node event current_version payload =
     (if event = E_TEST_CONTRACT_APPROVED \<or> event = E_RED_ALLOWED
      then (case get_active_test_contract s node of
          None \<Rightarrow> Inl (ConflictError ''test_contract'' ''test_contract_required'')
        | Some c \<Rightarrow>
            (if event \<noteq> E_TEST_CONTRACT_APPROVED \<and> current_version \<noteq> Some (tc_version c)
             then Inl (ConflictError ''test_contract'' ''test_contract_stale'')
             else Inr (if event = E_TEST_CONTRACT_APPROVED then Some (tc_version c)
                       else current_version,
                       dict_put payload ''test_contract_version'' (JStr (tc_version c)),
                       contracts s)))
      else if event = E_INVALID_TEST \<or> event = E_BASELINE_EXPIRED
      then (case current_version of
          None \<Rightarrow> Inr (None, payload, contracts s)
        | Some v \<Rightarrow>
            Inr (None, dict_put payload ''invalidated_contract_version'' (JStr v),
                 mark_invalidated (db_clock s) node v (event_value event) (contracts s)))
      else (case current_version of
          None \<Rightarrow> Inr (None, payload, contracts s)
        | Some v \<Rightarrow> Inr (Some v, dict_put payload ''test_contract_version'' (JStr v), contracts s)))"

definition opt_state :: "mod_state option \<Rightarrow> json" where
  "opt_state st = opt_str (map_option state_value st)"

definition transition_change ::
  "mod_event \<Rightarrow> string \<Rightarrow> mod_state option \<Rightarrow> mod_state \<Rightarrow> int \<Rightarrow> string option \<Rightarrow> dict" where
  "transition_change event event_id from_state to_state revision version =
     [(''event'', JStr (event_value event)), (''event_id'', JStr event_id),
      (''from_state'', opt_state from_state), (''to_state'', JStr (state_value to_state)),
      (''revision'', JInt revision), (''test_contract_version'', opt_str version)]"

definition write_workflow ::
  "plan_store \<Rightarrow> string \<Rightarrow> workflow_row option \<Rightarrow> mod_state \<Rightarrow> int \<Rightarrow> string option \<Rightarrow>
   workflow_row list result" where
  "write_workflow s node current to_state revision version =
     (case current of
        None \<Rightarrow> Inr (workflows s @
           [\<lparr>wf_node = node, wf_state = to_state, wf_revision = revision, wf_contract = version,
             wf_updated_at = db_clock s\<rparr>])
      | Some w \<Rightarrow>
          (let here = (\<lambda>x. wf_node x = node \<and> wf_revision x = wf_revision w) in
           if rowcount here (workflows s) \<noteq> 1
           then Inl (ConflictError ''modification_workflow'' ''modification_revision_conflict'')
           else Inr (update_rows here
             (\<lambda>x. x\<lparr>wf_state := to_state, wf_revision := revision, wf_contract := version,
                    wf_updated_at := db_clock s\<rparr>) (workflows s))))"

definition append_event ::
  "plan_store \<Rightarrow> string \<Rightarrow> string \<Rightarrow> mod_event \<Rightarrow> mod_state option \<Rightarrow> mod_state \<Rightarrow> int \<Rightarrow> dict \<Rightarrow>
   plan_store" where
  "append_event s event_id node event from_state to_state revision payload =
     s\<lparr>mod_events := mod_events s @
        [\<lparr>ev_id = event_id, ev_node = node, ev_event = event, ev_from = from_state,
          ev_to = to_state, ev_revision = revision, ev_payload = payload\<rparr>]\<rparr>"

definition apply_modification_transition ::
  "plan_store \<Rightarrow> string \<Rightarrow> mod_event \<Rightarrow> string \<Rightarrow> mod_state option list \<Rightarrow> mod_state \<Rightarrow>
   int option \<Rightarrow> dict \<Rightarrow> (transition_result \<times> plan_store) result" where
  "apply_modification_transition s node event event_id allowed to_state expected payload =
     (case find (\<lambda>e. ev_id e = event_id) (mod_events s) of
        Some r \<Rightarrow> bind_result (replay_transition r node event to_state) (\<lambda>res. Inr (res, s))
      | None \<Rightarrow>
          (let current = get_modification_workflow s node;
               current_state = map_option wf_state current;
               current_revision = (case current of None \<Rightarrow> 0 | Some w \<Rightarrow> wf_revision w);
               current_version = (case current of None \<Rightarrow> None | Some w \<Rightarrow> wf_contract w);
               revision = current_revision + 1
           in case transition_guard current_state current_revision expected allowed of
                Some e \<Rightarrow> Inl e
              | None \<Rightarrow>
                  bind_result (contract_effect s node event current_version payload)
                    (\<lambda>(version, safe_payload, tcs).
                  bind_result (write_workflow s node current to_state revision version)
                    (\<lambda>wfs.
                  Inr (\<lparr>tr_node = node, tr_state = to_state, tr_revision = revision,
                        tr_contract = opt_str version, tr_applied = True\<rparr>,
                       record_change
                         (append_event (s\<lparr>workflows := wfs, contracts := tcs\<rparr>)
                           event_id node event current_state to_state revision safe_payload)
                         ''modification_workflow'' node ''transition''
                         (transition_change event event_id current_state to_state revision
                           version))))))"

text \<open>\<^verbatim>\<open>ModificationWorkflow.apply\<close>, over any store operation with this interface.\<close>

definition workflow_apply ::
  "('s \<Rightarrow> string \<Rightarrow> mod_event \<Rightarrow> string \<Rightarrow> mod_state option list \<Rightarrow> mod_state \<Rightarrow> int option \<Rightarrow>
     dict \<Rightarrow> (transition_result \<times> 's) result) \<Rightarrow>
   's \<Rightarrow> string \<Rightarrow> mod_event \<Rightarrow> string \<Rightarrow> int option \<Rightarrow> dict \<Rightarrow> (transition_result \<times> 's) result" where
  "workflow_apply store_apply s node event event_id expected payload =
     (case transitions event of (allowed, target) \<Rightarrow>
        store_apply s node event event_id allowed target expected payload)"

definition apply_event ::
  "plan_store \<Rightarrow> string \<Rightarrow> mod_event \<Rightarrow> string \<Rightarrow> int option \<Rightarrow> dict \<Rightarrow>
   (transition_result \<times> plan_store) result" where
  "apply_event = workflow_apply apply_modification_transition"

end
