(* ===== verification/Gate_Invariants.thy ===== *)
theory Gate_Invariants
  imports Plan_Store
begin

text \<open>
  What the store operations keep: one workflow row per node, one row per event identifier,
  one contract row per version and one frozen contract per node, an event trail that replays
  through the gate to the persisted state with consecutive revisions, and a recorded
  contract version that exists. The interface \<^verbatim>\<open>ModificationStore\<close> of the source is the
  locale \<open>modification_store\<close>, interpreted on the store.
\<close>

section \<open>Well-formed stores\<close>

definition contracts_ok :: "contract_row list \<Rightarrow> bool" where
  "contracts_ok cs \<longleftrightarrow> unique_key (\<lambda>c. (tc_node c, tc_version c)) cs
     \<and> unique_key tc_node (filter (\<lambda>c. tc_state c = Frozen) cs)"

definition trail :: "plan_store \<Rightarrow> string \<Rightarrow> mod_event list" where
  "trail s node = map ev_event (list_modification_events s node)"

definition revisions_ok :: "event_row list \<Rightarrow> bool" where
  "revisions_ok evs \<longleftrightarrow> map ev_revision evs = map int [1..<Suc (length evs)]"

lemma revisions_ok_snoc:
  "revisions_ok evs \<Longrightarrow> ev_revision e = int (length evs) + 1 \<Longrightarrow> revisions_ok (evs @ [e])"
  by (simp add: revisions_ok_def)

definition trail_ok :: "plan_store \<Rightarrow> string \<Rightarrow> bool" where
  "trail_ok s node \<longleftrightarrow> (case get_modification_workflow s node of
      None \<Rightarrow> list_modification_events s node = []
    | Some w \<Rightarrow> gate_run None (trail s node) (Some (wf_state w))
        \<and> revisions_ok (list_modification_events s node)
        \<and> wf_revision w = int (length (list_modification_events s node)))"

definition bound_ok :: "contract_row list \<Rightarrow> workflow_row \<Rightarrow> bool" where
  "bound_ok cs w \<longleftrightarrow> (case wf_contract w of
      None \<Rightarrow> wf_state w = TEST_AUTHORING
    | Some v \<Rightarrow> wf_state w \<noteq> TEST_AUTHORING
        \<and> (\<exists>c \<in> set cs. tc_node c = wf_node w \<and> tc_version c = v))"

definition store_ok :: "plan_store \<Rightarrow> bool" where
  "store_ok s \<longleftrightarrow> unique_key wf_node (workflows s) \<and> unique_key ev_id (mod_events s)
     \<and> contracts_ok (contracts s) \<and> (\<forall>node. trail_ok s node)
     \<and> (\<forall>w \<in> set (workflows s). bound_ok (contracts s) w)"

lemma store_ok_empty: "store_ok (empty_store t)"
  by (simp add: store_ok_def empty_store_def unique_key_def contracts_ok_def trail_ok_def
      get_modification_workflow_def list_modification_events_def)

lemma list_modification_events_append [simp]:
  "list_modification_events (append_event s eid node e f t r p) node' =
     list_modification_events s node' @
     (if node' = node then [\<lparr>ev_id = eid, ev_node = node, ev_event = e, ev_from = f, ev_to = t,
        ev_revision = r, ev_payload = p\<rparr>] else [])"
  by (simp add: list_modification_events_def append_event_def)

lemma record_change_frame [simp]:
  "workflows (record_change s a b c d) = workflows s"
  "mod_events (record_change s a b c d) = mod_events s"
  "contracts (record_change s a b c d) = contracts s"
  "runs (record_change s a b c d) = runs s"
  "db_clock (record_change s a b c d) = db_clock s"
  "get_modification_workflow (record_change s a b c d) n = get_modification_workflow s n"
  "list_modification_events (record_change s a b c d) n = list_modification_events s n"
  by (simp_all add: record_change_def get_modification_workflow_def list_modification_events_def)

lemma append_event_frame [simp]:
  "workflows (append_event s eid node e f t r p) = workflows s"
  "contracts (append_event s eid node e f t r p) = contracts s"
  "runs (append_event s eid node e f t r p) = runs s"
  "get_modification_workflow (append_event s eid node e f t r p) n = get_modification_workflow s n"
  by (simp_all add: append_event_def get_modification_workflow_def)

lemma mod_events_append_event [simp]:
  "mod_events (append_event s eid node e f t r p) = mod_events s @
     [\<lparr>ev_id = eid, ev_node = node, ev_event = e, ev_from = f, ev_to = t, ev_revision = r,
       ev_payload = p\<rparr>]"
  by (simp add: append_event_def)

lemma contracts_update_frame [simp]:
  "get_modification_workflow (s\<lparr>contracts := cs\<rparr>) n = get_modification_workflow s n"
  "list_modification_events (s\<lparr>contracts := cs\<rparr>) n = list_modification_events s n"
  by (simp_all add: get_modification_workflow_def list_modification_events_def)

lemma workflows_update_frame [simp]:
  "get_modification_workflow (s\<lparr>workflows := wfs\<rparr>) n = find (\<lambda>w. wf_node w = n) wfs"
  "list_modification_events (s\<lparr>workflows := wfs\<rparr>) n = list_modification_events s n"
  by (simp_all add: get_modification_workflow_def list_modification_events_def)

lemma trail_ok_frame [simp]:
  "trail_ok (record_change s a b c d) n = trail_ok s n"
  "trail_ok (s\<lparr>contracts := cs\<rparr>) n = trail_ok s n"
  by (simp_all add: trail_ok_def trail_def split: option.split)

section \<open>Contracts\<close>

lemma mark_invalidated_keys [simp]:
  "map (\<lambda>c. (tc_node c, tc_version c)) (mark_invalidated now n v r cs)
     = map (\<lambda>c. (tc_node c, tc_version c)) cs"
  by (auto simp: mark_invalidated_def intro: map_update_rows)

lemma filter_frozen_mark:
  "filter (\<lambda>c. tc_state c = Frozen) (mark_invalidated now n v r cs)
     = filter (\<lambda>c. tc_state c = Frozen \<and> \<not> (tc_node c = n \<and> tc_version c = v)) cs"
  by (induction cs) (auto simp: mark_invalidated_def)

lemma distinct_map_filter_weaker:
  "distinct (map f (filter P xs)) \<Longrightarrow> distinct (map f (filter (\<lambda>x. P x \<and> Q x) xs))"
  by (induction xs) (auto split: if_splits)

lemma contracts_ok_mark: "contracts_ok cs \<Longrightarrow> contracts_ok (mark_invalidated now n v r cs)"
  unfolding contracts_ok_def unique_key_def mark_invalidated_keys filter_frozen_mark
  using distinct_map_filter_weaker
    [of tc_node "\<lambda>c. tc_state c = Frozen" cs "\<lambda>c. \<not> (tc_node c = n \<and> tc_version c = v)"]
  by simp

lemma has_contract_keys:
  "(\<exists>c \<in> set cs. tc_node c = a \<and> tc_version c = b)
     \<longleftrightarrow> (a, b) \<in> set (map (\<lambda>c. (tc_node c, tc_version c)) cs)"
  by auto

lemma mark_invalidated_has:
  "(\<exists>c \<in> set (mark_invalidated now n v r cs). tc_node c = a \<and> tc_version c = b)
     \<longleftrightarrow> (\<exists>c \<in> set cs. tc_node c = a \<and> tc_version c = b)"
  unfolding has_contract_keys mark_invalidated_keys ..

lemma get_active_SomeD:
  "get_active_test_contract s n = Some c \<Longrightarrow>
     c \<in> set (contracts s) \<and> tc_node c = n \<and> tc_state c = Frozen"
  by (auto simp: get_active_test_contract_def dest: find_SomeD)

lemma contracts_ok_freeze:
  assumes "contracts_ok cs" and "find (\<lambda>c. tc_node c = n \<and> tc_version c = v) cs = None"
    and "find (\<lambda>c. tc_node c = n \<and> tc_state c = Frozen) cs = None"
    and "tc_node c = n" "tc_version c = v"
  shows "contracts_ok (cs @ [c])"
proof -
  have "\<forall>x \<in> set cs. \<not> (tc_node x = n \<and> tc_version x = v)"
    and "\<forall>x \<in> set cs. \<not> (tc_node x = n \<and> tc_state x = Frozen)"
    using assms(2,3) by (auto simp: find_None_iff)
  with assms(1,4,5) show ?thesis
    by (auto simp: contracts_ok_def unique_key_append1)
qed

lemma bound_ok_mono:
  assumes "bound_ok cs w" and "\<And>n v. \<exists>c \<in> set cs. tc_node c = n \<and> tc_version c = v
     \<Longrightarrow> \<exists>c \<in> set cs'. tc_node c = n \<and> tc_version c = v"
  shows "bound_ok cs' w"
  using assms by (auto simp: bound_ok_def split: option.splits)

lemma store_ok_contracts:
  assumes "store_ok s" and "contracts_ok cs"
    and "\<And>n v. \<exists>c \<in> set (contracts s). tc_node c = n \<and> tc_version c = v
     \<Longrightarrow> \<exists>c \<in> set cs. tc_node c = n \<and> tc_version c = v"
  shows "store_ok (record_change (s\<lparr>contracts := cs\<rparr>) a b c d)"
  using assms(1,2) bound_ok_mono [OF _ assms(3)] by (auto simp: store_ok_def)

lemma store_ok_contractsD: "store_ok s \<Longrightarrow> contracts_ok (contracts s)"
  by (simp add: store_ok_def)

lemma store_ok_freeze:
  "store_ok s \<Longrightarrow> freeze_test_contract sha s n v snap = Inr (r, s') \<Longrightarrow> store_ok s'"
  unfolding freeze_test_contract_def
  by (auto split: if_splits option.splits simp: get_test_contract_def get_active_test_contract_def
      intro!: store_ok_contracts contracts_ok_freeze store_ok_contractsD)

lemma store_ok_invalidate:
  "store_ok s \<Longrightarrow> invalidate_test_contract s n v reason = Inr (r, s') \<Longrightarrow> store_ok s'"
  unfolding invalidate_test_contract_def Let_def
  by (auto split: if_splits option.splits intro!: store_ok_contracts contracts_ok_mark store_ok_contractsD
      simp: mark_invalidated_has)

section \<open>The transition\<close>

lemma apply_transition_cases:
  assumes "apply_modification_transition s n e eid allowed to expd p = Inr (res, s')"
  obtains (replayed) r where "find (\<lambda>x. ev_id x = eid) (mod_events s) = Some r"
      "replay_transition r n e to = Inr res" "s' = s"
  | (applied) cur version sp tcs wfs where "find (\<lambda>x. ev_id x = eid) (mod_events s) = None"
      "cur = get_modification_workflow s n"
      "transition_guard (map_option wf_state cur)
         (case cur of None \<Rightarrow> 0 | Some w \<Rightarrow> wf_revision w) expd allowed = None"
      "contract_effect s n e (case cur of None \<Rightarrow> None | Some w \<Rightarrow> wf_contract w) p
         = Inr (version, sp, tcs)"
      "write_workflow s n cur to ((case cur of None \<Rightarrow> 0 | Some w \<Rightarrow> wf_revision w) + 1) version
         = Inr wfs"
      "res = \<lparr>tr_node = n, tr_state = to,
         tr_revision = (case cur of None \<Rightarrow> 0 | Some w \<Rightarrow> wf_revision w) + 1,
         tr_contract = opt_str version, tr_applied = True\<rparr>"
      "s' = record_change
         (append_event (s\<lparr>workflows := wfs, contracts := tcs\<rparr>) eid n e (map_option wf_state cur) to
           ((case cur of None \<Rightarrow> 0 | Some w \<Rightarrow> wf_revision w) + 1) sp)
         ''modification_workflow'' n ''transition''
         (transition_change e eid (map_option wf_state cur) to
           ((case cur of None \<Rightarrow> 0 | Some w \<Rightarrow> wf_revision w) + 1) version)"
  using assms
  by (fastforce simp: apply_modification_transition_def Let_def bind_result_Inr
      split: option.splits)

lemma replay_not_applied: "replay_transition r n e to = Inr res \<Longrightarrow> \<not> tr_applied res"
  by (auto simp: replay_transition_def split: if_splits)

lemma guard_allowed: "transition_guard st rv expd allowed = None \<Longrightarrow> st \<in> set allowed"
  by (auto simp: transition_guard_def split: if_splits)

lemma contract_effect_rows:
  assumes "contract_effect s n e cur p = Inr (v, sp, tcs)" and "contracts_ok (contracts s)"
  shows "contracts_ok tcs"
    and "\<exists>c \<in> set (contracts s). tc_node c = a \<and> tc_version c = b
          \<Longrightarrow> \<exists>c \<in> set tcs. tc_node c = a \<and> tc_version c = b"
proof -
  have "tcs = contracts s \<or> (\<exists>u. tcs = mark_invalidated (db_clock s) n u (event_value e) (contracts s))"
    using assms(1) by (auto simp: contract_effect_def split: if_splits option.splits)
  then show "contracts_ok tcs"
    and "\<exists>c \<in> set (contracts s). tc_node c = a \<and> tc_version c = b
          \<Longrightarrow> \<exists>c \<in> set tcs. tc_node c = a \<and> tc_version c = b"
    using assms(2) by (auto simp: contracts_ok_mark mark_invalidated_has)
qed

lemma contract_effect_bound:
  assumes "contract_effect s n e ver p = Inr (v, sp, tcs)"
    and "st \<in> set (allowed_from e)"
    and "\<And>x. st = Some x \<Longrightarrow> bound_ok (contracts s)
           \<lparr>wf_node = n, wf_state = x, wf_revision = r, wf_contract = ver, wf_updated_at = t\<rparr>"
    and "st = None \<Longrightarrow> ver = None"
  shows "bound_ok (contracts s) \<lparr>wf_node = n, wf_state = target_of e, wf_revision = r',
           wf_contract = v, wf_updated_at = t'\<rparr>"
  using assms
  by (cases e) (auto simp: contract_effect_def bound_ok_def
      split: if_splits option.splits dest!: get_active_SomeD)

lemma write_workflow_rows:
  assumes "unique_key wf_node (workflows s)" and "cur = get_modification_workflow s n"
    and "write_workflow s n cur to rv ver = Inr wfs"
  defines "w' \<equiv> \<lparr>wf_node = n, wf_state = to, wf_revision = rv, wf_contract = ver,
                 wf_updated_at = db_clock s\<rparr>"
  shows "unique_key wf_node wfs"
    and "find (\<lambda>w. wf_node w = m) wfs
          = (if m = n then Some w' else find (\<lambda>w. wf_node w = m) (workflows s))"
    and "w \<in> set wfs \<Longrightarrow> w = w' \<or> w \<in> set (workflows s) \<and> wf_node w \<noteq> n"
proof -
  have *: "unique_key wf_node wfs \<and>
      find (\<lambda>w. wf_node w = m) wfs
        = (if m = n then Some w' else find (\<lambda>w. wf_node w = m) (workflows s)) \<and>
      (w \<in> set wfs \<longrightarrow> w = w' \<or> w \<in> set (workflows s) \<and> wf_node w \<noteq> n)"
  proof (cases cur)
    case None
    then have "\<forall>w \<in> set (workflows s). wf_node w \<noteq> n"
      using assms(2) by (auto simp: get_modification_workflow_def find_None_iff)
    moreover have "wfs = workflows s @ [w']"
      using assms(3) None by (simp add: write_workflow_def w'_def)
    ultimately show ?thesis
      using assms(1) by (auto simp: table_simps find_append w'_def split: option.splits dest: find_SomeD)
  next
    case (Some w0)
    then have w0: "w0 \<in> set (workflows s)" "wf_node w0 = n"
      using assms(2) by (auto simp: get_modification_workflow_def dest: find_SomeD)
    let ?P = "\<lambda>x. wf_node x = n \<and> wf_revision x = wf_revision w0"
    let ?f = "\<lambda>x. x\<lparr>wf_state := to, wf_revision := rv, wf_contract := ver,
                wf_updated_at := db_clock s\<rparr>"
    have wfs: "wfs = update_rows ?P ?f (workflows s)"
      using assms(3) Some by (auto simp: write_workflow_def Let_def split: if_splits)
    have eq: "x = w0" if "x \<in> set (workflows s)" "wf_node x = n" for x
      using assms(1) that w0 by (auto dest: unique_keyD)
    have f: "?f w0 = w'" using w0(2) by (simp add: w'_def)
    have uniq: "unique_key wf_node wfs"
      unfolding wfs using assms(1) by (subst unique_key_update) simp_all
    have members: "w = w' \<or> w \<in> set (workflows s) \<and> wf_node w \<noteq> n" if "w \<in> set wfs"
    proof -
      from that obtain x where x: "x \<in> set (workflows s)" "w = (if ?P x then ?f x else x)"
        unfolding wfs in_update_rows by blast
      show ?thesis
      proof (cases "wf_node x = n")
        case True
        with x eq have "x = w0" by blast
        with x(2) w0 f show ?thesis by simp
      next
        case False
        with x show ?thesis by simp
      qed
    qed
    have find: "find (\<lambda>w. wf_node w = m) wfs
        = map_option (\<lambda>r. if ?P r then ?f r else r) (find (\<lambda>w. wf_node w = m) (workflows s))"
      unfolding wfs by (rule find_update_rows) simp
    have "find (\<lambda>w. wf_node w = m) wfs
        = (if m = n then Some w' else find (\<lambda>w. wf_node w = m) (workflows s))"
    proof (cases "m = n")
      case True
      moreover have "find (\<lambda>w. wf_node w = n) (workflows s) = Some w0"
        using Some assms(2) by (simp add: get_modification_workflow_def)
      ultimately show ?thesis using find w0 f by simp
    next
      case False
      then show ?thesis
        unfolding find
        by (cases "find (\<lambda>w. wf_node w = m) (workflows s)") (auto dest: find_SomeD)
    qed
    with uniq members show ?thesis by blast
  qed
  show "unique_key wf_node wfs"
    and "find (\<lambda>w. wf_node w = m) wfs
          = (if m = n then Some w' else find (\<lambda>w. wf_node w = m) (workflows s))"
    and "w \<in> set wfs \<Longrightarrow> w = w' \<or> w \<in> set (workflows s) \<and> wf_node w \<noteq> n"
    using * by blast+
qed

lemma store_ok_trailD: "store_ok s \<Longrightarrow> trail_ok s n"
  by (simp add: store_ok_def)

lemma workflow_ok_trail:
  "store_ok s \<Longrightarrow> get_modification_workflow s n = Some w \<Longrightarrow>
     gate_run None (trail s n) (Some (wf_state w))
     \<and> wf_revision w = int (length (list_modification_events s n))
     \<and> revisions_ok (list_modification_events s n)"
  using store_ok_trailD [of s n] by (simp add: trail_ok_def)

lemma no_workflow_no_events:
  "store_ok s \<Longrightarrow> get_modification_workflow s n = None \<Longrightarrow> list_modification_events s n = []"
  using store_ok_trailD [of s n] by (simp add: trail_ok_def)

lemma trail_ok_step:
  assumes ok: "store_ok s" and cur: "cur = get_modification_workflow s n"
    and st: "map_option wf_state cur \<in> set (allowed_from e)"
    and evs: "list_modification_events s' n = list_modification_events s n @ [x]"
    and x: "ev_event x = e" "ev_revision x = (case cur of None \<Rightarrow> 0 | Some w \<Rightarrow> wf_revision w) + 1"
    and w': "get_modification_workflow s' n = Some w'"
    and to: "wf_state w' = target_of e" "wf_revision w' = ev_revision x"
  shows "trail_ok s' n"
proof -
  have run: "gate_run None (trail s n) (map_option wf_state cur)"
    and rev: "(case cur of None \<Rightarrow> 0 | Some w \<Rightarrow> wf_revision w)
                = int (length (list_modification_events s n))"
    and revs: "revisions_ok (list_modification_events s n)"
    using workflow_ok_trail [OF ok, of n] no_workflow_no_events [OF ok, of n] cur
    by (cases "get_modification_workflow s n"; simp add: trail_def revisions_ok_def)+
  have "gate_run None (trail s' n) (Some (wf_state w'))"
    using run st to x by (auto simp: trail_def evs gate_run_snoc)
  then show ?thesis
    using w' to x rev revs by (simp add: trail_ok_def evs revisions_ok_snoc)
qed

text \<open>The writes every accepted transition makes, whoever issues it.\<close>

lemma store_ok_step:
  assumes ok: "store_ok s" and cur: "cur = get_modification_workflow s n"
    and st: "map_option wf_state cur \<in> set (allowed_from e)"
    and fresh: "find (\<lambda>x. ev_id x = eid) (mod_events s) = None"
  defines "r \<equiv> (case cur of None \<Rightarrow> 0 | Some w \<Rightarrow> wf_revision w) + 1"
  assumes wfs: "write_workflow s n cur (target_of e) r version = Inr wfs"
    and tcs: "contracts_ok tcs"
      "\<And>a b. \<exists>c \<in> set (contracts s). tc_node c = a \<and> tc_version c = b
         \<Longrightarrow> \<exists>c \<in> set tcs. tc_node c = a \<and> tc_version c = b"
    and bound: "bound_ok (contracts s) \<lparr>wf_node = n, wf_state = target_of e, wf_revision = r,
         wf_contract = version, wf_updated_at = db_clock s\<rparr>"
  shows "store_ok (record_change (append_event (s\<lparr>workflows := wfs, contracts := tcs\<rparr>) eid n e
           (map_option wf_state cur) (target_of e) r sp) a b c d)" (is "store_ok ?s'")
proof -
  let ?w = "\<lparr>wf_node = n, wf_state = target_of e, wf_revision = r,
             wf_contract = version, wf_updated_at = db_clock s\<rparr>"
  have uniq: "unique_key wf_node (workflows s)" using ok by (simp add: store_ok_def)
  note rows = write_workflow_rows [OF uniq cur wfs]
  have "trail_ok ?s' m" for m
  proof (cases "m = n")
    case True
    show ?thesis
      unfolding True
      by (rule trail_ok_step [OF ok cur st, where w' = ?w and
            x = "\<lparr>ev_id = eid, ev_node = n, ev_event = e, ev_from = map_option wf_state cur,
              ev_to = target_of e, ev_revision = r, ev_payload = sp\<rparr>"])
        (simp_all add: rows(2) r_def)
  next
    case False
    then have "trail_ok ?s' m = trail_ok s m"
      by (simp add: trail_ok_def trail_def rows(2)
          get_modification_workflow_def [symmetric] cong: option.case_cong)
    with ok show ?thesis by (simp add: store_ok_def)
  qed
  moreover have "unique_key ev_id (mod_events ?s')"
    using ok fresh by (auto simp: store_ok_def table_simps find_None_iff)
  moreover have "bound_ok tcs w" if "w \<in> set wfs" for w
    using rows(3) [OF that] bound ok bound_ok_mono [OF _ tcs(2)] by (auto simp: store_ok_def)
  ultimately show ?thesis using rows(1) tcs(1) by (simp add: store_ok_def)
qed

lemma store_ok_transition:
  assumes ok: "store_ok s"
    and ap: "apply_modification_transition s n e eid (allowed_from e) (target_of e) expd p
               = Inr (res, s')"
  shows "store_ok s'"
  using ap
proof (cases rule: apply_transition_cases)
  case replayed
  with ok show ?thesis by simp
next
  case (applied cur version sp tcs wfs)
  have cok: "contracts_ok (contracts s)" using ok by (auto simp: store_ok_def)
  have st: "map_option wf_state cur \<in> set (allowed_from e)"
    using applied(3) by (rule guard_allowed)
  have bound: "bound_ok (contracts s) \<lparr>wf_node = n, wf_state = target_of e,
      wf_revision = (case cur of None \<Rightarrow> 0 | Some w \<Rightarrow> wf_revision w) + 1,
      wf_contract = version, wf_updated_at = db_clock s\<rparr>"
  proof (rule contract_effect_bound [OF applied(4) st])
    fix x assume "map_option wf_state cur = Some x"
    then obtain w where w: "cur = Some w" "x = wf_state w" by auto
    then have "w \<in> set (workflows s)" "wf_node w = n"
      using applied(2) by (auto simp: get_modification_workflow_def dest: find_SomeD)
    with ok have "bound_ok (contracts s) w" by (auto simp: store_ok_def)
    with w \<open>wf_node w = n\<close> show "bound_ok (contracts s) \<lparr>wf_node = n, wf_state = x, wf_revision = 0,
        wf_contract = (case cur of None \<Rightarrow> None | Some w \<Rightarrow> wf_contract w), wf_updated_at = 0\<rparr>"
      by (simp add: bound_ok_def split: option.splits)
  qed auto
  show ?thesis
    unfolding applied(7)
    by (rule store_ok_step [OF ok applied(2) st applied(1,5) contract_effect_rows(1) [OF applied(4) cok]
          contract_effect_rows(2) [OF applied(4) cok] bound])
qed

lemma store_ok_apply_event:
  "store_ok s \<Longrightarrow> apply_event s n e eid expd p = Inr (res, s') \<Longrightarrow> store_ok s'"
  by (auto simp: apply_event_def workflow_apply_def case_prod_beta intro: store_ok_transition)

section \<open>The store interface of the workflow\<close>

text \<open>
  \<^verbatim>\<open>class ModificationStore(Protocol)\<close>: what \<^verbatim>\<open>ModificationWorkflow\<close> relies on. A command
  is the argument list of one \<^verbatim>\<open>apply\<close>; a rejected command leaves the store as it was.
\<close>

type_synonym gate_command = "string \<times> mod_event \<times> string \<times> int option \<times> dict"

fun run_commands ::
  "('s \<Rightarrow> string \<Rightarrow> mod_event \<Rightarrow> string \<Rightarrow> mod_state option list \<Rightarrow> mod_state \<Rightarrow> int option \<Rightarrow>
     dict \<Rightarrow> (transition_result \<times> 's) result) \<Rightarrow> 's \<Rightarrow> gate_command list \<Rightarrow> 's" where
  "run_commands ap s [] = s"
| "run_commands ap s ((n, e, eid, expd, p) # cs) =
     (case workflow_apply ap s n e eid expd p of
        Inl _ \<Rightarrow> run_commands ap s cs
      | Inr (_, s') \<Rightarrow> run_commands ap s' cs)"

locale modification_store =
  fixes workflow_of :: "'s \<Rightarrow> string \<Rightarrow> workflow_row option"
    and events_of :: "'s \<Rightarrow> string \<Rightarrow> event_row list"
    and store_apply :: "'s \<Rightarrow> string \<Rightarrow> mod_event \<Rightarrow> string \<Rightarrow> mod_state option list \<Rightarrow>
          mod_state \<Rightarrow> int option \<Rightarrow> dict \<Rightarrow> (transition_result \<times> 's) result"
    and ok :: "'s \<Rightarrow> bool"
  assumes ok_apply: "ok s \<Longrightarrow> workflow_apply store_apply s n e eid expd p = Inr (res, s') \<Longrightarrow> ok s'"
    and ok_trail: "ok s \<Longrightarrow> workflow_of s n = Some w \<Longrightarrow>
          gate_run None (map ev_event (events_of s n)) (Some (wf_state w))"
    and apply_replayed: "workflow_apply store_apply s n e eid expd p = Inr (res, s') \<Longrightarrow>
          \<not> tr_applied res \<Longrightarrow> s' = s"
    and apply_state: "ok s \<Longrightarrow> workflow_apply store_apply s n e eid expd p = Inr (res, s') \<Longrightarrow>
          tr_applied res \<Longrightarrow> map_option wf_state (workflow_of s n) \<in> set (allowed_from e)
            \<and> map_option wf_state (workflow_of s' n) = Some (target_of e)"
    and apply_events: "ok s \<Longrightarrow> workflow_apply store_apply s n e eid expd p = Inr (res, s') \<Longrightarrow>
          tr_applied res \<Longrightarrow> map ev_event (events_of s' n) = map ev_event (events_of s n) @ [e]"
    and apply_frame: "ok s \<Longrightarrow> workflow_apply store_apply s n e eid expd p = Inr (res, s') \<Longrightarrow>
          m \<noteq> n \<Longrightarrow> workflow_of s' m = workflow_of s m \<and> events_of s' m = events_of s m"
begin

lemma ok_run: "ok s \<Longrightarrow> ok (run_commands store_apply s cs)"
  by (induction cs arbitrary: s) (auto split: sum.splits, blast intro: ok_apply)

lemma trail_extends:
  "ok s \<Longrightarrow> \<exists>es. map ev_event (events_of (run_commands store_apply s cs) n)
                = map ev_event (events_of s n) @ es"
proof (induction cs arbitrary: s)
  case Nil
  then show ?case by simp
next
  case (Cons c cs)
  obtain m e eid expd p where c: "c = (m, e, eid, expd, p)" by (cases c)
  show ?case
  proof (cases "workflow_apply store_apply s m e eid expd p")
    case (Inl err)
    with Cons c show ?thesis by simp
  next
    case (Inr rs)
    obtain res s' where rs: "rs = (res, s')" by (cases rs)
    note ap = Inr [unfolded rs]
    have ok': "ok s'" using Cons.prems ap by (rule ok_apply)
    have "\<exists>es. map ev_event (events_of s' n) = map ev_event (events_of s n) @ es"
      using apply_replayed [OF ap] apply_events [OF Cons.prems ap] apply_frame [OF Cons.prems ap, of n]
      by (cases "tr_applied res"; cases "n = m") auto
    with Cons.IH [OF ok'] ap c show ?thesis by auto
  qed
qed

lemma published_trail:
  assumes "ok s" and "workflow_of (run_commands store_apply s cs) n = Some w"
    and "wf_state w = READY_TO_PUBLISH \<or> wf_state w = PUBLISHED"
  shows "subseq (take 8 milestones)
           (since_authoring (map ev_event (events_of (run_commands store_apply s cs) n)))"
proof -
  have "gate_run None (map ev_event (events_of (run_commands store_apply s cs) n)) (Some (wf_state w))"
    using ok_run [OF assms(1)] assms(2) by (rule ok_trail)
  from presupposed_subseq [OF this] assms(3) show ?thesis
    by (auto simp: milestones_def intro: subseq_order.order_trans [rotated])
qed

end

lemma apply_event_applied:
  assumes ok: "store_ok s" and ap: "apply_event s n e eid expd p = Inr (res, s')"
    and applied: "tr_applied res"
  shows "map_option wf_state (get_modification_workflow s n) \<in> set (allowed_from e)"
    and "map_option wf_state (get_modification_workflow s' n) = Some (target_of e)"
    and "m \<noteq> n \<Longrightarrow> get_modification_workflow s' m = get_modification_workflow s m"
    and "map ev_event (list_modification_events s' n)
           = map ev_event (list_modification_events s n) @ [e]"
    and "m \<noteq> n \<Longrightarrow> list_modification_events s' m = list_modification_events s m"
proof -
  have *: "apply_modification_transition s n e eid (allowed_from e) (target_of e) expd p = Inr (res, s')"
    using ap by (simp add: apply_event_def workflow_apply_def case_prod_beta)
  have uniq: "unique_key wf_node (workflows s)" using ok by (simp add: store_ok_def)
  from * have "map_option wf_state (get_modification_workflow s n) \<in> set (allowed_from e)\<and> map_option wf_state (get_modification_workflow s' n) = Some (target_of e) \<and> (m \<noteq> n \<longrightarrow> get_modification_workflow s' m = get_modification_workflow s m) \<and> map ev_event (list_modification_events s' n)
           = map ev_event (list_modification_events s n) @ [e] \<and>
      (m \<noteq> n \<longrightarrow> list_modification_events s' m = list_modification_events s m)"
  proof (cases rule: apply_transition_cases)
    case replayed
    with applied show ?thesis by (auto dest: replay_not_applied)
  next
    case (applied cur version sp tcs wfs)
    note find = write_workflow_rows(2) [OF uniq applied(2) applied(5)]
    have "map_option wf_state cur \<in> set (allowed_from e)"
      using applied(3) by (rule guard_allowed)
    then show ?thesis
      using applied(2) by (simp add: applied(7) find) (simp add: get_modification_workflow_def)
  qed
  then show "map_option wf_state (get_modification_workflow s n) \<in> set (allowed_from e)"
    "map_option wf_state (get_modification_workflow s' n) = Some (target_of e)"
    "m \<noteq> n \<Longrightarrow> get_modification_workflow s' m = get_modification_workflow s m"
    "map ev_event (list_modification_events s' n)
           = map ev_event (list_modification_events s n) @ [e]"
    "m \<noteq> n \<Longrightarrow> list_modification_events s' m = list_modification_events s m"
    by blast+
qed

lemma apply_event_replayed:
  "apply_event s n e eid expd p = Inr (res, s') \<Longrightarrow> \<not> tr_applied res \<Longrightarrow> s' = s"
  by (auto simp: apply_event_def workflow_apply_def case_prod_beta elim!: apply_transition_cases)

interpretation plan_gate: modification_store get_modification_workflow list_modification_events
  apply_modification_transition store_ok
  by (unfold_locales, fold apply_event_def)
    (auto simp: trail_def [symmetric] workflow_ok_trail
      dest: store_ok_apply_event apply_event_replayed apply_event_applied)

end
