(* ===== verification/Verification_Runs.thy ===== *)
theory Verification_Runs
  imports Gate_Invariants
begin

text \<open>
  The durable queue of authoritative verification runs in \<^verbatim>\<open>ProjectPlanStore\<close>: enqueue,
  claim under a lease, renew, defer with a retry limit and an exponential backoff, the block of
  the workflow when the retries are exhausted, and completion. Times are exact rationals,
  where the source has floating point seconds; the lease token, a fresh UUID, is an argument of
  the claim.
\<close>

section \<open>Operations\<close>

fun phase_of :: "string \<Rightarrow> run_phase option" where
  "phase_of p = (if p = ''red'' then Some Red else if p = ''final'' then Some Final else None)"

fun phase_value :: "run_phase \<Rightarrow> string" where
  "phase_value Red = ''red''"
| "phase_value Final = ''final''"

abbreviation source_key :: "run_row \<Rightarrow> string \<times> run_phase \<times> int \<times> string" where
  "source_key r \<equiv> (vr_node r, vr_phase r, vr_source_revision r, vr_contract r)"

definition get_verification_run :: "plan_store \<Rightarrow> string \<Rightarrow> run_row option" where
  "get_verification_run s run_id = find (\<lambda>r. vr_run_id r = run_id) (runs s)"

definition latest_verification_run :: "plan_store \<Rightarrow> string \<Rightarrow> run_row option" where
  "latest_verification_run s node = last_row (\<lambda>r. vr_node r = node) (runs s)"

definition enqueue_verification_run ::
  "plan_store \<Rightarrow> string \<Rightarrow> string \<Rightarrow> string \<Rightarrow> int \<Rightarrow> string \<Rightarrow> string option \<Rightarrow> int \<Rightarrow>
   (run_row \<times> plan_store) result" where
  "enqueue_verification_run s run_id node phase source_revision contract candidate max_attempts =
     (case phase_of phase of
        None \<Rightarrow> Inl (ValidationError ''verification_run'' ''Verification phase is invalid'')
      | Some ph \<Rightarrow>
          (if max_attempts < 1
           then Inl (ValidationError ''verification_run'' ''Verification retry limit is invalid'')
           else (case find (\<lambda>r. source_key r = (node, ph, source_revision, contract)) (runs s) of
              Some r \<Rightarrow>
                (if vr_run_id r \<noteq> run_id \<or> vr_contract r \<noteq> contract \<or> vr_candidate r \<noteq> candidate
                    \<or> vr_max_attempts r \<noteq> max_attempts
                 then Inl (ConflictError ''verification_run'' ''verification_run_conflict'')
                 else Inr (r, s))
            | None \<Rightarrow>
                (if get_verification_run s run_id \<noteq> None then Inl (BuiltinError ''IntegrityError'')
                 else let r = \<lparr>vr_run_id = run_id, vr_node = node, vr_phase = ph,
                       vr_source_revision = source_revision, vr_contract = contract,
                       vr_candidate = candidate, vr_state = Queued, vr_attempt = 0,
                       vr_next_retry_at = None, vr_max_attempts = max_attempts,
                       vr_terminal_reason = None, vr_lease_token = None,
                       vr_lease_expires_at = None, vr_outcome = None, vr_error_code = None\<rparr>
                  in Inr (r, s\<lparr>runs := runs s @ [r]\<rparr>)))))"

text \<open>A missing lease expiry or retry time never holds a run back.\<close>

definition after :: "rat option \<Rightarrow> rat \<Rightarrow> bool" where
  "after t now = (case t of None \<Rightarrow> False | Some x \<Rightarrow> now < x)"

definition claimable :: "rat \<Rightarrow> run_row \<Rightarrow> bool" where
  "claimable now r \<longleftrightarrow> \<not> (vr_state r = Completed \<or> vr_state r = Failed
     \<or> (vr_state r = Running \<and> after (vr_lease_expires_at r) now)
     \<or> (vr_state r = Queued \<and> after (vr_next_retry_at r) now))"

definition claim_verification_run ::
  "plan_store \<Rightarrow> string \<Rightarrow> rat \<Rightarrow> int \<Rightarrow> string \<Rightarrow> (run_row option \<times> plan_store) result" where
  "claim_verification_run s run_id now lease_seconds token =
     (case get_verification_run s run_id of
        None \<Rightarrow> Inl (NotFoundError ''verification_run'')
      | Some r \<Rightarrow>
          (if \<not> claimable now r then Inr (None, s)
           else let s' = s\<lparr>runs := update_rows (\<lambda>x. vr_run_id x = run_id)
                  (\<lambda>x. x\<lparr>vr_state := Running, vr_attempt := vr_attempt x + 1,
                         vr_lease_token := Some token,
                         vr_lease_expires_at := Some (now + of_int lease_seconds),
                         vr_error_code := None, vr_next_retry_at := None,
                         vr_terminal_reason := None\<rparr>) (runs s)\<rparr>
                in Inr (get_verification_run s' run_id, s')))"

text \<open>
  Delay before the next attempt; \<^verbatim>\<open>float(2 ** n)\<close> overflows from \<open>n = 1024\<close>.
\<close>

definition retry_backoff :: "int \<Rightarrow> rat result" where
  "retry_backoff attempt =
     (let n = nat (max (attempt - 1) 0)
      in if 1024 \<le> n then Inl (BuiltinError ''OverflowError'') else Inr (min (2 ^ n) 60))"

definition owns_lease :: "string \<Rightarrow> string \<Rightarrow> run_row \<Rightarrow> bool" where
  "owns_lease run_id token r \<longleftrightarrow>
     vr_run_id r = run_id \<and> vr_state r = Running \<and> vr_lease_token r = Some token"

fun verifying_state :: "run_phase \<Rightarrow> mod_state" where
  "verifying_state Red = RED_VERIFYING"
| "verifying_state Final = FINAL_VERIFYING"

definition block_payload :: "run_row \<Rightarrow> string \<Rightarrow> string option \<Rightarrow> dict" where
  "block_payload r code contract =
     [(''verification_run_id'', JStr (vr_run_id r)), (''phase'', JStr (phase_value (vr_phase r))),
      (''status'', JStr ''blocked''), (''error_code'', JStr code),
      (''terminal_reason'', JStr ''verification_retry_exhausted'')]
     @ (case contract of None \<Rightarrow> [] | Some v \<Rightarrow> [(''test_contract_version'', JStr v)])"

definition block_workflow :: "plan_store \<Rightarrow> run_row \<Rightarrow> string \<Rightarrow> plan_store result" where
  "block_workflow s r code =
     (let node = vr_node r;
          expected = verifying_state (vr_phase r)
      in case get_modification_workflow s node of
           None \<Rightarrow> Inl (ConflictError ''modification_workflow'' ''verification_workflow_state_conflict'')
         | Some w \<Rightarrow>
             (if wf_state w \<noteq> expected
              then Inl (ConflictError ''modification_workflow'' ''verification_workflow_state_conflict'')
              else bind_result
                (write_workflow s node (Some w) VERIFICATION_BLOCKED (wf_revision w + 1) (wf_contract w))
                (\<lambda>wfs. let eid = ''verification:'' @ vr_run_id r @ '':retry-exhausted'' in
                   if find (\<lambda>x. ev_id x = eid) (mod_events s) \<noteq> None
                   then Inl (BuiltinError ''IntegrityError'')
                   else Inr (record_change
                     (append_event (s\<lparr>workflows := wfs\<rparr>) eid node E_VERIFICATION_RETRY_EXHAUSTED
                       (Some expected) VERIFICATION_BLOCKED (wf_revision w + 1)
                       (block_payload r code (wf_contract w)))
                     ''modification_workflow'' node ''transition''
                     (transition_change E_VERIFICATION_RETRY_EXHAUSTED eid (Some expected)
                       VERIFICATION_BLOCKED (wf_revision w + 1) (wf_contract w))))))"

definition defer_verification_run ::
  "plan_store \<Rightarrow> string \<Rightarrow> string \<Rightarrow> string \<Rightarrow> rat \<Rightarrow> int option \<Rightarrow>
   (run_row option \<times> plan_store) result" where
  "defer_verification_run s run_id token code now max_attempts =
     (case get_verification_run s run_id of
        None \<Rightarrow> Inl (NotFoundError ''verification_run'')
      | Some r \<Rightarrow>
          (let limit = (case max_attempts of None \<Rightarrow> vr_max_attempts r | Some m \<Rightarrow> m);
               exhausted = limit \<le> vr_attempt r
           in if limit < 1
              then Inl (ValidationError ''verification_run'' ''Verification retry limit is invalid'')
              else bind_result
                (if exhausted then Inr None
                 else bind_result (retry_backoff (vr_attempt r)) (\<lambda>d. Inr (Some (now + d))))
                (\<lambda>next_retry.
                  if rowcount (owns_lease run_id token) (runs s) \<noteq> 1
                  then Inl (ConflictError ''verification_run'' ''verification_lease_lost'')
                  else let s' = s\<lparr>runs := update_rows (owns_lease run_id token)
                         (\<lambda>x. x\<lparr>vr_state := if exhausted then Failed else Queued,
                                vr_lease_token := None, vr_lease_expires_at := None,
                                vr_next_retry_at := next_retry, vr_max_attempts := limit,
                                vr_terminal_reason :=
                                  if exhausted then Some ''verification_retry_exhausted'' else None,
                                vr_error_code := Some code\<rparr>) (runs s)\<rparr>
                       in bind_result (if exhausted then block_workflow s' r code else Inr s')
                            (\<lambda>s''. Inr (get_verification_run s'' run_id, s'')))))"

definition renew_verification_lease ::
  "plan_store \<Rightarrow> string \<Rightarrow> string \<Rightarrow> rat \<Rightarrow> int \<Rightarrow> (run_row option \<times> plan_store) result" where
  "renew_verification_lease s run_id token now lease_seconds =
     (if lease_seconds < 1
      then Inl (ValidationError ''verification_run'' ''Verification lease duration is invalid'')
      else let mine = (\<lambda>x. owns_lease run_id token x \<and> after (vr_lease_expires_at x) now) in
        if rowcount mine (runs s) \<noteq> 1
        then (if get_verification_run s run_id = None then Inl (NotFoundError ''verification_run'')
              else Inl (ConflictError ''verification_run'' ''verification_lease_lost''))
        else let s' = s\<lparr>runs := update_rows mine
               (\<lambda>x. x\<lparr>vr_lease_expires_at := Some (now + of_int lease_seconds)\<rparr>) (runs s)\<rparr>
             in Inr (get_verification_run s' run_id, s'))"

definition next_verification_retry_at :: "plan_store \<Rightarrow> rat option" where
  "next_verification_retry_at s =
     (case [t. r \<leftarrow> runs s, vr_state r = Queued, Some t \<leftarrow> [vr_next_retry_at r]] of
        [] \<Rightarrow> None | t # ts \<Rightarrow> Some (fold min ts t))"

definition complete_verification_run ::
  "plan_store \<Rightarrow> string \<Rightarrow> string \<Rightarrow> dict \<Rightarrow> string option \<Rightarrow> (run_row option \<times> plan_store) result"
where
  "complete_verification_run s run_id token outcome code =
     (if rowcount (owns_lease run_id token) (runs s) \<noteq> 1
      then (case get_verification_run s run_id of
          Some r \<Rightarrow>
            (if vr_state r = Completed then Inr (Some r, s)
             else Inl (ConflictError ''verification_run'' ''verification_lease_lost''))
        | None \<Rightarrow> Inl (ConflictError ''verification_run'' ''verification_lease_lost''))
      else let s' = s\<lparr>runs := update_rows (owns_lease run_id token)
             (\<lambda>x. x\<lparr>vr_state := Completed, vr_outcome := Some outcome, vr_error_code := code,
                    vr_lease_token := None, vr_lease_expires_at := None\<rparr>) (runs s)\<rparr>
           in Inr (get_verification_run s' run_id, s'))"

end
