(* ===== verification/Run_Invariants.thy ===== *)
theory Run_Invariants
  imports Verification_Runs
begin

text \<open>
  What the queue of verification runs keeps, together with the gate: the lease fields agree
  with the state, a failed run has used up its attempts and has blocked its workflow, and the
  idempotency keys are unique. Operations of the whole store are values of \<open>plan_op\<close>, so that
  properties speak of arbitrary interleavings of them. The discipline of leases is the locale
  \<open>leased_work\<close>, interpreted on the runs.
\<close>

section \<open>Well-formed runs\<close>

definition run_ok :: "run_row \<Rightarrow> bool" where
  "run_ok r \<longleftrightarrow> (vr_state r = Running) = (vr_lease_token r \<noteq> None)
     \<and> (vr_lease_token r = None) = (vr_lease_expires_at r = None)
     \<and> 0 \<le> vr_attempt r \<and> 1 \<le> vr_max_attempts r
     \<and> (vr_state r = Running \<or> vr_state r = Completed \<longrightarrow> 1 \<le> vr_attempt r)
     \<and> (vr_state r = Completed) = (vr_outcome r \<noteq> None)
     \<and> (vr_state r = Failed) = (vr_terminal_reason r \<noteq> None)
     \<and> (vr_state r = Failed \<longrightarrow> vr_max_attempts r \<le> vr_attempt r)
     \<and> (vr_next_retry_at r \<noteq> None \<longrightarrow> vr_state r = Queued)"

definition blocked :: "plan_store \<Rightarrow> string \<Rightarrow> bool" where
  "blocked s node \<longleftrightarrow>
     map_option wf_state (get_modification_workflow s node) = Some VERIFICATION_BLOCKED"

definition runs_ok :: "run_row list \<Rightarrow> bool" where
  "runs_ok rs \<longleftrightarrow> unique_key vr_run_id rs \<and> unique_key source_key rs \<and> (\<forall>r \<in> set rs. run_ok r)"

definition failed_blocked :: "plan_store \<Rightarrow> bool" where
  "failed_blocked s \<longleftrightarrow> (\<forall>r \<in> set (runs s). vr_state r = Failed \<longrightarrow> blocked s (vr_node r))"

definition plan_ok :: "plan_store \<Rightarrow> bool" where
  "plan_ok s \<longleftrightarrow> store_ok s \<and> runs_ok (runs s) \<and> failed_blocked s"

lemma plan_ok_empty: "plan_ok (empty_store t)"
  using store_ok_empty [of t]
  by (simp add: plan_ok_def runs_ok_def failed_blocked_def empty_store_def unique_key_def)

lemma plan_okD:
  "plan_ok s \<Longrightarrow> store_ok s" "plan_ok s \<Longrightarrow> runs_ok (runs s)" "plan_ok s \<Longrightarrow> failed_blocked s"
  by (simp_all add: plan_ok_def)

lemma runs_okD:
  "runs_ok rs \<Longrightarrow> unique_key vr_run_id rs" "runs_ok rs \<Longrightarrow> unique_key source_key rs"
  "runs_ok rs \<Longrightarrow> r \<in> set rs \<Longrightarrow> run_ok r"
  by (simp_all add: runs_ok_def)

section \<open>Reading runs back\<close>

lemma runs_update_frame [simp]:
  "get_modification_workflow (s\<lparr>runs := rs\<rparr>) n = get_modification_workflow s n"
  "list_modification_events (s\<lparr>runs := rs\<rparr>) n = list_modification_events s n"
  "blocked (s\<lparr>runs := rs\<rparr>) n = blocked s n"
  "get_test_contract (s\<lparr>runs := rs\<rparr>) n v = get_test_contract s n v"
  by (simp_all add: get_modification_workflow_def list_modification_events_def blocked_def
      get_test_contract_def)

lemma store_ok_runs [simp]: "store_ok (s\<lparr>runs := rs\<rparr>) = store_ok s"
  by (simp add: store_ok_def trail_ok_def trail_def cong: option.case_cong)

lemma get_run_SomeD:
  "get_verification_run s rid = Some r \<Longrightarrow> r \<in> set (runs s) \<and> vr_run_id r = rid"
  by (auto simp: get_verification_run_def dest: find_SomeD)

lemma get_run_unique:
  "runs_ok (runs s) \<Longrightarrow> r \<in> set (runs s) \<Longrightarrow> vr_run_id r = rid \<Longrightarrow> get_verification_run s rid = Some r"
  by (auto simp: get_verification_run_def dest: runs_okD find_key_unique)

lemma get_run_update:
  "(\<And>r. P r \<Longrightarrow> vr_run_id (f r) = vr_run_id r) \<Longrightarrow>
   get_verification_run (s\<lparr>runs := update_rows P f (runs s)\<rparr>) rid
     = map_option (\<lambda>r. if P r then f r else r) (get_verification_run s rid)"
  by (simp add: get_verification_run_def find_update_rows)

lemma get_run_frames [simp]:
  "get_verification_run (record_change s a b c d) rid = get_verification_run s rid"
  "get_verification_run (append_event s x1 x2 x3 x4 x5 x6 x7) rid = get_verification_run s rid"
  "get_verification_run (s\<lparr>workflows := wfs\<rparr>) rid = get_verification_run s rid"
  by (simp_all add: get_verification_run_def)

text \<open>At most one row carries a lease, and owning it is a fact about that row.\<close>

lemma owns_lease_rowcount:
  assumes "runs_ok (runs s)"
  shows "rowcount (\<lambda>x. owns_lease rid tok x \<and> Q x) (runs s) = 1 \<longleftrightarrow>
     (\<exists>r. get_verification_run s rid = Some r \<and> vr_state r = Running
        \<and> vr_lease_token r = Some tok \<and> Q r)"
proof -
  have "rowcount (\<lambda>x. owns_lease rid tok x \<and> Q x) (runs s) = 1 \<longleftrightarrow>
      (\<exists>r \<in> set (runs s). owns_lease rid tok r \<and> Q r)"
    by (rule rowcount_key_1 [OF runs_okD(1) [OF assms], where k = rid]) (simp add: owns_lease_def)
  also have "\<dots> \<longleftrightarrow> (\<exists>r. get_verification_run s rid = Some r \<and> vr_state r = Running
      \<and> vr_lease_token r = Some tok \<and> Q r)"
    by (auto simp: owns_lease_def dest: get_run_SomeD get_run_unique [OF assms])
  finally show ?thesis .
qed

lemmas owns_lease_rowcount1 = owns_lease_rowcount [where Q = "\<lambda>_. True", simplified]

section \<open>Every operation keeps the invariant\<close>

lemma runs_ok_update:
  assumes "runs_ok rs"
    and "\<And>r. P r \<Longrightarrow> vr_run_id (f r) = vr_run_id r \<and> source_key (f r) = source_key r"
    and "\<And>r. P r \<Longrightarrow> r \<in> set rs \<Longrightarrow> run_ok r \<Longrightarrow> run_ok (f r)"
  shows "runs_ok (update_rows P f rs)"
  using assms by (auto simp: runs_ok_def unique_key_update in_update_rows)

lemma failed_blocked_update:
  assumes "failed_blocked s"
    and "\<And>r. P r \<Longrightarrow> vr_node (f r) = vr_node r"
    and "\<And>r. P r \<Longrightarrow> vr_state (f r) = Failed \<Longrightarrow> r \<in> set (runs s) \<Longrightarrow> blocked s (vr_node r)"
  shows "failed_blocked (s\<lparr>runs := update_rows P f (runs s)\<rparr>)"
  using assms by (auto simp: failed_blocked_def in_update_rows split: if_splits)

lemma plan_ok_update:
  assumes "plan_ok s"
    and "\<And>r. P r \<Longrightarrow> vr_run_id (f r) = vr_run_id r \<and> source_key (f r) = source_key r"
    and "\<And>r. P r \<Longrightarrow> r \<in> set (runs s) \<Longrightarrow> run_ok r \<Longrightarrow> run_ok (f r) \<and> vr_state (f r) \<noteq> Failed"
  shows "plan_ok (s\<lparr>runs := update_rows P f (runs s)\<rparr>)"
proof -
  have rs: "runs_ok (update_rows P f (runs s))"
    using plan_okD(2) [OF assms(1)] assms(2,3) by (intro runs_ok_update) blast+
  have "failed_blocked (s\<lparr>runs := update_rows P f (runs s)\<rparr>)"
  proof (rule failed_blocked_update [OF plan_okD(3) [OF assms(1)]])
    fix r assume "P r" "vr_state (f r) = Failed" "r \<in> set (runs s)"
    then show "blocked s (vr_node r)"
      using assms(3) runs_okD(3) [OF plan_okD(2) [OF assms(1)]] by blast
  qed (use assms(2) in auto)
  with rs plan_okD(1) [OF assms(1)] show ?thesis by (simp add: plan_ok_def)
qed

lemma plan_ok_enqueue:
  assumes "plan_ok s"
    and "enqueue_verification_run s rid n ph srev con cand m = Inr (r, s')"
  shows "plan_ok s'"
  using assms
  by (auto simp: enqueue_verification_run_def Let_def plan_ok_def runs_ok_def failed_blocked_def
      unique_key_append1 get_verification_run_def find_None_iff run_ok_def
      split: option.splits if_splits)

lemma claim_cases:
  assumes "claim_verification_run s rid now secs tok = Inr (res, s')"
  obtains (kept) r where "get_verification_run s rid = Some r" "\<not> claimable now r" "res = None" "s' = s"
  | (granted) r where "get_verification_run s rid = Some r" "claimable now r"
      "res = Some (r\<lparr>vr_state := Running, vr_attempt := vr_attempt r + 1, vr_lease_token := Some tok,
         vr_lease_expires_at := Some (now + of_int secs), vr_error_code := None,
         vr_next_retry_at := None, vr_terminal_reason := None\<rparr>)"
      "s' = s\<lparr>runs := update_rows (\<lambda>x. vr_run_id x = rid)
         (\<lambda>x. x\<lparr>vr_state := Running, vr_attempt := vr_attempt x + 1, vr_lease_token := Some tok,
           vr_lease_expires_at := Some (now + of_int secs), vr_error_code := None,
           vr_next_retry_at := None, vr_terminal_reason := None\<rparr>) (runs s)\<rparr>"
proof (cases "get_verification_run s rid")
  case None
  with assms show ?thesis by (simp add: claim_verification_run_def)
next
  case (Some r)
  then have "vr_run_id r = rid" by (auto dest: get_run_SomeD)
  show ?thesis
  proof (cases "claimable now r")
    case True
    show ?thesis
      by (rule granted [OF Some True])
        (use assms Some True \<open>vr_run_id r = rid\<close> in
          \<open>simp_all add: claim_verification_run_def Let_def get_run_update\<close>)
  next
    case False
    show ?thesis
      by (rule kept [OF Some False])
        (use assms Some False in \<open>simp_all add: claim_verification_run_def\<close>)
  qed
qed

lemma plan_ok_claim:
  assumes "plan_ok s" and "claim_verification_run s rid now secs tok = Inr (res, s')"
  shows "plan_ok s'"
  using assms(2)
proof (cases rule: claim_cases)
  case kept
  with assms show ?thesis by simp
next
  case (granted r)
  have "x = r" if "vr_run_id x = rid" "x \<in> set (runs s)" for x
    using get_run_unique [OF plan_okD(2) [OF assms(1)] that(2) that(1)] granted(1) by simp
  then show ?thesis
    unfolding granted(4) using granted(2)
    by (intro plan_ok_update [OF assms(1)]) (auto simp: run_ok_def claimable_def)
qed

lemma plan_ok_renew:
  assumes "plan_ok s" and "renew_verification_lease s rid tok now secs = Inr (r, s')"
  shows "plan_ok s'"
  using assms
  by (auto simp: renew_verification_lease_def Let_def run_ok_def owns_lease_def
      split: option.splits if_splits intro!: plan_ok_update)

lemma plan_ok_complete:
  assumes "plan_ok s" and "complete_verification_run s rid tok out code = Inr (r, s')"
  shows "plan_ok s'"
  using assms
  by (auto simp: complete_verification_run_def Let_def run_ok_def owns_lease_def
      split: option.splits if_splits intro!: plan_ok_update)

section \<open>Exhausted retries block the workflow\<close>

lemma block_workflow_cases:
  assumes "block_workflow s r code = Inr s'"
  obtains w wfs where "get_modification_workflow s (vr_node r) = Some w"
    "wf_state w = verifying_state (vr_phase r)"
    "write_workflow s (vr_node r) (Some w) VERIFICATION_BLOCKED (wf_revision w + 1) (wf_contract w)
       = Inr wfs"
    "find (\<lambda>x. ev_id x = ''verification:'' @ vr_run_id r @ '':retry-exhausted'') (mod_events s) = None"
    "s' = record_change
       (append_event (s\<lparr>workflows := wfs\<rparr>) (''verification:'' @ vr_run_id r @ '':retry-exhausted'')
         (vr_node r) E_VERIFICATION_RETRY_EXHAUSTED (Some (verifying_state (vr_phase r)))
         VERIFICATION_BLOCKED (wf_revision w + 1) (block_payload r code (wf_contract w)))
       ''modification_workflow'' (vr_node r) ''transition''
       (transition_change E_VERIFICATION_RETRY_EXHAUSTED
         (''verification:'' @ vr_run_id r @ '':retry-exhausted'')
         (Some (verifying_state (vr_phase r))) VERIFICATION_BLOCKED (wf_revision w + 1) (wf_contract w))"
  using assms
  by (auto simp: block_workflow_def Let_def bind_result_Inr split: option.splits if_splits)

lemma verifying_state_allowed: "Some (verifying_state ph) \<in> set (allowed_from E_VERIFICATION_RETRY_EXHAUSTED)"
  by (cases ph) simp_all

lemma verifying_state_live [simp]:
  "verifying_state ph \<noteq> VERIFICATION_BLOCKED" "verifying_state ph \<noteq> TEST_AUTHORING"
  "TEST_AUTHORING \<noteq> verifying_state ph"
  by (cases ph; simp)+

lemma block_workflow_ok:
  assumes ok: "store_ok s" and bl: "block_workflow s r code = Inr s'"
  shows "store_ok s'" and "runs s' = runs s" and "contracts s' = contracts s"
    and "blocked s' m \<longleftrightarrow> m = vr_node r \<or> blocked s m"
    and "trail s' (vr_node r) = trail s (vr_node r) @ [E_VERIFICATION_RETRY_EXHAUSTED]"
proof -
  obtain w wfs where w: "get_modification_workflow s (vr_node r) = Some w"
    and st: "wf_state w = verifying_state (vr_phase r)"
    and wr: "write_workflow s (vr_node r) (Some w) VERIFICATION_BLOCKED (wf_revision w + 1) (wf_contract w)
       = Inr wfs"
    and fresh: "find (\<lambda>x. ev_id x = ''verification:'' @ vr_run_id r @ '':retry-exhausted'') (mod_events s) = None"
    and s': "s' = record_change
       (append_event (s\<lparr>workflows := wfs\<rparr>) (''verification:'' @ vr_run_id r @ '':retry-exhausted'')
         (vr_node r) E_VERIFICATION_RETRY_EXHAUSTED (Some (verifying_state (vr_phase r)))
         VERIFICATION_BLOCKED (wf_revision w + 1) (block_payload r code (wf_contract w)))
       ''modification_workflow'' (vr_node r) ''transition''
       (transition_change E_VERIFICATION_RETRY_EXHAUSTED
         (''verification:'' @ vr_run_id r @ '':retry-exhausted'')
         (Some (verifying_state (vr_phase r))) VERIFICATION_BLOCKED (wf_revision w + 1) (wf_contract w))"
    using bl by (rule block_workflow_cases)
  have uniq: "unique_key wf_node (workflows s)" and cok: "contracts_ok (contracts s)"
    using ok by (auto simp: store_ok_def)
  have "w \<in> set (workflows s)" "wf_node w = vr_node r"
    using w by (auto simp: get_modification_workflow_def dest: find_SomeD)
  then have "bound_ok (contracts s) w" using ok by (auto simp: store_ok_def)
  then have bound: "bound_ok (contracts s) \<lparr>wf_node = vr_node r, wf_state = VERIFICATION_BLOCKED,
      wf_revision = wf_revision w + 1, wf_contract = wf_contract w, wf_updated_at = db_clock s\<rparr>"
    using st \<open>wf_node w = vr_node r\<close> by (simp add: bound_ok_def split: option.splits)
  have "store_ok (record_change (append_event (s\<lparr>workflows := wfs, contracts := contracts s\<rparr>)
      (''verification:'' @ vr_run_id r @ '':retry-exhausted'') (vr_node r)
      E_VERIFICATION_RETRY_EXHAUSTED (map_option wf_state (Some w))
      (target_of E_VERIFICATION_RETRY_EXHAUSTED) ((case Some w of None \<Rightarrow> 0 | Some w \<Rightarrow> wf_revision w) + 1)
      (block_payload r code (wf_contract w))) ''modification_workflow'' (vr_node r) ''transition''
      (transition_change E_VERIFICATION_RETRY_EXHAUSTED
         (''verification:'' @ vr_run_id r @ '':retry-exhausted'')
         (Some (verifying_state (vr_phase r))) VERIFICATION_BLOCKED (wf_revision w + 1) (wf_contract w)))"
  proof (rule store_ok_step [OF ok w [symmetric] _ fresh _ cok])
    show "map_option wf_state (Some w) \<in> set (allowed_from E_VERIFICATION_RETRY_EXHAUSTED)"
      using verifying_state_allowed [of "vr_phase r"] st by (simp only: option.map)
    show "write_workflow s (vr_node r) (Some w) (target_of E_VERIFICATION_RETRY_EXHAUSTED)
      ((case Some w of None \<Rightarrow> 0 | Some w \<Rightarrow> wf_revision w) + 1) (wf_contract w) = Inr wfs"
      using wr by simp
  qed (use bound in simp_all)
  then show "store_ok s'" by (simp add: s' st)
  note rows = write_workflow_rows(2) [OF uniq w [symmetric] wr]
  show "blocked s' m \<longleftrightarrow> m = vr_node r \<or> blocked s m"
    by (simp add: s' blocked_def rows) (simp add: get_modification_workflow_def)
  show "runs s' = runs s" "contracts s' = contracts s"
    "trail s' (vr_node r) = trail s (vr_node r) @ [E_VERIFICATION_RETRY_EXHAUSTED]"
    by (simp_all add: s' trail_def)
qed

text \<open>The row a deferred run becomes.\<close>

abbreviation deferred :: "bool \<Rightarrow> rat option \<Rightarrow> int \<Rightarrow> string \<Rightarrow> run_row \<Rightarrow> run_row" where
  "deferred exhausted next_retry limit code x \<equiv>
     x\<lparr>vr_state := if exhausted then Failed else Queued, vr_lease_token := None,
       vr_lease_expires_at := None, vr_next_retry_at := next_retry, vr_max_attempts := limit,
       vr_terminal_reason := if exhausted then Some ''verification_retry_exhausted'' else None,
       vr_error_code := Some code\<rparr>"

lemma defer_cases:
  assumes "runs_ok (runs s)" and "defer_verification_run s rid tok code now m = Inr (res, s')"
  obtains (retried) r d limit where "get_verification_run s rid = Some r" "owns_lease rid tok r"
      "limit = (case m of None \<Rightarrow> vr_max_attempts r | Some k \<Rightarrow> k)" "1 \<le> limit"
      "vr_attempt r < limit" "retry_backoff (vr_attempt r) = Inr d"
      "s' = s\<lparr>runs := update_rows (owns_lease rid tok) (deferred False (Some (now + d)) limit code) (runs s)\<rparr>"
      "res = Some (deferred False (Some (now + d)) limit code r)"
  | (exhausted) r limit where "get_verification_run s rid = Some r" "owns_lease rid tok r"
      "limit = (case m of None \<Rightarrow> vr_max_attempts r | Some k \<Rightarrow> k)" "1 \<le> limit"
      "limit \<le> vr_attempt r"
      "block_workflow (s\<lparr>runs := update_rows (owns_lease rid tok) (deferred True None limit code) (runs s)\<rparr>)
         r code = Inr s'"
proof -
  obtain r where r: "get_verification_run s rid = Some r"
    using assms(2) by (auto simp: defer_verification_run_def split: option.splits)
  define limit where "limit = (case m of None \<Rightarrow> vr_max_attempts r | Some k \<Rightarrow> k)"
  have lim: "1 \<le> limit"
    using assms(2) r by (auto simp: defer_verification_run_def Let_def limit_def split: if_splits)
  have own: "rowcount (owns_lease rid tok) (runs s) = 1"
    using assms(2) r by (auto simp: defer_verification_run_def Let_def bind_result_Inr split: if_splits)
  then have mine: "owns_lease rid tok r"
    using r owns_lease_rowcount1 [OF assms(1)] by (auto simp: owns_lease_def dest: get_run_SomeD)
  have get: "get_verification_run (s\<lparr>runs := update_rows (owns_lease rid tok) (deferred b t k c) (runs s)\<rparr>) rid
      = Some (deferred b t k c r)" for b t k c
    using r mine by (subst get_run_update) (simp_all add: owns_lease_def)
  show ?thesis
  proof (cases "limit \<le> vr_attempt r")
    case True
    show ?thesis
      by (rule exhausted [OF r mine limit_def lim True])
        (use assms(2) r True own lim in \<open>simp add: defer_verification_run_def Let_def limit_def [symmetric]
           bind_result_Inr\<close>)
  next
    case False
    then obtain d where d: "retry_backoff (vr_attempt r) = Inr d"
      using assms(2) r lim
      by (auto simp: defer_verification_run_def Let_def limit_def [symmetric] bind_result_Inr)
    have "Inr (res, s') = (Inr (Some (deferred False (Some (now + d)) limit code r),
        s\<lparr>runs := update_rows (owns_lease rid tok) (deferred False (Some (now + d)) limit code) (runs s)\<rparr>)
        :: (run_row option \<times> plan_store) result)"
      unfolding assms(2) [symmetric] get [symmetric]
      using r False own lim d by (simp add: defer_verification_run_def Let_def limit_def [symmetric])
    then show ?thesis
      using False by (intro retried [OF r mine limit_def lim _ d]) simp_all
  qed
qed

lemma run_ok_deferred:
  assumes "run_ok r" and "vr_state r = Running" and "1 \<le> k" and "b \<Longrightarrow> k \<le> vr_attempt r \<and> t = None"
  shows "run_ok (deferred b t k c r)"
  using assms by (auto simp: run_ok_def)

lemma plan_ok_defer:
  assumes ok: "plan_ok s" and df: "defer_verification_run s rid tok code now m = Inr (res, s')"
  shows "plan_ok s'"
  using plan_okD(2) [OF ok] df
proof (cases rule: defer_cases)
  case (retried r d limit)
  then show ?thesis
    unfolding retried(7)
    by (intro plan_ok_update [OF ok]) (auto simp: owns_lease_def run_ok_def)
next
  case (exhausted r limit)
  let ?s = "s\<lparr>runs := update_rows (owns_lease rid tok) (deferred True None limit code) (runs s)\<rparr>"
  have unique: "x = r" if "owns_lease rid tok x" "x \<in> set (runs s)" for x
    using get_run_unique [OF plan_okD(2) [OF ok] that(2)] that(1) exhausted(1)
    by (simp add: owns_lease_def)
  have rs: "runs_ok (update_rows (owns_lease rid tok) (deferred True None limit code) (runs s))"
  proof (rule runs_ok_update [OF plan_okD(2) [OF ok]], force)
    fix x assume x: "owns_lease rid tok x" "x \<in> set (runs s)" "run_ok x"
    then have "x = r" by (intro unique)
    with x exhausted(4,5) show "run_ok (deferred True None limit code x)"
      by (auto simp: run_ok_def owns_lease_def)
  qed
  have "store_ok ?s" using plan_okD(1) [OF ok] by simp
  note bl = block_workflow_ok [OF this exhausted(6)]
  have "blocked s' (vr_node x)" if "x \<in> set (runs s')" "vr_state x = Failed" for x
  proof -
    have "x \<in> set (update_rows (owns_lease rid tok) (deferred True None limit code) (runs s))"
      using that(1) by (simp only: bl(2)) simp
    then obtain x0 where x0: "x0 \<in> set (runs s)"
      "x = (if owns_lease rid tok x0 then deferred True None limit code x0 else x0)"
      unfolding in_update_rows by blast
    then show ?thesis
      using that(2) unique [OF _ x0(1)] plan_okD(3) [OF ok]
      by (auto simp: bl(4) failed_blocked_def split: if_splits)
  qed
  then show ?thesis using bl(1,2) rs by (simp add: plan_ok_def failed_blocked_def)
qed

end
