(* ===== verification/Leased_Work.thy ===== *)
theory Leased_Work
  imports Bridle_Prelude
begin

text \<open>
  The lease discipline shared by the durable queues of the backend, as an interface: an
  operation \<open>step\<close> on the state, the token that holds a work item, the tokens an operation
  grants, and the well-formed states. The verification runs and the persistent mailbox both
  provide it.
\<close>

text \<open>A failed operation is rolled back: the state is kept.\<close>

fun settled :: "'s \<Rightarrow> ('a \<times> 's) result \<Rightarrow> 's" where
  "settled s (Inl _) = s"
| "settled s (Inr (_, s')) = s'"

lemma settled_induct [consumes 1]:
  "P s \<Longrightarrow> (\<And>a s'. r = Inr (a, s') \<Longrightarrow> P s') \<Longrightarrow> P (settled s r)"
  by (cases r) (auto split: prod.splits)

locale leased_work =
  fixes step :: "'s \<Rightarrow> 'op \<Rightarrow> 's"
    and holder :: "'s \<Rightarrow> 'k \<Rightarrow> string option"
    and grants :: "'op \<Rightarrow> 'k \<Rightarrow> string \<Rightarrow> bool"
    and ok :: "'s \<Rightarrow> bool"
  assumes ok_step: "ok s \<Longrightarrow> ok (step s op)"
    and holder_step: "ok s \<Longrightarrow> holder (step s op) k = Some t \<Longrightarrow>
          holder s k = Some t \<or> grants op k t"
begin

abbreviation steps :: "'s \<Rightarrow> 'op list \<Rightarrow> 's" where
  "steps \<equiv> foldl step"

lemma ok_steps: "ok s \<Longrightarrow> ok (steps s ops)"
  by (induction ops arbitrary: s) (auto intro: ok_step)

lemma holder_granted:
  "ok s \<Longrightarrow> holder (steps s ops) k = Some t \<Longrightarrow>
     holder s k = Some t \<or> (\<exists>op \<in> set ops. grants op k t)"
proof (induction ops arbitrary: s)
  case Nil
  then show ?case by simp
next
  case (Cons op ops)
  then show ?case using ok_step [of s op] holder_step [of s op k t] by fastforce
qed

lemma lost_forever:
  "ok s \<Longrightarrow> holder s k \<noteq> Some t \<Longrightarrow> \<forall>op \<in> set ops. \<not> grants op k t \<Longrightarrow>
     holder (steps s ops) k \<noteq> Some t"
  using holder_granted by blast


end

end
