(* ===== verification/Gate_Properties.thy ===== *)
theory Gate_Properties
  imports Gate_Invariants
begin

text \<open>
  The properties of the modification gate over the persisted store: publication only after a
  full verification trail, exactly when a transition is accepted, replay of an event
  identifier, and the end of an invalidated contract. The store of a short run serves as
  witness.
\<close>

section \<open>A concrete run\<close>

definition demo_contract :: dict where
  "demo_contract = [(''contract_version'', JStr ''v1''), (''map_seq'', JInt 3)]"

definition demo_frozen :: plan_store where
  "demo_frozen = (empty_store 100)\<lparr>
     contracts := [\<lparr>tc_node = ''n'', tc_version = ''v1'', tc_snapshot = demo_contract,
       tc_state = Frozen, tc_reason = None, tc_frozen_at = 100, tc_invalidated_at = None\<rparr>]\<rparr>"

definition demo_approved :: plan_store where
  "demo_approved = run_commands apply_modification_transition demo_frozen
     [(''n'', E_START, ''e1'', None, []),
      (''n'', E_TEST_CONTRACT_APPROVED, ''e2'', Some 1, [])]"

definition demo_route :: "gate_command list" where
  "demo_route =
     [(''n'', E_START, ''e1'', None, []),
      (''n'', E_TEST_CONTRACT_APPROVED, ''e2'', None, []),
      (''n'', E_RED_ALLOWED, ''e3'', None, []),
      (''n'', E_RED_VERIFICATION_STARTED, ''e4'', None, []),
      (''n'', E_RED_CONFIRMED, ''e5'', None, []),
      (''n'', E_IMPLEMENTATION_STARTED, ''e6'', None, []),
      (''n'', E_SUBMITTED, ''e7'', None, []),
      (''n'', E_FINAL_VERIFICATION_STARTED, ''e8'', None, []),
      (''n'', E_FINAL_VERIFICATION_PASSED, ''e9'', None, [])]"

lemmas gate_eval = empty_store_def workflow_apply_def apply_modification_transition_def Let_def
  get_modification_workflow_def get_active_test_contract_def transition_guard_def
  contract_effect_def write_workflow_def append_event_def record_change_def
  transition_change_def opt_state_def rowcount_def update_rows_def

lemma store_ok_demo_frozen: "store_ok demo_frozen"
  by (simp add: demo_frozen_def empty_store_def store_ok_def unique_key_def contracts_ok_def
      trail_ok_def get_modification_workflow_def list_modification_events_def)

lemma store_ok_demo_approved: "store_ok demo_approved"
  unfolding demo_approved_def by (rule plan_gate.ok_run [OF store_ok_demo_frozen])

lemma demo_approved_eval:
  "get_modification_workflow demo_approved ''n'' = Some \<lparr>wf_node = ''n'',
     wf_state = TEST_CONTRACT_APPROVED, wf_revision = 2, wf_contract = Some ''v1'',
     wf_updated_at = 100\<rparr>"
  "map ev_id (mod_events demo_approved) = [''e1'', ''e2'']"
  "contracts demo_approved = contracts demo_frozen"
  by (simp_all add: demo_approved_def demo_frozen_def gate_eval)

lemma demo_route_ready:
  "map_option wf_state (get_modification_workflow
     (run_commands apply_modification_transition demo_frozen demo_route) ''n'')
   = Some READY_TO_PUBLISH"
  by (simp add: demo_route_def demo_frozen_def gate_eval)

section \<open>Publication\<close>

text \<open>
  C35. From any well-formed store, whatever transition commands are applied to it, for any
  nodes and in any order, rejected ones included: a workflow that ends ready to publish or
  published has, in its persisted event trail and since its last return to test authoring,
  an approved contract, a confirmed red run and a passed final verification, in order.
\<close>

theorem persisted_publish_trail:
  assumes "store_ok s"
    and "get_modification_workflow (run_commands apply_modification_transition s cs) n = Some w"
    and "wf_state w = READY_TO_PUBLISH \<or> wf_state w = PUBLISHED"
  shows "subseq (take 8 milestones) (since_authoring (map ev_event (list_modification_events
           (run_commands apply_modification_transition s cs) n)))"
  using assms by (rule plan_gate.published_trail)

theorem persisted_publish_trail_witness:
  "subseq (take 8 milestones) (since_authoring (map ev_event (list_modification_events
     (run_commands apply_modification_transition demo_frozen demo_route) ''n'')))"
proof -
  obtain w where "get_modification_workflow
      (run_commands apply_modification_transition demo_frozen demo_route) ''n'' = Some w"
    and "wf_state w = READY_TO_PUBLISH"
    using demo_route_ready by auto
  then show ?thesis by (intro persisted_publish_trail [OF store_ok_demo_frozen]) auto
qed

section \<open>Acceptance\<close>

definition current_revision :: "plan_store \<Rightarrow> string \<Rightarrow> int" where
  "current_revision s n = (case get_modification_workflow s n of None \<Rightarrow> 0 | Some w \<Rightarrow> wf_revision w)"

definition contract_condition :: "plan_store \<Rightarrow> string \<Rightarrow> mod_event \<Rightarrow> bool" where
  "contract_condition s n e \<longleftrightarrow>
     (e = E_TEST_CONTRACT_APPROVED \<or> e = E_RED_ALLOWED \<longrightarrow>
       (case get_active_test_contract s n of
          None \<Rightarrow> False
        | Some c \<Rightarrow> e = E_RED_ALLOWED \<longrightarrow>
            (\<exists>w. get_modification_workflow s n = Some w \<and> wf_contract w = Some (tc_version c))))"

lemma write_workflow_ok:
  assumes "unique_key wf_node (workflows s)" and "cur = get_modification_workflow s n"
  shows "\<exists>wfs. write_workflow s n cur to rv ver = Inr wfs"
proof (cases cur)
  case None
  then show ?thesis by (simp add: write_workflow_def)
next
  case (Some w)
  then have "w \<in> set (workflows s)" "wf_node w = n"
    using assms(2) by (auto simp: get_modification_workflow_def dest: find_SomeD)
  then have "rowcount (\<lambda>x. wf_node x = n \<and> wf_revision x = wf_revision w) (workflows s) = 1"
    using rowcount_key_1 [OF assms(1), of "\<lambda>x. wf_node x = n \<and> wf_revision x = wf_revision w" n]
    by auto
  with Some show ?thesis by (simp add: write_workflow_def Let_def)
qed

lemma apply_event_ok_iff:
  assumes "store_ok s" and "find (\<lambda>x. ev_id x = eid) (mod_events s) = None"
  shows "is_ok (apply_event s n e eid expd p) \<longleftrightarrow>
     (expd = None \<or> expd = Some (current_revision s n))
     \<and> map_option wf_state (get_modification_workflow s n) \<in> set (allowed_from e)
     \<and> contract_condition s n e"
proof -
  have uniq: "unique_key wf_node (workflows s)" using assms(1) by (simp add: store_ok_def)
  let ?cur = "get_modification_workflow s n"
  let ?ver = "case ?cur of None \<Rightarrow> None | Some w \<Rightarrow> wf_contract w"
  have effect: "is_ok (contract_effect s n e ?ver p) \<longleftrightarrow> contract_condition s n e"
    by (cases e) (auto simp: contract_effect_def contract_condition_def split: option.splits)
  have written: "is_ok (write_workflow s n ?cur to rv ver)" for to rv ver
    using write_workflow_ok [OF uniq refl] by (auto simp: is_ok_iff)
  have guard: "transition_guard (map_option wf_state ?cur) (current_revision s n) expd (allowed_from e) = None
      \<longleftrightarrow> (expd = None \<or> expd = Some (current_revision s n))
        \<and> map_option wf_state ?cur \<in> set (allowed_from e)"
    by (auto simp: transition_guard_def)
  show ?thesis
    unfolding effect [symmetric] conj_assoc [symmetric] guard [symmetric]
    using assms(2)
    by (cases "transition_guard (map_option wf_state ?cur) (current_revision s n) expd (allowed_from e)")
      (simp_all add: apply_event_def workflow_apply_def apply_modification_transition_def Let_def
        current_revision_def is_ok_bind_total written case_prod_beta)
qed

text \<open>
  A transition under a new event identifier is accepted exactly when the caller's expected
  revision, if given, is the current one, the gate allows the event in the current state, and
  approving or allowing red finds a frozen contract, which for the red allowance is the one
  approved before.
\<close>

theorem transition_accepted_iff:
  assumes "store_ok s" and "find (\<lambda>x. ev_id x = eid) (mod_events s) = None"
  shows "is_ok (apply_event s n e eid expd p) \<longleftrightarrow>
     (expd = None \<or> expd = Some (current_revision s n))
     \<and> map_option wf_state (get_modification_workflow s n) \<in> set (allowed_from e)
     \<and> contract_condition s n e"
  using assms by (rule apply_event_ok_iff)

theorem transition_accepted_iff_witness:
  "\<not> is_ok (apply_event demo_approved ''n'' E_RED_ALLOWED ''e3'' (Some 1) [])
   \<and> is_ok (apply_event demo_approved ''n'' E_RED_ALLOWED ''e3'' (Some 2) [])"
proof -
  have fresh: "find (\<lambda>x. ev_id x = ''e3'') (mod_events demo_approved) = None"
    using demo_approved_eval(2) by (auto simp: find_None_iff)
  show ?thesis
    using demo_approved_eval
    by (simp add: transition_accepted_iff [OF store_ok_demo_approved fresh] current_revision_def
        contract_condition_def get_active_test_contract_def demo_frozen_def)
qed

section \<open>Replay\<close>

lemma contract_effect_payload:
  "contract_effect s n e cur p = Inr (v, sp, tcs) \<Longrightarrow> dict_get p ''test_contract_version'' = JNull \<Longrightarrow>
     (e = E_RED_ALLOWED \<longrightarrow> cur = v) \<Longrightarrow>
     dict_get sp ''test_contract_version'' = opt_str v"
  by (auto simp: contract_effect_def dict_simps split: if_splits option.splits)

lemma contract_effect_red: "contract_effect s n E_RED_ALLOWED cur p = Inr (v, sp, tcs) \<Longrightarrow> cur = v"
  by (auto simp: contract_effect_def split: if_splits option.splits)

lemma replay_applied:
  assumes "apply_event s n e eid expd p = Inr (res, s')" and "tr_applied res"
    and "dict_get p ''test_contract_version'' = JNull"
    and "mod_events t = mod_events s' @ later"
  shows "apply_event t n e eid expd' p' = Inr (res\<lparr>tr_applied := False\<rparr>, t)"
proof -
  have *: "apply_modification_transition s n e eid (allowed_from e) (target_of e) expd p = Inr (res, s')"
    using assms(1) by (simp add: apply_event_def workflow_apply_def case_prod_beta)
  then show ?thesis
  proof (cases rule: apply_transition_cases)
    case replayed
    with assms(2) show ?thesis by (auto dest: replay_not_applied)
  next
    case (applied cur version sp tcs wfs)
    have "dict_get sp ''test_contract_version'' = opt_str version"
      using applied(4) assms(3) by (auto intro: contract_effect_payload dest: contract_effect_red)
    then show ?thesis
      using applied(1,6) assms(4)
      by (simp add: applied(7) apply_event_def workflow_apply_def case_prod_beta
          apply_modification_transition_def find_append replay_transition_def)
  qed
qed

lemma replay_settled:
  assumes "apply_event s n e eid expd p = Inr (res, s')"
    and "dict_get p ''test_contract_version'' = JNull"
    and "mod_events t = mod_events s' @ later"
  shows "apply_event t n e eid expd' p' = Inr (res\<lparr>tr_applied := False\<rparr>, t)"
proof (cases "tr_applied res")
  case True
  with assms show ?thesis by (intro replay_applied)
next
  case False
  have "apply_modification_transition s n e eid (allowed_from e) (target_of e) expd p = Inr (res, s')"
    using assms(1) by (simp add: apply_event_def workflow_apply_def case_prod_beta)
  then show ?thesis
  proof (cases rule: apply_transition_cases)
    case (replayed r)
    then have "apply_event t n e eid expd' p' = Inr (res, t)"
      using assms(3) by (simp add: apply_event_def workflow_apply_def case_prod_beta
          apply_modification_transition_def find_append)
    with False show ?thesis by simp
  qed (use False in simp)
qed

text \<open>
  Replaying an event identifier is idempotent. Once a transition has been applied, the same
  event with the same identifier is answered, in every later state of the event log and
  whatever revision or payload it carries, with the recorded state, revision and contract
  version, marked as not applied, and the store does not change. The caller's payload must not
  itself carry the reserved member \<open>test_contract_version\<close>.
\<close>

theorem replay_idempotent:
  assumes "apply_event s n e eid expd p = Inr (res, s')" and "tr_applied res"
    and "dict_get p ''test_contract_version'' = JNull"
    and "mod_events t = mod_events s' @ later"
  shows "apply_event t n e eid expd' p' = Inr (res\<lparr>tr_applied := False\<rparr>, t)"
  using assms by (rule replay_applied)

theorem replay_idempotent_witness:
  "\<exists>res s'. apply_event demo_approved ''n'' E_RED_ALLOWED ''e3'' None [] = Inr (res, s')
     \<and> apply_event s' ''n'' E_RED_ALLOWED ''e3'' (Some 77) [] = Inr (res\<lparr>tr_applied := False\<rparr>, s')"
proof -
  have fresh: "find (\<lambda>x. ev_id x = ''e3'') (mod_events demo_approved) = None"
    using demo_approved_eval(2) by (auto simp: find_None_iff)
  have "is_ok (apply_event demo_approved ''n'' E_RED_ALLOWED ''e3'' None [])"
    using demo_approved_eval
    by (simp add: apply_event_ok_iff [OF store_ok_demo_approved fresh] contract_condition_def
        get_active_test_contract_def demo_frozen_def)
  then obtain res s' where ap: "apply_event demo_approved ''n'' E_RED_ALLOWED ''e3'' None [] = Inr (res, s')"
    by (auto simp: is_ok_iff)
  moreover have "tr_applied res"
    using ap fresh by (auto simp: apply_event_def workflow_apply_def elim: apply_transition_cases)
  moreover have "dict_get [] ''test_contract_version'' = JNull" by (simp add: dict_get_def)
  ultimately show ?thesis
    using replay_idempotent [of _ _ _ _ _ _ res s' s' "[]"] by auto
qed

section \<open>Invalidated contracts\<close>

lemma mark_invalidated_find:
  "find (\<lambda>c. tc_node c = n \<and> tc_version c = v) (mark_invalidated now m u r cs)
     = map_option (\<lambda>c. if tc_node c = m \<and> tc_version c = u \<and> tc_state c = Frozen
         then c\<lparr>tc_state := Invalidated, tc_reason := Some r, tc_invalidated_at := Some now\<rparr> else c)
       (find (\<lambda>c. tc_node c = n \<and> tc_version c = v) cs)"
  unfolding mark_invalidated_def by (rule find_update_rows) simp

lemma freeze_invalidated_fails:
  "get_test_contract s n v = Some c \<Longrightarrow> tc_state c = Invalidated \<Longrightarrow>
     \<not> is_ok (freeze_test_contract sha s n v snap)"
  by (simp add: freeze_test_contract_def)

lemma get_test_contract_frames [simp]:
  "get_test_contract (record_change s a b c d) n v = get_test_contract s n v"
  "get_test_contract (append_event s eid m e f t r p) n v = get_test_contract s n v"
  "get_test_contract (s\<lparr>workflows := wfs, contracts := tcs\<rparr>) n v
     = find (\<lambda>c. tc_node c = n \<and> tc_version c = v) tcs"
  by (simp_all add: get_test_contract_def)

text \<open>
  When a bound contract turns out to be wrong (an invalid red test, an expired baseline),
  the transition back to authoring unbinds it from the workflow, keeps its row as
  invalidated, and that version can never be frozen again, whatever snapshot is offered.
\<close>

theorem reauthoring_retires_contract:
  assumes "store_ok s" and "e = E_INVALID_TEST \<or> e = E_BASELINE_EXPIRED"
    and "get_modification_workflow s n = Some w" and "wf_contract w = Some v"
    and "apply_event s n e eid expd p = Inr (res, s')" and "tr_applied res"
  shows "map_option wf_contract (get_modification_workflow s' n) = Some None
     \<and> map_option tc_state (get_test_contract s' n v) = Some Invalidated
     \<and> \<not> is_ok (freeze_test_contract sha s' n v snap)"
proof -
  have *: "apply_modification_transition s n e eid (allowed_from e) (target_of e) expd p = Inr (res, s')"
    using assms(5) by (simp add: apply_event_def workflow_apply_def case_prod_beta)
  have uniq: "unique_key wf_node (workflows s)" using assms(1) by (simp add: store_ok_def)
  from * show ?thesis
  proof (cases rule: apply_transition_cases)
    case replayed
    with assms(6) show ?thesis by (auto dest: replay_not_applied)
  next
    case (applied cur version sp tcs wfs)
    have tcs: "version = None" "tcs = mark_invalidated (db_clock s) n v (event_value e) (contracts s)"
      using applied(2,4) assms(2,3,4) by (auto simp: contract_effect_def)
    have "w \<in> set (workflows s)" "wf_node w = n"
      using assms(3) by (auto simp: get_modification_workflow_def dest: find_SomeD)
    then have "\<exists>c \<in> set (contracts s). tc_node c = n \<and> tc_version c = v"
      using assms(1,4) by (auto simp: store_ok_def bound_ok_def split: option.splits)
    then obtain c where c: "find (\<lambda>c. tc_node c = n \<and> tc_version c = v) (contracts s) = Some c"
      by (cases "find (\<lambda>c. tc_node c = n \<and> tc_version c = v) (contracts s)") (auto simp: find_None_iff)
    then have "tc_node c = n" "tc_version c = v" by (auto dest: find_SomeD)
    with c tcs(2) have inv: "map_option tc_state (get_test_contract s' n v) = Some Invalidated"
      by (cases "tc_state c") (auto simp: applied(7) mark_invalidated_find)
    then have "\<not> is_ok (freeze_test_contract sha s' n v snap)"
      using freeze_invalidated_fails [of s' n v _ sha snap] by auto
    moreover have "map_option wf_contract (get_modification_workflow s' n) = Some None"
      using write_workflow_rows(2) [OF uniq applied(2,5)] tcs(1) by (simp add: applied(7))
    ultimately show ?thesis using inv by blast
  qed
qed

theorem reauthoring_retires_contract_witness:
  "\<exists>res s'. apply_event demo_approved ''n'' E_BASELINE_EXPIRED ''e3'' None [] = Inr (res, s')
     \<and> map_option tc_state (get_test_contract s' ''n'' ''v1'') = Some Invalidated
     \<and> \<not> is_ok (freeze_test_contract (\<lambda>_. ''v1'') s' ''n'' ''v1'' demo_contract)"
proof -
  have fresh: "find (\<lambda>x. ev_id x = ''e3'') (mod_events demo_approved) = None"
    using demo_approved_eval(2) by (auto simp: find_None_iff)
  have "is_ok (apply_event demo_approved ''n'' E_BASELINE_EXPIRED ''e3'' None [])"
    using demo_approved_eval
    by (simp add: apply_event_ok_iff [OF store_ok_demo_approved fresh] contract_condition_def)
  then obtain res s' where ap: "apply_event demo_approved ''n'' E_BASELINE_EXPIRED ''e3'' None [] = Inr (res, s')"
    by (auto simp: is_ok_iff)
  moreover have "tr_applied res"
    using ap fresh by (auto simp: apply_event_def workflow_apply_def elim: apply_transition_cases)
  ultimately show ?thesis
    using reauthoring_retires_contract [OF store_ok_demo_approved _ demo_approved_eval(1) _ ap] by auto
qed

end
