(* ===== verification/Run_Properties.thy ===== *)
theory Run_Properties
  imports Run_Invariants Leased_Work Gate_Properties
begin

text \<open>
  Arbitrary interleavings of the store's operations on contracts, workflows and verification
  runs, and the properties that hold along them.
\<close>

section \<open>Operations as commands\<close>

datatype plan_op =
    Freeze_Contract string string dict
  | Invalidate_Contract string string string
  | Transition string mod_event string "int option" dict
  | Enqueue_Run string string string int string "string option" int
  | Claim_Run string rat int string
  | Defer_Run string string string rat "int option"
  | Renew_Run string string rat int
  | Complete_Run string string dict "string option"

fun perform :: "(string \<Rightarrow> string) \<Rightarrow> plan_store \<Rightarrow> plan_op \<Rightarrow> plan_store" where
  "perform sha s (Freeze_Contract n v snap) = settled s (freeze_test_contract sha s n v snap)"
| "perform sha s (Invalidate_Contract n v reason) = settled s (invalidate_test_contract s n v reason)"
| "perform sha s (Transition n e eid expd p) = settled s (apply_event s n e eid expd p)"
| "perform sha s (Enqueue_Run rid n ph srev con cand m) =
     settled s (enqueue_verification_run s rid n ph srev con cand m)"
| "perform sha s (Claim_Run rid now secs tok) = settled s (claim_verification_run s rid now secs tok)"
| "perform sha s (Defer_Run rid tok code now m) =
     settled s (defer_verification_run s rid tok code now m)"
| "perform sha s (Renew_Run rid tok now secs) =
     settled s (renew_verification_lease s rid tok now secs)"
| "perform sha s (Complete_Run rid tok out code) =
     settled s (complete_verification_run s rid tok out code)"

abbreviation performs :: "(string \<Rightarrow> string) \<Rightarrow> plan_store \<Rightarrow> plan_op list \<Rightarrow> plan_store" where
  "performs sha \<equiv> foldl (perform sha)"

fun claims_under :: "plan_op \<Rightarrow> string \<Rightarrow> string \<Rightarrow> bool" where
  "claims_under (Claim_Run rid _ _ tok) k t = (rid = k \<and> tok = t)"
| "claims_under _ k t = False"

section \<open>Operations that do not touch the runs\<close>

lemma blocked_mono_apply_event:
  assumes ok: "store_ok s" and ap: "apply_event s n e eid expd p = Inr (res, s')" and "blocked s m"
  shows "blocked s' m"
proof (cases "tr_applied res \<and> m = n")
  case True
  then have "Some VERIFICATION_BLOCKED \<in> set (allowed_from e)"
    using apply_event_applied(1) [OF ok ap] assms(3) unfolding blocked_def by metis
  then show ?thesis using terminal_no_step by blast
next
  case False
  then show ?thesis
    using apply_event_replayed [OF ap] apply_event_applied(3) [OF ok ap] assms(3)
    by (cases "tr_applied res") (auto simp: blocked_def)
qed

lemma runs_apply_event: "apply_event s n e eid expd p = Inr (res, s') \<Longrightarrow> runs s' = runs s"
  by (auto simp: apply_event_def workflow_apply_def case_prod_beta elim!: apply_transition_cases)

lemma contract_op_frame:
  "freeze_test_contract sha s n v snap = Inr (res, s') \<Longrightarrow>
     runs s' = runs s \<and> (\<forall>m. get_modification_workflow s' m = get_modification_workflow s m)"
  "invalidate_test_contract s n v reason = Inr (res, s') \<Longrightarrow>
     runs s' = runs s \<and> (\<forall>m. get_modification_workflow s' m = get_modification_workflow s m)"
  by (auto simp: freeze_test_contract_def invalidate_test_contract_def Let_def
      split: if_splits option.splits)

lemma plan_ok_frame:
  "plan_ok s \<Longrightarrow> store_ok s' \<Longrightarrow> runs s' = runs s \<Longrightarrow> (\<And>m. blocked s m \<Longrightarrow> blocked s' m) \<Longrightarrow> plan_ok s'"
  by (simp add: plan_ok_def failed_blocked_def)

lemma plan_ok_contract_op:
  assumes "plan_ok s" and "store_ok s'"
    and "runs s' = runs s \<and> (\<forall>m. get_modification_workflow s' m = get_modification_workflow s m)"
  shows "plan_ok s'"
  using assms by (intro plan_ok_frame [OF assms(1,2)]) (simp_all add: blocked_def)

lemma plan_ok_settled:
  "plan_ok s \<Longrightarrow> (\<And>a s'. x = Inr (a, s') \<Longrightarrow> plan_ok s') \<Longrightarrow> plan_ok (settled s x)"
  by (cases x) auto

lemma plan_ok_perform:
  assumes ok: "plan_ok s"
  shows "plan_ok (perform sha s op)"
proof -
  note store = plan_okD(1) [OF ok]
  show ?thesis
  proof (cases op)
    case (Freeze_Contract n v snap)
    show ?thesis
      unfolding Freeze_Contract perform.simps
      by (rule plan_ok_settled [OF ok]) (rule plan_ok_contract_op [OF ok],
          erule store_ok_freeze [OF store], erule contract_op_frame)
  next
    case (Invalidate_Contract n v reason)
    show ?thesis
      unfolding Invalidate_Contract perform.simps
      by (rule plan_ok_settled [OF ok]) (rule plan_ok_contract_op [OF ok],
          erule store_ok_invalidate [OF store], erule contract_op_frame)
  next
    case (Transition n e eid expd p)
    show ?thesis
      unfolding Transition perform.simps
      by (rule plan_ok_settled [OF ok]) (rule plan_ok_frame [OF ok], auto dest: runs_apply_event
          intro: blocked_mono_apply_event [OF store] store_ok_apply_event [OF store])
  qed (auto intro!: plan_ok_settled [OF ok] intro: plan_ok_enqueue [OF ok] plan_ok_claim [OF ok]
      plan_ok_defer [OF ok] plan_ok_renew [OF ok] plan_ok_complete [OF ok])
qed

section \<open>How one operation changes one run\<close>

definition terminal :: "run_row \<Rightarrow> bool" where
  "terminal r \<longleftrightarrow> vr_state r = Completed \<or> vr_state r = Failed"

definition row_step :: "plan_op \<Rightarrow> run_row \<Rightarrow> run_row \<Rightarrow> bool" where
  "row_step op r r' \<longleftrightarrow> (terminal r \<longrightarrow> r' = r)
     \<and> vr_run_id r' = vr_run_id r \<and> source_key r' = source_key r
     \<and> vr_attempt r \<le> vr_attempt r'
     \<and> (\<forall>t. vr_lease_token r' = Some t \<longrightarrow> vr_lease_token r = Some t \<or> claims_under op (vr_run_id r) t)"

lemma row_step_refl [simp]: "row_step op r r"
  by (simp add: row_step_def)

lemma row_step_updated:
  assumes "get_verification_run s rid = Some r"
    and "\<And>x. P x \<Longrightarrow> vr_run_id (f x) = vr_run_id x"
    and "P r \<Longrightarrow> row_step op r (f r)"
    and "runs s' = update_rows P f (runs s)"
  shows "\<exists>r'. get_verification_run s' rid = Some r' \<and> row_step op r r'"
proof -
  have "get_verification_run s' rid = map_option (\<lambda>r. if P r then f r else r) (get_verification_run s rid)"
    using assms(2) by (simp add: get_verification_run_def assms(4) find_update_rows)
  with assms(1,3) show ?thesis by auto
qed

lemma row_step_same:
  "get_verification_run s rid = Some r \<Longrightarrow> runs s' = runs s \<Longrightarrow>
     \<exists>r'. get_verification_run s' rid = Some r' \<and> row_step op r r'"
  by (simp add: get_verification_run_def)

lemma row_step_unsettled:
  "get_verification_run s rid = Some r \<Longrightarrow>
   (\<And>a s'. x = Inr (a, s') \<Longrightarrow> \<exists>r'. get_verification_run s' rid = Some r' \<and> row_step op r r') \<Longrightarrow>
   \<exists>r'. get_verification_run (settled s x) rid = Some r' \<and> row_step op r r'"
  by (cases x) auto

lemma row_step_enqueue:
  "get_verification_run s rid = Some r \<Longrightarrow>
   enqueue_verification_run s rid' n ph srev con cand m = Inr (a, s') \<Longrightarrow>
   \<exists>r'. get_verification_run s' rid = Some r' \<and> row_step op r r'"
  by (auto simp: enqueue_verification_run_def Let_def get_verification_run_def find_append
      split: option.splits if_splits)

lemma row_step_claim:
  assumes ok: "runs_ok (runs s)" and r: "get_verification_run s rid = Some r"
    and cl: "claim_verification_run s rid' now secs tok = Inr (a, s')"
  shows "\<exists>r'. get_verification_run s' rid = Some r' \<and> row_step (Claim_Run rid' now secs tok) r r'"
  using cl
proof (cases rule: claim_cases)
  case kept
  with r show ?thesis by simp
next
  case (granted r0)
  have "vr_run_id r = rid" using r by (auto dest: get_run_SomeD)
  then have *: "vr_run_id r = rid' \<Longrightarrow> claimable now r" using r granted(1,2) by simp
  show ?thesis
    by (rule row_step_updated [OF r _ _, where s' = s'], unfold granted(4))
      (use * in \<open>auto simp: row_step_def terminal_def claimable_def\<close>)
qed

lemma row_step_leased:
  assumes "get_verification_run s rid = Some r"
    and "\<And>x. vr_run_id (f x) = vr_run_id x \<and> source_key (f x) = source_key x \<and> vr_attempt (f x) = vr_attempt x"
    and "\<And>x. vr_lease_token (f x) = None \<or> vr_lease_token (f x) = vr_lease_token x"
    and "runs s' = update_rows (\<lambda>x. owns_lease rid' tok x \<and> Q x) f (runs s)"
  shows "\<exists>r'. get_verification_run s' rid = Some r' \<and> row_step op r r'"
proof (rule row_step_updated [OF assms(1) _ _ assms(4)])
  show "row_step op r (f r)" if "owns_lease rid' tok r \<and> Q r"
    using that assms(2) [of r] assms(3) [of r]
    by (auto simp: row_step_def terminal_def owns_lease_def)
qed (use assms(2) in blast)

lemmas row_step_leased1 = row_step_leased [where Q = "\<lambda>_. True", simplified]

lemma perform_row_step:
  assumes ok: "plan_ok s" and r: "get_verification_run s rid = Some r"
  shows "\<exists>r'. get_verification_run (perform sha s op) rid = Some r' \<and> row_step op r r'"
proof (cases op)
  case (Claim_Run rid' now secs tok)
  show ?thesis
    unfolding Claim_Run perform.simps
    by (rule row_step_unsettled [OF r]) (rule row_step_claim [OF plan_okD(2) [OF ok] r])
next
  case (Defer_Run rid' tok code now m)
  show ?thesis
    unfolding Defer_Run perform.simps
  proof (rule row_step_unsettled [OF r])
    fix a s' assume "defer_verification_run s rid' tok code now m = Inr (a, s')"
    with plan_okD(2) [OF ok]
    show "\<exists>r'. get_verification_run s' rid = Some r' \<and> row_step (Defer_Run rid' tok code now m) r r'"
    proof (cases rule: defer_cases)
      case (retried r0 d limit)
      show ?thesis
        by (rule row_step_leased1 [OF r, where s' = s', OF _ _ _]) (simp_all add: retried(7))
    next
      case (exhausted r0 limit)
      have "runs s' = update_rows (owns_lease rid' tok) (deferred True None limit code) (runs s)"
        using block_workflow_ok(2) [OF _ exhausted(6)] plan_okD(1) [OF ok] by simp
      then show ?thesis by (intro row_step_leased1 [OF r, where s' = s']) simp_all
    qed
  qed
next
  case (Renew_Run rid' tok now secs)
  show ?thesis
    unfolding Renew_Run perform.simps
    by (rule row_step_unsettled [OF r])
      (auto simp: renew_verification_lease_def Let_def split: if_splits
        intro!: row_step_leased [OF r, where rid' = rid' and tok = tok and
          Q = "\<lambda>x. after (vr_lease_expires_at x) now" and
          f = "vr_lease_expires_at_update (\<lambda>_. Some (now + of_int secs))"])
next
  case (Complete_Run rid' tok out code)
  show ?thesis
    unfolding Complete_Run perform.simps
    by (rule row_step_unsettled [OF r])
      (auto simp: complete_verification_run_def Let_def r split: if_splits option.splits
        intro!: row_step_leased1 [OF r, where rid' = rid' and tok = tok and
          f = "\<lambda>x. x\<lparr>vr_state := Completed, vr_outcome := Some out, vr_error_code := code,
                 vr_lease_token := None, vr_lease_expires_at := None\<rparr>"])
qed (use r in \<open>auto intro!: row_step_unsettled [OF r] dest: row_step_enqueue runs_apply_event
       contract_op_frame intro: row_step_same\<close>)

lemma perform_new_run:
  assumes "get_verification_run s rid = None" and "get_verification_run (perform sha s op) rid = Some r"
    and "plan_ok s"
  shows "vr_lease_token r = None"
proof -
  have none: "get_verification_run s' rid = None"
    if "runs s' = update_rows P f (runs s)" "\<And>x. P x \<Longrightarrow> vr_run_id (f x) = vr_run_id x" for P f s'
    using assms(1) that by (simp add: get_verification_run_def find_update_rows)
  show ?thesis
  proof (cases op)
    case (Enqueue_Run rid' n ph srev con cand m)
    with assms(1,2) show ?thesis
      by (cases "enqueue_verification_run s rid' n ph srev con cand m")
        (auto simp: enqueue_verification_run_def Let_def get_verification_run_def find_append
          split: option.splits if_splits)
  next
    case (Claim_Run rid' now secs tok)
    with assms(1,2) none show ?thesis
      by (cases "claim_verification_run s rid' now secs tok") (auto elim!: claim_cases)
  next
    case (Defer_Run rid' tok code now m)
    show ?thesis
    proof (cases "defer_verification_run s rid' tok code now m")
      case (Inr x)
      obtain a s' where df: "defer_verification_run s rid' tok code now m = Inr (a, s')"
        using Inr by (cases x) auto
      with plan_okD(2) [OF assms(3)] have "get_verification_run s' rid = None"
      proof (cases rule: defer_cases)
        case (retried r0 d limit)
        have "runs s' = update_rows (owns_lease rid' tok) (deferred False (Some (now + d)) limit code) (runs s)"
          by (simp add: retried(7))
        then show ?thesis by (rule none) simp
      next
        case (exhausted r0 limit)
        have "runs s' = update_rows (owns_lease rid' tok) (deferred True None limit code) (runs s)"
          using block_workflow_ok(2) [OF _ exhausted(6)] plan_okD(1) [OF assms(3)] by simp
        then show ?thesis by (rule none) simp
      qed
      with assms(2) Defer_Run df show ?thesis by simp
    qed (use assms(1,2) Defer_Run in simp)
  next
    case (Renew_Run rid' tok now secs)
    with assms(1,2) none show ?thesis
      by (cases "renew_verification_lease s rid' tok now secs")
        (auto simp: renew_verification_lease_def Let_def split: if_splits)
  next
    case (Complete_Run rid' tok out code)
    with assms(1,2) none show ?thesis
      by (cases "complete_verification_run s rid' tok out code")
        (auto simp: complete_verification_run_def Let_def split: if_splits option.splits)
  next
    case (Freeze_Contract n v snap)
    with assms(1,2) show ?thesis
      by (cases "freeze_test_contract sha s n v snap")
        (auto simp: get_verification_run_def dest!: contract_op_frame)
  next
    case (Invalidate_Contract n v reason)
    with assms(1,2) show ?thesis
      by (cases "invalidate_test_contract s n v reason")
        (auto simp: get_verification_run_def dest!: contract_op_frame)
  next
    case (Transition n e eid expd p)
    with assms(1,2) show ?thesis
      by (cases "apply_event s n e eid expd p")
        (auto simp: get_verification_run_def dest!: runs_apply_event)
  qed
qed

section \<open>Leases\<close>

definition run_holder :: "plan_store \<Rightarrow> string \<Rightarrow> string option" where
  "run_holder s rid = (case get_verification_run s rid of None \<Rightarrow> None | Some r \<Rightarrow> vr_lease_token r)"

lemma run_holder_step:
  assumes "plan_ok s" and "run_holder (perform sha s op) rid = Some t"
  shows "run_holder s rid = Some t \<or> claims_under op rid t"
proof (cases "get_verification_run s rid")
  case None
  with assms perform_new_run [OF None _ assms(1)] show ?thesis
    by (auto simp: run_holder_def split: option.splits)
next
  case (Some r)
  then have "vr_run_id r = rid" by (auto dest: get_run_SomeD)
  with Some assms perform_row_step [OF assms(1) Some, of sha op] show ?thesis
    by (auto simp: run_holder_def row_step_def)
qed

interpretation run_leases: leased_work "perform sha" run_holder claims_under plan_ok for sha
  by unfold_locales (auto intro: plan_ok_perform dest: run_holder_step)

lemma holder_running:
  assumes "plan_ok s" and "get_verification_run s rid = Some r"
  shows "run_holder s rid = Some t \<longleftrightarrow> vr_state r = Running \<and> vr_lease_token r = Some t"
proof -
  have "run_ok r" using assms by (auto dest: plan_okD(2) runs_okD get_run_SomeD)
  with assms(2) show ?thesis by (auto simp: run_holder_def run_ok_def)
qed

lemma steps_run:
  assumes "plan_ok s" and "get_verification_run s rid = Some r"
  shows "\<exists>r'. get_verification_run (performs sha s ops) rid = Some r'
     \<and> (terminal r \<longrightarrow> r' = r) \<and> source_key r' = source_key r \<and> vr_attempt r \<le> vr_attempt r'"
  using assms
proof (induction ops arbitrary: s r)
  case Nil
  then show ?case by simp
next
  case (Cons op ops)
  obtain r1 where r1: "get_verification_run (perform sha s op) rid = Some r1" "row_step op r r1"
    using perform_row_step [OF Cons.prems] by blast
  obtain r' where "get_verification_run (performs sha (perform sha s op) ops) rid = Some r'"
    "terminal r1 \<longrightarrow> r' = r1" "source_key r' = source_key r1" "vr_attempt r1 \<le> vr_attempt r'"
    using Cons.IH [OF plan_ok_perform [OF Cons.prems(1)] r1(1)] by blast
  with r1(2) show ?case by (auto simp: row_step_def)
qed

end
