(* ===== verification/Test_Contract.thy ===== *)
theory Test_Contract
  imports Canonical_Json "HOL-Library.Multiset"
begin

text \<open>
  \<^verbatim>\<open>FrozenTestContract\<close> of \<^verbatim>\<open>agent/container/candidate_contract.py\<close>: freezing the
  requirements of a red and a final run under the SHA-256 digest of their canonical JSON, the
  dictionary form the store keeps, decoding it again with all its error cases, and the
  comparison of two contracts. The digest is the parameter \<open>sha\<close>.
\<close>

section \<open>Decoding JSON values as Python does\<close>

text \<open>\<^verbatim>\<open>[f(x) for x in xs]\<close>, where \<open>f\<close> may raise\<close>

fun result_map :: "('a \<Rightarrow> 'b result) \<Rightarrow> 'a list \<Rightarrow> 'b list result" where
  "result_map f [] = Inr []"
| "result_map f (x # xs) =
     bind_result (f x) (\<lambda>y. bind_result (result_map f xs) (\<lambda>ys. Inr (y # ys)))"

text \<open>\<^verbatim>\<open>for item in v or []\<close>\<close>

fun py_iter :: "json \<Rightarrow> json list result" where
  "py_iter (JList vs) = Inr vs"
| "py_iter (JStr s) = Inr (map (\<lambda>c. JStr [c]) s)"
| "py_iter (JObj d) = Inr (map (JStr \<circ> fst) d)"
| "py_iter v = (if truthy v then Inl (BuiltinError ''TypeError'') else Inr [])"

text \<open>\<^verbatim>\<open>item[key]\<close> for a string key\<close>

fun py_item :: "json \<Rightarrow> string \<Rightarrow> json result" where
  "py_item (JObj d) k =
     (case map_of d k of None \<Rightarrow> Inl (BuiltinError ''KeyError'') | Some v \<Rightarrow> Inr v)"
| "py_item _ k = Inl (BuiltinError ''TypeError'')"

abbreviation py_str_item :: "json \<Rightarrow> string \<Rightarrow> string result" where
  "py_str_item v k \<equiv> bind_result (py_item v k) (\<lambda>x. Inr (py_str x))"

text \<open>
  \<^verbatim>\<open>int(v)\<close>: a string is stripped and may have a sign and single underscores between
  digits.
\<close>

definition digit_value :: "char \<Rightarrow> int option" where
  "digit_value c = (let n = (of_char c :: nat) in
     if 48 \<le> n \<and> n \<le> 57 then Some (int n - 48) else None)"

fun parse_digits :: "int \<Rightarrow> string \<Rightarrow> int option" where
  "parse_digits acc [] = Some acc"
| "parse_digits acc (c # s) =
     (case digit_value c of
        Some v \<Rightarrow> parse_digits (10 * acc + v) s
      | None \<Rightarrow>
          (if c = CHR ''_'' then
             (case s of
                [] \<Rightarrow> None
              | c' # s' \<Rightarrow>
                  (case digit_value c' of None \<Rightarrow> None | Some v \<Rightarrow> parse_digits (10 * acc + v) s'))
           else None))"

definition parse_nat :: "string \<Rightarrow> int option" where
  "parse_nat s = (case s of [] \<Rightarrow> None | c # s' \<Rightarrow>
     (case digit_value c of None \<Rightarrow> None | Some v \<Rightarrow> parse_digits v s'))"

definition parse_int :: "string \<Rightarrow> int option" where
  "parse_int s = (case strip s of
      [] \<Rightarrow> None
    | c # t \<Rightarrow> (if c = CHR ''-'' then map_option uminus (parse_nat t)
               else if c = CHR ''+'' then parse_nat t else parse_nat (c # t)))"

fun py_int :: "json \<Rightarrow> int result" where
  "py_int (JInt i) = Inr i"
| "py_int (JBool b) = Inr (if b then 1 else 0)"
| "py_int (JStr s) = (case parse_int s of None \<Rightarrow> Inl (BuiltinError ''ValueError'') | Some i \<Rightarrow> Inr i)"
| "py_int _ = Inl (BuiltinError ''TypeError'')"

section \<open>Snapshots and contracts\<close>

record file_snapshot =
  fs_path :: string
  fs_sha256 :: string

record case_snapshot =
  cs_case_id :: string
  cs_node_id :: string

record command_snapshot =
  cmd_command_id :: string
  cmd_argv :: "string list"
  cmd_raw_command :: string
  cmd_test_entity_id :: string
  cmd_map_seq :: int

record frozen_contract =
  fc_contract_version :: string
  fc_test_files :: "file_snapshot list"
  fc_cases :: "case_snapshot list"
  fc_commands :: "command_snapshot list"
  fc_expected :: "string list"
  fc_baseline_hash :: string
  fc_map_seq :: int
  fc_boundary_fingerprint :: string
  fc_image_version :: string

definition contract_schema :: string where
  "contract_schema = ''bridle.test_contract/v1''"

definition file_dict :: "file_snapshot \<Rightarrow> json" where
  "file_dict f = JObj [(''path'', JStr (fs_path f)), (''sha256'', JStr (fs_sha256 f))]"

definition case_dict :: "case_snapshot \<Rightarrow> json" where
  "case_dict c = JObj [(''case_id'', JStr (cs_case_id c)), (''node_id'', JStr (cs_node_id c))]"

definition command_dict :: "command_snapshot \<Rightarrow> json" where
  "command_dict c = JObj
     [(''command_id'', JStr (cmd_command_id c)), (''argv'', JList (map JStr (cmd_argv c))),
      (''raw_command'', JStr (cmd_raw_command c)), (''test_entity_id'', JStr (cmd_test_entity_id c)),
      (''map_seq'', JInt (cmd_map_seq c))]"

definition snapshot_payload ::
  "file_snapshot list \<Rightarrow> case_snapshot list \<Rightarrow> command_snapshot list \<Rightarrow> string list \<Rightarrow> string \<Rightarrow>
   int \<Rightarrow> string \<Rightarrow> string \<Rightarrow> dict" where
  "snapshot_payload files cases commands expected baseline seq boundary img =
     [(''schema'', JStr contract_schema), (''test_files'', JList (map file_dict files)),
      (''cases'', JList (map case_dict cases)), (''commands'', JList (map command_dict commands)),
      (''expected_failure_case_ids'', JList (map JStr expected)),
      (''baseline_hash'', JStr baseline), (''map_seq'', JInt seq),
      (''boundary_fingerprint'', JStr boundary), (''image_version'', JStr img)]"

definition freeze_normalized ::
  "(string \<Rightarrow> string) \<Rightarrow> file_snapshot list \<Rightarrow> case_snapshot list \<Rightarrow> command_snapshot list \<Rightarrow>
   string list \<Rightarrow> string \<Rightarrow> int \<Rightarrow> string \<Rightarrow> string \<Rightarrow> frozen_contract result" where
  "freeze_normalized sha files cases commands expected baseline seq boundary img =
     (if files = [] then Inl (ValueError ''test_contract_files_required'')
      else if cases = [] then Inl (ValueError ''test_contract_cases_required'')
      else if commands = [] then Inl (ValueError ''test_contract_commands_required'')
      else if expected = [] then Inl (ValueError ''test_contract_expected_failure_scope_required'')
      else if \<not> set expected \<subseteq> cs_case_id ` set cases
      then Inl (ValueError ''test_contract_expected_failure_case_unknown'')
      else if seq < 0 then Inl (ValueError ''test_contract_map_seq_invalid'')
      else if strip baseline = [] then Inl (ValueError ''test_contract_baseline_hash_required'')
      else if strip boundary = []
      then Inl (ValueError ''test_contract_boundary_fingerprint_required'')
      else if strip img = [] then Inl (ValueError ''test_contract_image_version_required'')
      else Inr \<lparr>fc_contract_version = sha (canonical_json (JObj
                  (snapshot_payload files cases commands expected baseline seq boundary img))),
                fc_test_files = files, fc_cases = cases, fc_commands = commands,
                fc_expected = expected, fc_baseline_hash = baseline, fc_map_seq = seq,
                fc_boundary_fingerprint = boundary, fc_image_version = img\<rparr>)"

definition freeze_contract ::
  "(string \<Rightarrow> string) \<Rightarrow> file_snapshot list \<Rightarrow> case_snapshot list \<Rightarrow> command_snapshot list \<Rightarrow>
   string list \<Rightarrow> string \<Rightarrow> int \<Rightarrow> string \<Rightarrow> string \<Rightarrow> frozen_contract result" where
  "freeze_contract sha files cases commands expected =
     freeze_normalized sha (sort_key fs_path files) (sort_key cs_node_id cases)
       (sort_key cmd_command_id commands) (sort (remdups expected))"

definition contract_dict :: "frozen_contract \<Rightarrow> dict" where
  "contract_dict c = (''contract_version'', JStr (fc_contract_version c)) #
     snapshot_payload (fc_test_files c) (fc_cases c) (fc_commands c) (fc_expected c)
       (fc_baseline_hash c) (fc_map_seq c) (fc_boundary_fingerprint c) (fc_image_version c)"

section \<open>Decoding\<close>

definition file_of_json :: "json \<Rightarrow> file_snapshot result" where
  "file_of_json v = bind_result (py_str_item v ''path'') (\<lambda>p.
     bind_result (py_str_item v ''sha256'') (\<lambda>h. Inr \<lparr>fs_path = p, fs_sha256 = h\<rparr>))"

definition case_of_json :: "json \<Rightarrow> case_snapshot result" where
  "case_of_json v = bind_result (py_str_item v ''case_id'') (\<lambda>c.
     bind_result (py_str_item v ''node_id'') (\<lambda>n. Inr \<lparr>cs_case_id = c, cs_node_id = n\<rparr>))"

definition argv_of_json :: "json \<Rightarrow> string list result" where
  "argv_of_json v = (case v of
      JObj d \<Rightarrow> bind_result (py_iter (dict_get d ''argv'')) (\<lambda>vs. Inr (map py_str vs))
    | _ \<Rightarrow> Inl (BuiltinError ''AttributeError''))"

definition command_of_json :: "json \<Rightarrow> command_snapshot result" where
  "command_of_json v = bind_result (py_str_item v ''command_id'') (\<lambda>c.
     bind_result (argv_of_json v) (\<lambda>argv.
     bind_result (py_str_item v ''raw_command'') (\<lambda>r.
     bind_result (py_str_item v ''test_entity_id'') (\<lambda>t.
     bind_result (bind_result (py_item v ''map_seq'') py_int) (\<lambda>m.
     Inr \<lparr>cmd_command_id = c, cmd_argv = argv, cmd_raw_command = r, cmd_test_entity_id = t,
          cmd_map_seq = m\<rparr>)))))"

definition decode_list :: "(json \<Rightarrow> 'a result) \<Rightarrow> dict \<Rightarrow> string \<Rightarrow> 'a list result" where
  "decode_list f d k = bind_result (py_iter (dict_get d k)) (result_map f)"

definition contract_from_dict :: "(string \<Rightarrow> string) \<Rightarrow> dict \<Rightarrow> frozen_contract result" where
  "contract_from_dict sha d =
     (if get_str d ''schema'' \<noteq> contract_schema
      then Inl (ValueError ''test_contract_schema_invalid'')
      else bind_result (decode_list file_of_json d ''test_files'') (\<lambda>files.
        bind_result (decode_list case_of_json d ''cases'') (\<lambda>cases.
        bind_result (decode_list command_of_json d ''commands'') (\<lambda>commands.
        bind_result (decode_list (\<lambda>v. Inr (py_str v)) d ''expected_failure_case_ids'') (\<lambda>expected.
        bind_result (case map_of d ''map_seq'' of None \<Rightarrow> Inr (- 1) | Some v \<Rightarrow> py_int v) (\<lambda>seq.
        bind_result (freeze_contract sha files cases commands expected (get_str d ''baseline_hash'')
            seq (get_str d ''boundary_fingerprint'') (get_str d ''image_version'')) (\<lambda>c.
        if fc_contract_version c \<noteq> get_str d ''contract_version''
        then Inl (ValueError ''test_contract_version_mismatch'') else Inr c)))))))"

definition contract_diff :: "frozen_contract \<Rightarrow> frozen_contract \<Rightarrow> string list" where
  "contract_diff a b =
     (if fc_test_files a \<noteq> fc_test_files b then [''test_files''] else [])
     @ (if fc_cases a \<noteq> fc_cases b then [''cases''] else [])
     @ (if fc_commands a \<noteq> fc_commands b then [''commands''] else [])
     @ (if fc_expected a \<noteq> fc_expected b then [''expected_failure_scope''] else [])
     @ (if fc_baseline_hash a \<noteq> fc_baseline_hash b then [''baseline_hash''] else [])
     @ (if fc_map_seq a \<noteq> fc_map_seq b then [''map_seq''] else [])
     @ (if fc_boundary_fingerprint a \<noteq> fc_boundary_fingerprint b
        then [''boundary_fingerprint''] else [])
     @ (if fc_image_version a \<noteq> fc_image_version b then [''image_version''] else [])"

end
