(* ===== verification/Red_Classification.thy ===== *)
theory Red_Classification
  imports Test_Contract Modification_Workflow
begin

text \<open>
  \<^verbatim>\<open>agent/container/red_classification.py\<close>: the verdict on one formal red run, from the
  manifest the container returns, against the frozen contract. The manifest is an untrusted
  JSON object.
\<close>

datatype red_class = EXPECTED_RED | UNEXPECTED_RED | INVALID_TEST | INFRA_ERROR | BASELINE_REGRESSION

record red_result =
  rr_class :: red_class
  rr_error_code :: string
  rr_failed :: "string list"
  rr_unexpected :: "string list"
  rr_baseline_failed :: "string list"
  rr_collection_errors :: "dict list"

definition red_result_of :: "red_class \<Rightarrow> string \<Rightarrow> red_result" where
  "red_result_of c code = \<lparr>rr_class = c, rr_error_code = code, rr_failed = [], rr_unexpected = [],
     rr_baseline_failed = [], rr_collection_errors = []\<rparr>"

text \<open>The string values of \<^verbatim>\<open>RedClassification\<close>, and \<^verbatim>\<open>to_dict\<close>.\<close>

fun class_value :: "red_class \<Rightarrow> string" where
  "class_value EXPECTED_RED = ''EXPECTED_RED''"
| "class_value UNEXPECTED_RED = ''UNEXPECTED_RED''"
| "class_value INVALID_TEST = ''INVALID_TEST''"
| "class_value INFRA_ERROR = ''INFRA_ERROR''"
| "class_value BASELINE_REGRESSION = ''BASELINE_REGRESSION''"

definition red_result_dict :: "red_result \<Rightarrow> dict" where
  "red_result_dict r =
     [(''classification'', JStr (class_value (rr_class r))), (''error_code'', JStr (rr_error_code r)),
      (''failed_case_ids'', JList (map JStr (rr_failed r))),
      (''unexpected_case_ids'', JList (map JStr (rr_unexpected r))),
      (''baseline_failed_case_ids'', JList (map JStr (rr_baseline_failed r))),
      (''collection_errors'', JList (map JObj (rr_collection_errors r)))]"

definition infra_error_codes :: "string list" where
  "infra_error_codes =
     [''active_slot_collect_failed'', ''baseline_or_mock_tampered'', ''container_exec_failed'',
      ''container_wait_timeout'']"

definition is_infrastructure_error :: "string \<Rightarrow> bool" where
  "is_infrastructure_error code \<longleftrightarrow> code \<in> set infra_error_codes
     \<or> startswith code ''active_slot_'' \<or> startswith code ''container_''
     \<or> startswith code ''control_''"

text \<open>\<^verbatim>\<open>[dict(x) for x in d.get(key) or [] if isinstance(x, dict)]\<close>\<close>

definition dicts_in :: "string \<Rightarrow> dict \<Rightarrow> dict list result" where
  "dicts_in key d = bind_result (py_iter (dict_get d key)) (\<lambda>vs. Inr (dicts_of vs))"

definition dicts_in_all :: "string \<Rightarrow> dict list \<Rightarrow> dict list result" where
  "dicts_in_all key ds = bind_result (result_map (dicts_in key) ds) (\<lambda>dss. Inr (concat dss))"

definition observed_command_ids :: "dict list \<Rightarrow> string list" where
  "observed_command_ids results =
     [py_str v. item \<leftarrow> results, v \<leftarrow> [dict_get item ''command_id''], truthy v]"

definition missing_commands :: "frozen_contract \<Rightarrow> dict list \<Rightarrow> string list" where
  "missing_commands c results =
     sort (remdups (filter (\<lambda>i. i \<notin> set (observed_command_ids results))
       (map cmd_command_id (fc_commands c))))"

section \<open>Evidence by case\<close>

text \<open>A later case of the same node overwrites the earlier in the dictionary comprehension.\<close>

definition case_id_by_node :: "frozen_contract \<Rightarrow> string \<Rightarrow> string option" where
  "case_id_by_node c node =
     map_option cs_case_id (find (\<lambda>x. cs_node_id x = node) (rev (fc_cases c)))"

definition contracted_ids :: "frozen_contract \<Rightarrow> string list" where
  "contracted_ids c = remdups (List.map_filter (\<lambda>x. case_id_by_node c (cs_node_id x)) (fc_cases c))"

fun gather_evidence ::
  "frozen_contract \<Rightarrow> dict list \<Rightarrow> (string \<times> dict) list \<Rightarrow> string list \<Rightarrow>
   (string \<times> dict) list \<times> string list" where
  "gather_evidence c [] ev unexpected = (ev, unexpected)"
| "gather_evidence c (x # xs) ev unexpected =
     (let node = get_str x ''node_id'' in
      case case_id_by_node c node of
        None \<Rightarrow> gather_evidence c xs ev
          (if get_str x ''outcome'' \<in> {''passed'', ''skipped''} then unexpected
           else List.insert (if node = [] then ''unknown_case'' else node) unexpected)
      | Some i \<Rightarrow> gather_evidence c xs (AList.update i x ev) unexpected)"

definition outcome_in :: "(string \<times> dict) list \<Rightarrow> string \<Rightarrow> string" where
  "outcome_in ev i = (case map_of ev i of None \<Rightarrow> [] | Some x \<Rightarrow> get_str x ''outcome'')"

definition asserted_in :: "(string \<times> dict) list \<Rightarrow> string \<Rightarrow> bool" where
  "asserted_in ev i \<longleftrightarrow> (case map_of ev i of None \<Rightarrow> False
     | Some x \<Rightarrow> get_str x ''outcome'' = ''failed'' \<and> get_str x ''failure_type'' = ''AssertionError'')"

definition judge_expected ::
  "frozen_contract \<Rightarrow> (string \<times> dict) list \<Rightarrow> string list \<Rightarrow> red_result result" where
  "judge_expected c ev unexpected0 =
     (let expected = remdups (fc_expected c);
          failed = filter (asserted_in ev) expected;
          unexpected = remdups (unexpected0 @
            filter (\<lambda>i. \<not> asserted_in ev i \<and> outcome_in ev i \<noteq> ''passed'') expected)
      in if \<not> set expected \<subseteq> fst ` set ev then Inl (BuiltinError ''KeyError'')
         else if unexpected \<noteq> []
         then Inr ((red_result_of UNEXPECTED_RED ''unexpected_test_failure'')
                \<lparr>rr_failed := sort (remdups (failed @ unexpected)), rr_unexpected := sort unexpected\<rparr>)
         else if failed = [] then Inr (red_result_of UNEXPECTED_RED ''expected_red_missing'')
         else Inr ((red_result_of EXPECTED_RED ''expected_red'')\<lparr>rr_failed := sort failed\<rparr>))"

definition judge_cases :: "frozen_contract \<Rightarrow> dict list \<Rightarrow> red_result result" where
  "judge_cases c case_results =
     (let (ev, unexpected) = gather_evidence c case_results [] [];
          missing = filter (\<lambda>i. i \<notin> fst ` set ev) (contracted_ids c);
          baseline_failed =
            filter (\<lambda>i. i \<notin> set (fc_expected c) \<and> outcome_in ev i \<noteq> ''passed'') (contracted_ids c)
      in if missing \<noteq> []
         then Inr ((red_result_of INVALID_TEST ''contract_case_not_collected'')
                \<lparr>rr_unexpected := sort missing\<rparr>)
         else if baseline_failed \<noteq> []
         then Inr ((red_result_of BASELINE_REGRESSION ''baseline_test_failed'')
                \<lparr>rr_failed := sort baseline_failed, rr_baseline_failed := sort baseline_failed\<rparr>)
         else judge_expected c ev unexpected)"

definition classify_red_verification :: "frozen_contract \<Rightarrow> dict \<Rightarrow> red_result result" where
  "classify_red_verification c manifest =
     bind_result (dicts_in ''results'' manifest) (\<lambda>results.
       let code = get_str manifest ''error_code'' in
       if (\<exists>x \<in> set results. truthy (dict_get x ''timed_out'')) \<or> is_infrastructure_error code
       then Inr (red_result_of INFRA_ERROR (if code = [] then ''container_wait_timeout'' else code))
       else if missing_commands c results \<noteq> []
       then Inr ((red_result_of INVALID_TEST ''required_command_evidence_missing'')
              \<lparr>rr_unexpected := missing_commands c results\<rparr>)
       else bind_result (dicts_in_all ''collection_errors'' results) (\<lambda>errors.
         if errors \<noteq> []
         then Inr ((red_result_of INVALID_TEST ''pytest_collection_failed'')
                \<lparr>rr_collection_errors := errors\<rparr>)
         else bind_result (dicts_in_all ''case_results'' results) (\<lambda>cases.
           if cases = [] then Inr (red_result_of INVALID_TEST ''case_evidence_missing'')
           else judge_cases c cases)))"

fun event_for_class :: "red_class \<Rightarrow> mod_event" where
  "event_for_class EXPECTED_RED = E_RED_CONFIRMED"
| "event_for_class UNEXPECTED_RED = E_INVALID_TEST"
| "event_for_class INVALID_TEST = E_INVALID_TEST"
| "event_for_class INFRA_ERROR = E_INFRASTRUCTURE_FAILED"
| "event_for_class BASELINE_REGRESSION = E_BASELINE_EXPIRED"

definition event_for_red_classification :: "red_result \<Rightarrow> mod_event" where
  "event_for_red_classification r = event_for_class (rr_class r)"

section \<open>What the evidence is\<close>

text \<open>The last result reported for a node.\<close>

definition reported :: "dict list \<Rightarrow> string \<Rightarrow> dict option" where
  "reported xs node = last_row (\<lambda>x. get_str x ''node_id'' = node) xs"

definition contract_wf :: "frozen_contract \<Rightarrow> bool" where
  "contract_wf c \<longleftrightarrow> distinct (map cs_node_id (fc_cases c)) \<and> distinct (map cs_case_id (fc_cases c))
     \<and> set (fc_expected c) \<subseteq> cs_case_id ` set (fc_cases c)"

lemma case_id_by_node_wf:
  assumes "contract_wf c" and "x \<in> set (fc_cases c)"
  shows "case_id_by_node c (cs_node_id x) = Some (cs_case_id x)"
proof -
  have "unique_key cs_node_id (rev (fc_cases c))"
    using assms(1) by (simp add: contract_wf_def unique_key_def rev_map [symmetric])
  then show ?thesis
    using find_key_unique [of cs_node_id "rev (fc_cases c)" x] assms(2) by (simp add: case_id_by_node_def)
qed

lemma case_id_by_node_SomeD:
  "case_id_by_node c node = Some i \<Longrightarrow> \<exists>x \<in> set (fc_cases c). cs_node_id x = node \<and> cs_case_id x = i"
  by (auto simp: case_id_by_node_def dest!: find_SomeD)

lemma contracted_ids_wf: "contract_wf c \<Longrightarrow> set (contracted_ids c) = cs_case_id ` set (fc_cases c)"
  by (force simp: contracted_ids_def map_filter_def case_id_by_node_wf)

lemma gather_evidence_ev:
  assumes "contract_wf c" and "y \<in> set (fc_cases c)"
  shows "map_of (fst (gather_evidence c xs ev u)) (cs_case_id y)
     = (case reported xs (cs_node_id y) of None \<Rightarrow> map_of ev (cs_case_id y) | Some x \<Rightarrow> Some x)"
proof (induction xs arbitrary: ev u)
  case Nil
  show ?case by (simp add: reported_def last_row_def)
next
  case (Cons x xs)
  have rep: "reported (x # xs) n = (case reported xs n of None \<Rightarrow>
      (if get_str x ''node_id'' = n then Some x else None) | Some z \<Rightarrow> Some z)" for n
    by (simp add: reported_def last_row_def find_append split: option.split)
  show ?case
  proof (cases "case_id_by_node c (get_str x ''node_id'')")
    case None
    then have "get_str x ''node_id'' \<noteq> cs_node_id y"
      using case_id_by_node_wf [OF assms] by auto
    with None Cons show ?thesis by (simp add: rep Let_def split: option.split)
  next
    case (Some i)
    then obtain z where z: "z \<in> set (fc_cases c)" "cs_node_id z = get_str x ''node_id''" "cs_case_id z = i"
      by (auto dest: case_id_by_node_SomeD)
    have "i = cs_case_id y \<longleftrightarrow> get_str x ''node_id'' = cs_node_id y"
    proof -
      have "unique_key cs_node_id (fc_cases c)" "unique_key cs_case_id (fc_cases c)"
        using assms(1) by (simp_all add: contract_wf_def unique_key_def)
      then show ?thesis
        using unique_keyD [OF _ z(1) assms(2)] z(2,3) by metis
    qed
    then have "map_of (AList.update i x ev) (cs_case_id y)
        = (if get_str x ''node_id'' = cs_node_id y then Some x else map_of ev (cs_case_id y))"
      by (auto simp: update_conv')
    with Some Cons.IH [of "AList.update i x ev" u] show ?thesis
      by (simp add: rep Let_def split: option.split)
  qed
qed

lemma insert_not_Nil [simp]: "List.insert x u \<noteq> []"
  by (auto simp: List.insert_def)

lemma gather_evidence_unexpected:
  "snd (gather_evidence c xs ev u) = [] \<longleftrightarrow> u = [] \<and>
     (\<forall>x \<in> set xs. case_id_by_node c (get_str x ''node_id'') = None
        \<longrightarrow> get_str x ''outcome'' \<in> {''passed'', ''skipped''})"
  by (induction xs arbitrary: ev u) (auto simp: Let_def split: option.splits)

end
