(* ===== verification/Candidate_Request.thy ===== *)
theory Candidate_Request
  imports Test_Contract
begin

text \<open>
  \<^verbatim>\<open>CandidateExecutionRequest\<close> of \<^verbatim>\<open>agent/container/candidate_contract.py\<close>.
\<close>

record candidate_request =
  cq_candidate_id :: string
  cq_run_id :: string
  cq_node_id :: string
  cq_project_root :: string
  cq_base_map_seq :: int
  cq_write_set :: "string list"
  cq_read_set :: "string list"
  cq_readonly_files :: "string list"
  cq_tests :: "string list"
  cq_timeout_seconds :: int
  cq_network_allowed :: bool
  cq_module_id :: string
  cq_boundary_fingerprint :: string
  cq_image_version :: string

end
