(* ===== verification/Py_Text.thy ===== *)
theory Py_Text
  imports Bridle_Prelude
begin

text \<open>
  More of Python's text operations, on the code points up to 255: lines, case, substrings and the
  removal of characters at the ends.
\<close>

section \<open>Lines\<close>

text \<open>\<^verbatim>\<open>str.splitlines\<close> on the code points up to 255\<close>

definition line_break :: "char \<Rightarrow> bool" where
  "line_break c \<longleftrightarrow> (of_char c :: nat) \<in> {10, 11, 12, 13, 28, 29, 30, 133}"

fun splitlines_from :: "bool \<Rightarrow> string \<Rightarrow> string \<Rightarrow> string list" where
  "splitlines_from after_cr line [] = (if line = [] then [] else [line])"
| "splitlines_from after_cr line (c # s) =
     (if after_cr \<and> c = CHR 0x0A then splitlines_from False [] s
      else if line_break c then line # splitlines_from (c = CHR 0x0D) [] s
      else splitlines_from False (line @ [c]) s)"

definition splitlines :: "string \<Rightarrow> string list" where
  "splitlines s = splitlines_from False [] s"

text \<open>\<^verbatim>\<open>str.splitlines(keepends=True)\<close>\<close>

fun keep_lines_from :: "string \<Rightarrow> string \<Rightarrow> string list" where
  "keep_lines_from line [] = (if line = [] then [] else [line])"
| "keep_lines_from line (c # s) =
     (if c = CHR 0x0D
      then (case s of
              d # t \<Rightarrow> if d = CHR 0x0A then (line @ [c, d]) # keep_lines_from [] t
                       else (line @ [c]) # keep_lines_from [] s
            | [] \<Rightarrow> [line @ [c]])
      else if line_break c then (line @ [c]) # keep_lines_from [] s
      else keep_lines_from (line @ [c]) s)"

definition keep_lines :: "string \<Rightarrow> string list" where
  "keep_lines s = keep_lines_from [] s"

text \<open>A line of a text: no line break in it\<close>

definition one_line :: "string \<Rightarrow> bool" where
  "one_line l \<longleftrightarrow> list_all (\<lambda>c. \<not> line_break c) l"

definition end_lines :: "string list \<Rightarrow> string" where
  "end_lines ls = concat (map (\<lambda>l. l @ [CHR 0x0A]) ls)"

lemma concat_keep_from: "concat (keep_lines_from line s) = line @ s"
  by (induction line s rule: keep_lines_from.induct) (auto split: list.splits)

lemma concat_keep_lines [simp]: "concat (keep_lines s) = s"
  by (simp add: keep_lines_def concat_keep_from)

lemma line_break_lf [simp]: "line_break (CHR 0x0A)" "line_break (CHR 0x0D)"
  by (simp_all add: line_break_def)

lemma splitlines_prefix:
  "list_all (\<lambda>c. \<not> line_break c) w \<Longrightarrow>
   splitlines_from False line (w @ CHR 0x0A # s) = (line @ w) # splitlines_from False [] s"
  by (induction w arbitrary: line) auto

lemma splitlines_end_lines [simp]: "list_all one_line ls \<Longrightarrow> splitlines (end_lines ls) = ls"
  by (induction ls) (simp_all add: splitlines_def end_lines_def one_line_def splitlines_prefix)

lemma keep_prefix:
  "list_all (\<lambda>c. \<not> line_break c) w \<Longrightarrow>
   keep_lines_from line (w @ CHR 0x0A # s) = (line @ w @ [CHR 0x0A]) # keep_lines_from [] s"
proof (induction w arbitrary: line)
  case (Cons c w)
  then have "c \<noteq> CHR 0x0D" by auto
  with Cons show ?case by simp
qed simp

lemma keep_lines_end_lines [simp]:
  "list_all one_line ls \<Longrightarrow> keep_lines (end_lines ls) = map (\<lambda>l. l @ [CHR 0x0A]) ls"
  by (induction ls) (simp_all add: keep_lines_def end_lines_def one_line_def keep_prefix)

section \<open>Case, substrings and ends\<close>

text \<open>\<^verbatim>\<open>str.lower\<close>\<close>

definition lower_char :: "char \<Rightarrow> char" where
  "lower_char c = (let n = (of_char c :: nat) in
     if (65 \<le> n \<and> n \<le> 90) \<or> (192 \<le> n \<and> n \<le> 222 \<and> n \<noteq> 215) then char_of (n + 32) else c)"

definition lower :: "string \<Rightarrow> string" where
  "lower s = map lower_char s"

text \<open>\<^verbatim>\<open>part in text\<close>\<close>

fun occurs_in :: "string \<Rightarrow> string \<Rightarrow> bool" where
  "occurs_in p [] \<longleftrightarrow> p = []"
| "occurs_in p (c # s) \<longleftrightarrow> startswith (c # s) p \<or> occurs_in p s"

lemma occurs_in_iff: "occurs_in p s \<longleftrightarrow> (\<exists>a b. s = a @ p @ b)"
proof (induction s)
  case (Cons c s)
  have "(\<exists>a b. c # s = a @ p @ b) \<longleftrightarrow> (\<exists>b. c # s = p @ b) \<or> (\<exists>a b. s = a @ p @ b)"
    by (auto simp: Cons_eq_append_conv intro: exI [of _ "[]"])
  with Cons show ?case by (simp add: startswith_iff)
qed auto

text \<open>\<^verbatim>\<open>str.rstrip(chars)\<close> and \<^verbatim>\<open>str.lstrip(chars)\<close>\<close>

definition rstrip_chars :: "string \<Rightarrow> string \<Rightarrow> string" where
  "rstrip_chars cs s = rev (dropWhile (\<lambda>c. c \<in> set cs) (rev s))"

definition lstrip_chars :: "string \<Rightarrow> string \<Rightarrow> string" where
  "lstrip_chars cs s = dropWhile (\<lambda>c. c \<in> set cs) s"

end
