(* ===== verification/Verification_Orchestrator.thy ===== *)
theory Verification_Orchestrator
  imports Run_Properties Red_Classification Candidate_Request Py_Text
begin

text \<open>
  \<^verbatim>\<open>agent/runtime/verification_orchestrator.py\<close>: the worker that drives a node from a
  persisted trigger state through one claimed run to one authoritative gate event. Each call to
  the store is a transaction of its own, so a raised exception leaves the store with what was
  committed before it: the functions return a result together with the store. The executor's
  answer, the clock and the outcome of the lease renewal task are arguments.
\<close>

section \<open>Failure policies\<close>

record failure_policy =
  fp_retryable :: bool
  fp_max_attempts :: int
  fp_target_state :: "string option"
  fp_outcome :: "string option"
  fp_evidence_valid :: bool

definition policy ::
  "bool \<Rightarrow> int \<Rightarrow> string option \<Rightarrow> string option \<Rightarrow> bool \<Rightarrow> failure_policy" where
  "policy retryable attempts target oc valid = \<lparr>fp_retryable = retryable,
     fp_max_attempts = attempts, fp_target_state = target, fp_outcome = oc,
     fp_evidence_valid = valid\<rparr>"

definition workflow_failure_matrix :: "(string \<times> failure_policy) list" where
  "workflow_failure_matrix =
     [(''final_verification_failed'', policy False 1 (Some ''IMPLEMENTING'') None True),
      (''test_contract_invalid'', policy False 1 (Some ''TEST_AUTHORING'') None False),
      (''container_temporarily_unavailable'', policy True 5 None None True),
      (''baseline_expired'', policy False 1 (Some ''TEST_AUTHORING'') None False),
      (''boundary_changed'', policy False 1 (Some ''TEST_AUTHORING'') None False),
      (''image_changed'', policy False 1 (Some ''TEST_AUTHORING'') None False),
      (''container_boundary_violation'',
         policy False 1 (Some ''VERIFICATION_BLOCKED'') (Some ''blocked'') False),
      (''candidate_publish_failed'',
         policy False 1 (Some ''READY_TO_PUBLISH'') (Some ''failed'') True),
      (''mailbox_busy'', policy True 5 (Some ''DELIVERY_PENDING'') None True),
      (''mailbox_capacity'', policy True 5 (Some ''DELIVERY_PENDING'') None True),
      (''mail_delivery_rejected'',
         policy False 1 (Some ''COMPLETION_DELIVERY_FAILED'') None True),
      (''verification_retry_exhausted'',
         policy False 5 (Some ''VERIFICATION_BLOCKED'') (Some ''blocked'') False)]"

definition classify_workflow_failure :: "string \<Rightarrow> failure_policy result" where
  "classify_workflow_failure code =
     (case map_of workflow_failure_matrix code of
        None \<Rightarrow> Inl (ValueError (''unknown_workflow_failure:'' @ code))
      | Some p \<Rightarrow> Inr p)"

section \<open>Results\<close>

record verification_result =
  ve_event :: mod_event
  ve_status :: string
  ve_error_code :: "string option"
  ve_summary :: dict

datatype execution =
    Executed verification_result
  | Unavailable string
  | Crashed bridle_error

fun trigger :: "mod_state \<Rightarrow> (run_phase \<times> mod_event) option" where
  "trigger RED_ALLOWED = Some (Red, E_RED_VERIFICATION_STARTED)"
| "trigger SUBMITTED = Some (Final, E_FINAL_VERIFICATION_STARTED)"
| "trigger _ = None"

fun running_phase :: "mod_state \<Rightarrow> run_phase option" where
  "running_phase RED_VERIFYING = Some Red"
| "running_phase FINAL_VERIFYING = Some Final"
| "running_phase _ = None"

fun allowed_result_events :: "run_phase \<Rightarrow> mod_event list" where
  "allowed_result_events Red =
     [E_RED_CONFIRMED, E_INVALID_TEST, E_INFRASTRUCTURE_FAILED, E_BASELINE_EXPIRED]"
| "allowed_result_events Final =
     [E_FINAL_VERIFICATION_PASSED, E_FINAL_VERIFICATION_FAILED, E_BASELINE_EXPIRED]"

definition recoverable_states :: "mod_state list" where
  "recoverable_states = [RED_ALLOWED, SUBMITTED, RED_VERIFYING, FINAL_VERIFYING]"

definition validate_result :: "run_phase \<Rightarrow> mod_event \<Rightarrow> string \<Rightarrow> unit result" where
  "validate_result phase event status =
     (if event \<notin> set (allowed_result_events phase)
      then Inl (ValueError ''verification_result_event_invalid'')
      else if strip status = [] then Inl (ValueError ''verification_result_status_required'')
      else Inr ())"

text \<open>
  What may be persisted of an executor's summary. The set of list members is iterated in an
  unspecified order, here the order of its text.
\<close>

definition identifier_lists :: "string list" where
  "identifier_lists = [''failed_case_ids'', ''unexpected_case_ids'', ''baseline_failed_case_ids'',
     ''passed_case_ids'', ''executed_command_ids'', ''failed_command_ids'', ''required_command_ids'']"

fun clip_ids :: "json \<Rightarrow> json option" where
  "clip_ids (JList vs) = Some (JList [JStr (take 256 x). JStr x \<leftarrow> take 512 vs])"
| "clip_ids _ = None"

fun clip_text :: "nat \<Rightarrow> json \<Rightarrow> json option" where
  "clip_text n (JStr x) = Some (JStr (take n x))"
| "clip_text n _ = None"

fun keep_number :: "json \<Rightarrow> json option" where
  "keep_number (JInt i) = Some (JInt i)"
| "keep_number (JBool b) = Some (JBool b)"
| "keep_number _ = None"

definition entry :: "string \<Rightarrow> json option \<Rightarrow> dict" where
  "entry k v = (case v of None \<Rightarrow> [] | Some x \<Rightarrow> [(k, x)])"

definition stream_value :: "dict \<Rightarrow> string \<Rightarrow> json" where
  "stream_value d stream =
     (case map_of d stream of Some v \<Rightarrow> v | None \<Rightarrow> dict_get d (stream @ ''_preview''))"

definition sanitize_summary :: "dict \<Rightarrow> dict" where
  "sanitize_summary d =
     concat (map (\<lambda>k. entry k (clip_ids (dict_get d k))) identifier_lists)
     @ concat (map (\<lambda>k. entry k (clip_text 256 (dict_get d k))) [''classification'', ''error_code''])
     @ entry ''required_commands_passed'' (keep_number (dict_get d ''required_commands_passed''))
     @ concat (map (\<lambda>k. entry (k @ ''_preview'') (clip_text 2048 (stream_value d k)))
         [''stdout'', ''stderr''])"

section \<open>Verdict of the candidate executor\<close>

text \<open>
  \<^verbatim>\<open>CandidateVerificationExecutor.execute\<close> with the request loaded from the workspace
  manifest, and the payload and evidence of the container backend, as arguments.
\<close>

definition red_event_table :: "(string \<times> mod_event) list" where
  "red_event_table =
     [(''EXPECTED_RED'', E_RED_CONFIRMED), (''UNEXPECTED_RED'', E_INVALID_TEST),
      (''INVALID_TEST'', E_INVALID_TEST), (''INFRA_ERROR'', E_INFRASTRUCTURE_FAILED),
      (''BASELINE_REGRESSION'', E_BASELINE_EXPIRED)]"

definition red_verdict :: "dict \<Rightarrow> dict \<Rightarrow> execution" where
  "red_verdict cls summary =
     (case map_of red_event_table (py_str (dict_get cls ''classification'')) of
        None \<Rightarrow> Unavailable ''red_classification_missing''
      | Some event \<Rightarrow>
          (case result_map (\<lambda>k. py_iter (dict_get cls k))
                  [''failed_case_ids'', ''unexpected_case_ids'', ''baseline_failed_case_ids''] of
             Inl e \<Rightarrow> Crashed e
           | Inr ids \<Rightarrow> Executed \<lparr>ve_event = event,
               ve_status = lower (let t = get_str cls ''classification'' in
                 if t = [] then ''invalid'' else t),
               ve_error_code = Some (let t = get_str cls ''error_code'' in
                 if t = [] then ''invalid_test'' else t),
               ve_summary = summary @ (''classification'', dict_get cls ''classification'') #
                 zip [''failed_case_ids'', ''unexpected_case_ids'', ''baseline_failed_case_ids'']
                   (map JList ids)\<rparr>))"

definition final_verdict :: "dict \<Rightarrow> bool \<Rightarrow> dict \<Rightarrow> verification_result" where
  "final_verdict payload all_required_passed summary =
     (let passed = dict_get payload ''status'' = JStr ''completed'' \<and> all_required_passed
      in \<lparr>ve_event = if passed then E_FINAL_VERIFICATION_PASSED else E_FINAL_VERIFICATION_FAILED,
          ve_status = if passed then ''passed'' else ''failed'',
          ve_error_code = if passed then None
            else Some (let t = get_str payload ''error_code'' in if t = [] then ''test_failed'' else t),
          ve_summary = summary\<rparr>)"

definition candidate_verdict ::
  "run_phase \<Rightarrow> frozen_contract \<Rightarrow> candidate_request \<Rightarrow> dict \<Rightarrow> string list \<Rightarrow> string list \<Rightarrow> bool \<Rightarrow>
   execution" where
  "candidate_verdict phase contract request payload executed failed all_required_passed =
     (if cq_base_map_seq request \<noteq> fc_map_seq contract
         \<or> cq_boundary_fingerprint request \<noteq> fc_boundary_fingerprint contract
         \<or> cq_image_version request \<noteq> fc_image_version contract
      then Executed \<lparr>ve_event = E_BASELINE_EXPIRED, ve_status = ''baseline_expired'',
             ve_error_code = Some ''verification_candidate_contract_mismatch'', ve_summary = []\<rparr>
      else if dict_get payload ''retryable'' = JBool True
      then Unavailable (let t = get_str payload ''error_code'' in
             if t = [] then ''verification_container_unavailable'' else t)
      else let summary = [(''executed_command_ids'', JList (map JStr executed)),
                          (''failed_command_ids'', JList (map JStr failed))]
        in if phase = Red
           then (case dict_get payload ''red_classification'' of
               JObj cls \<Rightarrow> red_verdict cls summary
             | v \<Rightarrow> if truthy v then Crashed (BuiltinError ''ValueError'')
                    else Unavailable ''red_classification_missing'')
           else Executed (final_verdict payload all_required_passed summary))"

section \<open>Driving one node\<close>

definition event_of_value :: "string \<Rightarrow> mod_event option" where
  "event_of_value v = find (\<lambda>e. event_value e = v)
     [E_START, E_TEST_CONTRACT_APPROVED, E_RED_ALLOWED, E_RED_VERIFICATION_STARTED,
      E_RED_CONFIRMED, E_IMPLEMENTATION_STARTED, E_SUBMITTED, E_FINAL_VERIFICATION_STARTED,
      E_FINAL_VERIFICATION_PASSED, E_PUBLISHED, E_INVALID_TEST, E_INFRASTRUCTURE_FAILED,
      E_BASELINE_EXPIRED, E_FINAL_VERIFICATION_FAILED, E_VERIFICATION_RETRY_EXHAUSTED]"

definition candidate_id_from_events :: "plan_store \<Rightarrow> string \<Rightarrow> string option" where
  "candidate_id_from_events s node =
     map_option (\<lambda>e. py_str (dict_get (ev_payload e) ''candidate_id''))
       (find (\<lambda>e. truthy (dict_get (ev_payload e) ''candidate_id''))
         (rev (list_modification_events s node)))"

definition run_id_of :: "(string \<Rightarrow> string) \<Rightarrow> string \<Rightarrow> run_phase \<Rightarrow> int \<Rightarrow> string \<Rightarrow> string" where
  "run_id_of sha node phase revision contract =
     ''verify-'' @ take 24 (sha (node @ '':'' @ phase_value phase @ '':'' @ int_str revision @ '':'' @ contract))"

definition enqueue_from_trigger ::
  "(string \<Rightarrow> string) \<Rightarrow> plan_store \<Rightarrow> workflow_row \<Rightarrow> run_phase \<Rightarrow> (run_row \<times> plan_store) result" where
  "enqueue_from_trigger sha s w phase =
     (case wf_contract w of
        None \<Rightarrow> Inl (RuntimeError ''verification_test_contract_required'')
      | Some v \<Rightarrow>
          (if v = [] then Inl (RuntimeError ''verification_test_contract_required'')
           else enqueue_verification_run s (run_id_of sha (wf_node w) phase (wf_revision w) v)
             (wf_node w) (phase_value phase) (wf_revision w) v
             (candidate_id_from_events s (wf_node w)) 5))"

text \<open>\<open>get\<close> of the workflow raises when there is none.\<close>

definition workflow_get :: "plan_store \<Rightarrow> string \<Rightarrow> workflow_row result" where
  "workflow_get s node = (case get_modification_workflow s node of
      None \<Rightarrow> Inl (NotFoundError ''modification_workflow'') | Some w \<Rightarrow> Inr w)"

definition started_id :: "string \<Rightarrow> string" where
  "started_id run_id = ''verification:'' @ run_id @ '':started''"

definition result_id :: "string \<Rightarrow> string" where
  "result_id run_id = ''verification:'' @ run_id @ '':result''"

text \<open>From a trigger state: enqueue the run of this revision and start the verification.\<close>

definition start_verification ::
  "(string \<Rightarrow> string) \<Rightarrow> plan_store \<Rightarrow> workflow_row \<Rightarrow> run_phase \<Rightarrow> mod_event \<Rightarrow>
   workflow_row result \<times> plan_store" where
  "start_verification sha s w phase start =
     (case enqueue_from_trigger sha s w phase of
        Inl e \<Rightarrow> (Inl e, s)
      | Inr (r, s1) \<Rightarrow>
          (case apply_event s1 (wf_node w) start (started_id (vr_run_id r)) (Some (wf_revision w))
                  [(''verification_run_id'', JStr (vr_run_id r)),
                   (''phase'', JStr (phase_value (vr_phase r)))] of
             Inr (_, s2) \<Rightarrow> (workflow_get s2 (wf_node w), s2)
           | Inl e \<Rightarrow>
               (if error_code e \<noteq> ''modification_revision_conflict'' then (Inl e, s1)
                else (workflow_get s1 (wf_node w), s1))))"

text \<open>The accepted result of a completed run, validated again, moves the gate.\<close>

definition result_payload :: "run_row \<Rightarrow> dict \<Rightarrow> dict \<Rightarrow> dict" where
  "result_payload r oc summary =
     [(''verification_run_id'', JStr (vr_run_id r)), (''phase'', JStr (phase_value (vr_phase r))),
      (''status'', dict_get oc ''status''), (''error_code'', dict_get oc ''error_code''),
      (''summary'', JObj summary)]"

definition outcome_event :: "dict \<Rightarrow> mod_event result" where
  "outcome_event oc = (case map_of oc ''event'' of
      None \<Rightarrow> Inl (BuiltinError ''KeyError'')
    | Some v \<Rightarrow> (case event_of_value (py_str v) of
        None \<Rightarrow> Inl (BuiltinError ''ValueError'') | Some e \<Rightarrow> Inr e))"

definition outcome_summary :: "dict \<Rightarrow> dict result" where
  "outcome_summary oc = (let v = dict_get oc ''summary'' in
     if \<not> truthy v then Inr []
     else case v of JObj d \<Rightarrow> Inr d | _ \<Rightarrow> Inl (BuiltinError ''ValueError''))"

definition apply_authoritative_result ::
  "(run_row \<Rightarrow> dict \<Rightarrow> unit result) \<Rightarrow> plan_store \<Rightarrow> run_row \<Rightarrow> (transition_result \<times> plan_store) result"
where
  "apply_authoritative_result persist s r =
     (case vr_outcome r of
        None \<Rightarrow> Inl (RuntimeError ''verification_authoritative_outcome_missing'')
      | Some oc \<Rightarrow>
          bind_result (outcome_event oc) (\<lambda>event.
          bind_result (outcome_summary oc) (\<lambda>summary.
          bind_result (validate_result (vr_phase r) event (get_str oc ''status'')) (\<lambda>_.
          bind_result (if vr_phase r = Final then persist r oc else Inr ()) (\<lambda>_.
          apply_event s (vr_node r) event (result_id (vr_run_id r)) None
            (result_payload r oc summary))))))"

datatype dispatch =
    Settled "run_row option"
  | Claimed run_row frozen_contract

text \<open>\<^verbatim>\<open>reconcile_node\<close> up to the call of the executor.\<close>

definition claim_active_run ::
  "(string \<Rightarrow> string) \<Rightarrow> (run_row \<Rightarrow> dict \<Rightarrow> unit result) \<Rightarrow> plan_store \<Rightarrow> string \<Rightarrow> run_phase \<Rightarrow> rat \<Rightarrow> int \<Rightarrow>
   string \<Rightarrow> dispatch result \<times> plan_store" where
  "claim_active_run sha persist s node phase now lease token =
     (case latest_verification_run s node of
        None \<Rightarrow> (Inl (RuntimeError ''verification_run_missing_for_active_gate''), s)
      | Some r \<Rightarrow>
          (if vr_phase r \<noteq> phase
           then (Inl (RuntimeError ''verification_run_missing_for_active_gate''), s)
           else if vr_state r = Completed
           then (case apply_authoritative_result persist s r of
                   Inl e \<Rightarrow> (Inl e, s)
                 | Inr (_, s') \<Rightarrow> (Inr (Settled (latest_verification_run s' node)), s'))
           else (case claim_verification_run s (vr_run_id r) now lease token of
                   Inl e \<Rightarrow> (Inl e, s)
                 | Inr (None, s') \<Rightarrow> (Inr (Settled (latest_verification_run s' node)), s')
                 | Inr (Some c, s') \<Rightarrow>
                     (case get_test_contract s' node (vr_contract c) of
                        None \<Rightarrow> (Inl (RuntimeError ''verification_test_contract_missing''), s')
                      | Some row \<Rightarrow>
                          (case contract_from_dict sha (tc_snapshot row) of
                             Inl e \<Rightarrow> (Inl e, s')
                           | Inr fc \<Rightarrow> (Inr (Claimed c fc), s'))))))"

definition reconcile_start ::
  "(string \<Rightarrow> string) \<Rightarrow> (run_row \<Rightarrow> dict \<Rightarrow> unit result) \<Rightarrow> plan_store \<Rightarrow> string \<Rightarrow> rat \<Rightarrow> int \<Rightarrow> string \<Rightarrow>
   dispatch result \<times> plan_store" where
  "reconcile_start sha persist s node now lease token =
     (case get_modification_workflow s node of
        None \<Rightarrow> (Inr (Settled (latest_verification_run s node)), s)
      | Some w \<Rightarrow>
          (let (wr, s1) = (case trigger (wf_state w) of
               None \<Rightarrow> (Inr w, s)
             | Some (phase, start) \<Rightarrow> start_verification sha s w phase start)
           in case wr of
                Inl e \<Rightarrow> (Inl e, s1)
              | Inr w1 \<Rightarrow>
                  (case running_phase (wf_state w1) of
                     None \<Rightarrow> (Inr (Settled (latest_verification_run s1 node)), s1)
                   | Some phase \<Rightarrow> claim_active_run sha persist s1 node phase now lease token)))"

definition outcome_of_result :: "verification_result \<Rightarrow> int \<Rightarrow> dict" where
  "outcome_of_result r duration =
     [(''event'', JStr (event_value (ve_event r))), (''status'', JStr (ve_status r)),
      (''error_code'', opt_str (ve_error_code r)),
      (''summary'', JObj (sanitize_summary (ve_summary r))), (''duration_ms'', JInt duration)]"

text \<open>
  \<^verbatim>\<open>reconcile_node\<close> after the executor has answered: \<open>owned\<close> is what the lease renewal
  task reports, \<open>later\<close> the time then.
\<close>

definition reconcile_finish ::
  "(run_row \<Rightarrow> dict \<Rightarrow> unit result) \<Rightarrow> plan_store \<Rightarrow> string \<Rightarrow> run_row \<Rightarrow> bool \<Rightarrow> rat \<Rightarrow> int \<Rightarrow> execution \<Rightarrow>
   run_row option result \<times> plan_store" where
  "reconcile_finish persist s node c owned later duration answer =
     (let token = (case vr_lease_token c of None \<Rightarrow> ''None'' | Some t \<Rightarrow> t) in
      case answer of
        Crashed e \<Rightarrow> (Inl e, s)
      | Unavailable code \<Rightarrow>
          (if \<not> owned then (Inr (latest_verification_run s node), s)
           else (case defer_verification_run s (vr_run_id c) token code later None of
                   Inl e \<Rightarrow> (Inl e, s) | Inr (r, s') \<Rightarrow> (Inr r, s')))
      | Executed res \<Rightarrow>
          (if \<not> owned then (Inr (latest_verification_run s node), s)
           else (case validate_result (vr_phase c) (ve_event res) (ve_status res) of
               Inl e \<Rightarrow> (Inl e, s)
             | Inr _ \<Rightarrow>
                 (case complete_verification_run s (vr_run_id c) token
                         (outcome_of_result res duration) (ve_error_code res) of
                    Inl e \<Rightarrow> (Inl e, s)
                  | Inr (None, s') \<Rightarrow> (Inl (BuiltinError ''AssertionError''), s')
                  | Inr (Some r, s') \<Rightarrow>
                      (case apply_authoritative_result persist s' r of
                         Inl e \<Rightarrow> (Inl e, s')
                       | Inr (_, s'') \<Rightarrow> (Inr (latest_verification_run s'' node), s''))))))"

text \<open>
  One reconciliation: other workers and services act between the claim and the answer.
\<close>

definition reconcile_node ::
  "(string \<Rightarrow> string) \<Rightarrow> (run_row \<Rightarrow> dict \<Rightarrow> unit result) \<Rightarrow> (run_row \<Rightarrow> frozen_contract \<Rightarrow> execution) \<Rightarrow>
   plan_store \<Rightarrow> string \<Rightarrow> rat \<Rightarrow> int \<Rightarrow> string \<Rightarrow> plan_op list \<Rightarrow> bool \<Rightarrow> rat \<Rightarrow> int \<Rightarrow>
   run_row option result \<times> plan_store" where
  "reconcile_node sha persist exec s node now lease token meanwhile owned later duration =
     (case reconcile_start sha persist s node now lease token of
        (Inl e, s1) \<Rightarrow> (Inl e, s1)
      | (Inr (Settled r), s1) \<Rightarrow> (Inr r, s1)
      | (Inr (Claimed c fc), s1) \<Rightarrow>
          reconcile_finish persist (performs sha s1 meanwhile) node c owned later duration (exec c fc))"

text \<open>
  \<^verbatim>\<open>recover\<close> after a restart: the nodes in a recoverable state, in turn; an exception ends
  the pass. \<open>reconcile\<close> is the reconciliation of one node.
\<close>

fun recover_nodes ::
  "('s \<Rightarrow> string \<Rightarrow> run_row option result \<times> 's) \<Rightarrow> 's \<Rightarrow> string list \<Rightarrow> run_row list result \<times> 's" where
  "recover_nodes reconcile s [] = (Inr [], s)"
| "recover_nodes reconcile s (n # ns) =
     (case reconcile s n of
        (Inl e, s') \<Rightarrow> (Inl e, s')
      | (Inr r, s') \<Rightarrow>
          (case recover_nodes reconcile s' ns of
             (Inl e, s'') \<Rightarrow> (Inl e, s'')
           | (Inr rs, s'') \<Rightarrow> (Inr ((case r of None \<Rightarrow> [] | Some x \<Rightarrow> [x]) @ rs), s'')))"

definition recover ::
  "(plan_store \<Rightarrow> string \<Rightarrow> run_row option result \<times> plan_store) \<Rightarrow> plan_store \<Rightarrow>
   run_row list result \<times> plan_store" where
  "recover reconcile s =
     recover_nodes reconcile s (map wf_node (list_modification_workflows s recoverable_states))"

end
