(* ===== verification/Queue_Properties.thy ===== *)
theory Queue_Properties
  imports Run_Properties
begin

text \<open>
  The properties of the verification queue: fencing of lost leases, exclusive leases, final
  results that never change, one run per source event, bounded backoff, and the block of the
  workflow when the attempts are used up.
\<close>

section \<open>A concrete queue\<close>

definition demo_verifying :: plan_store where
  "demo_verifying = run_commands apply_modification_transition demo_frozen
     [(''n'', E_START, ''e1'', None, []),
      (''n'', E_TEST_CONTRACT_APPROVED, ''e2'', None, []),
      (''n'', E_RED_ALLOWED, ''e3'', None, []),
      (''n'', E_RED_VERIFICATION_STARTED, ''e4'', None, [])]"

definition demo_queue :: "plan_op list" where
  "demo_queue = [Enqueue_Run ''r'' ''n'' ''red'' 3 ''v1'' None 1, Claim_Run ''r'' 100 60 ''t1'']"

definition demo_run :: run_row where
  "demo_run = \<lparr>vr_run_id = ''r'', vr_node = ''n'', vr_phase = Red, vr_source_revision = 3,
     vr_contract = ''v1'', vr_candidate = None, vr_state = Running, vr_attempt = 1,
     vr_next_retry_at = None, vr_max_attempts = 1, vr_terminal_reason = None,
     vr_lease_token = Some ''t1'', vr_lease_expires_at = Some 160, vr_outcome = None,
     vr_error_code = None\<rparr>"

lemma plan_ok_verifying: "plan_ok demo_verifying"
proof -
  have "store_ok demo_verifying"
    unfolding demo_verifying_def by (rule plan_gate.ok_run [OF store_ok_demo_frozen])
  moreover have "runs demo_verifying = []"
    by (simp add: demo_verifying_def demo_frozen_def gate_eval)
  ultimately show ?thesis by (simp add: plan_ok_def runs_ok_def failed_blocked_def unique_key_def)
qed

lemma demo_verifying_eval:
  "runs demo_verifying = []"
  "map_option wf_state (get_modification_workflow demo_verifying ''n'') = Some RED_VERIFYING"
  "map ev_id (mod_events demo_verifying) = [''e1'', ''e2'', ''e3'', ''e4'']"
  by (simp_all add: demo_verifying_def demo_frozen_def gate_eval)

lemma plan_ok_performs: "plan_ok s \<Longrightarrow> plan_ok (performs sha s ops)"
  by (rule run_leases.ok_steps)

lemmas queue_eval = enqueue_verification_run_def claim_verification_run_def claimable_def after_def
  get_verification_run_def Let_def

lemma demo_queue_eval: "performs sha demo_verifying demo_queue = demo_verifying\<lparr>runs := [demo_run]\<rparr>"
  by (simp add: demo_queue_def queue_eval demo_verifying_eval demo_run_def)

section \<open>Fencing\<close>

lemma not_owner:
  assumes "plan_ok s" and "run_holder s rid \<noteq> Some t"
  shows "rowcount (\<lambda>x. owns_lease rid t x \<and> Q x) (runs s) \<noteq> 1"
  unfolding owns_lease_rowcount [OF plan_okD(2) [OF assms(1)]]
  using assms holder_running [OF assms(1)] by blast

lemmas not_owner1 = not_owner [where Q = "\<lambda>_. True", simplified]

lemma stale_token_rejected:
  assumes "plan_ok s" and "run_holder s rid \<noteq> Some t"
  shows "settled s (complete_verification_run s rid t out code) = s"
    and "\<not> is_ok (renew_verification_lease s rid t now secs)"
    and "\<not> is_ok (defer_verification_run s rid t ecode now m)"
  using not_owner [OF assms] not_owner1 [OF assms]
  by (auto simp: complete_verification_run_def renew_verification_lease_def Let_def is_ok_iff
      defer_verification_run_def bind_result_Inr split: option.splits if_splits)

text \<open>
  C36. A worker whose lease has passed to someone else, has been given back or was never held
  is fenced off for good. Whatever the other workers and the gate do afterwards, as long as
  nobody claims the run again under its token, a completion under that token leaves the store
  as it is, and a renewal or a deferral is refused.
\<close>

theorem stale_lease_fenced:
  assumes "plan_ok s" and "run_holder s rid \<noteq> Some t"
    and "\<forall>op \<in> set ops. \<not> claims_under op rid t"
  shows "settled (performs sha s ops) (complete_verification_run (performs sha s ops) rid t out code)
           = performs sha s ops
     \<and> \<not> is_ok (renew_verification_lease (performs sha s ops) rid t now secs)
     \<and> \<not> is_ok (defer_verification_run (performs sha s ops) rid t ecode now m)"
  using stale_token_rejected [OF plan_ok_performs [OF assms(1)] run_leases.lost_forever [OF assms]]
  by blast

theorem stale_lease_fenced_witness:
  "let s = demo_verifying\<lparr>runs := [demo_run\<lparr>vr_lease_token := Some ''t2'', vr_attempt := 2,
             vr_lease_expires_at := Some 220\<rparr>]\<rparr>;
       s' = perform id s (Renew_Run ''r'' ''t2'' 170 60)
   in settled s' (complete_verification_run s' ''r'' ''t1'' [] None) = s'"
proof -
  let ?ops = "demo_queue @ [Claim_Run ''r'' 160 60 ''t2'']"
  have eval: "performs id demo_verifying ?ops = demo_verifying\<lparr>runs :=
      [demo_run\<lparr>vr_lease_token := Some ''t2'', vr_attempt := 2, vr_lease_expires_at := Some 220\<rparr>]\<rparr>"
    by (simp add: demo_queue_eval) (simp add: queue_eval demo_run_def)
  have "plan_ok (performs id demo_verifying ?ops)" by (rule plan_ok_performs [OF plan_ok_verifying])
  from stale_lease_fenced [OF this, of "''r''" "''t1''" "[Renew_Run ''r'' ''t2'' 170 60]" id]
  show ?thesis
    unfolding eval by (simp add: Let_def run_holder_def get_verification_run_def demo_run_def)
qed

section \<open>Exclusive leases\<close>

text \<open>
  A granted claim is exclusive until it expires: it makes its token the holder and counts
  one attempt, and every claim before the expiry, under any token, returns nothing and changes
  nothing, while a claim from the expiry on takes the run over.
\<close>

theorem claim_exclusive:
  assumes "plan_ok s" and "claim_verification_run s rid now secs tok = Inr (Some r, s')"
  shows "run_holder s' rid = Some tok \<and> get_verification_run s' rid = Some r
     \<and> map_option vr_attempt (get_verification_run s rid) = Some (vr_attempt r - 1)
     \<and> (claim_verification_run s' rid now' secs' tok' = Inr (None, s')) = (now' < now + of_int secs)"
  using assms(2)
proof (cases rule: claim_cases)
  case (granted r0)
  have "vr_run_id r0 = rid" using granted(1) by (auto dest: get_run_SomeD)
  then have get: "get_verification_run s' rid = Some r"
    using granted by (simp add: get_run_update)
  moreover have "claimable now' r \<longleftrightarrow> \<not> now' < now + of_int secs"
    using granted(3) by (simp add: claimable_def after_def)
  ultimately show ?thesis
    using granted(1,3) \<open>vr_run_id r0 = rid\<close>
    by (auto simp: run_holder_def claim_verification_run_def Let_def get_run_update)
qed simp

theorem claim_exclusive_witness:
  "claim_verification_run (demo_verifying\<lparr>runs := [demo_run]\<rparr>) ''r'' 159 60 ''t2''
     = Inr (None, demo_verifying\<lparr>runs := [demo_run]\<rparr>)"
proof -
  have ok: "plan_ok (performs id demo_verifying [Enqueue_Run ''r'' ''n'' ''red'' 3 ''v1'' None 1])"
    by (rule plan_ok_performs [OF plan_ok_verifying])
  have "claim_verification_run
      (performs id demo_verifying [Enqueue_Run ''r'' ''n'' ''red'' 3 ''v1'' None 1]) ''r'' 100 60 ''t1''
      = Inr (Some demo_run, demo_verifying\<lparr>runs := [demo_run]\<rparr>)"
    by (simp add: queue_eval demo_verifying_eval demo_run_def)
  from claim_exclusive [OF ok this, of 159 60 "''t2''"] show ?thesis by simp
qed

section \<open>Final results\<close>

text \<open>
  A verification result is written once. After a run has completed, or has failed for
  good, no operation of any kind changes its row again, its outcome included, and claiming it
  gives no work.
\<close>

theorem terminal_run_immutable:
  assumes "plan_ok s" and "get_verification_run s rid = Some r"
    and "vr_state r = Completed \<or> vr_state r = Failed"
  shows "get_verification_run (performs sha s ops) rid = Some r
     \<and> claim_verification_run (performs sha s ops) rid now secs tok = Inr (None, performs sha s ops)"
proof -
  have "get_verification_run (performs sha s ops) rid = Some r"
    using steps_run [OF assms(1,2), of sha ops] assms(3) by (auto simp: terminal_def)
  then show ?thesis using assms(3) by (auto simp: claim_verification_run_def claimable_def)
qed

definition demo_done :: plan_store where
  "demo_done = performs id demo_verifying (demo_queue @ [Complete_Run ''r'' ''t1'' [] None])"

theorem terminal_run_immutable_witness:
  "get_verification_run (performs id demo_done [Complete_Run ''r'' ''t1'' [(''event'', JStr ''x'')] None])
     ''r'' = get_verification_run demo_done ''r''"
proof -
  obtain r where "get_verification_run demo_done ''r'' = Some r" "vr_state r = Completed"
    by (simp add: demo_done_def demo_queue_eval demo_run_def complete_verification_run_def rowcount_def
        owns_lease_def get_verification_run_def)
  moreover have "plan_ok demo_done"
    unfolding demo_done_def by (rule plan_ok_performs [OF plan_ok_verifying])
  ultimately show ?thesis
    using terminal_run_immutable [of demo_done "''r''" r id "[Complete_Run ''r'' ''t1'' [(''event'', JStr ''x'')] None]"]
    by simp
qed

section \<open>One run per source event\<close>

lemma find_source_unique:
  assumes "runs_ok rs" and "r \<in> set rs"
  shows "find (\<lambda>x. source_key x = source_key r) rs = Some r"
  using find_key_unique [OF runs_okD(2) [OF assms(1)] assms(2)] .

lemma enqueued_run:
  assumes "plan_ok s" and "enqueue_verification_run s rid n ph srev con cand m = Inr (r, s')"
  obtains p where "phase_of ph = Some p" "source_key r = (n, p, srev, con)" "vr_run_id r = rid"
    "get_verification_run s' rid = Some r"
proof -
  have ok': "plan_ok s'" using assms by (rule plan_ok_enqueue)
  obtain p where p: "phase_of ph = Some p" and key: "source_key r = (n, p, srev, con)"
    and rid: "vr_run_id r = rid" and mem: "r \<in> set (runs s')"
    using assms(2) unfolding enqueue_verification_run_def Let_def
    by (auto split: option.splits if_splits simp del: phase_of.simps dest: find_SomeD)
  then show ?thesis using that get_run_unique [OF plan_okD(2) [OF ok']] by blast
qed

text \<open>
  A source event (node, phase, revision and contract version) has one authoritative run.
  Once it is enqueued, and whatever happens afterwards, there is exactly one run for it, it
  keeps its identifier, and enqueueing the same source event again, under whatever identifier,
  candidate or retry limit, never adds or changes a run.
\<close>

theorem one_run_per_source:
  assumes "plan_ok s" and "enqueue_verification_run s rid n ph srev con cand m = Inr (r, s')"
  shows "filter (\<lambda>x. source_key x = source_key r) (runs (performs sha s' ops))
           = (case get_verification_run (performs sha s' ops) rid of None \<Rightarrow> [] | Some x \<Rightarrow> [x])
     \<and> get_verification_run (performs sha s' ops) rid \<noteq> None
     \<and> settled (performs sha s' ops)
          (enqueue_verification_run (performs sha s' ops) rid' n ph srev con cand' m')
         = performs sha s' ops"
proof -
  obtain p where p: "phase_of ph = Some p" and key: "source_key r = (n, p, srev, con)"
    and rid: "vr_run_id r = rid" and get: "get_verification_run s' rid = Some r"
    using assms by (rule enqueued_run)
  have ok': "plan_ok s'" using assms by (rule plan_ok_enqueue)
  obtain x where x: "get_verification_run (performs sha s' ops) rid = Some x"
    and kx: "source_key x = source_key r"
    using steps_run [OF ok' get, of sha ops] by blast
  have rs: "runs_ok (runs (performs sha s' ops))" by (rule plan_okD(2) [OF plan_ok_performs [OF ok']])
  have mem: "x \<in> set (runs (performs sha s' ops))" using x by (auto dest: get_run_SomeD)
  have find: "find (\<lambda>y. source_key y = (n, p, srev, con)) (runs (performs sha s' ops)) = Some x"
    using find_source_unique [OF rs mem] kx key by simp
  have "filter (\<lambda>y. source_key y = source_key x) (runs (performs sha s' ops)) = [x]"
    using runs_okD(2) [OF rs] mem by (rule filter_key_unique)
  moreover have "settled (performs sha s' ops)
      (enqueue_verification_run (performs sha s' ops) rid' n ph srev con cand' m') = performs sha s' ops"
    using find p by (simp add: enqueue_verification_run_def del: phase_of.simps)
  ultimately show ?thesis using x kx by simp
qed

theorem one_run_per_source_witness:
  "settled (performs id demo_verifying demo_queue)
     (enqueue_verification_run (performs id demo_verifying demo_queue) ''other'' ''n'' ''red'' 3 ''v1''
        None 5) = performs id demo_verifying demo_queue"
proof -
  let ?r = "demo_run\<lparr>vr_state := Queued, vr_attempt := 0, vr_lease_token := None,
              vr_lease_expires_at := None\<rparr>"
  have "enqueue_verification_run demo_verifying ''r'' ''n'' ''red'' 3 ''v1'' None 1
      = Inr (?r, demo_verifying\<lparr>runs := [?r]\<rparr>)"
    by (simp add: queue_eval demo_verifying_eval demo_run_def)
  note this' = one_run_per_source [OF plan_ok_verifying this, of id "[Claim_Run ''r'' 100 60 ''t1'']" "''other''" None 5]
  have "performs id (demo_verifying\<lparr>runs := [?r]\<rparr>) [Claim_Run ''r'' 100 60 ''t1'']
      = performs id demo_verifying demo_queue"
    by (simp add: demo_queue_eval) (simp add: queue_eval demo_run_def)
  with this' show ?thesis by simp
qed

section \<open>Retries\<close>

lemma retry_backoff_range:
  "retry_backoff a = Inr d \<Longrightarrow> 1 \<le> d \<and> d \<le> 60"
  by (auto simp: retry_backoff_def Let_def split: if_splits)

lemma defer_outcome_core:
  assumes "plan_ok s" and "get_verification_run s rid = Some r"
    and "defer_verification_run s rid tok code now None = Inr (res, s')"
  shows "\<exists>r'. res = Some r' \<and> get_verification_run s' rid = Some r' \<and> vr_attempt r' = vr_attempt r \<and> vr_node r' = vr_node r
     \<and> run_holder s' rid = None
     \<and> (if vr_attempt r < vr_max_attempts r
        then vr_state r' = Queued \<and> contracts s' = contracts s \<and> workflows s' = workflows s
          \<and> (\<exists>d. 1 \<le> d \<and> d \<le> 60 \<and> (\<forall>t. claimable t r' = (now + d \<le> t)))
        else vr_state r' = Failed \<and> blocked s' (vr_node r)
          \<and> trail s' (vr_node r) = trail s (vr_node r) @ [E_VERIFICATION_RETRY_EXHAUSTED])"
  using plan_okD(2) [OF assms(1)] assms(3)
proof (cases rule: defer_cases)
  case (retried r0 d limit)
  have "r0 = r" using retried(1) assms(2) by simp
  have rid: "vr_run_id r = rid" using assms(2) by (auto dest: get_run_SomeD)
  have get: "get_verification_run s' rid = Some (deferred False (Some (now + d)) limit code r)"
    unfolding retried(7) by (subst get_run_update)
      (use assms(2) retried(2) \<open>r0 = r\<close> in simp_all)
  have "claimable t (deferred False (Some (now + d)) limit code r) = (now + d \<le> t)" for t
    by (auto simp: claimable_def after_def)
  then show ?thesis
    using get retried(3,5,7,8) retry_backoff_range [OF retried(6)] \<open>r0 = r\<close>
    by (auto simp: run_holder_def)
next
  case (exhausted r0 limit)
  have "r0 = r" using exhausted(1) assms(2) by simp
  let ?s = "s\<lparr>runs := update_rows (owns_lease rid tok) (deferred True None limit code) (runs s)\<rparr>"
  have "store_ok ?s" using plan_okD(1) [OF assms(1)] by simp
  note bl = block_workflow_ok [OF this exhausted(6)]
  have "get_verification_run s' rid = get_verification_run ?s rid"
    by (simp add: get_verification_run_def bl(2))
  also have "\<dots> = Some (deferred True None limit code r)"
    by (subst get_run_update) (use assms(2) exhausted(2) \<open>r0 = r\<close> in simp_all)
  finally have get: "get_verification_run s' rid = Some (deferred True None limit code r)" .
  have "res = get_verification_run s' rid"
    using assms(3) exhausted by (auto simp: defer_verification_run_def Let_def bind_result_Inr split: if_splits)
  with get show ?thesis
    using exhausted(3,5) bl(4) bl(5) \<open>r0 = r\<close> by (auto simp: run_holder_def trail_def)
qed

text \<open>
  Deferring a held run under a retry limit: while attempts are left the run goes back to
  the queue without a lease, for a wait between one second and one minute, and cannot be
  claimed before the wait is over but can be from then on; at the limit it fails for good with
  its workflow blocked, the exhaustion recorded as the last event of the trail.
\<close>

theorem defer_outcome:
  assumes "plan_ok s" and "get_verification_run s rid = Some r"
    and "defer_verification_run s rid tok code now None = Inr (res, s')"
  shows "\<exists>r'. res = Some r' \<and> get_verification_run s' rid = Some r' \<and> vr_attempt r' = vr_attempt r \<and> vr_node r' = vr_node r
     \<and> run_holder s' rid = None
     \<and> (if vr_attempt r < vr_max_attempts r
        then vr_state r' = Queued \<and> contracts s' = contracts s \<and> workflows s' = workflows s
          \<and> (\<exists>d. 1 \<le> d \<and> d \<le> 60 \<and> (\<forall>t. claimable t r' = (now + d \<le> t)))
        else vr_state r' = Failed \<and> blocked s' (vr_node r)
          \<and> trail s' (vr_node r) = trail s (vr_node r) @ [E_VERIFICATION_RETRY_EXHAUSTED])"
  using assms by (rule defer_outcome_core)

lemma block_workflow_ready:
  assumes "store_ok s" and "get_modification_workflow s (vr_node r) = Some w"
    and "wf_state w = verifying_state (vr_phase r)"
    and "find (\<lambda>x. ev_id x = ''verification:'' @ vr_run_id r @ '':retry-exhausted'') (mod_events s) = None"
  shows "is_ok (block_workflow s r code)"
proof -
  have "unique_key wf_node (workflows s)" using assms(1) by (simp add: store_ok_def)
  from write_workflow_ok [OF this assms(2) [symmetric]] obtain wfs where
    "write_workflow s (vr_node r) (Some w) VERIFICATION_BLOCKED (wf_revision w + 1) (wf_contract w) = Inr wfs"
    by blast
  with assms(2-4) show ?thesis by (simp add: block_workflow_def Let_def)
qed

lemma demo_defer:
  "\<exists>res s'. defer_verification_run (performs id demo_verifying demo_queue) ''r'' ''t1'' ''down'' 130 None
     = Inr (res, s')"
proof -
  let ?s = "demo_verifying\<lparr>runs := [deferred True None 1 ''down'' demo_run]\<rparr>"
  obtain w where "get_modification_workflow ?s (vr_node demo_run) = Some w" "wf_state w = RED_VERIFYING"
    using demo_verifying_eval(2) by (auto simp: demo_run_def)
  moreover have "find (\<lambda>x. ev_id x = ''verification:r:retry-exhausted'') (mod_events ?s) = None"
    using demo_verifying_eval(3) by (auto simp: find_None_iff)
  moreover have "store_ok ?s" using plan_okD(1) [OF plan_ok_verifying] by simp
  ultimately have "is_ok (block_workflow ?s demo_run ''down'')"
    using block_workflow_ready [of ?s demo_run w "''down''"] by (simp add: demo_run_def)
  then obtain s' where "block_workflow ?s demo_run ''down'' = Inr s'" by (auto simp: is_ok_iff)
  then show ?thesis
    unfolding demo_queue_eval
    by (simp add: defer_verification_run_def get_verification_run_def Let_def rowcount_def
        owns_lease_def demo_run_def)
qed

theorem defer_outcome_witness:
  "\<exists>res s'. defer_verification_run (performs id demo_verifying demo_queue) ''r'' ''t1'' ''down'' 130 None
       = Inr (Some res, s') \<and> vr_state res = Failed \<and> blocked s' ''n''"
proof -
  obtain res s' where df: "defer_verification_run (performs id demo_verifying demo_queue) ''r'' ''t1'' ''down'' 130 None
     = Inr (res, s')" using demo_defer by blast
  have "get_verification_run (performs id demo_verifying demo_queue) ''r'' = Some demo_run"
    unfolding demo_queue_eval by (simp add: get_verification_run_def demo_run_def)
  from defer_outcome [OF plan_ok_performs [OF plan_ok_verifying] this df] df show ?thesis
    by (auto simp: demo_run_def)
qed

text \<open>
  From any well-formed store, whatever operations follow: a run that has failed has used
  up its attempts, its workflow is blocked, and both stay so for good.
\<close>

theorem failed_run_blocks_workflow:
  assumes "plan_ok s" and "get_verification_run (performs sha s ops) rid = Some r"
    and "vr_state r = Failed"
  shows "vr_max_attempts r \<le> vr_attempt r
     \<and> vr_terminal_reason r \<noteq> None \<and> vr_lease_token r = None
     \<and> blocked (performs sha (performs sha s ops) later) (vr_node r)"
proof -
  have ok: "plan_ok (performs sha s ops)" by (rule plan_ok_performs [OF assms(1)])
  have mem: "r \<in> set (runs (performs sha s ops))" using assms(2) by (auto dest: get_run_SomeD)
  then have r: "run_ok r" using plan_okD(2) [OF ok] by (auto dest: runs_okD)
  have "get_verification_run (performs sha (performs sha s ops) later) rid = Some r"
    using steps_run [OF ok assms(2), of sha later] assms(3) by (auto simp: terminal_def)
  then have "blocked (performs sha (performs sha s ops) later) (vr_node r)"
    using plan_okD(3) [OF plan_ok_performs [OF ok, of sha later]] assms(3)
    by (auto simp: failed_blocked_def dest: get_run_SomeD)
  with r assms(3) show ?thesis by (auto simp: run_ok_def)
qed

theorem failed_run_blocks_workflow_witness:
  "blocked (performs id demo_verifying (demo_queue @ [Defer_Run ''r'' ''t1'' ''down'' 130 None]
     @ [Transition ''n'' E_RED_CONFIRMED ''x'' None []])) ''n''"
proof -
  obtain res s' where df: "defer_verification_run (performs id demo_verifying demo_queue) ''r'' ''t1'' ''down'' 130 None
     = Inr (res, s')" using demo_defer by blast
  have "get_verification_run (performs id demo_verifying demo_queue) ''r'' = Some demo_run"
    unfolding demo_queue_eval by (simp add: get_verification_run_def demo_run_def)
  note out = defer_outcome_core [OF plan_ok_performs [OF plan_ok_verifying] this df]
  then obtain r' where "get_verification_run s' ''r'' = Some r'" "vr_state r' = Failed" "vr_node r' = ''n''"
    by (auto simp: demo_run_def)
  moreover have "performs id demo_verifying (demo_queue @ [Defer_Run ''r'' ''t1'' ''down'' 130 None]) = s'"
    using df by simp
  ultimately show ?thesis
    using failed_run_blocks_workflow [OF plan_ok_verifying, where ops =
        "demo_queue @ [Defer_Run ''r'' ''t1'' ''down'' 130 None]" and sha = id and rid = "''r''"
        and later = "[Transition ''n'' E_RED_CONFIRMED ''x'' None []]"] by simp
qed

end
