(* ===== verification/Contract_Properties.thy ===== *)
theory Contract_Properties
  imports Test_Contract Gate_Properties
begin

text \<open>
  What makes a frozen test contract trustworthy: decoding its dictionary gives it back, a
  dictionary whose content does not hash to its version is refused, the order in which the
  files, cases and commands are listed does not matter, the comparison of two contracts is
  complete, and the store accepts exactly what the contract module produces.
\<close>

section \<open>Decoding what was encoded\<close>

lemma result_map_Inr: "(\<And>x. x \<in> set xs \<Longrightarrow> f (g x) = Inr x) \<Longrightarrow> result_map f (map g xs) = Inr xs"
  by (induction xs) auto

lemma file_of_dict [simp]: "file_of_json (file_dict f) = Inr f"
  by (simp add: file_of_json_def file_dict_def)

lemma case_of_dict [simp]: "case_of_json (case_dict c) = Inr c"
  by (simp add: case_of_json_def case_dict_def)

lemma command_of_dict [simp]: "command_of_json (command_dict c) = Inr c"
  by (simp add: command_of_json_def command_dict_def argv_of_json_def dict_get_def comp_def)

definition normalized :: "frozen_contract \<Rightarrow> bool" where
  "normalized c \<longleftrightarrow> sort_key fs_path (fc_test_files c) = fc_test_files c
     \<and> sort_key cs_node_id (fc_cases c) = fc_cases c
     \<and> sort_key cmd_command_id (fc_commands c) = fc_commands c
     \<and> sort (remdups (fc_expected c)) = fc_expected c"

definition refreeze :: "(string \<Rightarrow> string) \<Rightarrow> frozen_contract \<Rightarrow> frozen_contract result" where
  "refreeze sha c = freeze_normalized sha (fc_test_files c) (fc_cases c) (fc_commands c) (fc_expected c)
     (fc_baseline_hash c) (fc_map_seq c) (fc_boundary_fingerprint c) (fc_image_version c)"

lemma sort_key_idem: "sort_key f (sort_key f xs) = sort_key f xs"
  by (rule sort_key_id_if_sorted) simp

lemma freeze_contract_fixed:
  assumes "freeze_contract sha fs cs cm ex b m bd i = Inr c"
  shows "normalized c" and "refreeze sha c = Inr c"
proof -
  have "freeze_normalized sha (sort_key fs_path fs) (sort_key cs_node_id cs)
      (sort_key cmd_command_id cm) (sort (remdups ex)) b m bd i = Inr c"
    using assms by (simp add: freeze_contract_def)
  then have c: "fc_test_files c = sort_key fs_path fs" "fc_cases c = sort_key cs_node_id cs"
    "fc_commands c = sort_key cmd_command_id cm" "fc_expected c = sort (remdups ex)"
    "fc_baseline_hash c = b" "fc_map_seq c = m" "fc_boundary_fingerprint c = bd"
    "fc_image_version c = i"
    by (auto simp: freeze_normalized_def split: if_splits)
  show "normalized c"
    by (simp add: normalized_def c sort_key_idem distinct_remdups_id)
  show "refreeze sha c = Inr c"
    using assms by (simp add: refreeze_def c freeze_contract_def)
qed

lemma freeze_normalized_fields:
  assumes "freeze_normalized sha fs cs cm ex b m bd i = Inr c"
  shows "fc_contract_version c = sha (canonical_json (JObj (snapshot_payload fs cs cm ex b m bd i)))"
    and "strip b \<noteq> []" "strip bd \<noteq> []" "strip i \<noteq> []" "cs \<noteq> []" "ex \<noteq> []"
    "set ex \<subseteq> cs_case_id ` set cs"
  using assms by (auto simp: freeze_normalized_def simp del: canonical_json.simps split: if_splits)

lemmas refreeze_fields = freeze_normalized_fields [OF refreeze_def [symmetric, THEN trans]]

lemma decode_contract_dict:
  assumes "normalized c" and "refreeze sha c = Inr c"
    and "map_of d = map_of (contract_dict c)"
  shows "contract_from_dict sha d = Inr c"
proof -
  have get: "dict_get d k = dict_get (contract_dict c) k" for k
    using assms(3) by (simp add: dict_get_def)
  have str: "get_str (contract_dict c) ''schema'' = contract_schema"
    "get_str (contract_dict c) ''baseline_hash'' = fc_baseline_hash c"
    "get_str (contract_dict c) ''boundary_fingerprint'' = fc_boundary_fingerprint c"
    "get_str (contract_dict c) ''image_version'' = fc_image_version c"
    "get_str (contract_dict c) ''contract_version'' = fc_contract_version c"
    by (simp_all add: get_str_def Let_def dict_get_def contract_dict_def snapshot_payload_def)
  have "decode_list file_of_json d ''test_files'' = Inr (fc_test_files c)"
    "decode_list case_of_json d ''cases'' = Inr (fc_cases c)"
    "decode_list command_of_json d ''commands'' = Inr (fc_commands c)"
    "decode_list (\<lambda>v. Inr (py_str v)) d ''expected_failure_case_ids'' = Inr (fc_expected c)"
    unfolding decode_list_def get
    by (simp_all add: dict_get_def contract_dict_def snapshot_payload_def result_map_Inr)
  moreover have "map_of d ''map_seq'' = Some (JInt (fc_map_seq c))"
    unfolding assms(3) by (simp add: contract_dict_def snapshot_payload_def)
  moreover have "freeze_contract sha (fc_test_files c) (fc_cases c) (fc_commands c) (fc_expected c)
      (fc_baseline_hash c) (fc_map_seq c) (fc_boundary_fingerprint c) (fc_image_version c) = Inr c"
    using assms(1,2) by (simp add: freeze_contract_def refreeze_def normalized_def)
  ultimately show ?thesis
    using str by (simp add: contract_from_dict_def get_str_def get Let_def)
qed

text \<open>
  A frozen contract survives the store: whatever order the object's members come back in,
  decoding them gives exactly the contract that was frozen, with its version.
\<close>

theorem contract_roundtrip:
  assumes "freeze_contract sha fs cs cm ex b m bd i = Inr c"
    and "distinct (map fst d)" and "set d = set (contract_dict c)"
  shows "contract_from_dict sha d = Inr c"
proof (rule decode_contract_dict [OF freeze_contract_fixed [OF assms(1)]])
  have "distinct (map fst (contract_dict c))"
    by (simp add: contract_dict_def snapshot_payload_def)
  then show "map_of d = map_of (contract_dict c)"
    using assms(2,3) by (intro map_of_inject_set [THEN iffD2]) auto
qed

text \<open>A digest that evaluates: the length of the text.\<close>

definition length_sha :: "string \<Rightarrow> string" where
  "length_sha t = nat_str (length t)"

definition demo_frozen_contract :: "frozen_contract result" where
  "demo_frozen_contract = freeze_contract length_sha
     [\<lparr>fs_path = ''tests/b.py'', fs_sha256 = ''2''\<rparr>, \<lparr>fs_path = ''tests/a.py'', fs_sha256 = ''1''\<rparr>]
     [\<lparr>cs_case_id = ''c1'', cs_node_id = ''tests/a.py::t''\<rparr>]
     [\<lparr>cmd_command_id = ''k'', cmd_argv = [''pytest''], cmd_raw_command = ''pytest'',
        cmd_test_entity_id = ''e'', cmd_map_seq = 1\<rparr>]
     [''c1'', ''c1''] ''base'' 1 ''edge'' ''img''"

lemma demo_contract_eval: "\<exists>c. demo_frozen_contract = Inr c"
  by (simp add: demo_frozen_contract_def freeze_contract_def freeze_normalized_def
      strip_def is_space_def Let_def insort_key_left_comm del: canonical_json.simps)

theorem contract_roundtrip_witness:
  "\<exists>c. demo_frozen_contract = Inr c \<and> contract_from_dict length_sha (rev (contract_dict c)) = Inr c"
proof -
  obtain c where c: "demo_frozen_contract = Inr c" using demo_contract_eval by blast
  have "distinct (map fst (rev (contract_dict c)))"
    by (simp add: contract_dict_def snapshot_payload_def)
  then have "contract_from_dict length_sha (rev (contract_dict c)) = Inr c"
    by (intro contract_roundtrip [OF c [unfolded demo_frozen_contract_def]]) simp_all
  with c show ?thesis by blast
qed

section \<open>Tampering\<close>

lemma contract_from_dict_frozen:
  assumes "contract_from_dict sha d = Inr c"
  obtains fs cs cm ex b m bd i where "freeze_contract sha fs cs cm ex b m bd i = Inr c"
    "fc_contract_version c = get_str d ''contract_version''"
  using assms by (auto simp: contract_from_dict_def bind_result_Inr split: if_splits)

text \<open>
  A stored contract cannot be altered unnoticed: what decodes at all carries exactly the
  digest of its own content as its version, is in normal form, has only expected failures that
  are cases of the contract, and decodes to itself again.
\<close>

theorem tampered_contract_refused:
  assumes "contract_from_dict sha d = Inr c"
  shows "get_str d ''contract_version'' = sha (canonical_json (JObj (tl (contract_dict c))))
     \<and> normalized c \<and> set (fc_expected c) \<subseteq> cs_case_id ` set (fc_cases c)
     \<and> fc_expected c \<noteq> []
     \<and> contract_from_dict sha (contract_dict c) = Inr c"
proof -
  obtain fs cs cm ex b m bd i where fz: "freeze_contract sha fs cs cm ex b m bd i = Inr c"
    and v: "fc_contract_version c = get_str d ''contract_version''"
    using assms by (rule contract_from_dict_frozen)
  note fixed = freeze_contract_fixed [OF fz]
  show ?thesis
    using fixed refreeze_fields [OF fixed(2)] decode_contract_dict [OF fixed refl] v
    by (simp add: contract_dict_def del: canonical_json.simps)
qed

theorem tampered_contract_refused_witness:
  "\<exists>c. demo_frozen_contract = Inr c \<and>
     fc_contract_version c = length_sha (canonical_json (JObj (tl (contract_dict c))))"
proof -
  obtain c where c: "demo_frozen_contract = Inr c" using demo_contract_eval by blast
  have "contract_from_dict length_sha (contract_dict c) = Inr c"
    by (rule decode_contract_dict [OF freeze_contract_fixed [OF c [unfolded demo_frozen_contract_def]] refl])
  from tampered_contract_refused [OF this]
  have "get_str (contract_dict c) ''contract_version'' = length_sha (canonical_json (JObj (tl (contract_dict c))))"
    by blast
  moreover have "get_str (contract_dict c) ''contract_version'' = fc_contract_version c"
    by (simp add: get_str_def Let_def dict_get_def contract_dict_def)
  ultimately show ?thesis using c by metis
qed

section \<open>Order of the parts\<close>

lemma sort_key_mset_eq: "mset xs = mset ys \<Longrightarrow> inj_on f (set xs) \<Longrightarrow> sort_key f xs = sort_key f ys"
  by (rule sort_key_inj_key_eq) simp_all

text \<open>
  The version of a contract does not depend on the order in which its files, cases,
  commands and expected failures are collected, nor on repeated expected failures: freezing a
  rearranged collection gives the same contract or the same error.
\<close>

theorem freeze_order_irrelevant:
  assumes "mset fs = mset fs'" and "mset cs = mset cs'" and "mset cm = mset cm'"
    and "set ex = set ex'" and "inj_on fs_path (set fs)" and "inj_on cs_node_id (set cs)"
    and "inj_on cmd_command_id (set cm)"
  shows "freeze_contract sha fs cs cm ex = freeze_contract sha fs' cs' cm' ex'"
proof -
  have "sort (remdups ex) = sort (remdups ex')"
    using assms(4) by (metis sorted_list_of_set_sort_remdups)
  then show ?thesis
    using assms by (simp add: freeze_contract_def sort_key_mset_eq [of fs fs'] sort_key_mset_eq [of cs cs']
        sort_key_mset_eq [of cm cm'])
qed

theorem freeze_order_irrelevant_witness:
  "freeze_contract length_sha
     [\<lparr>fs_path = ''b'', fs_sha256 = ''2''\<rparr>, \<lparr>fs_path = ''a'', fs_sha256 = ''1''\<rparr>] [] [] [''x'', ''y'']
   = freeze_contract length_sha
     [\<lparr>fs_path = ''a'', fs_sha256 = ''1''\<rparr>, \<lparr>fs_path = ''b'', fs_sha256 = ''2''\<rparr>] [] [] [''y'', ''x'', ''y'']"
  by (rule freeze_order_irrelevant) (auto simp: inj_on_def)

section \<open>Comparing contracts\<close>

text \<open>
  The comparison that guards publication misses nothing: two frozen contracts have no
  reported difference exactly when they are the same contract, version included.
\<close>

theorem contract_diff_complete:
  assumes "contract_from_dict sha d = Inr a" and "contract_from_dict sha d' = Inr b"
  shows "contract_diff a b = [] \<longleftrightarrow> a = b"
proof
  obtain fs cs cm ex bh m bd i where "freeze_contract sha fs cs cm ex bh m bd i = Inr a"
    using assms(1) by (rule contract_from_dict_frozen)
  note va = refreeze_fields(1) [OF freeze_contract_fixed(2) [OF this]]
  obtain fs cs cm ex bh m bd i where "freeze_contract sha fs cs cm ex bh m bd i = Inr b"
    using assms(2) by (rule contract_from_dict_frozen)
  note vb = refreeze_fields(1) [OF freeze_contract_fixed(2) [OF this]]
  assume "contract_diff a b = []"
  then have same: "fc_test_files a = fc_test_files b" "fc_cases a = fc_cases b"
    "fc_commands a = fc_commands b" "fc_expected a = fc_expected b"
    "fc_baseline_hash a = fc_baseline_hash b" "fc_map_seq a = fc_map_seq b"
    "fc_boundary_fingerprint a = fc_boundary_fingerprint b" "fc_image_version a = fc_image_version b"
    by (auto simp: contract_diff_def split: if_splits)
  moreover have "fc_contract_version a = fc_contract_version b"
    unfolding va vb same ..
  ultimately show "a = b" by (intro frozen_contract.equality) simp_all
qed (simp add: contract_diff_def)

theorem contract_diff_complete_witness:
  "\<exists>c. demo_frozen_contract = Inr c \<and> contract_diff c c = []"
proof -
  obtain c where c: "demo_frozen_contract = Inr c" using demo_contract_eval by blast
  have "contract_from_dict length_sha (contract_dict c) = Inr c"
    by (rule decode_contract_dict [OF freeze_contract_fixed [OF c [unfolded demo_frozen_contract_def]] refl])
  from contract_diff_complete [OF this this] c show ?thesis by blast
qed

section \<open>The store keeps what was frozen\<close>

lemma sha_contract_dict:
  "AList.delete ''contract_version'' (contract_dict c) = tl (contract_dict c)"
  by (simp add: contract_dict_def snapshot_payload_def)

text \<open>
  A contract frozen for a node without an active one is accepted by the store under its
  version, becomes the node's active contract, and reading it back and decoding it gives the
  very contract that was frozen.
\<close>

theorem frozen_contract_stored:
  assumes "freeze_contract sha fs cs cm ex b m bd i = Inr c"
    and "get_active_test_contract s n = None"
    and "get_test_contract s n (fc_contract_version c) = None"
  shows "\<exists>s' row. freeze_test_contract sha s n (fc_contract_version c) (contract_dict c)
       = Inr (\<lparr>cr_node = n, cr_version = fc_contract_version c, cr_state = Frozen, cr_reason = None,
               cr_applied = True\<rparr>, s')
     \<and> get_active_test_contract s' n = Some row
     \<and> get_test_contract s' n (fc_contract_version c) = Some row
     \<and> contract_from_dict sha (tc_snapshot row) = Inr c"
proof -
  note fixed = freeze_contract_fixed [OF assms(1)]
  have version: "get_str (contract_dict c) ''contract_version'' = fc_contract_version c"
    by (simp add: get_str_def Let_def dict_get_def contract_dict_def)
  have hash: "sha (canonical_json (JObj (tl (contract_dict c)))) = fc_contract_version c"
    using refreeze_fields(1) [OF fixed(2)] by (simp add: contract_dict_def del: canonical_json.simps)
  show ?thesis
    using assms(2,3) version hash decode_contract_dict [OF fixed refl]
    by (simp add: freeze_test_contract_def sha_contract_dict get_active_test_contract_def
        get_test_contract_def find_append del: canonical_json.simps)
qed

theorem frozen_contract_stored_witness:
  "\<exists>c s' row. demo_frozen_contract = Inr c
     \<and> get_active_test_contract s' ''n'' = Some row \<and> contract_from_dict length_sha (tc_snapshot row) = Inr c"
proof -
  obtain c where c: "demo_frozen_contract = Inr c" using demo_contract_eval by blast
  have "get_active_test_contract (empty_store 0) ''n'' = None"
    "get_test_contract (empty_store 0) ''n'' v = None" for v
    by (simp_all add: get_active_test_contract_def get_test_contract_def empty_store_def)
  from frozen_contract_stored [OF c [unfolded demo_frozen_contract_def] this] c show ?thesis by blast
qed

end
