(* ===== verification/Orchestrator_Properties.thy ===== *)
theory Orchestrator_Properties
  imports Verification_Orchestrator Queue_Properties Contract_Properties
begin

text \<open>
  The orchestrator over the durable queue and the gate: it keeps every invariant of the store,
  drives a triggered node to its one result, applies a result once however often it is
  recovered, and a worker without its lease cannot move the gate.
\<close>

section \<open>Invariants\<close>

lemma plan_ok_event: "plan_ok s \<Longrightarrow> apply_event s n e eid expd p = Inr (res, s') \<Longrightarrow> plan_ok s'"
  using plan_ok_perform [of s id "Transition n e eid expd p"] by simp

lemma event_of_value_event [simp]: "event_of_value (event_value e) = Some e"
  by (cases e) (simp_all add: event_of_value_def)

lemma authoritative_event:
  assumes "apply_authoritative_result persist s r = Inr (res, s')"
  obtains oc event summary where "vr_outcome r = Some oc" "outcome_event oc = Inr event"
    "outcome_summary oc = Inr summary" "event \<in> set (allowed_result_events (vr_phase r))"
    "apply_event s (vr_node r) event (result_id (vr_run_id r)) None (result_payload r oc summary)
       = Inr (res, s')"
  using assms
  by (auto simp: apply_authoritative_result_def bind_result_Inr validate_result_def
      split: option.splits if_splits)

lemma plan_ok_authoritative:
  "plan_ok s \<Longrightarrow> apply_authoritative_result persist s r = Inr (res, s') \<Longrightarrow> plan_ok s'"
  by (elim authoritative_event) (rule plan_ok_event)

lemma plan_ok_start_verification:
  assumes "plan_ok s" and "start_verification sha s w phase start = (x, s')"
  shows "plan_ok s'"
proof (cases "enqueue_from_trigger sha s w phase")
  case (Inl e)
  with assms show ?thesis by (simp add: start_verification_def)
next
  case (Inr y)
  obtain r s1 where y: "y = (r, s1)" by (cases y)
  then have "plan_ok s1"
    using assms(1) Inr by (auto simp: enqueue_from_trigger_def split: option.splits if_splits
        intro: plan_ok_enqueue)
  then show ?thesis
    using assms(2) Inr y
    by (auto simp: start_verification_def split: sum.splits if_splits dest: plan_ok_event)
qed

lemma plan_ok_claim_active:
  assumes "plan_ok s" and "claim_active_run sha persist s node phase now lease token = (x, s')"
  shows "plan_ok s'"
  using assms
  by (auto simp: claim_active_run_def split: option.splits sum.splits if_splits;
      blast intro: plan_ok_authoritative plan_ok_claim)

lemma plan_ok_reconcile_start:
  assumes "plan_ok s" and "reconcile_start sha persist s node now lease token = (x, s')"
  shows "plan_ok s'"
  using assms
  by (auto simp: reconcile_start_def Let_def split: option.splits sum.splits prod.splits;
      blast intro: plan_ok_claim_active plan_ok_start_verification)

lemma plan_ok_reconcile_finish:
  assumes "plan_ok s" and "reconcile_finish persist s node c owned later duration answer = (x, s')"
  shows "plan_ok s'"
  using assms
  by (auto simp: reconcile_finish_def Let_def split: execution.splits if_splits sum.splits option.splits;
      blast intro: plan_ok_authoritative plan_ok_defer plan_ok_complete)

lemma plan_ok_reconcile:
  assumes "plan_ok s"
  shows "plan_ok (snd (reconcile_node sha persist exec s node now lease token meanwhile owned later duration))"
proof -
  obtain x s1 where start: "reconcile_start sha persist s node now lease token = (x, s1)"
    by (cases "reconcile_start sha persist s node now lease token")
  have ok1: "plan_ok s1" using assms start by (rule plan_ok_reconcile_start)
  have "plan_ok (snd (reconcile_finish persist (performs sha s1 meanwhile) node c owned later duration a))"
    for c a
    by (cases "reconcile_finish persist (performs sha s1 meanwhile) node c owned later duration a")
      (auto dest: plan_ok_reconcile_finish [OF run_leases.ok_steps [OF ok1]])
  then show ?thesis
    using ok1 by (simp add: reconcile_node_def start split: sum.split dispatch.split)
qed

section \<open>A worker without its lease\<close>

lemma authoritative_trail:
  assumes "plan_ok s" and "apply_authoritative_result persist s r = Inr (res, s')"
  shows "runs s' = runs s
     \<and> (s' = s \<or> (\<exists>oc e. vr_outcome r = Some oc \<and> outcome_event oc = Inr e
          \<and> e \<in> set (allowed_result_events (vr_phase r))
          \<and> trail s' (vr_node r) = trail s (vr_node r) @ [e]))"
proof -
  obtain oc event summary where o: "vr_outcome r = Some oc" "outcome_event oc = Inr event"
    "event \<in> set (allowed_result_events (vr_phase r))"
    and ap: "apply_event s (vr_node r) event (result_id (vr_run_id r)) None (result_payload r oc summary)
       = Inr (res, s')"
    using assms(2) by (rule authoritative_event)
  show ?thesis
    using o apply_event_applied(4) [OF plan_okD(1) [OF assms(1)] ap] apply_event_replayed [OF ap]
      runs_apply_event [OF ap]
    by (cases "tr_applied res") (auto simp: trail_def)
qed

lemma complete_not_owner:
  assumes "plan_ok s" and "run_holder s rid \<noteq> Some t"
    and "complete_verification_run s rid t oc code = Inr (x, s')"
  shows "s' = s \<and> (\<exists>r. x = Some r \<and> get_verification_run s rid = Some r \<and> vr_state r = Completed)"
  using assms(3) not_owner1 [OF assms(1,2)]
  by (auto simp: complete_verification_run_def split: option.splits if_splits)

text \<open>
  C2. A worker that comes back after its lease has passed on cannot do any harm, whatever its
  executor answers and even if its renewal task noticed nothing: no run changes, and the only
  thing that can move the gate is the outcome the rightful holder has recorded for the run.
\<close>

theorem stale_worker_harmless:
  assumes "plan_ok s" and "vr_lease_token c = Some t" and "run_holder s (vr_run_id c) \<noteq> Some t"
    and "reconcile_finish persist s node c owned later duration answer = (res, s')"
  shows "runs s' = runs s \<and> (s' = s \<or>
     (\<exists>r oc e. get_verification_run s (vr_run_id c) = Some r \<and> vr_state r = Completed
        \<and> vr_outcome r = Some oc \<and> outcome_event oc = Inr e
        \<and> trail s' (vr_node r) = trail s (vr_node r) @ [e]))"
proof (cases answer)
  case (Unavailable code)
  have "\<not> is_ok (defer_verification_run s (vr_run_id c) t code later None)"
    using assms(1,3) by (rule stale_token_rejected(3))
  then show ?thesis
    using assms(2,4) Unavailable
    by (auto simp: reconcile_finish_def is_ok_iff split: if_splits sum.splits)
next
  case (Executed r)
  have "s' = s \<or> (\<exists>r' tr. get_verification_run s (vr_run_id c) = Some r' \<and> vr_state r' = Completed
      \<and> apply_authoritative_result persist s r' = Inr (tr, s'))"
    using assms(2,4) Executed complete_not_owner [OF assms(1,3)]
    by (fastforce simp: reconcile_finish_def split: if_splits sum.splits option.splits)
  then show ?thesis using authoritative_trail [OF assms(1)] by blast
qed (use assms(4) in \<open>simp add: reconcile_finish_def\<close>)

definition demo_late_worker :: run_row where
  "demo_late_worker = demo_run\<lparr>vr_lease_token := Some ''t0''\<rparr>"

definition demo_confirms :: execution where
  "demo_confirms = Executed \<lparr>ve_event = E_RED_CONFIRMED, ve_status = ''expected_red'',
     ve_error_code = None, ve_summary = []\<rparr>"

lemma plan_ok_demo_queue: "plan_ok (demo_verifying\<lparr>runs := [demo_run]\<rparr>)"
  using plan_ok_performs [OF plan_ok_verifying, of id demo_queue] by (simp add: demo_queue_eval)

theorem stale_worker_harmless_witness:
  "snd (reconcile_finish (\<lambda>_ _. Inr ()) (demo_verifying\<lparr>runs := [demo_run]\<rparr>) ''n'' demo_late_worker True
      200 5 demo_confirms) = demo_verifying\<lparr>runs := [demo_run]\<rparr>"
proof -
  let ?s = "demo_verifying\<lparr>runs := [demo_run]\<rparr>"
  obtain x s' where fin: "reconcile_finish (\<lambda>_ _. Inr ()) ?s ''n'' demo_late_worker True 200 5 demo_confirms
      = (x, s')" by (cases "reconcile_finish (\<lambda>_ _. Inr ()) ?s ''n'' demo_late_worker True 200 5 demo_confirms")
  have "vr_lease_token demo_late_worker = Some ''t0''" by (simp add: demo_late_worker_def)
  moreover have "run_holder ?s (vr_run_id demo_late_worker) \<noteq> Some ''t0''"
    "get_verification_run ?s (vr_run_id demo_late_worker) = Some demo_run"
    by (simp_all add: run_holder_def get_verification_run_def demo_late_worker_def demo_run_def)
  ultimately show ?thesis
    using stale_worker_harmless [OF plan_ok_demo_queue _ _ fin] fin by (auto simp: demo_run_def)
qed

section \<open>One result, however often it is recovered\<close>

lemma result_payload_version [simp]: "dict_get (result_payload r oc sm) ''test_contract_version'' = JNull"
  by (simp add: result_payload_def dict_get_def)

text \<open>
  C3. The authoritative result of a run is applied to the gate at most once. After it has been
  applied, applying it again, in any later state of the event log, as a restart after a crash
  or a second worker does, succeeds and changes nothing.
\<close>

theorem result_applied_once:
  assumes "apply_authoritative_result persist s r = Inr (tr, s1)"
    and "mod_events t = mod_events s1 @ later"
  shows "apply_authoritative_result persist t r = Inr (tr\<lparr>tr_applied := False\<rparr>, t)"
proof -
  obtain oc event summary where o: "vr_outcome r = Some oc" "outcome_event oc = Inr event"
    "outcome_summary oc = Inr summary" "event \<in> set (allowed_result_events (vr_phase r))"
    and ap: "apply_event s (vr_node r) event (result_id (vr_run_id r)) None (result_payload r oc summary)
       = Inr (tr, s1)"
    using assms(1) by (rule authoritative_event)
  have "apply_event t (vr_node r) event (result_id (vr_run_id r)) None (result_payload r oc summary)
      = Inr (tr\<lparr>tr_applied := False\<rparr>, t)"
    using ap result_payload_version assms(2) by (rule replay_settled)
  moreover have "\<exists>x. (if vr_phase r = Final then persist r oc else Inr ()) = Inr x"
    "validate_result (vr_phase r) event (get_str oc ''status'') = Inr ()"
    using assms(1) o by (auto simp: apply_authoritative_result_def bind_result_Inr)
  ultimately show ?thesis
    using o by (auto simp: apply_authoritative_result_def)
qed

section \<open>The executor's verdict\<close>

text \<open>
  The orchestrator's reading of a red classification agrees with the classifier's own map
  to gate events: whatever the verdict, the event that reaches the gate is the one the
  classifier assigns, and it is always one the red phase accepts from a running verification.
\<close>

theorem red_verdict_agrees:
  "\<exists>v. red_verdict (red_result_dict r) summary = Executed v
     \<and> ve_event v = event_for_red_classification r
     \<and> ve_event v \<in> set (allowed_result_events Red)
     \<and> Some RED_VERIFYING \<in> set (allowed_from (ve_event v))"
  by (cases "rr_class r")
    (simp_all add: red_verdict_def red_event_table_def red_result_dict_def dict_get_def
      event_for_red_classification_def)

section \<open>What is persisted of a summary\<close>

definition summary_keys :: "string list" where
  "summary_keys = identifier_lists @ [''classification'', ''error_code'', ''required_commands_passed'',
     ''stdout_preview'', ''stderr_preview'']"

fun clipped :: "json \<Rightarrow> bool" where
  "clipped (JList vs) = (length vs \<le> 512 \<and> (\<forall>v \<in> set vs. \<exists>x. v = JStr x \<and> length x \<le> 256))"
| "clipped (JStr x) = (length x \<le> 2048)"
| "clipped (JInt i) = True"
| "clipped (JBool b) = True"
| "clipped _ = False"

lemma entry_in: "(k, v) \<in> set (entry k' o') \<longleftrightarrow> k = k' \<and> o' = Some v"
  by (auto simp: entry_def split: option.splits)

lemma length_concat_le:
  assumes "\<And>x. length (f x) \<le> 1"
  shows "length (concat (map f ys)) \<le> length ys"
proof (induction ys)
  case (Cons y ys)
  then show ?case using assms [of y] by simp
qed simp

lemma clip_ids_clipped: "clip_ids j = Some v \<Longrightarrow> clipped v"
proof (induction j rule: clip_ids.induct)
  case (1 vs)
  have "length [JStr (take 256 x). JStr x \<leftarrow> take 512 vs] \<le> length (take 512 vs)"
    by (rule length_concat_le) (simp split: json.split)
  with 1 show ?case by (auto split: json.splits)
qed simp_all

lemma clip_text_clipped: "clip_text n j = Some v \<Longrightarrow> n \<le> 2048 \<Longrightarrow> clipped v"
  by (cases j) auto

lemma keep_number_clipped: "keep_number j = Some v \<Longrightarrow> clipped v"
  by (cases j) auto

text \<open>
  Nothing unbounded and nothing unexpected of an executor's summary is persisted: whatever
  the summary holds, only the listed keys remain, each list keeps at most 512 strings of at
  most 256 characters, and each text at most 2048 characters.
\<close>

theorem summary_sanitized:
  "{(k, v). (k, v) \<in> set (sanitize_summary d)} \<subseteq> {(k, v). k \<in> set summary_keys \<and> clipped v}"
  by (auto simp: sanitize_summary_def entry_in summary_keys_def
      intro: clip_ids_clipped clip_text_clipped keep_number_clipped)

section \<open>From a trigger to its result\<close>

lemma apply_event_writes:
  assumes "apply_event s n e eid expd p = Inr (res, s')"
    and "find (\<lambda>x. ev_id x = eid) (mod_events s) = None"
  shows "tr_applied res" and "map ev_id (mod_events s') = map ev_id (mod_events s) @ [eid]"
    and "e \<noteq> E_INVALID_TEST \<Longrightarrow> e \<noteq> E_BASELINE_EXPIRED \<Longrightarrow> contracts s' = contracts s"
proof -
  have "apply_modification_transition s n e eid (allowed_from e) (target_of e) expd p = Inr (res, s')"
    using assms(1) by (simp add: apply_event_def workflow_apply_def case_prod_beta)
  then have "tr_applied res \<and> map ev_id (mod_events s') = map ev_id (mod_events s) @ [eid]
      \<and> (e \<noteq> E_INVALID_TEST \<longrightarrow> e \<noteq> E_BASELINE_EXPIRED \<longrightarrow> contracts s' = contracts s)"
  proof (cases rule: apply_transition_cases)
    case (applied cur version sp tcs wfs)
    then show ?thesis
      by (auto simp: applied(7) contract_effect_def split: if_splits option.splits)
  qed (use assms(2) in simp)
  then show "tr_applied res" "map ev_id (mod_events s') = map ev_id (mod_events s) @ [eid]"
    "e \<noteq> E_INVALID_TEST \<Longrightarrow> e \<noteq> E_BASELINE_EXPIRED \<Longrightarrow> contracts s' = contracts s"
    by blast+
qed

lemma find_event_None: "find (\<lambda>x. ev_id x = eid) evs = None \<longleftrightarrow> eid \<notin> set (map ev_id evs)"
  by (auto simp: find_None_iff)

abbreviation queued_run ::
  "string \<Rightarrow> string \<Rightarrow> run_phase \<Rightarrow> int \<Rightarrow> string \<Rightarrow> string option \<Rightarrow> run_row" where
  "queued_run rid n ph r v cand \<equiv> \<lparr>vr_run_id = rid, vr_node = n, vr_phase = ph,
     vr_source_revision = r, vr_contract = v, vr_candidate = cand, vr_state = Queued, vr_attempt = 0,
     vr_next_retry_at = None, vr_max_attempts = 5, vr_terminal_reason = None, vr_lease_token = None,
     vr_lease_expires_at = None, vr_outcome = None, vr_error_code = None\<rparr>"

lemma phase_of_value [simp]: "phase_of (phase_value ph) = Some ph"
  by (cases ph) simp_all

lemma start_verification_ok:
  assumes ok: "plan_ok s" and w: "get_modification_workflow s n = Some w"
    and tr: "trigger (wf_state w) = Some (ph, start)" and v: "wf_contract w = Some v" "v \<noteq> []"
    and rid: "rid = run_id_of sha n ph (wf_revision w) v"
    and run: "get_verification_run s rid = None"
      "\<forall>x \<in> set (runs s). source_key x \<noteq> (n, ph, wf_revision w, v)"
    and ev: "find (\<lambda>x. ev_id x = started_id rid) (mod_events s) = None"
  obtains w2 s2 where "start_verification sha s w ph start = (Inr w2, s2)"
    "runs s2 = runs s @ [queued_run rid n ph (wf_revision w) v (candidate_id_from_events s n)]"
    "get_modification_workflow s2 n = Some w2" "wf_state w2 = verifying_state ph"
    "trail s2 n = trail s n @ [start]"
    "map ev_id (mod_events s2) = map ev_id (mod_events s) @ [started_id rid]"
    "contracts s2 = contracts s"
proof -
  let ?r = "queued_run rid n ph (wf_revision w) v (candidate_id_from_events s n)"
  let ?s1 = "s\<lparr>runs := runs s @ [?r]\<rparr>"
  have node: "wf_node w = n" using w by (auto simp: get_modification_workflow_def dest: find_SomeD)
  have "find (\<lambda>r. source_key r = (n, ph, wf_revision w, v)) (runs s) = None"
    using run(2) by (auto simp: find_None_iff)
  then have enq: "enqueue_from_trigger sha s w ph = Inr (?r, ?s1)"
    using v run(1) by (simp add: enqueue_from_trigger_def node enqueue_verification_run_def rid [symmetric]
        Let_def del: phase_of.simps)
  have ok1: "store_ok ?s1" using plan_okD(1) [OF ok] by simp
  have start: "start = (if ph = Red then E_RED_VERIFICATION_STARTED else E_FINAL_VERIFICATION_STARTED)"
    "Some (wf_state w) \<in> set (allowed_from start)" "target_of start = verifying_state ph"
    using tr by (cases "wf_state w"; auto)+
  have cond: "contract_condition ?s1 n start" by (simp add: contract_condition_def start(1))
  have "is_ok (apply_event ?s1 n start (started_id rid) (Some (wf_revision w)) p)" for p
    using w start(2) cond ev by (subst apply_event_ok_iff [OF ok1]) (simp_all add: current_revision_def)
  then obtain res s2 where ap: "apply_event ?s1 n start (started_id rid) (Some (wf_revision w))
      [(''verification_run_id'', JStr rid), (''phase'', JStr (phase_value ph))] = Inr (res, s2)"
    by (fastforce simp: is_ok_iff)
  have "find (\<lambda>x. ev_id x = started_id rid) (mod_events ?s1) = None" using ev by simp
  note wr = apply_event_writes [OF ap this]
  note applied = apply_event_applied [OF ok1 ap wr(1)]
  obtain w2 where w2: "get_modification_workflow s2 n = Some w2" "wf_state w2 = verifying_state ph"
    using applied(2) start(3) by auto
  have "start_verification sha s w ph start = (Inr w2, s2)"
    using enq ap w2(1) by (simp add: start_verification_def node workflow_get_def)
  moreover have "runs s2 = runs s @ [?r]" using runs_apply_event [OF ap] by simp
  moreover have "trail s2 n = trail s n @ [start]"
    using applied(4) by (simp add: trail_def list_modification_events_def)
  moreover have "map ev_id (mod_events s2) = map ev_id (mod_events s) @ [started_id rid]"
    using wr(2) by simp
  moreover have "contracts s2 = contracts s" using wr(3) start(1) by (simp split: if_splits)
  ultimately show ?thesis using w2 that by blast
qed

lemma verifying_running [simp]: "running_phase (verifying_state ph) = Some ph"
  by (cases ph) simp_all

lemma result_events_allowed:
  "e \<in> set (allowed_result_events ph) \<Longrightarrow> Some (verifying_state ph) \<in> set (allowed_from e)
     \<and> e \<noteq> E_TEST_CONTRACT_APPROVED \<and> e \<noteq> E_RED_ALLOWED"
  by (cases ph) auto

lemma outcome_of_result_reads [simp]:
  "outcome_event (outcome_of_result res d) = Inr (ve_event res)"
  "outcome_summary (outcome_of_result res d) = Inr (sanitize_summary (ve_summary res))"
  "get_str (outcome_of_result res d) ''status'' = ve_status res"
  by (simp_all add: outcome_event_def outcome_summary_def outcome_of_result_def get_str_def
      dict_get_def Let_def)

text \<open>An owned run with a valid answer completes and moves the gate.\<close>

lemma reconcile_finish_ok:
  assumes ok: "plan_ok s" and get: "get_verification_run s (vr_run_id c) = Some c"
    and mine: "vr_state c = Running" "vr_lease_token c = Some t" and node: "vr_node c = n"
    and w: "get_modification_workflow s n = Some w" "wf_state w = verifying_state (vr_phase c)"
    and valid: "validate_result (vr_phase c) (ve_event res) (ve_status res) = Inr ()"
    and persist: "\<And>r oc. persist r oc = Inr ()"
    and ev: "find (\<lambda>x. ev_id x = result_id (vr_run_id c)) (mod_events s) = None"
    and last: "latest_verification_run s n = Some c"
  shows "\<exists>r s'. reconcile_finish persist s n c True later d (Executed res) = (Inr (Some r), s')
     \<and> vr_run_id r = vr_run_id c \<and> vr_state r = Completed \<and> vr_outcome r = Some (outcome_of_result res d)
     \<and> trail s' n = trail s n @ [ve_event res]
     \<and> map_option wf_state (get_modification_workflow s' n) = Some (target_of (ve_event res))"
proof -
  let ?f = "\<lambda>x. x\<lparr>vr_state := Completed, vr_outcome := Some (outcome_of_result res d),
      vr_error_code := ve_error_code res, vr_lease_token := None, vr_lease_expires_at := None\<rparr>"
  let ?s1 = "s\<lparr>runs := update_rows (owns_lease (vr_run_id c) t) ?f (runs s)\<rparr>"
  have own: "owns_lease (vr_run_id c) t c" using mine by (simp add: owns_lease_def)
  have cnt: "rowcount (owns_lease (vr_run_id c) t) (runs s) = 1"
    using get mine owns_lease_rowcount1 [OF plan_okD(2) [OF ok]] by simp
  have get1: "get_verification_run ?s1 (vr_run_id c) = Some (?f c)"
    by (subst get_run_update) (simp_all add: get own)
  then have comp: "complete_verification_run s (vr_run_id c) t (outcome_of_result res d) (ve_error_code res)
      = Inr (Some (?f c), ?s1)"
    using cnt by (simp add: complete_verification_run_def Let_def)
  have ok1: "plan_ok ?s1" using plan_ok_complete [OF ok comp] .
  have allowed: "ve_event res \<in> set (allowed_result_events (vr_phase c))"
    using valid by (auto simp: validate_result_def split: if_splits)
  have cond: "contract_condition ?s1 n (ve_event res)"
    using result_events_allowed [OF allowed] by (simp add: contract_condition_def)
  have fresh: "find (\<lambda>x. ev_id x = result_id (vr_run_id c)) (mod_events ?s1) = None" using ev by simp
  have "is_ok (apply_event ?s1 n (ve_event res) (result_id (vr_run_id c)) None p)" for p
    using w result_events_allowed [OF allowed] cond
    by (subst apply_event_ok_iff [OF plan_okD(1) [OF ok1] fresh]) simp
  then obtain tr s' where ap: "apply_event ?s1 n (ve_event res) (result_id (vr_run_id c)) None
      (result_payload (?f c) (outcome_of_result res d) (sanitize_summary (ve_summary res))) = Inr (tr, s')"
    by (fastforce simp: is_ok_iff)
  note applied = apply_event_applied [OF plan_okD(1) [OF ok1] ap apply_event_writes(1) [OF ap fresh]]
  have "apply_authoritative_result persist ?s1 (?f c) = Inr (tr, s')"
    using ap valid persist node by (simp add: apply_authoritative_result_def)
  moreover have "latest_verification_run s' n = Some (?f c)"
  proof -
    have "latest_verification_run s' n = last_row (\<lambda>r. vr_node r = n) (update_rows (owns_lease (vr_run_id c) t) ?f (runs s))"
      using runs_apply_event [OF ap] by (simp add: latest_verification_run_def)
    also have "\<dots> = map_option (\<lambda>r. if owns_lease (vr_run_id c) t r then ?f r else r) (latest_verification_run s n)"
      by (simp add: last_row_update latest_verification_run_def)
    finally show ?thesis using last own by simp
  qed
  ultimately have "reconcile_finish persist s n c True later d (Executed res) = (Inr (Some (?f c)), s')"
    using comp valid mine(2) by (simp add: reconcile_finish_def)
  then show ?thesis
    using applied(2,4) by (intro exI [of _ "?f c"] exI [of _ s']) (simp add: trail_def)
qed

lemma latest_append [simp]:
  "runs s = rs @ [r] \<Longrightarrow> vr_node r = n \<Longrightarrow> latest_verification_run s n = Some r"
  by (simp add: latest_verification_run_def last_row_append1)

lemma started_result_distinct: "started_id rid \<noteq> result_id rid"
  by (simp add: started_id_def result_id_def)

text \<open>
  C1. One reconciliation takes a triggered node all the way. If the workflow is waiting for its
  red or final run with a bound, decodable contract, the run of this revision is new, the
  executor answers with a result that the phase accepts and nobody interferes, then the call
  returns the completed run with that result as its outcome, and the gate has made exactly two
  steps, the start of the verification and the result.
\<close>

theorem reconcile_delivers:
  assumes ok: "plan_ok s" and w: "get_modification_workflow s n = Some w"
    and tr: "trigger (wf_state w) = Some (ph, start)" and v: "wf_contract w = Some v" "v \<noteq> []"
    and row: "get_test_contract s n v = Some row" "contract_from_dict sha (tc_snapshot row) = Inr fc"
    and rid: "rid = run_id_of sha n ph (wf_revision w) v"
    and run: "get_verification_run s rid = None"
      "\<forall>x \<in> set (runs s). source_key x \<noteq> (n, ph, wf_revision w, v)"
    and ev: "started_id rid \<notin> set (map ev_id (mod_events s))"
      "result_id rid \<notin> set (map ev_id (mod_events s))"
    and exec: "\<And>c. exec c fc = Executed res"
    and valid: "validate_result ph (ve_event res) (ve_status res) = Inr ()"
    and persist: "\<And>r oc. persist r oc = Inr ()"
  shows "\<exists>r s'. reconcile_node sha persist exec s n now lease tok [] True later d = (Inr (Some r), s')
     \<and> vr_run_id r = rid \<and> vr_state r = Completed \<and> vr_outcome r = Some (outcome_of_result res d)
     \<and> trail s' n = trail s n @ [start, ve_event res]
     \<and> map_option wf_state (get_modification_workflow s' n) = Some (target_of (ve_event res))"
proof -
  have "find (\<lambda>x. ev_id x = started_id rid) (mod_events s) = None"
    by (rule find_event_None [THEN iffD2, OF ev(1)])
  then obtain w2 s2 where sv: "start_verification sha s w ph start = (Inr w2, s2)"
    and rs: "runs s2 = runs s @ [queued_run rid n ph (wf_revision w) v (candidate_id_from_events s n)]"
    and w2: "get_modification_workflow s2 n = Some w2" "wf_state w2 = verifying_state ph"
    and trail: "trail s2 n = trail s n @ [start]"
    and ids: "map ev_id (mod_events s2) = map ev_id (mod_events s) @ [started_id rid]"
    and cs: "contracts s2 = contracts s"
    using start_verification_ok [OF ok w tr v rid run] by metis
  have ok2: "plan_ok s2" using ok sv by (rule plan_ok_start_verification)
  let ?q = "queued_run rid n ph (wf_revision w) v (candidate_id_from_events s n)"
  have getq: "get_verification_run s2 rid = Some ?q"
    using run(1) by (simp add: get_verification_run_def rs find_append)
  let ?c = "?q\<lparr>vr_state := Running, vr_attempt := 1, vr_lease_token := Some tok,
      vr_lease_expires_at := Some (now + of_int lease)\<rparr>"
  obtain s3 where cl: "claim_verification_run s2 rid now lease tok = Inr (Some ?c, s3)"
    and rs3: "runs s3 = update_rows (\<lambda>x. vr_run_id x = rid) (\<lambda>x. x\<lparr>vr_state := Running,
        vr_attempt := vr_attempt x + 1, vr_lease_token := Some tok,
        vr_lease_expires_at := Some (now + of_int lease), vr_error_code := None,
        vr_next_retry_at := None, vr_terminal_reason := None\<rparr>) (runs s2)"
    and s3: "s3 = s2\<lparr>runs := runs s3\<rparr>"
    using getq by (simp add: claim_verification_run_def claimable_def after_def Let_def get_run_update)
  have ok3: "plan_ok s3" using ok2 cl by (rule plan_ok_claim)
  have keep: "mod_events s3 = mod_events s2" "contracts s3 = contracts s2"
    "get_modification_workflow s3 n = get_modification_workflow s2 n" "trail s3 n = trail s2 n"
    by (subst s3, simp add: trail_def)+
  have get3: "get_verification_run s3 rid = Some ?c"
    using getq by (simp add: get_verification_run_def rs3 find_update_rows)
  have last3: "latest_verification_run s3 n = Some ?c"
    by (simp add: latest_verification_run_def rs3 rs last_row_append1)
  have row3: "get_test_contract s3 n v = Some row"
    using row(1) by (simp add: get_test_contract_def keep cs)
  have "claim_active_run sha persist s2 n ph now lease tok = (Inr (Claimed ?c fc), s3)"
    using cl row3 row(2) by (simp add: claim_active_run_def rs)
  then have start': "reconcile_start sha persist s n now lease tok = (Inr (Claimed ?c fc), s3)"
    using w tr sv w2(2) by (simp add: reconcile_start_def)
  have fresh3: "find (\<lambda>x. ev_id x = result_id (vr_run_id ?c)) (mod_events s3) = None"
    using ev(2) started_result_distinct [of rid] by (simp add: find_event_None keep ids)
  have "\<exists>r s'. reconcile_finish persist s3 n ?c True later d (Executed res) = (Inr (Some r), s')
     \<and> vr_run_id r = vr_run_id ?c \<and> vr_state r = Completed \<and> vr_outcome r = Some (outcome_of_result res d)
     \<and> trail s' n = trail s3 n @ [ve_event res]
     \<and> map_option wf_state (get_modification_workflow s' n) = Some (target_of (ve_event res))"
    using w2 valid persist by (intro reconcile_finish_ok [OF ok3 _ _ _ _ _ _ _ _ fresh3 last3])
      (simp_all add: get3 keep)
  then show ?thesis
    using trail by (auto simp: reconcile_node_def start' exec keep)
qed

definition demo_result :: verification_result where
  "demo_result = \<lparr>ve_event = E_RED_CONFIRMED, ve_status = ''expected_red'', ve_error_code = None,
     ve_summary = []\<rparr>"

lemma demo_result_valid: "validate_result Red (ve_event demo_result) (ve_status demo_result) = Inr ()"
  by (simp add: validate_result_def demo_result_def strip_def is_space_def Let_def)

definition demo_finished :: run_row where
  "demo_finished = demo_run\<lparr>vr_state := Completed, vr_outcome := Some (outcome_of_result demo_result 5)\<rparr>"

theorem result_applied_once_witness:
  "\<exists>tr s1. apply_authoritative_result (\<lambda>_ _. Inr ()) demo_verifying demo_finished = Inr (tr, s1)
     \<and> apply_authoritative_result (\<lambda>_ _. Inr ()) s1 demo_finished = Inr (tr\<lparr>tr_applied := False\<rparr>, s1)"
proof -
  have "find (\<lambda>x. ev_id x = result_id ''r'') (mod_events demo_verifying) = None"
    by (rule find_event_None [THEN iffD2]) (simp add: demo_verifying_eval(3) result_id_def)
  then have "is_ok (apply_event demo_verifying ''n'' E_RED_CONFIRMED (result_id ''r'') None p)" for p
    using demo_verifying_eval(2)
    by (subst apply_event_ok_iff [OF plan_okD(1) [OF plan_ok_verifying]])
      (simp_all add: contract_condition_def)
  then obtain tr s1 where "apply_event demo_verifying ''n'' E_RED_CONFIRMED (result_id ''r'') None
      (result_payload demo_finished (outcome_of_result demo_result 5) (sanitize_summary [])) = Inr (tr, s1)"
    by (fastforce simp: is_ok_iff)
  then have "apply_authoritative_result (\<lambda>_ _. Inr ()) demo_verifying demo_finished = Inr (tr, s1)"
    using demo_result_valid
    by (simp add: apply_authoritative_result_def demo_finished_def demo_run_def)
      (simp add: demo_result_def)
  then show ?thesis using result_applied_once [of _ demo_verifying demo_finished tr s1 s1 "[]"] by auto
qed

definition demo_triggered :: "frozen_contract \<Rightarrow> plan_store" where
  "demo_triggered c = run_commands apply_modification_transition
     ((empty_store 0)\<lparr>contracts := [\<lparr>tc_node = ''n'', tc_version = fc_contract_version c,
        tc_snapshot = contract_dict c, tc_state = Frozen, tc_reason = None, tc_frozen_at = 0,
        tc_invalidated_at = None\<rparr>]\<rparr>)
     [(''n'', E_START, ''e1'', None, []), (''n'', E_TEST_CONTRACT_APPROVED, ''e2'', None, []),
      (''n'', E_RED_ALLOWED, ''e3'', None, [])]"

lemma demo_triggered_eval:
  "get_modification_workflow (demo_triggered c) ''n'' = Some \<lparr>wf_node = ''n'', wf_state = RED_ALLOWED,
     wf_revision = 3, wf_contract = Some (fc_contract_version c), wf_updated_at = 0\<rparr>"
  "runs (demo_triggered c) = []" "map ev_id (mod_events (demo_triggered c)) = [''e1'', ''e2'', ''e3'']"
  "map_option tc_snapshot (get_test_contract (demo_triggered c) ''n'' (fc_contract_version c))
     = Some (contract_dict c)"
  by (simp_all add: demo_triggered_def gate_eval get_test_contract_def)

lemma plan_ok_demo_triggered: "plan_ok (demo_triggered c)"
proof -
  have "store_ok (demo_triggered c)"
    unfolding demo_triggered_def
    by (rule plan_gate.ok_run) (simp add: empty_store_def store_ok_def unique_key_def contracts_ok_def
        trail_ok_def get_modification_workflow_def list_modification_events_def)
  then show ?thesis
    by (simp add: plan_ok_def runs_ok_def failed_blocked_def unique_key_def demo_triggered_eval)
qed

lemma nat_str_ne [simp]: "nat_str n \<noteq> []"
  by (subst nat_str.simps) simp

theorem reconcile_delivers_witness:
  "\<exists>c r s'. demo_frozen_contract = Inr c
     \<and> reconcile_node length_sha (\<lambda>_ _. Inr ()) (\<lambda>_ _. Executed demo_result) (demo_triggered c) ''n''
         0 60 ''t'' [] True 1 5 = (Inr (Some r), s')
     \<and> vr_state r = Completed
     \<and> map_option wf_state (get_modification_workflow s' ''n'') = Some RED_CONFIRMED"
proof -
  obtain c where c: "demo_frozen_contract = Inr c" using demo_contract_eval by blast
  note fixed = freeze_contract_fixed [OF c [unfolded demo_frozen_contract_def]]
  have ne: "fc_contract_version c \<noteq> []" using refreeze_fields(1) [OF fixed(2)] by (simp add: length_sha_def)
  obtain row where row: "get_test_contract (demo_triggered c) ''n'' (fc_contract_version c) = Some row"
    "tc_snapshot row = contract_dict c" using demo_triggered_eval(4) by blast
  have dec: "contract_from_dict length_sha (tc_snapshot row) = Inr c"
    using decode_contract_dict [OF fixed refl] row(2) by simp
  let ?rid = "run_id_of length_sha ''n'' Red 3 (fc_contract_version c)"
  have "\<exists>r s'. reconcile_node length_sha (\<lambda>_ _. Inr ()) (\<lambda>_ _. Executed demo_result) (demo_triggered c) ''n''
         0 60 ''t'' [] True 1 5 = (Inr (Some r), s')
     \<and> vr_run_id r = ?rid \<and> vr_state r = Completed \<and> vr_outcome r = Some (outcome_of_result demo_result 5)
     \<and> trail s' ''n'' = trail (demo_triggered c) ''n'' @ [E_RED_VERIFICATION_STARTED, ve_event demo_result]
     \<and> map_option wf_state (get_modification_workflow s' ''n'') = Some (target_of (ve_event demo_result))"
    by (rule reconcile_delivers [OF plan_ok_demo_triggered demo_triggered_eval(1) _ _ ne row(1) dec])
      (simp_all add: demo_triggered_eval get_verification_run_def started_id_def result_id_def,
        rule demo_result_valid)
  then show ?thesis using c by (auto simp: demo_result_def)
qed

end
