(* ===== verification/Red_Properties.thy ===== *)
theory Red_Properties
  imports Red_Classification
begin

text \<open>
  When the classifier lets a modification pass the red gate: exactly on evidence that the
  contracted tests fail for the right reason and nothing else fails.
\<close>

section \<open>The verdict over the evidence\<close>

text \<open>
  The evidence a red run must show, stated over the case results themselves: what was last
  reported for each contracted case.
\<close>

definition outcome_of :: "dict list \<Rightarrow> case_snapshot \<Rightarrow> string" where
  "outcome_of xs c = (case reported xs (cs_node_id c) of None \<Rightarrow> [] | Some x \<Rightarrow> get_str x ''outcome'')"

definition fails_assertion :: "dict list \<Rightarrow> case_snapshot \<Rightarrow> bool" where
  "fails_assertion xs c \<longleftrightarrow> (case reported xs (cs_node_id c) of None \<Rightarrow> False
     | Some x \<Rightarrow> get_str x ''outcome'' = ''failed'' \<and> get_str x ''failure_type'' = ''AssertionError'')"

definition right_reason :: "frozen_contract \<Rightarrow> dict list \<Rightarrow> bool" where
  "right_reason c xs \<longleftrightarrow>
     (\<forall>x \<in> set (fc_cases c). reported xs (cs_node_id x) \<noteq> None)
     \<and> (\<forall>x \<in> set (fc_cases c). cs_case_id x \<notin> set (fc_expected c) \<longrightarrow> outcome_of xs x = ''passed'')
     \<and> (\<forall>x \<in> set (fc_cases c). cs_case_id x \<in> set (fc_expected c) \<longrightarrow>
          fails_assertion xs x \<or> outcome_of xs x = ''passed'')
     \<and> (\<exists>x \<in> set (fc_cases c). cs_case_id x \<in> set (fc_expected c) \<and> fails_assertion xs x)
     \<and> (\<forall>x \<in> set xs. get_str x ''node_id'' \<notin> cs_node_id ` set (fc_cases c) \<longrightarrow>
          get_str x ''outcome'' = ''passed'' \<or> get_str x ''outcome'' = ''skipped'')"

lemma evidence_reads:
  assumes "contract_wf c" and "x \<in> set (fc_cases c)"
  shows "outcome_in (fst (gather_evidence c xs [] [])) (cs_case_id x) = outcome_of xs x"
    and "asserted_in (fst (gather_evidence c xs [] [])) (cs_case_id x) = fails_assertion xs x"
    and "cs_case_id x \<in> fst ` set (fst (gather_evidence c xs [] [])) \<longleftrightarrow> reported xs (cs_node_id x) \<noteq> None"
proof -
  note ev = gather_evidence_ev [OF assms, of xs "[]" "[]"]
  then show "outcome_in (fst (gather_evidence c xs [] [])) (cs_case_id x) = outcome_of xs x"
    "asserted_in (fst (gather_evidence c xs [] [])) (cs_case_id x) = fails_assertion xs x"
    by (simp_all add: outcome_in_def outcome_of_def asserted_in_def fails_assertion_def split: option.split)
  show "cs_case_id x \<in> fst ` set (fst (gather_evidence c xs [] [])) \<longleftrightarrow> reported xs (cs_node_id x) \<noteq> None"
    using ev map_of_eq_None_iff [of "fst (gather_evidence c xs [] [])" "cs_case_id x"]
    by (auto split: option.splits)
qed

lemma case_id_None_iff:
  assumes "contract_wf c"
  shows "case_id_by_node c n = None \<longleftrightarrow> n \<notin> cs_node_id ` set (fc_cases c)"
  by (auto simp: case_id_by_node_def find_None_iff)

lemma filter_Nil_ball: "filter P xs = [] \<longleftrightarrow> (\<forall>x \<in> set xs. \<not> P x)"
  by (simp add: filter_empty_conv)

lemma judge_cases_expected_red:
  assumes wf: "contract_wf c"
  shows "(\<exists>r. judge_cases c xs = Inr r \<and> rr_class r = EXPECTED_RED) \<longleftrightarrow> right_reason c xs"
proof -
  obtain ev u where g: "gather_evidence c xs [] [] = (ev, u)" by (cases "gather_evidence c xs [] []")
  note reads = evidence_reads [OF wf, of _ xs, unfolded g fst_conv]
  note ids = contracted_ids_wf [OF wf]
  have u: "u = [] \<longleftrightarrow> (\<forall>x \<in> set xs. get_str x ''node_id'' \<notin> cs_node_id ` set (fc_cases c) \<longrightarrow>
      get_str x ''outcome'' = ''passed'' \<or> get_str x ''outcome'' = ''skipped'')"
    using gather_evidence_unexpected [of c xs "[]" "[]"] by (auto simp: g case_id_None_iff [OF wf])
  have sub: "set (fc_expected c) \<subseteq> cs_case_id ` set (fc_cases c)" using wf by (simp add: contract_wf_def)
  have missing: "filter (\<lambda>i. i \<notin> fst ` set ev) (contracted_ids c) = [] \<longleftrightarrow>
      (\<forall>x \<in> set (fc_cases c). reported xs (cs_node_id x) \<noteq> None)"
    using reads(3) by (simp add: filter_Nil_ball ids)
  have baseline: "filter (\<lambda>i. i \<notin> set (fc_expected c) \<and> outcome_in ev i \<noteq> ''passed'') (contracted_ids c) = []
      \<longleftrightarrow> (\<forall>x \<in> set (fc_cases c). cs_case_id x \<notin> set (fc_expected c) \<longrightarrow> outcome_of xs x = ''passed'')"
    using reads(1) by (auto simp: filter_Nil_ball ids)
  have odd: "filter (\<lambda>i. \<not> asserted_in ev i \<and> outcome_in ev i \<noteq> ''passed'') (remdups (fc_expected c)) = []
      \<longleftrightarrow> (\<forall>x \<in> set (fc_cases c). cs_case_id x \<in> set (fc_expected c) \<longrightarrow>
            fails_assertion xs x \<or> outcome_of xs x = ''passed'')"
    using reads(1,2) sub by (fastforce simp: filter_Nil_ball)
  have failed: "filter (asserted_in ev) (remdups (fc_expected c)) = [] \<longleftrightarrow>
      \<not> (\<exists>x \<in> set (fc_cases c). cs_case_id x \<in> set (fc_expected c) \<and> fails_assertion xs x)"
    using reads(2) sub by (fastforce simp: filter_Nil_ball)
  have keys: "set (fc_expected c) \<subseteq> fst ` set ev" if "\<forall>x \<in> set (fc_cases c). reported xs (cs_node_id x) \<noteq> None"
    using that reads(3) sub by fastforce
  show ?thesis
    using keys
    by (auto simp: judge_cases_def g judge_expected_def Let_def missing baseline odd failed u
        right_reason_def red_result_of_def)
qed

section \<open>The red gate\<close>

text \<open>
  C34. A red run is confirmed exactly when the evidence is complete and fails for the right
  reason. For a contract whose cases have distinct nodes and identifiers, and a manifest that
  decodes, the verdict is \<open>EXPECTED_RED\<close> if and only if nothing timed out, no
  infrastructure error is reported, every contracted command ran, collection succeeded, and
  by the last result of each case: every contracted case reported, each case outside the
  expected failures passed, each expected failure failed by an assertion or passed with at
  least one failing, and nothing outside the contract failed.
\<close>

theorem expected_red_iff:
  assumes "contract_wf c" and "dicts_in ''results'' m = Inr results"
    and "dicts_in_all ''collection_errors'' results = Inr errors"
    and "dicts_in_all ''case_results'' results = Inr cases"
  shows "(\<exists>r. classify_red_verification c m = Inr r \<and> event_for_red_classification r = E_RED_CONFIRMED)
    \<longleftrightarrow> (\<forall>x \<in> set results. \<not> truthy (dict_get x ''timed_out''))
      \<and> \<not> is_infrastructure_error (get_str m ''error_code'')
      \<and> cmd_command_id ` set (fc_commands c) \<subseteq> set (observed_command_ids results)
      \<and> errors = [] \<and> cases \<noteq> [] \<and> right_reason c cases"
proof -
  have confirmed: "event_for_red_classification r = E_RED_CONFIRMED \<longleftrightarrow> rr_class r = EXPECTED_RED" for r
    by (cases "rr_class r") (simp_all add: event_for_red_classification_def)
  have missing: "missing_commands c results = [] \<longleftrightarrow>
      cmd_command_id ` set (fc_commands c) \<subseteq> set (observed_command_ids results)"
  proof -
    have "missing_commands c results = [] \<longleftrightarrow> set (missing_commands c results) = {}" by simp
    also have "\<dots> \<longleftrightarrow> cmd_command_id ` set (fc_commands c) \<subseteq> set (observed_command_ids results)"
      unfolding missing_commands_def by auto
    finally show ?thesis .
  qed
  show ?thesis
    unfolding confirmed missing [symmetric] judge_cases_expected_red [OF assms(1), symmetric]
    using assms(2-4) by (auto simp: classify_red_verification_def Let_def red_result_of_def)
qed

definition demo_red_contract :: frozen_contract where
  "demo_red_contract = \<lparr>fc_contract_version = ''v'', fc_test_files = [],
     fc_cases = [\<lparr>cs_case_id = ''i1'', cs_node_id = ''a''\<rparr>, \<lparr>cs_case_id = ''i2'', cs_node_id = ''b''\<rparr>],
     fc_commands = [\<lparr>cmd_command_id = ''k'', cmd_argv = [], cmd_raw_command = [],
       cmd_test_entity_id = [], cmd_map_seq = 1\<rparr>],
     fc_expected = [''i1''], fc_baseline_hash = ''x'', fc_map_seq = 1,
     fc_boundary_fingerprint = ''x'', fc_image_version = ''x''\<rparr>"

definition demo_case :: "string \<Rightarrow> string \<Rightarrow> string \<Rightarrow> dict" where
  "demo_case node outcome failure = [(''node_id'', JStr node), (''outcome'', JStr outcome),
     (''failure_type'', JStr failure)]"

lemma demo_case_reads [simp]:
  "get_str (demo_case n oc f) ''node_id'' = n" "get_str (demo_case n oc f) ''outcome'' = oc"
  "get_str (demo_case n oc f) ''failure_type'' = f"
  by (simp_all add: demo_case_def get_str_def Let_def dict_get_def)

definition demo_results :: dict where
  "demo_results = [(''command_id'', JStr ''k''),
     (''case_results'', JList [JObj (demo_case ''a'' ''failed'' ''AssertionError''),
                               JObj (demo_case ''b'' ''passed'' [])])]"

definition demo_manifest :: dict where
  "demo_manifest = [(''results'', JList [JObj demo_results])]"

theorem expected_red_iff_witness:
  "\<exists>r. classify_red_verification demo_red_contract demo_manifest = Inr r
     \<and> event_for_red_classification r = E_RED_CONFIRMED"
proof -
  have "contract_wf demo_red_contract" by (simp add: contract_wf_def demo_red_contract_def)
  moreover have "dicts_in ''results'' demo_manifest = Inr [demo_results]"
    by (simp add: dicts_in_def demo_manifest_def dict_get_def)
  moreover have "dicts_in_all ''collection_errors'' [demo_results] = Inr []"
    by (simp add: dicts_in_all_def dicts_in_def dict_get_def demo_results_def)
  moreover have "dicts_in_all ''case_results'' [demo_results]
      = Inr [demo_case ''a'' ''failed'' ''AssertionError'', demo_case ''b'' ''passed'' []]"
    by (simp add: dicts_in_all_def dicts_in_def dict_get_def demo_results_def)
  moreover have "right_reason demo_red_contract
      [demo_case ''a'' ''failed'' ''AssertionError'', demo_case ''b'' ''passed'' []]"
    by (simp add: right_reason_def demo_red_contract_def reported_def last_row_def outcome_of_def
        fails_assertion_def)
  moreover have "get_str demo_manifest ''error_code'' = []" "\<not> is_infrastructure_error []"
    by (simp_all add: demo_manifest_def get_str_def dict_get_def is_infrastructure_error_def
        infra_error_codes_def startswith_def)
  moreover have "\<not> truthy (dict_get demo_results ''timed_out'')"
    "observed_command_ids [demo_results] = [''k'']"
    by (simp_all add: demo_results_def dict_get_def observed_command_ids_def)
  ultimately show ?thesis
    by (subst expected_red_iff) (simp_all, simp add: demo_red_contract_def)
qed

end
