(* ===== verification/Agent_Address.thy ===== *)
theory Agent_Address
  imports Bridle_Prelude
begin

text \<open>
  The canonical mail addresses of \<^verbatim>\<open>agent/runtime/mailbox.py\<close>: percent encoding of the
  UTF-8 form of a component, strict decoding, and the URI of an address. The components of an
  address may hold any character and are lists of code points; the URI is ASCII text, a
  \<^typ>\<open>string\<close>.
\<close>

section \<open>UTF-8\<close>

type_synonym code_points = "nat list"

definition surrogate :: "nat \<Rightarrow> bool" where
  "surrogate n \<longleftrightarrow> 0xD800 \<le> n \<and> n \<le> 0xDFFF"

definition code_point :: "nat \<Rightarrow> bool" where
  "code_point n \<longleftrightarrow> n < 0x110000 \<and> \<not> surrogate n"

definition utf8_char :: "nat \<Rightarrow> nat list" where
  "utf8_char n =
     (if n < 0x80 then [n]
      else if n < 0x800 then [0xC0 + n div 64, 0x80 + n mod 64]
      else if n < 0x10000 then [0xE0 + n div 4096, 0x80 + n div 64 mod 64, 0x80 + n mod 64]
      else [0xF0 + n div 262144, 0x80 + n div 4096 mod 64, 0x80 + n div 64 mod 64, 0x80 + n mod 64])"

definition continuation :: "nat \<Rightarrow> bool" where
  "continuation b \<longleftrightarrow> 0x80 \<le> b \<and> b < 0xC0"

text \<open>Strict decoding: no overlong forms, no surrogates, nothing above the last plane.\<close>

fun utf8_decode :: "nat list \<Rightarrow> code_points option" where
  "utf8_decode [] = Some []"
| "utf8_decode (b # bs) =
     (if b < 0x80 then map_option ((#) b) (utf8_decode bs)
      else if 0xC2 \<le> b \<and> b < 0xE0 then
        (case bs of
           c1 # bs' \<Rightarrow>
             (if continuation c1
              then map_option ((#) ((b - 0xC0) * 64 + (c1 - 0x80))) (utf8_decode bs') else None)
         | _ \<Rightarrow> None)
      else if 0xE0 \<le> b \<and> b < 0xF0 then
        (case bs of
           c1 # c2 # bs' \<Rightarrow>
             (let n = (b - 0xE0) * 4096 + (c1 - 0x80) * 64 + (c2 - 0x80) in
              if continuation c1 \<and> continuation c2 \<and> 0x800 \<le> n \<and> \<not> surrogate n
              then map_option ((#) n) (utf8_decode bs') else None)
         | _ \<Rightarrow> None)
      else if 0xF0 \<le> b \<and> b < 0xF5 then
        (case bs of
           c1 # c2 # c3 # bs' \<Rightarrow>
             (let n = (b - 0xF0) * 262144 + (c1 - 0x80) * 4096 + (c2 - 0x80) * 64 + (c3 - 0x80) in
              if continuation c1 \<and> continuation c2 \<and> continuation c3 \<and> 0x10000 \<le> n
                 \<and> n < 0x110000
              then map_option ((#) n) (utf8_decode bs') else None)
         | _ \<Rightarrow> None)
      else None)"

section \<open>Percent encoding\<close>

text \<open>\<^verbatim>\<open>quote(value, safe="")\<close> keeps letters, digits and the four marks.\<close>

definition unreserved :: "nat \<Rightarrow> bool" where
  "unreserved b \<longleftrightarrow> (48 \<le> b \<and> b \<le> 57) \<or> (65 \<le> b \<and> b \<le> 90) \<or> (97 \<le> b \<and> b \<le> 122)
     \<or> b = 95 \<or> b = 46 \<or> b = 45 \<or> b = 126"

definition upper_hex :: "nat \<Rightarrow> char" where
  "upper_hex n = char_of (if n < 10 then 48 + n else 55 + n)"

definition quote_byte :: "nat \<Rightarrow> string" where
  "quote_byte b = (if unreserved b then [char_of b]
     else [CHR ''%'', upper_hex (b div 16), upper_hex (b mod 16)])"

definition encode_component :: "code_points \<Rightarrow> string result" where
  "encode_component v =
     (if v = [] then Inl (MailboxError ''invalid_address'')
      else if \<exists>n \<in> set v. surrogate n then Inl (BuiltinError ''UnicodeEncodeError'')
      else Inr (concat (map quote_byte (concat (map utf8_char v)))))"

definition hex_value :: "char \<Rightarrow> nat option" where
  "hex_value c = (let n = (of_char c :: nat) in
     if 48 \<le> n \<and> n \<le> 57 then Some (n - 48)
     else if 65 \<le> n \<and> n \<le> 70 then Some (n - 55)
     else if 97 \<le> n \<and> n \<le> 102 then Some (n - 87) else None)"

text \<open>
  \<^verbatim>\<open>unquote_to_bytes\<close>, with \<open>None\<close> where \<^verbatim>\<open>_PERCENT_ESCAPE\<close> finds a percent sign that
  two hexadecimal digits do not follow.
\<close>

fun unquote_bytes :: "string \<Rightarrow> nat list option" where
  "unquote_bytes [] = Some []"
| "unquote_bytes (c # s) =
     (if c = CHR ''%'' then
        (case s of
           h # l # s' \<Rightarrow>
             (case (hex_value h, hex_value l) of
                (Some a, Some b) \<Rightarrow> map_option ((#) (16 * a + b)) (unquote_bytes s')
              | _ \<Rightarrow> None)
         | _ \<Rightarrow> None)
      else map_option ((@) (utf8_char (of_char c))) (unquote_bytes s))"

definition decode_component :: "string \<Rightarrow> code_points result" where
  "decode_component s =
     (if s = [] then Inl (MailboxError ''invalid_address'')
      else (case Option.bind (unquote_bytes s) utf8_decode of
          None \<Rightarrow> Inl (MailboxError ''invalid_address'')
        | Some v \<Rightarrow>
            (if v = [] then Inl (MailboxError ''invalid_address'')
             else bind_result (encode_component v) (\<lambda>t.
               if t \<noteq> s then Inl (MailboxError ''invalid_address'') else Inr v))))"

section \<open>Addresses\<close>

record agent_address =
  ad_project :: code_points
  ad_agent :: code_points
  ad_generation :: int

text \<open>\<^verbatim>\<open>__post_init__\<close>\<close>

definition make_address :: "code_points \<Rightarrow> code_points \<Rightarrow> int \<Rightarrow> agent_address result" where
  "make_address project agent generation =
     bind_result (encode_component project) (\<lambda>_.
     bind_result (encode_component agent) (\<lambda>_.
     if generation < 1 then Inl (MailboxError ''invalid_address'')
     else Inr \<lparr>ad_project = project, ad_agent = agent, ad_generation = generation\<rparr>))"

definition to_uri :: "agent_address \<Rightarrow> string result" where
  "to_uri a = bind_result (encode_component (ad_project a)) (\<lambda>p.
     bind_result (encode_component (ad_agent a)) (\<lambda>g.
     Inr (''agent://'' @ p @ ''/'' @ g @ ''/'' @ int_str (ad_generation a))))"

text \<open>
  \<^verbatim>\<open>isdigit\<close> also holds for the superscripts one to three, on which \<^verbatim>\<open>int\<close> then fails.
  The interpreter's limit on the number of digits of an \<^verbatim>\<open>int\<close> is not modelled.
\<close>

definition ascii_digit :: "char \<Rightarrow> bool" where
  "ascii_digit c \<longleftrightarrow> (let n = (of_char c :: nat) in 48 \<le> n \<and> n \<le> 57)"

definition decimal :: "string \<Rightarrow> nat option" where
  "decimal s = (if s = [] \<or> (\<exists>c \<in> set s. \<not> ascii_digit c) then None
     else Some (foldl (\<lambda>acc c. 10 * acc + (of_char c - 48)) 0 s))"

definition parse_address :: "string \<Rightarrow> agent_address result" where
  "parse_address value =
     (if \<not> startswith value ''agent://'' then Inl (MailboxError ''invalid_address'')
      else (case split_on (CHR ''/'') (drop 8 value) of
          [p, a, g] \<Rightarrow>
            (case decimal g of
               None \<Rightarrow> Inl (MailboxError ''invalid_address'')
             | Some n \<Rightarrow>
                 bind_result (decode_component p) (\<lambda>project.
                 bind_result (decode_component a) (\<lambda>agent.
                 bind_result (make_address project agent (int n)) (\<lambda>address.
                 bind_result (to_uri address) (\<lambda>uri.
                 if uri \<noteq> value then Inl (MailboxError ''invalid_address'') else Inr address)))))
        | _ \<Rightarrow> Inl (MailboxError ''invalid_address'')))"

section \<open>Round trip\<close>

lemma digits64:
  "n = a * 64 + r \<Longrightarrow> a = c * 64 + s \<Longrightarrow> c * 4096 + s * 64 + r = (n :: nat)"
  "n = a * 64 + r \<Longrightarrow> a = c * 64 + s \<Longrightarrow> c = d * 64 + t \<Longrightarrow>
     d * 262144 + t * 4096 + s * 64 + r = (n :: nat)"
  by simp_all

lemma split_base64:
  "n div 4096 * 4096 + n div 64 mod 64 * 64 + n mod 64 = (n :: nat)"
  "n div 262144 * 262144 + n div 4096 mod 64 * 4096 + n div 64 mod 64 * 64 + n mod 64 = (n :: nat)"
proof -
  have div: "n div 4096 = n div 64 div 64" "n div 262144 = n div 64 div 64 div 64"
    by (simp_all only: div_mult2_eq [symmetric], simp_all)
  note eqs = div_mult_mod_eq [of n 64, symmetric] div_mult_mod_eq [of "n div 64" 64, symmetric]
    div_mult_mod_eq [of "n div 64 div 64" 64, symmetric]
  show "n div 4096 * 4096 + n div 64 mod 64 * 64 + n mod 64 = n"
    unfolding div by (rule digits64(1) [OF eqs(1,2)])
  show "n div 262144 * 262144 + n div 4096 mod 64 * 4096 + n div 64 mod 64 * 64 + n mod 64 = n"
    unfolding div by (rule digits64(2) [OF eqs(1,2,3)])
qed

lemma utf8_decode_char:
  assumes "code_point n"
  shows "utf8_decode (utf8_char n @ bs) = map_option ((#) n) (utf8_decode bs)"
proof -
  consider "n < 0x80" | "0x80 \<le> n" "n < 0x800" | "0x800 \<le> n" "n < 0x10000"
    | "0x10000 \<le> n" "n < 0x110000"
    using assms by (force simp: code_point_def)
  then show ?thesis
  proof cases
    case 2
    have "(192 + n div 64 - 192) * 64 + (128 + n mod 64 - 128) = n" by simp
    moreover have "2 \<le> n div 64" "n div 64 < 32" using 2 by simp_all
    ultimately show ?thesis using 2 by (simp add: utf8_char_def continuation_def)
  next
    case 3
    have "(224 + n div 4096 - 224) * 4096 + (128 + n div 64 mod 64 - 128) * 64 + (128 + n mod 64 - 128) = n"
      using split_base64(1) [of n] by simp
    moreover have "n div 4096 < 16" using 3 by simp
    ultimately show ?thesis using 3 assms by (simp add: utf8_char_def continuation_def Let_def code_point_def)
  next
    case 4
    have "(240 + n div 262144 - 240) * 262144 + (128 + n div 4096 mod 64 - 128) * 4096
        + (128 + n div 64 mod 64 - 128) * 64 + (128 + n mod 64 - 128) = n"
      using split_base64(2) [of n] by simp
    moreover have "n div 262144 < 5" using 4 by simp
    ultimately show ?thesis using 4 by (simp add: utf8_char_def continuation_def Let_def)
  qed (simp add: utf8_char_def)
qed

lemma utf8_roundtrip:
  "\<forall>n \<in> set v. code_point n \<Longrightarrow> utf8_decode (concat (map utf8_char v)) = Some v"
  by (induction v) (simp_all add: utf8_decode_char)

lemma utf8_char_byte: "n < 0x110000 \<Longrightarrow> b \<in> set (utf8_char n) \<Longrightarrow> b < 256"
  by (auto simp: utf8_char_def split: if_splits)

lemma hex_value_upper [simp]: "n < 16 \<Longrightarrow> hex_value (upper_hex n) = Some n"
  by (auto simp: hex_value_def upper_hex_def Let_def)

lemma unquote_quote_byte:
  assumes "b < 256"
  shows "unquote_bytes (quote_byte b @ s) = map_option ((#) b) (unquote_bytes s)"
proof (cases "unreserved b")
  case True
  then have "b < 128" "b \<noteq> 37" by (auto simp: unreserved_def)
  moreover from this have "(of_char (char_of b :: char) :: nat) = b" by simp
  moreover have "char_of b \<noteq> CHR ''%''"
  proof
    assume "char_of b = CHR ''%''"
    then have "(of_char (char_of b :: char) :: nat) = of_char CHR ''%''" by simp
    with \<open>b < 128\<close> \<open>b \<noteq> 37\<close> show False by simp
  qed
  ultimately show ?thesis using True by (simp add: quote_byte_def utf8_char_def append_Cons [abs_def] option.map_ident)
next
  case False
  have "16 * (b div 16) + b mod 16 = b" by simp
  with assms show ?thesis
    using False by (simp add: quote_byte_def)
qed

lemma unquote_quote:
  "\<forall>b \<in> set bs. b < 256 \<Longrightarrow> unquote_bytes (concat (map quote_byte bs)) = Some bs"
  by (induction bs) (simp_all add: unquote_quote_byte)

lemma quote_byte_ne [simp]: "quote_byte b \<noteq> []"
  by (simp add: quote_byte_def)

lemma utf8_char_ne [simp]: "utf8_char n \<noteq> []"
  by (simp add: utf8_char_def)

lemma decode_encode:
  assumes "encode_component v = Inr t" and "\<forall>n \<in> set v. n < 0x110000"
  shows "decode_component t = Inr v"
proof -
  have v: "v \<noteq> []" "\<forall>n \<in> set v. code_point n" "t = concat (map quote_byte (concat (map utf8_char v)))"
    using assms by (auto simp: encode_component_def code_point_def split: if_splits)
  have "\<forall>b \<in> set (concat (map utf8_char v)). b < 256"
    using assms(2) utf8_char_byte by auto
  then have "Option.bind (unquote_bytes t) utf8_decode = Some v"
    using v(2) by (simp add: v(3) unquote_quote utf8_roundtrip)
  moreover have "t \<noteq> []"
  proof (cases v)
    case (Cons n v')
    obtain b bs where "utf8_char n = b # bs" using utf8_char_ne [of n] by (cases "utf8_char n") blast+
    then show ?thesis by (simp add: v(3) Cons)
  qed (use v(1) in simp)
  ultimately show ?thesis using v(1) assms(1) by (simp add: decode_component_def)
qed

lemma char_of_eq_small: "k < 256 \<Longrightarrow> char_of (k :: nat) = c \<longleftrightarrow> k = of_char c"
  by (simp add: char_of_eq_iff take_bit_nat_eq_self)

lemma quote_byte_no_slash: "b < 256 \<Longrightarrow> CHR ''/'' \<notin> set (quote_byte b)"
  by (auto simp: quote_byte_def unreserved_def upper_hex_def char_of_eq_small eq_commute [of "CHR ''/''"])

section \<open>Addresses round trip\<close>

lemma decimal_Some: "decimal s = Some n \<longleftrightarrow> s \<noteq> [] \<and> (\<forall>c \<in> set s. ascii_digit c)
     \<and> n = foldl (\<lambda>acc c. 10 * acc + (of_char c - 48)) 0 s"
  by (auto simp: decimal_def)

lemma decimal_nat_str: "decimal (nat_str n) = Some n"
proof (induction n rule: nat_str.induct)
  case (1 n)
  have digit: "(of_char (char_of (48 + k) :: char) :: nat) = 48 + k" if "k < 10" for k :: nat
    using that by (simp add: take_bit_nat_eq_self)
  then have ascii: "ascii_digit (char_of (48 + k))" if "k < 10" for k :: nat
    using that by (simp add: ascii_digit_def)
  show ?case
  proof (cases "n < 10")
    case True
    then show ?thesis using ascii digit by (subst nat_str.simps) (simp add: decimal_Some)
  next
    case False
    have "10 * (n div 10) + n mod 10 = n" by simp
    then show ?thesis
      using 1 [OF False] False ascii [of "n mod 10"] digit [of "n mod 10"]
      by (subst nat_str.simps) (auto simp: decimal_Some)
  qed
qed

lemma nat_str_no_slash: "CHR ''/'' \<notin> set (nat_str n)"
  using decimal_nat_str [of n] by (auto simp: decimal_Some ascii_digit_def)

lemma encode_no_slash:
  assumes "encode_component v = Inr t" and "\<forall>n \<in> set v. n < 0x110000"
  shows "CHR ''/'' \<notin> set t"
  using assms quote_byte_no_slash utf8_char_byte
  by (fastforce simp: encode_component_def split: if_splits)

lemma utf8_decode_bound: "utf8_decode bs = Some v \<Longrightarrow> n \<in> set v \<Longrightarrow> n < 0x110000"
proof (induction bs arbitrary: v rule: utf8_decode.induct)
  case (2 b bs)
  then show ?case
    by (auto simp: Let_def continuation_def split: if_splits list.splits)
qed simp

lemma decode_component_bound: "decode_component s = Inr v \<Longrightarrow> n \<in> set v \<Longrightarrow> n < 0x110000"
  by (auto simp: decode_component_def bind_eq_Some_conv bind_result_Inr utf8_decode_bound
      split: if_splits option.splits)

definition valid_address :: "agent_address \<Rightarrow> bool" where
  "valid_address a \<longleftrightarrow> (\<forall>n \<in> set (ad_project a) \<union> set (ad_agent a). n < 0x110000)
     \<and> 1 \<le> ad_generation a"

lemma parse_to_uri:
  assumes "to_uri a = Inr uri" and "valid_address a"
  shows "parse_address uri = Inr a"
proof -
  obtain p g where p: "encode_component (ad_project a) = Inr p" and g: "encode_component (ad_agent a) = Inr g"
    and uri: "uri = ''agent://'' @ p @ ''/'' @ g @ ''/'' @ int_str (ad_generation a)"
    using assms(1) by (auto simp: to_uri_def bind_result_Inr)
  have gen: "1 \<le> ad_generation a" and bound: "\<forall>n \<in> set (ad_project a). n < 0x110000"
    "\<forall>n \<in> set (ad_agent a). n < 0x110000"
    using assms(2) by (auto simp: valid_address_def)
  have digits: "int_str (ad_generation a) = nat_str (nat (ad_generation a))"
    using gen by (simp add: int_str_def)
  have split: "split_on (CHR ''/'') (p @ CHR ''/'' # g @ CHR ''/'' # nat_str (nat (ad_generation a)))
      = [p, g, nat_str (nat (ad_generation a))]"
    using encode_no_slash [OF p bound(1)] encode_no_slash [OF g bound(2)] nat_str_no_slash
    by (simp add: split_on_append split_on_word)
  have make: "make_address (ad_project a) (ad_agent a) (ad_generation a) = Inr a"
    using p g gen by (simp add: make_address_def)
  show ?thesis
    using split make assms(1) gen decode_encode [OF p bound(1)] decode_encode [OF g bound(2)]
    by (simp add: parse_address_def uri digits decimal_nat_str startswith_def)
qed

lemma parse_address_uri: "parse_address uri = Inr a \<Longrightarrow> to_uri a = Inr uri \<and> valid_address a"
  by (auto simp: parse_address_def bind_result_Inr make_address_def valid_address_def
      dest: decode_component_bound split: if_splits list.splits option.splits)

text \<open>
  C40. Addresses and their URIs are in one-to-one correspondence. A text parses to an address
  exactly when it is the URI of that address and the address is valid, so no two texts name the
  same mailbox and no mailbox has an unparsable name.
\<close>

theorem address_roundtrip:
  "parse_address uri = Inr a \<longleftrightarrow> to_uri a = Inr uri \<and> valid_address a"
  using parse_address_uri parse_to_uri by blast

end
