(* ===== verification/Persistent_Mailbox.thy ===== *)
theory Persistent_Mailbox
  imports Agent_Address Leased_Work Canonical_Json
begin

text \<open>
  \<^verbatim>\<open>PersistentMailbox\<close> of \<^verbatim>\<open>agent/runtime/persistent_mailbox.py\<close> over one SQLite database
  shared by any number of consumers, with the envelopes of \<^verbatim>\<open>agent/runtime/mailbox.py\<close>.
  Instants and durations are whole microseconds, the resolution of the stored timestamps, whose
  texts order like the instants. The clock, the fresh lease token and the answer of SQLite to
  the transaction are arguments; an operation returns its result with the database.
\<close>

section \<open>Envelopes\<close>

record mail_envelope =
  en_message_id :: string
  en_type :: string
  en_source :: agent_address
  en_target :: agent_address
  en_payload :: json
  en_sequence :: "int option"
  en_attempt :: int
  en_created_at :: "int option"
  en_updated_at :: "int option"

text \<open>\<^verbatim>\<open>__post_init__\<close>; a decoded payload always encodes.\<close>

definition make_envelope :: "mail_envelope \<Rightarrow> mail_envelope result" where
  "make_envelope e =
     (if en_message_id e = [] \<or> en_type e = [] then Inl (MailboxError ''invalid_envelope'')
      else if (case en_sequence e of None \<Rightarrow> False | Some n \<Rightarrow> n < 1) \<or> en_attempt e < 0
      then Inl (MailboxError ''invalid_envelope'') else Inr e)"

section \<open>Tables and settings\<close>

datatype mail_status = Pending | Leased | Retry_Wait | Delivered

record mail_row =
  ml_message_id :: string
  ml_source :: string
  ml_target :: string
  ml_type :: string
  ml_payload :: json
  ml_sequence :: int
  ml_status :: mail_status
  ml_attempt :: int
  ml_next_retry_at :: "int option"
  ml_lease_owner :: "string option"
  ml_lease_token :: "string option"
  ml_lease_expires_at :: "int option"
  ml_created_at :: int
  ml_updated_at :: int

type_synonym mail_db = "mail_row list"

record mailbox =
  mb_project_id :: code_points
  mb_consumer_id :: string
  mb_capacity :: int
  mb_lease :: int
  mb_retry_base :: int
  mb_retry_max :: int
  mb_closed :: bool

definition make_mailbox :: "code_points \<Rightarrow> string \<Rightarrow> int \<Rightarrow> int \<Rightarrow> int \<Rightarrow> int \<Rightarrow> agent_address option \<Rightarrow>
   mailbox result" where
  "make_mailbox project consumer capacity lease base cap default_target =
     (if capacity < 1 then Inl (MailboxError ''invalid_capacity'')
      else if lease \<le> 0 \<or> base \<le> 0 \<or> cap \<le> 0 then Inl (MailboxError ''invalid_mailbox_timing'')
      else if project = [] \<or> consumer = [] then Inl (MailboxError ''invalid_mailbox_identity'')
      else if (case default_target of None \<Rightarrow> False | Some t \<Rightarrow> ad_project t \<noteq> project)
      then Inl (MailboxError ''invalid_address'')
      else Inr \<lparr>mb_project_id = project, mb_consumer_id = consumer, mb_capacity = capacity,
        mb_lease = lease, mb_retry_base = base, mb_retry_max = cap, mb_closed = False\<rparr>)"

record mail_result =
  re_status :: string
  re_message_id :: "string option"
  re_sequence :: "int option"
  re_attempt :: int
  re_lease_token :: "string option"
  re_lease_expires_at :: "int option"
  re_next_retry_at :: "int option"
  re_envelope :: "mail_envelope option"

definition status_only :: "string \<Rightarrow> mail_result" where
  "status_only st = \<lparr>re_status = st, re_message_id = None, re_sequence = None, re_attempt = 0,
     re_lease_token = None, re_lease_expires_at = None, re_next_retry_at = None, re_envelope = None\<rparr>"

definition from_storage :: "mail_row \<Rightarrow> mail_envelope result" where
  "from_storage r =
     bind_result (parse_address (ml_source r)) (\<lambda>src.
     bind_result (parse_address (ml_target r)) (\<lambda>target.
     make_envelope \<lparr>en_message_id = ml_message_id r, en_type = ml_type r, en_source = src,
       en_target = target, en_payload = ml_payload r, en_sequence = Some (ml_sequence r),
       en_attempt = ml_attempt r, en_created_at = Some (ml_created_at r),
       en_updated_at = Some (ml_updated_at r)\<rparr>))"

definition row_result ::
  "string \<Rightarrow> mail_row option \<Rightarrow> string option \<Rightarrow> int option \<Rightarrow> int option \<Rightarrow> mail_result result" where
  "row_result st row token expires retry =
     bind_result (case row of None \<Rightarrow> Inr None | Some r \<Rightarrow> bind_result (from_storage r) (\<lambda>e. Inr (Some e)))
       (\<lambda>env. Inr \<lparr>re_status = st, re_message_id = map_option ml_message_id row,
          re_sequence = map_option ml_sequence row,
          re_attempt = (case row of None \<Rightarrow> 0 | Some r \<Rightarrow> ml_attempt r), re_lease_token = token,
          re_lease_expires_at = expires, re_next_retry_at = retry, re_envelope = env\<rparr>)"

text \<open>A busy database or a storage error abandons the transaction.\<close>

datatype db_answer = Db_Ok | Db_Busy | Db_Failed

fun with_db ::
  "db_answer \<Rightarrow> mail_db \<Rightarrow> mail_result result \<times> mail_db \<Rightarrow> mail_result result \<times> mail_db" where
  "with_db Db_Ok db outcome = outcome"
| "with_db Db_Busy db outcome = (Inr (status_only ''mailbox_busy''), db)"
| "with_db Db_Failed db outcome = (Inl (MailboxError ''mailbox_storage_error''), db)"

definition validate_target :: "mailbox \<Rightarrow> agent_address \<Rightarrow> string result" where
  "validate_target mb a =
     (if ad_project a \<noteq> mb_project_id mb then Inl (MailboxError ''invalid_address'') else to_uri a)"

section \<open>Operations\<close>

definition has_pending :: "mail_db \<Rightarrow> string \<Rightarrow> bool" where
  "has_pending db uri \<longleftrightarrow> (\<exists>r \<in> set db. ml_target r = uri \<and> ml_status r \<noteq> Delivered)"

definition next_sequence :: "mail_db \<Rightarrow> int" where
  "next_sequence db = fold max (map ml_sequence db) 0 + 1"

definition enqueue_mail ::
  "mailbox \<Rightarrow> db_answer \<Rightarrow> int \<Rightarrow> mail_envelope \<Rightarrow> mail_db \<Rightarrow> mail_result result \<times> mail_db" where
  "enqueue_mail mb ans now e db =
     (if mb_closed mb then (Inr (status_only ''closed''), db)
      else case (validate_target mb (en_source e), validate_target mb (en_target e)) of
          (Inl err, _) \<Rightarrow> (Inl err, db)
        | (Inr src, Inl err) \<Rightarrow> (Inl err, db)
        | (Inr src, Inr target) \<Rightarrow> with_db ans db
            (case find (\<lambda>r. ml_message_id r = en_message_id e) db of
               Some r \<Rightarrow> (row_result ''existing'' (Some r) None None None, db)
             | None \<Rightarrow>
                 (if mb_capacity mb \<le> int (rowcount (\<lambda>r. ml_status r \<noteq> Delivered) db)
                  then (Inr ((status_only ''backpressure'')\<lparr>re_message_id := Some (en_message_id e)\<rparr>), db)
                  else let r = \<lparr>ml_message_id = en_message_id e, ml_source = src, ml_target = target,
                         ml_type = en_type e, ml_payload = en_payload e,
                         ml_sequence = next_sequence db, ml_status = Pending, ml_attempt = 0,
                         ml_next_retry_at = None, ml_lease_owner = None, ml_lease_token = None,
                         ml_lease_expires_at = None, ml_created_at = now, ml_updated_at = now\<rparr>
                    in (row_result ''inserted'' (Some r) None None None, db @ [r]))))"

definition due :: "string \<Rightarrow> int \<Rightarrow> mail_row \<Rightarrow> bool" where
  "due uri now r \<longleftrightarrow> ml_target r = uri \<and>
     (ml_status r = Pending
      \<or> (ml_status r = Retry_Wait \<and> (\<exists>t \<in> set_option (ml_next_retry_at r). t \<le> now))
      \<or> (ml_status r = Leased \<and> (\<exists>t \<in> set_option (ml_lease_expires_at r). t \<le> now)))"

definition first_due :: "mail_db \<Rightarrow> string \<Rightarrow> int \<Rightarrow> mail_row option" where
  "first_due db uri now =
     (case sort_key ml_sequence (filter (due uri now) db) of [] \<Rightarrow> None | r # _ \<Rightarrow> Some r)"

abbreviation leased_to :: "mailbox \<Rightarrow> int \<Rightarrow> string \<Rightarrow> mail_row \<Rightarrow> mail_row" where
  "leased_to mb now token r \<equiv> r\<lparr>ml_status := Leased, ml_attempt := ml_attempt r + 1,
     ml_next_retry_at := None, ml_lease_owner := Some (mb_consumer_id mb),
     ml_lease_token := Some token, ml_lease_expires_at := Some (now + mb_lease mb),
     ml_updated_at := now\<rparr>"

definition claim_mail ::
  "mailbox \<Rightarrow> db_answer \<Rightarrow> int \<Rightarrow> string \<Rightarrow> agent_address \<Rightarrow> mail_db \<Rightarrow> mail_result result \<times> mail_db" where
  "claim_mail mb ans now token target db =
     (case validate_target mb target of
        Inl err \<Rightarrow> (Inl err, db)
      | Inr uri \<Rightarrow>
          (if mb_closed mb then (Inr (status_only ''closed''), db)
           else with_db ans db
             (case first_due db uri now of
                None \<Rightarrow> (Inr (status_only ''empty''), db)
              | Some r \<Rightarrow>
                  (row_result ''claimed'' (Some (leased_to mb now token r)) (Some token)
                     (Some (now + mb_lease mb)) None,
                   update_rows (\<lambda>x. ml_message_id x = ml_message_id r) (leased_to mb now token) db))))"

definition lease_matches ::
  "mailbox \<Rightarrow> string \<Rightarrow> string \<Rightarrow> int \<Rightarrow> mail_row option \<Rightarrow> bool" where
  "lease_matches mb token uri now row \<longleftrightarrow> (case row of None \<Rightarrow> False | Some r \<Rightarrow>
     ml_status r = Leased \<and> ml_lease_owner r = Some (mb_consumer_id mb)
     \<and> ml_lease_token r = Some token \<and> ml_target r = uri
     \<and> (\<exists>t \<in> set_option (ml_lease_expires_at r). now < t))"

text \<open>
  What \<^verbatim>\<open>renew\<close>, \<^verbatim>\<open>ack\<close> and \<^verbatim>\<open>nack\<close> share: the target is validated, a lease that does
  not match is reported with the row as it is, a matching one is settled by \<open>write\<close>.
\<close>

definition settle_mail ::
  "mailbox \<Rightarrow> db_answer \<Rightarrow> int \<Rightarrow> string \<Rightarrow> string \<Rightarrow> agent_address \<Rightarrow> mail_db \<Rightarrow>
   (mail_row \<Rightarrow> mail_result result \<times> mail_db) \<Rightarrow> mail_result result \<times> mail_db" where
  "settle_mail mb ans now message_id token target db write_row =
     (case validate_target mb target of
        Inl err \<Rightarrow> (Inl err, db)
      | Inr uri \<Rightarrow> with_db ans db
          (let row = find (\<lambda>r. ml_message_id r = message_id) db in
           if \<not> lease_matches mb token uri now row
           then (row_result ''lost_lease'' row None None None, db)
           else (case row of None \<Rightarrow> (row_result ''lost_lease'' row None None None, db)
                 | Some r \<Rightarrow> write_row r)))"

definition set_row :: "string \<Rightarrow> (mail_row \<Rightarrow> mail_row) \<Rightarrow> mail_db \<Rightarrow> mail_db" where
  "set_row message_id f = update_rows (\<lambda>x. ml_message_id x = message_id) f"

definition renew_mail ::
  "mailbox \<Rightarrow> db_answer \<Rightarrow> int \<Rightarrow> string \<Rightarrow> string \<Rightarrow> agent_address \<Rightarrow> mail_db \<Rightarrow> mail_result result \<times> mail_db"
where
  "renew_mail mb ans now message_id token target db =
     settle_mail mb ans now message_id token target db (\<lambda>r.
       let f = (\<lambda>x. x\<lparr>ml_lease_expires_at := Some (now + mb_lease mb), ml_updated_at := now\<rparr>)
       in (row_result ''renewed'' (Some (f r)) (Some token) (Some (now + mb_lease mb)) None,
           set_row message_id f db))"

definition ack_mail ::
  "mailbox \<Rightarrow> db_answer \<Rightarrow> int \<Rightarrow> string \<Rightarrow> string \<Rightarrow> agent_address \<Rightarrow> mail_db \<Rightarrow> mail_result result \<times> mail_db"
where
  "ack_mail mb ans now message_id token target db =
     settle_mail mb ans now message_id token target db (\<lambda>r.
       let f = (\<lambda>x. x\<lparr>ml_status := Delivered, ml_next_retry_at := None, ml_lease_owner := None,
                      ml_lease_token := None, ml_lease_expires_at := None, ml_updated_at := now\<rparr>)
       in (row_result ''acked'' (Some (f r)) None None None, set_row message_id f db))"

text \<open>\<^verbatim>\<open>base * 2 ** n\<close> is a product with a float, which overflows from \<open>n = 1024\<close>.\<close>

definition mail_backoff :: "mailbox \<Rightarrow> int \<Rightarrow> int result" where
  "mail_backoff mb attempt =
     (let n = nat (max 0 (attempt - 1)) in
      if 1024 \<le> n then Inl (BuiltinError ''OverflowError'')
      else Inr (min (mb_retry_base mb * 2 ^ n) (mb_retry_max mb)))"

definition nack_mail ::
  "mailbox \<Rightarrow> db_answer \<Rightarrow> int \<Rightarrow> string \<Rightarrow> string \<Rightarrow> agent_address \<Rightarrow> mail_db \<Rightarrow> mail_result result \<times> mail_db"
where
  "nack_mail mb ans now message_id token target db =
     settle_mail mb ans now message_id token target db (\<lambda>r.
       case mail_backoff mb (ml_attempt r) of
         Inl err \<Rightarrow> (Inl err, db)
       | Inr delay \<Rightarrow>
           (let f = (\<lambda>x. x\<lparr>ml_status := Retry_Wait, ml_next_retry_at := Some (now + delay),
                          ml_lease_owner := None, ml_lease_token := None,
                          ml_lease_expires_at := None, ml_updated_at := now\<rparr>)
            in (row_result ''nacked'' (Some (f r)) None None (Some (now + delay)),
                set_row message_id f db)))"

definition next_due_delay :: "mail_db \<Rightarrow> string \<Rightarrow> int \<Rightarrow> int option" where
  "next_due_delay db uri now =
     (case [t. r \<leftarrow> db, ml_target r = uri,
              Some t \<leftarrow> [if ml_status r = Retry_Wait then ml_next_retry_at r
                        else if ml_status r = Leased then ml_lease_expires_at r else None]] of
        [] \<Rightarrow> None | t # ts \<Rightarrow> Some (max 0 (fold min ts t - now)))"

text \<open>Closing releases the consumer's leases for anyone to claim.\<close>

definition close_mailbox ::
  "mailbox \<Rightarrow> db_answer \<Rightarrow> int \<Rightarrow> mail_db \<Rightarrow> mail_result result \<times> mailbox \<times> mail_db" where
  "close_mailbox mb ans now db =
     (if mb_closed mb then (Inr (status_only ''closed''), mb, db)
      else case ans of
          Db_Busy \<Rightarrow> (Inr (status_only ''mailbox_busy''), mb, db)
        | Db_Failed \<Rightarrow> (Inl (MailboxError ''mailbox_storage_error''), mb, db)
        | Db_Ok \<Rightarrow> (Inr (status_only ''closed''), mb\<lparr>mb_closed := True\<rparr>,
            update_rows (\<lambda>x. ml_status x = Leased \<and> ml_lease_owner x = Some (mb_consumer_id mb))
              (\<lambda>x. x\<lparr>ml_status := Pending, ml_next_retry_at := None, ml_lease_owner := None,
                     ml_lease_token := None, ml_lease_expires_at := None, ml_updated_at := now\<rparr>) db))"

end
