(* ===== verification/Node_Execution.thy ===== *)
theory Node_Execution
  imports Persistent_Mailbox Test_Contract
begin

text \<open>
  Durable node executions and their completion outbox: the tables \<^verbatim>\<open>node_executions\<close>,
  \<^verbatim>\<open>wait_signals\<close> and \<^verbatim>\<open>completion_outbox\<close> of \<^verbatim>\<open>ProjectPlanStore\<close>, and
  \<^verbatim>\<open>PlanNodeExecutionCoordinator\<close>, which forwards the outbox to the persistent mailbox. Fresh
  identifiers and the time of the transaction are arguments; the columns no code reads
  (\<^verbatim>\<open>updated_at\<close>, \<^verbatim>\<open>ended_at\<close>, \<^verbatim>\<open>sent_at\<close>) are left out.
\<close>

section \<open>Tables\<close>

datatype exec_state = Exec_Waiting | Exec_Ended

record node_execution =
  ne_execution_id :: string
  ne_wait_id :: string
  ne_node_id :: string
  ne_owner_address :: string
  ne_state :: exec_state
  ne_phase :: string
  ne_revision :: int
  ne_outcome :: "string option"
  ne_result_ref :: "string option"
  ne_created_at :: int

record wait_signal =
  ws_wait_id :: string
  ws_execution_id :: string
  ws_node_id :: string
  ws_state :: exec_state
  ws_phase :: string
  ws_revision :: int
  ws_outcome :: "string option"
  ws_result_ref :: "string option"

datatype outbox_state = Outbox_Pending | Outbox_Sent

record outbox_row =
  ob_wait_id :: string
  ob_execution_id :: string
  ob_owner_address :: string
  ob_message_id :: string
  ob_payload :: dict
  ob_state :: outbox_state
  ob_attempt :: int
  ob_created_at :: int

record exec_db =
  xd_executions :: "node_execution list"
  xd_waits :: "wait_signal list"
  xd_outbox :: "outbox_row list"

section \<open>Reading\<close>

record execution_view =
  ev_wait_id :: string
  ev_execution_id :: string
  ev_node_id :: string
  ev_owner_address :: string
  ev_state :: exec_state
  ev_phase :: string
  ev_revision :: int
  ev_outcome :: "string option"
  ev_result_ref :: "string option"

definition execution_view :: "wait_signal \<Rightarrow> node_execution \<Rightarrow> execution_view" where
  "execution_view w e = \<lparr>ev_wait_id = ws_wait_id w, ev_execution_id = ne_execution_id e,
     ev_node_id = ne_node_id e, ev_owner_address = ne_owner_address e, ev_state = ws_state w,
     ev_phase = ws_phase w, ev_revision = ws_revision w, ev_outcome = ws_outcome w,
     ev_result_ref = ws_result_ref w\<rparr>"

definition joined :: "exec_db \<Rightarrow> (wait_signal \<times> node_execution) list" where
  "joined db = [(w, e). w \<leftarrow> xd_waits db, e \<leftarrow> xd_executions db, ne_execution_id e = ws_execution_id w]"

definition fetch_execution :: "(wait_signal \<times> node_execution \<Rightarrow> bool) \<Rightarrow> exec_db \<Rightarrow> execution_view option" where
  "fetch_execution P db = map_option (\<lambda>(w, e). execution_view w e) (find P (joined db))"

definition read_execution :: "string \<Rightarrow> exec_db \<Rightarrow> execution_view option" where
  "read_execution wait = fetch_execution (\<lambda>(w, e). ws_wait_id w = wait)"

definition list_active_node_executions :: "exec_db \<Rightarrow> execution_view list" where
  "list_active_node_executions db = map (\<lambda>(w, e). execution_view w e)
     (sort_key (\<lambda>(w, e). ne_created_at e) (sort_key (\<lambda>(w, e). ne_execution_id e)
       (filter (\<lambda>(w, e). ne_state e = Exec_Waiting) (joined db))))"

definition list_pending_completion_outbox :: "exec_db \<Rightarrow> outbox_row list" where
  "list_pending_completion_outbox db = sort_key ob_created_at (sort_key ob_wait_id
     (filter (\<lambda>r. ob_state r = Outbox_Pending) (xd_outbox db)))"

section \<open>Creating and completing\<close>

text \<open>
  The primary keys, the UNIQUE columns and the partial unique index on the waiting nodes reject
  the insertion with \<^verbatim>\<open>sqlite3.IntegrityError\<close>.
\<close>

definition create_node_execution ::
  "string \<Rightarrow> string \<Rightarrow> int \<Rightarrow> string \<Rightarrow> string \<Rightarrow> exec_db \<Rightarrow> (execution_view \<times> exec_db) result" where
  "create_node_execution execution wait now node owner db =
     (case fetch_execution (\<lambda>(w, e). ne_node_id e = node \<and> ne_state e = Exec_Waiting) db of
        Some v \<Rightarrow> Inr (v, db)
      | None \<Rightarrow>
          (if (\<exists>e \<in> set (xd_executions db). ne_execution_id e = execution \<or> ne_wait_id e = wait
                 \<or> (ne_node_id e = node \<and> ne_state e = Exec_Waiting))
              \<or> (\<exists>w \<in> set (xd_waits db). ws_wait_id w = wait \<or> ws_execution_id w = execution)
           then Inl (BuiltinError ''IntegrityError'')
           else let e = \<lparr>ne_execution_id = execution, ne_wait_id = wait, ne_node_id = node,
                      ne_owner_address = owner, ne_state = Exec_Waiting, ne_phase = ''queued'',
                      ne_revision = 1, ne_outcome = None, ne_result_ref = None, ne_created_at = now\<rparr>;
                    w = \<lparr>ws_wait_id = wait, ws_execution_id = execution, ws_node_id = node,
                      ws_state = Exec_Waiting, ws_phase = ''queued'', ws_revision = 1,
                      ws_outcome = None, ws_result_ref = None\<rparr>;
                    db' = db\<lparr>xd_executions := xd_executions db @ [e], xd_waits := xd_waits db @ [w]\<rparr>
                in (case read_execution wait db' of
                      None \<Rightarrow> Inl (BuiltinError ''AssertionError'') | Some v \<Rightarrow> Inr (v, db'))))"

definition completion_payload :: "execution_view \<Rightarrow> string \<Rightarrow> string option \<Rightarrow> dict" where
  "completion_payload v outcome result_ref =
     [(''wait_id'', JStr (ev_wait_id v)), (''execution_id'', JStr (ev_execution_id v)),
      (''node_id'', JStr (ev_node_id v)), (''state'', JStr ''ended''), (''outcome'', JStr outcome),
      (''result_ref'', opt_str result_ref), (''revision'', JInt (ev_revision v))]"

definition completion_message_id :: "string \<Rightarrow> string" where
  "completion_message_id wait = ''node-workflow-result:'' @ wait"

lemma completion_message_id_inj [simp]: "completion_message_id w = completion_message_id w' \<longleftrightarrow> w = w'"
  by (simp add: completion_message_id_def)

definition insert_outbox :: "outbox_row \<Rightarrow> exec_db \<Rightarrow> exec_db" where
  "insert_outbox r db =
     (if \<exists>x \<in> set (xd_outbox db). ob_wait_id x = ob_wait_id r \<or> ob_message_id x = ob_message_id r
      then db else db\<lparr>xd_outbox := xd_outbox db @ [r]\<rparr>)"

definition end_execution ::
  "string \<Rightarrow> string \<Rightarrow> string \<Rightarrow> string \<Rightarrow> string option \<Rightarrow> exec_db \<Rightarrow> exec_db" where
  "end_execution execution wait phase outcome result_ref db = db\<lparr>
     xd_executions := update_rows (\<lambda>e. ne_execution_id e = execution \<and> ne_state e = Exec_Waiting)
       (\<lambda>e. e\<lparr>ne_state := Exec_Ended, ne_phase := phase, ne_outcome := Some outcome,
              ne_result_ref := result_ref\<rparr>) (xd_executions db),
     xd_waits := update_rows (\<lambda>w. ws_wait_id w = wait \<and> ws_state w = Exec_Waiting)
       (\<lambda>w. w\<lparr>ws_state := Exec_Ended, ws_phase := phase, ws_outcome := Some outcome,
              ws_result_ref := result_ref\<rparr>) (xd_waits db)\<rparr>"

definition terminal_outcomes :: "string list" where
  "terminal_outcomes = [''completed'', ''failed'', ''blocked'', ''cancelled'']"

definition complete_execution ::
  "int \<Rightarrow> string \<Rightarrow> string \<Rightarrow> string option \<Rightarrow> string option \<Rightarrow> exec_db \<Rightarrow> (execution_view \<times> exec_db) result" where
  "complete_execution now wait outcome result_ref phase db =
     (if outcome \<notin> set terminal_outcomes
      then Inl (ValidationError ''node_execution'' ''Invalid terminal execution outcome'')
      else case read_execution wait db of
          None \<Rightarrow> Inl (NotFoundError ''wait_signal'')
        | Some current \<Rightarrow>
            (if ev_state current = Exec_Ended
             then (if ev_outcome current \<noteq> Some outcome \<or> ev_result_ref current \<noteq> result_ref
                   then Inl (ConflictError ''node_execution'' ''execution_terminal_conflict'')
                   else Inr (current, db))
             else let terminal_phase = (case phase of Some p \<Rightarrow> if p = [] then ev_phase current else p
                                        | None \<Rightarrow> ev_phase current);
                      db' = insert_outbox
                        \<lparr>ob_wait_id = wait, ob_execution_id = ev_execution_id current,
                         ob_owner_address = ev_owner_address current,
                         ob_message_id = completion_message_id wait,
                         ob_payload = completion_payload (current\<lparr>ev_wait_id := wait\<rparr>) outcome result_ref,
                         ob_state = Outbox_Pending, ob_attempt = 0, ob_created_at = now\<rparr>
                        (end_execution (ev_execution_id current) wait terminal_phase outcome result_ref db)
                  in (case read_execution wait db' of
                        None \<Rightarrow> Inl (BuiltinError ''AssertionError'') | Some v \<Rightarrow> Inr (v, db'))))"

definition mark_completion_outbox_sent :: "string \<Rightarrow> exec_db \<Rightarrow> exec_db" where
  "mark_completion_outbox_sent wait db = db\<lparr>xd_outbox :=
     update_rows (\<lambda>r. ob_wait_id r = wait \<and> ob_state r = Outbox_Pending)
       (\<lambda>r. r\<lparr>ob_state := Outbox_Sent, ob_attempt := ob_attempt r + 1\<rparr>) (xd_outbox db)\<rparr>"

definition mark_completion_outbox_attempt :: "string \<Rightarrow> exec_db \<Rightarrow> exec_db" where
  "mark_completion_outbox_attempt wait db = db\<lparr>xd_outbox :=
     update_rows (\<lambda>r. ob_wait_id r = wait \<and> ob_state r = Outbox_Pending)
       (\<lambda>r. r\<lparr>ob_attempt := ob_attempt r + 1\<rparr>) (xd_outbox db)\<rparr>"

section \<open>The coordinator\<close>

text \<open>
  \<^verbatim>\<open>_schedule\<close>: at most one task per execution; the running tasks are the list of their
  execution identifiers.
\<close>

definition schedule :: "execution_view \<Rightarrow> string list \<Rightarrow> bool \<times> string list" where
  "schedule v tasks =
     (if ev_state v \<noteq> Exec_Waiting \<or> ev_execution_id v \<in> set tasks then (False, tasks)
      else (True, tasks @ [ev_execution_id v]))"

fun schedule_all :: "execution_view list \<Rightarrow> string list \<Rightarrow> string list \<times> string list" where
  "schedule_all [] tasks = ([], tasks)"
| "schedule_all (v # vs) tasks =
     (let (started, tasks') = schedule v tasks; (ids, tasks'') = schedule_all vs tasks'
      in (if started then ev_execution_id v # ids else ids, tasks''))"

definition recover_executions :: "exec_db \<Rightarrow> string list \<Rightarrow> string list \<times> string list" where
  "recover_executions db tasks = schedule_all (list_active_node_executions db) tasks"

text \<open>
  How the stage runner of a task ends: with its result, whose \<^verbatim>\<open>result_ref\<close> is a text or
  absent, by cancellation or by an exception.
\<close>

datatype stage_end = Stage_Result dict "string option" | Stage_Cancelled | Stage_Raised

definition finish_stage ::
  "int \<Rightarrow> execution_view \<Rightarrow> dict \<Rightarrow> string option \<Rightarrow> exec_db \<Rightarrow> (execution_view \<times> exec_db) result" where
  "finish_stage now v result result_ref db =
     (let outcome = (let o' = get_str result ''outcome'' in if o' = [] then ''failed'' else o')
      in bind_result (let p = dict_get result ''phases'' in if truthy p then py_iter p else Inr []) (\<lambda>values.
         let phases = filter (\<lambda>p. p \<noteq> []) (map py_str values);
             phase = (if phases = [] then ev_phase v else last phases)
         in complete_execution now (ev_wait_id v) outcome result_ref (Some phase) db))"

definition run_execution ::
  "int \<Rightarrow> execution_view \<Rightarrow> stage_end \<Rightarrow> exec_db \<Rightarrow> (execution_view \<times> exec_db) result" where
  "run_execution now v ending db =
     (case ending of
        Stage_Result result result_ref \<Rightarrow>
          (case finish_stage now v result result_ref db of
             Inr r \<Rightarrow> Inr r
           | Inl _ \<Rightarrow> complete_execution now (ev_wait_id v) ''failed'' None None db)
      | Stage_Cancelled \<Rightarrow> complete_execution now (ev_wait_id v) ''cancelled'' None None db
      | Stage_Raised \<Rightarrow> complete_execution now (ev_wait_id v) ''failed'' None None db)"

section \<open>Forwarding\<close>

definition completion_envelope :: "agent_address \<Rightarrow> outbox_row \<Rightarrow> mail_envelope result" where
  "completion_envelope source item =
     bind_result (parse_address (ob_owner_address item)) (\<lambda>target.
       make_envelope \<lparr>en_message_id = ob_message_id item, en_type = ''node-workflow-result'',
         en_source = source, en_target = target, en_payload = JObj (ob_payload item),
         en_sequence = None, en_attempt = 0, en_created_at = None, en_updated_at = None\<rparr>)"

fun forward_items ::
  "mailbox \<Rightarrow> (string \<Rightarrow> db_answer \<times> int) \<Rightarrow> agent_address \<Rightarrow> outbox_row list \<Rightarrow> nat \<Rightarrow> exec_db \<Rightarrow> mail_db \<Rightarrow>
   nat result \<times> exec_db \<times> mail_db" where
  "forward_items mb answer source [] forwarded db mail = (Inr forwarded, db, mail)"
| "forward_items mb answer source (item # items) forwarded db mail =
     (case completion_envelope source item of
        Inl err \<Rightarrow> (Inl err, db, mail)
      | Inr envelope \<Rightarrow>
          (case enqueue_mail mb (fst (answer (ob_wait_id item))) (snd (answer (ob_wait_id item))) envelope mail of
             (Inl err, mail') \<Rightarrow> (Inl err, db, mail')
           | (Inr res, mail') \<Rightarrow>
               (if re_status res \<in> {''inserted'', ''existing''}
                then forward_items mb answer source items (Suc forwarded)
                       (mark_completion_outbox_sent (ob_wait_id item) db) mail'
                else forward_items mb answer source items forwarded
                       (mark_completion_outbox_attempt (ob_wait_id item) db) mail')))"

definition forward_completion_mail ::
  "mailbox \<Rightarrow> agent_address \<Rightarrow> (string \<Rightarrow> db_answer \<times> int) \<Rightarrow> exec_db \<Rightarrow> mail_db \<Rightarrow>
   nat result \<times> exec_db \<times> mail_db" where
  "forward_completion_mail mb owner answer db mail =
     (case make_address (ad_project owner) (map of_char ''node-workflow'') 1 of
        Inl err \<Rightarrow> (Inl err, db, mail)
      | Inr source \<Rightarrow> forward_items mb answer source (list_pending_completion_outbox db) 0 db mail)"

end
