(* ===== verification/Outbox_Sink.thy ===== *)
theory Outbox_Sink
  imports Main
begin

text \<open>
  What a durable outbox needs of the store it is forwarded to: an entry that is accepted is there
  under its key, contents are never lost or changed, and a delivery adds no other content. From
  this a forwarder may repeat, stop and resume deliveries freely.
\<close>

locale outbox_sink =
  fixes deliver :: "'e \<Rightarrow> 'db \<Rightarrow> bool \<times> 'db"
    and content :: "'db \<Rightarrow> 'k \<Rightarrow> 'c option"
    and key :: "'e \<Rightarrow> 'k"
    and body :: "'e \<Rightarrow> 'c"
    and ok :: "'db \<Rightarrow> bool"
  assumes ok_deliver: "ok db \<Longrightarrow> ok (snd (deliver e db))"
    and kept: "ok db \<Longrightarrow> content db k = Some c \<Longrightarrow> content (snd (deliver e db)) k = Some c"
    and added: "ok db \<Longrightarrow> content db k = None \<Longrightarrow> content (snd (deliver e db)) k = Some c \<Longrightarrow>
          k = key e \<and> c = body e"
    and accepted: "ok db \<Longrightarrow> fst (deliver e db) \<Longrightarrow> content (snd (deliver e db)) (key e) \<noteq> None"
begin

text \<open>Every content in the range of keys \<open>Q\<close> was announced.\<close>

definition traced :: "('k \<Rightarrow> bool) \<Rightarrow> ('k \<times> 'c) set \<Rightarrow> 'db \<Rightarrow> bool" where
  "traced Q S db \<longleftrightarrow> (\<forall>k c. Q k \<longrightarrow> content db k = Some c \<longrightarrow> (k, c) \<in> S)"

lemma traced_deliver:
  assumes "ok db" and "traced Q S db" and "Q (key e) \<Longrightarrow> (key e, body e) \<in> S"
  shows "traced Q S (snd (deliver e db))"
  unfolding traced_def
proof (intro allI impI)
  fix k c assume Q: "Q k" and c: "content (snd (deliver e db)) k = Some c"
  show "(k, c) \<in> S"
  proof (cases "content db k")
    case None
    with added [OF assms(1) None c] Q assms(3) show ?thesis by simp
  next
    case (Some d)
    with kept [OF assms(1) Some, of e] c Q assms(2) show ?thesis by (simp add: traced_def)
  qed
qed

lemma traced_mono: "traced Q S db \<Longrightarrow> S \<subseteq> T \<Longrightarrow> traced Q T db"
  unfolding traced_def by blast

lemma traced_accepted:
  assumes "ok db" and "traced Q S db" and "Q (key e)" and "(key e, body e) \<in> S"
    and "\<And>c. (key e, c) \<in> S \<Longrightarrow> c = body e" and "fst (deliver e db)"
  shows "content (snd (deliver e db)) (key e) = Some (body e)"
proof -
  obtain c where c: "content (snd (deliver e db)) (key e) = Some c"
    using accepted [OF assms(1,6)] by blast
  have "traced Q S (snd (deliver e db))" using traced_deliver assms(1,2,4) by blast
  with c assms(3,5) show ?thesis by (simp add: traced_def)
qed

end

end
