(* ===== verification/Mailbox_Properties.thy ===== *)
theory Mailbox_Properties
  imports Persistent_Mailbox Outbox_Sink
begin

text \<open>
  Durable delivery: arbitrary interleavings of any consumers' operations on one mail database,
  and what they can do to a message.
\<close>

section \<open>Operations as commands\<close>

datatype mail_op =
    Enqueue_Mail mailbox db_answer int mail_envelope
  | Claim_Mail mailbox db_answer int string agent_address
  | Renew_Mail mailbox db_answer int string string agent_address
  | Ack_Mail mailbox db_answer int string string agent_address
  | Nack_Mail mailbox db_answer int string string agent_address
  | Close_Mailbox mailbox db_answer int

fun mail_step :: "mail_db \<Rightarrow> mail_op \<Rightarrow> mail_db" where
  "mail_step db (Enqueue_Mail mb ans now e) = snd (enqueue_mail mb ans now e db)"
| "mail_step db (Claim_Mail mb ans now tok target) = snd (claim_mail mb ans now tok target db)"
| "mail_step db (Renew_Mail mb ans now mid tok target) = snd (renew_mail mb ans now mid tok target db)"
| "mail_step db (Ack_Mail mb ans now mid tok target) = snd (ack_mail mb ans now mid tok target db)"
| "mail_step db (Nack_Mail mb ans now mid tok target) = snd (nack_mail mb ans now mid tok target db)"
| "mail_step db (Close_Mailbox mb ans now) = snd (snd (close_mailbox mb ans now db))"

abbreviation mail_steps :: "mail_db \<Rightarrow> mail_op list \<Rightarrow> mail_db" where
  "mail_steps \<equiv> foldl mail_step"

fun mail_grants :: "mail_op \<Rightarrow> string \<Rightarrow> string \<Rightarrow> bool" where
  "mail_grants (Claim_Mail _ _ _ tok _) k t = (tok = t)"
| "mail_grants _ k t = False"

fun acks_under :: "mail_op \<Rightarrow> string \<Rightarrow> string \<Rightarrow> bool" where
  "acks_under (Ack_Mail _ _ _ mid tok _) k t = (mid = k \<and> tok = t)"
| "acks_under _ k t = False"

section \<open>Well-formed databases\<close>

definition row_ok :: "mail_row \<Rightarrow> bool" where
  "row_ok r \<longleftrightarrow> (ml_status r = Leased) = (ml_lease_token r \<noteq> None)
     \<and> (ml_lease_token r = None) = (ml_lease_expires_at r = None)
     \<and> (ml_lease_token r = None) = (ml_lease_owner r = None)
     \<and> (ml_status r = Retry_Wait) = (ml_next_retry_at r \<noteq> None)
     \<and> 0 \<le> ml_attempt r \<and> (ml_status r = Leased \<longrightarrow> 1 \<le> ml_attempt r) \<and> 1 \<le> ml_sequence r"

definition mail_ok :: "mail_db \<Rightarrow> bool" where
  "mail_ok db \<longleftrightarrow> unique_key ml_message_id db \<and> unique_key ml_sequence db \<and> (\<forall>r \<in> set db. row_ok r)"

definition same_mail :: "mail_row \<Rightarrow> mail_row \<Rightarrow> bool" where
  "same_mail r r' \<longleftrightarrow> ml_message_id r' = ml_message_id r \<and> ml_source r' = ml_source r
     \<and> ml_target r' = ml_target r \<and> ml_type r' = ml_type r \<and> ml_payload r' = ml_payload r
     \<and> ml_sequence r' = ml_sequence r \<and> ml_created_at r' = ml_created_at r"

definition evolves :: "mail_op \<Rightarrow> mail_row \<Rightarrow> mail_row \<Rightarrow> bool" where
  "evolves op r r' \<longleftrightarrow> same_mail r r' \<and> ml_attempt r \<le> ml_attempt r'
     \<and> (ml_status r = Delivered \<longrightarrow> r' = r)
     \<and> (\<forall>t. ml_lease_token r' = Some t \<longrightarrow> ml_lease_token r = Some t \<or> mail_grants op (ml_message_id r) t)
     \<and> (ml_status r' = Delivered \<longrightarrow> ml_status r = Delivered
          \<or> (\<exists>t. ml_lease_token r = Some t \<and> acks_under op (ml_message_id r) t))
     \<and> (row_ok r \<longrightarrow> row_ok r')"

lemma evolves_refl [simp]: "evolves op r r"
  by (simp add: evolves_def same_mail_def)

definition message :: "mail_db \<Rightarrow> string \<Rightarrow> mail_row option" where
  "message db k = find (\<lambda>r. ml_message_id r = k) db"

text \<open>What one operation does to the table.\<close>

definition shape :: "mail_op \<Rightarrow> mail_db \<Rightarrow> mail_db \<Rightarrow> bool" where
  "shape op db db' \<longleftrightarrow> db' = db
     \<or> (\<exists>r. db' = db @ [r] \<and> message db (ml_message_id r) = None \<and> ml_status r = Pending
          \<and> ml_lease_token r = None \<and> row_ok r \<and> (\<forall>x \<in> set db. ml_sequence x < ml_sequence r))
     \<or> (\<exists>P f. db' = update_rows P f db \<and> (\<forall>x \<in> set db. P x \<longrightarrow> evolves op x (f x)))"

lemma shape_same [simp]: "shape op db db"
  by (simp add: shape_def)

lemma shape_update:
  "(\<And>x. x \<in> set db \<Longrightarrow> P x \<Longrightarrow> evolves op x (f x)) \<Longrightarrow> shape op db (update_rows P f db)"
  unfolding shape_def by blast

lemma shape_append:
  "message db (ml_message_id r) = None \<Longrightarrow> ml_status r = Pending \<Longrightarrow> ml_lease_token r = None \<Longrightarrow>
   row_ok r \<Longrightarrow> (\<And>x. x \<in> set db \<Longrightarrow> ml_sequence x < ml_sequence r) \<Longrightarrow> shape op db (db @ [r])"
  unfolding shape_def by blast

lemma with_db_shape: "shape op db (snd outcome) \<Longrightarrow> shape op db (snd (with_db ans db outcome))"
  by (cases ans) simp_all

lemma message_unique:
  "mail_ok db \<Longrightarrow> r \<in> set db \<Longrightarrow> ml_message_id r = k \<Longrightarrow> message db k = Some r"
  unfolding message_def mail_ok_def by (metis find_key_unique)

lemma message_SomeD: "message db k = Some r \<Longrightarrow> r \<in> set db \<and> ml_message_id r = k"
  by (auto simp: message_def dest: find_SomeD)

lemma fold_max_ge: "(a :: int) \<le> fold max xs a \<and> (\<forall>x \<in> set xs. x \<le> fold max xs a)"
proof (induction xs arbitrary: a)
  case (Cons y ys)
  from Cons.IH [of "max y a"] show ?case by auto
qed simp

lemma next_sequence_fresh: "x \<in> set db \<Longrightarrow> ml_sequence x < next_sequence db" "1 \<le> next_sequence db"
  using fold_max_ge [of 0 "map ml_sequence db"] by (auto simp: next_sequence_def)

lemma shape_enqueue: "shape (Enqueue_Mail mb ans now e) db (snd (enqueue_mail mb ans now e db))"
proof (cases "mb_closed mb \<or> \<not> is_ok (validate_target mb (en_source e))
    \<or> \<not> is_ok (validate_target mb (en_target e))")
  case True
  then show ?thesis
    by (auto simp: enqueue_mail_def split: sum.splits)
next
  case False
  then obtain src target where v: "validate_target mb (en_source e) = Inr src"
    "validate_target mb (en_target e) = Inr target" by (auto simp: is_ok_iff)
  show ?thesis
    using False next_sequence_fresh(1) [of _ db] next_sequence_fresh(2) [of db]
    by (auto simp: enqueue_mail_def v Let_def message_def row_ok_def
        intro!: with_db_shape shape_append split: option.split)
qed

lemma first_due_SomeD:
  assumes "first_due db uri now = Some r"
  shows "r \<in> set db" and "due uri now r"
    and "\<And>x. x \<in> set db \<Longrightarrow> due uri now x \<Longrightarrow> ml_sequence r \<le> ml_sequence x"
proof -
  obtain rs where rs: "sort_key ml_sequence (filter (due uri now) db) = r # rs"
    using assms by (auto simp: first_due_def split: list.splits)
  then have set: "set (r # rs) = set (filter (due uri now) db)" by (metis set_sort)
  then show "r \<in> set db" "due uri now r" by auto
  have "sorted (map ml_sequence (r # rs))" unfolding rs [symmetric] by simp
  then show "ml_sequence r \<le> ml_sequence x" if "x \<in> set db" "due uri now x" for x
    using that set by auto
qed

lemma first_due_None: "first_due db uri now = None \<longleftrightarrow> (\<forall>x \<in> set db. \<not> due uri now x)"
proof -
  have "first_due db uri now = None \<longleftrightarrow> sort_key ml_sequence (filter (due uri now) db) = []"
    by (auto simp: first_due_def split: list.splits)
  also have "\<dots> \<longleftrightarrow> set (sort_key ml_sequence (filter (due uri now) db)) = {}" by (simp only: set_empty)
  also have "\<dots> \<longleftrightarrow> (\<forall>x \<in> set db. \<not> due uri now x)" by auto
  finally show ?thesis .
qed

lemma shape_claim:
  assumes "mail_ok db"
  shows "shape (Claim_Mail mb ans now tok target) db (snd (claim_mail mb ans now tok target db))"
proof (cases "validate_target mb target")
  case (Inr uri)
  have "shape (Claim_Mail mb ans now tok target) db
      (update_rows (\<lambda>x. ml_message_id x = ml_message_id r) (leased_to mb now tok) db)"
    if r: "first_due db uri now = Some r" for r
  proof (rule shape_update)
    fix x assume "x \<in> set db" "ml_message_id x = ml_message_id r"
    then have "x = r"
      using assms first_due_SomeD(1) [OF r] by (auto simp: mail_ok_def dest: unique_keyD)
    then show "evolves (Claim_Mail mb ans now tok target) x (leased_to mb now tok x)"
      using first_due_SomeD(2) [OF r] by (auto simp: evolves_def same_mail_def row_ok_def due_def)
  qed
  then show ?thesis
    using Inr by (auto simp: claim_mail_def intro!: with_db_shape split: option.split)
qed (simp add: claim_mail_def)

lemma shape_settle:
  assumes ok: "mail_ok db"
    and "\<And>uri r. message db mid = Some r \<Longrightarrow> lease_matches mb tok uri now (Some r) \<Longrightarrow>
           shape op db (snd (w r))"
  shows "shape op db (snd (settle_mail mb ans now mid tok target db w))"
  using assms(2)
  by (auto simp: settle_mail_def Let_def message_def lease_matches_def intro!: with_db_shape
      split: sum.split option.split)

lemma shape_set_row:
  assumes "mail_ok db" and "message db mid = Some r" and "evolves op r (f r)"
  shows "shape op db (set_row mid f db)"
  unfolding set_row_def
  using assms message_unique [OF assms(1)] by (intro shape_update) auto

lemma shape_step:
  assumes ok: "mail_ok db"
  shows "shape op db (mail_step db op)"
proof (cases op)
  case (Renew_Mail mb ans now mid tok target)
  then show ?thesis
    by (simp add: renew_mail_def Let_def, intro shape_settle [OF ok]) (simp, erule shape_set_row [OF ok],
        auto simp: evolves_def same_mail_def row_ok_def lease_matches_def)
next
  case (Ack_Mail mb ans now mid tok target)
  then show ?thesis
    by (simp add: ack_mail_def Let_def, intro shape_settle [OF ok]) (simp, frule message_SomeD, erule shape_set_row [OF ok],
        auto simp: evolves_def same_mail_def row_ok_def lease_matches_def)
next
  case (Nack_Mail mb ans now mid tok target)
  then show ?thesis
    by (simp add: nack_mail_def Let_def, intro shape_settle [OF ok]) (simp split: sum.split, intro allI impI,
        erule shape_set_row [OF ok], auto simp: evolves_def same_mail_def row_ok_def lease_matches_def)
next
  case (Close_Mailbox mb ans now)
  then show ?thesis
    by (cases ans) (auto simp: close_mailbox_def evolves_def same_mail_def row_ok_def
        intro!: shape_update)
qed (simp_all add: shape_enqueue shape_claim [OF ok])

section \<open>Along any interleaving\<close>

lemma mail_ok_shape:
  assumes "mail_ok db" and "shape op db db'"
  shows "mail_ok db'"
  using assms(2) unfolding shape_def
proof (elim disjE exE conjE)
  fix r assume r: "db' = db @ [r]" "message db (ml_message_id r) = None" "row_ok r"
    "\<forall>x \<in> set db. ml_sequence x < ml_sequence r"
  then have "\<forall>x \<in> set db. ml_message_id x \<noteq> ml_message_id r"
    by (auto simp: message_def find_None_iff)
  with r assms(1) show ?thesis by (auto simp: mail_ok_def unique_key_append1)
next
  fix P f assume u: "db' = update_rows P f db" "\<forall>x \<in> set db. P x \<longrightarrow> evolves op x (f x)"
  have "map ml_message_id db' = map ml_message_id db" "map ml_sequence db' = map ml_sequence db"
    using u(2) by (auto simp: u(1) update_rows_def evolves_def same_mail_def)
  moreover have "\<forall>x \<in> set db'. row_ok x"
    using u(2) assms(1) by (auto simp: u(1) in_update_rows evolves_def mail_ok_def)
  ultimately show ?thesis using assms(1) by (simp add: mail_ok_def unique_key_def)
qed (use assms(1) in simp)

lemma mail_ok_step: "mail_ok db \<Longrightarrow> mail_ok (mail_step db op)"
  using shape_step mail_ok_shape by blast

lemma message_shape:
  assumes "mail_ok db" and "shape op db db'" and "message db k = Some r"
  shows "\<exists>r'. message db' k = Some r' \<and> evolves op r r'"
  using assms(2) unfolding shape_def
proof (elim disjE exE conjE)
  fix P f assume u: "db' = update_rows P f db" "\<forall>x \<in> set db. P x \<longrightarrow> evolves op x (f x)"
  have r: "r \<in> set db" "ml_message_id r = k" using assms(3) by (auto dest: message_SomeD)
  let ?r' = "if P r then f r else r"
  have "?r' \<in> set db'" using r(1) by (auto simp: u(1) in_update_rows)
  moreover have "evolves op r ?r'" using u(2) r(1) by simp
  moreover from this have "ml_message_id ?r' = k" using r(2) by (simp only: evolves_def same_mail_def)
  ultimately show ?thesis
    using message_unique [OF mail_ok_shape [OF assms(1,2)]] by blast
qed (use assms(3) in \<open>auto simp: message_def find_append\<close>)

lemma message_new:
  assumes "shape op db db'" and "message db k = None" and "message db' k = Some r"
  shows "ml_lease_token r = None"
  using assms(1) unfolding shape_def
proof (elim disjE exE conjE)
  fix P f assume u: "db' = update_rows P f db" "\<forall>x \<in> set db. P x \<longrightarrow> evolves op x (f x)"
  have "map ml_message_id db' = map ml_message_id db"
    using u(2) by (auto simp: u(1) update_rows_def evolves_def same_mail_def)
  then have "ml_message_id ` set db' = ml_message_id ` set db" by (metis list.set_map)
  moreover have "k \<notin> ml_message_id ` set db" using assms(2) by (auto simp: message_def find_None_iff)
  ultimately have "k \<notin> ml_message_id ` set db'" by simp
  then show ?thesis using message_SomeD [OF assms(3)] by blast
qed (use assms(2,3) in \<open>auto simp: message_def find_append split: if_splits\<close>)

definition mail_holder :: "mail_db \<Rightarrow> string \<Rightarrow> string option" where
  "mail_holder db k = Option.bind (message db k) ml_lease_token"

interpretation mail_leases: leased_work mail_step mail_holder mail_grants mail_ok
proof
  fix db op k t
  assume ok: "mail_ok db" and h: "mail_holder (mail_step db op) k = Some t"
  obtain r' where r': "message (mail_step db op) k = Some r'" "ml_lease_token r' = Some t"
    using h by (auto simp: mail_holder_def bind_eq_Some_conv)
  show "mail_holder db k = Some t \<or> mail_grants op k t"
  proof (cases "message db k")
    case None
    then show ?thesis using message_new [OF shape_step [OF ok] None r'(1)] r'(2) by simp
  next
    case (Some r)
    obtain r2 where "message (mail_step db op) k = Some r2" "evolves op r r2"
      using message_shape [OF ok shape_step [OF ok, of op] Some] by blast
    then show ?thesis
      using r' Some message_SomeD [OF Some] by (auto simp: evolves_def mail_holder_def)
  qed
qed (rule mail_ok_step)

lemma mail_steps_row:
  assumes "mail_ok db" and "message db k = Some r"
  shows "\<exists>r'. message (mail_steps db ops) k = Some r' \<and> same_mail r r'
     \<and> (ml_status r = Delivered \<longrightarrow> r' = r)
     \<and> (ml_status r' = Delivered \<longrightarrow> ml_status r = Delivered \<or> (\<exists>op \<in> set ops. \<exists>t. acks_under op k t))"
  using assms
proof (induction ops arbitrary: db r)
  case Nil
  then show ?case by (simp add: same_mail_def)
next
  case (Cons op ops)
  obtain r1 where r1: "message (mail_step db op) k = Some r1" "evolves op r r1"
    using message_shape [OF Cons.prems(1) shape_step [OF Cons.prems(1)] Cons.prems(2)] by blast
  obtain r' where r': "message (mail_steps (mail_step db op) ops) k = Some r'" "same_mail r1 r'"
    "ml_status r1 = Delivered \<longrightarrow> r' = r1"
    "ml_status r' = Delivered \<longrightarrow> ml_status r1 = Delivered \<or> (\<exists>op \<in> set ops. \<exists>t. acks_under op k t)"
    using Cons.IH [OF mail_ok_step [OF Cons.prems(1)] r1(1)] by blast
  have "ml_message_id r = k" using Cons.prems(2) by (auto dest: message_SomeD)
  then show ?case
    using r1(2) r' by (intro exI [of _ r']) (auto simp: evolves_def same_mail_def)
qed

text \<open>
  C39. No mail is lost or altered. Whatever any consumers do afterwards, a stored message is
  still there with the same sender, receiver, type, payload and sequence number; it becomes
  delivered only through an acknowledgement of that message, and a delivered message never
  changes again.
\<close>

theorem mail_durable:
  assumes "mail_ok db" and "message db k = Some r"
  shows "\<exists>r'. message (mail_steps db ops) k = Some r' \<and> same_mail r r'
     \<and> (ml_status r = Delivered \<longrightarrow> r' = r)
     \<and> (ml_status r' = Delivered \<longrightarrow> ml_status r = Delivered \<or> (\<exists>op \<in> set ops. \<exists>t. acks_under op k t))"
  using assms by (rule mail_steps_row)

section \<open>A concrete mailbox\<close>

definition demo_address :: agent_address where
  "demo_address = \<lparr>ad_project = [112], ad_agent = [97], ad_generation = 1\<rparr>"

definition demo_uri :: string where
  "demo_uri = ''agent://p/a/1''"

lemma demo_address_uri: "to_uri demo_address = Inr demo_uri"
  by (simp add: demo_address_def demo_uri_def to_uri_def encode_component_def surrogate_def
      utf8_char_def quote_byte_def unreserved_def int_str_def nat_str.simps char_of_eq_small)

definition demo_mailbox :: mailbox where
  "demo_mailbox = \<lparr>mb_project_id = [112], mb_consumer_id = ''c'', mb_capacity = 2, mb_lease = 30,
     mb_retry_base = 1, mb_retry_max = 60, mb_closed = False\<rparr>"

definition demo_mail :: mail_row where
  "demo_mail = \<lparr>ml_message_id = ''m'', ml_source = demo_uri, ml_target = demo_uri, ml_type = ''t'',
     ml_payload = JObj [], ml_sequence = 1, ml_status = Leased, ml_attempt = 1,
     ml_next_retry_at = None, ml_lease_owner = Some ''c'', ml_lease_token = Some ''k1'',
     ml_lease_expires_at = Some 30, ml_created_at = 0, ml_updated_at = 0\<rparr>"

lemma demo_mail_ok: "mail_ok [demo_mail]"
  by (simp add: mail_ok_def unique_key_def row_ok_def demo_mail_def)

lemma demo_target: "validate_target demo_mailbox demo_address = Inr demo_uri"
  using demo_address_uri by (simp add: validate_target_def demo_mailbox_def) (simp add: demo_address_def)

theorem mail_durable_witness:
  "map_option ml_payload (message (mail_steps [demo_mail]
     [Ack_Mail demo_mailbox Db_Ok 5 ''m'' ''k1'' demo_address, Close_Mailbox demo_mailbox Db_Ok 6]) ''m'')
   = Some (JObj [])"
proof -
  have "message [demo_mail] ''m'' = Some demo_mail" by (simp add: message_def demo_mail_def)
  from mail_durable [OF demo_mail_ok this, of "[Ack_Mail demo_mailbox Db_Ok 5 ''m'' ''k1'' demo_address,
      Close_Mailbox demo_mailbox Db_Ok 6]"]
  obtain r' where "message (mail_steps [demo_mail] [Ack_Mail demo_mailbox Db_Ok 5 ''m'' ''k1'' demo_address,
      Close_Mailbox demo_mailbox Db_Ok 6]) ''m'' = Some r'" "same_mail demo_mail r'" by blast
  moreover have "ml_payload demo_mail = JObj []" by (simp add: demo_mail_def)
  ultimately show ?thesis by (simp only: same_mail_def option.map)
qed

section \<open>Fencing\<close>

lemma not_holder_no_match:
  assumes "mail_holder db k \<noteq> Some t"
  shows "\<not> lease_matches mb t uri now (message db k)"
  using assms by (auto simp: lease_matches_def mail_holder_def split: option.splits)

lemma settle_rejected:
  assumes "mail_holder db k \<noteq> Some t"
  shows "snd (settle_mail mb ans now k t target db w) = db"
  using not_holder_no_match [OF assms]
  by (cases ans) (auto simp: settle_mail_def Let_def message_def [symmetric] split: sum.split)

text \<open>
  Lost leases are fenced. Once a consumer's token no longer holds a message, whatever the
  others do, and as long as no claim is granted under that token again, renewing,
  acknowledging or refusing the message under it changes nothing at all.
\<close>

theorem mail_fenced:
  assumes "mail_ok db" and "mail_holder db k \<noteq> Some t" and "\<forall>op \<in> set ops. \<not> mail_grants op k t"
  shows "snd (renew_mail mb ans now k t target (mail_steps db ops)) = mail_steps db ops
     \<and> snd (ack_mail mb ans now k t target (mail_steps db ops)) = mail_steps db ops
     \<and> snd (nack_mail mb ans now k t target (mail_steps db ops)) = mail_steps db ops"
  using settle_rejected [OF mail_leases.lost_forever [OF assms]]
  by (simp add: renew_mail_def ack_mail_def nack_mail_def)

theorem mail_fenced_witness:
  "snd (ack_mail demo_mailbox Db_Ok 40 ''m'' ''k0'' demo_address (mail_steps [demo_mail]
     [Claim_Mail demo_mailbox Db_Ok 30 ''k2'' demo_address]))
   = mail_steps [demo_mail] [Claim_Mail demo_mailbox Db_Ok 30 ''k2'' demo_address]"
  using mail_fenced [OF demo_mail_ok, of "''m''" "''k0''" "[Claim_Mail demo_mailbox Db_Ok 30 ''k2'' demo_address]"]
  by (simp add: mail_holder_def message_def demo_mail_def)

section \<open>Claiming\<close>

lemma message_set_row:
  assumes "message db k = Some r" and "ml_message_id (f r) = ml_message_id r"
    and "\<And>x. ml_message_id (f x) = ml_message_id x"
  shows "message (set_row k f db) k = Some (f r)"
  using assms message_SomeD [OF assms(1)] by (simp add: message_def set_row_def find_update_rows)

text \<open>
  A claim takes the oldest deliverable message of the target. If any message is due, the
  claim leases the one with the smallest sequence number among them, under its token, and that
  message is due again exactly when the lease has run out; if none is due the answer is empty
  and nothing changes.
\<close>

theorem claim_oldest_due:
  assumes "mail_ok db" and "validate_target mb target = Inr uri" and "\<not> mb_closed mb"
    and "claim_mail mb Db_Ok now tok target db = (res, db')"
  shows "if \<exists>x \<in> set db. due uri now x
     then \<exists>r \<in> set db. due uri now r \<and> (\<forall>x \<in> set db. due uri now x \<longrightarrow> ml_sequence r \<le> ml_sequence x)
       \<and> res = row_result ''claimed'' (Some (leased_to mb now tok r)) (Some tok) (Some (now + mb_lease mb)) None
       \<and> message db' (ml_message_id r) = Some (leased_to mb now tok r)
       \<and> (\<forall>t. due uri t (leased_to mb now tok r) = (now + mb_lease mb \<le> t))
     else db' = db \<and> res = Inr (status_only ''empty'')"
proof (cases "first_due db uri now")
  case None
  with assms have "db' = db \<and> res = Inr (status_only ''empty'')" by (simp add: claim_mail_def)
  moreover have "\<not> (\<exists>x \<in> set db. due uri now x)" using None by (simp add: first_due_None)
  ultimately show ?thesis by simp
next
  case (Some r)
  note r = first_due_SomeD [OF Some]
  have "db' = set_row (ml_message_id r) (leased_to mb now tok) db"
    and res: "res = row_result ''claimed'' (Some (leased_to mb now tok r)) (Some tok) (Some (now + mb_lease mb)) None"
    using assms Some by (auto simp: claim_mail_def set_row_def)
  then have "message db' (ml_message_id r) = Some (leased_to mb now tok r)"
    using message_unique [OF assms(1) r(1)] by (simp add: message_set_row)
  moreover have "due uri t (leased_to mb now tok r) = (now + mb_lease mb \<le> t)" for t
    using r(2) by (auto simp: due_def)
  ultimately show ?thesis using r res by auto
qed

theorem claim_oldest_due_witness:
  "mail_holder (snd (claim_mail demo_mailbox Db_Ok 30 ''k2'' demo_address [demo_mail])) ''m'' = Some ''k2''"
proof -
  obtain res db' where cl: "claim_mail demo_mailbox Db_Ok 30 ''k2'' demo_address [demo_mail] = (res, db')"
    by (cases "claim_mail demo_mailbox Db_Ok 30 ''k2'' demo_address [demo_mail]")
  have "\<not> mb_closed demo_mailbox" by (simp add: demo_mailbox_def)
  moreover have "due demo_uri 30 demo_mail" by (simp add: due_def demo_mail_def)
  ultimately have "message db' ''m'' = Some (leased_to demo_mailbox 30 ''k2'' demo_mail)"
    using claim_oldest_due [OF demo_mail_ok demo_target _ cl] by (auto simp: demo_mail_def)
  then show ?thesis by (simp add: cl mail_holder_def)
qed

section \<open>Refusing\<close>

lemma mail_backoff_range:
  assumes "0 < mb_retry_base mb" and "mail_backoff mb a = Inr d"
  shows "min (mb_retry_base mb) (mb_retry_max mb) \<le> d \<and> d \<le> mb_retry_max mb"
proof -
  have "mb_retry_base mb * 1 \<le> mb_retry_base mb * 2 ^ n" for n :: nat
    using assms(1) by (intro mult_left_mono) simp_all
  then have "min (mb_retry_base mb) (mb_retry_max mb) \<le> min (mb_retry_base mb * 2 ^ n) (mb_retry_max mb)"
    for n :: nat by (simp add: min_le_iff_disj)
  with assms(2) show ?thesis by (auto simp: mail_backoff_def Let_def simp del: min_le_iff_disj split: if_splits)
qed

text \<open>
  Refusing a held message puts it back for a retry: it waits between the base delay and
  the longest delay and is due exactly from then on. This holds for the first 1024 attempts;
  from attempt 1025 on the delay overflows, the refusal raises and the message stays leased.
\<close>

theorem nack_schedules_retry:
  assumes "mail_ok db" and "validate_target mb target = Inr uri" and "message db k = Some r"
    and "lease_matches mb tok uri now (Some r)" and "0 < mb_retry_base mb"
  shows "if ml_attempt r \<le> 1024
     then \<exists>d r'. min (mb_retry_base mb) (mb_retry_max mb) \<le> d \<and> d \<le> mb_retry_max mb
        \<and> message (snd (nack_mail mb Db_Ok now k tok target db)) k = Some r'
        \<and> same_mail r r' \<and> ml_lease_token r' = None \<and> (\<forall>t. due uri t r' = (now + d \<le> t))
     else nack_mail mb Db_Ok now k tok target db = (Inl (BuiltinError ''OverflowError''), db)"
proof -
  have nack: "nack_mail mb Db_Ok now k tok target db =
      (case mail_backoff mb (ml_attempt r) of
         Inl err \<Rightarrow> (Inl err, db)
       | Inr delay \<Rightarrow>
           (let f = (\<lambda>x. x\<lparr>ml_status := Retry_Wait, ml_next_retry_at := Some (now + delay),
                          ml_lease_owner := None, ml_lease_token := None,
                          ml_lease_expires_at := None, ml_updated_at := now\<rparr>)
            in (row_result ''nacked'' (Some (f r)) None None (Some (now + delay)), set_row k f db)))"
    using assms(2-4) by (simp add: nack_mail_def settle_mail_def message_def)
  show ?thesis
  proof (cases "mail_backoff mb (ml_attempt r)")
    case (Inl e)
    then have "\<not> ml_attempt r \<le> 1024" "e = BuiltinError ''OverflowError''"
      by (auto simp: mail_backoff_def Let_def split: if_splits)
    with nack Inl show ?thesis by simp
  next
    case (Inr d)
    let ?f = "\<lambda>x. x\<lparr>ml_status := Retry_Wait, ml_next_retry_at := Some (now + d), ml_lease_owner := None,
        ml_lease_token := None, ml_lease_expires_at := None, ml_updated_at := now\<rparr>"
    have "ml_attempt r \<le> 1024" using Inr by (auto simp: mail_backoff_def Let_def split: if_splits)
    moreover have "message (set_row k ?f db) k = Some (?f r)" by (rule message_set_row [OF assms(3)]) simp_all
    moreover have "same_mail r (?f r)" by (simp add: same_mail_def)
    moreover have "due uri t (?f r) = (now + d \<le> t)" for t
      using assms(4) by (auto simp: due_def lease_matches_def)
    ultimately show ?thesis
      using nack Inr mail_backoff_range [OF assms(5) Inr] by (auto simp: Let_def)
  qed
qed

theorem nack_schedules_retry_witness:
  "\<exists>d r'. 1 \<le> d \<and> d \<le> 60
     \<and> message (snd (nack_mail demo_mailbox Db_Ok 5 ''m'' ''k1'' demo_address [demo_mail])) ''m'' = Some r'
     \<and> due demo_uri (5 + d) r'"
proof -
  have "message [demo_mail] ''m'' = Some demo_mail"
    "lease_matches demo_mailbox ''k1'' demo_uri 5 (Some demo_mail)" "0 < mb_retry_base demo_mailbox"
    by (simp_all add: message_def demo_mail_def demo_mailbox_def lease_matches_def)
  from nack_schedules_retry [OF demo_mail_ok demo_target this] show ?thesis
    by (auto simp: demo_mail_def demo_mailbox_def)
qed

section \<open>Backpressure\<close>

definition undelivered :: "mail_db \<Rightarrow> nat" where
  "undelivered db = rowcount (\<lambda>r. ml_status r \<noteq> Delivered) db"

fun capacity_of :: "mail_op \<Rightarrow> int" where
  "capacity_of (Enqueue_Mail mb _ _ _) = mb_capacity mb"
| "capacity_of _ = 0"

lemma undelivered_update:
  "(\<forall>x \<in> set db. P x \<longrightarrow> evolves op x (f x)) \<Longrightarrow> undelivered (update_rows P f db) \<le> undelivered db"
  by (induction db) (auto simp: undelivered_def rowcount_def evolves_def)

lemma length_step: "(\<And>mb ans now e. op \<noteq> Enqueue_Mail mb ans now e) \<Longrightarrow> length (mail_step db op) = length db"
proof (cases op)
  case (Claim_Mail mb ans now tok target)
  then show ?thesis by (cases ans) (auto simp: claim_mail_def split: sum.split option.split)
next
  case (Renew_Mail mb ans now k tok target)
  then show ?thesis
    by (cases ans) (auto simp: renew_mail_def settle_mail_def set_row_def Let_def split: sum.split option.split)
next
  case (Ack_Mail mb ans now k tok target)
  then show ?thesis
    by (cases ans) (auto simp: ack_mail_def settle_mail_def set_row_def Let_def split: sum.split option.split)
next
  case (Nack_Mail mb ans now k tok target)
  then show ?thesis
    by (cases ans) (auto simp: nack_mail_def settle_mail_def set_row_def Let_def split: sum.split option.split)
next
  case (Close_Mailbox mb ans now)
  then show ?thesis by (cases ans) (auto simp: close_mailbox_def)
qed auto

lemma undelivered_step:
  assumes "mail_ok db"
  shows "int (undelivered (mail_step db op)) \<le> max (int (undelivered db)) (capacity_of op)"
proof (cases "\<exists>mb ans now e. op = Enqueue_Mail mb ans now e")
  case True
  then obtain mb ans now e where op: "op = Enqueue_Mail mb ans now e" by blast
  show ?thesis
    unfolding op
    by (cases ans) (auto simp: enqueue_mail_def undelivered_def Let_def rowcount_def
        split: sum.split option.split)
next
  case False
  then have "length (mail_step db op) = length db" by (intro length_step) blast
  then have "mail_step db op \<noteq> db @ [r]" for r by (metis length_append_singleton n_not_Suc_n)
  then have "mail_step db op = db \<or> (\<exists>P f. mail_step db op = update_rows P f db
      \<and> (\<forall>x \<in> set db. P x \<longrightarrow> evolves op x (f x)))"
    using shape_step [OF assms, of op] by (simp add: shape_def)
  then have "undelivered (mail_step db op) \<le> undelivered db"
    using undelivered_update by (metis order_refl)
  then show ?thesis by simp
qed

text \<open>
  The mail database stays bounded. Whatever the consumers do, the number of messages that
  are not delivered never exceeds the largest capacity any sender works with, unless it already
  did at the start.
\<close>

theorem mail_bounded:
  assumes "mail_ok db" and "list_all (\<lambda>op. capacity_of op \<le> c) ops"
  shows "int (undelivered (mail_steps db ops)) \<le> max (int (undelivered db)) c"
  using assms
proof (induction ops arbitrary: db)
  case (Cons op ops)
  have "int (undelivered (mail_steps (mail_step db op) ops)) \<le> max (int (undelivered (mail_step db op))) c"
    using Cons.prems by (intro Cons.IH mail_ok_step) simp_all
  with undelivered_step [OF Cons.prems(1), of op] Cons.prems(2) show ?case by (auto simp: max_def split: if_splits)
qed simp

definition demo_letter :: mail_envelope where
  "demo_letter = \<lparr>en_message_id = ''x'', en_type = ''t'', en_source = demo_address, en_target = demo_address,
     en_payload = JNull, en_sequence = None, en_attempt = 0, en_created_at = None, en_updated_at = None\<rparr>"

theorem mail_bounded_witness:
  "undelivered (mail_steps [demo_mail] [Enqueue_Mail demo_mailbox Db_Ok 1 demo_letter,
     Enqueue_Mail demo_mailbox Db_Ok 2 (demo_letter\<lparr>en_message_id := ''y''\<rparr>)]) \<le> 2"
  using mail_bounded [OF demo_mail_ok, of 2 "[Enqueue_Mail demo_mailbox Db_Ok 1 demo_letter,
     Enqueue_Mail demo_mailbox Db_Ok 2 (demo_letter\<lparr>en_message_id := ''y''\<rparr>)]"]
  by (simp add: demo_mailbox_def undelivered_def rowcount_def demo_mail_def)


section \<open>The mailbox as the sink of an outbox\<close>

type_synonym delivery = "mailbox \<times> db_answer \<times> int \<times> mail_envelope"

definition mail_content :: "mail_db \<Rightarrow> string \<Rightarrow> (json \<times> string \<times> string) option" where
  "mail_content db k = map_option (\<lambda>r. (ml_payload r, ml_target r, ml_type r)) (message db k)"

definition mail_deliver :: "delivery \<Rightarrow> mail_db \<Rightarrow> bool \<times> mail_db" where
  "mail_deliver = (\<lambda>(mb, ans, now, e) db. (case enqueue_mail mb ans now e db of
     (Inl _, db') \<Rightarrow> (False, db') | (Inr res, db') \<Rightarrow> (re_status res \<in> {''inserted'', ''existing''}, db')))"

definition delivery_key :: "delivery \<Rightarrow> string" where
  "delivery_key = (\<lambda>(mb, ans, now, e). en_message_id e)"

definition delivery_body :: "delivery \<Rightarrow> json \<times> string \<times> string" where
  "delivery_body = (\<lambda>(mb, ans, now, e). (en_payload e, projr (to_uri (en_target e)), en_type e))"

lemma mail_deliver_db: "snd (mail_deliver (mb, ans, now, e) db) = snd (enqueue_mail mb ans now e db)"
  by (simp add: mail_deliver_def case_prod_beta split: prod.split sum.split)

lemma row_result_status: "row_result st row token expires retry = Inr res \<Longrightarrow> re_status res = st"
  by (auto simp: row_result_def bind_result_Inr)

lemma status_only_status [simp]: "re_status (status_only st) = st"
  by (simp add: status_only_def)

lemma validate_target_uri: "validate_target mb a = Inr uri \<Longrightarrow> to_uri a = Inr uri"
  by (simp add: validate_target_def split: if_splits)

lemma enqueue_new:
  assumes "snd (enqueue_mail mb ans now e db) \<noteq> db"
  shows "\<exists>r. snd (enqueue_mail mb ans now e db) = db @ [r] \<and> ml_message_id r = en_message_id e
     \<and> ml_payload r = en_payload e \<and> to_uri (en_target e) = Inr (ml_target r) \<and> ml_type r = en_type e
     \<and> to_uri (en_source e) = Inr (ml_source r) \<and> ml_status r = Pending"
  using assms
  by (cases ans) (auto simp: enqueue_mail_def Let_def dest: validate_target_uri split: sum.splits option.splits if_splits)

lemma enqueue_accepted:
  assumes "enqueue_mail mb ans now e db = (Inr res, db')" and "re_status res \<in> {''inserted'', ''existing''}"
  shows "message db' (en_message_id e) \<noteq> None"
  using assms
  by (cases ans) (auto simp: enqueue_mail_def Let_def message_def find_append
      split: sum.splits option.splits if_splits)

interpretation mail_sink: outbox_sink mail_deliver mail_content delivery_key delivery_body mail_ok
proof
  fix db and d :: delivery and k c
  assume ok: "mail_ok db"
  obtain mb ans now e where d: "d = (mb, ans, now, e)" by (cases d) auto
  note shape = shape_enqueue [of mb ans now e db]
  show "mail_ok (snd (mail_deliver d db))"
    using mail_ok_shape [OF ok shape] by (simp add: d mail_deliver_db)
  show "mail_content (snd (mail_deliver d db)) k = Some c" if "mail_content db k = Some c"
    using that message_shape [OF ok shape] by (fastforce simp: d mail_deliver_db mail_content_def evolves_def same_mail_def)
  show "k = delivery_key d \<and> c = delivery_body d"
    if none: "mail_content db k = None" and some: "mail_content (snd (mail_deliver d db)) k = Some c"
  proof -
    have "snd (enqueue_mail mb ans now e db) \<noteq> db" using none some by (auto simp: d mail_deliver_db)
    from enqueue_new [OF this] none some show ?thesis
      by (auto simp: d mail_deliver_db mail_content_def delivery_key_def delivery_body_def message_def find_append
          split: if_splits)
  qed
  show "mail_content (snd (mail_deliver d db)) (delivery_key d) \<noteq> None" if acc: "fst (mail_deliver d db)"
  proof -
    obtain res db' where "enqueue_mail mb ans now e db = (Inr res, db')" "re_status res \<in> {''inserted'', ''existing''}"
      using acc unfolding d mail_deliver_def
      by (cases "enqueue_mail mb ans now e db"; cases "fst (enqueue_mail mb ans now e db)") auto
    with enqueue_accepted show ?thesis by (simp add: d mail_deliver_db mail_content_def delivery_key_def)
  qed
qed

lemma mail_content_step:
  assumes "mail_ok db" and "mail_content db k = Some c"
  shows "mail_content (mail_step db op) k = Some c"
  using assms(2) message_shape [OF assms(1) shape_step [OF assms(1), of op]]
  by (fastforce simp: mail_content_def evolves_def same_mail_def)

lemma mail_content_new:
  assumes ok: "mail_ok db" and "mail_content db k = None" and "mail_content (mail_step db op) k \<noteq> None"
  shows "\<exists>mb ans now e. op = Enqueue_Mail mb ans now e \<and> en_message_id e = k"
proof (cases "\<exists>mb ans now e. op = Enqueue_Mail mb ans now e")
  case True
  then obtain mb ans now e where op: "op = Enqueue_Mail mb ans now e" by blast
  obtain c where "mail_content (snd (mail_deliver (mb, ans, now, e) db)) k = Some c"
    using assms(3) by (auto simp: op mail_deliver_db)
  from mail_sink.added [OF ok assms(2) this] op show ?thesis by (auto simp: delivery_key_def)
next
  case False
  then have "length (mail_step db op) = length db" by (intro length_step) blast
  then have "mail_step db op \<noteq> db @ [r]" for r by (metis length_append_singleton n_not_Suc_n)
  then obtain P f where "mail_step db op = db \<or> mail_step db op = update_rows P f db
      \<and> (\<forall>x \<in> set db. P x \<longrightarrow> evolves op x (f x))"
    using shape_step [OF ok, of op] by (auto simp: shape_def)
  then have "map ml_message_id (mail_step db op) = map ml_message_id db"
    by (auto simp: update_rows_def evolves_def same_mail_def)
  then have "ml_message_id ` set (mail_step db op) = ml_message_id ` set db" by (metis list.set_map)
  moreover have "k \<notin> ml_message_id ` set db"
    using assms(2) by (auto simp: mail_content_def message_def find_None_iff)
  moreover have "k \<in> ml_message_id ` set (mail_step db op)"
    using assms(3) message_SomeD by (fastforce simp: mail_content_def)
  ultimately show ?thesis by simp
qed

section \<open>Sending succeeds\<close>

text \<open>
  When every stored message decodes and there is room, an open and working mailbox takes a message
  between valid addresses.
\<close>

definition mail_decodes :: "mail_db \<Rightarrow> bool" where
  "mail_decodes mail \<longleftrightarrow> (\<forall>r \<in> set mail. is_ok (from_storage r))"

lemma row_result_ok: "is_ok (from_storage r) \<Longrightarrow> is_ok (row_result st (Some r) token expires retry)"
  by (cases "from_storage r") (simp_all add: row_result_def)

lemma enqueue_delivers:
  assumes "\<not> mb_closed mb" and src: "validate_target mb (en_source env) = Inr su" "valid_address (en_source env)"
    and tgt: "validate_target mb (en_target env) = Inr tu" "valid_address (en_target env)"
    and "en_message_id env \<noteq> []" and "en_type env \<noteq> []" and mail: "mail_decodes mail"
    and room: "int (undelivered mail) < mb_capacity mb"
  shows "\<exists>res mail'. enqueue_mail mb Db_Ok now env mail = (Inr res, mail') \<and> re_status res \<in> {''inserted'', ''existing''}
     \<and> mail_decodes mail' \<and> undelivered mail' \<le> Suc (undelivered mail)"
proof (cases "find (\<lambda>r. ml_message_id r = en_message_id env) mail")
  case (Some r)
  then have "is_ok (from_storage r)" using mail by (auto simp: mail_decodes_def dest: find_SomeD)
  then obtain res where "row_result ''existing'' (Some r) None None None = Inr res"
    using row_result_ok [of r "''existing''" None None None] by (auto simp: is_ok_iff)
  with assms Some row_result_status [OF this] show ?thesis by (simp add: enqueue_mail_def)
next
  case None
  let ?r = "\<lparr>ml_message_id = en_message_id env, ml_source = su, ml_target = tu, ml_type = en_type env,
      ml_payload = en_payload env, ml_sequence = next_sequence mail, ml_status = Pending, ml_attempt = 0,
      ml_next_retry_at = None, ml_lease_owner = None, ml_lease_token = None, ml_lease_expires_at = None,
      ml_created_at = now, ml_updated_at = now\<rparr>"
  have "parse_address su = Inr (en_source env)" "parse_address tu = Inr (en_target env)"
    using parse_to_uri validate_target_uri src tgt by blast+
  then have fs: "is_ok (from_storage ?r)"
    using assms(6,7) next_sequence_fresh(2) [of mail] by (simp add: from_storage_def make_envelope_def)
  then obtain res where "row_result ''inserted'' (Some ?r) None None None = Inr res"
    using row_result_ok [of ?r "''inserted''" None None None] by (auto simp: is_ok_iff)
  moreover have "\<not> mb_capacity mb \<le> int (rowcount (\<lambda>r. ml_status r \<noteq> Delivered) mail)"
    using room by (simp add: undelivered_def)
  ultimately have "enqueue_mail mb Db_Ok now env mail = (Inr res, mail @ [?r])" "re_status res = ''inserted''"
    using assms None row_result_status by (simp_all add: enqueue_mail_def Let_def)
  with fs mail show ?thesis by (auto simp: mail_decodes_def undelivered_def rowcount_def)
qed

end
