(* ===== verification/Execution_Properties.thy ===== *)
theory Execution_Properties
  imports Node_Execution Mailbox_Properties
begin

text \<open>
  Node executions end once and their completion is never lost: the invariant of the three
  tables, the contract of the sink the outbox is forwarded to, provided by the persistent
  mailbox, and the runs of the two databases together, with a forwarder that may stop anywhere.
\<close>

section \<open>Well-formed tables\<close>

definition wait_of :: "node_execution \<Rightarrow> wait_signal" where
  "wait_of e = \<lparr>ws_wait_id = ne_wait_id e, ws_execution_id = ne_execution_id e, ws_node_id = ne_node_id e,
     ws_state = ne_state e, ws_phase = ne_phase e, ws_revision = ne_revision e,
     ws_outcome = ne_outcome e, ws_result_ref = ne_result_ref e\<rparr>"

abbreviation view_of :: "node_execution \<Rightarrow> execution_view" where
  "view_of e \<equiv> execution_view (wait_of e) e"

definition announces :: "node_execution \<Rightarrow> outbox_row \<Rightarrow> bool" where
  "announces e r \<longleftrightarrow> ne_state e = Exec_Ended \<and> ob_wait_id r = ne_wait_id e
     \<and> ob_execution_id r = ne_execution_id e \<and> ob_owner_address r = ne_owner_address e
     \<and> ob_message_id r = completion_message_id (ne_wait_id e)
     \<and> (\<exists>out. ne_outcome e = Some out \<and> ob_payload r = completion_payload (view_of e) out (ne_result_ref e))"

definition exec_ok :: "exec_db \<Rightarrow> bool" where
  "exec_ok db \<longleftrightarrow> xd_waits db = map wait_of (xd_executions db)
     \<and> unique_key ne_execution_id (xd_executions db) \<and> unique_key ne_wait_id (xd_executions db)
     \<and> unique_key ne_node_id (filter (\<lambda>e. ne_state e = Exec_Waiting) (xd_executions db))
     \<and> unique_key ob_wait_id (xd_outbox db)
     \<and> (\<forall>r \<in> set (xd_outbox db). \<exists>e \<in> set (xd_executions db). announces e r)
     \<and> (\<forall>e \<in> set (xd_executions db). ne_state e = Exec_Ended \<longrightarrow>
          (\<exists>r \<in> set (xd_outbox db). ob_wait_id r = ne_wait_id e))"

lemma exec_okD:
  assumes "exec_ok db"
  shows "xd_waits db = map wait_of (xd_executions db)"
    and "unique_key ne_execution_id (xd_executions db)" and "unique_key ne_wait_id (xd_executions db)"
    and "unique_key ne_node_id (filter (\<lambda>e. ne_state e = Exec_Waiting) (xd_executions db))"
    and "unique_key ob_wait_id (xd_outbox db)"
    and "\<And>r. r \<in> set (xd_outbox db) \<Longrightarrow> \<exists>e \<in> set (xd_executions db). announces e r"
    and "\<And>e. e \<in> set (xd_executions db) \<Longrightarrow> ne_state e = Exec_Ended \<Longrightarrow>
          \<exists>r \<in> set (xd_outbox db). ob_wait_id r = ne_wait_id e"
  using assms by (auto simp: exec_ok_def)

lemma concat_if: "concat (map (\<lambda>x. if P x then [g x] else []) xs) = map g (filter P xs)"
  by (induction xs) auto

lemma joined_ok:
  assumes "exec_ok db"
  shows "joined db = map (\<lambda>e. (wait_of e, e)) (xd_executions db)"
proof -
  let ?E = "xd_executions db"
  have "map (\<lambda>e. (w, e)) (filter (\<lambda>e. ne_execution_id e = ws_execution_id w) ?E) = [(w, e)]"
    if "e \<in> set ?E" "w = wait_of e" for w e
    using filter_key_unique [OF exec_okD(2) [OF assms] that(1)] that(2) by (simp add: wait_of_def)
  then have "concat (map ((\<lambda>w. map (\<lambda>e. (w, e)) (filter (\<lambda>e. ne_execution_id e = ws_execution_id w) ?E)) \<circ> wait_of) ?E)
      = concat (map (\<lambda>e. [(wait_of e, e)]) ?E)"
    by (intro arg_cong [where f = concat] map_cong) simp_all
  then show ?thesis
    by (simp add: joined_def concat_if exec_okD(1) [OF assms] o_def)
qed

lemma fetch_ok:
  assumes "exec_ok db"
  shows "fetch_execution P db = map_option view_of (find (\<lambda>e. P (wait_of e, e)) (xd_executions db))"
proof -
  have "find P (map (\<lambda>e. (wait_of e, e)) xs) = map_option (\<lambda>e. (wait_of e, e)) (find (\<lambda>e. P (wait_of e, e)) xs)"
    for xs by (induction xs) auto
  then show ?thesis
    by (simp add: fetch_execution_def joined_ok [OF assms] option.map_comp o_def)
qed

lemma read_ok:
  assumes "exec_ok db"
  shows "read_execution w db = map_option view_of (find (\<lambda>e. ne_wait_id e = w) (xd_executions db))"
  by (simp add: read_execution_def fetch_ok [OF assms] wait_of_def)

lemma read_SomeD:
  assumes "exec_ok db" and "read_execution w db = Some v"
  shows "\<exists>e \<in> set (xd_executions db). ne_wait_id e = w \<and> v = view_of e"
  using assms(2) by (auto simp: read_ok [OF assms(1)] dest: find_SomeD)

lemma read_member:
  assumes "exec_ok db" and "e \<in> set (xd_executions db)"
  shows "read_execution (ne_wait_id e) db = Some (view_of e)"
  by (simp add: read_ok [OF assms(1)] find_key_unique [OF exec_okD(3) [OF assms(1)] assms(2)])

lemma view_simps [simp]:
  "ev_wait_id (view_of e) = ne_wait_id e" "ev_execution_id (view_of e) = ne_execution_id e"
  "ev_node_id (view_of e) = ne_node_id e" "ev_owner_address (view_of e) = ne_owner_address e"
  "ev_state (view_of e) = ne_state e" "ev_phase (view_of e) = ne_phase e"
  "ev_revision (view_of e) = ne_revision e" "ev_outcome (view_of e) = ne_outcome e"
  "ev_result_ref (view_of e) = ne_result_ref e"
  by (simp_all add: execution_view_def wait_of_def)

lemma exec_ok_empty: "exec_ok \<lparr>xd_executions = [], xd_waits = [], xd_outbox = []\<rparr>"
  by (simp add: exec_ok_def unique_key_def)

section \<open>Creating\<close>

abbreviation add_execution :: "node_execution \<Rightarrow> exec_db \<Rightarrow> exec_db" where
  "add_execution e db \<equiv> db\<lparr>xd_executions := xd_executions db @ [e], xd_waits := xd_waits db @ [wait_of e]\<rparr>"

lemma exec_ok_add:
  assumes "exec_ok db" and "ne_state e = Exec_Waiting"
    and "\<forall>x \<in> set (xd_executions db). ne_execution_id x \<noteq> ne_execution_id e \<and> ne_wait_id x \<noteq> ne_wait_id e
           \<and> (ne_node_id x = ne_node_id e \<longrightarrow> ne_state x \<noteq> Exec_Waiting)"
  shows "exec_ok (add_execution e db)"
  using assms by (auto simp: exec_ok_def unique_key_append1)

lemma create_cases:
  assumes ok: "exec_ok db" and new: "create_node_execution x w now node owner db = Inr (v, db')"
  obtains (reused) e where "db' = db" "e \<in> set (xd_executions db)" "ne_node_id e = node"
      "ne_state e = Exec_Waiting" "v = view_of e"
  | (created) e where "db' = add_execution e db" "exec_ok db'" "v = view_of e" "ne_execution_id e = x" "ne_wait_id e = w"
      "ne_node_id e = node" "ne_owner_address e = owner" "ne_state e = Exec_Waiting" "ne_outcome e = None"
      "\<forall>y \<in> set (xd_executions db). ne_node_id y = node \<longrightarrow> ne_state y = Exec_Ended"
      "\<forall>y \<in> set (xd_executions db). ne_wait_id y \<noteq> w"
proof (cases "fetch_execution (\<lambda>(w, e). ne_node_id e = node \<and> ne_state e = Exec_Waiting) db")
  case (Some u)
  then obtain e where "find (\<lambda>e. ne_node_id e = node \<and> ne_state e = Exec_Waiting) (xd_executions db) = Some e"
    "u = view_of e" by (auto simp: fetch_ok [OF ok])
  with Some new show thesis by (intro reused [of e]) (auto simp: create_node_execution_def dest: find_SomeD)
next
  case None
  let ?e = "\<lparr>ne_execution_id = x, ne_wait_id = w, ne_node_id = node, ne_owner_address = owner,
     ne_state = Exec_Waiting, ne_phase = ''queued'', ne_revision = 1, ne_outcome = None,
     ne_result_ref = None, ne_created_at = now\<rparr>"
  have wait: "wait_of ?e = \<lparr>ws_wait_id = w, ws_execution_id = x, ws_node_id = node,
     ws_state = Exec_Waiting, ws_phase = ''queued'', ws_revision = 1, ws_outcome = None, ws_result_ref = None\<rparr>"
    by (simp add: wait_of_def)
  have fresh: "\<not> ((\<exists>e \<in> set (xd_executions db). ne_execution_id e = x \<or> ne_wait_id e = w
       \<or> (ne_node_id e = node \<and> ne_state e = Exec_Waiting))
     \<or> (\<exists>y \<in> set (xd_waits db). ws_wait_id y = w \<or> ws_execution_id y = x))"
  proof
    assume "(\<exists>e \<in> set (xd_executions db). ne_execution_id e = x \<or> ne_wait_id e = w
         \<or> (ne_node_id e = node \<and> ne_state e = Exec_Waiting))
       \<or> (\<exists>y \<in> set (xd_waits db). ws_wait_id y = w \<or> ws_execution_id y = x)"
    with new None show False by (simp only: create_node_execution_def if_True option.case) simp
  qed
  then have ok': "exec_ok (add_execution ?e db)" by (intro exec_ok_add [OF ok]) auto
  have "read_execution w (add_execution ?e db) = Some (view_of ?e)"
    using read_member [OF ok', of ?e] by simp
  then have "v = view_of ?e" "db' = add_execution ?e db"
    using new None fresh by (auto simp: create_node_execution_def Let_def wait)
  then show thesis
  proof (intro created)
    show "\<forall>y \<in> set (xd_executions db). ne_node_id y = node \<longrightarrow> ne_state y = Exec_Ended"
      using fresh exec_state.exhaust by blast
  qed (use ok' fresh in auto)
qed

section \<open>Completing\<close>

definition ended_as :: "string \<Rightarrow> string \<Rightarrow> string option \<Rightarrow> node_execution \<Rightarrow> node_execution" where
  "ended_as phase outcome result_ref e =
     e\<lparr>ne_state := Exec_Ended, ne_phase := phase, ne_outcome := Some outcome, ne_result_ref := result_ref\<rparr>"

definition announcement :: "int \<Rightarrow> string \<Rightarrow> string option \<Rightarrow> node_execution \<Rightarrow> outbox_row" where
  "announcement now outcome result_ref e =
     \<lparr>ob_wait_id = ne_wait_id e, ob_execution_id = ne_execution_id e, ob_owner_address = ne_owner_address e,
      ob_message_id = completion_message_id (ne_wait_id e),
      ob_payload = completion_payload (view_of e) outcome result_ref,
      ob_state = Outbox_Pending, ob_attempt = 0, ob_created_at = now\<rparr>"

abbreviation complete_row :: "int \<Rightarrow> string \<Rightarrow> string \<Rightarrow> string option \<Rightarrow> node_execution \<Rightarrow> exec_db \<Rightarrow> exec_db" where
  "complete_row now phase outcome result_ref e db \<equiv> db\<lparr>
     xd_executions := update_rows (\<lambda>x. x = e) (ended_as phase outcome result_ref) (xd_executions db),
     xd_waits := map wait_of (update_rows (\<lambda>x. x = e) (ended_as phase outcome result_ref) (xd_executions db)),
     xd_outbox := xd_outbox db @ [announcement now outcome result_ref e]\<rparr>"

lemma update_rows_cong:
  "(\<And>r. r \<in> set rows \<Longrightarrow> P r = Q r) \<Longrightarrow> update_rows P f rows = update_rows Q f rows"
  by (induction rows) auto

lemma update_rows_map:
  "(\<And>r. r \<in> set rows \<Longrightarrow> P (g r) = Q r \<and> (Q r \<longrightarrow> f (g r) = g (h r))) \<Longrightarrow>
   update_rows P f (map g rows) = map g (update_rows Q h rows)"
  by (induction rows) auto

lemma end_execution_ok:
  assumes ok: "exec_ok db" and e: "e \<in> set (xd_executions db)" "ne_state e = Exec_Waiting"
  shows "end_execution (ne_execution_id e) (ne_wait_id e) phase outcome result_ref db = db\<lparr>
     xd_executions := update_rows (\<lambda>x. x = e) (ended_as phase outcome result_ref) (xd_executions db),
     xd_waits := map wait_of (update_rows (\<lambda>x. x = e) (ended_as phase outcome result_ref) (xd_executions db))\<rparr>"
proof -
  let ?g = "ended_as phase outcome result_ref"
  have "(ne_execution_id x = ne_execution_id e \<and> ne_state x = Exec_Waiting) = (x = e)"
    if "x \<in> set (xd_executions db)" for x
    using unique_keyD [OF exec_okD(2) [OF ok] that e(1)] e(2) by auto
  then have "update_rows (\<lambda>x. ne_execution_id x = ne_execution_id e \<and> ne_state x = Exec_Waiting) ?g (xd_executions db)
      = update_rows (\<lambda>x. x = e) ?g (xd_executions db)" by (rule update_rows_cong)
  moreover have "(ne_wait_id x = ne_wait_id e \<and> ne_state x = Exec_Waiting) = (x = e)"
    if "x \<in> set (xd_executions db)" for x
    using unique_keyD [OF exec_okD(3) [OF ok] that e(1)] e(2) by auto
  then have "update_rows (\<lambda>w. ws_wait_id w = ne_wait_id e \<and> ws_state w = Exec_Waiting)
       (\<lambda>w. w\<lparr>ws_state := Exec_Ended, ws_phase := phase, ws_outcome := Some outcome, ws_result_ref := result_ref\<rparr>)
       (map wait_of (xd_executions db)) = map wait_of (update_rows (\<lambda>x. x = e) ?g (xd_executions db))"
    by (intro update_rows_map) (auto simp: wait_of_def ended_as_def)
  ultimately show ?thesis
    by (simp add: end_execution_def exec_okD(1) [OF ok] ended_as_def [abs_def])
qed

lemma outbox_fresh:
  assumes ok: "exec_ok db" and e: "e \<in> set (xd_executions db)" "ne_state e = Exec_Waiting" and r: "r \<in> set (xd_outbox db)"
  shows "ob_wait_id r \<noteq> ne_wait_id e" and "ob_message_id r \<noteq> completion_message_id (ne_wait_id e)"
proof -
  obtain x where x: "x \<in> set (xd_executions db)" "announces x r" using exec_okD(6) [OF ok r] by blast
  then have "x \<noteq> e" using e(2) by (auto simp: announces_def)
  then have "ne_wait_id x \<noteq> ne_wait_id e" using unique_keyD [OF exec_okD(3) [OF ok] x(1) e(1)] by blast
  with x(2) show "ob_wait_id r \<noteq> ne_wait_id e" "ob_message_id r \<noteq> completion_message_id (ne_wait_id e)"
    by (auto simp: announces_def)
qed

lemma unique_key_filter_update:
  assumes "unique_key key (filter P rows)" and "\<And>r. \<not> P (f r)"
  shows "unique_key key (filter P (update_rows Q f rows))"
proof -
  have "filter P (update_rows Q f rows) = filter (\<lambda>r. P r \<and> \<not> Q r) rows"
    using assms(2) by (induction rows) auto
  also have "\<dots> = filter (\<lambda>r. \<not> Q r) (filter P rows)" by (induction rows) auto
  finally show ?thesis
    using distinct_map_filter [of key "filter P rows" "\<lambda>r. \<not> Q r"] assms(1) by (simp only: unique_key_def)
qed

lemma exec_ok_complete:
  assumes ok: "exec_ok db" and e: "e \<in> set (xd_executions db)" "ne_state e = Exec_Waiting"
  shows "exec_ok (complete_row now phase outcome result_ref e db)"
proof -
  let ?g = "ended_as phase outcome result_ref" and ?a = "announcement now outcome result_ref e"
  let ?E = "update_rows (\<lambda>x. x = e) ?g (xd_executions db)"
  have keep: "announces x r \<Longrightarrow> x \<in> set ?E" if "x \<in> set (xd_executions db)" for x r
    using that e(2) by (auto simp: in_update_rows announces_def intro!: bexI [of _ x])
  have new: "?g e \<in> set ?E" "announces (?g e) ?a"
    using e(1) by (auto simp: in_update_rows announces_def announcement_def ended_as_def completion_payload_def
        execution_view_def wait_of_def)
  have "\<exists>x \<in> set ?E. announces x r" if "r \<in> set (xd_outbox db @ [?a])" for r
    using that exec_okD(6) [OF ok, of r] keep new by auto
  moreover have "\<exists>r \<in> set (xd_outbox db @ [?a]). ob_wait_id r = ne_wait_id x"
    if "x \<in> set ?E" "ne_state x = Exec_Ended" for x
    using that exec_okD(7) [OF ok, of x]
    by (auto simp: in_update_rows announcement_def ended_as_def split: if_splits)
  moreover have "unique_key ob_wait_id (xd_outbox db @ [?a])"
    using exec_okD(5) [OF ok] outbox_fresh(1) [OF ok e] by (auto simp: unique_key_append1 announcement_def)
  ultimately show ?thesis
    using exec_okD(2-4) [OF ok]
    by (simp add: exec_ok_def unique_key_update unique_key_filter_update ended_as_def del: set_append)
qed

lemma complete_cases:
  assumes ok: "exec_ok db" and ended: "complete_execution now w outcome result_ref phase db = Inr (v, db')"
  obtains (repeated) e where "db' = db" "e \<in> set (xd_executions db)" "ne_wait_id e = w" "ne_state e = Exec_Ended"
      "ne_outcome e = Some outcome" "ne_result_ref e = result_ref" "v = view_of e"
  | (finished) e p where "e \<in> set (xd_executions db)" "ne_wait_id e = w" "ne_state e = Exec_Waiting"
      "outcome \<in> set terminal_outcomes" "db' = complete_row now p outcome result_ref e db"
      "v = view_of (ended_as p outcome result_ref e)"
proof -
  obtain u where u: "read_execution w db = Some u" and out: "outcome \<in> set terminal_outcomes"
    using ended by (auto simp: complete_execution_def split: if_splits option.splits)
  then obtain e where e: "e \<in> set (xd_executions db)" "ne_wait_id e = w" "u = view_of e"
    using read_SomeD [OF ok] by blast
  show thesis
  proof (cases "ne_state e")
    case Exec_Ended
    with ended u out e show thesis
      by (intro repeated [of e]) (auto simp: complete_execution_def split: if_splits)
  next
    case Exec_Waiting
    let ?p = "case phase of Some p \<Rightarrow> if p = [] then ne_phase e else p | None \<Rightarrow> ne_phase e"
    have payload: "completion_payload (view_of e\<lparr>ev_wait_id := w\<rparr>) outcome result_ref = completion_payload (view_of e) outcome result_ref"
      using e(2) by (simp add: completion_payload_def)
    have db2: "insert_outbox (announcement now outcome result_ref e)
        (end_execution (ne_execution_id e) w ?p outcome result_ref db) = complete_row now ?p outcome result_ref e db"
      using outbox_fresh [OF ok e(1) Exec_Waiting] end_execution_ok [OF ok e(1) Exec_Waiting] e(2)
      by (auto simp: insert_outbox_def announcement_def)
    let ?e = "ended_as ?p outcome result_ref e"
    have ok2: "exec_ok (complete_row now ?p outcome result_ref e db)" by (rule exec_ok_complete [OF ok e(1) Exec_Waiting])
    have "?e \<in> set (xd_executions (complete_row now ?p outcome result_ref e db))"
      using e(1) by (auto simp: in_update_rows)
    from read_member [OF ok2 this] have "read_execution w (complete_row now ?p outcome result_ref e db) = Some (view_of ?e)"
      using e(2) by (simp add: ended_as_def)
    moreover have "complete_execution now w outcome result_ref phase db =
        (let db' = insert_outbox (announcement now outcome result_ref e)
           (end_execution (ne_execution_id e) w ?p outcome result_ref db)
         in (case read_execution w db' of None \<Rightarrow> Inl (BuiltinError ''AssertionError'') | Some v \<Rightarrow> Inr (v, db')))"
      using u out Exec_Waiting payload e(2,3)
      by (simp only: complete_execution_def announcement_def option.case view_simps exec_state.distinct
          if_False not_True_eq_False Let_def)
    ultimately have "complete_execution now w outcome result_ref phase db
        = Inr (view_of ?e, complete_row now ?p outcome result_ref e db)"
      by (simp only: db2 Let_def option.case)
    with ended have "v = view_of ?e" "db' = complete_row now ?p outcome result_ref e db" by simp_all
    with e Exec_Waiting out show thesis by (intro finished)
  qed
qed


text \<open>
  An execution ends once. Ending a waiting execution records the outcome, reads it back and
  leaves exactly one announcement; ending it again with the same outcome and result returns the
  same record and changes nothing, with another one it is refused as a conflict.
\<close>

theorem execution_ends_once:
  assumes "exec_ok db" and "complete_execution now w outcome result_ref phase db = Inr (v, db')"
  shows "ev_state v = Exec_Ended \<and> ev_outcome v = Some outcome \<and> ev_result_ref v = result_ref
     \<and> read_execution w db' = Some v
     \<and> rowcount (\<lambda>r. ob_wait_id r = w) (xd_outbox db') = 1
     \<and> complete_execution now' w outcome' result_ref' phase' db' =
         (if outcome' \<notin> set terminal_outcomes
          then Inl (ValidationError ''node_execution'' ''Invalid terminal execution outcome'')
          else if outcome' = outcome \<and> result_ref' = result_ref then Inr (v, db')
          else Inl (ConflictError ''node_execution'' ''execution_terminal_conflict''))"
proof -
  obtain e where e: "exec_ok db'" "e \<in> set (xd_executions db')" "ne_wait_id e = w" "ne_state e = Exec_Ended"
    "ne_outcome e = Some outcome" "ne_result_ref e = result_ref" "v = view_of e"
    using assms
  proof (cases rule: complete_cases [OF assms])
    case (1 e)
    then show ?thesis using that assms(1) by blast
  next
    case (2 e p)
    have "ended_as p outcome result_ref e \<in> set (xd_executions db')"
      using 2(1) by (auto simp: 2(5) in_update_rows)
    with that [of "ended_as p outcome result_ref e"] 2 exec_ok_complete [OF assms(1) 2(1,3)] show ?thesis
      by (simp add: ended_as_def)
  qed
  have read: "read_execution w db' = Some v" using read_member [OF e(1,2)] e(3,7) by simp
  obtain r where "r \<in> set (xd_outbox db')" "ob_wait_id r = w" using exec_okD(7) [OF e(1,2,4)] e(3) by blast
  then have "rowcount (\<lambda>r. ob_wait_id r = w) (xd_outbox db') = 1"
    using filter_key_unique [OF exec_okD(5) [OF e(1)], of r] by (simp add: rowcount_def)
  with read e show ?thesis by (simp add: complete_execution_def)
qed

definition demo_exec_db :: exec_db where
  "demo_exec_db = \<lparr>xd_executions = [\<lparr>ne_execution_id = ''e1'', ne_wait_id = ''w1'', ne_node_id = ''n'',
       ne_owner_address = demo_uri, ne_state = Exec_Waiting, ne_phase = ''queued'', ne_revision = 1,
       ne_outcome = None, ne_result_ref = None, ne_created_at = 0\<rparr>],
     xd_waits = [\<lparr>ws_wait_id = ''w1'', ws_execution_id = ''e1'', ws_node_id = ''n'', ws_state = Exec_Waiting,
       ws_phase = ''queued'', ws_revision = 1, ws_outcome = None, ws_result_ref = None\<rparr>],
     xd_outbox = []\<rparr>"

lemma demo_exec_ok: "exec_ok demo_exec_db"
  by (simp add: exec_ok_def demo_exec_db_def wait_of_def unique_key_def)

lemma demo_ended: "\<exists>v db'. complete_execution 1 ''w1'' ''completed'' None None demo_exec_db = Inr (v, db')"
  by (simp add: complete_execution_def terminal_outcomes_def read_execution_def fetch_execution_def
      joined_def demo_exec_db_def execution_view_def end_execution_def insert_outbox_def Let_def)

theorem execution_ends_once_witness:
  "\<exists>v db'. complete_execution 1 ''w1'' ''completed'' None None demo_exec_db = Inr (v, db')
     \<and> complete_execution 2 ''w1'' ''failed'' None None db' = Inl (ConflictError ''node_execution'' ''execution_terminal_conflict'')"
proof -
  obtain v db' where d: "complete_execution 1 ''w1'' ''completed'' None None demo_exec_db = Inr (v, db')"
    using demo_ended by blast
  with execution_ends_once [OF demo_exec_ok d, of 2 "''failed''" None None] show ?thesis
    by (simp add: terminal_outcomes_def)
qed

section \<open>The two databases together\<close>

definition outbox_entry :: "outbox_row \<Rightarrow> string \<times> json \<times> string \<times> string" where
  "outbox_entry r = (ob_message_id r, JObj (ob_payload r), ob_owner_address r, ''node-workflow-result'')"

definition completion_key :: "string \<Rightarrow> bool" where
  "completion_key k \<longleftrightarrow> startswith k ''node-workflow-result:''"

lemma completion_key_message [simp]: "completion_key (completion_message_id w)"
  by (simp add: completion_key_def completion_message_id_def startswith_def)

definition flow_ok :: "exec_db \<Rightarrow> mail_db \<Rightarrow> bool" where
  "flow_ok db mail \<longleftrightarrow> exec_ok db \<and> mail_ok mail
     \<and> mail_sink.traced completion_key (outbox_entry ` set (xd_outbox db)) mail
     \<and> (\<forall>r \<in> set (xd_outbox db). ob_state r = Outbox_Sent \<longrightarrow> mail_content mail (ob_message_id r) \<noteq> None)"

text \<open>
  A step of the system: creating or ending an execution; forwarding, which may stop after any
  number of items or between the insertion of a message and the marking of its row; any
  operation of the mailbox, except that no one else sends under the key of a completion.
\<close>

inductive flow_step :: "exec_db \<times> mail_db \<Rightarrow> exec_db \<times> mail_db \<Rightarrow> bool" where
  create: "create_node_execution x w now node owner db = Inr (v, db') \<Longrightarrow> flow_step (db, mail) (db', mail)"
| complete: "complete_execution now w outcome result_ref phase db = Inr (v, db') \<Longrightarrow>
    flow_step (db, mail) (db', mail)"
| forward: "forward_items mb answer source (take n (list_pending_completion_outbox db)) 0 db mail = (res, db', mail') \<Longrightarrow>
    flow_step (db, mail) (db', mail')"
| enqueued: "item \<in> set (list_pending_completion_outbox db) \<Longrightarrow> completion_envelope source item = Inr env \<Longrightarrow>
    flow_step (db, mail) (db, snd (enqueue_mail mb ans now env mail))"
| mail: "(\<And>mb ans now e. op = Enqueue_Mail mb ans now e \<Longrightarrow> \<not> completion_key (en_message_id e)) \<Longrightarrow>
    flow_step (db, mail) (db, mail_step mail op)"

lemma flow_okD:
  assumes "flow_ok db mail"
  shows "exec_ok db" and "mail_ok mail"
    and "mail_sink.traced completion_key (outbox_entry ` set (xd_outbox db)) mail"
    and "\<And>r. r \<in> set (xd_outbox db) \<Longrightarrow> ob_state r = Outbox_Sent \<Longrightarrow> mail_content mail (ob_message_id r) \<noteq> None"
  using assms by (auto simp: flow_ok_def)

lemma outbox_message:
  assumes "exec_ok db" and "r \<in> set (xd_outbox db)"
  shows "ob_message_id r = completion_message_id (ob_wait_id r)"
  using exec_okD(6) [OF assms] by (auto simp: announces_def)

lemma outbox_content:
  assumes ok: "flow_ok db mail" and r: "r \<in> set (xd_outbox db)" and c: "mail_content mail (ob_message_id r) = Some c"
  shows "c = (JObj (ob_payload r), ob_owner_address r, ''node-workflow-result'')"
proof -
  have id: "ob_message_id x = completion_message_id (ob_wait_id x)" if "x \<in> set (xd_outbox db)" for x
    using outbox_message [OF flow_okD(1) [OF ok] that] .
  have "(ob_message_id r, c) \<in> outbox_entry ` set (xd_outbox db)"
    using flow_okD(3) [OF ok] c id [OF r] by (cases c) (simp add: mail_sink.traced_def)
  then obtain x where x: "x \<in> set (xd_outbox db)" "(ob_message_id r, c) = outbox_entry x" by blast
  then have "ob_wait_id x = ob_wait_id r" using id [OF x(1)] id [OF r] by (simp add: outbox_entry_def)
  then have "x = r" using unique_keyD [OF exec_okD(5) [OF flow_okD(1) [OF ok]] x(1) r] by blast
  with x(2) show ?thesis by (simp add: outbox_entry_def)
qed


subsection \<open>Forwarding keeps the two in step\<close>

definition same_entry :: "(outbox_row \<Rightarrow> outbox_row) \<Rightarrow> bool" where
  "same_entry f \<longleftrightarrow> (\<forall>r. ob_wait_id (f r) = ob_wait_id r \<and> ob_execution_id (f r) = ob_execution_id r
     \<and> ob_owner_address (f r) = ob_owner_address r \<and> ob_message_id (f r) = ob_message_id r
     \<and> ob_payload (f r) = ob_payload r)"

lemma same_entryD:
  assumes "same_entry f"
  shows "ob_wait_id (f r) = ob_wait_id r" and "ob_message_id (f r) = ob_message_id r"
    and "announces e (f r) = announces e r" and "outbox_entry (f r) = outbox_entry r"
  using assms by (simp_all add: same_entry_def announces_def outbox_entry_def)

lemma exec_ok_mark:
  assumes ok: "exec_ok db" and f: "same_entry f"
  shows "exec_ok (db\<lparr>xd_outbox := update_rows P f (xd_outbox db)\<rparr>)"
    and "outbox_entry ` set (update_rows P f (xd_outbox db)) = outbox_entry ` set (xd_outbox db)"
proof -
  let ?O = "update_rows P f (xd_outbox db)"
  have "map ob_wait_id ?O = map ob_wait_id (xd_outbox db)"
    by (rule map_update_rows) (simp add: same_entryD [OF f])
  then have waits: "ob_wait_id ` set ?O = ob_wait_id ` set (xd_outbox db)" by (metis list.set_map)
  have "\<exists>e \<in> set (xd_executions db). announces e r" if "r \<in> set ?O" for r
    using that exec_okD(6) [OF ok] same_entryD(3) [OF f] by (auto simp: in_update_rows split: if_splits)
  moreover have "\<exists>r \<in> set ?O. ob_wait_id r = ne_wait_id e"
    if "e \<in> set (xd_executions db)" "ne_state e = Exec_Ended" for e
  proof -
    have "ne_wait_id e \<in> ob_wait_id ` set (xd_outbox db)" using exec_okD(7) [OF ok that] by (metis imageI)
    then show ?thesis unfolding waits [symmetric] by auto
  qed
  moreover have "unique_key ob_wait_id ?O"
    using exec_okD(5) [OF ok] by (simp add: unique_key_update same_entryD [OF f])
  ultimately show "exec_ok (db\<lparr>xd_outbox := ?O\<rparr>)"
    using exec_okD(1-4) [OF ok] by (simp add: exec_ok_def)
  have "map outbox_entry ?O = map outbox_entry (xd_outbox db)"
    by (rule map_update_rows) (simp add: same_entryD [OF f])
  then show "outbox_entry ` set ?O = outbox_entry ` set (xd_outbox db)" by (metis list.set_map)
qed

lemma flow_ok_mail:
  assumes ok: "flow_ok db mail" and "mail_ok mail'"
    and "\<And>k c. mail_content mail k = Some c \<Longrightarrow> mail_content mail' k = Some c"
    and "mail_sink.traced completion_key (outbox_entry ` set (xd_outbox db)) mail'"
  shows "flow_ok db mail'"
  using assms flow_okD(4) [OF ok] unfolding flow_ok_def by fast

lemma flow_ok_mark:
  assumes ok: "flow_ok db mail" and f: "same_entry f"
    and "\<And>r. r \<in> set (xd_outbox db) \<Longrightarrow> P r \<Longrightarrow> ob_state (f r) = Outbox_Sent \<Longrightarrow> mail_content mail (ob_message_id r) \<noteq> None"
  shows "flow_ok (db\<lparr>xd_outbox := update_rows P f (xd_outbox db)\<rparr>) mail"
  using flow_okD(2-4) [OF ok] exec_ok_mark [OF flow_okD(1) [OF ok] f] assms(3)
  by (auto simp: flow_ok_def in_update_rows same_entryD [OF f] split: if_splits)

lemma flow_ok_attempt: "flow_ok db mail \<Longrightarrow> flow_ok (mark_completion_outbox_attempt w db) mail"
  unfolding mark_completion_outbox_attempt_def by (rule flow_ok_mark) (auto simp: same_entry_def)

lemma flow_ok_sent:
  assumes "flow_ok db mail" and "mail_content mail (completion_message_id w) \<noteq> None"
  shows "flow_ok (mark_completion_outbox_sent w db) mail"
  unfolding mark_completion_outbox_sent_def
  by (rule flow_ok_mark [OF assms(1)])
    (use assms(2) outbox_message [OF flow_okD(1) [OF assms(1)]] in \<open>auto simp: same_entry_def\<close>)

definition listed :: "exec_db \<Rightarrow> outbox_row \<Rightarrow> bool" where
  "listed db item \<longleftrightarrow> outbox_entry item \<in> outbox_entry ` set (xd_outbox db)
     \<and> ob_message_id item = completion_message_id (ob_wait_id item)"

lemma listed_mark:
  "flow_ok db mail \<Longrightarrow> listed (mark_completion_outbox_sent w db) = listed db"
  "flow_ok db mail \<Longrightarrow> listed (mark_completion_outbox_attempt w db) = listed db"
  using exec_ok_mark(2) [OF flow_okD(1) [of db mail]]
  by (simp_all add: fun_eq_iff listed_def mark_completion_outbox_sent_def mark_completion_outbox_attempt_def same_entry_def)

lemma envelope_entry:
  assumes "completion_envelope source item = Inr env"
  shows "(delivery_key (mb, ans, now, env), delivery_body (mb, ans, now, env)) = outbox_entry item"
  using assms parse_address_uri [of "ob_owner_address item"]
  by (auto simp: completion_envelope_def make_envelope_def bind_result_Inr delivery_key_def delivery_body_def
      outbox_entry_def split: if_splits)

lemma flow_ok_deliver:
  assumes ok: "flow_ok db mail" and item: "listed db item" "completion_envelope source item = Inr env"
  shows "flow_ok db (snd (enqueue_mail mb ans now env mail))"
proof (rule flow_ok_mail [OF ok])
  let ?d = "(mb, ans, now, env)"
  show "mail_ok (snd (enqueue_mail mb ans now env mail))"
    using mail_sink.ok_deliver [OF flow_okD(2) [OF ok], of ?d] by (simp add: mail_deliver_db)
  show "mail_content (snd (enqueue_mail mb ans now env mail)) k = Some c" if "mail_content mail k = Some c" for k c
    using mail_sink.kept [OF flow_okD(2) [OF ok] that, of ?d] by (simp add: mail_deliver_db)
  show "mail_sink.traced completion_key (outbox_entry ` set (xd_outbox db)) (snd (enqueue_mail mb ans now env mail))"
    using mail_sink.traced_deliver [OF flow_okD(2,3) [OF ok], of ?d] item(1) envelope_entry [OF item(2), of mb ans now]
    by (simp add: mail_deliver_db listed_def)
qed

lemma accepted_content:
  assumes "completion_envelope source item = Inr env" and "enqueue_mail mb ans now env mail = (Inr res, mail')"
    and "re_status res \<in> {''inserted'', ''existing''}"
  shows "mail_content mail' (ob_message_id item) \<noteq> None"
proof -
  have "en_message_id env = ob_message_id item"
    using envelope_entry [OF assms(1), of mb ans now] by (simp add: delivery_key_def outbox_entry_def)
  with enqueue_accepted [OF assms(2,3)] show ?thesis by (simp add: mail_content_def)
qed

lemma flow_ok_forward:
  assumes "flow_ok db mail" and "\<forall>item \<in> set items. listed db item"
    and "forward_items mb answer source items n db mail = (res, db', mail')"
  shows "flow_ok db' mail'"
  using assms
proof (induction items arbitrary: n db mail)
  case Nil
  then show ?case by simp
next
  case (Cons item items)
  show ?case
  proof (cases "completion_envelope source item")
    case (Inl err)
    with Cons.prems show ?thesis by simp
  next
    case (Inr env)
    let ?ans = "fst (answer (ob_wait_id item))" and ?now = "snd (answer (ob_wait_id item))"
    obtain r mail1 where enq: "enqueue_mail mb ?ans ?now env mail = (r, mail1)" by (cases "enqueue_mail mb ?ans ?now env mail")
    have ok1: "flow_ok db mail1"
      using flow_ok_deliver [OF Cons.prems(1) _ Inr, of mb ?ans ?now] Cons.prems(2) enq by simp
    show ?thesis
    proof (cases r)
      case (Inl err)
      with Cons.prems Inr enq ok1 show ?thesis by simp
    next
      case r: (Inr out)
      show ?thesis
      proof (cases "re_status out \<in> {''inserted'', ''existing''}")
        case True
        have "flow_ok (mark_completion_outbox_sent (ob_wait_id item) db) mail1"
          using accepted_content [OF Inr enq [unfolded r] True] Cons.prems(2)
          by (intro flow_ok_sent [OF ok1]) (simp add: listed_def)
        from Cons.IH [OF this] Cons.prems(2,3) True r Inr enq show ?thesis
          by (simp add: listed_mark(1) [OF ok1])
      next
        case False
        from Cons.IH [OF flow_ok_attempt [OF ok1, of "ob_wait_id item"]] Cons.prems(2,3) False r Inr enq
        show ?thesis by (simp add: listed_mark(2) [OF ok1])
      qed
    qed
  qed
qed


subsection \<open>Steps\<close>

lemma pending_listed:
  assumes "exec_ok db" and "item \<in> set (list_pending_completion_outbox db)"
  shows "listed db item"
  using assms(2) outbox_message [OF assms(1)] by (auto simp: list_pending_completion_outbox_def listed_def)

lemma forward_items_executions:
  "forward_items mb answer source items n db mail = (res, db', mail') \<Longrightarrow> xd_executions db' = xd_executions db"
  by (induction items arbitrary: n db mail)
    (auto simp: mark_completion_outbox_sent_def mark_completion_outbox_attempt_def
      split: sum.splits prod.splits if_splits)

lemma flow_ok_new:
  assumes "flow_ok db mail" and "exec_ok db'" and "set (xd_outbox db) \<subseteq> set (xd_outbox db')"
    and "\<And>r. r \<in> set (xd_outbox db') \<Longrightarrow> ob_state r = Outbox_Sent \<Longrightarrow> r \<in> set (xd_outbox db)"
  shows "flow_ok db' mail"
proof -
  have "mail_sink.traced completion_key (outbox_entry ` set (xd_outbox db')) mail"
    using mail_sink.traced_mono [OF flow_okD(3) [OF assms(1)]] assms(3) by blast
  with assms flow_okD(2,4) [OF assms(1)] show ?thesis by (auto simp: flow_ok_def)
qed

inductive_cases flow_stepE [consumes 1, case_names create complete forward enqueued mail]: "flow_step (db, mail) (db', mail')"

lemma flow_ok_step:
  assumes "flow_step (db, mail) (db', mail')" and ok: "flow_ok db mail"
  shows "flow_ok db' mail'"
  using assms(1)
proof (cases rule: flow_stepE)
  case (create x w now node owner v)
  show ?thesis
  proof (cases rule: create_cases [OF flow_okD(1) [OF ok] create(2)])
    case (2 e)
    then have "xd_outbox db' = xd_outbox db" by simp
    with flow_ok_new [OF ok 2(2)] create(1) show ?thesis by simp
  qed (use ok create in simp)
next
  case (complete now w outcome result_ref phase v)
  show ?thesis
  proof (cases rule: complete_cases [OF flow_okD(1) [OF ok] complete(2)])
    case (2 e p)
    have "exec_ok db'" using exec_ok_complete [OF flow_okD(1) [OF ok] 2(1,3)] by (simp only: 2(5))
    moreover have "xd_outbox db' = xd_outbox db @ [announcement now outcome result_ref e]" by (simp add: 2(5))
    then have "set (xd_outbox db) \<subseteq> set (xd_outbox db')"
      "\<And>r. r \<in> set (xd_outbox db') \<Longrightarrow> ob_state r = Outbox_Sent \<Longrightarrow> r \<in> set (xd_outbox db)"
      by (auto simp: announcement_def)
    ultimately show ?thesis using flow_ok_new [OF ok] complete(1) by simp
  qed (use ok complete in simp)
next
  case (forward mb answer source n res)
  have "\<forall>item \<in> set (take n (list_pending_completion_outbox db)). listed db item"
    using pending_listed [OF flow_okD(1) [OF ok]] by (auto dest: in_set_takeD)
  from flow_ok_forward [OF ok this forward] show ?thesis .
next
  case (enqueued item source env mb ans now)
  with flow_ok_deliver [OF ok pending_listed [OF flow_okD(1) [OF ok]]] show ?thesis by simp
next
  case (mail op)
  have "mail_sink.traced completion_key (outbox_entry ` set (xd_outbox db)) (mail_step mail op)"
    unfolding mail_sink.traced_def
  proof (intro allI impI)
    fix k c assume k: "completion_key k" and c: "mail_content (mail_step mail op) k = Some c"
    have "mail_content mail k \<noteq> None"
    proof
      assume "mail_content mail k = None"
      moreover have "mail_content (mail_step mail op) k \<noteq> None" using c by simp
      ultimately obtain mb ans now e where e: "op = Enqueue_Mail mb ans now e" "en_message_id e = k"
        using mail_content_new [OF flow_okD(2) [OF ok]] by blast
      have "\<not> completion_key (en_message_id e)" by (rule mail) (rule e(1))
      with k e(2) show False by simp
    qed
    then obtain d where "mail_content mail k = Some d" by blast
    with mail_content_step [OF flow_okD(2) [OF ok] this, of op] c flow_okD(3) [OF ok] k
    show "(k, c) \<in> outbox_entry ` set (xd_outbox db)" by (cases d) (simp add: mail_sink.traced_def)
  qed
  with flow_ok_mail [OF ok mail_ok_step [OF flow_okD(2) [OF ok]] mail_content_step [OF flow_okD(2) [OF ok]]] mail
  show ?thesis by blast
qed

lemma flow_ok_run:
  "flow_step\<^sup>*\<^sup>* (db, mail) (db', mail') \<Longrightarrow> flow_ok db mail \<Longrightarrow> flow_ok db' mail'"
  by (induction rule: rtranclp_induct2) (auto dest: flow_ok_step)

abbreviation empty_exec_db :: exec_db where
  "empty_exec_db \<equiv> \<lparr>xd_executions = [], xd_waits = [], xd_outbox = []\<rparr>"

lemma flow_ok_empty: "flow_ok empty_exec_db []"
  using exec_ok_empty by (simp add: flow_ok_def mail_ok_def unique_key_def mail_sink.traced_def mail_content_def message_def)

lemma ended_step:
  assumes "flow_step (db, mail) (db', mail')" and ok: "exec_ok db"
    and e: "e \<in> set (xd_executions db)" "ne_state e = Exec_Ended"
  shows "e \<in> set (xd_executions db')"
  using assms(1)
proof (cases rule: flow_stepE)
  case (create x w now node owner v)
  then show ?thesis using e(1) by (auto elim!: create_cases [OF ok])
next
  case (complete now w outcome result_ref phase v)
  show ?thesis
  proof (cases rule: complete_cases [OF ok complete(2)])
    case (2 e' p)
    with e show ?thesis by (auto simp: in_update_rows intro!: bexI [of _ e])
  qed (use e in simp)
next
  case (forward mb answer source n res)
  with e forward_items_executions show ?thesis by metis
qed (use e in auto)

lemma ended_run:
  "flow_step\<^sup>*\<^sup>* (db, mail) (db', mail') \<Longrightarrow> flow_ok db mail \<Longrightarrow> e \<in> set (xd_executions db) \<Longrightarrow>
   ne_state e = Exec_Ended \<Longrightarrow> e \<in> set (xd_executions db')"
proof (induction rule: rtranclp_induct2)
  case (step db1 mail1 db2 mail2)
  then show ?case using ended_step flow_ok_run [OF step(1)] flow_okD(1) by blast
qed

lemma content_step:
  assumes "flow_step (db, mail) (db', mail')" and ok: "mail_ok mail" and c: "mail_content mail k = Some c"
  shows "mail_ok mail' \<and> mail_content mail' k = Some c"
  using assms(1)
proof (cases rule: flow_stepE)
  case (forward mb answer source n res)
  have "mail_ok mail' \<and> mail_content mail' k = Some c"
    if "forward_items mb answer source items m db mail = (res, db', mail')" "mail_ok mail" "mail_content mail k = Some c"
    for items m db mail
    using that
  proof (induction items arbitrary: m db mail)
    case (Cons item items)
    show ?case
    proof (cases "completion_envelope source item")
      case (Inr env)
      let ?d = "(mb, fst (answer (ob_wait_id item)), snd (answer (ob_wait_id item)), env)"
      note d = mail_sink.ok_deliver [OF Cons.prems(2), of ?d] mail_sink.kept [OF Cons.prems(2,3), of ?d]
      then show ?thesis
        using Cons.prems(1) Inr Cons.IH by (auto simp: mail_deliver_db split: prod.splits sum.splits if_splits)
    qed (use Cons.prems in simp)
  qed simp
  with forward ok c show ?thesis by blast
next
  case (enqueued item source env mb ans now)
  with mail_sink.ok_deliver [OF ok, of "(mb, ans, now, env)"] mail_sink.kept [OF ok c, of "(mb, ans, now, env)"]
  show ?thesis by (simp add: mail_deliver_db)
next
  case (mail op)
  with mail_content_step [OF ok c] mail_ok_step [OF ok] show ?thesis by simp
qed (use ok c in auto)

lemma content_run:
  "flow_step\<^sup>*\<^sup>* (db, mail) (db', mail') \<Longrightarrow> mail_ok mail \<Longrightarrow> mail_content mail k = Some c \<Longrightarrow>
   mail_ok mail' \<and> mail_content mail' k = Some c"
  by (induction rule: rtranclp_induct2) (auto dest: content_step)


text \<open>
  C37. No completion is lost. In every state the system can reach, with forwarders that stop
  anywhere and any other use of the mailbox, an execution that has ended has exactly one
  announcement, carrying its outcome; the announcement is still pending, or its message is in
  the mailbox, addressed to the owner of the execution and with that payload.
\<close>

theorem completion_never_lost:
  assumes "flow_step\<^sup>*\<^sup>* (empty_exec_db, []) (db, mail)"
    and "read_execution w db = Some v" and "ev_state v = Exec_Ended"
  shows "\<exists>r out. {x \<in> set (xd_outbox db). ob_wait_id x = w} = {r}
     \<and> ev_outcome v = Some out \<and> ob_payload r = completion_payload v out (ev_result_ref v)
     \<and> (ob_state r = Outbox_Pending \<or> mail_content mail (completion_message_id w)
          = Some (JObj (ob_payload r), ev_owner_address v, ''node-workflow-result''))"
proof -
  have ok: "flow_ok db mail" using flow_ok_run [OF assms(1) flow_ok_empty] .
  note xok = flow_okD(1) [OF ok]
  obtain e where e: "e \<in> set (xd_executions db)" "ne_wait_id e = w" "v = view_of e" "ne_state e = Exec_Ended"
    using read_SomeD [OF xok assms(2)] assms(3) by auto
  obtain r where r: "r \<in> set (xd_outbox db)" "ob_wait_id r = w" using exec_okD(7) [OF xok e(1,4)] e(2) by blast
  obtain x where x: "x \<in> set (xd_executions db)" "announces x r" using exec_okD(6) [OF xok r(1)] by blast
  then have "ne_wait_id x = ne_wait_id e" using r(2) e(2) by (simp add: announces_def)
  then have "x = e" by (rule unique_keyD [OF exec_okD(3) [OF xok] x(1) e(1)])
  with x(2) have ann: "announces e r" by simp
  have "x = r" if "x \<in> set (xd_outbox db)" "ob_wait_id x = w" for x
    using unique_keyD [OF exec_okD(5) [OF xok] that(1) r(1)] that(2) r(2) by simp
  then have only: "{x \<in> set (xd_outbox db). ob_wait_id x = w} = {r}" using r by blast
  have sent: "mail_content mail (completion_message_id w)
      = Some (JObj (ob_payload r), ev_owner_address v, ''node-workflow-result'')" if sent: "ob_state r = Outbox_Sent"
  proof -
    obtain c where "mail_content mail (ob_message_id r) = Some c" using flow_okD(4) [OF ok r(1) sent] by blast
    with outbox_content [OF ok r(1) this] outbox_message [OF xok r(1)] r(2) ann e(3)
    show ?thesis by (simp add: announces_def)
  qed
  then have "ob_state r = Outbox_Pending \<or> mail_content mail (completion_message_id w)
      = Some (JObj (ob_payload r), ev_owner_address v, ''node-workflow-result'')"
    using outbox_state.exhaust by blast
  with only ann e(3) show ?thesis by (auto simp: announces_def)
qed

lemma demo_create: "create_node_execution ''e1'' ''w1'' 0 ''n'' demo_uri empty_exec_db
    = Inr (view_of (hd (xd_executions demo_exec_db)), demo_exec_db)"
  by (simp add: create_node_execution_def demo_exec_db_def read_execution_def fetch_execution_def joined_def Let_def
      execution_view_def wait_of_def)

theorem completion_never_lost_witness:
  "\<exists>v db. complete_execution 1 ''w1'' ''completed'' None None demo_exec_db = Inr (v, db)
     \<and> (\<exists>r out. {x \<in> set (xd_outbox db). ob_wait_id x = ''w1''} = {r} \<and> ev_outcome v = Some out)"
proof -
  obtain v db where d: "complete_execution 1 ''w1'' ''completed'' None None demo_exec_db = Inr (v, db)"
    using demo_ended by blast
  have "flow_step (empty_exec_db, []) (demo_exec_db, [])" using demo_create by (rule flow_step.create)
  moreover have "flow_step (demo_exec_db, []) (db, [])" using d by (rule flow_step.complete)
  ultimately have run: "flow_step\<^sup>*\<^sup>* (empty_exec_db, []) (db, [])" by auto
  have "read_execution ''w1'' db = Some v \<and> ev_state v = Exec_Ended"
    using d
  proof (cases rule: complete_cases [OF demo_exec_ok d])
    case (1 e)
    then show ?thesis by (simp add: demo_exec_db_def)
  next
    case (2 e p)
    have ok: "exec_ok db" using exec_ok_complete [OF demo_exec_ok 2(1,3)] by (simp only: 2(5))
    have "ended_as p ''completed'' None e \<in> set (xd_executions db)" using 2(1) by (auto simp: 2(5) in_update_rows)
    from read_member [OF ok this] 2(2,6) show ?thesis by (simp add: ended_as_def)
  qed
  with completion_never_lost [OF run] d show ?thesis by blast
qed

text \<open>
  An announced outcome is final. Whatever the system does later, an execution that has
  ended reads the same, and a message that is in the mailbox stays with its payload, addressee
  and type.
\<close>

theorem announced_outcome_final:
  assumes "flow_ok db mail" and "flow_step\<^sup>*\<^sup>* (db, mail) (db', mail')"
    and "read_execution w db = Some v" and "ev_state v = Exec_Ended"
    and "mail_content mail k = Some c"
  shows "read_execution w db' = Some v \<and> mail_content mail' k = Some c"
proof -
  obtain e where e: "e \<in> set (xd_executions db)" "ne_wait_id e = w" "v = view_of e" "ne_state e = Exec_Ended"
    using read_SomeD [OF flow_okD(1) [OF assms(1)] assms(3)] assms(4) by auto
  have "e \<in> set (xd_executions db')" using ended_run [OF assms(2,1) e(1,4)] .
  from read_member [OF flow_okD(1) [OF flow_ok_run [OF assms(2,1)]] this] e(2,3)
  show ?thesis using content_run [OF assms(2) flow_okD(2) [OF assms(1)] assms(5)] by simp
qed

definition demo_final_db :: exec_db where
  "demo_final_db = \<lparr>xd_executions = [\<lparr>ne_execution_id = ''e1'', ne_wait_id = ''w1'', ne_node_id = ''n'',
       ne_owner_address = demo_uri, ne_state = Exec_Ended, ne_phase = ''queued'', ne_revision = 1,
       ne_outcome = Some ''completed'', ne_result_ref = None, ne_created_at = 0\<rparr>],
     xd_waits = [\<lparr>ws_wait_id = ''w1'', ws_execution_id = ''e1'', ws_node_id = ''n'', ws_state = Exec_Ended,
       ws_phase = ''queued'', ws_revision = 1, ws_outcome = Some ''completed'', ws_result_ref = None\<rparr>],
     xd_outbox = [\<lparr>ob_wait_id = ''w1'', ob_execution_id = ''e1'', ob_owner_address = demo_uri,
       ob_message_id = completion_message_id ''w1'',
       ob_payload = [(''wait_id'', JStr ''w1''), (''execution_id'', JStr ''e1''), (''node_id'', JStr ''n''),
         (''state'', JStr ''ended''), (''outcome'', JStr ''completed''), (''result_ref'', JNull), (''revision'', JInt 1)],
       ob_state = Outbox_Pending, ob_attempt = 0, ob_created_at = 1\<rparr>]\<rparr>"

lemma demo_final_ok: "flow_ok demo_final_db [demo_mail]"
  by (simp add: flow_ok_def demo_mail_ok mail_sink.traced_def mail_content_def message_def)
    (simp add: demo_final_db_def exec_ok_def unique_key_def wait_of_def announces_def completion_payload_def
      execution_view_def demo_mail_def completion_key_def startswith_def)

theorem announced_outcome_final_witness:
  "\<exists>v. read_execution ''w1'' (mark_completion_outbox_attempt ''w1'' demo_final_db) = Some v \<and> ev_outcome v = Some ''completed''"
proof -
  obtain v where v: "read_execution ''w1'' demo_final_db = Some v" "ev_state v = Exec_Ended" "ev_outcome v = Some ''completed''"
    by (simp add: read_execution_def fetch_execution_def joined_def demo_final_db_def execution_view_def)
  have "mail_content [demo_mail] ''m'' = Some (JObj [], demo_uri, ''t'')"
    by (simp add: mail_content_def message_def demo_mail_def)
  moreover have "flow_step (demo_final_db, [demo_mail])
      (demo_final_db, mail_step [demo_mail] (Close_Mailbox demo_mailbox Db_Ok 6))"
    by (rule flow_step.mail) simp
  then have "flow_step\<^sup>*\<^sup>* (demo_final_db, [demo_mail])
      (demo_final_db, mail_step [demo_mail] (Close_Mailbox demo_mailbox Db_Ok 6))" ..
  ultimately have "read_execution ''w1'' demo_final_db = Some v"
    using announced_outcome_final [OF demo_final_ok _ v(1,2)] by blast
  then have "read_execution ''w1'' (mark_completion_outbox_attempt ''w1'' demo_final_db) = Some v"
    by (simp add: read_execution_def fetch_execution_def joined_def mark_completion_outbox_attempt_def)
  with v(3) show ?thesis by blast
qed

text \<open>
  A node has at most one active execution. In every reachable state, asking for an
  execution of a node yields the one waiting execution of that node: the one that was waiting
  already, or else a new one.
\<close>

theorem one_active_execution:
  assumes "flow_step\<^sup>*\<^sup>* (empty_exec_db, []) (db, mail)"
    and "create_node_execution x w now node owner db = Inr (v, db')"
  shows "\<exists>e. {y \<in> set (xd_executions db'). ne_node_id y = node \<and> ne_state y = Exec_Waiting} = {e} \<and> v = view_of e
     \<and> (if {y \<in> set (xd_executions db). ne_node_id y = node \<and> ne_state y = Exec_Waiting} = {}
        then ne_execution_id e = x \<and> ne_wait_id e = w \<and> ne_owner_address e = owner else db' = db)"
proof -
  have ok: "exec_ok db" using flow_okD(1) [OF flow_ok_run [OF assms(1) flow_ok_empty]] .
  have single: "{y \<in> set (xd_executions d). ne_node_id y = node \<and> ne_state y = Exec_Waiting} = {e}"
    if "exec_ok d" "e \<in> set (xd_executions d)" "ne_node_id e = node" "ne_state e = Exec_Waiting" for d e
  proof -
    have "y = e" if "y \<in> set (xd_executions d)" "ne_node_id y = node" "ne_state y = Exec_Waiting" for y
      using unique_keyD [OF exec_okD(4) [OF \<open>exec_ok d\<close>], of y e] that \<open>e \<in> _\<close> \<open>ne_node_id e = _\<close> \<open>ne_state e = _\<close>
      by simp
    then show ?thesis using that by blast
  qed
  show ?thesis
  proof (cases rule: create_cases [OF ok assms(2)])
    case (1 e)
    with single [OF ok] show ?thesis by (intro exI [of _ e]) auto
  next
    case (2 e)
    have "e \<in> set (xd_executions db')" by (simp add: 2(1))
    from single [OF 2(2) this] 2 show ?thesis by (intro exI [of _ e]) auto
  qed
qed

theorem one_active_execution_witness:
  "\<exists>e. {y \<in> set (xd_executions demo_exec_db). ne_node_id y = ''n'' \<and> ne_state y = Exec_Waiting} = {e}"
  using one_active_execution [OF _ demo_create] by blast


section \<open>Forwarding succeeds\<close>

definition reachable_owner :: "mailbox \<Rightarrow> outbox_row \<Rightarrow> bool" where
  "reachable_owner mb r \<longleftrightarrow> (case parse_address (ob_owner_address r) of Inl _ \<Rightarrow> False
     | Inr a \<Rightarrow> ad_project a = mb_project_id mb)"

definition marked_sent :: "string list \<Rightarrow> exec_db \<Rightarrow> exec_db" where
  "marked_sent ws db = fold mark_completion_outbox_sent ws db"

lemma pending_marked:
  "filter (\<lambda>r. ob_state r = Outbox_Pending) (xd_outbox (marked_sent ws db))
   = filter (\<lambda>r. ob_state r = Outbox_Pending \<and> ob_wait_id r \<notin> set ws) (xd_outbox db)"
proof (induction ws arbitrary: db)
  case (Cons w ws)
  have "filter (\<lambda>r. ob_state r = Outbox_Pending \<and> ob_wait_id r \<notin> set ws) (xd_outbox (mark_completion_outbox_sent w db))
      = filter (\<lambda>r. ob_state r = Outbox_Pending \<and> ob_wait_id r \<notin> set (w # ws)) (xd_outbox db)"
  proof -
    have "filter (\<lambda>r. ob_state r = Outbox_Pending \<and> ob_wait_id r \<notin> set ws)
        (update_rows (\<lambda>r. ob_wait_id r = w \<and> ob_state r = Outbox_Pending)
          (\<lambda>r. r\<lparr>ob_state := Outbox_Sent, ob_attempt := ob_attempt r + 1\<rparr>) rows)
      = filter (\<lambda>r. ob_state r = Outbox_Pending \<and> ob_wait_id r \<notin> set (w # ws)) rows" for rows
      by (induction rows) auto
    then show ?thesis by (simp add: mark_completion_outbox_sent_def)
  qed
  with Cons.IH [of "mark_completion_outbox_sent w db"] show ?case by (simp add: marked_sent_def)
qed (simp add: marked_sent_def)

lemma forward_items_delivers:
  assumes "\<not> mb_closed mb" and src: "validate_target mb source = Inr su" "valid_address source"
    and "\<forall>item \<in> set items. reachable_owner mb item \<and> ob_message_id item \<noteq> []
           \<and> fst (answer (ob_wait_id item)) = Db_Ok"
    and "mail_decodes mail" and "int (undelivered mail) + int (length items) \<le> mb_capacity mb"
  shows "\<exists>mail'. forward_items mb answer source items n db mail
     = (Inr (n + length items), marked_sent (map ob_wait_id items) db, mail')"
  using assms(4-6)
proof (induction items arbitrary: n db mail)
  case Nil
  then show ?case by (simp add: marked_sent_def)
next
  case (Cons item items)
  obtain a where a: "parse_address (ob_owner_address item) = Inr a" "ad_project a = mb_project_id mb"
    using Cons.prems(1) by (auto simp: reachable_owner_def split: sum.splits)
  then have tgt: "validate_target mb a = Inr (ob_owner_address item)" "valid_address a"
    using parse_address_uri by (auto simp: validate_target_def)
  obtain env where env: "completion_envelope source item = Inr env" "en_source env = source" "en_target env = a"
    "en_message_id env \<noteq> []" "en_type env \<noteq> []"
    using a Cons.prems(1) by (simp add: completion_envelope_def make_envelope_def)
  have "\<exists>res mail'. enqueue_mail mb Db_Ok (snd (answer (ob_wait_id item))) env mail = (Inr res, mail')
      \<and> re_status res \<in> {''inserted'', ''existing''} \<and> mail_decodes mail' \<and> undelivered mail' \<le> Suc (undelivered mail)"
    by (rule enqueue_delivers [OF assms(1)]) (use src tgt env Cons.prems(2,3) in simp_all)
  then obtain res mail1 where enq: "enqueue_mail mb Db_Ok (snd (answer (ob_wait_id item))) env mail = (Inr res, mail1)"
    "re_status res \<in> {''inserted'', ''existing''}" "mail_decodes mail1" "undelivered mail1 \<le> Suc (undelivered mail)"
    by blast
  obtain mail' where "forward_items mb answer source items (Suc n) (mark_completion_outbox_sent (ob_wait_id item) db) mail1
      = (Inr (Suc n + length items), marked_sent (map ob_wait_id items) (mark_completion_outbox_sent (ob_wait_id item) db), mail')"
    using Cons.IH [OF _ enq(3), of "Suc n" "mark_completion_outbox_sent (ob_wait_id item) db"] Cons.prems(1,3) enq(4)
    by auto
  with env(1) enq(1,2) Cons.prems(1) show ?case by (simp add: marked_sent_def)
qed

lemma encode_node_workflow: "is_ok (encode_component (map of_char ''node-workflow''))"
  by (simp add: encode_component_def surrogate_def)


lemma entries_marked: "map outbox_entry (xd_outbox (marked_sent ws db)) = map outbox_entry (xd_outbox db)"
proof (induction ws arbitrary: db)
  case (Cons w ws)
  have "map outbox_entry (xd_outbox (mark_completion_outbox_sent w db)) = map outbox_entry (xd_outbox db)"
    unfolding mark_completion_outbox_sent_def by (simp, rule map_update_rows) (simp add: outbox_entry_def)
  with Cons.IH [of "mark_completion_outbox_sent w db"] show ?case by (simp add: marked_sent_def)
qed (simp add: marked_sent_def)

lemma set_pending: "set (list_pending_completion_outbox db) = set (filter (\<lambda>r. ob_state r = Outbox_Pending) (xd_outbox db))"
  by (simp add: list_pending_completion_outbox_def)

text \<open>
  Forwarding delivers. When the mailbox is open and working, has room for the pending
  announcements, and their owners are addresses of the project, one call forwards all of them:
  it returns their number, nothing stays pending, and the message of every announcement is in
  the mailbox.
\<close>

theorem forward_delivers:
  assumes "flow_ok db mail" and "mail_decodes mail" and "\<not> mb_closed mb"
    and "int (undelivered mail) + int (length (list_pending_completion_outbox db)) \<le> mb_capacity mb"
    and "validate_target mb owner = Inr uri" and "valid_address owner"
    and "list_all (\<lambda>r. reachable_owner mb r \<and> fst (answer (ob_wait_id r)) = Db_Ok) (list_pending_completion_outbox db)"
  shows "\<exists>db' mail'. forward_completion_mail mb owner answer db mail
       = (Inr (length (list_pending_completion_outbox db)), db', mail')
     \<and> list_pending_completion_outbox db' = []
     \<and> list_all (\<lambda>r. mail_content mail' (ob_message_id r)
          = Some (JObj (ob_payload r), ob_owner_address r, ''node-workflow-result'')) (xd_outbox db)"
proof -
  let ?items = "list_pending_completion_outbox db"
  let ?source = "\<lparr>ad_project = ad_project owner, ad_agent = map of_char ''node-workflow'', ad_generation = 1\<rparr>"
  obtain p g where p: "encode_component (ad_project owner) = Inr p" "encode_component (map of_char ''node-workflow'') = Inr g"
    using validate_target_uri [OF assms(5)] encode_node_workflow by (auto simp: to_uri_def bind_result_Inr is_ok_iff)
  then have make: "make_address (ad_project owner) (map of_char ''node-workflow'') 1 = Inr ?source"
    by (simp only: make_address_def bind_result.simps) simp
  have proj: "ad_project owner = mb_project_id mb" using assms(5) by (simp add: validate_target_def split: if_splits)
  then have "validate_target mb ?source = to_uri ?source" by (simp add: validate_target_def)
  also have "\<dots> = Inr (''agent://'' @ p @ ''/'' @ g @ ''/'' @ int_str 1)"
    using p by (simp only: to_uri_def agent_address.simps bind_result.simps)
  finally have src: "validate_target mb ?source = Inr (''agent://'' @ p @ ''/'' @ g @ ''/'' @ int_str 1)" .
  have valid: "valid_address ?source" using assms(6) by (simp add: valid_address_def)
  have items: "\<forall>item \<in> set ?items. listed db item"
    using pending_listed [OF flow_okD(1) [OF assms(1)]] by blast
  have id: "completion_message_id w \<noteq> []" for w by (simp add: completion_message_id_def)
  have "\<exists>mail'. forward_items mb answer ?source ?items 0 db mail
      = (Inr (0 + length ?items), marked_sent (map ob_wait_id ?items) db, mail')"
    by (rule forward_items_delivers [OF assms(3) src valid])
      (use assms(2,4,7) items id in \<open>auto simp: list_all_iff listed_def\<close>)
  then obtain mail' where fwd: "forward_items mb answer ?source ?items 0 db mail
      = (Inr (length ?items), marked_sent (map ob_wait_id ?items) db, mail')" by auto
  let ?db' = "marked_sent (map ob_wait_id ?items) db"
  have none: "filter (\<lambda>r. ob_state r = Outbox_Pending) (xd_outbox ?db') = []"
    unfolding pending_marked by (auto simp: filter_empty_conv set_pending)
  have ok': "flow_ok ?db' mail'" by (rule flow_ok_forward [OF assms(1) items fwd])
  have "mail_content mail' (ob_message_id r) = Some (JObj (ob_payload r), ob_owner_address r, ''node-workflow-result'')"
    if "r \<in> set (xd_outbox db)" for r
  proof -
    have "outbox_entry r \<in> set (map outbox_entry (xd_outbox ?db'))" unfolding entries_marked using that by simp
    then obtain x where x: "x \<in> set (xd_outbox ?db')" "outbox_entry x = outbox_entry r" by auto
    have "ob_state x = Outbox_Sent"
      using none x(1) outbox_state.exhaust by (auto simp: filter_empty_conv)
    then obtain c where "mail_content mail' (ob_message_id x) = Some c" using flow_okD(4) [OF ok' x(1)] by blast
    with outbox_content [OF ok' x(1) this] x(2) show ?thesis by (simp add: outbox_entry_def)
  qed
  moreover have "list_pending_completion_outbox ?db' = []"
    using none by (simp add: list_pending_completion_outbox_def)
  moreover have "forward_completion_mail mb owner answer db mail = (Inr (length ?items), ?db', mail')"
    using fwd by (simp only: forward_completion_mail_def make sum.case)
  ultimately show ?thesis by (auto simp: list_all_iff)
qed

theorem forward_delivers_witness:
  "\<exists>db' mail'. forward_completion_mail demo_mailbox demo_address (\<lambda>_. (Db_Ok, 7)) demo_final_db [demo_mail] = (Inr 1, db', mail')
     \<and> mail_content mail' (completion_message_id ''w1'') \<noteq> None"
proof -
  have pend: "list_pending_completion_outbox demo_final_db = xd_outbox demo_final_db"
    by (simp add: list_pending_completion_outbox_def demo_final_db_def)
  have uri: "parse_address demo_uri = Inr demo_address"
    by (rule parse_to_uri [OF demo_address_uri]) (simp add: valid_address_def demo_address_def)
  have proj: "ad_project demo_address = mb_project_id demo_mailbox" by (simp add: demo_address_def demo_mailbox_def)
  have "mail_decodes [demo_mail]"
    by (simp add: mail_decodes_def from_storage_def demo_mail_def uri make_envelope_def)
  moreover have "\<not> mb_closed demo_mailbox" by (simp add: demo_mailbox_def)
  moreover have "int (undelivered [demo_mail]) + int (length (list_pending_completion_outbox demo_final_db)) \<le> mb_capacity demo_mailbox"
    unfolding pend by (simp add: demo_mailbox_def demo_final_db_def undelivered_def rowcount_def)
  moreover have "valid_address demo_address" by (simp add: valid_address_def demo_address_def)
  moreover have "list_all (\<lambda>r. reachable_owner demo_mailbox r \<and> fst (Db_Ok, 7 :: int) = Db_Ok) (list_pending_completion_outbox demo_final_db)"
    unfolding pend by (simp add: demo_final_db_def reachable_owner_def uri proj)
  ultimately have "\<exists>db' mail'. forward_completion_mail demo_mailbox demo_address (\<lambda>_. (Db_Ok, 7)) demo_final_db [demo_mail]
       = (Inr (length (list_pending_completion_outbox demo_final_db)), db', mail')
     \<and> list_pending_completion_outbox db' = []
     \<and> list_all (\<lambda>r. mail_content mail' (ob_message_id r)
          = Some (JObj (ob_payload r), ob_owner_address r, ''node-workflow-result'')) (xd_outbox demo_final_db)"
    using forward_delivers [OF demo_final_ok _ _ _ demo_target, of "\<lambda>_. (Db_Ok, 7)"] by blast
  then show ?thesis unfolding pend by (simp add: demo_final_db_def) blast
qed

end
