(* ===== verification/Evidence_Chain.thy ===== *)
theory Evidence_Chain
  imports Canonical_Json
begin

text \<open>
  The hash chain of authoritative verification evidence kept by \<^verbatim>\<open>ProjectPlanStore\<close>:
  sanitizing and appending a record, and validating a node's chain. The SHA-256 digest is the
  parameter \<open>sha\<close>; the clock of the database is an argument; what a reference resolves to below
  the project root is the parameter \<open>fs\<close>.
\<close>

datatype artifact = Outside | Absent | Artifact_File string

text \<open>
  The record that \<^verbatim>\<open>append_evidence\<close> returns, and the row, which also has the
  \<^verbatim>\<open>created_at\<close> the database fills in; \<^verbatim>\<open>list_evidence\<close> returns the rows.
\<close>

record evidence_content =
  vx_node :: string
  vx_seq :: int
  vx_event :: string
  vx_payload :: dict
  vx_previous :: "string option"
  vx_hash :: string

record evidence_row = evidence_content +
  vx_created_at :: string

definition evidence_hash ::
  "(string \<Rightarrow> string) \<Rightarrow> string \<Rightarrow> int \<Rightarrow> string \<Rightarrow> dict \<Rightarrow> string option \<Rightarrow> string" where
  "evidence_hash sha node seq event payload previous =
     sha (canonical_json (JObj [(''node_id'', JStr node), (''evidence_seq'', JInt seq),
       (''event'', JStr event), (''payload'', JObj payload), (''previous_hash'', opt_str previous)]))"

definition evidence_keys :: "string list" where
  "evidence_keys = [''run_id'', ''node_id'', ''candidate_id'', ''submission_id'', ''contract_version'',
     ''test_code_hash'', ''candidate_code_hash'', ''required_command_ids'', ''map_seq'',
     ''boundary_fingerprint'', ''image_version'', ''exit_code'', ''duration_ms'', ''classification'',
     ''changed_paths'', ''artifact_ref'', ''artifact_digest'']"

definition evidence_artifact_error :: "(string \<Rightarrow> artifact) \<Rightarrow> dict \<Rightarrow> string option" where
  "evidence_artifact_error fs payload =
     (let ref = get_str payload ''artifact_ref''; digest = get_str payload ''artifact_digest'' in
      if ref = [] \<or> digest = [] then Some ''artifact_reference_missing''
      else (case fs ref of
          Outside \<Rightarrow> Some ''artifact_reference_invalid''
        | Absent \<Rightarrow> Some ''artifact_missing''
        | Artifact_File actual \<Rightarrow>
            (if actual \<noteq> digest then Some ''artifact_digest_mismatch'' else None)))"

definition sanitize_evidence :: "(string \<Rightarrow> artifact) \<Rightarrow> string \<Rightarrow> dict \<Rightarrow> dict result" where
  "sanitize_evidence fs node payload =
     (let safe = filter (\<lambda>(k, _). k \<in> set evidence_keys) payload in
      if dict_get safe ''node_id'' \<noteq> JStr node
      then Inl (ValidationError ''verification_evidence'' ''evidence node_id does not match the chain node'')
      else if \<not> truthy (dict_get safe ''required_command_ids'')
      then Inl (ValidationError ''verification_evidence'' ''required_command_ids must not be empty'')
      else (case evidence_artifact_error fs safe of
          Some e \<Rightarrow> Inl (ValidationError ''verification_evidence'' e) | None \<Rightarrow> Inr safe))"

definition list_evidence :: "evidence_row list \<Rightarrow> string \<Rightarrow> evidence_row list" where
  "list_evidence rows node = sort_key vx_seq (filter (\<lambda>r. vx_node r = node) rows)"

definition latest_evidence :: "evidence_row list \<Rightarrow> string \<Rightarrow> evidence_row option" where
  "latest_evidence rows node =
     (case list_evidence rows node of [] \<Rightarrow> None | rs \<Rightarrow> Some (last rs))"

definition append_evidence ::
  "(string \<Rightarrow> string) \<Rightarrow> (string \<Rightarrow> artifact) \<Rightarrow> string \<Rightarrow> evidence_row list \<Rightarrow> string \<Rightarrow> string \<Rightarrow> dict \<Rightarrow>
   (evidence_content \<times> evidence_row list) result" where
  "append_evidence sha fs current_timestamp rows node event payload =
     bind_result (sanitize_evidence fs node payload) (\<lambda>safe.
       let previous = latest_evidence rows node;
           seq = (case previous of None \<Rightarrow> 1 | Some r \<Rightarrow> vx_seq r + 1);
           prev = map_option vx_hash previous;
           r = \<lparr>vx_node = node, vx_seq = seq, vx_event = event, vx_payload = safe,
                vx_previous = prev, vx_hash = evidence_hash sha node seq event safe prev,
                vx_created_at = current_timestamp\<rparr>
       in Inr (evidence_content.truncate r, rows @ [r]))"

section \<open>Validation\<close>

record chain_report =
  cp_valid :: bool
  cp_count :: nat
  cp_latest_hash :: "string option"
  cp_first_break :: "(int \<times> string \<times> json) option"
  cp_publication :: "dict option"

definition evidence_break :: "evidence_row \<Rightarrow> string \<Rightarrow> int \<times> string \<times> json" where
  "evidence_break r code = (vx_seq r, code, dict_get (vx_payload r) ''artifact_ref'')"

definition record_error ::
  "(string \<Rightarrow> string) \<Rightarrow> (string \<Rightarrow> artifact) \<Rightarrow> string \<Rightarrow> string option \<Rightarrow> evidence_row \<Rightarrow> string option" where
  "record_error sha fs node previous r =
     (if \<not> truthy (dict_get (vx_payload r) ''required_command_ids'') then Some ''required_command_missing''
      else case evidence_artifact_error fs (vx_payload r) of
          Some e \<Rightarrow> Some e
        | None \<Rightarrow>
            (if vx_previous r \<noteq> previous then Some ''evidence_previous_hash_mismatch''
             else if vx_hash r \<noteq> evidence_hash sha node (vx_seq r) (vx_event r) (vx_payload r) previous
             then Some ''evidence_hash_mismatch'' else None))"

definition publication_of :: "evidence_row \<Rightarrow> dict" where
  "publication_of r =
     [(''submission_id'', dict_get (vx_payload r) ''submission_id''),
      (''candidate_code_hash'', dict_get (vx_payload r) ''candidate_code_hash''),
      (''changed_paths'', case map_of (vx_payload r) ''changed_paths'' of None \<Rightarrow> JList [] | Some v \<Rightarrow> v),
      (''artifact_ref'', JStr (get_str (vx_payload r) ''artifact_ref''))]"

fun scan_chain ::
  "(string \<Rightarrow> string) \<Rightarrow> (string \<Rightarrow> artifact) \<Rightarrow> string \<Rightarrow> evidence_row list \<Rightarrow> string option \<Rightarrow> dict option \<Rightarrow>
   (int \<times> string \<times> json) option \<times> dict option" where
  "scan_chain sha fs node [] previous publication = (None, publication)"
| "scan_chain sha fs node (r # rs) previous publication =
     (case record_error sha fs node previous r of
        Some e \<Rightarrow> (Some (evidence_break r e), publication)
      | None \<Rightarrow> scan_chain sha fs node rs (Some (vx_hash r))
          (if vx_event r = ''published'' then Some (publication_of r) else publication))"

definition validate_evidence_chain ::
  "(string \<Rightarrow> string) \<Rightarrow> (string \<Rightarrow> artifact) \<Rightarrow> evidence_row list \<Rightarrow> string \<Rightarrow> chain_report" where
  "validate_evidence_chain sha fs rows node =
     (let records = list_evidence rows node;
          (break, publication) = scan_chain sha fs node records None None
      in \<lparr>cp_valid = (break = None), cp_count = length records,
          cp_latest_hash = (if records = [] then None else Some (vx_hash (last records))),
          cp_first_break = break, cp_publication = publication\<rparr>)"

end
