(* ===== verification/Canonical_Properties.thy ===== *)
theory Canonical_Properties
  imports Canonical_Json
begin

text \<open>
  The canonical JSON text determines the value: what the hashes over canonical texts rest on.
  A value is in normal form when the keys of every object are in strictly increasing order, as
  \<^verbatim>\<open>json.loads\<close> gives them back from a canonical text.
\<close>

section \<open>Strings\<close>

definition un_hex :: "char \<Rightarrow> nat" where
  "un_hex c = (let n = of_char c :: nat in if n < 58 then n - 48 else n - 87)"

fun unescape :: "string \<Rightarrow> char \<times> string" where
  "unescape (a # s) =
     (if (of_char a :: nat) \<noteq> 92 then (a, s)
      else case s of
          b # s' \<Rightarrow>
            (if b = CHR ''n'' then (char_of (10::nat), s')
             else if b = CHR ''r'' then (char_of (13::nat), s')
             else if b = CHR ''t'' then (char_of (9::nat), s')
             else if b = CHR ''b'' then (char_of (8::nat), s')
             else if b = CHR ''f'' then (char_of (12::nat), s')
             else if b = CHR ''u'' then
               (case drop 2 s' of x # y # s'' \<Rightarrow> (char_of (16 * un_hex x + un_hex y), s'') | _ \<Rightarrow> (b, s'))
             else (b, s'))
        | [] \<Rightarrow> (a, []))"
| "unescape [] = (char_of (0::nat), [])"

lemma un_hex_digit: "n < 16 \<Longrightarrow> un_hex (hex_digit n) = n"
  by (auto simp: un_hex_def hex_digit_def Let_def)

lemma char_if: "(of_char c :: nat) = n \<Longrightarrow> c = char_of n"
  by auto

lemma unescape_escape: "unescape (json_escape c @ s) = (c, s)"
proof -
  have eq: "c = char_of (of_char c :: nat)" by simp
  consider "(of_char c :: nat) < 32" | "(of_char c :: nat) \<in> {34, 92}"
    | "32 \<le> (of_char c :: nat)" "(of_char c :: nat) \<notin> {34, 92}" by fastforce
  then show ?thesis
  proof cases
    case 1
    have "un_hex (hex_digit (of_char c div 16)) = of_char c div 16"
      "un_hex (hex_digit (of_char c mod 16)) = of_char c mod 16"
      using 1 by (auto intro!: un_hex_digit)
    with 1 show ?thesis
      by (auto simp: json_escape_def Let_def char_of_eq_iff eq [symmetric] dest!: char_if)
  next
    case 2
    then have "c = char_of (34::nat) \<or> c = char_of (92::nat)" by (auto dest: char_if)
    then show ?thesis by (auto simp: json_escape_def Let_def)
  next
    case 3
    then show ?thesis by (simp add: json_escape_def Let_def)
  qed
qed

lemma escape_not_quote: "\<exists>a w. json_escape c = a # w \<and> (of_char a :: nat) \<noteq> 34"
  by (auto simp: json_escape_def Let_def)

lemma escape_inj: "json_escape c @ s = json_escape d @ t \<Longrightarrow> c = d \<and> s = t"
  by (metis unescape_escape prod.inject)

lemma escapes_inj:
  "concat (map json_escape a) @ char_of (34::nat) # s = concat (map json_escape b) @ char_of (34::nat) # t
   \<Longrightarrow> a = b \<and> s = t"
proof (induction a arbitrary: b)
  case Nil
  show ?case
  proof (cases b)
    case (Cons c b')
    obtain x w where "json_escape c = x # w" "(of_char x :: nat) \<noteq> 34" using escape_not_quote by blast
    with Nil Cons show ?thesis by auto
  qed (use Nil in simp)
next
  case (Cons c a)
  show ?case
  proof (cases b)
    case Nil
    obtain x w where "json_escape c = x # w" "(of_char x :: nat) \<noteq> 34" using escape_not_quote by blast
    with Nil Cons.prems show ?thesis by auto
  next
    case (Cons d b')
    have "json_escape c @ (concat (map json_escape a) @ char_of (34::nat) # s)
        = json_escape d @ (concat (map json_escape b') @ char_of (34::nat) # t)"
      using Cons.prems Cons by simp
    from escape_inj [OF this] show ?thesis using Cons.IH Cons by blast
  qed
qed

lemma quote_inj: "json_quote a @ s = json_quote b @ t \<Longrightarrow> a = b \<and> s = t"
  by (rule escapes_inj) (simp add: json_quote_def)

section \<open>Numbers\<close>

definition digit :: "char \<Rightarrow> bool" where
  "digit c \<longleftrightarrow> 48 \<le> (of_char c :: nat) \<and> (of_char c :: nat) \<le> 57"

lemma nat_str_digits: "\<forall>c \<in> set (nat_str n). digit c"
proof (induction n rule: nat_str.induct)
  case (1 n)
  then show ?case by (subst nat_str.simps) (auto simp: digit_def)
qed

lemma nat_str_value: "foldl (\<lambda>a c. 10 * a + (of_char c - 48)) 0 (nat_str n) = n"
proof (induction n rule: nat_str.induct)
  case (1 n)
  then show ?case by (subst nat_str.simps) auto
qed

lemma nat_str_inj: "nat_str m = nat_str n \<Longrightarrow> m = n"
  by (metis nat_str_value)

lemma nat_str_nonempty: "nat_str n \<noteq> []"
  by (subst nat_str.simps) auto

lemma minus_not_digit: "\<not> digit (CHR ''-'')"
  by (simp add: digit_def)

lemma int_str_inj: "int_str i = int_str j \<Longrightarrow> i = j"
proof -
  have ne: "nat_str n \<noteq> ''-'' @ w" for n w
    using nat_str_digits [of n] minus_not_digit by auto
  assume "int_str i = int_str j"
  then show ?thesis
    using ne by (auto simp: int_str_def dest!: nat_str_inj split: if_splits) (metis append_Cons)+
qed

lemma int_str_chars: "\<forall>c \<in> set (int_str i). digit c \<or> c = CHR ''-''"
  using nat_str_digits by (auto simp: int_str_def)

section \<open>Values\<close>

fun json_normal :: "json \<Rightarrow> bool" where
  "json_normal (JList vs) = list_all json_normal vs"
| "json_normal (JObj d) = (list_all (\<lambda>(k, v). json_normal v) d \<and> sorted (map fst d) \<and> distinct (map fst d))"
| "json_normal v = True"

text \<open>What may follow a value inside a text.\<close>

definition ends :: "string \<Rightarrow> bool" where
  "ends s \<longleftrightarrow> s = [] \<or> hd s \<in> set '',]}''"

lemma ends_simps [simp]:
  "ends []" "ends (CHR '','' # s)" "ends (CHR '']'' # s)" "ends (CHR ''}'' # s)"
  by (simp_all add: ends_def)

lemma ends_not_number: "ends s \<Longrightarrow> s = c # w \<Longrightarrow> \<not> (digit c \<or> c = CHR ''-'')"
  by (auto simp: ends_def digit_def)

lemma number_prefix: "ends s \<Longrightarrow> takeWhile (\<lambda>c. digit c \<or> c = CHR ''-'') (int_str i @ s) = int_str i"
  using int_str_chars [of i] ends_not_number by (cases s) (auto simp: takeWhile_append takeWhile_eq_all_conv)

lemma number_inj:
  assumes "int_str i @ s = int_str j @ t" and "ends s" and "ends t"
  shows "i = j \<and> s = t"
proof -
  have "int_str i = int_str j" using number_prefix [OF assms(2)] number_prefix [OF assms(3)] assms(1) by metis
  with assms(1) show ?thesis using int_str_inj by auto
qed

text \<open>The elements of an array and the members of an object, each behind its comma.\<close>

lemma join_with_Cons: "join_with sep (w # ws) = w @ concat (map (\<lambda>v. sep @ v) ws)"
  by (induction ws arbitrary: w) auto

definition tokenises :: "('a \<Rightarrow> string) \<Rightarrow> ('a \<Rightarrow> bool) \<Rightarrow> 'a \<Rightarrow> bool" where
  "tokenises f Q x \<longleftrightarrow> (\<forall>y s t. Q y \<longrightarrow> ends s \<longrightarrow> ends t \<longrightarrow> f x @ s = f y @ t \<longrightarrow> x = y \<and> s = t)"

lemma tokenisesD:
  "tokenises f Q x \<Longrightarrow> Q y \<Longrightarrow> ends s \<Longrightarrow> ends t \<Longrightarrow> f x @ s = f y @ t \<Longrightarrow> x = y \<and> s = t"
  unfolding tokenises_def by blast

lemma tail_inj:
  assumes "\<forall>x \<in> set vs. tokenises f Q x" and "\<forall>y \<in> set ws. Q y" and c: "c = CHR '']'' \<or> c = CHR ''}''"
    and "concat (map (\<lambda>v. '','' @ f v) vs) @ c # s = concat (map (\<lambda>v. '','' @ f v) ws) @ c # t"
  shows "vs = ws \<and> s = t"
  using assms
proof (induction vs arbitrary: ws)
  case Nil
  then show ?case by (cases ws) auto
next
  case (Cons v vs)
  then obtain w ws' where ws: "ws = w # ws'" by (cases ws) auto
  have e: "ends (concat (map (\<lambda>v. '','' @ f v) us) @ c # s)" for us s using c by (cases us) auto
  have "f v @ (concat (map (\<lambda>v. '','' @ f v) vs) @ c # s) = f w @ (concat (map (\<lambda>v. '','' @ f v) ws') @ c # t)"
    using Cons.prems(4) by (simp add: ws)
  with tokenisesD [of f Q v w, OF _ _ e e] Cons.prems(1,2) ws
  have "v = w" "concat (map (\<lambda>v. '','' @ f v) vs) @ c # s = concat (map (\<lambda>v. '','' @ f v) ws') @ c # t" by auto
  with Cons.IH [of ws'] Cons.prems(1-3) ws show ?case by auto
qed

lemma joined_inj:
  assumes "\<forall>x \<in> set vs. tokenises f Q x" and "\<forall>y \<in> set ws. Q y" and c: "c = CHR '']'' \<or> c = CHR ''}''"
    and start: "\<And>x w. f x \<noteq> c # w" "\<And>x. f x \<noteq> []"
    and eq: "join_with '','' (map f vs) @ c # s = join_with '','' (map f ws) @ c # t"
  shows "vs = ws \<and> s = t"
proof (cases "vs = [] \<or> ws = []")
  case True
  have "f x @ w \<noteq> c # w'" for x w w' using start by (cases "f x") auto
  from this [symmetric] this show ?thesis
    using True eq by (cases vs; cases ws) (auto simp: join_with_Cons simp del: join_with.simps(2,3))
next
  case False
  then obtain v vs' w ws' where vw: "vs = v # vs'" "ws = w # ws'" by (meson neq_Nil_conv)
  have "concat (map (\<lambda>v. '','' @ f v) vs) @ c # s = concat (map (\<lambda>v. '','' @ f v) ws) @ c # t"
    using eq by (simp add: vw join_with_Cons o_def del: join_with.simps(2,3))
  with tail_inj [OF assms(1,2) c] show ?thesis by blast
qed


section \<open>Injectivity\<close>

lemma int_str_first: "\<exists>c w. int_str i = c # w \<and> (digit c \<or> c = CHR ''-'')"
proof -
  obtain c w where "int_str i = c # w"
    using nat_str_nonempty by (cases "int_str i") (auto simp: int_str_def split: if_splits)
  then show ?thesis using int_str_chars [of i] by auto
qed

lemma quote_first: "\<exists>w. json_quote s = CHR 0x22 # w"
  by (simp add: json_quote_def char_of_eq_iff)

text \<open>The kind of a value shows in the first character of its text.\<close>

fun kind :: "json \<Rightarrow> nat" where
  "kind JNull = 0" | "kind (JBool b) = (if b then 1 else 2)" | "kind (JInt _) = 3"
| "kind (JStr _) = 4" | "kind (JList _) = 5" | "kind (JObj _) = 6"

definition char_kind :: "char \<Rightarrow> nat" where
  "char_kind c = (if c = CHR ''n'' then 0 else if c = CHR ''t'' then 1 else if c = CHR ''f'' then 2
     else if digit c \<or> c = CHR ''-'' then 3 else if c = CHR 0x22 then 4
     else if c = CHR ''['' then 5 else if c = CHR ''{'' then 6 else 7)"

lemma char_kind_number: "digit c \<or> c = CHR ''-'' \<Longrightarrow> char_kind c = 3"
  by (auto simp: char_kind_def digit_def)

lemma char_kind_simps [simp]:
  "char_kind (CHR ''n'') = 0" "char_kind (CHR ''t'') = 1" "char_kind (CHR ''f'') = 2"
  "char_kind (CHR 0x22) = 4" "char_kind (CHR ''['') = 5" "char_kind (CHR ''{'') = 6"
  "char_kind (CHR '']'') = 7" "char_kind (CHR ''}'') = 7"
  by (simp_all add: char_kind_def digit_def)

lemma first_kind: "\<exists>c w. canonical_json v = c # w \<and> char_kind c = kind v"
proof (cases v)
  case (JInt i)
  obtain c w where "int_str i = c # w" "digit c \<or> c = CHR ''-''" using int_str_first by blast
  with JInt char_kind_number show ?thesis by simp
next
  case (JStr s)
  then show ?thesis using quote_first [of s] by auto
qed (simp_all del: join_with.simps)

lemma kind_eq: "canonical_json v @ s = canonical_json w @ t \<Longrightarrow> kind v = kind w"
  using first_kind [of v] first_kind [of w] by auto

lemma starts_open: "canonical_json v \<noteq> CHR '']'' # w" "canonical_json v \<noteq> CHR ''}'' # w" "canonical_json v \<noteq> []"
proof -
  have "kind v \<le> 6" by (cases v) auto
  then show "canonical_json v \<noteq> CHR '']'' # w" "canonical_json v \<noteq> CHR ''}'' # w" "canonical_json v \<noteq> []"
    using first_kind [of v] by auto
qed

abbreviation member :: "string \<times> json \<Rightarrow> string" where
  "member \<equiv> \<lambda>(k, v). json_quote k @ '':'' @ canonical_json v"

lemma normal_object_text:
  assumes "json_normal (JObj d)"
  shows "canonical_json (JObj d) = ''{'' @ join_with '','' (map member d) @ ''}''"
proof -
  have "map fst (map (\<lambda>(k, v). (k, canonical_json v)) d) = map fst d" by (induction d) auto
  then have "sort_key fst (map (\<lambda>(k, v). (k, canonical_json v)) d) = map (\<lambda>(k, v). (k, canonical_json v)) d"
    using assms by (intro sort_key_id_if_sorted) (simp del: map_map)
  then show ?thesis by (simp add: case_prod_unfold o_def)
qed

lemma member_tokenises:
  assumes "tokenises canonical_json json_normal v"
  shows "tokenises member (\<lambda>(k, v). json_normal v) (k, v)"
  unfolding tokenises_def
proof (intro allI impI)
  fix y s t assume y: "case y of (k, v) \<Rightarrow> json_normal v" and ends: "ends s" "ends t"
    and eq: "member (k, v) @ s = member y @ t"
  obtain l w where [simp]: "y = (l, w)" by (cases y)
  from eq have "json_quote k @ '':'' @ canonical_json v @ s = json_quote l @ '':'' @ canonical_json w @ t" by simp
  from quote_inj [OF this] have "k = l" "canonical_json v @ s = canonical_json w @ t" by auto
  with tokenisesD [OF assms _ ends this(2)] y show "(k, v) = y \<and> s = t" by simp
qed

lemma tokenises_kind:
  assumes "\<And>y s t. json_normal y \<Longrightarrow> ends s \<Longrightarrow> ends t \<Longrightarrow> kind v = kind y \<Longrightarrow>
    canonical_json v @ s = canonical_json y @ t \<Longrightarrow> v = y \<and> s = t"
  shows "tokenises canonical_json json_normal v"
  unfolding tokenises_def using assms kind_eq by blast

lemma canonical_tokenises: "json_normal v \<Longrightarrow> tokenises canonical_json json_normal v"
proof (induction v)
  case JNull
  show ?case by (rule tokenises_kind, case_tac y) (auto split: if_splits)
next
  case (JBool b)
  show ?case by (rule tokenises_kind, case_tac y) (auto split: if_splits)
next
  case (JInt i)
  show ?case by (rule tokenises_kind, case_tac y) (auto dest: number_inj split: if_splits)
next
  case (JStr a)
  show ?case by (rule tokenises_kind, case_tac y) (auto dest: quote_inj split: if_splits)
next
  case (JList vs)
  show ?case
    unfolding tokenises_def
  proof (intro allI impI)
    fix y s t assume y: "json_normal y" "ends s" "ends t" "canonical_json (JList vs) @ s = canonical_json y @ t"
    obtain ws where [simp]: "y = JList ws" using kind_eq [OF y(4)] by (cases y) (auto split: if_splits)
    have "vs = ws \<and> s = t"
    proof (rule joined_inj)
      show "\<forall>x \<in> set vs. tokenises canonical_json json_normal x" using JList by (auto simp: list_all_iff)
      show "\<forall>y \<in> set ws. json_normal y" using y(1) by (simp add: list_all_iff)
      show "CHR '']'' = CHR '']'' \<or> CHR '']'' = CHR ''}''" by simp
    qed (use y(4) starts_open in auto)
    then show "JList vs = y \<and> s = t" by simp
  qed
next
  case (JObj d)
  show ?case
    unfolding tokenises_def
  proof (intro allI impI)
    fix y s t assume y: "json_normal y" "ends s" "ends t" "canonical_json (JObj d) @ s = canonical_json y @ t"
    obtain e where [simp]: "y = JObj e" using kind_eq [OF y(4)] by (cases y) (auto split: if_splits)
    have "d = e \<and> s = t"
    proof (rule joined_inj)
      show "\<forall>x \<in> set d. tokenises member (\<lambda>(k, v). json_normal v) x"
      proof
        fix x assume x: "x \<in> set d"
        obtain k v where [simp]: "x = (k, v)" by (cases x)
        have "json_normal v" using JObj.prems x by (auto simp: list_all_iff)
        with JObj.IH [OF x, of v] show "tokenises member (\<lambda>(k, v). json_normal v) x"
          using member_tokenises by simp
      qed
      show "\<forall>x \<in> set e. case x of (k, v) \<Rightarrow> json_normal v" using y(1) by (simp add: list_all_iff)
      show "CHR ''}'' = CHR '']'' \<or> CHR ''}'' = CHR ''}''" by simp
      show "member x \<noteq> CHR ''}'' # w" "member x \<noteq> []" for x w by (cases x, simp add: json_quote_def char_of_eq_iff)+
      show "join_with '','' (map member d) @ CHR ''}'' # s = join_with '','' (map member e) @ CHR ''}'' # t"
        using y(4) normal_object_text [OF JObj.prems] normal_object_text [of e] y(1) by simp
    qed
    then show "JObj d = y \<and> s = t" by simp
  qed
qed

lemma canonical_inj: "json_normal v \<Longrightarrow> json_normal w \<Longrightarrow> canonical_json v = canonical_json w \<Longrightarrow> v = w"
  using tokenisesD [OF canonical_tokenises, of v w "[]" "[]"] by simp

text \<open>
  Canonical JSON is injective: two values in normal form, which is the form of every
  decoded canonical text, have the same canonical text only if they are the same value, so a
  collision-free digest of the text identifies the value.
\<close>

theorem canonical_text_identifies:
  "inj_on canonical_json {v. json_normal v}"
  by (rule inj_onI) (use canonical_inj in auto)

end
