(* ===== verification/Evidence_Properties.thy ===== *)
theory Evidence_Properties
  imports Evidence_Chain Canonical_Properties
begin

text \<open>
  The evidence chain grows soundly and is tamper evident: a valid chain is determined by the hash
  of its last record.
\<close>

section \<open>Linked chains\<close>

text \<open>What an unbroken scan means: every record is in order and links to the one before.\<close>

fun linked ::
  "(string \<Rightarrow> string) \<Rightarrow> (string \<Rightarrow> artifact) \<Rightarrow> string \<Rightarrow> string option \<Rightarrow> evidence_row list \<Rightarrow> bool" where
  "linked sha fs node previous [] = True"
| "linked sha fs node previous (r # rs) =
     (record_error sha fs node previous r = None \<and> linked sha fs node (Some (vx_hash r)) rs)"

lemma scan_chain_linked: "fst (scan_chain sha fs node rs previous pub) = None \<longleftrightarrow> linked sha fs node previous rs"
  by (induction rs arbitrary: previous pub) (auto split: option.split)

lemma valid_linked: "cp_valid (validate_evidence_chain sha fs rows node) \<longleftrightarrow> linked sha fs node None (list_evidence rows node)"
  using scan_chain_linked [of sha fs node "list_evidence rows node" None None]
  by (simp add: validate_evidence_chain_def Let_def case_prod_beta)

lemma linked_snoc:
  "linked sha fs node previous (rs @ [r]) \<longleftrightarrow> linked sha fs node previous rs
     \<and> record_error sha fs node (if rs = [] then previous else Some (vx_hash (last rs))) r = None"
  by (induction rs arbitrary: previous) auto

lemma insort_key_snoc: "f x \<le> f r \<Longrightarrow> insort_key f x (ys @ [r]) = insort_key f x ys @ [r]"
  by (induction ys) auto

lemma sort_key_snoc_greatest:
  "\<forall>x \<in> set xs. f x \<le> f r \<Longrightarrow> sort_key f (xs @ [r]) = sort_key f xs @ [r]"
  by (induction xs) (auto simp: insort_key_snoc)

lemma list_evidence_last:
  assumes "x \<in> set (list_evidence rows node)"
  shows "vx_seq x \<le> vx_seq (last (list_evidence rows node))"
proof -
  have "sorted (map vx_seq (list_evidence rows node))" by (simp add: list_evidence_def)
  moreover obtain ys z where yz: "list_evidence rows node = ys @ [z]"
    using assms by (cases "list_evidence rows node" rule: rev_cases) auto
  ultimately show ?thesis using assms by (auto simp: sorted_append)
qed

lemma append_chain:
  assumes "cp_valid (validate_evidence_chain sha fs rows node)"
    and "append_evidence sha fs now rows node event payload = Inr (r, rows')"
  shows "cp_valid (validate_evidence_chain sha fs rows' node)
     \<and> cp_count (validate_evidence_chain sha fs rows' node) = Suc (cp_count (validate_evidence_chain sha fs rows node))
     \<and> cp_latest_hash (validate_evidence_chain sha fs rows' node) = Some (vx_hash r)
     \<and> list_evidence rows' m =
         (if m = node then list_evidence rows node @ [evidence_content.extend r \<lparr>vx_created_at = now\<rparr>] else list_evidence rows m)"
proof -
  let ?prev = "latest_evidence rows node"
  obtain safe row where safe: "sanitize_evidence fs node payload = Inr safe"
    and r: "row = \<lparr>vx_node = node, vx_seq = (case ?prev of None \<Rightarrow> 1 | Some x \<Rightarrow> vx_seq x + 1), vx_event = event,
      vx_payload = safe, vx_previous = map_option vx_hash ?prev,
      vx_hash = evidence_hash sha node (case ?prev of None \<Rightarrow> 1 | Some x \<Rightarrow> vx_seq x + 1) event safe
        (map_option vx_hash ?prev), vx_created_at = now\<rparr>"
    and rows': "rows' = rows @ [row]" and content: "r = evidence_content.truncate row"
    using assms(2) by (auto simp: append_evidence_def bind_result_Inr Let_def)
  have prev: "?prev = (if list_evidence rows node = [] then None else Some (last (list_evidence rows node)))"
    by (simp add: latest_evidence_def split: list.split)
  have "\<forall>x \<in> set (filter (\<lambda>r. vx_node r = node) rows). vx_seq x \<le> vx_seq row"
  proof
    fix x assume "x \<in> set (filter (\<lambda>r. vx_node r = node) rows)"
    then have x: "x \<in> set (list_evidence rows node)" by (simp add: list_evidence_def)
    then have "list_evidence rows node \<noteq> []" by auto
    with list_evidence_last [OF x] show "vx_seq x \<le> vx_seq row" by (simp add: r prev)
  qed
  then have here: "list_evidence rows' node = list_evidence rows node @ [row]"
    by (simp add: list_evidence_def rows' r sort_key_snoc_greatest [symmetric])
  have others: "list_evidence rows' m = list_evidence rows m" if "m \<noteq> node"
    using that by (simp add: list_evidence_def rows' r)
  have "record_error sha fs node (if list_evidence rows node = [] then None
      else Some (vx_hash (last (list_evidence rows node)))) row = None"
    using safe by (auto simp: record_error_def r prev sanitize_evidence_def Let_def split: if_splits option.splits)
  then have "linked sha fs node None (list_evidence rows' node)"
    using assms(1) by (simp add: here linked_snoc valid_linked [symmetric])
  moreover have "row = evidence_content.extend r \<lparr>vx_created_at = now\<rparr>" "vx_hash r = vx_hash row"
    by (simp_all add: content r evidence_content.defs)
  ultimately show ?thesis
    using here others by (simp add: valid_linked) (simp add: validate_evidence_chain_def Let_def case_prod_beta)
qed

definition demo_evidence :: dict where
  "demo_evidence = [(''artifact_digest'', JStr ''d1''), (''artifact_ref'', JStr ''a''), (''node_id'', JStr ''n''),
     (''required_command_ids'', JList [JStr ''unit''])]"

definition demo_record :: "string \<Rightarrow> int \<Rightarrow> string option \<Rightarrow> evidence_row" where
  "demo_record tm seq previous = \<lparr>vx_node = ''n'', vx_seq = seq, vx_event = ''published'', vx_payload = demo_evidence,
     vx_previous = previous, vx_hash = evidence_hash id ''n'' seq ''published'' demo_evidence previous, vx_created_at = tm\<rparr>"

definition demo_chain :: "evidence_row list" where
  "demo_chain = [demo_record ''t'' 1 None, demo_record ''t'' 2 (Some (vx_hash (demo_record ''t'' 1 None)))]"

lemma demo_chain_list: "list_evidence demo_chain ''n'' = demo_chain" "list_evidence (rev demo_chain) ''n'' = demo_chain"
  by (simp_all add: list_evidence_def demo_chain_def demo_record_def)

lemma demo_chain_valid: "cp_valid (validate_evidence_chain id (\<lambda>_. Artifact_File ''d1'') demo_chain ''n'')"
  "cp_valid (validate_evidence_chain id (\<lambda>_. Artifact_File ''d1'') (rev demo_chain) ''n'')"
  by (simp_all add: valid_linked demo_chain_list)
    (simp_all add: demo_chain_def demo_record_def record_error_def evidence_artifact_error_def
      get_str_def dict_get_def demo_evidence_def)

text \<open>
  Appending keeps the evidence chain sound. A record that is accepted extends the node's
  valid chain to a valid chain, with one more record, whose hash is the new head, and the
  chains of the other nodes are untouched.
\<close>

theorem append_keeps_chain:
  assumes "cp_valid (validate_evidence_chain sha fs rows node)"
    and "append_evidence sha fs now rows node event payload = Inr (r, rows')"
  shows "cp_valid (validate_evidence_chain sha fs rows' node)
     \<and> cp_count (validate_evidence_chain sha fs rows' node) = Suc (cp_count (validate_evidence_chain sha fs rows node))
     \<and> cp_latest_hash (validate_evidence_chain sha fs rows' node) = Some (vx_hash r)
     \<and> list_evidence rows' m =
         (if m = node then list_evidence rows node @ [evidence_content.extend r \<lparr>vx_created_at = now\<rparr>] else list_evidence rows m)"
  using assms by (rule append_chain)

lemma demo_append: "\<exists>r rows'. append_evidence id (\<lambda>_. Artifact_File ''d1'') ''t'' demo_chain ''n'' ''published'' demo_evidence = Inr (r, rows')"
  by (simp add: append_evidence_def sanitize_evidence_def Let_def demo_evidence_def evidence_keys_def
      evidence_artifact_error_def get_str_def dict_get_def)

theorem append_keeps_chain_witness:
  "\<exists>rows'. cp_count (validate_evidence_chain id (\<lambda>_. Artifact_File ''d1'') rows' ''n'') = 3
     \<and> cp_valid (validate_evidence_chain id (\<lambda>_. Artifact_File ''d1'') rows' ''n'')"
proof -
  obtain r rows' where "append_evidence id (\<lambda>_. Artifact_File ''d1'') ''t'' demo_chain ''n'' ''published'' demo_evidence = Inr (r, rows')"
    using demo_append by blast
  note new = append_keeps_chain [OF demo_chain_valid(1) this]
  have "cp_count (validate_evidence_chain id (\<lambda>_. Artifact_File ''d1'') demo_chain ''n'') = 2"
    by (simp add: validate_evidence_chain_def Let_def case_prod_beta demo_chain_list) (simp add: demo_chain_def)
  with new show ?thesis by auto
qed

section \<open>Tampering\<close>

definition evidence_material :: "string \<Rightarrow> evidence_row \<Rightarrow> string" where
  "evidence_material node r = canonical_json (JObj [(''node_id'', JStr node), (''evidence_seq'', JInt (vx_seq r)),
     (''event'', JStr (vx_event r)), (''payload'', JObj (vx_payload r)), (''previous_hash'', opt_str (vx_previous r))])"

lemma evidence_material_normal:
  "evidence_material node r = canonical_json (JObj [(''event'', JStr (vx_event r)), (''evidence_seq'', JInt (vx_seq r)),
     (''node_id'', JStr node), (''payload'', JObj (vx_payload r)), (''previous_hash'', opt_str (vx_previous r))])"
  by (simp add: evidence_material_def del: join_with.simps)

lemma opt_str_normal [simp]: "json_normal (opt_str x)"
  by (cases x) auto

lemma opt_str_inj: "opt_str x = opt_str y \<Longrightarrow> x = y"
  by (cases x; cases y) auto

lemma evidence_material_inj:
  assumes "json_normal (JObj (vx_payload r))" and "json_normal (JObj (vx_payload r'))"
    and "evidence_material node r = evidence_material node r'"
  shows "vx_seq r = vx_seq r' \<and> vx_event r = vx_event r' \<and> vx_payload r = vx_payload r'
    \<and> vx_previous r = vx_previous r'"
  using canonical_inj [OF _ _ assms(3) [unfolded evidence_material_normal]] assms(1,2)
  by (auto dest: opt_str_inj)

lemma linked_material:
  "record_error sha fs node previous r = None \<Longrightarrow>
   vx_previous r = previous \<and> vx_hash r = sha (evidence_material node r)"
  by (auto simp: record_error_def evidence_hash_def evidence_material_def split: if_splits option.splits)

lemma linked_head_unique:
  assumes "linked sha fs node None rs" and "linked sha fs node None rs'"
    and "map_option vx_hash (if rs = [] then None else Some (last rs))
       = map_option vx_hash (if rs' = [] then None else Some (last rs'))"
    and "\<forall>r \<in> set rs \<union> set rs'. vx_node r = node \<and> json_normal (JObj (vx_payload r))"
    and "inj_on sha (evidence_material node ` (set rs \<union> set rs'))"
  shows "map evidence_content.truncate rs = map evidence_content.truncate rs'"
  using assms
proof (induction rs arbitrary: rs' rule: rev_induct)
  case Nil
  then show ?case by (auto split: if_splits)
next
  case (snoc r rs)
  have "rs' \<noteq> []" using snoc.prems(3) by auto
  then obtain ss s where rs': "rs' = ss @ [s]" by (metis append_butlast_last_id)
  let ?prev = "\<lambda>xs. if xs = [] then None else Some (vx_hash (last xs))"
  have r: "linked sha fs node None rs" "vx_previous r = ?prev rs" "vx_hash r = sha (evidence_material node r)"
    and s: "linked sha fs node None ss" "vx_previous s = ?prev ss" "vx_hash s = sha (evidence_material node s)"
    using snoc.prems(1,2) by (auto simp: rs' linked_snoc dest!: linked_material split: if_splits)
  have hash: "vx_hash r = vx_hash s" using snoc.prems(3) by (simp add: rs')
  have "evidence_material node r = evidence_material node s"
  proof (rule inj_onD [OF snoc.prems(5)])
    show "sha (evidence_material node r) = sha (evidence_material node s)"
      using hash by (simp only: r(3) s(3))
  qed (simp_all add: rs')
  moreover have "json_normal (JObj (vx_payload r))" "json_normal (JObj (vx_payload s))"
    and node: "vx_node r = vx_node s"
    using snoc.prems(4) by (simp_all add: rs' del: json_normal.simps)
  ultimately have same: "vx_seq r = vx_seq s" "vx_event r = vx_event s" "vx_payload r = vx_payload s"
    "vx_previous r = vx_previous s" using evidence_material_inj by blast+
  have "evidence_content.truncate r = evidence_content.truncate s"
    using same hash node by (simp add: evidence_content.defs)
  moreover have "map evidence_content.truncate rs = map evidence_content.truncate ss"
  proof (rule snoc.IH [OF r(1) s(1)])
    show "map_option vx_hash (if rs = [] then None else Some (last rs))
       = map_option vx_hash (if ss = [] then None else Some (last ss))"
      using same(4) r(2) s(2) by (auto split: if_splits)
    show "inj_on sha (evidence_material node ` (set rs \<union> set ss))"
      by (rule inj_on_subset [OF snoc.prems(5)]) (auto simp: rs')
  qed (use snoc.prems(4) in \<open>simp add: rs' del: json_normal.simps\<close>)
  ultimately show ?case by (simp add: rs')
qed

lemma latest_hash: "cp_latest_hash (validate_evidence_chain sha fs rows node)
    = map_option vx_hash (if list_evidence rows node = [] then None else Some (last (list_evidence rows node)))"
  by (simp add: validate_evidence_chain_def Let_def case_prod_beta)

lemma evidence_of_node: "r \<in> set (list_evidence rows node) \<Longrightarrow> vx_node r = node"
  by (simp add: list_evidence_def)

text \<open>
  C38. The chain is tamper evident. Where the digest has no collision among the records hashed,
  two states of the evidence table (before and after any manipulation of its rows) whose chains
  for a node are both valid and end in the same hash hold the same evidence for it, record by record: the
  number, event, payload, hash and link of no record can be altered, and none can be removed or
  inserted, without breaking the chain or changing its head. The time of a row, which the hash does not cover,
  is left out (\<open>created_at_unprotected\<close>).
\<close>

theorem tamper_evident:
  assumes "cp_valid (validate_evidence_chain sha fs rows node)"
    and "cp_valid (validate_evidence_chain sha fs rows' node)"
    and "cp_latest_hash (validate_evidence_chain sha fs rows node) = cp_latest_hash (validate_evidence_chain sha fs rows' node)"
    and "\<forall>r \<in> set (rows @ rows'). json_normal (JObj (vx_payload r))"
    and "inj_on sha (evidence_material node ` set (list_evidence rows node @ list_evidence rows' node))"
  shows "map evidence_content.truncate (list_evidence rows node) = map evidence_content.truncate (list_evidence rows' node)"
proof (rule linked_head_unique)
  show "linked sha fs node None (list_evidence rows node)" "linked sha fs node None (list_evidence rows' node)"
    using assms(1,2) by (simp_all add: valid_linked)
  show "\<forall>r \<in> set (list_evidence rows node) \<union> set (list_evidence rows' node).
      vx_node r = node \<and> json_normal (JObj (vx_payload r))"
    using assms(4) evidence_of_node by (auto simp: list_evidence_def simp del: json_normal.simps)
qed (use assms(3,5) in \<open>simp_all add: latest_hash\<close>)

theorem tamper_evident_witness:
  "map evidence_content.truncate (list_evidence demo_chain ''n'')
     = map evidence_content.truncate (list_evidence (rev demo_chain) ''n'')"
proof (rule tamper_evident [OF demo_chain_valid])
  show "\<forall>r \<in> set (demo_chain @ rev demo_chain). json_normal (JObj (vx_payload r))"
    by (simp add: demo_chain_def demo_record_def demo_evidence_def)
qed (simp_all add: latest_hash demo_chain_list)

text \<open>The time of a row is not part of what is hashed: changing it is not noticed\<close>

lemma created_at_unprotected:
  "validate_evidence_chain sha fs (map (\<lambda>r. r\<lparr>vx_created_at := f r\<rparr>) rows) node = validate_evidence_chain sha fs rows node"
proof -
  have insort: "insort_key vx_seq (x\<lparr>vx_created_at := f x\<rparr>) (map (\<lambda>r. r\<lparr>vx_created_at := f r\<rparr>) ys)
      = map (\<lambda>r. r\<lparr>vx_created_at := f r\<rparr>) (insort_key vx_seq x ys)" for x and ys :: "evidence_row list"
    by (induction ys) auto
  have list: "list_evidence (map (\<lambda>r. r\<lparr>vx_created_at := f r\<rparr>) rows) node
      = map (\<lambda>r. r\<lparr>vx_created_at := f r\<rparr>) (list_evidence rows node)"
    by (induction rows) (auto simp: list_evidence_def insort)
  have scan: "scan_chain sha fs node (map (\<lambda>r. r\<lparr>vx_created_at := f r\<rparr>) rs) previous pub = scan_chain sha fs node rs previous pub"
    for rs previous pub
    by (induction rs arbitrary: previous pub) (simp_all add: record_error_def evidence_break_def publication_of_def split: option.split)
  show ?thesis by (simp add: validate_evidence_chain_def Let_def list scan last_map)
qed

end
