(* ===== verification/Path_Norm.thy ===== *)
theory Path_Norm
  imports Bridle_Prelude
begin

text \<open>
  Path texts: \<^verbatim>\<open>posixpath.normpath\<close> of the Python library, which the authorization rules
  and the change outbox use, and what a normalised relative path looks like.
\<close>

definition here :: string where
  "here = ''.''"

definition up :: string where
  "up = ''..''"

lemma up_here [simp]: "up \<noteq> here" "here \<noteq> up" "up \<noteq> []" "here \<noteq> []" "[] \<noteq> up" "[] \<noteq> here"
  "CHR ''/'' \<notin> set up" "CHR ''/'' \<notin> set here"
  by (simp_all add: up_def here_def)

text \<open>The components kept so far, the last one first.\<close>

fun norm_comps :: "bool \<Rightarrow> string list \<Rightarrow> string list \<Rightarrow> string list" where
  "norm_comps absolute acc [] = rev acc"
| "norm_comps absolute acc (c # cs) =
     (if c = [] \<or> c = here then norm_comps absolute acc cs
      else if c \<noteq> up \<or> (\<not> absolute \<and> acc = []) \<or> (acc \<noteq> [] \<and> hd acc = up)
      then norm_comps absolute (c # acc) cs
      else norm_comps absolute (tl acc) cs)"

definition normpath :: "string \<Rightarrow> string" where
  "normpath path =
     (if path = [] then here
      else let slashes = (if startswith path ''//'' \<and> \<not> startswith path ''///'' then ''//''
                          else if startswith path ''/'' then ''/'' else []);
               text = slashes @ join_with ''/'' (norm_comps (slashes \<noteq> []) [] (split_on (CHR ''/'') path))
           in if text = [] then here else text)"

section \<open>Relative paths\<close>

text \<open>A component that names an entry of its directory.\<close>

definition plain :: "string \<Rightarrow> bool" where
  "plain c \<longleftrightarrow> c \<noteq> [] \<and> c \<noteq> here \<and> c \<noteq> up \<and> CHR ''/'' \<notin> set c"

text \<open>Leading parents, then plain components.\<close>

definition updown :: "string list \<Rightarrow> bool" where
  "updown cs \<longleftrightarrow> list_all plain (dropWhile (\<lambda>c. c = up) cs)"

lemma updown_snoc:
  "updown cs \<Longrightarrow> c = up \<and> (cs = [] \<or> last cs = up) \<or> plain c \<Longrightarrow> updown (cs @ [c])"
proof -
  assume cs: "updown cs" and c: "c = up \<and> (cs = [] \<or> last cs = up) \<or> plain c"
  have c': "list_all plain (dropWhile (\<lambda>c. c = up) [c])" using c by (auto simp: plain_def)
  show ?thesis
  proof (cases "\<forall>d \<in> set cs. d = up")
    case True
    then have "dropWhile (\<lambda>c. c = up) (cs @ [c]) = dropWhile (\<lambda>c. c = up) [c]" by (intro dropWhile_append2) auto
    with c' show ?thesis by (simp only: updown_def)
  next
    case False
    then obtain d where "d \<in> set cs" "d \<noteq> up" by blast
    then have drop: "dropWhile (\<lambda>c. c = up) (cs @ [c]) = dropWhile (\<lambda>c. c = up) cs @ [c]" by (rule dropWhile_append1)
    have ne: "dropWhile (\<lambda>c. c = up) cs \<noteq> []" using False by (simp add: dropWhile_eq_Nil_conv)
    have "last (dropWhile (\<lambda>c. c = up) cs) = last cs"
      using ne by (metis last_appendR takeWhile_dropWhile_id)
    moreover have "plain (last (dropWhile (\<lambda>c. c = up) cs))"
      using cs last_in_set [OF ne] by (simp add: updown_def list_all_iff)
    ultimately have "last cs \<noteq> up" by (auto simp: plain_def)
    with False c have "plain c" by auto
    with cs drop show ?thesis by (simp add: updown_def)
  qed
qed

lemma updown_butlast: "updown cs \<Longrightarrow> updown (butlast cs)"
proof (induction cs)
  case (Cons d cs)
  then show ?case by (auto simp: updown_def list_all_iff dest: in_set_butlastD split: if_splits)
qed (simp add: updown_def)

lemma norm_comps_updown:
  "updown (rev acc) \<Longrightarrow> \<forall>c \<in> set cs. CHR ''/'' \<notin> set c \<Longrightarrow> updown (norm_comps False acc cs)"
proof (induction cs arbitrary: acc)
  case (Cons c cs)
  have slash: "\<forall>c \<in> set cs. CHR ''/'' \<notin> set c" and c: "CHR ''/'' \<notin> set c" using Cons.prems(2) by auto
  consider "c = [] \<or> c = here"
    | "\<not> (c = [] \<or> c = here)" "c \<noteq> up \<or> acc = [] \<or> (acc \<noteq> [] \<and> hd acc = up)"
    | "c = up" "acc \<noteq> []" "hd acc \<noteq> up" by auto
  then show ?case
  proof cases
    case 1
    then have "norm_comps False acc (c # cs) = norm_comps False acc cs" by simp
    with Cons.IH [OF Cons.prems(1) slash] show ?thesis by simp
  next
    case 2
    have "updown (rev acc @ [c])"
      using 2 c by (intro updown_snoc [OF Cons.prems(1)]) (auto simp: plain_def last_rev)
    moreover have "norm_comps False acc (c # cs) = norm_comps False (c # acc) cs" using 2 by auto
    ultimately show ?thesis using Cons.IH [of "c # acc", OF _ slash] by simp
  next
    case 3
    have "rev (tl acc) = butlast (rev acc)" using 3(2) by (cases acc) auto
    then have "updown (rev (tl acc))" using updown_butlast [OF Cons.prems(1)] by simp
    moreover have "norm_comps False acc (c # cs) = norm_comps False (tl acc) cs" using 3 by simp
    ultimately show ?thesis using Cons.IH [of "tl acc", OF _ slash] by simp
  qed
qed simp

lemma updown_plain: "updown cs \<Longrightarrow> cs = [] \<or> hd cs \<noteq> up \<Longrightarrow> list_all plain cs"
  by (cases cs) (auto simp: updown_def)

lemma norm_comps_plain: "list_all plain cs \<Longrightarrow> norm_comps absolute acc cs = rev acc @ cs"
  by (induction cs arbitrary: acc) (auto simp: plain_def)

lemma split_join_plain:
  "list_all plain cs \<Longrightarrow> cs \<noteq> [] \<Longrightarrow> split_on (CHR ''/'') (join_with ''/'' cs) = cs"
  by (rule split_join_on) (auto simp: list_all_iff plain_def)

text \<open>What a relative path that stays below its root is normalised to.\<close>

definition confined :: "string \<Rightarrow> bool" where
  "confined p \<longleftrightarrow> p = here \<or> (\<exists>cs. cs \<noteq> [] \<and> list_all plain cs \<and> p = join_with ''/'' cs)"

lemma join_hd: "join_with ''/'' (c # cs) = c @ (if cs = [] then [] else CHR ''/'' # join_with ''/'' cs)"
  by (cases cs) auto

lemma normpath_confined:
  assumes "\<not> startswith path ''/''" and "normpath path \<noteq> up" and "\<not> startswith (normpath path) (up @ ''/'')"
  shows "confined (normpath path)"
proof (cases "path = []")
  case False
  have slashes: "\<not> startswith path ''//''" using assms(1) by (auto simp: startswith_iff)
  let ?cs = "norm_comps False [] (split_on (CHR ''/'') path)"
  have eq: "normpath path = (if join_with ''/'' ?cs = [] then here else join_with ''/'' ?cs)"
    using False assms(1) slashes by (simp add: normpath_def Let_def)
  have "updown ?cs"
    by (rule norm_comps_updown) (auto simp: updown_def dest: split_on_no_delim)
  moreover have "?cs = [] \<or> hd ?cs \<noteq> up"
    using assms(2,3) eq by (cases ?cs) (auto simp: join_hd startswith_def split: if_splits)
  ultimately have "list_all plain ?cs" by (rule updown_plain)
  then show ?thesis using eq by (cases "?cs = []") (auto simp: confined_def)
qed (simp add: normpath_def confined_def)

lemma plain_join:
  assumes "list_all plain cs" and "cs \<noteq> []"
  shows "\<not> startswith (join_with ''/'' cs) ''/''" and "join_with ''/'' cs \<noteq> []"
    and "join_with ''/'' cs \<noteq> up" and "\<not> startswith (join_with ''/'' cs) (up @ ''/'')"
proof -
  have parts: "split_on (CHR ''/'') (join_with ''/'' cs) = cs" by (rule split_join_plain [OF assms])
  have hd: "plain (hd cs)" using assms by (cases cs) auto
  have "hd cs = []" if "startswith (join_with ''/'' cs) ''/''"
    using that parts by (auto simp: startswith_iff)
  then show "\<not> startswith (join_with ''/'' cs) ''/''" using hd by (auto simp: plain_def)
  show "join_with ''/'' cs \<noteq> []" using parts hd by (auto simp: plain_def)
  have "split_on (CHR ''/'') up = [up]" by (rule split_on_word) simp
  then show "join_with ''/'' cs \<noteq> up" using parts hd by (metis list.sel(1) plain_def up_def)
  have "hd cs = up" if "startswith (join_with ''/'' cs) (up @ ''/'')"
  proof -
    have "\<exists>t. join_with ''/'' cs = up @ CHR ''/'' # t" using that by (auto simp: startswith_iff)
    then obtain t where "join_with ''/'' cs = up @ CHR ''/'' # t" ..
    moreover have "split_on (CHR ''/'') (up @ CHR ''/'' # t) = up # split_on (CHR ''/'') t" by (rule split_on_append) simp
    ultimately show ?thesis using parts by (metis list.sel(1))
  qed
  then show "\<not> startswith (join_with ''/'' cs) (up @ ''/'')" using hd by (auto simp: plain_def)
qed

lemma normpath_fixed:
  assumes "confined p"
  shows "normpath p = p"
proof -
  from assms consider "p = here" | cs where "cs \<noteq> []" "list_all plain cs" "p = join_with ''/'' cs"
    by (auto simp: confined_def)
  then show ?thesis
  proof cases
    case 1
    then show ?thesis by (simp add: normpath_def startswith_def here_def)
  next
    case 2
    note j = plain_join [OF 2(2,1)]
    have "\<not> startswith p ''//''" using j(1) 2(3) by (auto simp: startswith_iff)
    with j show ?thesis
      by (simp add: normpath_def Let_def 2(3) split_join_plain [OF 2(2,1)] norm_comps_plain [OF 2(2)])
  qed
qed

end
