(* ===== verification/Authorization.thy ===== *)
theory Authorization
  imports Path_Norm Canonical_Json Test_Contract "HOL-Library.Product_Lexorder"
begin

text \<open>
  The authorization contracts of \<^verbatim>\<open>agent/runtime/authorization.py\<close>: normalising grants,
  deciding a request, deriving a child grant, and the revocation tokens with the reservation of
  continuation starts. A \<^verbatim>\<open>frozenset\<close> of strings is a list of its elements, in increasing
  order once normalised; token objects live in a list and are named by their position; the two
  uses of \<^verbatim>\<open>_stable_hash\<close> are the parameters \<open>grant_hash\<close> and \<open>decision_hash\<close> over what is
  hashed. The type checks of the source hold by the types of the model.
\<close>

section \<open>Grants\<close>

datatype agent_role = COORDINATOR | PROJECT_MAPPER | IMPLEMENTER | VERIFIER | REVIEWER

record agent_identity =
  ai_principal_id :: string
  ai_role :: agent_role
  ai_project_id :: string
  ai_session_id :: "string option"
  ai_run_id :: "string option"
  ai_owner_id :: "string option"
  ai_agent_id :: "string option"

datatype effect = Allow | Deny

type_synonym attributes = "(string \<times> string) list"

record resource_scope =
  sc_resource_type :: string
  sc_actions :: "string list"
  sc_attributes :: attributes
  sc_effect :: effect

record tool_grant =
  tg_tool_id :: string
  tg_actions :: "string list"

record skill_grant =
  sg_skill_id :: string
  sg_submodules :: "string list"

text \<open>A float of wall seconds; infinities and NaN are \<open>Not_Finite\<close>.\<close>

datatype seconds = Finite rat | Not_Finite

record budget_grant =
  bg_provider_calls :: int
  bg_tool_calls :: int
  bg_wall_seconds :: seconds

record grant_content =
  gc_policy_version :: string
  gc_identity :: agent_identity
  gc_scopes :: "resource_scope list"
  gc_tools :: "tool_grant list"
  gc_skills :: "skill_grant list"
  gc_budget :: budget_grant
  gc_parent_hash :: "string option"

record agent_grant =
  gr_content :: grant_content
  gr_id :: string
  gr_hash :: string
  gr_token :: nat

definition known_resource_types :: "string list" where
  "known_resource_types = [''tool'', ''skill'', ''workspace_path'', ''candidate'', ''test_command'',
     ''map_seed'', ''map_revision'', ''plan_operation'', ''agent_run'', ''network'',
     ''provider_budget'', ''tool_budget'', ''time_budget'']"

section \<open>Paths\<close>

definition normalize_relative_path :: "string \<Rightarrow> string result" where
  "normalize_relative_path path =
     (if path = [] \<or> char_of (0::nat) \<in> set path then Inl (ValueError ''invalid_path'')
      else let replaced = replace_char (char_of (92::nat)) ''/'' path;
               first_segment = hd (split_on (CHR ''/'') replaced);
               normalized = normpath replaced
           in if normalized = up \<or> startswith normalized (up @ ''/'') \<or> startswith normalized ''/''
                 \<or> endswith first_segment '':''
              then Inl (ValueError ''invalid_path'') else Inr normalized)"

definition rstrip_slash :: "string \<Rightarrow> string" where
  "rstrip_slash s = rev (dropWhile (\<lambda>c. c = CHR ''/'') (rev s))"

definition path_contains :: "string \<Rightarrow> string \<Rightarrow> bool" where
  "path_contains parent child =
     (case (normalize_relative_path parent, normalize_relative_path child) of
        (Inr p, Inr c) \<Rightarrow> p = here \<or> c = p \<or> startswith c (rstrip_slash p @ ''/'')
      | _ \<Rightarrow> False)"

section \<open>Normalising\<close>

text \<open>\<^verbatim>\<open>dict(pairs)\<close>: the last pair of a key counts.\<close>

definition pairs_get :: "attributes \<Rightarrow> string \<Rightarrow> string option" where
  "pairs_get ps k = map_of (rev ps) k"

definition check :: "bool \<Rightarrow> string \<Rightarrow> unit result" where
  "check b code = (if b then Inr () else Inl (ValueError code))"

fun normalize_scope_attributes :: "string list \<Rightarrow> attributes \<Rightarrow> attributes result" where
  "normalize_scope_attributes keys [] = Inr []"
| "normalize_scope_attributes keys ((k, v) # ps) =
     bind_result (check (strip k \<noteq> []) ''invalid_attribute'') (\<lambda>_.
     bind_result (check (k \<notin> set keys) ''duplicate_attribute'') (\<lambda>_.
     bind_result (if k = ''path'' then normalize_relative_path v else Inr v) (\<lambda>v'.
     bind_result (normalize_scope_attributes (k # keys) ps) (\<lambda>ps'. Inr ((k, v') # ps')))))"

definition strip_set :: "string list \<Rightarrow> string list" where
  "strip_set xs = sort (remdups (map strip xs))"

definition normalize_scope :: "resource_scope \<Rightarrow> resource_scope result" where
  "normalize_scope s =
     bind_result (check (sc_resource_type s \<in> set known_resource_types) ''unknown_resource'') (\<lambda>_.
     bind_result (check (sc_actions s \<noteq> [] \<and> (\<forall>a \<in> set (sc_actions s). strip a \<noteq> [])) ''invalid_action'') (\<lambda>_.
     bind_result (normalize_scope_attributes [] (sc_attributes s)) (\<lambda>ps.
     Inr \<lparr>sc_resource_type = sc_resource_type s, sc_actions = strip_set (sc_actions s),
          sc_attributes = sort ps, sc_effect = sc_effect s\<rparr>)))"

fun effect_value :: "effect \<Rightarrow> string" where
  "effect_value Allow = ''allow''"
| "effect_value Deny = ''deny''"

definition scope_payload :: "resource_scope \<Rightarrow> json" where
  "scope_payload s = JObj [(''resource_type'', JStr (sc_resource_type s)),
     (''actions'', JList (map JStr (sort (sc_actions s)))),
     (''attributes'', JList (map (\<lambda>(k, v). JList [JStr k, JStr v]) (sc_attributes s))),
     (''effect'', JStr (effect_value (sc_effect s)))]"

definition normalize_resource_scopes :: "resource_scope list \<Rightarrow> resource_scope list result" where
  "normalize_resource_scopes scopes = bind_result (result_map normalize_scope scopes) (\<lambda>ss.
     Inr (sort_key (canonical_json \<circ> scope_payload) (remdups ss)))"

definition normalize_tool_grant :: "tool_grant \<Rightarrow> tool_grant result" where
  "normalize_tool_grant g =
     bind_result (check (strip (tg_tool_id g) \<noteq> []) ''invalid_tool_grant'') (\<lambda>_.
     bind_result (check (tg_actions g \<noteq> [] \<and> (\<forall>a \<in> set (tg_actions g). strip a \<noteq> [])) ''invalid_tool_grant'') (\<lambda>_.
     Inr \<lparr>tg_tool_id = strip (tg_tool_id g), tg_actions = strip_set (tg_actions g)\<rparr>))"

definition normalize_tool_grants :: "tool_grant list \<Rightarrow> tool_grant list result" where
  "normalize_tool_grants gs = bind_result (result_map normalize_tool_grant gs) (\<lambda>gs'.
     Inr (sort_key (\<lambda>g. (tg_tool_id g, sort (tg_actions g))) (remdups gs')))"

definition normalize_skill_grant :: "skill_grant \<Rightarrow> skill_grant result" where
  "normalize_skill_grant g =
     bind_result (check (strip (sg_skill_id g) \<noteq> []) ''invalid_skill_grant'') (\<lambda>_.
     bind_result (check (\<forall>a \<in> set (sg_submodules g). strip a \<noteq> []) ''invalid_skill_grant'') (\<lambda>_.
     Inr \<lparr>sg_skill_id = strip (sg_skill_id g), sg_submodules = strip_set (sg_submodules g)\<rparr>))"

definition normalize_skill_grants :: "skill_grant list \<Rightarrow> skill_grant list result" where
  "normalize_skill_grants gs = bind_result (result_map normalize_skill_grant gs) (\<lambda>gs'.
     Inr (sort_key (\<lambda>g. (sg_skill_id g, sort (sg_submodules g))) (remdups gs')))"

definition normalize_budget :: "budget_grant \<Rightarrow> budget_grant result" where
  "normalize_budget b =
     bind_result (check (0 \<le> bg_provider_calls b) ''invalid_budget'') (\<lambda>_.
     bind_result (check (0 \<le> bg_tool_calls b) ''invalid_budget'') (\<lambda>_.
     bind_result (check (case bg_wall_seconds b of Not_Finite \<Rightarrow> False | Finite w \<Rightarrow> 0 \<le> w) ''invalid_budget'') (\<lambda>_.
     Inr b)))"

definition blank :: "string option \<Rightarrow> bool" where
  "blank x = (case x of None \<Rightarrow> False | Some v \<Rightarrow> strip v = [])"

definition validate_identity :: "agent_identity \<Rightarrow> unit result" where
  "validate_identity i =
     check (strip (ai_principal_id i) \<noteq> [] \<and> strip (ai_project_id i) \<noteq> [] \<and> \<not> blank (ai_session_id i)
       \<and> \<not> blank (ai_run_id i) \<and> \<not> blank (ai_owner_id i) \<and> \<not> blank (ai_agent_id i)) ''invalid_identity''"

section \<open>Revocation tokens\<close>

record token =
  tk_parent :: "nat option"
  tk_revoked :: bool
  tk_pending :: int

type_synonym tokens = "token list"

text \<open>
  \<^verbatim>\<open>_lineage\<close>, from the token up; a token seen before ends the walk without a result. A
  parent is an existing object, so the range check never fails.
\<close>

function lineage_from :: "tokens \<Rightarrow> nat list \<Rightarrow> nat option \<Rightarrow> nat list option" where
  "lineage_from ts seen None = Some seen"
| "lineage_from ts seen (Some i) =
     (if i \<in> set seen \<or> length ts \<le> i then None
      else lineage_from ts (i # seen) (tk_parent (ts ! i)))"
  by pat_completeness auto

termination
proof (relation "measure (\<lambda>(ts, seen, _). card ({..<length ts} - set seen))")
  fix ts :: tokens and seen i
  assume "\<not> (i \<in> set seen \<or> length ts \<le> i)"
  then have "i \<in> {..<length ts} - set seen" by simp
  moreover have "{..<length ts} - set (i # seen) = ({..<length ts} - set seen) - {i}"
    by auto
  ultimately have "card ({..<length ts} - set (i # seen)) < card ({..<length ts} - set seen)"
    by (simp only: card_Diff1_less finite_Diff finite_lessThan)
  then show "((ts, i # seen, tk_parent (ts ! i)), (ts, seen, Some i)) \<in> measure (\<lambda>(ts, seen, _). card ({..<length ts} - set seen))"
    by simp
qed simp

text \<open>The lineage, the oldest ancestor first.\<close>

definition lineage :: "tokens \<Rightarrow> nat \<Rightarrow> nat list option" where
  "lineage ts i = lineage_from ts [] (Some i)"

definition revoked :: "tokens \<Rightarrow> nat \<Rightarrow> bool" where
  "revoked ts i = (case lineage ts i of None \<Rightarrow> True | Some l \<Rightarrow> list_ex (\<lambda>t. tk_revoked (ts ! t)) l)"

definition new_token :: "nat option \<Rightarrow> tokens \<Rightarrow> nat \<times> tokens" where
  "new_token parent ts = (length ts, ts @ [\<lparr>tk_parent = parent, tk_revoked = False, tk_pending = 0\<rparr>])"

section \<open>Deciding\<close>

datatype reason = Grant_Revoked | Unknown_Resource | Explicit_Deny | Allowed | Default_Deny

record decision =
  de_allowed :: bool
  de_reason :: reason
  de_id :: string
  de_token :: nat

definition decision_allowed :: "tokens \<Rightarrow> decision \<Rightarrow> bool" where
  "decision_allowed ts d \<longleftrightarrow> de_allowed d \<and> \<not> revoked ts (de_token d)"

definition decision_reason :: "tokens \<Rightarrow> decision \<Rightarrow> reason" where
  "decision_reason ts d = (if de_allowed d \<and> revoked ts (de_token d) then Grant_Revoked else de_reason d)"

type_synonym decision_hash = "string \<times> bool \<times> reason \<times> string \<times> string \<times> attributes \<Rightarrow> string"

definition decide ::
  "decision_hash \<Rightarrow> agent_grant \<Rightarrow> bool \<Rightarrow> reason \<Rightarrow> string \<Rightarrow> string \<Rightarrow> attributes \<Rightarrow> decision" where
  "decide hash g allowed reason action rtype attrs =
     \<lparr>de_allowed = allowed, de_reason = reason,
      de_id = ''decision-'' @ take 20 (hash (gr_hash g, allowed, reason, action, rtype, sort attrs)),
      de_token = gr_token g\<rparr>"

fun attribute_matches :: "attributes \<Rightarrow> string \<times> string \<Rightarrow> bool" where
  "attribute_matches request (k, expected) =
     (case pairs_get request k of None \<Rightarrow> False
      | Some actual \<Rightarrow> if k = ''path'' then path_contains expected actual else actual = expected)"

definition scope_matches :: "resource_scope \<Rightarrow> string \<Rightarrow> string \<Rightarrow> attributes \<Rightarrow> bool" where
  "scope_matches s action rtype request \<longleftrightarrow> sc_resource_type s = rtype \<and> action \<in> set (sc_actions s)
     \<and> list_all (attribute_matches request) (sc_attributes s)"

definition authorize_active ::
  "decision_hash \<Rightarrow> agent_grant \<Rightarrow> string \<Rightarrow> string \<Rightarrow> attributes \<Rightarrow> decision" where
  "authorize_active hash g action rtype attrs =
     (if rtype \<notin> set known_resource_types then decide hash g False Unknown_Resource action rtype attrs
      else let request = sort attrs;
               matching = filter (\<lambda>s. scope_matches s action rtype request) (gc_scopes (gr_content g))
           in if \<exists>s \<in> set matching. sc_effect s = Deny
              then decide hash g False Explicit_Deny action rtype request
              else if \<exists>s \<in> set matching. sc_effect s = Allow
              then decide hash g True Allowed action rtype request
              else decide hash g False Default_Deny action rtype request)"

definition authorize ::
  "decision_hash \<Rightarrow> tokens \<Rightarrow> agent_grant \<Rightarrow> string \<Rightarrow> string \<Rightarrow> attributes \<Rightarrow> decision" where
  "authorize hash ts g action rtype attrs =
     (if revoked ts (gr_token g) then decide hash g False Grant_Revoked action rtype attrs
      else authorize_active hash g action rtype attrs)"

section \<open>Building and deriving grants\<close>

definition build_grant ::
  "(grant_content \<Rightarrow> string) \<Rightarrow> string \<Rightarrow> agent_identity \<Rightarrow> resource_scope list \<Rightarrow> tool_grant list \<Rightarrow>
   skill_grant list \<Rightarrow> budget_grant \<Rightarrow> string option \<Rightarrow> nat \<Rightarrow> agent_grant result" where
  "build_grant hash version identity scopes tools skills budget parent_hash token =
     bind_result (check (strip version \<noteq> []) ''invalid_policy_version'') (\<lambda>_.
     bind_result (validate_identity identity) (\<lambda>_.
     bind_result (normalize_resource_scopes scopes) (\<lambda>scopes'.
     bind_result (normalize_tool_grants tools) (\<lambda>tools'.
     bind_result (normalize_skill_grants skills) (\<lambda>skills'.
     bind_result (normalize_budget budget) (\<lambda>budget'.
       let c = \<lparr>gc_policy_version = version, gc_identity = identity, gc_scopes = scopes',
                gc_tools = tools', gc_skills = skills', gc_budget = budget', gc_parent_hash = parent_hash\<rparr>
       in Inr \<lparr>gr_content = c, gr_id = ''grant-'' @ take 20 (hash c), gr_hash = hash c,
               gr_token = token\<rparr>))))))"

definition resolve ::
  "(grant_content \<Rightarrow> string) \<Rightarrow> tokens \<Rightarrow> string \<Rightarrow> agent_identity \<Rightarrow> resource_scope list \<Rightarrow> tool_grant list \<Rightarrow>
   skill_grant list \<Rightarrow> budget_grant option \<Rightarrow> (agent_grant \<times> tokens) result" where
  "resolve hash ts version identity scopes tools skills budget =
     (let (t, ts') = new_token None ts;
          b = (case budget of None \<Rightarrow> \<lparr>bg_provider_calls = 0, bg_tool_calls = 0, bg_wall_seconds = Finite 0\<rparr>
               | Some b \<Rightarrow> b)
      in bind_result (build_grant hash version identity scopes tools skills b None t) (\<lambda>g. Inr (g, ts')))"

fun attribute_contained :: "attributes \<Rightarrow> string \<times> string \<Rightarrow> bool" where
  "attribute_contained child (k, parent_value) =
     (case pairs_get child k of None \<Rightarrow> False
      | Some v \<Rightarrow> if k = ''path'' then path_contains parent_value v else v = parent_value)"

definition scope_contains :: "resource_scope \<Rightarrow> resource_scope \<Rightarrow> bool" where
  "scope_contains parent child \<longleftrightarrow> sc_resource_type parent = sc_resource_type child
     \<and> set (sc_actions child) \<subseteq> set (sc_actions parent)
     \<and> list_all (\<lambda>(k, _). attribute_contained (sc_attributes child) (k, the (pairs_get (sc_attributes parent) k)))
         (sc_attributes parent)"

definition values_overlap :: "string \<Rightarrow> string \<Rightarrow> string \<Rightarrow> bool" where
  "values_overlap k l r = (if k = ''path'' then path_contains l r \<or> path_contains r l else l = r)"

definition scopes_overlap :: "resource_scope \<Rightarrow> resource_scope \<Rightarrow> bool" where
  "scopes_overlap left right \<longleftrightarrow> sc_resource_type left = sc_resource_type right
     \<and> (\<exists>a \<in> set (sc_actions left). a \<in> set (sc_actions right))
     \<and> list_all (\<lambda>(k, _). case pairs_get (sc_attributes right) k of None \<Rightarrow> True
          | Some r \<Rightarrow> values_overlap k (the (pairs_get (sc_attributes left) k)) r) (sc_attributes left)"

definition budget_contains :: "budget_grant \<Rightarrow> budget_grant \<Rightarrow> bool" where
  "budget_contains parent child \<longleftrightarrow>
     0 \<le> bg_provider_calls child \<and> bg_provider_calls child \<le> bg_provider_calls parent
     \<and> 0 \<le> bg_tool_calls child \<and> bg_tool_calls child \<le> bg_tool_calls parent
     \<and> (case (bg_wall_seconds child, bg_wall_seconds parent) of
          (Finite c, Finite p) \<Rightarrow> 0 \<le> c \<and> c \<le> p | _ \<Rightarrow> False)"

fun check_scopes :: "resource_scope list \<Rightarrow> resource_scope list \<Rightarrow> unit result" where
  "check_scopes parents [] = Inr ()"
| "check_scopes parents (c # cs) =
     (if sc_effect c = Deny then check_scopes parents cs
      else bind_result (check (\<exists>p \<in> set parents. sc_effect p = Allow \<and> scope_contains p c) ''scope_escalation'') (\<lambda>_.
           bind_result (check (\<not> (\<exists>p \<in> set parents. sc_effect p = Deny \<and> scopes_overlap p c)) ''scope_escalation'') (\<lambda>_.
           check_scopes parents cs)))"

definition tools_contained :: "tool_grant list \<Rightarrow> tool_grant list \<Rightarrow> bool" where
  "tools_contained parents children \<longleftrightarrow> list_all (\<lambda>c.
     case find (\<lambda>p. tg_tool_id p = tg_tool_id c) (rev parents) of None \<Rightarrow> False
     | Some p \<Rightarrow> set (tg_actions c) \<subseteq> set (tg_actions p)) children"

definition skills_contained :: "skill_grant list \<Rightarrow> skill_grant list \<Rightarrow> bool" where
  "skills_contained parents children \<longleftrightarrow> list_all (\<lambda>c.
     case find (\<lambda>p. sg_skill_id p = sg_skill_id c) (rev parents) of None \<Rightarrow> False
     | Some p \<Rightarrow> set (sg_submodules c) \<subseteq> set (sg_submodules p)) children"

definition derive ::
  "(grant_content \<Rightarrow> string) \<Rightarrow> tokens \<Rightarrow> agent_grant \<Rightarrow> agent_identity \<Rightarrow> resource_scope list \<Rightarrow> tool_grant list \<Rightarrow>
   skill_grant list \<Rightarrow> budget_grant \<Rightarrow> (agent_grant \<times> tokens) result" where
  "derive hash ts parent identity scopes tools skills budget =
     (let pc = gr_content parent in
      bind_result (check (\<not> revoked ts (gr_token parent)) ''grant_revoked'') (\<lambda>_.
      bind_result (validate_identity identity) (\<lambda>_.
      bind_result (check (ai_project_id identity = ai_project_id (gc_identity pc)) ''scope_escalation'') (\<lambda>_.
      bind_result (check (ai_session_id identity = ai_session_id (gc_identity pc)) ''scope_escalation'') (\<lambda>_.
      bind_result (normalize_resource_scopes scopes) (\<lambda>scopes'.
      bind_result (normalize_tool_grants tools) (\<lambda>tools'.
      bind_result (normalize_skill_grants skills) (\<lambda>skills'.
      bind_result (normalize_budget budget) (\<lambda>budget'.
      bind_result (check_scopes (gc_scopes pc) scopes') (\<lambda>_.
      bind_result (check (tools_contained (gc_tools pc) tools') ''scope_escalation'') (\<lambda>_.
      bind_result (check (skills_contained (gc_skills pc) skills') ''scope_escalation'') (\<lambda>_.
      bind_result (check (budget_contains (gc_budget pc) budget') ''scope_escalation'') (\<lambda>_.
        let (t, ts') = new_token (Some (gr_token parent)) ts
        in bind_result (build_grant hash (gc_policy_version pc) identity scopes' tools' skills' budget'
             (Some (gr_hash parent)) t) (\<lambda>g. Inr (g, ts')))))))))))))))"

section \<open>Continuations\<close>

datatype start_state = Start_Pending | Start_Entered | Start_Cancelled

record reservation =
  rs_lineage :: "nat list"
  rs_state :: start_state

text \<open>
  The reservation objects are named by their position too. The lock of every token of the
  lineage is held around each of the following three operations.
\<close>

record guard =
  gd_tokens :: tokens
  gd_starts :: "reservation list"

definition add_pending :: "int \<Rightarrow> nat list \<Rightarrow> tokens \<Rightarrow> tokens" where
  "add_pending n l ts = fold (\<lambda>i ts. ts[i := (ts ! i)\<lparr>tk_pending := tk_pending (ts ! i) + n\<rparr>]) l ts"

definition reserve_start :: "guard \<Rightarrow> nat \<Rightarrow> nat option \<times> guard" where
  "reserve_start w i =
     (case lineage (gd_tokens w) i of
        None \<Rightarrow> (None, w)
      | Some l \<Rightarrow>
          (if list_ex (\<lambda>t. tk_revoked (gd_tokens w ! t)) l then (None, w)
           else (Some (length (gd_starts w)),
                 w\<lparr>gd_tokens := add_pending 1 l (gd_tokens w),
                   gd_starts := gd_starts w @ [\<lparr>rs_lineage = l, rs_state = Start_Pending\<rparr>]\<rparr>)))"

definition finish_start :: "guard \<Rightarrow> nat \<Rightarrow> start_state \<Rightarrow> guard" where
  "finish_start w r st =
     (let x = gd_starts w ! r in
      if rs_state x \<noteq> Start_Pending then w
      else w\<lparr>gd_starts := (gd_starts w)[r := x\<lparr>rs_state := st\<rparr>],
             gd_tokens := add_pending (- 1) (rs_lineage x) (gd_tokens w)\<rparr>)"

definition begin_authorized ::
  "decision_hash \<Rightarrow> guard \<Rightarrow> agent_grant \<Rightarrow> string \<Rightarrow> string \<Rightarrow> attributes \<Rightarrow> decision \<times> nat option \<times> guard" where
  "begin_authorized hash w g action rtype attrs =
     (let d = authorize hash (gd_tokens w) g action rtype attrs in
      if \<not> decision_allowed (gd_tokens w) d then (d, None, w)
      else case reserve_start w (gr_token g) of
          (None, w') \<Rightarrow> (decide hash g False Grant_Revoked action rtype attrs, None, w')
        | (Some r, w') \<Rightarrow> (d, Some r, w'))"

text \<open>
  \<^verbatim>\<open>execute_authorized\<close> run by one thread; the continuation acts on the tokens too (it may
  revoke), and an exception of it is passed on after \<^verbatim>\<open>cancel\<close>, which finds the start entered.
\<close>

definition execute_authorized ::
  "decision_hash \<Rightarrow> guard \<Rightarrow> agent_grant \<Rightarrow> string \<Rightarrow> string \<Rightarrow> attributes \<Rightarrow> (guard \<Rightarrow> 'a result \<times> guard) \<Rightarrow>
   (decision \<times> 'a option) result \<times> guard" where
  "execute_authorized hash w g action rtype attrs continuation =
     (case begin_authorized hash w g action rtype attrs of
        (d, None, w') \<Rightarrow> (Inr (d, None), w')
      | (d, Some r, w') \<Rightarrow>
          (case continuation (finish_start w' r Start_Entered) of
             (Inl e, w'') \<Rightarrow> (Inl e, finish_start w'' r Start_Cancelled)
           | (Inr x, w'') \<Rightarrow> (Inr (d, Some x), w'')))"

text \<open>\<^verbatim>\<open>revoke\<close> sets the flag, then waits until no start is pending on the token.\<close>

definition revoke_set :: "guard \<Rightarrow> nat \<Rightarrow> bool \<times> guard" where
  "revoke_set w i = (let t = gd_tokens w ! i in
     (\<not> tk_revoked t, w\<lparr>gd_tokens := (gd_tokens w)[i := t\<lparr>tk_revoked := True\<rparr>]\<rparr>))"

definition revoke_ready :: "guard \<Rightarrow> nat \<Rightarrow> bool" where
  "revoke_ready w i \<longleftrightarrow> tk_pending (gd_tokens w ! i) \<le> 0"

end
