(* ===== verification/Authorization_Properties.thy ===== *)
theory Authorization_Properties
  imports Authorization
begin

text \<open>
  What the authorization contracts promise: paths are confined to the workspace, a derived grant
  never allows what its ancestors do not, and no continuation starts under a revoked grant.
\<close>

section \<open>Paths\<close>

lemma normpath_absolute: "startswith path ''/'' \<Longrightarrow> startswith (normpath path) ''/''"
  by (auto simp: normpath_def Let_def startswith_iff)

lemma normalize_path_confined: "normalize_relative_path path = Inr n \<Longrightarrow> confined n"
  using normpath_confined normpath_absolute
  by (fastforce simp: normalize_relative_path_def Let_def split: if_splits)

lemma normalize_path_again:
  assumes "confined n" and "normalize_relative_path n = Inr m"
  shows "m = normpath (replace_char (char_of (92::nat)) ''/'' n)"
  using assms(2) by (auto simp: normalize_relative_path_def Let_def split: if_splits)

text \<open>\<open>below p c\<close>: the entry \<open>c\<close> is \<open>p\<close> itself or below it.\<close>

definition below :: "string \<Rightarrow> string \<Rightarrow> bool" where
  "below p c \<longleftrightarrow> p = here \<or> startswith (c @ ''/'') (p @ ''/'')"

lemma rstrip_confined: "confined p \<Longrightarrow> rstrip_slash p = p"
proof -
  assume "confined p"
  then consider "p = here" | cs where "cs \<noteq> []" "list_all plain cs" "p = join_with ''/'' cs"
    by (auto simp: confined_def)
  then show ?thesis
  proof cases
    case 1
    then show ?thesis by (simp add: rstrip_slash_def here_def)
  next
    case 2
    then obtain ds d where cs: "cs = ds @ [d]" "plain d" by (cases cs rule: rev_cases) auto
    then have d: "d \<noteq> []" "last d \<noteq> CHR ''/''" by (auto simp: plain_def dest: last_in_set)
    have "\<exists>t. join_with ''/'' (ds @ [d]) = t @ d"
      by (induction ds) (auto simp: join_hd)
    then obtain t where p: "p = t @ d" using 2 cs by auto
    have "last p \<noteq> CHR ''/''" "p \<noteq> []" using p d by auto
    then show ?thesis by (cases p rule: rev_cases) (auto simp: rstrip_slash_def)
  qed
qed

lemma startswith_slash: "c = p \<or> startswith c (p @ ''/'') \<longleftrightarrow> startswith (c @ ''/'') (p @ ''/'')"
proof
  assume "startswith (c @ ''/'') (p @ ''/'')"
  then obtain t where t: "c @ ''/'' = p @ ''/'' @ t" by (auto simp: startswith_iff)
  show "c = p \<or> startswith c (p @ ''/'')"
  proof (cases t rule: rev_cases)
    case Nil
    with t show ?thesis by simp
  next
    case (snoc t' x)
    with t have "c = p @ ''/'' @ t'" by (metis append.assoc butlast_snoc)
    then show ?thesis by (auto simp: startswith_iff)
  qed
qed (auto simp: startswith_iff)

lemma path_contains_iff:
  "path_contains p c \<longleftrightarrow> (\<exists>p' c'. normalize_relative_path p = Inr p' \<and> normalize_relative_path c = Inr c' \<and> below p' c')"
  by (auto simp: path_contains_def below_def rstrip_confined [OF normalize_path_confined] startswith_slash
      split: sum.split)

lemma startswith_trans: "startswith a b \<Longrightarrow> startswith b c \<Longrightarrow> startswith a c"
  by (auto simp: startswith_iff)

lemma startswith_comparable: "startswith a x \<Longrightarrow> startswith a y \<Longrightarrow> startswith x y \<or> startswith y x"
  by (auto simp: startswith_iff append_eq_append_conv2)

lemma below_here: "below p here \<Longrightarrow> p = here"
  by (cases p) (auto simp: below_def startswith_def here_def)

lemma below_trans: "below p c \<Longrightarrow> below c r \<Longrightarrow> below p r"
  using startswith_trans below_here by (auto simp: below_def)

lemma below_comparable: "below p r \<Longrightarrow> below c r \<Longrightarrow> below p c \<or> below c p"
  using startswith_comparable by (auto simp: below_def)

lemma path_contains_trans: "path_contains p c \<Longrightarrow> path_contains c r \<Longrightarrow> path_contains p r"
  by (auto simp: path_contains_iff intro: below_trans)

lemma path_contains_comparable: "path_contains p r \<Longrightarrow> path_contains c r \<Longrightarrow> path_contains p c \<or> path_contains c p"
  using below_comparable by (fastforce simp: path_contains_iff)

section \<open>Normalising again changes nothing\<close>

lemma norm_comps_subset: "set (norm_comps b acc cs) \<subseteq> set acc \<union> set cs"
proof (induction cs arbitrary: acc)
  case (Cons c cs)
  have "set (tl acc) \<subseteq> set acc" by (cases acc) auto
  with Cons.IH [of acc] Cons.IH [of "c # acc"] Cons.IH [of "tl acc"] show ?case
    by (simp split: if_split) blast
qed simp

lemma set_join: "set (join_with ''/'' cs) \<subseteq> \<Union> (set ` set cs) \<union> {CHR ''/''}"
  by (induction "''/''" cs rule: join_with.induct) auto

lemma set_split: "w \<in> set (split_on d s) \<Longrightarrow> set w \<subseteq> set s"
proof (induction s arbitrary: w)
  case (Cons c s)
  obtain v vs where v: "split_on d s = v # vs" by (metis split_on_ne neq_Nil_conv)
  with Cons.IH have "set u \<subseteq> set s" if "u \<in> set (v # vs)" for u using that by simp
  with Cons.prems v show ?case by (fastforce split: if_splits)
qed simp

lemma set_normpath: "set (normpath s) \<subseteq> set s \<union> {CHR ''.'', CHR ''/''}"
proof -
  have "set (join_with ''/'' (norm_comps b [] (split_on (CHR ''/'') s))) \<subseteq> set s \<union> {CHR ''/''}" for b
    using set_join [of "norm_comps b [] (split_on (CHR ''/'') s)"] norm_comps_subset [of b "[]" "split_on (CHR ''/'') s"]
      set_split [of _ "CHR ''/''" s] by fastforce
  then show ?thesis by (auto simp: normpath_def Let_def here_def)
qed

lemma set_replace_subset: "set (replace_char a b s) \<subseteq> set s \<union> set b"
  by (induction s) auto

lemma set_replace_char: "a \<notin> set b \<Longrightarrow> a \<notin> set (replace_char a b s)"
  by (induction s) auto

lemma normalize_path_twice:
  assumes "normalize_relative_path p = Inr n" and "normalize_relative_path n = Inr m"
  shows "m = n"
proof -
  have n: "n = normpath (replace_char (char_of (92::nat)) ''/'' p)"
    using assms(1) by (auto simp: normalize_relative_path_def Let_def split: if_splits)
  have "char_of (92::nat) \<notin> set (replace_char (char_of (92::nat)) ''/'' p)" by (rule set_replace_char) (simp add: char_of_eq_iff)
  then have "char_of (92::nat) \<notin> set n"
    using set_normpath [of "replace_char (char_of (92::nat)) ''/'' p"] by (auto simp: n char_of_eq_iff)
  then have "m = normpath n"
    using normalize_path_again [OF normalize_path_confined [OF assms(1)] assms(2)] by (simp add: replace_char_absent)
  then show ?thesis by (simp add: normpath_fixed [OF normalize_path_confined [OF assms(1)]])
qed

lemma strip_set_again: "strip_set (strip_set xs) = strip_set xs"
proof -
  have "map strip (strip_set xs) = strip_set xs"
    unfolding strip_set_def by (rule map_idI) auto
  then have "strip_set (strip_set xs) = sort (remdups (strip_set xs))" by (simp only: strip_set_def [of "strip_set xs"])
  then show ?thesis by (simp add: strip_set_def distinct_remdups_id sort_key_id_if_sorted)
qed

lemma check_Inr [simp]: "check b code = Inr u \<longleftrightarrow> b"
  by (simp add: check_def)

definition path_normal :: "attributes \<Rightarrow> bool" where
  "path_normal ps \<longleftrightarrow> (\<forall>v. (''path'', v) \<in> set ps \<longrightarrow> (\<exists>p. normalize_relative_path p = Inr v))"

lemma path_normal_Cons:
  "path_normal ((k, v) # ps) \<longleftrightarrow> (k = ''path'' \<longrightarrow> (\<exists>p. normalize_relative_path p = Inr v)) \<and> path_normal ps"
  unfolding path_normal_def by auto

lemma normalize_attributes_ok:
  "normalize_scope_attributes keys ps = Inr qs \<Longrightarrow>
   map fst qs = map fst ps \<and> distinct (map fst qs) \<and> set keys \<inter> set (map fst qs) = {} \<and> path_normal qs"
proof (induction keys ps arbitrary: qs rule: normalize_scope_attributes.induct)
  case (2 keys k v ps)
  obtain v' qs' where k: "k \<notin> set keys" and v': "(if k = ''path'' then normalize_relative_path v else Inr v) = Inr v'"
    and qs': "normalize_scope_attributes (k # keys) ps = Inr qs'" and qs: "qs = (k, v') # qs'"
    using 2(2) by (auto simp: bind_result_Inr)
  have IH: "map fst qs' = map fst ps \<and> distinct (map fst qs') \<and> set (k # keys) \<inter> set (map fst qs') = {} \<and> path_normal qs'"
    by (rule 2(1) [OF qs'])
  have "map fst qs = map fst ((k, v) # ps)" using IH by (simp add: qs)
  moreover have "distinct (map fst qs) \<and> set keys \<inter> set (map fst qs) = {}"
    using conjunct2 [OF IH] k by (auto simp: qs)
  moreover have "path_normal qs" using IH v' by (auto simp: qs path_normal_Cons)
  ultimately show ?case by blast
qed (simp add: path_normal_def)

lemma normalize_attributes_again:
  "path_normal ps \<Longrightarrow> normalize_scope_attributes keys ps = Inr qs \<Longrightarrow> qs = ps"
proof (induction keys ps arbitrary: qs rule: normalize_scope_attributes.induct)
  case (2 keys k v ps)
  obtain v' ps' where v': "(if k = ''path'' then normalize_relative_path v else Inr v) = Inr v'"
    and ps': "normalize_scope_attributes (k # keys) ps = Inr ps'" and qs: "qs = (k, v') # ps'"
    using 2(3) by (auto simp: bind_result_Inr)
  have "path_normal ps" using 2(2) by (auto simp: path_normal_def)
  with 2(1) ps' 2(3) have "ps' = ps" by (auto simp: bind_result_Inr)
  moreover have "v' = v"
    using v' 2(2) normalize_path_twice by (fastforce simp: path_normal_def split: if_splits)
  ultimately show ?case using qs by simp
qed simp

text \<open>A normalised scope.\<close>

definition scope_normal :: "resource_scope \<Rightarrow> bool" where
  "scope_normal s \<longleftrightarrow> distinct (map fst (sc_attributes s)) \<and> sorted (sc_attributes s) \<and> path_normal (sc_attributes s)
     \<and> strip_set (sc_actions s) = sc_actions s"

lemma normalize_scope_normal: "normalize_scope s = Inr t \<Longrightarrow> scope_normal t"
proof -
  assume "normalize_scope s = Inr t"
  then obtain ps where ps: "normalize_scope_attributes [] (sc_attributes s) = Inr ps"
    and t: "sc_attributes t = sort ps" "sc_actions t = strip_set (sc_actions s)"
    by (auto simp: normalize_scope_def bind_result_Inr)
  note n = normalize_attributes_ok [OF ps]
  have "distinct (map fst (sort ps))"
  proof -
    have "inj_on fst (set ps)" "distinct ps" using n by (auto simp: distinct_map)
    then show ?thesis by (simp add: distinct_map)
  qed
  then show ?thesis using n by (simp add: scope_normal_def t path_normal_def strip_set_again)
qed

lemma normalize_scope_again:
  assumes "scope_normal s" and "normalize_scope s = Inr t"
  shows "t = s"
proof -
  obtain ps where ps: "normalize_scope_attributes [] (sc_attributes s) = Inr ps"
    and t: "t = \<lparr>sc_resource_type = sc_resource_type s, sc_actions = strip_set (sc_actions s),
          sc_attributes = sort ps, sc_effect = sc_effect s\<rparr>"
    using assms(2) by (auto simp: normalize_scope_def bind_result_Inr)
  have "ps = sc_attributes s" using normalize_attributes_again [OF _ ps] assms(1) by (simp add: scope_normal_def)
  with t assms(1) show ?thesis by (simp add: scope_normal_def sort_key_id_if_sorted)
qed

lemma result_map_pointwise: "result_map f xs = Inr ys \<Longrightarrow> list_all2 (\<lambda>x y. f x = Inr y) xs ys"
  by (induction xs arbitrary: ys) (auto simp: bind_result_Inr)

lemma result_map_range: "result_map f xs = Inr ys \<Longrightarrow> y \<in> set ys \<Longrightarrow> \<exists>x \<in> set xs. f x = Inr y"
  by (induction xs arbitrary: ys) (auto simp: bind_result_Inr)

lemma normalize_scopes_normal:
  assumes "normalize_resource_scopes ss = Inr ts" and "t \<in> set ts"
  shows "scope_normal t"
proof -
  obtain us where "result_map normalize_scope ss = Inr us" "t \<in> set us"
    using assms by (auto simp: normalize_resource_scopes_def bind_result_Inr)
  from result_map_range [OF this] normalize_scope_normal show ?thesis by blast
qed

lemma normalize_scopes_again:
  assumes "\<forall>s \<in> set ss. scope_normal s" and "normalize_resource_scopes ss = Inr ts"
  shows "set ts = set ss"
proof -
  obtain us where us: "result_map normalize_scope ss = Inr us" "set ts = set us"
    using assms(2) by (auto simp: normalize_resource_scopes_def bind_result_Inr)
  have "us = ss"
    using result_map_pointwise [OF us(1)] assms(1)
  proof (induction rule: list_all2_induct)
    case (Cons x xs y ys)
    then show ?case using normalize_scope_again by auto
  qed simp
  with us(2) show ?thesis by simp
qed

section \<open>Scopes\<close>

lemma pairs_get_SomeD: "pairs_get ps k = Some v \<Longrightarrow> (k, v) \<in> set ps"
  unfolding pairs_get_def by (drule map_of_SomeD) simp

lemma pairs_get_distinct: "distinct (map fst ps) \<Longrightarrow> (k, v) \<in> set ps \<Longrightarrow> pairs_get ps k = Some v"
  unfolding pairs_get_def by (rule map_of_is_SomeI) (simp_all add: rev_map [symmetric])

lemma scope_matchesD: "scope_matches s a r req \<Longrightarrow> (k, v) \<in> set (sc_attributes s) \<Longrightarrow> attribute_matches req (k, v)"
  unfolding scope_matches_def list_all_iff by blast

lemma scope_containsD:
  "scope_contains p c \<Longrightarrow> (k, v) \<in> set (sc_attributes p) \<Longrightarrow>
   attribute_contained (sc_attributes c) (k, the (pairs_get (sc_attributes p) k))"
  unfolding scope_contains_def list_all_iff by fast

lemma scope_contains_matches:
  assumes "distinct (map fst (sc_attributes p))" and sub: "scope_contains p c" and m: "scope_matches c a r req"
  shows "scope_matches p a r req"
proof -
  have "attribute_matches req (k, v)" if kv: "(k, v) \<in> set (sc_attributes p)" for k v
  proof -
    have "attribute_contained (sc_attributes c) (k, v)"
      using scope_containsD [OF sub kv] by (simp only: pairs_get_distinct [OF assms(1) kv] option.sel)
    then obtain w where w: "pairs_get (sc_attributes c) k = Some w"
      "if k = ''path'' then path_contains v w else w = v" by (auto split: option.splits)
    have "attribute_matches req (k, w)"
      by (rule scope_matchesD [OF m pairs_get_SomeD [OF w(1)]])
    with w(2) path_contains_trans show ?thesis by (auto split: option.splits if_splits)
  qed
  with sub m show ?thesis by (auto simp: scope_matches_def scope_contains_def list_all_iff)
qed

lemma matches_overlap:
  assumes d: "scope_matches d a r req" and c: "scope_matches c a r req"
  shows "scopes_overlap d c"
proof -
  have "values_overlap k (the (pairs_get (sc_attributes d) k)) w"
    if k: "k \<in> fst ` set (sc_attributes d)" and w: "pairs_get (sc_attributes c) k = Some w" for k w
  proof -
    obtain v where v: "pairs_get (sc_attributes d) k = Some v"
      using k by (cases "pairs_get (sc_attributes d) k") (auto simp: pairs_get_def map_of_eq_None_iff)
    have "attribute_matches req (k, v)" "attribute_matches req (k, w)"
      by (rule scope_matchesD [OF d pairs_get_SomeD [OF v]], rule scope_matchesD [OF c pairs_get_SomeD [OF w]])
    then show ?thesis
      using v path_contains_comparable by (auto simp: values_overlap_def split: option.splits if_splits)
  qed
  then show ?thesis
    using d c by (force simp: scopes_overlap_def scope_matches_def list_all_iff split: option.split)
qed

lemma check_scopes_Inr:
  "check_scopes ps cs = Inr u \<Longrightarrow> c \<in> set cs \<Longrightarrow> sc_effect c = Allow \<Longrightarrow>
   (\<exists>p \<in> set ps. sc_effect p = Allow \<and> scope_contains p c) \<and> \<not> (\<exists>p \<in> set ps. sc_effect p = Deny \<and> scopes_overlap p c)"
  by (induction cs) (auto simp: bind_result_Inr split: if_splits)

text \<open>A request is granted by these scopes.\<close>

definition granted_by :: "resource_scope list \<Rightarrow> string \<Rightarrow> string \<Rightarrow> attributes \<Rightarrow> bool" where
  "granted_by scopes a r req \<longleftrightarrow> (\<exists>s \<in> set scopes. sc_effect s = Allow \<and> scope_matches s a r req)
     \<and> \<not> (\<exists>s \<in> set scopes. sc_effect s = Deny \<and> scope_matches s a r req)"

lemma attenuated_scopes:
  assumes "\<forall>p \<in> set ps. distinct (map fst (sc_attributes p))" and "check_scopes ps cs = Inr u"
    and "granted_by cs a r req"
  shows "granted_by ps a r req"
proof -
  obtain c where c: "c \<in> set cs" "sc_effect c = Allow" "scope_matches c a r req"
    using assms(3) by (auto simp: granted_by_def)
  with check_scopes_Inr [OF assms(2) c(1,2)] scope_contains_matches matches_overlap assms(1)
  show ?thesis unfolding granted_by_def by blast
qed

lemma decision_iff:
  "decision_allowed ts (authorize hash ts g a r attrs) \<longleftrightarrow>
     \<not> revoked ts (gr_token g) \<and> r \<in> set known_resource_types \<and> granted_by (gc_scopes (gr_content g)) a r (sort attrs)"
  by (auto simp: decision_allowed_def authorize_def authorize_active_def decide_def granted_by_def Let_def)

text \<open>
  Deciding fails closed. A request is allowed exactly when the grant and all its ancestors
  are not revoked, the resource type is registered, some allowing scope of the grant matches the
  request and no denying one does.
\<close>

theorem authorize_iff:
  "decision_allowed ts (authorize hash ts g a r attrs) \<longleftrightarrow>
     \<not> revoked ts (gr_token g) \<and> r \<in> set known_resource_types
     \<and> (\<exists>s \<in> set (gc_scopes (gr_content g)). sc_effect s = Allow \<and> scope_matches s a r (sort attrs))
     \<and> \<not> (\<exists>s \<in> set (gc_scopes (gr_content g)). sc_effect s = Deny \<and> scope_matches s a r (sort attrs))"
  unfolding decision_iff granted_by_def by blast

section \<open>Lineages\<close>

definition later :: "tokens \<Rightarrow> tokens \<Rightarrow> bool" where
  "later ts ts' \<longleftrightarrow> length ts \<le> length ts' \<and> (\<forall>i < length ts. tk_parent (ts' ! i) = tk_parent (ts ! i)
     \<and> (tk_revoked (ts ! i) \<longrightarrow> tk_revoked (ts' ! i)))"

lemma later_refl [simp]: "later ts ts"
  by (simp add: later_def)

lemma later_trans: "later a b \<Longrightarrow> later b c \<Longrightarrow> later a c"
  by (simp add: later_def)

lemma later_new: "later ts (snd (new_token p ts))"
  by (simp add: later_def new_token_def nth_append)

lemma lineage_from_Some:
  "lineage_from ts seen i = Some l \<Longrightarrow> \<exists>l'. l = l' @ seen \<and> (\<forall>seen'. set seen' \<subseteq> set seen \<longrightarrow> lineage_from ts seen' i = Some (l' @ seen'))"
proof (induction ts seen i arbitrary: l rule: lineage_from.induct)
  case (2 ts seen i)
  then have i: "\<not> (i \<in> set seen \<or> length ts \<le> i)" and l: "lineage_from ts (i # seen) (tk_parent (ts ! i)) = Some l"
    by (auto split: if_splits)
  from 2(1) [OF i l] obtain l' where l': "l = l' @ i # seen"
    "\<And>s. set s \<subseteq> set (i # seen) \<Longrightarrow> lineage_from ts s (tk_parent (ts ! i)) = Some (l' @ s)" by blast
  show ?case
  proof (intro exI [of _ "l' @ [i]"] conjI allI impI)
    fix s assume s: "set s \<subseteq> set seen"
    then have "set (i # s) \<subseteq> set (i # seen)" by auto
    from l'(2) [OF this] i s show "lineage_from ts s (Some i) = Some ((l' @ [i]) @ s)" by auto
  qed (use l'(1) in simp)
qed simp

lemma lineage_parent:
  assumes "lineage ts c = Some l" and "tk_parent (ts ! c) = Some p"
  shows "\<exists>lp. lineage ts p = Some lp \<and> l = lp @ [c]"
proof -
  have "lineage_from ts [c] (Some p) = Some l"
    using assms by (simp add: lineage_def split: if_splits)
  from lineage_from_Some [OF this] obtain l' where l': "l = l' @ [c]"
    "\<And>s. set s \<subseteq> {c} \<Longrightarrow> lineage_from ts s (Some p) = Some (l' @ s)" by fastforce
  from l'(2) [of "[]"] l'(1) show ?thesis by (simp add: lineage_def)
qed

lemma revoked_child:
  assumes "tk_parent (ts ! c) = Some p" and "revoked ts p"
  shows "revoked ts c"
proof (cases "lineage ts c")
  case (Some l)
  with lineage_parent [OF Some assms(1)] assms(2) show ?thesis by (auto simp: revoked_def)
qed (simp add: revoked_def)

section \<open>Chains of derivations\<close>

text \<open>
  The grants derived from a root, at any later time and over any number of levels; the tokens
  change in between by other derivations and revocations.
\<close>

inductive descends ::
  "(grant_content \<Rightarrow> string) \<Rightarrow> agent_grant \<times> tokens \<Rightarrow> agent_grant \<times> tokens \<Rightarrow> bool" for hash where
  root: "descends hash (g, ts) (g, ts)"
| child: "descends hash r (g, ts) \<Longrightarrow> later ts ts1 \<Longrightarrow>
    derive hash ts1 g identity scopes tools skills budget = Inr (g', ts') \<Longrightarrow> descends hash r (g', ts')"

definition grant_normal :: "agent_grant \<Rightarrow> bool" where
  "grant_normal g \<longleftrightarrow> (\<forall>s \<in> set (gc_scopes (gr_content g)). scope_normal s)"

lemma build_grant_normal: "build_grant h v i ss tg sg b ph t = Inr g \<Longrightarrow> grant_normal g \<and> gr_token g = t"
  using normalize_scopes_normal by (auto simp: build_grant_def bind_result_Inr Let_def grant_normal_def)

lemma resolve_normal: "resolve h ts v i ss tg sg b = Inr (g, ts') \<Longrightarrow> grant_normal g"
  using build_grant_normal by (fastforce simp: resolve_def new_token_def bind_result_Inr)

lemma derive_facts:
  assumes "derive h ts p i ss tg sg b = Inr (g, ts')"
  shows "grant_normal g" and "later ts ts'" and "gr_token g = length ts" and "length ts' = Suc (length ts)"
    and "tk_parent (ts' ! length ts) = Some (gr_token p)"
    and "\<exists>u cs. check_scopes (gc_scopes (gr_content p)) cs = Inr u \<and> set (gc_scopes (gr_content g)) = set cs"
    and "\<not> revoked ts (gr_token p)"
    and "budget_contains (gc_budget (gr_content p)) (gc_budget (gr_content g))"
    and "ai_project_id (gc_identity (gr_content g)) = ai_project_id (gc_identity (gr_content p))"
    and "ai_session_id (gc_identity (gr_content g)) = ai_session_id (gc_identity (gr_content p))"
proof -
  obtain scopes' tools' skills' budget' u where n: "normalize_resource_scopes ss = Inr scopes'"
    "normalize_budget b = Inr budget'"
    "check_scopes (gc_scopes (gr_content p)) scopes' = Inr u" "\<not> revoked ts (gr_token p)"
    "budget_contains (gc_budget (gr_content p)) budget'"
    "ai_project_id i = ai_project_id (gc_identity (gr_content p))"
    "ai_session_id i = ai_session_id (gc_identity (gr_content p))"
    and g: "build_grant h (gc_policy_version (gr_content p)) i scopes' tools' skills' budget' (Some (gr_hash p)) (length ts) = Inr g"
    and ts': "ts' = ts @ [\<lparr>tk_parent = Some (gr_token p), tk_revoked = False, tk_pending = 0\<rparr>]"
    using assms by (auto simp: derive_def bind_result_Inr Let_def new_token_def)
  show "grant_normal g" "gr_token g = length ts" using build_grant_normal [OF g] by simp_all
  show "later ts ts'" "length ts' = Suc (length ts)" "tk_parent (ts' ! length ts) = Some (gr_token p)"
    using later_new [of ts "Some (gr_token p)"] by (simp_all add: ts' new_token_def)
  obtain scopes'' where s: "normalize_resource_scopes scopes' = Inr scopes''" "gc_scopes (gr_content g) = scopes''"
    and c: "gc_budget (gr_content g) = budget'" "gc_identity (gr_content g) = i"
    using g by (auto simp: build_grant_def bind_result_Inr Let_def normalize_budget_def)
  have "set scopes'' = set scopes'"
    by (rule normalize_scopes_again [OF _ s(1)]) (use normalize_scopes_normal [OF n(1)] in blast)
  with n(3) s(2) show "\<exists>u cs. check_scopes (gc_scopes (gr_content p)) cs = Inr u \<and> set (gc_scopes (gr_content g)) = set cs"
    by blast
  show "\<not> revoked ts (gr_token p)" "budget_contains (gc_budget (gr_content p)) (gc_budget (gr_content g))"
    "ai_project_id (gc_identity (gr_content g)) = ai_project_id (gc_identity (gr_content p))"
    "ai_session_id (gc_identity (gr_content g)) = ai_session_id (gc_identity (gr_content p))"
    using n c by simp_all
qed


lemma build_grant_budget: "build_grant h v i ss tg sg b ph t = Inr g \<Longrightarrow> budget_contains (gc_budget (gr_content g)) (gc_budget (gr_content g))"
  by (auto simp: build_grant_def bind_result_Inr Let_def normalize_budget_def budget_contains_def split: seconds.splits)

lemma budget_contains_trans: "budget_contains a b \<Longrightarrow> budget_contains b c \<Longrightarrow> budget_contains a c"
  by (auto simp: budget_contains_def split: seconds.splits)

lemma budget_contains_self: "budget_contains a b \<Longrightarrow> budget_contains b b"
  by (auto simp: budget_contains_def split: seconds.splits)

lemma descends_attenuates:
  assumes "descends h (g0, ts0) (g, ts1)" and "grant_normal g0" and "gr_token g0 < length ts0"
    and "budget_contains (gc_budget (gr_content g0)) (gc_budget (gr_content g0))"
  shows "grant_normal g \<and> gr_token g < length ts1
     \<and> (\<forall>ts2. later ts1 ts2 \<longrightarrow> decision_allowed ts2 (authorize dh ts2 g a r attrs)
          \<longrightarrow> decision_allowed ts2 (authorize dh ts2 g0 a r attrs))
     \<and> budget_contains (gc_budget (gr_content g0)) (gc_budget (gr_content g))
     \<and> ai_project_id (gc_identity (gr_content g)) = ai_project_id (gc_identity (gr_content g0))
     \<and> ai_session_id (gc_identity (gr_content g)) = ai_session_id (gc_identity (gr_content g0))"
  using assms
proof (induction "(g0, ts0)" "(g, ts1)" arbitrary: g ts1 rule: descends.induct)
  case (child g ts ts1 identity scopes tools skills budget g' ts')
  note IH = child(2) [OF child.prems]
  note d = derive_facts [OF child(4)]
  have "decision_allowed ts2 (authorize dh ts2 g a r attrs)"
    if l: "later ts' ts2" and ok: "decision_allowed ts2 (authorize dh ts2 g' a r attrs)" for ts2
  proof -
    have "tk_parent (ts2 ! length ts1) = Some (gr_token g)" using l d(4,5) by (simp add: later_def)
    moreover have "\<not> revoked ts2 (length ts1)" using ok d(3) by (simp add: decision_iff)
    ultimately have "\<not> revoked ts2 (gr_token g)" using revoked_child by blast
    moreover have "granted_by (gc_scopes (gr_content g)) a r (sort attrs)"
    proof -
      obtain u cs where cs: "check_scopes (gc_scopes (gr_content g)) cs = Inr u" "set (gc_scopes (gr_content g')) = set cs"
        using d(6) by blast
      have "granted_by cs a r (sort attrs)" using ok cs(2) by (simp add: decision_iff granted_by_def)
      moreover have "\<forall>p \<in> set (gc_scopes (gr_content g)). distinct (map fst (sc_attributes p))"
        using IH by (simp add: grant_normal_def scope_normal_def)
      ultimately show ?thesis using attenuated_scopes cs(1) by blast
    qed
    ultimately show ?thesis using ok by (simp add: decision_iff)
  qed
  moreover have "later ts ts2" if "later ts' ts2" for ts2
    using later_trans [OF child(3) later_trans [OF d(2) that]] .
  ultimately show ?case
    using IH d budget_contains_trans by auto
qed (simp_all)

lemma resolve_token: "resolve h ts v i ss tg sg b = Inr (g, ts') \<Longrightarrow> gr_token g < length ts'"
  using build_grant_normal by (fastforce simp: resolve_def new_token_def bind_result_Inr)

lemma resolve_budget: "resolve h ts v i ss tg sg b = Inr (g, ts') \<Longrightarrow> budget_contains (gc_budget (gr_content g)) (gc_budget (gr_content g))"
  using build_grant_budget by (fastforce simp: resolve_def new_token_def bind_result_Inr)

lemma lineage_from_member: "lineage_from ts seen (Some i) = Some l \<Longrightarrow> i \<in> set l"
  by (auto dest!: lineage_from_Some [of ts "i # seen"] split: if_splits)

lemma revoked_flag: "tk_revoked (ts ! i) \<Longrightarrow> revoked ts i"
  using lineage_from_member [of ts "[]" i] by (auto simp: revoked_def lineage_def list_ex_iff split: option.split)

text \<open>
  C6. Derivation only attenuates, at every level. Take any chain of derivations from a resolved
  grant \<open>g0\<close> to a grant \<open>g\<close>, any grant \<open>g1\<close> on it (the root and \<open>g\<close> included), and whatever was
  derived or revoked meanwhile: every request \<open>g\<close> is allowed is allowed to \<open>g1\<close> as well, and the
  flag of \<open>g1\<close> has not been set. So once any single ancestor is revoked, nothing derived from it
  is allowed anything. The budget of \<open>g\<close> is contained in that of \<open>g1\<close>, and both belong to the
  same project and session.
\<close>

theorem derivation_attenuates:
  assumes "resolve h ts v i ss tg sg b = Inr (g0, ts0)"
    and "descends h (g0, ts0) (g1, ts1)" and "descends h (g1, ts1) (g, ts2)"
    and "later ts2 ts3" and "decision_allowed ts3 (authorize dh ts3 g a r attrs)"
  shows "decision_allowed ts3 (authorize dh ts3 g1 a r attrs) \<and> \<not> tk_revoked (ts3 ! gr_token g1)
     \<and> budget_contains (gc_budget (gr_content g1)) (gc_budget (gr_content g))
     \<and> ai_project_id (gc_identity (gr_content g)) = ai_project_id (gc_identity (gr_content g1))
     \<and> ai_session_id (gc_identity (gr_content g)) = ai_session_id (gc_identity (gr_content g1))"
proof -
  note upper = descends_attenuates [OF assms(2) resolve_normal [OF assms(1)] resolve_token [OF assms(1)]
      resolve_budget [OF assms(1)]]
  have "budget_contains (gc_budget (gr_content g1)) (gc_budget (gr_content g1))"
    using budget_contains_self upper by blast
  note lower = descends_attenuates [OF assms(3) _ _ this, of dh a r attrs]
  from upper lower assms(4,5) have allowed: "decision_allowed ts3 (authorize dh ts3 g1 a r attrs)" by blast
  then have "\<not> tk_revoked (ts3 ! gr_token g1)" using revoked_flag by (auto simp: decision_iff)
  with allowed upper lower show ?thesis by blast
qed

definition demo_identity :: agent_identity where
  "demo_identity = \<lparr>ai_principal_id = ''u'', ai_role = IMPLEMENTER, ai_project_id = ''p'', ai_session_id = None,
     ai_run_id = None, ai_owner_id = None, ai_agent_id = None\<rparr>"

definition demo_scope :: "string \<Rightarrow> resource_scope" where
  "demo_scope path = \<lparr>sc_resource_type = ''workspace_path'', sc_actions = [''read''],
     sc_attributes = [(''path'', path)], sc_effect = Allow\<rparr>"

definition demo_budget :: budget_grant where
  "demo_budget = \<lparr>bg_provider_calls = 1, bg_tool_calls = 1, bg_wall_seconds = Finite 10\<rparr>"

definition demo_grant :: "string \<Rightarrow> string option \<Rightarrow> nat \<Rightarrow> agent_grant" where
  "demo_grant path parent token = (let c = \<lparr>gc_policy_version = ''1'', gc_identity = demo_identity,
      gc_scopes = [demo_scope path], gc_tools = [], gc_skills = [], gc_budget = demo_budget, gc_parent_hash = parent\<rparr>
    in \<lparr>gr_content = c, gr_id = ''grant-h'', gr_hash = ''h'', gr_token = token\<rparr>)"

lemma eq_char_of: "c = char_of (n :: nat) \<longleftrightarrow> take_bit 8 n = of_char c"
  using char_of_eq_iff [of n c] by auto

lemma demo_normalize: "normalize_relative_path ''a'' = Inr ''a''" "normalize_relative_path ''a/b'' = Inr ''a/b''"
  "normalize_relative_path ''a/b/c'' = Inr ''a/b/c''"
  by (simp_all add: normalize_relative_path_def normpath_def Let_def startswith_def endswith_def up_def here_def
      char_of_eq_iff eq_char_of)

lemma demo_scopes:
  assumes "normalize_relative_path p = Inr p"
  shows "normalize_resource_scopes [demo_scope p] = Inr [demo_scope p]"
  using assms by (simp add: normalize_resource_scopes_def normalize_scope_def demo_scope_def check_def
      known_resource_types_def strip_set_def strip_def is_space_def Let_def)

lemma demo_resolve:
  "resolve (\<lambda>_. ''h'') [] ''1'' demo_identity [demo_scope ''a''] [] [] (Some demo_budget)
   = Inr (demo_grant ''a'' None 0, [\<lparr>tk_parent = None, tk_revoked = False, tk_pending = 0\<rparr>])"
  by (simp add: resolve_def new_token_def build_grant_def demo_scopes [OF demo_normalize(1)] demo_grant_def Let_def check_def
      validate_identity_def blank_def demo_identity_def normalize_tool_grants_def normalize_skill_grants_def
      normalize_budget_def demo_budget_def strip_def is_space_def)

lemma demo_contains: "path_contains ''a'' ''a/b''" "path_contains ''a/b'' ''a/b/c''"
  by (simp_all add: path_contains_def demo_normalize startswith_def rstrip_slash_def)

lemma demo_derive:
  "derive (\<lambda>_. ''h'') [\<lparr>tk_parent = None, tk_revoked = False, tk_pending = 0\<rparr>] (demo_grant ''a'' None 0) demo_identity
     [demo_scope ''a/b''] [] [] demo_budget
   = Inr (demo_grant ''a/b'' (Some ''h'') 1, [\<lparr>tk_parent = None, tk_revoked = False, tk_pending = 0\<rparr>,
       \<lparr>tk_parent = Some 0, tk_revoked = False, tk_pending = 0\<rparr>])"
proof -
  have "check_scopes [demo_scope ''a''] [demo_scope ''a/b''] = Inr ()"
    by (simp add: check_def scope_contains_def demo_scope_def pairs_get_def demo_contains)
  then show ?thesis
    by (simp add: derive_def new_token_def build_grant_def demo_scopes [OF demo_normalize(2)] demo_grant_def Let_def check_def
        validate_identity_def blank_def demo_identity_def normalize_tool_grants_def normalize_skill_grants_def
        normalize_budget_def demo_budget_def strip_def is_space_def revoked_def lineage_def
        tools_contained_def skills_contained_def budget_contains_def del: check_scopes.simps)
qed

theorem derivation_attenuates_witness:
  "decision_allowed [\<lparr>tk_parent = None, tk_revoked = False, tk_pending = 0\<rparr>, \<lparr>tk_parent = Some 0, tk_revoked = False, tk_pending = 0\<rparr>]
     (authorize (\<lambda>_. ''d'') [\<lparr>tk_parent = None, tk_revoked = False, tk_pending = 0\<rparr>, \<lparr>tk_parent = Some 0, tk_revoked = False, tk_pending = 0\<rparr>]
       (demo_grant ''a'' None 0) ''read'' ''workspace_path'' [(''path'', ''a/b/c'')])"
proof -
  let ?ts = "[\<lparr>tk_parent = None, tk_revoked = False, tk_pending = 0\<rparr>, \<lparr>tk_parent = Some (0 :: nat), tk_revoked = False, tk_pending = 0\<rparr>]"
  have d: "descends (\<lambda>_. ''h'') (demo_grant ''a'' None 0, [\<lparr>tk_parent = None, tk_revoked = False, tk_pending = 0\<rparr>])
      (demo_grant ''a/b'' (Some ''h'') 1, ?ts)"
    by (rule descends.child [OF descends.root later_refl demo_derive])
  have "decision_allowed ?ts (authorize (\<lambda>_. ''d'') ?ts (demo_grant ''a/b'' (Some ''h'') 1) ''read'' ''workspace_path'' [(''path'', ''a/b/c'')])"
    by (simp add: decision_iff granted_by_def demo_grant_def demo_scope_def scope_matches_def pairs_get_def demo_contains
        known_resource_types_def revoked_def lineage_def Let_def)
  from derivation_attenuates [OF demo_resolve descends.root d later_refl this] show ?thesis by blast
qed


section \<open>Confinement\<close>

text \<open>What is accepted again stays, unless its first segment ends in a colon.\<close>

lemma normalize_path_next:
  assumes "normalize_relative_path p = Inr n"
  shows "normalize_relative_path n
    = (if endswith (hd (split_on (CHR ''/'') n)) '':'' then Inl (ValueError ''invalid_path'') else Inr n)"
proof -
  let ?q = "replace_char (char_of (92::nat)) ''/'' p"
  have n: "n = normpath ?q" and nul: "char_of (0::nat) \<notin> set p"
    and rel: "n \<noteq> up" "\<not> startswith n (up @ ''/'')" "\<not> startswith n ''/''"
    using assms by (auto simp: normalize_relative_path_def Let_def split: if_splits)
  have "char_of (0::nat) \<notin> set ?q" using nul set_replace_subset [of "char_of (92::nat)" "''/''" p]
    by (auto simp: char_of_eq_iff)
  moreover have "char_of (92::nat) \<notin> set ?q" by (rule set_replace_char) (simp add: char_of_eq_iff)
  ultimately have chars: "char_of (0::nat) \<notin> set n" "char_of (92::nat) \<notin> set n"
    using set_normpath [of ?q] by (auto simp: n char_of_eq_iff)
  have c: "confined n" by (rule normalize_path_confined [OF assms])
  then have "n \<noteq> []" by (auto simp: confined_def here_def dest!: plain_join(2))
  with chars rel normpath_fixed [OF c] show ?thesis
    by (simp add: normalize_relative_path_def Let_def replace_char_absent)
qed

text \<open>
  A drive in the first segment is refused only as the text was written, not after normalising.
\<close>

lemma drive_after_dot:
  "normalize_relative_path ''C:/x'' = Inl (ValueError ''invalid_path'')"
  "normalize_relative_path ''./C:/x'' = Inr ''C:/x''"
  by (simp_all add: normalize_relative_path_def normpath_def Let_def startswith_def endswith_def up_def here_def
      char_of_eq_iff eq_char_of)

text \<open>
  C14. Accepted paths are confined. A path the contracts accept is normalised to the workspace
  root or to a sequence of plain names below it: no parents, no empty parts, no leading slash,
  read as a POSIX path (\<open>confined\<close> knows no drives). Accepted again, it stays as it is, except
  when its first name ends in a colon: a drive is refused only where the text starts with it, so
  one behind a leading \<^verbatim>\<open>./\<close> is accepted once (\<open>drive_after_dot\<close>) and the result is refused from
  then on.
\<close>

theorem accepted_path_confined:
  assumes "normalize_relative_path p = Inr n"
  shows "confined n \<and> normalize_relative_path n
    = (if endswith (hd (split_on (CHR ''/'') n)) '':'' then Inl (ValueError ''invalid_path'') else Inr n)"
  using normalize_path_confined [OF assms] normalize_path_next [OF assms] by blast

theorem accepted_path_confined_witness:
  "confined ''a/b'' \<and> normalize_relative_path ''C:/x'' = Inl (ValueError ''invalid_path'')"
proof
  show "confined ''a/b''" using accepted_path_confined [OF demo_normalize(2)] by blast
  show "normalize_relative_path ''C:/x'' = Inl (ValueError ''invalid_path'')"
    using accepted_path_confined [OF drive_after_dot(2)] by (simp add: endswith_def)
qed

section \<open>Starts and revocation\<close>

text \<open>
  Any number of threads: a start is reserved, entered or cancelled; \<^verbatim>\<open>revoke\<close> sets its flag and
  joins the waiting calls, and returns when nothing is pending; tokens are created. The second
  component lists the tokens of the waiting calls, the third those of the calls that returned.
\<close>

inductive guard_step :: "guard \<times> nat list \<times> nat list \<Rightarrow> guard \<times> nat list \<times> nat list \<Rightarrow> bool" where
  reserve: "reserve_start w i = (res, w') \<Longrightarrow> guard_step (w, W, R) (w', W, R)"
| finish: "r < length (gd_starts w) \<Longrightarrow> st \<noteq> Start_Pending \<Longrightarrow> guard_step (w, W, R) (finish_start w r st, W, R)"
| revoke: "i < length (gd_tokens w) \<Longrightarrow> guard_step (w, W, R) (snd (revoke_set w i), i # W, R)"
| return: "i \<in> set W \<Longrightarrow> revoke_ready w i \<Longrightarrow> guard_step (w, W, R) (w, remove1 i W, i # R)"
| create: "guard_step (w, W, R) (w\<lparr>gd_tokens := snd (new_token p (gd_tokens w))\<rparr>, W, R)"

inductive_cases guard_stepE [consumes 1, case_names reserve finish revoke return create]:
  "guard_step (w, W, R) (w', W', R')"

definition pending_on :: "nat \<Rightarrow> reservation \<Rightarrow> bool" where
  "pending_on i x \<longleftrightarrow> rs_state x = Start_Pending \<and> i \<in> set (rs_lineage x)"

definition guard_ok :: "guard \<Rightarrow> nat list \<Rightarrow> nat list \<Rightarrow> bool" where
  "guard_ok w W R \<longleftrightarrow>
     (\<forall>i < length (gd_tokens w). tk_pending (gd_tokens w ! i) = int (length (filter (pending_on i) (gd_starts w))))
     \<and> (\<forall>x \<in> set (gd_starts w). distinct (rs_lineage x) \<and> set (rs_lineage x) \<subseteq> {..<length (gd_tokens w)})
     \<and> set W \<union> set R \<subseteq> {..<length (gd_tokens w)}
     \<and> (\<forall>i \<in> set W \<union> set R. tk_revoked (gd_tokens w ! i))
     \<and> (\<forall>i \<in> set R. \<forall>x \<in> set (gd_starts w). \<not> pending_on i x)"

lemma length_add_pending [simp]: "length (add_pending n l ts) = length ts"
  unfolding add_pending_def by (induction l arbitrary: ts) auto

lemma nth_add_pending:
  "distinct l \<Longrightarrow> i < length ts \<Longrightarrow> add_pending n l ts ! i
     = (if i \<in> set l then (ts ! i)\<lparr>tk_pending := tk_pending (ts ! i) + n\<rparr> else ts ! i)"
proof (induction l arbitrary: ts)
  case (Cons j l)
  let ?ts = "ts[j := (ts ! j)\<lparr>tk_pending := tk_pending (ts ! j) + n\<rparr>]"
  have "add_pending n (j # l) ts ! i = add_pending n l ?ts ! i" by (simp add: add_pending_def)
  also have "\<dots> = (if i \<in> set l then (?ts ! i)\<lparr>tk_pending := tk_pending (?ts ! i) + n\<rparr> else ?ts ! i)"
    using Cons by simp
  finally show ?case using Cons.prems by (cases "i = j") auto
qed (simp add: add_pending_def)

lemma lineage_from_ok:
  "lineage_from ts seen i = Some l \<Longrightarrow> distinct seen \<Longrightarrow> set seen \<subseteq> {..<length ts} \<Longrightarrow>
   distinct l \<and> set l \<subseteq> {..<length ts}"
  by (induction ts seen i arbitrary: l rule: lineage_from.induct) (auto split: if_splits)

lemma lineage_ok: "lineage ts i = Some l \<Longrightarrow> distinct l \<and> set l \<subseteq> {..<length ts}"
  unfolding lineage_def by (drule lineage_from_ok) auto

lemma filter_update_pending:
  assumes "r < length xs"
  shows "int (length (filter P (xs[r := y]))) = int (length (filter P xs)) - (if P (xs ! r) then 1 else 0) + (if P y then 1 else 0)"
proof -
  have "filter P xs = filter P (take r xs @ xs ! r # drop (Suc r) xs)"
    by (rule arg_cong [OF id_take_nth_drop [OF assms]])
  then have "filter P xs = filter P (take r xs) @ (if P (xs ! r) then [xs ! r] else []) @ filter P (drop (Suc r) xs)"
    by simp
  moreover have "filter P (xs[r := y]) = filter P (take r xs) @ (if P y then [y] else []) @ filter P (drop (Suc r) xs)"
    using assms by (simp add: upd_conv_take_nth_drop)
  ultimately show ?thesis by (simp split: if_split)
qed

lemma guard_ok_reserve:
  assumes ok: "guard_ok w W R" and "reserve_start w i = (res, w')"
  shows "guard_ok w' W R"
proof (cases res)
  case None
  then have "w' = w" using assms(2) by (auto simp: reserve_start_def split: option.splits if_splits)
  with ok show ?thesis by simp
next
  case (Some k)
  then obtain l where l: "lineage (gd_tokens w) i = Some l" "\<not> list_ex (\<lambda>t. tk_revoked (gd_tokens w ! t)) l"
    and w': "w' = w\<lparr>gd_tokens := add_pending 1 l (gd_tokens w),
       gd_starts := gd_starts w @ [\<lparr>rs_lineage = l, rs_state = Start_Pending\<rparr>]\<rparr>"
    using assms(2) by (auto simp: reserve_start_def split: option.splits if_splits)
  note dl = lineage_ok [OF l(1)]
  have "j \<notin> set l" if "j \<in> set W \<union> set R" for j
    using that ok l(2) by (auto simp: guard_ok_def list_ex_iff)
  with ok dl show ?thesis
    by (auto simp: guard_ok_def w' nth_add_pending pending_on_def)
qed

lemma guard_ok_finish:
  assumes ok: "guard_ok w W R" and r: "r < length (gd_starts w)" and st: "st \<noteq> Start_Pending"
  shows "guard_ok (finish_start w r st) W R"
proof (cases "rs_state (gd_starts w ! r) = Start_Pending")
  case True
  let ?x = "gd_starts w ! r" and ?w = "finish_start w r st"
  let ?y = "?x\<lparr>rs_state := st\<rparr>"
  have w: "gd_starts ?w = (gd_starts w)[r := ?y]" "gd_tokens ?w = add_pending (- 1) (rs_lineage ?x) (gd_tokens w)"
    using True by (simp_all add: finish_start_def Let_def)
  have x: "?x \<in> set (gd_starts w)" using r by simp
  then have dl: "distinct (rs_lineage ?x)" "set (rs_lineage ?x) \<subseteq> {..<length (gd_tokens w)}"
    using ok by (auto simp: guard_ok_def)
  have "\<not> pending_on i ?y" "pending_on i ?x \<longleftrightarrow> i \<in> set (rs_lineage ?x)" for i
    using st True by (auto simp: pending_on_def)
  then have counts: "tk_pending (gd_tokens ?w ! i) = int (length (filter (pending_on i) (gd_starts ?w)))"
    if "i < length (gd_tokens w)" for i
    using ok that dl by (auto simp: w nth_add_pending filter_update_pending [OF r] guard_ok_def)
  have sub: "set (gd_starts ?w) \<subseteq> insert ?y (set (gd_starts w))" unfolding w by (rule set_update_subset_insert)
  have revd: "tk_revoked (gd_tokens ?w ! i) = tk_revoked (gd_tokens w ! i)" if "i < length (gd_tokens w)" for i
    using that dl by (simp add: w nth_add_pending)
  have len: "length (gd_tokens ?w) = length (gd_tokens w)" by (simp add: w)
  have shape: "distinct (rs_lineage z) \<and> set (rs_lineage z) \<subseteq> {..<length (gd_tokens w)}" if "z \<in> set (gd_starts ?w)" for z
    using subsetD [OF sub that] ok dl by (auto simp: guard_ok_def)
  have none: "\<not> pending_on i z" if "i \<in> set R" "z \<in> set (gd_starts ?w)" for i z
    using subsetD [OF sub that(2)] that(1) ok st by (auto simp: guard_ok_def pending_on_def)
  show ?thesis
    unfolding guard_ok_def len using ok counts revd shape none by (auto simp: guard_ok_def)
next
  case False
  with ok show ?thesis by (simp add: finish_start_def Let_def)
qed

lemma guard_ok_step:
  assumes "guard_step (w, W, R) (w', W', R')" and ok: "guard_ok w W R"
  shows "guard_ok w' W' R'"
  using assms(1)
proof (cases rule: guard_stepE)
  case (reserve i res)
  with guard_ok_reserve [OF ok] show ?thesis by simp
next
  case (finish r st)
  with guard_ok_finish [OF ok] show ?thesis by simp
next
  case (revoke i)
  then show ?thesis
    using ok by (auto simp: guard_ok_def revoke_set_def Let_def nth_list_update)
next
  case (return i)
  have "\<not> pending_on i x" if "x \<in> set (gd_starts w)" for x
  proof -
    have "i < length (gd_tokens w)" using ok return by (auto simp: guard_ok_def)
    then have "length (filter (pending_on i) (gd_starts w)) = 0"
      using ok return by (auto simp: guard_ok_def revoke_ready_def)
    with that show ?thesis by (auto simp: filter_empty_conv)
  qed
  moreover have "set (remove1 i W) \<union> set (i # R) \<subseteq> set W \<union> set R"
    using return set_remove1_subset [of i W] by auto
  ultimately show ?thesis
    using ok return by (auto simp: guard_ok_def dest: notin_set_remove1)
next
  case (create p)
  then show ?thesis
    using ok by (fastforce simp: guard_ok_def new_token_def nth_append pending_on_def less_Suc_eq filter_empty_conv)
qed


lemma guard_ok_run:
  "guard_step\<^sup>*\<^sup>* s s' \<Longrightarrow> guard_ok (fst s) (fst (snd s)) (snd (snd s)) \<Longrightarrow> guard_ok (fst s') (fst (snd s')) (snd (snd s'))"
proof (induction rule: rtranclp_induct)
  case (step t u)
  then show ?case using guard_ok_step by (cases t; cases u) auto
qed

definition entered_under :: "guard \<Rightarrow> nat \<Rightarrow> nat set" where
  "entered_under w i = {r. r < length (gd_starts w) \<and> rs_state (gd_starts w ! r) = Start_Entered
     \<and> i \<in> set (rs_lineage (gd_starts w ! r))}"

lemma entered_step:
  assumes "guard_step (w, W, R) (w', W', R')" and ok: "guard_ok w W R" and i: "i \<in> set R"
  shows "i \<in> set R' \<and> entered_under w' i = entered_under w i"
  using assms(1)
proof (cases rule: guard_stepE)
  case (reserve j res)
  then show ?thesis
    using i by (auto simp: reserve_start_def entered_under_def nth_append less_Suc_eq split: option.splits if_splits)
next
  case (finish r st)
  have "gd_starts w ! r \<in> set (gd_starts w)" using finish by simp
  then have "i \<notin> set (rs_lineage (gd_starts w ! r))" if "rs_state (gd_starts w ! r) = Start_Pending"
    using that ok i by (auto simp: guard_ok_def pending_on_def)
  with finish i show ?thesis
    by (auto simp: finish_start_def Let_def entered_under_def nth_list_update)
next
  case (revoke j)
  with i show ?thesis by (simp add: revoke_set_def Let_def entered_under_def)
next
  case (return j)
  with i show ?thesis by simp
next
  case (create p)
  with i show ?thesis by (simp add: entered_under_def)
qed

text \<open>
  C12. Revocation is final once it returns. In every interleaving of threads that reserve, enter
  and cancel starts, revoke and create tokens, no further continuation starts under a token or
  any descendant of it after a call of \<^verbatim>\<open>revoke\<close> on it has returned; and a waiting call can
  return exactly when no start is pending under its token.
\<close>

theorem revoked_never_starts:
  assumes "guard_step\<^sup>*\<^sup>* (\<lparr>gd_tokens = [], gd_starts = []\<rparr>, [], []) (w, W, R)"
    and "guard_step\<^sup>*\<^sup>* (w, W, R) (w', W', R')" and "i \<in> set R"
  shows "entered_under w' i = entered_under w i
     \<and> (revoke_ready w' i \<longleftrightarrow> list_all (\<lambda>x. \<not> pending_on i x) (gd_starts w'))"
proof -
  have ok: "guard_ok w W R" using guard_ok_run [OF assms(1)] by (simp add: guard_ok_def)
  have "i \<in> set (snd (snd s')) \<and> entered_under (fst s') i = entered_under w i \<and> guard_ok (fst s') (fst (snd s')) (snd (snd s'))"
    if "guard_step\<^sup>*\<^sup>* (w, W, R) s'" for s'
    using that
  proof (induction rule: rtranclp_induct)
    case (step t u)
    then show ?case using entered_step guard_ok_step by (cases t; cases u) fastforce
  qed (use assms(3) ok in simp)
  from this [OF assms(2)] have i: "i \<in> set R'" "entered_under w' i = entered_under w i" "guard_ok w' W' R'" by auto
  then have "revoke_ready w' i \<longleftrightarrow> filter (pending_on i) (gd_starts w') = []"
    by (auto simp: guard_ok_def revoke_ready_def)
  with i show ?thesis by (auto simp: filter_empty_conv list_all_iff)
qed

theorem revoked_never_starts_witness:
  "entered_under (snd (reserve_start \<lparr>gd_tokens = [\<lparr>tk_parent = None, tk_revoked = True, tk_pending = 0\<rparr>], gd_starts = []\<rparr> 0)) 0 = {}"
proof -
  let ?w0 = "\<lparr>gd_tokens = [], gd_starts = []\<rparr>"
  let ?w1 = "\<lparr>gd_tokens = [\<lparr>tk_parent = None, tk_revoked = False, tk_pending = 0\<rparr>], gd_starts = []\<rparr>"
  let ?w2 = "\<lparr>gd_tokens = [\<lparr>tk_parent = None, tk_revoked = True, tk_pending = 0\<rparr>], gd_starts = []\<rparr>"
  have "guard_step (?w0, [], []) (?w1, [], [])"
    using guard_step.create [of ?w0 "[]" "[]" None] by (simp add: new_token_def)
  moreover have "guard_step (?w1, [], []) (?w2, [0], [])"
    using guard_step.revoke [of 0 ?w1 "[]" "[]"] by (simp add: revoke_set_def Let_def)
  moreover have "guard_step (?w2, [0], []) (?w2, [], [0])"
    using guard_step.return [of 0 "[0]" ?w2 "[]"] by (simp add: revoke_ready_def)
  ultimately have run: "guard_step\<^sup>*\<^sup>* (?w0, [], []) (?w2, [], [0])"
    by (meson converse_rtranclp_into_rtranclp rtranclp.rtrancl_refl)
  have "guard_step\<^sup>*\<^sup>* (?w2, [], [0]) (snd (reserve_start ?w2 0), [], [0])"
    by (intro r_into_rtranclp guard_step.reserve [of ?w2 0 "fst (reserve_start ?w2 0)"]) simp
  from revoked_never_starts [OF run this] show ?thesis by (simp add: entered_under_def)
qed

end
