(* ===== verification/Change_Outbox.thy ===== *)
theory Change_Outbox
  imports Path_Norm "HOL-Library.List_Lexorder" "HOL-Library.Char_ord"
begin

text \<open>
  The change outbox of \<^verbatim>\<open>agent/runtime/change_outbox.py\<close>: intents in the project's outbox
  database, the commit of one file, the commit of a batch with its rollback, and the recovery at
  start-up. The model runs against an environment that decides at every effect on the disk or
  the database whether it succeeds, fails, or the process stops there. Files are a partial map from
  relative paths to their contents; the paths named by intents are not directories. The digest is
  the parameter \<open>sha\<close>; message identifiers and random suffixes are arguments. Failure hooks are a
  test device and are not set.
\<close>

section \<open>Worlds and effects\<close>

datatype change_type = Add | Modify | Remove | Rename

datatype intent_state = RESERVED | COMMITTING | READY | DELIVERED | REBASE_REQUIRED

record correlation =
  co_trace_id :: string
  co_project_id :: string
  co_agent_id :: string
  co_generation :: int

record change_intent =
  ci_message_id :: string
  ci_relative_path :: string
  ci_old_path :: "string option"
  ci_change_type :: change_type
  ci_before_digest :: string
  ci_after_digest :: string
  ci_staging_path :: "string option"
  ci_state :: intent_state
  ci_fence_token :: int
  ci_superseded_by :: "string option"
  ci_attempt :: int
  ci_next_retry_at :: "int option"
  ci_correlation :: correlation
  ci_created_at :: int

record world =
  wd_files :: "string \<Rightarrow> string option"
  wd_intents :: "change_intent list"
  wd_tick :: nat

text \<open>
  \<open>Fail\<close> and \<open>Halt\<close> carry what a torn write leaves in the file, if it was created; for the
  reservation \<open>Fail None\<close> is a busy database.
\<close>

datatype fault = Proceed | Fail "string option" | Halt "string option"

record environment =
  xe_fault :: "nat \<Rightarrow> fault"
  xe_clock :: "nat \<Rightarrow> int"

datatype outbox_exn = Os_Error | Sqlite_Error | Outbox_Error string

datatype 'a io = Done 'a | Raised outbox_exn | Halted

fun bind_io :: "'a io \<times> world \<Rightarrow> ('a \<Rightarrow> world \<Rightarrow> 'b io \<times> world) \<Rightarrow> 'b io \<times> world" where
  "bind_io (Done x, w) f = f x w"
| "bind_io (Raised e, w) f = (Raised e, w)"
| "bind_io (Halted, w) f = (Halted, w)"

definition next_tick :: "world \<Rightarrow> world" where
  "next_tick w = w\<lparr>wd_tick := Suc (wd_tick w)\<rparr>"

text \<open>An effect with what it does, how it fails and what a failure leaves behind.\<close>

definition perform_io ::
  "environment \<Rightarrow> outbox_exn \<Rightarrow> (string option \<Rightarrow> world \<Rightarrow> world) \<Rightarrow> (world \<Rightarrow> 'a io \<times> world) \<Rightarrow> world \<Rightarrow> 'a io \<times> world"
where
  "perform_io env exn torn act w =
     (case xe_fault env (wd_tick w) of
        Proceed \<Rightarrow> act (next_tick w)
      | Fail x \<Rightarrow> (Raised exn, torn x (next_tick w))
      | Halt x \<Rightarrow> (Halted, torn x w))"

section \<open>Files\<close>

definition file_digest :: "(string \<Rightarrow> string) \<Rightarrow> world \<Rightarrow> string \<Rightarrow> string" where
  "file_digest sha w path =
     (case wd_files w path of None \<Rightarrow> ''missing:'' | Some c \<Rightarrow> ''sha256:'' @ sha c)"

definition text_digest :: "(string \<Rightarrow> string) \<Rightarrow> string \<Rightarrow> string" where
  "text_digest sha t = ''sha256:'' @ sha t"

definition set_file :: "string \<Rightarrow> string option \<Rightarrow> world \<Rightarrow> world" where
  "set_file path c w = w\<lparr>wd_files := (wd_files w)(path := c)\<rparr>"

text \<open>\<^verbatim>\<open>os.replace\<close>\<close>

definition replace_file :: "environment \<Rightarrow> string \<Rightarrow> string \<Rightarrow> world \<Rightarrow> unit io \<times> world" where
  "replace_file env src dst =
     perform_io env Os_Error (\<lambda>_ w. w) (\<lambda>w.
       case wd_files w src of None \<Rightarrow> (Raised Os_Error, w)
       | Some c \<Rightarrow> (Done (), set_file dst (Some c) (set_file src None w)))"

text \<open>\<^verbatim>\<open>unlink(missing_ok=True)\<close>, and the same with errors suppressed\<close>

definition unlink :: "environment \<Rightarrow> string \<Rightarrow> world \<Rightarrow> unit io \<times> world" where
  "unlink env path = perform_io env Os_Error (\<lambda>_ w. w) (\<lambda>w. (Done (), set_file path None w))"

definition unlink_suppressed :: "environment \<Rightarrow> string \<Rightarrow> world \<Rightarrow> unit io \<times> world" where
  "unlink_suppressed env path w =
     (case unlink env path w of (Raised e, w') \<Rightarrow> (if e = Os_Error then (Done (), w') else (Raised e, w')) | r \<Rightarrow> r)"

text \<open>\<^verbatim>\<open>open("x")\<close>, write, flush and fsync\<close>

definition write_new :: "environment \<Rightarrow> string \<Rightarrow> string \<Rightarrow> world \<Rightarrow> unit io \<times> world" where
  "write_new env path t w =
     (if wd_files w path \<noteq> None then (Raised Os_Error, w)
      else perform_io env Os_Error (\<lambda>x. set_file path x) (\<lambda>w. (Done (), set_file path (Some t) w)) w)"

definition make_parent :: "environment \<Rightarrow> world \<Rightarrow> unit io \<times> world" where
  "make_parent env = perform_io env Os_Error (\<lambda>_ w. w) (\<lambda>w. (Done (), w))"

section \<open>Paths\<close>

text \<open>\<^verbatim>\<open>PurePosixPath(raw)\<close> keeps the parts that are not empty and not a single dot.\<close>

definition path_parts :: "string \<Rightarrow> string list" where
  "path_parts raw = filter (\<lambda>c. c \<noteq> [] \<and> c \<noteq> here) (split_on (CHR ''/'') raw)"

definition as_posix :: "string list \<Rightarrow> string" where
  "as_posix parts = (if parts = [] then here else join_with ''/'' parts)"

definition normalize_outbox_path :: "string \<Rightarrow> string result" where
  "normalize_outbox_path value =
     (let raw = strip value; parts = path_parts raw in
      if raw = [] \<or> startswith raw ''/'' \<or> char_of (92::nat) \<in> set raw \<or> up \<in> set parts
      then Inl (RuntimeError ''path_outside_workspace'')
      else let normalized = as_posix parts;
               normalized = (if startswith normalized ''./'' then drop 2 normalized else normalized)
           in if normalized = ''.bridle'' \<or> startswith normalized ''.bridle/''
              then Inl (RuntimeError ''path_denied'') else Inr normalized)"

text \<open>\<^verbatim>\<open>target.with_name(f".{target.name}{suffix}")\<close>\<close>

definition hidden_name :: "string \<Rightarrow> string \<Rightarrow> string" where
  "hidden_name path suffix =
     (let parts = split_on (CHR ''/'') path
      in join_with ''/'' (butlast parts @ [''.'' @ last parts @ suffix]))"

section \<open>The intents\<close>

record outbox =
  ox_project_id :: string
  ox_capacity :: int
  ox_retry_base :: int
  ox_retry_max :: int

definition make_outbox :: "string \<Rightarrow> int \<Rightarrow> int \<Rightarrow> int \<Rightarrow> outbox result" where
  "make_outbox project capacity base cap =
     (if project = [] \<or> capacity < 1 \<or> base \<le> 0 \<or> cap < base
      then Inl (RuntimeError ''invalid_outbox_config'')
      else Inr \<lparr>ox_project_id = project, ox_capacity = capacity, ox_retry_base = base, ox_retry_max = cap\<rparr>)"

definition make_correlation :: "string \<Rightarrow> string \<Rightarrow> string \<Rightarrow> int \<Rightarrow> correlation result" where
  "make_correlation trace project agent generation =
     (if trace = [] \<or> project = [] \<or> agent = [] \<or> generation < 1
      then Inl (RuntimeError ''invalid_correlation'')
      else Inr \<lparr>co_trace_id = trace, co_project_id = project, co_agent_id = agent, co_generation = generation\<rparr>)"

definition intents :: "world \<Rightarrow> change_intent list" where
  "intents w = sort_key ci_created_at (sort_key ci_message_id (wd_intents w))"

definition get_intent :: "world \<Rightarrow> string \<Rightarrow> change_intent option" where
  "get_intent w m = find (\<lambda>i. ci_message_id i = m) (wd_intents w)"

datatype outbox_reply =
    Reserved change_intent
  | Refused string string
  | Committed change_intent
  | Failed "change_intent option" string

definition inflight :: "change_intent \<Rightarrow> bool" where
  "inflight i \<longleftrightarrow> ci_superseded_by i = None \<and> ci_state i \<in> {RESERVED, COMMITTING, REBASE_REQUIRED}"

definition active :: "change_intent \<Rightarrow> bool" where
  "active i \<longleftrightarrow> ci_superseded_by i = None \<and> ci_state i \<in> {RESERVED, COMMITTING, READY, REBASE_REQUIRED}"

text \<open>The latest in-flight intent of the path; the partial unique index allows one.\<close>

definition blocker :: "world \<Rightarrow> string \<Rightarrow> change_intent option" where
  "blocker w path =
     (case sort_key (\<lambda>i. - ci_created_at i) (filter (\<lambda>i. ci_relative_path i = path \<and> inflight i) (wd_intents w)) of
        [] \<Rightarrow> None | i # _ \<Rightarrow> Some i)"

definition max_fence :: "world \<Rightarrow> string \<Rightarrow> int" where
  "max_fence w path = fold max (map ci_fence_token (filter (\<lambda>i. ci_relative_path i = path) (wd_intents w))) 0"

definition supersede :: "string \<Rightarrow> change_intent \<Rightarrow> change_intent list \<Rightarrow> change_intent list" where
  "supersede m b = update_rows
     (\<lambda>i. ci_message_id i = ci_message_id b \<and> ci_state i = REBASE_REQUIRED \<and> ci_superseded_by i = None)
     (\<lambda>i. i\<lparr>ci_superseded_by := Some m\<rparr>)"

definition insert_reserved :: "change_intent \<Rightarrow> outbox \<Rightarrow> world \<Rightarrow> outbox_reply io \<times> world" where
  "insert_reserved new ox w =
     (let b = blocker w (ci_relative_path new);
          replaced = (case b of None \<Rightarrow> 0 | Some i \<Rightarrow> if ci_state i = REBASE_REQUIRED then 1 else 0)
      in if ox_capacity ox \<le> int (rowcount active (wd_intents w)) - replaced
         then (Done (Refused ''backpressure'' ''outbox_capacity''), w)
         else if b \<noteq> None \<and> replaced = 0
         then (Done (Refused ''path_busy'' ''outbox_path_busy''), w)
         else if get_intent w (ci_message_id new) \<noteq> None then (Raised Sqlite_Error, w)
         else let i = new\<lparr>ci_fence_token := max_fence w (ci_relative_path new) + 1\<rparr>;
                  rows = (case b of None \<Rightarrow> wd_intents w
                          | Some x \<Rightarrow> supersede (ci_message_id new) x (wd_intents w))
              in (Done (Reserved i), w\<lparr>wd_intents := rows @ [i]\<rparr>))"

definition reserve ::
  "environment \<Rightarrow> outbox \<Rightarrow> string \<Rightarrow> string \<Rightarrow> string option \<Rightarrow> change_type \<Rightarrow> string \<Rightarrow> string \<Rightarrow>
   string option \<Rightarrow> correlation \<Rightarrow> world \<Rightarrow> outbox_reply io \<times> world" where
  "reserve env ox m path old_path kind before_digest after_digest staging corr w =
     (let raises = (\<lambda>e. (Raised (Outbox_Error (error_code e)), w)) in
      case normalize_outbox_path path of Inl e \<Rightarrow> raises e
      | Inr p \<Rightarrow>
          (case (case old_path of None \<Rightarrow> Inr None
                 | Some q \<Rightarrow> bind_result (normalize_outbox_path q) (\<lambda>q'. Inr (Some q'))) of
             Inl e \<Rightarrow> raises e
           | Inr q \<Rightarrow>
               (case xe_fault env (wd_tick w) of
                  Halt x \<Rightarrow> (Halted, w)
                | Fail None \<Rightarrow> (Done (Refused ''outbox_busy'' ''outbox_busy''), next_tick w)
                | Fail (Some x) \<Rightarrow> (Raised (Outbox_Error ''outbox_storage_error''), next_tick w)
                | Proceed \<Rightarrow> insert_reserved
                    \<lparr>ci_message_id = m, ci_relative_path = p, ci_old_path = q, ci_change_type = kind,
                     ci_before_digest = before_digest, ci_after_digest = after_digest,
                     ci_staging_path = staging, ci_state = RESERVED, ci_fence_token = 0,
                     ci_superseded_by = None, ci_attempt = 0, ci_next_retry_at = None,
                     ci_correlation = corr, ci_created_at = xe_clock env (wd_tick w)\<rparr> ox (next_tick w))))"

text \<open>The fenced transition: by message, expected state and fence token.\<close>

definition fenced :: "change_intent \<Rightarrow> intent_state \<Rightarrow> change_intent \<Rightarrow> bool" where
  "fenced i st x \<longleftrightarrow> ci_message_id x = ci_message_id i \<and> ci_state x = st
     \<and> ci_fence_token x = ci_fence_token i \<and> ci_superseded_by x = None"

definition update_fenced ::
  "environment \<Rightarrow> change_intent \<Rightarrow> intent_state \<Rightarrow> (change_intent \<Rightarrow> change_intent) \<Rightarrow> world \<Rightarrow>
   change_intent option io \<times> world" where
  "update_fenced env i st f =
     perform_io env Sqlite_Error (\<lambda>_ w. w) (\<lambda>w.
       let w' = w\<lparr>wd_intents := update_rows (fenced i st) f (wd_intents w)\<rparr>
       in (Done (if rowcount (fenced i st) (wd_intents w) \<noteq> 1 then None
                 else get_intent w' (ci_message_id i)), w'))"

definition transition_intent ::
  "environment \<Rightarrow> change_intent \<Rightarrow> intent_state \<Rightarrow> intent_state \<Rightarrow> world \<Rightarrow> change_intent option io \<times> world" where
  "transition_intent env i st expected = update_fenced env i expected (\<lambda>x. x\<lparr>ci_state := st\<rparr>)"

definition mark_committing :: "environment \<Rightarrow> change_intent \<Rightarrow> world \<Rightarrow> change_intent option io \<times> world" where
  "mark_committing env i = transition_intent env i COMMITTING RESERVED"

definition mark_ready :: "environment \<Rightarrow> change_intent \<Rightarrow> world \<Rightarrow> change_intent option io \<times> world" where
  "mark_ready env i = transition_intent env i READY COMMITTING"

definition take_fence :: "environment \<Rightarrow> change_intent \<Rightarrow> world \<Rightarrow> change_intent option io \<times> world" where
  "take_fence env i = update_fenced env i COMMITTING (\<lambda>x. x\<lparr>ci_fence_token := ci_fence_token i + 1\<rparr>)"

definition delete_rows :: "environment \<Rightarrow> (change_intent \<Rightarrow> bool) \<Rightarrow> world \<Rightarrow> nat io \<times> world" where
  "delete_rows env P = perform_io env Sqlite_Error (\<lambda>_ w. w) (\<lambda>w.
     (Done (rowcount P (wd_intents w)), w\<lparr>wd_intents := filter (\<lambda>i. \<not> P i) (wd_intents w)\<rparr>))"

definition staging_of :: "change_intent \<Rightarrow> string option" where
  "staging_of i = (case ci_staging_path i of None \<Rightarrow> None | Some s \<Rightarrow> if s = [] then None else Some s)"

definition cleanup_staging :: "environment \<Rightarrow> change_intent \<Rightarrow> world \<Rightarrow> unit io \<times> world" where
  "cleanup_staging env i w =
     (case staging_of i of None \<Rightarrow> (Done (), w) | Some s \<Rightarrow> unlink_suppressed env s w)"

definition abandon_reserved :: "environment \<Rightarrow> change_intent \<Rightarrow> world \<Rightarrow> unit io \<times> world" where
  "abandon_reserved env i w = bind_io (cleanup_staging env i w) (\<lambda>_.
     \<lambda>w. bind_io (delete_rows env (\<lambda>x. ci_message_id x = ci_message_id i \<and> ci_state x = RESERVED
                 \<and> ci_fence_token x = ci_fence_token i) w) (\<lambda>_ w. (Done (), w)))"

section \<open>Recovery\<close>

text \<open>\<^verbatim>\<open>_replay\<close>, which turns an operating system error into \<open>False\<close>\<close>

definition replay :: "environment \<Rightarrow> (string \<Rightarrow> string) \<Rightarrow> change_intent \<Rightarrow> world \<Rightarrow> bool io \<times> world" where
  "replay env sha i w =
     (case staging_of i of None \<Rightarrow> (Done False, w)
      | Some s \<Rightarrow>
          (let target = ci_relative_path i;
               moved = (\<lambda>src dst. case replace_file env src dst w of
                   (Done _, w') \<Rightarrow> (Done (file_digest sha w' target = ci_after_digest i), w')
                 | (Raised e, w') \<Rightarrow> (if e = Os_Error then (Done False, w') else (Raised e, w'))
                 | (Halted, w') \<Rightarrow> (Halted, w'))
           in if ci_change_type i = Remove
              then (if wd_files w target = None \<or> wd_files w s \<noteq> None then (Done False, w) else moved target s)
              else (if file_digest sha w s \<noteq> ci_after_digest i then (Done False, w) else moved s target)))"

definition recover_committing ::
  "environment \<Rightarrow> (string \<Rightarrow> string) \<Rightarrow> change_intent \<Rightarrow> world \<Rightarrow> change_intent option io \<times> world" where
  "recover_committing env sha i w =
     (let current = file_digest sha w (ci_relative_path i) in
      bind_io (if current = ci_after_digest i then (Done True, w)
               else if current = ci_before_digest i then replay env sha i w else (Done False, w)) (\<lambda>committed w.
      bind_io (if committed then mark_ready env i w else transition_intent env i REBASE_REQUIRED COMMITTING w) (\<lambda>row w.
      case row of None \<Rightarrow> (Done None, w)
      | Some r \<Rightarrow> bind_io (cleanup_staging env r w) (\<lambda>_ w. (Done (Some r), w)))))"

definition recover_intent ::
  "environment \<Rightarrow> (string \<Rightarrow> string) \<Rightarrow> string \<Rightarrow> world \<Rightarrow> change_intent option io \<times> world" where
  "recover_intent env sha m w =
     (case get_intent w m of
        None \<Rightarrow> (Done None, w)
      | Some i \<Rightarrow>
          (if ci_superseded_by i \<noteq> None then bind_io (cleanup_staging env i w) (\<lambda>_ w. (Done None, w))
           else if ci_state i = RESERVED
           then bind_io (delete_rows env (fenced i RESERVED) w) (\<lambda>n w.
             if n = 1 then bind_io (cleanup_staging env i w) (\<lambda>_ w. (Done None, w)) else (Done None, w))
           else if ci_state i = READY then bind_io (cleanup_staging env i w) (\<lambda>_ w. (Done None, w))
           else if ci_state i \<noteq> COMMITTING then (Done None, w)
           else bind_io (take_fence env i w) (\<lambda>owned w.
             case owned of None \<Rightarrow> (Done None, w) | Some o' \<Rightarrow> recover_committing env sha o' w)))"

fun recover_messages ::
  "environment \<Rightarrow> (string \<Rightarrow> string) \<Rightarrow> string list \<Rightarrow> world \<Rightarrow> change_intent list io \<times> world" where
  "recover_messages env sha [] w = (Done [], w)"
| "recover_messages env sha (m # ms) w =
     bind_io (recover_intent env sha m w) (\<lambda>r w.
     bind_io (recover_messages env sha ms w) (\<lambda>rs w.
       (Done ((case r of None \<Rightarrow> [] | Some i \<Rightarrow> [i]) @ rs), w)))"

definition recover_outbox :: "environment \<Rightarrow> (string \<Rightarrow> string) \<Rightarrow> world \<Rightarrow> change_intent list io \<times> world" where
  "recover_outbox env sha w = recover_messages env sha (map ci_message_id (intents w)) w"

section \<open>Committing one file\<close>

definition commit_reserved ::
  "environment \<Rightarrow> change_intent \<Rightarrow> string \<Rightarrow> string \<Rightarrow> string option \<Rightarrow> world \<Rightarrow> outbox_reply io \<times> world" where
  "commit_reserved env i target staging new_text w =
     (bind_io (make_parent env w) (\<lambda>_ w.
      bind_io (case new_text of None \<Rightarrow> (Done (), w) | Some t \<Rightarrow> write_new env staging t w) (\<lambda>_ w.
      bind_io (mark_committing env i w) (\<lambda>committing w.
      case committing of None \<Rightarrow> (Done (Refused ''path_busy'' ''outbox_fence_lost''), w)
      | Some c \<Rightarrow>
          bind_io (if new_text = None then replace_file env target staging w else replace_file env staging target w) (\<lambda>_ w.
          bind_io (mark_ready env c w) (\<lambda>ready w.
          case ready of None \<Rightarrow> (Done (Failed None ''outbox_fence_lost''), w)
          | Some r \<Rightarrow> bind_io (cleanup_staging env r w) (\<lambda>_ w. (Done (Committed r), w))))))))"

text \<open>\<open>new_text\<close> is \<open>None\<close> for a removal; \<^verbatim>\<open>except OSError\<close> ends the commit.\<close>

definition commit_locked ::
  "environment \<Rightarrow> outbox \<Rightarrow> (string \<Rightarrow> string) \<Rightarrow> string \<Rightarrow> string \<Rightarrow> string \<Rightarrow> change_type \<Rightarrow> string option \<Rightarrow>
   correlation \<Rightarrow> world \<Rightarrow> outbox_reply io \<times> world" where
  "commit_locked env ox sha m suffix path kind new_text corr w =
     (if kind \<noteq> Remove \<and> new_text = None then (Done (Failed None ''missing_patch_text''), w)
      else let written = (if kind = Remove then None else new_text);
               after_digest = (case written of None \<Rightarrow> ''missing:'' | Some t \<Rightarrow> text_digest sha t);
               staging = hidden_name path ((if kind = Remove then ''.bridle-tombstone-'' else ''.bridle-stage-'') @ suffix)
      in bind_io (reserve env ox m path None kind (file_digest sha w path) after_digest (Some staging) corr w)
           (\<lambda>reply w.
            case reply of
              Reserved i \<Rightarrow>
                (case commit_reserved env i path staging written w of
                   (Raised Os_Error, w') \<Rightarrow>
                     (let current = get_intent w' (ci_message_id i) in
                      bind_io (case current of None \<Rightarrow> (Done (), w')
                               | Some c \<Rightarrow> if ci_state c = RESERVED then abandon_reserved env c w' else (Done (), w'))
                        (\<lambda>_ w. (Done (Failed current ''OSError''), w)))
                 | r \<Rightarrow> r)
            | other \<Rightarrow> (Done other, w)))"

definition commit_file ::
  "environment \<Rightarrow> outbox \<Rightarrow> (string \<Rightarrow> string) \<Rightarrow> bool \<Rightarrow> string \<Rightarrow> string \<Rightarrow> string \<Rightarrow> change_type \<Rightarrow> string option \<Rightarrow>
   correlation \<Rightarrow> world \<Rightarrow> outbox_reply io \<times> world" where
  "commit_file env ox sha lock_free m suffix path kind new_text corr w =
     (case normalize_outbox_path path of
        Inl e \<Rightarrow> (Raised (Outbox_Error (error_code e)), w)
      | Inr p \<Rightarrow> (if \<not> lock_free then (Done (Refused ''path_busy'' ''outbox_path_busy''), w)
                  else commit_locked env ox sha m suffix p kind new_text corr w))"

section \<open>Committing a batch\<close>

record file_change =
  ch_change_type :: string
  ch_path :: string
  ch_old_path :: string
  ch_new_text :: "string option"

record checked_change =
  kc_change_type :: change_type
  kc_path :: string
  kc_old_path :: "string option"
  kc_new_text :: "string option"

definition change_type_of :: "string \<Rightarrow> change_type option" where
  "change_type_of s = (if s = ''add'' then Some Add else if s = ''modify'' then Some Modify
     else if s = ''remove'' then Some Remove else if s = ''rename'' then Some Rename else None)"

text \<open>\<open>Inl (True, code)\<close> is an exception, \<open>Inl (False, code)\<close> a reply.\<close>

definition check_change :: "string list \<Rightarrow> file_change \<Rightarrow> (bool \<times> string) + checked_change" where
  "check_change affected c =
     (case change_type_of (ch_change_type c) of
        None \<Rightarrow> Inl (False, ''invalid_change_type'')
      | Some kind \<Rightarrow>
          (case normalize_outbox_path (ch_path c) of
             Inl e \<Rightarrow> Inl (True, error_code e)
           | Inr p \<Rightarrow>
               (case (if kind = Rename then bind_result (normalize_outbox_path (ch_old_path c)) (\<lambda>q. Inr (Some q)) else Inr None) of
                  Inl e \<Rightarrow> Inl (True, error_code e)
                | Inr q \<Rightarrow>
                    (if q = Some p then Inl (False, ''invalid_rename'')
                     else if kind \<noteq> Remove \<and> ch_new_text c = None then Inl (False, ''missing_patch_text'')
                     else if p \<in> set affected \<or> (\<exists>x \<in> set_option q. x \<in> set affected)
                     then Inl (False, ''duplicate_change_path'')
                     else Inr \<lparr>kc_change_type = kind, kc_path = p, kc_old_path = q, kc_new_text = ch_new_text c\<rparr>))))"

definition change_paths :: "checked_change \<Rightarrow> string list" where
  "change_paths k = kc_path k # (case kc_old_path k of None \<Rightarrow> [] | Some q \<Rightarrow> [q])"

fun check_changes :: "string list \<Rightarrow> file_change list \<Rightarrow> (bool \<times> string) + checked_change list" where
  "check_changes affected [] = Inr []"
| "check_changes affected (c # cs) =
     (case check_change affected c of Inl e \<Rightarrow> Inl e
      | Inr k \<Rightarrow> (case check_changes (affected @ change_paths k) cs of Inl e \<Rightarrow> Inl e | Inr ks \<Rightarrow> Inr (k # ks)))"

datatype batch_reply = Batch_Ready "change_intent list" | Batch_Failed string | Batch_Busy

text \<open>
  Preparing: reserve, stage and mark every change. The reserved intents and staging paths are
  collected for the rollback, whatever happens.
\<close>

type_synonym prepared = "checked_change \<times> string \<times> change_intent"

definition prepare_change ::
  "environment \<Rightarrow> outbox \<Rightarrow> (string \<Rightarrow> string) \<Rightarrow> correlation \<Rightarrow> string \<times> string \<Rightarrow> checked_change \<Rightarrow> world \<Rightarrow>
   prepared io \<times> world \<times> change_intent list" where
  "prepare_change env ox sha corr ms k w =
     (let removing = kc_change_type k = Remove;
          written = (if removing then None else kc_new_text k);
          after_digest = (case written of None \<Rightarrow> ''missing:'' | Some t \<Rightarrow> text_digest sha t);
          staging = hidden_name (kc_path k) ((if removing then ''.bridle-tombstone-'' else ''.bridle-stage-'') @ snd ms);
          before_path = (case kc_old_path k of None \<Rightarrow> kc_path k | Some q \<Rightarrow> q)
      in case reserve env ox (fst ms) (kc_path k) (kc_old_path k) (kc_change_type k) (file_digest sha w before_path)
              after_digest (Some staging) corr w of
           (Halted, w) \<Rightarrow> (Halted, w, [])
         | (Raised e, w) \<Rightarrow> (Raised e, w, [])
         | (Done (Reserved i), w) \<Rightarrow>
             (case bind_io (make_parent env w) (\<lambda>_ w.
                   bind_io (case written of None \<Rightarrow> (Done (), w) | Some t \<Rightarrow> write_new env staging t w) (\<lambda>_ w.
                   bind_io (mark_committing env i w) (\<lambda>committing w.
                   case committing of None \<Rightarrow> (Raised (Outbox_Error ''outbox_fence_lost''), w)
                   | Some c \<Rightarrow> (Done (k, staging, c), w)))) of (r, w) \<Rightarrow> (r, w, [i]))
         | (Done (Refused _ code), w) \<Rightarrow> (Raised (Outbox_Error code), w, [])
         | (Done _, w) \<Rightarrow> (Raised (Outbox_Error ''candidate_publish_failed''), w, []))"

fun prepare_changes ::
  "environment \<Rightarrow> outbox \<Rightarrow> (string \<Rightarrow> string) \<Rightarrow> correlation \<Rightarrow> (nat \<Rightarrow> string \<times> string) \<Rightarrow> checked_change list \<Rightarrow> world \<Rightarrow>
   prepared list io \<times> world \<times> change_intent list" where
  "prepare_changes env ox sha corr ids [] w = (Done [], w, [])"
| "prepare_changes env ox sha corr ids (k # ks) w =
     (case prepare_change env ox sha corr (ids 0) k w of
        (Done p, w, is) \<Rightarrow>
          (case prepare_changes env ox sha corr (ids \<circ> Suc) ks w of
             (Done ps, w, js) \<Rightarrow> (Done (p # ps), w, is @ js)
           | (Raised e, w, js) \<Rightarrow> (Raised e, w, is @ js)
           | (Halted, w, js) \<Rightarrow> (Halted, w, is @ js))
      | (Raised e, w, is) \<Rightarrow> (Raised e, w, is)
      | (Halted, w, is) \<Rightarrow> (Halted, w, is))"

definition publish_change :: "environment \<Rightarrow> prepared \<Rightarrow> world \<Rightarrow> unit io \<times> world" where
  "publish_change env p w =
     (case p of (k, staging, i) \<Rightarrow>
        if kc_change_type k = Remove
        then (if wd_files w (kc_path k) = None then (Done (), w) else replace_file env (kc_path k) staging w)
        else bind_io (replace_file env staging (kc_path k) w) (\<lambda>_ w.
          case kc_old_path k of None \<Rightarrow> (Done (), w) | Some q \<Rightarrow> unlink env q w))"

fun publish_changes :: "environment \<Rightarrow> prepared list \<Rightarrow> world \<Rightarrow> unit io \<times> world" where
  "publish_changes env [] w = (Done (), w)"
| "publish_changes env (p # ps) w = bind_io (publish_change env p w) (\<lambda>_ w. publish_changes env ps w)"

fun finish_changes :: "environment \<Rightarrow> prepared list \<Rightarrow> world \<Rightarrow> change_intent list io \<times> world" where
  "finish_changes env [] w = (Done [], w)"
| "finish_changes env ((k, staging, i) # ps) w =
     bind_io (mark_ready env i w) (\<lambda>ready w.
     case ready of None \<Rightarrow> (Raised (Outbox_Error ''outbox_fence_lost''), w)
     | Some r \<Rightarrow> bind_io (cleanup_staging env r w) (\<lambda>_ w.
         bind_io (finish_changes env ps w) (\<lambda>rs w. (Done (r # rs), w))))"

text \<open>The rollback: the snapshots, in path order, then the intents, then the staging files.\<close>

definition restore_snapshot :: "environment \<Rightarrow> (string \<Rightarrow> string) \<Rightarrow> string \<times> string option \<Rightarrow> world \<Rightarrow> unit io \<times> world" where
  "restore_snapshot env rollback_suffix snap w =
     (case snap of
        (path, None) \<Rightarrow> unlink env path w
      | (path, Some c) \<Rightarrow>
          (let temporary = hidden_name path (''.bridle-rollback-'' @ rollback_suffix path) in
           bind_io (make_parent env w) (\<lambda>_ w.
           case bind_io (write_new env temporary c w) (\<lambda>_ w. replace_file env temporary path w) of
             (Halted, w) \<Rightarrow> (Halted, w)
           | (r, w) \<Rightarrow> bind_io (unlink env temporary w) (\<lambda>_ w. (r, w)))))"

fun restore_snapshots :: "environment \<Rightarrow> (string \<Rightarrow> string) \<Rightarrow> (string \<times> string option) list \<Rightarrow> world \<Rightarrow> unit io \<times> world" where
  "restore_snapshots env sfx [] w = (Done (), w)"
| "restore_snapshots env sfx (s # ss) w = bind_io (restore_snapshot env sfx s w) (\<lambda>_ w. restore_snapshots env sfx ss w)"

definition discard_intents :: "environment \<Rightarrow> change_intent list \<Rightarrow> world \<Rightarrow> unit io \<times> world" where
  "discard_intents env is w =
     (if is = [] then (Done (), w)
      else bind_io (delete_rows env (\<lambda>x. ci_message_id x \<in> ci_message_id ` set is) w) (\<lambda>_ w. (Done (), w)))"

fun unlink_all :: "environment \<Rightarrow> string list \<Rightarrow> world \<Rightarrow> unit io \<times> world" where
  "unlink_all env [] w = (Done (), w)"
| "unlink_all env (p # ps) w = bind_io (unlink_suppressed env p w) (\<lambda>_ w. unlink_all env ps w)"

definition rollback ::
  "environment \<Rightarrow> (string \<Rightarrow> string) \<Rightarrow> (string \<times> string option) list \<Rightarrow> change_intent list \<Rightarrow> world \<Rightarrow> batch_reply io \<times> world"
where
  "rollback env sfx snaps is w =
     bind_io (restore_snapshots env sfx snaps w) (\<lambda>_ w.
     bind_io (discard_intents env is w) (\<lambda>_ w.
     bind_io (unlink_all env (List.map_filter staging_of is) w) (\<lambda>_ w.
       (Done (Batch_Failed ''candidate_publish_failed''), w))))"

definition commit_many ::
  "environment \<Rightarrow> outbox \<Rightarrow> (string \<Rightarrow> string) \<Rightarrow> bool \<Rightarrow> (nat \<Rightarrow> string \<times> string) \<Rightarrow> (string \<Rightarrow> string) \<Rightarrow>
   file_change list \<Rightarrow> correlation \<Rightarrow> world \<Rightarrow> batch_reply io \<times> world" where
  "commit_many env ox sha locks_free ids sfx changes corr w =
     (case check_changes [] changes of
        Inl (raises, code) \<Rightarrow> (if raises then Raised (Outbox_Error code) else Done (Batch_Failed code), w)
      | Inr ks \<Rightarrow>
          (if \<not> locks_free then (Done Batch_Busy, w)
           else let snaps = map (\<lambda>p. (p, wd_files w p)) (sort (remdups (concat (map change_paths ks))))
                in case prepare_changes env ox sha corr ids ks w of
                     (prep, w1, is) \<Rightarrow>
                       (case bind_io (prep, w1) (\<lambda>ps w.
                              bind_io (publish_changes env ps w) (\<lambda>_ w. finish_changes env ps w)) of
                          (Done rs, w') \<Rightarrow> (Done (Batch_Ready rs), w')
                        | (Raised _, w') \<Rightarrow> rollback env sfx snaps is w'
                        | (Halted, w') \<Rightarrow> (Halted, w'))))"

section \<open>Publishing\<close>

text \<open>
  The delay before the next attempt, in microseconds: the exponent is capped at the least one
  that reaches the longest delay.
\<close>

function saturation :: "int \<Rightarrow> int \<Rightarrow> nat" where
  "saturation base cap = (if cap \<le> base \<or> base \<le> 0 then 0 else Suc (saturation (2 * base) cap))"
  by pat_completeness auto

termination
  by (relation "measure (\<lambda>(base, cap). nat (cap - base))") auto

declare saturation.simps [simp del]

definition outbox_delay :: "outbox \<Rightarrow> int \<Rightarrow> int" where
  "outbox_delay ox attempt =
     (if ox_retry_max ox \<le> ox_retry_base ox then ox_retry_max ox
      else min (ox_retry_base ox * 2 ^ min (nat (max 0 (attempt - 1))) (saturation (ox_retry_base ox) (ox_retry_max ox)))
             (ox_retry_max ox))"

definition increment_attempt ::
  "environment \<Rightarrow> outbox \<Rightarrow> change_intent \<Rightarrow> int \<Rightarrow> world \<Rightarrow> change_intent io \<times> world" where
  "increment_attempt env ox i now =
     perform_io env Sqlite_Error (\<lambda>_ w. w) (\<lambda>w.
       let w' = w\<lparr>wd_intents := update_rows (\<lambda>x. ci_message_id x = ci_message_id i \<and> ci_state x = READY)
              (\<lambda>x. x\<lparr>ci_attempt := ci_attempt x + 1,
                     ci_next_retry_at := Some (now + outbox_delay ox (ci_attempt i + 1))\<rparr>) (wd_intents w)\<rparr>
       in (case get_intent w' (ci_message_id i) of None \<Rightarrow> (Raised (Outbox_Error ''assertion''), w') | Some r \<Rightarrow> (Done r, w')))"

end
