(* ===== verification/Outbox_Recovery.thy ===== *)
theory Outbox_Recovery
  imports Change_Outbox
begin

text \<open>
  Crash safety of the change outbox. The first part is a small calculus of postconditions for
  effects that may be refused or cut short: \<open>ends Q C r\<close> says that \<open>Q\<close> holds when \<open>r\<close> completed
  and \<open>C\<close> when it raised or the process stopped. The second follows one commit through every way
  it can end, any number of recoveries that are themselves cut short, and one that is not.
\<close>

section \<open>Postconditions\<close>

fun ends :: "('a \<Rightarrow> world \<Rightarrow> bool) \<Rightarrow> (world \<Rightarrow> bool) \<Rightarrow> 'a io \<times> world \<Rightarrow> bool" where
  "ends Q C (Done x, w) = Q x w"
| "ends Q C (Raised e, w) = C w"
| "ends Q C (Halted, w) = C w"

lemma ends_cases:
  assumes "\<And>x w. r = (Done x, w) \<Longrightarrow> Q x w" and "\<And>e w. r = (Raised e, w) \<Longrightarrow> C w"
    and "\<And>w. r = (Halted, w) \<Longrightarrow> C w"
  shows "ends Q C r"
  using assms by (cases "(Q, C, r)" rule: ends.cases) auto

lemma ends_bind:
  assumes "ends Q C r" and "\<And>x w. Q x w \<Longrightarrow> ends R C (f x w)"
  shows "ends R C (bind_io r f)"
  using assms by (cases "(Q, C, r)" rule: ends.cases) auto

lemma ends_weaken:
  assumes "ends Q C r" and "\<And>x w. Q x w \<Longrightarrow> Q' x w" and "\<And>w. C w \<Longrightarrow> C' w"
  shows "ends Q' C' r"
  using assms by (cases "(Q, C, r)" rule: ends.cases) auto

lemma ends_snd: "ends (\<lambda>_. P) P r \<longleftrightarrow> P (snd r)"
  by (cases r; cases "fst r") auto

lemma ends_perform:
  assumes "ends Q C (act (next_tick w))" and "\<And>x. C (torn x (next_tick w))" and "\<And>x. C (torn x w)"
  shows "ends Q C (perform_io env exn torn act w)"
  using assms by (auto simp: perform_io_def split: fault.split)

lemma next_tick_simps [simp]:
  "wd_files (next_tick w) = wd_files w" "wd_intents (next_tick w) = wd_intents w"
  "get_intent (next_tick w) m = get_intent w m"
  by (simp_all add: next_tick_def get_intent_def)

lemma set_file_simps [simp]:
  "wd_files (set_file p x w) = (wd_files w)(p := x)" "wd_intents (set_file p x w) = wd_intents w"
  "get_intent (set_file p x w) m = get_intent w m"
  by (simp_all add: set_file_def get_intent_def)

section \<open>One commit, watched from outside\<close>

text \<open>
  A commit: its message, its path, its staging file, and the contents of the path before and
  after. It is followed in a world as \<open>tracked\<close>: the path holds the old content while there is no
  row or a reserved one, the new content once the row is ready, and in between the staging file
  holds what the path does not yet.
\<close>

record file_commit =
  fc_message :: string
  fc_path :: string
  fc_staging :: string
  fc_old :: "string option"
  fc_new :: "string option"

definition digest_of :: "(string \<Rightarrow> string) \<Rightarrow> string option \<Rightarrow> string" where
  "digest_of sha x = (case x of None \<Rightarrow> ''missing:'' | Some t \<Rightarrow> text_digest sha t)"

definition row_of :: "(string \<Rightarrow> string) \<Rightarrow> file_commit \<Rightarrow> change_intent \<Rightarrow> bool" where
  "row_of sha c i \<longleftrightarrow> ci_relative_path i = fc_path c \<and> ci_staging_path i = Some (fc_staging c)
     \<and> ci_superseded_by i = None \<and> ci_before_digest i = digest_of sha (fc_old c)
     \<and> ci_after_digest i = digest_of sha (fc_new c) \<and> (ci_change_type i = Remove \<longleftrightarrow> fc_new c = None)"

fun phase :: "file_commit \<Rightarrow> (string \<Rightarrow> string option) \<Rightarrow> intent_state \<Rightarrow> bool" where
  "phase c fs RESERVED = (fs (fc_path c) = fc_old c)"
| "phase c fs COMMITTING = (fs (fc_path c) = fc_new c
     \<or> fs (fc_path c) = fc_old c \<and> (fc_new c \<noteq> None \<longrightarrow> fs (fc_staging c) = fc_new c))"
| "phase c fs READY = (fs (fc_path c) = fc_new c)"
| "phase c fs DELIVERED = (fs (fc_path c) = fc_new c)"
| "phase c fs REBASE_REQUIRED = (fs (fc_path c) = fc_old c)"

text \<open>Another intent does not use this commit's files: recovery replays only what is committing.\<close>

definition bystander :: "file_commit \<Rightarrow> change_intent \<Rightarrow> bool" where
  "bystander c i \<longleftrightarrow> ci_staging_path i \<noteq> Some (fc_path c) \<and> ci_staging_path i \<noteq> Some (fc_staging c)
     \<and> (ci_state i = COMMITTING \<longrightarrow> ci_superseded_by i = None \<longrightarrow>
          ci_relative_path i \<noteq> fc_path c \<and> ci_relative_path i \<noteq> fc_staging c)"

definition tidy :: "file_commit \<Rightarrow> world \<Rightarrow> bool" where
  "tidy c w \<longleftrightarrow> unique_key ci_message_id (wd_intents w)
     \<and> (\<forall>i \<in> set (wd_intents w). ci_message_id i = fc_message c \<or> bystander c i)"

definition tracked :: "(string \<Rightarrow> string) \<Rightarrow> file_commit \<Rightarrow> world \<Rightarrow> bool" where
  "tracked sha c w \<longleftrightarrow> tidy c w \<and>
     (case get_intent w (fc_message c) of None \<Rightarrow> wd_files w (fc_path c) = fc_old c
      | Some i \<Rightarrow> row_of sha c i \<and> phase c (wd_files w) (ci_state i))"

text \<open>How it has come to rest.\<close>

definition settled :: "file_commit \<Rightarrow> world \<Rightarrow> bool" where
  "settled c w \<longleftrightarrow>
     (case get_intent w (fc_message c) of None \<Rightarrow> wd_files w (fc_path c) = fc_old c
      | Some i \<Rightarrow> ci_state i \<in> {READY, DELIVERED} \<and> wd_files w (fc_path c) = fc_new c
                \<or> ci_state i = REBASE_REQUIRED \<and> wd_files w (fc_path c) = fc_old c)"

definition sound :: "(string \<Rightarrow> string) \<Rightarrow> file_commit \<Rightarrow> bool" where
  "sound sha c \<longleftrightarrow> fc_path c \<noteq> fc_staging c
     \<and> (\<forall>a b. fc_old c = Some a \<longrightarrow> fc_new c = Some b \<longrightarrow> sha a = sha b \<longrightarrow> a = b)"

lemma file_digest_of: "file_digest sha w p = digest_of sha (wd_files w p)"
  by (simp add: file_digest_def digest_of_def text_digest_def split: option.split)

lemma digest_of_eq:
  "sound sha c \<Longrightarrow> digest_of sha (fc_old c) = digest_of sha (fc_new c) \<longleftrightarrow> fc_old c = fc_new c"
  by (auto simp: sound_def digest_of_def text_digest_def split: option.splits)

lemma get_intent_id: "get_intent w m = Some i \<Longrightarrow> ci_message_id i = m"
  by (auto simp: get_intent_def dest: find_SomeD)

lemma get_intent_in: "get_intent w m = Some i \<Longrightarrow> i \<in> set (wd_intents w)"
  by (auto simp: get_intent_def dest: find_SomeD)

lemma get_intent_unique:
  "tidy c w \<Longrightarrow> i \<in> set (wd_intents w) \<Longrightarrow> ci_message_id i = m \<Longrightarrow> get_intent w m = Some i"
  by (auto simp: tidy_def get_intent_def dest: find_key_unique)

lemma get_intent_update:
  "(\<And>x. ci_message_id (f x) = ci_message_id x) \<Longrightarrow>
   get_intent (w\<lparr>wd_intents := update_rows P f (wd_intents w)\<rparr>) m
     = map_option (\<lambda>x. if P x then f x else x) (get_intent w m)"
  by (simp add: get_intent_def find_update_rows)

lemma get_intent_delete:
  assumes "tidy c w"
  shows "get_intent (w\<lparr>wd_intents := filter (\<lambda>x. \<not> P x) (wd_intents w)\<rparr>) m
     = (case get_intent w m of None \<Rightarrow> None | Some i \<Rightarrow> if P i then None else Some i)"
proof -
  have "find (\<lambda>x. ci_message_id x = m) (filter (\<lambda>x. \<not> P x) xs)
      = (case find (\<lambda>x. ci_message_id x = m) xs of None \<Rightarrow> None | Some i \<Rightarrow> if P i then None else Some i)"
    if "distinct (map ci_message_id xs)" for xs
    using that by (induction xs) (auto simp: find_None_iff image_iff split: option.split dest!: find_SomeD)
  with assms show ?thesis by (simp add: tidy_def unique_key_def get_intent_def)
qed

section \<open>What a bystander's recovery leaves alone\<close>

lemma tracked_cong:
  assumes "tracked sha c w" and "tidy c w'" and "get_intent w' (fc_message c) = get_intent w (fc_message c)"
    and "wd_files w' (fc_path c) = wd_files w (fc_path c)" "wd_files w' (fc_staging c) = wd_files w (fc_staging c)"
  shows "tracked sha c w'"
proof -
  have "phase c (wd_files w') st = phase c (wd_files w) st" for st
    using assms(4,5) by (cases st) simp_all
  with assms show ?thesis by (auto simp: tracked_def split: option.splits)
qed

lemma settled_cong:
  assumes "settled c w" and "get_intent w' (fc_message c) = get_intent w (fc_message c)"
    and "wd_files w' (fc_path c) = wd_files w (fc_path c)"
  shows "settled c w'"
  using assms by (simp add: settled_def split: option.splits)

lemma tidy_frame:
  assumes "tidy c w" and "wd_intents w' = wd_intents w"
  shows "tidy c w'"
  using assms by (simp add: tidy_def)

lemma tidy_update:
  assumes "tidy c w" and "\<And>x. P x \<Longrightarrow> ci_message_id (f x) = ci_message_id x"
    and "\<And>x. P x \<Longrightarrow> bystander c x \<Longrightarrow> bystander c (f x)"
  shows "tidy c (w\<lparr>wd_intents := update_rows P f (wd_intents w)\<rparr>)"
proof -
  have "ci_message_id x = fc_message c \<or> bystander c x" if "x \<in> set (update_rows P f (wd_intents w))" for x
  proof -
    obtain x0 where "x0 \<in> set (wd_intents w)" and x: "x = (if P x0 then f x0 else x0)"
      using \<open>x \<in> _\<close> by (auto simp: in_update_rows)
    with assms(1) have "ci_message_id x0 = fc_message c \<or> bystander c x0" by (simp add: tidy_def)
    with assms(2,3) x show ?thesis by (cases "P x0") auto
  qed
  with assms(1,2) show ?thesis by (simp add: tidy_def unique_key_update)
qed

lemma tidy_delete:
  assumes "tidy c w"
  shows "tidy c (w\<lparr>wd_intents := filter P (wd_intents w)\<rparr>)"
  using assms by (auto simp: tidy_def unique_key_def distinct_map_filter)

text \<open>
  A predicate on worlds that only looks at this commit survives everything that leaves its row
  and its files alone.
\<close>

definition kept :: "file_commit \<Rightarrow> (world \<Rightarrow> bool) \<Rightarrow> world \<Rightarrow> bool" where
  "kept c P w \<longleftrightarrow> tidy c w \<and> P w \<and>
     (\<forall>w w'. P w \<longrightarrow> tidy c w' \<longrightarrow> get_intent w' (fc_message c) = get_intent w (fc_message c)
       \<longrightarrow> wd_files w' (fc_path c) = wd_files w (fc_path c)
       \<longrightarrow> wd_files w' (fc_staging c) = wd_files w (fc_staging c) \<longrightarrow> P w')"

lemma kept_tidy: "kept c P w \<Longrightarrow> tidy c w"
  by (simp add: kept_def)

lemma kept_holds: "kept c P w \<Longrightarrow> P w"
  by (simp add: kept_def)

lemma kept_frame:
  "kept c P w \<Longrightarrow> tidy c w' \<Longrightarrow> get_intent w' (fc_message c) = get_intent w (fc_message c) \<Longrightarrow>
   wd_files w' (fc_path c) = wd_files w (fc_path c) \<Longrightarrow>
   wd_files w' (fc_staging c) = wd_files w (fc_staging c) \<Longrightarrow> kept c P w'"
  unfolding kept_def by blast

lemma kept_tracked: "tracked sha c w \<Longrightarrow> kept c (tracked sha c) w"
  unfolding kept_def using tracked_cong by (auto simp: tracked_def)

lemma kept_settled: "tidy c w \<Longrightarrow> settled c w \<Longrightarrow> kept c (settled c) w"
  unfolding kept_def using settled_cong by auto

lemma kept_tick: "kept c P w \<Longrightarrow> kept c P (next_tick w)"
  by (rule kept_frame [of c P w]) (simp_all add: tidy_frame [OF kept_tidy])

lemma kept_set_file:
  "kept c P w \<Longrightarrow> p \<noteq> fc_path c \<Longrightarrow> p \<noteq> fc_staging c \<Longrightarrow> kept c P (set_file p x w)"
  by (rule kept_frame [of c P w]) (simp_all add: tidy_frame [OF kept_tidy])

lemma kept_update:
  assumes "kept c P w" and "\<And>x. ci_message_id (f x) = ci_message_id x"
    and "\<And>x. Q x \<Longrightarrow> bystander c x \<Longrightarrow> bystander c (f x)" and "\<And>x. Q x \<Longrightarrow> ci_message_id x \<noteq> fc_message c"
  shows "kept c P (w\<lparr>wd_intents := update_rows Q f (wd_intents w)\<rparr>)"
proof (rule kept_frame [OF assms(1)])
  show "tidy c (w\<lparr>wd_intents := update_rows Q f (wd_intents w)\<rparr>)"
    using assms kept_tidy [OF assms(1)] by (intro tidy_update) auto
  show "get_intent (w\<lparr>wd_intents := update_rows Q f (wd_intents w)\<rparr>) (fc_message c) = get_intent w (fc_message c)"
    using assms(2,4) by (cases "get_intent w (fc_message c)") (auto simp: get_intent_update dest: get_intent_id)
qed simp_all

lemma kept_delete:
  assumes "kept c P w" and "\<And>x. Q x \<Longrightarrow> ci_message_id x \<noteq> fc_message c"
  shows "kept c P (w\<lparr>wd_intents := filter (\<lambda>x. \<not> Q x) (wd_intents w)\<rparr>)"
proof (rule kept_frame [OF assms(1)])
  show "tidy c (w\<lparr>wd_intents := filter (\<lambda>x. \<not> Q x) (wd_intents w)\<rparr>)"
    using kept_tidy [OF assms(1)] by (rule tidy_delete)
  show "get_intent (w\<lparr>wd_intents := filter (\<lambda>x. \<not> Q x) (wd_intents w)\<rparr>) (fc_message c) = get_intent w (fc_message c)"
    using assms(2) by (auto simp: get_intent_delete [OF kept_tidy [OF assms(1)]] split: option.split dest: get_intent_id)
qed simp_all

section \<open>The effects of recovery\<close>

definition fence_update :: "change_intent \<Rightarrow> intent_state \<Rightarrow> (change_intent \<Rightarrow> change_intent) \<Rightarrow> world \<Rightarrow> world" where
  "fence_update i st f w = (next_tick w)\<lparr>wd_intents := update_rows (fenced i st) f (wd_intents w)\<rparr>"

lemma ends_update_fenced:
  assumes "C w" "C (next_tick w)"
    and "\<And>r. (r = None \<longleftrightarrow> rowcount (fenced i st) (wd_intents w) \<noteq> 1 \<or> get_intent (fence_update i st f w) (ci_message_id i) = None) \<Longrightarrow>
           (r \<noteq> None \<Longrightarrow> r = get_intent (fence_update i st f w) (ci_message_id i)) \<Longrightarrow> Q r (fence_update i st f w)"
  shows "ends Q C (update_fenced env i st f w)"
  unfolding update_fenced_def
  by (rule ends_perform) (auto simp: assms(1,2) Let_def fence_update_def [symmetric] intro!: assms(3))

lemma ends_cleanup:
  assumes "C w" "C (next_tick w)"
    and "\<And>w'. w' \<in> {w, next_tick w} \<union> (case staging_of i of None \<Rightarrow> {} | Some s \<Rightarrow> {set_file s None (next_tick w)}) \<Longrightarrow> Q () w'"
  shows "ends Q C (cleanup_staging env i w)"
  using assms
  by (auto simp: cleanup_staging_def unlink_suppressed_def unlink_def perform_io_def split: option.split fault.split)

lemma kept_cleanup:
  assumes "kept c P w" and "ci_staging_path i \<noteq> Some (fc_path c)" "ci_staging_path i \<noteq> Some (fc_staging c)"
  shows "ends (\<lambda>_. kept c P) (kept c P) (cleanup_staging env i w)"
  by (rule ends_cleanup)
     (use assms in \<open>auto simp: staging_of_def kept_tick kept_set_file split: option.splits if_splits\<close>)

lemma kept_update_fenced:
  assumes "kept c P w" and "ci_message_id i \<noteq> fc_message c" and "\<And>x. ci_message_id (f x) = ci_message_id x"
    and "\<And>x. fenced i st x \<Longrightarrow> bystander c x \<Longrightarrow> bystander c (f x)"
  shows "ends (\<lambda>r w'. kept c P w' \<and> (\<forall>x. r = Some x \<longrightarrow> get_intent w' (ci_message_id i) = Some x
             \<and> (\<exists>x0. get_intent w (ci_message_id i) = Some x0 \<and> x \<in> {x0, f x0})))
           (kept c P) (update_fenced env i st f w)"
proof (rule ends_update_fenced)
  have *: "kept c P (fence_update i st f w)"
    using kept_update [OF kept_tick [OF assms(1)], of f "fenced i st"] assms(2-4)
    by (auto simp: fence_update_def fenced_def)
  fix r assume "r \<noteq> None \<Longrightarrow> r = get_intent (fence_update i st f w) (ci_message_id i)"
  then show "kept c P (fence_update i st f w)
      \<and> (\<forall>x. r = Some x \<longrightarrow> get_intent (fence_update i st f w) (ci_message_id i) = Some x
             \<and> (\<exists>x0. get_intent w (ci_message_id i) = Some x0 \<and> x \<in> {x0, f x0}))"
    using * get_intent_update [where f = f and w = "next_tick w" and P = "fenced i st", OF assms(3)]
    by (cases "get_intent w (ci_message_id i)"; cases r) (auto simp: fence_update_def split: if_splits)
qed (use assms(1) in \<open>auto simp: kept_tick\<close>)

lemma kept_replace_file:
  assumes "kept c P w" and "{src, dst} \<inter> {fc_path c, fc_staging c} = {}"
  shows "ends (\<lambda>_. kept c P) (kept c P) (replace_file env src dst w)"
  unfolding replace_file_def
  by (rule ends_perform) (use assms in \<open>auto simp: kept_tick kept_set_file split: option.split\<close>)

lemma kept_replay:
  assumes "kept c P w" and "bystander c i" "ci_state i = COMMITTING" "ci_superseded_by i = None"
  shows "ends (\<lambda>_. kept c P) (kept c P) (replay env sha i w)"
proof (cases "staging_of i")
  case None
  with assms show ?thesis by (simp add: replay_def)
next
  case (Some s)
  then have s: "ci_staging_path i = Some s" by (auto simp: staging_of_def split: option.splits if_splits)
  have "ends (\<lambda>_. kept c P) (kept c P) (replace_file env (ci_relative_path i) s w)"
    "ends (\<lambda>_. kept c P) (kept c P) (replace_file env s (ci_relative_path i) w)"
    using assms s by (auto intro!: kept_replace_file simp: bystander_def)
  then have "kept c P (snd (replace_file env (ci_relative_path i) s w))"
    "kept c P (snd (replace_file env s (ci_relative_path i) w))" by (simp_all add: ends_snd)
  then show ?thesis using assms(1)
    by (auto simp: ends_snd replay_def Some Let_def split: io.splits prod.splits if_splits)
qed

lemma kept_recover_committing:
  assumes "kept c P w" and "bystander c i" "ci_state i = COMMITTING" "ci_superseded_by i = None"
    and id: "ci_message_id i \<noteq> fc_message c" and row: "get_intent w (ci_message_id i) = Some i"
  shows "ends (\<lambda>_. kept c P) (kept c P) (recover_committing env sha i w)"
proof -
  let ?same = "\<lambda>w'. kept c P w' \<and> get_intent w' (ci_message_id i) = Some i"
  have staging: "ci_staging_path i \<noteq> Some (fc_path c)" "ci_staging_path i \<noteq> Some (fc_staging c)"
    using assms(2) by (auto simp: bystander_def)
  have files: "get_intent (snd (replay env sha i w)) m = get_intent w m" for m
    by (auto simp: replay_def replace_file_def perform_io_def Let_def split: option.split fault.split io.split prod.split)
  have "kept c P (snd (replay env sha i w))" using kept_replay [OF assms(1-4)] by (simp add: ends_snd)
  with files row have replay: "ends (\<lambda>_. ?same) (kept c P) (replay env sha i w)"
    by (intro ends_cases) (metis snd_conv)+
  have mark: "ends (\<lambda>r w'. kept c P w' \<and> (\<forall>x. r = Some x \<longrightarrow> ci_staging_path x = ci_staging_path i))
      (kept c P) (transition_intent env i st COMMITTING w')" if "?same w'" "st \<in> {READY, REBASE_REQUIRED}" for w' st
    unfolding transition_intent_def
  proof -
    have keep: "kept c P w'" and row': "get_intent w' (ci_message_id i) = Some i" using \<open>?same w'\<close> by blast+
    have stable: "bystander c (x\<lparr>ci_state := st\<rparr>)" if "bystander c x" for x
      using that \<open>st \<in> _\<close> by (auto simp: bystander_def)
    show "ends (\<lambda>r w'. kept c P w' \<and> (\<forall>x. r = Some x \<longrightarrow> ci_staging_path x = ci_staging_path i))
        (kept c P) (update_fenced env i COMMITTING (\<lambda>x. x\<lparr>ci_state := st\<rparr>) w')"
      by (rule ends_weaken [OF kept_update_fenced [OF keep id]]) (auto simp: stable row')
  qed
  let ?tail = "\<lambda>row w. case row of None \<Rightarrow> (Done None, w)
      | Some r \<Rightarrow> bind_io (cleanup_staging env r w) (\<lambda>_ w. (Done (Some r), w))"
  have finish: "ends (\<lambda>_. kept c P) (kept c P) (?tail row w')"
    if "kept c P w' \<and> (\<forall>x. row = Some x \<longrightarrow> ci_staging_path x = ci_staging_path i)" for row w'
    using that staging by (cases row) (auto intro!: ends_bind [OF kept_cleanup])
  have marks: "ends (\<lambda>_. kept c P) (kept c P) (bind_io (if b then mark_ready env i w'
      else transition_intent env i REBASE_REQUIRED COMMITTING w') ?tail)" if "?same w'" for b w'
    unfolding mark_ready_def
    by (rule ends_bind [where Q = "\<lambda>r w'. kept c P w' \<and> (\<forall>x. r = Some x \<longrightarrow> ci_staging_path x = ci_staging_path i)"])
       (use mark [OF that] finish in \<open>auto split: if_split\<close>)
  show ?thesis
    unfolding recover_committing_def Let_def
    by (rule ends_bind [where Q = "\<lambda>_. ?same"], use replay assms(1) row in simp, rule marks)
qed

lemma kept_recover_intent:
  assumes "kept c P w" and m: "m \<noteq> fc_message c"
  shows "ends (\<lambda>_. kept c P) (kept c P) (recover_intent env sha m w)"
proof (cases "get_intent w m")
  case None
  with assms show ?thesis by (simp add: recover_intent_def)
next
  case (Some i)
  then have id: "ci_message_id i = m" by (rule get_intent_id)
  have bys: "bystander c i" using kept_tidy [OF assms(1)] get_intent_in [OF Some] id m by (auto simp: tidy_def)
  then have clean: "ends (\<lambda>_. kept c P) (kept c P) (cleanup_staging env i w')" if "kept c P w'" for w'
    using that by (auto intro!: kept_cleanup simp: bystander_def)
  have delete: "ends (\<lambda>_. kept c P) (kept c P) (delete_rows env (fenced i RESERVED) w)"
    unfolding delete_rows_def
    by (rule ends_perform)
       (use assms id kept_delete [OF kept_tick [OF assms(1)], of "fenced i RESERVED"] in
         \<open>auto simp: fenced_def kept_tick\<close>)
  have take: "ends (\<lambda>r w'. kept c P w' \<and> (\<forall>x. r = Some x \<longrightarrow> get_intent w' m = Some x \<and>
      x \<in> {i, i\<lparr>ci_fence_token := ci_fence_token i + 1\<rparr>})) (kept c P) (take_fence env i w)"
    unfolding take_fence_def
    by (rule ends_weaken [OF kept_update_fenced [where c = c and P = P]])
       (use assms id Some in \<open>auto simp: bystander_def\<close>)
  have committing: "ends (\<lambda>_. kept c P) (kept c P) (recover_committing env sha x w')"
    if "ci_state i = COMMITTING" "ci_superseded_by i = None" "kept c P w'" "get_intent w' m = Some x"
      "x \<in> {i, i\<lparr>ci_fence_token := ci_fence_token i + 1\<rparr>}" for x w'
    using that bys m id by (intro kept_recover_committing) (auto simp: bystander_def)
  show ?thesis
    using assms(1) clean
    by (auto simp: recover_intent_def Some
             intro!: ends_bind [OF clean] ends_bind [OF delete] ends_bind [OF take] committing split: option.split)
qed

section \<open>The commit's own recovery\<close>

text \<open>The commit's row, together with the phase it is in.\<close>

definition at_row :: "(string \<Rightarrow> string) \<Rightarrow> file_commit \<Rightarrow> change_intent \<Rightarrow> world \<Rightarrow> bool" where
  "at_row sha c i w \<longleftrightarrow> tidy c w \<and> get_intent w (fc_message c) = Some i \<and> row_of sha c i
     \<and> phase c (wd_files w) (ci_state i)"

lemma at_row_tracked: "at_row sha c i w \<Longrightarrow> tracked sha c w"
  by (simp add: at_row_def tracked_def)

lemma tracked_cases:
  assumes "tracked sha c w"
  obtains (none) "tidy c w" "get_intent w (fc_message c) = None" "wd_files w (fc_path c) = fc_old c"
    | (row) i where "at_row sha c i w"
  using assms by (cases "get_intent w (fc_message c)") (auto simp: tracked_def at_row_def)

lemma at_row_frame:
  assumes "at_row sha c i w" and "wd_intents w' = wd_intents w" "wd_files w' (fc_path c) = wd_files w (fc_path c)"
    and "ci_state i = COMMITTING \<Longrightarrow> wd_files w' (fc_staging c) = wd_files w (fc_staging c)"
  shows "at_row sha c i w'"
proof -
  have "get_intent w' m = get_intent w m" for m using assms(2) by (simp add: get_intent_def)
  with assms tidy_frame show ?thesis by (cases "ci_state i") (auto simp: at_row_def)
qed

lemma at_row_tick [simp]: "at_row sha c i w \<Longrightarrow> at_row sha c i (next_tick w)"
  by (erule at_row_frame) simp_all

lemma at_row_settled: "at_row sha c i w \<Longrightarrow> ci_state i \<in> {READY, DELIVERED, REBASE_REQUIRED} \<Longrightarrow> settled c w"
  by (auto simp: at_row_def settled_def)

lemma bystander_own: "tidy c w \<Longrightarrow> (\<And>x. fenced i st x \<Longrightarrow> ci_message_id x = fc_message c) \<Longrightarrow>
   (\<And>x. ci_message_id (f x) = ci_message_id x) \<Longrightarrow> tidy c (fence_update i st f w)"
  unfolding tidy_def fence_update_def by (auto simp: in_update_rows unique_key_update) metis

lemma own_update:
  assumes "at_row sha c i w" and "ci_state i = st" and f: "\<And>x. ci_message_id (f x) = ci_message_id x"
    and new: "row_of sha c (f i)" "phase c (wd_files w) (ci_state (f i))"
  shows "ends (\<lambda>r w'. r = Some (f i) \<and> at_row sha c (f i) w' \<and> wd_files w' = wd_files w)
           (\<lambda>w'. at_row sha c i w' \<and> wd_files w' = wd_files w) (update_fenced env i st f w)"
proof (rule ends_update_fenced)
  from assms(1) have tidy: "tidy c w" and got: "get_intent w (fc_message c) = Some i" and row: "row_of sha c i"
    by (simp_all add: at_row_def)
  have id: "ci_message_id i = fc_message c" using got by (rule get_intent_id)
  have here: "fenced i st i" using row assms(2) by (simp add: fenced_def row_of_def)
  have one: "rowcount (fenced i st) (wd_intents w) = 1"
    using tidy get_intent_in [OF got] here id
    by (subst rowcount_key_1 [where key = ci_message_id and k = "fc_message c"]) (auto simp: tidy_def fenced_def)
  have got': "get_intent (fence_update i st f w) (fc_message c) = Some (f i)"
    using get_intent_update [where f = f and w = "next_tick w" and P = "fenced i st", OF f] got here
    by (simp add: fence_update_def)
  have tidy': "tidy c (fence_update i st f w)"
    by (rule bystander_own [OF tidy]) (auto simp: fenced_def id f)
  fix r assume "r = None \<longleftrightarrow> rowcount (fenced i st) (wd_intents w) \<noteq> 1
      \<or> get_intent (fence_update i st f w) (ci_message_id i) = None"
    and "r \<noteq> None \<Longrightarrow> r = get_intent (fence_update i st f w) (ci_message_id i)"
  then have "r = Some (f i)" using one got' id by auto
  moreover have "wd_files (fence_update i st f w) = wd_files w" by (simp add: fence_update_def)
  ultimately show "r = Some (f i) \<and> at_row sha c (f i) (fence_update i st f w)
      \<and> wd_files (fence_update i st f w) = wd_files w"
    using got' tidy' new by (simp add: at_row_def)
qed (use assms(1) in simp_all)

lemma own_transition:
  assumes "at_row sha c i w" and "ci_state i = from" and "phase c (wd_files w) to"
  shows "ends (\<lambda>r w'. r = Some (i\<lparr>ci_state := to\<rparr>) \<and> at_row sha c (i\<lparr>ci_state := to\<rparr>) w' \<and> wd_files w' = wd_files w)
           (\<lambda>w'. at_row sha c i w' \<and> wd_files w' = wd_files w) (transition_intent env i to from w)"
  unfolding transition_intent_def
  by (rule own_update [OF assms(1,2)]) (use assms in \<open>auto simp: at_row_def row_of_def\<close>)

lemma own_cleanup:
  assumes "at_row sha c i w" and "ci_state i \<noteq> COMMITTING" and "sound sha c"
  shows "ends (\<lambda>_. at_row sha c i) (at_row sha c i) (cleanup_staging env i w)"
proof (rule ends_cleanup)
  fix w' assume "w' \<in> {w, next_tick w} \<union> (case staging_of i of None \<Rightarrow> {} | Some s \<Rightarrow> {set_file s None (next_tick w)})"
  then have "w' = w \<or> w' = next_tick w \<or> w' = set_file (fc_staging c) None (next_tick w)"
    using assms(1) by (auto simp: at_row_def row_of_def staging_of_def split: option.splits if_splits)
  then have "wd_intents w' = wd_intents w" "wd_files w' (fc_path c) = wd_files w (fc_path c)"
    using assms(3) by (auto simp: sound_def)
  with assms(1,2) show "at_row sha c i w'" by (blast intro: at_row_frame)
qed (use assms in auto)

text \<open>
  Replaying the commit's own staging file either moves the new content into place, and says so,
  or leaves everything as it was.
\<close>

lemma own_replay:
  assumes "at_row sha c i w" and "ci_state i = COMMITTING" and old: "wd_files w (fc_path c) = fc_old c"
    and new: "fc_old c \<noteq> fc_new c" and "sound sha c"
  shows "ends (\<lambda>b w'. at_row sha c i w' \<and> wd_files w' (fc_path c) = (if b then fc_new c else fc_old c))
           (at_row sha c i) (replay env sha i w)"
proof (cases "staging_of i")
  case None
  with assms show ?thesis by (simp add: replay_def)
next
  case (Some s)
  have row: "row_of sha c i" and staged: "fc_new c \<noteq> None \<longrightarrow> wd_files w (fc_staging c) = fc_new c"
    and ne: "fc_path c \<noteq> fc_staging c"
    using assms by (auto simp: at_row_def sound_def)
  have s: "s = fc_staging c" using Some row by (auto simp: row_of_def staging_of_def split: if_splits)
  have moved: "at_row sha c i w'" if "wd_intents w' = wd_intents w" "wd_files w' (fc_path c) = fc_new c" for w'
  proof -
    have "get_intent w' m = get_intent w m" for m using that by (simp add: get_intent_def)
    with that assms(1,2) tidy_frame show ?thesis by (auto simp: at_row_def)
  qed
  have "wd_files w (fc_path c) \<noteq> None" if "fc_new c = None" using that old new by auto
  then show ?thesis
    using row staged ne old assms(1) s Some
    by (cases "fc_new c"; cases "fc_old c")
       (auto simp: replay_def row_of_def replace_file_def perform_io_def file_digest_of Let_def
             intro!: moved split: fault.split)
qed

lemma own_recover_committing:
  assumes row: "at_row sha c i w" and "ci_state i = COMMITTING" and sound: "sound sha c"
  shows "ends (\<lambda>_ w'. tracked sha c w' \<and> settled c w') (tracked sha c) (recover_committing env sha i w)"
proof -
  let ?decided = "\<lambda>b w'. at_row sha c i w' \<and> wd_files w' (fc_path c) = (if b then fc_new c else fc_old c)"
  have digests: "ci_after_digest i = digest_of sha (fc_new c)" "ci_before_digest i = digest_of sha (fc_old c)"
    "ci_relative_path i = fc_path c"
    and where_is: "wd_files w (fc_path c) = fc_new c \<or> wd_files w (fc_path c) = fc_old c"
    using row \<open>ci_state i = COMMITTING\<close> by (auto simp: at_row_def row_of_def)
  have decide: "ends ?decided (at_row sha c i)
      (if file_digest sha w (ci_relative_path i) = ci_after_digest i then (Done True, w)
       else if file_digest sha w (ci_relative_path i) = ci_before_digest i then replay env sha i w else (Done False, w))"
    using where_is row digest_of_eq [OF sound] own_replay [OF row \<open>ci_state i = COMMITTING\<close> _ _ sound]
    by (auto simp: file_digest_of digests)
  let ?to = "\<lambda>b. if b then READY else REBASE_REQUIRED"
  have mark: "ends (\<lambda>r w'. r = Some (i\<lparr>ci_state := ?to b\<rparr>) \<and> at_row sha c (i\<lparr>ci_state := ?to b\<rparr>) w') (tracked sha c)
      (if b then mark_ready env i w' else transition_intent env i REBASE_REQUIRED COMMITTING w')" if "?decided b w'" for b w'
    using that own_transition [of sha c i w' COMMITTING "?to b" env] \<open>ci_state i = COMMITTING\<close>
    by (auto simp: mark_ready_def elim!: ends_weaken intro: at_row_tracked)
  have finish: "ends (\<lambda>_ w'. tracked sha c w' \<and> settled c w') (tracked sha c)
      (bind_io (cleanup_staging env r w') (\<lambda>_ w. (Done (Some r), w)))"
    if "r = i\<lparr>ci_state := ?to b\<rparr>" "at_row sha c r w'" for b r w'
  proof (rule ends_bind [where Q = "\<lambda>_. at_row sha c r"])
    show "ends (\<lambda>_. at_row sha c r) (tracked sha c) (cleanup_staging env r w')"
      by (rule ends_weaken [OF own_cleanup [OF that(2) _ sound]]) (use that in \<open>auto intro: at_row_tracked\<close>)
  qed (cases b; use that in \<open>auto intro: at_row_tracked at_row_settled\<close>)
  show ?thesis
    unfolding recover_committing_def Let_def
  proof (rule ends_bind [where Q = ?decided])
    show "ends (\<lambda>_ w'. tracked sha c w' \<and> settled c w') (tracked sha c)
        (bind_io (if b then mark_ready env i w' else transition_intent env i REBASE_REQUIRED COMMITTING w') (\<lambda>row w.
           case row of None \<Rightarrow> (Done None, w)
           | Some r \<Rightarrow> bind_io (cleanup_staging env r w) (\<lambda>_ w. (Done (Some r), w))))" if "?decided b w'" for b w'
      by (rule ends_bind [OF mark [OF that]]) (auto intro!: finish)
  qed (rule ends_weaken [OF decide], auto intro: at_row_tracked)
qed

lemma own_recover_intent:
  assumes "tracked sha c w" and sound: "sound sha c"
  shows "ends (\<lambda>_ w'. tracked sha c w' \<and> settled c w') (tracked sha c) (recover_intent env sha (fc_message c) w)"
  using assms(1)
proof (cases rule: tracked_cases)
  case none
  then show ?thesis by (simp add: recover_intent_def tracked_def settled_def)
next
  case (row i)
  then have got: "get_intent w (fc_message c) = Some i" and facts: "row_of sha c i" "phase c (wd_files w) (ci_state i)"
    and tidy: "tidy c w" by (simp_all add: at_row_def)
  have id: "ci_message_id i = fc_message c" using got by (rule get_intent_id)
  have sup: "ci_superseded_by i = None" using facts by (simp add: row_of_def)
  have rests: "ends (\<lambda>_ w'. tracked sha c w' \<and> settled c w') (tracked sha c)
      (bind_io (cleanup_staging env i w) (\<lambda>_ w. (Done None, w)))" if "ci_state i = READY"
    by (rule ends_bind [where Q = "\<lambda>_. at_row sha c i"], rule ends_weaken [OF own_cleanup [OF row _ sound]])
       (use that in \<open>auto intro: at_row_tracked at_row_settled\<close>)
  have abandoned: ?thesis if reserved: "ci_state i = RESERVED"
  proof -
    have deleted: "ends (\<lambda>n w'. n = 1 \<and> tidy c w' \<and> get_intent w' (fc_message c) = None
        \<and> wd_files w' (fc_path c) = fc_old c) (tracked sha c) (delete_rows env (fenced i RESERVED) w)"
      unfolding delete_rows_def
    proof (rule ends_perform)
      have "rowcount (fenced i RESERVED) (wd_intents w) = 1"
        using tidy get_intent_in [OF got] id sup reserved
        by (subst rowcount_key_1 [where key = ci_message_id and k = "fc_message c"]) (auto simp: tidy_def fenced_def)
      moreover have "fenced i RESERVED i" using sup reserved by (simp add: fenced_def)
      moreover have "tidy c (next_tick w)" using tidy tidy_frame by simp
      moreover have "wd_files w (fc_path c) = fc_old c" using facts reserved by simp
      ultimately show "ends (\<lambda>n w'. n = 1 \<and> tidy c w' \<and> get_intent w' (fc_message c) = None
          \<and> wd_files w' (fc_path c) = fc_old c) (tracked sha c)
        (Done (rowcount (fenced i RESERVED) (wd_intents (next_tick w))),
         (next_tick w)\<lparr>wd_intents := filter (\<lambda>x. \<not> fenced i RESERVED x) (wd_intents (next_tick w))\<rparr>)"
        using tidy_delete [of c "next_tick w"] got
          get_intent_delete [of c "next_tick w" "fenced i RESERVED" "fc_message c"] by simp
    qed (use at_row_tracked [OF row] at_row_tracked [OF at_row_tick [OF row]] in auto)
    let ?gone = "\<lambda>w'. tidy c w' \<and> get_intent w' (fc_message c) = None \<and> wd_files w' (fc_path c) = fc_old c"
    have cleaned: "ends (\<lambda>_. ?gone) ?gone (cleanup_staging env i w')" if "?gone w'" for w'
      by (rule ends_cleanup)
         (use that facts sound tidy_frame in
           \<open>auto simp: row_of_def staging_of_def sound_def split: option.splits if_splits\<close>)
    have gone: "tracked sha c w' \<and> settled c w'" if "?gone w'" for w'
      using that by (simp add: tracked_def settled_def)
    have finish: "ends (\<lambda>_ w'. tracked sha c w' \<and> settled c w') (tracked sha c)
        (bind_io (cleanup_staging env i w') (\<lambda>_ w. (Done (None :: change_intent option), w)))" if "?gone w'" for w'
    proof (rule ends_bind [where Q = "\<lambda>_. ?gone"])
      show "ends (\<lambda>_. ?gone) (tracked sha c) (cleanup_staging env i w')"
        by (rule ends_weaken [OF cleaned [OF that]]) (use gone in blast)+
    qed (use gone in simp)
    show ?thesis
      using sup reserved by (auto simp: recover_intent_def got intro!: ends_bind [OF deleted] finish)
  qed
  have takes: "ends (\<lambda>r w'. \<exists>x. r = Some x \<and> at_row sha c x w' \<and> ci_state x = COMMITTING) (tracked sha c) (take_fence env i w)"
    if "ci_state i = COMMITTING"
    unfolding take_fence_def
  proof (rule ends_weaken [OF own_update [OF row that, where f = "\<lambda>x. x\<lparr>ci_fence_token := ci_fence_token i + 1\<rparr>"]])
    show "tracked sha c w'" if "at_row sha c i w' \<and> wd_files w' = wd_files w" for w'
      using that by (blast intro: at_row_tracked)
  qed (use that facts in \<open>simp_all add: row_of_def\<close>)
  show ?thesis
  proof (cases "ci_state i")
    case RESERVED
    then show ?thesis by (rule abandoned)
  next
    case COMMITTING
    then show ?thesis
      by (auto simp: recover_intent_def got sup intro!: ends_bind [OF takes] own_recover_committing sound)
  next
    case READY
    then show ?thesis using rests by (simp add: recover_intent_def got sup)
  qed (use row got sup at_row_settled at_row_tracked in \<open>auto simp: recover_intent_def\<close>)
qed

section \<open>Recovery runs\<close>

lemma recover_intent_tracked:
  assumes "tracked sha c w" and "sound sha c"
  shows "ends (\<lambda>_ w'. tracked sha c w' \<and> (m = fc_message c \<or> settled c w \<longrightarrow> settled c w'))
           (tracked sha c) (recover_intent env sha m w)"
proof (cases "m = fc_message c")
  case True
  with own_recover_intent [OF assms] show ?thesis by (auto elim: ends_weaken)
next
  case False
  have "tidy c w" using assms(1) by (simp add: tracked_def)
  have "ends (\<lambda>_. tracked sha c) (tracked sha c) (recover_intent env sha m w)"
    by (rule ends_weaken [OF kept_recover_intent [OF kept_tracked [OF assms(1)] False]]) (auto dest: kept_holds)
  moreover have "ends (\<lambda>_. settled c) (settled c) (recover_intent env sha m w)" if "settled c w"
    by (rule ends_weaken [OF kept_recover_intent [OF kept_settled [OF \<open>tidy c w\<close> that] False]]) (auto dest: kept_holds)
  ultimately show ?thesis
    using False by (cases "recover_intent env sha m w"; cases "fst (recover_intent env sha m w)") auto
qed

lemma recover_messages_tracked:
  "tracked sha c w \<Longrightarrow> sound sha c \<Longrightarrow>
   ends (\<lambda>_ w'. tracked sha c w' \<and> (fc_message c \<in> set ms \<or> settled c w \<longrightarrow> settled c w')) (tracked sha c)
     (recover_messages env sha ms w)"
proof (induction ms arbitrary: w)
  case (Cons m ms)
  show ?case
  proof (simp only: recover_messages.simps, rule ends_bind [OF recover_intent_tracked [OF Cons.prems]])
    fix r w' assume step: "tracked sha c w' \<and> (m = fc_message c \<or> settled c w \<longrightarrow> settled c w')"
    show "ends (\<lambda>_ w'. tracked sha c w' \<and> (fc_message c \<in> set (m # ms) \<or> settled c w \<longrightarrow> settled c w')) (tracked sha c)
        (bind_io (recover_messages env sha ms w') (\<lambda>rs w. (Done ((case r of None \<Rightarrow> [] | Some i \<Rightarrow> [i]) @ rs), w)))"
      by (rule ends_bind [OF Cons.IH]) (use step Cons.prems in auto)
  qed
qed simp

lemma recover_outbox_tracked:
  assumes "tracked sha c w" and "sound sha c"
  shows "ends (\<lambda>_ w'. tracked sha c w' \<and> settled c w') (tracked sha c) (recover_outbox env sha w)"
proof -
  have "fc_message c \<in> set (map ci_message_id (intents w)) \<or> settled c w"
    using assms(1) get_intent_in get_intent_id
    by (cases "get_intent w (fc_message c)") (force simp: tracked_def settled_def intents_def)+
  then show ?thesis
    unfolding recover_outbox_def by (rule_tac ends_weaken [OF recover_messages_tracked [OF assms]]) blast+
qed

text \<open>Recoveries that are themselves cut short, at any point and any number of times.\<close>

inductive recoveries :: "(string \<Rightarrow> string) \<Rightarrow> world \<Rightarrow> world \<Rightarrow> bool" for sha where
  no_recovery: "recoveries sha w w"
| one_more: "recoveries sha w w' \<Longrightarrow> recoveries sha w (snd (recover_outbox env sha w'))"

lemma recoveries_tracked:
  "recoveries sha w w' \<Longrightarrow> tracked sha c w \<Longrightarrow> sound sha c \<Longrightarrow> tracked sha c w'"
proof (induction rule: recoveries.induct)
  case (one_more w w' env)
  then have "ends (\<lambda>_. tracked sha c) (tracked sha c) (recover_outbox env sha w')"
    by (intro ends_weaken [OF recover_outbox_tracked]) auto
  then show ?case by (simp add: ends_snd)
qed

section \<open>Completion\<close>

definition calm :: "environment \<Rightarrow> bool" where
  "calm env \<longleftrightarrow> (\<forall>n. xe_fault env n = Proceed)"

fun completes :: "'a io \<times> world \<Rightarrow> bool" where
  "completes (Done x, w) = True"
| "completes (Raised e, w) = False"
| "completes (Halted, w) = False"

lemma completes_bind [intro]: "completes r \<Longrightarrow> (\<And>x w. completes (f x w)) \<Longrightarrow> completes (bind_io r f)"
  by (cases r rule: completes.cases) auto

lemma calm_perform: "calm env \<Longrightarrow> perform_io env exn torn act w = act (next_tick w)"
  by (simp add: calm_def perform_io_def)

lemma calm_effects [intro]:
  assumes "calm env"
  shows "completes (cleanup_staging env i w)" "completes (update_fenced env i st f w)"
    "completes (delete_rows env P w)" "completes (replay env sha i w)"
  using assms
  by (auto simp: cleanup_staging_def unlink_suppressed_def unlink_def update_fenced_def delete_rows_def
      replay_def replace_file_def calm_perform Let_def split: option.split)

lemma calm_recover_intent:
  assumes "calm env"
  shows "completes (recover_intent env sha m w)"
proof -
  note calm = calm_effects [OF assms]
  have "completes (recover_committing env sha i w')" for i w'
    unfolding recover_committing_def Let_def mark_ready_def transition_intent_def
    by (intro completes_bind) (auto intro!: calm completes_bind split: option.split)
  then show ?thesis
    unfolding recover_intent_def take_fence_def
    by (auto intro!: calm completes_bind split: option.split)
qed

lemma calm_recover_outbox: "calm env \<Longrightarrow> completes (recover_outbox env sha w)"
proof -
  assume calm: "calm env"
  have "completes (recover_messages env sha ms w)" for ms w
    by (induction ms arbitrary: w) (auto intro!: completes_bind calm_recover_intent [OF calm])
  then show ?thesis by (simp add: recover_outbox_def)
qed

section \<open>The commit itself\<close>

definition commit_of :: "string \<Rightarrow> string \<Rightarrow> string \<Rightarrow> change_type \<Rightarrow> string option \<Rightarrow> world \<Rightarrow> file_commit" where
  "commit_of m suffix path kind new_text w =
     \<lparr>fc_message = m, fc_path = path,
      fc_staging = hidden_name path ((if kind = Remove then ''.bridle-tombstone-'' else ''.bridle-stage-'') @ suffix),
      fc_old = wd_files w path, fc_new = (if kind = Remove then None else new_text)\<rparr>"

lemma hidden_name_longer: "length path < length (hidden_name path sfx)"
proof -
  have "length (join_with ''/'' (butlast cs @ [x])) + length (last cs) = length (join_with ''/'' cs) + length x"
    if "cs \<noteq> []" for cs :: "string list" and x
    using that
  proof (induction "''/''" cs rule: join_with.induct)
    case (3 w v ws)
    then show ?case by (cases "butlast (v # ws)") auto
  qed auto
  from this [of "split_on (CHR ''/'') path" "''.'' @ last (split_on (CHR ''/'') path) @ sfx"]
  show ?thesis by (simp add: hidden_name_def Let_def)
qed

lemma hidden_name_ne [simp]: "path \<noteq> hidden_name path sfx" "hidden_name path sfx \<noteq> path"
  using hidden_name_longer [of path sfx] by auto

text \<open>The world a commit may start in: its message is new, and no other intent uses its files.\<close>

definition undisturbed :: "file_commit \<Rightarrow> world \<Rightarrow> bool" where
  "undisturbed c w \<longleftrightarrow> unique_key ci_message_id (wd_intents w)
     \<and> (\<forall>i \<in> set (wd_intents w). ci_message_id i \<noteq> fc_message c \<and> bystander c i)"

lemma undisturbed_tracked:
  assumes "undisturbed c w" and "wd_files w (fc_path c) = fc_old c"
  shows "tracked sha c w"
proof -
  have "get_intent w (fc_message c) = None"
    using assms(1) by (auto simp: undisturbed_def get_intent_def find_None_iff)
  with assms show ?thesis by (simp add: tracked_def tidy_def undisturbed_def)
qed

lemma fenced_supersede: "bystander c i \<Longrightarrow> bystander c (i\<lparr>ci_superseded_by := Some m\<rparr>)"
  by (auto simp: bystander_def)

lemma insert_reserved_at_row:
  assumes "undisturbed c w" and "wd_files w (fc_path c) = fc_old c"
    and "row_of sha c new" "ci_message_id new = fc_message c" "ci_state new = RESERVED"
  shows "ends (\<lambda>r w'. wd_files w' = wd_files w \<and>
      (case r of Reserved i \<Rightarrow> at_row sha c i w' \<and> ci_state i = RESERVED | Refused _ _ \<Rightarrow> tracked sha c w' | _ \<Rightarrow> False))
    (tracked sha c) (insert_reserved new ox w)"
proof -
  have tracked: "tracked sha c w" using assms(1,2) by (rule undisturbed_tracked)
  have tidy: "tidy c w" using tracked by (simp add: tracked_def)
  let ?i = "new\<lparr>ci_fence_token := max_fence w (ci_relative_path new) + 1\<rparr>"
  have at: "at_row sha c ?i (w\<lparr>wd_intents := rows @ [?i]\<rparr>)"
    if rows: "tidy c (w\<lparr>wd_intents := rows\<rparr>)" "\<forall>x \<in> set rows. ci_message_id x \<noteq> fc_message c" for rows
  proof -
    have "find (\<lambda>x. ci_message_id x = fc_message c) rows = None" using rows(2) by (auto simp: find_None_iff)
    then have "get_intent (w\<lparr>wd_intents := rows @ [?i]\<rparr>) (fc_message c) = Some ?i"
      using assms(4) by (simp add: get_intent_def find_append)
    moreover have "tidy c (w\<lparr>wd_intents := rows @ [?i]\<rparr>)"
      using rows assms(4) by (auto simp: tidy_def unique_key_append1)
    ultimately show ?thesis using assms(2,3,5) by (simp add: at_row_def row_of_def)
  qed
  have rows: "tidy c (w\<lparr>wd_intents := supersede m x (wd_intents w)\<rparr>)"
    "\<forall>y \<in> set (supersede m x (wd_intents w)). ci_message_id y \<noteq> fc_message c" for m x
    using assms(1) unfolding supersede_def
    by (auto intro!: tidy_update [OF tidy] fenced_supersede simp: in_update_rows undisturbed_def split: if_splits)
  have same: "tidy c (w\<lparr>wd_intents := wd_intents w\<rparr>)" "\<forall>y \<in> set (wd_intents w). ci_message_id y \<noteq> fc_message c"
    using assms(1) tidy by (auto simp: undisturbed_def)
  show ?thesis
    using tracked at [OF rows] at [OF same] assms(5)
    by (auto simp: insert_reserved_def Let_def split: option.split)
qed

lemma reserve_at_row:
  assumes "undisturbed c w" and "wd_files w (fc_path c) = fc_old c" and "m = fc_message c"
    and "normalize_outbox_path path = Inr path" "path = fc_path c" "before = digest_of sha (fc_old c)"
      "after = digest_of sha (fc_new c)" "kind = Remove \<longleftrightarrow> fc_new c = None" "staging = fc_staging c"
  shows "ends (\<lambda>r w'. wd_files w' = wd_files w \<and>
      (case r of Reserved i \<Rightarrow> at_row sha c i w' \<and> ci_state i = RESERVED | Refused _ _ \<Rightarrow> tracked sha c w' | _ \<Rightarrow> False))
    (tracked sha c) (reserve env ox m path None kind before after (Some staging) corr w)"
proof -
  have start: "tracked sha c w" using assms(1,2) by (rule undisturbed_tracked)
  then have tick: "tracked sha c (next_tick w)" by (rule tracked_cong) (use start tidy_frame in \<open>auto simp: tracked_def\<close>)
  have "undisturbed c (next_tick w)" using assms(1) by (simp add: undisturbed_def)
  then have "ends (\<lambda>r w'. wd_files w' = wd_files (next_tick w) \<and>
      (case r of Reserved i \<Rightarrow> at_row sha c i w' \<and> ci_state i = RESERVED | Refused _ _ \<Rightarrow> tracked sha c w' | _ \<Rightarrow> False))
    (tracked sha c) (insert_reserved new ox (next_tick w))"
    if "row_of sha c new" "ci_message_id new = fc_message c" "ci_state new = RESERVED" for new
    using assms(2) that by (intro insert_reserved_at_row) simp_all
  then show ?thesis
    using assms(3-9) start tick by (auto simp: reserve_def row_of_def split: fault.split option.split)
qed

definition landed :: "file_commit \<Rightarrow> world \<Rightarrow> bool" where
  "landed c w \<longleftrightarrow> wd_files w (fc_path c) = fc_new c
     \<and> (\<exists>i. get_intent w (fc_message c) = Some i \<and> ci_state i \<in> {READY, DELIVERED})"

lemma at_row_landed: "at_row sha c i w \<Longrightarrow> ci_state i = READY \<Longrightarrow> landed c w"
  by (simp add: at_row_def landed_def)

lemma commit_reserved_tracked:
  assumes row: "at_row sha c i w" and "ci_state i = RESERVED" and sound: "sound sha c"
  shows "ends (\<lambda>r w'. tracked sha c w' \<and> (\<forall>x. r = Committed x \<longrightarrow> landed c w')) (tracked sha c)
           (commit_reserved env i (fc_path c) (fc_staging c) (fc_new c) w)"
proof -
  have ne: "fc_path c \<noteq> fc_staging c" using sound by (simp add: sound_def)
  let ?committing = "i\<lparr>ci_state := COMMITTING\<rparr>"
  have parent: "ends (\<lambda>_. at_row sha c i) (tracked sha c) (make_parent env w)"
    unfolding make_parent_def by (rule ends_perform)
      (use row at_row_tracked [OF row] at_row_tracked [OF at_row_tick [OF row]] in auto)
  have frame: "at_row sha c i w2" if "at_row sha c i w1" "wd_intents w2 = wd_intents w1"
      "wd_files w2 (fc_path c) = wd_files w1 (fc_path c)" for w1 w2
    by (rule at_row_frame [OF that(1)]) (use that assms(2) in simp_all)
  have stage: "ends (\<lambda>_ w'. at_row sha c i w' \<and> (fc_new c \<noteq> None \<longrightarrow> wd_files w' (fc_staging c) = fc_new c)) (tracked sha c)
      (case fc_new c of None \<Rightarrow> (Done (), w1) | Some t \<Rightarrow> write_new env (fc_staging c) t w1)" if "at_row sha c i w1" for w1
  proof (cases "fc_new c")
    case None
    with that show ?thesis by simp
  next
    case (Some t)
    have part: "at_row sha c i (set_file (fc_staging c) x w2)" if "w2 \<in> {w1, next_tick w1}" for x w2
      by (rule frame [OF \<open>at_row sha c i w1\<close>]) (use that ne in auto)
    have "ends (\<lambda>_ w'. at_row sha c i w' \<and> wd_files w' (fc_staging c) = fc_new c) (tracked sha c)
        (write_new env (fc_staging c) t w1)"
      unfolding write_new_def
      by (auto simp: Some part at_row_tracked [OF part] at_row_tracked [OF that] intro!: ends_perform)
    with Some show ?thesis by (auto elim: ends_weaken)
  qed
  have committing: "ends (\<lambda>r w'. r = Some ?committing \<and> at_row sha c ?committing w' \<and> wd_files w' (fc_path c) = fc_old c
        \<and> (fc_new c \<noteq> None \<longrightarrow> wd_files w' (fc_staging c) = fc_new c)) (tracked sha c) (mark_committing env i w1)"
    if "at_row sha c i w1 \<and> (fc_new c \<noteq> None \<longrightarrow> wd_files w1 (fc_staging c) = fc_new c)" for w1
  proof -
    from that assms(2) have old: "wd_files w1 (fc_path c) = fc_old c" by (simp add: at_row_def)
    with that have "phase c (wd_files w1) COMMITTING" by simp
    from own_transition [OF conjunct1 [OF that] assms(2) this] show ?thesis
      unfolding mark_committing_def by (rule ends_weaken) (use that old in \<open>auto intro: at_row_tracked\<close>)
  qed
  have moved: "at_row sha c ?committing w2" if "at_row sha c ?committing w1" "wd_intents w2 = wd_intents w1"
      "wd_files w2 (fc_path c) = fc_new c" for w1 w2
  proof -
    have "get_intent w2 m = get_intent w1 m" for m using that by (simp add: get_intent_def)
    with that tidy_frame show ?thesis by (auto simp: at_row_def)
  qed
  have replace: "ends (\<lambda>_ w'. at_row sha c ?committing w' \<and> wd_files w' (fc_path c) = fc_new c) (tracked sha c)
      (if fc_new c = None then replace_file env (fc_path c) (fc_staging c) w1 else replace_file env (fc_staging c) (fc_path c) w1)"
    if "at_row sha c ?committing w1 \<and> (fc_new c \<noteq> None \<longrightarrow> wd_files w1 (fc_staging c) = fc_new c)" for w1
  proof -
    from that have here: "at_row sha c ?committing w1" "at_row sha c ?committing (next_tick w1)"
      and staged: "fc_new c \<noteq> None \<longrightarrow> wd_files w1 (fc_staging c) = fc_new c" by auto
    have gone: "at_row sha c ?committing (set_file (fc_staging c) x (set_file (fc_path c) None (next_tick w1)))"
      if "fc_new c = None" for x by (rule moved [OF here(1)]) (use ne that in simp_all)
    have put: "at_row sha c ?committing (set_file (fc_path c) (fc_new c) (set_file (fc_staging c) None (next_tick w1)))"
      by (rule moved [OF here(1)]) simp_all
    show ?thesis
      using staged ne gone put here here [THEN at_row_tracked]
      by (cases "fc_new c") (auto simp: replace_file_def perform_io_def split: option.split fault.split)
  qed
  have ready: "ends (\<lambda>r w'. r = Some (?committing\<lparr>ci_state := READY\<rparr>) \<and> at_row sha c (?committing\<lparr>ci_state := READY\<rparr>) w')
      (tracked sha c) (mark_ready env ?committing w1)"
    if "at_row sha c ?committing w1 \<and> wd_files w1 (fc_path c) = fc_new c" for w1
    unfolding mark_ready_def
    by (rule ends_weaken [OF own_transition [of sha c ?committing w1]]) (use that in \<open>auto intro: at_row_tracked\<close>)
  have clean: "ends (\<lambda>_ w'. tracked sha c w' \<and> landed c w') (tracked sha c) (cleanup_staging env r w1)"
    if "at_row sha c r w1" "ci_state r = READY" for r w1
    by (rule ends_weaken [OF own_cleanup [OF that(1) _ sound]]) (use that in \<open>auto intro: at_row_tracked at_row_landed\<close>)
  let ?good = "\<lambda>r w'. tracked sha c w' \<and> (\<forall>x. r = Committed x \<longrightarrow> landed c w')"
  have last: "ends ?good (tracked sha c) (bind_io (cleanup_staging env r w1) (\<lambda>_ w. (Done (Committed r), w)))"
    if "at_row sha c r w1" "ci_state r = READY" for r w1
    by (rule ends_bind [OF clean [OF that]]) simp
  have finish: "ends ?good (tracked sha c) (bind_io (mark_ready env ?committing w1) (\<lambda>ready w.
      case ready of None \<Rightarrow> (Done (Failed None ''outbox_fence_lost''), w)
      | Some r \<Rightarrow> bind_io (cleanup_staging env r w) (\<lambda>_ w. (Done (Committed r), w))))"
    if "at_row sha c ?committing w1 \<and> wd_files w1 (fc_path c) = fc_new c" for w1
  proof (rule ends_bind [OF ready [OF that]], goal_cases)
    case (1 r w2)
    with last [of "?committing\<lparr>ci_state := READY\<rparr>" w2] show ?case by simp
  qed
  show ?thesis
    unfolding commit_reserved_def
  proof (rule ends_bind [OF parent], rule ends_bind [OF stage], assumption, rule ends_bind [OF committing], assumption, goal_cases)
    case (1 _ w1 _ w2 r w3)
    then have "ends ?good (tracked sha c) (bind_io
        (if fc_new c = None then replace_file env (fc_path c) (fc_staging c) w3
         else replace_file env (fc_staging c) (fc_path c) w3)
        (\<lambda>_ w. bind_io (mark_ready env ?committing w) (\<lambda>ready w.
           case ready of None \<Rightarrow> (Done (Failed None ''outbox_fence_lost''), w)
           | Some r \<Rightarrow> bind_io (cleanup_staging env r w) (\<lambda>_ w. (Done (Committed r), w)))))"
      by (intro ends_bind [OF replace] finish) blast+
    with 1 show ?case by simp
  qed
qed

lemma abandon_reserved_tracked:
  assumes "at_row sha c i w" and "ci_state i = RESERVED" and "sound sha c"
  shows "ends (\<lambda>_. tracked sha c) (tracked sha c) (abandon_reserved env i w)"
proof -
  let ?mine = "\<lambda>x. ci_message_id x = ci_message_id i \<and> ci_state x = RESERVED \<and> ci_fence_token x = ci_fence_token i"
  have gone: "tracked sha c ((next_tick w1)\<lparr>wd_intents := filter (\<lambda>x. \<not> ?mine x) (wd_intents w1)\<rparr>)"
    if at: "at_row sha c i w1" for w1
  proof -
    let ?w = "(next_tick w1)\<lparr>wd_intents := filter (\<lambda>x. \<not> ?mine x) (wd_intents w1)\<rparr>"
    have tidy: "tidy c (next_tick w1)" using at_row_tick [OF at] by (simp add: at_row_def)
    then have "tidy c ?w" using tidy_delete [OF tidy, of "\<lambda>x. \<not> ?mine x"] by simp
    moreover have "get_intent ?w (fc_message c) = None"
      using get_intent_delete [OF tidy, of ?mine "fc_message c"] at assms(2) by (simp add: at_row_def)
    ultimately show ?thesis using at assms(2) by (simp add: tracked_def at_row_def)
  qed
  have "ends (\<lambda>_. tracked sha c) (tracked sha c) (delete_rows env ?mine w1)" if at: "at_row sha c i w1" for w1
    unfolding delete_rows_def
    by (rule ends_perform)
       (use gone [OF at] at_row_tracked [OF at] at_row_tracked [OF at_row_tick [OF at]] in auto)
  then have delete: "ends (\<lambda>_. tracked sha c) (tracked sha c)
      (bind_io (delete_rows env ?mine w1) (\<lambda>_ w. (Done (), w)))" if "at_row sha c i w1" for w1
    using that by (auto intro!: ends_bind [where Q = "\<lambda>_. tracked sha c"])
  have "ends (\<lambda>_. at_row sha c i) (tracked sha c) (cleanup_staging env i w)"
    by (rule ends_weaken [OF own_cleanup [OF assms(1) _ assms(3)]]) (use assms in \<open>auto intro: at_row_tracked\<close>)
  then show ?thesis unfolding abandon_reserved_def by (rule ends_bind) (rule delete)
qed

lemma abandon_after_error:
  assumes "tracked sha c w" and "sound sha c"
  shows "ends (\<lambda>_. tracked sha c) (tracked sha c)
    (case get_intent w (fc_message c) of None \<Rightarrow> (Done (), w)
     | Some x \<Rightarrow> if ci_state x = RESERVED then abandon_reserved env x w else (Done (), w))"
  using assms(1)
proof (cases rule: tracked_cases)
  case none
  with assms(1) show ?thesis by simp
next
  case (row i)
  with assms show ?thesis
    using abandon_reserved_tracked [OF row _ assms(2)] by (auto simp: at_row_def)
qed

lemma commit_locked_tracked:
  fixes w suffix path kind new_text m
  defines "c \<equiv> commit_of m suffix path kind new_text w"
  assumes start: "undisturbed c w" and normal: "normalize_outbox_path path = Inr path" and sound: "sound sha c"
  shows "ends (\<lambda>r w'. tracked sha c w' \<and> (\<forall>x. r = Committed x \<longrightarrow> landed c w')) (tracked sha c)
           (commit_locked env ox sha m suffix path kind new_text corr w)"
proof (cases "kind \<noteq> Remove \<and> new_text = None")
  case True
  with undisturbed_tracked [OF start] show ?thesis by (simp add: commit_locked_def c_def commit_of_def)
next
  case False
  let ?good = "\<lambda>r w'. tracked sha c w' \<and> (\<forall>x. r = Committed x \<longrightarrow> landed c w')"
  have fields: "fc_message c = m" "fc_path c = path" "fc_old c = wd_files w path"
    "fc_new c = (if kind = Remove then None else new_text)"
    "fc_staging c = hidden_name path ((if kind = Remove then ''.bridle-tombstone-'' else ''.bridle-stage-'') @ suffix)"
    by (simp_all add: c_def commit_of_def)
  have handled: "ends ?good (tracked sha c)
      (case commit_reserved env i path (fc_staging c) (fc_new c) w1 of
         (Raised Os_Error, w') \<Rightarrow>
           (let current = get_intent w' (ci_message_id i) in
            bind_io (case current of None \<Rightarrow> (Done (), w')
                     | Some c \<Rightarrow> if ci_state c = RESERVED then abandon_reserved env c w' else (Done (), w'))
              (\<lambda>_ w. (Done (Failed current ''OSError''), w)))
       | r \<Rightarrow> r)"
    if at: "at_row sha c i w1" "ci_state i = RESERVED" for i w1
  proof -
    have id: "ci_message_id i = fc_message c" using at(1) by (auto simp: at_row_def dest: get_intent_id)
    have run: "ends ?good (tracked sha c) (commit_reserved env i path (fc_staging c) (fc_new c) w1)"
      using commit_reserved_tracked [OF at sound] by (simp add: fields)
    obtain x w2 where r: "commit_reserved env i path (fc_staging c) (fc_new c) w1 = (x, w2)" by fastforce
    show ?thesis
    proof (cases "x = Raised Os_Error")
      case True
      then have "tracked sha c w2" using run r by simp
      then show ?thesis
        using True abandon_after_error [OF _ sound, of w2 env]
        by (auto simp: r id Let_def intro!: ends_bind [where Q = "\<lambda>_. tracked sha c"])
    next
      case False
      then show ?thesis using run r by (auto split: io.split outbox_exn.split)
    qed
  qed
  have "ends (\<lambda>r w'. wd_files w' = wd_files w \<and>
      (case r of Reserved i \<Rightarrow> at_row sha c i w' \<and> ci_state i = RESERVED | Refused _ _ \<Rightarrow> tracked sha c w' | _ \<Rightarrow> False))
    (tracked sha c) (reserve env ox m path None kind (digest_of sha (fc_old c)) (digest_of sha (fc_new c))
       (Some (fc_staging c)) corr w)"
    by (rule reserve_at_row) (use start normal False in \<open>auto simp: fields\<close>)
  then have "ends ?good (tracked sha c)
      (bind_io (reserve env ox m path None kind (digest_of sha (fc_old c)) (digest_of sha (fc_new c))
         (Some (fc_staging c)) corr w) (\<lambda>reply w1.
        case reply of
          Reserved i \<Rightarrow>
            (case commit_reserved env i path (fc_staging c) (fc_new c) w1 of
               (Raised Os_Error, w') \<Rightarrow>
                 (let current = get_intent w' (ci_message_id i) in
                  bind_io (case current of None \<Rightarrow> (Done (), w')
                           | Some c \<Rightarrow> if ci_state c = RESERVED then abandon_reserved env c w' else (Done (), w'))
                    (\<lambda>_ w. (Done (Failed current ''OSError''), w)))
             | r \<Rightarrow> r)
        | other \<Rightarrow> (Done other, w1)))"
  proof (rule ends_bind, goal_cases)
    case (1 r w1)
    show ?case
    proof (cases r)
      case (Reserved i)
      with 1 handled [of i w1] show ?thesis by simp
    qed (use 1 in simp_all)
  qed
  then show ?thesis
    using False unfolding commit_locked_def Let_def fields file_digest_of digest_of_def
    by (auto cong del: outbox_reply.case_cong_weak)
qed

section \<open>Landing is final\<close>

lemma recover_intent_landed:
  assumes "tracked sha c w" "landed c w" and "sound sha c"
  shows "ends (\<lambda>_. landed c) (landed c) (recover_intent env sha m w)"
proof (cases "m = fc_message c")
  case False
  have "kept c (landed c) w"
    using assms(1,2) unfolding kept_def landed_def by (auto simp: tracked_def)
  then show ?thesis by (intro ends_weaken [OF kept_recover_intent [OF _ False]]) (auto dest: kept_holds)
next
  case True
  obtain i where row: "at_row sha c i w" "ci_state i \<in> {READY, DELIVERED}"
    using assms(1,2) by (auto simp: tracked_def landed_def at_row_def split: option.splits)
  then have facts: "get_intent w (fc_message c) = Some i" "ci_superseded_by i = None"
    by (simp_all add: at_row_def row_of_def)
  have lands: "landed c w'" if "at_row sha c i w'" for w'
    using that row(2) by (auto simp: at_row_def landed_def)
  have "ends (\<lambda>_. at_row sha c i) (at_row sha c i) (cleanup_staging env i w)"
    using row assms(3) by (intro own_cleanup) auto
  then have "ends (\<lambda>_. landed c) (landed c) (bind_io (cleanup_staging env i w) (\<lambda>_ w. (Done None, w)))"
    by (rule ends_bind [OF ends_weaken]) (auto intro: lands)
  then show ?thesis using row(2) facts assms(2) True by (auto simp: recover_intent_def)
qed

lemma recover_outbox_landed:
  assumes "tracked sha c w" "landed c w" and "sound sha c"
  shows "ends (\<lambda>_. landed c) (landed c) (recover_outbox env sha w)"
proof -
  have "ends (\<lambda>_ w'. tracked sha c w' \<and> landed c w') (landed c) (recover_messages env sha ms w)"
    if "tracked sha c w \<and> landed c w" for ms w
    using that
  proof (induction ms arbitrary: w)
    case (Cons m ms)
    then have both: "tracked sha c w" "landed c w" by simp_all
    have "ends (\<lambda>_ w'. tracked sha c w' \<and> landed c w') (landed c) (recover_intent env sha m w)"
      using recover_intent_tracked [OF both(1) assms(3), of m env] recover_intent_landed [OF both assms(3), of env m]
      by (cases "recover_intent env sha m w"; cases "fst (recover_intent env sha m w)") auto
    then show ?case
      by (simp only: recover_messages.simps, rule ends_bind) (rule ends_bind [OF Cons.IH], auto)
  qed simp
  then have "ends (\<lambda>_ w'. tracked sha c w' \<and> landed c w') (landed c) (recover_outbox env sha w)"
    using assms(1,2) by (simp add: recover_outbox_def)
  then show ?thesis by (rule ends_weaken) simp_all
qed

lemma recoveries_landed:
  "recoveries sha w w' \<Longrightarrow> tracked sha c w \<Longrightarrow> landed c w \<Longrightarrow> sound sha c \<Longrightarrow> landed c w'"
proof (induction rule: recoveries.induct)
  case (one_more w w' env)
  have "tracked sha c w'" using recoveries_tracked [OF one_more.hyps] one_more.prems by blast
  with one_more show ?case using recover_outbox_landed [of sha c w' env] by (simp add: ends_snd)
qed

text \<open>
  C5. A commit of one file is atomic across crashes. Let the commit run where disk and database
  may fail, and the process stop, at any effect; let recovery then run any number of times, and
  fail or be stopped again and again. Once recovery runs undisturbed it completes, and then either
  there is no intent and the file has its old content, or the intent is ready (so that the change
  will be announced) and the file has the new content, or the intent asks for a rebase and the
  file has its old content. A commit that reported success has left the new content for good. The
  message must be new and no other intent may use the two files; the digest must tell the two
  contents apart.
\<close>

theorem commit_crash_safe:
  fixes w m suffix path kind new_text
  defines "c \<equiv> commit_of m suffix path kind new_text w"
  assumes "undisturbed c w" and "normalize_outbox_path path = Inr path"
    and "\<forall>a b. fc_old c = Some a \<longrightarrow> fc_new c = Some b \<longrightarrow> sha a = sha b \<longrightarrow> a = b"
    and run: "commit_file env ox sha lock_free m suffix path kind new_text corr w = (r, w1)"
    and "recoveries sha w1 w2" and "calm env'"
  shows "\<exists>rs w3. recover_outbox env' sha w2 = (Done rs, w3) \<and> settled c w3
    \<and> (\<forall>i. r = Done (Committed i) \<longrightarrow> landed c w3)"
proof -
  have sound: "sound sha c"
    using assms(4) by (simp add: sound_def c_def commit_of_def)
  have "tracked sha c w" using undisturbed_tracked [OF assms(2)] by (simp add: c_def commit_of_def)
  then have "ends (\<lambda>r w'. tracked sha c w' \<and> (\<forall>x. r = Committed x \<longrightarrow> landed c w')) (tracked sha c) (r, w1)"
    using commit_locked_tracked [of m suffix path kind new_text w sha env ox corr] assms(2,3) sound
    by (auto simp: c_def commit_file_def simp flip: run)
  then have start: "tracked sha c w1" "r = Done (Committed i) \<Longrightarrow> landed c w1" for i
    by (cases r; simp)+
  have again: "tracked sha c w2" using recoveries_tracked [OF assms(6) start(1) sound] .
  obtain rs w3 where fin: "recover_outbox env' sha w2 = (Done rs, w3)"
    using calm_recover_outbox [OF assms(7), of sha w2]
    by (cases "recover_outbox env' sha w2"; cases "fst (recover_outbox env' sha w2)") auto
  have "settled c w3" using recover_outbox_tracked [OF again sound, of env'] fin by simp
  moreover have "landed c w3" if "r = Done (Committed i)" for i
    using recover_outbox_landed [OF again recoveries_landed [OF assms(6) start(1) start(2) [OF that] sound] sound, of env']
      fin by simp
  ultimately show ?thesis using fin by blast
qed

text \<open>A file is overwritten, and the process stops at its fourth effect, the replacement.\<close>

definition sample_world :: world where
  "sample_world = \<lparr>wd_files = [''f'' \<mapsto> ''o''], wd_intents = [], wd_tick = 0\<rparr>"

definition halting_at :: "nat \<Rightarrow> environment" where
  "halting_at n = \<lparr>xe_fault = (\<lambda>t. if t = n then Halt None else Proceed), xe_clock = int\<rparr>"

definition steady :: environment where
  "steady = \<lparr>xe_fault = (\<lambda>_. Proceed), xe_clock = int\<rparr>"

definition sample_outbox :: outbox where
  "sample_outbox = \<lparr>ox_project_id = ''p'', ox_capacity = 10, ox_retry_base = 1, ox_retry_max = 60\<rparr>"

definition sample_correlation :: correlation where
  "sample_correlation = \<lparr>co_trace_id = ''t'', co_project_id = ''p'', co_agent_id = ''a'', co_generation = 1\<rparr>"

lemma sample_normal: "normalize_outbox_path ''f'' = Inr ''f''"
  by (simp add: normalize_outbox_path_def strip_def is_space_def startswith_def path_parts_def as_posix_def
      here_def up_def Let_def char_of_eq_iff)

lemma commit_crash_safe_witness:
  "\<exists>rs w3. recover_outbox steady (\<lambda>t. t)
       (snd (commit_file (halting_at 4) sample_outbox (\<lambda>t. t) True ''m'' ''x'' ''f'' Modify (Some ''n'')
          sample_correlation sample_world)) = (Done rs, w3)
     \<and> settled (commit_of ''m'' ''x'' ''f'' Modify (Some ''n'') sample_world) w3"
proof -
  let ?w1 = "snd (commit_file (halting_at 4) sample_outbox (\<lambda>t. t) True ''m'' ''x'' ''f'' Modify (Some ''n'')
          sample_correlation sample_world)"
  have "undisturbed (commit_of ''m'' ''x'' ''f'' Modify (Some ''n'') sample_world) sample_world"
    by (simp add: undisturbed_def sample_world_def unique_key_def)
  note safe = commit_crash_safe [OF this sample_normal _ prod.collapse [symmetric] no_recovery, where env' = steady]
  show ?thesis
    using safe [where sha = "\<lambda>t. t"] by (simp add: calm_def steady_def) blast
qed

end
