(* ===== verification/Outbox_Batch.thy ===== *)
theory Outbox_Batch
  imports Outbox_Recovery
begin

text \<open>
  A batch of changes: published as a whole or rolled back, whatever fails on the way, as long as
  the process lives; a crash in the middle of it is another matter.
\<close>

section \<open>What a batch should do\<close>

definition written_text :: "checked_change \<Rightarrow> string option" where
  "written_text k = (if kc_change_type k = Remove then None else kc_new_text k)"

definition apply_change :: "checked_change \<Rightarrow> (string \<Rightarrow> string option) \<Rightarrow> string \<Rightarrow> string option" where
  "apply_change k fs =
     (let fs = fs(kc_path k := written_text k)
      in if kc_change_type k = Remove then fs
         else case kc_old_path k of None \<Rightarrow> fs | Some q \<Rightarrow> fs(q := None))"

definition staging_name :: "checked_change \<Rightarrow> string \<Rightarrow> string" where
  "staging_name k suffix = hidden_name (kc_path k)
     ((if kc_change_type k = Remove then ''.bridle-tombstone-'' else ''.bridle-stage-'') @ suffix)"

fun staging_names :: "(nat \<Rightarrow> string \<times> string) \<Rightarrow> checked_change list \<Rightarrow> string list" where
  "staging_names ids [] = []"
| "staging_names ids (k # ks) = staging_name k (snd (ids 0)) # staging_names (ids \<circ> Suc) ks"

definition affected :: "checked_change list \<Rightarrow> string set" where
  "affected ks = (\<Union>k \<in> set ks. set (change_paths k))"

definition rollback_names :: "(string \<Rightarrow> string) \<Rightarrow> checked_change list \<Rightarrow> string set" where
  "rollback_names sfx ks = (\<lambda>p. hidden_name p (''.bridle-rollback-'' @ sfx p)) ` affected ks"

text \<open>The random names are new: they differ from each other and from the paths of the batch.\<close>

definition fresh_names :: "(nat \<Rightarrow> string \<times> string) \<Rightarrow> (string \<Rightarrow> string) \<Rightarrow> checked_change list \<Rightarrow> bool" where
  "fresh_names ids sfx ks \<longleftrightarrow> distinct (staging_names ids ks)
     \<and> (set (staging_names ids ks) \<union> rollback_names sfx ks) \<inter> affected ks = {}"

definition hidden :: "(nat \<Rightarrow> string \<times> string) \<Rightarrow> (string \<Rightarrow> string) \<Rightarrow> checked_change list \<Rightarrow> string set" where
  "hidden ids sfx ks = set (staging_names ids ks) \<union> rollback_names sfx ks"

section \<open>Files\<close>

text \<open>A world agrees with another outside a set of files.\<close>

definition outside :: "string set \<Rightarrow> world \<Rightarrow> world \<Rightarrow> bool" where
  "outside S w w' \<longleftrightarrow> (\<forall>p. p \<notin> S \<longrightarrow> wd_files w' p = wd_files w p)"

lemma outside_refl [simp]: "outside S w w"
  by (simp add: outside_def)

lemma outside_trans: "outside S w w1 \<Longrightarrow> outside T w1 w2 \<Longrightarrow> outside (S \<union> T) w w2"
  by (simp add: outside_def)

lemma outside_step: "outside S w w1 \<Longrightarrow> outside S w1 w2 \<Longrightarrow> outside S w w2"
  by (simp add: outside_def)

lemma outside_mono: "outside S w w' \<Longrightarrow> S \<subseteq> T \<Longrightarrow> outside T w w'"
  by (auto simp: outside_def)

lemma snd_bind:
  assumes "P (snd r)" and "\<And>x w. r = (Done x, w) \<Longrightarrow> P w \<Longrightarrow> P (snd (f x w))"
  shows "P (snd (bind_io r f))"
  using assms by (cases "(r, f)" rule: bind_io.cases) auto

lemma bind_Done:
  "bind_io r f = (Done y, w') \<longleftrightarrow> (\<exists>x w. r = (Done x, w) \<and> f x w = (Done y, w'))"
  by (cases "(r, f)" rule: bind_io.cases) auto

lemma write_new_outside: "outside {p} w (snd (write_new env p t w))"
  by (auto simp: outside_def write_new_def perform_io_def split: fault.split)

lemma write_new_Done: "write_new env p t w = (Done x, w') \<Longrightarrow> wd_files w' p = Some t"
  by (auto simp: write_new_def perform_io_def split: fault.splits if_splits)

lemma replace_outside: "outside {src, dst} w (snd (replace_file env src dst w))"
  by (auto simp: outside_def replace_file_def perform_io_def split: fault.split option.split)

lemma replace_Done:
  "replace_file env src dst w = (Done x, w') \<Longrightarrow>
   wd_files w src \<noteq> None \<and> wd_files w' = ((wd_files w)(src := None))(dst := wd_files w src)"
  by (auto simp: replace_file_def perform_io_def split: fault.splits option.splits)

lemma unlink_outside: "outside {p} w (snd (unlink env p w))"
  by (auto simp: outside_def unlink_def perform_io_def split: fault.split)

lemma unlink_Done: "unlink env p w = (Done x, w') \<Longrightarrow> wd_files w' = (wd_files w)(p := None)"
  by (auto simp: unlink_def perform_io_def split: fault.splits)

lemma make_parent_files [simp]: "wd_files (snd (make_parent env w)) = wd_files w"
  by (simp add: make_parent_def perform_io_def split: fault.split)

lemma update_fenced_files [simp]: "wd_files (snd (update_fenced env i st f w)) = wd_files w"
  by (simp add: update_fenced_def perform_io_def Let_def split: fault.split)

lemma unlink_suppressed_outside: "outside {p} w (snd (unlink_suppressed env p w))"
  using unlink_outside [of p w env]
  by (auto simp: unlink_suppressed_def split: prod.split io.split)

lemma cleanup_outside:
  "ci_staging_path i = Some s \<Longrightarrow> outside {s} w (snd (cleanup_staging env i w))"
  using unlink_suppressed_outside [of s w env] by (simp add: cleanup_staging_def staging_of_def)

section \<open>The rollback\<close>

lemma restore_snapshot_Done:
  assumes "restore_snapshot env sfx (p, c) w = (Done x, w')"
  shows "wd_files w' p = c" "outside {p, hidden_name p (''.bridle-rollback-'' @ sfx p)} w w'"
proof -
  let ?t = "hidden_name p (''.bridle-rollback-'' @ sfx p)"
  have "wd_files w' p = c \<and> outside {p, ?t} w w'"
  proof (cases c)
    case None
    with assms have "unlink env p w = (Done x, w')" by (simp add: restore_snapshot_def)
    with None unlink_Done [OF this] show ?thesis by (simp add: outside_def)
  next
    case (Some d)
    obtain w1 where w1: "make_parent env w = (Done (), w1)"
      using assms Some by (auto simp: restore_snapshot_def bind_Done Let_def)
    then have same: "wd_files w1 = wd_files w" using make_parent_files [of env w] by simp
    let ?r = "bind_io (write_new env ?t d w1) (\<lambda>_ w. replace_file env ?t p w)"
    have "(case ?r of (Halted, w) \<Rightarrow> (Halted, w) | (r, w) \<Rightarrow> bind_io (unlink env ?t w) (\<lambda>_ w. (r, w))) = (Done x, w')"
      using assms by (simp only: restore_snapshot_def prod.case option.case Let_def w1 bind_io.simps Some)
    then obtain w3 u where r: "?r = (Done x, w3)" and u: "unlink env ?t w3 = (Done u, w')"
      by (auto simp: bind_Done split: prod.splits io.splits)
    from r obtain w2 y where "write_new env ?t d w1 = (Done y, w2)" and move: "replace_file env ?t p w2 = (Done x, w3)"
      by (auto simp: bind_Done)
    then have "wd_files w2 ?t = Some d" "outside {?t} w1 w2"
      using write_new_Done write_new_outside [of ?t w1 env d] by simp_all
    with replace_Done [OF move] unlink_Done [OF u] same Some show ?thesis by (auto simp: outside_def)
  qed
  then show "wd_files w' p = c" "outside {p, ?t} w w'" by simp_all
qed

lemma restore_snapshots_Done:
  assumes "restore_snapshots env sfx snaps w = (Done x, w')" and "distinct (map fst snaps)"
    and "(\<lambda>p. hidden_name p (''.bridle-rollback-'' @ sfx p)) ` set (map fst snaps) \<inter> set (map fst snaps) = {}"
  shows "(\<forall>(p, c) \<in> set snaps. wd_files w' p = c)
    \<and> outside (set (map fst snaps) \<union> (\<lambda>p. hidden_name p (''.bridle-rollback-'' @ sfx p)) ` set (map fst snaps)) w w'"
  using assms
proof (induction snaps arbitrary: w)
  case (Cons s snaps)
  obtain p c where s: "s = (p, c)" by fastforce
  let ?t = "\<lambda>p. hidden_name p (''.bridle-rollback-'' @ sfx p)"
  from Cons.prems(1) obtain w1 y where first: "restore_snapshot env sfx (p, c) w = (Done y, w1)"
    and rest: "restore_snapshots env sfx snaps w1 = (Done x, w')" by (auto simp: s bind_Done)
  have IH: "(\<forall>(p, c) \<in> set snaps. wd_files w' p = c) \<and> outside (set (map fst snaps) \<union> ?t ` set (map fst snaps)) w1 w'"
    using Cons.prems s by (intro Cons.IH [OF rest]) auto
  have "p \<notin> set (map fst snaps) \<union> ?t ` set (map fst snaps)" using Cons.prems(2,3) s by auto
  with IH have "wd_files w' p = wd_files w1 p" by (auto simp: outside_def)
  with restore_snapshot_Done [OF first] IH show ?case
    by (auto simp: s outside_def)
qed simp

lemma unlink_all_outside: "outside (set ps) w (snd (unlink_all env ps w))"
proof (induction ps arbitrary: w)
  case (Cons p ps)
  have "outside (set (p # ps)) w (snd (unlink_suppressed env p w))"
    using unlink_suppressed_outside by (rule outside_mono) simp
  then show ?case
    unfolding unlink_all.simps
  proof (rule snd_bind)
    fix x w1 assume "outside (set (p # ps)) w w1"
    moreover have "outside (set (p # ps)) w1 (snd (unlink_all env ps w1))"
      by (rule outside_mono [OF Cons.IH]) auto
    ultimately show "outside (set (p # ps)) w (snd (unlink_all env ps w1))" by (rule outside_step)
  qed
qed simp

section \<open>Preparing\<close>

text \<open>
  The rows of a batch stand behind the rows there were before, which change in nothing but the
  mark that a rebase has been superseded.
\<close>

definition forget :: "change_intent \<Rightarrow> change_intent" where
  "forget i = i\<lparr>ci_superseded_by := None\<rparr>"

definition tag :: "change_intent \<Rightarrow> string \<times> string option" where
  "tag i = (ci_message_id i, ci_staging_path i)"

lemma tag_state [simp]: "tag (i\<lparr>ci_state := st\<rparr>) = tag i"
  by (simp add: tag_def)

lemma tag_id: "map tag xs = map tag ys \<Longrightarrow> map ci_message_id xs = map ci_message_id ys"
proof -
  assume "map tag xs = map tag ys"
  then have "map (fst \<circ> tag) xs = map (fst \<circ> tag) ys" by (simp flip: map_map)
  then show ?thesis by (simp add: tag_def comp_def)
qed

definition extends_by :: "change_intent list \<Rightarrow> change_intent list \<Rightarrow> change_intent list \<Rightarrow> bool" where
  "extends_by rows is rows' \<longleftrightarrow> (\<exists>old new. rows' = old @ new \<and> map forget old = map forget rows
     \<and> map tag new = map tag is \<and> distinct (map ci_message_id is)
     \<and> ci_message_id ` set is \<inter> ci_message_id ` set rows = {})"

lemma forget_tag: "map forget xs = map forget ys \<Longrightarrow> map tag xs = map tag ys"
proof -
  assume "map forget xs = map forget ys"
  then have "map tag (map forget xs) = map tag (map forget ys)" by simp
  moreover have "tag \<circ> forget = tag" by (simp add: forget_def tag_def fun_eq_iff)
  ultimately show ?thesis by simp
qed

lemmas forget_id = tag_id [OF forget_tag]

lemma extends_byE:
  assumes "extends_by rows is rows'"
  obtains old new where "rows' = old @ new" "map forget old = map forget rows" "map tag new = map tag is"
    "distinct (map ci_message_id is)" "ci_message_id ` set is \<inter> ci_message_id ` set rows = {}"
  using assms by (auto simp: extends_by_def)

lemma extends_by_refl: "extends_by rows [] rows"
  by (auto simp: extends_by_def)

lemma extends_by_ids:
  assumes "extends_by rows is rows'"
  shows "ci_message_id ` set rows' = ci_message_id ` set rows \<union> ci_message_id ` set is"
proof -
  obtain old new where 1: "rows' = old @ new" "map forget old = map forget rows" "map tag new = map tag is"
    using assms by (rule extends_byE)
  have "ci_message_id ` set old = ci_message_id ` set rows" "ci_message_id ` set new = ci_message_id ` set is"
    using forget_id [OF 1(2), THEN arg_cong [where f = set]] tag_id [OF 1(3), THEN arg_cong [where f = set]] by simp_all
  then show ?thesis by (simp add: 1(1) image_Un)
qed

lemma extends_by_trans:
  assumes "extends_by rows is rows1" and "extends_by rows1 js rows2"
  shows "extends_by rows (is @ js) rows2"
proof -
  from assms(1) obtain old new where 1: "rows1 = old @ new" "map forget old = map forget rows"
    "map tag new = map tag is" "distinct (map ci_message_id is)" "ci_message_id ` set is \<inter> ci_message_id ` set rows = {}"
    by (rule extends_byE)
  from assms(2) obtain old2 new2 where 2: "rows2 = old2 @ new2" "map forget old2 = map forget rows1"
    "map tag new2 = map tag js" "distinct (map ci_message_id js)" "ci_message_id ` set js \<inter> ci_message_id ` set rows1 = {}"
    by (rule extends_byE)
  let ?a = "take (length old) old2" and ?b = "drop (length old) old2"
  have "map forget ?a = take (length old) (map forget old2)" "map forget ?b = drop (length old) (map forget old2)"
    by (simp_all only: take_map drop_map)
  then have "map forget ?a = map forget rows" and "map forget ?b = map forget new"
    unfolding 2(2) 1(1) 1(2) [symmetric] by simp_all
  moreover have "map tag (?b @ new2) = map tag (is @ js)"
    unfolding map_append forget_tag [OF \<open>map forget ?b = map forget new\<close>] 1(3) 2(3) by (rule refl)
  moreover have "rows2 = ?a @ (?b @ new2)" by (simp add: 2(1))
  moreover have "ci_message_id ` set (is @ js) \<inter> ci_message_id ` set rows = {}" "distinct (map ci_message_id (is @ js))"
    using extends_by_ids [OF assms(1)] 1(4,5) 2(4,5) by (simp_all add: image_Un) blast+
  ultimately show ?thesis
    unfolding extends_by_def by (intro exI [of _ ?a] exI [of _ "?b @ new2"]) simp
qed

lemma extends_by_update:
  assumes "extends_by rows is rows1" and "i \<in> set is"
    and "\<And>x. P x \<Longrightarrow> ci_message_id x = ci_message_id i" "\<And>x. tag (f x) = tag x"
  shows "extends_by rows is (update_rows P f rows1)"
proof -
  from assms(1) obtain old new where 1: "rows1 = old @ new" "map forget old = map forget rows"
    "map tag new = map tag is" "distinct (map ci_message_id is)" "ci_message_id ` set is \<inter> ci_message_id ` set rows = {}"
    by (rule extends_byE)
  have same: "ci_message_id ` set old = ci_message_id ` set rows"
    using forget_id [OF 1(2), THEN arg_cong [where f = set]] by simp
  have "\<not> P x" if "x \<in> set old" for x
  proof
    assume "P x"
    then have "ci_message_id x \<in> ci_message_id ` set is" using assms(2,3) by simp
    moreover have "ci_message_id x \<in> ci_message_id ` set rows" using that same by blast
    ultimately show False using 1(5) by blast
  qed
  then have "update_rows P f old = old" by (rule update_rows_none)
  moreover have "map tag (update_rows P f new) = map tag is"
    using assms(4) 1(3) by (simp add: map_update_rows)
  ultimately show ?thesis
    using 1(2,4,5) unfolding extends_by_def
    by (intro exI [of _ old] exI [of _ "update_rows P f new"]) (simp add: 1(1))
qed

lemma extends_by_discard:
  assumes "extends_by rows is rows1"
  shows "map forget (filter (\<lambda>x. ci_message_id x \<notin> ci_message_id ` set is) rows1) = map forget rows"
proof -
  from assms obtain old new where 1: "rows1 = old @ new" "map forget old = map forget rows"
    "map tag new = map tag is" "distinct (map ci_message_id is)" "ci_message_id ` set is \<inter> ci_message_id ` set rows = {}"
    by (rule extends_byE)
  have "ci_message_id ` set old = ci_message_id ` set rows" "ci_message_id ` set new = ci_message_id ` set is"
    using forget_id [OF 1(2), THEN arg_cong [where f = set]] tag_id [OF 1(3), THEN arg_cong [where f = set]] by simp_all
  then have "filter (\<lambda>x. ci_message_id x \<notin> ci_message_id ` set is) old = old"
    "filter (\<lambda>x. ci_message_id x \<notin> ci_message_id ` set is) new = []"
    using 1(5) by (auto simp: filter_id_conv filter_empty_conv)
  with 1 show ?thesis by simp
qed

lemma extends_by_staging:
  assumes "extends_by rows is (wd_intents w)" and "i \<in> set is" and "get_intent w (ci_message_id i) = Some x"
  shows "ci_staging_path x = ci_staging_path i"
proof -
  from assms(1) obtain old new where 1: "wd_intents w = old @ new" "map forget old = map forget rows"
    "map tag new = map tag is" "distinct (map ci_message_id is)" "ci_message_id ` set is \<inter> ci_message_id ` set rows = {}"
    by (rule extends_byE)
  have "ci_message_id ` set old = ci_message_id ` set rows"
    using forget_id [OF 1(2), THEN arg_cong [where f = set]] by simp
  with assms(2) 1(5) have "ci_message_id i \<notin> ci_message_id ` set old" by blast
  moreover have x: "x \<in> set old \<or> x \<in> set new" "ci_message_id x = ci_message_id i"
    using get_intent_in [OF assms(3)] get_intent_id [OF assms(3)] by (simp_all add: 1(1))
  ultimately have "x \<in> set new" by (metis imageI)
  then have "tag x \<in> set (map tag is)" using 1(3) [symmetric] by simp
  then obtain j where j: "j \<in> set is" "tag x = tag j" by auto
  then have "ci_message_id j = ci_message_id i" using x by (simp add: tag_def)
  then have "j = i" using 1(4) j(1) assms(2) by (simp add: distinct_map inj_on_def)
  with j show ?thesis by (simp add: tag_def)
qed

lemma insert_reserved_extends:
  assumes "insert_reserved new ox w = (r, w')"
  shows "wd_files w' = wd_files w"
    "r = Done (Reserved i) \<Longrightarrow> extends_by (wd_intents w) [i] (wd_intents w')"
    "(\<And>i. r \<noteq> Done (Reserved i)) \<Longrightarrow> wd_intents w' = wd_intents w"
    "r = Done (Reserved i) \<Longrightarrow> ci_staging_path i = ci_staging_path new"
proof -
  have sup: "map forget (supersede m b xs) = map forget xs" for m b xs
    unfolding supersede_def by (intro map_update_rows) (simp add: forget_def)
  have fresh: "ci_message_id new \<notin> ci_message_id ` set (wd_intents w)" if "get_intent w (ci_message_id new) = None"
    using that by (auto simp: get_intent_def find_None_iff)
  have ext: "extends_by (wd_intents w) [i] (rows @ [i])"
    if "map forget rows = map forget (wd_intents w)" "ci_message_id i \<notin> ci_message_id ` set (wd_intents w)" for rows i
    unfolding extends_by_def using that by (intro exI [of _ rows] exI [of _ "[i]"]) simp
  show "wd_files w' = wd_files w"
    using assms by (auto simp: insert_reserved_def Let_def split: if_splits)
  show "extends_by (wd_intents w) [i] (wd_intents w')" if "r = Done (Reserved i)"
    using assms that fresh sup
    by (auto simp: insert_reserved_def Let_def split: if_splits option.splits intro!: ext)
  show "wd_intents w' = wd_intents w" if "\<And>i. r \<noteq> Done (Reserved i)"
    using assms that by (auto simp: insert_reserved_def Let_def split: if_splits)
  show "ci_staging_path i = ci_staging_path new" if "r = Done (Reserved i)"
    using assms that by (auto simp: insert_reserved_def Let_def split: if_splits)
qed

lemma reserve_extends:
  assumes "reserve env ox m p q kind before after staging corr w = (r, w')"
  shows "wd_files w' = wd_files w"
    "r = Done (Reserved i) \<Longrightarrow> extends_by (wd_intents w) [i] (wd_intents w')"
    "(\<And>i. r \<noteq> Done (Reserved i)) \<Longrightarrow> wd_intents w' = wd_intents w"
    "r = Done (Reserved i) \<Longrightarrow> ci_staging_path i = staging"
  using assms insert_reserved_extends [where w = "next_tick w" and w' = w' and r = r and ox = ox, simplified]
  by (auto simp: reserve_def Let_def split: sum.splits fault.splits option.splits)

text \<open>
  Preparing changes no file that exists, writes only the staging files, and adds the rows it
  reports.
\<close>

definition only_adds :: "world \<Rightarrow> world \<Rightarrow> bool" where
  "only_adds w w' \<longleftrightarrow> (\<forall>p. wd_files w p \<noteq> None \<longrightarrow> wd_files w' p = wd_files w p)"

lemma only_adds_refl: "wd_files w' = wd_files w \<Longrightarrow> only_adds w w'"
  by (simp add: only_adds_def)

lemma only_adds_trans: "only_adds w w1 \<Longrightarrow> only_adds w1 w2 \<Longrightarrow> only_adds w w2"
  by (auto simp: only_adds_def)

lemma write_new_adds: "only_adds w (snd (write_new env p t w))"
  by (auto simp: only_adds_def write_new_def perform_io_def split: fault.split)

lemma write_new_rows [simp]: "wd_intents (snd (write_new env p t w)) = wd_intents w"
  by (auto simp: write_new_def perform_io_def split: fault.split)

lemma make_parent_rows [simp]: "wd_intents (snd (make_parent env w)) = wd_intents w"
  by (simp add: make_parent_def perform_io_def split: fault.split)

lemma update_fenced_extends:
  assumes "extends_by rows is (wd_intents w)" and "ci_message_id i \<in> ci_message_id ` set is" and "\<And>x. tag (f x) = tag x"
  shows "extends_by rows is (wd_intents (snd (update_fenced env i st f w)))"
proof -
  from assms(2) obtain j where "j \<in> set is" "ci_message_id i = ci_message_id j" by blast
  then show ?thesis
    using assms(1) extends_by_update [OF assms(1), of j "fenced i st" f] assms(3)
    by (auto simp: update_fenced_def perform_io_def fenced_def Let_def split: fault.split)
qed

definition prepared_ok :: "(nat \<Rightarrow> string \<times> string) \<Rightarrow> checked_change list \<Rightarrow> prepared list \<Rightarrow> world \<Rightarrow> bool" where
  "prepared_ok ids ks ps w \<longleftrightarrow> map fst ps = ks \<and> map (\<lambda>p. fst (snd p)) ps = staging_names ids ks
     \<and> (\<forall>(k, s, i) \<in> set ps. written_text k \<noteq> None \<longrightarrow> wd_files w s = written_text k)"

definition stages :: "string set \<Rightarrow> world \<Rightarrow> change_intent list \<Rightarrow> world \<Rightarrow> bool" where
  "stages S w is w' \<longleftrightarrow> outside S w w' \<and> only_adds w w' \<and> extends_by (wd_intents w) is (wd_intents w')
     \<and> (\<forall>i \<in> set is. \<exists>s \<in> S. ci_staging_path i = Some s)"

lemma stages_trans: "stages S w is w1 \<Longrightarrow> stages T w1 js w2 \<Longrightarrow> stages (S \<union> T) w (is @ js) w2"
  unfolding stages_def using outside_trans [of S w w1 T w2] only_adds_trans [of w w1 w2]
    extends_by_trans [of "wd_intents w" "is" "wd_intents w1" js "wd_intents w2"] by auto

lemma stages_refl: "wd_files w' = wd_files w \<Longrightarrow> wd_intents w' = wd_intents w \<Longrightarrow> stages S w [] w'"
  by (simp add: stages_def outside_def only_adds_refl extends_by_refl)

lemma prepare_change_stages:
  assumes "prepare_change env ox sha corr ms k w = (r, w', is)"
  shows "stages {staging_name k (snd ms)} w is w'"
    "r = Done p \<Longrightarrow> fst p = k \<and> fst (snd p) = staging_name k (snd ms)
       \<and> (written_text k \<noteq> None \<longrightarrow> wd_files w' (staging_name k (snd ms)) = written_text k)
       \<and> (\<exists>i. is = [i] \<and> ci_message_id (snd (snd p)) = ci_message_id i
         \<and> ci_staging_path i = Some (fst (snd p)))"
proof -
  let ?s = "staging_name k (snd ms)"
  let ?before = "file_digest sha w (case kc_old_path k of None \<Rightarrow> kc_path k | Some q \<Rightarrow> q)"
  let ?after = "case written_text k of None \<Rightarrow> ''missing:'' | Some t \<Rightarrow> text_digest sha t"
  let ?stage = "\<lambda>i w. bind_io (make_parent env w) (\<lambda>_ w.
      bind_io (case written_text k of None \<Rightarrow> (Done (), w) | Some t \<Rightarrow> write_new env ?s t w) (\<lambda>_ w.
      bind_io (mark_committing env i w) (\<lambda>committing w.
      case committing of None \<Rightarrow> (Raised (Outbox_Error ''outbox_fence_lost''), w)
      | Some c \<Rightarrow> (Done (k, ?s, c), w))))"
  obtain rr w1 where res: "reserve env ox (fst ms) (kc_path k) (kc_old_path k) (kc_change_type k) ?before ?after (Some ?s) corr w = (rr, w1)"
    by fastforce
  have unfolded: "prepare_change env ox sha corr ms k w =
      (case (rr, w1) of
         (Halted, w) \<Rightarrow> (Halted, w, []) | (Raised e, w) \<Rightarrow> (Raised e, w, [])
       | (Done (Reserved i), w) \<Rightarrow> (case ?stage i w of (r, w) \<Rightarrow> (r, w, [i]))
       | (Done (Refused _ code), w) \<Rightarrow> (Raised (Outbox_Error code), w, [])
       | (Done _, w) \<Rightarrow> (Raised (Outbox_Error ''candidate_publish_failed''), w, []))"
    unfolding res [symmetric] prepare_change_def staging_name_def written_text_def Let_def by (rule refl)
  have goal: "stages {?s} w is w' \<and> (\<forall>p. r = Done p \<longrightarrow> fst p = k \<and> fst (snd p) = ?s
       \<and> (written_text k \<noteq> None \<longrightarrow> wd_files w' ?s = written_text k)
       \<and> (\<exists>i. is = [i] \<and> ci_message_id (snd (snd p)) = ci_message_id i
         \<and> ci_staging_path i = Some (fst (snd p))))"
  proof (cases "\<exists>i. rr = Done (Reserved i)")
    case False
    then have "w' = w1" "is = []" "\<And>p. r \<noteq> Done p"
      using assms unfolded by (auto split: io.splits outbox_reply.splits)
    with reserve_extends [OF res] False show ?thesis by (simp add: stages_refl)
  next
    case True
    then obtain i where i: "rr = Done (Reserved i)" ..
    then have st: "?stage i w1 = (r, w')" and "is = [i]"
      using assms unfolded by (auto split: prod.splits)
    have start: "stages {?s} w [i] w1"
      using reserve_extends [OF res] i by (simp add: stages_def outside_def only_adds_refl)
    let ?J = "stages {?s} w [i]"
    let ?staged = "\<lambda>w2. ?J w2 \<and> (written_text k \<noteq> None \<longrightarrow> wd_files w2 ?s = written_text k)"
    have parent: "ends (\<lambda>_. ?J) ?J (make_parent env w1)"
      using start make_parent_files [of env w1] make_parent_rows [of env w1]
      by (simp add: ends_snd stages_def outside_def only_adds_def)
    have wrote: "ends (\<lambda>_. ?staged) ?J (case written_text k of None \<Rightarrow> (Done (), w2) | Some t \<Rightarrow> write_new env ?s t w2)"
      if J: "?J w2" for w2
    proof (cases "written_text k")
      case (Some t)
      have "?J (snd (write_new env ?s t w2))"
        using J write_new_outside [of ?s w2 env t] write_new_adds [of w2 env ?s t]
        by (auto simp: stages_def intro: outside_step only_adds_trans)
      then show ?thesis using Some write_new_Done by (auto intro!: ends_cases)
    qed (use J in simp)
    have mark: "ends (\<lambda>c w3. ?staged w3 \<and> (\<forall>x. c = Some x \<longrightarrow> ci_message_id x = ci_message_id i)) ?J (mark_committing env i w2)"
      if J: "?staged w2" for w2
    proof -
      have "?J (snd (mark_committing env i w2))"
        using J update_fenced_extends [of "wd_intents w" "[i]" w2 i "\<lambda>x. x\<lparr>ci_state := COMMITTING\<rparr>" env RESERVED]
        by (auto simp: stages_def outside_def only_adds_def mark_committing_def transition_intent_def)
      moreover have "wd_files (snd (mark_committing env i w2)) = wd_files w2"
        by (simp add: mark_committing_def transition_intent_def)
      moreover have "ci_message_id x = mid" if "mid = ci_message_id i" "mark_committing env i w2 = (Done (Some x), w3)" for x w3 mid
        using that by (auto simp: mark_committing_def transition_intent_def update_fenced_def perform_io_def Let_def
            split: fault.splits if_splits dest!: get_intent_id)
      moreover obtain r3 w3 where "mark_committing env i w2 = (r3, w3)" by fastforce
      moreover obtain mid where mid: "mid = ci_message_id i" by simp
      ultimately show ?thesis using J unfolding mid [symmetric] by (cases r3) auto
    qed
    have "ends (\<lambda>p w3. ?staged w3 \<and> fst p = k \<and> fst (snd p) = ?s \<and> ci_message_id (snd (snd p)) = ci_message_id i) ?J
        (?stage i w1)"
    proof (rule ends_bind [OF parent], rule ends_bind [OF wrote], assumption, rule ends_bind [OF mark], assumption, goal_cases)
      case (1 _ _ _ _ c _)
      then show ?case by (cases c) auto
    qed
    with st \<open>is = [i]\<close> reserve_extends(4) [OF res i] show ?thesis by (cases r) auto
  qed
  then show "stages {?s} w is w'" by (rule conjunct1)
  show "fst p = k \<and> fst (snd p) = ?s
       \<and> (written_text k \<noteq> None \<longrightarrow> wd_files w' ?s = written_text k)
       \<and> (\<exists>i. is = [i] \<and> ci_message_id (snd (snd p)) = ci_message_id i
         \<and> ci_staging_path i = Some (fst (snd p)))" if "r = Done p"
    by (rule goal [THEN conjunct2, rule_format, OF that])
qed

lemma prepare_changes_stages:
  "prepare_changes env ox sha corr ids ks w = (r, w', is) \<Longrightarrow>
   stages (set (staging_names ids ks)) w is w' \<and>
   (\<forall>ps. r = Done ps \<longrightarrow> prepared_ok ids ks ps w' \<and>
      map (\<lambda>p. (ci_message_id (snd (snd p)), Some (fst (snd p)))) ps = map tag is)"
proof (induction ks arbitrary: ids w r w' "is")
  case Nil
  then show ?case by (auto simp: prepared_ok_def stages_refl)
next
  case (Cons k ks)
  obtain r1 w1 is1 where first: "prepare_change env ox sha corr (ids 0) k w = (r1, w1, is1)"
    using prod_cases3 by blast
  note one = prepare_change_stages [OF first]
  show ?case
  proof (cases r1)
    case (Done p)
    obtain r2 w2 is2 where rest: "prepare_changes env ox sha corr (ids \<circ> Suc) ks w1 = (r2, w2, is2)"
      using prod_cases3 by blast
    note IH = Cons.IH [OF rest]
    have out: "w' = w2" "is = is1 @ is2" "r = Done ps \<Longrightarrow> \<exists>qs. r2 = Done qs \<and> ps = p # qs" for ps
      using Cons.prems Done first rest by (cases r2; simp)+
    have "stages (set (staging_names ids (k # ks))) w is w'"
      using stages_trans [OF one(1) conjunct1 [OF IH]] by (simp add: out(1,2) comp_def)
    moreover have "prepared_ok ids (k # ks) ps w' \<and>
        map (\<lambda>p. (ci_message_id (snd (snd p)), Some (fst (snd p)))) ps = map tag is" if "r = Done ps" for ps
    proof -
      from out(3) [OF that] obtain qs where qs: "r2 = Done qs" "ps = p # qs" by blast
      from one(2) [OF Done] obtain i where p: "fst p = k" "fst (snd p) = staging_name k (snd (ids 0))"
        "written_text k \<noteq> None \<longrightarrow> wd_files w1 (staging_name k (snd (ids 0))) = written_text k"
        "is1 = [i]" "ci_message_id (snd (snd p)) = ci_message_id i" "ci_staging_path i = Some (fst (snd p))" by blast
      have "only_adds w1 w2" using IH by (simp add: stages_def)
      with p(3) have "written_text k \<noteq> None \<longrightarrow> wd_files w2 (staging_name k (snd (ids 0))) = written_text k"
        by (auto simp: only_adds_def)
      with p IH qs show ?thesis by (auto simp: prepared_ok_def out tag_def comp_def)
    qed
    ultimately show ?thesis by blast
  next
    case (Raised e)
    with Cons.prems first have "w' = w1" "is = is1" "\<And>ps. r \<noteq> Done ps" by auto
    with one(1) show ?thesis by (auto simp: stages_def outside_def)
  next
    case Halted
    with Cons.prems first have "w' = w1" "is = is1" "\<And>ps. r \<noteq> Done ps" by auto
    with one(1) show ?thesis by (auto simp: stages_def outside_def)
  qed
qed

section \<open>Publishing\<close>

lemma apply_change_cong: "fs p = gs p \<Longrightarrow> apply_change k fs p = apply_change k gs p"
  by (simp add: apply_change_def Let_def split: option.split)

lemma fold_apply_cong: "fs p = gs p \<Longrightarrow> fold apply_change ks fs p = fold apply_change ks gs p"
proof (induction ks arbitrary: fs gs)
  case (Cons k ks)
  show ?case unfolding fold_simps by (rule Cons.IH, rule apply_change_cong, rule Cons.prems)
qed simp

lemma publish_change_outside:
  "outside ({s} \<union> set (change_paths k)) w (snd (publish_change env (k, s, i) w))"
proof -
  have step: "outside ({s} \<union> set (change_paths k)) w (snd (replace_file env a b w))"
    if "{a, b} \<subseteq> {s} \<union> set (change_paths k)" for a b w
    by (rule outside_mono [OF replace_outside that])
  have drop: "outside ({s} \<union> set (change_paths k)) w (snd (unlink env q w))" if "kc_old_path k = Some q" for q w
    by (rule outside_mono [OF unlink_outside]) (simp add: change_paths_def that)
  show ?thesis
  proof (cases "kc_change_type k = Remove")
    case True
    then show ?thesis using step [of "kc_path k" s w] by (auto simp: publish_change_def change_paths_def)
  next
    case False
    have "outside ({s} \<union> set (change_paths k)) w (snd (bind_io (replace_file env s (kc_path k) w) (\<lambda>_ w.
          case kc_old_path k of None \<Rightarrow> (Done (), w) | Some q \<Rightarrow> unlink env q w)))"
    proof (rule snd_bind)
      show "outside ({s} \<union> set (change_paths k)) w (snd (replace_file env s (kc_path k) w))"
        by (rule step) (simp add: change_paths_def)
      fix x w1 assume "outside ({s} \<union> set (change_paths k)) w w1"
      then show "outside ({s} \<union> set (change_paths k)) w
          (snd (case kc_old_path k of None \<Rightarrow> (Done (), w1) | Some q \<Rightarrow> unlink env q w1))"
        using drop by (auto split: option.split intro: outside_step)
    qed
    with False show ?thesis by (simp add: publish_change_def)
  qed
qed

lemma publish_change_Done:
  assumes "publish_change env (k, s, i) w = (Done x, w')" and "p \<noteq> s"
    and "s \<notin> set (change_paths k)" "written_text k \<noteq> None \<longrightarrow> wd_files w s = written_text k"
    and "kc_change_type k \<noteq> Remove \<longrightarrow> kc_new_text k \<noteq> None"
  shows "wd_files w' p = apply_change k (wd_files w) p"
proof (cases "kc_change_type k = Remove")
  case True
  with assms show ?thesis
    by (auto simp: publish_change_def apply_change_def written_text_def change_paths_def split: if_splits dest!: replace_Done)
next
  case False
  then obtain w1 where "replace_file env s (kc_path k) w = (Done (), w1)"
    and last: "(case kc_old_path k of None \<Rightarrow> (Done (), w1) | Some q \<Rightarrow> unlink env q w1) = (Done x, w')"
    using assms(1) by (auto simp: publish_change_def bind_Done)
  then have "wd_files w1 = ((wd_files w)(s := None))(kc_path k := wd_files w s)" using replace_Done by blast
  moreover have "wd_files w s = written_text k" using assms(4,5) False by (simp add: written_text_def)
  ultimately have w1: "wd_files w1 p = ((wd_files w)(kc_path k := written_text k)) p" using assms(2,3) by simp
  show ?thesis
  proof (cases "kc_old_path k")
    case None
    with last w1 False show ?thesis by (simp add: apply_change_def)
  next
    case (Some q)
    with last have "wd_files w' = (wd_files w1)(q := None)" using unlink_Done by simp
    with w1 Some False show ?thesis by (simp add: apply_change_def)
  qed
qed

lemma publish_changes_outside:
  "outside (\<Union>(k, s, i) \<in> set ps. {s} \<union> set (change_paths k)) w (snd (publish_changes env ps w))"
proof (induction ps arbitrary: w)
  case (Cons p ps)
  obtain k s i where p: "p = (k, s, i)" using prod_cases3 by blast
  let ?S = "\<Union>(k, s, i) \<in> set (p # ps). {s} \<union> set (change_paths k)"
  have "outside ?S w (snd (publish_change env p w))"
    unfolding p by (rule outside_mono [OF publish_change_outside]) auto
  then show ?case
    unfolding publish_changes.simps
  proof (rule snd_bind)
    fix x w1 assume "outside ?S w w1"
    moreover have "outside ?S w1 (snd (publish_changes env ps w1))" by (rule outside_mono [OF Cons.IH]) auto
    ultimately show "outside ?S w (snd (publish_changes env ps w1))" by (rule outside_step)
  qed
qed simp

lemma publish_changes_Done:
  assumes "publish_changes env ps w = (Done x, w')" and "p \<notin> (\<lambda>p. fst (snd p)) ` set ps"
    and "distinct (map (\<lambda>p. fst (snd p)) ps)"
    and "\<And>k s i j t l. (k, s, i) \<in> set ps \<Longrightarrow> (j, t, l) \<in> set ps \<Longrightarrow> s \<notin> set (change_paths j)"
    and "\<And>k s i. (k, s, i) \<in> set ps \<Longrightarrow> written_text k \<noteq> None \<longrightarrow> wd_files w s = written_text k"
    and "\<And>k s i. (k, s, i) \<in> set ps \<Longrightarrow> kc_change_type k \<noteq> Remove \<longrightarrow> kc_new_text k \<noteq> None"
  shows "wd_files w' p = fold apply_change (map fst ps) (wd_files w) p"
  using assms
proof (induction ps arbitrary: w)
  case (Cons q ps)
  obtain k s i where q: "q = (k, s, i)" using prod_cases3 by blast
  from Cons.prems(1) obtain w1 where first: "publish_change env (k, s, i) w = (Done (), w1)"
    and rest: "publish_changes env ps w1 = (Done x, w')" by (auto simp: q bind_Done)
  have keep: "wd_files w1 t = wd_files w t" if "(j, t, l) \<in> set ps" for j t l
  proof -
    have "t \<noteq> s" using Cons.prems(3) that by (auto simp: q image_iff)
    moreover have "t \<notin> set (change_paths k)"
      using Cons.prems(4) [of j t l k s i] that by (simp add: q)
    moreover have "outside ({s} \<union> set (change_paths k)) w w1"
      using publish_change_outside [of s k w env i] first by simp
    ultimately show ?thesis by (simp add: outside_def)
  qed
  have "wd_files w' p = fold apply_change (map fst ps) (wd_files w1) p"
  proof (rule Cons.IH [OF rest])
    show "written_text j \<noteq> None \<longrightarrow> wd_files w1 t = written_text j" if "(j, t, l) \<in> set ps" for j t l
      using keep [OF that] Cons.prems(5) [of j t l] that by simp
    show "t \<notin> set (change_paths j')" if "(j, t, l) \<in> set ps" "(j', t', l') \<in> set ps" for j t l j' t' l'
      using Cons.prems(4) [of j t l j' t' l'] that by simp
    show "kc_change_type j \<noteq> Remove \<longrightarrow> kc_new_text j \<noteq> None" if "(j, t, l) \<in> set ps" for j t l
      using Cons.prems(6) [of j t l] that by simp
  qed (use Cons.prems(2,3) in auto)
  also have "\<dots> = fold apply_change (map fst ps) (apply_change k (wd_files w)) p"
  proof (rule fold_apply_cong, rule publish_change_Done [OF first])
    show "p \<noteq> s" using Cons.prems(2) by (simp add: q)
    show "s \<notin> set (change_paths k)" using Cons.prems(4) [of k s i k s i] by (simp add: q)
  qed (use Cons.prems(5,6) [of k s i] in \<open>simp_all add: q\<close>)
  finally show ?case by (simp add: q)
qed simp

section \<open>Finishing\<close>

lemma extends_by_unique:
  assumes "extends_by rows is rows'" and "x \<in> set rows'" "y \<in> set rows'"
    and "ci_message_id x = ci_message_id y" "ci_message_id x \<in> ci_message_id ` set is"
  shows "x = y"
proof -
  from assms(1) obtain old new where 1: "rows' = old @ new" "map forget old = map forget rows"
    "map tag new = map tag is" "distinct (map ci_message_id is)" "ci_message_id ` set is \<inter> ci_message_id ` set rows = {}"
    by (rule extends_byE)
  have "ci_message_id ` set old = ci_message_id ` set rows"
    using forget_id [OF 1(2), THEN arg_cong [where f = set]] by simp
  then have "z \<notin> set old" if "ci_message_id z \<in> ci_message_id ` set is" for z using that 1(5) by blast
  with assms(2-5) 1(1) have "x \<in> set new" "y \<in> set new" by auto
  moreover have "distinct (map ci_message_id new)" using tag_id [OF 1(3)] 1(4) by simp
  ultimately show ?thesis using assms(4) by (auto simp: distinct_map inj_on_def)
qed

lemma mark_ready_Done:
  assumes "extends_by rows is (wd_intents w)" and "ci_message_id i \<in> ci_message_id ` set is"
    and mark: "mark_ready env i w = (Done (Some r), w')"
  shows "ci_state r = READY" "r \<in> set (wd_intents w')"
    "x \<in> set (wd_intents w) \<Longrightarrow> ci_state x = READY \<Longrightarrow> x \<in> set (wd_intents w')"
proof -
  let ?f = "\<lambda>x. x\<lparr>ci_state := READY\<rparr>"
  from mark have w': "w' = fence_update i COMMITTING ?f w" and one: "rowcount (fenced i COMMITTING) (wd_intents w) = 1"
    and got: "get_intent w' (ci_message_id i) = Some r"
    by (auto simp: mark_ready_def transition_intent_def update_fenced_def perform_io_def fence_update_def Let_def
        split: fault.splits if_splits)
  from one obtain x0 where x0: "x0 \<in> set (wd_intents w)" "fenced i COMMITTING x0"
    using rowcount_eq_0 [of "fenced i COMMITTING" "wd_intents w"] by auto
  have ext: "extends_by rows is (wd_intents w')"
    using update_fenced_extends [OF assms(1,2), of ?f env COMMITTING] mark
    by (simp add: mark_ready_def transition_intent_def)
  have there: "?f x0 \<in> set (wd_intents w')"
    using x0 by (auto simp: w' fence_update_def in_update_rows)
  show in_rows: "r \<in> set (wd_intents w')" using got by (rule get_intent_in)
  have "r = ?f x0"
    by (rule extends_by_unique [OF ext in_rows there])
       (use get_intent_id [OF got] x0(2) assms(2) in \<open>auto simp: fenced_def\<close>)
  then show "ci_state r = READY" by simp
  show "x \<in> set (wd_intents w')" if "x \<in> set (wd_intents w)" "ci_state x = READY" for x
    using that by (auto simp: w' fence_update_def in_update_rows fenced_def intro!: bexI [of _ x])
qed

lemma cleanup_rows [simp]: "wd_intents (snd (cleanup_staging env i w)) = wd_intents w"
  by (auto simp: cleanup_staging_def unlink_suppressed_def unlink_def perform_io_def split: option.split fault.split)

lemma finish_changes_ends:
  assumes "extends_by rows is (wd_intents w)"
    and "\<And>k s i. (k, s, i) \<in> set ps \<Longrightarrow> \<exists>j \<in> set is. ci_message_id j = ci_message_id i \<and> ci_staging_path j = Some s"
  shows "ends (\<lambda>rs w'. outside ((\<lambda>p. fst (snd p)) ` set ps) w w' \<and> extends_by rows is (wd_intents w')
        \<and> length rs = length ps \<and> (\<forall>r \<in> set rs. ci_state r = READY \<and> r \<in> set (wd_intents w'))
        \<and> (\<forall>x \<in> set (wd_intents w). ci_state x = READY \<longrightarrow> x \<in> set (wd_intents w')))
      (\<lambda>w'. outside ((\<lambda>p. fst (snd p)) ` set ps) w w' \<and> extends_by rows is (wd_intents w'))
      (finish_changes env ps w)"
  using assms
proof (induction ps arbitrary: w)
  case (Cons q ps)
  obtain k s i where q: "q = (k, s, i)" using prod_cases3 by blast
  obtain j where j: "j \<in> set is" "ci_message_id j = ci_message_id i" "ci_staging_path j = Some s"
    using Cons.prems(2) [of k s i] q by auto
  then have member: "ci_message_id i \<in> ci_message_id ` set is" by (metis imageI)
  let ?S = "(\<lambda>p. fst (snd p)) ` set (q # ps)"
  let ?crash = "\<lambda>w'. outside ?S w w' \<and> extends_by rows is (wd_intents w')"
  let ?keeps = "\<lambda>w'. \<forall>x \<in> set (wd_intents w). ci_state x = READY \<longrightarrow> x \<in> set (wd_intents w')"
  let ?marked = "\<lambda>r w'. ?crash w' \<and> (\<forall>x. r = Some x \<longrightarrow> ci_state x = READY \<and> x \<in> set (wd_intents w')
      \<and> ci_staging_path x = Some s \<and> ?keeps w')"
  have mark: "ends ?marked ?crash (mark_ready env i w)"
  proof -
    have files: "wd_files (snd (mark_ready env i w)) = wd_files w"
      by (simp add: mark_ready_def transition_intent_def)
    have rows: "extends_by rows is (wd_intents (snd (mark_ready env i w)))"
      unfolding mark_ready_def transition_intent_def
      by (rule update_fenced_extends [OF Cons.prems(1) member]) simp
    show ?thesis
    proof (rule ends_cases, goal_cases)
      case (1 r w')
      with files rows have crash: "?crash w'" by (simp add: outside_def)
      have "ci_staging_path x = Some s" if "r = Some x" for x
      proof -
        have "get_intent w' (ci_message_id j) = Some x"
          using 1 that j(2) by (auto simp: mark_ready_def transition_intent_def update_fenced_def perform_io_def Let_def
            split: fault.splits if_splits)
        with extends_by_staging [of rows "is" w' j x] crash j show ?thesis by simp
      qed
      with crash mark_ready_Done [OF Cons.prems(1) member] 1 show ?case by blast
    qed (use files rows in \<open>simp_all add: outside_def\<close>)
  qed
  have clean: "ends (\<lambda>_ w'. ?marked (Some x) w') ?crash (cleanup_staging env x w1)" if "?marked (Some x) w1" for x w1
  proof -
    have "outside {s} w1 (snd (cleanup_staging env x w1))" using that by (intro cleanup_outside) simp
    then have "?marked (Some x) (snd (cleanup_staging env x w1))"
      using that by (auto simp: q outside_def)
    moreover obtain r2 w2 where run: "cleanup_staging env x w1 = (r2, w2)" by fastforce
    moreover from run have "wd_intents w2 = wd_intents w1" using cleanup_rows [of env x w1] by simp
    ultimately show ?thesis by (cases r2) simp_all
  qed
  let ?goal = "\<lambda>rs w'. ?crash w' \<and> length rs = length (q # ps)
      \<and> (\<forall>r \<in> set rs. ci_state r = READY \<and> r \<in> set (wd_intents w')) \<and> ?keeps w'"
  have rest: "ends ?goal ?crash (bind_io (finish_changes env ps w1) (\<lambda>rs w. (Done (x # rs), w)))"
    if marked: "?marked (Some x) w1" for x w1
  proof (rule ends_bind)
    show "ends (\<lambda>rs w'. outside ((\<lambda>p. fst (snd p)) ` set ps) w1 w' \<and> extends_by rows is (wd_intents w')
          \<and> length rs = length ps \<and> (\<forall>r \<in> set rs. ci_state r = READY \<and> r \<in> set (wd_intents w'))
          \<and> (\<forall>x \<in> set (wd_intents w1). ci_state x = READY \<longrightarrow> x \<in> set (wd_intents w'))) ?crash
        (finish_changes env ps w1)"
    proof (rule ends_weaken [OF Cons.IH])
      show "extends_by rows is (wd_intents w1)" using marked by blast
      show "?crash w'" if "outside ((\<lambda>p. fst (snd p)) ` set ps) w1 w' \<and> extends_by rows is (wd_intents w')" for w'
        using marked that by (simp add: outside_def)
    qed (use Cons.prems(2) in auto)
    fix rs w' assume "outside ((\<lambda>p. fst (snd p)) ` set ps) w1 w' \<and> extends_by rows is (wd_intents w')
          \<and> length rs = length ps \<and> (\<forall>r \<in> set rs. ci_state r = READY \<and> r \<in> set (wd_intents w'))
          \<and> (\<forall>x \<in> set (wd_intents w1). ci_state x = READY \<longrightarrow> x \<in> set (wd_intents w'))"
    then show "ends ?goal ?crash (Done (x # rs), w')" using marked by (auto simp: outside_def)
  qed
  show ?case
    unfolding q finish_changes.simps
  proof (fold q, rule ends_bind [OF mark], goal_cases)
    case (1 r w1)
    show ?case
    proof (cases r)
      case None
      with 1 show ?thesis by simp
    next
      case (Some x)
      with 1 have "?marked (Some x) w1" by simp
      from ends_bind [OF clean [OF this] rest] Some show ?thesis by simp
    qed
  qed
qed (simp add: assms)

section \<open>The whole batch\<close>

lemma check_changes_text:
  "check_changes aff cs = Inr ks \<Longrightarrow> k \<in> set ks \<Longrightarrow> kc_change_type k \<noteq> Remove \<longrightarrow> kc_new_text k \<noteq> None"
proof (induction cs arbitrary: aff ks)
  case (Cons c cs)
  have one: "kc_change_type k \<noteq> Remove \<longrightarrow> kc_new_text k \<noteq> None" if "check_change aff c = Inr k" for k
    using that by (auto simp: check_change_def split: option.splits sum.splits if_splits)
  from Cons show ?case using one by (auto split: sum.splits)
qed simp

lemma publish_rows [simp]: "wd_intents (snd (publish_changes env ps w)) = wd_intents w"
proof -
  have one: "wd_intents (snd (publish_change env p w)) = wd_intents w" for p w
    by (auto simp: publish_change_def replace_file_def unlink_def perform_io_def split: prod.split option.split fault.split)
  show ?thesis
  proof (induction ps arbitrary: w)
    case (Cons p ps)
    show ?case unfolding publish_changes.simps by (rule snd_bind) (use one Cons.IH in simp_all)
  qed simp
qed

lemma batch_ends:
  assumes prep: "prepare_changes env ox sha corr ids ks w = (prep, w1, is)"
    and fresh: "fresh_names ids sfx ks"
    and texts: "\<And>k. k \<in> set ks \<Longrightarrow> kc_change_type k \<noteq> Remove \<longrightarrow> kc_new_text k \<noteq> None"
  shows "ends (\<lambda>rs w'. (\<forall>p. p \<notin> hidden ids sfx ks \<longrightarrow> wd_files w' p = fold apply_change ks (wd_files w) p)
        \<and> length rs = length ks \<and> (\<forall>r \<in> set rs. ci_state r = READY \<and> r \<in> set (wd_intents w')))
      (\<lambda>w'. outside (hidden ids sfx ks \<union> affected ks) w w' \<and> extends_by (wd_intents w) is (wd_intents w'))
      (bind_io (prep, w1) (\<lambda>ps w. bind_io (publish_changes env ps w) (\<lambda>_ w. finish_changes env ps w)))"
    (is "ends ?good ?bad _")
proof -
  from prepare_changes_stages [OF prep] have staged: "stages (set (staging_names ids ks)) w is w1" by simp
  then have out1: "outside (set (staging_names ids ks)) w w1" and ext: "extends_by (wd_intents w) is (wd_intents w1)"
    by (simp_all add: stages_def)
  have "?bad w1" using out1 ext by (auto simp: hidden_def intro: outside_mono)
  show ?thesis
  proof (cases prep)
    case (Done ps)
    with prepare_changes_stages [OF prep] have ok: "prepared_ok ids ks ps w1"
      and tags: "map (\<lambda>p. (ci_message_id (snd (snd p)), Some (fst (snd p)))) ps = map tag is" by simp_all
    then have keys: "map fst ps = ks" and names: "map (\<lambda>p. fst (snd p)) ps = staging_names ids ks"
      by (simp_all add: prepared_ok_def)
    from names have nameset: "(\<lambda>p. fst (snd p)) ` set ps = set (staging_names ids ks)" by (metis list.set_map)
    have in_ks: "k \<in> set ks" if "(k, s, i) \<in> set ps" for k s i using that keys by force
    have in_names: "s \<in> set (staging_names ids ks)" if "(k, s, i) \<in> set ps" for k s i
      using that nameset by force
    have all_out: "(\<Union>(k, s, i) \<in> set ps. {s} \<union> set (change_paths k)) \<subseteq> hidden ids sfx ks \<union> affected ks"
      using in_ks in_names by (fastforce simp: hidden_def affected_def)
    obtain r2 w2 where pub: "publish_changes env ps w1 = (r2, w2)" by fastforce
    have out2: "outside (hidden ids sfx ks \<union> affected ks) w1 w2"
      using outside_mono [OF publish_changes_outside all_out, of w1 env] pub by simp
    have rows2: "wd_intents w2 = wd_intents w1" using publish_rows [of env ps w1] pub by simp
    have bad2: "?bad w2" using \<open>?bad w1\<close> out2 rows2 outside_step by auto
    show ?thesis
    proof (cases r2)
      case (Done u)
      have files: "wd_files w2 p = fold apply_change ks (wd_files w1) p" if "p \<notin> set (staging_names ids ks)" for p
        unfolding keys [symmetric]
      proof (rule publish_changes_Done)
        show "publish_changes env ps w1 = (Done u, w2)" using pub Done by simp
        show "p \<notin> (\<lambda>p. fst (snd p)) ` set ps" using that nameset by simp
        show "distinct (map (\<lambda>p. fst (snd p)) ps)" using names fresh by (simp add: fresh_names_def)
        show "s \<notin> set (change_paths j)" if "(k, s, i) \<in> set ps" "(j, t, l) \<in> set ps" for k s i j t l
          using in_names [OF that(1)] in_ks [OF that(2)] fresh by (auto simp: fresh_names_def affected_def)
        show "written_text k \<noteq> None \<longrightarrow> wd_files w1 s = written_text k" if "(k, s, i) \<in> set ps" for k s i
          using ok that by (auto simp: prepared_ok_def)
        show "kc_change_type k \<noteq> Remove \<longrightarrow> kc_new_text k \<noteq> None" if "(k, s, i) \<in> set ps" for k s i
          using texts in_ks [OF that] by blast
      qed
      have files: "wd_files w2 p = fold apply_change ks (wd_files w) p" if "p \<notin> hidden ids sfx ks" for p
      proof -
        have "p \<notin> set (staging_names ids ks)" using that by (simp add: hidden_def)
        with files out1 show ?thesis
          using fold_apply_cong [of "wd_files w1" p "wd_files w" ks] by (simp add: outside_def)
      qed
      have jobs: "\<exists>j \<in> set is. ci_message_id j = ci_message_id i \<and> ci_staging_path j = Some s"
        if "(k, s, i) \<in> set ps" for k s i
      proof -
        have "(ci_message_id i, Some s) \<in> set (map tag is)" unfolding tags [symmetric] using that by force
        then show ?thesis by (auto simp: tag_def)
      qed
      have fin: "ends ?good ?bad (finish_changes env ps w2)"
      proof (rule ends_weaken [OF finish_changes_ends [OF _ jobs]])
        show "extends_by (wd_intents w) is (wd_intents w2)" using ext rows2 by simp
        show "?good rs w'" if "outside ((\<lambda>p. fst (snd p)) ` set ps) w2 w' \<and> extends_by (wd_intents w) is (wd_intents w')
            \<and> length rs = length ps \<and> (\<forall>r \<in> set rs. ci_state r = READY \<and> r \<in> set (wd_intents w'))
            \<and> (\<forall>x \<in> set (wd_intents w2). ci_state x = READY \<longrightarrow> x \<in> set (wd_intents w'))" for rs w'
          using that files keys nameset by (auto simp: outside_def hidden_def)
        show "?bad w'" if "outside ((\<lambda>p. fst (snd p)) ` set ps) w2 w' \<and> extends_by (wd_intents w) is (wd_intents w')" for w'
          using that bad2 nameset by (auto simp: outside_def hidden_def)
      qed
      with pub Done \<open>prep = Done ps\<close> show ?thesis by simp
    qed (use pub bad2 Done in simp_all)
  qed (use \<open>?bad w1\<close> in simp_all)
qed

lemma unlink_rows [simp]: "wd_intents (snd (unlink env p w)) = wd_intents w"
  by (simp add: unlink_def perform_io_def split: fault.split)

lemma replace_rows [simp]: "wd_intents (snd (replace_file env a b w)) = wd_intents w"
  by (simp add: replace_file_def perform_io_def split: fault.split option.split)

lemma restore_snapshot_rows [simp]: "wd_intents (snd (restore_snapshot env sfx snap w)) = wd_intents w"
proof -
  obtain p c where snap: "snap = (p, c)" by fastforce
  show ?thesis
  proof (cases c)
    case None
    then show ?thesis by (simp add: snap restore_snapshot_def)
  next
    case (Some d)
    let ?t = "hidden_name p (''.bridle-rollback-'' @ sfx p)"
    have tail: "wd_intents (snd (case bind_io (write_new env ?t d w1) (\<lambda>_ w. replace_file env ?t p w) of
        (Halted, w) \<Rightarrow> (Halted, w) | (r, w) \<Rightarrow> bind_io (unlink env ?t w) (\<lambda>_ w. (r, w)))) = wd_intents w1" for w1
    proof -
      have "wd_intents (snd (bind_io (write_new env ?t d w1) (\<lambda>_ w. replace_file env ?t p w))) = wd_intents w1"
        by (rule snd_bind) simp_all
      moreover have "wd_intents (snd (bind_io (unlink env ?t w2) (\<lambda>_ w. (r, w)))) = wd_intents w2" for w2 and r :: "unit io"
        by (rule snd_bind) simp_all
      ultimately show ?thesis by (auto split: prod.splits io.splits)
    qed
    show ?thesis
      unfolding snap Some restore_snapshot_def prod.case option.case Let_def
      by (rule snd_bind) (simp, simp only: tail)
  qed
qed

lemma restore_snapshots_rows [simp]: "wd_intents (snd (restore_snapshots env sfx snaps w)) = wd_intents w"
proof (induction snaps arbitrary: w)
  case (Cons s snaps)
  show ?case unfolding restore_snapshots.simps by (rule snd_bind) (use Cons.IH in simp_all)
qed simp

lemma unlink_all_rows [simp]: "wd_intents (snd (unlink_all env ps w)) = wd_intents w"
proof (induction ps arbitrary: w)
  case (Cons p ps)
  have one: "wd_intents (snd (unlink_suppressed env p w)) = wd_intents w"
    by (simp add: unlink_suppressed_def unlink_def perform_io_def split: fault.split)
  show ?case unfolding unlink_all.simps by (rule snd_bind) (use one Cons.IH in simp_all)
qed simp

lemma discard_intents_Done:
  assumes "discard_intents env is w = (Done u, w')"
  shows "wd_files w' = wd_files w"
    "wd_intents w' = filter (\<lambda>x. ci_message_id x \<notin> ci_message_id ` set is) (wd_intents w)"
  using assms
  by (auto simp: discard_intents_def delete_rows_def perform_io_def bind_Done split: if_splits fault.splits)

lemma rollback_Done:
  assumes "rollback env sfx snaps is w1 = (Done reply, w')"
    and snaps: "snaps = map (\<lambda>p. (p, wd_files w p)) paths" "distinct paths" "set paths = affected ks"
    and fresh: "fresh_names ids sfx ks" and out: "outside (hidden ids sfx ks \<union> affected ks) w w1"
    and ext: "extends_by (wd_intents w) is (wd_intents w1)"
    and staging: "\<forall>i \<in> set is. \<exists>s \<in> set (staging_names ids ks). ci_staging_path i = Some s"
  shows "reply = Batch_Failed ''candidate_publish_failed''" "\<And>p. p \<notin> hidden ids sfx ks \<Longrightarrow> wd_files w' p = wd_files w p"
    "map forget (wd_intents w') = map forget (wd_intents w)"
proof -
  from assms(1) obtain w2 w3 u where restore: "restore_snapshots env sfx snaps w1 = (Done (), w2)"
    and discard: "discard_intents env is w2 = (Done (), w3)"
    and clean: "unlink_all env (List.map_filter staging_of is) w3 = (Done u, w')"
    and reply: "reply = Batch_Failed ''candidate_publish_failed''"
    by (auto simp: rollback_def bind_Done)
  show "reply = Batch_Failed ''candidate_publish_failed''" by (rule reply)
  have keys: "map fst snaps = paths" by (simp add: snaps(1) comp_def)
  have names: "(\<lambda>p. hidden_name p (''.bridle-rollback-'' @ sfx p)) ` affected ks = rollback_names sfx ks"
    by (simp add: rollback_names_def)
  have restored: "(\<forall>(p, c) \<in> set snaps. wd_files w2 p = c) \<and> outside (affected ks \<union> rollback_names sfx ks) w1 w2"
  proof -
    have "rollback_names sfx ks \<inter> affected ks = {}" using fresh by (auto simp: fresh_names_def)
    with restore_snapshots_Done [OF restore, unfolded keys snaps(3) names, OF snaps(2)] show ?thesis .
  qed
  have staged: "set (List.map_filter staging_of is) \<subseteq> set (staging_names ids ks)"
    using staging by (force simp: List.map_filter_def staging_of_def split: option.splits if_splits)
  have w': "outside (set (staging_names ids ks)) w3 w'"
    using outside_mono [OF unlink_all_outside staged, of w3 env] clean by simp
  have w3: "wd_files w3 = wd_files w2" using discard_intents_Done(1) [OF discard] .
  show "wd_files w' p = wd_files w p" if "p \<notin> hidden ids sfx ks" for p
  proof -
    have "wd_files w' p = wd_files w2 p" using w' w3 that by (simp add: outside_def hidden_def)
    also have "\<dots> = wd_files w p"
    proof (cases "p \<in> affected ks")
      case True
      then have "(p, wd_files w p) \<in> set snaps" using snaps(3) by (auto simp: snaps(1))
      with restored show ?thesis by fastforce
    next
      case False
      with restored out that show ?thesis by (simp add: outside_def hidden_def)
    qed
    finally show ?thesis .
  qed
  have "wd_intents w2 = wd_intents w1" using restore_snapshots_rows [of env sfx snaps w1] restore by simp
  moreover have "wd_intents w' = wd_intents w3"
    using unlink_all_rows [of env "List.map_filter staging_of is" w3] clean by simp
  ultimately show "map forget (wd_intents w') = map forget (wd_intents w)"
    using discard_intents_Done(2) [OF discard] extends_by_discard [OF ext] by simp
qed

text \<open>
  C7. A batch is published as a whole or not at all, whatever effect on the disk or the database
  fails on the way, provided the process lives to answer. When \<^verbatim>\<open>commit_many\<close> answers ready,
  every path holds what its changes, applied in order, make of it, one ready intent is stored for
  each change and no other file differs; when it answers that the batch failed, every file is as it
  was and so are the intents, apart from the mark that a rebase has been superseded; when it
  answers busy, nothing has happened. The names drawn for staging and rollback files are new.
\<close>

theorem commit_many_all_or_nothing:
  assumes run: "commit_many env ox sha locks_free ids sfx changes corr w = (Done reply, w')"
    and checked: "check_changes [] changes = Inr ks" and fresh: "fresh_names ids sfx ks"
  shows "case reply of
      Batch_Ready rs \<Rightarrow>
        (\<forall>p. p \<notin> hidden ids sfx ks \<longrightarrow> wd_files w' p = fold apply_change ks (wd_files w) p)
        \<and> length rs = length ks \<and> (\<forall>r \<in> set rs. ci_state r = READY \<and> r \<in> set (wd_intents w'))
    | Batch_Failed code \<Rightarrow>
        (\<forall>p. p \<notin> hidden ids sfx ks \<longrightarrow> wd_files w' p = wd_files w p)
        \<and> map forget (wd_intents w') = map forget (wd_intents w)
    | Batch_Busy \<Rightarrow> w' = w"
proof (cases locks_free)
  case False
  with run checked show ?thesis by (simp add: commit_many_def)
next
  case True
  obtain prep w1 "is" where prep: "prepare_changes env ox sha corr ids ks w = (prep, w1, is)" using prod_cases3 by blast
  let ?snaps = "map (\<lambda>p. (p, wd_files w p)) (sort (remdups (concat (map change_paths ks))))"
  let ?body = "bind_io (prep, w1) (\<lambda>ps w. bind_io (publish_changes env ps w) (\<lambda>_ w. finish_changes env ps w))"
  have run': "(case ?body of (Done rs, w') \<Rightarrow> (Done (Batch_Ready rs), w')
      | (Raised _, w') \<Rightarrow> rollback env sfx ?snaps is w' | (Halted, w') \<Rightarrow> (Halted, w')) = (Done reply, w')"
    using run by (simp add: commit_many_def checked True prep)
  have ends: "ends (\<lambda>rs w'. (\<forall>p. p \<notin> hidden ids sfx ks \<longrightarrow> wd_files w' p = fold apply_change ks (wd_files w) p)
        \<and> length rs = length ks \<and> (\<forall>r \<in> set rs. ci_state r = READY \<and> r \<in> set (wd_intents w')))
      (\<lambda>w'. outside (hidden ids sfx ks \<union> affected ks) w w' \<and> extends_by (wd_intents w) is (wd_intents w')) ?body"
    by (rule batch_ends [OF prep fresh check_changes_text [OF checked]])
  obtain r2 w2 where body: "?body = (r2, w2)" by fastforce
  show ?thesis
  proof (cases r2)
    case (Done rs)
    with run' have "reply = Batch_Ready rs" "w' = w2" unfolding body by simp_all
    with ends Done show ?thesis unfolding body by simp
  next
    case (Raised e)
    with run' body have undone: "rollback env sfx ?snaps is w2 = (Done reply, w')" by simp
    have staging: "\<forall>i \<in> set is. \<exists>s \<in> set (staging_names ids ks). ci_staging_path i = Some s"
      using prepare_changes_stages [OF prep] by (simp add: stages_def)
    have paths: "distinct (sort (remdups (concat (map change_paths ks))))"
      "set (sort (remdups (concat (map change_paths ks)))) = affected ks"
      by (auto simp: affected_def)
    from ends Raised have "outside (hidden ids sfx ks \<union> affected ks) w w2" "extends_by (wd_intents w) is (wd_intents w2)"
      unfolding body by simp_all
    from rollback_Done [OF undone refl paths fresh this staging] show ?thesis by simp
  next
    case Halted
    with run' body show ?thesis by simp
  qed
qed

text \<open>Two files are overwritten; the second reservation is refused, so the batch is rolled back.\<close>

definition two_changes :: "file_change list" where
  "two_changes = [\<lparr>ch_change_type = ''modify'', ch_path = ''a'', ch_old_path = [], ch_new_text = Some ''A''\<rparr>,
                  \<lparr>ch_change_type = ''modify'', ch_path = ''b'', ch_old_path = [], ch_new_text = Some ''B''\<rparr>]"

definition two_files :: world where
  "two_files = \<lparr>wd_files = [''a'' \<mapsto> ''x'', ''b'' \<mapsto> ''y''], wd_intents = [], wd_tick = 0\<rparr>"

definition two_ids :: "nat \<Rightarrow> string \<times> string" where
  "two_ids n = (if n = 0 then (''m'', ''1'') else (''n'', ''2''))"

definition busy_at :: "nat \<Rightarrow> environment" where
  "busy_at n = \<lparr>xe_fault = (\<lambda>t. if t = n then Fail None else Proceed), xe_clock = int\<rparr>"

lemma two_checked:
  "check_changes [] two_changes = Inr
     [\<lparr>kc_change_type = Modify, kc_path = ''a'', kc_old_path = None, kc_new_text = Some ''A''\<rparr>,
      \<lparr>kc_change_type = Modify, kc_path = ''b'', kc_old_path = None, kc_new_text = Some ''B''\<rparr>]"
  by code_simp

lemma commit_many_all_or_nothing_witness:
  "wd_files (snd (commit_many (busy_at 4) sample_outbox (\<lambda>t. t) True two_ids (\<lambda>_. ''3'') two_changes
     sample_correlation two_files)) ''a'' = Some ''x''"
proof -
  let ?ks = "[\<lparr>kc_change_type = Modify, kc_path = ''a'', kc_old_path = None, kc_new_text = Some ''A''\<rparr>,
      \<lparr>kc_change_type = Modify, kc_path = ''b'', kc_old_path = None, kc_new_text = Some ''B''\<rparr>]"
  let ?run = "commit_many (busy_at 4) sample_outbox (\<lambda>t. t) True two_ids (\<lambda>_. ''3'') two_changes
     sample_correlation two_files"
  have "fst ?run = Done (Batch_Failed ''candidate_publish_failed'')" by code_simp
  then have run: "?run = (Done (Batch_Failed ''candidate_publish_failed''), snd ?run)" by (metis prod.collapse)
  have names: "hidden_name ''a'' ''.bridle-stage-1'' = ''.a.bridle-stage-1''"
    "hidden_name ''b'' ''.bridle-stage-2'' = ''.b.bridle-stage-2''"
    "hidden_name ''a'' ''.bridle-rollback-3'' = ''.a.bridle-rollback-3''"
    "hidden_name ''b'' ''.bridle-rollback-3'' = ''.b.bridle-rollback-3''" by code_simp+
  have fresh: "fresh_names two_ids (\<lambda>_. ''3'') ?ks" and "''a'' \<notin> hidden two_ids (\<lambda>_. ''3'') ?ks"
    by (simp_all only: fresh_names_def hidden_def rollback_names_def affected_def staging_names.simps staging_name_def
        two_ids_def change_paths_def) (simp_all add: names two_ids_def)
  with commit_many_all_or_nothing [OF run two_checked fresh] show ?thesis by (simp add: two_files_def)
qed

section \<open>Where a crash defeats the batch\<close>

text \<open>
  The recovery treats each intent on its own. When the process stops between two reservations of
  a batch, the first change, already marked as committing, is replayed and announced, while the
  second is lost: the docstring promises all-or-nothing.
\<close>

lemma crash_publishes_half:
  "let crashed = snd (commit_many (halting_at 4) sample_outbox (\<lambda>t. t) True two_ids (\<lambda>_. ''3'') two_changes
     sample_correlation two_files); recovered = snd (recover_outbox steady (\<lambda>t. t) crashed)
   in wd_files recovered ''a'' = Some ''A'' \<and> wd_files recovered ''b'' = Some ''y''
    \<and> map ci_state (wd_intents recovered) = [READY]"
  by code_simp

text \<open>
  The digest before a rename is that of the old path, but recovery compares it with the file at the
  new path. A rename stopped before its replacement is therefore not replayed: the intent asks for
  a rebase and the staged text is deleted.
\<close>

definition one_rename :: "file_change list" where
  "one_rename = [\<lparr>ch_change_type = ''rename'', ch_path = ''g'', ch_old_path = ''f'', ch_new_text = Some ''o''\<rparr>]"

lemma rename_not_replayed:
  "let crashed = snd (commit_many (halting_at 4) sample_outbox (\<lambda>t. t) True two_ids (\<lambda>_. ''3'') one_rename
     sample_correlation sample_world); recovered = snd (recover_outbox steady (\<lambda>t. t) crashed)
   in wd_files crashed ''.g.bridle-stage-1'' = Some ''o''
    \<and> map ci_state (wd_intents recovered) = [REBASE_REQUIRED] \<and> wd_files recovered ''.g.bridle-stage-1'' = None"
  by code_simp

text \<open>
  Stopped after the replacement, it is declared ready although the old path still exists, and
  nothing removes it any more.
\<close>

lemma rename_keeps_old_path:
  "let crashed = snd (commit_many (halting_at 5) sample_outbox (\<lambda>t. t) True two_ids (\<lambda>_. ''3'') one_rename
     sample_correlation sample_world); recovered = snd (recover_outbox steady (\<lambda>t. t) crashed)
   in wd_files recovered ''f'' = Some ''o'' \<and> wd_files recovered ''g'' = Some ''o''
    \<and> map ci_state (wd_intents recovered) = [READY]"
  by code_simp

text \<open>
  Normalising a path is not idempotent: what is stripped of a leading \<^verbatim>\<open>./\<close> may begin with a
  space. The committer normalises once and the reservation again, so the file that is written and
  the path of its intent can differ.
\<close>

lemma normalize_not_idempotent:
  "normalize_outbox_path ''./ a'' = Inr '' a''" "normalize_outbox_path '' a'' = Inr ''a''"
  by code_simp+

end
