(* ===== verification/Graph_Search.thy ===== *)
theory Graph_Search
  imports Bridle_Prelude
begin

text \<open>
  The cycle check \<^verbatim>\<open>ProjectPlanStore._assert_acyclic\<close> (\<^verbatim>\<open>features/project_map/store.py\<close>): a
  recursive depth first search over an adjacency dictionary, \<open>visiting\<close> the path from the start
  and \<open>visited\<close> the finished nodes. Python bounds the depth of a recursion; \<open>frames\<close> is the number
  of calls the interpreter still allows, and a call beyond it is a RecursionError. The second part
  relates the verdict to the relation the dictionary stands for.
\<close>

section \<open>The search\<close>

type_synonym adjacency = "(string \<times> string list) list"

definition neighbours :: "adjacency \<Rightarrow> string \<Rightarrow> string list" where
  "neighbours adj n = (case map_of adj n of None \<Rightarrow> [] | Some ts \<Rightarrow> ts)"

definition recursion_error :: bridle_error where
  "recursion_error = BuiltinError ''RecursionError''"

text \<open>
  \<open>visit_each\<close> calls the inner function \<^verbatim>\<open>visit\<close> on each of a list of nodes, as the loop over the
  dictionary and the loop over a node's targets do; it returns the finished nodes.
\<close>

fun visit_each ::
  "bridle_error \<Rightarrow> adjacency \<Rightarrow> nat \<Rightarrow> string list \<Rightarrow> string list \<Rightarrow> string list \<Rightarrow> string list result"
where
  "visit_each e adj frames visiting visited [] = Inr visited"
| "visit_each e adj 0 visiting visited (n # ns) = Inl recursion_error"
| "visit_each e adj (Suc frames) visiting visited (n # ns) =
     (if n \<in> set visiting then Inl e
      else if n \<in> set visited then visit_each e adj (Suc frames) visiting visited ns
      else (case visit_each e adj frames (n # visiting) visited (neighbours adj n) of
              Inl err \<Rightarrow> Inl err
            | Inr finished \<Rightarrow> visit_each e adj (Suc frames) visiting (n # finished) ns))"

definition cycle_error :: "string \<Rightarrow> bridle_error" where
  "cycle_error code = ValidationError ''plan_graph'' code"

definition assert_acyclic :: "nat \<Rightarrow> adjacency \<Rightarrow> string \<Rightarrow> unit result" where
  "assert_acyclic frames adj code =
     (case visit_each (cycle_error code) adj frames [] [] (map fst adj) of
        Inl err \<Rightarrow> Inl err
      | Inr _ \<Rightarrow> Inr ())"

section \<open>The relation\<close>

definition edges_of :: "adjacency \<Rightarrow> (string \<times> string) set" where
  "edges_of adj = {(n, t). t \<in> set (neighbours adj n)}"

definition settled_part :: "adjacency \<Rightarrow> string set \<Rightarrow> bool" where
  "settled_part adj V \<longleftrightarrow> edges_of adj `` V \<subseteq> V \<and> (\<forall>n \<in> V. (n, n) \<notin> (edges_of adj)\<^sup>+)"

lemma settled_part_empty [simp]: "settled_part adj {}"
  by (simp add: settled_part_def)

lemma closed_trancl:
  assumes "E `` V \<subseteq> V" and "(a, b) \<in> E\<^sup>+" and "a \<in> V"
  shows "b \<in> V"
  using assms(2,3) by (induction rule: trancl_induct) (use assms(1) in auto)

lemma settled_part_insert:
  assumes "settled_part adj V" and "set (neighbours adj n) \<subseteq> V" and "n \<notin> V"
  shows "settled_part adj (insert n V)"
proof -
  let ?E = "edges_of adj"
  have closed: "?E `` V \<subseteq> V" using assms(1) by (simp add: settled_part_def)
  have "(n, n) \<notin> ?E\<^sup>+"
  proof
    assume "(n, n) \<in> ?E\<^sup>+"
    then obtain t where "(n, t) \<in> ?E" and "(t, n) \<in> ?E\<^sup>*" by (auto dest: tranclD)
    with assms(2) have "t \<in> V" by (auto simp: edges_of_def)
    with \<open>(t, n) \<in> ?E\<^sup>*\<close> closed have "n \<in> V"
      by (metis closed_trancl rtranclD)
    with assms(3) show False by simp
  qed
  moreover have "?E `` insert n V \<subseteq> insert n V"
    using assms(2) closed by (auto simp: edges_of_def)
  ultimately show ?thesis using assms(1) by (auto simp: settled_part_def)
qed

lemma visit_each_accepts:
  assumes "visit_each e adj frames visiting visited ns = Inr finished"
    and "settled_part adj (set visited)" and "set visited \<inter> set visiting = {}"
  shows "settled_part adj (set finished) \<and> set finished \<inter> set visiting = {}
    \<and> set visited \<union> set ns \<subseteq> set finished"
  using assms
proof (induction e adj frames visiting visited ns arbitrary: finished rule: visit_each.induct)
  case (3 e adj frames visiting visited n ns)
  from 3(4) have new: "n \<notin> set visiting" by (auto split: if_splits)
  show ?case
  proof (cases "n \<in> set visited")
    case True
    with 3(1) [OF new True] 3(4-6) new show ?thesis by (simp split: if_splits) blast
  next
    case False
    from 3(4) new False obtain inner where
      inner: "visit_each e adj frames (n # visiting) visited (neighbours adj n) = Inr inner"
      and rest: "visit_each e adj (Suc frames) visiting (n # inner) ns = Inr finished"
      by (auto split: sum.splits)
    from 3(2) [OF new False inner] 3(5,6) False
    have step: "settled_part adj (set inner)" "set inner \<inter> set (n # visiting) = {}"
      "set visited \<union> set (neighbours adj n) \<subseteq> set inner" by auto
    then have "settled_part adj (set (n # inner))" by (simp add: settled_part_insert)
    moreover have "set (n # inner) \<inter> set visiting = {}" using step(2) new by auto
    ultimately show ?thesis using 3(3) [OF new False inner rest] step(3) by auto
  qed
qed auto

lemma visit_each_rejects:
  assumes "visit_each e adj frames visiting visited ns = Inl err" and "err \<noteq> recursion_error"
    and "\<And>x m. x \<in> set visiting \<Longrightarrow> m \<in> set ns \<Longrightarrow> (x, m) \<in> (edges_of adj)\<^sup>+"
  shows "err = e \<and> (\<exists>x. (x, x) \<in> (edges_of adj)\<^sup>+)"
  using assms
proof (induction e adj frames visiting visited ns arbitrary: err rule: visit_each.induct)
  case (3 e adj frames visiting visited n ns)
  let ?E = "edges_of adj"
  show ?case
  proof (cases "n \<in> set visiting")
    case True
    with 3(4) 3(6) [of n n] show ?thesis by auto
  next
    case new: False
    show ?thesis
    proof (cases "n \<in> set visited")
      case True
      with 3(1) [OF new True] 3(4-6) new show ?thesis by simp
    next
      case False
      have deeper: "(x, m) \<in> ?E\<^sup>+" if "x \<in> set (n # visiting)" "m \<in> set (neighbours adj n)" for x m
      proof -
        have "(n, m) \<in> ?E" using that(2) by (simp add: edges_of_def)
        with that(1) 3(6) [of x n] show ?thesis by (auto intro: trancl_into_trancl)
      qed
      show ?thesis
      proof (cases "visit_each e adj frames (n # visiting) visited (neighbours adj n)")
        case (Inl err')
        with 3(4) new False have "err' = err" by simp
        with 3(2) [OF new False Inl] 3(5) deeper show ?thesis by simp
      next
        case (Inr finished)
        with 3(4) new False have "visit_each e adj (Suc frames) visiting (n # finished) ns = Inl err"
          by simp
        with 3(3) [OF new False Inr this] 3(5,6) show ?thesis by simp
      qed
    qed
  qed
qed auto

lemma neighbours_closed:
  assumes "edges_of adj `` U \<subseteq> U" and "n \<in> U"
  shows "set (neighbours adj n) \<subseteq> U"
proof
  fix t
  assume "t \<in> set (neighbours adj n)"
  then have "(n, t) \<in> edges_of adj" by (simp add: edges_of_def)
  with assms show "t \<in> U" by blast
qed

lemma visit_each_depth:
  assumes "finite U" and "set ns \<subseteq> U" and "edges_of adj `` U \<subseteq> U" and "e \<noteq> recursion_error"
    and "card (U - set visiting) < frames"
  shows "visit_each e adj frames visiting visited ns \<noteq> Inl recursion_error"
  using assms(2-5)
proof (induction e adj frames visiting visited ns rule: visit_each.induct)
  case (3 e adj frames visiting visited n ns)
  show ?case
  proof (cases "n \<in> set visiting \<or> n \<in> set visited")
    case True
    with 3 show ?thesis by auto
  next
    case False
    have n: "n \<in> U" using 3(4) by simp
    then have "card (U - set (n # visiting)) < card (U - set visiting)"
      using False assms(1) by (intro psubset_card_mono) auto
    with 3(7) have "card (U - set (n # visiting)) < frames" by simp
    moreover have "set (neighbours adj n) \<subseteq> U" using 3(5) n by (rule neighbours_closed)
    ultimately have "visit_each e adj frames (n # visiting) visited (neighbours adj n)
        \<noteq> Inl recursion_error"
      using 3(2) False 3(5,6) by simp
    with 3(3-7) False show ?thesis by (auto split: sum.splits)
  qed
qed auto

section \<open>The verdict\<close>

lemma cycle_error_not_recursion: "cycle_error code \<noteq> recursion_error"
  by (simp add: cycle_error_def recursion_error_def)

lemma edge_from_key: "(n, t) \<in> edges_of adj \<Longrightarrow> n \<in> set (map fst adj)"
  by (cases "map_of adj n") (force simp: edges_of_def neighbours_def dest: map_of_SomeD)+

lemma accepted_acyclic:
  assumes "assert_acyclic frames adj code = Inr ()"
  shows "acyclic (edges_of adj)"
proof -
  from assms obtain finished where
    "visit_each (cycle_error code) adj frames [] [] (map fst adj) = Inr finished"
    by (auto simp: assert_acyclic_def split: sum.splits)
  from visit_each_accepts [OF this]
  have "settled_part adj (set finished)" and "set (map fst adj) \<subseteq> set finished" by auto
  moreover have "n \<in> set (map fst adj)" if "(n, n) \<in> (edges_of adj)\<^sup>+" for n
    using that by (auto dest: tranclD edge_from_key simp del: set_map)
  ultimately show ?thesis unfolding acyclic_def settled_part_def by blast
qed

lemma rejected_cyclic:
  assumes "assert_acyclic frames adj code = Inl err" and "err \<noteq> recursion_error"
  shows "err = cycle_error code \<and> \<not> acyclic (edges_of adj)"
  using assms visit_each_rejects [of "cycle_error code" adj frames "[]" "[]" "map fst adj" err]
  by (auto simp: assert_acyclic_def acyclic_def split: sum.splits)

lemma deep_enough:
  assumes "finite U" and "fst ` set adj \<subseteq> U" and "edges_of adj `` U \<subseteq> U" and "card U < frames"
  shows "assert_acyclic frames adj code \<noteq> Inl recursion_error"
  using visit_each_depth [of U "map fst adj" adj "cycle_error code" "[]" frames "[]"]
    assms cycle_error_not_recursion
  by (auto simp: assert_acyclic_def split: sum.splits)

text \<open>With a frame for every node the check ends with a verdict, and it is the right one.\<close>

lemma assert_acyclic_correct:
  assumes "finite U" and "fst ` set adj \<subseteq> U" and "edges_of adj `` U \<subseteq> U" and "card U < frames"
  shows "assert_acyclic frames adj code =
    (if acyclic (edges_of adj) then Inr () else Inl (cycle_error code))"
proof (cases "assert_acyclic frames adj code")
  case (Inl err)
  with deep_enough [OF assms] have "err \<noteq> recursion_error" by blast
  with rejected_cyclic [OF Inl] Inl show ?thesis by simp
next
  case (Inr u)
  then show ?thesis using accepted_acyclic [of frames adj code] by simp
qed

end
