(* ===== verification/Plan_Graph.thy ===== *)
theory Plan_Graph
  imports Graph_Search Plan_Store
begin

text \<open>
  The plan of \<^verbatim>\<open>ProjectPlanStore\<close> (\<^verbatim>\<open>features/project_map/store.py\<close>, with
  \<^verbatim>\<open>patch_schemas.py\<close> and the plan part of \<^verbatim>\<open>modify_loop_service.py\<close>): the tables
  \<^verbatim>\<open>plan_nodes\<close>, \<^verbatim>\<open>plan_edges\<close>, \<^verbatim>\<open>metadata\<close>, \<^verbatim>\<open>module_interfaces\<close> and the two child agent
  tables, beside the verification tables of the same database. An operation is one transaction;
  one that raises leaves the tables as they were. The recursion depth \<open>frames\<close> left to the cycle
  check, the fresh identifiers and SQLite's \<^verbatim>\<open>json_set\<close> on a path are arguments. Members of a
  Python set are visited in the order of the tables.
\<close>

section \<open>Tables\<close>

datatype node_status =
    Node_Pending | Node_Ready | Node_Running | Node_Completed | Node_Failed | Node_Blocked
  | Proposed | Ratified | Mapping_Status | Executing | Verifying | Drifted

definition node_statuses :: "(string \<times> node_status) list" where
  "node_statuses = [(''pending'', Node_Pending), (''ready'', Node_Ready), (''running'', Node_Running),
     (''completed'', Node_Completed), (''failed'', Node_Failed), (''blocked'', Node_Blocked),
     (''proposed'', Proposed), (''ratified'', Ratified), (''mapping'', Mapping_Status),
     (''executing'', Executing), (''verifying'', Verifying), (''drifted'', Drifted)]"

definition status_name :: "node_status \<Rightarrow> string" where
  "status_name st = (case find (\<lambda>(_, s). s = st) node_statuses of None \<Rightarrow> [] | Some (k, _) \<Rightarrow> k)"

record node_row =
  nd_id :: string
  nd_parent :: "string option"
  nd_order :: int
  nd_status :: node_status
  nd_type :: string
  nd_title :: string
  nd_goal :: string
  nd_payload :: dict
  nd_archived :: bool

record edge_row =
  ed_source :: string
  ed_target :: string
  ed_kind :: string

record interface_row =
  mi_id :: string
  mi_from :: string
  mi_to :: string
  mi_symbol :: string
  mi_signature :: dict
  mi_mock :: dict
  mi_confidence :: rat
  mi_status :: string

record spawn_row =
  sf_message_id :: string
  sf_node :: string
  sf_role :: string
  sf_status :: string

record receipt_row =
  cr_message_id :: string
  cr_receipt_node :: string
  cr_result_status :: string
  cr_result :: dict

record map_db =
  nodes :: "node_row list"
  edges :: "edge_row list"
  metadata :: "(string \<times> string) list"
  interfaces :: "interface_row list"
  spawns :: "spawn_row list"
  receipts :: "receipt_row list"
  verif :: plan_store

definition log_change :: "map_db \<Rightarrow> string \<Rightarrow> string \<Rightarrow> string \<Rightarrow> dict \<Rightarrow> map_db" where
  "log_change m entity_type entity_id operation payload =
     m\<lparr>verif := record_change (verif m) entity_type entity_id operation payload\<rparr>"

definition active_nodes :: "map_db \<Rightarrow> node_row list" where
  "active_nodes m = filter (\<lambda>r. \<not> nd_archived r) (nodes m)"

definition active_ids :: "map_db \<Rightarrow> string list" where
  "active_ids m = map nd_id (active_nodes m)"

definition find_node :: "map_db \<Rightarrow> string \<Rightarrow> node_row option" where
  "find_node m i = find (\<lambda>r. nd_id r = i \<and> \<not> nd_archived r) (nodes m)"

definition depends_on :: string where
  "depends_on = ''depends_on''"

definition dependencies :: "map_db \<Rightarrow> string \<Rightarrow> string list" where
  "dependencies m i = map ed_target (filter (\<lambda>e. ed_source e = i \<and> ed_kind e = depends_on) (edges m))"

section \<open>Readiness of the map\<close>

definition metadata_or :: "map_db \<Rightarrow> string \<Rightarrow> string \<Rightarrow> string" where
  "metadata_or m key other =
     (case map_of (metadata m) key of
        None \<Rightarrow> other
      | Some v \<Rightarrow> if v = [] then other else v)"

definition set_metadata :: "map_db \<Rightarrow> string \<Rightarrow> string \<Rightarrow> map_db" where
  "set_metadata m key value = m\<lparr>metadata := AList.update key value (metadata m)\<rparr>"

definition map_statuses :: "string list" where
  "map_statuses = [''not_scanned'', ''scanning_structure'', ''structure_ready'',
     ''semantic_scanning'', ''needs_arbitration'', ''ready'', ''failed'', ''stale'']"

definition ready_status :: string where
  "ready_status = ''ready''"

definition scan_status :: "map_db \<Rightarrow> string" where
  "scan_status m = metadata_or m ''scan_status'' ''not_scanned''"

definition assert_map_ready :: "map_db \<Rightarrow> unit result" where
  "assert_map_ready m =
     (if scan_status m = ready_status then Inr ()
      else Inl (ConflictError ''project_map'' ''project_map_not_ready''))"

definition set_map_status :: "string \<Rightarrow> map_db \<Rightarrow> string \<Rightarrow> string \<Rightarrow> map_db" where
  "set_map_status pid m status reason =
     log_change
       (set_metadata (set_metadata m ''scan_status'' status) ''readiness_reason''
          (if status = ready_status then [] else reason))
       ''project_map'' pid status [(''reason'', JStr reason)]"

record readiness =
  rd_scan_status :: string
  rd_can_chat :: bool
  rd_can_edit_plan :: bool
  rd_reason :: "string option"

definition readiness_from_values :: "string \<Rightarrow> string option \<Rightarrow> readiness" where
  "readiness_from_values status reason =
     \<lparr>rd_scan_status = status, rd_can_chat = (status = ready_status),
      rd_can_edit_plan = (status = ready_status),
      rd_reason = (if status = ready_status then None else reason)\<rparr>"

definition map_readiness :: "map_db \<Rightarrow> string option \<Rightarrow> readiness" where
  "map_readiness m status =
     (let st = (case status of None \<Rightarrow> scan_status m | Some s \<Rightarrow> if s = [] then scan_status m else s)
      in readiness_from_values st
           (if st = ready_status then None else Some (metadata_or m ''readiness_reason'' st)))"

definition mark_map_status ::
  "string \<Rightarrow> map_db \<Rightarrow> string \<Rightarrow> string \<Rightarrow> (readiness \<times> map_db) result" where
  "mark_map_status pid m status reason =
     (if status \<notin> set map_statuses
      then Inl (ValidationError ''project_map'' ''Unsupported project map status'')
      else let m' = set_map_status pid m status reason in Inr (map_readiness m' (Some status), m'))"

definition mark_map_degraded :: "map_db \<Rightarrow> string \<Rightarrow> readiness \<times> map_db" where
  "mark_map_degraded m reason =
     (let m' = set_metadata (set_metadata m ''scan_status'' ''stale'') ''readiness_reason'' reason
      in (map_readiness m' (Some ''stale''), m'))"

section \<open>Patches\<close>

text \<open>
  The schemas of a patch. The extra members of a node are its payload; in an update a member is
  set or left out, and \<^verbatim>\<open>depends_on\<close> is rejected by the schema.
\<close>

record node_patch =
  np_id :: string
  np_parent :: "string option"
  np_order :: int
  np_type :: string
  np_title :: string
  np_goal :: string
  np_depends_on :: "string list"
  np_extra :: dict

record node_update =
  nu_id :: string
  nu_parent :: "string option option"
  nu_order :: "int option option"
  nu_type :: "string option option"
  nu_title :: "string option option"
  nu_goal :: "string option option"
  nu_extra :: dict

record dependency_replace =
  dr_node :: string
  dr_depends_on :: "string list"

record plan_patch =
  pp_update :: "node_update list"
  pp_add :: "node_patch list"
  pp_remove :: "string list"
  pp_replace :: "dependency_replace list"

definition integrity_error :: bridle_error where
  "integrity_error = BuiltinError ''IntegrityError''"

text \<open>A loop whose body may raise\<close>

fun each :: "('a \<Rightarrow> 's \<Rightarrow> 's result) \<Rightarrow> 'a list \<Rightarrow> 's \<Rightarrow> 's result" where
  "each f [] s = Inr s"
| "each f (x # xs) s = (case f x s of Inl e \<Rightarrow> Inl e | Inr s' \<Rightarrow> each f xs s')"

definition is_running :: "node_row \<Rightarrow> bool" where
  "is_running r \<longleftrightarrow> nd_status r = Node_Running \<and> \<not> nd_archived r"

definition running_ids :: "map_db \<Rightarrow> string list \<Rightarrow> string list" where
  "running_ids m ids = map nd_id (filter (\<lambda>r. is_running r \<and> nd_id r \<in> set ids) (nodes m))"

definition running_dependents :: "map_db \<Rightarrow> string \<Rightarrow> string list" where
  "running_dependents m removed =
     map nd_id (filter (\<lambda>r. is_running r \<and> (removed \<in> set (dependencies m (nd_id r))
        \<or> nd_parent r = Some removed)) (nodes m))"

definition direct_ids :: "plan_patch \<Rightarrow> string list" where
  "direct_ids p = map nu_id (pp_update p) @ pp_remove p @ map dr_node (pp_replace p)"

definition assert_patch_mutable :: "map_db \<Rightarrow> plan_patch \<Rightarrow> unit result" where
  "assert_patch_mutable m p =
     (if running_ids m (direct_ids p) @ concat (map (running_dependents m) (pp_remove p)) \<noteq> []
      then Inl (ConflictError ''plan_node'' ''node_running_immutable'')
      else Inr ())"

definition insert_edge :: "string \<Rightarrow> string \<Rightarrow> map_db \<Rightarrow> map_db result" where
  "insert_edge source target m =
     (let e = \<lparr>ed_source = source, ed_target = target, ed_kind = depends_on\<rparr> in
      if e \<in> set (edges m) then Inl integrity_error else Inr (m\<lparr>edges := edges m @ [e]\<rparr>))"

definition add_node :: "node_patch \<Rightarrow> map_db \<Rightarrow> map_db result" where
  "add_node n m =
     (if np_id n \<in> set (map nd_id (nodes m))
      then Inl (ConflictError ''plan_node'' ''node_already_exists'')
      else (case each (insert_edge (np_id n)) (np_depends_on n)
              (m\<lparr>nodes := nodes m @ [\<lparr>nd_id = np_id n, nd_parent = np_parent n,
                  nd_order = np_order n, nd_status = Node_Pending, nd_type = np_type n,
                  nd_title = np_title n, nd_goal = np_goal n, nd_payload = np_extra n,
                  nd_archived = False\<rparr>]\<rparr>) of
              Inl e \<Rightarrow> Inl e
            | Inr m' \<Rightarrow> Inr (log_change m' ''plan_node'' (np_id n) ''add'' [])))"

text \<open>
  An update writes the members that are set; a null in a NOT NULL column raises. The remaining
  members go into the payload, one \<^verbatim>\<open>json_set\<close> path each. Any assignment returns an ended or
  blocked node to pending.
\<close>

definition set_column :: "'a option option \<Rightarrow> 'a \<Rightarrow> 'a result" where
  "set_column v old =
     (case v of None \<Rightarrow> Inr old | Some None \<Rightarrow> Inl integrity_error | Some (Some x) \<Rightarrow> Inr x)"

definition has_assignments :: "node_update \<Rightarrow> bool" where
  "has_assignments u \<longleftrightarrow> nu_parent u \<noteq> None \<or> nu_order u \<noteq> None \<or> nu_type u \<noteq> None
     \<or> nu_title u \<noteq> None \<or> nu_goal u \<noteq> None \<or> nu_extra u \<noteq> []"

definition reopened :: "node_status \<Rightarrow> node_status" where
  "reopened st = (if st \<in> {Node_Completed, Node_Failed, Node_Blocked} then Node_Pending else st)"

definition assign_columns ::
  "(dict \<Rightarrow> string \<Rightarrow> json \<Rightarrow> dict result) \<Rightarrow> node_update \<Rightarrow> node_row \<Rightarrow> node_row result" where
  "assign_columns json_set u r =
     bind_result (each (\<lambda>(k, v) d. json_set d k v) (nu_extra u) (nd_payload r)) (\<lambda>payload.
     bind_result (set_column (nu_order u) (nd_order r)) (\<lambda>order.
     bind_result (set_column (nu_type u) (nd_type r)) (\<lambda>type.
     bind_result (set_column (nu_title u) (nd_title r)) (\<lambda>title.
     bind_result (set_column (nu_goal u) (nd_goal r)) (\<lambda>goal.
       Inr (r\<lparr>nd_parent := (case nu_parent u of None \<Rightarrow> nd_parent r | Some q \<Rightarrow> q),
              nd_order := order, nd_type := type, nd_title := title, nd_goal := goal,
              nd_payload := payload, nd_status := reopened (nd_status r)\<rparr>))))))"

definition update_node ::
  "(dict \<Rightarrow> string \<Rightarrow> json \<Rightarrow> dict result) \<Rightarrow> node_update \<Rightarrow> map_db \<Rightarrow> map_db result" where
  "update_node json_set u m =
     (case find_node m (nu_id u) of
        None \<Rightarrow> Inl (NotFoundError ''plan_node'')
      | Some r \<Rightarrow>
          bind_result (if has_assignments u then assign_columns json_set u r else Inr r) (\<lambda>r'.
            Inr (log_change
              (m\<lparr>nodes := update_rows (\<lambda>x. nd_id x = nu_id u) (\<lambda>_. r') (nodes m)\<rparr>)
              ''plan_node'' (nu_id u) ''update'' [])))"

definition replace_dependencies :: "dependency_replace \<Rightarrow> map_db \<Rightarrow> map_db result" where
  "replace_dependencies d m =
     (case find_node m (dr_node d) of
        None \<Rightarrow> Inl (NotFoundError ''plan_node'')
      | Some _ \<Rightarrow>
          (case each (insert_edge (dr_node d)) (dr_depends_on d)
                 (m\<lparr>edges := filter (\<lambda>e. \<not> (ed_source e = dr_node d \<and> ed_kind e = depends_on))
                               (edges m)\<rparr>) of
             Inl e \<Rightarrow> Inl e
           | Inr m' \<Rightarrow> Inr (log_change m' ''plan_edge'' (dr_node d) ''replace_dependencies'' [])))"

definition remove_node :: "string \<Rightarrow> map_db \<Rightarrow> map_db result" where
  "remove_node i m =
     (case find_node m i of
        None \<Rightarrow> Inl (NotFoundError ''plan_node'')
      | Some _ \<Rightarrow>
          Inr (log_change
            (m\<lparr>nodes := update_rows (\<lambda>r. nd_id r = i \<and> \<not> nd_archived r)
                          (\<lambda>r. r\<lparr>nd_archived := True\<rparr>) (nodes m),
               edges := filter (\<lambda>e. ed_source e \<noteq> i \<and> ed_target e \<noteq> i) (edges m)\<rparr>)
            ''plan_node'' i ''remove'' []))"

definition apply_patch ::
  "(dict \<Rightarrow> string \<Rightarrow> json \<Rightarrow> dict result) \<Rightarrow> plan_patch \<Rightarrow> map_db \<Rightarrow> map_db result" where
  "apply_patch json_set p m =
     bind_result (each add_node (pp_add p) m) (\<lambda>m1.
     bind_result (each (update_node json_set) (pp_update p) m1) (\<lambda>m2.
     bind_result (each replace_dependencies (pp_replace p) m2) (\<lambda>m3.
       each remove_node (pp_remove p) m3)))"

definition changed_ids :: "plan_patch \<Rightarrow> string list" where
  "changed_ids p = sort (remdups (map np_id (pp_add p) @ direct_ids p))"

section \<open>Validation of the graph\<close>

definition parent_links :: "map_db \<Rightarrow> (string \<times> string) list" where
  "parent_links m = concat (map (\<lambda>r. case nd_parent r of None \<Rightarrow> [] | Some q \<Rightarrow> [(nd_id r, q)])
     (active_nodes m))"

definition dependency_rows :: "map_db \<Rightarrow> (string \<times> string) list" where
  "dependency_rows m = map (\<lambda>e. (ed_source e, ed_target e)) (filter (\<lambda>e. ed_kind e = depends_on) (edges m))"

definition dependency_graph :: "map_db \<Rightarrow> adjacency" where
  "dependency_graph m =
     map (\<lambda>i. (i, map snd (filter (\<lambda>(s, _). s = i) (dependency_rows m)))) (active_ids m)"

definition hierarchy_graph :: "map_db \<Rightarrow> adjacency" where
  "hierarchy_graph m = map (\<lambda>(i, q). (i, [q])) (parent_links m)"

definition validate_graph :: "nat \<Rightarrow> map_db \<Rightarrow> unit result" where
  "validate_graph frames m =
     (if \<not> list_all (\<lambda>(_, q). q \<in> set (active_ids m)) (parent_links m)
      then Inl (ValidationError ''plan_node'' ''Node parent does not exist'')
      else if \<not> list_all (\<lambda>(s, t). s \<in> set (active_ids m) \<and> t \<in> set (active_ids m)) (dependency_rows m)
      then Inl (ValidationError ''plan_edge'' ''Dependency endpoint does not exist'')
      else (case assert_acyclic frames (dependency_graph m) ''dependency_cycle'' of
              Inl e \<Rightarrow> Inl e
            | Inr _ \<Rightarrow> assert_acyclic frames (hierarchy_graph m) ''hierarchy_cycle''))"

definition patch_plan ::
  "(dict \<Rightarrow> string \<Rightarrow> json \<Rightarrow> dict result) \<Rightarrow> nat \<Rightarrow> plan_patch \<Rightarrow> map_db
     \<Rightarrow> ((string list \<times> int) \<times> map_db) result" where
  "patch_plan json_set frames p m =
     bind_result (assert_map_ready m) (\<lambda>_.
     bind_result (assert_patch_mutable m p) (\<lambda>_.
     bind_result (apply_patch json_set p m) (\<lambda>m'.
     bind_result (validate_graph frames m') (\<lambda>_.
       Inr ((changed_ids p, latest_change_seq (verif m')), m')))))"

section \<open>Reading nodes\<close>

definition node_dict :: "map_db \<Rightarrow> node_row \<Rightarrow> dict" where
  "node_dict m r =
     foldl (\<lambda>d (k, v). dict_put d k v) (nd_payload r)
       [(''id'', JStr (nd_id r)), (''parent_id'', opt_str (nd_parent r)),
        (''order'', JInt (nd_order r)), (''status'', JStr (status_name (nd_status r))),
        (''node_type'', JStr (nd_type r)), (''title'', JStr (nd_title r)),
        (''goal'', JStr (nd_goal r)),
        (''depends_on'', JList (map JStr (sort (dependencies m (nd_id r)))))]"

definition get_node :: "map_db \<Rightarrow> string \<Rightarrow> dict result" where
  "get_node m i =
     (case find_node m i of None \<Rightarrow> Inl (NotFoundError ''plan_node'') | Some r \<Rightarrow> Inr (node_dict m r))"

definition max_page_limit :: int where
  "max_page_limit = 200"

definition bounded_limit :: "int \<Rightarrow> int" where
  "bounded_limit limit = max 1 (min limit max_page_limit)"

text \<open>
  Pages of the children of a node. A cursor is the order and identifier of the last node of a
  page; its text is opaque to clients. The default cursor is never compared with.
\<close>

type_synonym node_cursor = "int \<times> string"

definition node_key :: "node_row \<Rightarrow> node_cursor" where
  "node_key r = (nd_order r, nd_id r)"

definition after_cursor :: "node_cursor option \<Rightarrow> node_row \<Rightarrow> bool" where
  "after_cursor c r =
     (case c of None \<Rightarrow> True
      | Some (o', i) \<Rightarrow> nd_order r > o' \<or> (nd_order r = o' \<and> nd_id r > i))"

definition child_rows :: "map_db \<Rightarrow> string option \<Rightarrow> node_row list" where
  "child_rows m parent =
     sort_key nd_order (sort_key nd_id (filter (\<lambda>r. nd_parent r = parent) (active_nodes m)))"

definition children ::
  "map_db \<Rightarrow> string option \<Rightarrow> node_cursor option \<Rightarrow> int \<Rightarrow> dict list \<times> node_cursor option" where
  "children m parent cursor limit =
     (let page_limit = nat (bounded_limit limit);
          rows = take (page_limit + 1) (filter (after_cursor cursor) (child_rows m parent));
          items = take page_limit rows
      in (map (node_dict m) items,
          if length rows > page_limit \<and> items \<noteq> [] then Some (node_key (last items)) else None))"

section \<open>Running nodes\<close>

definition set_node_status :: "map_db \<Rightarrow> string \<Rightarrow> string \<Rightarrow> (dict \<times> map_db) result" where
  "set_node_status m i status =
     (case map_of node_statuses status of
        None \<Rightarrow> Inl (ValidationError ''plan_node'' ''Unsupported node status'')
      | Some st \<Rightarrow>
          (case find_node m i of
             None \<Rightarrow> Inl (NotFoundError ''plan_node'')
           | Some _ \<Rightarrow>
               (let m' = log_change
                      (m\<lparr>nodes := update_rows (\<lambda>r. nd_id r = i) (\<lambda>r. r\<lparr>nd_status := st\<rparr>) (nodes m)\<rparr>)
                      ''plan_node'' i ''status'' [(''status'', JStr status)]
                in bind_result (get_node m' i) (\<lambda>d. Inr (d, m')))))"

definition unmet_dependency :: "map_db \<Rightarrow> string \<Rightarrow> bool" where
  "unmet_dependency m i \<longleftrightarrow>
     list_ex (\<lambda>d. list_ex (\<lambda>r. nd_id r = d \<and> nd_status r \<noteq> Node_Completed) (nodes m)) (dependencies m i)"

definition startable :: "map_db \<Rightarrow> string \<Rightarrow> node_row \<Rightarrow> bool" where
  "startable m i r \<longleftrightarrow> nd_id r = i \<and> \<not> nd_archived r \<and> nd_status r \<in> {Node_Pending, Node_Ready}
     \<and> \<not> unmet_dependency m i"

definition start_node :: "map_db \<Rightarrow> string \<Rightarrow> (dict \<times> map_db) result" where
  "start_node m i =
     (if rowcount (startable m i) (nodes m) = 0
      then (case find_node m i of
              None \<Rightarrow> Inl (NotFoundError ''plan_node'')
            | Some _ \<Rightarrow> Inl (ConflictError ''plan_node'' ''node_not_runnable''))
      else (let m' = log_change
                   (m\<lparr>nodes := update_rows (startable m i) (\<lambda>r. r\<lparr>nd_status := Node_Running\<rparr>) (nodes m)\<rparr>)
                   ''plan_node'' i ''status'' [(''status'', JStr ''running'')]
            in bind_result (get_node m' i) (\<lambda>d. Inr (d, m'))))"

section \<open>Child agents\<close>

definition dispatch_roles :: "(string \<times> node_status) list" where
  "dispatch_roles = [(''mapping'', Mapping_Status), (''executing'', Executing)]"

text \<open>\<open>fresh\<close> is the spawn message identifier generated when the node has none yet.\<close>

definition dispatch_child_agent ::
  "map_db \<Rightarrow> string \<Rightarrow> string \<Rightarrow> string \<Rightarrow> (string \<times> map_db) result" where
  "dispatch_child_agent m fresh i role =
     (let spawned = find (\<lambda>f. sf_node f = i) (spawns m);
          message_id = (case spawned of None \<Rightarrow> fresh | Some f \<Rightarrow> sf_message_id f)
      in case map_of dispatch_roles role of
           None \<Rightarrow> Inl (ValidationError ''plan_node'' ''Unsupported dispatch target role'')
         | Some st \<Rightarrow>
             (case find_node m i of
                None \<Rightarrow> Inl (ValidationError ''plan_node'' ''Node not found'')
              | Some _ \<Rightarrow>
                  Inr (message_id, log_change
                    (m\<lparr>nodes := update_rows (\<lambda>r. nd_id r = i) (\<lambda>r. r\<lparr>nd_status := st\<rparr>) (nodes m),
                       spawns :=
                         (if \<exists>f \<in> set (spawns m). sf_message_id f = message_id \<or> sf_node f = i
                          then spawns m
                          else spawns m @ [\<lparr>sf_message_id = message_id, sf_node = i, sf_role = role,
                                 sf_status = ''pending''\<rparr>])\<rparr>)
                    ''plan_node'' i ''dispatch'' [(''target_role'', JStr role)])))"

record child_result =
  chr_node :: string
  chr_status :: string
  chr_applied :: bool

definition child_result_id :: "string \<Rightarrow> string" where
  "child_result_id spawn = ''child-result-'' @ spawn"

definition child_outcomes :: "string list" where
  "child_outcomes = [''completed'', ''failed'', ''cancelled'']"

definition apply_child_result ::
  "map_db \<Rightarrow> string \<Rightarrow> string \<Rightarrow> string \<Rightarrow> dict \<Rightarrow> (child_result \<times> map_db) result" where
  "apply_child_result m message_id i status payload =
     (if status \<notin> set child_outcomes
      then Inl (ValidationError ''child_result'' ''Unsupported child result status'')
      else let plan_status = (if status = ''completed'' then Node_Completed else Node_Failed) in
      case find (\<lambda>r. cr_message_id r = message_id) (receipts m) of
        Some r \<Rightarrow> Inr (\<lparr>chr_node = cr_receipt_node r, chr_status = cr_result_status r,
                        chr_applied = False\<rparr>, m)
      | None \<Rightarrow>
          (case find (\<lambda>f. sf_node f = i) (spawns m) of
             None \<Rightarrow> Inl (ValidationError ''child_result'' ''Child result does not match'')
           | Some f \<Rightarrow>
               (if message_id \<noteq> child_result_id (sf_message_id f)
                then Inl (ValidationError ''child_result'' ''Child result does not match'')
                else Inr (\<lparr>chr_node = i, chr_status = status, chr_applied = True\<rparr>,
                  log_change
                    (m\<lparr>nodes := update_rows (\<lambda>r. nd_id r = i \<and> \<not> nd_archived r)
                                  (\<lambda>r. r\<lparr>nd_status := plan_status\<rparr>) (nodes m),
                       spawns := update_rows (\<lambda>s. sf_node s = i) (\<lambda>s. s\<lparr>sf_status := status\<rparr>) (spawns m),
                       receipts := receipts m @ [\<lparr>cr_message_id = message_id, cr_receipt_node = i,
                                     cr_result_status = status, cr_result = payload\<rparr>]\<rparr>)
                    ''plan_node'' i ''child_result''
                    [(''message_id'', JStr message_id), (''result_status'', JStr status)]))))"

section \<open>Interfaces, the consistency gate and verification\<close>

definition touches :: "string \<Rightarrow> interface_row \<Rightarrow> bool" where
  "touches i r \<longleftrightarrow> mi_from r = i \<or> mi_to r = i"

definition declare_interface ::
  "map_db \<Rightarrow> string \<Rightarrow> string \<Rightarrow> string \<Rightarrow> string \<Rightarrow> dict \<Rightarrow> dict \<Rightarrow> rat
     \<Rightarrow> (interface_row \<times> map_db) result" where
  "declare_interface m fresh from_module to_module symbol signature mock confidence =
     (if fresh \<in> set (map mi_id (interfaces m)) then Inl integrity_error
      else let r = \<lparr>mi_id = fresh, mi_from = from_module, mi_to = to_module, mi_symbol = symbol,
             mi_signature = signature, mi_mock = mock, mi_confidence = confidence,
             mi_status = ''declared''\<rparr>
      in Inr (r, m\<lparr>interfaces := interfaces m @ [r]\<rparr>))"

definition mock_readonly_paths :: "map_db \<Rightarrow> string \<Rightarrow> string list" where
  "mock_readonly_paths m i =
     concat (map (\<lambda>r. case dict_get (mi_mock r) ''file_path'' of
         JStr path \<Rightarrow> if strip path = [] then []
                      else [replace_char (char_of (92::nat)) ''/'' (strip path)]
       | _ \<Rightarrow> []) (filter (touches i) (interfaces m)))"

definition consistency_gate_error :: string where
  "consistency_gate_error = ''consistency_gate_failed''"

definition tdd_gate_error :: string where
  "tdd_gate_error = ''tdd_gate_failed''"

definition check_consistency_gate :: "map_db \<Rightarrow> string \<Rightarrow> string list \<Rightarrow> unit result" where
  "check_consistency_gate m i exposed =
     (let declared = map mi_symbol (filter (touches i) (interfaces m)) in
      if filter (\<lambda>s. s \<notin> set declared) exposed \<noteq> []
      then Inl (ConflictError ''consistency_gate'' consistency_gate_error)
      else Inr ())"

definition verify_gate :: "map_db \<Rightarrow> string \<Rightarrow> string list \<Rightarrow> unit result" where
  "verify_gate m i exposed =
     bind_result (check_consistency_gate m i exposed) (\<lambda>_.
       case get_modification_workflow (verif m) i of
         None \<Rightarrow> Inl (ConflictError ''modification_workflow'' tdd_gate_error)
       | Some w \<Rightarrow>
           (if wf_state w \<in> {READY_TO_PUBLISH, PUBLISHED} then Inr ()
            else Inl (ConflictError ''modification_workflow'' tdd_gate_error)))"

definition put_status :: "string \<Rightarrow> node_status \<Rightarrow> map_db \<Rightarrow> map_db" where
  "put_status i st m =
     m\<lparr>nodes := update_rows (\<lambda>r. nd_id r = i) (\<lambda>r. r\<lparr>nd_status := st\<rparr>) (nodes m)\<rparr>"

text \<open>
  A refused verification is recorded in a transaction of its own and then raised, so the
  operation returns its answer and the store in either case.
\<close>

definition verify_node :: "map_db \<Rightarrow> string \<Rightarrow> string list \<Rightarrow> dict result \<times> map_db" where
  "verify_node m i exposed =
     (case verify_gate m i exposed of
        Inr _ \<Rightarrow>
          (let m' = log_change (put_status i Node_Completed m) ''plan_node'' i ''verify_passed'' []
           in (get_node m' i, m'))
      | Inl e \<Rightarrow>
          (let failed = (error_code e \<noteq> tdd_gate_error) in
           (Inl e, log_change (if failed then put_status i Node_Failed m else m) ''plan_node'' i
              (if failed then ''verify_failed'' else ''verify_blocked'')
              [(''error'', JStr (error_code e))])))"

section \<open>Drift\<close>

definition mark_drifted :: "map_db \<Rightarrow> string list \<Rightarrow> map_db" where
  "mark_drifted m ids =
     foldl (\<lambda>m' i. m'\<lparr>nodes := update_rows (\<lambda>r. nd_id r = i \<and> \<not> nd_archived r)
                        (\<lambda>r. r\<lparr>nd_status := Drifted\<rparr>) (nodes m')\<rparr>) m ids"

end
