(* ===== verification/Plan_Graph_Properties.thy ===== *)
theory Plan_Graph_Properties
  imports Plan_Graph Gate_Properties
begin

text \<open>
  What keeps a plan executable: the graph stays well formed and acyclic under every operation, the
  cycle check ends with the right verdict, patches leave running nodes alone, a node starts only
  on completed dependencies and there is always an order in which the whole plan can be worked off.
\<close>

section \<open>The invariant\<close>

definition graph_ok :: "map_db \<Rightarrow> bool" where
  "graph_ok m \<longleftrightarrow>
     (\<forall>(i, q) \<in> set (parent_links m). q \<in> set (active_ids m))
   \<and> (\<forall>(s, t) \<in> set (dependency_rows m). s \<in> set (active_ids m) \<and> t \<in> set (active_ids m))
   \<and> acyclic (set (dependency_rows m)) \<and> acyclic (set (parent_links m))"

definition keys_ok :: "map_db \<Rightarrow> bool" where
  "keys_ok m \<longleftrightarrow> unique_key nd_id (nodes m) \<and> distinct (edges m)"

definition map_ok :: "map_db \<Rightarrow> bool" where
  "map_ok m \<longleftrightarrow> keys_ok m \<and> graph_ok m"

lemma distinct_active_ids: "keys_ok m \<Longrightarrow> distinct (active_ids m)"
  by (simp add: keys_ok_def active_ids_def active_nodes_def unique_key_def distinct_map_filter)

lemma find_node_SomeD: "find_node m i = Some r \<Longrightarrow> r \<in> set (nodes m) \<and> nd_id r = i \<and> \<not> nd_archived r"
  by (auto simp: find_node_def dest: find_SomeD)

lemma find_node_mem:
  assumes "keys_ok m" and "r \<in> set (nodes m)" and "\<not> nd_archived r"
  shows "find_node m (nd_id r) = Some r"
proof (cases "find_node m (nd_id r)")
  case None
  with assms(2,3) show ?thesis by (auto simp: find_node_def dest: find_NoneD)
next
  case (Some q)
  from find_node_SomeD [OF this] assms show ?thesis
    using unique_keyD [of nd_id "nodes m" q r] Some by (simp add: keys_ok_def)
qed

lemma active_ids_iff: "i \<in> set (active_ids m) \<longleftrightarrow> (\<exists>r. find_node m i = Some r)"
proof
  assume "i \<in> set (active_ids m)"
  then obtain r where "r \<in> set (nodes m)" "\<not> nd_archived r" "nd_id r = i"
    by (auto simp: active_ids_def active_nodes_def)
  then show "\<exists>r. find_node m i = Some r"
    by (cases "find_node m i") (auto simp: find_node_def dest: find_NoneD)
next
  assume "\<exists>r. find_node m i = Some r"
  then show "i \<in> set (active_ids m)"
    by (auto simp: active_ids_def active_nodes_def dest!: find_node_SomeD)
qed

section \<open>The two graphs\<close>

lemma map_of_graph:
  "map_of (map (\<lambda>i. (i, f i)) is) n = (if n \<in> set is then Some (f n) else None)"
  by (induction "is") auto

lemma dependency_graph_edges:
  assumes "\<forall>(s, t) \<in> set (dependency_rows m). s \<in> set (active_ids m) \<and> t \<in> set (active_ids m)"
  shows "edges_of (dependency_graph m) = set (dependency_rows m)"
  using assms
  by (force simp: edges_of_def neighbours_def dependency_graph_def map_of_graph split: if_splits)

lemma parent_links_keys:
  assumes "keys_ok m"
  shows "distinct (map fst (parent_links m))"
proof -
  have "distinct (map nd_id rs) \<Longrightarrow>
      distinct (map fst (concat (map (\<lambda>r. case nd_parent r of None \<Rightarrow> [] | Some q \<Rightarrow> [(nd_id r, q)]) rs)))"
    for rs
    by (induction rs) (auto split: option.splits)
  with distinct_active_ids [OF assms] show ?thesis
    by (simp add: parent_links_def active_ids_def)
qed

lemma hierarchy_graph_edges:
  assumes "keys_ok m"
  shows "edges_of (hierarchy_graph m) = set (parent_links m)"
proof -
  have "map_of (map (\<lambda>(i, q). (i, [q])) ps) n = map_option (\<lambda>q. [q]) (map_of ps n)"
    for ps :: "(string \<times> string) list" and n
    by (induction ps) auto
  moreover have "(n, t) \<in> set (parent_links m) \<longleftrightarrow> map_of (parent_links m) n = Some t" for n t
    using parent_links_keys [OF assms] by simp
  ultimately show ?thesis
    by (auto simp: edges_of_def neighbours_def hierarchy_graph_def split: option.splits)
qed

lemma parent_link_source: "(i, q) \<in> set (parent_links m) \<Longrightarrow> i \<in> set (active_ids m)"
  by (auto simp: parent_links_def active_ids_def split: option.splits)

text \<open>
  With a frame for every active node the validation ends with the right verdict.
\<close>

lemma validate_graph_verdict:
  assumes "keys_ok m" and "length (active_ids m) < frames"
  shows "validate_graph frames m = Inr () \<longleftrightarrow> graph_ok m"
    and "validate_graph frames m \<noteq> Inl recursion_error"
proof -
  let ?refs = "(\<forall>(i, q) \<in> set (parent_links m). q \<in> set (active_ids m))
    \<and> (\<forall>(s, t) \<in> set (dependency_rows m). s \<in> set (active_ids m) \<and> t \<in> set (active_ids m))"
  have card: "card (set (active_ids m)) < frames"
    using assms(2) card_length [of "active_ids m"] by simp
  have "validate_graph frames m = (if \<not> ?refs then validate_graph frames m
      else if \<not> acyclic (set (dependency_rows m)) then Inl (cycle_error ''dependency_cycle'')
      else if \<not> acyclic (set (parent_links m)) then Inl (cycle_error ''hierarchy_cycle'')
      else Inr ())"
  proof (cases ?refs)
    case True
    then have d: "edges_of (dependency_graph m) = set (dependency_rows m)"
      by (intro dependency_graph_edges) auto
    have h: "edges_of (hierarchy_graph m) = set (parent_links m)"
      using assms(1) by (rule hierarchy_graph_edges)
    have "assert_acyclic frames (dependency_graph m) ''dependency_cycle'' =
        (if acyclic (set (dependency_rows m)) then Inr () else Inl (cycle_error ''dependency_cycle''))"
      unfolding d [symmetric]
      by (rule assert_acyclic_correct [of "set (active_ids m)"])
        (use True d card in \<open>auto simp: dependency_graph_def\<close>)
    moreover have "assert_acyclic frames (hierarchy_graph m) ''hierarchy_cycle'' =
        (if acyclic (set (parent_links m)) then Inr () else Inl (cycle_error ''hierarchy_cycle''))"
      unfolding h [symmetric]
      by (rule assert_acyclic_correct [of "set (active_ids m)"])
        (use True h card in \<open>auto simp: hierarchy_graph_def dest: parent_link_source\<close>)
    ultimately show ?thesis using True by (auto simp: validate_graph_def list_all_iff)
  qed auto
  moreover have "\<not> ?refs \<Longrightarrow> \<exists>r t. validate_graph frames m = Inl (ValidationError r t)"
    by (auto simp: validate_graph_def list_all_iff)
  ultimately show "validate_graph frames m = Inr () \<longleftrightarrow> graph_ok m"
    and "validate_graph frames m \<noteq> Inl recursion_error"
    by (auto simp: graph_ok_def cycle_error_def recursion_error_def split: if_splits)
qed

lemma validated_graph_ok:
  assumes "keys_ok m" and "validate_graph frames m = Inr ()"
  shows "graph_ok m"
proof -
  from assms(2) have refs:
    "\<forall>(i, q) \<in> set (parent_links m). q \<in> set (active_ids m)"
    "\<forall>(s, t) \<in> set (dependency_rows m). s \<in> set (active_ids m) \<and> t \<in> set (active_ids m)"
    and d: "assert_acyclic frames (dependency_graph m) ''dependency_cycle'' = Inr ()"
    and h: "assert_acyclic frames (hierarchy_graph m) ''hierarchy_cycle'' = Inr ()"
    by (auto simp: validate_graph_def list_all_iff split: if_splits sum.splits)
  from accepted_acyclic [OF d] accepted_acyclic [OF h] refs show ?thesis
    by (simp add: graph_ok_def dependency_graph_edges [OF refs(2)] hierarchy_graph_edges [OF assms(1)])
qed

section \<open>Operations keep the invariant\<close>

lemma each_invariant:
  assumes "each f xs s = Inr s'" and "I s"
    and "\<And>x t t'. x \<in> set xs \<Longrightarrow> I t \<Longrightarrow> f x t = Inr t' \<Longrightarrow> I t'"
  shows "I s'"
  using assms
proof (induction xs arbitrary: s)
  case (Cons x xs)
  from Cons.prems(1) obtain t where t: "f x s = Inr t" "each f xs t = Inr s'"
    by (auto split: sum.splits)
  have "I t" using Cons.prems(3) [OF _ Cons.prems(2) t(1)] by simp
  then show ?case using Cons.IH [OF t(2)] Cons.prems(3) by (meson list.set_intros(2))
qed simp

lemma apply_patch_invariant:
  assumes "apply_patch js p m = Inr m'" and "I m"
    and "\<And>n a b. n \<in> set (pp_add p) \<Longrightarrow> I a \<Longrightarrow> add_node n a = Inr b \<Longrightarrow> I b"
    and "\<And>u a b. u \<in> set (pp_update p) \<Longrightarrow> I a \<Longrightarrow> update_node js u a = Inr b \<Longrightarrow> I b"
    and "\<And>d a b. d \<in> set (pp_replace p) \<Longrightarrow> I a \<Longrightarrow> replace_dependencies d a = Inr b \<Longrightarrow> I b"
    and "\<And>i a b. i \<in> set (pp_remove p) \<Longrightarrow> I a \<Longrightarrow> remove_node i a = Inr b \<Longrightarrow> I b"
  shows "I m'"
proof -
  from assms(1) obtain m1 m2 m3 where
    s: "each add_node (pp_add p) m = Inr m1" "each (update_node js) (pp_update p) m1 = Inr m2"
      "each replace_dependencies (pp_replace p) m2 = Inr m3" "each remove_node (pp_remove p) m3 = Inr m'"
    by (auto simp: apply_patch_def bind_result_Inr)
  note inv = each_invariant [where I = I]
  have "I m1" by (rule inv [OF s(1) assms(2,3)])
  then have "I m2" by (rule inv [OF s(2) _ assms(4)])
  then have "I m3" by (rule inv [OF s(3) _ assms(5)])
  then show ?thesis by (rule inv [OF s(4) _ assms(6)])
qed

named_theorems plan_simps \<open>what the plan operations leave alone\<close>

lemma log_change_simps [simp, plan_simps]:
  "nodes (log_change m a b c d) = nodes m" "edges (log_change m a b c d) = edges m"
  "spawns (log_change m a b c d) = spawns m" "receipts (log_change m a b c d) = receipts m"
  "interfaces (log_change m a b c d) = interfaces m" "metadata (log_change m a b c d) = metadata m"
  by (simp_all add: log_change_def)

text \<open>The invariant only looks at the identifiers, parents and archive marks, and the edges.\<close>

definition skeleton :: "map_db \<Rightarrow> (string \<times> string option \<times> bool) list \<times> edge_row list" where
  "skeleton m = (map (\<lambda>r. (nd_id r, nd_parent r, nd_archived r)) (nodes m), edges m)"

lemma skeleton_map_ok:
  assumes "skeleton m' = skeleton m"
  shows "map_ok m' = map_ok m"
proof -
  let ?s = "\<lambda>r. (nd_id r, nd_parent r, nd_archived r)"
  let ?rows = "\<lambda>m. filter (\<lambda>(_, _, a). \<not> a) (map ?s (nodes m))"
  have rows: "?rows m' = ?rows m" and e: "edges m' = edges m"
    using assms by (simp_all add: skeleton_def)
  have "map nd_id (nodes m) = map fst (map ?s (nodes m))" for m :: map_db by simp
  moreover have "active_ids m = map fst (?rows m)" for m
    by (simp add: active_ids_def active_nodes_def filter_map comp_def)
  moreover have "parent_links m =
      concat (map (\<lambda>(i, p, _). case p of None \<Rightarrow> [] | Some q \<Rightarrow> [(i, q)]) (?rows m))" for m
    by (simp add: parent_links_def active_nodes_def filter_map comp_def)
  moreover have "map ?s (nodes m') = map ?s (nodes m)" using assms by (simp add: skeleton_def)
  ultimately have "map nd_id (nodes m') = map nd_id (nodes m)" "active_ids m' = active_ids m"
    "parent_links m' = parent_links m"
    using rows by presburger+
  with e show ?thesis
    by (simp add: map_ok_def keys_ok_def graph_ok_def unique_key_def dependency_rows_def)
qed

lemma update_skeleton [simp]:
  assumes "\<And>r. P r \<Longrightarrow> (nd_id (f r), nd_parent (f r), nd_archived (f r)) = (nd_id r, nd_parent r, nd_archived r)"
  shows "skeleton (m\<lparr>nodes := update_rows P f (nodes m)\<rparr>) = skeleton m"
  using assms by (simp add: skeleton_def map_update_rows)

lemma skeleton_simps [simp]:
  "skeleton (log_change m a b c d) = skeleton m" "skeleton (spawns_update g m) = skeleton m"
  "skeleton (receipts_update h m) = skeleton m" "skeleton (metadata_update k m) = skeleton m"
  "skeleton (interfaces_update l m) = skeleton m"
  by (simp_all add: skeleton_def)

lemma set_node_status_ok: "set_node_status m i st = Inr (d, m') \<Longrightarrow> map_ok m' = map_ok m"
  by (rule skeleton_map_ok)
    (auto simp: set_node_status_def Let_def bind_result_Inr split: option.splits)

lemma start_node_ok: "start_node m i = Inr (d, m') \<Longrightarrow> map_ok m' = map_ok m"
  by (rule skeleton_map_ok)
    (auto simp: start_node_def Let_def bind_result_Inr split: option.splits if_splits)

lemma dispatch_ok: "dispatch_child_agent m fresh i role = Inr (d, m') \<Longrightarrow> map_ok m' = map_ok m"
  by (rule skeleton_map_ok)
    (auto simp: dispatch_child_agent_def Let_def split: option.splits if_splits)

lemma child_result_ok: "apply_child_result m mid i st pl = Inr (d, m') \<Longrightarrow> map_ok m' = map_ok m"
  by (rule skeleton_map_ok)
    (auto simp: apply_child_result_def Let_def split: option.splits if_splits)

lemma put_status_skeleton [simp]: "skeleton (put_status i st m) = skeleton m"
  by (simp add: put_status_def)

lemma verify_node_ok: "map_ok (snd (verify_node m i exposed)) = map_ok m"
  by (rule skeleton_map_ok) (simp add: verify_node_def Let_def split: sum.splits)

lemma mark_drifted_ok: "map_ok (mark_drifted m ids) = map_ok m"
proof -
  have "skeleton (mark_drifted m ids) = skeleton m"
    unfolding mark_drifted_def by (induction ids arbitrary: m) auto
  then show ?thesis by (rule skeleton_map_ok)
qed

lemma declare_interface_ok:
  "declare_interface m f a b c d e g = Inr (r, m') \<Longrightarrow> map_ok m' = map_ok m"
  by (rule skeleton_map_ok) (auto simp: declare_interface_def Let_def split: if_splits)

lemma set_map_status_ok: "map_ok (set_map_status pid m st reason) = map_ok m"
  by (rule skeleton_map_ok) (simp add: set_map_status_def set_metadata_def)

section \<open>Patches keep the keys\<close>

lemma insert_edge_keys: "insert_edge s t m = Inr m' \<Longrightarrow> keys_ok m \<Longrightarrow> keys_ok m'"
  by (auto simp: insert_edge_def keys_ok_def Let_def split: if_splits)

lemma insert_edges_keys: "each (insert_edge s) ts m = Inr m' \<Longrightarrow> keys_ok m \<Longrightarrow> keys_ok m'"
  using each_invariant [where I = keys_ok] insert_edge_keys by blast

lemma add_node_keys:
  assumes "add_node n m = Inr m'" and "keys_ok m"
  shows "keys_ok m'"
proof -
  from assms(1) obtain m1 where "np_id n \<notin> set (map nd_id (nodes m))"
    and e: "each (insert_edge (np_id n)) (np_depends_on n)
              (m\<lparr>nodes := nodes m @ [\<lparr>nd_id = np_id n, nd_parent = np_parent n,
                  nd_order = np_order n, nd_status = Node_Pending, nd_type = np_type n,
                  nd_title = np_title n, nd_goal = np_goal n, nd_payload = np_extra n,
                  nd_archived = False\<rparr>]\<rparr>) = Inr m1"
    and "m' = log_change m1 ''plan_node'' (np_id n) ''add'' []"
    by (auto simp: add_node_def split: if_splits sum.splits)
  moreover from this(1) assms(2) have "keys_ok m1"
    by (intro insert_edges_keys [OF e]) (auto simp: keys_ok_def unique_key_append1 image_iff)
  ultimately show ?thesis by (simp add: keys_ok_def)
qed

lemma assign_columns_same:
  "assign_columns js u r = Inr r' \<Longrightarrow> nd_id r' = nd_id r \<and> nd_archived r' = nd_archived r"
  by (auto simp: assign_columns_def bind_result_Inr)

lemma update_node_row:
  assumes "update_node js u m = Inr m'"
  obtains r r' where "find_node m (nu_id u) = Some r" "nd_id r' = nu_id u"
    "nodes m' = update_rows (\<lambda>x. nd_id x = nu_id u) (\<lambda>_. r') (nodes m)" "edges m' = edges m"
  using assms
  by (auto simp: update_node_def bind_result_Inr split: option.splits if_splits
      dest!: find_node_SomeD assign_columns_same)

lemma update_node_keys: "update_node js u m = Inr m' \<Longrightarrow> keys_ok m \<Longrightarrow> keys_ok m'"
  by (erule update_node_row) (simp add: keys_ok_def unique_key_update)

lemma replace_dependencies_keys:
  assumes "replace_dependencies d m = Inr m'" and "keys_ok m"
  shows "keys_ok m'"
proof -
  from assms(1) obtain m1 where e: "each (insert_edge (dr_node d)) (dr_depends_on d)
        (m\<lparr>edges := filter (\<lambda>e. \<not> (ed_source e = dr_node d \<and> ed_kind e = depends_on)) (edges m)\<rparr>)
      = Inr m1"
    and "m' = log_change m1 ''plan_edge'' (dr_node d) ''replace_dependencies'' []"
    by (auto simp: replace_dependencies_def split: option.splits sum.splits)
  moreover have "keys_ok m1" using assms(2) by (intro insert_edges_keys [OF e]) (simp add: keys_ok_def)
  ultimately show ?thesis by (simp add: keys_ok_def)
qed

lemma remove_node_keys: "remove_node i m = Inr m' \<Longrightarrow> keys_ok m \<Longrightarrow> keys_ok m'"
  by (auto simp: remove_node_def keys_ok_def unique_key_update split: option.splits)

lemma apply_patch_keys: "apply_patch js p m = Inr m' \<Longrightarrow> keys_ok m \<Longrightarrow> keys_ok m'"
  by (erule apply_patch_invariant [where I = keys_ok])
    (auto intro: add_node_keys update_node_keys replace_dependencies_keys remove_node_keys)

lemma patch_map_ok:
  assumes "patch_plan js frames p m = Inr (res, m')" and "keys_ok m"
  shows "map_ok m'"
proof -
  from assms(1) have a: "apply_patch js p m = Inr m'" and v: "validate_graph frames m' = Inr ()"
    by (auto simp: patch_plan_def bind_result_Inr)
  from apply_patch_keys [OF a assms(2)] validated_graph_ok [OF _ v] show ?thesis
    by (simp add: map_ok_def)
qed

end
