(* ===== verification/Plan_Run.thy ===== *)
theory Plan_Run
  imports Plan_Graph_Properties
begin

text \<open>
  Running a plan: the operations of \<^verbatim>\<open>ProjectPlanStore\<close> on the plan as one step relation over
  the database, its invariant, what a patch leaves alone, when a node starts, and that every plan
  can be worked off.
\<close>

section \<open>Histories of a plan\<close>

text \<open>
  One committed transaction of any of the operations, with SQLite's \<^verbatim>\<open>json_set\<close> and the recursion
  limit fixed; the transitions of the modification gate run on the same database.
\<close>

inductive plan_step ::
  "(dict \<Rightarrow> string \<Rightarrow> json \<Rightarrow> dict result) \<Rightarrow> nat \<Rightarrow> map_db \<Rightarrow> map_db \<Rightarrow> bool"
  for js :: "dict \<Rightarrow> string \<Rightarrow> json \<Rightarrow> dict result" and frames :: nat
where
  patched: "patch_plan js frames p m = Inr (res, m') \<Longrightarrow> plan_step js frames m m'"
| status_set: "set_node_status m i st = Inr (d, m') \<Longrightarrow> plan_step js frames m m'"
| started: "start_node m i = Inr (d, m') \<Longrightarrow> plan_step js frames m m'"
| dispatched: "dispatch_child_agent m fresh i role = Inr (sid, m') \<Longrightarrow> plan_step js frames m m'"
| child_result: "apply_child_result m mid i st pl = Inr (r, m') \<Longrightarrow> plan_step js frames m m'"
| verified: "verify_node m i exposed = (answer, m') \<Longrightarrow> plan_step js frames m m'"
| drifted: "mark_drifted m ids = m' \<Longrightarrow> plan_step js frames m m'"
| declared: "declare_interface m fresh a b c sig mock conf = Inr (ifc, m') \<Longrightarrow> plan_step js frames m m'"
| map_marked: "mark_map_status pid m st reason = Inr (rd, m') \<Longrightarrow> plan_step js frames m m'"
| degraded: "mark_map_degraded m reason = (rd, m') \<Longrightarrow> plan_step js frames m m'"
| gate: "apply_event (verif m) i e eid expd payload = Inr (res, s) \<Longrightarrow>
    plan_step js frames m (m\<lparr>verif := s\<rparr>)"

inductive plan_history ::
  "(dict \<Rightarrow> string \<Rightarrow> json \<Rightarrow> dict result) \<Rightarrow> nat \<Rightarrow> map_db \<Rightarrow> map_db \<Rightarrow> bool"
  for js :: "dict \<Rightarrow> string \<Rightarrow> json \<Rightarrow> dict result" and frames :: nat and m0 :: map_db
where
  start: "plan_history js frames m0 m0"
| step: "plan_history js frames m0 m \<Longrightarrow> plan_step js frames m m' \<Longrightarrow> plan_history js frames m0 m'"

definition empty_map :: "int \<Rightarrow> map_db" where
  "empty_map t = \<lparr>nodes = [], edges = [], metadata = [(''scan_status'', ready_status)], interfaces = [],
     spawns = [], receipts = [], verif = empty_store t\<rparr>"

lemma map_ok_empty: "map_ok (empty_map t)"
  by (simp add: map_ok_def keys_ok_def graph_ok_def empty_map_def unique_key_def parent_links_def
      dependency_rows_def active_nodes_def acyclic_def)

lemma map_ok_keys: "map_ok m \<Longrightarrow> keys_ok m"
  by (simp add: map_ok_def)

lemma plan_step_ok:
  assumes "plan_step js frames m m'" and "map_ok m"
  shows "map_ok m'"
  using assms
proof cases
  case (patched p res)
  with assms(2) show ?thesis by (blast intro: patch_map_ok map_ok_keys)
next
  case (verified i exposed answer)
  with verify_node_ok [of m i exposed] assms(2) show ?thesis by simp
next
  case (map_marked pid st reason rd)
  then have "m' = set_map_status pid m st reason"
    by (simp add: mark_map_status_def Let_def split: if_splits)
  with assms(2) show ?thesis by (simp add: set_map_status_ok)
next
  case (degraded reason rd)
  then have "skeleton m' = skeleton m"
    by (auto simp: mark_map_degraded_def Let_def set_metadata_def)
  from skeleton_map_ok [OF this] assms(2) show ?thesis by simp
next
  case (gate i e eid expd payload res s)
  then have "skeleton m' = skeleton m" by (simp add: skeleton_def)
  from skeleton_map_ok [OF this] assms(2) show ?thesis by simp
next
  case (drifted ids)
  with mark_drifted_ok [of m ids] assms(2) show ?thesis by simp
qed (simp_all add: assms(2) set_node_status_ok start_node_ok dispatch_ok child_result_ok
      declare_interface_ok)

text \<open>
  C15. Whatever operations are applied to a well-formed plan, from any number of agents and in any
  order, identifiers stay unique, every parent and every dependency names an active node, and
  neither the dependencies nor the hierarchy have a cycle; a patch that would break this is refused.
\<close>

theorem plan_stays_acyclic:
  assumes "plan_history js frames m0 m" and "map_ok m0"
  shows "map_ok m"
  using assms by (induction rule: plan_history.induct) (auto dest: plan_step_ok)

section \<open>A sample plan\<close>

definition sample_set :: "dict \<Rightarrow> string \<Rightarrow> json \<Rightarrow> dict result" where
  "sample_set d k v = Inr (dict_put d k v)"

definition sample_node :: "string \<Rightarrow> string option \<Rightarrow> string list \<Rightarrow> node_patch" where
  "sample_node i parent deps = \<lparr>np_id = i, np_parent = parent, np_order = 0, np_type = ''task'',
     np_title = i, np_goal = i, np_depends_on = deps, np_extra = []\<rparr>"

definition sample_patch :: plan_patch where
  "sample_patch = \<lparr>pp_update = [], pp_add = [sample_node ''a'' None [], sample_node ''b'' (Some ''a'') [''a''],
     sample_node ''c'' (Some ''a'') [''a'', ''b'']], pp_remove = [], pp_replace = []\<rparr>"

definition state_of :: "'a \<Rightarrow> ('b \<times> 'a) result \<Rightarrow> 'a" where
  "state_of other r = (case r of Inl _ \<Rightarrow> other | Inr (_, s) \<Rightarrow> s)"

definition sample_plan :: map_db where
  "sample_plan = state_of (empty_map 0) (patch_plan sample_set 20 sample_patch (empty_map 0))"

lemma state_of_ok: "is_ok r \<Longrightarrow> \<exists>x. r = Inr (x, state_of other r)"
  by (auto simp: state_of_def is_ok_iff)

lemma sample_patched: "\<exists>res. patch_plan sample_set 20 sample_patch (empty_map 0) = Inr (res, sample_plan)"
proof -
  have "is_ok (patch_plan sample_set 20 sample_patch (empty_map 0))" by code_simp
  then show ?thesis unfolding sample_plan_def by (rule state_of_ok)
qed

theorem plan_stays_acyclic_witness: "map_ok sample_plan \<and> length (nodes sample_plan) = 3"
proof -
  obtain res where "patch_plan sample_set 20 sample_patch (empty_map 0) = Inr (res, sample_plan)"
    using sample_patched by blast
  then have "plan_history sample_set 20 (empty_map 0) sample_plan"
    by (intro plan_history.step [OF plan_history.start]) (rule plan_step.patched)
  from plan_stays_acyclic [OF this map_ok_empty] have "map_ok sample_plan" .
  moreover have "length (nodes sample_plan) = 3" by code_simp
  ultimately show ?thesis by simp
qed

lemma sample_plan_ok: "map_ok sample_plan"
  using sample_patched patch_map_ok map_ok_keys [OF map_ok_empty] by blast

definition sample_running :: map_db where
  "sample_running = state_of sample_plan (start_node sample_plan ''a'')"

lemma sample_started: "\<exists>d. start_node sample_plan ''a'' = Inr (d, sample_running)"
proof -
  have "is_ok (start_node sample_plan ''a'')" by code_simp
  then show ?thesis unfolding sample_running_def by (rule state_of_ok)
qed

lemma sample_running_ok: "map_ok sample_running"
  using sample_started sample_plan_ok by (auto simp: start_node_ok)

section \<open>The validation decides\<close>

text \<open>
  C17. With a stack frame left for every active node, the validation of a plan always ends with a
  verdict, never with an exhausted recursion, and accepts exactly the plans whose parents and
  dependencies name active nodes and whose dependencies and hierarchy are acyclic.
\<close>

theorem validation_decides:
  assumes "keys_ok m" and "length (active_ids m) < frames"
  shows "validate_graph frames m \<noteq> Inl recursion_error
    \<and> (validate_graph frames m = Inr () \<longleftrightarrow>
         (\<forall>(i, q) \<in> set (parent_links m). q \<in> set (active_ids m))
       \<and> (\<forall>(s, t) \<in> set (dependency_rows m). s \<in> set (active_ids m) \<and> t \<in> set (active_ids m))
       \<and> acyclic (set (dependency_rows m)) \<and> acyclic (set (parent_links m)))"
  using validate_graph_verdict [OF assms] by (simp add: graph_ok_def)

theorem validation_decides_witness:
  "validate_graph 4 sample_plan \<noteq> Inl recursion_error \<and> acyclic (set (dependency_rows sample_plan))"
proof -
  have "length (active_ids sample_plan) = 3" "is_ok (validate_graph 4 sample_plan)" by code_simp+
  then show ?thesis
    using validation_decides [OF map_ok_keys [OF sample_plan_ok], of 4] by (auto simp: is_ok_iff)
qed

text \<open>Without a frame for every node the check may be cut off on an acyclic plan.\<close>

lemma recursion_cut_off: "validate_graph 1 sample_plan = Inl recursion_error"
  by code_simp

section \<open>Running nodes and patches\<close>

text \<open>What a patch must keep of a running node: its row and the list of its dependencies.\<close>

definition keeps_node :: "node_row \<Rightarrow> string list \<Rightarrow> map_db \<Rightarrow> bool" where
  "keeps_node r ds m \<longleftrightarrow> r \<in> set (nodes m) \<and> dependencies m (nd_id r) = ds"

lemma keeps_node_log [simp]: "keeps_node r ds (log_change m a b c d) = keeps_node r ds m"
  by (simp add: keeps_node_def dependencies_def)

lemma insert_edges_keeps:
  assumes "each (insert_edge s) ts m = Inr m'" and "keeps_node r ds m" and "s \<noteq> nd_id r"
  shows "keeps_node r ds m'"
  by (rule each_invariant [where I = "keeps_node r ds", OF assms(1,2)])
    (use assms(3) in \<open>auto simp: insert_edge_def keeps_node_def dependencies_def Let_def split: if_splits\<close>)

lemma add_node_keeps:
  assumes "add_node n m = Inr m'" and "keeps_node r ds m"
  shows "keeps_node r ds m'"
proof -
  from assms have new: "np_id n \<noteq> nd_id r"
    by (auto simp: add_node_def keeps_node_def split: if_splits)
  from assms(1) obtain m1 where
    e: "each (insert_edge (np_id n)) (np_depends_on n)
              (m\<lparr>nodes := nodes m @ [\<lparr>nd_id = np_id n, nd_parent = np_parent n,
                  nd_order = np_order n, nd_status = Node_Pending, nd_type = np_type n,
                  nd_title = np_title n, nd_goal = np_goal n, nd_payload = np_extra n,
                  nd_archived = False\<rparr>]\<rparr>) = Inr m1"
    and m': "m' = log_change m1 ''plan_node'' (np_id n) ''add'' []"
    by (auto simp: add_node_def split: if_splits sum.splits)
  have "keeps_node r ds m1"
    by (rule insert_edges_keeps [OF e _ new])
      (use assms(2) in \<open>simp add: keeps_node_def dependencies_def\<close>)
  with m' show ?thesis by simp
qed

lemma update_node_keeps:
  assumes "update_node js u m = Inr m'" and "keeps_node r ds m" and "nu_id u \<noteq> nd_id r"
  shows "keeps_node r ds m'"
proof (rule update_node_row [OF assms(1)])
  fix r0 r'
  assume n: "nodes m' = update_rows (\<lambda>x. nd_id x = nu_id u) (\<lambda>_. r') (nodes m)"
    and e: "edges m' = edges m"
  from assms(2,3) have "r \<in> set (nodes m')"
    unfolding n in_update_rows keeps_node_def by (intro bexI [of _ r]) auto
  with assms(2) e show ?thesis by (simp add: keeps_node_def dependencies_def)
qed

lemma filter_other_source:
  "s \<noteq> i \<Longrightarrow> filter (\<lambda>e. ed_source e = i \<and> ed_kind e = k)
      (filter (\<lambda>e. ed_source e = s \<longrightarrow> ed_kind e \<noteq> k) es)
    = filter (\<lambda>e. ed_source e = i \<and> ed_kind e = k) es"
  by (induction es) auto

lemma replace_dependencies_keeps:
  assumes "replace_dependencies d m = Inr m'" and "keeps_node r ds m" and "dr_node d \<noteq> nd_id r"
  shows "keeps_node r ds m'"
proof -
  from assms(1) obtain m1 where e: "each (insert_edge (dr_node d)) (dr_depends_on d)
        (m\<lparr>edges := filter (\<lambda>e. \<not> (ed_source e = dr_node d \<and> ed_kind e = depends_on)) (edges m)\<rparr>)
      = Inr m1"
    and m': "m' = log_change m1 ''plan_edge'' (dr_node d) ''replace_dependencies'' []"
    by (auto simp: replace_dependencies_def split: option.splits sum.splits)
  have "keeps_node r ds m1"
    by (rule insert_edges_keeps [OF e _ assms(3)])
      (use assms(2,3) in \<open>simp add: keeps_node_def dependencies_def filter_other_source del: filter_filter\<close>)
  with m' show ?thesis by simp
qed

lemma filter_not_removed:
  assumes "i \<noteq> n" and "i \<notin> set (map ed_target (filter (\<lambda>e. ed_source e = n \<and> ed_kind e = k) es))"
  shows "filter (\<lambda>e. ed_source e = n \<and> ed_kind e = k)
        (filter (\<lambda>e. ed_source e \<noteq> i \<and> ed_target e \<noteq> i) es)
      = filter (\<lambda>e. ed_source e = n \<and> ed_kind e = k) es"
  using assms by (induction es) auto

lemma remove_node_keeps:
  assumes "remove_node i m = Inr m'" and "keeps_node r ds m" and "i \<noteq> nd_id r" and "i \<notin> set ds"
  shows "keeps_node r ds m'"
proof -
  from assms(1) have n: "nodes m' = update_rows (\<lambda>r. nd_id r = i \<and> \<not> nd_archived r)
        (\<lambda>r. r\<lparr>nd_archived := True\<rparr>) (nodes m)"
    and e: "edges m' = filter (\<lambda>e. ed_source e \<noteq> i \<and> ed_target e \<noteq> i) (edges m)"
    by (auto simp: remove_node_def split: option.splits)
  from assms(2,3) have "r \<in> set (nodes m')"
    unfolding n in_update_rows keeps_node_def by (intro bexI [of _ r]) auto
  moreover have "dependencies m' (nd_id r) = dependencies m (nd_id r)"
    using assms(2-4) unfolding dependencies_def e keeps_node_def
    by (subst filter_not_removed) auto
  ultimately show ?thesis using assms(2) by (simp add: keeps_node_def)
qed

lemma apply_patch_keeps:
  assumes "apply_patch js p m = Inr m'" and "keeps_node r ds m"
    and "nd_id r \<notin> set (direct_ids p)" and "\<And>i. i \<in> set (pp_remove p) \<Longrightarrow> i \<notin> set ds"
  shows "keeps_node r ds m'"
proof -
  have ids: "u \<in> set (pp_update p) \<Longrightarrow> nu_id u \<noteq> nd_id r" "d \<in> set (pp_replace p) \<Longrightarrow> dr_node d \<noteq> nd_id r"
    "i \<in> set (pp_remove p) \<Longrightarrow> i \<noteq> nd_id r" for u d i
    using assms(3) by (force simp: direct_ids_def)+
  from assms(1,2) show ?thesis
    by (rule apply_patch_invariant [where I = "keeps_node r ds"])
      (auto intro: add_node_keeps update_node_keeps replace_dependencies_keeps remove_node_keeps
        dest: ids assms(4))
qed

lemma mutable_spares_running:
  assumes "assert_patch_mutable m p = Inr ()" and "r \<in> set (nodes m)" and "is_running r"
  shows "nd_id r \<notin> set (direct_ids p)"
    and "i \<in> set (pp_remove p) \<Longrightarrow> i \<notin> set (dependencies m (nd_id r))"
  using assms
  by (auto simp: assert_patch_mutable_def running_ids_def running_dependents_def filter_empty_conv
      split: if_splits)

text \<open>
  C19. An accepted patch leaves a running node exactly as it was: its row, the list of the nodes it
  depends on, and each of those is still an active node of the plan.
\<close>

theorem patch_spares_running:
  assumes "patch_plan js frames p m = Inr (res, m')" and "map_ok m"
    and "find_node m i = Some r" and "nd_status r = Node_Running"
  shows "find_node m' i = Some r \<and> dependencies m' i = dependencies m i
    \<and> (\<forall>d \<in> set (dependencies m i). find_node m' d \<noteq> None)"
proof -
  from assms(1) have mut: "assert_patch_mutable m p = Inr ()" and ap: "apply_patch js p m = Inr m'"
    by (auto simp: patch_plan_def bind_result_Inr)
  from find_node_SomeD [OF assms(3)] have r: "r \<in> set (nodes m)" "nd_id r = i" "\<not> nd_archived r" by auto
  then have running: "is_running r" using assms(4) by (simp add: is_running_def)
  have ok: "map_ok m'" using assms(1,2) by (blast intro: patch_map_ok map_ok_keys)
  have "keeps_node r (dependencies m i) m'"
    by (rule apply_patch_keeps [OF ap])
      (use r mutable_spares_running [OF mut r(1) running] in \<open>auto simp: keeps_node_def\<close>)
  then have kept: "r \<in> set (nodes m')" "dependencies m' i = dependencies m i"
    using r(2) by (auto simp: keeps_node_def)
  have "find_node m' d \<noteq> None" if "d \<in> set (dependencies m' i)" for d
  proof -
    have "(i, d) \<in> set (dependency_rows m')"
      using that by (auto simp: dependencies_def dependency_rows_def)
    with ok have "d \<in> set (active_ids m')" by (auto simp: map_ok_def graph_ok_def)
    then show ?thesis by (simp add: active_ids_iff)
  qed
  with kept find_node_mem [OF map_ok_keys [OF ok] kept(1) r(3)] r(2) show ?thesis by simp
qed

definition sample_extension :: plan_patch where
  "sample_extension = \<lparr>pp_update = [], pp_add = [sample_node ''d'' None [''a'']], pp_remove = [''c''], pp_replace = []\<rparr>"

definition sample_extended :: map_db where
  "sample_extended = state_of sample_running (patch_plan sample_set 20 sample_extension sample_running)"

theorem patch_spares_running_witness:
  "map_option nd_status (find_node sample_extended ''a'') = Some Node_Running"
proof -
  have "is_ok (patch_plan sample_set 20 sample_extension sample_running)" by code_simp
  from state_of_ok [OF this, of sample_running] obtain res where
    p: "patch_plan sample_set 20 sample_extension sample_running = Inr (res, sample_extended)"
    by (auto simp: sample_extended_def)
  have "map_option nd_status (find_node sample_running ''a'') = Some Node_Running" by code_simp
  then obtain r where r: "find_node sample_running ''a'' = Some r" "nd_status r = Node_Running" by auto
  from patch_spares_running [OF p sample_running_ok r] r show ?thesis by simp
qed

section \<open>What a patch does not protect\<close>

text \<open>
  Updating a completed node returns it to pending even when a running node depends on it: the
  running node is left without the completed dependency it was started on.
\<close>

definition sample_dependent :: map_db where
  "sample_dependent =
     (let m1 = state_of sample_running (set_node_status sample_running ''a'' ''completed'')
      in state_of m1 (start_node m1 ''b''))"

definition sample_reopening :: plan_patch where
  "sample_reopening = \<lparr>pp_update = [\<lparr>nu_id = ''a'', nu_parent = None, nu_order = None, nu_type = None,
     nu_title = Some (Some ''t''), nu_goal = None, nu_extra = []\<rparr>], pp_add = [], pp_remove = [], pp_replace = []\<rparr>"

lemma patch_reopens_dependency:
  "let m = state_of sample_dependent (patch_plan sample_set 20 sample_reopening sample_dependent) in
     map_option nd_status (find_node sample_dependent ''a'') = Some Node_Completed
   \<and> map_option nd_status (find_node m ''b'') = Some Node_Running
   \<and> dependencies m ''b'' = [''a'']
   \<and> map_option nd_status (find_node m ''a'') = Some Node_Pending"
  by code_simp

text \<open>
  A node dispatched a second time keeps its first spawn message, so the second result carries the
  identifier of the first, is taken for a repetition and is dropped: the node stays dispatched.
\<close>

definition sample_redispatched :: map_db where
  "sample_redispatched =
     (let m1 = state_of sample_plan (dispatch_child_agent sample_plan ''s1'' ''a'' ''mapping'');
          m2 = state_of m1 (apply_child_result m1 ''child-result-s1'' ''a'' ''completed'' [])
      in state_of m2 (dispatch_child_agent m2 ''s2'' ''a'' ''executing''))"

lemma redispatch_result_dropped:
  "map_option nd_status (find_node sample_redispatched ''a'') = Some Executing
   \<and> (case apply_child_result sample_redispatched ''child-result-s1'' ''a'' ''completed'' [] of
        Inl _ \<Rightarrow> False | Inr (r, m) \<Rightarrow> \<not> chr_applied r \<and> map_option nd_status (find_node m ''a'') = Some Executing)
   \<and> \<not> is_ok (apply_child_result sample_redispatched ''child-result-s2'' ''a'' ''completed'' [])"
  by code_simp

end
