(* ===== verification/Plan_Progress.thy ===== *)
theory Plan_Progress
  imports Plan_Run
begin

text \<open>
  Progress of a plan: exactly when a node starts, and that a plan whose active nodes are all
  pending, ready or completed can always be worked off to the end.
\<close>

section \<open>Status updates\<close>

definition with_status :: "string \<Rightarrow> node_status \<Rightarrow> map_db \<Rightarrow> map_db" where
  "with_status i st m =
     m\<lparr>nodes := update_rows (\<lambda>r. nd_id r = i \<and> \<not> nd_archived r) (\<lambda>r. r\<lparr>nd_status := st\<rparr>) (nodes m)\<rparr>"

lemma with_status_ok: "map_ok (with_status i st m) = map_ok m"
  by (rule skeleton_map_ok) (simp add: with_status_def)

lemma find_with_status:
  "find_node (with_status i st m) j =
     (if i = j then map_option (\<lambda>r. r\<lparr>nd_status := st\<rparr>) (find_node m j) else find_node m j)"
proof -
  have "find_node (with_status i st m) j =
      map_option (\<lambda>r. if nd_id r = i \<and> \<not> nd_archived r then r\<lparr>nd_status := st\<rparr> else r) (find_node m j)"
    unfolding find_node_def with_status_def by (simp add: find_update_rows)
  then show ?thesis by (cases "find_node m j") (auto dest: find_node_SomeD)
qed

lemma dependencies_with_status [simp]: "dependencies (with_status i st m) j = dependencies m j"
  by (simp add: dependencies_def with_status_def)

lemma find_node_log [simp]: "find_node (log_change m a b c d) i = find_node m i"
  and dependencies_log [simp]: "dependencies (log_change m a b c d) i = dependencies m i"
  by (simp_all add: find_node_def dependencies_def)

lemma active_ids_with_status [simp]: "active_ids (with_status i st m) = active_ids m"
proof -
  have "map nd_id (filter (\<lambda>r. \<not> nd_archived r)
        (update_rows (\<lambda>r. nd_id r = i \<and> \<not> nd_archived r) (\<lambda>r. r\<lparr>nd_status := st\<rparr>) rs))
      = map nd_id (filter (\<lambda>r. \<not> nd_archived r) rs)" for rs
    by (induction rs) auto
  then show ?thesis by (simp add: active_ids_def active_nodes_def with_status_def)
qed

lemma update_as_with_status:
  assumes "keys_ok m" and "find_node m i = Some r"
    and "\<And>q. q \<in> set (nodes m) \<Longrightarrow> P q \<longleftrightarrow> q = r"
  shows "m\<lparr>nodes := update_rows P (\<lambda>q. q\<lparr>nd_status := st\<rparr>) (nodes m)\<rparr> = with_status i st m"
proof -
  have "q \<in> set (nodes m) \<Longrightarrow> P q = (nd_id q = i \<and> \<not> nd_archived q)" for q
    using assms(3) find_node_SomeD [OF assms(2)] assms(1)
    by (auto simp: keys_ok_def dest: unique_keyD)
  then show ?thesis unfolding with_status_def update_rows_def by (simp cong: map_cong)
qed

lemma set_node_status_eq:
  assumes "keys_ok m" and "find_node m i = Some r" and "map_of node_statuses name = Some st"
  shows "\<exists>d. set_node_status m i name = Inr (d, log_change (with_status i st m) ''plan_node'' i ''status''
           [(''status'', JStr name)])"
proof -
  have rows: "q \<in> set (nodes m) \<Longrightarrow> nd_id q = i \<longleftrightarrow> q = r" for q
    using find_node_SomeD [OF assms(2)] assms(1) by (auto simp: keys_ok_def dest: unique_keyD)
  show ?thesis
    by (simp add: set_node_status_def assms(2,3) Let_def get_node_def find_with_status
        update_as_with_status [OF assms(1,2) rows])
qed

section \<open>Starting a node\<close>

definition met :: "map_db \<Rightarrow> string \<Rightarrow> bool" where
  "met m i \<longleftrightarrow> (\<forall>d \<in> set (dependencies m i). \<exists>q. find_node m d = Some q \<and> nd_status q = Node_Completed)"

definition eligible :: "map_db \<Rightarrow> string \<Rightarrow> bool" where
  "eligible m i \<longleftrightarrow> (\<exists>r. find_node m i = Some r \<and> nd_status r \<in> {Node_Pending, Node_Ready}) \<and> met m i"

lemma dependency_active:
  assumes "map_ok m" and "d \<in> set (dependencies m i)"
  obtains q where "find_node m d = Some q"
proof -
  have "(i, d) \<in> set (dependency_rows m)"
    using assms(2) by (auto simp: dependencies_def dependency_rows_def)
  with assms(1) have "d \<in> set (active_ids m)" by (auto simp: map_ok_def graph_ok_def)
  with that show ?thesis by (auto simp: active_ids_iff)
qed

lemma unmet_iff:
  assumes "map_ok m"
  shows "unmet_dependency m i \<longleftrightarrow> \<not> met m i"
proof -
  have "(\<exists>r \<in> set (nodes m). nd_id r = d \<and> nd_status r \<noteq> Node_Completed)
      \<longleftrightarrow> \<not> (\<exists>q. find_node m d = Some q \<and> nd_status q = Node_Completed)"
    if d: "d \<in> set (dependencies m i)" for d
  proof -
    obtain q where q: "find_node m d = Some q" using dependency_active [OF assms d] .
    from find_node_SomeD [OF q] assms q show ?thesis
      by (auto simp: map_ok_def keys_ok_def dest: unique_keyD)
  qed
  then show ?thesis by (auto simp: unmet_dependency_def met_def list_ex_iff)
qed

lemma start_node_eligible:
  assumes "map_ok m" and "eligible m i"
  shows "\<exists>d. start_node m i = Inr (d, log_change (with_status i Node_Running m) ''plan_node'' i ''status''
           [(''status'', JStr ''running'')])"
proof -
  from assms(2) obtain r where r: "find_node m i = Some r" "nd_status r \<in> {Node_Pending, Node_Ready}" "met m i"
    by (auto simp: eligible_def)
  have rows: "q \<in> set (nodes m) \<Longrightarrow> startable m i q \<longleftrightarrow> q = r" for q
    using find_node_SomeD [OF r(1)] assms(1) r(2,3) unmet_iff [OF assms(1)]
    by (auto simp: startable_def map_ok_def keys_ok_def dest: unique_keyD)
  have "rowcount (startable m i) (nodes m) \<noteq> 0"
    using rows find_node_SomeD [OF r(1)] by (auto simp: rowcount_eq_0)
  then show ?thesis
    by (simp add: start_node_def Let_def get_node_def find_with_status r(1)
        update_as_with_status [OF map_ok_keys [OF assms(1)] r(1) rows])
qed

lemma start_node_refused:
  assumes "map_ok m" and "\<not> eligible m i"
  shows "start_node m i = Inl (if find_node m i = None then NotFoundError ''plan_node''
    else ConflictError ''plan_node'' ''node_not_runnable'')"
proof -
  have "\<not> startable m i r" if "r \<in> set (nodes m)" for r
    using that assms find_node_mem [OF map_ok_keys [OF assms(1)] that] unmet_iff [OF assms(1)]
    by (auto simp: startable_def eligible_def)
  then have "rowcount (startable m i) (nodes m) = 0" by (simp add: rowcount_eq_0)
  then show ?thesis by (auto simp: start_node_def split: option.splits)
qed

text \<open>
  A node is started exactly when it is pending or ready and every node it depends on is an
  active node of the plan that is completed; starting it changes the status of this node alone.
\<close>

theorem start_node_iff:
  assumes "map_ok m"
  shows "(is_ok (start_node m i) \<longleftrightarrow>
      (\<exists>r. find_node m i = Some r \<and> (nd_status r = Node_Pending \<or> nd_status r = Node_Ready)
         \<and> (\<forall>d \<in> set (dependencies m i). \<exists>q. find_node m d = Some q \<and> nd_status q = Node_Completed)))
    \<and> (\<forall>d m'. start_node m i = Inr (d, m') \<longrightarrow> edges m' = edges m \<and>
        (\<forall>j. find_node m' j = (if j = i then map_option (\<lambda>r. r\<lparr>nd_status := Node_Running\<rparr>) (find_node m j)
                              else find_node m j)))"
proof (intro conjI allI impI)
  show "is_ok (start_node m i) \<longleftrightarrow>
      (\<exists>r. find_node m i = Some r \<and> (nd_status r = Node_Pending \<or> nd_status r = Node_Ready)
         \<and> (\<forall>d \<in> set (dependencies m i). \<exists>q. find_node m d = Some q \<and> nd_status q = Node_Completed))"
    using start_node_eligible [OF assms, of i] start_node_refused [OF assms, of i]
    by (cases "eligible m i") (auto simp: eligible_def met_def)
next
  fix d m' j
  assume s: "start_node m i = Inr (d, m')"
  then have "eligible m i" using start_node_refused [OF assms, of i] by (cases "eligible m i") auto
  with start_node_eligible [OF assms] s
  have m': "m' = log_change (with_status i Node_Running m) ''plan_node'' i ''status'' [(''status'', JStr ''running'')]"
    by force
  show "find_node m' j = (if j = i then map_option (\<lambda>r. r\<lparr>nd_status := Node_Running\<rparr>) (find_node m j)
      else find_node m j)"
    by (auto simp: m' find_with_status)
  show "edges m' = edges m" by (simp add: m' with_status_def)
qed

theorem start_node_iff_witness:
  "is_ok (start_node sample_plan ''a'') \<and> \<not> is_ok (start_node sample_plan ''b'')"
proof -
  have a: "find_node sample_plan ''a'' \<noteq> None" "map_option nd_status (find_node sample_plan ''a'') = Some Node_Pending"
    "dependencies sample_plan ''a'' = []" "dependencies sample_plan ''b'' = [''a'']" by code_simp+
  with start_node_iff [OF sample_plan_ok, of "''a''"] start_node_iff [OF sample_plan_ok, of "''b''"]
  show ?thesis by auto
qed

section \<open>Working a plan off\<close>

definition workable :: "map_db \<Rightarrow> bool" where
  "workable m \<longleftrightarrow> map_ok m \<and> (\<forall>r \<in> set (active_nodes m). nd_status r \<in> {Node_Pending, Node_Ready, Node_Completed})"

definition open_ids :: "map_db \<Rightarrow> string set" where
  "open_ids m = {i. \<exists>r. find_node m i = Some r \<and> nd_status r \<noteq> Node_Completed}"

lemma finite_open_ids: "finite (open_ids m)"
proof (rule finite_subset)
  show "open_ids m \<subseteq> set (active_ids m)" by (auto simp: open_ids_def active_ids_iff)
qed simp

lemma some_eligible:
  assumes "workable m" and "open_ids m \<noteq> {}"
  obtains i where "i \<in> open_ids m" and "eligible m i"
proof -
  have ok: "map_ok m" using assms(1) by (simp add: workable_def)
  let ?E = "set (dependency_rows m)"
  have "wf (?E\<inverse>)"
    using ok by (intro finite_acyclic_wf_converse) (auto simp: map_ok_def graph_ok_def)
  from wfE_min' [OF this assms(2)] obtain i where i: "i \<in> open_ids m"
    and least: "\<And>d. (d, i) \<in> ?E\<inverse> \<Longrightarrow> d \<notin> open_ids m" by blast
  from i obtain r where r: "find_node m i = Some r" "nd_status r \<noteq> Node_Completed"
    by (auto simp: open_ids_def)
  have "r \<in> set (active_nodes m)"
    using find_node_SomeD [OF r(1)] by (simp add: active_nodes_def)
  with assms(1) r(2) have "nd_status r \<in> {Node_Pending, Node_Ready}" by (auto simp: workable_def)
  moreover have "met m i"
    unfolding met_def
  proof
    fix d
    assume d: "d \<in> set (dependencies m i)"
    then have "d \<notin> open_ids m"
      by (intro least) (auto simp: dependencies_def dependency_rows_def)
    moreover obtain q where "find_node m d = Some q" using dependency_active [OF ok d] .
    ultimately show "\<exists>q. find_node m d = Some q \<and> nd_status q = Node_Completed"
      by (auto simp: open_ids_def)
  qed
  ultimately show ?thesis using that i r(1) by (auto simp: eligible_def)
qed

text \<open>Start a node and mark it completed, one node after the other\<close>

definition work_node :: "string \<Rightarrow> map_db \<Rightarrow> map_db result" where
  "work_node i m = bind_result (start_node m i) (\<lambda>(_, m1).
     bind_result (set_node_status m1 i ''completed'') (\<lambda>(_, m2). Inr m2))"

lemma completed_name: "map_of node_statuses ''completed'' = Some Node_Completed"
  by code_simp

lemma work_node_eligible:
  assumes "workable m" and "eligible m i"
  shows "\<exists>m'. work_node i m = Inr m' \<and> workable m' \<and> open_ids m' = open_ids m - {i}"
proof -
  have ok: "map_ok m" using assms(1) by (simp add: workable_def)
  obtain d where s: "start_node m i = Inr (d, log_change (with_status i Node_Running m) ''plan_node'' i
      ''status'' [(''status'', JStr ''running'')])" (is "_ = Inr (_, ?m1)")
    using start_node_eligible [OF ok assms(2)] by blast
  have ok1: "map_ok ?m1" using ok by (simp add: start_node_ok [OF s])
  from assms(2) obtain r where r: "find_node m i = Some r" by (auto simp: eligible_def)
  then have r1: "find_node ?m1 i = Some (r\<lparr>nd_status := Node_Running\<rparr>)" by (simp add: find_with_status)
  obtain d2 where t: "set_node_status ?m1 i ''completed'' = Inr (d2, log_change
      (with_status i Node_Completed ?m1) ''plan_node'' i ''status'' [(''status'', JStr ''completed'')])"
      (is "_ = Inr (_, ?m2)")
    using set_node_status_eq [OF map_ok_keys [OF ok1] r1 completed_name] by blast
  have ok2: "map_ok ?m2" using ok1 by (simp add: set_node_status_ok [OF t])
  have find: "find_node ?m2 j = (if i = j then Some (r\<lparr>nd_status := Node_Completed\<rparr>) else find_node m j)" for j
    using r by (auto simp: find_with_status)
  have "workable ?m2"
  proof -
    have "nd_status q \<in> {Node_Pending, Node_Ready, Node_Completed}" if q: "q \<in> set (active_nodes ?m2)" for q
    proof (cases "nd_id q = i")
      case True
      with q find_node_mem [OF map_ok_keys [OF ok2], of q] find [of i] show ?thesis
        by (auto simp: active_nodes_def)
    next
      case False
      with q find_node_mem [OF map_ok_keys [OF ok2], of q] find [of "nd_id q"]
      have "find_node m (nd_id q) = Some q" by (auto simp: active_nodes_def)
      with assms(1) find_node_SomeD [OF this] show ?thesis
        by (auto simp: workable_def active_nodes_def)
    qed
    with ok2 show ?thesis by (simp add: workable_def)
  qed
  moreover have "open_ids ?m2 = open_ids m - {i}"
    unfolding open_ids_def find by auto
  ultimately show ?thesis by (simp add: work_node_def s t)
qed

text \<open>
  C18. A well-formed plan whose active nodes are all pending, ready or completed can always be
  worked off: there is an order of exactly the nodes that are not completed in which every start is
  accepted, and at the end every node is completed. Dependencies alone never hold such a plan up;
  a node in any other status (running, failed, blocked, drifted and the statuses of child agents)
  is not started.
\<close>

theorem plan_can_finish:
  assumes "map_ok m"
    and "\<forall>r \<in> set (active_nodes m). nd_status r \<in> {Node_Pending, Node_Ready, Node_Completed}"
  shows "\<exists>order m'. each work_node order m = Inr m' \<and> distinct order \<and> set order = open_ids m
    \<and> open_ids m' = {}"
proof -
  have "workable m \<Longrightarrow> \<exists>order m'. each work_node order m = Inr m' \<and> distinct order
      \<and> set order = open_ids m \<and> open_ids m' = {}"
  proof (induction "card (open_ids m)" arbitrary: m)
    case 0
    then have "open_ids m = {}" using finite_open_ids by simp
    then show ?case by (intro exI [of _ "[]"] exI [of _ m]) simp
  next
    case (Suc n)
    then have "open_ids m \<noteq> {}" by auto
    with Suc.prems obtain i where i: "i \<in> open_ids m" "eligible m i" by (rule some_eligible)
    from work_node_eligible [OF Suc.prems i(2)] obtain m1 where
      m1: "work_node i m = Inr m1" "workable m1" "open_ids m1 = open_ids m - {i}" by blast
    have "n = card (open_ids m1)" using Suc.hyps(2) i(1) finite_open_ids by (simp add: m1(3))
    from Suc.hyps(1) [OF this m1(2)] obtain order m' where
      rest: "each work_node order m1 = Inr m'" "distinct order" "set order = open_ids m1" "open_ids m' = {}"
      by blast
    then show ?case
      using m1 i(1) by (intro exI [of _ "i # order"] exI [of _ m']) auto
  qed
  with assms show ?thesis by (simp add: workable_def)
qed


theorem plan_can_finish_witness:
  "\<exists>order m'. each work_node order sample_plan = Inr m' \<and> set order = open_ids sample_plan \<and> open_ids m' = {}"
proof -
  have "list_all (\<lambda>r. nd_status r = Node_Pending) (active_nodes sample_plan)" by code_simp
  then have "\<forall>r \<in> set (active_nodes sample_plan). nd_status r \<in> {Node_Pending, Node_Ready, Node_Completed}"
    by (simp add: list_all_iff)
  from plan_can_finish [OF sample_plan_ok this] show ?thesis by blast
qed


section \<open>Verified nodes\<close>

lemma store_ok_record [simp]: "store_ok (record_change s a b c d) = store_ok s"
  by (simp add: store_ok_def trail_ok_def trail_def get_modification_workflow_def list_modification_events_def
      cong: option.case_cong)

abbreviation gate_ok :: "map_db \<Rightarrow> bool" where
  "gate_ok m \<equiv> store_ok (verif m)"

lemma log_change_gate [simp]: "gate_ok (log_change m a b c d) = gate_ok m"
  by (simp add: log_change_def)

lemma each_gate:
  assumes "each f xs m = Inr m'" and "\<And>x a b. f x a = Inr b \<Longrightarrow> gate_ok a \<Longrightarrow> gate_ok b" and "gate_ok m"
  shows "gate_ok m'"
  using each_invariant [where I = gate_ok, OF assms(1,3)] assms(2) by blast

lemma insert_edge_gate: "insert_edge s t a = Inr b \<Longrightarrow> gate_ok a \<Longrightarrow> gate_ok b"
  by (auto simp: insert_edge_def Let_def split: if_splits)

lemma add_node_gate: "add_node n a = Inr b \<Longrightarrow> gate_ok a \<Longrightarrow> gate_ok b"
  by (auto simp: add_node_def split: if_splits sum.splits dest!: each_gate [OF _ insert_edge_gate])

lemma update_node_gate: "update_node js u a = Inr b \<Longrightarrow> gate_ok a \<Longrightarrow> gate_ok b"
  by (auto simp: update_node_def bind_result_Inr split: option.splits)

lemma replace_dependencies_gate: "replace_dependencies d a = Inr b \<Longrightarrow> gate_ok a \<Longrightarrow> gate_ok b"
  by (auto simp: replace_dependencies_def split: option.splits sum.splits dest!: each_gate [OF _ insert_edge_gate])

lemma remove_node_gate: "remove_node i a = Inr b \<Longrightarrow> gate_ok a \<Longrightarrow> gate_ok b"
  by (auto simp: remove_node_def split: option.splits)

lemma apply_patch_gate: "apply_patch js p a = Inr b \<Longrightarrow> gate_ok a \<Longrightarrow> gate_ok b"
  by (erule apply_patch_invariant [where I = gate_ok])
    (auto intro: add_node_gate update_node_gate replace_dependencies_gate remove_node_gate)

lemma plan_step_gate:
  assumes "plan_step js frames m m'" and "gate_ok m"
  shows "gate_ok m'"
  using assms
proof cases
  case (patched p res)
  with assms(2) show ?thesis by (auto simp: patch_plan_def bind_result_Inr dest: apply_patch_gate)
next
  case (drifted ids)
  have "verif (mark_drifted m ids) = verif m"
    unfolding mark_drifted_def by (induction ids arbitrary: m) auto
  with drifted assms(2) show ?thesis by simp
next
  case (gate i e eid expd payload res s)
  with assms(2) show ?thesis by (auto intro: store_ok_apply_event)
qed (use assms(2) in \<open>auto simp: set_node_status_def start_node_def dispatch_child_agent_def
    apply_child_result_def verify_node_def put_status_def declare_interface_def mark_map_status_def
    set_map_status_def set_metadata_def mark_map_degraded_def bind_result_Inr Let_def
    split: if_splits option.splits sum.splits\<close>)

text \<open>
  C20. A node that is verified, after whatever happened to the plan and to the gate before, has in
  its persisted event trail and since its last return to test authoring an approved contract, a
  confirmed red run and a passed final verification, and every symbol its code exposes is declared.
\<close>

theorem verified_node_earned:
  assumes "plan_history js frames m0 m" and "store_ok (verif m0)"
    and "verify_node m i exposed = (Inr d, m')"
  shows "subseq (take 8 milestones) (since_authoring (map ev_event (list_modification_events (verif m') i)))
    \<and> set exposed \<subseteq> mi_symbol ` {r \<in> set (interfaces m). mi_from r = i \<or> mi_to r = i}
    \<and> map_option nd_status (find_node m' i) = Some Node_Completed"
proof -
  have ok: "gate_ok m"
    using assms(1,2) by (induction rule: plan_history.induct) (auto dest: plan_step_gate)
  from assms(3) have g: "verify_gate m i exposed = Inr ()"
    and m': "m' = log_change (put_status i Node_Completed m) ''plan_node'' i ''verify_passed'' []"
    and n: "get_node m' i = Inr d"
    by (auto simp: verify_node_def Let_def split: sum.splits)
  from g obtain w where w: "get_modification_workflow (verif m) i = Some w"
    "wf_state w = READY_TO_PUBLISH \<or> wf_state w = PUBLISHED"
    and c: "check_consistency_gate m i exposed = Inr ()"
    by (auto simp: verify_gate_def bind_result_Inr split: option.splits if_splits)
  have trail: "list_modification_events (verif m') i = list_modification_events (verif m) i"
    by (simp add: m' log_change_def put_status_def list_modification_events_def)
  from plan_gate.published_trail [OF ok, of "[]" i w] w
  have "subseq (take 8 milestones) (since_authoring (map ev_event (list_modification_events (verif m) i)))"
    by simp
  moreover have "set exposed \<subseteq> mi_symbol ` {r \<in> set (interfaces m). mi_from r = i \<or> mi_to r = i}"
    using c by (auto simp: check_consistency_gate_def Let_def touches_def filter_empty_conv split: if_splits)
  moreover have "map_option nd_status (find_node m' i) = Some Node_Completed"
  proof -
    from n obtain r where r: "find_node m' i = Some r" by (auto simp: get_node_def split: option.splits)
    then have q: "r \<in> set (nodes m')" "nd_id r = i" by (auto dest: find_node_SomeD)
    then obtain r0 where r0: "r = (if nd_id r0 = i then r0\<lparr>nd_status := Node_Completed\<rparr> else r0)"
      by (auto simp: m' put_status_def in_update_rows)
    have "nd_status r = Node_Completed" using q(2) unfolding r0 by (cases "nd_id r0 = i") auto
    with r show ?thesis by simp
  qed
  ultimately show ?thesis using trail by simp
qed

definition sample_ready :: map_db where
  "sample_ready = sample_plan\<lparr>nodes := update_rows (\<lambda>r. nd_id r = ''a'') (\<lambda>r. r\<lparr>nd_id := ''n''\<rparr>) (nodes sample_plan),
     verif := run_commands apply_modification_transition demo_frozen demo_route\<rparr>"

theorem verified_node_earned_witness:
  "subseq (take 8 milestones) (since_authoring (map ev_event (list_modification_events
     (verif (snd (verify_node sample_ready ''n'' []))) ''n'')))"
proof -
  have ok: "store_ok (verif sample_ready)"
    unfolding sample_ready_def by (simp add: plan_gate.ok_run [OF store_ok_demo_frozen])
  obtain w where w: "get_modification_workflow (verif sample_ready) ''n'' = Some w" "wf_state w = READY_TO_PUBLISH"
    using demo_route_ready by (auto simp: sample_ready_def)
  have "map nd_id (nodes sample_ready) = [''n'', ''b'', ''c'']" "list_all (\<lambda>r. \<not> nd_archived r) (nodes sample_ready)"
    by code_simp+
  then obtain r rs where rows: "nodes sample_ready = r # rs" "nd_id r = ''n''" "\<not> nd_archived r"
    by (cases "nodes sample_ready") auto
  then have "\<exists>d. verify_node sample_ready ''n'' [] = (Inr d, snd (verify_node sample_ready ''n'' []))"
    using w by (simp add: verify_node_def verify_gate_def check_consistency_gate_def Let_def get_node_def
        find_node_def put_status_def)
  then obtain d where "verify_node sample_ready ''n'' [] = (Inr d, snd (verify_node sample_ready ''n'' []))" by blast
  from verified_node_earned [OF plan_history.start [of sample_set 20] ok this] show ?thesis by simp
qed

end
