(* ===== verification/Plan_Paging.thy ===== *)
theory Plan_Paging
  imports Plan_Run "HOL-Library.Product_Lexorder"
begin

text \<open>
  Reading the children of a node page by page: a client that follows the cursors ends, and has
  then seen every child exactly once, in order.
\<close>

section \<open>Sorting by two keys\<close>

lemma sorted_within_keys:
  assumes "\<And>k. sorted_wrt R (filter (\<lambda>y. f y = k) xs)"
  shows "sorted_wrt (\<lambda>a b. f a = f b \<longrightarrow> R a b) xs"
  using assms
proof (induction xs)
  case (Cons x xs)
  have "sorted_wrt R (filter (\<lambda>y. f y = k) xs)" for k
    using Cons.prems [of k] by (simp split: if_splits)
  moreover have "R x b" if "b \<in> set xs" "f x = f b" for b
    using Cons.prems [of "f x"] that by simp
  ultimately show ?case using Cons.IH by simp
qed simp

lemma sort_two_keys:
  fixes f :: "'a \<Rightarrow> 'k :: linorder" and g :: "'a \<Rightarrow> 'l :: linorder"
  shows "sorted_wrt (\<lambda>a b. (f a, g a) \<le> (f b, g b)) (sort_key f (sort_key g xs))"
proof -
  have "sorted_wrt (\<lambda>a b. g a \<le> g b) (filter (\<lambda>y. f y = k) (sort_key f (sort_key g xs)))" for k
    unfolding sort_key_stable
    using sorted_sort_key [of g xs] by (simp add: sorted_map sorted_wrt_filter)
  then have "sorted_wrt (\<lambda>a b. f a = f b \<longrightarrow> g a \<le> g b) (sort_key f (sort_key g xs))"
    by (rule sorted_within_keys)
  moreover have "sorted_wrt (\<lambda>a b. f a \<le> f b) (sort_key f (sort_key g xs))"
    using sorted_sort_key [of f "sort_key g xs"] by (simp add: sorted_map)
  ultimately have "sorted_wrt (\<lambda>a b. f a \<le> f b \<and> (f a = f b \<longrightarrow> g a \<le> g b)) (sort_key f (sort_key g xs))"
    by (auto simp: sorted_wrt_iff_nth_less)
  then show ?thesis
    by (rule sorted_wrt_mono_rel [rotated]) (auto simp: less_eq_prod_simp less_le)
qed

lemma sorted_key_filter:
  fixes key :: "'a \<Rightarrow> 'k :: linorder"
  assumes "sorted_wrt (\<lambda>a b. key a < key b) xs" and "n < length xs"
  shows "filter (\<lambda>r. key r > key (xs ! n)) xs = drop (Suc n) xs"
  using assms
proof (induction xs arbitrary: n)
  case (Cons x xs)
  show ?case
  proof (cases n)
    case 0
    with Cons.prems(1) show ?thesis by (simp add: filter_id_conv)
  next
    case (Suc k)
    with Cons.prems have "key x < key (xs ! k)" by simp
    with Suc Cons show ?thesis by (simp add: not_less_iff_gr_or_eq less_not_sym)
  qed
qed simp

section \<open>The children of a node\<close>

lemma child_rows_distinct:
  assumes "keys_ok m"
  shows "distinct (map nd_id (child_rows m parent))"
proof -
  let ?xs = "filter (\<lambda>r. nd_parent r = parent) (active_nodes m)"
  have "distinct (map nd_id ?xs)"
    using assms by (simp add: keys_ok_def unique_key_def active_nodes_def distinct_map_filter)
  then have "distinct ?xs" "inj_on nd_id (set ?xs)" by (auto simp: distinct_map)
  then show ?thesis by (simp add: child_rows_def distinct_map)
qed

lemma child_rows_sorted:
  assumes "keys_ok m"
  shows "sorted_wrt (\<lambda>a b. node_key a < node_key b) (child_rows m parent)"
proof -
  note dist = child_rows_distinct [OF assms]
  have "sorted_wrt (\<lambda>a b. node_key a \<le> node_key b) (child_rows m parent)"
    unfolding child_rows_def node_key_def by (rule sort_two_keys)
  with dist have "sorted_wrt (\<lambda>a b. node_key a \<le> node_key b \<and> nd_id a \<noteq> nd_id b) (child_rows m parent)"
    by (auto simp: sorted_wrt_iff_nth_less distinct_conv_nth)
  then show ?thesis
    by (rule sorted_wrt_mono_rel [rotated]) (auto simp: node_key_def less_eq_prod_simp less_prod_simp)
qed

lemma after_cursor_key: "after_cursor (Some c) = (\<lambda>r. node_key r > c)"
  by (cases c) (auto simp: fun_eq_iff after_cursor_def node_key_def less_prod_simp)

text \<open>The cursor handed out after the first \<open>k\<close> rows\<close>

definition cursor_at :: "node_row list \<Rightarrow> nat \<Rightarrow> node_cursor option" where
  "cursor_at rows k = (if k = 0 then None else Some (node_key (rows ! (k - 1))))"

lemma rows_after_cursor:
  assumes "keys_ok m" and "k \<le> length (child_rows m parent)"
  shows "filter (after_cursor (cursor_at (child_rows m parent) k)) (child_rows m parent)
    = drop k (child_rows m parent)"
proof (cases k)
  case 0
  then show ?thesis by (simp add: cursor_at_def after_cursor_def)
next
  case (Suc n)
  with assms(2) sorted_key_filter [OF child_rows_sorted [OF assms(1)], of n parent] show ?thesis
    by (simp add: cursor_at_def after_cursor_key)
qed

lemma children_page:
  fixes limit :: int
  assumes "keys_ok m" and "k \<le> length (child_rows m parent)"
  defines "rows \<equiv> child_rows m parent" and "n \<equiv> nat (bounded_limit limit)"
  shows "children m parent (cursor_at rows k) limit =
    (map (node_dict m) (take n (drop k rows)), if k + n < length rows then Some (node_key (rows ! (k + n - 1))) else None)"
proof -
  have n: "0 < n" by (simp add: n_def bounded_limit_def max_page_limit_def)
  have f: "filter (after_cursor (cursor_at rows k)) rows = drop k rows"
    unfolding rows_def using assms(1,2) by (rule rows_after_cursor)
  have t: "take n (take (n + 1) (drop k rows)) = take n (drop k rows)" by (simp add: min_def)
  have long: "length (take (n + 1) (drop k rows)) > n \<longleftrightarrow> k + n < length rows" by auto
  have "last (take n (drop k rows)) = rows ! (k + n - 1)" if "k + n < length rows"
    using that n by (subst last_conv_nth) (auto simp: add.commute)
  moreover have "take n (drop k rows) \<noteq> []" if "k + n < length rows"
    using that n by auto
  ultimately show ?thesis
    unfolding children_def Let_def n_def [symmetric] rows_def [symmetric] f t using long by auto
qed

text \<open>A client that starts without a cursor and follows the cursors until there is none\<close>

partial_function (option) follow_pages ::
  "map_db \<Rightarrow> string option \<Rightarrow> int \<Rightarrow> node_cursor option \<Rightarrow> dict list list option" where
  "follow_pages m parent limit cursor =
     (case children m parent cursor limit of
        (items, None) \<Rightarrow> Some [items]
      | (items, Some c) \<Rightarrow> Option.bind (follow_pages m parent limit (Some c)) (\<lambda>pages. Some (items # pages)))"

lemma follow_pages_from:
  assumes "keys_ok m" and "k \<le> length (child_rows m parent)"
  shows "\<exists>pages. follow_pages m parent limit (cursor_at (child_rows m parent) k) = Some pages
    \<and> concat pages = map (node_dict m) (drop k (child_rows m parent))
    \<and> (\<forall>page \<in> set pages. int (length page) \<le> bounded_limit limit)"
  using assms(2)
proof (induction "length (child_rows m parent) - k" arbitrary: k rule: less_induct)
  case less
  let ?rows = "child_rows m parent" and ?n = "nat (bounded_limit limit)"
  have n: "0 < ?n" "int ?n = bounded_limit limit" by (auto simp: bounded_limit_def max_page_limit_def)
  note page = children_page [OF assms(1) less.prems, of limit]
  show ?case
  proof (cases "k + ?n < length ?rows")
    case False
    with page n show ?thesis by (subst follow_pages.simps) simp
  next
    case True
    have c: "cursor_at ?rows (k + ?n) = Some (node_key (?rows ! (k + ?n - 1)))"
      using n by (simp add: cursor_at_def)
    have "length ?rows - (k + ?n) < length ?rows - k" using True n(1) by simp
    from less.hyps [OF this] True obtain pages where
      "follow_pages m parent limit (cursor_at ?rows (k + ?n)) = Some pages"
      "concat pages = map (node_dict m) (drop (k + ?n) ?rows)"
      "\<forall>page \<in> set pages. int (length page) \<le> bounded_limit limit" by auto
    moreover have "drop k ?rows = take ?n (drop k ?rows) @ drop (k + ?n) ?rows"
      by (metis append_take_drop_id drop_drop add.commute)
    then have "map (node_dict m) (drop k ?rows)
        = map (node_dict m) (take ?n (drop k ?rows)) @ map (node_dict m) (drop (k + ?n) ?rows)"
      by (metis map_append)
    ultimately show ?thesis
      using page True n c by (subst follow_pages.simps) simp
  qed
qed

text \<open>
  C21. Following the cursors of the children of a node ends; no page is longer than the clamped
  limit, and the pages together list every active child exactly once, ordered by position and
  identifier.
\<close>

theorem children_pages_complete:
  assumes "keys_ok m"
  shows "\<exists>pages rows. follow_pages m parent limit None = Some pages
    \<and> (\<forall>page \<in> set pages. int (length page) \<le> bounded_limit limit)
    \<and> concat pages = map (node_dict m) rows
    \<and> set rows = {r \<in> set (nodes m). \<not> nd_archived r \<and> nd_parent r = parent} \<and> distinct rows
    \<and> sorted_wrt (\<lambda>a b. (nd_order a, nd_id a) < (nd_order b, nd_id b)) rows"
proof -
  let ?rows = "child_rows m parent"
  obtain pages where "follow_pages m parent limit None = Some pages"
    "concat pages = map (node_dict m) ?rows" "\<forall>page \<in> set pages. int (length page) \<le> bounded_limit limit"
    using follow_pages_from [OF assms, of 0 parent limit] by (auto simp: cursor_at_def)
  moreover have sorted: "sorted_wrt (\<lambda>a b. (nd_order a, nd_id a) < (nd_order b, nd_id b)) ?rows"
    using child_rows_sorted [OF assms, of parent] by (simp add: node_key_def)
  moreover have "distinct ?rows"
    using child_rows_distinct [OF assms] by (simp add: distinct_map)
  moreover have "set ?rows = {r \<in> set (nodes m). \<not> nd_archived r \<and> nd_parent r = parent}"
    by (auto simp: child_rows_def active_nodes_def)
  ultimately show ?thesis by blast
qed


theorem children_pages_complete_witness:
  "\<exists>pages. follow_pages sample_plan (Some ''a'') 1 None = Some pages
    \<and> length (concat pages) = 2 \<and> (\<forall>page \<in> set pages. length page \<le> 1)"
proof -
  from children_pages_complete [OF map_ok_keys [OF sample_plan_ok], of "Some ''a''" 1] obtain pages rows where
    p: "follow_pages sample_plan (Some ''a'') 1 None = Some pages"
      "\<forall>page \<in> set pages. int (length page) \<le> bounded_limit 1"
      "concat pages = map (node_dict sample_plan) rows"
      "set rows = {r \<in> set (nodes sample_plan). \<not> nd_archived r \<and> nd_parent r = Some ''a''}" "distinct rows"
    by blast
  let ?rows = "filter (\<lambda>r. \<not> nd_archived r \<and> nd_parent r = Some ''a'') (nodes sample_plan)"
  have ids: "map nd_id ?rows = [''b'', ''c'']" by code_simp
  have "distinct (map nd_id ?rows)" unfolding ids by simp
  then have "distinct ?rows" by (simp only: distinct_map)
  moreover have "set rows = set ?rows" unfolding p(4) by auto
  ultimately have "length rows = length ?rows"
    using p(5) by (simp only: distinct_card [symmetric])
  also have "\<dots> = length (map nd_id ?rows)" by (simp only: length_map)
  also have "\<dots> = 2" unfolding ids by simp
  finally show ?thesis using p(1-3) by (auto simp: bounded_limit_def max_page_limit_def)
qed

end
