(* ===== verification/Child_Delivery.thy ===== *)
theory Child_Delivery
  imports Plan_Run Persistent_Mailbox
begin

text \<open>
  How a child agent reports its result: \<^verbatim>\<open>deliver_child_result\<close> of
  \<^verbatim>\<open>agent/runtime/parent_child_runtime.py\<close> over the project's mail database and plan database,
  and the retries around it in \<^verbatim>\<open>agent/runtime/gateway.py\<close>. Each call on the mail database and
  each effect after it consumes a tick, the database's answer with the time and a fresh token;
  when the ticks are used up the process has stopped at that point.
\<close>

section \<open>State\<close>

text \<open>
  The two databases, the receipts in the application database, the results this process has
  completed, and those whose \<^verbatim>\<open>destroy\<close> callback was called. What the callback does is the
  caller's: in the gateway it does nothing, and the turn destroys the runtimes of its children at its end
  (\<open>Runtime_Host\<close>) whatever became of their results.
\<close>

record child_world =
  cw_mail :: mail_db
  cw_plan :: map_db
  cw_receipts :: "string list"
  cw_completed :: "string list"
  cw_called_back :: "string list"

type_synonym tick = "db_answer \<times> int \<times> string"

datatype 'a run = Ran 'a | Broke bridle_error | Halted

type_synonym 'a activity = "'a run \<times> child_world \<times> tick list"

section \<open>One delivery\<close>

text \<open>
  Claiming until the message comes up; another message that is claimed first is refused. The
  answer is the last claim, or nothing when a claim carries no lease.
\<close>

fun claim_until ::
  "mailbox \<Rightarrow> agent_address \<Rightarrow> string \<Rightarrow> mail_result \<Rightarrow> tick list \<Rightarrow> mail_db
     \<Rightarrow> mail_result option run \<times> mail_db \<times> tick list" where
  "claim_until mb target mid claimed ticks db =
     (if re_status claimed = ''claimed'' \<and> re_message_id claimed \<noteq> Some mid
      then (case (re_message_id claimed, re_lease_token claimed) of
              (Some other, Some token) \<Rightarrow>
                (case ticks of
                   [] \<Rightarrow> (Halted, db, [])
                 | (ans, now, _) # ticks1 \<Rightarrow>
                     (case nack_mail mb ans now other token target db of
                        (Inl err, db1) \<Rightarrow> (Broke err, db1, ticks1)
                      | (Inr _, db1) \<Rightarrow>
                          (case ticks1 of
                             [] \<Rightarrow> (Halted, db1, [])
                           | (ans2, now2, token2) # ticks2 \<Rightarrow>
                               (case claim_mail mb ans2 now2 token2 target db1 of
                                  (Inl err, db2) \<Rightarrow> (Broke err, db2, ticks2)
                                | (Inr claimed2, db2) \<Rightarrow> claim_until mb target mid claimed2 ticks2 db2))))
            | _ \<Rightarrow> (Ran None, db, ticks))
      else (Ran (Some claimed), db, ticks))"

declare claim_until.simps [simp del]

type_synonym result_applier = "map_db \<Rightarrow> (child_result \<times> map_db) result"

definition apply_claimed ::
  "mailbox \<Rightarrow> mail_envelope \<Rightarrow> result_applier \<Rightarrow> string \<Rightarrow> tick list \<Rightarrow> child_world \<Rightarrow> bool activity"
where
  "apply_claimed mb e applier token ticks w =
     (case applier (cw_plan w) of
        Inl err \<Rightarrow>
          (case ticks of
             [] \<Rightarrow> (Halted, w, [])
           | (ans, now, _) # rest \<Rightarrow>
               (case nack_mail mb ans now (en_message_id e) token (en_target e) (cw_mail w) of
                  (Inl err', db) \<Rightarrow> (Broke err', w\<lparr>cw_mail := db\<rparr>, rest)
                | (Inr _, db) \<Rightarrow> (Broke err, w\<lparr>cw_mail := db\<rparr>, rest)))
      | Inr (_, plan) \<Rightarrow>
          (let w1 = w\<lparr>cw_plan := plan\<rparr> in
           case ticks of
             [] \<Rightarrow> (Halted, w1, [])
           | (ans, now, _) # rest \<Rightarrow>
               (case ack_mail mb ans now (en_message_id e) token (en_target e) (cw_mail w1) of
                  (Inl err', db) \<Rightarrow> (Broke err', w1\<lparr>cw_mail := db\<rparr>, rest)
                | (Inr res, db) \<Rightarrow> (Ran (re_status res = ''acked''), w1\<lparr>cw_mail := db\<rparr>, rest))))"

definition claim_and_apply ::
  "mailbox \<Rightarrow> mail_envelope \<Rightarrow> result_applier \<Rightarrow> tick list \<Rightarrow> child_world \<Rightarrow> bool activity" where
  "claim_and_apply mb e applier ticks w =
     (case ticks of
        [] \<Rightarrow> (Halted, w, [])
      | (ans, now, token) # rest \<Rightarrow>
          (case claim_mail mb ans now token (en_target e) (cw_mail w) of
             (Inl err, db) \<Rightarrow> (Broke err, w\<lparr>cw_mail := db\<rparr>, rest)
           | (Inr claimed, db) \<Rightarrow>
               (case claim_until mb (en_target e) (en_message_id e) claimed rest db of
                  (Halted, db1, rest1) \<Rightarrow> (Halted, w\<lparr>cw_mail := db1\<rparr>, rest1)
                | (Broke err, db1, rest1) \<Rightarrow> (Broke err, w\<lparr>cw_mail := db1\<rparr>, rest1)
                | (Ran None, db1, rest1) \<Rightarrow> (Ran False, w\<lparr>cw_mail := db1\<rparr>, rest1)
                | (Ran (Some final), db1, rest1) \<Rightarrow>
                    (if re_status final \<noteq> ''claimed'' \<or> re_message_id final \<noteq> Some (en_message_id e)
                     then (Ran False, w\<lparr>cw_mail := db1\<rparr>, rest1)
                     else case re_lease_token final of
                         None \<Rightarrow> (Ran False, w\<lparr>cw_mail := db1\<rparr>, rest1)
                       | Some tok \<Rightarrow> apply_claimed mb e applier tok rest1 (w\<lparr>cw_mail := db1\<rparr>)))))"

text \<open>The callback, recording the receipt and remembering it, each possibly the last effect\<close>

definition record_receipt :: "bool \<Rightarrow> string \<Rightarrow> child_world \<Rightarrow> child_world" where
  "record_receipt sessions mid w =
     (if sessions \<and> mid \<notin> set (cw_receipts w) then w\<lparr>cw_receipts := cw_receipts w @ [mid]\<rparr> else w)"

definition finish_delivery :: "bool \<Rightarrow> string \<Rightarrow> tick list \<Rightarrow> child_world \<Rightarrow> bool activity" where
  "finish_delivery sessions mid ticks w =
     (case ticks of
        [] \<Rightarrow> (Halted, w, [])
      | _ # ticks1 \<Rightarrow>
          (let w1 = w\<lparr>cw_called_back := cw_called_back w @ [mid]\<rparr> in
           case ticks1 of
             [] \<Rightarrow> (Halted, w1, [])
           | _ # ticks2 \<Rightarrow>
               (let w2 = record_receipt sessions mid w1
                in (Ran True, w2\<lparr>cw_completed := cw_completed w2 @ [mid]\<rparr>, ticks2))))"

definition deliver_child_result ::
  "bool \<Rightarrow> mailbox \<Rightarrow> mail_envelope \<Rightarrow> result_applier option \<Rightarrow> tick list \<Rightarrow> child_world \<Rightarrow> bool activity"
where
  "deliver_child_result sessions mb e applier ticks w =
     (if en_message_id e \<in> set (cw_completed w) \<or> (sessions \<and> en_message_id e \<in> set (cw_receipts w))
      then (Ran True, w, ticks)
      else case ticks of
        [] \<Rightarrow> (Halted, w, [])
      | (ans, now, _) # rest \<Rightarrow>
          (case enqueue_mail mb ans now e (cw_mail w) of
             (Inl err, db) \<Rightarrow> (Broke err, w\<lparr>cw_mail := db\<rparr>, rest)
           | (Inr res, db) \<Rightarrow>
               (let w1 = w\<lparr>cw_mail := db\<rparr> in
                if re_status res \<notin> {''inserted'', ''existing''} then (Ran False, w1, rest)
                else case applier of
                    None \<Rightarrow> finish_delivery sessions (en_message_id e) rest w1
                  | Some f \<Rightarrow>
                      (case claim_and_apply mb e f rest w1 of
                         (Ran True, w2, rest2) \<Rightarrow> finish_delivery sessions (en_message_id e) rest2 w2
                       | outcome \<Rightarrow> outcome))))"

section \<open>Reporting with retries\<close>

text \<open>
  What a child does with its result (\<^verbatim>\<open>run_child\<close> of the gateway): up to three deliveries, and
  when none succeeded the result is applied to the plan directly.
\<close>

fun deliver_attempts ::
  "nat \<Rightarrow> bool \<Rightarrow> mailbox \<Rightarrow> mail_envelope \<Rightarrow> result_applier \<Rightarrow> tick list \<Rightarrow> child_world \<Rightarrow> bool activity"
where
  "deliver_attempts 0 sessions mb e f ticks w = (Ran False, w, ticks)"
| "deliver_attempts (Suc n) sessions mb e f ticks w =
     (case deliver_child_result sessions mb e (Some f) ticks w of
        (Ran False, w1, ticks1) \<Rightarrow> deliver_attempts n sessions mb e f ticks1 w1
      | outcome \<Rightarrow> outcome)"

definition child_envelope ::
  "string \<Rightarrow> agent_address \<Rightarrow> agent_address \<Rightarrow> string \<Rightarrow> string \<Rightarrow> string \<Rightarrow> dict \<Rightarrow> mail_envelope" where
  "child_envelope spawn source parent node status role result =
     \<lparr>en_message_id = child_result_id spawn, en_type = ''child-result'', en_source = source,
      en_target = parent,
      en_payload = JObj [(''node_id'', JStr node), (''status'', JStr status),
        (''target_role'', JStr role), (''result'', JObj result)],
      en_sequence = None, en_attempt = 0, en_created_at = None, en_updated_at = None\<rparr>"

definition report_child ::
  "bool \<Rightarrow> mailbox \<Rightarrow> string \<Rightarrow> agent_address \<Rightarrow> agent_address \<Rightarrow> string \<Rightarrow> string \<Rightarrow> string \<Rightarrow> dict
     \<Rightarrow> tick list \<Rightarrow> child_world \<Rightarrow> unit activity" where
  "report_child sessions mb spawn source parent node status role result ticks w =
     (let f = (\<lambda>plan. apply_child_result plan (child_result_id spawn) node status result) in
      case deliver_attempts 3 sessions mb (child_envelope spawn source parent node status role result)
             f ticks w of
        (Halted, w1, rest) \<Rightarrow> (Halted, w1, rest)
      | (Broke err, w1, rest) \<Rightarrow> (Broke err, w1, rest)
      | (Ran True, w1, rest) \<Rightarrow> (Ran (), w1, rest)
      | (Ran False, w1, rest) \<Rightarrow>
          (case f (cw_plan w1) of
             Inl err \<Rightarrow> (Broke err, w1, rest)
           | Inr (_, plan) \<Rightarrow> (Ran (), w1\<lparr>cw_plan := plan\<rparr>, rest)))"

end
