(* ===== verification/Child_Properties.thy ===== *)
theory Child_Properties
  imports Child_Delivery Mailbox_Properties
begin

text \<open>
  A delivery of a child's result counts as done only after the result is part of the plan and its message is
  acknowledged, and a child result is applied to the plan once, whatever is repeated, refused or
  interrupted.
\<close>

section \<open>Receipts of child results\<close>

lemma find_receipt_append:
  "find P xs = Some r \<Longrightarrow> find P (xs @ ys) = Some r"
  by (simp add: find_append)

lemma apply_child_result_receipts:
  assumes "apply_child_result m mid i st pl = Inr (res, m')"
  shows "\<exists>xs. receipts m' = receipts m @ xs" and "\<exists>q \<in> set (receipts m'). cr_message_id q = mid"
  using assms
  by (auto simp: apply_child_result_def Let_def split: if_splits option.splits dest: find_SomeD)

lemma apply_patch_receipts:
  assumes "apply_patch js p m = Inr m'"
  shows "receipts m' = receipts m"
proof -
  have edge: "insert_edge s t a = Inr b \<Longrightarrow> receipts b = receipts a" for s t a b
    by (auto simp: insert_edge_def Let_def split: if_splits)
  have edges: "each (insert_edge s) ts a = Inr b \<Longrightarrow> receipts b = receipts a" for s ts a b
    by (rule each_invariant [where I = "\<lambda>x. receipts x = receipts a"]) (auto dest: edge)
  have add: "add_node n a = Inr b \<Longrightarrow> receipts b = receipts a" for n a b
    by (auto simp: add_node_def split: if_splits sum.splits dest!: edges)
  have upd: "update_node js u a = Inr b \<Longrightarrow> receipts b = receipts a" for u a b
    by (auto simp: update_node_def bind_result_Inr split: option.splits)
  have repl: "replace_dependencies d a = Inr b \<Longrightarrow> receipts b = receipts a" for d a b
    by (auto simp: replace_dependencies_def split: option.splits sum.splits dest!: edges)
  have rem: "remove_node i a = Inr b \<Longrightarrow> receipts b = receipts a" for i a b
    by (auto simp: remove_node_def split: option.splits)
  show ?thesis
    by (rule apply_patch_invariant [where I = "\<lambda>x. receipts x = receipts m", OF assms])
      (auto dest: add upd repl rem)
qed

lemma plan_step_receipts:
  assumes "plan_step js frames m m'"
  shows "\<exists>xs. receipts m' = receipts m @ xs"
  using assms
proof cases
  case (patched p res)
  then show ?thesis by (auto simp: patch_plan_def bind_result_Inr dest: apply_patch_receipts)
next
  case (child_result mid i st pl r)
  then show ?thesis by (rule apply_child_result_receipts(1))
next
  case (drifted ids)
  have "receipts (mark_drifted m ids) = receipts m"
    unfolding mark_drifted_def by (induction ids arbitrary: m) auto
  with drifted show ?thesis by simp
qed (auto simp: set_node_status_def start_node_def dispatch_child_agent_def verify_node_def put_status_def
    declare_interface_def mark_map_status_def set_map_status_def set_metadata_def mark_map_degraded_def
    bind_result_Inr Let_def split: if_splits option.splits sum.splits)

lemma plan_history_receipts: "plan_history js frames m m' \<Longrightarrow> \<exists>xs. receipts m' = receipts m @ xs"
  by (induction rule: plan_history.induct) (auto dest!: plan_step_receipts)

text \<open>
  Once a child result has been applied, the same message applied again, at any later time and
  with whatever content, answers with what was recorded first and changes nothing.
\<close>

theorem child_result_once:
  assumes "apply_child_result m mid i st payload = Inr (res, m1)" and "chr_applied res"
    and "plan_history js frames m1 m2" and "st' \<in> set child_outcomes"
  shows "apply_child_result m2 mid i' st' payload'
    = Inr (\<lparr>chr_node = i, chr_status = st, chr_applied = False\<rparr>, m2)"
proof -
  from assms(1,2) have none: "find (\<lambda>r. cr_message_id r = mid) (receipts m) = None"
    by (auto simp: apply_child_result_def Let_def split: if_splits option.splits)
  with assms(1) have "receipts m1 = receipts m @ [\<lparr>cr_message_id = mid, cr_receipt_node = i,
      cr_result_status = st, cr_result = payload\<rparr>]"
    by (auto simp: apply_child_result_def Let_def split: if_splits option.splits)
  with none obtain q where "find (\<lambda>r. cr_message_id r = mid) (receipts m1) = Some q"
    and q: "cr_receipt_node q = i" "cr_result_status q = st"
    by (simp add: find_append)
  with plan_history_receipts [OF assms(3)] have "find (\<lambda>r. cr_message_id r = mid) (receipts m2) = Some q"
    by (auto intro: find_receipt_append)
  with assms(4) q show ?thesis by (simp add: apply_child_result_def Let_def)
qed

section \<open>Delivering a result\<close>

text \<open>What any mail operation keeps: a well-formed table, every message and what was delivered.\<close>

definition mail_keeps :: "mail_db \<Rightarrow> mail_db \<Rightarrow> bool" where
  "mail_keeps db db' \<longleftrightarrow> mail_ok db' \<and> (\<forall>k. message db k \<noteq> None \<longrightarrow> message db' k \<noteq> None) \<and>
     (\<forall>k r. message db k = Some r \<longrightarrow> ml_status r = Delivered \<longrightarrow> message db' k = Some r)"

lemma mail_keeps_refl: "mail_ok db \<Longrightarrow> mail_keeps db db"
  by (simp add: mail_keeps_def)

lemma mail_keeps_trans: "mail_keeps a b \<Longrightarrow> mail_keeps b c \<Longrightarrow> mail_keeps a c"
  unfolding mail_keeps_def by blast

lemma mail_keeps_step: "mail_ok db \<Longrightarrow> mail_keeps db (mail_step db op)"
  using mail_ok_step [of db op] mail_steps_row [of db _ _ "[op]"] unfolding mail_keeps_def by fastforce

lemma mail_keeps_ops:
  assumes "mail_ok db"
  shows "enqueue_mail mb ans now e db = (r, db') \<Longrightarrow> mail_keeps db db'"
    and "claim_mail mb ans now tok target db = (r, db') \<Longrightarrow> mail_keeps db db'"
    and "nack_mail mb ans now k tok target db = (r, db') \<Longrightarrow> mail_keeps db db'"
    and "ack_mail mb ans now k tok target db = (r, db') \<Longrightarrow> mail_keeps db db'"
  using mail_keeps_step [OF assms, of "Enqueue_Mail mb ans now e"]
    mail_keeps_step [OF assms, of "Claim_Mail mb ans now tok target"]
    mail_keeps_step [OF assms, of "Nack_Mail mb ans now k tok target"]
    mail_keeps_step [OF assms, of "Ack_Mail mb ans now k tok target"]
  by simp_all

lemma mail_keeps_ok: "mail_keeps db db' \<Longrightarrow> mail_ok db'"
  by (simp add: mail_keeps_def)

lemma claim_until_keeps:
  assumes "claim_until mb target mid claimed ticks db = (res, db', rest)" and "mail_ok db"
  shows "mail_keeps db db'"
  using assms
proof (induction mb target mid claimed ticks db rule: claim_until.induct)
  case (1 mb target mid claimed ticks db)
  note run = 1(2) [unfolded claim_until.simps [of mb target mid claimed]]
  show ?case
  proof (cases "re_status claimed = ''claimed'' \<and> re_message_id claimed \<noteq> Some mid
      \<and> re_message_id claimed \<noteq> None \<and> re_lease_token claimed \<noteq> None \<and> ticks \<noteq> []")
    case False
    with run have "db' = db" by (auto split: if_splits option.splits list.splits)
    with 1(3) show ?thesis by (simp add: mail_keeps_refl)
  next
    case True
    then obtain other token where c: "re_status claimed = ''claimed''" "re_message_id claimed \<noteq> Some mid"
      "re_message_id claimed = Some other" "re_lease_token claimed = Some token" by auto
    from True obtain ans now tk ticks1 where t: "ticks = (ans, now, tk) # ticks1" by (cases ticks) auto
    obtain r1 db1 where n: "nack_mail mb ans now other token target db = (r1, db1)" by fastforce
    have k1: "mail_keeps db db1" using 1(3) n by (rule mail_keeps_ops)
    show ?thesis
    proof (cases "(\<exists>err. r1 = Inl err) \<or> ticks1 = []")
      case True
      with run c t n have "db' = db1" by (auto split: sum.splits)
      with k1 show ?thesis by simp
    next
      case False
      then obtain x ans2 now2 token2 ticks2 where r1: "r1 = Inr x"
        and t2: "ticks1 = (ans2, now2, token2) # ticks2"
        by (cases r1; cases ticks1) auto
      obtain r2 db2 where cl: "claim_mail mb ans2 now2 token2 target db1 = (r2, db2)" by fastforce
      have k2: "mail_keeps db db2"
        using mail_keeps_ops(2) [OF mail_keeps_ok [OF k1] cl] k1 by (blast intro: mail_keeps_trans)
      show ?thesis
      proof (cases r2)
        case (Inl err)
        with run c t n r1 t2 cl have "db' = db2" by simp
        with k2 show ?thesis by simp
      next
        case (Inr claimed2)
        with run c t n r1 t2 cl have next_run: "claim_until mb target mid claimed2 ticks2 db2 = (res, db', rest)"
          by simp
        have "mail_keeps db2 db'"
          by (rule 1(1) [OF conjI [OF c(1,2)] _ c(3) c(4) t _ _ n [symmetric] r1 t2 _ _ cl [symmetric] Inr next_run
                mail_keeps_ok [OF k2]]) simp_all
        with k2 show ?thesis by (rule mail_keeps_trans)
      qed
    qed
  qed
qed

section \<open>The invariant of deliveries\<close>

definition settled_result :: "child_world \<Rightarrow> string \<Rightarrow> bool" where
  "settled_result w mid \<longleftrightarrow> (\<exists>r. message (cw_mail w) mid = Some r \<and> ml_status r = Delivered)
     \<and> (\<exists>q \<in> set (receipts (cw_plan w)). cr_message_id q = mid)"

definition finished_ids :: "child_world \<Rightarrow> string set" where
  "finished_ids w = set (cw_called_back w) \<union> set (cw_completed w) \<union> set (cw_receipts w)"

text \<open>\<open>us\<close> are the messages that were delivered without an applier\<close>

definition child_ok :: "string set \<Rightarrow> child_world \<Rightarrow> bool" where
  "child_ok us w \<longleftrightarrow> mail_ok (cw_mail w) \<and>
     (\<forall>mid \<in> finished_ids w. message (cw_mail w) mid \<noteq> None \<and> (mid \<notin> us \<longrightarrow> settled_result w mid))"

definition grows :: "child_world \<Rightarrow> child_world \<Rightarrow> bool" where
  "grows w w' \<longleftrightarrow> mail_keeps (cw_mail w) (cw_mail w')
     \<and> set (receipts (cw_plan w)) \<subseteq> set (receipts (cw_plan w'))"

lemma grows_settled: "grows w w' \<Longrightarrow> settled_result w mid \<Longrightarrow> settled_result w' mid"
  unfolding grows_def settled_result_def mail_keeps_def by blast

lemma grows_refl: "mail_ok (cw_mail w) \<Longrightarrow> grows w w"
  by (simp add: grows_def mail_keeps_refl)

lemma grows_trans: "grows a b \<Longrightarrow> grows b c \<Longrightarrow> grows a c"
  unfolding grows_def using mail_keeps_trans by blast

lemma grows_mail: "mail_keeps (cw_mail w) db \<Longrightarrow> grows w (w\<lparr>cw_mail := db\<rparr>)"
  by (simp add: grows_def)

text \<open>\<open>w'\<close> follows \<open>w\<close> with nothing finished on the way.\<close>

definition progressed :: "child_world \<Rightarrow> child_world \<Rightarrow> bool" where
  "progressed w w' \<longleftrightarrow> grows w w' \<and> finished_ids w' = finished_ids w"

lemma progressed_mail: "mail_keeps (cw_mail w) db \<Longrightarrow> progressed w (w\<lparr>cw_mail := db\<rparr>)"
  by (simp add: progressed_def grows_mail finished_ids_def)

lemma progressed_trans: "progressed a b \<Longrightarrow> progressed b c \<Longrightarrow> progressed a c"
  unfolding progressed_def using grows_trans by auto

lemma progressed_ok: "progressed w w' \<Longrightarrow> child_ok us w \<Longrightarrow> child_ok us w'"
  unfolding progressed_def child_ok_def using grows_settled [of w w'] by (fastforce simp: grows_def mail_keeps_def)

lemma ack_delivers:
  assumes "ack_mail mb ans now k tok target db = (Inr res, db')" and "re_status res = ''acked''"
    and "mail_ok db"
  shows "\<exists>r. message db' k = Some r \<and> ml_status r = Delivered"
proof -
  let ?f = "\<lambda>x. x\<lparr>ml_status := Delivered, ml_next_retry_at := None, ml_lease_owner := None,
      ml_lease_token := None, ml_lease_expires_at := None, ml_updated_at := now\<rparr>"
  have lost: "row_result ''lost_lease'' row a b c \<noteq> Inr res" for row a b c
    using assms(2) row_result_status by fastforce
  have "ans = Db_Ok \<and> db' = set_row k ?f db \<and> message db k \<noteq> None"
    using assms(1,2) lost
    by (cases ans) (auto simp: ack_mail_def settle_mail_def Let_def message_def split: sum.splits if_splits option.splits)
  moreover then obtain r where "message db k = Some r" by auto
  ultimately show ?thesis using message_set_row [of db k r ?f] by auto
qed

abbreviation applier_of :: "mail_envelope \<Rightarrow> string \<Rightarrow> string \<Rightarrow> dict \<Rightarrow> result_applier" where
  "applier_of e node status result \<equiv> (\<lambda>plan. apply_child_result plan (en_message_id e) node status result)"

lemma applied_progress:
  assumes "apply_child_result (cw_plan w) mid node status result = Inr (res, plan)"
    and "mail_ok (cw_mail w)"
  shows "progressed w (w\<lparr>cw_plan := plan\<rparr>)"
  using apply_child_result_receipts(1) [OF assms(1)] assms(2)
  by (auto simp: progressed_def grows_def mail_keeps_refl finished_ids_def)

lemma apply_claimed_progress:
  assumes run: "apply_claimed mb e (applier_of e node status result) token ticks w = (out, w', rest)"
    and ok: "mail_ok (cw_mail w)"
  shows "progressed w w' \<and> (out = Ran True \<longrightarrow> settled_result w' (en_message_id e))"
proof (cases "apply_child_result (cw_plan w) (en_message_id e) node status result")
  case (Inl err)
  show ?thesis
  proof (cases ticks)
    case Nil
    with run Inl ok show ?thesis
      by (simp add: apply_claimed_def progressed_def grows_refl)
  next
    case (Cons t more)
    obtain ans now tk where t: "t = (ans, now, tk)" by (cases t)
    obtain r db where n: "nack_mail mb ans now (en_message_id e) token (en_target e) (cw_mail w) = (r, db)"
      by fastforce
    from run Inl Cons t n have "w' = w\<lparr>cw_mail := db\<rparr>" "out \<noteq> Ran True"
      by (auto simp: apply_claimed_def split: sum.splits)
    with progressed_mail [OF mail_keeps_ops(3) [OF ok n]] show ?thesis by simp
  qed
next
  case (Inr rp)
  obtain res plan where rp: "rp = (res, plan)" by (cases rp)
  note ap = Inr [unfolded rp]
  have p1: "progressed w (w\<lparr>cw_plan := plan\<rparr>)" using ap ok by (rule applied_progress)
  show ?thesis
  proof (cases ticks)
    case Nil
    with run ap p1 show ?thesis by (simp add: apply_claimed_def Let_def)
  next
    case (Cons t more)
    obtain ans now tk where t: "t = (ans, now, tk)" by (cases t)
    obtain r db where a: "ack_mail mb ans now (en_message_id e) token (en_target e) (cw_mail w) = (r, db)"
      by fastforce
    from run ap Cons t a have w': "w' = w\<lparr>cw_plan := plan, cw_mail := db\<rparr>"
      and o: "out = Ran True \<longrightarrow> (\<exists>s. r = Inr s \<and> re_status s = ''acked'')"
      by (auto simp: apply_claimed_def Let_def split: sum.splits)
    have "progressed (w\<lparr>cw_plan := plan\<rparr>) w'"
      unfolding w' using progressed_mail [of "w\<lparr>cw_plan := plan\<rparr>" db] mail_keeps_ops(4) [OF ok a] by simp
    moreover have "settled_result w' (en_message_id e)" if "out = Ran True"
      using o that ack_delivers [of mb ans now _ token] a ok apply_child_result_receipts(2) [OF ap]
      by (auto simp: settled_result_def w')
    ultimately show ?thesis using p1 progressed_trans by blast
  qed
qed

lemma claim_and_apply_progress:
  assumes run: "claim_and_apply mb e (applier_of e node status result) ticks w = (out, w', rest)"
    and ok: "mail_ok (cw_mail w)"
  shows "progressed w w' \<and> (out = Ran True \<longrightarrow> settled_result w' (en_message_id e))"
proof (cases ticks)
  case Nil
  with run ok show ?thesis by (simp add: claim_and_apply_def progressed_def grows_refl)
next
  case (Cons t more)
  obtain ans now tk where t: "t = (ans, now, tk)" by (cases t)
  obtain r db where c: "claim_mail mb ans now tk (en_target e) (cw_mail w) = (r, db)" by fastforce
  have k: "mail_keeps (cw_mail w) db" using ok c by (rule mail_keeps_ops)
  show ?thesis
  proof (cases r)
    case (Inl err)
    with run Cons t c progressed_mail [OF k] show ?thesis by (auto simp: claim_and_apply_def)
  next
    case (Inr claimed)
    obtain res db1 rest1 where u: "claim_until mb (en_target e) (en_message_id e) claimed more db = (res, db1, rest1)"
      by (cases "claim_until mb (en_target e) (en_message_id e) claimed more db") auto
    have p1: "progressed w (w\<lparr>cw_mail := db1\<rparr>)"
      using claim_until_keeps [OF u mail_keeps_ok [OF k]] k by (blast intro: progressed_mail mail_keeps_trans)
    note run' = run [unfolded claim_and_apply_def Cons t, simplified, unfolded c, simplified, unfolded Inr,
        simplified, unfolded u, simplified]
    show ?thesis
    proof (cases "\<exists>final tok. res = Ran (Some final) \<and> re_status final = ''claimed''
        \<and> re_message_id final = Some (en_message_id e) \<and> re_lease_token final = Some tok")
      case True
      then obtain tok where "apply_claimed mb e (applier_of e node status result) tok rest1
          (w\<lparr>cw_mail := db1\<rparr>) = (out, w', rest)"
        using run' by auto
      from apply_claimed_progress [OF this] p1 show ?thesis
        using claim_until_keeps [OF u mail_keeps_ok [OF k]] by (auto intro: progressed_trans dest: mail_keeps_ok)
    next
      case False
      then have "w' = w\<lparr>cw_mail := db1\<rparr> \<and> out \<noteq> Ran True"
        using run' by (auto split: run.splits option.splits if_splits)
      with p1 show ?thesis by simp
    qed
  qed
qed

lemma finish_delivery_ok:
  assumes "finish_delivery sessions mid ticks w = (out, w', rest)" and "child_ok us w" and "settled_result w mid"
  shows "child_ok us w' \<and> settled_result w' mid"
  using assms
  by (auto simp: finish_delivery_def child_ok_def finished_ids_def settled_result_def record_receipt_def Let_def
      split: list.splits if_splits)

lemma deliver_child_ok:
  assumes run: "deliver_child_result sessions mb e (Some (applier_of e node status result)) ticks w = (out, w', rest)"
    and ok: "child_ok us w"
  shows "child_ok us w' \<and> (out = Ran True \<longrightarrow> en_message_id e \<notin> us \<longrightarrow> settled_result w' (en_message_id e))"
proof (cases "en_message_id e \<in> set (cw_completed w) \<or> (sessions \<and> en_message_id e \<in> set (cw_receipts w)) \<or> ticks = []")
  case True
  with run ok show ?thesis
    by (auto simp: deliver_child_result_def child_ok_def finished_ids_def split: if_splits)
next
  case False
  then obtain ans now tk more where t: "ticks = (ans, now, tk) # more" by (cases ticks) auto
  have mok: "mail_ok (cw_mail w)" using ok by (simp add: child_ok_def)
  obtain r db where q: "enqueue_mail mb ans now e (cw_mail w) = (r, db)" by fastforce
  let ?w1 = "w\<lparr>cw_mail := db\<rparr>"
  have k: "mail_keeps (cw_mail w) db" using mok q by (rule mail_keeps_ops)
  have ok1: "child_ok us ?w1" using progressed_mail [OF k] ok by (rule progressed_ok)
  obtain o2 w2 rest2 where ca: "claim_and_apply mb e (applier_of e node status result) more ?w1 = (o2, w2, rest2)"
    by (cases "claim_and_apply mb e (applier_of e node status result) more ?w1") auto
  have p2: "progressed ?w1 w2 \<and> (o2 = Ran True \<longrightarrow> settled_result w2 (en_message_id e))"
    using claim_and_apply_progress [OF ca] mail_keeps_ok [OF k] by simp
  then have ok2: "child_ok us w2" using ok1 by (blast intro: progressed_ok)
  show ?thesis
  proof (cases "(\<exists>s. r = Inr s \<and> re_status s \<in> {''inserted'', ''existing''}) \<and> o2 = Ran True")
    case True
    with run False t q ca have "finish_delivery sessions (en_message_id e) rest2 w2 = (out, w', rest)"
      by (auto simp: deliver_child_result_def Let_def)
    from finish_delivery_ok [OF this ok2] p2 True show ?thesis by blast
  next
    case no: False
    have "(w' = ?w1 \<or> w' = w2) \<and> out \<noteq> Ran True"
      using run False t q ca no
      by (auto simp: deliver_child_result_def Let_def split: sum.splits if_splits run.splits bool.splits)
    with ok1 ok2 show ?thesis by auto
  qed
qed

lemma child_ok_more: "child_ok us w \<Longrightarrow> us \<subseteq> vs \<Longrightarrow> child_ok vs w"
  by (auto simp: child_ok_def)

text \<open>Without an applier the message is left in the mailbox for someone else\<close>

lemma finish_unapplied_ok:
  assumes "finish_delivery sessions mid ticks w = (out, w', rest)" and "child_ok us w" and "mid \<in> us"
    and "message (cw_mail w) mid \<noteq> None"
  shows "child_ok us w'"
  using assms
  by (auto simp: finish_delivery_def child_ok_def finished_ids_def settled_result_def record_receipt_def Let_def
      split: list.splits if_splits)

lemma deliver_unapplied_ok:
  assumes run: "deliver_child_result sessions mb e None ticks w = (out, w', rest)" and ok: "child_ok us w"
  shows "child_ok (insert (en_message_id e) us) w'"
proof -
  have ok': "child_ok (insert (en_message_id e) us) w" using ok by (rule child_ok_more) auto
  show ?thesis
  proof (cases "en_message_id e \<in> set (cw_completed w) \<or> (sessions \<and> en_message_id e \<in> set (cw_receipts w)) \<or> ticks = []")
    case True
    then have "w' = w" using run by (auto simp: deliver_child_result_def split: if_splits)
    with ok' show ?thesis by simp
  next
    case False
    then obtain ans now tk more where t: "ticks = (ans, now, tk) # more" by (cases ticks) auto
    obtain r db where q: "enqueue_mail mb ans now e (cw_mail w) = (r, db)" by fastforce
    let ?w1 = "w\<lparr>cw_mail := db\<rparr>"
    have mok: "mail_ok (cw_mail w)" using ok by (simp add: child_ok_def)
    have ok1: "child_ok (insert (en_message_id e) us) ?w1"
      using progressed_mail [OF mail_keeps_ops(1) [OF mok q]] ok' by (rule progressed_ok)
    show ?thesis
    proof (cases "\<exists>s. r = Inr s \<and> re_status s \<in> {''inserted'', ''existing''}")
      case True
      then obtain s where s: "r = Inr s" "re_status s \<in> {''inserted'', ''existing''}" by blast
      have f: "finish_delivery sessions (en_message_id e) more ?w1 = (out, w', rest)"
        using run False t q s by (auto simp: deliver_child_result_def Let_def split: if_splits)
      have "message db (en_message_id e) \<noteq> None"
        using enqueue_accepted [OF q [unfolded s(1)] s(2)] by auto
      then show ?thesis by (intro finish_unapplied_ok [OF f ok1]) simp_all
    next
      case no: False
      have "w' = ?w1"
        using run False t q no by (auto simp: deliver_child_result_def Let_def split: sum.splits if_splits)
      with ok1 show ?thesis by simp
    qed
  qed
qed

section \<open>Reporting\<close>

lemma deliver_attempts_ok:
  assumes "deliver_attempts n sessions mb e (applier_of e node status result) ticks w = (out, w', rest)"
    and "child_ok us w"
  shows "child_ok us w' \<and> (out = Ran True \<longrightarrow> en_message_id e \<notin> us \<longrightarrow> settled_result w' (en_message_id e))"
  using assms
proof (induction n arbitrary: ticks w)
  case (Suc n)
  obtain o1 w1 rest1 where d: "deliver_child_result sessions mb e (Some (applier_of e node status result))
      ticks w = (o1, w1, rest1)"
    by (cases "deliver_child_result sessions mb e (Some (applier_of e node status result)) ticks w") auto
  note ok1 = deliver_child_ok [OF d Suc.prems(2)]
  show ?case
  proof (cases "o1 = Ran False")
    case True
    with Suc.prems(1) d have "deliver_attempts n sessions mb e (applier_of e node status result) rest1 w1
        = (out, w', rest)" by simp
    from Suc.IH [OF this] ok1 show ?thesis by simp
  next
    case False
    then have "out = o1 \<and> w' = w1"
      using Suc.prems(1) d by (auto split: run.splits bool.splits)
    with ok1 show ?thesis by simp
  qed
qed auto

lemma report_child_runs:
  assumes "report_child sessions mb spawn source parent node status role result ticks w = (out, w', rest)"
    and ok: "child_ok us w"
  shows "child_ok us w' \<and> (out = Ran () \<longrightarrow> child_result_id spawn \<notin> us \<longrightarrow>
    (\<exists>q \<in> set (receipts (cw_plan w')). cr_message_id q = child_result_id spawn))"
proof -
  let ?e = "child_envelope spawn source parent node status role result"
  have id: "en_message_id ?e = child_result_id spawn" by (simp add: child_envelope_def)
  obtain o1 w1 rest1 where d: "deliver_attempts 3 sessions mb ?e (applier_of ?e node status result) ticks w
      = (o1, w1, rest1)"
    by (cases "deliver_attempts 3 sessions mb ?e (applier_of ?e node status result) ticks w") auto
  note a = deliver_attempts_ok [OF d ok]
  note run = assms(1) [unfolded report_child_def Let_def id [symmetric], unfolded d, simplified]
  show ?thesis
  proof (cases "o1 = Ran False")
    case False
    with run have "w' = w1" "out = Ran () \<Longrightarrow> o1 = Ran True" by (auto split: run.splits bool.splits)
    with a id show ?thesis by (auto simp: settled_result_def)
  next
    case True
    show ?thesis
    proof (cases "apply_child_result (cw_plan w1) (en_message_id ?e) node status result")
      case (Inl err)
      with run True a show ?thesis by auto
    next
      case (Inr rp)
      then obtain r plan where ap: "apply_child_result (cw_plan w1) (en_message_id ?e) node status result = Inr (r, plan)"
        and w': "w' = w1\<lparr>cw_plan := plan\<rparr>" using run True by (cases rp) auto
      have "child_ok us w'"
        unfolding w' using a by (intro progressed_ok [OF applied_progress [OF ap]]) (simp_all add: child_ok_def)
      with apply_child_result_receipts(2) [OF ap] w' id show ?thesis by auto
    qed
  qed
qed

section \<open>Histories\<close>

text \<open>
  Deliveries of any children's results, with the applier of the gateway or without one, whole reports of a child
  by the gateway, any other operation on the two databases, and restarts of the process, which forget
  what it had completed. The second component collects the messages that were delivered without an applier.
\<close>

inductive child_step ::
  "(dict \<Rightarrow> string \<Rightarrow> json \<Rightarrow> dict result) \<Rightarrow> nat \<Rightarrow> bool \<Rightarrow> child_world \<times> string set \<Rightarrow> child_world \<times> string set \<Rightarrow> bool"
  for js :: "dict \<Rightarrow> string \<Rightarrow> json \<Rightarrow> dict result" and frames :: nat and sessions :: bool
where
  delivery: "deliver_child_result sessions mb e (Some (applier_of e node status result)) ticks w
      = (out, w', rest) \<Longrightarrow> child_step js frames sessions (w, us) (w', us)"
| unapplied: "deliver_child_result sessions mb e None ticks w = (out, w', rest) \<Longrightarrow>
    child_step js frames sessions (w, us) (w', insert (en_message_id e) us)"
| report: "report_child sessions mb spawn source parent node status role result ticks w = (fin, w', rest) \<Longrightarrow>
    child_step js frames sessions (w, us) (w', us)"
| other_mail: "child_step js frames sessions (w, us) (w\<lparr>cw_mail := mail_step (cw_mail w) op\<rparr>, us)"
| other_plan: "plan_step js frames (cw_plan w) m \<Longrightarrow> child_step js frames sessions (w, us) (w\<lparr>cw_plan := m\<rparr>, us)"
| restart: "child_step js frames sessions (w, us) (w\<lparr>cw_completed := []\<rparr>, us)"

inductive child_history ::
  "(dict \<Rightarrow> string \<Rightarrow> json \<Rightarrow> dict result) \<Rightarrow> nat \<Rightarrow> bool \<Rightarrow> child_world \<times> string set \<Rightarrow> child_world \<times> string set \<Rightarrow> bool"
  for js :: "dict \<Rightarrow> string \<Rightarrow> json \<Rightarrow> dict result" and frames :: nat and sessions :: bool
    and w0 :: "child_world \<times> string set"
where
  child_start: "child_history js frames sessions w0 w0"
| child_next: "child_history js frames sessions w0 w \<Longrightarrow> child_step js frames sessions w w' \<Longrightarrow>
    child_history js frames sessions w0 w'"

lemma child_step_ok:
  assumes "child_step js frames sessions (w, us) (w', us')" and ok: "child_ok us w"
  shows "child_ok us' w'"
  using assms(1)
proof cases
  case (delivery mb e node status result ticks out rest)
  from deliver_child_ok [OF delivery(2) ok] delivery(1) show ?thesis by simp
next
  case (unapplied mb e ticks out rest)
  from deliver_unapplied_ok [OF unapplied(2) ok] unapplied(1) show ?thesis by simp
next
  case (report mb spawn source parent node status role result ticks fin rest)
  from report_child_runs [OF report(2) ok] report(1) show ?thesis by simp
next
  case (other_mail op)
  have "mail_keeps (cw_mail w) (mail_step (cw_mail w) op)"
    using ok by (intro mail_keeps_step) (simp add: child_ok_def)
  then show ?thesis unfolding other_mail using ok by (blast intro: progressed_ok progressed_mail)
next
  case (other_plan m)
  then have "progressed w w'"
    using plan_step_receipts [OF other_plan(3)] ok
    by (auto simp: progressed_def grows_def finished_ids_def child_ok_def mail_keeps_refl)
  then show ?thesis using ok other_plan(2) by (blast intro: progressed_ok)
next
  case restart
  with ok show ?thesis
    by (auto simp: child_ok_def finished_ids_def settled_result_def)
qed

lemma child_history_ok: "child_history js frames sessions s0 s \<Longrightarrow> child_ok (snd s0) (fst s0) \<Longrightarrow> child_ok (snd s) (fst s)"
proof (induction rule: child_history.induct)
  case (child_next s s')
  then show ?case using child_step_ok [of js frames sessions "fst s" "snd s" "fst s'" "snd s'"] by simp
qed simp

text \<open>
  C33. Whatever results are delivered, with the applier of the gateway or without one, repeated, refused or
  interrupted at any point, and whatever else happens to the two databases: when a delivery is on record as
  done (its callback was called, it has a receipt, or the process remembers it), its message is in the mailbox,
  and unless it was ever delivered without an applier, the message is acknowledged and the result recorded in the
  plan. (What the callback destroys is the caller's affair; the gateway passes one that does nothing.)
\<close>

theorem child_result_settled:
  assumes "child_history js frames sessions (w0, {}) (w, unapplied)" and "mail_ok (cw_mail w0)"
    and "cw_called_back w0 = []" and "cw_completed w0 = []" and "cw_receipts w0 = []"
    and "mid \<in> set (cw_called_back w) \<union> set (cw_receipts w) \<union> set (cw_completed w)"
  shows "\<exists>r. message (cw_mail w) mid = Some r
    \<and> (mid \<notin> unapplied \<longrightarrow> ml_status r = Delivered \<and> (\<exists>q \<in> set (receipts (cw_plan w)). cr_message_id q = mid))"
proof -
  have "child_ok {} w0" using assms(2-5) by (simp add: child_ok_def finished_ids_def)
  with child_history_ok [OF assms(1)] have "child_ok unapplied w" by simp
  then obtain r where r: "message (cw_mail w) mid = Some r" "mid \<notin> unapplied \<longrightarrow> settled_result w mid"
    using assms(6) by (auto simp: child_ok_def finished_ids_def)
  then show ?thesis by (auto simp: settled_result_def)
qed

text \<open>
  When a child's report returns, however its mail fared, its result is recorded in the plan.
\<close>

theorem report_child_recorded:
  assumes "report_child sessions mb spawn source parent node status role result ticks w = (Ran (), w', rest)"
    and "child_ok {} w"
  shows "\<exists>q \<in> set (receipts (cw_plan w')). cr_message_id q = child_result_id spawn"
  using report_child_runs [OF assms] by simp

section \<open>An acknowledged message that was not recorded\<close>

lemma claim_not_delivered:
  assumes "claim_mail mb ans now tok target db = (Inr res, db')" and "mail_ok db"
    and "re_status res = ''claimed''" and "message db mid = Some r" and "ml_status r = Delivered"
  shows "re_message_id res \<noteq> Some mid"
proof
  assume "re_message_id res = Some mid"
  have st: "re_status res \<noteq> ''closed''" "re_status res \<noteq> ''empty''" "re_status res \<noteq> ''mailbox_busy''"
    using assms(3) by simp_all
  from assms(1) obtain uri x where "first_due db uri now = Some x" "re_message_id res = Some (ml_message_id x)"
    using st by (cases ans) (auto simp: claim_mail_def row_result_def bind_result_Inr split: sum.splits if_splits option.splits)
  with first_due_SomeD have "x \<in> set db" "due uri now x" "ml_message_id x = mid"
    using \<open>re_message_id res = Some mid\<close> by auto
  with message_unique [OF assms(2), of x mid] assms(4,5) show False by (auto simp: due_def)
qed

lemma claim_until_not_delivered:
  assumes "claim_until mb target mid claimed ticks db = (Ran (Some final), db', rest)" and "mail_ok db"
    and "message db mid = Some r" and "ml_status r = Delivered"
    and "re_status claimed = ''claimed'' \<Longrightarrow> re_message_id claimed \<noteq> Some mid"
  shows "re_status final = ''claimed'' \<Longrightarrow> re_message_id final \<noteq> Some mid"
  using assms
proof (induction mb target mid claimed ticks db rule: claim_until.induct)
  case (1 mb target mid claimed ticks db)
  note run = 1(3) [unfolded claim_until.simps [of mb target mid claimed]]
  show ?case
  proof (cases "re_status claimed = ''claimed'' \<and> re_message_id claimed \<noteq> Some mid")
    case False
    with run 1(2,7) show ?thesis by auto
  next
    case True
    with run obtain other token ans now tk ans2 now2 token2 ticks2 x db1 claimed2 db2 where
      c: "re_message_id claimed = Some other" "re_lease_token claimed = Some token"
      and t: "ticks = (ans, now, tk) # (ans2, now2, token2) # ticks2"
      and n: "nack_mail mb ans now other token target db = (Inr x, db1)"
      and cl: "claim_mail mb ans2 now2 token2 target db1 = (Inr claimed2, db2)"
      and next_run: "claim_until mb target mid claimed2 ticks2 db2 = (Ran (Some final), db', rest)"
      by (auto split: option.splits list.splits prod.splits sum.splits)
    have k1: "mail_keeps db db1" using 1(4) n by (rule mail_keeps_ops)
    have k2: "mail_keeps db1 db2" using mail_keeps_ok [OF k1] cl by (rule mail_keeps_ops)
    have m1: "message db1 mid = Some r" using k1 1(5,6) by (simp add: mail_keeps_def)
    then have m2: "message db2 mid = Some r" using k2 1(6) by (simp add: mail_keeps_def)
    show ?thesis
      by (rule 1(1) [OF conjI [OF True [THEN conjunct1] True [THEN conjunct2]] _ c t _ _ n [symmetric] _ _ _ _
            cl [symmetric] _ 1(2) next_run mail_keeps_ok [OF k2] m2 1(6)])
        (use claim_not_delivered [OF cl mail_keeps_ok [OF k1] _ m1 1(6)] in simp_all)
  qed
qed

text \<open>
  A process that stops between the acknowledgement and the receipt leaves a message that no later
  delivery can claim: from then on every delivery of it fails and the child is never destroyed.
\<close>

lemma acked_never_destroyed:
  assumes run: "deliver_child_result sessions mb e (Some f) ticks w = (out, w', rest)"
    and ok: "mail_ok (cw_mail w)" and r: "message (cw_mail w) (en_message_id e) = Some r" "ml_status r = Delivered"
    and new: "en_message_id e \<notin> set (cw_completed w)" "en_message_id e \<notin> set (cw_receipts w)"
  shows "out \<noteq> Ran True \<and> cw_called_back w' = cw_called_back w"
proof (cases ticks)
  case Nil
  with run new show ?thesis by (auto simp: deliver_child_result_def)
next
  case (Cons t more)
  obtain ans now tk where t: "t = (ans, now, tk)" by (cases t)
  obtain q db where e: "enqueue_mail mb ans now e (cw_mail w) = (q, db)" by fastforce
  have k: "mail_keeps (cw_mail w) db" using ok e by (rule mail_keeps_ops)
  have mdb: "message db (en_message_id e) = Some r" using k r by (simp add: mail_keeps_def)
  obtain o2 w2 rest2 where ca: "claim_and_apply mb e f more (w\<lparr>cw_mail := db\<rparr>) = (o2, w2, rest2)"
    by (cases "claim_and_apply mb e f more (w\<lparr>cw_mail := db\<rparr>)") auto
  have refused: "o2 \<noteq> Ran True \<and> cw_called_back w2 = cw_called_back w"
  proof (cases more)
    case Nil
    with ca show ?thesis by (auto simp: claim_and_apply_def)
  next
    case (Cons u more2)
    obtain ans2 now2 tk2 where u: "u = (ans2, now2, tk2)" by (cases u)
    obtain c db1 where cl: "claim_mail mb ans2 now2 tk2 (en_target e) db = (c, db1)" by fastforce
    have k1: "mail_keeps db db1" using mail_keeps_ok [OF k] cl by (rule mail_keeps_ops)
    have m1: "message db1 (en_message_id e) = Some r" using k1 mdb r(2) by (simp add: mail_keeps_def)
    show ?thesis
    proof (cases c)
      case (Inl err)
      with ca Cons u cl show ?thesis by (auto simp: claim_and_apply_def)
    next
      case (Inr claimed)
      obtain res db2 rest3 where cu: "claim_until mb (en_target e) (en_message_id e) claimed more2 db1 = (res, db2, rest3)"
        by (cases "claim_until mb (en_target e) (en_message_id e) claimed more2 db1") auto
      have "res = Ran (Some final) \<Longrightarrow> re_status final = ''claimed'' \<Longrightarrow> re_message_id final \<noteq> Some (en_message_id e)" for final
        using claim_until_not_delivered [OF _ mail_keeps_ok [OF k1] m1 r(2)] cu
          claim_not_delivered [OF cl [unfolded Inr] mail_keeps_ok [OF k] _ mdb r(2)] by blast
      with ca Cons u cl Inr cu show ?thesis
        by (auto simp: claim_and_apply_def split: run.splits option.splits if_splits)
    qed
  qed
  show ?thesis
    using run Cons t e new ca refused
    by (auto simp: deliver_child_result_def Let_def split: sum.splits if_splits run.splits bool.splits)
qed


section \<open>A sample child\<close>

definition sample_dispatched :: map_db where
  "sample_dispatched = state_of sample_plan (dispatch_child_agent sample_plan ''s1'' ''a'' ''mapping'')"

definition sample_id :: string where
  "sample_id = child_result_id ''s1''"

definition sample_world :: child_world where
  "sample_world = \<lparr>cw_mail = [], cw_plan = sample_dispatched, cw_receipts = [], cw_completed = [], cw_called_back = []\<rparr>"

definition sample_result :: mail_envelope where
  "sample_result = child_envelope ''s1'' demo_address demo_address ''a'' ''completed'' ''mapping'' []"

definition sample_applied :: map_db where
  "sample_applied = state_of sample_dispatched (apply_child_result sample_dispatched sample_id ''a'' ''completed'' [])"

lemma sample_application:
  "\<exists>r. apply_child_result sample_dispatched sample_id ''a'' ''completed'' [] = Inr (r, sample_applied) \<and> chr_applied r"
proof -
  have ok: "is_ok (apply_child_result sample_dispatched sample_id ''a'' ''completed'' [])"
    "case apply_child_result sample_dispatched sample_id ''a'' ''completed'' [] of
       Inl _ \<Rightarrow> False | Inr (r, _) \<Rightarrow> chr_applied r" by code_simp+
  obtain r where r: "apply_child_result sample_dispatched sample_id ''a'' ''completed'' [] = Inr (r, sample_applied)"
    using state_of_ok [OF ok(1), of sample_dispatched] unfolding sample_applied_def by blast
  show ?thesis using ok(2) unfolding r by simp
qed

lemma sample_parse: "parse_address demo_uri = Inr demo_address"
  by (rule parse_to_uri [OF demo_address_uri]) (simp add: valid_address_def demo_address_def)

definition sample_ticks :: "tick list" where
  "sample_ticks = [(Db_Ok, 0, ''t1''), (Db_Ok, 1, ''t2''), (Db_Ok, 2, ''t3''), (Db_Ok, 3, ''t4''), (Db_Ok, 4, ''t5'')]"

lemma sample_envelope:
  "en_message_id sample_result = sample_id" "en_source sample_result = demo_address"
  "en_target sample_result = demo_address" "en_type sample_result = ''child-result''"
  "sample_id \<noteq> []"
  by (simp_all add: sample_result_def child_envelope_def sample_id_def child_result_id_def)

lemma sample_delivery:
  "\<exists>w. deliver_child_result True demo_mailbox sample_result
     (Some (applier_of sample_result ''a'' ''completed'' [])) sample_ticks sample_world = (Ran True, w, [])
     \<and> cw_called_back w = [sample_id] \<and> cw_plan w = sample_applied"
proof -
  have mb: "\<not> mb_closed demo_mailbox" "mb_capacity demo_mailbox = 2" "mb_consumer_id demo_mailbox = ''c''" "mb_lease demo_mailbox = 30"
    by (simp_all add: demo_mailbox_def)
  obtain r where ap: "apply_child_result sample_dispatched sample_id ''a'' ''completed'' [] = Inr (r, sample_applied)"
    using sample_application by blast
  show ?thesis
    by (simp add: deliver_child_result_def sample_ticks_def sample_world_def Let_def sample_envelope mb
        enqueue_mail_def demo_target rowcount_def row_result_def from_storage_def sample_parse make_envelope_def
        claim_and_apply_def claim_mail_def first_due_def due_def claim_until.simps next_sequence_def
        apply_claimed_def ap ack_mail_def settle_mail_def lease_matches_def set_row_def finish_delivery_def
        record_receipt_def)
qed

theorem child_result_once_witness:
  "apply_child_result sample_applied sample_id ''b'' ''failed'' [(''k'', JNull)]
     = Inr (\<lparr>chr_node = ''a'', chr_status = ''completed'', chr_applied = False\<rparr>, sample_applied)"
proof -
  obtain r where r: "apply_child_result sample_dispatched sample_id ''a'' ''completed'' [] = Inr (r, sample_applied)"
    "chr_applied r" using sample_application by blast
  have "''failed'' \<in> set child_outcomes" by (simp add: child_outcomes_def)
  from child_result_once [OF r plan_history.start [of sample_set 20] this] show ?thesis .
qed

theorem child_result_settled_witness:
  "\<exists>q \<in> set (receipts sample_applied). cr_message_id q = sample_id"
proof -
  obtain w where w: "deliver_child_result True demo_mailbox sample_result
     (Some (applier_of sample_result ''a'' ''completed'' [])) sample_ticks sample_world = (Ran True, w, [])"
     "cw_called_back w = [sample_id]" "cw_plan w = sample_applied" using sample_delivery by blast
  have "child_history sample_set 20 True (sample_world, {}) (w, {})"
    by (rule child_next [OF child_start]) (rule delivery [OF w(1)])
  from child_result_settled [OF this, of sample_id] w(2,3) show ?thesis
    by (auto simp: sample_world_def mail_ok_def unique_key_def)
qed

theorem report_child_recorded_witness:
  "\<exists>w. report_child True demo_mailbox ''s1'' demo_address demo_address ''a'' ''completed'' ''mapping'' []
     sample_ticks sample_world = (Ran (), w, []) \<and> (\<exists>q \<in> set (receipts (cw_plan w)). cr_message_id q = sample_id)"
proof -
  obtain w where w: "deliver_child_result True demo_mailbox sample_result
     (Some (applier_of sample_result ''a'' ''completed'' [])) sample_ticks sample_world = (Ran True, w, [])"
    using sample_delivery by blast
  have r: "report_child True demo_mailbox ''s1'' demo_address demo_address ''a'' ''completed'' ''mapping'' []
     sample_ticks sample_world = (Ran (), w, [])"
    using w sample_envelope(1) by (simp add: report_child_def Let_def sample_result_def sample_id_def numeral_3_eq_3)
  have "child_ok {} sample_world"
    by (simp add: child_ok_def finished_ids_def sample_world_def mail_ok_def unique_key_def)
  from report_child_recorded [OF r this] r show ?thesis by (auto simp: sample_id_def)
qed

end
