(* ===== verification/Change_Publishing.thy ===== *)
theory Change_Publishing
  imports Change_Outbox Persistent_Mailbox
begin

text \<open>
  Publication of committed changes: \<^verbatim>\<open>publish_ready\<close> and one round of
  \<^verbatim>\<open>ChangeOutboxForwarder.run\<close> of \<^verbatim>\<open>agent/runtime/change_outbox.py\<close>. The outbox runs in its
  world and environment; \<open>answers\<close> gives what the mail database says at each tick. Stopping
  between the enqueueing and the transition is the fault of the transition.
\<close>

section \<open>Announcing a change\<close>

definition project_points :: "outbox \<Rightarrow> code_points" where
  "project_points ox = map of_char (ox_project_id ox)"

definition outbox_address :: "outbox \<Rightarrow> agent_address" where
  "outbox_address ox = \<lparr>ad_project = project_points ox, ad_agent = map of_char ''change-outbox'', ad_generation = 1\<rparr>"

definition map_runtime_address :: "outbox \<Rightarrow> agent_address" where
  "map_runtime_address ox = \<lparr>ad_project = project_points ox, ad_agent = map of_char ''map-runtime'', ad_generation = 1\<rparr>"

definition code_changed :: string where
  "code_changed = ''CodeChanged''"

definition change_payload :: "change_intent \<Rightarrow> json" where
  "change_payload i = JObj [(''path'', JStr (ci_relative_path i)), (''old_path'', opt_str (ci_old_path i)),
     (''before_digest'', JStr (ci_before_digest i)), (''after_digest'', JStr (ci_after_digest i))]"

definition change_envelope :: "outbox \<Rightarrow> agent_address \<Rightarrow> change_intent \<Rightarrow> mail_envelope" where
  "change_envelope ox target i = \<lparr>en_message_id = ci_message_id i, en_type = code_changed,
     en_source = outbox_address ox, en_target = target, en_payload = change_payload i,
     en_sequence = None, en_attempt = 0, en_created_at = None, en_updated_at = None\<rparr>"

section \<open>One pass over the ready intents\<close>

datatype publish_result = Delivered_Change change_intent | Retry_Change change_intent string

text \<open>A pass returns its results, fails with an exception, or the process stops.\<close>

datatype publish_end = Published "publish_result list" | Broken bridle_error | Outbox_Broken outbox_exn | Stopped

definition ready_now :: "environment \<Rightarrow> world \<Rightarrow> change_intent \<Rightarrow> bool" where
  "ready_now env w i \<longleftrightarrow> ci_state i = READY \<and> ci_superseded_by i = None
     \<and> (case ci_next_retry_at i of None \<Rightarrow> True | Some t \<Rightarrow> t \<le> xe_clock env (wd_tick w))"

definition accepted_status :: "mail_result \<Rightarrow> bool" where
  "accepted_status res \<longleftrightarrow> re_status res \<in> {''inserted'', ''existing''}"

fun publish_each ::
  "environment \<Rightarrow> (nat \<Rightarrow> db_answer) \<Rightarrow> outbox \<Rightarrow> mailbox \<Rightarrow> agent_address \<Rightarrow> change_intent list
     \<Rightarrow> publish_result list \<Rightarrow> world \<Rightarrow> mail_db \<Rightarrow> publish_end \<times> world \<times> mail_db" where
  "publish_each env answers ox mb target [] results w db = (Published results, w, db)"
| "publish_each env answers ox mb target (i # rest) results w db =
     (if \<not> ready_now env w i then publish_each env answers ox mb target rest results w db
      else let now = xe_clock env (wd_tick w) in
        (case make_envelope (change_envelope ox target i) of
           Inl err \<Rightarrow> (Broken err, w, db)
         | Inr envelope \<Rightarrow>
        (case enqueue_mail mb (answers (wd_tick w)) now envelope db of
           (Inl err, db') \<Rightarrow> (Broken err, w, db')
         | (Inr res, db') \<Rightarrow>
             (if accepted_status res
              then (case transition_intent env i DELIVERED READY w of
                      (Done d, w') \<Rightarrow> publish_each env answers ox mb target rest
                         (results @ (case d of None \<Rightarrow> [] | Some i' \<Rightarrow> [Delivered_Change i'])) w' db'
                    | (Raised e, w') \<Rightarrow> (Outbox_Broken e, w', db')
                    | (Halted, w') \<Rightarrow> (Stopped, w', db'))
              else (case increment_attempt env ox i now w of
                      (Done i', w') \<Rightarrow> publish_each env answers ox mb target rest
                         (results @ [Retry_Change i' (re_status res)]) w' db'
                    | (Raised e, w') \<Rightarrow> (Outbox_Broken e, w', db')
                    | (Halted, w') \<Rightarrow> (Stopped, w', db'))))))"

definition publish_ready ::
  "environment \<Rightarrow> (nat \<Rightarrow> db_answer) \<Rightarrow> outbox \<Rightarrow> mailbox \<Rightarrow> agent_address option \<Rightarrow> world \<Rightarrow> mail_db
     \<Rightarrow> publish_end \<times> world \<times> mail_db" where
  "publish_ready env answers ox mb target w db =
     (let destination = (case target of None \<Rightarrow> map_runtime_address ox | Some a \<Rightarrow> a)
      in publish_each env answers ox mb destination (intents w) [] w db)"

section \<open>The forwarder\<close>

text \<open>
  One round: a pass, the delivered intents join the pending wakes, and every pending wake is
  called until one raises; a wake that returned is taken off. A pass that raises adds none.
  \<open>wakes m\<close> tells whether the callback returns for the message.
\<close>

type_synonym pending_wakes = "(string \<times> change_intent) list"

definition delivered_wakes :: "publish_result list \<Rightarrow> pending_wakes" where
  "delivered_wakes rs = concat (map (\<lambda>r. case r of Delivered_Change i \<Rightarrow> [(ci_message_id i, i)]
     | Retry_Change _ _ \<Rightarrow> []) rs)"

definition set_default :: "pending_wakes \<Rightarrow> string \<times> change_intent \<Rightarrow> pending_wakes" where
  "set_default pending kv = (if fst kv \<in> fst ` set pending then pending else pending @ [kv])"

fun call_wakes :: "(string \<Rightarrow> bool) \<Rightarrow> pending_wakes \<Rightarrow> pending_wakes" where
  "call_wakes wakes [] = []"
| "call_wakes wakes ((m, i) # rest) = (if wakes m then call_wakes wakes rest else (m, i) # rest)"

definition forwarder_round ::
  "(string \<Rightarrow> bool) option \<Rightarrow> environment \<Rightarrow> (nat \<Rightarrow> db_answer) \<Rightarrow> outbox \<Rightarrow> mailbox \<Rightarrow> pending_wakes
     \<Rightarrow> world \<Rightarrow> mail_db \<Rightarrow> pending_wakes \<times> world \<times> mail_db" where
  "forwarder_round wake env answers ox mb pending w db =
     (case publish_ready env answers ox mb None w db of
        (Published rs, w', db') \<Rightarrow>
          ((case wake of None \<Rightarrow> pending
            | Some wakes \<Rightarrow> call_wakes wakes (foldl set_default pending (delivered_wakes rs))), w', db')
      | (_, w', db') \<Rightarrow> (pending, w', db'))"

end
