(* ===== verification/Publishing_Properties.thy ===== *)
theory Publishing_Properties
  imports Change_Publishing Mailbox_Properties
begin

text \<open>
  A committed change is announced and not lost: it stays ready until a message with exactly its
  content is in the mailbox, through failures and stops anywhere; and the retry delay is bounded.
\<close>

section \<open>What an enqueueing does to the contents\<close>

lemma enqueue_content:
  assumes "enqueue_mail mb ans now e db = (r, db')" and "mail_ok db"
  shows "mail_ok db'"
    and "mail_content db k = Some c \<Longrightarrow> mail_content db' k = Some c"
    and "mail_content db k = None \<Longrightarrow> mail_content db' k = Some c \<Longrightarrow>
      k = en_message_id e \<and> c = (en_payload e, projr (to_uri (en_target e)), en_type e)"
    and "r = Inr res \<Longrightarrow> accepted_status res \<Longrightarrow> mail_content db' (en_message_id e) \<noteq> None"
proof -
  let ?d = "(mb, ans, now, e)"
  have db': "snd (mail_deliver ?d db) = db'" by (simp only: mail_deliver_db assms(1) snd_conv)
  show "mail_ok db'" using mail_sink.ok_deliver [OF assms(2), of ?d] by (simp only: db')
  show "mail_content db k = Some c \<Longrightarrow> mail_content db' k = Some c"
    using mail_sink.kept [OF assms(2), of k c ?d] by (simp only: db')
  show "mail_content db k = None \<Longrightarrow> mail_content db' k = Some c \<Longrightarrow>
      k = en_message_id e \<and> c = (en_payload e, projr (to_uri (en_target e)), en_type e)"
    using mail_sink.added [OF assms(2), of k ?d c] unfolding db' by (simp add: delivery_key_def delivery_body_def)
  show "r = Inr res \<Longrightarrow> accepted_status res \<Longrightarrow> mail_content db' (en_message_id e) \<noteq> None"
    using enqueue_accepted [of mb ans now e db res db'] assms(1)
    by (simp add: accepted_status_def mail_content_def)
qed

section \<open>The invariant of publication\<close>

definition announcement :: "outbox \<Rightarrow> change_intent \<Rightarrow> json \<times> string \<times> string" where
  "announcement ox i = (change_payload i, projr (to_uri (map_runtime_address ox)), code_changed)"

definition intent_ids :: "world \<Rightarrow> string set" where
  "intent_ids w = ci_message_id ` set (wd_intents w)"

definition intent_flow :: "outbox \<Rightarrow> mail_db \<Rightarrow> change_intent \<Rightarrow> bool" where
  "intent_flow ox db i \<longleftrightarrow>
     (mail_content db (ci_message_id i) = None \<and> ci_state i \<noteq> DELIVERED)
     \<or> mail_content db (ci_message_id i) = Some (announcement ox i)"

definition publish_ok :: "outbox \<Rightarrow> world \<Rightarrow> mail_db \<Rightarrow> bool" where
  "publish_ok ox w db \<longleftrightarrow> mail_ok db \<and> unique_key ci_message_id (wd_intents w)
     \<and> (\<forall>i \<in> set (wd_intents w). intent_flow ox db i)"

text \<open>The same change, possibly retried or delivered since.\<close>

definition same_change :: "change_intent \<Rightarrow> change_intent \<Rightarrow> bool" where
  "same_change i i' \<longleftrightarrow> (\<exists>st n t. i' = i\<lparr>ci_state := st, ci_attempt := n, ci_next_retry_at := t\<rparr>
     \<and> (st = ci_state i \<or> (ci_state i = READY \<and> st = DELIVERED)))"

lemma same_change_refl [simp]: "same_change i i"
  unfolding same_change_def by (intro exI [of _ "ci_state i"] exI [of _ "ci_attempt i"] exI [of _ "ci_next_retry_at i"]) simp

lemma same_changeD:
  assumes "same_change i i'"
  shows "ci_message_id i' = ci_message_id i" and "announcement ox i' = announcement ox i"
    and "ci_state i' = ci_state i \<or> (ci_state i = READY \<and> ci_state i' = DELIVERED)"
  using assms by (auto simp: same_change_def announcement_def change_payload_def)

lemma same_change_trans:
  assumes "same_change a b" and "same_change b c"
  shows "same_change a c"
proof -
  from assms(1) obtain st n t where b: "b = a\<lparr>ci_state := st, ci_attempt := n, ci_next_retry_at := t\<rparr>"
    "st = ci_state a \<or> (ci_state a = READY \<and> st = DELIVERED)" unfolding same_change_def by blast
  from assms(2) obtain st' n' t' where c: "c = b\<lparr>ci_state := st', ci_attempt := n', ci_next_retry_at := t'\<rparr>"
    "st' = ci_state b \<or> (ci_state b = READY \<and> st' = DELIVERED)" unfolding same_change_def by blast
  have "c = a\<lparr>ci_state := st', ci_attempt := n', ci_next_retry_at := t'\<rparr>" by (simp add: b(1) c(1))
  moreover have "st' = ci_state a \<or> (ci_state a = READY \<and> st' = DELIVERED)" using b c(2) by auto
  ultimately show ?thesis unfolding same_change_def by blast
qed

definition carried :: "world \<Rightarrow> world \<Rightarrow> bool" where
  "carried w w' \<longleftrightarrow> wd_files w' = wd_files w \<and> intent_ids w' = intent_ids w
     \<and> (\<forall>i \<in> set (wd_intents w). \<exists>i' \<in> set (wd_intents w'). same_change i i')"

lemma carried_refl [simp]: "carried w w" "carried w (next_tick w)"
  by (auto simp: carried_def next_tick_def intent_ids_def intro!: bexI)

lemma carried_trans: "carried a b \<Longrightarrow> carried b c \<Longrightarrow> carried a c"
  unfolding carried_def using same_change_trans by (metis (full_types))

lemma round_tick_simps [simp]:
  "wd_intents (next_tick w) = wd_intents w" "wd_files (next_tick w) = wd_files w"
  by (simp_all add: next_tick_def)

lemma publish_ok_tick [simp]: "publish_ok ox (next_tick w) db = publish_ok ox w db"
  by (simp add: publish_ok_def)

text \<open>An update of rows that keeps each row the same change\<close>

lemma update_carried:
  assumes "publish_ok ox w db"
    and "\<And>x. x \<in> set (wd_intents w) \<Longrightarrow> P x \<Longrightarrow> same_change x (f x) \<and> intent_flow ox db (f x)"
    and "w' = w\<lparr>wd_intents := update_rows P f (wd_intents w)\<rparr>"
  shows "carried w w' \<and> publish_ok ox w' db"
proof -
  have ids: "map ci_message_id (update_rows P f (wd_intents w)) = map ci_message_id (wd_intents w)"
    unfolding update_rows_def by (simp add: assms(2) same_changeD(1))
  have "intent_ids w' = set (map ci_message_id (update_rows P f (wd_intents w)))"
    by (simp add: intent_ids_def assms(3))
  then have "intent_ids w' = intent_ids w" unfolding ids by (simp add: intent_ids_def)
  moreover have "\<exists>i' \<in> set (wd_intents w'). same_change i i'" if "i \<in> set (wd_intents w)" for i
  proof (intro bexI)
    show "same_change i (if P i then f i else i)" using that assms(2) [OF that] by simp
    show "(if P i then f i else i) \<in> set (wd_intents w')"
      using that by (auto simp: assms(3) in_update_rows)
  qed
  moreover have "publish_ok ox w' db"
    using assms(1,2) ids by (auto simp: publish_ok_def assms(3) unique_key_def in_update_rows)
  ultimately show ?thesis by (simp add: carried_def assms(3))
qed

lemma transition_delivered_carried:
  assumes "transition_intent env i DELIVERED READY w = (r, w')" and ok: "publish_ok ox w db"
    and "mail_content db (ci_message_id i) = Some c" and "\<And>x. x \<in> set (wd_intents w) \<Longrightarrow>
      ci_message_id x = ci_message_id i \<Longrightarrow> announcement ox x = c"
  shows "carried w w' \<and> publish_ok ox w' db"
proof (cases "xe_fault env (wd_tick w)")
  case Proceed
  let ?f = "\<lambda>x. x\<lparr>ci_state := DELIVERED\<rparr>"
  have w': "w' = next_tick w\<lparr>wd_intents := update_rows (fenced i READY) ?f (wd_intents (next_tick w))\<rparr>"
    using assms(1) Proceed by (auto simp: transition_intent_def update_fenced_def perform_io_def Let_def)
  have ok': "publish_ok ox (next_tick w) db" using ok by simp
  have "carried (next_tick w) w' \<and> publish_ok ox w' db"
  proof (rule update_carried [OF ok' _ w'])
    fix x
    assume x: "x \<in> set (wd_intents (next_tick w))" "fenced i READY x"
    then have "same_change x (?f x)"
      unfolding same_change_def fenced_def
      by (intro exI [of _ DELIVERED] exI [of _ "ci_attempt x"] exI [of _ "ci_next_retry_at x"]) simp
    moreover have "announcement ox (?f x) = announcement ox x"
      by (simp add: announcement_def change_payload_def)
    ultimately show "same_change x (?f x) \<and> intent_flow ox db (?f x)"
      using x assms(3,4) by (auto simp: intent_flow_def fenced_def)
  qed
  then show ?thesis using carried_refl(2) carried_trans by blast
qed (use assms(1) ok in \<open>auto simp: transition_intent_def update_fenced_def perform_io_def\<close>)

lemma increment_attempt_carried:
  assumes "increment_attempt env ox' i now w = (r, w')" and ok: "publish_ok ox w db"
  shows "carried w w' \<and> publish_ok ox w' db"
proof (cases "xe_fault env (wd_tick w)")
  case Proceed
  let ?P = "\<lambda>x. ci_message_id x = ci_message_id i \<and> ci_state x = READY"
  let ?f = "\<lambda>x. x\<lparr>ci_attempt := ci_attempt x + 1, ci_next_retry_at := Some (now + outbox_delay ox' (ci_attempt i + 1))\<rparr>"
  have w': "w' = next_tick w\<lparr>wd_intents := update_rows ?P ?f (wd_intents (next_tick w))\<rparr>"
    using assms(1) Proceed by (auto simp: increment_attempt_def perform_io_def Let_def split: option.splits)
  have ok': "publish_ok ox (next_tick w) db" using ok by simp
  have "carried (next_tick w) w' \<and> publish_ok ox w' db"
  proof (rule update_carried [OF ok' _ w'])
    fix x
    assume x: "x \<in> set (wd_intents (next_tick w))"
    have "same_change x (?f x)"
      unfolding same_change_def
      by (intro exI [of _ "ci_state x"] exI [of _ "ci_attempt x + 1"]
            exI [of _ "Some (now + outbox_delay ox' (ci_attempt i + 1))"]) simp
    then show "same_change x (?f x) \<and> intent_flow ox db (?f x)"
      using x ok same_changeD [of x "?f x"] by (auto simp: publish_ok_def intent_flow_def)
  qed
  then show ?thesis using carried_refl(2) carried_trans by blast
qed (use assms(1) ok in \<open>auto simp: increment_attempt_def perform_io_def\<close>)

lemma make_envelope_id: "make_envelope e = Inr e' \<Longrightarrow> e' = e"
  by (auto simp: make_envelope_def split: if_splits)

lemma enqueue_change_ok:
  assumes "enqueue_mail mb ans now (change_envelope ox (map_runtime_address ox) i) db = (r, db')"
    and ok: "publish_ok ox w db" and i: "i' \<in> set (wd_intents w)" "same_change i i'"
  shows "publish_ok ox w db'"
    and "r = Inr res \<Longrightarrow> accepted_status res \<Longrightarrow> mail_content db' (ci_message_id i) = Some (announcement ox i)"
proof -
  have mok: "mail_ok db" using ok by (simp add: publish_ok_def)
  have env: "en_message_id (change_envelope ox (map_runtime_address ox) i) = ci_message_id i"
    "(en_payload (change_envelope ox (map_runtime_address ox) i),
      projr (to_uri (en_target (change_envelope ox (map_runtime_address ox) i))),
      en_type (change_envelope ox (map_runtime_address ox) i)) = announcement ox i"
    by (simp_all add: change_envelope_def announcement_def)
  note c = enqueue_content [OF assms(1) mok, unfolded env]
  have flow: "intent_flow ox db' x" if x: "x \<in> set (wd_intents w)" for x
  proof (cases "mail_content db (ci_message_id x)")
    case (Some d)
    with c(2) x ok show ?thesis by (auto simp: publish_ok_def intent_flow_def)
  next
    case None
    with x ok have nd: "ci_state x \<noteq> DELIVERED" by (auto simp: publish_ok_def intent_flow_def)
    show ?thesis
    proof (cases "mail_content db' (ci_message_id x)")
      case None
      with nd show ?thesis by (simp add: intent_flow_def)
    next
      case (Some d)
      from c(3) [OF None Some] have id: "ci_message_id x = ci_message_id i" and d: "d = announcement ox i" by auto
      have "x = i'"
        using ok x i(1) id same_changeD(1) [OF i(2)] by (auto simp: publish_ok_def dest: unique_keyD)
      with d Some same_changeD(2) [OF i(2)] show ?thesis by (simp add: intent_flow_def)
    qed
  qed
  with c(1) ok show ok': "publish_ok ox w db'" by (simp add: publish_ok_def)
  assume "r = Inr res" "accepted_status res"
  with c(4) have "mail_content db' (ci_message_id i) \<noteq> None" by blast
  with flow [OF i(1)] same_changeD [OF i(2)] show "mail_content db' (ci_message_id i) = Some (announcement ox i)"
    by (auto simp: intent_flow_def)
qed

lemma publish_each_carried:
  assumes "publish_each env answers ox mb (map_runtime_address ox) is results w db = (out, w', db')"
    and "publish_ok ox w db" and "\<And>i. i \<in> set is \<Longrightarrow> \<exists>i' \<in> set (wd_intents w). same_change i i'"
  shows "carried w w' \<and> publish_ok ox w' db'"
  using assms
proof (induction "is" arbitrary: results w db)
  case (Cons i rest)
  note run = Cons.prems(1)
  have rest: "\<exists>i' \<in> set (wd_intents w1). same_change j i'" if "j \<in> set rest" "carried w w1" for j w1
    using Cons.prems(3) [of j] that same_change_trans unfolding carried_def by (metis list.set_intros(2))
  show ?case
  proof (cases "ready_now env w i")
    case False
    with run have "publish_each env answers ox mb (map_runtime_address ox) rest results w db = (out, w', db')"
      by simp
    from Cons.IH [OF this Cons.prems(2) Cons.prems(3)] show ?thesis by simp
  next
    case ready: True
    let ?e = "change_envelope ox (map_runtime_address ox) i"
    show ?thesis
    proof (cases "make_envelope ?e")
      case (Inl err)
      with run ready Cons.prems(2) show ?thesis by simp
    next
      case (Inr e')
      then have e': "e' = ?e" by (rule make_envelope_id)
      obtain i' where i': "i' \<in> set (wd_intents w)" "same_change i i'" using Cons.prems(3) [of i] by auto
      obtain r db1 where enq: "enqueue_mail mb (answers (wd_tick w)) (xe_clock env (wd_tick w)) ?e db = (r, db1)"
        by fastforce
      note after = enqueue_change_ok [OF enq Cons.prems(2) i']
      show ?thesis
      proof (cases r)
        case (Inl err)
        with run ready Inr e' enq after(1) show ?thesis by simp
      next
        case res: (Inr res)
        have ann: "announcement ox x = announcement ox i" if "x \<in> set (wd_intents w)" "ci_message_id x = ci_message_id i" for x
          using that i' same_changeD [OF i'(2)] Cons.prems(2)
          by (auto simp: publish_ok_def dest: unique_keyD)
        show ?thesis
        proof (cases "accepted_status res")
          case acc: True
          obtain d w1 where t: "transition_intent env i DELIVERED READY w = (d, w1)" by fastforce
          have step: "carried w w1 \<and> publish_ok ox w1 db1"
            by (rule transition_delivered_carried [OF t after(1) after(2) [OF res acc]]) (rule ann)
          show ?thesis
          proof (cases d)
            case (Done d')
            with run ready Inr e' enq res acc t have
              "publish_each env answers ox mb (map_runtime_address ox) rest
                 (results @ (case d' of None \<Rightarrow> [] | Some x \<Rightarrow> [Delivered_Change x])) w1 db1 = (out, w', db')"
              by (simp add: Let_def)
            from Cons.IH [OF this] step rest show ?thesis using carried_trans by blast
          qed (use run ready Inr e' enq res acc t step in \<open>simp_all add: Let_def\<close>)
        next
          case rej: False
          obtain d w1 where t: "increment_attempt env ox i (xe_clock env (wd_tick w)) w = (d, w1)" by fastforce
          have step: "carried w w1 \<and> publish_ok ox w1 db1"
            by (rule increment_attempt_carried [OF t after(1)])
          show ?thesis
          proof (cases d)
            case (Done d')
            with run ready Inr e' enq res rej t have
              "publish_each env answers ox mb (map_runtime_address ox) rest
                 (results @ [Retry_Change d' (re_status res)]) w1 db1 = (out, w', db')"
              by (simp add: Let_def)
            from Cons.IH [OF this] step rest show ?thesis using carried_trans by blast
          qed (use run ready Inr e' enq res rej t step in \<open>simp_all add: Let_def\<close>)
        qed
      qed
    qed
  qed
qed simp

section \<open>Rounds of the forwarder\<close>

lemma forwarder_round_carried:
  assumes "forwarder_round wake env answers ox mb pending w db = (pending', w', db')"
    and "publish_ok ox w db"
  shows "carried w w' \<and> publish_ok ox w' db'"
proof -
  obtain out w1 db1 where p: "publish_each env answers ox mb (map_runtime_address ox) (intents w) [] w db = (out, w1, db1)"
    by (cases "publish_each env answers ox mb (map_runtime_address ox) (intents w) [] w db") auto
  have "carried w w1 \<and> publish_ok ox w1 db1"
    by (rule publish_each_carried [OF p assms(2)]) (auto simp: intents_def intro!: bexI)
  moreover have "w' = w1 \<and> db' = db1"
    using assms(1) p by (auto simp: forwarder_round_def publish_ready_def Let_def split: publish_end.splits)
  ultimately show ?thesis by simp
qed

text \<open>
  What happens around the forwarder: its rounds, in whatever environment, and the operations of
  all other users of the mail database.
\<close>

datatype forward_event =
    Round "(string \<Rightarrow> bool) option" environment "nat \<Rightarrow> db_answer" mailbox
  | Other_Mail mail_op

fun forward_step ::
  "outbox \<Rightarrow> pending_wakes \<times> world \<times> mail_db \<Rightarrow> forward_event \<Rightarrow> pending_wakes \<times> world \<times> mail_db" where
  "forward_step ox (pending, w, db) (Round wake env answers mb) = forwarder_round wake env answers ox mb pending w db"
| "forward_step ox (pending, w, db) (Other_Mail op) = (pending, w, mail_step db op)"

text \<open>Others send under identifiers of their own.\<close>

fun foreign :: "string set \<Rightarrow> forward_event \<Rightarrow> bool" where
  "foreign ids (Other_Mail (Enqueue_Mail mb ans now e)) = (en_message_id e \<notin> ids)"
| "foreign ids _ = True"

lemma other_mail_ok:
  assumes ok: "publish_ok ox w db" and fo: "foreign (intent_ids w) (Other_Mail op)"
  shows "publish_ok ox w (mail_step db op)"
proof -
  have mok: "mail_ok db" using ok by (simp add: publish_ok_def)
  have "intent_flow ox (mail_step db op) i" if i: "i \<in> set (wd_intents w)" for i
  proof (cases "mail_content db (ci_message_id i)")
    case (Some c)
    with mail_content_step [OF mok Some] i ok show ?thesis by (auto simp: publish_ok_def intent_flow_def)
  next
    case None
    have "mail_content (mail_step db op) (ci_message_id i) = None"
    proof (rule ccontr)
      assume "mail_content (mail_step db op) (ci_message_id i) \<noteq> None"
      from mail_content_new [OF mok None this] obtain mb ans now e where
        "op = Enqueue_Mail mb ans now e" "en_message_id e = ci_message_id i" by blast
      with fo i show False by (simp add: intent_ids_def)
    qed
    with None i ok show ?thesis by (auto simp: publish_ok_def intent_flow_def)
  qed
  with ok mail_ok_step [OF mok] show ?thesis by (simp add: publish_ok_def)
qed

text \<open>
  C9. Whatever the mail database answers, whichever transitions fail, wherever passes are stopped,
  and whatever other senders and consumers do: the files are untouched, no intent disappears or
  changes its content, a ready intent is still ready or delivered, and a delivered one has exactly
  its announcement in the mailbox.
\<close>

theorem change_never_lost:
  assumes "publish_ok ox w db" and "list_all (foreign (intent_ids w)) evs"
    and "foldl (forward_step ox) (pending, w, db) evs = (pending', w', db')"
    and "i \<in> set (wd_intents w)"
  shows "wd_files w' = wd_files w \<and> (\<exists>i' \<in> set (wd_intents w'). same_change i i' \<and>
     (ci_state i' = DELIVERED \<longrightarrow> mail_content db' (ci_message_id i)
        = Some (change_payload i, projr (to_uri (map_runtime_address ox)), code_changed)))"
proof -
  have "carried w w' \<and> publish_ok ox w' db'"
    using assms(1-3)
  proof (induction evs arbitrary: pending w db)
    case (Cons ev evs)
    obtain p1 w1 db1 where st: "forward_step ox (pending, w, db) ev = (p1, w1, db1)"
      by (cases "forward_step ox (pending, w, db) ev") auto
    have s: "carried w w1 \<and> publish_ok ox w1 db1"
    proof (cases ev)
      case (Round wake env answers mb)
      with st forwarder_round_carried [OF _ Cons.prems(1)] show ?thesis by simp
    next
      case (Other_Mail op)
      with st Cons.prems(1,2) show ?thesis by (auto intro: other_mail_ok)
    qed
    then have "intent_ids w1 = intent_ids w" by (simp add: carried_def)
    with Cons.prems(2,3) st s have "carried w1 w' \<and> publish_ok ox w' db'"
      by (intro Cons.IH [of w1 db1 p1]) auto
    with s carried_trans show ?case by blast
  qed simp
  then have c: "carried w w'" and ok: "publish_ok ox w' db'" by auto
  then obtain i' where i': "i' \<in> set (wd_intents w')" "same_change i i'"
    using assms(4) unfolding carried_def by blast
  from ok i'(1) have "intent_flow ox db' i'" by (simp add: publish_ok_def)
  with i' c same_changeD [OF i'(2)] show ?thesis
    by (auto simp: carried_def intent_flow_def announcement_def intro!: bexI [of _ i'])
qed

definition ready_intent :: change_intent where
  "ready_intent = \<lparr>ci_message_id = ''m1'', ci_relative_path = ''a.py'', ci_old_path = None,
     ci_change_type = Modify, ci_before_digest = ''sha256:x'', ci_after_digest = ''sha256:y'',
     ci_staging_path = None, ci_state = READY, ci_fence_token = 1, ci_superseded_by = None,
     ci_attempt = 0, ci_next_retry_at = None,
     ci_correlation = \<lparr>co_trace_id = ''t'', co_project_id = ''p'', co_agent_id = ''a'', co_generation = 1\<rparr>,
     ci_created_at = 0\<rparr>"

definition ready_outbox :: outbox where
  "ready_outbox = \<lparr>ox_project_id = ''p'', ox_capacity = 8, ox_retry_base = 1, ox_retry_max = 60\<rparr>"

definition ready_world :: world where
  "ready_world = \<lparr>wd_files = Map.empty, wd_intents = [ready_intent], wd_tick = 0\<rparr>"

definition calm_env :: environment where
  "calm_env = \<lparr>xe_fault = \<lambda>_. Proceed, xe_clock = \<lambda>n. int n\<rparr>"

theorem change_never_lost_witness:
  "case foldl (forward_step ready_outbox) ([], ready_world, [])
     [Round None calm_env (\<lambda>_. Db_Busy) demo_mailbox, Other_Mail (Enqueue_Mail demo_mailbox Db_Ok 1 demo_letter),
      Round None calm_env (\<lambda>_. Db_Ok) demo_mailbox] of
     (_, w', db') \<Rightarrow> \<exists>i' \<in> set (wd_intents w'). same_change ready_intent i'"
proof -
  have "publish_ok ready_outbox ready_world []"
    by (simp add: publish_ok_def mail_ok_def unique_key_def ready_world_def intent_flow_def mail_content_def
        message_def ready_intent_def)
  moreover have "list_all (foreign (intent_ids ready_world)) [Round None calm_env (\<lambda>_. Db_Busy) demo_mailbox,
      Other_Mail (Enqueue_Mail demo_mailbox Db_Ok 1 demo_letter), Round None calm_env (\<lambda>_. Db_Ok) demo_mailbox]"
    by (simp add: intent_ids_def ready_world_def ready_intent_def demo_letter_def)
  moreover have "ready_intent \<in> set (wd_intents ready_world)" by (simp add: ready_world_def)
  ultimately show ?thesis
    using change_never_lost [of ready_outbox ready_world "[]"] by (fastforce split: prod.splits)
qed

section \<open>The retry delay\<close>

lemma saturation_reaches:
  assumes "0 < base"
  shows "cap \<le> base * 2 ^ saturation base cap"
  using assms
proof (induction base cap rule: saturation.induct)
  case (1 base cap)
  show ?case
  proof (cases "cap \<le> base")
    case True
    then show ?thesis by (subst saturation.simps) simp
  next
    case False
    with 1 have "cap \<le> 2 * base * 2 ^ saturation (2 * base) cap" by simp
    with False 1(2) show ?thesis by (subst saturation.simps) (simp add: mult.assoc)
  qed
qed

text \<open>
  The delay before the next attempt is the doubled base capped at the maximum, exactly as if
  the power were computed without the saturated exponent, for every number of attempts; it never
  falls below the base nor rises above the maximum.
\<close>

theorem retry_delay_capped:
  assumes "make_outbox project capacity base cap = Inr ox"
  shows "outbox_delay ox attempt = min (base * 2 ^ nat (max 0 (attempt - 1))) cap
    \<and> base \<le> outbox_delay ox attempt \<and> outbox_delay ox attempt \<le> cap"
proof -
  from assms have v: "0 < base" "base \<le> cap" and ox: "ox_retry_base ox = base" "ox_retry_max ox = cap"
    by (auto simp: make_outbox_def split: if_splits)
  have mono: "base \<le> base * 2 ^ n" for n :: nat
    using v(1) by (simp add: mult_le_cancel_left1)
  let ?n = "nat (max 0 (attempt - 1))" and ?s = "saturation base cap"
  have eq: "outbox_delay ox attempt = min (base * 2 ^ ?n) cap"
  proof (cases "cap \<le> base")
    case True
    with v(2) have "cap = base" by simp
    with mono [of ?n] show ?thesis by (simp add: outbox_delay_def ox)
  next
    case False
    show ?thesis
    proof (cases "?n \<le> ?s")
      case True
      with False show ?thesis by (simp add: outbox_delay_def ox min_absorb1)
    next
      case large: False
      have "base * 2 ^ ?s \<le> base * 2 ^ ?n"
        using large v(1) by (intro mult_left_mono power_increasing) auto
      with saturation_reaches [OF v(1), of cap] False large show ?thesis
        by (simp add: outbox_delay_def ox min_absorb2)
    qed
  qed
  with mono [of ?n] v(2) show ?thesis by simp
qed

theorem retry_delay_capped_witness: "outbox_delay ready_outbox 5000 = 60 \<and> outbox_delay ready_outbox 4 = 8"
proof -
  have "make_outbox ''p'' 8 1 60 = Inr ready_outbox" by (simp add: make_outbox_def ready_outbox_def)
  from retry_delay_capped [OF this, of 5000] retry_delay_capped [OF this, of 4]
  have "outbox_delay ready_outbox 5000 = min (2 ^ 4999) 60" "outbox_delay ready_outbox 4 = min (2 ^ 3) 60"
    by simp_all
  moreover have "(60 :: int) \<le> 2 ^ 4999"
    using power_increasing [of 6 4999 "2 :: int"] by simp
  ultimately show ?thesis by (simp add: min_absorb2)
qed

section \<open>A wake that is dropped\<close>

text \<open>
  A pass that delivered one change and then fails on the next returns nothing, so the wake of the
  delivered change is never called: the change is no longer ready in the next pass.
\<close>

definition two_ready :: world where
  "two_ready = \<lparr>wd_files = Map.empty, wd_intents = [ready_intent, ready_intent\<lparr>ci_message_id := ''m2''\<rparr>], wd_tick = 0\<rparr>"

definition then_failing :: "nat \<Rightarrow> db_answer" where
  "then_failing n = (if n = 0 then Db_Ok else Db_Failed)"

lemma ready_addresses:
  "\<exists>u v. validate_target demo_mailbox (outbox_address ready_outbox) = Inr u
     \<and> validate_target demo_mailbox (map_runtime_address ready_outbox) = Inr v
     \<and> parse_address u = Inr (outbox_address ready_outbox) \<and> parse_address v = Inr (map_runtime_address ready_outbox)"
proof -
  have e: "is_ok (encode_component (map of_char ''change-outbox''))"
    "is_ok (encode_component (map of_char ''map-runtime''))" "is_ok (encode_component [112])"
    by (simp_all add: encode_component_def surrogate_def)
  then have v: "is_ok (validate_target demo_mailbox (outbox_address ready_outbox))"
    "is_ok (validate_target demo_mailbox (map_runtime_address ready_outbox))"
    by (auto simp: is_ok_iff validate_target_def outbox_address_def map_runtime_address_def to_uri_def
        project_points_def ready_outbox_def demo_mailbox_def)
  have a: "valid_address (outbox_address ready_outbox)" "valid_address (map_runtime_address ready_outbox)"
    by (simp_all add: valid_address_def outbox_address_def map_runtime_address_def project_points_def ready_outbox_def)
  obtain x y where xy: "validate_target demo_mailbox (outbox_address ready_outbox) = Inr x"
    "validate_target demo_mailbox (map_runtime_address ready_outbox) = Inr y"
    using v unfolding is_ok_iff by blast
  from xy parse_to_uri [OF validate_target_uri [OF xy(1)] a(1)] parse_to_uri [OF validate_target_uri [OF xy(2)] a(2)]
  show ?thesis by blast
qed

lemma wake_dropped:
  "\<exists>w' db'. forwarder_round (Some (\<lambda>_. True)) calm_env then_failing ready_outbox demo_mailbox [] two_ready []
     = ([], w', db') \<and> map ci_state (wd_intents w') = [DELIVERED, READY]"
proof -
  obtain u v where a: "validate_target demo_mailbox (outbox_address ready_outbox) = Inr u"
    "validate_target demo_mailbox (map_runtime_address ready_outbox) = Inr v"
    "parse_address u = Inr (outbox_address ready_outbox)" "parse_address v = Inr (map_runtime_address ready_outbox)"
    using ready_addresses by blast
  have mb: "\<not> mb_closed demo_mailbox" "mb_capacity demo_mailbox = 2" by (simp_all add: demo_mailbox_def)
  show ?thesis
    by (simp add: forwarder_round_def publish_ready_def Let_def two_ready_def intents_def ready_intent_def
        ready_now_def make_envelope_def change_envelope_def code_changed_def enqueue_mail_def a mb then_failing_def
        rowcount_def next_sequence_def row_result_def from_storage_def accepted_status_def transition_intent_def
        update_fenced_def perform_io_def calm_env_def fenced_def next_tick_def get_intent_def)
qed

end
