(* ===== verification/Code_Map.thy ===== *)
theory Code_Map
  imports Plan_Graph Test_Contract Py_Text "HOL-Library.Product_Lexorder"
begin

text \<open>
  The code map of \<^verbatim>\<open>ProjectPlanStore\<close> and the bounded queries on it
  (\<^verbatim>\<open>features/project_map/map_query_service.py\<close>): the tables \<^verbatim>\<open>code_entities\<close>,
  \<^verbatim>\<open>code_relations\<close> and \<^verbatim>\<open>map_blind_spots\<close>, beside the tables of semantic notes, objections
  and applied messages that \<^verbatim>\<open>Semantic_Scan\<close> uses. The text of a file is an argument, \<open>None\<close> where
  the path is not a file. A query visits the members of a Python set in the order in which they
  were added; a SQL query without \<^verbatim>\<open>ORDER BY\<close> returns its rows in table order. An absent
  \<^verbatim>\<open>file_path\<close> is the empty string; the detail of a blind spot is \<open>None\<close> when its text is not JSON.
\<close>

section \<open>Tables\<close>

record code_row =
  ce_id :: string
  ce_path :: string
  ce_kind :: string
  ce_name :: string
  ce_parent :: "string option"
  ce_payload :: dict

record relation_row =
  rl_source :: string
  rl_target :: string
  rl_kind :: string

record blind_spot_row =
  bs_id :: string
  bs_kind :: string
  bs_file :: string
  bs_detail :: "dict option"
  bs_source :: string
  bs_status :: string

record annotation_row =
  an_id :: string
  an_source :: string
  an_summary :: string
  an_evidence :: dict
  an_model :: string
  an_confidence :: rat
  an_file_hash :: string
  an_status :: string

record objection_row =
  oj_id :: string
  oj_type :: string
  oj_nodes :: "string list"
  oj_evidence :: dict
  oj_suggestion :: dict
  oj_annotation :: "string option"
  oj_status :: string
  oj_created :: int
  oj_resolved :: "int option"

record arbitration_row =
  ar_id :: string
  ar_objection :: string
  ar_decision :: string
  ar_resolution :: dict
  ar_actor :: string

record semantic_db =
  sd_plan :: map_db
  code_rows :: "code_row list"
  relations :: "relation_row list"
  blind_spots :: "blind_spot_row list"
  annotations :: "annotation_row list"
  objections :: "objection_row list"
  arbitrations :: "arbitration_row list"
  applied_messages :: "string list"

section \<open>Text\<close>

text \<open>SQLite's \<^verbatim>\<open>LIKE\<close>: case is ignored for the ASCII letters only\<close>

definition fold_case :: "char \<Rightarrow> char" where
  "fold_case c = (let n = (of_char c :: nat) in if 65 \<le> n \<and> n \<le> 90 then char_of (n + 32) else c)"

fun sql_like :: "string \<Rightarrow> string \<Rightarrow> bool" where
  "sql_like [] s \<longleftrightarrow> s = []"
| "sql_like (p # ps) [] \<longleftrightarrow> p = CHR ''%'' \<and> sql_like ps []"
| "sql_like (p # ps) (c # s) \<longleftrightarrow>
     (if p = CHR ''%'' then sql_like ps (c # s) \<or> sql_like (p # ps) s
      else if p = CHR ''_'' then sql_like ps s
      else fold_case p = fold_case c \<and> sql_like ps s)"

definition in_file :: "string \<Rightarrow> string \<Rightarrow> bool" where
  "in_file file path \<longleftrightarrow> path = file \<or> sql_like (file @ ''::%'') path"

text \<open>\<^verbatim>\<open>text.split("::", 1)[0]\<close>\<close>

fun before_symbol :: "string \<Rightarrow> string" where
  "before_symbol [] = []"
| "before_symbol (c # s) = (if startswith (c # s) ''::'' then [] else c # before_symbol s)"

section \<open>Queries\<close>

definition default_max_nodes :: int where
  "default_max_nodes = 50"

definition seed_max_depth :: int where
  "seed_max_depth = 2"

definition seed_max_nodes :: nat where
  "seed_max_nodes = 200"

definition node_limit :: "int \<Rightarrow> nat" where
  "node_limit n = nat (max 1 (min n 200))"

definition depth_limit :: "int \<Rightarrow> nat" where
  "depth_limit n = nat (max 0 (min n 5))"

definition get_entity :: "semantic_db \<Rightarrow> string \<Rightarrow> code_row result" where
  "get_entity d i =
     (case find (\<lambda>r. ce_id r = i) (code_rows d) of
        None \<Rightarrow> Inl (ValidationError ''code_entity'' ''Entity not found'')
      | Some r \<Rightarrow> Inr r)"

text \<open>The targets of a node united with its sources\<close>

definition linked :: "semantic_db \<Rightarrow> string \<Rightarrow> string list" where
  "linked d i =
     remdups (map rl_target (filter (\<lambda>r. rl_source r = i) (relations d))
       @ map rl_source (filter (\<lambda>r. rl_target r = i) (relations d)))"

definition of_kind :: "string list \<Rightarrow> code_row \<Rightarrow> bool" where
  "of_kind kinds r \<longleftrightarrow> kinds = [] \<or> ce_kind r \<in> set kinds"

definition neighbors :: "semantic_db \<Rightarrow> string \<Rightarrow> string list \<Rightarrow> int \<Rightarrow> code_row list \<times> bool" where
  "neighbors d i kinds max_nodes =
     (let limit = node_limit max_nodes;
          rows = take limit (filter (\<lambda>r. ce_id r \<in> set (linked d i) \<and> of_kind kinds r) (code_rows d))
      in (rows, limit \<le> length rows))"

text \<open>The two inner loops of a search: one node's neighbours, then the nodes of the frontier\<close>

fun add_linked :: "nat \<Rightarrow> string list \<Rightarrow> string list \<Rightarrow> string list \<Rightarrow> string list \<times> string list" where
  "add_linked limit [] seen nxt = (seen, nxt)"
| "add_linked limit (n # ns) seen nxt =
     (if n \<in> set seen then add_linked limit ns seen nxt
      else if limit \<le> length seen + 1 then (seen @ [n], nxt @ [n])
      else add_linked limit ns (seen @ [n]) (nxt @ [n]))"

fun expand ::
  "(string \<Rightarrow> string list) \<Rightarrow> nat \<Rightarrow> string list \<Rightarrow> string list \<Rightarrow> string list \<Rightarrow> string list \<times> string list"
where
  "expand adj limit [] seen nxt = (seen, nxt)"
| "expand adj limit (f # fs) seen nxt =
     (case add_linked limit (adj f) seen nxt of (seen', nxt') \<Rightarrow>
        if limit \<le> length seen' then (seen', nxt') else expand adj limit fs seen' nxt')"

fun bounded_search :: "(string \<Rightarrow> string list) \<Rightarrow> nat \<Rightarrow> nat \<Rightarrow> string list \<Rightarrow> string list \<Rightarrow> string list" where
  "bounded_search adj limit 0 frontier seen = seen"
| "bounded_search adj limit (Suc depth) frontier seen =
     (if limit \<le> length seen then seen
      else case expand adj limit frontier seen [] of (seen', nxt) \<Rightarrow>
        bounded_search adj limit depth nxt seen')"

record subgraph =
  sg_center :: string
  sg_nodes :: "code_row list"
  sg_edges :: "relation_row list"
  sg_truncated :: bool

definition subgraph_ids :: "semantic_db \<Rightarrow> string \<Rightarrow> int \<Rightarrow> int \<Rightarrow> string list" where
  "subgraph_ids d i depth max_nodes =
     bounded_search (linked d) (node_limit max_nodes) (depth_limit depth) [i] [i]"

definition query_subgraph :: "semantic_db \<Rightarrow> string \<Rightarrow> int \<Rightarrow> int \<Rightarrow> string list \<Rightarrow> subgraph" where
  "query_subgraph d i depth max_nodes kinds =
     (let seen = subgraph_ids d i depth max_nodes in
      \<lparr>sg_center = i,
       sg_nodes = filter (\<lambda>r. ce_id r \<in> set seen \<and> of_kind kinds r) (code_rows d),
       sg_edges = filter (\<lambda>r. rl_source r \<in> set seen \<and> rl_target r \<in> set seen) (relations d),
       sg_truncated = (node_limit max_nodes \<le> length seen)\<rparr>)"

section \<open>Reading the text of an entity\<close>

record span =
  sp_content :: string
  sp_truncated :: bool

definition char_budget :: "int \<Rightarrow> nat" where
  "char_budget max_tokens = nat (max 500 (min max_tokens 32000)) * 4"

definition newline :: string where
  "newline = [CHR 0x0A]"

text \<open>The lines a range names, \<open>None\<close> when the payload has no range with a first line\<close>

definition range_lines :: "dict \<Rightarrow> string \<Rightarrow> string option result" where
  "range_lines payload text_of_file =
     (case dict_get payload ''range'' of
        JObj region \<Rightarrow>
          (if ''start_line'' \<notin> fst ` set region then Inr None
           else let lines = splitlines text_of_file in
             bind_result (py_int (dict_get region ''start_line'')) (\<lambda>first.
             let start = nat (max 0 (first - 1)) in
             bind_result (case map_of region ''end_line'' of
                 None \<Rightarrow> Inr (int start + 1) | Some v \<Rightarrow> py_int v) (\<lambda>stop.
             let stop' = min (int (length lines)) stop in
             Inr (Some (join_with newline
               (drop start (take (if stop' < 0 then length lines - nat (- stop') else nat stop') lines)))))))
      | _ \<Rightarrow> Inr None)"

definition read_span :: "(string \<Rightarrow> string option) \<Rightarrow> semantic_db \<Rightarrow> string \<Rightarrow> int \<Rightarrow> span result" where
  "read_span files d i max_tokens =
     bind_result (get_entity d i) (\<lambda>r.
     case files (before_symbol (ce_path r)) of
       None \<Rightarrow> Inr \<lparr>sp_content = [], sp_truncated = False\<rparr>
     | Some t \<Rightarrow>
         let budget = char_budget max_tokens;
             cut = \<lparr>sp_content = take budget t, sp_truncated = (budget < length t)\<rparr>
         in bind_result (range_lines (ce_payload r) t) (\<lambda>snippet.
            case snippet of
              None \<Rightarrow> Inr cut
            | Some s \<Rightarrow> Inr (if length s \<le> budget then \<lparr>sp_content = s, sp_truncated = False\<rparr> else cut)))"

section \<open>Blind spots\<close>

definition spot_detail :: "blind_spot_row \<Rightarrow> dict result" where
  "spot_detail r = (case bs_detail r of None \<Rightarrow> Inl (BuiltinError ''JSONDecodeError'') | Some v \<Rightarrow> Inr v)"

fun spot_rows :: "blind_spot_row list \<Rightarrow> blind_spot_row list result" where
  "spot_rows [] = Inr []"
| "spot_rows (r # rs) = bind_result (spot_detail r) (\<lambda>_. bind_result (spot_rows rs) (\<lambda>rs'. Inr (r # rs')))"

definition query_blind_spots ::
  "semantic_db \<Rightarrow> string option \<Rightarrow> string \<Rightarrow> int \<Rightarrow> (blind_spot_row list \<times> bool) result" where
  "query_blind_spots d seed status max_nodes =
     (let limit = node_limit max_nodes;
          answer = (\<lambda>rows. bind_result (spot_rows rows) (\<lambda>items. Inr (items, limit \<le> length rows)))
      in case seed of
           Some (c # s) \<Rightarrow>
             (case find (\<lambda>r. bs_id r = c # s \<and> bs_status r = status) (blind_spots d) of
                None \<Rightarrow> Inl (ValidationError ''map_blind_spot'' ''Blind spot seed not found or not open'')
              | Some row \<Rightarrow>
                  answer (take limit (filter (\<lambda>r. bs_status r = status \<and> bs_file r = bs_file row) (blind_spots d))))
         | _ \<Rightarrow> answer (take limit (filter (\<lambda>r. bs_status r = status) (blind_spots d))))"

definition require_blind_spot_seed :: "semantic_db \<Rightarrow> string \<Rightarrow> blind_spot_row result" where
  "require_blind_spot_seed d seed =
     (case find (\<lambda>r. bs_id r = seed \<and> bs_status r = ''open'') (blind_spots d) of
        None \<Rightarrow> Inl (ValidationError ''map_blind_spot'' ''Mapping queries require an open blind spot seed'')
      | Some r \<Rightarrow> bind_result (spot_detail r) (\<lambda>_. Inr r))"

text \<open>\<open>entity\<close> is the identifier of a file, a digest of its path\<close>

fun seed_search :: "(string \<Rightarrow> string list) \<Rightarrow> nat \<Rightarrow> nat \<Rightarrow> string list \<Rightarrow> string list \<Rightarrow> string list" where
  "seed_search adj limit 0 frontier seen = seen"
| "seed_search adj limit (Suc depth) frontier seen =
     (if limit \<le> length seen then seen
      else case expand adj limit frontier seen [] of (seen', nxt) \<Rightarrow>
        if nxt = [] then seen' else seed_search adj limit depth nxt seen')"

definition seed_allowed_entity_ids ::
  "(string \<Rightarrow> string) \<Rightarrow> semantic_db \<Rightarrow> string \<Rightarrow> int \<Rightarrow> nat \<Rightarrow> string list result" where
  "seed_allowed_entity_ids entity d seed max_depth max_nodes =
     bind_result (require_blind_spot_seed d seed) (\<lambda>row.
     let base = entity (bs_file row);
         allowed = remdups (base # map ce_id (filter (\<lambda>r. in_file (bs_file row) (ce_path r)) (code_rows d)))
     in Inr (seed_search (linked d) max_nodes (depth_limit max_depth) allowed allowed))"

definition assert_entity_in_seed_scope :: "(string \<Rightarrow> string) \<Rightarrow> semantic_db \<Rightarrow> string \<Rightarrow> string \<Rightarrow> unit result" where
  "assert_entity_in_seed_scope entity d seed i =
     bind_result (seed_allowed_entity_ids entity d seed seed_max_depth seed_max_nodes) (\<lambda>allowed.
     if i \<notin> set allowed
     then Inl (ValidationError ''map_blind_spot'' ''Entity is outside mapping seed neighborhood'')
     else Inr ())"

definition filter_to_seed_scope ::
  "(string \<Rightarrow> string) \<Rightarrow> semantic_db \<Rightarrow> string \<Rightarrow> string list \<Rightarrow> string list result" where
  "filter_to_seed_scope entity d seed is =
     bind_result (seed_allowed_entity_ids entity d seed seed_max_depth seed_max_nodes) (\<lambda>allowed.
     Inr (filter (\<lambda>i. i \<in> set allowed) is))"

end
