(* ===== verification/Semantic_Scan.thy ===== *)
theory Semantic_Scan
  imports Code_Map
begin

text \<open>
  The semantic phase of \<^verbatim>\<open>ProjectPlanStore\<close> (\<^verbatim>\<open>features/project_map/store.py\<close>) with its default
  scan \<^verbatim>\<open>semantic_scan_service.py\<close>: the metadata states of the scan and of the map, the run that
  owns them, the batches that turn blind spots into annotations and objections, the arbitration
  of the objections and the batches of change messages. An operation that raises inside its
  transaction leaves the tables as they were; the attributes of the store object are the record
  \<open>scanner\<close>, which a failed operation may have changed. The digest of a file and the fresh
  identifiers are arguments, those of a routed blind spot named by the blind spot. What the
  indexers find in the project is an argument of the structure scan. The confidence that a
  suggestion repeats and the tables of symbols, boundaries and candidates are left out.
\<close>

section \<open>Metadata\<close>

definition meta_get :: "semantic_db \<Rightarrow> string \<Rightarrow> string option" where
  "meta_get d key = map_of (metadata (sd_plan d)) key"

text \<open>\<^verbatim>\<open>COALESCE((SELECT value ...), '')\<close> and \<^verbatim>\<open>self._metadata(key) or other\<close>\<close>

definition meta_text :: "semantic_db \<Rightarrow> string \<Rightarrow> string" where
  "meta_text d key = (case meta_get d key of None \<Rightarrow> [] | Some v \<Rightarrow> v)"

definition meta_or :: "semantic_db \<Rightarrow> string \<Rightarrow> string \<Rightarrow> string" where
  "meta_or d key other = metadata_or (sd_plan d) key other"

definition meta_int :: "semantic_db \<Rightarrow> string \<Rightarrow> int result" where
  "meta_int d key = py_int (JStr (meta_or d key ''0''))"

definition put_meta :: "string \<Rightarrow> string \<Rightarrow> semantic_db \<Rightarrow> semantic_db" where
  "put_meta key v d = d\<lparr>sd_plan := set_metadata (sd_plan d) key v\<rparr>"

definition log_semantic :: "string \<Rightarrow> string \<Rightarrow> string \<Rightarrow> dict \<Rightarrow> semantic_db \<Rightarrow> semantic_db" where
  "log_semantic entity_type entity_id operation payload d =
     d\<lparr>sd_plan := log_change (sd_plan d) entity_type entity_id operation payload\<rparr>"

definition put_map_status :: "string \<Rightarrow> string \<Rightarrow> string \<Rightarrow> semantic_db \<Rightarrow> semantic_db" where
  "put_map_status pid status reason d = d\<lparr>sd_plan := set_map_status pid (sd_plan d) status reason\<rparr>"

definition store_readiness :: "semantic_db \<Rightarrow> string option \<Rightarrow> readiness" where
  "store_readiness d status = map_readiness (sd_plan d) status"

definition needs_arbitration :: string where
  "needs_arbitration = ''needs_arbitration''"

definition semantic_scanning :: string where
  "semantic_scanning = ''semantic_scanning''"

definition scan_key :: string where
  "scan_key = ''semantic_scan_status''"

definition run_key :: string where
  "run_key = ''semantic_scan_run_id''"

section \<open>Counts and inserts\<close>

definition pending_objections :: "semantic_db \<Rightarrow> nat" where
  "pending_objections d = rowcount (\<lambda>o'. oj_status o' = ''pending'') (objections d)"

definition open_spots :: "semantic_db \<Rightarrow> nat" where
  "open_spots d = rowcount (\<lambda>b. bs_status b = ''open'') (blind_spots d)"

definition insert_annotation :: "annotation_row \<Rightarrow> semantic_db \<Rightarrow> semantic_db result" where
  "insert_annotation a d =
     (if an_id a \<in> set (map an_id (annotations d)) then Inl integrity_error
      else Inr (d\<lparr>annotations := annotations d @ [a]\<rparr>))"

definition insert_objection ::
  "string \<Rightarrow> string \<Rightarrow> string list \<Rightarrow> dict \<Rightarrow> dict \<Rightarrow> string option \<Rightarrow> semantic_db \<Rightarrow> semantic_db result" where
  "insert_objection i kind related evidence suggestion annotation d =
     (if i \<in> set (map oj_id (objections d)) then Inl integrity_error
      else Inr (d\<lparr>objections := objections d @
        [\<lparr>oj_id = i, oj_type = kind, oj_nodes = related, oj_evidence = evidence,
          oj_suggestion = suggestion, oj_annotation = annotation, oj_status = ''pending'',
          oj_created = db_clock (verif (sd_plan d)), oj_resolved = None\<rparr>]\<rparr>))"

section \<open>One batch of the default scan\<close>

record scan_env =
  se_project :: string
  se_hash :: "string \<Rightarrow> string"
  se_ids :: "string \<Rightarrow> string \<times> string"

definition set_spot :: "string \<Rightarrow> string \<Rightarrow> semantic_db \<Rightarrow> semantic_db" where
  "set_spot status i d = d\<lparr>blind_spots :=
     update_rows (\<lambda>b. bs_id b = i) (\<lambda>b. b\<lparr>bs_status := status\<rparr>) (blind_spots d)\<rparr>"

definition route_blind_spot_to_review ::
  "scan_env \<Rightarrow> string \<Rightarrow> string \<Rightarrow> string \<Rightarrow> string \<Rightarrow> dict \<Rightarrow> semantic_db \<Rightarrow> semantic_db result" where
  "route_blind_spot_to_review env spot source file summary evidence d =
     (let (annotation, objection) = se_ids env spot in
      bind_result (insert_annotation
        \<lparr>an_id = annotation, an_source = source, an_summary = summary, an_evidence = evidence,
         an_model = ''semantic_scan'', an_confidence = 35 / 100, an_file_hash = se_hash env file,
         an_status = ''pending''\<rparr> d) (\<lambda>d.
      bind_result (insert_objection objection ''semantic_annotation'' [source] evidence
        [(''summary'', JStr summary)] (Some annotation) d) (\<lambda>d.
      Inr (log_semantic ''map_objection'' objection ''create''
             [(''objection_type'', JStr ''semantic_annotation''), (''blind_spot_id'', JStr spot)]
          (log_semantic ''semantic_annotation'' annotation ''record''
             [(''source_id'', JStr source), (''model'', JStr ''semantic_scan''), (''status'', JStr ''pending'')]
          (set_spot ''routed'' spot d))))))"

definition source_entity :: "semantic_db \<Rightarrow> string \<Rightarrow> code_row option" where
  "source_entity d file =
     (case find (\<lambda>r. ce_path r = file) (code_rows d) of
        Some r \<Rightarrow> Some r
      | None \<Rightarrow> find (\<lambda>r. in_file file (ce_path r)) (code_rows d))"

definition spot_summary :: "blind_spot_row \<Rightarrow> string" where
  "spot_summary b = ''Blind spot ('' @ bs_kind b @ '') in '' @ bs_file b @ '' requires semantic review''"

text \<open>One row, with whether it was routed or deferred\<close>

definition scan_row :: "scan_env \<Rightarrow> blind_spot_row \<Rightarrow> semantic_db \<Rightarrow> (bool \<times> semantic_db) result" where
  "scan_row env b d =
     (case (if bs_file b = [] then None else source_entity d (bs_file b)) of
        None \<Rightarrow> Inr (False, set_spot ''deferred'' (bs_id b) d)
      | Some e \<Rightarrow>
          bind_result (spot_detail b) (\<lambda>detail.
          bind_result (route_blind_spot_to_review env (bs_id b) (ce_id e) (bs_file b) (spot_summary b)
              [(''blind_spot_kind'', JStr (bs_kind b)), (''detail'', JObj detail)] d) (\<lambda>d.
          Inr (True, d))))"

fun scan_rows ::
  "scan_env \<Rightarrow> blind_spot_row list \<Rightarrow> nat \<Rightarrow> nat \<Rightarrow> semantic_db \<Rightarrow> (nat \<times> nat \<times> semantic_db) result" where
  "scan_rows env [] routed deferred d = Inr (routed, deferred, d)"
| "scan_rows env (b # bs) routed deferred d =
     bind_result (scan_row env b d) (\<lambda>(sent, d).
       if sent then scan_rows env bs (routed + 1) deferred d
       else scan_rows env bs routed (deferred + 1) d)"

record batch =
  bt_processed :: nat
  bt_routed :: nat
  bt_deferred :: nat
  bt_remaining :: nat

definition default_budget :: int where
  "default_budget = 50"

definition batch_rows :: "int \<Rightarrow> semantic_db \<Rightarrow> blind_spot_row list" where
  "batch_rows budget d =
     take (nat (max 1 (min budget 200)))
       (sort_key (\<lambda>b. (bs_file b, bs_id b)) (filter (\<lambda>b. bs_status b = ''open'') (blind_spots d)))"

definition run_batch :: "scan_env \<Rightarrow> int \<Rightarrow> semantic_db \<Rightarrow> (batch \<times> semantic_db) result" where
  "run_batch env budget d =
     bind_result (scan_rows env (batch_rows budget d) 0 0 d) (\<lambda>(routed, deferred, d').
       Inr (\<lparr>bt_processed = routed + deferred, bt_routed = routed, bt_deferred = deferred,
             bt_remaining = open_spots d'\<rparr>, d'))"

section \<open>The token of a run\<close>

record scanner =
  sn_active_run :: "string option"
  sn_continuing :: bool
  sn_resuming :: bool

definition allocate_run_id :: "semantic_db \<Rightarrow> (string \<times> semantic_db) result" where
  "allocate_run_id d =
     bind_result (meta_int d ''semantic_scan_run_seq'') (\<lambda>current.
       Inr (int_str (current + 1), put_meta ''semantic_scan_run_seq'' (int_str (current + 1)) d))"

text \<open>The update of a terminal state, which only the run that owns the token performs\<close>

definition owns_run :: "string \<Rightarrow> string option \<Rightarrow> semantic_db \<Rightarrow> bool" where
  "owns_run run_id status d \<longleftrightarrow> meta_get d scan_key = Some ''running'' \<and> meta_text d run_key = run_id
     \<and> (status \<noteq> None \<longrightarrow> meta_text d ''scan_status'' = semantic_scanning)"

definition commit_run_terminal ::
  "string \<Rightarrow> string \<Rightarrow> string \<Rightarrow> string option \<Rightarrow> string \<Rightarrow> semantic_db \<Rightarrow> bool \<times> semantic_db" where
  "commit_run_terminal pid run_id semantic_status status reason d =
     (if \<not> owns_run run_id status d then (False, d)
      else let d1 = put_meta scan_key semantic_status d in
        case status of
          None \<Rightarrow> (True, d1)
        | Some st \<Rightarrow> (True, log_semantic ''project_map'' pid st [(''reason'', JStr reason)]
            (put_meta ''readiness_reason'' (if st = ready_status then [] else reason)
              (put_meta ''scan_status'' st d1))))"

text \<open>A run that could not commit gives its running marker back.\<close>

definition release_run :: "string \<Rightarrow> semantic_db \<Rightarrow> semantic_db" where
  "release_run run_id d =
     (if meta_get d scan_key = Some ''running'' \<and> meta_text d run_key = run_id
      then put_meta scan_key ''pending'' d else d)"

definition cas_commit_map_status :: "string \<Rightarrow> string \<Rightarrow> string \<Rightarrow> string \<Rightarrow> semantic_db \<Rightarrow> bool \<times> semantic_db" where
  "cas_commit_map_status pid run_id status reason d =
     (if meta_get d ''scan_status'' \<noteq> Some semantic_scanning \<or> meta_text d run_key \<noteq> run_id then (False, d)
      else (True, log_semantic ''project_map'' pid status [(''reason'', JStr reason)]
              (put_meta ''readiness_reason'' (if status = ready_status then [] else reason)
                (put_meta ''scan_status'' status d))))"

definition mark_scan_completed ::
  "string \<Rightarrow> string \<Rightarrow> scanner \<Rightarrow> semantic_db \<Rightarrow> readiness \<times> semantic_db" where
  "mark_scan_completed pid run_id sn d =
     (let token = (if run_id \<noteq> [] then run_id
                   else case sn_active_run sn of
                     Some (c # s) \<Rightarrow> c # s | _ \<Rightarrow> meta_text d run_key);
          pending = pending_objections d;
          status = (if pending \<noteq> 0 then needs_arbitration else ready_status);
          reason = (if pending \<noteq> 0 then ''pending_arbitration'' else ''semantic_scan_completed'')
      in if token = [] then (store_readiness d None, release_run token d)
         else case commit_run_terminal pid token ''completed'' (Some status) reason d of
           (True, d') \<Rightarrow> (store_readiness d' (Some status), d')
         | (False, _) \<Rightarrow> (let d' = release_run token d in (store_readiness d' None, d')))"

section \<open>Taking the scan\<close>

definition claimable_scan :: "semantic_db \<Rightarrow> bool" where
  "claimable_scan d \<longleftrightarrow> meta_get d scan_key \<in> Some ` {''pending'', ''not_started'', ''failed''}
     \<and> meta_text d ''scan_status'' \<in> {''structure_ready'', semantic_scanning}"

definition choose_run :: "scanner \<Rightarrow> semantic_db \<Rightarrow> semantic_db \<Rightarrow> (scanner \<times> semantic_db) result" where
  "choose_run sn before d =
     (let existing = meta_text before run_key in
      if meta_get before scan_key = Some ''failed'' \<and> existing \<noteq> []
      then Inr (sn\<lparr>sn_continuing := True, sn_active_run := Some existing\<rparr>, d)
      else if meta_get before ''semantic_scan_interrupted'' = Some ''1'' \<and> existing \<noteq> []
      then Inr (sn\<lparr>sn_resuming := True, sn_active_run := Some existing\<rparr>,
                put_meta ''semantic_scan_interrupted'' ''0'' d)
      else bind_result (allocate_run_id d) (\<lambda>(run_id, d).
        Inr (sn\<lparr>sn_active_run := Some run_id\<rparr>, put_meta run_key run_id d)))"

definition claim_scan :: "scanner \<Rightarrow> semantic_db \<Rightarrow> bool result \<times> scanner \<times> semantic_db" where
  "claim_scan sn d =
     (let sn1 = sn\<lparr>sn_continuing := False, sn_resuming := False\<rparr> in
      if \<not> claimable_scan d then (Inr False, sn1, d)
      else case choose_run sn1 d (put_meta scan_key ''running'' d) of
        Inl e \<Rightarrow> (Inl e, sn1, d)
      | Inr (sn2, d2) \<Rightarrow> (Inr True, sn2, d2))"

text \<open>The second transaction: the map itself enters the semantic phase\<close>

definition enter_scanning :: "string \<Rightarrow> scanner \<Rightarrow> semantic_db \<Rightarrow> bool \<times> scanner \<times> semantic_db" where
  "enter_scanning pid sn d =
     (if meta_get d ''scan_status'' \<notin> Some ` {''structure_ready'', semantic_scanning}
      then (False, sn\<lparr>sn_active_run := None\<rparr>,
            if meta_get d scan_key = Some ''running'' then put_meta scan_key ''pending'' d else d)
      else (True, sn, log_semantic ''project_map'' pid semantic_scanning [(''reason'', JStr ''semantic_scan_started'')]
              (put_meta ''readiness_reason'' ''semantic_scan_started''
                (put_meta ''scan_status'' semantic_scanning d))))"

definition try_acquire_scan_lock :: "string \<Rightarrow> scanner \<Rightarrow> semantic_db \<Rightarrow> bool result \<times> scanner \<times> semantic_db" where
  "try_acquire_scan_lock pid sn d =
     (case claim_scan sn d of
        (Inr True, sn1, d1) \<Rightarrow>
          (case enter_scanning pid sn1 d1 of (ok, sn2, d2) \<Rightarrow> (Inr ok, sn2, d2))
      | r \<Rightarrow> r)"

section \<open>The batches of a run\<close>

lemma put_meta_tables [simp]:
  "blind_spots (put_meta k v d) = blind_spots d" "objections (put_meta k v d) = objections d"
  "annotations (put_meta k v d) = annotations d" "code_rows (put_meta k v d) = code_rows d"
  "arbitrations (put_meta k v d) = arbitrations d" "applied_messages (put_meta k v d) = applied_messages d"
  by (simp_all add: put_meta_def)

lemma log_semantic_tables [simp]:
  "blind_spots (log_semantic t i op p d) = blind_spots d" "objections (log_semantic t i op p d) = objections d"
  "annotations (log_semantic t i op p d) = annotations d" "code_rows (log_semantic t i op p d) = code_rows d"
  "arbitrations (log_semantic t i op p d) = arbitrations d"
  "applied_messages (log_semantic t i op p d) = applied_messages d"
  by (simp_all add: log_semantic_def)

definition mark_spot :: "string \<Rightarrow> string \<Rightarrow> blind_spot_row list \<Rightarrow> blind_spot_row list" where
  "mark_spot status i = update_rows (\<lambda>b. bs_id b = i) (\<lambda>b. b\<lparr>bs_status := status\<rparr>)"

lemma route_spots:
  "route_blind_spot_to_review env i source file summary evidence d = Inr d' \<Longrightarrow>
   blind_spots d' = mark_spot ''routed'' i (blind_spots d)"
  by (cases "se_ids env i")
    (auto simp: route_blind_spot_to_review_def bind_result_Inr insert_annotation_def
      insert_objection_def set_spot_def mark_spot_def split: if_splits)

lemma scan_row_spots:
  "scan_row env b d = Inr (sent, d') \<Longrightarrow>
   blind_spots d' = mark_spot (if sent then ''routed'' else ''deferred'') (bs_id b) (blind_spots d)"
  by (auto simp: scan_row_def bind_result_Inr set_spot_def mark_spot_def [symmetric]
      dest: route_spots split: option.splits if_splits)

lemma open_after_mark:
  "st \<noteq> ''open'' \<Longrightarrow> filter (\<lambda>x. bs_status x = ''open'') (mark_spot st i rows)
     = filter (\<lambda>x. bs_status x = ''open'' \<and> bs_id x \<noteq> i) rows"
  by (induction rows) (auto simp: mark_spot_def)

lemma scan_rows_open:
  "scan_rows env bs routed deferred d = Inr (routed', deferred', d') \<Longrightarrow>
   filter (\<lambda>x. bs_status x = ''open'') (blind_spots d')
     = filter (\<lambda>x. bs_status x = ''open'' \<and> bs_id x \<notin> bs_id ` set bs) (blind_spots d)
   \<and> routed' + deferred' = routed + deferred + length bs"
proof (induction bs arbitrary: routed deferred d)
  case (Cons b bs)
  then obtain sent d1 where row: "scan_row env b d = Inr (sent, d1)"
    by (auto simp: bind_result_Inr)
  have "filter (\<lambda>x. bs_status x = ''open'' \<and> bs_id x \<notin> bs_id ` set bs) (blind_spots d1)
      = filter (\<lambda>x. bs_id x \<notin> bs_id ` set bs) (filter (\<lambda>x. bs_status x = ''open'') (blind_spots d1))"
    by (simp add: conj_commute)
  also have "\<dots> = filter (\<lambda>x. bs_status x = ''open'' \<and> bs_id x \<notin> bs_id ` set (b # bs)) (blind_spots d)"
    by (simp add: scan_row_spots [OF row] open_after_mark conj_ac)
  finally show ?case using Cons row by (auto split: if_splits)
qed simp

lemma batch_rows_open:
  "set (batch_rows budget d) \<subseteq> {b \<in> set (blind_spots d). bs_status b = ''open''}"
  by (auto simp: batch_rows_def dest!: in_set_takeD)

lemma batch_rows_none: "batch_rows budget d = [] \<longleftrightarrow> open_spots d = 0"
proof -
  have "nat (max 1 (min budget 200)) > 0" by simp
  then have "min n (nat (max 1 (min budget 200))) = 0 \<longleftrightarrow> n = 0" for n :: nat by linarith
  then show ?thesis
    by (simp add: batch_rows_def open_spots_def rowcount_def flip: length_0_conv)
qed

lemma run_batch_open:
  assumes "run_batch env budget d = Inr (b, d')"
  shows "bt_remaining b = open_spots d'" "open_spots d' \<le> open_spots d"
    and "open_spots d \<noteq> 0 \<Longrightarrow> open_spots d' < open_spots d"
proof -
  let ?sel = "batch_rows budget d"
  from assms obtain r f where rows: "scan_rows env ?sel 0 0 d = Inr (r, f, d')"
    and b: "bt_remaining b = open_spots d'"
    by (auto simp: run_batch_def bind_result_Inr)
  show "bt_remaining b = open_spots d'" by (rule b)
  have open': "open_spots d' = length (filter (\<lambda>x. bs_id x \<notin> bs_id ` set ?sel)
      (filter (\<lambda>x. bs_status x = ''open'') (blind_spots d)))"
    using scan_rows_open [OF rows] by (simp add: open_spots_def rowcount_def conj_commute)
  then show "open_spots d' \<le> open_spots d"
    unfolding open_spots_def rowcount_def using length_filter_le by metis
  assume "open_spots d \<noteq> 0"
  then obtain x where "x \<in> set ?sel" using batch_rows_none [of budget d] by (cases ?sel) auto
  moreover from this have "x \<in> set (filter (\<lambda>x. bs_status x = ''open'') (blind_spots d))"
    using batch_rows_open [of budget d] by auto
  ultimately show "open_spots d' < open_spots d"
    by (subst open', unfold open_spots_def rowcount_def) (rule length_filter_less [of x], auto)
qed

definition record_totals :: "int \<Rightarrow> int \<Rightarrow> int \<Rightarrow> nat \<Rightarrow> semantic_db \<Rightarrow> semantic_db" where
  "record_totals processed routed deferred remaining d =
     put_meta ''semantic_scan_remaining'' (int_str (int remaining))
       (put_meta ''semantic_scan_deferred'' (int_str deferred)
         (put_meta ''semantic_scan_routed'' (int_str routed)
           (put_meta ''semantic_scan_processed'' (int_str processed) d)))"

lemma record_totals_open [simp]: "open_spots (record_totals p r f n d) = open_spots d"
  by (simp add: record_totals_def open_spots_def)

function scan_batches ::
  "scan_env \<Rightarrow> int \<Rightarrow> int \<Rightarrow> int \<Rightarrow> int \<Rightarrow> semantic_db \<Rightarrow> unit result \<times> semantic_db" where
  "scan_batches env budget processed routed deferred d =
     (case run_batch env budget d of
        Inl e \<Rightarrow> (Inl e, d)
      | Inr (b, d') \<Rightarrow>
          (let processed' = processed + int (bt_processed b);
               routed' = routed + int (bt_routed b);
               deferred' = deferred + int (bt_deferred b);
               d'' = record_totals processed' routed' deferred' (bt_remaining b) d'
           in if bt_remaining b = 0 then (Inr (), d'')
              else scan_batches env budget processed' routed' deferred' d''))"
  by pat_completeness auto

termination
proof (relation "measure (\<lambda>(env, budget, p, r, f, d). open_spots d)", simp)
  fix env budget p r f d x b d' p' r' f' d''
  assume "run_batch env budget d = Inr x" "(b, d') = x"
    and "d'' = record_totals p' r' f' (bt_remaining b) d'" "bt_remaining b \<noteq> 0"
  then show "((env, budget, p', r', f', d''), env, budget, p, r, f, d)
      \<in> measure (\<lambda>(env, budget, p, r, f, d). open_spots d)"
    using run_batch_open [of env budget d b d'] by fastforce
qed

declare scan_batches.simps [simp del]


section \<open>Running the scan\<close>

fun error_name :: "bridle_error \<Rightarrow> string" where
  "error_name (NotFoundError _) = ''NotFoundError''"
| "error_name (ValidationError _ _) = ''ValidationError''"
| "error_name (ConflictError _ _) = ''ConflictError''"
| "error_name (ForbiddenError _ _) = ''ForbiddenError''"
| "error_name (MailboxError _) = ''MailboxError''"
| "error_name (ValueError _) = ''ValueError''"
| "error_name (RuntimeError _) = ''RuntimeError''"
| "error_name (BuiltinError c) = c"

type_synonym executor = "semantic_db \<Rightarrow> bridle_error option \<times> semantic_db"

definition scan_conflict :: "string \<Rightarrow> bridle_error" where
  "scan_conflict code = ConflictError ''project_map'' code"

text \<open>The states in which the call answers without taking the scan\<close>

definition scan_refused :: "semantic_db \<Rightarrow> readiness result option" where
  "scan_refused d =
     (let map_status = meta_or d ''scan_status'' ''not_scanned'';
          scan = meta_or d scan_key ''pending''
      in if map_status = ''failed'' \<or> map_status \<notin> {''structure_ready'', semantic_scanning}
         then Some (Inl (scan_conflict ''semantic_scan_not_allowed''))
         else if scan = ''completed'' then Some (Inr (store_readiness d None))
         else if scan = ''running'' then Some (Inl (scan_conflict ''semantic_scan_in_progress''))
         else None)"

definition lock_refused :: "semantic_db \<Rightarrow> readiness result" where
  "lock_refused d =
     (let scan = meta_or d scan_key ''pending'' in
      if scan = ''running'' then Inl (scan_conflict ''semantic_scan_in_progress'')
      else if scan = ''completed'' then Inr (store_readiness d None)
      else Inl (scan_conflict ''semantic_scan_lock_failed''))"

definition reset_totals :: "scanner \<Rightarrow> semantic_db \<Rightarrow> semantic_db" where
  "reset_totals sn d =
     (if \<not> sn_continuing sn \<and> \<not> sn_resuming sn
      then put_meta ''semantic_scan_deferred'' ''0'' (put_meta ''semantic_scan_routed'' ''0''
             (put_meta ''semantic_scan_processed'' ''0'' d))
      else d)"

definition scan_deferred :: "scan_env \<Rightarrow> string \<Rightarrow> semantic_db \<Rightarrow> readiness \<times> semantic_db" where
  "scan_deferred env run_id d =
     (case (if run_id = [] then (False, d)
            else commit_run_terminal (se_project env) run_id ''pending'' (Some semantic_scanning)
                   ''blind_spots_remaining'' d) of
        (True, d') \<Rightarrow> (store_readiness d' (Some semantic_scanning), d')
      | (False, d') \<Rightarrow> (store_readiness d' None, d'))"

definition scan_body ::
  "scan_env \<Rightarrow> executor option \<Rightarrow> string \<Rightarrow> scanner \<Rightarrow> int \<Rightarrow> int \<Rightarrow> int \<Rightarrow> semantic_db \<Rightarrow>
   readiness result \<times> semantic_db" where
  "scan_body env hook run_id sn processed routed deferred d =
     (let complete = (\<lambda>d. case mark_scan_completed (se_project env) run_id sn d of (r, d') \<Rightarrow> (Inr r, d')) in
      case hook of
        None \<Rightarrow>
          (case scan_batches env default_budget processed routed deferred d of
             (Inl e, d') \<Rightarrow> (Inl e, d')
           | (Inr _, d') \<Rightarrow> complete d')
      | Some ex \<Rightarrow>
          (case ex d of
             (Some e, d') \<Rightarrow> (Inl e, d')
           | (None, d') \<Rightarrow>
               (case meta_int d' ''semantic_scan_remaining'' of
                  Inl e \<Rightarrow> (Inl e, d')
                | Inr remaining \<Rightarrow>
                    (if remaining > 0
                     then (case scan_deferred env run_id d' of (r, d'') \<Rightarrow> (Inr r, d''))
                     else complete d'))))"

text \<open>The handler of an exception of the body, which is raised again\<close>

definition scan_failed :: "scan_env \<Rightarrow> string \<Rightarrow> bridle_error \<Rightarrow> semantic_db \<Rightarrow> semantic_db" where
  "scan_failed env run_id e d =
     (let d1 = put_meta ''semantic_scan_remaining'' (int_str (int (open_spots d))) d in
      if run_id = [] then d1
      else case commit_run_terminal (se_project env) run_id ''failed'' (Some semantic_scanning) (error_name e) d1 of
        (True, d2) \<Rightarrow> d2
      | (False, d2) \<Rightarrow> release_run run_id d2)"

definition run_acquired ::
  "scan_env \<Rightarrow> executor option \<Rightarrow> scanner \<Rightarrow> semantic_db \<Rightarrow> readiness result \<times> semantic_db" where
  "run_acquired env hook sn d =
     (let run_id = (case sn_active_run sn of Some (c # s) \<Rightarrow> c # s | _ \<Rightarrow> meta_text d run_key);
          d1 = reset_totals sn d;
          totals = bind_result (meta_int d1 ''semantic_scan_processed'') (\<lambda>p.
                   bind_result (meta_int d1 ''semantic_scan_routed'') (\<lambda>r.
                   bind_result (meta_int d1 ''semantic_scan_deferred'') (\<lambda>f. Inr (p, r, f))))
      in case totals of
           Inl e \<Rightarrow> (Inl e, d1)
         | Inr (p, r, f) \<Rightarrow>
             (case scan_body env hook run_id sn p r f d1 of
                (Inl e, d2) \<Rightarrow> (Inl e, scan_failed env run_id e d2)
              | ok \<Rightarrow> ok))"

definition run_semantic_scan ::
  "scan_env \<Rightarrow> executor option \<Rightarrow> scanner \<Rightarrow> semantic_db \<Rightarrow> readiness result \<times> scanner \<times> semantic_db" where
  "run_semantic_scan env hook sn d =
     (case scan_refused d of
        Some answer \<Rightarrow> (answer, sn, d)
      | None \<Rightarrow>
          (case try_acquire_scan_lock (se_project env) sn d of
             (Inl e, sn1, d1) \<Rightarrow> (Inl e, sn1, d1)
           | (Inr False, sn1, d1) \<Rightarrow> (lock_refused d1, sn1, d1)
           | (Inr True, sn1, d1) \<Rightarrow>
               (case run_acquired env hook sn1 d1 of (r, d2) \<Rightarrow> (r, sn1, d2))))"

section \<open>Opening a store\<close>

definition recover_interrupted_scan :: "semantic_db \<Rightarrow> semantic_db" where
  "recover_interrupted_scan d =
     (if meta_get d scan_key = Some ''running''
      then put_meta ''semantic_scan_interrupted'' ''1'' (put_meta scan_key ''pending'' d)
      else d)"

definition maybe_run_scan :: "scan_env \<Rightarrow> scanner \<Rightarrow> semantic_db \<Rightarrow> unit result \<times> scanner \<times> semantic_db" where
  "maybe_run_scan env sn d =
     (if meta_or d ''scan_status'' ''not_scanned'' \<in> {''structure_ready'', semantic_scanning}
         \<and> meta_or d scan_key ''not_started'' \<in> {''pending'', ''not_started'', ''failed''}
      then (case run_semantic_scan env None sn d of
              (Inl e, sn', d') \<Rightarrow> (Inl e, sn', d')
            | (Inr _, sn', d') \<Rightarrow> (Inr (), sn', d'))
      else (Inr (), sn, d))"

text \<open>\<^verbatim>\<open>initialize\<close> on a database that exists\<close>

definition open_existing_store :: "scan_env \<Rightarrow> scanner \<Rightarrow> semantic_db \<Rightarrow> readiness result \<times> scanner \<times> semantic_db" where
  "open_existing_store env sn d =
     (case maybe_run_scan env sn (recover_interrupted_scan d) of
        (Inl e, sn1, d1) \<Rightarrow> (Inl e, sn1, d1)
      | (Inr _, sn1, d1) \<Rightarrow>
          (let status = meta_or d1 ''scan_status'' ''not_scanned'';
               d2 = (if status = ''completed''
                     then put_map_status (se_project env) ready_status ''migrated_completed_status'' d1 else d1);
               status' = (if status = ''completed'' then ready_status else status)
           in (Inr (store_readiness d2 (Some status')), sn1, d2)))"

definition scan_states :: "semantic_db \<Rightarrow> string \<times> string" where
  "scan_states d = (meta_or d scan_key ''pending'', meta_or d ''scan_status'' ''not_scanned'')"

section \<open>The structure scan\<close>

text \<open>\<^verbatim>\<open>INSERT OR IGNORE\<close>: the triple is the key\<close>

definition insert_relation :: "relation_row \<Rightarrow> relation_row list \<Rightarrow> relation_row list" where
  "insert_relation r rs = (if r \<in> set rs then rs else rs @ [r])"

fun insert_code_rows ::
  "code_row list \<Rightarrow> code_row list \<Rightarrow> relation_row list \<Rightarrow> (code_row list \<times> relation_row list) result" where
  "insert_code_rows [] codes rels = Inr (codes, rels)"
| "insert_code_rows (e # es) codes rels =
     (if ce_id e \<in> set (map ce_id codes) \<or> ce_path e \<in> set (map ce_path codes) then Inl integrity_error
      else insert_code_rows es (codes @ [e])
        (case ce_parent e of
           None \<Rightarrow> rels
         | Some p \<Rightarrow> (if ce_kind e = ''test'' then rels
                      else insert_relation \<lparr>rl_source = p, rl_target = ce_id e, rl_kind = ''contains''\<rparr> rels)))"

definition replace_code_map ::
  "code_row list \<Rightarrow> relation_row list \<Rightarrow> semantic_db \<Rightarrow> semantic_db result" where
  "replace_code_map entities rels d =
     bind_result (insert_code_rows entities [] []) (\<lambda>(codes, contains).
       Inr (d\<lparr>code_rows := codes, relations := fold insert_relation rels contains\<rparr>))"

fun insert_spots :: "blind_spot_row list \<Rightarrow> blind_spot_row list \<Rightarrow> blind_spot_row list result" where
  "insert_spots [] spots = Inr spots"
| "insert_spots (b # bs) spots =
     (if bs_id b \<in> set (map bs_id spots) then Inl integrity_error else insert_spots bs (spots @ [b]))"

definition replace_static_blind_spots :: "blind_spot_row list \<Rightarrow> semantic_db \<Rightarrow> semantic_db result" where
  "replace_static_blind_spots rows d =
     bind_result (insert_spots rows (filter (\<lambda>b. bs_source b \<noteq> ''static'') (blind_spots d)))
       (\<lambda>spots. Inr (d\<lparr>blind_spots := spots\<rparr>))"

text \<open>What the scanners found, or the exception one of them raised\<close>

record scan_result =
  sr_entities :: "code_row list"
  sr_relations :: "relation_row list"
  sr_spots :: "blind_spot_row list"

definition pending_scan :: "semantic_db \<Rightarrow> semantic_db" where
  "pending_scan d =
     fold (\<lambda>(k, v) d. put_meta k v d)
       [(scan_key, ''pending''), (run_key, []), (''semantic_scan_interrupted'', ''0''),
        (''semantic_scan_processed'', ''0''), (''semantic_scan_routed'', ''0''),
        (''semantic_scan_deferred'', ''0''), (''semantic_scan_remaining'', ''0'')] d"

definition rescan_tables :: "string \<Rightarrow> scan_result \<Rightarrow> semantic_db \<Rightarrow> semantic_db result" where
  "rescan_tables pid found d =
     bind_result (replace_code_map (sr_entities found) (sr_relations found)
       (put_map_status pid ''scanning_structure'' ''deterministic_scan_started'' d)) (\<lambda>d.
     bind_result (replace_static_blind_spots (sr_spots found) d) (\<lambda>d.
     Inr (pending_scan (put_map_status pid ''structure_ready'' ''deterministic_scan_completed'' d))))"

definition rescan :: "string \<Rightarrow> scan_result result \<Rightarrow> semantic_db \<Rightarrow> readiness \<times> semantic_db" where
  "rescan pid found d =
     (case bind_result found (\<lambda>f. rescan_tables pid f d) of
        Inr d' \<Rightarrow> (store_readiness d' (Some ''structure_ready''), d')
      | Inl e \<Rightarrow> (let d' = put_map_status pid ''failed'' (error_name e) d in (store_readiness d' (Some ''failed''), d')))"

text \<open>\<^verbatim>\<open>ProjectService.rescan_project\<close>: the semantic phase follows a structure scan that succeeded\<close>

definition rescan_project ::
  "scan_env \<Rightarrow> scan_result result \<Rightarrow> scanner \<Rightarrow> semantic_db \<Rightarrow> readiness result \<times> scanner \<times> semantic_db" where
  "rescan_project env found sn d =
     (case open_existing_store env sn d of
        (Inl e, sn1, d1) \<Rightarrow> (Inl e, sn1, d1)
      | (Inr _, sn1, d1) \<Rightarrow>
          (case rescan (se_project env) found d1 of
             (r, d2) \<Rightarrow> if rd_scan_status r = ''structure_ready'' then run_semantic_scan env None sn1 d2
                        else (Inr r, sn1, d2)))"


end
