(* ===== verification/Arbitration.thy ===== *)
theory Arbitration
  imports Semantic_Scan
begin

text \<open>
  Annotations, objections and their arbitration, and the change messages of
  \<^verbatim>\<open>features/project_map/store.py\<close>: recording and proposing an annotation, raising and resolving
  an objection, marking annotations stale after their file changed, and applying a batch of change
  messages once. The refresh of the changed paths by the indexers is an argument of the batch.
\<close>

section \<open>Annotations\<close>

definition annotation_statuses :: "string list" where
  "annotation_statuses = [''active'', ''pending'', ''rejected'', ''stale'']"

definition annotation_note :: "annotation_row \<Rightarrow> semantic_db \<Rightarrow> semantic_db" where
  "annotation_note a d =
     log_semantic ''semantic_annotation'' (an_id a) ''record''
       [(''source_id'', JStr (an_source a)), (''model'', JStr (an_model a)), (''status'', JStr (an_status a))] d"

definition record_semantic_annotation ::
  "string \<Rightarrow> string \<Rightarrow> string \<Rightarrow> dict \<Rightarrow> string \<Rightarrow> rat \<Rightarrow> string \<Rightarrow> string \<Rightarrow> semantic_db
     \<Rightarrow> (annotation_row \<times> semantic_db) result" where
  "record_semantic_annotation fresh source summary evidence model confidence hash status d =
     (if status \<notin> set annotation_statuses
      then Inl (ValidationError ''semantic_annotation'' ''Unsupported annotation status'')
      else let a = \<lparr>an_id = fresh, an_source = source, an_summary = summary, an_evidence = evidence,
                    an_model = model, an_confidence = confidence, an_file_hash = hash, an_status = status\<rparr>
        in bind_result (insert_annotation a d) (\<lambda>d. Inr (a, annotation_note a d)))"

definition list_semantic_annotations ::
  "semantic_db \<Rightarrow> string \<Rightarrow> int \<Rightarrow> annotation_row list \<times> string option" where
  "list_semantic_annotations d cursor limit =
     (let page = nat (bounded_limit limit);
          rows = take (page + 1) (sort_key an_id (filter (\<lambda>a. cursor < an_id a) (annotations d)));
          items = take page rows
      in (items, if page < length rows \<and> items \<noteq> [] then Some (an_id (List.last items)) else None))"

definition supported_risks :: "string list" where
  "supported_risks = [''low'', ''medium'', ''high'']"

definition auto_adopt_confidence :: rat where
  "auto_adopt_confidence = 9 / 10"

definition auto_adopted :: "rat \<Rightarrow> string \<Rightarrow> bool" where
  "auto_adopted confidence risk \<longleftrightarrow> auto_adopt_confidence \<le> confidence \<and> risk = ''low''"

text \<open>\<open>entity\<close> is the identifier of a file\<close>

definition check_mapping_seed ::
  "(string \<Rightarrow> string) \<Rightarrow> semantic_db \<Rightarrow> string option \<Rightarrow> string \<Rightarrow> unit result" where
  "check_mapping_seed entity d seed source =
     (case seed of
        Some (c # s) \<Rightarrow>
          bind_result (require_blind_spot_seed d (c # s)) (\<lambda>_.
            assert_entity_in_seed_scope entity d (c # s) source)
      | _ \<Rightarrow> Inr ())"

definition check_proposal ::
  "scan_env \<Rightarrow> (string \<Rightarrow> string) \<Rightarrow> string \<Rightarrow> rat \<Rightarrow> string \<Rightarrow> string \<Rightarrow> string option \<Rightarrow> semantic_db
     \<Rightarrow> unit result" where
  "check_proposal env entity source confidence hash risk seed d =
     (if \<not> (0 \<le> confidence \<and> confidence \<le> 1)
      then Inl (ValidationError ''semantic_annotation'' ''Confidence must be between 0 and 1'')
      else if risk \<notin> set supported_risks
      then Inl (ValidationError ''semantic_annotation'' ''Unsupported risk level'')
      else case find (\<lambda>r. ce_id r = source) (code_rows d) of
          None \<Rightarrow> Inl (ValidationError ''semantic_annotation'' ''Annotation source entity not found'')
        | Some r \<Rightarrow>
            (if hash = [] \<or> hash \<noteq> se_hash env (before_symbol (ce_path r))
             then Inl (ValidationError ''semantic_annotation'' ''File hash does not match current source content'')
             else check_mapping_seed entity d seed source))"

text \<open>\<open>fresh\<close> are the identifiers of the annotation and of the objection\<close>

definition propose_semantic_annotation ::
  "scan_env \<Rightarrow> (string \<Rightarrow> string) \<Rightarrow> string \<times> string \<Rightarrow> string \<Rightarrow> string \<Rightarrow> dict \<Rightarrow> string \<Rightarrow> rat \<Rightarrow> string
     \<Rightarrow> string \<Rightarrow> string option \<Rightarrow> semantic_db \<Rightarrow> (annotation_row \<times> string option \<times> semantic_db) result" where
  "propose_semantic_annotation env entity fresh source summary evidence model confidence hash risk seed d =
     bind_result (check_proposal env entity source confidence hash risk seed d) (\<lambda>_.
     let adopted = auto_adopted confidence risk;
         a = \<lparr>an_id = fst fresh, an_source = source, an_summary = summary, an_evidence = evidence,
              an_model = model, an_confidence = confidence, an_file_hash = hash,
              an_status = (if adopted then ''active'' else ''pending'')\<rparr>
     in bind_result (insert_annotation a d) (\<lambda>d.
        let d1 = annotation_note a d in
        if adopted then Inr (a, None, d1)
        else bind_result (insert_objection (snd fresh) ''semantic_annotation'' [source] evidence
               [(''summary'', JStr summary)] (Some (an_id a)) d1) (\<lambda>d2.
          Inr (a, Some (snd fresh),
            put_map_status (se_project env) needs_arbitration ''pending_arbitration''
              (log_semantic ''map_objection'' (snd fresh) ''create''
                 [(''objection_type'', JStr ''semantic_annotation'')] d2)))))"

section \<open>Objections\<close>

definition create_map_objection ::
  "string \<Rightarrow> string \<Rightarrow> string \<Rightarrow> string list \<Rightarrow> dict \<Rightarrow> dict \<Rightarrow> string option \<Rightarrow> semantic_db
     \<Rightarrow> (string \<times> semantic_db) result" where
  "create_map_objection pid fresh kind related evidence suggestion annotation d =
     bind_result (insert_objection fresh kind related evidence suggestion annotation d) (\<lambda>d.
     Inr (fresh, put_map_status pid needs_arbitration ''pending_arbitration''
       (log_semantic ''map_objection'' fresh ''create'' [(''objection_type'', JStr kind)] d)))"

definition list_arbitration_items :: "semantic_db \<Rightarrow> bool \<Rightarrow> objection_row list" where
  "list_arbitration_items d include_resolved =
     sort_key (\<lambda>x. (oj_created x, oj_id x))
       (filter (\<lambda>x. include_resolved \<or> oj_status x = ''pending'') (objections d))"

text \<open>The annotation joined with the entity it is about\<close>

definition joined_annotation :: "semantic_db \<Rightarrow> string \<Rightarrow> (annotation_row \<times> code_row) option" where
  "joined_annotation d i =
     (case find (\<lambda>a. an_id a = i \<and> (\<exists>r \<in> set (code_rows d). ce_id r = an_source a)) (annotations d) of
        None \<Rightarrow> None
      | Some a \<Rightarrow> map_option (\<lambda>r. (a, r)) (find (\<lambda>r. ce_id r = an_source a) (code_rows d)))"

definition stale_error :: bridle_error where
  "stale_error = ConflictError ''semantic_annotation'' ''annotation_stale''"

definition check_current :: "scan_env \<Rightarrow> semantic_db \<Rightarrow> string \<Rightarrow> unit result" where
  "check_current env d i =
     (case joined_annotation d i of
        None \<Rightarrow> Inl stale_error
      | Some (a, r) \<Rightarrow>
          (if an_status a = ''stale'' then Inl stale_error
           else let expected = se_hash env (before_symbol (ce_path r)) in
             if expected = [] \<or> expected \<noteq> an_file_hash a then Inl stale_error else Inr ()))"

definition settle_objection :: "string \<Rightarrow> semantic_db \<Rightarrow> semantic_db" where
  "settle_objection i d =
     d\<lparr>objections := update_rows (\<lambda>x. oj_id x = i)
        (\<lambda>x. x\<lparr>oj_status := ''resolved'', oj_resolved := Some (db_clock (verif (sd_plan d)))\<rparr>) (objections d)\<rparr>"

definition set_annotation_status :: "string \<Rightarrow> string \<Rightarrow> semantic_db \<Rightarrow> semantic_db" where
  "set_annotation_status i status d =
     d\<lparr>annotations := update_rows (\<lambda>a. an_id a = i) (\<lambda>a. a\<lparr>an_status := status\<rparr>) (annotations d)\<rparr>"

definition arbitrate_annotation :: "string option \<Rightarrow> string \<Rightarrow> semantic_db \<Rightarrow> semantic_db" where
  "arbitrate_annotation annotation decision d =
     (case annotation of
        Some (c # s) \<Rightarrow>
          (let status = (if decision = ''accepted'' then ''active'' else ''rejected'') in
           log_semantic ''semantic_annotation'' (c # s) ''arbitrate''
             [(''decision'', JStr decision), (''status'', JStr status)]
             (set_annotation_status (c # s) status d))
      | _ \<Rightarrow> d)"

text \<open>The state of the map after an arbitration\<close>

definition arbitrated_status :: "string \<Rightarrow> semantic_db \<Rightarrow> semantic_db" where
  "arbitrated_status pid d =
     (if pending_objections d \<noteq> 0 then put_map_status pid needs_arbitration ''pending_arbitration'' d
      else if meta_get d scan_key = Some ''completed''
      then put_map_status pid ready_status ''arbitration_completed'' d
      else put_map_status pid semantic_scanning ''arbitration_completed_semantic_pending'' d)"

definition resolve_objection ::
  "scan_env \<Rightarrow> string \<Rightarrow> string \<Rightarrow> string \<Rightarrow> dict \<Rightarrow> string \<Rightarrow> semantic_db \<Rightarrow> (string \<times> semantic_db) result" where
  "resolve_objection env fresh i decision resolution actor d =
     (case find (\<lambda>x. oj_id x = i) (objections d) of
        None \<Rightarrow> Inl (NotFoundError ''map_objection'')
      | Some x \<Rightarrow>
          (if oj_status x \<noteq> ''pending''
           then Inl (ConflictError ''map_objection'' ''objection_already_resolved'')
           else bind_result
             (case oj_annotation x of
                Some (c # s) \<Rightarrow> if decision = ''accepted'' then check_current env d (c # s) else Inr ()
              | _ \<Rightarrow> Inr ()) (\<lambda>_.
             if fresh \<in> set (map ar_id (arbitrations d)) then Inl integrity_error
             else let d1 = settle_objection i d;
                      d2 = d1\<lparr>arbitrations := arbitrations d1 @
                             [\<lparr>ar_id = fresh, ar_objection = i, ar_decision = decision,
                               ar_resolution = resolution, ar_actor = actor\<rparr>]\<rparr>;
                      d3 = log_semantic ''map_objection'' i ''resolve''
                             [(''decision'', JStr decision), (''actor'', JStr actor)] d2
               in Inr (fresh, arbitrated_status (se_project env)
                    (arbitrate_annotation (oj_annotation x) decision d3)))))"

section \<open>Annotations of changed files\<close>

record annotation_snapshot =
  as_id :: string
  as_source :: string
  as_hash :: string

text \<open>The active and pending annotations on the entities of the given files\<close>

definition path_snapshots :: "semantic_db \<Rightarrow> string \<Rightarrow> annotation_snapshot list" where
  "path_snapshots d file =
     map (\<lambda>a. \<lparr>as_id = an_id a, as_source = an_source a, as_hash = an_file_hash a\<rparr>)
       (filter (\<lambda>a. an_status a \<in> {''active'', ''pending''}
          \<and> (\<exists>r \<in> set (code_rows d). ce_id r = an_source a \<and> in_file file (ce_path r))) (annotations d))"

definition collect_annotation_snapshots :: "semantic_db \<Rightarrow> string list \<Rightarrow> annotation_snapshot list" where
  "collect_annotation_snapshots d files = concat (map (path_snapshots d) files)"

definition set_annotation_stale :: "string \<Rightarrow> semantic_db \<Rightarrow> semantic_db" where
  "set_annotation_stale i d =
     (let live = (\<lambda>a. an_id a = i \<and> an_status a \<in> {''active'', ''pending''}) in
      if rowcount live (annotations d) = 0 then d
      else log_semantic ''semantic_annotation'' i ''stale'' []
        (d\<lparr>annotations := update_rows live (\<lambda>a. a\<lparr>an_status := ''stale''\<rparr>) (annotations d),
           objections := update_rows (\<lambda>x. oj_annotation x = Some i \<and> oj_status x = ''pending'')
             (\<lambda>x. x\<lparr>oj_status := ''resolved'', oj_resolved := Some (db_clock (verif (sd_plan d)))\<rparr>) (objections d)\<rparr>))"

definition reconcile_snapshot :: "scan_env \<Rightarrow> annotation_snapshot \<Rightarrow> semantic_db \<Rightarrow> semantic_db" where
  "reconcile_snapshot env snap d =
     (case find (\<lambda>a. an_id a = as_id snap) (annotations d) of
        None \<Rightarrow> d
      | Some a \<Rightarrow>
          (if an_status a \<notin> {''active'', ''pending''} then d
           else case find (\<lambda>r. ce_id r = as_source snap) (code_rows d) of
               None \<Rightarrow> set_annotation_stale (as_id snap) d
             | Some r \<Rightarrow>
                 (let current = se_hash env (before_symbol (ce_path r)) in
                  if current = [] \<or> current \<noteq> as_hash snap then set_annotation_stale (as_id snap) d else d)))"

definition reconcile_annotations_after_refresh ::
  "scan_env \<Rightarrow> annotation_snapshot list \<Rightarrow> semantic_db \<Rightarrow> semantic_db" where
  "reconcile_annotations_after_refresh env snaps d = fold (reconcile_snapshot env) snaps d"

text \<open>A refresh of some files, after which the indexer leaves the entities \<open>codes\<close>\<close>

definition refresh_annotations :: "scan_env \<Rightarrow> string list \<Rightarrow> code_row list \<Rightarrow> semantic_db \<Rightarrow> semantic_db" where
  "refresh_annotations env files codes d =
     reconcile_annotations_after_refresh env (collect_annotation_snapshots d files) (d\<lparr>code_rows := codes\<rparr>)"

section \<open>Change messages\<close>

definition map_denied_prefixes :: "string list" where
  "map_denied_prefixes = [''.bridle/'', ''.git/'', ''.venv/'', ''node_modules/'', ''__pycache__/'',
     ''.pytest-tmp/'', ''.test-workspaces/'', ''dist/'', ''build/'', ''coverage/'', ''e2e-runs/'',
     ''e2e-generated/'']"

text \<open>The trailing slashes of a text are removed by \<^verbatim>\<open>rstrip("/")\<close>.\<close>

definition map_path_allowed :: "string \<Rightarrow> bool" where
  "map_path_allowed rel =
     (let normalized = rev (dropWhile (\<lambda>c. c = CHR ''/'') (rev rel)) in
      \<not> (\<exists>p \<in> set map_denied_prefixes. normalized = butlast p \<or> startswith normalized p))"

definition normalize_map_path :: "string \<Rightarrow> string result" where
  "normalize_map_path raw =
     (let slash = (\<lambda>c. c = CHR ''/'');
          normalized = rev (dropWhile slash (rev (dropWhile slash (replace_char (char_of (92::nat)) ''/'' raw))));
          parts = filter (\<lambda>p. p \<noteq> [] \<and> p \<noteq> ''.'') (split_on (CHR ''/'') normalized);
          rel = join_with ''/'' parts
      in if parts = [] \<or> ''..'' \<in> set parts \<or> startswith raw ''/'' \<or> CHR '':'' \<in> set (hd parts)
            \<or> \<not> map_path_allowed rel
         then Inl (ValidationError ''code_map'' ''Changed path must stay inside the project'')
         else Inr rel)"

fun normalize_map_paths :: "string list \<Rightarrow> string list result" where
  "normalize_map_paths [] = Inr []"
| "normalize_map_paths (p # ps) =
     bind_result (normalize_map_path p) (\<lambda>q. bind_result (normalize_map_paths ps) (\<lambda>qs. Inr (q # qs)))"

type_synonym path_refresh = "string list \<Rightarrow> semantic_db \<Rightarrow> semantic_db result"

definition refresh_code_paths :: "path_refresh \<Rightarrow> string list \<Rightarrow> semantic_db \<Rightarrow> (string list \<times> semantic_db) result" where
  "refresh_code_paths refresh paths d =
     bind_result (normalize_map_paths paths) (\<lambda>qs.
     let normalized = sort (remdups qs) in
     bind_result (refresh normalized d) (\<lambda>d. Inr (normalized, d)))"

record batch_result =
  br_applied :: "string list"
  br_duplicate :: "string list"
  br_refreshed :: "string list"

definition apply_code_changed_batch ::
  "path_refresh \<Rightarrow> (string \<times> string list) list \<Rightarrow> semantic_db \<Rightarrow> (batch_result \<times> semantic_db) result" where
  "apply_code_changed_batch refresh messages d =
     (let ids = map fst messages in
      if [] \<in> set ids \<or> \<not> distinct ids
      then Inl (ValidationError ''project_map_message'' ''Invalid message batch'')
      else let known = applied_messages d;
               fresh = filter (\<lambda>(i, _). i \<notin> set known) messages
      in bind_result (normalize_map_paths (concat (map snd fresh))) (\<lambda>qs.
         let normalized = sort (remdups qs) in
         bind_result (if normalized = [] then Inr d else refresh normalized d) (\<lambda>d.
         if \<exists>(i, _) \<in> set fresh. i \<in> set (applied_messages d) then Inl integrity_error
         else Inr (\<lparr>br_applied = map fst fresh, br_duplicate = filter (\<lambda>i. i \<in> set known) ids,
                    br_refreshed = normalized\<rparr>,
                   d\<lparr>applied_messages := applied_messages d @ map fst fresh\<rparr>))))"


end
