(* ===== verification/Number_Text.thy ===== *)
theory Number_Text
  imports Canonical_Properties Test_Contract
begin

text \<open>
  Reading back a printed integer: \<^verbatim>\<open>int(str(i)) == i\<close>, for the counters and run identifiers
  that the plan store keeps as text.
\<close>

lemma digit_value_digit: "digit c \<Longrightarrow> digit_value c = Some (int (of_char c) - 48)"
  by (simp add: digit_def digit_value_def)

lemma parse_digits_value:
  "\<forall>c \<in> set s. digit c \<Longrightarrow>
   parse_digits acc s = Some (foldl (\<lambda>a c. 10 * a + (int (of_char c) - 48)) acc s)"
  by (induction s arbitrary: acc) (simp_all add: digit_value_digit)

lemma foldl_digits_int:
  "\<forall>c \<in> set s. digit c \<Longrightarrow>
   foldl (\<lambda>a c. 10 * a + (int (of_char c) - 48)) (int n) s
     = int (foldl (\<lambda>a c. 10 * a + (of_char c - 48)) n s)"
proof (induction s arbitrary: n)
  case (Cons c s)
  then have "48 \<le> (of_char c :: nat)" by (simp add: digit_def)
  then have "int (10 * n + (of_char c - 48)) = 10 * int n + (int (of_char c) - 48)"
    by (simp only: of_nat_add of_nat_mult of_nat_diff of_nat_numeral)
  moreover have "\<forall>c \<in> set s. digit c" using Cons.prems by simp
  ultimately show ?case
    using Cons.IH [of "10 * n + (of_char c - 48)"] by (simp only: foldl_Cons)
qed simp

lemma parse_nat_str: "parse_nat (nat_str n) = Some (int n)"
proof -
  obtain c s where cs: "nat_str n = c # s" using nat_str_nonempty [of n] by (cases "nat_str n") auto
  have digits: "\<forall>x \<in> set (c # s). digit x" using nat_str_digits [of n] by (simp add: cs)
  have "int n = int (foldl (\<lambda>a c. 10 * a + (of_char c - 48)) 0 (c # s))"
    using nat_str_value [of n] by (simp add: cs)
  also have "\<dots> = foldl (\<lambda>a c. 10 * a + (int (of_char c) - 48)) (int 0) (c # s)"
    by (rule foldl_digits_int [OF digits, symmetric])
  finally show ?thesis
    using digits by (simp add: parse_nat_def cs digit_value_digit parse_digits_value)
qed

lemma digit_facts: "digit c \<Longrightarrow> \<not> is_space c" "\<not> digit (CHR ''-'')" "\<not> digit (CHR ''+'')"
  by (auto simp: digit_def is_space_def Let_def)

lemma strip_digits: "\<forall>c \<in> set s. digit c \<or> c = CHR ''-'' \<Longrightarrow> strip s = s"
proof -
  assume s: "\<forall>c \<in> set s. digit c \<or> c = CHR ''-''"
  have space: "\<not> is_space c" if "c \<in> set s" for c
    using s that digit_facts(1) by (auto simp: is_space_def)
  have keep: "dropWhile is_space t = t" if "\<forall>c \<in> set t. \<not> is_space c" for t
    using that by (cases t) simp_all
  show ?thesis using space by (simp add: strip_def keep)
qed

lemma parse_int_str: "parse_int (int_str i) = Some i"
proof -
  have strip: "strip (int_str i) = int_str i" by (rule strip_digits) (rule int_str_chars)
  show ?thesis
  proof (cases "i < 0")
    case True
    then have "int_str i = CHR ''-'' # nat_str (nat (- i))" by (simp add: int_str_def)
    with True strip show ?thesis by (simp add: parse_int_def parse_nat_str)
  next
    case False
    then have eq: "int_str i = nat_str (nat i)" by (simp add: int_str_def)
    obtain c s where cs: "nat_str (nat i) = c # s"
      using nat_str_nonempty [of "nat i"] by (cases "nat_str (nat i)") auto
    have "digit c" using nat_str_digits [of "nat i"] by (simp add: cs)
    then have "c \<noteq> CHR ''-''" "c \<noteq> CHR ''+''" using digit_facts by auto
    moreover have "parse_nat (c # s) = Some i" using parse_nat_str [of "nat i"] False by (simp add: cs)
    ultimately show ?thesis using strip by (simp add: parse_int_def eq cs)
  qed
qed

lemma int_str_nonempty [simp]: "int_str i \<noteq> []"
  using int_str_first [of i] by auto

lemma py_int_str [simp]: "py_int (JStr (int_str i)) = Inr i"
  by (simp add: parse_int_str)

lemma py_int_zero [simp]: "py_int (JStr ''0'') = Inr 0"
proof -
  have "int_str 0 = ''0''" by (simp add: int_str_def) (subst nat_str.simps, code_simp)
  then show ?thesis using py_int_str [of 0] by metis
qed

end
