(* ===== verification/Scan_Properties.thy ===== *)
theory Scan_Properties
  imports Arbitration Plan_Run Number_Text
begin

text \<open>
  Facts the histories of the semantic scan are built from: the metadata table under each operation,
  the run tokens and their texts, and how the batches over the blind spots end.
\<close>

section \<open>Metadata\<close>

named_theorems meta_simps \<open>how the operations act on the metadata and the other tables\<close>

lemma meta_get_put [meta_simps]: "meta_get (put_meta k v d) k' = (if k' = k then Some v else meta_get d k')"
  by (simp add: meta_get_def put_meta_def set_metadata_def update_conv')

lemma meta_get_log [meta_simps]: "meta_get (log_semantic t i op p d) k = meta_get d k"
  by (simp add: meta_get_def log_semantic_def log_change_def)

lemma meta_get_status [meta_simps]:
  "meta_get (put_map_status pid st r d) k =
     (if k = ''readiness_reason'' then Some (if st = ready_status then [] else r)
      else if k = ''scan_status'' then Some st else meta_get d k)"
  by (simp add: meta_get_def put_map_status_def set_map_status_def set_metadata_def log_change_def update_conv')

lemma meta_get_table [meta_simps]:
  "meta_get (d\<lparr>code_rows := a\<rparr>) k = meta_get d k" "meta_get (d\<lparr>relations := b\<rparr>) k = meta_get d k"
  "meta_get (d\<lparr>blind_spots := c\<rparr>) k = meta_get d k" "meta_get (d\<lparr>annotations := e\<rparr>) k = meta_get d k"
  "meta_get (d\<lparr>objections := f\<rparr>) k = meta_get d k" "meta_get (d\<lparr>arbitrations := g\<rparr>) k = meta_get d k"
  "meta_get (d\<lparr>applied_messages := h\<rparr>) k = meta_get d k"
  by (simp_all add: meta_get_def)

lemma put_map_status_tables [simp]:
  "blind_spots (put_map_status p s r d) = blind_spots d" "objections (put_map_status p s r d) = objections d"
  "annotations (put_map_status p s r d) = annotations d" "code_rows (put_map_status p s r d) = code_rows d"
  "arbitrations (put_map_status p s r d) = arbitrations d" "applied_messages (put_map_status p s r d) = applied_messages d"
  by (simp_all add: put_map_status_def)

lemma pending_cong [meta_simps]:
  "pending_objections (put_meta k v d) = pending_objections d"
  "pending_objections (log_semantic t i op p d) = pending_objections d"
  "pending_objections (put_map_status pid st r d) = pending_objections d"
  by (simp_all add: pending_objections_def)

lemma keys_distinct [simp]:
  "scan_key \<noteq> run_key" "run_key \<noteq> scan_key" "scan_key \<noteq> ''scan_status''" "run_key \<noteq> ''scan_status''"
  "scan_key \<noteq> ''readiness_reason''" "run_key \<noteq> ''readiness_reason''" "''scan_status'' \<noteq> scan_key"
  "''scan_status'' \<noteq> run_key" "scan_key \<noteq> ''semantic_scan_run_seq''" "run_key \<noteq> ''semantic_scan_run_seq''"
  "scan_key \<noteq> ''semantic_scan_interrupted''" "run_key \<noteq> ''semantic_scan_interrupted''"
  "scan_key \<noteq> ''semantic_scan_processed''" "run_key \<noteq> ''semantic_scan_processed''"
  "scan_key \<noteq> ''semantic_scan_routed''" "run_key \<noteq> ''semantic_scan_routed''"
  "scan_key \<noteq> ''semantic_scan_deferred''" "run_key \<noteq> ''semantic_scan_deferred''"
  "scan_key \<noteq> ''semantic_scan_remaining''" "run_key \<noteq> ''semantic_scan_remaining''"
  "''semantic_scan_run_seq'' \<noteq> scan_key" "''semantic_scan_run_seq'' \<noteq> run_key"
  by (simp_all add: scan_key_def run_key_def)

lemma status_values [simp]:
  "semantic_scanning \<noteq> ready_status" "needs_arbitration \<noteq> ready_status" "ready_status \<noteq> ''completed''"
  "semantic_scanning \<noteq> ''completed''" "needs_arbitration \<noteq> ''completed''" "''structure_ready'' \<noteq> ready_status"
  "''failed'' \<noteq> ready_status" "''stale'' \<noteq> ready_status" "''scanning_structure'' \<noteq> ready_status"
  "semantic_scanning \<noteq> []" "ready_status \<noteq> []" "needs_arbitration \<noteq> []"
  "ready_status \<noteq> semantic_scanning" "needs_arbitration \<noteq> semantic_scanning" "needs_arbitration \<noteq> ''structure_ready''"
  "ready_status \<noteq> ''structure_ready''" "ready_status \<noteq> needs_arbitration"
  by (simp_all add: semantic_scanning_def needs_arbitration_def ready_status_def)

lemma meta_or_text: "meta_or d k other = (if meta_text d k = [] then other else meta_text d k)"
  by (simp add: meta_or_def metadata_or_def meta_text_def meta_get_def split: option.splits)

lemma meta_text_get: "v \<noteq> [] \<Longrightarrow> meta_text d k = v \<longleftrightarrow> meta_get d k = Some v"
  by (auto simp: meta_text_def split: option.splits)

lemma route_meta:
  "route_blind_spot_to_review env i source file summary evidence d = Inr d' \<Longrightarrow>
   meta_get d' k = meta_get d k \<and> applied_messages d' = applied_messages d
   \<and> arbitrations d' = arbitrations d \<and> code_rows d' = code_rows d"
  by (cases "se_ids env i")
    (auto simp: route_blind_spot_to_review_def bind_result_Inr insert_annotation_def
      insert_objection_def set_spot_def meta_simps split: if_splits)

lemma set_spot_meta [meta_simps]:
  "meta_get (set_spot st i d) k = meta_get d k" "pending_objections (set_spot st i d) = pending_objections d"
  by (simp_all add: set_spot_def meta_simps pending_objections_def)

lemma set_spot_tables [simp]:
  "applied_messages (set_spot st i d) = applied_messages d" "arbitrations (set_spot st i d) = arbitrations d"
  "code_rows (set_spot st i d) = code_rows d" "objections (set_spot st i d) = objections d"
  "annotations (set_spot st i d) = annotations d"
  by (simp_all add: set_spot_def)

lemma scan_row_meta:
  "scan_row env b d = Inr (sent, d') \<Longrightarrow>
   meta_get d' k = meta_get d k \<and> applied_messages d' = applied_messages d
   \<and> arbitrations d' = arbitrations d \<and> code_rows d' = code_rows d"
  by (auto simp: scan_row_def bind_result_Inr meta_simps dest!: route_meta [where k = k] split: option.splits if_splits)

lemma scan_rows_meta:
  assumes "scan_rows env bs r f d = Inr (r', f', d')"
  shows "meta_get d' k = meta_get d k \<and> applied_messages d' = applied_messages d
    \<and> arbitrations d' = arbitrations d \<and> code_rows d' = code_rows d"
  using assms
proof (induction env bs r f d rule: scan_rows.induct)
  case (2 env b bs r f d)
  then obtain sent d1 where row: "scan_row env b d = Inr (sent, d1)" by (auto simp: bind_result_Inr)
  note keeps = scan_row_meta [OF row, of k]
  from 2 row keeps show ?case by (cases sent) auto
qed simp

lemma run_batch_meta:
  assumes "run_batch env budget d = Inr (b, d')"
  shows "meta_get d' k = meta_get d k" "applied_messages d' = applied_messages d"
    "arbitrations d' = arbitrations d" "code_rows d' = code_rows d"
  using assms by (auto simp: run_batch_def bind_result_Inr dest!: scan_rows_meta [where k = k])

definition total_keys :: "string set" where
  "total_keys = {''semantic_scan_processed'', ''semantic_scan_routed'', ''semantic_scan_deferred'',
     ''semantic_scan_remaining''}"

lemma total_keys_iff [simp]:
  "scan_key \<notin> total_keys" "run_key \<notin> total_keys" "''scan_status'' \<notin> total_keys"
  "''semantic_scan_run_seq'' \<notin> total_keys" "''semantic_scan_interrupted'' \<notin> total_keys"
  by (simp_all add: total_keys_def scan_key_def run_key_def)

lemma record_totals_meta:
  "k \<notin> total_keys \<Longrightarrow> meta_get (record_totals p r f n d) k = meta_get d k"
  by (simp add: record_totals_def meta_simps total_keys_def)

lemma record_totals_tables [simp]:
  "applied_messages (record_totals p r f n d) = applied_messages d"
  "arbitrations (record_totals p r f n d) = arbitrations d" "code_rows (record_totals p r f n d) = code_rows d"
  "objections (record_totals p r f n d) = objections d" "annotations (record_totals p r f n d) = annotations d"
  "blind_spots (record_totals p r f n d) = blind_spots d"
  by (simp_all add: record_totals_def)

lemma scan_batches_meta:
  "scan_batches env budget p r f d = (res, d') \<Longrightarrow> k \<notin> total_keys \<Longrightarrow>
   meta_get d' k = meta_get d k \<and> applied_messages d' = applied_messages d
   \<and> arbitrations d' = arbitrations d \<and> code_rows d' = code_rows d"
proof (induction env budget p r f d rule: scan_batches.induct)
  case (1 env budget p r f d)
  show ?case
  proof (cases "run_batch env budget d")
    case (Inl e)
    with 1(2) show ?thesis by (subst (asm) scan_batches.simps) simp
  next
    case (Inr x)
    obtain b d1 where x: "x = (b, d1)" by force
    note batch = run_batch_meta [OF Inr [unfolded x]]
    let ?d2 = "record_totals (p + int (bt_processed b)) (r + int (bt_routed b)) (f + int (bt_deferred b)) (bt_remaining b) d1"
    show ?thesis
    proof (cases "bt_remaining b = 0")
      case True
      with 1(2) Inr x have "d' = ?d2" by (subst (asm) scan_batches.simps) (simp add: Let_def)
      with 1(3) batch show ?thesis by (simp add: record_totals_meta)
    next
      case False
      with 1(2) Inr x have "scan_batches env budget (p + int (bt_processed b)) (r + int (bt_routed b))
          (f + int (bt_deferred b)) ?d2 = (res, d')"
        by (subst (asm) scan_batches.simps) (simp add: Let_def)
      from 1(1) [OF Inr x [symmetric] refl refl refl refl False this 1(3)] 1(3) batch
      show ?thesis by (simp add: record_totals_meta)
    qed
  qed
qed

end
