(* ===== verification/Scan_History.thy ===== *)
theory Scan_History
  imports Scan_Properties
begin

text \<open>
  Histories of one project map: whole calls on a store, one after the other, by any number of
  store objects, with the operations of the plan (which leave the metadata alone) in between. The
  hook of \<^verbatim>\<open>run_semantic_scan\<close>, which only tests pass, is left out. The public \<^verbatim>\<open>mark_map_status\<close> checks no objection before it marks the map ready; the
  parameter \<open>forcing\<close> says whether a history may use it for that while objections are pending.
  Over every history that does not force the map, a ready map has no pending objection; over
  every history at all, a run identifier, once another run has been given its own, owns the scan
  never again.
\<close>

section \<open>Calls\<close>

definition new_scanner :: scanner where
  "new_scanner = \<lparr>sn_active_run = None, sn_continuing = False, sn_resuming = False\<rparr>"

inductive map_step :: "bool \<Rightarrow> scanner \<times> semantic_db \<Rightarrow> scanner \<times> semantic_db \<Rightarrow> bool"
  for forcing where
  scanned: "run_semantic_scan env None sn d = (r, sn', d') \<Longrightarrow> map_step forcing (sn, d) (sn', d')"
| opened: "open_existing_store env sn d = (r, sn', d') \<Longrightarrow> map_step forcing (sn, d) (sn', d')"
| rescanned: "rescan pid found d = (r, d') \<Longrightarrow> map_step forcing (sn, d) (sn, d')"
| rescanned_project: "rescan_project env found sn d = (r, sn', d') \<Longrightarrow> map_step forcing (sn, d) (sn', d')"
| recorded: "record_semantic_annotation fresh source summary evidence model confidence hash status d = Inr (a, d')
    \<Longrightarrow> map_step forcing (sn, d) (sn, d')"
| proposed: "propose_semantic_annotation env entity ids source summary evidence model confidence hash risk seed d
      = Inr (a, oid, d') \<Longrightarrow> map_step forcing (sn, d) (sn, d')"
| raised: "create_map_objection pid fresh category related evidence suggestion annotation d = Inr (oid, d')
    \<Longrightarrow> map_step forcing (sn, d) (sn, d')"
| resolved: "resolve_objection env fresh i decision resolution actor d = Inr (rid, d')
    \<Longrightarrow> map_step forcing (sn, d) (sn, d')"
| refreshed: "map_step forcing (sn, d) (sn, refresh_annotations env files codes d)"
| applied: "apply_code_changed_batch (\<lambda>files d. Inr (refresh_annotations env files codes d)) messages d = Inr (b, d')
    \<Longrightarrow> map_step forcing (sn, d) (sn, d')"
| completed: "mark_scan_completed pid t sn d = (r, d') \<Longrightarrow> map_step forcing (sn, d) (sn, d')"
| degraded: "mark_map_degraded (sd_plan d) reason = (r, m) \<Longrightarrow> map_step forcing (sn, d) (sn, d\<lparr>sd_plan := m\<rparr>)"
| marked: "mark_map_status pid (sd_plan d) status reason = Inr (rd, m) \<Longrightarrow>
    status = ready_status \<longrightarrow> pending_objections d = 0 \<or> forcing \<Longrightarrow> map_step forcing (sn, d) (sn, d\<lparr>sd_plan := m\<rparr>)"
| planned: "metadata m = metadata (sd_plan d) \<Longrightarrow> map_step forcing (sn, d) (sn, d\<lparr>sd_plan := m\<rparr>)"
| reopened: "map_step forcing (sn, d) (new_scanner, d)"

abbreviation map_history :: "bool \<Rightarrow> scanner \<times> semantic_db \<Rightarrow> scanner \<times> semantic_db \<Rightarrow> bool" where
  "map_history forcing \<equiv> (map_step forcing)\<^sup>*\<^sup>*"

section \<open>The single calls on the metadata\<close>

text \<open>What the operations outside the scan do to the scan's own metadata: nothing.\<close>

definition own_keys :: "string set" where
  "own_keys = {scan_key, run_key, ''semantic_scan_run_seq'', ''semantic_scan_interrupted''}"

lemma own_keys_iff [simp]: "''scan_status'' \<notin> own_keys" "''readiness_reason'' \<notin> own_keys"
  by (simp_all add: own_keys_def scan_key_def run_key_def)

lemma own_keysD: "k \<in> own_keys \<Longrightarrow> k \<noteq> ''scan_status'' \<and> k \<noteq> ''readiness_reason'' \<and> k \<notin> total_keys"
  by (auto simp: own_keys_def scan_key_def run_key_def total_keys_def)

definition quiet :: "semantic_db \<Rightarrow> bool" where
  "quiet d \<longleftrightarrow> (meta_get d ''scan_status'' \<in> Some ` {ready_status, ''completed''} \<longrightarrow> pending_objections d = 0)"

lemma insert_annotation_meta:
  "insert_annotation a d = Inr d' \<Longrightarrow> meta_get d' = meta_get d \<and> objections d' = objections d"
  by (auto simp: insert_annotation_def meta_simps fun_eq_iff split: if_splits)

lemma insert_objection_meta:
  "insert_objection i k r e s a d = Inr d' \<Longrightarrow> meta_get d' = meta_get d"
  by (auto simp: insert_objection_def meta_simps fun_eq_iff split: if_splits)

lemma stale_meta: "meta_get (set_annotation_stale i d) k = meta_get d k"
  by (simp add: set_annotation_stale_def Let_def meta_simps)

lemma stale_pending: "pending_objections (set_annotation_stale i d) \<le> pending_objections d"
proof -
  have "rowcount (\<lambda>x. oj_status x = ''pending'') (update_rows P f rows) \<le> rowcount (\<lambda>x. oj_status x = ''pending'') rows"
    if "\<And>x. oj_status (f x) \<noteq> ''pending''" for P f rows
    using that by (induction rows) (auto simp: rowcount_def)
  note fewer = this
  show ?thesis
    unfolding set_annotation_stale_def Let_def pending_objections_def
    by (auto simp: table_simps intro!: fewer)
qed

lemma reconcile_meta:
  "meta_get (fold (reconcile_snapshot env) snaps d) k = meta_get d k
   \<and> pending_objections (fold (reconcile_snapshot env) snaps d) \<le> pending_objections d"
proof (induction snaps arbitrary: d)
  case (Cons snap snaps)
  have "meta_get (reconcile_snapshot env snap d) k = meta_get d k
      \<and> pending_objections (reconcile_snapshot env snap d) \<le> pending_objections d"
    by (auto simp: reconcile_snapshot_def Let_def stale_meta stale_pending split: option.splits)
  with Cons [of "reconcile_snapshot env snap d"] show ?case by auto
qed simp

lemma refresh_meta:
  "meta_get (refresh_annotations env files codes d) k = meta_get d k"
  "pending_objections (refresh_annotations env files codes d) \<le> pending_objections d"
  using reconcile_meta [of env "collect_annotation_snapshots d files" "d\<lparr>code_rows := codes\<rparr>" k]
  by (simp_all add: refresh_annotations_def reconcile_annotations_after_refresh_def meta_simps
      pending_objections_def)

lemma refresh_quiet: "quiet d \<Longrightarrow> quiet (refresh_annotations env files codes d)"
  using refresh_meta(2) [of env files codes d] by (auto simp: quiet_def refresh_meta(1))

lemma annotation_note_meta [meta_simps]:
  "meta_get (annotation_note a d) k = meta_get d k" "pending_objections (annotation_note a d) = pending_objections d"
  by (simp_all add: annotation_note_def meta_simps)

lemma insert_annotation_pending: "insert_annotation a d = Inr d' \<Longrightarrow> pending_objections d' = pending_objections d"
  by (simp add: insert_annotation_meta pending_objections_def)

lemma quiet_arbitration: "quiet (put_map_status pid needs_arbitration r d)"
  by (simp add: quiet_def meta_simps)

lemma proposed_cases:
  assumes "propose_semantic_annotation env entity ids source summary evidence model confidence hash risk seed d
      = Inr (a, oid, d')"
  obtains d1 where "insert_annotation a d = Inr d1" "d' = annotation_note a d1" "oid = None"
  | d1 d2 where "insert_annotation a d = Inr d1"
      "insert_objection (snd ids) ''semantic_annotation'' [source] evidence [(''summary'', JStr summary)]
         (Some (an_id a)) (annotation_note a d1) = Inr d2"
      "d' = put_map_status (se_project env) needs_arbitration ''pending_arbitration''
         (log_semantic ''map_objection'' (snd ids) ''create''
            [(''objection_type'', JStr ''semantic_annotation'')] d2)" "oid = Some (snd ids)"
proof (cases "auto_adopted confidence risk")
  case True
  with assms obtain d1 where "insert_annotation a d = Inr d1" "d' = annotation_note a d1" "oid = None"
    by (auto simp: propose_semantic_annotation_def Let_def bind_result_Inr)
  then show ?thesis by (rule that(1))
next
  case False
  with assms obtain d1 d2 where "insert_annotation a d = Inr d1"
    "insert_objection (snd ids) ''semantic_annotation'' [source] evidence [(''summary'', JStr summary)]
         (Some (an_id a)) (annotation_note a d1) = Inr d2"
    "d' = put_map_status (se_project env) needs_arbitration ''pending_arbitration''
         (log_semantic ''map_objection'' (snd ids) ''create''
            [(''objection_type'', JStr ''semantic_annotation'')] d2)" "oid = Some (snd ids)"
    by (auto simp: propose_semantic_annotation_def Let_def bind_result_Inr)
  then show ?thesis by (rule that(2))
qed

lemma proposed_meta:
  assumes "propose_semantic_annotation env entity ids source summary evidence model confidence hash risk seed d
      = Inr (a, oid, d')"
  shows "k \<in> own_keys \<Longrightarrow> meta_get d' k = meta_get d k" and "quiet d \<Longrightarrow> quiet d'"
  using assms
  by (cases rule: proposed_cases; auto simp: meta_simps insert_annotation_meta insert_objection_meta quiet_arbitration
      quiet_def insert_annotation_pending dest: own_keysD)+

lemma raised_meta:
  assumes "create_map_objection pid fresh category related evidence suggestion annotation d = Inr (oid, d')"
  shows "k \<in> own_keys \<Longrightarrow> meta_get d' k = meta_get d k" and "quiet d'"
  using assms
  by (auto simp: create_map_objection_def bind_result_Inr meta_simps insert_objection_meta quiet_arbitration
      dest: own_keysD)

lemma arbitrate_meta:
  "meta_get (arbitrate_annotation a dec d) k = meta_get d k"
  "objections (arbitrate_annotation a dec d) = objections d"
  by (auto simp: arbitrate_annotation_def set_annotation_status_def meta_simps Let_def
      split: option.splits list.splits)

lemma arbitrated_quiet: "quiet (arbitrated_status pid d)"
  by (simp add: arbitrated_status_def quiet_def meta_simps)

lemma resolved_cases:
  assumes "resolve_objection env fresh i decision resolution actor d = Inr (rid, d')"
  obtains x where "find (\<lambda>x. oj_id x = i) (objections d) = Some x" "oj_status x = ''pending''" "rid = fresh"
    "fresh \<notin> set (map ar_id (arbitrations d))"
    "\<And>c s. oj_annotation x = Some (c # s) \<Longrightarrow> decision = ''accepted'' \<Longrightarrow> check_current env d (c # s) = Inr ()"
    "d' = arbitrated_status (se_project env) (arbitrate_annotation (oj_annotation x) decision
       (log_semantic ''map_objection'' i ''resolve'' [(''decision'', JStr decision), (''actor'', JStr actor)]
         (settle_objection i d\<lparr>arbitrations := arbitrations d @
            [\<lparr>ar_id = fresh, ar_objection = i, ar_decision = decision, ar_resolution = resolution,
              ar_actor = actor\<rparr>]\<rparr>)))"
proof -
  obtain x where x: "find (\<lambda>x. oj_id x = i) (objections d) = Some x" "oj_status x = ''pending''"
    using assms by (auto simp: resolve_objection_def split: option.splits if_splits)
  have keep: "arbitrations (settle_objection i d) = arbitrations d" by (simp add: settle_objection_def)
  let ?check = "case oj_annotation x of
      Some (c # s) \<Rightarrow> if decision = ''accepted'' then check_current env d (c # s) else Inr () | _ \<Rightarrow> Inr ()"
  from assms x keep have rest: "?check = Inr ()" "fresh \<notin> set (map ar_id (arbitrations d))" "rid = fresh"
    "d' = arbitrated_status (se_project env) (arbitrate_annotation (oj_annotation x) decision
       (log_semantic ''map_objection'' i ''resolve'' [(''decision'', JStr decision), (''actor'', JStr actor)]
         (settle_objection i d\<lparr>arbitrations := arbitrations d @
            [\<lparr>ar_id = fresh, ar_objection = i, ar_decision = decision, ar_resolution = resolution,
              ar_actor = actor\<rparr>]\<rparr>)))"
    by (simp_all add: resolve_objection_def bind_result_Inr Let_def split: if_splits) (elim conjE, simp)
  show ?thesis by (rule that [OF x rest(3,2) _ rest(4)]) (use rest(1) in simp)
qed

lemma arbitrated_meta: "k \<in> own_keys \<Longrightarrow> meta_get (arbitrated_status pid d) k = meta_get d k"
  by (auto simp: arbitrated_status_def meta_simps dest: own_keysD)

lemma resolved_meta:
  assumes "resolve_objection env fresh i decision resolution actor d = Inr (rid, d')"
  shows "k \<in> own_keys \<Longrightarrow> meta_get d' k = meta_get d k" and "quiet d'"
  using assms
  by (cases rule: resolved_cases; simp add: arbitrated_quiet arbitrated_meta arbitrate_meta meta_simps
      settle_objection_def)+

section \<open>The scan and the map status\<close>

definition scanning :: "semantic_db \<Rightarrow> bool" where
  "scanning d \<longleftrightarrow> meta_get d ''scan_status'' = Some semantic_scanning"

lemma scanning_quiet: "scanning d \<Longrightarrow> quiet d"
  by (simp add: scanning_def quiet_def)

lemma release_meta:
  "k \<noteq> scan_key \<Longrightarrow> meta_get (release_run t d) k = meta_get d k"
  "pending_objections (release_run t d) = pending_objections d"
  by (simp_all add: release_run_def meta_simps)

lemma release_quiet: "quiet d \<Longrightarrow> quiet (release_run t d)"
  by (simp add: quiet_def release_meta)

lemma commit_quiet:
  assumes "commit_run_terminal pid t s st r d = (ok, d')" "quiet d"
    and "st \<in> {Some ready_status, Some ''completed''} \<Longrightarrow> pending_objections d = 0"
  shows "quiet d'"
  using assms
  by (auto simp: commit_run_terminal_def Let_def quiet_def meta_simps split: option.splits if_splits)

lemma commit_meta:
  assumes "commit_run_terminal pid t s st r d = (ok, d')" "k \<in> own_keys" "k \<noteq> scan_key"
  shows "meta_get d' k = meta_get d k"
  using assms by (auto simp: commit_run_terminal_def Let_def meta_simps dest: own_keysD split: option.splits if_splits)

lemma completed_scan_quiet:
  assumes "mark_scan_completed pid t sn d = (r, d')" "quiet d"
  shows "quiet d'"
proof -
  let ?tok = "if t \<noteq> [] then t else case sn_active_run sn of Some (c # s) \<Rightarrow> c # s | _ \<Rightarrow> meta_text d run_key"
  let ?st = "if pending_objections d \<noteq> 0 then needs_arbitration else ready_status"
  let ?why = "if pending_objections d \<noteq> 0 then ''pending_arbitration'' else ''semantic_scan_completed''"
  obtain ok d1 where c: "commit_run_terminal pid ?tok ''completed'' (Some ?st) ?why d = (ok, d1)" by force
  have "quiet d1" by (rule commit_quiet [OF c assms(2)]) (auto simp: needs_arbitration_def ready_status_def split: if_splits)
  moreover have "d' = d1 \<or> d' = release_run ?tok d"
    using assms(1) c by (auto simp: mark_scan_completed_def Let_def split: if_splits prod.splits bool.splits)
  ultimately show ?thesis using assms(2) release_quiet by auto
qed

lemma completed_scan_meta:
  assumes "mark_scan_completed pid t sn d = (r, d')" "k \<in> own_keys" "k \<noteq> scan_key"
  shows "meta_get d' k = meta_get d k"
proof -
  let ?tok = "if t \<noteq> [] then t else case sn_active_run sn of Some (c # s) \<Rightarrow> c # s | _ \<Rightarrow> meta_text d run_key"
  let ?st = "if pending_objections d \<noteq> 0 then needs_arbitration else ready_status"
  let ?why = "if pending_objections d \<noteq> 0 then ''pending_arbitration'' else ''semantic_scan_completed''"
  obtain ok d1 where c: "commit_run_terminal pid ?tok ''completed'' (Some ?st) ?why d = (ok, d1)" by force
  have "d' = d1 \<or> d' = release_run ?tok d"
    using assms(1) c by (auto simp: mark_scan_completed_def Let_def split: if_splits prod.splits bool.splits)
  then show ?thesis using commit_meta [OF c assms(2,3)] assms(3) release_meta(1) by auto
qed

lemma batches_scanning:
  assumes "scan_batches env b p r f d = (res, d')" "scanning d"
  shows "scanning d'"
  using scan_batches_meta [OF assms(1), of "''scan_status''"] assms(2) by (simp add: scanning_def)

lemma own_not_total: "k \<in> own_keys \<Longrightarrow> k \<notin> total_keys"
  using own_keysD by blast

text \<open>The body of a run, its failure included\<close>

lemma body_outcome:
  assumes "scan_body env None t sn p r f d = (res, d')" "scanning d"
  shows "quiet d'" and "k \<in> own_keys \<Longrightarrow> k \<noteq> scan_key \<Longrightarrow> meta_get d' k = meta_get d k"
    and "res = Inl e \<Longrightarrow> scanning d'"
proof -
  obtain out d1 where b: "scan_batches env default_budget p r f d = (out, d1)" by force
  have s: "scanning d1" by (rule batches_scanning [OF b assms(2)])
  have meta: "k \<in> own_keys \<Longrightarrow> meta_get d1 k = meta_get d k"
    using scan_batches_meta [OF b own_not_total [of k]] by simp
  have "(quiet d' \<and> (k \<in> own_keys \<longrightarrow> k \<noteq> scan_key \<longrightarrow> meta_get d' k = meta_get d k)
      \<and> (res = Inl e \<longrightarrow> scanning d'))"
  proof (cases out)
    case (Inl e')
    with assms(1) b s meta show ?thesis by (simp add: scan_body_def Let_def scanning_quiet)
  next
    case (Inr u)
    obtain r' d2 where m: "mark_scan_completed (se_project env) t sn d1 = (r', d2)" by force
    with assms(1) b Inr have "res = Inr r'" "d' = d2" by (simp_all add: scan_body_def Let_def)
    with completed_scan_quiet [OF m scanning_quiet [OF s]] completed_scan_meta [OF m, of k] meta
    show ?thesis by auto
  qed
  then show "quiet d'" "k \<in> own_keys \<Longrightarrow> k \<noteq> scan_key \<Longrightarrow> meta_get d' k = meta_get d k"
    "res = Inl e \<Longrightarrow> scanning d'" by auto
qed

lemma failed_outcome:
  assumes "scanning d"
  shows "quiet (scan_failed env t e d)"
    and "k \<in> own_keys \<Longrightarrow> k \<noteq> scan_key \<Longrightarrow> meta_get (scan_failed env t e d) k = meta_get d k"
proof -
  let ?d1 = "put_meta ''semantic_scan_remaining'' (int_str (int (open_spots d))) d"
  obtain ok d2 where c: "commit_run_terminal (se_project env) t ''failed'' (Some semantic_scanning) (error_name e) ?d1 = (ok, d2)"
    by force
  have s: "scanning ?d1" using assms by (simp add: scanning_def meta_simps)
  have q: "quiet d2" by (rule commit_quiet [OF c scanning_quiet [OF s]]) auto
  have keep: "k \<in> own_keys \<Longrightarrow> meta_get ?d1 k = meta_get d k" for k
    by (auto simp: meta_simps total_keys_def dest: own_keysD)
  have cases: "scan_failed env t e d \<in> {?d1, d2, release_run t d2}"
    using c by (auto simp: scan_failed_def Let_def split: bool.splits)
  then show "quiet (scan_failed env t e d)"
    using q scanning_quiet [OF s] release_quiet [OF q] by auto
  show "k \<in> own_keys \<Longrightarrow> k \<noteq> scan_key \<Longrightarrow> meta_get (scan_failed env t e d) k = meta_get d k"
    using cases commit_meta [OF c, of k] keep [of k] release_meta(1) [of k t d2] by auto
qed

lemma reset_totals_meta: "k \<notin> total_keys \<Longrightarrow> meta_get (reset_totals sn d) k = meta_get d k"
  by (auto simp: reset_totals_def meta_simps total_keys_def)

lemma run_acquired_outcome:
  assumes "run_acquired env None sn d = (r, d')" "scanning d"
  shows "quiet d'" and "k \<in> own_keys \<Longrightarrow> k \<noteq> scan_key \<Longrightarrow> meta_get d' k = meta_get d k"
proof -
  let ?d1 = "reset_totals sn d"
  let ?t = "case sn_active_run sn of Some (c # s) \<Rightarrow> c # s | _ \<Rightarrow> meta_text d run_key"
  have s: "scanning ?d1" using assms(2) by (simp add: scanning_def reset_totals_meta)
  have keep: "k \<in> own_keys \<Longrightarrow> meta_get ?d1 k = meta_get d k"
    using reset_totals_meta own_not_total by blast
  let ?tot = "bind_result (meta_int ?d1 ''semantic_scan_processed'') (\<lambda>p.
                   bind_result (meta_int ?d1 ''semantic_scan_routed'') (\<lambda>r.
                   bind_result (meta_int ?d1 ''semantic_scan_deferred'') (\<lambda>f. Inr (p, r, f))))"
  have "quiet d' \<and> (k \<in> own_keys \<longrightarrow> k \<noteq> scan_key \<longrightarrow> meta_get d' k = meta_get d k)"
  proof (cases ?tot)
    case (Inl e)
    with assms(1) have "d' = ?d1" by (simp add: run_acquired_def Let_def)
    with s keep show ?thesis by (simp add: scanning_quiet)
  next
    case (Inr x)
    obtain p q f where x: "x = (p, q, f)" by (cases x)
    obtain res d2 where b: "scan_body env None ?t sn p q f ?d1 = (res, d2)" by force
    note body = body_outcome [OF b s]
    show ?thesis
    proof (cases res)
      case (Inl e)
      with assms(1) Inr x b have d': "d' = scan_failed env ?t e d2" by (simp add: run_acquired_def Let_def)
      note failed = failed_outcome [OF body(3) [OF Inl], where env = env and t = ?t and e = e]
      show ?thesis using failed(1) failed(2) [of k] body(2) [of k] keep by (auto simp: d')
    next
      case (Inr r')
      with assms(1) \<open>?tot = Inr x\<close> x b have "d' = d2" by (simp add: run_acquired_def Let_def)
      with body(1) body(2) [of k] keep show ?thesis by auto
    qed
  qed
  then show "quiet d'" "k \<in> own_keys \<Longrightarrow> k \<noteq> scan_key \<Longrightarrow> meta_get d' k = meta_get d k" by auto
qed


section \<open>Run identifiers\<close>

definition seq_key :: string where
  "seq_key = ''semantic_scan_run_seq''"

text \<open>\<open>n\<close> run identifiers have been given out.\<close>

definition issued :: "semantic_db \<Rightarrow> int \<Rightarrow> bool" where
  "issued d n \<longleftrightarrow> 0 \<le> n \<and> (meta_text d seq_key = [] \<and> n = 0 \<or> meta_text d seq_key = int_str n)"

definition token_step :: "semantic_db \<Rightarrow> semantic_db \<Rightarrow> bool" where
  "token_step d d' \<longleftrightarrow> (\<forall>n. issued d n \<longrightarrow>
     (\<exists>n' \<ge> n. issued d' n' \<and> meta_text d' run_key \<in> {meta_text d run_key, []} \<union> int_str ` {n<..n'}))"

lemma token_refl: "token_step d d"
  by (auto simp: token_step_def)

lemma token_trans: "token_step d d' \<Longrightarrow> token_step d' d'' \<Longrightarrow> token_step d d''"
proof (unfold token_step_def, intro allI impI)
  fix n
  assume a: "\<forall>n. issued d n \<longrightarrow> (\<exists>n' \<ge> n. issued d' n' \<and> meta_text d' run_key \<in> {meta_text d run_key, []} \<union> int_str ` {n<..n'})"
    and b: "\<forall>n. issued d' n \<longrightarrow> (\<exists>n' \<ge> n. issued d'' n' \<and> meta_text d'' run_key \<in> {meta_text d' run_key, []} \<union> int_str ` {n<..n'})"
    and n: "issued d n"
  from a n obtain n1 where n1: "n1 \<ge> n" "issued d' n1" "meta_text d' run_key \<in> {meta_text d run_key, []} \<union> int_str ` {n<..n1}" by blast
  from b n1(2) obtain n2 where n2: "n2 \<ge> n1" "issued d'' n2" "meta_text d'' run_key \<in> {meta_text d' run_key, []} \<union> int_str ` {n1<..n2}" by blast
  have sub: "{n<..n1} \<subseteq> {n<..n2}" "{n1<..n2} \<subseteq> {n<..n2}" using n1(1) n2(1) by auto
  have "meta_text d'' run_key \<in> {meta_text d run_key, []} \<union> int_str ` {n<..n2}"
    using n1(3) n2(3) image_mono [OF sub(1), of int_str] image_mono [OF sub(2), of int_str]
    by (elim UnE insertE emptyE) (simp_all add: subset_iff)
  with n1(1) n2(1,2) show "\<exists>n' \<ge> n. issued d'' n' \<and> meta_text d'' run_key \<in> {meta_text d run_key, []} \<union> int_str ` {n<..n'}"
    by (intro exI [of _ n2]) simp
qed

lemma seq_own [simp]: "seq_key \<in> own_keys" "run_key \<in> own_keys" "seq_key \<noteq> scan_key" "run_key \<noteq> seq_key"
  "seq_key \<noteq> run_key" "''scan_status'' \<noteq> seq_key" "''semantic_scan_interrupted'' \<noteq> seq_key"
  "seq_key \<noteq> ''semantic_scan_interrupted''"
  by (simp_all add: own_keys_def seq_key_def scan_key_def run_key_def)

lemma token_same:
  "(\<And>k. k \<in> own_keys \<Longrightarrow> k \<noteq> scan_key \<Longrightarrow> meta_get d' k = meta_get d k) \<Longrightarrow> token_step d d'"
proof -
  assume "\<And>k. k \<in> own_keys \<Longrightarrow> k \<noteq> scan_key \<Longrightarrow> meta_get d' k = meta_get d k"
  then have "meta_text d' seq_key = meta_text d seq_key" "meta_text d' run_key = meta_text d run_key"
    by (simp_all add: meta_text_def seq_own(1,2,3))
  then show ?thesis by (simp add: token_step_def issued_def) blast
qed

lemma meta_int_issued: "issued d n \<Longrightarrow> meta_int d seq_key = Inr n"
proof -
  assume n: "issued d n"
  have "n = 0" if "meta_text d seq_key = []" using n that int_str_nonempty [of n] by (auto simp: issued_def)
  with n show ?thesis
    by (auto simp: issued_def meta_int_def meta_or_text simp del: py_int.simps)
qed

lemma put_other_text [simp]: "k' \<noteq> k \<Longrightarrow> meta_text (put_meta k v d) k' = meta_text d k'"
  "meta_text (put_meta k v d) k = v"
  by (simp_all add: meta_text_def meta_simps)

lemma allocate_token:
  assumes "allocate_run_id d = Inr (token, d')" "issued d n"
  shows "token = int_str (n + 1)" "issued d' (n + 1)" "d' = put_meta seq_key token d"
  using assms meta_int_issued [OF assms(2)]
  by (auto simp: allocate_run_id_def seq_key_def [symmetric] issued_def bind_result_Inr)

lemma choose_token:
  assumes "choose_run sn before d = Inr (sn', d')" "\<And>k. k \<noteq> scan_key \<Longrightarrow> meta_get before k = meta_get d k"
  shows "token_step d d'" "k \<notin> own_keys \<Longrightarrow> meta_get d' k = meta_get d k"
proof -
  have interrupted: "''semantic_scan_interrupted'' \<in> own_keys" "''semantic_scan_interrupted'' \<noteq> run_key"
    by (simp_all add: own_keys_def run_key_def)
  consider "d' = d" | "d' = put_meta ''semantic_scan_interrupted'' ''0'' d"
    | token d1 where "allocate_run_id d = Inr (token, d1)" "d' = put_meta run_key token d1"
    using assms(1) by (auto simp: choose_run_def Let_def bind_result_Inr split: if_splits)
  then have "token_step d d' \<and> (k \<notin> own_keys \<longrightarrow> meta_get d' k = meta_get d k)"
  proof cases
    case 2
    then show ?thesis
      using interrupted by (auto simp: meta_simps issued_def token_step_def meta_text_def)
  next
    case (3 token d1)
    have "\<exists>n' \<ge> n. issued d' n' \<and> meta_text d' run_key \<in> {meta_text d run_key, []} \<union> int_str ` {n<..n'}"
      if n: "issued d n" for n
      using allocate_token [OF 3(1) n] 3(2) n by (intro exI [of _ "n + 1"]) (auto simp: issued_def)
    moreover have "meta_get d' k = meta_get d k" if "k \<notin> own_keys"
      using that 3 seq_own by (auto simp: allocate_run_id_def bind_result_Inr meta_simps seq_key_def [symmetric])
    ultimately show ?thesis by (simp add: token_step_def)
  qed (simp add: token_refl)
  then show "token_step d d'" "k \<notin> own_keys \<Longrightarrow> meta_get d' k = meta_get d k" by auto
qed

lemma put_scan_token: "token_step d (put_meta scan_key v d)"
  by (rule token_same) (simp add: meta_simps)

lemma acquire_outcome:
  assumes "try_acquire_scan_lock pid sn d = (ok, sn', d')"
  shows "quiet d \<Longrightarrow> quiet d'" "token_step d d'" "ok = Inr True \<Longrightarrow> scanning d'"
proof -
  obtain r1 sn1 d1 where c: "claim_scan sn d = (r1, sn1, d1)" by (cases "claim_scan sn d") auto
  have claimed: "token_step d d1 \<and> (\<forall>k. k \<notin> own_keys \<longrightarrow> meta_get d1 k = meta_get d k)
      \<and> pending_objections d1 = pending_objections d"
  proof (cases "d1 = d")
    case False
    with c obtain sn2 where ch: "choose_run (sn\<lparr>sn_continuing := False, sn_resuming := False\<rparr>) d
        (put_meta scan_key ''running'' d) = Inr (sn2, d1)"
      by (auto simp: claim_scan_def Let_def split: if_splits sum.splits)
    have scan: "scan_key \<in> own_keys" by (simp add: own_keys_def)
    note chosen = choose_token [OF ch]
    have "token_step d d1"
      by (rule token_trans [OF put_scan_token chosen(1)]) (simp add: meta_simps)
    moreover have "meta_get d1 k = meta_get d k" if "k \<notin> own_keys" for k
      using chosen(2) [of k] that scan by (auto simp: meta_simps)
    moreover have "pending_objections d1 = pending_objections d"
      using ch by (auto simp: choose_run_def Let_def bind_result_Inr allocate_run_id_def meta_simps split: if_splits)
    ultimately show ?thesis by simp
  qed (simp add: token_refl)
  then have q1: "quiet d \<longrightarrow> quiet d1" by (simp add: quiet_def)
  have "(quiet d \<longrightarrow> quiet d') \<and> token_step d1 d' \<and> (ok = Inr True \<longrightarrow> scanning d')"
  proof (cases "r1 = Inr True")
    case False
    with assms(1) c q1 show ?thesis
      by (auto simp: try_acquire_scan_lock_def token_refl split: sum.splits bool.splits)
  next
    case True
    obtain b sn2 d2 where e: "enter_scanning pid sn1 d1 = (b, sn2, d2)" by (cases "enter_scanning pid sn1 d1") auto
    with assms(1) c True have eq: "d' = d2" "ok = Inr b" by (simp_all add: try_acquire_scan_lock_def)
    have "(quiet d \<longrightarrow> quiet d2) \<and> (b \<longrightarrow> scanning d2)"
      using e q1 by (auto simp: enter_scanning_def scanning_def quiet_def meta_simps split: if_splits)
    moreover have "token_step d1 d2"
      by (rule token_same) (use e in \<open>auto simp: enter_scanning_def meta_simps dest: own_keysD split: if_splits\<close>)
    ultimately show ?thesis by (simp add: eq)
  qed
  then show "quiet d \<Longrightarrow> quiet d'" "token_step d d'" "ok = Inr True \<Longrightarrow> scanning d'"
    using claimed token_trans by auto
qed

lemma run_scan_outcome:
  assumes "run_semantic_scan env None sn d = (r, sn', d')"
  shows "(quiet d \<longrightarrow> quiet d') \<and> token_step d d'"
proof (cases "scan_refused d")
  case (Some answer)
  with assms show ?thesis by (simp add: run_semantic_scan_def token_refl)
next
  case None
  obtain ok sn1 d1 where a: "try_acquire_scan_lock (se_project env) sn d = (ok, sn1, d1)"
    by (cases "try_acquire_scan_lock (se_project env) sn d") auto
  note acquired = acquire_outcome [OF a]
  show ?thesis
  proof (cases "ok = Inr True")
    case False
    with assms None a acquired show ?thesis
      by (auto simp: run_semantic_scan_def split: sum.splits bool.splits)
  next
    case True
    obtain r2 d2 where run: "run_acquired env None sn1 d1 = (r2, d2)" by force
    note outcome = run_acquired_outcome [OF run acquired(3) [OF True]]
    have "token_step d1 d2" by (rule token_same) (rule outcome(2))
    with assms None a True run outcome(1) acquired(2) show ?thesis
      by (auto simp: run_semantic_scan_def intro: token_trans)
  qed
qed


lemma recover_outcome: "(quiet d \<longrightarrow> quiet (recover_interrupted_scan d)) \<and> token_step d (recover_interrupted_scan d)"
proof
  show "quiet d \<longrightarrow> quiet (recover_interrupted_scan d)"
    by (simp add: recover_interrupted_scan_def quiet_def meta_simps)
  have "meta_text (recover_interrupted_scan d) k = meta_text d k" if "k \<in> {seq_key, run_key}" for k
    using that by (auto simp: recover_interrupted_scan_def run_key_def seq_key_def scan_key_def)
  then show "token_step d (recover_interrupted_scan d)" by (simp add: token_step_def issued_def) blast
qed

lemma open_outcome:
  assumes "open_existing_store env sn d = (r, sn', d')"
  shows "(quiet d \<longrightarrow> quiet d') \<and> token_step d d'"
proof -
  let ?d0 = "recover_interrupted_scan d"
  obtain ok sn1 d1 where m: "maybe_run_scan env sn ?d0 = (ok, sn1, d1)" by (cases "maybe_run_scan env sn ?d0") auto
  have "d1 = ?d0 \<or> (\<exists>r. run_semantic_scan env None sn ?d0 = (r, sn1, d1))"
    using m by (auto simp: maybe_run_scan_def split: if_splits sum.splits prod.splits)
  then have d1: "(quiet d \<longrightarrow> quiet d1) \<and> token_step d d1"
    using recover_outcome [of d] run_scan_outcome token_trans by blast
  have "d' = d1 \<or> d' = put_map_status (se_project env) ready_status ''migrated_completed_status'' d1
      \<and> meta_or d1 ''scan_status'' ''not_scanned'' = ''completed''"
    using assms m by (auto simp: open_existing_store_def Let_def split: sum.splits if_splits)
  moreover have "(quiet d \<longrightarrow> quiet d') \<and> token_step d1 d'"
    if "d' = put_map_status (se_project env) ready_status ''migrated_completed_status'' d1"
      "meta_or d1 ''scan_status'' ''not_scanned'' = ''completed''"
  proof -
    have "meta_get d1 ''scan_status'' = Some ''completed''"
      using that(2) meta_text_get [of "''completed''" d1] by (auto simp: meta_or_text split: if_splits)
    then have "quiet d \<longrightarrow> pending_objections d1 = 0" using d1 by (simp add: quiet_def)
    then have "quiet d \<longrightarrow> quiet d'" by (simp add: that(1) quiet_def meta_simps)
    moreover have "token_step d1 d'" by (rule token_same) (auto simp: that(1) meta_simps dest: own_keysD)
    ultimately show ?thesis ..
  qed
  ultimately show ?thesis using d1 token_trans by blast
qed

lemma rescan_tables_outcome:
  assumes "rescan_tables pid found d = Inr d'"
  shows "meta_get d' ''scan_status'' = Some ''structure_ready''" "meta_text d' run_key = []"
    "meta_text d' seq_key = meta_text d seq_key"
proof -
  have other: "meta_get d2 k = meta_get d1 k"
    if "replace_code_map es rs d1 = Inr d2 \<or> replace_static_blind_spots bs d1 = Inr d2" for es rs bs d1 d2 k
    using that by (auto simp: replace_code_map_def replace_static_blind_spots_def bind_result_Inr meta_simps)
  obtain d1 d2 where steps:
    "replace_code_map (sr_entities found) (sr_relations found)
       (put_map_status pid ''scanning_structure'' ''deterministic_scan_started'' d) = Inr d1"
    "replace_static_blind_spots (sr_spots found) d1 = Inr d2"
    "d' = pending_scan (put_map_status pid ''structure_ready'' ''deterministic_scan_completed'' d2)"
    using assms by (auto simp: rescan_tables_def bind_result_Inr)
  show "meta_get d' ''scan_status'' = Some ''structure_ready''" "meta_text d' run_key = []"
    by (simp_all add: steps(3) pending_scan_def meta_simps meta_text_def scan_key_def run_key_def)
  have "meta_get d' seq_key = meta_get d2 seq_key"
    by (simp add: steps(3) pending_scan_def meta_simps) (simp add: seq_key_def scan_key_def run_key_def)
  also have "\<dots> = meta_get d seq_key"
    using other [OF disjI1, OF steps(1)] other [OF disjI2, OF steps(2)]
    by (simp add: meta_simps) (simp add: seq_key_def)
  finally show "meta_text d' seq_key = meta_text d seq_key" by (simp add: meta_text_def)
qed

lemma rescan_outcome:
  assumes "rescan pid found d = (r, d')"
  shows "quiet d' \<and> token_step d d'"
proof (cases "bind_result found (\<lambda>f. rescan_tables pid f d)")
  case (Inl e)
  then have d': "d' = put_map_status pid ''failed'' (error_name e) d" using assms by (simp add: rescan_def Let_def)
  have "token_step d d'" by (rule token_same) (auto simp: d' meta_simps dest: own_keysD)
  then show ?thesis by (simp add: d' quiet_def meta_simps)
next
  case (Inr d1)
  then obtain f where f: "rescan_tables pid f d = Inr d'" using assms by (auto simp: rescan_def bind_result_Inr)
  from rescan_tables_outcome [OF f] show ?thesis
    by (simp add: quiet_def token_step_def issued_def) blast
qed

lemma project_outcome:
  assumes "rescan_project env found sn d = (r, sn', d')"
  shows "(quiet d \<longrightarrow> quiet d') \<and> token_step d d'"
proof -
  obtain r1 sn1 d1 where o: "open_existing_store env sn d = (r1, sn1, d1)" by (cases "open_existing_store env sn d") auto
  note opened = open_outcome [OF o]
  show ?thesis
  proof (cases r1)
    case (Inl e)
    with assms o opened show ?thesis by (simp add: rescan_project_def)
  next
    case (Inr x)
    obtain r2 d2 where s: "rescan (se_project env) found d1 = (r2, d2)" by force
    note scanned = rescan_outcome [OF s]
    from assms o Inr s have "d' = d2 \<or> run_semantic_scan env None sn1 d2 = (r, sn', d')"
      by (auto simp: rescan_project_def split: if_splits)
    then show ?thesis using run_scan_outcome scanned opened token_trans by blast
  qed
qed

lemma token_own: "(\<And>k. k \<in> own_keys \<Longrightarrow> meta_get d' k = meta_get d k) \<Longrightarrow> token_step d d'"
  by (rule token_same) auto

lemma batch_outcome:
  assumes "apply_code_changed_batch (\<lambda>files d. Inr (refresh_annotations env files codes d)) messages d = Inr (b, d')"
  shows "(quiet d \<longrightarrow> quiet d') \<and> (\<forall>k. meta_get d' k = meta_get d k)"
proof -
  let ?fresh = "filter (\<lambda>(i, _). i \<notin> set (applied_messages d)) messages"
  obtain qs where qs: "normalize_map_paths (concat (map snd ?fresh)) = Inr qs"
    using assms by (simp add: apply_code_changed_batch_def Let_def bind_result_Inr split: if_splits) blast
  let ?d1 = "if sort (remdups qs) = [] then d else refresh_annotations env (sort (remdups qs)) codes d"
  have "d' = ?d1\<lparr>applied_messages := applied_messages ?d1 @ map fst ?fresh\<rparr>"
    using assms qs by (cases "sort (remdups qs) = []")
      (simp_all add: apply_code_changed_batch_def Let_def split: if_splits)
  then obtain d1 where d1: "d1 = d \<or> (\<exists>files. d1 = refresh_annotations env files codes d)"
      "\<exists>ids. d' = d1\<lparr>applied_messages := ids\<rparr>"
    by (cases "sort (remdups qs) = []") auto
  from d1(1) have "(quiet d \<longrightarrow> quiet d1) \<and> (\<forall>k. meta_get d1 k = meta_get d k)"
    using refresh_quiet refresh_meta(1) by auto
  with d1(2) show ?thesis by (auto simp: quiet_def meta_simps pending_objections_def)
qed

lemma step_outcome:
  assumes "map_step forcing x y"
  shows "(quiet (snd x) \<longrightarrow> forcing \<or> quiet (snd y)) \<and> token_step (snd x) (snd y)"
  using assms
proof (induction rule: map_step.induct)
  case (recorded fresh source summary evidence model confidence hash status d a d' sn)
  then show ?case
    by (auto simp: record_semantic_annotation_def bind_result_Inr Let_def quiet_def meta_simps insert_annotation_meta
        insert_annotation_pending split: if_splits intro!: token_own)
next
  case (proposed env entity ids source summary evidence model confidence hash risk seed d a oid d' sn)
  with proposed_meta [OF proposed(1)] show ?case by (auto intro: token_own)
next
  case (raised pid fresh category related evidence suggestion annotation d oid d' sn)
  with raised_meta [OF raised(1)] show ?case by (auto intro: token_own)
next
  case (resolved env fresh i decision resolution actor d rid d' sn)
  with resolved_meta [OF resolved(1)] show ?case by (auto intro: token_own)
next
  case (refreshed sn d env files codes)
  then show ?case using refresh_quiet refresh_meta(1) by (auto intro: token_own)
next
  case (applied env codes messages d b d' sn)
  with batch_outcome [OF applied(1)] show ?case by (auto intro: token_own)
next
  case (completed pid t sn d r d')
  then show ?case using completed_scan_quiet [OF completed] completed_scan_meta [OF completed]
    by (auto intro!: token_same)
next
  case (degraded d reason r m sn)
  have eq: "d\<lparr>sd_plan := m\<rparr> = put_meta ''readiness_reason'' reason (put_meta ''scan_status'' ''stale'' d)"
    using degraded(1) by (auto simp: mark_map_degraded_def Let_def put_meta_def)
  show ?case unfolding snd_conv eq
    by (auto simp: quiet_def meta_simps intro!: token_own dest: own_keysD)
next
  case (marked pid d status reason rd m sn)
  have eq: "d\<lparr>sd_plan := m\<rparr> = put_map_status pid status reason d" and st: "status \<in> set map_statuses"
    using marked(1) by (auto simp: mark_map_status_def put_map_status_def Let_def split: if_splits)
  have "status \<noteq> ''completed''" using st by (auto simp: map_statuses_def)
  with marked(2) have "quiet d \<longrightarrow> forcing \<or> quiet (put_map_status pid status reason d)"
    by (auto simp: quiet_def meta_simps)
  moreover have "token_step d (put_map_status pid status reason d)"
    by (rule token_same) (auto simp: meta_simps dest: own_keysD)
  ultimately show ?case by (simp add: eq)
next
  case (planned m d sn)
  then show ?case by (auto simp: quiet_def meta_get_def pending_objections_def intro!: token_own)
qed (auto simp: token_refl dest: run_scan_outcome open_outcome rescan_outcome project_outcome)

lemma history_tokens:
  assumes "map_history forcing x y"
  shows "token_step (snd x) (snd y)"
  using assms
proof (induction rule: rtranclp_induct)
  case (step y z)
  with step_outcome [OF step(2)] show ?case by (auto intro: token_trans)
qed (simp add: token_refl)

lemma history_quiet:
  assumes "map_history False x y" "quiet (snd x)"
  shows "quiet (snd y)"
  using assms by (induction rule: rtranclp_induct) (auto dest: step_outcome)

end
