(* ===== verification/Scan_Completion.thy ===== *)
theory Scan_Completion
  imports Scan_History
begin

text \<open>
  A semantic scan that is taken comes to its end: when the generated identifiers are fresh and the
  details of the blind spots decode, every open blind spot is routed to a reviewer or deferred,
  and the map is ready exactly when no objection is pending. The witnesses of the scan's theorems
  run it on a small project.
\<close>

section \<open>Batches that cannot fail\<close>

definition open_ids :: "semantic_db \<Rightarrow> string set" where
  "open_ids d = bs_id ` {b \<in> set (blind_spots d). bs_status b = ''open''}"

definition routable :: "scan_env \<Rightarrow> semantic_db \<Rightarrow> bool" where
  "routable env d \<longleftrightarrow> unique_key bs_id (blind_spots d)
     \<and> (\<forall>b \<in> set (blind_spots d). bs_status b = ''open'' \<longrightarrow> bs_detail b \<noteq> None)
     \<and> inj_on (\<lambda>i. fst (se_ids env i)) (open_ids d) \<and> inj_on (\<lambda>i. snd (se_ids env i)) (open_ids d)
     \<and> (\<forall>i \<in> open_ids d. fst (se_ids env i) \<notin> an_id ` set (annotations d)
          \<and> snd (se_ids env i) \<notin> oj_id ` set (objections d))"

definition routed_spots :: "semantic_db \<Rightarrow> nat" where
  "routed_spots d = rowcount (\<lambda>b. bs_status b = ''routed'') (blind_spots d)"

lemma mark_spot_open:
  "st \<noteq> ''open'' \<Longrightarrow>
   {b \<in> set (mark_spot st i rows). bs_status b = ''open''} = {b \<in> set rows. bs_status b = ''open'' \<and> bs_id b \<noteq> i}"
proof -
  assume st: "st \<noteq> ''open''"
  show ?thesis using arg_cong [OF open_after_mark [OF st, of i rows], of set] by simp
qed

lemma mark_spot_unique: "unique_key bs_id (mark_spot st i rows) = unique_key bs_id rows"
  by (simp add: mark_spot_def table_simps)

lemma mark_spot_routed:
  assumes "unique_key bs_id rows" "b \<in> set rows" "bs_status b = ''open''" "st \<noteq> ''open''"
  shows "rowcount (\<lambda>x. bs_status x = ''routed'') (mark_spot st (bs_id b) rows)
    = rowcount (\<lambda>x. bs_status x = ''routed'') rows + (if st = ''routed'' then 1 else 0)"
  using assms
proof (induction rows)
  case (Cons x rows)
  show ?case
  proof (cases "x = b")
    case True
    have "bs_id y \<noteq> bs_id b" if "y \<in> set rows" for y
      using Cons.prems(1) True that by (simp add: unique_key_def) (metis imageI)
    then have "mark_spot st (bs_id b) rows = rows" unfolding mark_spot_def by (rule update_rows_none)
    with True Cons.prems show ?thesis by (simp add: mark_spot_def rowcount_def)
  next
    case False
    with Cons have "bs_id x \<noteq> bs_id b" "b \<in> set rows" "unique_key bs_id rows"
      by (auto simp: unique_key_def image_iff)
    with Cons.IH Cons.prems(3,4) show ?thesis by (cases "st = ''routed''") (simp_all add: mark_spot_def rowcount_def)
  qed
qed simp

lemma scan_row_ok:
  assumes "routable env d" "b \<in> set (blind_spots d)" "bs_status b = ''open''"
  obtains sent d' where "scan_row env b d = Inr (sent, d')" "routable env d'"
    "blind_spots d' = mark_spot (if sent then ''routed'' else ''deferred'') (bs_id b) (blind_spots d)"
    "pending_objections d' = pending_objections d + (if sent then 1 else 0)"
proof -
  have i: "bs_id b \<in> open_ids d" using assms(2,3) by (auto simp: open_ids_def)
  obtain detail where detail: "bs_detail b = Some detail"
    using assms by (cases "bs_detail b") (auto simp: routable_def)
  have keep: "routable env d'"
    if "blind_spots d' = mark_spot st (bs_id b) (blind_spots d)" "st \<noteq> ''open''"
      "set (map an_id (annotations d')) \<subseteq> insert (fst (se_ids env (bs_id b))) (set (map an_id (annotations d)))"
      "set (map oj_id (objections d')) \<subseteq> insert (snd (se_ids env (bs_id b))) (set (map oj_id (objections d)))"
    for d' st
  proof -
    have ids: "open_ids d' = open_ids d - {bs_id b}"
      by (auto simp: open_ids_def that(1) mark_spot_open [OF that(2)])
    have "bs_detail x \<noteq> None" if "x \<in> set (blind_spots d')" "bs_status x = ''open''" for x
      using that assms(1) mark_spot_open [OF \<open>st \<noteq> ''open''\<close>, of "bs_id b" "blind_spots d"]
      by (auto simp: routable_def \<open>blind_spots d' = _\<close>)
    moreover have "fst (se_ids env j) \<notin> an_id ` set (annotations d') \<and> snd (se_ids env j) \<notin> oj_id ` set (objections d')"
      if "j \<in> open_ids d'" for j
    proof -
      have j: "j \<in> open_ids d" "j \<noteq> bs_id b" using that ids by auto
      with i assms(1) have "fst (se_ids env j) \<noteq> fst (se_ids env (bs_id b))"
        "snd (se_ids env j) \<noteq> snd (se_ids env (bs_id b))"
        by (auto simp: routable_def dest: inj_onD)
      moreover have "fst (se_ids env j) \<notin> set (map an_id (annotations d))"
        "snd (se_ids env j) \<notin> set (map oj_id (objections d))"
        using j(1) assms(1) by (auto simp: routable_def)
      ultimately show ?thesis
        using \<open>set (map an_id _) \<subseteq> _\<close> \<open>set (map oj_id _) \<subseteq> _\<close> by (metis insert_iff set_map subsetD)
    qed
    ultimately show ?thesis
      using assms(1) by (auto simp: routable_def that(1) mark_spot_unique ids intro: inj_on_subset)
  qed
  show thesis
  proof (cases "if bs_file b = [] then None else source_entity d (bs_file b)")
    case None
    let ?d' = "set_spot ''deferred'' (bs_id b) d"
    have spots: "blind_spots ?d' = mark_spot ''deferred'' (bs_id b) (blind_spots d)"
      by (simp add: set_spot_def mark_spot_def)
    have "routable env ?d'" by (rule keep [OF spots]) auto
    with None spots show thesis
      by (intro that [of False ?d']) (simp_all add: scan_row_def meta_simps)
  next
    case (Some e)
    let ?i = "bs_id b" and ?ids = "se_ids env (bs_id b)"
    let ?ev = "[(''blind_spot_kind'', JStr (bs_kind b)), (''detail'', JObj detail)]"
    have fresh: "fst ?ids \<notin> an_id ` set (annotations d)" "snd ?ids \<notin> oj_id ` set (objections d)"
      using i assms(1) by (auto simp: routable_def)
    obtain d' where route: "route_blind_spot_to_review env ?i (ce_id e) (bs_file b) (spot_summary b) ?ev d = Inr d'"
        "set (map an_id (annotations d')) = insert (fst ?ids) (set (map an_id (annotations d)))"
        "set (map oj_id (objections d')) = insert (snd ?ids) (set (map oj_id (objections d)))"
        "pending_objections d' = pending_objections d + 1"
      using fresh by (cases ?ids) (auto simp: route_blind_spot_to_review_def insert_annotation_def
          insert_objection_def set_spot_def pending_objections_def rowcount_def)
    have row: "scan_row env b d = Inr (True, d')"
      using Some detail route(1) by (simp add: scan_row_def spot_detail_def)
    note spots = scan_row_spots [OF row]
    have "routable env d'" by (rule keep [of d' "''routed''"]) (use spots route in auto)
    with row spots route(4) show thesis by (intro that [of True d']) simp_all
  qed
qed

lemma scan_rows_ok:
  assumes "routable env d" "distinct (map bs_id bs)" "set bs \<subseteq> {b \<in> set (blind_spots d). bs_status b = ''open''}"
  shows "\<exists>r' f' d'. scan_rows env bs r f d = Inr (r', f', d') \<and> routable env d'
    \<and> pending_objections d' + routed_spots d = pending_objections d + routed_spots d'"
  using assms
proof (induction bs arbitrary: r f d)
  case (Cons b bs)
  then have b: "b \<in> set (blind_spots d)" "bs_status b = ''open''" by auto
  obtain sent d1 where row: "scan_row env b d = Inr (sent, d1)" "routable env d1"
    "blind_spots d1 = mark_spot (if sent then ''routed'' else ''deferred'') (bs_id b) (blind_spots d)"
    "pending_objections d1 = pending_objections d + (if sent then 1 else 0)"
    by (rule scan_row_ok [OF Cons.prems(1) b])
  have "routed_spots d1 = routed_spots d + (if sent then 1 else 0)"
    using Cons.prems(1) mark_spot_routed [OF _ b, of "if sent then ''routed'' else ''deferred''"]
    by (auto simp: routed_spots_def row(3) routable_def)
  moreover have "set bs \<subseteq> {b \<in> set (blind_spots d1). bs_status b = ''open''}"
    unfolding row(3) using Cons.prems(2,3) by (subst mark_spot_open) (auto simp: image_iff)
  then obtain r' f' d' where "scan_rows env bs (if sent then r + 1 else r) (if sent then f else f + 1) d1 = Inr (r', f', d')"
    "routable env d'" "pending_objections d' + routed_spots d1 = pending_objections d1 + routed_spots d'"
    using Cons.IH [OF row(2)] Cons.prems(2) by fastforce
  ultimately show ?case using row(1,4) by (intro exI [of _ r'] exI [of _ f'] exI [of _ d']) auto
qed simp

lemma batch_rows_distinct: "unique_key bs_id (blind_spots d) \<Longrightarrow> distinct (map bs_id (batch_rows budget d))"
proof -
  assume u: "unique_key bs_id (blind_spots d)"
  let ?sorted = "sort_key (\<lambda>b. (bs_file b, bs_id b)) (filter (\<lambda>b. bs_status b = ''open'') (blind_spots d))"
  have "distinct (map bs_id (filter (\<lambda>b. bs_status b = ''open'') (blind_spots d)))"
    using u by (simp add: unique_key_def distinct_map_filter)
  then have "distinct (map bs_id ?sorted)" by (simp add: distinct_map)
  then show ?thesis by (simp add: batch_rows_def take_map [symmetric])
qed

lemma run_batch_ok:
  assumes "routable env d"
  obtains b d' where "run_batch env budget d = Inr (b, d')" "routable env d'"
    "pending_objections d' + routed_spots d = pending_objections d + routed_spots d'"
proof -
  have "unique_key bs_id (blind_spots d)" using assms by (simp add: routable_def)
  from scan_rows_ok [OF assms batch_rows_distinct [OF this] batch_rows_open]
  obtain r f d' where "scan_rows env (batch_rows budget d) 0 0 d = Inr (r, f, d')" "routable env d'"
    "pending_objections d' + routed_spots d = pending_objections d + routed_spots d'" by blast
  then show thesis
    by (intro that [of "\<lparr>bt_processed = r + f, bt_routed = r, bt_deferred = f, bt_remaining = open_spots d'\<rparr>" d'])
      (simp_all add: run_batch_def)
qed

lemma totals_facts [simp]:
  "routable env (record_totals p r f n d) = routable env d" "routed_spots (record_totals p r f n d) = routed_spots d"
  "pending_objections (record_totals p r f n d) = pending_objections d"
  by (simp_all add: routable_def open_ids_def routed_spots_def pending_objections_def)

lemma scan_batches_ok:
  "routable env d \<Longrightarrow> \<exists>d'. scan_batches env budget p r f d = (Inr (), d') \<and> open_spots d' = 0
     \<and> pending_objections d' + routed_spots d = pending_objections d + routed_spots d'"
proof (induction env budget p r f d rule: scan_batches.induct)
  case (1 env budget p r f d)
  obtain b d1 where batch: "run_batch env budget d = Inr (b, d1)" "routable env d1"
    "pending_objections d1 + routed_spots d = pending_objections d + routed_spots d1"
    by (rule run_batch_ok [OF 1(2)])
  let ?d2 = "record_totals (p + int (bt_processed b)) (r + int (bt_routed b)) (f + int (bt_deferred b)) (bt_remaining b) d1"
  show ?case
  proof (cases "bt_remaining b = 0")
    case True
    with batch run_batch_open(1) [OF batch(1)] show ?thesis
      by (subst scan_batches.simps) (simp add: Let_def)
  next
    case False
    have "routable env ?d2" using batch(2) by simp
    from 1(1) [OF batch(1) refl refl refl refl refl False this] batch False show ?thesis
      by (subst scan_batches.simps) (auto simp: Let_def)
  qed
qed

section \<open>A scan that is taken\<close>

definition counters :: "semantic_db \<Rightarrow> bool" where
  "counters d \<longleftrightarrow> (\<exists>n. issued d n) \<and> (\<forall>k \<in> total_keys. \<exists>i. meta_int d k = Inr i)"

definition waiting_scan :: "semantic_db \<Rightarrow> bool" where
  "waiting_scan d \<longleftrightarrow> meta_get d ''scan_status'' \<in> Some ` {''structure_ready'', semantic_scanning}
     \<and> meta_get d scan_key \<in> Some ` {''pending'', ''not_started'', ''failed''}"

text \<open>The run has the scan: the markers are set and the tables are untouched.\<close>

definition taken :: "string \<Rightarrow> semantic_db \<Rightarrow> semantic_db \<Rightarrow> bool" where
  "taken t d d' \<longleftrightarrow> t \<noteq> [] \<and> meta_get d' run_key = Some t \<and> meta_get d' scan_key = Some ''running''
     \<and> scanning d' \<and> blind_spots d' = blind_spots d \<and> annotations d' = annotations d
     \<and> objections d' = objections d \<and> code_rows d' = code_rows d \<and> (\<forall>k \<in> total_keys. meta_get d' k = meta_get d k)"

lemma total_keysD:
  "k \<in> total_keys \<Longrightarrow> k \<noteq> scan_key \<and> k \<noteq> run_key \<and> k \<noteq> seq_key \<and> k \<noteq> ''scan_status'' \<and> k \<noteq> ''readiness_reason''
    \<and> k \<noteq> ''semantic_scan_interrupted''"
  by (auto simp: total_keys_def scan_key_def run_key_def seq_key_def)

lemma choose_run_taken:
  assumes "issued d n" "meta_get d scan_key = Some v"
  obtains sn' d' t where "choose_run sn d (put_meta scan_key ''running'' d) = Inr (sn', d')"
    "sn_active_run sn' = Some t" "t \<noteq> []" "meta_get d' run_key = Some t" "meta_get d' scan_key = Some ''running''"
    "blind_spots d' = blind_spots d" "annotations d' = annotations d" "objections d' = objections d"
    "code_rows d' = code_rows d" "meta_get d' ''scan_status'' = meta_get d ''scan_status''"
    "\<forall>k \<in> total_keys. meta_get d' k = meta_get d k"
proof -
  have other: "''semantic_scan_interrupted'' \<noteq> run_key" "''semantic_scan_interrupted'' \<noteq> scan_key"
    "''scan_status'' \<noteq> ''semantic_scan_interrupted''"
    by (simp_all add: run_key_def scan_key_def)
  let ?d1 = "put_meta scan_key ''running'' d"
  have int1: "meta_int ?d1 ''semantic_scan_run_seq'' = Inr n"
    using meta_int_issued [of ?d1 n] assms(1) by (simp add: issued_def seq_key_def)
  have run: "meta_get d run_key = Some (meta_text d run_key)" if "meta_text d run_key \<noteq> []"
    using that by (auto simp: meta_text_def split: option.splits)
  consider (continued) "meta_get d scan_key = Some ''failed''" "meta_text d run_key \<noteq> []"
    | (resumed) "\<not> (meta_get d scan_key = Some ''failed'' \<and> meta_text d run_key \<noteq> [])"
        "meta_get d ''semantic_scan_interrupted'' = Some ''1''" "meta_text d run_key \<noteq> []"
    | (fresh) "\<not> (meta_get d scan_key = Some ''failed'' \<and> meta_text d run_key \<noteq> [])"
        "\<not> (meta_get d ''semantic_scan_interrupted'' = Some ''1'' \<and> meta_text d run_key \<noteq> [])" by blast
  then show thesis
  proof cases
    case continued
    with run show thesis
      by (intro that [of "sn\<lparr>sn_continuing := True, sn_active_run := Some (meta_text d run_key)\<rparr>" ?d1])
        (auto simp: choose_run_def Let_def meta_simps dest: total_keysD)
  next
    case resumed
    with run show thesis
      by (intro that [of "sn\<lparr>sn_resuming := True, sn_active_run := Some (meta_text d run_key)\<rparr>"
            "put_meta ''semantic_scan_interrupted'' ''0'' ?d1"])
        (auto simp: choose_run_def Let_def meta_simps other other [symmetric] dest: total_keysD)
  next
    case fresh
    let ?t = "int_str (n + 1)"
    have "choose_run sn d ?d1 = Inr (sn\<lparr>sn_active_run := Some ?t\<rparr>,
        put_meta run_key ?t (put_meta ''semantic_scan_run_seq'' ?t ?d1))"
      using fresh by (auto simp: choose_run_def Let_def allocate_run_id_def int1)
    then show thesis
      by (rule that) (auto simp: meta_simps seq_key_def [symmetric] seq_own(3) [symmetric] dest: total_keysD)
  qed
qed

lemma acquire_taken:
  assumes "waiting_scan d" "counters d"
  obtains sn' d' t where "try_acquire_scan_lock pid sn d = (Inr True, sn', d')" "sn_active_run sn' = Some t" "taken t d d'"
proof -
  obtain n where n: "issued d n" using assms(2) by (auto simp: counters_def)
  obtain v where v: "meta_get d scan_key = Some v" using assms(1) by (auto simp: waiting_scan_def)
  have claim: "claimable_scan d"
    using assms(1) by (auto simp: waiting_scan_def claimable_scan_def meta_text_def)
  let ?sn = "sn\<lparr>sn_continuing := False, sn_resuming := False\<rparr>"
  show thesis
  proof (rule choose_run_taken [OF n v, of ?sn])
    fix sn' d' t
    assume ch: "choose_run ?sn d (put_meta scan_key ''running'' d) = Inr (sn', d')" "sn_active_run sn' = Some t" "t \<noteq> []"
      "meta_get d' run_key = Some t" "meta_get d' scan_key = Some ''running''" "blind_spots d' = blind_spots d"
      "annotations d' = annotations d" "objections d' = objections d" "code_rows d' = code_rows d"
      "meta_get d' ''scan_status'' = meta_get d ''scan_status''" "\<forall>k \<in> total_keys. meta_get d' k = meta_get d k"
    let ?d2 = "log_semantic ''project_map'' pid semantic_scanning [(''reason'', JStr ''semantic_scan_started'')]
              (put_meta ''readiness_reason'' ''semantic_scan_started'' (put_meta ''scan_status'' semantic_scanning d'))"
    have "try_acquire_scan_lock pid sn d = (Inr True, sn', ?d2)"
      using claim ch assms(1)
      by (simp add: try_acquire_scan_lock_def claim_scan_def Let_def enter_scanning_def waiting_scan_def)
    moreover have "taken t d ?d2"
      using ch(3-11) by (auto simp: taken_def scanning_def meta_simps dest: total_keysD)
    ultimately show thesis using ch(2) by (intro that)
  qed
qed

lemma waiting_not_refused: "waiting_scan d \<Longrightarrow> scan_refused d = None"
proof -
  assume w: "waiting_scan d"
  have "meta_text d ''scan_status'' \<in> {''structure_ready'', semantic_scanning}"
    "meta_text d scan_key \<in> {''pending'', ''not_started'', ''failed''}"
    using w by (auto simp: waiting_scan_def meta_text_def)
  then show ?thesis
    by (auto simp: scan_refused_def Let_def meta_or_text semantic_scanning_def)
qed

lemma reset_counters:
  assumes "counters d" "\<forall>k \<in> total_keys. meta_get d' k = meta_get d k" "k \<in> total_keys"
  shows "\<exists>i. meta_int (reset_totals sn d') k = Inr i"
proof -
  have "meta_text (reset_totals sn d') k = meta_text d k \<or> meta_text (reset_totals sn d') k = ''0''"
    using assms(2,3) by (auto simp: reset_totals_def meta_text_def meta_simps)
  moreover obtain i where "meta_int d k = Inr i" using assms(1,3) by (auto simp: counters_def)
  ultimately show ?thesis by (auto simp: meta_int_def meta_or_text simp del: py_int.simps)
qed

lemma run_acquired_ok:
  assumes "taken t d d1" "sn_active_run sn = Some t" "counters d" "routable env d"
  obtains r d2 where "run_acquired env None sn d1 = (Inr r, d2)" "open_spots d2 = 0"
    "meta_get d2 scan_key = Some ''completed''"
    "meta_get d2 ''scan_status'' = Some (if pending_objections d2 = 0 then ready_status else needs_arbitration)"
    "pending_objections d2 + routed_spots d = pending_objections d + routed_spots d2"
proof -
  let ?d1 = "reset_totals sn d1"
  have tables: "blind_spots ?d1 = blind_spots d" "annotations ?d1 = annotations d" "objections ?d1 = objections d"
    using assms(1) by (auto simp: taken_def reset_totals_def)
  have keys: "\<forall>k \<in> total_keys. meta_get d1 k = meta_get d k" using assms(1) by (simp add: taken_def)
  note ints = reset_counters [OF assms(3) keys, of _ sn]
  obtain p r f where totals: "meta_int ?d1 ''semantic_scan_processed'' = Inr p"
      "meta_int ?d1 ''semantic_scan_routed'' = Inr r" "meta_int ?d1 ''semantic_scan_deferred'' = Inr f"
    using ints [of "''semantic_scan_processed''"] ints [of "''semantic_scan_routed''"]
      ints [of "''semantic_scan_deferred''"] by (auto simp: total_keys_def)
  have "routable env ?d1" using assms(4) by (simp add: routable_def open_ids_def tables)
  then obtain d2 where batches: "scan_batches env default_budget p r f ?d1 = (Inr (), d2)" "open_spots d2 = 0"
      "pending_objections d2 + routed_spots ?d1 = pending_objections ?d1 + routed_spots d2"
    using scan_batches_ok by blast
  have meta: "meta_get d2 k = meta_get d1 k" if "k \<notin> total_keys" for k
    using scan_batches_meta [OF batches(1) that] reset_totals_meta [OF that] by simp
  let ?st = "if pending_objections d2 \<noteq> 0 then needs_arbitration else ready_status"
  let ?why = "if pending_objections d2 \<noteq> 0 then ''pending_arbitration'' else ''semantic_scan_completed''"
  let ?d3 = "snd (commit_run_terminal (se_project env) t ''completed'' (Some ?st) ?why d2)"
  have owns: "owns_run t (Some ?st) d2"
    using assms(1) by (simp add: owns_run_def taken_def scanning_def meta meta_text_def)
  have t: "t \<noteq> []" using assms(1) by (simp add: taken_def)
  have mark: "mark_scan_completed (se_project env) t sn d2 = (store_readiness ?d3 (Some ?st), ?d3)"
    using owns t by (simp add: mark_scan_completed_def Let_def commit_run_terminal_def)
  have run: "run_acquired env None sn d1 = (Inr (store_readiness ?d3 (Some ?st)), ?d3)"
    using assms(2) t totals batches(1) mark
    by (cases t) (simp_all add: run_acquired_def Let_def scan_body_def)
  have tables3: "open_spots ?d3 = 0" "routed_spots ?d3 = routed_spots d2" "pending_objections ?d3 = pending_objections d2"
    using owns batches(2)
    by (simp_all add: commit_run_terminal_def Let_def open_spots_def routed_spots_def pending_objections_def)
  have meta3: "meta_get ?d3 scan_key = Some ''completed''"
    "meta_get ?d3 ''scan_status'' = Some ?st"
    using owns by (simp_all add: commit_run_terminal_def Let_def meta_simps)
  have "routed_spots ?d1 = routed_spots d" "pending_objections ?d1 = pending_objections d"
    by (simp_all add: routed_spots_def pending_objections_def tables)
  then show thesis
    using batches(3) tables3 meta3 by (intro that [OF run]) (simp_all del: One_nat_def)
qed

lemma run_scan_completes:
  assumes "waiting_scan d" "counters d" "routable env d"
  obtains r sn' d' where "run_semantic_scan env None sn d = (Inr r, sn', d')" "open_spots d' = 0"
    "meta_get d' scan_key = Some ''completed''"
    "meta_get d' ''scan_status'' = Some (if pending_objections d' = 0 then ready_status else needs_arbitration)"
    "pending_objections d' + routed_spots d = pending_objections d + routed_spots d'"
proof -
  obtain sn1 d1 t where a: "try_acquire_scan_lock (se_project env) sn d = (Inr True, sn1, d1)"
      "sn_active_run sn1 = Some t" "taken t d d1"
    by (rule acquire_taken [OF assms(1,2)])
  obtain r d2 where run: "run_acquired env None sn1 d1 = (Inr r, d2)" "open_spots d2 = 0"
      "meta_get d2 scan_key = Some ''completed''"
      "meta_get d2 ''scan_status'' = Some (if pending_objections d2 = 0 then ready_status else needs_arbitration)"
      "pending_objections d2 + routed_spots d = pending_objections d + routed_spots d2"
    by (rule run_acquired_ok [OF a(3,2) assms(2,3)])
  have "run_semantic_scan env None sn d = (Inr r, sn1, d2)"
    by (simp add: run_semantic_scan_def waiting_not_refused [OF assms(1)] a(1) run(1))
  then show thesis using run(2-5) by (rule that)
qed

text \<open>
  C22. A semantic scan that waits to be run ends, whatever the number of blind spots, and it ends
  well when the generated identifiers are fresh and the details of the blind spots decode: no
  blind spot is left open, each one routed has its pending objection, and the map is ready
  exactly when no objection is pending, in need of arbitration otherwise.
\<close>

theorem scan_completes:
  assumes "waiting_scan d" "counters d" "routable env d"
  shows "\<exists>r sn' d'. run_semantic_scan env None sn d = (Inr r, sn', d') \<and> open_spots d' = 0
    \<and> meta_get d' scan_key = Some ''completed''
    \<and> meta_get d' ''scan_status'' = Some (if pending_objections d' = 0 then ready_status else needs_arbitration)
    \<and> pending_objections d' + routed_spots d = pending_objections d + routed_spots d'"
  using run_scan_completes [OF assms, of sn] by blast

section \<open>A project map\<close>

definition fresh_map :: semantic_db where
  "fresh_map = \<lparr>sd_plan = fold (\<lambda>(k, v) m. set_metadata m k v)
       [(''schema_version'', ''1''), (''store_kind'', ''plan''), (''project_id'', ''p''),
        (''scan_status'', ''not_scanned''), (scan_key, ''not_started''), (''readiness_reason'', ''not_scanned'')]
       (empty_map 0),
     code_rows = [], relations = [], blind_spots = [], annotations = [], objections = [], arbitrations = [],
     applied_messages = []\<rparr>"

definition sample_env :: scan_env where
  "sample_env = \<lparr>se_project = ''p'', se_hash = (\<lambda>f. ''hash of '' @ f),
     se_ids = (\<lambda>i. (''annotation-'' @ i, ''objection-'' @ i))\<rparr>"

definition sample_spot :: "string \<Rightarrow> string \<Rightarrow> blind_spot_row" where
  "sample_spot i f = \<lparr>bs_id = i, bs_kind = ''dynamic_import'', bs_file = f, bs_detail = Some [],
     bs_source = ''static'', bs_status = ''open''\<rparr>"

definition sample_file :: "string \<Rightarrow> code_row" where
  "sample_file f = \<lparr>ce_id = ''code-'' @ f, ce_path = f, ce_kind = ''file'', ce_name = f, ce_parent = None, ce_payload = []\<rparr>"

definition sample_found :: scan_result where
  "sample_found = \<lparr>sr_entities = [sample_file ''a.py''], sr_relations = [],
     sr_spots = [sample_spot ''s1'' ''a.py'', sample_spot ''s2'' ''gone.py'']\<rparr>"

definition structured_map :: semantic_db where
  "structured_map = snd (rescan ''p'' (Inr sample_found) fresh_map)"

definition scanned_map :: semantic_db where
  "scanned_map = snd (snd (run_semantic_scan sample_env None new_scanner structured_map))"

lemma structured_form:
  "structured_map = pending_scan (put_map_status ''p'' ''structure_ready'' ''deterministic_scan_completed''
     (put_map_status ''p'' ''scanning_structure'' ''deterministic_scan_started'' fresh_map
       \<lparr>code_rows := [sample_file ''a.py''], relations := [],
        blind_spots := [sample_spot ''s1'' ''a.py'', sample_spot ''s2'' ''gone.py'']\<rparr>))"
  by (simp add: structured_map_def rescan_def rescan_tables_def sample_found_def replace_code_map_def
      replace_static_blind_spots_def sample_file_def sample_spot_def)
    (simp add: fresh_map_def)

lemma structured_tables:
  "blind_spots structured_map = [sample_spot ''s1'' ''a.py'', sample_spot ''s2'' ''gone.py'']"
  "annotations structured_map = []" "objections structured_map = []"
  by (simp_all add: structured_form pending_scan_def) (simp_all add: fresh_map_def)

lemma structured_meta:
  "meta_get structured_map ''scan_status'' = Some ''structure_ready''" "meta_get structured_map scan_key = Some ''pending''"
  "meta_get structured_map run_key = Some []" "k \<in> total_keys \<Longrightarrow> meta_get structured_map k = Some ''0''"
  by (auto simp: structured_form pending_scan_def meta_simps total_keys_def run_key_def scan_key_def)

lemma structured_issued: "issued structured_map 0"
proof -
  have "meta_text structured_map seq_key = []"
    by (simp add: structured_form pending_scan_def meta_simps meta_text_def seq_key_def scan_key_def run_key_def)
      (simp add: fresh_map_def meta_get_def set_metadata_def empty_map_def scan_key_def)
  then show ?thesis by (simp add: issued_def)
qed

lemma structured_ready: "waiting_scan structured_map" "counters structured_map" "routable sample_env structured_map"
proof -
  show "waiting_scan structured_map" by (simp add: waiting_scan_def structured_meta)
  have "\<forall>k \<in> total_keys. meta_int structured_map k = Inr 0"
    by (simp add: meta_int_def meta_or_text meta_text_def structured_meta(4) del: py_int.simps)
  then show "counters structured_map" using structured_issued by (auto simp: counters_def)
  show "routable sample_env structured_map"
    by (simp add: routable_def open_ids_def structured_tables sample_spot_def unique_key_def sample_env_def inj_on_def)
qed

lemma scan_completes_witness:
  "\<exists>r sn' d'. run_semantic_scan sample_env None new_scanner structured_map = (Inr r, sn', d') \<and> open_spots d' = 0
    \<and> pending_objections d' = routed_spots d'"
  using scan_completes [OF structured_ready, of new_scanner]
  by (auto simp: pending_objections_def routed_spots_def structured_tables sample_spot_def rowcount_def)

section \<open>The promises\<close>

lemma no_pending_items: "pending_objections d = 0 \<Longrightarrow> list_arbitration_items d False = []"
  by (simp add: list_arbitration_items_def pending_objections_def rowcount_eq_0 filter_empty_conv
      flip: length_0_conv)

text \<open>
  C23. Whatever calls were made on a project map, scans that failed and files that changed
  included, as long as nobody called \<^verbatim>\<open>mark_map_status\<close> for ready while an objection was pending:
  when its status is ready, no objection is waiting for arbitration. That call does not look at
  the objections (\<open>forced_ready\<close>); the store itself makes it only when it migrates a map whose
  status is the old \<^verbatim>\<open>completed\<close>, which the same invariant covers.
\<close>

theorem ready_map_settled:
  assumes "map_history False (sn, d) (sn', d')" "quiet d" "meta_or d' ''scan_status'' ''not_scanned'' = ready_status"
  shows "pending_objections d' = 0 \<and> list_arbitration_items d' False = []
    \<and> rd_can_edit_plan (store_readiness d' None)"
proof -
  have "meta_get d' ''scan_status'' = Some ready_status"
    using assms(3) meta_text_get [of ready_status d' "''scan_status''"] status_values
    by (auto simp: meta_or_text ready_status_def split: if_splits)
  moreover have "quiet d'" using history_quiet [OF assms(1)] assms(2) by simp
  ultimately have none: "pending_objections d' = 0" by (simp add: quiet_def)
  moreover have "rd_can_edit_plan (store_readiness d' None)"
    using assms(3) by (simp add: store_readiness_def map_readiness_def scan_status_def meta_or_def
        readiness_from_values_def Let_def)
  ultimately show ?thesis by (simp add: no_pending_items)
qed

text \<open>
  C24. A run whose identifier was given out and is no longer the current one is fenced for good:
  after any calls, a forced status included, it can neither commit a terminal state nor give the marker back, and no later
  run is given its identifier.
\<close>

theorem superseded_run_fenced:
  assumes "map_history True (sn, d) (sn', d')" "issued d n" "1 \<le> k" "k \<le> n"
    and "meta_text d run_key \<noteq> int_str k"
  shows "\<not> owns_run (int_str k) st d'
    \<and> commit_run_terminal pid (int_str k) s st reason d' = (False, d')
    \<and> release_run (int_str k) d' = d'
    \<and> (\<forall>token d''. allocate_run_id d' = Inr (token, d'') \<longrightarrow> token \<noteq> int_str k)"
proof -
  have "token_step d d'" using history_tokens [OF assms(1)] by simp
  then obtain n' where n': "n' \<ge> n" "issued d' n'"
      "meta_text d' run_key \<in> {meta_text d run_key, []} \<union> int_str ` {n<..n'}"
    using assms(2) unfolding token_step_def by blast
  have "int_str k \<notin> int_str ` {n<..n'}"
    using assms(4) by (auto dest: int_str_inj)
  then have other: "meta_text d' run_key \<noteq> int_str k"
    using n'(3) assms(5) int_str_nonempty [of k] by (metis UnE empty_iff insertE)
  have "token \<noteq> int_str k" if "allocate_run_id d' = Inr (token, d'')" for token d''
    using allocate_token(1) [OF that n'(2)] n'(1) assms(4) by (auto dest: int_str_inj)
  with other show ?thesis
    by (auto simp: owns_run_def commit_run_terminal_def release_run_def)
qed

section \<open>Witnesses\<close>

definition disputed_map :: semantic_db where
  "disputed_map = (put_meta scan_key ''completed'' (put_meta ''scan_status'' needs_arbitration fresh_map))
     \<lparr>objections := [\<lparr>oj_id = ''objection'', oj_type = ''manual'', oj_nodes = [], oj_evidence = [],
        oj_suggestion = [], oj_annotation = None, oj_status = ''pending'', oj_created = 0, oj_resolved = None\<rparr>]\<rparr>"

definition resolved_map :: semantic_db where
  "resolved_map = (case resolve_objection sample_env ''arb'' ''objection'' ''rejected'' [] ''human'' disputed_map of
     Inr (_, d) \<Rightarrow> d | Inl _ \<Rightarrow> disputed_map)"

lemma disputed_quiet: "quiet disputed_map"
  by (simp add: disputed_map_def quiet_def meta_simps)

lemma disputed_tables:
  "objections disputed_map = [\<lparr>oj_id = ''objection'', oj_type = ''manual'', oj_nodes = [], oj_evidence = [],
        oj_suggestion = [], oj_annotation = None, oj_status = ''pending'', oj_created = 0, oj_resolved = None\<rparr>]"
  "arbitrations disputed_map = []" "meta_get disputed_map scan_key = Some ''completed''"
  by (simp_all add: disputed_map_def meta_simps fresh_map_def)

lemma disputed_resolves:
  "resolve_objection sample_env ''arb'' ''objection'' ''rejected'' [] ''human'' disputed_map = Inr (''arb'', resolved_map)"
  "meta_get resolved_map ''scan_status'' = Some ready_status"
  by (simp_all add: resolved_map_def resolve_objection_def disputed_tables settle_objection_def arbitrate_annotation_def
      arbitrated_status_def pending_objections_def rowcount_def meta_simps Let_def)

text \<open>
  \<^verbatim>\<open>mark_map_status\<close> accepts ready for the map with the pending objection, and the plan of the map
  can then be edited.
\<close>

lemma forced_ready:
  "mark_map_status pid (sd_plan disputed_map) ready_status reason
     = Inr (store_readiness (put_map_status pid ready_status reason disputed_map) None,
         sd_plan (put_map_status pid ready_status reason disputed_map))
   \<and> pending_objections (put_map_status pid ready_status reason disputed_map) = 1
   \<and> rd_can_edit_plan (store_readiness (put_map_status pid ready_status reason disputed_map) None)"
proof -
  let ?d = "put_map_status pid ready_status reason disputed_map"
  have "meta_get ?d ''scan_status'' = Some ready_status" by (simp add: meta_simps)
  then have status: "scan_status (sd_plan ?d) = ready_status"
    by (simp add: scan_status_def metadata_or_def meta_get_def ready_status_def split: option.splits)
  moreover have "map_readiness (sd_plan ?d) (Some ready_status) = store_readiness ?d None"
    using status by (simp add: store_readiness_def map_readiness_def)
  moreover have "pending_objections ?d = 1"
    by (simp add: pending_objections_def rowcount_def disputed_tables put_map_status_def)
  ultimately show ?thesis
    by (simp add: mark_map_status_def map_statuses_def ready_status_def put_map_status_def store_readiness_def
        map_readiness_def readiness_from_values_def Let_def)
qed

lemma ready_map_settled_witness:
  "map_history False (new_scanner, disputed_map) (new_scanner, resolved_map)
   \<and> pending_objections disputed_map = 1 \<and> pending_objections resolved_map = 0
   \<and> rd_can_edit_plan (store_readiness resolved_map None)"
proof -
  have history: "map_history False (new_scanner, disputed_map) (new_scanner, resolved_map)"
    by (rule r_into_rtranclp) (rule map_step.resolved [OF disputed_resolves(1)])
  have "meta_or resolved_map ''scan_status'' ''not_scanned'' = ready_status"
    by (simp add: meta_or_text meta_text_def disputed_resolves(2))
  from ready_map_settled [OF history disputed_quiet this] history show ?thesis
    by (simp add: pending_objections_def rowcount_def disputed_tables)
qed

lemma superseded_run_fenced_witness:
  "issued (put_meta seq_key (int_str 1) structured_map) 1
   \<and> \<not> owns_run (int_str 1) None
       (snd (snd (run_semantic_scan sample_env None new_scanner (put_meta seq_key (int_str 1) structured_map))))"
proof -
  let ?d = "put_meta seq_key (int_str 1) structured_map"
  obtain r sn' d' where run: "run_semantic_scan sample_env None new_scanner ?d = (r, sn', d')"
    by (cases "run_semantic_scan sample_env None new_scanner ?d") auto
  have history: "map_history True (new_scanner, ?d) (sn', d')"
    by (rule r_into_rtranclp) (rule map_step.scanned [OF run])
  have issued: "issued ?d 1" by (simp add: issued_def)
  have "meta_text ?d run_key \<noteq> int_str 1"
    using structured_meta(3) by (simp add: meta_text_def meta_simps) (metis int_str_nonempty)
  from superseded_run_fenced [OF history issued _ _ this, of None] issued run show ?thesis by simp
qed

end
