(* ===== verification/Arbitration_Properties.thy ===== *)
theory Arbitration_Properties
  imports Scan_Completion
begin

text \<open>
  Arbitration and change messages: an accepted annotation was made on the file as it is now, a
  change message is applied in at most one batch. The last section proves two states that the
  comments of the code exclude: a map made ready by an arbitration although its structure scan
  failed, and a map that waits for an arbitration nobody can give.
\<close>

section \<open>Accepting an annotation\<close>

lemma check_current_facts:
  assumes "check_current env d i = Inr ()"
  obtains a r where "a \<in> set (annotations d)" "an_id a = i" "an_status a \<noteq> ''stale''"
    "r \<in> set (code_rows d)" "ce_id r = an_source a" "an_file_hash a \<noteq> []"
    "an_file_hash a = se_hash env (before_symbol (ce_path r))"
proof -
  obtain a r where j: "joined_annotation d i = Some (a, r)"
    using assms by (auto simp: check_current_def split: option.splits)
  then have "find (\<lambda>a. an_id a = i \<and> (\<exists>r \<in> set (code_rows d). ce_id r = an_source a)) (annotations d) = Some a"
    "find (\<lambda>r. ce_id r = an_source a) (code_rows d) = Some r"
    by (auto simp: joined_annotation_def split: option.splits)
  from find_SomeD [OF this(1)] find_SomeD [OF this(2)] j assms show thesis
    by (intro that) (auto simp: check_current_def Let_def split: if_splits)
qed

lemma arbitrated_tables [simp]:
  "objections (arbitrated_status pid d) = objections d" "annotations (arbitrated_status pid d) = annotations d"
  "arbitrations (arbitrated_status pid d) = arbitrations d"
  by (simp_all add: arbitrated_status_def)

text \<open>
  C25. When an objection is resolved by accepting it, the annotation it is about exists, is not
  stale and carries the digest of its source file as the file is at that moment; it becomes
  active. The objection is resolved from then on, the decision is recorded once, and a second
  resolution is refused.
\<close>

theorem accepted_annotation_current:
  assumes "resolve_objection env fresh i ''accepted'' resolution actor d = Inr (rid, d')"
    and "find (\<lambda>x. oj_id x = i) (objections d) = Some x" "oj_annotation x = Some (c # s)"
    and "unique_key an_id (annotations d)"
  shows "(\<exists>a r. a \<in> set (annotations d) \<and> an_id a = c # s \<and> an_status a \<noteq> ''stale''
      \<and> r \<in> set (code_rows d) \<and> ce_id r = an_source a \<and> an_file_hash a \<noteq> []
      \<and> an_file_hash a = se_hash env (before_symbol (ce_path r))
      \<and> a\<lparr>an_status := ''active''\<rparr> \<in> set (annotations d'))
    \<and> length (arbitrations d') = length (arbitrations d) + 1
    \<and> resolve_objection env fresh' i decision resolution' actor' d'
        = Inl (ConflictError ''map_objection'' ''objection_already_resolved'')"
  using assms(1)
proof (cases rule: resolved_cases)
  case (1 x')
  then have x: "x' = x" using assms(2) by simp
  have "check_current env d (c # s) = Inr ()" using 1(5) [of c s] assms(3) by (simp add: x)
  then obtain a r where a: "a \<in> set (annotations d)" "an_id a = c # s" "an_status a \<noteq> ''stale''"
    "r \<in> set (code_rows d)" "ce_id r = an_source a" "an_file_hash a \<noteq> []"
    "an_file_hash a = se_hash env (before_symbol (ce_path r))"
    by (rule check_current_facts)
  have ann: "annotations d' = update_rows (\<lambda>a. an_id a = c # s) (\<lambda>a. a\<lparr>an_status := ''active''\<rparr>) (annotations d)"
    by (simp add: 1(6) x assms(3) arbitrate_annotation_def Let_def set_annotation_status_def settle_objection_def)
  have obj: "objections d' = update_rows (\<lambda>x. oj_id x = i)
      (\<lambda>x. x\<lparr>oj_status := ''resolved'', oj_resolved := Some (db_clock (verif (sd_plan d)))\<rparr>) (objections d)"
    by (simp add: 1(6) arbitrate_meta settle_objection_def)
  have "length (arbitrations d') = length (arbitrations d) + 1"
    by (simp add: 1(6) x assms(3) arbitrate_annotation_def Let_def set_annotation_status_def)
  moreover have "a\<lparr>an_status := ''active''\<rparr> \<in> set (annotations d')"
    using a(1,2) by (force simp: ann table_simps)
  moreover have "find (\<lambda>x. oj_id x = i) (objections d')
      = Some (x\<lparr>oj_status := ''resolved'', oj_resolved := Some (db_clock (verif (sd_plan d)))\<rparr>)"
    using assms(2) find_SomeD [OF assms(2)] by (simp add: obj find_update_rows)
  moreover have "\<exists>a r. a \<in> set (annotations d) \<and> an_id a = c # s \<and> an_status a \<noteq> ''stale''
      \<and> r \<in> set (code_rows d) \<and> ce_id r = an_source a \<and> an_file_hash a \<noteq> []
      \<and> an_file_hash a = se_hash env (before_symbol (ce_path r))
      \<and> a\<lparr>an_status := ''active''\<rparr> \<in> set (annotations d')"
    using a \<open>a\<lparr>an_status := ''active''\<rparr> \<in> set (annotations d')\<close> by (intro exI [of _ a] exI [of _ r] conjI)
  ultimately show ?thesis by (simp add: resolve_objection_def)
qed

definition noted_map :: semantic_db where
  "noted_map = disputed_map\<lparr>code_rows := [sample_file ''a.py''],
     annotations := [\<lparr>an_id = ''note'', an_source = ''code-a.py'', an_summary = [], an_evidence = [],
       an_model = ''m'', an_confidence = 1 / 2, an_file_hash = ''hash of a.py'', an_status = ''pending''\<rparr>],
     objections := [\<lparr>oj_id = ''objection'', oj_type = ''semantic_annotation'', oj_nodes = [], oj_evidence = [],
        oj_suggestion = [], oj_annotation = Some ''note'', oj_status = ''pending'', oj_created = 0, oj_resolved = None\<rparr>]\<rparr>"

lemma before_symbol_plain: "before_symbol ''a.py'' = ''a.py''"
  by code_simp

lemma noted_tables:
  "annotations noted_map = [\<lparr>an_id = ''note'', an_source = ''code-a.py'', an_summary = [], an_evidence = [],
       an_model = ''m'', an_confidence = 1 / 2, an_file_hash = ''hash of a.py'', an_status = ''pending''\<rparr>]"
  "objections noted_map = [\<lparr>oj_id = ''objection'', oj_type = ''semantic_annotation'', oj_nodes = [], oj_evidence = [],
        oj_suggestion = [], oj_annotation = Some ''note'', oj_status = ''pending'', oj_created = 0, oj_resolved = None\<rparr>]"
  "code_rows noted_map = [sample_file ''a.py'']" "arbitrations noted_map = []"
  "meta_get noted_map k = meta_get disputed_map k"
  by (simp_all add: noted_map_def disputed_tables meta_simps)

lemma noted_current: "check_current sample_env noted_map ''note'' = Inr ()"
  by (simp add: check_current_def joined_annotation_def noted_tables sample_file_def sample_env_def before_symbol_plain
      del: before_symbol.simps)

lemma noted_resolves:
  "\<exists>d'. resolve_objection sample_env ''arb'' ''objection'' ''accepted'' [] ''human'' noted_map = Inr (''arb'', d')"
  using noted_current by (simp add: resolve_objection_def noted_tables settle_objection_def Let_def)

lemma accepted_annotation_current_witness:
  "\<exists>d'. resolve_objection sample_env ''arb'' ''objection'' ''accepted'' [] ''human'' noted_map = Inr (''arb'', d')
     \<and> resolve_objection sample_env ''arb2'' ''objection'' ''rejected'' [] ''human'' d'
         = Inl (ConflictError ''map_objection'' ''objection_already_resolved'')"
proof -
  obtain d' where d': "resolve_objection sample_env ''arb'' ''objection'' ''accepted'' [] ''human'' noted_map = Inr (''arb'', d')"
    using noted_resolves by blast
  have "unique_key an_id (annotations noted_map)" by (simp add: noted_tables unique_key_def)
  with accepted_annotation_current [OF d', of _ "CHR ''n''" "''ote''" "''arb2''" "''rejected''" "[]" "''human''"] d'
  show ?thesis by (simp add: noted_tables)
qed

section \<open>Change messages\<close>

text \<open>Batches one after the other; a batch that raises changes nothing.\<close>

fun apply_batches ::
  "path_refresh \<Rightarrow> (string \<times> string list) list list \<Rightarrow> semantic_db \<Rightarrow> batch_result list \<times> semantic_db" where
  "apply_batches refresh [] d = ([], d)"
| "apply_batches refresh (ms # mss) d =
     (case apply_code_changed_batch refresh ms d of
        Inl _ \<Rightarrow> apply_batches refresh mss d
      | Inr (b, d1) \<Rightarrow> (case apply_batches refresh mss d1 of (bs, d2) \<Rightarrow> (b # bs, d2)))"

text \<open>A refresh of the code map leaves the receipts of the messages alone.\<close>

locale map_refresh =
  fixes refresh :: path_refresh
  assumes keeps_receipts: "refresh files d = Inr d' \<Longrightarrow> applied_messages d' = applied_messages d"
begin

lemma batch_facts:
  assumes "apply_code_changed_batch refresh ms d = Inr (b, d')"
  shows "applied_messages d' = applied_messages d @ br_applied b" "distinct (br_applied b)"
    "set (br_applied b) \<inter> set (applied_messages d) = {}"
    "set (br_applied b) \<union> set (br_duplicate b) = set (map fst ms)"
    "set (br_duplicate b) \<subseteq> set (applied_messages d)"
proof -
  let ?fresh = "filter (\<lambda>(i, _). i \<notin> set (applied_messages d)) ms"
  obtain qs where qs: "normalize_map_paths (concat (map snd ?fresh)) = Inr qs" and ok: "distinct (map fst ms)"
    using assms by (auto simp: apply_code_changed_batch_def Let_def bind_result_Inr split: if_splits)
  let ?n = "sort (remdups qs)"
  obtain d1 where d1: "(if ?n = [] then Inr d else refresh ?n d) = Inr d1"
    using assms qs by (auto simp: apply_code_changed_batch_def Let_def bind_result_Inr split: if_splits)
  then have same: "applied_messages d1 = applied_messages d"
    by (auto split: if_splits dest: keeps_receipts)
  have b: "br_applied b = map fst ?fresh" "br_duplicate b = filter (\<lambda>i. i \<in> set (applied_messages d)) (map fst ms)"
    "d' = d1\<lparr>applied_messages := applied_messages d @ map fst ?fresh\<rparr>"
    using assms qs d1 same
    by (auto simp: apply_code_changed_batch_def Let_def split: if_splits)
  show "applied_messages d' = applied_messages d @ br_applied b" by (simp add: b)
  show "distinct (br_applied b)" unfolding b(1) by (rule distinct_map_filter [OF ok])
  show "set (br_applied b) \<inter> set (applied_messages d) = {}" "set (br_duplicate b) \<subseteq> set (applied_messages d)"
    "set (br_applied b) \<union> set (br_duplicate b) = set (map fst ms)"
    by (auto simp: b image_iff)
qed

lemma batches_once:
  "apply_batches refresh mss d = (bs, d') \<Longrightarrow>
   distinct (concat (map br_applied bs)) \<and> set (concat (map br_applied bs)) \<inter> set (applied_messages d) = {}
   \<and> applied_messages d' = applied_messages d @ concat (map br_applied bs)
   \<and> (\<forall>b \<in> set bs. set (br_duplicate b) \<subseteq> set (applied_messages d'))"
proof (induction mss arbitrary: d bs)
  case (Cons ms mss)
  show ?case
  proof (cases "apply_code_changed_batch refresh ms d")
    case (Inl e)
    with Cons.prems have "apply_batches refresh mss d = (bs, d')" by simp
    then show ?thesis by (rule Cons.IH)
  next
    case (Inr x)
    obtain b d1 where x: "x = (b, d1)" by force
    obtain rest d2 where rest: "apply_batches refresh mss d1 = (rest, d2)" by force
    with Cons.prems Inr x have eq: "bs = b # rest" "d' = d2" by simp_all
    note facts = batch_facts [OF Inr [unfolded x]]
    note rest' = Cons.IH [OF rest [folded eq(2)]]
    have receipts: "applied_messages d' = applied_messages d @ concat (map br_applied bs)"
      using rest' facts(1) by (simp add: eq)
    have "\<forall>b' \<in> set rest. set (br_duplicate b') \<subseteq> set (applied_messages d')" using rest' by blast
    moreover have "set (br_duplicate b) \<subseteq> set (applied_messages d')"
      unfolding receipts using facts(5) by (simp add: le_supI1)
    ultimately have "\<forall>b' \<in> set bs. set (br_duplicate b') \<subseteq> set (applied_messages d')"
      by (simp add: eq(1))
    moreover have "distinct (concat (map br_applied bs)) \<and> set (concat (map br_applied bs)) \<inter> set (applied_messages d) = {}"
      using rest' facts by (auto simp: eq(1))
    ultimately show ?thesis using receipts by blast
  qed
qed simp

end

text \<open>The refresh of the annotations is such a refresh.\<close>

definition annotation_refresh :: "scan_env \<Rightarrow> code_row list \<Rightarrow> path_refresh" where
  "annotation_refresh env codes files d = Inr (refresh_annotations env files codes d)"

lemma reconcile_receipts: "applied_messages (fold (reconcile_snapshot env) snaps d) = applied_messages d"
proof (induction snaps arbitrary: d)
  case (Cons snap snaps)
  have "applied_messages (reconcile_snapshot env snap d) = applied_messages d"
    by (auto simp: reconcile_snapshot_def set_annotation_stale_def Let_def split: option.splits)
  with Cons show ?case by simp
qed simp

interpretation annotation_map: map_refresh "annotation_refresh env codes" for env codes
  by unfold_locales
    (auto simp: annotation_refresh_def refresh_annotations_def reconcile_annotations_after_refresh_def reconcile_receipts)

text \<open>
  Over any sequence of batches of change messages, batches that repeat messages or fail
  included, a message is applied at most once, a message applied before is never applied again,
  and exactly the applied messages get a receipt; a message reported as duplicate has one.
\<close>

theorem messages_applied_once:
  assumes "apply_batches (annotation_refresh env codes) mss d = (bs, d')"
  shows "distinct (concat (map br_applied bs)) \<and> set (concat (map br_applied bs)) \<inter> set (applied_messages d) = {}
    \<and> applied_messages d' = applied_messages d @ concat (map br_applied bs)
    \<and> (\<forall>b \<in> set bs. set (br_duplicate b) \<subseteq> set (applied_messages d'))"
  using assms by (rule annotation_map.batches_once)

lemma messages_applied_once_witness:
  "\<exists>bs d'. apply_batches (annotation_refresh sample_env []) [[(''m1'', []), (''m2'', [])], [(''m2'', []), (''m3'', [])]] fresh_map
      = (bs, d') \<and> map br_applied bs = [[''m1'', ''m2''], [''m3'']] \<and> distinct (concat (map br_applied bs))"
proof -
  let ?run = "apply_batches (annotation_refresh sample_env []) [[(''m1'', []), (''m2'', [])], [(''m2'', []), (''m3'', [])]] fresh_map"
  have run: "map br_applied (fst ?run) = [[''m1'', ''m2''], [''m3'']]"
    by (simp add: apply_code_changed_batch_def Let_def fresh_map_def)
  obtain bs d' where eq: "?run = (bs, d')" by force
  from messages_applied_once [OF eq] run eq show ?thesis by auto
qed

section \<open>Two states the comments exclude\<close>

text \<open>
  A structure scan that fails leaves the state of the semantic phase as it was; when that was
  completed, resolving the last objection overwrites the failed status by the ready status.
\<close>

definition failed_map :: semantic_db where
  "failed_map = snd (rescan ''p'' (Inl (BuiltinError ''OSError'')) disputed_map)"

lemma failed_scan_made_ready:
  "meta_get failed_map ''scan_status'' = Some ''failed''
   \<and> (\<exists>d'. resolve_objection sample_env ''arb'' ''objection'' ''rejected'' [] ''human'' failed_map = Inr (''arb'', d')
        \<and> meta_get d' ''scan_status'' = Some ready_status)"
  by (simp add: failed_map_def rescan_def Let_def meta_simps resolve_objection_def disputed_tables settle_objection_def
      arbitrate_annotation_def arbitrated_status_def pending_objections_def rowcount_def)

text \<open>
  When the file of an annotation changes, its objection is resolved with it, but the status of the
  map is not computed again: it still needs an arbitration, there is nothing to arbitrate, and
  the semantic scan is refused in this status.
\<close>

definition stranded_map :: semantic_db where
  "stranded_map = refresh_annotations (sample_env\<lparr>se_hash := (\<lambda>_. ''new'')\<rparr>) [''a.py''] [sample_file ''a.py''] noted_map"

lemma stranded_objections:
  "map oj_status (objections stranded_map) = [''resolved'']" "meta_get stranded_map k = meta_get noted_map k"
proof -
  have "sql_like ''a.py::%'' ''a.py'' = False" by code_simp
  then show "map oj_status (objections stranded_map) = [''resolved'']"
    by (simp add: stranded_map_def refresh_annotations_def reconcile_annotations_after_refresh_def
        collect_annotation_snapshots_def path_snapshots_def noted_tables sample_file_def in_file_def
        reconcile_snapshot_def set_annotation_stale_def rowcount_def Let_def before_symbol_plain del: before_symbol.simps)
  show "meta_get stranded_map k = meta_get noted_map k" by (simp add: stranded_map_def refresh_meta)
qed

lemma refresh_strands_arbitration:
  "meta_get stranded_map ''scan_status'' = Some needs_arbitration \<and> pending_objections stranded_map = 0
   \<and> list_arbitration_items stranded_map False = []
   \<and> scan_refused stranded_map = Some (Inl (scan_conflict ''semantic_scan_not_allowed''))
   \<and> (\<forall>decision. resolve_objection sample_env ''arb'' ''objection'' decision [] ''human'' stranded_map
        = Inl (ConflictError ''map_objection'' ''objection_already_resolved''))"
proof -
  obtain x where x: "objections stranded_map = [x]" "oj_status x = ''resolved''"
    using stranded_objections(1) by (cases "objections stranded_map") auto
  have status: "meta_get stranded_map ''scan_status'' = Some needs_arbitration"
    by (simp add: stranded_objections noted_tables) (simp add: disputed_map_def meta_simps)
  have none: "pending_objections stranded_map = 0" by (simp add: pending_objections_def rowcount_def x)
  have "oj_id x = ''objection''"
  proof -
    have "map oj_id (objections stranded_map) = [''objection'']"
      by (simp add: stranded_map_def refresh_annotations_def reconcile_annotations_after_refresh_def
        collect_annotation_snapshots_def path_snapshots_def noted_tables sample_file_def in_file_def
        reconcile_snapshot_def set_annotation_stale_def rowcount_def Let_def before_symbol_plain del: before_symbol.simps)
    then show ?thesis by (simp add: x)
  qed
  with status none x show ?thesis
    by (simp add: no_pending_items resolve_objection_def scan_refused_def Let_def meta_or_text meta_text_def
        needs_arbitration_def semantic_scanning_def)
qed

end
