(* ===== verification/Code_Map_Properties.thy ===== *)
theory Code_Map_Properties
  imports Code_Map Plan_Run
begin

text \<open>
  What the bounded queries on the code map promise: a search returns at most the asked number of
  nodes, all of them within the asked distance, and every node within that distance when it does
  not report a truncation; a read span never exceeds its character budget.
\<close>

section \<open>The nodes within a distance\<close>

primrec nearby :: "(string \<Rightarrow> string list) \<Rightarrow> nat \<Rightarrow> string set \<Rightarrow> string set" where
  "nearby adj 0 S = S"
| "nearby adj (Suc k) S = nearby adj k (S \<union> (\<Union>x \<in> S. set (adj x)))"

lemma nearby_mono: "S \<subseteq> T \<Longrightarrow> nearby adj k S \<subseteq> nearby adj k T"
proof (induction k arbitrary: S T)
  case (Suc k)
  then have "S \<union> (\<Union>x \<in> S. set (adj x)) \<subseteq> T \<union> (\<Union>x \<in> T. set (adj x))" by blast
  with Suc.IH show ?case by simp
qed simp

lemma nearby_base: "S \<subseteq> nearby adj k S"
proof (induction k arbitrary: S)
  case (Suc k)
  have "S \<union> (\<Union>x \<in> S. set (adj x)) \<subseteq> nearby adj (Suc k) S" using Suc.IH by simp
  then show ?case by blast
qed simp

lemma nearby_closed: "(\<Union>x \<in> S. set (adj x)) \<subseteq> S \<Longrightarrow> nearby adj k S = S"
  by (induction k) (simp_all add: Un_absorb2)

lemma nearby_iff:
  "v \<in> nearby adj k S \<longleftrightarrow> (\<exists>n \<le> k. \<exists>u \<in> S. (u, v) \<in> {(a, b). b \<in> set (adj a)} ^^ n)"
proof (induction k arbitrary: S)
  case 0
  show ?case by simp
next
  case (Suc k)
  let ?R = "{(a, b). b \<in> set (adj a)}"
  have "(\<exists>n \<le> k. \<exists>u \<in> S \<union> (\<Union>x \<in> S. set (adj x)). (u, v) \<in> ?R ^^ n)
      \<longleftrightarrow> (\<exists>n \<le> Suc k. \<exists>u \<in> S. (u, v) \<in> ?R ^^ n)" (is "?L \<longleftrightarrow> ?G")
  proof
    assume ?L
    then obtain n u where n: "n \<le> k" "(u, v) \<in> ?R ^^ n"
      and u: "u \<in> S \<or> (\<exists>x \<in> S. u \<in> set (adj x))" by auto
    from u show ?G
    proof
      assume "u \<in> S"
      with n show ?G by (intro exI [of _ n]) auto
    next
      assume "\<exists>x \<in> S. u \<in> set (adj x)"
      then obtain x where "x \<in> S" "(x, u) \<in> ?R" by auto
      with n show ?G by (intro exI [of _ "Suc n"]) (auto simp del: relpow.simps intro: relpow_Suc_I2)
    qed
  next
    assume ?G
    then obtain n u where n: "n \<le> Suc k" "u \<in> S" "(u, v) \<in> ?R ^^ n" by auto
    show ?L
    proof (cases n)
      case 0
      with n show ?L by (intro exI [of _ 0]) auto
    next
      case (Suc m)
      with n obtain x where "(u, x) \<in> ?R" "(x, v) \<in> ?R ^^ m" by (auto simp del: relpow.simps dest: relpow_Suc_D2)
      with n Suc show ?L by (intro exI [of _ m]) auto
    qed
  qed
  with Suc.IH show ?case by simp
qed

section \<open>The loops of a search\<close>

lemma add_linked_bound:
  assumes "add_linked limit ns seen nxt = (seen', nxt')" "length seen < limit"
  shows "length seen' \<le> limit"
  using assms by (induction limit ns seen nxt rule: add_linked.induct) (auto split: if_splits)

lemma add_linked_sound:
  assumes "add_linked limit ns seen nxt = (seen', nxt')"
  shows "set seen \<subseteq> set seen' \<and> set seen' \<subseteq> set seen \<union> set ns
    \<and> set nxt' = set nxt \<union> (set seen' - set seen) \<and> length seen \<le> length seen'
    \<and> (distinct seen \<longrightarrow> distinct seen')"
  using assms
  by (induction limit ns seen nxt rule: add_linked.induct) (auto split: if_splits)

lemma add_linked_complete:
  assumes "add_linked limit ns seen nxt = (seen', nxt')" "length seen' < limit"
  shows "set seen' = set seen \<union> set ns"
  using assms by (induction limit ns seen nxt rule: add_linked.induct) (auto split: if_splits)

lemma expand_bound:
  assumes "expand adj limit fs seen nxt = (seen', nxt')" "length seen < limit"
  shows "length seen' \<le> limit"
  using assms
  by (induction adj limit fs seen nxt rule: expand.induct)
    (auto split: if_splits prod.splits dest: add_linked_bound)

lemma expand_sound:
  assumes "expand adj limit fs seen nxt = (seen', nxt')"
  shows "set seen \<subseteq> set seen' \<and> set seen' \<subseteq> set seen \<union> (\<Union>x \<in> set fs. set (adj x))
    \<and> set nxt' = set nxt \<union> (set seen' - set seen) \<and> length seen \<le> length seen'
    \<and> (distinct seen \<longrightarrow> distinct seen')"
  using assms
proof (induction adj limit fs seen nxt rule: expand.induct)
  case (2 adj limit f fs seen nxt)
  obtain s1 n1 where a: "add_linked limit (adj f) seen nxt = (s1, n1)" by force
  note sound1 = add_linked_sound [OF a]
  show ?case
  proof (cases "limit \<le> length s1")
    case True
    with 2 a sound1 show ?thesis by auto
  next
    case False
    with 2 a have "expand adj limit fs s1 n1 = (seen', nxt')" by simp
    from 2(1) [OF a [symmetric] False this] sound1 show ?thesis by auto
  qed
qed simp

lemma expand_complete:
  assumes "expand adj limit fs seen nxt = (seen', nxt')" "length seen' < limit"
  shows "set seen' = set seen \<union> (\<Union>x \<in> set fs. set (adj x))"
  using assms
proof (induction adj limit fs seen nxt rule: expand.induct)
  case (2 adj limit f fs seen nxt)
  obtain s1 n1 where a: "add_linked limit (adj f) seen nxt = (s1, n1)" by force
  have "length s1 < limit" using 2(2,3) a by (auto split: if_splits)
  with 2 a show ?case by (auto simp: add_linked_complete [OF a])
qed simp

lemma search_bound:
  "length (bounded_search adj limit k fs seen) \<le> max limit (length seen)"
proof (induction adj limit k fs seen rule: bounded_search.induct)
  case (2 adj limit k fs seen)
  obtain s1 n1 where e: "expand adj limit fs seen [] = (s1, n1)" by force
  show ?case
  proof (cases "limit \<le> length seen")
    case False
    with e have "length s1 \<le> limit" by (auto dest: expand_bound)
    with 2 [OF False e [symmetric]] e False show ?thesis by simp
  qed simp
qed simp

lemma search_keeps: "set seen \<subseteq> set (bounded_search adj limit k fs seen)
    \<and> length seen \<le> length (bounded_search adj limit k fs seen)
    \<and> (distinct seen \<longrightarrow> distinct (bounded_search adj limit k fs seen))"
proof (induction adj limit k fs seen rule: bounded_search.induct)
  case (2 adj limit k fs seen)
  obtain s1 n1 where e: "expand adj limit fs seen [] = (s1, n1)" by force
  from 2 [OF _ e [symmetric]] e expand_sound [OF e] show ?case by auto
qed simp

lemma search_sound:
  "set fs \<subseteq> set seen \<Longrightarrow> set (bounded_search adj limit k fs seen) \<subseteq> nearby adj k (set seen)"
proof (induction adj limit k fs seen rule: bounded_search.induct)
  case (2 adj limit k fs seen)
  obtain s1 n1 where e: "expand adj limit fs seen [] = (s1, n1)" by force
  show ?case
  proof (cases "limit \<le> length seen")
    case True
    then show ?thesis using nearby_base [of "set seen" adj "Suc k"] by simp
  next
    case False
    have "(\<Union>x \<in> set fs. set (adj x)) \<subseteq> (\<Union>x \<in> set seen. set (adj x))" using 2(2) by blast
    then have s1: "set s1 \<subseteq> set seen \<union> (\<Union>x \<in> set seen. set (adj x))" "set n1 \<subseteq> set s1"
      using expand_sound [OF e] by (blast, simp)
    from 2(1) [OF False e [symmetric] s1(2)] nearby_mono [OF s1(1), of adj k] False e
    show ?thesis by simp
  qed
qed simp

lemma search_complete:
  assumes "set fs \<subseteq> set seen" "\<And>x. x \<in> set seen - set fs \<Longrightarrow> set (adj x) \<subseteq> set seen"
    and "length (bounded_search adj limit k fs seen) < limit"
  shows "set (bounded_search adj limit k fs seen) = nearby adj k (set seen)"
  using assms
proof (induction adj limit k fs seen rule: bounded_search.induct)
  case (2 adj limit k fs seen)
  obtain s1 n1 where e: "expand adj limit fs seen [] = (s1, n1)" by force
  have small: "length seen < limit" using 2(4) by (auto split: if_splits)
  with 2(4) e have result: "bounded_search adj limit (Suc k) fs seen = bounded_search adj limit k n1 s1" by simp
  with 2(4) have s1_small: "length s1 < limit"
    using search_keeps [of s1 adj limit k n1] by simp
  have s1: "set s1 = set seen \<union> (\<Union>x \<in> set fs. set (adj x))" by (rule expand_complete [OF e s1_small])
  moreover have "(\<Union>x \<in> set seen. set (adj x)) \<subseteq> set seen \<union> (\<Union>x \<in> set fs. set (adj x))"
    using 2(3) by blast
  ultimately have ball: "set s1 = set seen \<union> (\<Union>x \<in> set seen. set (adj x))" using 2(2) by auto
  have n1: "set n1 = set s1 - set seen" using expand_sound [OF e] by simp
  have closed: "set (adj x) \<subseteq> set s1" if "x \<in> set s1 - set n1" for x
    using that s1 n1 2(3) [of x] by (cases "x \<in> set fs") auto
  have "set (bounded_search adj limit k n1 s1) = nearby adj k (set s1)"
    by (rule 2(1) [OF _ e [symmetric] _ closed]) (use small n1 2(4) result in auto)
  with result ball show ?case by simp
qed simp

text \<open>Leaving the loop when the frontier is empty changes nothing.\<close>

lemma search_no_frontier: "bounded_search adj limit k [] seen = seen"
  by (induction k) auto

lemma seed_search_eq: "seed_search adj limit k fs seen = bounded_search adj limit k fs seen"
  by (induction adj limit k fs seen rule: seed_search.induct)
    (auto simp: search_no_frontier split: prod.splits)

section \<open>Subgraphs\<close>

definition link_relation :: "semantic_db \<Rightarrow> (string \<times> string) set" where
  "link_relation d = {(a, b). \<exists>r \<in> set (relations d).
     (rl_source r = a \<and> rl_target r = b) \<or> (rl_source r = b \<and> rl_target r = a)}"

lemma linked_iff: "b \<in> set (linked d a) \<longleftrightarrow> (a, b) \<in> link_relation d"
  by (auto simp: linked_def link_relation_def)

lemma link_relation_eq: "{(a, b). b \<in> set (linked d a)} = link_relation d"
  by (auto simp: linked_iff)

lemma node_limit_pos: "1 \<le> node_limit n"
  by (simp add: node_limit_def nat_le_iff)

lemma nearby_links:
  "nearby (linked d) k {i} = {v. \<exists>n \<le> k. (i, v) \<in> link_relation d ^^ n}"
  by (simp add: set_eq_iff nearby_iff link_relation_eq)

lemma subgraph_ids_bound: "length (subgraph_ids d i depth max_nodes) \<le> node_limit max_nodes"
  using search_bound [of "linked d" "node_limit max_nodes" "depth_limit depth" "[i]" "[i]"]
    node_limit_pos [of max_nodes]
  by (simp add: subgraph_ids_def max_def split: if_splits)

lemma subgraph_ids_near: "set (subgraph_ids d i depth max_nodes) \<subseteq> nearby (linked d) (depth_limit depth) {i}"
  using search_sound [of "[i]" "[i]" "linked d" "node_limit max_nodes" "depth_limit depth"]
  by (simp add: subgraph_ids_def)

lemma subgraph_ids_exact:
  "length (subgraph_ids d i depth max_nodes) < node_limit max_nodes \<Longrightarrow>
   set (subgraph_ids d i depth max_nodes) = nearby (linked d) (depth_limit depth) {i}"
  using search_complete [of "[i]" "[i]" "linked d" "node_limit max_nodes" "depth_limit depth"]
  by (simp add: subgraph_ids_def)

text \<open>
  C32. A subgraph query answers with at most the asked number of nodes (clamped to 1..200), all
  of them within the asked number of hops (clamped to 0..5) of the center; when it does not
  report a truncation its nodes are exactly the entities within that distance, of the asked
  kinds, and its edges exactly the relations between identifiers within that distance.
\<close>

theorem subgraph_exact:
  fixes i :: string and kinds :: "string list" and depth max_nodes :: int
  assumes "unique_key ce_id (code_rows d)"
  defines "q \<equiv> query_subgraph d i depth max_nodes kinds"
    and "ball \<equiv> {v. \<exists>n \<le> depth_limit depth. (i, v) \<in> link_relation d ^^ n}"
  shows "length (sg_nodes q) \<le> node_limit max_nodes
    \<and> (\<forall>r \<in> set (sg_nodes q). ce_id r \<in> ball \<and> of_kind kinds r)
    \<and> (\<not> sg_truncated q \<longrightarrow>
         sg_nodes q = filter (\<lambda>r. ce_id r \<in> ball \<and> of_kind kinds r) (code_rows d)
       \<and> sg_edges q = filter (\<lambda>r. rl_source r \<in> ball \<and> rl_target r \<in> ball) (relations d))"
proof (intro conjI impI)
  let ?ids = "subgraph_ids d i depth max_nodes"
  have nodes: "sg_nodes q = filter (\<lambda>r. ce_id r \<in> set ?ids \<and> of_kind kinds r) (code_rows d)"
    and edges: "sg_edges q = filter (\<lambda>r. rl_source r \<in> set ?ids \<and> rl_target r \<in> set ?ids) (relations d)"
    and cut: "sg_truncated q \<longleftrightarrow> node_limit max_nodes \<le> length ?ids"
    by (simp_all add: q_def query_subgraph_def Let_def)
  have "distinct (map ce_id (sg_nodes q))"
    using assms(1) by (simp add: nodes unique_key_def distinct_map_filter)
  then have "length (sg_nodes q) = card (ce_id ` set (sg_nodes q))"
    using distinct_card by fastforce
  also have "\<dots> \<le> card (set ?ids)" by (rule card_mono) (auto simp: nodes)
  also have "\<dots> \<le> node_limit max_nodes"
    using subgraph_ids_bound [of d i depth max_nodes] card_length [of ?ids] by linarith
  finally show "length (sg_nodes q) \<le> node_limit max_nodes" .
  show "\<forall>r \<in> set (sg_nodes q). ce_id r \<in> ball \<and> of_kind kinds r"
    using subgraph_ids_near [of d i depth max_nodes] by (auto simp: nodes ball_def nearby_links)
  assume "\<not> sg_truncated q"
  then have "set ?ids = ball" unfolding ball_def cut nearby_links [symmetric] by (intro subgraph_ids_exact) simp
  then show "sg_nodes q = filter (\<lambda>r. ce_id r \<in> ball \<and> of_kind kinds r) (code_rows d)"
    and "sg_edges q = filter (\<lambda>r. rl_source r \<in> ball \<and> rl_target r \<in> ball) (relations d)"
    by (simp_all add: nodes edges)
qed

definition module :: "string \<Rightarrow> code_row" where
  "module i = \<lparr>ce_id = i, ce_path = i @ ''.py'', ce_kind = ''file'', ce_name = i, ce_parent = None, ce_payload = []\<rparr>"

definition sample_code :: semantic_db where
  "sample_code = \<lparr>sd_plan = empty_map 0, code_rows = map module [''a'', ''b'', ''c'', ''d''],
     relations = [\<lparr>rl_source = ''a'', rl_target = ''b'', rl_kind = ''imports''\<rparr>,
                  \<lparr>rl_source = ''c'', rl_target = ''b'', rl_kind = ''imports''\<rparr>,
                  \<lparr>rl_source = ''c'', rl_target = ''d'', rl_kind = ''imports''\<rparr>],
     blind_spots = [], annotations = [], objections = [], arbitrations = [], applied_messages = []\<rparr>"

lemma sample_unique: "unique_key ce_id (code_rows sample_code)"
  by (simp add: sample_code_def unique_key_def module_def)

lemma sample_not_truncated: "\<not> sg_truncated (query_subgraph sample_code ''a'' 2 50 [])"
  by code_simp

lemma sample_nodes: "map ce_id (sg_nodes (query_subgraph sample_code ''a'' 2 50 [])) = [''a'', ''b'', ''c'']"
  by code_simp

lemma subgraph_exact_witness:
  "sg_nodes (query_subgraph sample_code ''a'' 2 50 []) =
     filter (\<lambda>r. (\<exists>n \<le> depth_limit 2. (''a'', ce_id r) \<in> link_relation sample_code ^^ n) \<and> of_kind [] r)
       (code_rows sample_code)
   \<and> map ce_id (sg_nodes (query_subgraph sample_code ''a'' 2 50 [])) = [''a'', ''b'', ''c'']"
  using subgraph_exact [OF sample_unique, of "''a''" 2 50 "[]"] sample_not_truncated sample_nodes
  unfolding mem_Collect_eq by blast

section \<open>Spans\<close>

lemma read_span_bounded:
  "read_span files d i max_tokens = Inr s \<Longrightarrow> length (sp_content s) \<le> char_budget max_tokens"
  unfolding read_span_def bind_result_Inr Let_def
  by (elim exE conjE) (auto simp: bind_result_Inr split: option.splits if_splits)

lemma char_budget_bounds: "2000 \<le> char_budget n" "char_budget n \<le> 128000"
  by (simp_all add: char_budget_def nat_le_iff)

end
