(* ===== verification/Unified_Diff.thy ===== *)
theory Unified_Diff
  imports Py_Text Canonical_Properties
begin

text \<open>
  Patches as unified diffs (\<^verbatim>\<open>agent/tools/unified_diff.py\<close>): parsing a diff, applying its
  hunks to a text and validating a patch for a path. The recovery hints are texts chosen by the
  error text.
\<close>

section \<open>Hunks\<close>

record diff_hunk =
  dh_old_start :: nat
  dh_old_count :: nat
  dh_new_start :: nat
  dh_new_count :: nat
  dh_context :: "string list"
  dh_added :: "string list"
  dh_removed :: "string list"
  dh_old_lines :: "string list"
  dh_new_lines :: "string list"
  dh_no_newline :: bool

record parsed_diff =
  pd_hunks :: "diff_hunk list"
  pd_old_path :: string
  pd_new_path :: string

record dry_run_result =
  dr_valid :: bool
  dr_hunk_count :: nat
  dr_added_lines :: nat
  dr_removed_lines :: nat
  dr_new_text :: string
  dr_error :: string

record validation_result =
  vr_valid :: bool
  vr_error :: string
  vr_recovery_hint :: string
  vr_dry_run :: "dry_run_result option"

definition recovery_hint_for_error :: "string \<Rightarrow> string \<Rightarrow> string" where
  "recovery_hint_for_error err change_type =
     (let l = lower err in
      if occurs_in ''empty diff'' l
      then ''Provide a unified diff with ---/+++ headers and at least one @@ hunk.''
      else if occurs_in ''no hunks'' l
      then ''Include one or more @@ -old,+new @@ hunks with context lines.''
      else if occurs_in ''invalid hunk header'' l
      then ''Use @@ -<start>,<count> +<start>,<count> @@ with matching context lines.''
      else if occurs_in ''context'' l \<and> occurs_in ''mismatch'' l
      then ''Re-read the file and align diff context lines exactly with the current content.''
      else if occurs_in ''add diff must not contain removed'' l
      then ''For add, only + lines are allowed; use modify to change an existing file.''
      else if occurs_in ''cannot add file that already exists'' l
      then ''Use change_type modify with a patch against the existing file content.''
      else if occurs_in ''cannot modify file that does not exist'' l
      then ''Use change_type add with a new-file diff (--- /dev/null).''
      else if occurs_in ''cannot remove file that does not exist'' l
      then ''Only remove paths that exist under the sandbox workspace.''
      else if occurs_in ''remove diff must delete'' l
      then ''Remove patches must delete all lines; use a single hunk removing the full file.''
      else if change_type = ''remove''
      then ''Use --- path and +++ path headers with hunks that remove every line.''
      else ''Verify ---/+++ paths, hunk line numbers, and that context lines match the file.'')"

definition header_old :: string where
  "header_old = ''--- ''"

definition header_new :: string where
  "header_new = ''+++ ''"

definition dev_null :: string where
  "dev_null = ''/dev/null''"

section \<open>Parsing\<close>

text \<open>
  The header pattern \<^verbatim>\<open>^@@ -(\d+)(?:,(\d+))? \+(\d+)(?:,(\d+))? @@\<close>. What follows a group of
  digits is never a digit, so a match is found without backtracking.
\<close>

definition count_group :: "string \<Rightarrow> string \<times> string" where
  "count_group s =
     (case s of
        CHR '','' # t \<Rightarrow> (if takeWhile digit t \<noteq> [] then (takeWhile digit t, dropWhile digit t) else (''1'', s))
      | _ \<Rightarrow> (''1'', s))"

definition hunk_range :: "string \<Rightarrow> (string \<times> string \<times> string) option" where
  "hunk_range s =
     (if takeWhile digit s = [] then None
      else let (cnt, rest) = count_group (dropWhile digit s) in Some (takeWhile digit s, cnt, rest))"

definition strip_prefix :: "string \<Rightarrow> string \<Rightarrow> string option" where
  "strip_prefix p s = (if startswith s p then Some (drop (length p) s) else None)"

definition header_match :: "string \<Rightarrow> (string \<times> string \<times> string \<times> string) option" where
  "header_match l =
     (case strip_prefix ''@@ -'' l of None \<Rightarrow> None
      | Some s1 \<Rightarrow> (case hunk_range s1 of None \<Rightarrow> None
      | Some (os, oc, s2) \<Rightarrow> (case strip_prefix '' +'' s2 of None \<Rightarrow> None
      | Some s3 \<Rightarrow> (case hunk_range s3 of None \<Rightarrow> None
      | Some (ns, nc, s4) \<Rightarrow> if startswith s4 '' @@'' then Some (os, oc, ns, nc) else None))))"

text \<open>\<^verbatim>\<open>int(digits)\<close>; Python refuses texts of more than 4300 digits\<close>

definition max_digits :: nat where
  "max_digits = 4300"

definition digits_nat :: "string \<Rightarrow> nat" where
  "digits_nat ds = foldl (\<lambda>a c. 10 * a + (of_char c - 48)) 0 ds"

definition int_of_digits :: "string \<Rightarrow> nat result" where
  "int_of_digits ds =
     (if length ds \<le> max_digits then Inr (digits_nat ds)
      else Inl (ValueError (''Exceeds the limit (4300 digits) for integer string conversion: value has ''
                 @ nat_str (length ds) @ '' digits; use sys.set_int_max_str_digits() to increase the limit'')))"

definition starts_section :: "string \<Rightarrow> bool" where
  "starts_section l \<longleftrightarrow> startswith l ''@@'' \<or> startswith l header_old \<or> startswith l header_new"

text \<open>One line of the body of a hunk\<close>

definition context_line :: "string \<Rightarrow> diff_hunk \<Rightarrow> diff_hunk" where
  "context_line l h = h\<lparr>dh_context := dh_context h @ [l], dh_old_lines := dh_old_lines h @ [l],
                       dh_new_lines := dh_new_lines h @ [l]\<rparr>"

definition body_line :: "string \<Rightarrow> diff_hunk \<Rightarrow> diff_hunk" where
  "body_line l h =
     (if startswith l '' '' then context_line (drop 1 l) h
      else if startswith l ''+''
      then h\<lparr>dh_added := dh_added h @ [drop 1 l], dh_new_lines := dh_new_lines h @ [drop 1 l]\<rparr>
      else if startswith l ''-''
      then h\<lparr>dh_removed := dh_removed h @ [drop 1 l], dh_old_lines := dh_old_lines h @ [drop 1 l]\<rparr>
      else if startswith l [CHR 0x5C]
      then (if occurs_in ''No newline at end of file'' l then h\<lparr>dh_no_newline := True\<rparr> else h)
      else context_line l h)"

fun hunk_body :: "diff_hunk \<Rightarrow> string list \<Rightarrow> diff_hunk \<times> string list" where
  "hunk_body h [] = (h, [])"
| "hunk_body h (l # ls) = (if starts_section l then (h, l # ls) else hunk_body (body_line l h) ls)"

definition start_hunk :: "nat \<Rightarrow> nat \<Rightarrow> nat \<Rightarrow> nat \<Rightarrow> diff_hunk" where
  "start_hunk os oc ns nc =
     \<lparr>dh_old_start = os, dh_old_count = oc, dh_new_start = ns, dh_new_count = nc, dh_context = [],
      dh_added = [], dh_removed = [], dh_old_lines = [], dh_new_lines = [], dh_no_newline = False\<rparr>"

text \<open>\<^verbatim>\<open>_parse_hunk\<close>: the hunk and the lines after it; None is a header that does not match\<close>

definition parse_hunk :: "string \<Rightarrow> string list \<Rightarrow> (diff_hunk \<times> string list) option result" where
  "parse_hunk l ls =
     (case header_match l of
        None \<Rightarrow> Inr None
      | Some (os, oc, ns, nc) \<Rightarrow>
          bind_result (int_of_digits os) (\<lambda>old_start.
          bind_result (int_of_digits oc) (\<lambda>old_count.
          bind_result (int_of_digits ns) (\<lambda>new_start.
          bind_result (int_of_digits nc) (\<lambda>new_count.
            Inr (Some (hunk_body (start_hunk old_start old_count new_start new_count) ls)))))))"

lemma hunk_body_length: "length (snd (hunk_body h ls)) \<le> length ls"
  by (induction ls arbitrary: h) (auto intro: le_SucI)

lemma parse_hunk_length:
  assumes "parse_hunk l ls = Inr (Some (h, rest))"
  shows "length rest \<le> length ls"
proof -
  obtain h0 where "hunk_body h0 ls = (h, rest)"
    using assms by (auto simp: parse_hunk_def bind_result_Inr split: option.splits)
  then show ?thesis using hunk_body_length [of h0 ls] by simp
qed

text \<open>The loop over the lines; \<open>i\<close> is the number of lines already consumed\<close>

function parse_lines :: "nat \<Rightarrow> parsed_diff \<Rightarrow> string list \<Rightarrow> parsed_diff result" where
  "parse_lines i d [] = Inr d"
| "parse_lines i d (l # ls) =
     (if startswith l header_old
      then parse_lines (i + 1) (d\<lparr>pd_old_path := strip (drop (length header_old) l)\<rparr>) ls
      else if startswith l header_new
      then parse_lines (i + 1) (d\<lparr>pd_new_path := strip (drop (length header_new) l)\<rparr>) ls
      else if startswith l ''@@''
      then (case parse_hunk l ls of
              Inl e \<Rightarrow> Inl e
            | Inr None \<Rightarrow> Inl (ValueError (''Invalid hunk header at line '' @ nat_str (i + 1)))
            | Inr (Some (h, rest)) \<Rightarrow>
                parse_lines (i + 1 + (length ls - length rest)) (d\<lparr>pd_hunks := pd_hunks d @ [h]\<rparr>) rest)
      else parse_lines (i + 1) d ls)"
  by pat_completeness auto
termination
  by (relation "measure (\<lambda>(i, d, ls). length ls)") (auto dest: parse_hunk_length)

definition parse_unified_diff :: "string \<Rightarrow> parsed_diff result" where
  "parse_unified_diff s =
     (if strip s = [] then Inl (ValueError ''Empty diff string'')
      else bind_result (parse_lines 0 \<lparr>pd_hunks = [], pd_old_path = [], pd_new_path = []\<rparr> (splitlines s)) (\<lambda>d.
        if pd_hunks d = [] then Inl (ValueError ''No hunks found in diff'') else Inr d))"

section \<open>Applying\<close>

definition refused :: "string \<Rightarrow> dry_run_result" where
  "refused err = \<lparr>dr_valid = False, dr_hunk_count = 0, dr_added_lines = 0, dr_removed_lines = 0,
                  dr_new_text = [], dr_error = err\<rparr>"

definition line_text :: "string \<Rightarrow> string" where
  "line_text l = rstrip_chars [CHR 0x0D, CHR 0x0A] l"

fun first_mismatch :: "nat \<Rightarrow> string list \<Rightarrow> string list \<Rightarrow> nat option" where
  "first_mismatch i (x # xs) (y # ys) = (if x \<noteq> y then Some i else first_mismatch (i + 1) xs ys)"
| "first_mismatch i _ _ = None"

text \<open>One hunk: the new lines of the text, or the error\<close>

definition apply_hunk :: "int \<Rightarrow> diff_hunk \<Rightarrow> string list \<Rightarrow> string + string list" where
  "apply_hunk offset h ls =
     (let start = int (dh_old_start h) - 1 + offset in
      if start < 0 \<or> start > int (length ls)
      then Inl (''Hunk starts at line '' @ nat_str (dh_old_start h) @ '', but file has ''
                @ nat_str (length ls) @ '' lines'')
      else
        (let actual = map line_text (take (dh_old_count h) (drop (nat start) ls)) in
         if length actual \<noteq> length (dh_old_lines h)
         then Inl (''Hunk expects '' @ nat_str (length (dh_old_lines h)) @ '' lines at line ''
                   @ nat_str (dh_old_start h) @ '', but file has '' @ nat_str (length actual) @ '' lines'')
         else (case first_mismatch 0 (dh_old_lines h) actual of
             Some ci \<Rightarrow> Inl (''Context mismatch at line '' @ nat_str (dh_old_start h + ci))
           | None \<Rightarrow> Inr (take (nat start) ls @ map (\<lambda>l. l @ [CHR 0x0A]) (dh_new_lines h)
                          @ drop (nat start + dh_old_count h) ls))))"

fun apply_hunks :: "int \<Rightarrow> diff_hunk list \<Rightarrow> string list \<Rightarrow> string + string list" where
  "apply_hunks offset [] ls = Inr ls"
| "apply_hunks offset (h # hs) ls =
     (case apply_hunk offset h ls of
        Inl err \<Rightarrow> Inl err
      | Inr ls' \<Rightarrow>
          apply_hunks (offset + int (length (dh_new_lines h)) - int (dh_old_count h)) hs ls')"

definition dry_run_apply :: "string \<Rightarrow> parsed_diff \<Rightarrow> dry_run_result" where
  "dry_run_apply original d =
     (if pd_hunks d = [] then refused ''No hunks to apply''
      else if list_ex dh_no_newline (pd_hunks d)
      then refused ''No newline at end of file marker is not supported''
      else (case apply_hunks 0 (pd_hunks d) (keep_lines original) of
              Inl err \<Rightarrow> refused err
            | Inr ls \<Rightarrow>
                \<lparr>dr_valid = True, dr_hunk_count = length (pd_hunks d),
                 dr_added_lines = sum_list (map (\<lambda>h. length (dh_added h)) (pd_hunks d)),
                 dr_removed_lines = sum_list (map (\<lambda>h. length (dh_removed h)) (pd_hunks d)),
                 dr_new_text = concat ls, dr_error = []\<rparr>))"

section \<open>Validation\<close>

text \<open>\<^verbatim>\<open>text.split("\t", 1)[0].split(" ", 1)[0]\<close> without a leading \<^verbatim>\<open>a/\<close> or \<^verbatim>\<open>b/\<close>\<close>

definition normalize_diff_path :: "string \<Rightarrow> string" where
  "normalize_diff_path raw =
     (let stripped = strip raw in
      if stripped = [] then []
      else let path = takeWhile (\<lambda>c. c \<noteq> CHR '' '') (takeWhile (\<lambda>c. c \<noteq> CHR 0x09) stripped) in
        if path = dev_null then dev_null
        else if startswith path ''a/'' \<or> startswith path ''b/'' then drop 2 path else path)"

definition quoted :: "string \<Rightarrow> string" where
  "quoted s = [CHR 0x27] @ s @ [CHR 0x27]"

definition validate_header_paths :: "string \<Rightarrow> string \<Rightarrow> parsed_diff \<Rightarrow> string" where
  "validate_header_paths path change_type d =
     (let target = normalize_diff_path path;
          old_path = normalize_diff_path (pd_old_path d);
          new_path = normalize_diff_path (pd_new_path d);
          differs = (\<lambda>side p. ''Diff '' @ side @ '' path '' @ quoted p
                              @ '' does not match target path '' @ quoted target) in
      if change_type = ''modify''
      then (if old_path \<noteq> [] \<and> old_path \<noteq> target then differs ''old'' old_path
            else if new_path \<noteq> [] \<and> new_path \<noteq> target then differs ''new'' new_path else [])
      else if change_type = ''add''
      then (if old_path \<noteq> [] \<and> old_path \<noteq> dev_null
            then ''Add diff old path must be /dev/null, got '' @ quoted old_path
            else if new_path \<noteq> [] \<and> new_path \<noteq> target then differs ''new'' new_path else [])
      else if change_type = ''remove''
      then (if old_path \<noteq> [] \<and> old_path \<noteq> target then differs ''old'' old_path
            else if new_path \<noteq> [] \<and> new_path \<noteq> dev_null
            then ''Remove diff new path must be /dev/null, got '' @ quoted new_path else [])
      else [])"

definition invalid_patch :: "string \<Rightarrow> string \<Rightarrow> dry_run_result option \<Rightarrow> validation_result" where
  "invalid_patch change_type err dry =
     \<lparr>vr_valid = False, vr_error = err, vr_recovery_hint = recovery_hint_for_error err change_type,
      vr_dry_run = dry\<rparr>"

definition valid_patch :: "dry_run_result \<Rightarrow> validation_result" where
  "valid_patch dry = \<lparr>vr_valid = True, vr_error = [], vr_recovery_hint = [], vr_dry_run = Some dry\<rparr>"

definition validate_modify ::
  "string \<Rightarrow> parsed_diff \<Rightarrow> string option \<Rightarrow> bool \<Rightarrow> validation_result" where
  "validate_modify path d original file_exists =
     (if \<not> file_exists
      then invalid_patch ''modify'' (''Cannot modify file that does not exist: '' @ path) None
      else (case original of
          None \<Rightarrow> invalid_patch ''modify'' ''original_text required for modify'' None
        | Some content \<Rightarrow>
            let dr = dry_run_apply content d in
            if \<not> dr_valid dr then invalid_patch ''modify'' (dr_error dr) (Some dr) else valid_patch dr))"

definition validate_add :: "parsed_diff \<Rightarrow> validation_result" where
  "validate_add d =
     (let hunks = pd_hunks d;
          removed_count = sum_list (map (\<lambda>h. length (dh_removed h)) hunks);
          old_line_count = sum_list (map (\<lambda>h. length (dh_old_lines h)) hunks) in
      if removed_count \<noteq> 0 \<or> old_line_count \<noteq> 0
      then invalid_patch ''add'' ''Add diff must not contain removed lines'' None
      else valid_patch
        \<lparr>dr_valid = True, dr_hunk_count = length hunks,
         dr_added_lines = sum_list (map (\<lambda>h. length (dh_added h)) hunks), dr_removed_lines = 0,
         dr_new_text = join_with [CHR 0x0A] (concat (map dh_new_lines hunks))
           @ (if list_ex (\<lambda>h. dh_new_lines h \<noteq> []) hunks then [CHR 0x0A] else []),
         dr_error = []\<rparr>)"

definition validate_remove :: "parsed_diff \<Rightarrow> string option \<Rightarrow> validation_result" where
  "validate_remove d original =
     (case original of
        None \<Rightarrow> invalid_patch ''remove'' ''original_text required for remove'' None
      | Some content \<Rightarrow>
          let dr = dry_run_apply content d in
          if \<not> dr_valid dr then invalid_patch ''remove'' (dr_error dr) (Some dr)
          else if dr_new_text dr \<noteq> []
          then (let err = ''Remove diff must delete the full file content'' in
                invalid_patch ''remove'' err (Some (dr\<lparr>dr_valid := False, dr_error := err\<rparr>)))
          else valid_patch
            \<lparr>dr_valid = True, dr_hunk_count = length (pd_hunks d), dr_added_lines = 0,
             dr_removed_lines = sum_list (map (\<lambda>h. length (dh_removed h)) (pd_hunks d)),
             dr_new_text = [], dr_error = []\<rparr>)"

text \<open>
  \<^verbatim>\<open>validate_patch_for_path\<close>; only a \<^verbatim>\<open>ValueError\<close> of the parser is caught, and it
  raises no other.
\<close>

definition validate_patch_for_path ::
  "string \<Rightarrow> string \<Rightarrow> string \<Rightarrow> string option \<Rightarrow> bool \<Rightarrow> validation_result" where
  "validate_patch_for_path path change_type diff original file_exists =
     (if change_type \<notin> {''modify'', ''add'', ''remove''}
      then invalid_patch change_type (''Unsupported change_type: '' @ change_type) None
      else (case parse_unified_diff diff of
          Inl e \<Rightarrow> invalid_patch change_type (error_code e) None
        | Inr d \<Rightarrow>
            let path_error = validate_header_paths path change_type d in
            if path_error \<noteq> [] then invalid_patch change_type path_error None
            else if change_type = ''add'' \<and> file_exists
            then invalid_patch change_type (''Cannot add file that already exists: '' @ path) None
            else if change_type = ''remove'' \<and> \<not> file_exists
            then invalid_patch change_type (''Cannot remove file that does not exist: '' @ path) None
            else if change_type = ''modify'' then validate_modify path d original file_exists
            else if change_type = ''add'' then validate_add d
            else validate_remove d original))"

end
