(* ===== verification/Diff_Properties.thy ===== *)
theory Diff_Properties
  imports Unified_Diff
begin

text \<open>
  What applying a patch means. An edit script for a document is a list of hunks with the untouched
  lines between them; written as a unified diff the way \<^verbatim>\<open>diff -u\<close> writes it, parsed and
  applied, a plain script for a plain path gives exactly the edited document. The last section
  holds the diffs outside these bounds, for which the code does something else.
\<close>

section \<open>Edit scripts\<close>

datatype edit = Keep string | Insert string | Delete string

fun old_side :: "edit list \<Rightarrow> string list" where
  "old_side [] = []"
| "old_side (Keep l # es) = l # old_side es"
| "old_side (Insert l # es) = old_side es"
| "old_side (Delete l # es) = l # old_side es"

fun new_side :: "edit list \<Rightarrow> string list" where
  "new_side [] = []"
| "new_side (Keep l # es) = l # new_side es"
| "new_side (Insert l # es) = l # new_side es"
| "new_side (Delete l # es) = new_side es"

fun kept :: "edit list \<Rightarrow> string list" where
  "kept [] = []"
| "kept (Keep l # es) = l # kept es"
| "kept (_ # es) = kept es"

fun inserted :: "edit list \<Rightarrow> string list" where
  "inserted [] = []"
| "inserted (Insert l # es) = l # inserted es"
| "inserted (_ # es) = inserted es"

fun deleted :: "edit list \<Rightarrow> string list" where
  "deleted [] = []"
| "deleted (Delete l # es) = l # deleted es"
| "deleted (_ # es) = deleted es"

text \<open>A script: for every hunk the untouched lines before it and its edits; then the last lines\<close>

type_synonym script = "(string list \<times> edit list) list"

fun old_doc :: "script \<Rightarrow> string list \<Rightarrow> string list" where
  "old_doc [] tail = tail"
| "old_doc ((gap, es) # gs) tail = gap @ old_side es @ old_doc gs tail"

fun new_doc :: "script \<Rightarrow> string list \<Rightarrow> string list" where
  "new_doc [] tail = tail"
| "new_doc ((gap, es) # gs) tail = gap @ new_side es @ new_doc gs tail"

section \<open>Written as a unified diff\<close>

fun edit_line :: "edit \<Rightarrow> string" where
  "edit_line (Keep l) = '' '' @ l"
| "edit_line (Insert l) = ''+'' @ l"
| "edit_line (Delete l) = ''-'' @ l"

text \<open>An empty side is given by the line before it\<close>

definition side_range :: "nat \<Rightarrow> nat \<Rightarrow> string" where
  "side_range start cnt = nat_str (if cnt = 0 then start - 1 else start) @ '','' @ nat_str cnt"

definition hunk_header :: "nat \<Rightarrow> nat \<Rightarrow> edit list \<Rightarrow> string" where
  "hunk_header k m es = ''@@ -'' @ side_range k (length (old_side es)) @ '' +''
     @ side_range m (length (new_side es)) @ '' @@''"

fun hunk_lines :: "nat \<Rightarrow> nat \<Rightarrow> script \<Rightarrow> string list" where
  "hunk_lines k m [] = []"
| "hunk_lines k m ((gap, es) # gs) =
     hunk_header (k + length gap) (m + length gap) es # map edit_line es
       @ hunk_lines (k + length gap + length (old_side es)) (m + length gap + length (new_side es)) gs"

definition written_diff :: "string \<Rightarrow> script \<Rightarrow> string" where
  "written_diff path gs = end_lines ((''--- a/'' @ path) # (''+++ b/'' @ path) # hunk_lines 1 1 gs)"

text \<open>
  The lines a diff can carry: without line breaks, and a deleted or inserted line must not look like
  a file header once its mark is put in front
\<close>

fun plain_edit :: "edit \<Rightarrow> bool" where
  "plain_edit (Keep l) \<longleftrightarrow> one_line l"
| "plain_edit (Insert l) \<longleftrightarrow> one_line l \<and> \<not> startswith l ''++ ''"
| "plain_edit (Delete l) \<longleftrightarrow> one_line l \<and> \<not> startswith l ''-- ''"

definition plain_script :: "script \<Rightarrow> bool" where
  "plain_script gs \<longleftrightarrow>
     list_all (\<lambda>(gap, es). list_all one_line gap \<and> list_all plain_edit es \<and> old_side es \<noteq> []) gs"

definition plain_path :: "string \<Rightarrow> bool" where
  "plain_path p \<longleftrightarrow> p \<noteq> [] \<and> list_all (\<lambda>c. \<not> is_space c) p \<and> p \<noteq> dev_null
     \<and> \<not> startswith p ''a/'' \<and> \<not> startswith p ''b/''"

section \<open>Parsing it back\<close>

lemma one_line_append [simp]: "one_line (a @ b) \<longleftrightarrow> one_line a \<and> one_line b"
  and one_line_Nil [simp]: "one_line []"
  and one_line_Cons [simp]: "one_line (c # b) \<longleftrightarrow> \<not> line_break c \<and> one_line b"
  by (simp_all add: one_line_def)

lemma digit_no_break: "digit c \<Longrightarrow> \<not> line_break c"
  by (auto simp: digit_def line_break_def)

lemma nat_str_one_line [simp]: "one_line (nat_str n)"
  using nat_str_digits [of n] by (auto simp: one_line_def list_all_iff digit_no_break)

lemma digits_nat_str [simp]: "digits_nat (nat_str n) = n"
  by (simp add: digits_nat_def nat_str_value)

lemma nat_str_length: "n < 10 ^ k \<Longrightarrow> 0 < k \<Longrightarrow> length (nat_str n) \<le> k"
proof (induction k arbitrary: n)
  case (Suc k)
  show ?case
  proof (cases "n < 10")
    case True
    then show ?thesis by (subst nat_str.simps) simp
  next
    case False
    with Suc.prems have "0 < k" "n div 10 < 10 ^ k" by (auto intro: Suc_leI gr0I simp: less_mult_imp_div_less mult.commute)
    with Suc.IH False show ?thesis by (subst nat_str.simps) simp
  qed
qed simp

lemma positive_digits: "0 < max_digits"
  by (simp add: max_digits_def)

lemma int_of_nat_str: "n < 10 ^ max_digits \<Longrightarrow> int_of_digits (nat_str n) = Inr n"
  using nat_str_length [of n max_digits] positive_digits by (simp add: int_of_digits_def)

lemma take_digits [simp]: "\<not> digit c \<Longrightarrow> takeWhile digit (nat_str n @ c # s) = nat_str n"
  "\<not> digit c \<Longrightarrow> dropWhile digit (nat_str n @ c # s) = c # s"
  using nat_str_digits [of n] by (simp_all add: takeWhile_append dropWhile_append)

lemma nondigits [simp]: "\<not> digit (CHR '','')" "\<not> digit (CHR '' '')"
  by (simp_all add: digit_def)

lemma hunk_range_side:
  "hunk_range (side_range k n @ CHR '' '' # s)
     = Some (nat_str (if n = 0 then k - 1 else k), nat_str n, CHR '' '' # s)"
  by (simp add: hunk_range_def side_range_def count_group_def nat_str_nonempty)

lemma header_match_written:
  "header_match (''@@ -'' @ side_range k n @ '' +'' @ side_range m p @ '' @@'')
     = Some (nat_str (if n = 0 then k - 1 else k), nat_str n, nat_str (if p = 0 then m - 1 else m), nat_str p)"
  using hunk_range_side [of k n "''+'' @ side_range m p @ '' @@''"] hunk_range_side [of m p "''@@''"]
  by (simp add: header_match_def strip_prefix_def startswith_def)

definition grown :: "diff_hunk \<Rightarrow> edit list \<Rightarrow> diff_hunk" where
  "grown h es = h\<lparr>dh_context := dh_context h @ kept es, dh_added := dh_added h @ inserted es,
     dh_removed := dh_removed h @ deleted es, dh_old_lines := dh_old_lines h @ old_side es,
     dh_new_lines := dh_new_lines h @ new_side es\<rparr>"

definition written_hunk :: "nat \<Rightarrow> nat \<Rightarrow> edit list \<Rightarrow> diff_hunk" where
  "written_hunk k m es =
     grown (start_hunk k (length (old_side es)) (if new_side es = [] then m - 1 else m)
              (length (new_side es))) es"

fun written_hunks :: "nat \<Rightarrow> nat \<Rightarrow> script \<Rightarrow> diff_hunk list" where
  "written_hunks k m [] = []"
| "written_hunks k m ((gap, es) # gs) =
     written_hunk (k + length gap) (m + length gap) es
       # written_hunks (k + length gap + length (old_side es)) (m + length gap + length (new_side es)) gs"

lemma edit_line_body: "plain_edit e \<Longrightarrow> \<not> starts_section (edit_line e)"
  by (cases e) (simp_all add: starts_section_def startswith_def header_old_def header_new_def)

lemma hunk_body_edits:
  "list_all plain_edit es \<Longrightarrow> rest = [] \<or> starts_section (hd rest) \<Longrightarrow>
   hunk_body h (map edit_line es @ rest) = (grown h es, rest)"
proof (induction es arbitrary: h)
  case Nil
  then show ?case by (cases rest) (auto simp: grown_def)
next
  case (Cons e es)
  then have "hunk_body h (map edit_line (e # es) @ rest) = (grown (body_line (edit_line e) h) es, rest)"
    using edit_line_body [of e] by simp
  moreover have "grown (body_line (edit_line e) h) es = grown h (e # es)"
    by (cases e) (simp_all add: grown_def body_line_def context_line_def startswith_def)
  ultimately show ?case by simp
qed

lemma parse_hunk_written:
  assumes "list_all plain_edit es" and "old_side es \<noteq> []" and "rest = [] \<or> starts_section (hd rest)"
    and "k < 10 ^ max_digits" "m < 10 ^ max_digits" "length (old_side es) < 10 ^ max_digits"
    "length (new_side es) < 10 ^ max_digits"
  shows "parse_hunk (hunk_header k m es) (map edit_line es @ rest) = Inr (Some (written_hunk k m es, rest))"
  using assms hunk_body_edits [OF assms(1,3)]
  by (simp add: parse_hunk_def hunk_header_def header_match_written [simplified] int_of_nat_str written_hunk_def
        less_imp_diff_less)

lemma header_section [simp]: "startswith (hunk_header k m es) ''@@''"
  "\<not> startswith (hunk_header k m es) header_old" "\<not> startswith (hunk_header k m es) header_new"
  by (simp_all add: hunk_header_def startswith_def header_old_def header_new_def)

lemma hunk_lines_rest: "hunk_lines k m gs = [] \<or> starts_section (hd (hunk_lines k m gs))"
  by (cases "(k, m, gs)" rule: hunk_lines.cases) (simp_all add: starts_section_def)

lemma parse_lines_written:
  assumes "plain_script gs" and "k + length (old_doc gs tail) < 10 ^ max_digits"
    and "m + length (new_doc gs tail) < 10 ^ max_digits"
  shows "parse_lines i d (hunk_lines k m gs) = Inr (d\<lparr>pd_hunks := pd_hunks d @ written_hunks k m gs\<rparr>)"
  using assms
proof (induction gs arbitrary: i d k m)
  case (Cons g gs)
  obtain gap es where g: "g = (gap, es)" by (cases g)
  let ?k = "k + length gap" and ?m = "m + length gap"
  let ?rest = "hunk_lines (?k + length (old_side es)) (?m + length (new_side es)) gs"
  have es: "list_all plain_edit es" "old_side es \<noteq> []" "plain_script gs"
    using Cons.prems(1) by (simp_all add: g plain_script_def)
  have "parse_hunk (hunk_header ?k ?m es) (map edit_line es @ ?rest)
      = Inr (Some (written_hunk ?k ?m es, ?rest))"
    using Cons.prems(2,3) by (intro parse_hunk_written [OF es(1,2) hunk_lines_rest]) (auto simp: g)
  with Cons.IH [OF es(3)] Cons.prems(2,3) show ?case
    by (simp add: g add.assoc)
qed simp

section \<open>Applying it\<close>

definition ended :: "string list \<Rightarrow> string list" where
  "ended ls = map (\<lambda>l. l @ [CHR 0x0A]) ls"

lemma ended_append [simp]: "ended (a @ b) = ended a @ ended b"
  and length_ended [simp]: "length (ended a) = length a"
  and concat_ended [simp]: "concat (ended ls) = end_lines ls"
  by (simp_all add: ended_def end_lines_def)

lemma line_text_ended: "one_line l \<Longrightarrow> line_text (l @ [CHR 0x0A]) = l"
proof -
  assume l: "one_line l"
  have "dropWhile (\<lambda>c. c = CHR 0x0D \<or> c = CHR 0x0A) (rev l) = rev l"
    using l by (cases "rev l") (auto simp: one_line_def list_all_iff dest: arg_cong [where f = set])
  then show ?thesis by (simp add: line_text_def rstrip_chars_def)
qed

lemma line_texts_ended [simp]: "list_all one_line ls \<Longrightarrow> map line_text (ended ls) = ls"
  by (induction ls) (simp_all add: ended_def line_text_ended)

lemma no_mismatch [simp]: "first_mismatch i xs xs = None"
  by (induction xs arbitrary: i) simp_all

lemma written_hunk_fields [simp]:
  "dh_old_start (written_hunk k m es) = k" "dh_old_count (written_hunk k m es) = length (old_side es)"
  "dh_old_lines (written_hunk k m es) = old_side es" "dh_new_lines (written_hunk k m es) = new_side es"
  "dh_added (written_hunk k m es) = inserted es" "dh_removed (written_hunk k m es) = deleted es"
  "dh_no_newline (written_hunk k m es) = False"
  by (simp_all add: written_hunk_def grown_def start_hunk_def)

lemma plain_sides: "list_all plain_edit es \<Longrightarrow> list_all one_line (old_side es) \<and> list_all one_line (new_side es)"
  by (induction es rule: old_side.induct) simp_all

lemma apply_hunk_written:
  fixes before before' :: "string list"
  assumes "list_all plain_edit es" and "k = length before + 1"
    and "offset = int (length before') - int (length before)"
  shows "apply_hunk offset (written_hunk k m es) (before' @ ended (old_side es) @ after)
           = Inr (before' @ ended (new_side es) @ after)"
  using assms plain_sides [OF assms(1)]
  by (simp add: apply_hunk_def Let_def ended_def [symmetric])

lemma apply_hunks_written:
  fixes before before' :: "string list"
  assumes "plain_script gs" and "k = length before + 1"
    and "offset = int (length before') - int (length before)"
  shows "apply_hunks offset (written_hunks k m gs) (before' @ ended (old_doc gs tail))
           = Inr (before' @ ended (new_doc gs tail))"
  using assms
proof (induction gs arbitrary: k m offset before before')
  case (Cons g gs)
  obtain gap es where g: "g = (gap, es)" by (cases g)
  have es: "list_all plain_edit es" "plain_script gs" using Cons.prems(1) by (simp_all add: g plain_script_def)
  let ?b = "before @ gap" and ?b' = "before' @ ended gap"
  have step: "apply_hunk offset (written_hunk (k + length gap) (m + length gap) es)
      (?b' @ ended (old_side es) @ ended (old_doc gs tail))
      = Inr (?b' @ ended (new_side es) @ ended (old_doc gs tail))"
    using es Cons.prems(2,3) by (intro apply_hunk_written [where before = ?b]) simp_all
  have rest: "apply_hunks (offset + int (length (new_side es)) - int (length (old_side es)))
      (written_hunks (k + length gap + length (old_side es)) (m + length gap + length (new_side es)) gs)
      ((?b' @ ended (new_side es)) @ ended (old_doc gs tail))
      = Inr ((?b' @ ended (new_side es)) @ ended (new_doc gs tail))"
    using Cons.prems(2,3) by (intro Cons.IH [where before = "?b @ old_side es"] es) simp_all
  from step rest show ?case by (simp add: g)
qed simp

lemma written_hunks_sums:
  "length (written_hunks k m gs) = length gs"
  "list_ex dh_no_newline (written_hunks k m gs) = False"
  "map (\<lambda>h. length (dh_added h)) (written_hunks k m gs) = map (\<lambda>(gap, es). length (inserted es)) gs"
  "map (\<lambda>h. length (dh_removed h)) (written_hunks k m gs) = map (\<lambda>(gap, es). length (deleted es)) gs"
  by (induction k m gs rule: written_hunks.induct) simp_all

definition edited :: "script \<Rightarrow> string list \<Rightarrow> dry_run_result" where
  "edited gs tail =
     \<lparr>dr_valid = True, dr_hunk_count = length gs,
      dr_added_lines = sum_list (map (\<lambda>(gap, es). length (inserted es)) gs),
      dr_removed_lines = sum_list (map (\<lambda>(gap, es). length (deleted es)) gs),
      dr_new_text = end_lines (new_doc gs tail), dr_error = []\<rparr>"

lemma old_doc_plain: "plain_script gs \<Longrightarrow> list_all one_line tail \<Longrightarrow> list_all one_line (old_doc gs tail)"
  by (induction gs) (auto simp: plain_script_def dest!: plain_sides)

lemma dry_run_written:
  assumes "plain_script gs" and "list_all one_line tail" and "gs \<noteq> []"
    and "pd_hunks d = written_hunks 1 1 gs"
  shows "dry_run_apply (end_lines (old_doc gs tail)) d = edited gs tail"
proof -
  have "written_hunks 1 1 gs \<noteq> []" using assms(3) by (cases gs) auto
  moreover have "apply_hunks 0 (written_hunks 1 1 gs) (ended (old_doc gs tail)) = Inr (ended (new_doc gs tail))"
    using apply_hunks_written [OF assms(1), of 1 "[]" 0 "[]"] by simp
  moreover have "keep_lines (end_lines (old_doc gs tail)) = ended (old_doc gs tail)"
    using old_doc_plain [OF assms(1,2)] by (simp add: ended_def)
  ultimately show ?thesis
    using assms(4) by (simp add: dry_run_apply_def edited_def written_hunks_sums del: One_nat_def)
qed

section \<open>From text to text\<close>

lemma strip_id: "list_all (\<lambda>c. \<not> is_space c) s \<Longrightarrow> strip s = s"
proof -
  have "dropWhile is_space s = s" if "list_all (\<lambda>c. \<not> is_space c) s" for s
    using that by (cases s) simp_all
  then show "list_all (\<lambda>c. \<not> is_space c) s \<Longrightarrow> strip s = s" by (simp add: strip_def)
qed

lemma strip_mark: "\<not> is_space c \<Longrightarrow> strip (c # s) \<noteq> []"
  by (auto simp: strip_def dropWhile_append)

lemma breaks_are_spaces: "line_break c \<Longrightarrow> is_space c"
  by (auto simp: line_break_def is_space_def Let_def)

lemma spaces [simp]: "is_space (CHR '' '')" "is_space (CHR 0x09)" "\<not> is_space (CHR ''-'')"
  "\<not> is_space (CHR ''/'')" "\<not> is_space (CHR ''a'')" "\<not> is_space (CHR ''b'')"
  by (simp_all add: is_space_def)

lemma normalize_plain:
  assumes "list_all (\<lambda>c. \<not> is_space c) p" and "p \<noteq> []" and "p \<noteq> dev_null"
  shows "normalize_diff_path p = (if startswith p ''a/'' \<or> startswith p ''b/'' then drop 2 p else p)"
proof -
  have same: "takeWhile (\<lambda>c. c \<noteq> x) p = p" if "is_space x" for x
    using assms(1) that by (auto simp: takeWhile_eq_all_conv list_all_iff)
  show ?thesis
    using assms by (simp add: normalize_diff_path_def strip_id same Let_def)
qed

lemma plain_path_headers:
  assumes "plain_path path"
  shows "normalize_diff_path path = path"
    and "strip (''a/'' @ path) = ''a/'' @ path" "normalize_diff_path (''a/'' @ path) = path"
    and "strip (''b/'' @ path) = ''b/'' @ path" "normalize_diff_path (''b/'' @ path) = path"
    and "one_line path"
  using assms breaks_are_spaces
  by (auto simp: plain_path_def normalize_plain strip_id dev_null_def startswith_def one_line_def list_all_iff)

lemma hunk_lines_plain: "plain_script gs \<Longrightarrow> list_all one_line (hunk_lines k m gs)"
proof (induction k m gs rule: hunk_lines.induct)
  case (2 k m gap es gs)
  have edit: "plain_edit e \<Longrightarrow> one_line (edit_line e)" for e
    by (cases e) (simp_all add: line_break_def)
  have "one_line (hunk_header k m es)" for k m
    by (simp add: hunk_header_def side_range_def line_break_def)
  with 2 edit show ?case by (auto simp: plain_script_def list_all_iff)
qed simp

lemma parse_written:
  assumes "plain_path path" and "plain_script gs" and "gs \<noteq> []"
    and "length (old_doc gs tail) + 1 < 10 ^ max_digits" "length (new_doc gs tail) + 1 < 10 ^ max_digits"
  shows "parse_unified_diff (written_diff path gs)
           = Inr \<lparr>pd_hunks = written_hunks 1 1 gs, pd_old_path = ''a/'' @ path, pd_new_path = ''b/'' @ path\<rparr>"
proof -
  let ?head = "[''--- a/'' @ path, ''+++ b/'' @ path]" and ?body = "hunk_lines 1 1 gs"
  have lines: "splitlines (written_diff path gs) = ?head @ ?body"
    using hunk_lines_plain [OF assms(2)] plain_path_headers(6) [OF assms(1)]
    by (simp add: written_diff_def line_break_def)
  have "strip (written_diff path gs) \<noteq> []"
    by (simp add: written_diff_def end_lines_def strip_mark)
  moreover have "written_hunks 1 1 gs \<noteq> []" using assms(3) by (cases gs) auto
  moreover have "parse_lines i d ?body = Inr (d\<lparr>pd_hunks := pd_hunks d @ written_hunks 1 1 gs\<rparr>)" for i d
    using assms(4,5) by (intro parse_lines_written [OF assms(2)]) simp_all
  ultimately show ?thesis
    using plain_path_headers(2,4) [OF assms(1)]
    by (simp add: parse_unified_diff_def lines startswith_def header_old_def header_new_def del: One_nat_def)
qed

text \<open>
  C26. Applying a patch gives exactly the edited file: an edit script, written as a unified diff
  with the headers of its path, is parsed, accepted as a modification of the document it was made
  for, and its dry run gives the edited document and counts its hunks, insertions and deletions.
  This is for a plain path (not empty, without spaces, not below a directory \<^verbatim>\<open>a\<close> or \<^verbatim>\<open>b\<close>), a plain
  script (every hunk has at least one old line; no deleted line starts with two dashes and a space,
  no inserted line with two plus signs and a space), and a document whose lines end in a single
  line feed and contain no other line break. Outside these bounds the code does something else:
  \<open>header_paths_confused\<close>, \<open>insertion_before_line\<close>, \<open>deleted_comment_refused\<close> and
  \<open>context_loses_return\<close> in the last section.
\<close>

theorem patch_applies_exactly:
  assumes "plain_path path" and "plain_script gs" and "list_all one_line tail" and "gs \<noteq> []"
    and "length (old_doc gs tail) + 1 < 10 ^ max_digits" "length (new_doc gs tail) + 1 < 10 ^ max_digits"
  shows "validate_patch_for_path path ''modify'' (written_diff path gs) (Some (end_lines (old_doc gs tail))) True
           = valid_patch (edited gs tail)"
proof -
  have "dry_run_apply (end_lines (old_doc gs tail))
      \<lparr>pd_hunks = written_hunks 1 1 gs, pd_old_path = ''a/'' @ path, pd_new_path = ''b/'' @ path\<rparr> = edited gs tail"
    using assms by (intro dry_run_written) simp_all
  moreover have "dr_valid (edited gs tail)" by (simp add: edited_def)
  ultimately show ?thesis
    using plain_path_headers [OF assms(1)] parse_written [OF assms(1,2,4-6)]
    by (simp add: validate_patch_for_path_def validate_header_paths_def validate_modify_def
        del: One_nat_def append.simps)
qed

lemma few_lines: "n < max_digits \<Longrightarrow> n < 10 ^ max_digits"
proof -
  assume "n < max_digits"
  also have "max_digits < 2 ^ max_digits" by simp
  also have "(2::nat) ^ max_digits \<le> 10 ^ max_digits" by (rule power_mono) simp_all
  finally show ?thesis .
qed

lemma patch_applies_exactly_witness:
  "validate_patch_for_path ''m.py'' ''modify''
     (written_diff ''m.py'' [([''a''], [Keep ''b'', Delete ''c'', Insert ''x'', Insert ''y'']), ([''d''], [Delete ''e''])])
     (Some (end_lines [''a'', ''b'', ''c'', ''d'', ''e'', ''f''])) True
   = valid_patch \<lparr>dr_valid = True, dr_hunk_count = 2, dr_added_lines = 2, dr_removed_lines = 2,
       dr_new_text = end_lines [''a'', ''b'', ''x'', ''y'', ''d'', ''f''], dr_error = []\<rparr>"
proof -
  let ?gs = "[([''a''], [Keep ''b'', Delete ''c'', Insert ''x'', Insert ''y'']), ([''d''], [Delete ''e''])]"
  have "plain_path ''m.py''" "plain_script ?gs" "list_all one_line [''f'']"
    by (code_simp)+
  moreover have "length (old_doc ?gs [''f'']) + 1 < 10 ^ max_digits" "length (new_doc ?gs [''f'']) + 1 < 10 ^ max_digits"
    by (rule few_lines, simp add: max_digits_def)+
  ultimately have "validate_patch_for_path ''m.py'' ''modify'' (written_diff ''m.py'' ?gs)
      (Some (end_lines (old_doc ?gs [''f'']))) True = valid_patch (edited ?gs [''f''])"
    by (intro patch_applies_exactly) simp_all
  then show ?thesis by (simp add: edited_def numeral_2_eq_2)
qed

section \<open>One pass over the old lines\<close>










section \<open>Where the code differs\<close>

text \<open>
  A hunk with an empty old side names the line it comes after; the code puts it before that line:
  the diff that inserts \<open>x\<close> after the first line gives a text that starts with \<open>x\<close>.
\<close>

lemma insertion_before_line:
  "vr_dry_run (validate_patch_for_path ''m.py'' ''modify'' (end_lines [''@@ -1,0 +2,1 @@'', ''+x''])
      (Some (end_lines [''a'', ''b''])) True)
   = Some \<lparr>dr_valid = True, dr_hunk_count = 1, dr_added_lines = 1, dr_removed_lines = 0,
           dr_new_text = end_lines [''x'', ''a'', ''b''], dr_error = []\<rparr>"
  by code_simp

text \<open>The untouched lines of a hunk lose their carriage return\<close>

lemma context_loses_return:
  "map_option dr_new_text (vr_dry_run (validate_patch_for_path ''m.py'' ''modify''
      (end_lines [''@@ -1,2 +1,2 @@'', '' a'', ''-b'', ''+c''])
      (Some [CHR ''a'', CHR 0x0D, CHR 0x0A, CHR ''b'', CHR 0x0D, CHR 0x0A]) True))
   = Some (end_lines [''a'', ''c''])"
  by code_simp

text \<open>
  A deleted line that starts with two dashes and a space is taken for a header of the next file: the
  deletion is dropped and the hunk refused.
\<close>

lemma deleted_comment_refused:
  "vr_error (validate_patch_for_path ''m.sql'' ''modify'' (end_lines [''@@ -1,2 +1,1 @@'', '' a'', ''--- b''])
      (Some (end_lines [''a'', ''-- b''])) True)
   = ''Diff old path '' @ quoted ''b'' @ '' does not match target path '' @ quoted ''m.sql''"
  by code_simp

text \<open>
  The header check compares shortened paths: a patch whose headers name \<open>x.py\<close> is accepted for
  \<open>a/x.py\<close>, and one for \<open>my notes.md\<close> is accepted for \<open>my keys.md\<close>.
\<close>

lemma header_paths_confused:
  "vr_valid (validate_patch_for_path ''a/x.py'' ''modify''
      (end_lines [''--- a/x.py'', ''+++ b/x.py'', ''@@ -1,1 +1,1 @@'', ''-k'', ''+n'']) (Some (end_lines [''k''])) True)
   \<and> vr_valid (validate_patch_for_path ''my keys.md'' ''modify''
      (end_lines [''--- a/my notes.md'', ''+++ b/my notes.md'', ''@@ -1,1 +1,1 @@'', ''-k'', ''+n''])
      (Some (end_lines [''k''])) True)"
  by code_simp

end
