(* ===== verification/Session_Store.thy ===== *)
theory Session_Store
  imports Persistent_Mailbox "HOL-Library.Product_Lexorder" "HOL-Library.List_Lexorder" "HOL-Library.Char_ord"
begin

text \<open>
  The application database of sessions: \<^verbatim>\<open>ProjectSessionService\<close>
  (\<^verbatim>\<open>features/sessions/service.py\<close>) over the rows of \<^verbatim>\<open>models/\<close>, with the inputs for a
  runtime and their results of \<^verbatim>\<open>models/agent_runtime.py\<close>. Whether a directory exists, the
  clock and the fresh identifiers are arguments. Each operation is one transaction; an error leaves
  the database as it was.
\<close>

section \<open>Tables\<close>

record project_row =
  pj_id :: code_points
  pj_path :: string

record session_row =
  ss_id :: string
  ss_project_id :: code_points
  ss_path :: string
  ss_title :: string
  ss_role :: string
  ss_status :: string
  ss_created_at :: int
  ss_updated_at :: int

record message_row =
  pm_id :: string
  pm_session_id :: string
  pm_role :: string
  pm_content :: string
  pm_tool_calls :: "json option"
  pm_tool_result :: "json option"
  pm_created_at :: int

record memory_row =
  sm_session_id :: string
  sm_summary :: string
  sm_anchor :: "string option"
  sm_updated_at :: int

datatype delivery_status = Delivery_Pending | Delivery_Delivered

record delivery_row =
  rd_id :: string
  rd_message_id :: string
  rd_session_message_id :: string
  rd_project_id :: code_points
  rd_session_id :: string
  rd_target_address :: string
  rd_target_agent_id :: code_points
  rd_target_generation :: int
  rd_status :: delivery_status
  rd_attempt :: int
  rd_enqueued_at :: "int option"
  rd_created_at :: int

record input_result_row =
  ir_message_id :: string
  ir_assistant_id :: string
  ir_handled_at :: int

record app_db =
  ap_projects :: "project_row list"
  ap_sessions :: "session_row list"
  ap_messages :: "message_row list"
  ap_memories :: "memory_row list"
  ap_deliveries :: "delivery_row list"
  ap_results :: "input_result_row list"

section \<open>Sessions\<close>

record session_view =
  sv_row :: session_row
  sv_available :: bool
  sv_readonly_reason :: "string option"

definition to_read :: "(string \<Rightarrow> bool) \<Rightarrow> session_row \<Rightarrow> session_view" where
  "to_read is_dir s =
     (let available = is_dir (ss_path s) in
      \<lparr>sv_row = s, sv_available = available,
       sv_readonly_reason = (if available then None else Some ''project_path_unavailable'')\<rparr>)"

definition load_session :: "app_db \<Rightarrow> string \<Rightarrow> session_row result" where
  "load_session db i =
     (case find (\<lambda>s. ss_id s = i) (ap_sessions db) of
        None \<Rightarrow> Inl (NotFoundError ''project_session'')
      | Some s \<Rightarrow> Inr s)"

definition create_session ::
  "(string \<Rightarrow> bool) \<Rightarrow> int \<Rightarrow> string \<Rightarrow> code_points \<Rightarrow> string \<Rightarrow> app_db \<Rightarrow> (session_view \<times> app_db) result" where
  "create_session is_dir now fresh project title db =
     (case find (\<lambda>p. pj_id p = project) (ap_projects db) of
        None \<Rightarrow> Inl (NotFoundError ''project'')
      | Some p \<Rightarrow>
          (let s = \<lparr>ss_id = fresh, ss_project_id = pj_id p, ss_path = pj_path p, ss_title = title,
                    ss_role = ''planning'', ss_status = ''active'', ss_created_at = now, ss_updated_at = now\<rparr>
           in Inr (to_read is_dir s, db\<lparr>ap_sessions := ap_sessions db @ [s]\<rparr>)))"

definition list_sessions :: "(string \<Rightarrow> bool) \<Rightarrow> code_points option \<Rightarrow> app_db \<Rightarrow> session_view list" where
  "list_sessions is_dir project db =
     map (to_read is_dir)
       (rev (sort_key (\<lambda>s. (ss_updated_at s, ss_id s))
          (filter (\<lambda>s. case project of None \<Rightarrow> True | Some p \<Rightarrow> ss_project_id s = p) (ap_sessions db))))"

definition get_session :: "(string \<Rightarrow> bool) \<Rightarrow> string \<Rightarrow> app_db \<Rightarrow> session_view result" where
  "get_session is_dir i db = bind_result (load_session db i) (\<lambda>s. Inr (to_read is_dir s))"

definition set_session :: "string \<Rightarrow> (session_row \<Rightarrow> session_row) \<Rightarrow> app_db \<Rightarrow> app_db" where
  "set_session i f db = db\<lparr>ap_sessions := update_rows (\<lambda>s. ss_id s = i) f (ap_sessions db)\<rparr>"

text \<open>The row is written, and its time with it, only when the role is another one\<close>

definition change_role ::
  "(string \<Rightarrow> bool) \<Rightarrow> int \<Rightarrow> string \<Rightarrow> string \<Rightarrow> string \<Rightarrow> bool \<Rightarrow> app_db \<Rightarrow> (session_view \<times> app_db) result" where
  "change_role is_dir now i role actor confirmed db =
     bind_result (load_session db i) (\<lambda>s.
       if actor \<noteq> ''user'' then Inl (ForbiddenError ''project_session'' ''role_switch_forbidden'')
       else if role = ''executing'' \<and> \<not> confirmed
       then Inl (ConflictError ''project_session'' ''execution_confirmation_required'')
       else if \<not> is_dir (ss_path s) then Inl (ConflictError ''project_session'' ''project_unavailable_read_only'')
       else
         (let f = (\<lambda>s. if ss_role s = role then s else s\<lparr>ss_role := role, ss_updated_at := now\<rparr>)
          in Inr (to_read is_dir (f s), set_session i f db)))"

text \<open>The part of \<^verbatim>\<open>RuntimeSessionLifecycle.close_session\<close> after the runtimes are gone\<close>

definition close_session_row :: "int \<Rightarrow> string \<Rightarrow> app_db \<Rightarrow> app_db result" where
  "close_session_row now i db =
     (case find (\<lambda>s. ss_id s = i) (ap_sessions db) of
        None \<Rightarrow> Inl (RuntimeError ''project_session_not_found'')
      | Some _ \<Rightarrow> Inr (set_session i
          (\<lambda>s. if ss_status s = ''closed'' then s else s\<lparr>ss_status := ''closed'', ss_updated_at := now\<rparr>) db))"

section \<open>Messages\<close>

definition new_message :: "int \<Rightarrow> string \<Rightarrow> string \<Rightarrow> string \<Rightarrow> string \<Rightarrow> message_row" where
  "new_message now fresh session role content =
     \<lparr>pm_id = fresh, pm_session_id = session, pm_role = role, pm_content = content,
      pm_tool_calls = None, pm_tool_result = None, pm_created_at = now\<rparr>"

definition add_message :: "message_row \<Rightarrow> app_db \<Rightarrow> app_db" where
  "add_message m db = db\<lparr>ap_messages := ap_messages db @ [m]\<rparr>"

definition create_message ::
  "(string \<Rightarrow> bool) \<Rightarrow> int \<Rightarrow> string \<Rightarrow> string \<Rightarrow> string \<Rightarrow> string \<Rightarrow> json option \<Rightarrow> json option \<Rightarrow> app_db
     \<Rightarrow> (message_row \<times> app_db) result" where
  "create_message is_dir now fresh i role content calls tool_result db =
     bind_result (load_session db i) (\<lambda>s.
       if \<not> is_dir (ss_path s) then Inl (ConflictError ''project_session'' ''project_unavailable_read_only'')
       else (let m = (new_message now fresh (ss_id s) role content)
                       \<lparr>pm_tool_calls := calls, pm_tool_result := tool_result\<rparr>
             in Inr (m, add_message m db)))"

text \<open>The user's message and the pending delivery of it are one transaction\<close>

definition create_runtime_input ::
  "(string \<Rightarrow> bool) \<Rightarrow> int \<Rightarrow> string \<Rightarrow> string \<Rightarrow> string \<Rightarrow> string \<Rightarrow> agent_address \<Rightarrow> app_db
     \<Rightarrow> (message_row \<times> app_db) result" where
  "create_runtime_input is_dir now fresh fresh_delivery i content target db =
     bind_result (load_session db i) (\<lambda>s.
       if \<not> is_dir (ss_path s) then Inl (ConflictError ''project_session'' ''project_unavailable_read_only'')
       else if ad_project target \<noteq> ss_project_id s
       then Inl (ConflictError ''project_session'' ''runtime_input_target_mismatch'')
       else bind_result (to_uri target) (\<lambda>uri.
         let m = new_message now fresh (ss_id s) ''user'' content;
             d = \<lparr>rd_id = fresh_delivery, rd_message_id = pm_id m, rd_session_message_id = pm_id m,
                  rd_project_id = ss_project_id s, rd_session_id = ss_id s, rd_target_address = uri,
                  rd_target_agent_id = ad_agent target, rd_target_generation = ad_generation target,
                  rd_status = Delivery_Pending, rd_attempt = 0, rd_enqueued_at = None, rd_created_at = now\<rparr>
         in Inr (m, (add_message m db)\<lparr>ap_deliveries := ap_deliveries db @ [d]\<rparr>)))"

definition message_order :: "message_row \<Rightarrow> int \<times> string" where
  "message_order m = (pm_created_at m, pm_id m)"

definition history :: "app_db \<Rightarrow> string \<Rightarrow> message_row list" where
  "history db i = sort_key message_order (filter (\<lambda>m. pm_session_id m = i) (ap_messages db))"

definition list_messages :: "string \<Rightarrow> app_db \<Rightarrow> message_row list result" where
  "list_messages i db = bind_result (load_session db i) (\<lambda>_. Inr (history db i))"

section \<open>The memory checkpoint\<close>

definition find_memory :: "app_db \<Rightarrow> string \<Rightarrow> memory_row option" where
  "find_memory db i = find (\<lambda>r. sm_session_id r = i) (ap_memories db)"

definition get_memory_checkpoint :: "string \<Rightarrow> app_db \<Rightarrow> memory_row option result" where
  "get_memory_checkpoint i db = bind_result (load_session db i) (\<lambda>_. Inr (find_memory db i))"

definition find_message :: "app_db \<Rightarrow> string \<Rightarrow> string \<Rightarrow> message_row option" where
  "find_message db i mid = find (\<lambda>m. pm_session_id m = i \<and> pm_id m = mid) (ap_messages db)"

definition list_messages_after :: "string \<Rightarrow> string option \<Rightarrow> app_db \<Rightarrow> message_row list result" where
  "list_messages_after i after_id db =
     bind_result (load_session db i) (\<lambda>_. Inr
       (case after_id of
          None \<Rightarrow> history db i
        | Some mid \<Rightarrow>
            (if mid = [] then history db i
             else (case find_message db i mid of
                 None \<Rightarrow> history db i
               | Some anchor \<Rightarrow> filter (\<lambda>m. message_order anchor < message_order m) (history db i)))))"

definition update_memory_checkpoint :: "int \<Rightarrow> string \<Rightarrow> string \<Rightarrow> string \<Rightarrow> app_db \<Rightarrow> app_db result" where
  "update_memory_checkpoint now i summary anchor db =
     bind_result (load_session db i) (\<lambda>_.
       case find_message db i anchor of
         None \<Rightarrow> Inl (ValueError ''session_memory_anchor_not_found'')
       | Some _ \<Rightarrow>
           (let r = \<lparr>sm_session_id = i, sm_summary = summary, sm_anchor = Some anchor, sm_updated_at = now\<rparr>
            in Inr (db\<lparr>ap_memories :=
                 (case find_memory db i of
                    None \<Rightarrow> ap_memories db @ [r]
                  | Some _ \<Rightarrow> update_rows (\<lambda>x. sm_session_id x = i) (\<lambda>_. r) (ap_memories db))\<rparr>)))"

end
