(* ===== verification/Session_Memory.thy ===== *)
theory Session_Memory
  imports Session_Store Canonical_Json
begin

text \<open>
  The short term memory of a session: the window of \<^verbatim>\<open>agent/memory/short_term_memory.py\<close> with its
  compaction, and \<^verbatim>\<open>SessionMemoryWindowManager\<close> of \<^verbatim>\<open>agent/runtime/gateway.py\<close>, which keeps
  one window per session in the process and a checkpoint of it in the application database. The
  text the optimizer answers with is an argument, as is the point at which a call is cancelled or
  the database fails.
\<close>

section \<open>Receipts of tool results\<close>

definition get_or :: "dict \<Rightarrow> string \<Rightarrow> json \<Rightarrow> json" where
  "get_or d k v = (case map_of d k of None \<Rightarrow> v | Some x \<Rightarrow> x)"

definition success_fields :: "string list" where
  "success_fields = [''status'', ''success'', ''id'', ''path'', ''sha256'', ''cursor'', ''exit_code'']"

definition error_fields :: "string list" where
  "error_fields =
     [''status'', ''success'', ''error_code'', ''error_type'', ''exit_code'', ''category'', ''retryable'']"

definition error_summary_max_chars :: nat where
  "error_summary_max_chars = 240"

definition picked :: "dict \<Rightarrow> string list \<Rightarrow> dict" where
  "picked d ks = [(k, v). k \<leftarrow> ks, Some v \<leftarrow> [map_of d k], v \<noteq> JNull]"

text \<open>\<open>loads\<close> is \<^verbatim>\<open>json.loads\<close>; None is the error that is caught\<close>

definition receipt :: "(string \<Rightarrow> json option) \<Rightarrow> string \<Rightarrow> string \<Rightarrow> dict" where
  "receipt loads tool_name raw =
     (let data = (case loads raw of Some (JObj d) \<Rightarrow> d | _ \<Rightarrow> []);
          st = get_or data ''status'' (JStr ''unknown'');
          failed = (st = JStr ''failed'');
          base = picked data (if failed then error_fields else success_fields);
          summarised =
            (if failed \<and> truthy (dict_get data ''message'')
             then dict_put base ''error_summary''
                    (JStr (take error_summary_max_chars (py_str (dict_get data ''message''))))
             else base)
      in dict_put summarised ''tool_name'' (JStr (if tool_name = [] then ''unknown'' else tool_name)))"

definition build_receipt :: "(string \<Rightarrow> json option) \<Rightarrow> string \<Rightarrow> string \<Rightarrow> string" where
  "build_receipt loads tool_name raw = canonical_json (JObj (receipt loads tool_name raw))"

section \<open>The window\<close>

record memory =
  me_budget :: int
  me_recent_window :: nat
  me_summary :: string
  me_messages :: "dict list"
  me_anchor :: "string option"

definition new_memory :: "int \<Rightarrow> nat \<Rightarrow> memory" where
  "new_memory budget recent = \<lparr>me_budget = budget, me_recent_window = recent, me_summary = [],
     me_messages = [], me_anchor = None\<rparr>"

definition bound_summary :: "memory \<Rightarrow> string \<Rightarrow> string" where
  "bound_summary m s =
     (let stripped = strip s; limit = nat (max 0 (me_budget m)) in
      if length stripped \<le> limit then stripped else drop (length stripped - limit) stripped)"

definition restore_memory :: "string \<Rightarrow> dict list \<Rightarrow> string option \<Rightarrow> memory \<Rightarrow> memory" where
  "restore_memory summary messages anchor m =
     m\<lparr>me_summary := bound_summary m summary, me_messages := messages, me_anchor := anchor\<rparr>"

definition content_text :: "dict \<Rightarrow> string" where
  "content_text d = py_str (get_or d ''content'' (JStr []))"

definition estimate_size :: "dict list \<Rightarrow> nat" where
  "estimate_size ms = sum_list (map (\<lambda>d. length (content_text d)) ms)"

definition compacted_prefix :: string where
  "compacted_prefix = ''[compacted] ''"

definition render_window :: "memory \<Rightarrow> dict list" where
  "render_window m =
     (if me_summary m = [] then []
      else [[(''role'', JStr ''system''), (''content'', JStr (compacted_prefix @ me_summary m))]]) @ me_messages m"

text \<open>The answer of the optimizer; a timeout is an error of it\<close>

datatype optimizer_answer = No_Optimizer | Optimizer_Failed | Optimized string

definition fallback_summary :: "string \<Rightarrow> dict list \<Rightarrow> string" where
  "fallback_summary summary evicted =
     join_with '' | ''
       ((if summary = [] then [] else [summary])
        @ [py_str (get_or d ''role'' (JStr ''unknown'')) @ '': '' @ take 240 (strip (content_text d)).
             d \<leftarrow> evicted, strip (content_text d) \<noteq> []])"

definition optimize_evicted :: "optimizer_answer \<Rightarrow> string \<Rightarrow> dict list \<Rightarrow> string" where
  "optimize_evicted answer summary evicted =
     (case answer of
        Optimized t \<Rightarrow> (if strip t \<noteq> [] then strip t else fallback_summary summary evicted)
      | _ \<Rightarrow> fallback_summary summary evicted)"

definition evicted_count :: "memory \<Rightarrow> dict list \<Rightarrow> nat" where
  "evicted_count m candidates =
     (if int (estimate_size candidates) \<le> me_budget m then 0
      else length candidates - me_recent_window m)"

definition append_messages :: "optimizer_answer \<Rightarrow> memory \<Rightarrow> dict list \<Rightarrow> memory" where
  "append_messages answer m new =
     (let candidates = me_messages m @ new; n = evicted_count m candidates in
      if n = 0 then m\<lparr>me_messages := candidates\<rparr>
      else
        (let evicted = take n candidates; anchor = dict_get (last evicted) ''id'' in
         m\<lparr>me_messages := drop n candidates,
           me_summary := bound_summary m (optimize_evicted answer (me_summary m) evicted),
           me_anchor := (if truthy anchor then Some (py_str anchor) else me_anchor m)\<rparr>))"

section \<open>The windows of the process\<close>

record hot_window =
  hw_memory :: memory
  hw_needs_recovery :: bool

record window_manager =
  wm_budget :: int
  wm_recent_window :: nat
  wm_states :: "string \<Rightarrow> hot_window option"

definition new_manager :: "int \<Rightarrow> nat \<Rightarrow> window_manager" where
  "new_manager budget recent = \<lparr>wm_budget = budget, wm_recent_window = recent, wm_states = (\<lambda>_. None)\<rparr>"

definition put_window :: "string \<Rightarrow> memory \<Rightarrow> bool \<Rightarrow> window_manager \<Rightarrow> window_manager" where
  "put_window i m recovery mgr =
     mgr\<lparr>wm_states := (wm_states mgr)(i \<mapsto> \<lparr>hw_memory = m, hw_needs_recovery = recovery\<rparr>)\<rparr>"

definition drop_window :: "string \<Rightarrow> window_manager \<Rightarrow> window_manager" where
  "drop_window i mgr = mgr\<lparr>wm_states := (wm_states mgr)(i := None)\<rparr>"

text \<open>
  \<^verbatim>\<open>model_dump(mode="json")\<close> of a message; \<open>stamp\<close> prints an instant
\<close>

definition message_dict :: "(int \<Rightarrow> string) \<Rightarrow> message_row \<Rightarrow> dict" where
  "message_dict stamp m =
     [(''id'', JStr (pm_id m)), (''session_id'', JStr (pm_session_id m)), (''role'', JStr (pm_role m)),
      (''content'', JStr (pm_content m)),
      (''tool_calls'', (case pm_tool_calls m of None \<Rightarrow> JNull | Some v \<Rightarrow> v)),
      (''tool_result'', (case pm_tool_result m of None \<Rightarrow> JNull | Some v \<Rightarrow> v)),
      (''created_at'', JStr (stamp (pm_created_at m)))]"

text \<open>Where a call goes wrong: at a read, in the optimizer, or at the checkpoint\<close>

datatype window_fault =
    Window_Ok
  | Cancelled_Reading
  | Read_Failed
  | Cancelled_Optimizing
  | Cancelled_Before_Checkpoint
  | Checkpoint_Failed
  | Cancelled_After_Checkpoint

datatype 'a turn_result = Turned 'a | Turn_Failed bridle_error | Turn_Cancelled

text \<open>
  Appending and, when the anchor has moved, writing the checkpoint. The optimizer is only awaited
  when messages are evicted and there is one.
\<close>

definition advance_window ::
  "window_fault \<Rightarrow> optimizer_answer \<Rightarrow> int \<Rightarrow> string \<Rightarrow> memory \<Rightarrow> dict list \<Rightarrow> app_db
     \<Rightarrow> dict list turn_result \<times> memory \<times> app_db" where
  "advance_window fault answer now i m new db =
     (if fault = Cancelled_Optimizing \<and> answer \<noteq> No_Optimizer \<and> evicted_count m (me_messages m @ new) \<noteq> 0
      then (Turn_Cancelled, m, db)
      else
        (let m' = append_messages answer m new in
         case me_anchor m' of
           None \<Rightarrow> (Turned (render_window m'), m', db)
         | Some anchor \<Rightarrow>
             (if me_anchor m = Some anchor then (Turned (render_window m'), m', db)
              else if fault = Cancelled_Before_Checkpoint then (Turn_Cancelled, m', db)
              else (case update_memory_checkpoint now i (me_summary m') anchor db of
                  Inl err \<Rightarrow> (Turn_Failed err, m', db)
                | Inr db' \<Rightarrow>
                    (if fault = Checkpoint_Failed then (Turn_Failed (BuiltinError ''OperationalError''), m', db)
                     else if fault = Cancelled_After_Checkpoint then (Turn_Cancelled, m', db')
                     else (Turned (render_window m'), m', db'))))))"

text \<open>What a cold start restores from, or the error of the reads\<close>

definition recovered ::
  "(int \<Rightarrow> string) \<Rightarrow> string \<Rightarrow> message_row \<Rightarrow> memory \<Rightarrow> app_db \<Rightarrow> (memory \<times> dict list) result" where
  "recovered stamp i current m db =
     bind_result (get_memory_checkpoint i db) (\<lambda>checkpoint.
       let anchor = (case checkpoint of None \<Rightarrow> None | Some r \<Rightarrow> sm_anchor r) in
       bind_result (list_messages_after i anchor db) (\<lambda>delta.
         let messages = map (message_dict stamp) delta in
         Inr (restore_memory (case checkpoint of None \<Rightarrow> [] | Some r \<Rightarrow> sm_summary r) [] anchor m,
              if list_ex (\<lambda>d. dict_get d ''id'' = JStr (pm_id current)) messages then messages
              else messages @ [message_dict stamp current])))"

definition hot_state :: "window_manager \<Rightarrow> string \<Rightarrow> hot_window" where
  "hot_state mgr i =
     (case wm_states mgr i of
        Some h \<Rightarrow> h
      | None \<Rightarrow> \<lparr>hw_memory = new_memory (wm_budget mgr) (wm_recent_window mgr), hw_needs_recovery = True\<rparr>)"

definition context_for_turn ::
  "(int \<Rightarrow> string) \<Rightarrow> window_fault \<Rightarrow> optimizer_answer \<Rightarrow> int \<Rightarrow> string \<Rightarrow> message_row \<Rightarrow> window_manager
     \<Rightarrow> app_db \<Rightarrow> dict list turn_result \<times> window_manager \<times> app_db" where
  "context_for_turn stamp fault answer now i current mgr db =
     (let h = hot_state mgr i; cold = hw_needs_recovery h in
      if cold \<and> fault = Cancelled_Reading then (Turn_Cancelled, put_window i (hw_memory h) True mgr, db)
      else if cold \<and> fault = Read_Failed
      then (Turn_Failed (BuiltinError ''OperationalError''), put_window i (hw_memory h) True mgr, db)
      else (case (if cold then recovered stamp i current (hw_memory h) db
                  else Inr (hw_memory h, [message_dict stamp current])) of
          Inl err \<Rightarrow> (Turn_Failed err, put_window i (hw_memory h) cold mgr, db)
        | Inr (m, messages) \<Rightarrow>
            (case advance_window fault answer now i m messages db of
               (Turned window, m', db') \<Rightarrow>
                 (Turned (filter (\<lambda>d. dict_get d ''id'' \<noteq> JStr (pm_id current)) window),
                  put_window i m' False mgr, db')
             | (Turn_Failed err, m', db') \<Rightarrow> (Turn_Failed err, put_window i m' cold mgr, db')
             | (Turn_Cancelled, m', db') \<Rightarrow> (Turn_Cancelled, put_window i m' True mgr, db'))))"

text \<open>\<^verbatim>\<open>record_persisted_message\<close>: an answer of the agent enters the window, if there is one\<close>

definition record_persisted_message ::
  "(int \<Rightarrow> string) \<Rightarrow> window_fault \<Rightarrow> optimizer_answer \<Rightarrow> int \<Rightarrow> string \<Rightarrow> message_row \<Rightarrow> window_manager
     \<Rightarrow> app_db \<Rightarrow> unit turn_result \<times> window_manager \<times> app_db" where
  "record_persisted_message stamp fault answer now i message mgr db =
     (case wm_states mgr i of
        None \<Rightarrow> (Turned (), mgr, db)
      | Some h \<Rightarrow>
          (case advance_window fault answer now i (hw_memory h) [message_dict stamp message] db of
             (Turned _, m', db') \<Rightarrow> (Turned (), put_window i m' (hw_needs_recovery h) mgr, db')
           | (Turn_Failed err, m', db') \<Rightarrow> (Turn_Failed err, put_window i m' (hw_needs_recovery h) mgr, db')
           | (Turn_Cancelled, m', db') \<Rightarrow> (Turn_Cancelled, put_window i m' True mgr, db')))"

end
