(* ===== verification/Memory_Properties.thy ===== *)
theory Memory_Properties
  imports Session_Memory
begin

text \<open>
  What the memory of a session keeps: a bounded window, and every message of the session after the anchor of
  the window that ever entered it, through cancellations, failures and restarts.
\<close>

section \<open>Messages after an anchor\<close>

definition after_anchor :: "app_db \<Rightarrow> string \<Rightarrow> string option \<Rightarrow> message_row list" where
  "after_anchor db i a =
     (case a of
        None \<Rightarrow> history db i
      | Some mid \<Rightarrow>
          (if mid = [] then history db i
           else (case find_message db i mid of
               None \<Rightarrow> history db i
             | Some anchor \<Rightarrow> filter (\<lambda>m. message_order anchor < message_order m) (history db i))))"

lemma list_messages_after: "list_messages_after i a db = bind_result (load_session db i) (\<lambda>_. Inr (after_anchor db i a))"
  by (simp add: list_messages_after_def after_anchor_def)

text \<open>Message identifiers are the primary key, and a uuid is not empty\<close>

definition messages_ok :: "app_db \<Rightarrow> bool" where
  "messages_ok db \<longleftrightarrow> unique_key pm_id (ap_messages db) \<and> list_all (\<lambda>m. pm_id m \<noteq> []) (ap_messages db)"

lemma set_history [simp]: "set (history db i) = {m \<in> set (ap_messages db). pm_session_id m = i}"
  by (simp add: history_def)

lemma history_sorted: "messages_ok db \<Longrightarrow> sorted_wrt (\<lambda>a b. message_order a < message_order b) (history db i)"
proof -
  assume ok: "messages_ok db"
  have inj: "inj_on message_order (set (ap_messages db))"
    using ok unique_keyD by (fastforce simp: inj_on_def message_order_def messages_ok_def)
  have "distinct (map pm_id (ap_messages db))" using ok by (simp add: messages_ok_def unique_key_def)
  then have "distinct (history db i)" by (simp add: history_def distinct_map)
  moreover have "inj_on message_order (set (history db i))" using inj by (rule inj_on_subset) auto
  ultimately have "distinct (map message_order (history db i))" by (simp only: distinct_map)
  moreover have "sorted (map message_order (history db i))" by (simp add: history_def)
  ultimately have "sorted_wrt (<) (map message_order (history db i))" by (simp only: strict_sorted_iff)
  then show ?thesis by (simp only: sorted_wrt_map)
qed

lemma find_message_Some:
  assumes "messages_ok db" and "x \<in> set (history db i)"
  shows "find_message db i (pm_id x) = Some x"
proof -
  have "find (\<lambda>m. pm_session_id m = i \<and> pm_id m = pm_id x) ms = Some x"
    if "unique_key pm_id ms" "x \<in> set ms" "pm_session_id x = i" for ms
    using that by (induction ms) (auto simp: unique_key_def image_iff)
  with assms show ?thesis by (simp add: find_message_def messages_ok_def)
qed

lemma filter_after_sorted:
  assumes "sorted_wrt (\<lambda>a b. (f a :: 'k :: linorder) < f b) xs" and "k < length xs"
  shows "filter (\<lambda>m. f (xs ! k) < f m) xs = drop (Suc k) xs"
  using assms
proof (induction xs arbitrary: k)
  case (Cons x xs)
  show ?case
  proof (cases k)
    case 0
    with Cons.prems show ?thesis by simp
  next
    case (Suc l)
    then have "\<not> f (xs ! l) < f x" using Cons.prems by (simp add: less_not_sym)
    with Suc Cons show ?thesis by simp
  qed
qed simp

text \<open>The messages after an anchor are a suffix of the history, and going on from a message of it is too\<close>

lemma after_message:
  assumes "messages_ok db" and "k < length (history db i)"
  shows "after_anchor db i (Some (pm_id (history db i ! k))) = drop (Suc k) (history db i)"
proof -
  let ?x = "history db i ! k"
  have x: "?x \<in> set (history db i)" using assms(2) nth_mem by blast
  then have "pm_id ?x \<noteq> []" using assms(1) by (auto simp: messages_ok_def list_all_iff)
  then show ?thesis
    using find_message_Some [OF assms(1) x] filter_after_sorted [OF history_sorted [OF assms(1)] assms(2)]
    by (simp add: after_anchor_def)
qed

lemma after_suffix:
  assumes "messages_ok db"
  obtains j where "after_anchor db i a = drop j (history db i)"
proof (cases "\<exists>mid x. a = Some mid \<and> mid \<noteq> [] \<and> find_message db i mid = Some x")
  case True
  then obtain mid x where a: "a = Some mid" "find_message db i mid = Some x" by blast
  then have x: "x \<in> set (history db i)" "pm_id x = mid" by (auto simp: find_message_def dest: find_SomeD)
  then obtain k where "k < length (history db i)" "history db i ! k = x" by (metis in_set_conv_nth)
  with after_message [OF assms this(1)] a x(2) that show thesis by auto
next
  case False
  then have "after_anchor db i a = drop 0 (history db i)"
    by (auto simp: after_anchor_def split: option.splits)
  then show thesis by (rule that)
qed

lemma after_next:
  assumes "messages_ok db" and "0 < n" and "n \<le> length (after_anchor db i a)"
  shows "after_anchor db i (Some (pm_id (last (take n (after_anchor db i a))))) = drop n (after_anchor db i a)"
proof -
  obtain j where j: "after_anchor db i a = drop j (history db i)" using after_suffix [OF assms(1)] by blast
  let ?k = "j + n - 1"
  have k: "?k < length (history db i)" using assms(2,3) by (simp add: j)
  have "last (take n (drop j (history db i))) = history db i ! ?k"
    using assms(2,3) by (simp add: j last_conv_nth)
  with after_message [OF assms(1) k] assms(2) show ?thesis by (simp add: j add.commute)
qed

lemma after_other:
  assumes "messages_ok db" and "x \<in> set (after_anchor db i a)"
  shows "a \<noteq> Some (pm_id x)"
proof
  assume a: "a = Some (pm_id x)"
  have x: "x \<in> set (history db i)" using assms(2) by (auto simp: after_anchor_def split: option.splits if_splits)
  then have "pm_id x \<noteq> []" using assms(1) by (auto simp: messages_ok_def list_all_iff)
  with assms(2) find_message_Some [OF assms(1) x] show False by (simp add: after_anchor_def a)
qed

lemma after_in_session: "x \<in> set (after_anchor db i a) \<Longrightarrow> x \<in> set (ap_messages db) \<and> pm_session_id x = i"
  by (auto simp: after_anchor_def split: option.splits if_splits)

lemma after_cong: "ap_messages db' = ap_messages db \<Longrightarrow> after_anchor db' i a = after_anchor db i a"
  by (simp add: after_anchor_def history_def find_message_def cong: option.case_cong if_cong)

text \<open>A newest message comes last\<close>

definition newest :: "app_db \<Rightarrow> message_row \<Rightarrow> bool" where
  "newest db m \<longleftrightarrow> pm_id m \<noteq> [] \<and> (\<forall>x \<in> set (ap_messages db). pm_id x \<noteq> pm_id m)
     \<and> (\<forall>x \<in> set (ap_messages db). pm_session_id x = pm_session_id m \<longrightarrow> message_order x < message_order m)"

lemma insort_key_last:
  fixes f :: "'a \<Rightarrow> 'k :: linorder"
  assumes "f x \<le> f m"
  shows "insort_key f x (ys @ [m]) = insort_key f x ys @ [m]"
  using assms by (induction ys) auto

lemma sort_key_last:
  fixes f :: "'a \<Rightarrow> 'k :: linorder"
  assumes "\<forall>x \<in> set xs. f x \<le> f m"
  shows "sort_key f (xs @ [m]) = sort_key f xs @ [m]"
  using assms by (induction xs) (auto simp: insort_key_last)

lemma history_add:
  "newest db m \<Longrightarrow> pm_session_id m = i \<Longrightarrow> history (add_message m db) i = history db i @ [m]"
  by (auto simp: history_def add_message_def newest_def intro!: sort_key_last less_imp_le)

lemma messages_ok_add: "messages_ok db \<Longrightarrow> newest db m \<Longrightarrow> messages_ok (add_message m db)"
  by (auto simp: messages_ok_def newest_def add_message_def unique_key_append1)

lemma after_add:
  assumes "messages_ok db" and "newest db m" and "pm_session_id m = i"
  assumes "\<And>mid. a = Some mid \<Longrightarrow> mid \<noteq> pm_id m"
  shows "after_anchor (add_message m db) i a = after_anchor db i a @ [m]"
proof -
  have "find_message (add_message m db) i mid = find_message db i mid" if "mid \<noteq> pm_id m" for mid
    using that by (auto simp: find_message_def add_message_def find_append split: option.split)
  moreover have "message_order x < message_order m" if "find_message db i mid = Some x" for mid x
    using that assms(2,3) by (auto simp: find_message_def newest_def dest: find_SomeD)
  ultimately show ?thesis
    using history_add [OF assms(2,3)] assms(4) by (auto simp: after_anchor_def split: option.splits)
qed

section \<open>The window\<close>

lemma id_of_dict [simp]: "dict_get (message_dict stamp m) ''id'' = JStr (pm_id m)"
  by (simp add: message_dict_def dict_get_def)

text \<open>
  A message may be stored without entering the window of a running process: its turn failed before it
  asked for the context, or it answers an input that was relayed. \<open>missed\<close> holds the identifiers of
  those messages; the window has every other message after its anchor.
\<close>

definition kept :: "string set \<Rightarrow> message_row list \<Rightarrow> message_row list" where
  "kept missed ms = filter (\<lambda>x. pm_id x \<notin> missed) ms"

definition covers :: "(int \<Rightarrow> string) \<Rightarrow> string set \<Rightarrow> app_db \<Rightarrow> string \<Rightarrow> memory \<Rightarrow> bool" where
  "covers stamp missed db i m \<longleftrightarrow> me_messages m = map (message_dict stamp) (kept missed (after_anchor db i (me_anchor m)))"

lemma after_sorted:
  assumes "messages_ok db"
  shows "sorted_wrt (\<lambda>a b. message_order a < message_order b) (after_anchor db i a)"
proof -
  obtain j where "after_anchor db i a = drop j (history db i)" using after_suffix [OF assms] by blast
  then show ?thesis using history_sorted [OF assms] by (simp add: sorted_wrt_drop)
qed

lemma after_distinct: "messages_ok db \<Longrightarrow> distinct (after_anchor db i a)"
proof -
  have "sorted_wrt (\<lambda>a b. message_order a < message_order b) xs \<Longrightarrow> distinct xs" for xs :: "message_row list"
    by (induction xs) auto
  then show "messages_ok db \<Longrightarrow> distinct (after_anchor db i a)" using after_sorted by blast
qed

lemma kept_next:
  assumes ok: "messages_ok db" and n: "0 < n" "n \<le> length (kept missed (after_anchor db i a))"
  shows "kept missed (after_anchor db i (Some (pm_id (last (take n (kept missed (after_anchor db i a)))))))
    = drop n (kept missed (after_anchor db i a))"
proof -
  define A where "A = after_anchor db i a"
  define K where "K = kept missed A"
  define x where "x = last (take n K)"
  have ne: "take n K \<noteq> []" using n by (auto simp: K_def A_def)
  then have "x \<in> set K" unfolding x_def by (meson in_set_takeD last_in_set)
  then have x: "x \<in> set A" "pm_id x \<notin> missed" by (simp_all add: K_def kept_def)
  then obtain as bs where A: "A = as @ x # bs" by (meson split_list)
  have "after_anchor db i (Some (pm_id (last (take (Suc (length as)) A)))) = drop (Suc (length as)) A"
    unfolding A_def by (rule after_next [OF ok]) (simp_all add: A_def [symmetric] A)
  then have after: "after_anchor db i (Some (pm_id x)) = bs" by (simp add: A)
  have K: "K = kept missed as @ x # kept missed bs" using x(2) by (simp add: K_def A kept_def)
  have "butlast (take n K) @ [x] = take n K" using ne by (simp add: x_def)
  then have "(butlast (take n K) @ [x]) @ drop n K = K" by (simp only: append_take_drop_id)
  then have split: "butlast (take n K) @ x # drop n K = kept missed as @ x # kept missed bs"
    by (simp only: K [symmetric] append.assoc append_Cons append_Nil)
  have "distinct A" unfolding A_def by (rule after_distinct [OF ok])
  then have "x \<notin> set (kept missed as)" "x \<notin> set (kept missed bs)" by (auto simp: A kept_def)
  then have "drop n K = kept missed bs" using split [symmetric] by (subst (asm) append_Cons_eq_iff) simp_all
  then show ?thesis using after by (simp add: K_def A_def x_def)
qed

lemma append_covers:
  assumes ok: "messages_ok db"
    and candidates: "me_messages m @ new = map (message_dict stamp) (kept missed (after_anchor db i (me_anchor m)))"
  shows "covers stamp missed db i (append_messages answer m new)"
    and "me_anchor (append_messages answer m new) \<noteq> me_anchor m \<Longrightarrow>
      \<exists>x \<in> set (ap_messages db). pm_id x \<notin> missed \<and> me_anchor (append_messages answer m new) = Some (pm_id x)"
proof -
  let ?K = "kept missed (after_anchor db i (me_anchor m))" and ?m' = "append_messages answer m new"
  let ?n = "evicted_count m (me_messages m @ new)"
  have "covers stamp missed db i ?m' \<and> (me_anchor ?m' \<noteq> me_anchor m \<longrightarrow>
      (\<exists>x \<in> set (ap_messages db). pm_id x \<notin> missed \<and> me_anchor ?m' = Some (pm_id x)))"
  proof (cases "?n = 0")
    case True
    with candidates show ?thesis by (simp add: append_messages_def covers_def)
  next
    case False
    then have n: "0 < ?n" "?n \<le> length ?K"
      using candidates [THEN arg_cong, of length] by (auto simp: evicted_count_def split: if_splits)
    then have ne: "take ?n ?K \<noteq> []" by auto
    let ?x = "last (take ?n ?K)"
    have "?x \<in> set ?K" using last_in_set [OF ne] by (auto dest: in_set_takeD)
    then have mem: "?x \<in> set (ap_messages db)" "pm_id ?x \<notin> missed"
      using after_in_session by (auto simp: kept_def)
    then have "pm_id ?x \<noteq> []" using ok by (auto simp: messages_ok_def list_all_iff)
    moreover have "dict_get (last (take ?n (map (message_dict stamp) ?K))) ''id'' = JStr (pm_id ?x)"
      using ne by (simp add: take_map last_map)
    ultimately have fields: "me_anchor ?m' = Some (pm_id ?x)"
      "me_messages ?m' = map (message_dict stamp) (drop ?n ?K)"
      using False by (simp_all add: append_messages_def Let_def candidates drop_map)
    then have "covers stamp missed db i ?m'" using kept_next [OF ok n] by (simp add: covers_def)
    then show ?thesis using fields(1) mem by blast
  qed
  then show "covers stamp missed db i ?m'"
    "me_anchor ?m' \<noteq> me_anchor m \<Longrightarrow>
      \<exists>x \<in> set (ap_messages db). pm_id x \<notin> missed \<and> me_anchor ?m' = Some (pm_id x)"
    by blast+
qed

section \<open>Calls on the windows\<close>

lemma checkpoint_frame:
  assumes "update_memory_checkpoint now i summary anchor db = Inr db'"
  shows "ap_messages db' = ap_messages db" and "ap_sessions db' = ap_sessions db"
    and "find_memory db' i = Some \<lparr>sm_session_id = i, sm_summary = summary, sm_anchor = Some anchor, sm_updated_at = now\<rparr>"
    and "\<And>r. r \<in> set (ap_memories db') \<Longrightarrow> r \<in> set (ap_memories db) \<or> sm_anchor r = Some anchor"
proof -
  let ?r = "\<lparr>sm_session_id = i, sm_summary = summary, sm_anchor = Some anchor, sm_updated_at = now\<rparr>"
  have db': "db' = db\<lparr>ap_memories := (case find_memory db i of None \<Rightarrow> ap_memories db @ [?r]
      | Some _ \<Rightarrow> update_rows (\<lambda>x. sm_session_id x = i) (\<lambda>_. ?r) (ap_memories db))\<rparr>"
    using assms by (auto simp: update_memory_checkpoint_def bind_result_Inr Let_def split: option.splits)
  show "ap_messages db' = ap_messages db" "ap_sessions db' = ap_sessions db" by (simp_all add: db')
  show "find_memory db' i = Some ?r"
  proof (cases "find_memory db i")
    case None
    then show ?thesis by (simp add: db' find_memory_def find_append)
  next
    case (Some r0)
    have "find (\<lambda>r. sm_session_id r = i) (update_rows (\<lambda>x. sm_session_id x = i) (\<lambda>_. ?r) rows)
        = map_option (\<lambda>r. if sm_session_id r = i then ?r else r) (find (\<lambda>r. sm_session_id r = i) rows)" for rows
      by (rule find_update_rows) simp
    with Some show ?thesis by (auto simp: db' find_memory_def dest: find_SomeD)
  qed
  show "r \<in> set (ap_memories db) \<or> sm_anchor r = Some anchor" if "r \<in> set (ap_memories db')" for r
    using that by (auto simp: db' in_update_rows split: option.splits if_splits)
qed

text \<open>An anchor is a stored message that was in a window\<close>

definition anchor_ok :: "string set \<Rightarrow> app_db \<Rightarrow> string option \<Rightarrow> bool" where
  "anchor_ok missed db a \<longleftrightarrow> (\<forall>mid. a = Some mid \<longrightarrow> mid \<in> pm_id ` set (ap_messages db) \<and> mid \<notin> missed)"

definition anchors_ok :: "string set \<Rightarrow> app_db \<Rightarrow> bool" where
  "anchors_ok missed db \<longleftrightarrow> (\<forall>r \<in> set (ap_memories db). anchor_ok missed db (sm_anchor r))"

definition window_ok :: "(int \<Rightarrow> string) \<Rightarrow> string set \<Rightarrow> app_db \<Rightarrow> string \<Rightarrow> memory \<Rightarrow> bool" where
  "window_ok stamp missed db i m \<longleftrightarrow> covers stamp missed db i m \<and> anchor_ok missed db (me_anchor m)"

lemma anchor_ok_cong: "ap_messages db' = ap_messages db \<Longrightarrow> anchor_ok missed db' a = anchor_ok missed db a"
  by (simp add: anchor_ok_def)

text \<open>What one append with its checkpoint does, wherever it stops\<close>

lemma advance_effect:
  assumes ok: "messages_ok db" "anchors_ok missed db" and anchor: "anchor_ok missed db (me_anchor m)"
    and candidates: "me_messages m @ new = map (message_dict stamp) (kept missed (after_anchor db i (me_anchor m)))"
    and adv: "advance_window fault answer now i m new db = (res, m', db')"
  shows "ap_messages db' = ap_messages db \<and> anchors_ok missed db'"
    and "res \<noteq> Turn_Cancelled \<Longrightarrow> window_ok stamp missed db' i m'"
    and "res = Turned w \<Longrightarrow> w = render_window m'"
proof -
  let ?m = "append_messages answer m new"
  note app = append_covers [OF ok(1) candidates, of answer]
  have anchor': "anchor_ok missed db (me_anchor ?m)"
    using app(2) anchor by (cases "me_anchor ?m = me_anchor m") (auto simp: anchor_ok_def)
  have frame: "ap_messages db' = ap_messages db \<and> anchors_ok missed db'"
    if u: "update_memory_checkpoint now i s mid db = Inr db'" and mid: "anchor_ok missed db (Some mid)" for s mid db'
  proof -
    have "anchor_ok missed db (sm_anchor r)" if "r \<in> set (ap_memories db')" for r
      using checkpoint_frame(4) [OF u that] ok(2) mid by (auto simp: anchors_ok_def)
    with checkpoint_frame(1) [OF u] show ?thesis
      by (simp add: anchors_ok_def anchor_ok_cong [OF checkpoint_frame(1) [OF u]])
  qed
  show "ap_messages db' = ap_messages db \<and> anchors_ok missed db'"
    using adv ok(2) frame anchor' unfolding advance_window_def Let_def
    by (auto split: if_splits option.splits sum.splits)
  then have "window_ok stamp missed db' i ?m"
    using app(1) anchor' after_cong [of db' db] anchor_ok_cong [of db' db] by (simp add: window_ok_def covers_def)
  then show "res \<noteq> Turn_Cancelled \<Longrightarrow> window_ok stamp missed db' i m'"
    using adv unfolding advance_window_def Let_def
    by (auto split: if_splits option.splits sum.splits)
  show "res = Turned w \<Longrightarrow> w = render_window m'"
    using adv unfolding advance_window_def Let_def
    by (auto split: if_splits option.splits sum.splits)
qed

text \<open>A stored message that may enter the window: no later one of its session did\<close>

definition awaiting :: "string set \<Rightarrow> app_db \<Rightarrow> message_row \<Rightarrow> bool" where
  "awaiting missed db c \<longleftrightarrow> c \<in> set (ap_messages db) \<and> pm_id c \<in> missed
     \<and> (\<forall>x \<in> set (ap_messages db). pm_session_id x = pm_session_id c \<longrightarrow> message_order c < message_order x \<longrightarrow> pm_id x \<in> missed)"

lemma awaiting_after:
  assumes ok: "messages_ok db" and c: "awaiting missed db c" and a: "anchor_ok missed db a"
  shows "c \<in> set (after_anchor db (pm_session_id c) a)"
proof (cases "\<exists>mid y. a = Some mid \<and> mid \<noteq> [] \<and> find_message db (pm_session_id c) mid = Some y")
  case True
  then obtain mid y where y: "a = Some mid" "mid \<noteq> []" "find_message db (pm_session_id c) mid = Some y" by blast
  then have m: "y \<in> set (ap_messages db)" "pm_session_id y = pm_session_id c" "pm_id y = mid"
    by (auto simp: find_message_def dest: find_SomeD)
  have "mid \<notin> missed" using a y(1) by (simp add: anchor_ok_def)
  then have "\<not> message_order c < message_order y" "pm_id y \<noteq> pm_id c" using c m by (auto simp: awaiting_def)
  then have "message_order y < message_order c" by (auto simp: message_order_def less_le)
  with c y show ?thesis by (simp add: after_anchor_def awaiting_def)
next
  case False
  then have "after_anchor db (pm_session_id c) a = history db (pm_session_id c)"
    by (auto simp: after_anchor_def split: option.splits)
  with c show ?thesis by (simp add: awaiting_def)
qed

lemma hot_candidates:
  assumes ok: "messages_ok db" and c: "awaiting missed db c" and w: "window_ok stamp missed db (pm_session_id c) m"
  shows "me_messages m @ [message_dict stamp c]
      = map (message_dict stamp) (kept (missed - {pm_id c}) (after_anchor db (pm_session_id c) (me_anchor m)))"
proof -
  let ?A = "after_anchor db (pm_session_id c) (me_anchor m)"
  have "c \<in> set ?A" using awaiting_after [OF ok c] w by (simp add: window_ok_def)
  then obtain as bs where A: "?A = as @ c # bs" by (meson split_list)
  have order: "message_order x < message_order c" if "x \<in> set as" for x
    using after_sorted [OF ok, of "pm_session_id c" "me_anchor m"] that by (simp add: A sorted_wrt_append)
  have later: "message_order c < message_order x \<and> pm_id x \<in> missed" if "x \<in> set bs" for x
  proof -
    have "message_order c < message_order x"
      using after_sorted [OF ok, of "pm_session_id c" "me_anchor m"] that by (simp add: A sorted_wrt_append)
    moreover have "x \<in> set (ap_messages db) \<and> pm_session_id x = pm_session_id c"
      by (rule after_in_session [of _ _ _ "me_anchor m"]) (simp add: A that)
    ultimately show ?thesis using c by (simp add: awaiting_def)
  qed
  have ids: "pm_id x \<noteq> pm_id c" if "x \<in> set as \<union> set bs" for x
  proof
    assume "pm_id x = pm_id c"
    moreover have "x \<in> set (ap_messages db)" by (rule after_in_session [of _ db "pm_session_id c" "me_anchor m", THEN conjunct1]) (use A that in auto)
    ultimately have "x = c" using ok c unique_keyD by (fastforce simp: messages_ok_def awaiting_def)
    with that order later show False by auto
  qed
  have "kept (missed - {pm_id c}) ?A = kept missed as @ [c]"
    using ids later by (auto simp: A kept_def intro!: filter_cong)
  moreover have "kept missed ?A = kept missed as"
    using later c by (auto simp: A kept_def awaiting_def)
  ultimately show ?thesis using w by (simp add: window_ok_def covers_def)
qed

text \<open>The messages of a session; a window that is restored misses none of them\<close>

definition session_ids :: "app_db \<Rightarrow> string \<Rightarrow> string set" where
  "session_ids db i = pm_id ` {x \<in> set (ap_messages db). pm_session_id x = i}"

lemma kept_session: "kept (missed - session_ids db i) (after_anchor db i a) = after_anchor db i a"
proof -
  have "pm_id x \<notin> missed - session_ids db i" if "x \<in> set (after_anchor db i a)" for x
    using after_in_session [OF that] by (auto simp: session_ids_def)
  then show ?thesis by (simp add: kept_def)
qed

lemma recovered_candidates:
  assumes ok: "messages_ok db" "anchors_ok missed db" and c: "awaiting missed db c" "pm_session_id c = i"
    and rec: "recovered stamp i c m0 db = Inr (m, new)"
  shows "me_messages m @ new = map (message_dict stamp) (after_anchor db i (me_anchor m))"
    and "anchor_ok missed db (me_anchor m)"
proof -
  let ?a = "case find_memory db i of None \<Rightarrow> None | Some r \<Rightarrow> sm_anchor r"
  have "r \<in> set (ap_memories db)" if "find_memory db i = Some r" for r
    using that by (auto simp: find_memory_def dest: find_SomeD)
  then have a: "anchor_ok missed db ?a"
    using ok(2) by (auto simp: anchors_ok_def anchor_ok_def split: option.splits)
  have "c \<in> set (after_anchor db i ?a)" using awaiting_after [OF ok(1) c(1) a] c(2) by simp
  then have "list_ex (\<lambda>d. dict_get d ''id'' = JStr (pm_id c)) (map (message_dict stamp) (after_anchor db i ?a))"
    by (auto simp: list_ex_iff)
  then have "m = restore_memory (case find_memory db i of None \<Rightarrow> [] | Some r \<Rightarrow> sm_summary r) [] ?a m0"
    "new = map (message_dict stamp) (after_anchor db i ?a)"
    using rec by (auto simp: recovered_def bind_result_Inr get_memory_checkpoint_def list_messages_after Let_def)
  with a show "me_messages m @ new = map (message_dict stamp) (after_anchor db i (me_anchor m))"
    "anchor_ok missed db (me_anchor m)"
    by (simp_all add: restore_memory_def)
qed

section \<open>Histories\<close>

text \<open>
  A history of one process after the other over one application database. A message is stored; a turn asks
  for the context of a stored user message, with any fault; a stored answer is recorded after a turn that
  succeeded; the process ends and another one starts with no windows; a session is closed. A turn that
  fails between storing its message and asking for the context, and the answer to an input that was relayed,
  are messages that are stored and nothing more. The same rules serve every session.
\<close>

definition still_missed :: "window_manager \<Rightarrow> app_db \<Rightarrow> message_row \<Rightarrow> string set \<Rightarrow> string set" where
  "still_missed mgr db c missed =
     missed - (if hw_needs_recovery (hot_state mgr (pm_session_id c)) then session_ids db (pm_session_id c) else {pm_id c})"

inductive memory_step ::
  "(int \<Rightarrow> string) \<Rightarrow> window_manager \<times> app_db \<times> string set \<Rightarrow> window_manager \<times> app_db \<times> string set \<Rightarrow> bool" for stamp where
  store: "newest db c \<Longrightarrow> memory_step stamp (mgr, db, missed) (mgr, add_message c db, insert (pm_id c) missed)"
| turn: "awaiting missed db c \<Longrightarrow>
    context_for_turn stamp fault answer now (pm_session_id c) c mgr db = (res, mgr', db') \<Longrightarrow>
    memory_step stamp (mgr, db, missed) (mgr', db', still_missed mgr db c missed)"
| reply: "awaiting missed db r \<Longrightarrow> (\<And>h. wm_states mgr (pm_session_id r) = Some h \<Longrightarrow> \<not> hw_needs_recovery h) \<Longrightarrow>
    record_persisted_message stamp fault answer now (pm_session_id r) r mgr db = (res', mgr', db') \<Longrightarrow>
    memory_step stamp (mgr, db, missed) (mgr', db', missed - {pm_id r})"
| restart: "memory_step stamp (mgr, db, missed) (new_manager (wm_budget mgr) (wm_recent_window mgr), db, missed)"
| close: "memory_step stamp (mgr, db, missed) (drop_window i mgr, db, missed)"

inductive_cases memory_stepE [consumes 1, case_names store turn reply restart close]:
  "memory_step stamp (mgr, db, missed) (mgr', db', missed')"

definition memories_ok :: "(int \<Rightarrow> string) \<Rightarrow> string set \<Rightarrow> window_manager \<Rightarrow> app_db \<Rightarrow> bool" where
  "memories_ok stamp missed mgr db \<longleftrightarrow> messages_ok db \<and> anchors_ok missed db
     \<and> (\<forall>i h. wm_states mgr i = Some h \<longrightarrow> \<not> hw_needs_recovery h \<longrightarrow> window_ok stamp missed db i (hw_memory h))"

lemma memories_okD:
  assumes "memories_ok stamp missed mgr db"
  shows "messages_ok db" "anchors_ok missed db"
    "\<And>i h. wm_states mgr i = Some h \<Longrightarrow> \<not> hw_needs_recovery h \<Longrightarrow> window_ok stamp missed db i (hw_memory h)"
  using assms by (simp_all add: memories_ok_def)

text \<open>Storing a message\<close>

lemma anchor_ok_add:
  "newest db c \<Longrightarrow> anchor_ok missed db a \<Longrightarrow> anchor_ok (insert (pm_id c) missed) (add_message c db) a"
  unfolding anchor_ok_def add_message_def newest_def by (simp add: image_iff) metis

lemma window_ok_add:
  assumes ok: "messages_ok db" and c: "newest db c" and w: "window_ok stamp missed db j m"
  shows "window_ok stamp (insert (pm_id c) missed) (add_message c db) j m"
proof -
  have a: "anchor_ok missed db (me_anchor m)" using w by (simp add: window_ok_def)
  have old: "pm_id x \<noteq> pm_id c" if "x \<in> set (after_anchor db j (me_anchor m))" for x
    using after_in_session [OF that] c by (auto simp: newest_def)
  have "kept (insert (pm_id c) missed) (after_anchor (add_message c db) j (me_anchor m)) = kept missed (after_anchor db j (me_anchor m))"
  proof (cases "pm_session_id c = j")
    case True
    have "mid \<noteq> pm_id c" if "me_anchor m = Some mid" for mid
      using a c that by (auto simp: anchor_ok_def newest_def)
    then have "after_anchor (add_message c db) j (me_anchor m) = after_anchor db j (me_anchor m) @ [c]"
      using ok c True by (intro after_add) auto
    with old show ?thesis by (auto simp: kept_def intro!: filter_cong)
  next
    case False
    then have "history (add_message c db) j = history db j" by (simp add: history_def add_message_def)
    moreover have "find_message (add_message c db) j mid = find_message db j mid" for mid
      using False by (simp add: find_message_def add_message_def find_append split: option.split)
    ultimately have "after_anchor (add_message c db) j (me_anchor m) = after_anchor db j (me_anchor m)"
      by (simp add: after_anchor_def cong: option.case_cong if_cong)
    with old show ?thesis by (auto simp: kept_def intro!: filter_cong)
  qed
  with w anchor_ok_add [OF c] show ?thesis by (simp add: window_ok_def covers_def)
qed

lemma memories_ok_store:
  assumes inv: "memories_ok stamp missed mgr db" and c: "newest db c"
  shows "memories_ok stamp (insert (pm_id c) missed) mgr (add_message c db)"
proof -
  have "anchors_ok (insert (pm_id c) missed) (add_message c db)"
    using memories_okD(2) [OF inv] anchor_ok_add [OF c] by (simp add: anchors_ok_def) (simp add: add_message_def)
  with memories_okD [OF inv] messages_ok_add [OF _ c] window_ok_add [OF _ c] show ?thesis
    by (simp add: memories_ok_def)
qed

text \<open>A call on one window: the other sessions see neither the messages that entered nor the checkpoint\<close>

lemma anchor_ok_less: "anchor_ok missed db a \<Longrightarrow> gone \<subseteq> missed \<Longrightarrow> anchor_ok gone db a"
  by (auto simp: anchor_ok_def)

lemma window_other:
  assumes ok: "messages_ok db" and w: "window_ok stamp missed db j m" and gone: "gone \<subseteq> missed" "missed - gone \<subseteq> session_ids db i"
    and "i \<noteq> j" and db': "ap_messages db' = ap_messages db"
  shows "window_ok stamp gone db' j m"
proof -
  have "pm_id x \<notin> missed - gone" if "x \<in> set (after_anchor db j (me_anchor m))" for x
  proof
    assume "pm_id x \<in> missed - gone"
    then obtain y where y: "y \<in> set (ap_messages db)" "pm_session_id y = i" "pm_id y = pm_id x"
      using gone(2) by (auto simp: session_ids_def)
    have x: "x \<in> set (ap_messages db)" "pm_session_id x = j" using after_in_session [OF that] by simp_all
    have "y = x" using ok y(1,3) x(1) unique_keyD by (fastforce simp: messages_ok_def)
    with y(2) x(2) \<open>i \<noteq> j\<close> show False by simp
  qed
  then have "kept gone (after_anchor db j (me_anchor m)) = kept missed (after_anchor db j (me_anchor m))"
    using gone(1) by (auto simp: kept_def intro!: filter_cong)
  with w anchor_ok_less [OF _ gone(1)] show ?thesis
    by (simp add: window_ok_def covers_def after_cong [OF db'] anchor_ok_cong [OF db'])
qed

lemma memories_ok_put:
  assumes inv: "memories_ok stamp missed mgr db" and gone: "gone \<subseteq> missed" "missed - gone \<subseteq> session_ids db i"
    and db': "ap_messages db' = ap_messages db" "anchors_ok gone db'"
    and m: "\<not> recovery \<Longrightarrow> window_ok stamp gone db' i m"
  shows "memories_ok stamp gone (put_window i m recovery mgr) db'"
proof -
  have "messages_ok db'" using memories_okD(1) [OF inv] db'(1) by (simp add: messages_ok_def)
  with db'(2) m memories_okD(3) [OF inv] window_other [OF memories_okD(1) [OF inv] _ gone _ db'(1)] show ?thesis
    by (auto simp: memories_ok_def put_window_def)
qed

lemma anchors_ok_less: "anchors_ok missed db \<Longrightarrow> gone \<subseteq> missed \<Longrightarrow> anchors_ok gone db"
  using anchor_ok_less by (auto simp: anchors_ok_def)

lemma turn_effect:
  assumes inv: "memories_ok stamp missed mgr db" and c: "awaiting missed db c"
    and turn: "context_for_turn stamp fault answer now (pm_session_id c) c mgr db = (res, mgr', db')"
  shows "memories_ok stamp (still_missed mgr db c missed) mgr' db'"
    and "res = Turned window \<Longrightarrow> \<exists>m. wm_states mgr' (pm_session_id c) = Some \<lparr>hw_memory = m, hw_needs_recovery = False\<rparr>
      \<and> window_ok stamp (still_missed mgr db c missed) db' (pm_session_id c) m
      \<and> window = filter (\<lambda>d. dict_get d ''id'' \<noteq> JStr (pm_id c)) (render_window m)"
proof -
  let ?i = "pm_session_id c" and ?less = "still_missed mgr db c missed"
  let ?h = "hot_state mgr ?i"
  let ?cold = "hw_needs_recovery ?h"
  note ok = memories_okD [OF inv]
  have gone: "?less \<subseteq> missed" "missed - ?less \<subseteq> session_ids db ?i"
    using c by (auto simp: still_missed_def session_ids_def awaiting_def)
  have anchors: "anchors_ok ?less db" by (rule anchors_ok_less [OF ok(2) gone(1)])
  have hot: "window_ok stamp missed db ?i (hw_memory ?h)" if "\<not> ?cold"
    using ok(3) that by (auto simp: hot_state_def split: option.splits)
  let ?start = "if ?cold then recovered stamp ?i c (hw_memory ?h) db else Inr (hw_memory ?h, [message_dict stamp c])"
  have "memories_ok stamp ?less mgr' db' \<and> (res = Turned window \<longrightarrow>
    (\<exists>m. wm_states mgr' ?i = Some \<lparr>hw_memory = m, hw_needs_recovery = False\<rparr> \<and> window_ok stamp ?less db' ?i m
      \<and> window = filter (\<lambda>d. dict_get d ''id'' \<noteq> JStr (pm_id c)) (render_window m)))"
  proof (cases "?cold \<and> (fault = Cancelled_Reading \<or> fault = Read_Failed) \<or> (\<exists>err. ?start = Inl err)")
    case True
    then have "mgr' = put_window ?i (hw_memory ?h) True mgr \<and> db' = db \<and> \<not> (\<exists>w. res = Turned w)"
      using turn by (auto simp: context_for_turn_def Let_def split: if_splits)
    with memories_ok_put [OF inv gone refl anchors, of True] show ?thesis by auto
  next
    case False
    then obtain m new where start: "?start = Inr (m, new)" by (cases ?start) auto
    obtain r m' db1 where adv: "advance_window fault answer now ?i m new db = (r, m', db1)"
      by (metis prod_cases3)
    have "me_messages m @ new = map (message_dict stamp) (kept ?less (after_anchor db ?i (me_anchor m)))
        \<and> anchor_ok missed db (me_anchor m)"
    proof (cases ?cold)
      case True
      with start recovered_candidates [OF ok(1,2) c refl] show ?thesis
        by (simp add: still_missed_def kept_session)
    next
      case False
      with start hot_candidates [OF ok(1) c hot [OF False]] hot [OF False] show ?thesis
        by (auto simp: still_missed_def window_ok_def)
    qed
    then have candidates: "me_messages m @ new = map (message_dict stamp) (kept ?less (after_anchor db ?i (me_anchor m)))"
      "anchor_ok ?less db (me_anchor m)"
      using anchor_ok_less [OF _ gone(1)] by blast+
    note eff = advance_effect [OF ok(1) anchors candidates(2,1) adv]
    have put: "memories_ok stamp ?less (put_window ?i m' rec mgr) db1" if "rec \<or> r \<noteq> Turn_Cancelled" for rec
      using eff(1,2) that by (intro memories_ok_put [OF inv gone]) auto
    have "(mgr', db') = (case r of Turned w \<Rightarrow> (put_window ?i m' False mgr, db1)
        | Turn_Failed err \<Rightarrow> (put_window ?i m' ?cold mgr, db1) | Turn_Cancelled \<Rightarrow> (put_window ?i m' True mgr, db1))"
      "res = (case r of Turned w \<Rightarrow> Turned (filter (\<lambda>d. dict_get d ''id'' \<noteq> JStr (pm_id c)) w)
        | Turn_Failed err \<Rightarrow> Turn_Failed err | Turn_Cancelled \<Rightarrow> Turn_Cancelled)"
      using turn False start adv by (auto simp: context_for_turn_def Let_def split: turn_result.splits)
    with put eff(2,3) show ?thesis by (cases r) (auto simp: put_window_def)
  qed
  then show "memories_ok stamp ?less mgr' db'"
    "res = Turned window \<Longrightarrow> \<exists>m. wm_states mgr' ?i = Some \<lparr>hw_memory = m, hw_needs_recovery = False\<rparr>
      \<and> window_ok stamp ?less db' ?i m \<and> window = filter (\<lambda>d. dict_get d ''id'' \<noteq> JStr (pm_id c)) (render_window m)"
    by blast+
qed

lemma reply_effect:
  assumes inv: "memories_ok stamp missed mgr db" and r: "awaiting missed db r"
    and hot: "\<And>h. wm_states mgr (pm_session_id r) = Some h \<Longrightarrow> \<not> hw_needs_recovery h"
    and rec: "record_persisted_message stamp fault answer now (pm_session_id r) r mgr db = (res, mgr', db')"
  shows "memories_ok stamp (missed - {pm_id r}) mgr' db'"
proof -
  let ?i = "pm_session_id r" and ?less = "missed - {pm_id r}"
  note ok = memories_okD [OF inv]
  have gone: "?less \<subseteq> missed" "missed - ?less \<subseteq> session_ids db ?i"
    using r by (auto simp: session_ids_def awaiting_def)
  have anchors: "anchors_ok ?less db" by (rule anchors_ok_less [OF ok(2) gone(1)])
  show ?thesis
  proof (cases "wm_states mgr ?i")
    case None
    have "mgr' = mgr" "db' = db" using rec None by (simp_all add: record_persisted_message_def)
    moreover have "window_ok stamp ?less db j (hw_memory h)" if "wm_states mgr j = Some h" "\<not> hw_needs_recovery h" for j h
      using window_other [OF ok(1) ok(3) [OF that] gone _ refl] that(1) None by (cases "?i = j") auto
    ultimately show ?thesis using ok(1) anchors by (simp add: memories_ok_def)
  next
    case (Some h)
    have h: "wm_states mgr ?i = Some h" "\<not> hw_needs_recovery h" using Some hot by blast+
    have w: "window_ok stamp missed db ?i (hw_memory h)" by (rule ok(3) [OF h])
    obtain x m' db1 where adv: "advance_window fault answer now ?i (hw_memory h) [message_dict stamp r] db = (x, m', db1)"
      by (metis prod_cases3)
    have a: "anchor_ok ?less db (me_anchor (hw_memory h))"
      using w anchor_ok_less [OF _ gone(1)] by (simp add: window_ok_def)
    note eff = advance_effect [OF ok(1) anchors a hot_candidates [OF ok(1) r w] adv]
    have "memories_ok stamp ?less (put_window ?i m' rec mgr) db1" if "rec \<or> x \<noteq> Turn_Cancelled" for rec
      using eff(1,2) that by (intro memories_ok_put [OF inv gone]) auto
    moreover have "(mgr', db') = (put_window ?i m' (x = Turn_Cancelled) mgr, db1)"
      using rec h adv by (cases x) (auto simp: record_persisted_message_def)
    ultimately show ?thesis by auto
  qed
qed

lemma memories_ok_step:
  assumes "memory_step stamp (mgr, db, missed) (mgr', db', missed')" and "memories_ok stamp missed mgr db"
  shows "memories_ok stamp missed' mgr' db'"
  using assms(1)
proof (cases rule: memory_stepE)
  case store
  then show ?thesis using memories_ok_store [OF assms(2)] by blast
next
  case turn
  then show ?thesis using turn_effect(1) [OF assms(2)] by blast
next
  case reply
  then show ?thesis using reply_effect [OF assms(2)] by blast
qed (use assms(2) in \<open>auto simp: memories_ok_def new_manager_def drop_window_def\<close>)

lemma memories_ok_run:
  assumes "(memory_step stamp)\<^sup>*\<^sup>* s s'" and "memories_ok stamp (snd (snd s)) (fst s) (fst (snd s))"
  shows "memories_ok stamp (snd (snd s')) (fst s') (fst (snd s'))"
  using assms
proof (induction rule: rtranclp_induct)
  case (step s1 s2)
  then show ?case using memories_ok_step [of stamp "fst s1" "fst (snd s1)" "snd (snd s1)"] by simp
qed

lemma render_filter:
  "filter (\<lambda>d. dict_get d ''id'' \<noteq> JStr k) (render_window m)
     = (if me_summary m = [] then []
        else [[(''role'', JStr ''system''), (''content'', JStr (compacted_prefix @ me_summary m))]])
       @ filter (\<lambda>d. dict_get d ''id'' \<noteq> JStr k) (me_messages m)"
  by (simp add: render_window_def dict_get_def)

text \<open>
  C30. What the agent sees: over every history of messages stored, turns, answers, cancellations,
  database failures, closings and restarts that starts without windows, a turn that gets its context gets the
  summary of its window and after it, in the order of the conversation, exactly the stored messages of
  the session that come after the anchor of the window (the last message that was evicted), except the message of the
  turn itself and those that were stored without ever entering the window (the turn failed before it asked
  for its context, or the message answered a relayed input). When the window had to be restored, none of the
  session is left out.
\<close>

theorem window_complete:
  assumes "(memory_step stamp)\<^sup>*\<^sup>* (new_manager budget recent, db0, {}) (mgr, db, missed)"
    and "messages_ok db0" and "anchors_ok {} db0" and "awaiting missed db c"
    and "context_for_turn stamp fault answer now (pm_session_id c) c mgr db = (Turned window, mgr', db')"
  shows "\<exists>m. map_option hw_memory (wm_states mgr' (pm_session_id c)) = Some m
     \<and> window = (if me_summary m = [] then []
          else [[(''role'', JStr ''system''), (''content'', JStr (compacted_prefix @ me_summary m))]])
        @ map (message_dict stamp) (filter (\<lambda>x. pm_id x \<noteq> pm_id c \<and> pm_id x \<notin> still_missed mgr db c missed)
            (after_anchor db' (pm_session_id c) (me_anchor m)))
     \<and> (hw_needs_recovery (hot_state mgr (pm_session_id c)) \<longrightarrow>
          still_missed mgr db c missed \<inter> session_ids db (pm_session_id c) = {})"
proof -
  have "memories_ok stamp {} (new_manager budget recent) db0"
    using assms(2,3) by (simp add: memories_ok_def new_manager_def)
  with memories_ok_run [OF assms(1)] have "memories_ok stamp missed mgr db" by simp
  from turn_effect(2) [OF this assms(4,5)] obtain m where
    m: "wm_states mgr' (pm_session_id c) = Some \<lparr>hw_memory = m, hw_needs_recovery = False\<rparr>"
      "window_ok stamp (still_missed mgr db c missed) db' (pm_session_id c) m"
      "window = filter (\<lambda>d. dict_get d ''id'' \<noteq> JStr (pm_id c)) (render_window m)"
    by blast
  moreover have "filter (\<lambda>d. dict_get d ''id'' \<noteq> JStr (pm_id c)) (map (message_dict stamp) xs)
      = map (message_dict stamp) (filter (\<lambda>x. pm_id x \<noteq> pm_id c) xs)" for xs
    by (induction xs) simp_all
  ultimately show ?thesis
    by (intro exI [of _ m]) (auto simp: render_filter window_ok_def covers_def kept_def still_missed_def conj_commute)
qed

definition demo_session :: session_row where
  "demo_session = \<lparr>ss_id = ''s'', ss_project_id = [112], ss_path = ''/p'', ss_title = ''t'', ss_role = ''planning'',
     ss_status = ''active'', ss_created_at = 0, ss_updated_at = 0\<rparr>"

definition demo_app_db :: app_db where
  "demo_app_db = \<lparr>ap_projects = [], ap_sessions = [demo_session],
     ap_messages = [new_message 1 ''m1'' ''s'' ''user'' ''hello'', new_message 2 ''m2'' ''s'' ''assistant'' ''hi''],
     ap_memories = [], ap_deliveries = [], ap_results = []\<rparr>"

definition demo_asked :: app_db where
  "demo_asked = add_message (new_message 3 ''m3'' ''s'' ''user'' ''go'') demo_app_db"

definition demo_turn :: "dict list turn_result \<times> window_manager \<times> app_db" where
  "demo_turn = context_for_turn int_str Window_Ok No_Optimizer 3 ''s'' (new_message 3 ''m3'' ''s'' ''user'' ''go'')
     (new_manager 4000 4) demo_asked"

lemma demo_stored: "memory_step int_str (new_manager 4000 4, demo_app_db, {}) (new_manager 4000 4, demo_asked, {''m3''})"
proof -
  have "newest demo_app_db (new_message 3 ''m3'' ''s'' ''user'' ''go'')"
    by (simp add: newest_def demo_app_db_def new_message_def message_order_def)
  from memory_step.store [OF this, of int_str "new_manager 4000 4" "{}"] show ?thesis
    by (simp add: demo_asked_def new_message_def)
qed

lemma demo_awaiting: "awaiting {''m3''} demo_asked (new_message 3 ''m3'' ''s'' ''user'' ''go'')"
  by (simp add: awaiting_def demo_asked_def demo_app_db_def add_message_def new_message_def message_order_def)

lemma window_complete_witness:
  "fst demo_turn = Turned (map (message_dict int_str) (ap_messages demo_app_db))
   \<and> (\<exists>m missed. map_option hw_memory (wm_states (fst (snd demo_turn)) ''s'') = Some m
       \<and> map (message_dict int_str) (ap_messages demo_app_db) = (if me_summary m = [] then []
          else [[(''role'', JStr ''system''), (''content'', JStr (compacted_prefix @ me_summary m))]])
        @ map (message_dict int_str)
            (filter (\<lambda>x. pm_id x \<noteq> ''m3'' \<and> pm_id x \<notin> missed) (after_anchor (snd (snd demo_turn)) ''s'' (me_anchor m))))"
proof -
  let ?c = "new_message 3 ''m3'' ''s'' ''user'' ''go''"
  have c: "pm_session_id ?c = ''s''" "pm_id ?c = ''m3''" by (simp_all add: new_message_def)
  have first: "fst demo_turn = Turned (map (message_dict int_str) (ap_messages demo_app_db))" by code_simp
  then have r: "context_for_turn int_str Window_Ok No_Optimizer 3 (pm_session_id ?c) ?c (new_manager 4000 4) demo_asked
      = (Turned (map (message_dict int_str) (ap_messages demo_app_db)), fst (snd demo_turn), snd (snd demo_turn))"
    by (simp only: c(1) demo_turn_def prod_eq_iff fst_conv snd_conv simp_thms)
  have "messages_ok demo_app_db" "anchors_ok {} demo_app_db"
    by (simp_all add: messages_ok_def unique_key_def anchors_ok_def demo_app_db_def new_message_def)
  from window_complete [OF r_into_rtranclp [of "memory_step int_str", OF demo_stored] this demo_awaiting r] first
  show ?thesis by (simp only: c) blast
qed

section \<open>Bounds\<close>

definition bounded_memory :: "int \<Rightarrow> nat \<Rightarrow> memory \<Rightarrow> bool" where
  "bounded_memory budget recent m \<longleftrightarrow> me_budget m = budget \<and> me_recent_window m = recent
     \<and> int (length (me_summary m)) \<le> budget
     \<and> (int (estimate_size (me_messages m)) \<le> budget \<or> length (me_messages m) \<le> recent)"

lemma bound_summary_length: "0 \<le> me_budget m \<Longrightarrow> int (length (bound_summary m s)) \<le> me_budget m"
  by (auto simp: bound_summary_def Let_def)

lemma append_bounded:
  assumes "bounded_memory budget recent m" and "0 \<le> budget"
  shows "bounded_memory budget recent (append_messages answer m new)"
proof -
  note m = assms(1) [unfolded bounded_memory_def]
  show ?thesis
  proof (cases "evicted_count m (me_messages m @ new) = 0")
    case True
    then have "int (estimate_size (me_messages m @ new)) \<le> budget \<or> length (me_messages m @ new) \<le> recent"
      using m by (auto simp: evicted_count_def split: if_splits)
    with m True show ?thesis by (simp add: bounded_memory_def append_messages_def Let_def)
  next
    case False
    then have "length (drop (evicted_count m (me_messages m @ new)) (me_messages m @ new)) \<le> recent"
      using m by (auto simp: evicted_count_def split: if_splits)
    moreover have "int (length (bound_summary m s)) \<le> budget" for s
      using bound_summary_length [of m s] m assms(2) by simp
    ultimately show ?thesis using m False by (simp add: bounded_memory_def append_messages_def Let_def)
  qed
qed

lemma advance_bounded:
  assumes "bounded_memory budget recent m" and "0 \<le> budget"
    and "advance_window fault answer now i m new db = (res, m', db')"
  shows "bounded_memory budget recent m'"
  using assms(1,3) append_bounded [OF assms(1,2), of answer new]
  unfolding advance_window_def Let_def by (auto split: if_splits option.splits sum.splits)

definition bounded_windows :: "window_manager \<Rightarrow> bool" where
  "bounded_windows mgr \<longleftrightarrow>
     (\<forall>i h. wm_states mgr i = Some h \<longrightarrow> bounded_memory (wm_budget mgr) (wm_recent_window mgr) (hw_memory h))"

lemma bounded_put:
  "bounded_windows mgr \<Longrightarrow> bounded_memory (wm_budget mgr) (wm_recent_window mgr) m \<Longrightarrow>
   bounded_windows (put_window i m b mgr)"
  by (simp add: bounded_windows_def put_window_def)

lemma put_settings [simp]: "wm_budget (put_window i m b mgr) = wm_budget mgr"
  "wm_recent_window (put_window i m b mgr) = wm_recent_window mgr"
  by (simp_all add: put_window_def)

lemma bounded_turn:
  assumes inv: "bounded_windows mgr" "0 \<le> wm_budget mgr"
    and turn: "context_for_turn stamp fault answer now i c mgr db = (res, mgr', db')"
  shows "bounded_windows mgr' \<and> wm_budget mgr' = wm_budget mgr \<and> wm_recent_window mgr' = wm_recent_window mgr"
proof -
  let ?b = "bounded_memory (wm_budget mgr) (wm_recent_window mgr)"
  have hot: "?b (hw_memory (hot_state mgr i))"
    using inv by (auto simp: hot_state_def bounded_windows_def bounded_memory_def new_memory_def estimate_size_def
        split: option.splits)
  have rec: "?b m" if "recovered stamp i c m0 db = Inr (m, new)" "?b m0" for m m0 new
    using that inv(2) bound_summary_length [of m0]
    by (auto simp: recovered_def bind_result_Inr Let_def restore_memory_def bounded_memory_def estimate_size_def)
  from turn show ?thesis
    unfolding context_for_turn_def Let_def
    using hot rec [OF _ hot] bounded_put [OF inv(1)] advance_bounded [OF _ inv(2)]
    by (auto split: if_splits sum.splits prod.splits turn_result.splits)
qed

lemma bounded_reply:
  assumes inv: "bounded_windows mgr" "0 \<le> wm_budget mgr"
    and "record_persisted_message stamp fault answer now i r mgr db = (res, mgr', db')"
  shows "bounded_windows mgr' \<and> wm_budget mgr' = wm_budget mgr \<and> wm_recent_window mgr' = wm_recent_window mgr"
proof (cases "wm_states mgr i")
  case None
  with assms show ?thesis by (simp add: record_persisted_message_def)
next
  case (Some h)
  then have hot: "bounded_memory (wm_budget mgr) (wm_recent_window mgr) (hw_memory h)"
    using inv(1) by (simp add: bounded_windows_def)
  with assms(3) Some bounded_put [OF inv(1)] advance_bounded [OF hot inv(2)] show ?thesis
    by (auto simp: record_persisted_message_def split: prod.splits turn_result.splits)
qed

text \<open>
  C31. The memory of a session stays bounded: over every history, in every window of the process the
  summary fits the budget, and the messages fit it too unless there are no more of them than the recent
  window keeps in any case.
\<close>

theorem window_bounded:
  assumes "(memory_step stamp)\<^sup>*\<^sup>* (new_manager budget recent, db0, {}) (mgr, db, missed)" and "0 \<le> budget"
  shows "\<forall>i. wm_states mgr i = None \<or> bounded_memory budget recent (hw_memory (the (wm_states mgr i)))"
proof -
  have "bounded_windows (fst s) \<and> wm_budget (fst s) = budget \<and> wm_recent_window (fst s) = recent"
    if "(memory_step stamp)\<^sup>*\<^sup>* (new_manager budget recent, db0, {}) s" for s
    using that
  proof (induction rule: rtranclp_induct)
    case base
    show ?case by (simp add: bounded_windows_def new_manager_def)
  next
    case (step s1 s2)
    obtain mgr1 db1 x1 mgr2 db2 x2 where s: "s1 = (mgr1, db1, x1)" "s2 = (mgr2, db2, x2)" by (metis prod_cases3)
    have inv: "bounded_windows mgr1" "wm_budget mgr1 = budget" "wm_recent_window mgr1 = recent" using step.IH s by simp_all
    have "bounded_windows mgr2 \<and> wm_budget mgr2 = budget \<and> wm_recent_window mgr2 = recent"
      using step.hyps(2) [unfolded s]
    proof (cases rule: memory_stepE)
      case store
      with inv show ?thesis by simp
    next
      case turn
      with bounded_turn [of mgr1] inv assms(2) show ?thesis by metis
    next
      case reply
      with bounded_reply [of mgr1] inv assms(2) show ?thesis by metis
    next
      case restart
      with inv show ?thesis by (simp add: bounded_windows_def new_manager_def)
    next
      case (close i)
      with inv show ?thesis by (auto simp: bounded_windows_def drop_window_def)
    qed
    with s show ?case by simp
  qed
  from this [OF assms(1)] have "bounded_windows mgr \<and> wm_budget mgr = budget \<and> wm_recent_window mgr = recent" by simp
  then have "wm_states mgr i = None \<or> bounded_memory budget recent (hw_memory (the (wm_states mgr i)))" for i
    by (cases "wm_states mgr i") (auto simp: bounded_windows_def)
  then show ?thesis ..
qed

lemma demo_turn_run:
  "\<exists>missed. (memory_step int_str)\<^sup>*\<^sup>* (new_manager 4000 4, demo_app_db, {}) (fst (snd demo_turn), snd (snd demo_turn), missed)"
proof -
  have "memory_step int_str (new_manager 4000 4, demo_asked, {''m3''}) (fst (snd demo_turn), snd (snd demo_turn),
      still_missed (new_manager 4000 4) demo_asked (new_message 3 ''m3'' ''s'' ''user'' ''go'') {''m3''})"
    by (rule memory_step.turn [OF demo_awaiting, of _ Window_Ok No_Optimizer 3 _ "fst demo_turn"])
      (simp add: demo_turn_def new_message_def)
  with demo_stored show ?thesis by (meson converse_rtranclp_into_rtranclp r_into_rtranclp)
qed

lemma window_bounded_witness:
  "\<exists>h. wm_states (fst (snd demo_turn)) ''s'' = Some h \<and> bounded_memory 4000 4 (hw_memory h)"
proof -
  obtain missed where "(memory_step int_str)\<^sup>*\<^sup>* (new_manager 4000 4, demo_app_db, {}) (fst (snd demo_turn), snd (snd demo_turn), missed)"
    using demo_turn_run by blast
  then have "\<forall>i. wm_states (fst (snd demo_turn)) i = None
      \<or> bounded_memory 4000 4 (hw_memory (the (wm_states (fst (snd demo_turn)) i)))"
    by (rule window_bounded) simp
  moreover have "wm_states (fst (snd demo_turn)) ''s'' \<noteq> None" by code_simp
  ultimately show ?thesis by (metis not_None_eq option.sel)
qed

section \<open>What a running process forgets\<close>

text \<open>
  A message whose turn fails between its storage and its context (the mailbox is busy, say) never enters
  the window of a running process: the next turn does not see it, although it is part of the history
  and a process started now would show it.
\<close>

lemma failed_turn_forgotten:
  "let failed = new_message 4 ''m4'' ''s'' ''user'' ''stop'';
       next_one = new_message 5 ''m5'' ''s'' ''user'' ''and'';
       db = add_message next_one (add_message failed (snd (snd demo_turn))) in
   fst (context_for_turn int_str Window_Ok No_Optimizer 5 ''s'' next_one (fst (snd demo_turn)) db)
     = Turned (map (message_dict int_str) (take 3 (history db ''s'')))
   \<and> fst (context_for_turn int_str Window_Ok No_Optimizer 5 ''s'' next_one (new_manager 4000 4) db)
     = Turned (map (message_dict int_str) (take 4 (history db ''s'')))
   \<and> history db ''s'' ! 3 = failed"
  by code_simp

end
