(* ===== verification/Runtime_Input.thy ===== *)
theory Runtime_Input
  imports Session_Store
begin

text \<open>
  How a user's message reaches the agent of a session: the delivery by the turn itself
  (\<^verbatim>\<open>agent/runtime/gateway.py\<close>), the relay of what is still pending
  (\<^verbatim>\<open>agent/runtime/input_relay.py\<close>) and the answer to it (\<^verbatim>\<open>handle_input\<close> of
  \<^verbatim>\<open>agent/runtime/parent_child_runtime.py\<close>). The application database and the mail database are
  separate; a call may stop between two effects.
\<close>

section \<open>Envelopes\<close>

definition code_points_of :: "string \<Rightarrow> code_points" where
  "code_points_of s = map of_char s"

definition input_envelope :: "delivery_row \<Rightarrow> json \<Rightarrow> int \<Rightarrow> mail_envelope result" where
  "input_envelope d payload attempt =
     bind_result (make_address (rd_project_id d) (rd_target_agent_id d) (rd_target_generation d)) (\<lambda>target.
     bind_result (make_address (rd_project_id d) (code_points_of ''session-gateway'') 1) (\<lambda>src.
     make_envelope \<lparr>en_message_id = rd_message_id d, en_type = ''runtime-input'', en_source = src,
       en_target = target, en_payload = payload, en_sequence = None, en_attempt = attempt,
       en_created_at = None, en_updated_at = None\<rparr>))"

text \<open>The relay sends the text along, the turn only names it\<close>

definition relay_payload :: "delivery_row \<Rightarrow> message_row \<Rightarrow> json" where
  "relay_payload d m = JObj
     [(''session_id'', JStr (rd_session_id d)), (''session_message_id'', JStr (rd_session_message_id d)),
      (''role'', JStr (pm_role m)), (''content'', JStr (pm_content m))]"

definition turn_payload :: "delivery_row \<Rightarrow> json" where
  "turn_payload d = JObj
     [(''session_id'', JStr (rd_session_id d)), (''session_message_id'', JStr (rd_message_id d))]"

definition accepted_by_mail :: "mail_result \<Rightarrow> bool" where
  "accepted_by_mail r \<longleftrightarrow> re_status r \<in> {''inserted'', ''existing''}"

section \<open>Deliveries\<close>

definition find_delivery :: "app_db \<Rightarrow> string \<Rightarrow> delivery_row option" where
  "find_delivery db i = find (\<lambda>d. rd_id d = i) (ap_deliveries db)"

definition message_by_id :: "app_db \<Rightarrow> string \<Rightarrow> message_row option" where
  "message_by_id db i = find (\<lambda>m. pm_id m = i) (ap_messages db)"

definition set_delivery :: "string \<Rightarrow> (delivery_row \<Rightarrow> delivery_row) \<Rightarrow> app_db \<Rightarrow> app_db" where
  "set_delivery i f db = db\<lparr>ap_deliveries := update_rows (\<lambda>d. rd_id d = i) f (ap_deliveries db)\<rparr>"

text \<open>A call ends, raises an error, or the process stops in it\<close>

datatype 'a call = Returned 'a | Raised bridle_error | Process_Stopped

datatype stop_point = Runs_On | Stops_Before_Mail | Stops_After_Mail

subsection \<open>The relay\<close>

definition pending_deliveries :: "code_points option \<Rightarrow> app_db \<Rightarrow> string list" where
  "pending_deliveries project db =
     map rd_id (sort_key (\<lambda>d. (rd_created_at d, rd_id d))
       (filter (\<lambda>d. rd_status d = Delivery_Pending
                    \<and> (case project of None \<Rightarrow> True | Some p \<Rightarrow> rd_project_id d = p)) (ap_deliveries db)))"

text \<open>
  One delivery: the attempt is counted, the mail sent, the delivery marked, each in a transaction of
  its own. Opening the mailbox and sending may fail without ending the relay.
\<close>

definition relay_one ::
  "(code_points \<Rightarrow> mailbox result) \<Rightarrow> stop_point \<Rightarrow> db_answer \<Rightarrow> int \<Rightarrow> string \<Rightarrow> app_db \<Rightarrow> mail_db
     \<Rightarrow> bool call \<times> app_db \<times> mail_db" where
  "relay_one mailbox_for stop ans now i db mail =
     (case find_delivery db i of
        None \<Rightarrow> (Returned False, db, mail)
      | Some d \<Rightarrow>
          (if rd_status d \<noteq> Delivery_Pending then (Returned False, db, mail)
           else (case message_by_id db (rd_session_message_id d) of
               None \<Rightarrow> (Returned False, db, mail)
             | Some m \<Rightarrow>
                 (let db1 = set_delivery i (\<lambda>d. d\<lparr>rd_attempt := rd_attempt d + 1\<rparr>) db in
                  if stop = Stops_Before_Mail then (Process_Stopped, db1, mail)
                  else (case input_envelope d (relay_payload d m) (rd_attempt d + 1) of
                      Inl err \<Rightarrow> (Raised err, db1, mail)
                    | Inr env \<Rightarrow>
                        (case mailbox_for (rd_project_id d) of
                           Inl _ \<Rightarrow> (Returned False, db1, mail)
                         | Inr mb \<Rightarrow>
                             (case enqueue_mail mb ans now env mail of
                                (Inl _, mail1) \<Rightarrow> (Returned False, db1, mail1)
                              | (Inr r, mail1) \<Rightarrow>
                                  (if \<not> accepted_by_mail r then (Returned False, db1, mail1)
                                   else if stop = Stops_After_Mail then (Process_Stopped, db1, mail1)
                                   else (Returned True,
                                     set_delivery i (\<lambda>d. d\<lparr>rd_status := Delivery_Delivered,
                                       rd_enqueued_at := Some now\<rparr>) db1, mail1)))))))))"

text \<open>\<^verbatim>\<open>relay_pending\<close>: the list is read first; an error ends the round\<close>

fun relay_each ::
  "(code_points \<Rightarrow> mailbox result) \<Rightarrow> (stop_point \<times> db_answer \<times> int) list \<Rightarrow> string list \<Rightarrow> nat \<Rightarrow> app_db \<Rightarrow> mail_db
     \<Rightarrow> nat call \<times> app_db \<times> mail_db" where
  "relay_each mailbox_for env [] n db mail = (Returned n, db, mail)"
| "relay_each mailbox_for [] (i # rest) n db mail = (Process_Stopped, db, mail)"
| "relay_each mailbox_for ((stop, ans, now) # env) (i # rest) n db mail =
     (case relay_one mailbox_for stop ans now i db mail of
        (Returned b, db', mail') \<Rightarrow> relay_each mailbox_for env rest (if b then n + 1 else n) db' mail'
      | (Raised err, db', mail') \<Rightarrow> (Raised err, db', mail')
      | (Process_Stopped, db', mail') \<Rightarrow> (Process_Stopped, db', mail'))"

definition relay_pending ::
  "(code_points \<Rightarrow> mailbox result) \<Rightarrow> (stop_point \<times> db_answer \<times> int) list \<Rightarrow> code_points option \<Rightarrow> app_db \<Rightarrow> mail_db
     \<Rightarrow> nat call \<times> app_db \<times> mail_db" where
  "relay_pending mailbox_for env project db mail =
     relay_each mailbox_for env (pending_deliveries project db) 0 db mail"

subsection \<open>The turn\<close>

text \<open>
  The part of a turn between the storage of the input and the memory: the mail is sent with the
  mailbox \<open>mb\<close> of the project and the delivery marked; a refused mail leaves the input to the relay.
\<close>

definition send_input ::
  "mailbox \<Rightarrow> stop_point \<Rightarrow> db_answer \<Rightarrow> int \<Rightarrow> delivery_row \<Rightarrow> app_db \<Rightarrow> mail_db
     \<Rightarrow> int option call \<times> app_db \<times> mail_db" where
  "send_input mb stop ans now d db mail =
     (if stop = Stops_Before_Mail then (Process_Stopped, db, mail)
      else (case input_envelope d (turn_payload d) 0 of
          Inl err \<Rightarrow> (Raised err, db, mail)
        | Inr env \<Rightarrow>
            (case enqueue_mail mb ans now env mail of
               (Inl err, mail1) \<Rightarrow> (Raised err, db, mail1)
             | (Inr r, mail1) \<Rightarrow>
                 (if \<not> accepted_by_mail r then (Raised (ConflictError ''project_session'' ''runtime_input_pending''), db, mail1)
                  else if stop = Stops_After_Mail then (Process_Stopped, db, mail1)
                  else (Returned (re_sequence r),
                    set_delivery (rd_id d) (\<lambda>d. d\<lparr>rd_status := Delivery_Delivered, rd_attempt := rd_attempt d + 1,
                      rd_enqueued_at := Some now\<rparr>) db, mail1)))))"

section \<open>Answers\<close>

definition delivery_for :: "app_db \<Rightarrow> string \<Rightarrow> delivery_row result" where
  "delivery_for db mid =
     (case find (\<lambda>d. rd_message_id d = mid) (ap_deliveries db) of
        None \<Rightarrow> Inl (RuntimeError ''runtime_input_delivery_missing'')
      | Some d \<Rightarrow> Inr d)"

definition result_for :: "app_db \<Rightarrow> string \<Rightarrow> input_result_row option" where
  "result_for db mid = find (\<lambda>r. ir_message_id r = mid) (ap_results db)"

text \<open>The answer that is already stored\<close>

definition stored_answer :: "app_db \<Rightarrow> string \<Rightarrow> message_row option" where
  "stored_answer db mid =
     (case result_for db mid of None \<Rightarrow> None | Some r \<Rightarrow> message_by_id db (ir_assistant_id r))"

text \<open>Before the provider: the stored answer, or the text to answer\<close>

definition begin_input :: "string \<Rightarrow> app_db \<Rightarrow> (message_row + string) result" where
  "begin_input mid db =
     bind_result (delivery_for db mid) (\<lambda>d.
       case stored_answer db mid of
         Some m \<Rightarrow> Inr (Inl m)
       | None \<Rightarrow> (case message_by_id db (rd_session_message_id d) of
             None \<Rightarrow> Inl (RuntimeError ''runtime_input_message_missing'')
           | Some u \<Rightarrow> Inr (Inr (pm_content u))))"

text \<open>
  After it, in one transaction: an answer stored meanwhile wins, otherwise this one is stored with its
  result; a second result for an input violates its key.
\<close>

definition finish_input :: "int \<Rightarrow> string \<Rightarrow> string \<Rightarrow> string \<Rightarrow> app_db \<Rightarrow> (message_row \<times> app_db) result" where
  "finish_input now fresh reply mid db =
     bind_result (delivery_for db mid) (\<lambda>d.
       case stored_answer db mid of
         Some m \<Rightarrow> Inr (m, db)
       | None \<Rightarrow>
           (if result_for db mid \<noteq> None then Inl (BuiltinError ''IntegrityError'')
            else
              (let m = new_message now fresh (rd_session_id d) ''assistant'' reply;
                   r = \<lparr>ir_message_id = mid, ir_assistant_id = pm_id m, ir_handled_at = now\<rparr>
               in Inr (m, (add_message m db)\<lparr>ap_results := ap_results db @ [r]\<rparr>))))"

definition handle_input ::
  "(string \<Rightarrow> string result) \<Rightarrow> int \<Rightarrow> string \<Rightarrow> string \<Rightarrow> app_db \<Rightarrow> message_row result \<times> app_db" where
  "handle_input provider now fresh mid db =
     (case begin_input mid db of
        Inl err \<Rightarrow> (Inl err, db)
      | Inr (Inl m) \<Rightarrow> (Inr m, db)
      | Inr (Inr content) \<Rightarrow>
          (case provider content of
             Inl err \<Rightarrow> (Inl err, db)
           | Inr reply \<Rightarrow>
               (case finish_input now fresh reply mid db of
                  Inl err \<Rightarrow> (Inl err, db)
                | Inr (m, db') \<Rightarrow> (Inr m, db'))))"

end
