(* ===== verification/Input_Properties.thy ===== *)
theory Input_Properties
  imports Runtime_Input Mailbox_Properties "HOL-Library.Sublist"
begin

text \<open>
  A user's message is not lost on its way to the agent and is answered once, whatever the turn, the
  relay, the consumers of the mailbox and their stops do, in any order.
\<close>

section \<open>Steps of the two databases\<close>

inductive input_step :: "app_db \<times> mail_db \<Rightarrow> app_db \<times> mail_db \<Rightarrow> bool" where
  create: "create_runtime_input is_dir now fresh fresh_delivery i content target db = Inr (m, db') \<Longrightarrow>
    valid_address target \<Longrightarrow> fresh \<noteq> [] \<Longrightarrow>
    fresh \<notin> pm_id ` set (ap_messages db) \<Longrightarrow> fresh_delivery \<notin> rd_id ` set (ap_deliveries db) \<Longrightarrow>
    mail_content mail fresh = None \<Longrightarrow> input_step (db, mail) (db', mail)"
| send: "d \<in> set (ap_deliveries db) \<Longrightarrow> send_input mb stop ans now d db mail = (sent, db', mail') \<Longrightarrow>
    input_step (db, mail) (db', mail')"
| relay: "relay_one mailbox_for stop ans now i db mail = (relayed, db', mail') \<Longrightarrow> input_step (db, mail) (db', mail')"
| mail: "(\<And>mb ans now e. op = Enqueue_Mail mb ans now e \<Longrightarrow> en_message_id e \<notin> rd_message_id ` set (ap_deliveries db)) \<Longrightarrow>
    input_step (db, mail) (db, mail_step mail op)"
| answer: "finish_input now fresh reply mid db = Inr (m, db') \<Longrightarrow> fresh \<notin> pm_id ` set (ap_messages db) \<Longrightarrow>
    input_step (db, mail) (db', mail)"
| message: "create_message is_dir now fresh i role content calls tool_result db = Inr (m, db') \<Longrightarrow>
    fresh \<notin> pm_id ` set (ap_messages db) \<Longrightarrow> input_step (db, mail) (db', mail)"

inductive_cases input_stepE [consumes 1, case_names create send relay mail answer message]:
  "input_step (db, mail) (db', mail')"

section \<open>Invariant\<close>

definition target_of :: "delivery_row \<Rightarrow> agent_address" where
  "target_of d = \<lparr>ad_project = rd_project_id d, ad_agent = rd_target_agent_id d, ad_generation = rd_target_generation d\<rparr>"

text \<open>The mail an input may be delivered as\<close>

definition input_mail :: "app_db \<Rightarrow> delivery_row \<Rightarrow> json \<times> string \<times> string \<Rightarrow> bool" where
  "input_mail db d c \<longleftrightarrow> snd c = (rd_target_address d, ''runtime-input'')
     \<and> (fst c = turn_payload d \<or> (\<exists>m \<in> set (ap_messages db). pm_id m = rd_message_id d \<and> fst c = relay_payload d m))"

definition delivery_ok :: "app_db \<Rightarrow> mail_db \<Rightarrow> delivery_row \<Rightarrow> bool" where
  "delivery_ok db mail d \<longleftrightarrow> rd_session_message_id d = rd_message_id d
     \<and> rd_message_id d \<in> pm_id ` set (ap_messages db) \<and> to_uri (target_of d) = Inr (rd_target_address d)
     \<and> valid_address (target_of d) \<and> rd_message_id d \<noteq> [] \<and> 0 \<le> rd_attempt d
     \<and> (\<forall>c. mail_content mail (rd_message_id d) = Some c \<longrightarrow> input_mail db d c)
     \<and> (rd_status d = Delivery_Delivered \<longrightarrow> mail_content mail (rd_message_id d) \<noteq> None)"

definition answer_ok :: "app_db \<Rightarrow> input_result_row \<Rightarrow> bool" where
  "answer_ok db r \<longleftrightarrow> (\<exists>m \<in> set (ap_messages db). pm_id m = ir_assistant_id r \<and> pm_role m = ''assistant'')
     \<and> ir_message_id r \<in> rd_message_id ` set (ap_deliveries db)"

definition inputs_ok :: "app_db \<Rightarrow> mail_db \<Rightarrow> bool" where
  "inputs_ok db mail \<longleftrightarrow> mail_ok mail \<and> unique_key pm_id (ap_messages db)
     \<and> unique_key rd_id (ap_deliveries db) \<and> unique_key rd_message_id (ap_deliveries db)
     \<and> unique_key ir_message_id (ap_results db)
     \<and> (\<forall>d \<in> set (ap_deliveries db). delivery_ok db mail d) \<and> (\<forall>r \<in> set (ap_results db). answer_ok db r)"

lemma inputs_okD:
  assumes "inputs_ok db mail"
  shows "mail_ok mail" "unique_key pm_id (ap_messages db)" "unique_key rd_id (ap_deliveries db)"
    "unique_key rd_message_id (ap_deliveries db)" "unique_key ir_message_id (ap_results db)"
    "\<And>d. d \<in> set (ap_deliveries db) \<Longrightarrow> delivery_ok db mail d" "\<And>r. r \<in> set (ap_results db) \<Longrightarrow> answer_ok db r"
  using assms by (auto simp: inputs_ok_def)

text \<open>Messages are only added\<close>

lemma delivery_ok_messages:
  "delivery_ok db mail d \<Longrightarrow> set (ap_messages db) \<subseteq> set (ap_messages db') \<Longrightarrow> delivery_ok db' mail d"
  by (fastforce simp: delivery_ok_def input_mail_def)

lemma answer_ok_more:
  "answer_ok db r \<Longrightarrow> set (ap_messages db) \<subseteq> set (ap_messages db') \<Longrightarrow>
   rd_message_id ` set (ap_deliveries db) \<subseteq> rd_message_id ` set (ap_deliveries db') \<Longrightarrow> answer_ok db' r"
  by (fastforce simp: answer_ok_def)

lemma inputs_ok_message:
  assumes "inputs_ok db mail" and "pm_id m \<notin> pm_id ` set (ap_messages db)"
  shows "inputs_ok (add_message m db) mail"
proof -
  note ok = inputs_okD [OF assms(1)]
  have more: "set (ap_messages db) \<subseteq> set (ap_messages (add_message m db))" by (auto simp: add_message_def)
  have "unique_key pm_id (ap_messages (add_message m db))"
    using ok(2) assms(2) by (simp add: add_message_def unique_key_append1) (metis imageI)
  with ok(1,3-5) delivery_ok_messages [OF ok(6) more] answer_ok_more [OF ok(7) more] show ?thesis
    by (simp add: inputs_ok_def add_message_def)
qed

text \<open>Writing one delivery: the identity of the row stays, a delivered one is in the mail\<close>

definition same_input :: "delivery_row \<Rightarrow> delivery_row \<Rightarrow> bool" where
  "same_input d e \<longleftrightarrow> rd_id e = rd_id d \<and> rd_message_id e = rd_message_id d
     \<and> rd_session_message_id e = rd_session_message_id d \<and> rd_project_id e = rd_project_id d
     \<and> rd_session_id e = rd_session_id d \<and> rd_target_address e = rd_target_address d
     \<and> rd_target_agent_id e = rd_target_agent_id d \<and> rd_target_generation e = rd_target_generation d
     \<and> rd_attempt d \<le> rd_attempt e"

lemma delivery_ok_same:
  assumes "delivery_ok db mail d" and "same_input d e"
    and "rd_status e = Delivery_Delivered \<Longrightarrow> rd_status d = Delivery_Delivered \<or> mail_content mail (rd_message_id d) \<noteq> None"
  shows "delivery_ok db mail e"
proof -
  have "input_mail db e c = input_mail db d c" for c
    using assms(2) by (simp add: input_mail_def same_input_def turn_payload_def relay_payload_def)
  moreover have "target_of e = target_of d" using assms(2) by (simp add: same_input_def target_of_def)
  ultimately show ?thesis
    using assms by (auto simp: delivery_ok_def same_input_def)
qed

lemma inputs_ok_set:
  assumes "inputs_ok db mail" and same: "\<And>d. same_input d (f d)"
    and "\<And>d. d \<in> set (ap_deliveries db) \<Longrightarrow> rd_id d = i \<Longrightarrow> rd_status (f d) = Delivery_Delivered \<Longrightarrow>
      rd_status d = Delivery_Delivered \<or> mail_content mail (rd_message_id d) \<noteq> None"
  shows "inputs_ok (set_delivery i f db) mail"
proof -
  note ok = inputs_okD [OF assms(1)]
  have keys: "rd_id (f d) = rd_id d" "rd_message_id (f d) = rd_message_id d" for d
    using same by (simp_all add: same_input_def)
  have "delivery_ok db mail e" if "e \<in> set (ap_deliveries (set_delivery i f db))" for e
    using that ok(6) delivery_ok_same [OF ok(6) same] assms(3)
    by (auto simp: set_delivery_def in_update_rows)
  then have "delivery_ok (set_delivery i f db) mail e" if "e \<in> set (ap_deliveries (set_delivery i f db))" for e
    by (rule delivery_ok_messages [of db]) (use that in \<open>auto simp: set_delivery_def\<close>)
  moreover have "map rd_message_id (ap_deliveries (set_delivery i f db)) = map rd_message_id (ap_deliveries db)"
    using keys by (simp add: set_delivery_def map_update_rows)
  then have "rd_message_id ` set (ap_deliveries (set_delivery i f db)) = rd_message_id ` set (ap_deliveries db)"
    by (metis list.set_map)
  then have "answer_ok (set_delivery i f db) mail'" if "mail' \<in> set (ap_results db)" for mail'
    using ok(7) [OF that] by (simp add: answer_ok_def set_delivery_def)
  ultimately show ?thesis
    using ok(1-5) keys unique_key_update [of "\<lambda>d. rd_id d = i" rd_id f] unique_key_update [of "\<lambda>d. rd_id d = i" rd_message_id f]
    by (simp add: inputs_ok_def set_delivery_def)
qed

text \<open>The mail database: what is there stays, what is new to an input is its mail\<close>

lemma inputs_ok_mail:
  assumes "inputs_ok db mail" and "mail_ok mail'"
    and kept: "\<And>k c. mail_content mail k = Some c \<Longrightarrow> mail_content mail' k = Some c"
    and new: "\<And>d c. d \<in> set (ap_deliveries db) \<Longrightarrow> mail_content mail (rd_message_id d) = None \<Longrightarrow>
      mail_content mail' (rd_message_id d) = Some c \<Longrightarrow> input_mail db d c"
  shows "inputs_ok db mail'"
proof -
  note ok = inputs_okD [OF assms(1)]
  have "delivery_ok db mail' d" if d: "d \<in> set (ap_deliveries db)" for d
  proof (cases "mail_content mail (rd_message_id d)")
    case None
    with ok(6) [OF d] new [OF d] show ?thesis by (auto simp: delivery_ok_def)
  next
    case (Some c)
    with ok(6) [OF d] kept [OF Some] show ?thesis by (auto simp: delivery_ok_def)
  qed
  with ok assms(2) show ?thesis by (simp add: inputs_ok_def)
qed

lemma input_envelope_fields:
  assumes "input_envelope d payload n = Inr env"
  shows "en_message_id env = rd_message_id d" "en_payload env = payload" "en_type env = ''runtime-input''"
    "en_target env = target_of d"
  using assms
  by (auto simp: input_envelope_def bind_result_Inr make_address_def make_envelope_def target_of_def split: if_splits)

definition input_payload :: "app_db \<Rightarrow> delivery_row \<Rightarrow> json \<Rightarrow> bool" where
  "input_payload db d p \<longleftrightarrow> p = turn_payload d
     \<or> (\<exists>m \<in> set (ap_messages db). pm_id m = rd_message_id d \<and> p = relay_payload d m)"

lemma inputs_ok_enqueue:
  assumes ok: "inputs_ok db mail" and d: "d \<in> set (ap_deliveries db)"
    and env: "input_envelope d payload n = Inr env" and p: "input_payload db d payload"
  shows "inputs_ok db (snd (enqueue_mail mb ans now env mail))"
proof -
  let ?e = "(mb, ans, now, env)"
  note f = input_envelope_fields [OF env]
  have mail: "mail_ok mail" and "delivery_ok db mail d" using inputs_okD(1,6) [OF ok] d by blast+
  then have uri: "to_uri (en_target env) = Inr (rd_target_address d)" by (simp add: f delivery_ok_def)
  show ?thesis
  proof (rule inputs_ok_mail [OF ok])
    show "mail_ok (snd (enqueue_mail mb ans now env mail))"
      using mail_sink.ok_deliver [OF mail, of ?e] by (simp only: mail_deliver_db)
    show "mail_content (snd (enqueue_mail mb ans now env mail)) k = Some c" if "mail_content mail k = Some c" for k c
      using mail_sink.kept [OF mail that, of ?e] by (simp only: mail_deliver_db)
    show "input_mail db e c" if e: "e \<in> set (ap_deliveries db)" "mail_content mail (rd_message_id e) = None"
      "mail_content (snd (enqueue_mail mb ans now env mail)) (rd_message_id e) = Some c" for e c
    proof -
      have "rd_message_id e = delivery_key ?e \<and> c = delivery_body ?e"
        using e(3) by (intro mail_sink.added [OF mail e(2)]) (simp only: mail_deliver_db)
      then have c: "rd_message_id e = rd_message_id d" "c = (payload, rd_target_address d, ''runtime-input'')"
        by (simp_all add: delivery_key_def delivery_body_def f(1-3) uri)
      then have "e = d" using unique_keyD [OF inputs_okD(4) [OF ok] e(1) d] by simp
      with c(2) p show ?thesis by (auto simp: input_mail_def input_payload_def)
    qed
  qed
qed

lemma enqueue_input_present:
  assumes ok: "inputs_ok db mail" and "enqueue_mail mb ans now env mail = (Inr r, mail')" and "accepted_by_mail r"
  shows "mail_content mail' (en_message_id env) \<noteq> None"
proof -
  have "fst (mail_deliver (mb, ans, now, env) mail)"
    using assms(2,3) by (simp add: mail_deliver_def accepted_by_mail_def)
  from mail_sink.accepted [OF inputs_okD(1) [OF ok] this] assms(2) show ?thesis
    by (simp add: mail_deliver_db delivery_key_def)
qed

section \<open>Every step keeps it\<close>

lemma inputs_ok_create:
  assumes ok: "inputs_ok db mail"
    and c: "create_runtime_input is_dir now fresh fd i content target db = Inr (m, db')"
    and valid: "valid_address target" "fresh \<noteq> []" and fresh: "fresh \<notin> pm_id ` set (ap_messages db)" "fd \<notin> rd_id ` set (ap_deliveries db)" "mail_content mail fresh = None"
  shows "inputs_ok db' mail"
proof -
  obtain s uri where base: "load_session db i = Inr s" "to_uri target = Inr uri"
    using c by (auto simp: create_runtime_input_def bind_result_Inr split: if_splits)
  then have s: "to_uri target = Inr uri" "ad_project target = ss_project_id s"
    "m = new_message now fresh (ss_id s) ''user'' content"
    and db': "db' = (add_message m db)\<lparr>ap_deliveries := ap_deliveries db @
      [\<lparr>rd_id = fd, rd_message_id = fresh, rd_session_message_id = fresh, rd_project_id = ss_project_id s,
        rd_session_id = ss_id s, rd_target_address = uri, rd_target_agent_id = ad_agent target,
        rd_target_generation = ad_generation target, rd_status = Delivery_Pending, rd_attempt = 0,
        rd_enqueued_at = None, rd_created_at = now\<rparr>]\<rparr>"
    using c by (auto simp: create_runtime_input_def bind_result_Inr Let_def new_message_def split: if_splits)
  have "inputs_ok (add_message m db) mail"
    using fresh(1) s(3) by (intro inputs_ok_message [OF ok]) (simp add: new_message_def)
  note ok1 = inputs_okD [OF this]
  have mids: "rd_message_id d \<noteq> fresh" if "d \<in> set (ap_deliveries db)" for d
    using inputs_okD(6) [OF ok that] fresh(1) by (auto simp: delivery_ok_def)
  have "delivery_ok db' mail d" if d: "d \<in> set (ap_deliveries db')" for d
  proof (cases "d \<in> set (ap_deliveries db)")
    case True
    from inputs_okD(6) [OF ok True] show ?thesis
      by (rule delivery_ok_messages) (auto simp: db' add_message_def)
  next
    case False
    have "to_uri \<lparr>ad_project = ss_project_id s, ad_agent = ad_agent target, ad_generation = ad_generation target\<rparr>
        = Inr uri" using s(1,2) by (simp add: to_uri_def)
    moreover have "valid_address \<lparr>ad_project = ss_project_id s, ad_agent = ad_agent target, ad_generation = ad_generation target\<rparr>"
      using s(2) valid(1) by (simp add: valid_address_def)
    ultimately show ?thesis
      using False d s fresh(3) valid(2) by (auto simp: db' delivery_ok_def target_of_def add_message_def new_message_def)
  qed
  moreover have "answer_ok db' r" if "r \<in> set (ap_results db)" for r
    using inputs_okD(7) [OF ok that] by (rule answer_ok_more) (auto simp: db' add_message_def)
  moreover have "unique_key rd_id (ap_deliveries db')" "unique_key rd_message_id (ap_deliveries db')"
    using inputs_okD(3,4) [OF ok] fresh(2) mids
    by (simp_all add: db' unique_key_append1) (metis imageI)
  ultimately show ?thesis
    using ok1(1,2,5) by (simp add: inputs_ok_def db' add_message_def)
qed

lemma inputs_ok_send:
  assumes ok: "inputs_ok db mail" and d: "d \<in> set (ap_deliveries db)"
    and send: "send_input mb stop ans now d db mail = (res, db', mail')"
  shows "inputs_ok db' mail'"
proof (cases "input_envelope d (turn_payload d) 0")
  case (Inl err)
  with ok send show ?thesis by (auto simp: send_input_def split: if_splits)
next
  case (Inr env)
  obtain r mail1 where enq: "enqueue_mail mb ans now env mail = (r, mail1)" by (cases "enqueue_mail mb ans now env mail")
  have ok1: "inputs_ok db mail1"
    using inputs_ok_enqueue [OF ok d Inr, of mb ans now] by (simp add: input_payload_def enq)
  have "inputs_ok (set_delivery (rd_id d) (\<lambda>d. d\<lparr>rd_status := Delivery_Delivered, rd_attempt := rd_attempt d + 1,
      rd_enqueued_at := Some now\<rparr>) db) mail1" if "r = Inr res1" "accepted_by_mail res1" for res1
  proof (rule inputs_ok_set [OF ok1])
    fix x assume "x \<in> set (ap_deliveries db)" "rd_id x = rd_id d"
    then have "x = d" using unique_keyD [OF inputs_okD(3) [OF ok]] d by blast
    then show "rd_status x = Delivery_Delivered \<or> mail_content mail1 (rd_message_id x) \<noteq> None"
      using enqueue_input_present [OF ok _ that(2)] enq that(1) input_envelope_fields(1) [OF Inr] by fastforce
  qed (simp add: same_input_def)
  with ok ok1 send Inr enq show ?thesis
    by (auto simp: send_input_def split: if_splits sum.splits)
qed

lemma set_delivery_twice: "set_delivery i g (set_delivery i f db) = set_delivery i (\<lambda>d. if rd_id (f d) = i then g (f d) else f d) db"
  by (auto simp: set_delivery_def update_rows_def)

lemma message_by_idD: "message_by_id db i = Some m \<Longrightarrow> m \<in> set (ap_messages db) \<and> pm_id m = i"
  by (auto simp: message_by_id_def dest: find_SomeD)

lemma find_deliveryD: "find_delivery db i = Some d \<Longrightarrow> d \<in> set (ap_deliveries db) \<and> rd_id d = i"
  by (auto simp: find_delivery_def dest: find_SomeD)

text \<open>What a relay does to one delivery, by where it stops\<close>

abbreviation counted :: "delivery_row \<Rightarrow> delivery_row" where
  "counted d \<equiv> d\<lparr>rd_attempt := rd_attempt d + 1\<rparr>"

abbreviation relayed_row :: "int \<Rightarrow> delivery_row \<Rightarrow> delivery_row" where
  "relayed_row now d \<equiv> d\<lparr>rd_status := Delivery_Delivered, rd_enqueued_at := Some now\<rparr>"

lemma relay_cases:
  assumes "relay_one mailbox_for stop ans now i db mail = (res, db', mail')"
  obtains (nothing) "db' = db" "mail' = mail"
  | (attempt) "db' = set_delivery i counted db" "mail' = mail"
  | (sent) d m env mb r where "find_delivery db i = Some d" "message_by_id db (rd_session_message_id d) = Some m"
      "input_envelope d (relay_payload d m) (rd_attempt d + 1) = Inr env"
      "enqueue_mail mb ans now env mail = (r, mail')"
      "db' = set_delivery i counted db \<or> db' = set_delivery i (relayed_row now) (set_delivery i counted db)
        \<and> (\<exists>x. r = Inr x \<and> accepted_by_mail x)"
  using assms unfolding relay_one_def Let_def
  by (auto split: option.splits if_splits sum.splits prod.splits)

lemma inputs_ok_counted: "inputs_ok db mail \<Longrightarrow> inputs_ok (set_delivery i counted db) mail"
  by (rule inputs_ok_set) (simp_all add: same_input_def)

lemma inputs_ok_relay:
  assumes ok: "inputs_ok db mail" and "relay_one mailbox_for stop ans now i db mail = (res, db', mail')"
  shows "inputs_ok db' mail'"
  using assms(2)
proof (cases rule: relay_cases)
  case (sent d m env mb r)
  have d: "d \<in> set (ap_deliveries db)" "rd_id d = i" using find_deliveryD [OF sent(1)] by simp_all
  have "rd_session_message_id d = rd_message_id d" using inputs_okD(6) [OF ok d(1)] by (simp add: delivery_ok_def)
  then have "input_payload db d (relay_payload d m)"
    using message_by_idD [OF sent(2)] by (auto simp: input_payload_def)
  then have ok1: "inputs_ok db mail'"
    using inputs_ok_enqueue [OF ok d(1) sent(3), of mb ans now] sent(4) by simp
  show ?thesis
  proof (cases "db' = set_delivery i counted db")
    case True
    with inputs_ok_counted [OF ok1] show ?thesis by simp
  next
    case False
    then obtain x where x: "r = Inr x" "accepted_by_mail x"
      and db': "db' = set_delivery i (relayed_row now) (set_delivery i counted db)" using sent(5) by blast
    show ?thesis unfolding db'
    proof (rule inputs_ok_set [OF inputs_ok_counted [OF ok1]])
      fix e assume "e \<in> set (ap_deliveries (set_delivery i counted db))" "rd_id e = i"
      then obtain e0 where e0: "e0 \<in> set (ap_deliveries db)" "e = (if rd_id e0 = i then counted e0 else e0)"
        by (auto simp: set_delivery_def in_update_rows)
      then have "rd_id e0 = i" "rd_message_id e = rd_message_id e0" using \<open>rd_id e = i\<close> by (simp_all split: if_splits)
      with e0(1) have "rd_message_id e = rd_message_id d"
        using unique_keyD [OF inputs_okD(3) [OF ok] _ d(1)] d(2) by metis
      then show "rd_status e = Delivery_Delivered \<or> mail_content mail' (rd_message_id e) \<noteq> None"
        using enqueue_input_present [OF ok _ x(2)] sent(4) x(1) input_envelope_fields(1) [OF sent(3)] by fastforce
    qed (simp add: same_input_def)
  qed
qed (use ok inputs_ok_counted in auto)

lemma finish_cases:
  assumes "finish_input now fresh reply mid db = Inr (m, db')"
  obtains (stored) "stored_answer db mid = Some m" "db' = db"
  | (new) d where "result_for db mid = None" "d \<in> set (ap_deliveries db)" "rd_message_id d = mid"
      "m = new_message now fresh (rd_session_id d) ''assistant'' reply"
      "db' = (add_message m db)\<lparr>ap_results := ap_results db @
         [\<lparr>ir_message_id = mid, ir_assistant_id = fresh, ir_handled_at = now\<rparr>]\<rparr>"
proof -
  obtain d where d: "delivery_for db mid = Inr d" using assms by (auto simp: finish_input_def bind_result_Inr)
  then have "d \<in> set (ap_deliveries db)" "rd_message_id d = mid"
    by (auto simp: delivery_for_def dest: find_SomeD split: option.splits)
  note d' = this
  show thesis
  proof (cases "stored_answer db mid")
    case None
    then have "result_for db mid = None" using assms d by (simp add: finish_input_def split: if_splits)
    with None assms d show thesis by (intro new [OF _ d']) (auto simp: finish_input_def Let_def new_message_def)
  next
    case (Some x)
    with assms d show thesis by (intro stored) (simp_all add: finish_input_def)
  qed
qed

lemma inputs_ok_answer:
  assumes ok: "inputs_ok db mail" and "finish_input now fresh reply mid db = Inr (m, db')"
    and "fresh \<notin> pm_id ` set (ap_messages db)"
  shows "inputs_ok db' mail"
  using assms(2)
proof (cases rule: finish_cases)
  case stored
  with ok show ?thesis by simp
next
  case (new d)
  have "inputs_ok (add_message m db) mail"
    using assms(3) new(4) by (intro inputs_ok_message [OF ok]) (simp add: new_message_def)
  note ok1 = inputs_okD [OF this]
  have "delivery_ok db' mail x" if "x \<in> set (ap_deliveries db')" for x
  proof (rule delivery_ok_messages [of "add_message m db"])
    show "delivery_ok (add_message m db) mail x" using ok1(6) [of x] that by (simp add: new(5) add_message_def)
  qed (simp add: new(5))
  moreover have "answer_ok db' r" if "r \<in> set (ap_results db)" for r
    using inputs_okD(7) [OF ok that] by (rule answer_ok_more) (auto simp: new(5) add_message_def)
  moreover have "answer_ok db' \<lparr>ir_message_id = mid, ir_assistant_id = fresh, ir_handled_at = now\<rparr>"
    using new(2-4) by (auto simp: answer_ok_def new(5) add_message_def new_message_def)
  moreover have "unique_key ir_message_id (ap_results db')"
    using new(1) inputs_okD(5) [OF ok]
    by (auto simp: new(5) unique_key_append1 result_for_def find_None_iff)
  ultimately show ?thesis
    using ok1(1-4) by (auto simp: inputs_ok_def new(5) add_message_def)
qed

lemma inputs_ok_step:
  assumes "input_step (db, mail) (db', mail')" and ok: "inputs_ok db mail"
  shows "inputs_ok db' mail'"
  using assms(1)
proof (cases rule: input_stepE)
  case create
  then show ?thesis using inputs_ok_create [OF ok] by blast
next
  case send
  then show ?thesis using inputs_ok_send [OF ok] by blast
next
  case relay
  then show ?thesis using inputs_ok_relay [OF ok] by blast
next
  case (mail op)
  note m = inputs_okD(1) [OF ok]
  have "inputs_ok db (mail_step mail op)"
  proof (rule inputs_ok_mail [OF ok mail_ok_step [OF m] mail_content_step [OF m]])
    fix d c assume d: "d \<in> set (ap_deliveries db)" "mail_content mail (rd_message_id d) = None"
      "mail_content (mail_step mail op) (rd_message_id d) = Some c"
    then obtain mb ans now e where "op = Enqueue_Mail mb ans now e" "en_message_id e = rd_message_id d"
      using mail_content_new [OF m d(2), of op] by auto
    note op = this
    have "en_message_id e \<notin> rd_message_id ` set (ap_deliveries db)" by (rule mail) (rule op(1))
    with d(1) op(2) show "input_mail db d c" by simp
  qed
  with mail show ?thesis by blast
next
  case answer
  then show ?thesis using inputs_ok_answer [OF ok] by blast
next
  case (message is_dir now fresh i role content calls tool_result m)
  then obtain m' where "db' = add_message m' db" "pm_id m' = fresh"
    by (auto simp: create_message_def bind_result_Inr Let_def new_message_def split: if_splits)
  with message(1,3) inputs_ok_message [OF ok] show ?thesis by simp
qed

lemma inputs_ok_run: "input_step\<^sup>*\<^sup>* (db, mail) (db', mail') \<Longrightarrow> inputs_ok db mail \<Longrightarrow> inputs_ok db' mail'"
  by (induction rule: rtranclp_induct2) (auto dest: inputs_ok_step)

section \<open>Delivery\<close>

definition gateway_of :: "delivery_row \<Rightarrow> agent_address" where
  "gateway_of d = \<lparr>ad_project = rd_project_id d, ad_agent = code_points_of ''session-gateway'', ad_generation = 1\<rparr>"

lemma gateway_encodes: "is_ok (encode_component (code_points_of ''session-gateway''))"
  "\<forall>n \<in> set (code_points_of ''session-gateway''). n < 0x110000"
  by (simp_all add: code_points_of_def encode_component_def surrogate_def)

lemma input_envelope_exists:
  assumes "delivery_ok db mail d" and "0 \<le> n"
  shows "\<exists>env. input_envelope d payload n = Inr env \<and> en_source env = gateway_of d"
    and "\<exists>uri. to_uri (gateway_of d) = Inr uri" and "valid_address (gateway_of d)"
proof -
  obtain p a where pa: "encode_component (rd_project_id d) = Inr p" "encode_component (rd_target_agent_id d) = Inr a"
    using assms(1) by (auto simp: delivery_ok_def to_uri_def target_of_def bind_result_Inr)
  obtain g where g: "encode_component (code_points_of ''session-gateway'') = Inr g"
    using gateway_encodes(1) by (auto simp: is_ok_iff)
  have "valid_address (target_of d)" "rd_message_id d \<noteq> []" using assms(1) by (simp_all add: delivery_ok_def)
  then show "\<exists>env. input_envelope d payload n = Inr env \<and> en_source env = gateway_of d"
    "\<exists>uri. to_uri (gateway_of d) = Inr uri" "valid_address (gateway_of d)"
    using pa g assms(2) gateway_encodes(2)
    by (auto simp: input_envelope_def make_address_def make_envelope_def valid_address_def target_of_def gateway_of_def to_uri_def)
qed

definition accepts_mail :: "mailbox \<Rightarrow> delivery_row \<Rightarrow> mail_db \<Rightarrow> bool" where
  "accepts_mail mb d mail \<longleftrightarrow> \<not> mb_closed mb \<and> mb_project_id mb = rd_project_id d \<and> mail_decodes mail
     \<and> int (undelivered mail) < mb_capacity mb"

lemma relay_succeeds:
  assumes ok: "inputs_ok db mail" and d: "d \<in> set (ap_deliveries db)" "rd_status d = Delivery_Pending"
    and mb: "mailbox_for (rd_project_id d) = Inr mb" "accepts_mail mb d mail"
  shows "\<exists>db' mail' c. relay_one mailbox_for Runs_On Db_Ok now (rd_id d) db mail = (Returned True, db', mail')
     \<and> (\<exists>e \<in> set (ap_deliveries db'). rd_id e = rd_id d \<and> rd_status e = Delivery_Delivered)
     \<and> mail_content mail' (rd_message_id d) = Some c \<and> input_mail db d c"
proof -
  have dok: "delivery_ok db mail d" by (rule inputs_okD(6) [OF ok d(1)])
  have found: "find_delivery db (rd_id d) = Some d"
    using find_key_unique [OF inputs_okD(3) [OF ok] d(1)] by (simp add: find_delivery_def)
  obtain m where m: "m \<in> set (ap_messages db)" "pm_id m = rd_session_message_id d" using dok by (auto simp: delivery_ok_def)
  then have msg: "message_by_id db (rd_session_message_id d) = Some m"
    using find_key_unique [OF inputs_okD(2) [OF ok] m(1)] by (simp add: message_by_id_def)
  have "0 \<le> rd_attempt d + 1" using dok by (simp add: delivery_ok_def)
  from input_envelope_exists [OF dok this] obtain env u where env: "input_envelope d (relay_payload d m) (rd_attempt d + 1) = Inr env"
    "en_source env = gateway_of d" "to_uri (gateway_of d) = Inr u" "valid_address (gateway_of d)" by blast
  note f = input_envelope_fields [OF env(1)]
  have "\<exists>res mail'. enqueue_mail mb Db_Ok now env mail = (Inr res, mail') \<and> re_status res \<in> {''inserted'', ''existing''}
      \<and> mail_decodes mail' \<and> undelivered mail' \<le> Suc (undelivered mail)"
    using mb(2) env(2-4) dok
    by (intro enqueue_delivers) (simp_all add: accepts_mail_def validate_target_def f gateway_of_def target_of_def delivery_ok_def)
  then obtain res mail' where enq: "enqueue_mail mb Db_Ok now env mail = (Inr res, mail')" "accepted_by_mail res"
    by (auto simp: accepted_by_mail_def)
  have "input_payload db d (relay_payload d m)" using m dok by (auto simp: input_payload_def delivery_ok_def)
  then have "inputs_ok db mail'" using inputs_ok_enqueue [OF ok d(1) env(1), of mb Db_Ok now] enq(1) by simp
  then have dok': "delivery_ok db mail' d" using inputs_okD(6) d(1) by blast
  obtain c where c: "mail_content mail' (rd_message_id d) = Some c"
    using enqueue_input_present [OF ok enq] by (auto simp: f(1))
  with dok' have "input_mail db d c" by (simp add: delivery_ok_def)
  moreover have "relay_one mailbox_for Runs_On Db_Ok now (rd_id d) db mail
      = (Returned True, set_delivery (rd_id d) (relayed_row now) (set_delivery (rd_id d) counted db), mail')"
    using found d(2) msg env(1) mb(1) enq by (simp add: relay_one_def)
  moreover have "relayed_row now (counted d) \<in> set (ap_deliveries (set_delivery (rd_id d) (relayed_row now) (set_delivery (rd_id d) counted db)))"
    using d(1) by (force simp: set_delivery_def update_rows_def)
  then have "\<exists>e \<in> set (ap_deliveries (set_delivery (rd_id d) (relayed_row now) (set_delivery (rd_id d) counted db))).
      rd_id e = rd_id d \<and> rd_status e = Delivery_Delivered" by (rule bexI [rotated]) simp
  ultimately show ?thesis using c by blast
qed

definition empty_inputs :: "app_db \<Rightarrow> bool" where
  "empty_inputs db \<longleftrightarrow> ap_deliveries db = [] \<and> ap_results db = [] \<and> unique_key pm_id (ap_messages db)"

lemma inputs_ok_empty: "empty_inputs db \<Longrightarrow> inputs_ok db []"
  by (simp add: empty_inputs_def inputs_ok_def mail_ok_def unique_key_def)

text \<open>
  C10. No input is lost on its way. In every state that turns, relays with stops anywhere, consumers
  and answers can produce, an input that is marked delivered is in the mail under its own identifier,
  addressed to its agent, with the payload of the turn or of the relay; and one that is still
  pending is delivered so by the next relay that runs on with a mailbox that has room.
\<close>

theorem input_never_lost:
  assumes "input_step\<^sup>*\<^sup>* (db0, []) (db, mail)" and "empty_inputs db0" and "d \<in> set (ap_deliveries db)"
  shows "(rd_status d = Delivery_Delivered \<and> (\<exists>c. mail_content mail (rd_message_id d) = Some c \<and> input_mail db d c))
    \<or> (rd_status d = Delivery_Pending \<and> rd_id d \<in> set (pending_deliveries None db)
       \<and> (\<forall>mailbox_for mb now. mailbox_for (rd_project_id d) = Inr mb \<longrightarrow> accepts_mail mb d mail \<longrightarrow>
         (\<exists>db' mail' c. relay_one mailbox_for Runs_On Db_Ok now (rd_id d) db mail = (Returned True, db', mail')
           \<and> (\<exists>e \<in> set (ap_deliveries db'). rd_id e = rd_id d \<and> rd_status e = Delivery_Delivered)
           \<and> mail_content mail' (rd_message_id d) = Some c \<and> input_mail db d c)))"
proof -
  have ok: "inputs_ok db mail" by (rule inputs_ok_run [OF assms(1) inputs_ok_empty [OF assms(2)]])
  have dok: "delivery_ok db mail d" by (rule inputs_okD(6) [OF ok assms(3)])
  show ?thesis
  proof (cases "rd_status d")
    case Delivery_Pending
    then have "rd_id d \<in> set (pending_deliveries None db)" using assms(3) by (simp add: pending_deliveries_def)
    with Delivery_Pending relay_succeeds [OF ok assms(3) Delivery_Pending] show ?thesis by blast
  next
    case Delivery_Delivered
    with dok show ?thesis by (fastforce simp: delivery_ok_def)
  qed
qed


section \<open>Answers\<close>

text \<open>Messages and results are only added\<close>

definition messages_grow :: "app_db \<Rightarrow> app_db \<Rightarrow> bool" where
  "messages_grow db db' \<longleftrightarrow> prefix (ap_messages db) (ap_messages db') \<and> prefix (ap_results db) (ap_results db')"

lemma find_prefix: "prefix xs ys \<Longrightarrow> find P xs = Some x \<Longrightarrow> find P ys = Some x"
  by (auto simp: prefix_def find_append)

lemma stored_answer_grows: "messages_grow db db' \<Longrightarrow> stored_answer db mid = Some m \<Longrightarrow> stored_answer db' mid = Some m"
  by (auto simp: messages_grow_def stored_answer_def result_for_def message_by_id_def find_prefix split: option.splits
      dest: find_prefix)

lemma set_delivery_grows [simp]: "messages_grow db (set_delivery i f db') = messages_grow db db'"
  by (simp add: messages_grow_def set_delivery_def)

lemma messages_grow_refl [simp]: "messages_grow db db"
  by (simp add: messages_grow_def)

lemma messages_grow_step:
  assumes "input_step (db, mail) (db', mail')"
  shows "messages_grow db db'"
  using assms
proof (cases rule: input_stepE)
  case create
  then show ?thesis by (auto simp: create_runtime_input_def bind_result_Inr Let_def messages_grow_def add_message_def split: if_splits)
next
  case send
  then show ?thesis by (auto simp: send_input_def split: if_splits sum.splits prod.splits)
next
  case relay
  then show ?thesis by (cases rule: relay_cases) auto
next
  case answer
  then show ?thesis by (auto elim!: finish_cases simp: messages_grow_def add_message_def)
next
  case message
  then show ?thesis by (auto simp: create_message_def bind_result_Inr Let_def messages_grow_def add_message_def split: if_splits)
qed simp

lemma stored_answer_run:
  "input_step\<^sup>*\<^sup>* (db, mail) (db', mail') \<Longrightarrow> stored_answer db mid = Some m \<Longrightarrow> stored_answer db' mid = Some m"
  by (induction rule: rtranclp_induct2) (auto dest: messages_grow_step stored_answer_grows)

lemma input_by_message:
  assumes "inputs_ok db mail" and "d \<in> set (ap_deliveries db)"
  shows "delivery_for db (rd_message_id d) = Inr d"
  using find_key_unique [OF inputs_okD(4) [OF assms(1)] assms(2)] by (simp add: delivery_for_def)

text \<open>A result always has its answer\<close>

lemma stored_answer_iff:
  assumes ok: "inputs_ok db mail"
  shows "stored_answer db mid = None \<longleftrightarrow> mid \<notin> ir_message_id ` set (ap_results db)"
proof (cases "result_for db mid")
  case None
  then have "mid \<notin> ir_message_id ` set (ap_results db)" by (auto simp: result_for_def find_None_iff)
  with None show ?thesis by (simp add: stored_answer_def)
next
  case (Some r)
  then have r: "r \<in> set (ap_results db)" "ir_message_id r = mid" by (auto simp: result_for_def dest: find_SomeD)
  then obtain m where "m \<in> set (ap_messages db)" "pm_id m = ir_assistant_id r"
    using inputs_okD(7) [OF ok r(1)] by (auto simp: answer_ok_def)
  then have "message_by_id db (ir_assistant_id r) \<noteq> None" by (auto simp: message_by_id_def find_None_iff)
  with Some r show ?thesis by (auto simp: stored_answer_def)
qed


lemma stored_answer_message:
  "stored_answer db mid = Some m \<Longrightarrow> m \<in> set (ap_messages db) \<and> (\<exists>r. result_for db mid = Some r \<and> ir_assistant_id r = pm_id m)"
  by (auto simp: stored_answer_def dest: message_by_idD split: option.splits)

lemma finish_stores:
  assumes ok: "inputs_ok db mail" and "finish_input now fresh reply mid db = Inr (m, db')"
    and "fresh \<notin> pm_id ` set (ap_messages db)"
  shows "stored_answer db' mid = Some m"
  using assms(2)
proof (cases rule: finish_cases)
  case (new d)
  have "find (\<lambda>x. pm_id x = fresh) (ap_messages db) = None" using assms(3) by (auto simp: find_None_iff)
  moreover have "find (\<lambda>r. ir_message_id r = mid) (ap_results db) = None" using new(1) by (simp add: result_for_def)
  ultimately show ?thesis
    unfolding new(5) stored_answer_def result_for_def message_by_id_def add_message_def
    by (simp add: find_append new(4) new_message_def)
qed simp

lemma handle_cases:
  assumes "handle_input provider now fresh mid db = (Inr m, db')"
  obtains (stored) "stored_answer db mid = Some m" "db' = db"
  | (finished) reply where "finish_input now fresh reply mid db = Inr (m, db')"
proof (cases "begin_input mid db")
  case (Inl err)
  with assms show thesis by (simp add: handle_input_def)
next
  case begun: (Inr x)
  show thesis
  proof (cases x)
    case (Inl m1)
    with begun have "stored_answer db mid = Some m1"
      by (auto simp: begin_input_def bind_result_Inr split: option.splits)
    with assms begun Inl show thesis by (intro stored) (simp_all add: handle_input_def)
  next
    case (Inr content)
    with assms begun obtain reply where "finish_input now fresh reply mid db = Inr (m, db')"
      by (simp add: handle_input_def split: sum.splits prod.splits)
    then show thesis by (rule finished)
  qed
qed

lemma handle_stored:
  assumes "delivery_for db mid = Inr d" and "stored_answer db mid = Some m"
  shows "handle_input provider now fresh mid db = (Inr m, db)" and "finish_input now fresh reply mid db = Inr (m, db)"
  using assms by (simp_all add: handle_input_def begin_input_def finish_input_def)

lemma one_result:
  assumes "inputs_ok db mail" and "result_for db mid = Some r"
  shows "length (filter (\<lambda>r. ir_message_id r = mid) (ap_results db)) = 1"
proof -
  have r: "r \<in> set (ap_results db)" "ir_message_id r = mid" using assms(2) by (auto simp: result_for_def dest: find_SomeD)
  show ?thesis
    using filter_key_unique [OF inputs_okD(5) [OF assms(1)] r(1)] r(2) by simp
qed

text \<open>
  C4. An input is answered once. Whatever handler stored the answer to a message, every later
  delivery of it, at any time and with any provider, returns this answer and changes nothing; so does
  a handler that asked the provider before the answer was stored and finishes after it. The input has
  one result for good.
\<close>

theorem answered_once:
  assumes "input_step\<^sup>*\<^sup>* (db0, []) (db, mail)" and "empty_inputs db0"
    and "handle_input provider now fresh mid db = (Inr m, db1)" and "fresh \<notin> pm_id ` set (ap_messages db)"
    and "input_step\<^sup>*\<^sup>* (db1, mail) (db', mail')"
  shows "handle_input provider' now' fresh' mid db' = (Inr m, db')
    \<and> finish_input now' fresh' reply mid db' = Inr (m, db')
    \<and> m \<in> set (ap_messages db') \<and> length (filter (\<lambda>r. ir_message_id r = mid) (ap_results db')) = 1"
proof -
  have ok: "inputs_ok db mail" by (rule inputs_ok_run [OF assms(1) inputs_ok_empty [OF assms(2)]])
  have "inputs_ok db1 mail \<and> stored_answer db1 mid = Some m"
    using assms(3) by (cases rule: handle_cases)
      (use ok assms(4) inputs_ok_answer [OF ok] finish_stores [OF ok] in auto)
  then have ok': "inputs_ok db' mail'" and m: "stored_answer db' mid = Some m"
    using inputs_ok_run [OF assms(5)] stored_answer_run [OF assms(5)] by blast+
  obtain r where r: "result_for db' mid = Some r" "m \<in> set (ap_messages db')"
    using stored_answer_message [OF m] by blast
  then have "r \<in> set (ap_results db')" "ir_message_id r = mid" by (auto simp: result_for_def dest: find_SomeD)
  then obtain d where "d \<in> set (ap_deliveries db')" "rd_message_id d = mid"
    using inputs_okD(7) [OF ok', of r] by (auto simp: answer_ok_def)
  then have "delivery_for db' mid = Inr d" using input_by_message [OF ok'] by blast
  from handle_stored [OF this m] one_result [OF ok' r(1)] r(2) show ?thesis by simp
qed


section \<open>A conversation\<close>

definition demo_inputs_db :: app_db where
  "demo_inputs_db =
     \<lparr>ap_projects = [],
      ap_sessions = [\<lparr>ss_id = ''s'', ss_project_id = [112], ss_path = ''/p'', ss_title = ''t'', ss_role = ''planning'',
        ss_status = ''active'', ss_created_at = 0, ss_updated_at = 0\<rparr>],
      ap_messages = [], ap_memories = [], ap_deliveries = [], ap_results = []\<rparr>"

definition demo_delivery :: delivery_row where
  "demo_delivery = \<lparr>rd_id = ''d'', rd_message_id = ''m'', rd_session_message_id = ''m'', rd_project_id = [112],
     rd_session_id = ''s'', rd_target_address = demo_uri, rd_target_agent_id = [97], rd_target_generation = 1,
     rd_status = Delivery_Pending, rd_attempt = 0, rd_enqueued_at = None, rd_created_at = 1\<rparr>"

definition demo_asked_db :: app_db where
  "demo_asked_db = demo_inputs_db\<lparr>ap_messages := [new_message 1 ''m'' ''s'' ''user'' ''go''],
     ap_deliveries := [demo_delivery]\<rparr>"

lemma demo_ask: "create_runtime_input (\<lambda>_. True) 1 ''m'' ''d'' ''s'' ''go'' demo_address demo_inputs_db
    = Inr (new_message 1 ''m'' ''s'' ''user'' ''go'', demo_asked_db)"
proof -
  have "ad_project demo_address = [112]" "ad_agent demo_address = [97]" "ad_generation demo_address = 1"
    by (simp_all add: demo_address_def)
  then show ?thesis
    by (simp add: create_runtime_input_def demo_inputs_db_def demo_asked_db_def demo_delivery_def load_session_def
        demo_address_uri new_message_def add_message_def Let_def)
qed

lemma demo_inputs_empty: "empty_inputs demo_inputs_db"
  by (simp add: empty_inputs_def demo_inputs_db_def unique_key_def)

lemma demo_asked: "input_step\<^sup>*\<^sup>* (demo_inputs_db, []) (demo_asked_db, [])"
proof (rule r_into_rtranclp [of input_step], rule input_step.create [OF demo_ask])
  show "valid_address demo_address" by (simp add: valid_address_def demo_address_def)
qed (simp_all add: demo_inputs_db_def mail_content_def message_def)

lemma input_never_lost_witness:
  "\<exists>db' mail' c. relay_one (\<lambda>_. Inr demo_mailbox) Runs_On Db_Ok 5 ''d'' demo_asked_db [] = (Returned True, db', mail')
     \<and> (\<exists>e \<in> set (ap_deliveries db'). rd_id e = ''d'' \<and> rd_status e = Delivery_Delivered)
     \<and> mail_content mail' ''m'' = Some c \<and> input_mail demo_asked_db demo_delivery c"
proof -
  have d: "demo_delivery \<in> set (ap_deliveries demo_asked_db)" "rd_status demo_delivery = Delivery_Pending"
    "rd_id demo_delivery = ''d''" "rd_message_id demo_delivery = ''m''"
    by (simp_all add: demo_asked_db_def demo_delivery_def)
  have "accepts_mail demo_mailbox demo_delivery []"
    by (simp add: accepts_mail_def demo_mailbox_def demo_delivery_def mail_decodes_def undelivered_def rowcount_def)
  with input_never_lost [OF demo_asked demo_inputs_empty d(1)] d(2-4) show ?thesis by simp
qed

lemma answered_once_witness:
  "handle_input (\<lambda>_. Inr ''other'') 9 ''b'' ''m'' (snd (handle_input (\<lambda>_. Inr ''done'') 7 ''a'' ''m'' demo_asked_db))
     = (Inr (new_message 7 ''a'' ''s'' ''assistant'' ''done''),
        snd (handle_input (\<lambda>_. Inr ''done'') 7 ''a'' ''m'' demo_asked_db))"
proof -
  let ?h = "handle_input (\<lambda>_. Inr ''done'') 7 ''a'' ''m'' demo_asked_db"
  have "fst ?h = Inr (new_message 7 ''a'' ''s'' ''assistant'' ''done'')"
    by (simp add: handle_input_def begin_input_def finish_input_def delivery_for_def stored_answer_def result_for_def
        message_by_id_def demo_asked_db_def demo_inputs_db_def demo_delivery_def new_message_def Let_def)
  then have h: "?h = (Inr (new_message 7 ''a'' ''s'' ''assistant'' ''done''), snd ?h)" by (simp add: prod_eq_iff)
  have "''a'' \<notin> pm_id ` set (ap_messages demo_asked_db)" by (simp add: demo_asked_db_def new_message_def)
  from answered_once [OF demo_asked demo_inputs_empty h this rtranclp.rtrancl_refl] show ?thesis by blast
qed

end
