(* ===== verification/Tool_Policy.thy ===== *)
theory Tool_Policy
  imports Py_Text Canonical_Json
begin

text \<open>
  What an agent's tools may touch: the paths of proposals
  (\<^verbatim>\<open>agent/tools/proposal_path_validator.py\<close>), the commands of tests
  (\<^verbatim>\<open>agent/tools/test_command_policy.py\<close>, \<^verbatim>\<open>agent/tools/proposal_test_validator.py\<close>),
  the sandbox of a run (\<^verbatim>\<open>agent/safety/sandbox_policy.py\<close>), requests for further files
  (\<^verbatim>\<open>agent/tools/file_access_request.py\<close>), the tools of a role
  (\<^verbatim>\<open>agent/runtime/role_policy.py\<close>), the test paths of a change
  (\<^verbatim>\<open>agent/tools/tdd_paths.py\<close>) and the identifiers of candidates
  (\<^verbatim>\<open>agent/container/candidate_path_guard.py\<close>). A frozen set is a list without
  repetitions. The root of a workspace is a parameter: \<open>escapes ws\<close> says that the path of
  segments \<open>ws\<close> below it resolves outside of it, which symbolic links may cause.
\<close>

section \<open>Paths of proposals\<close>

fun drop_dot_slash :: "string \<Rightarrow> string" where
  "drop_dot_slash (a # b # s) =
     (if a = CHR ''.'' \<and> b = CHR ''/'' then drop_dot_slash s else a # b # s)"
| "drop_dot_slash s = s"

definition real_segment :: "string \<Rightarrow> bool" where
  "real_segment w \<longleftrightarrow> w \<noteq> [] \<and> w \<noteq> ''.''"

definition path_segments :: "string \<Rightarrow> string list" where
  "path_segments p = filter real_segment (split_on (CHR ''/'') (drop_dot_slash (strip p)))"

definition workspace_relative :: "string \<Rightarrow> string" where
  "workspace_relative p = join_with ''/'' (path_segments p)"

text \<open>The messages of \<^verbatim>\<open>validate\<close> for one patch, whose path may be any JSON value\<close>

definition patch_path_errors :: "string list \<Rightarrow> int \<Rightarrow> dict \<Rightarrow> string list" where
  "patch_path_errors allowed i patch =
     (let prefix = ''Patch ['' @ int_str i @ '']: '' in
      case map_of patch ''path'' of
        Some (JStr path) \<Rightarrow>
          (if strip path = [] then [prefix @ ''empty path'']
           else if startswith path ''/''
           then [prefix @ ''absolute path '' @ [CHR 0x27] @ path @ [CHR 0x27]
             @ '' is not allowed (must be workspace-relative POSIX)'']
           else if 3 \<le> length path \<and> path ! 1 = CHR '':'' \<and> path ! 2 \<in> {CHR 0x5C, CHR ''/''}
           then [prefix @ ''absolute path '' @ [CHR 0x27] @ path @ [CHR 0x27]
             @ '' is not allowed (must be workspace-relative POSIX)'']
           else if CHR 0x5C \<in> set path
           then [prefix @ ''path '' @ [CHR 0x27] @ path @ [CHR 0x27]
             @ '' contains backslash (must use forward slash POSIX path)'']
           else if ''..'' \<in> set (split_on (CHR ''/'') path)
           then [prefix @ ''path '' @ [CHR 0x27] @ path @ [CHR 0x27] @ '' contains parent traversal ''
             @ [CHR 0x27] @ ''..'' @ [CHR 0x27]]
           else if workspace_relative path = []
           then [prefix @ ''path '' @ [CHR 0x27] @ path @ [CHR 0x27] @ '' is empty after normalization'']
           else if workspace_relative path \<notin> set allowed
           then [prefix @ ''path '' @ [CHR 0x27] @ path @ [CHR 0x27] @ '' is not in node.files'']
           else [])
      | _ \<Rightarrow> [prefix @ ''empty path''])"

definition declared_files :: "string list \<Rightarrow> string list" where
  "declared_files files = filter (\<lambda>k. k \<noteq> []) (map workspace_relative files)"

fun each_patch_errors :: "string list \<Rightarrow> int \<Rightarrow> dict list \<Rightarrow> string list" where
  "each_patch_errors allowed i [] = []"
| "each_patch_errors allowed i (p # ps) = patch_path_errors allowed i p @ each_patch_errors allowed (i + 1) ps"

definition validate_patches :: "dict list \<Rightarrow> string list \<Rightarrow> string list" where
  "validate_patches patches files = each_patch_errors (declared_files files) 0 patches"

text \<open>A patch with an error but no path text is passed over\<close>

fun first_offending :: "dict list \<Rightarrow> string list \<Rightarrow> string option" where
  "first_offending [] files = None"
| "first_offending (p # ps) files =
     (if validate_patches [p] files = [] then first_offending ps files
      else (case map_of p ''path'' of
          Some (JStr path) \<Rightarrow> if path = [] then first_offending ps files else Some path
        | _ \<Rightarrow> first_offending ps files))"


section \<open>Commands of tests\<close>

text \<open>
  \<^verbatim>\<open>shlex.split(s, posix=False)\<close>: words end at the four blanks; a word that starts with a
  quote runs to the closing one and keeps both; elsewhere a quote is a character like any other. No
  closing quote is an error.
\<close>

definition shlex_blank :: "char \<Rightarrow> bool" where
  "shlex_blank c \<longleftrightarrow> c \<in> {CHR '' '', CHR 0x09, CHR 0x0A, CHR 0x0D}"

definition is_quote :: "char \<Rightarrow> bool" where
  "is_quote c \<longleftrightarrow> c = CHR 0x22 \<or> c = CHR 0x27"

datatype shlex_state = Between | In_Word | In_Quotes char

fun shlex_from :: "shlex_state \<Rightarrow> string \<Rightarrow> string \<Rightarrow> string list result" where
  "shlex_from st token [] =
     (case st of
        Between \<Rightarrow> Inr []
      | In_Word \<Rightarrow> Inr [token]
      | In_Quotes _ \<Rightarrow> Inl (ValueError ''No closing quotation''))"
| "shlex_from st token (c # s) =
     (case st of
        Between \<Rightarrow>
          (if shlex_blank c then shlex_from Between [] s
           else if is_quote c then shlex_from (In_Quotes c) [c] s
           else shlex_from In_Word [c] s)
      | In_Word \<Rightarrow>
          (if shlex_blank c then bind_result (shlex_from Between [] s) (\<lambda>ts. Inr (token # ts))
           else shlex_from In_Word (token @ [c]) s)
      | In_Quotes q \<Rightarrow>
          (if c = q then bind_result (shlex_from Between [] s) (\<lambda>ts. Inr ((token @ [c]) # ts))
           else shlex_from (In_Quotes q) (token @ [c]) s))"

definition shlex_split :: "string \<Rightarrow> string list result" where
  "shlex_split s = shlex_from Between [] s"

definition strip_quotes :: "string \<Rightarrow> string" where
  "strip_quotes t =
     (if 2 \<le> length t \<and> hd t = last t \<and> is_quote (hd t) then butlast (tl t) else t)"

record parsed_command =
  pc_raw :: string
  pc_argv :: "string list"

definition parse_command_argv :: "string \<Rightarrow> parsed_command result" where
  "parse_command_argv command =
     (let cmd = strip command in
      if cmd = [] then Inl (ValueError ''Empty test command'')
      else bind_result (shlex_split cmd) (\<lambda>raw.
        if raw = [] then Inl (ValueError ''Empty test command'')
        else Inr \<lparr>pc_raw = cmd, pc_argv = map strip_quotes raw\<rparr>))"

definition forbidden_commands :: "string list" where
  "forbidden_commands =
     [''rm'', ''del'', ''rmdir'', ''remove-item'', ''curl'', ''wget'', ''invoke-webrequest'',
      ''start-process'', ''format'', ''shutdown'', ''scp'', ''ssh'']"

definition forbidden_git :: "string list" where
  "forbidden_git = [''reset'', ''checkout'', ''clean'']"

definition shell_metas :: "string list" where
  "shell_metas = ['';'', ''&&'', ''||'', ''|'', ''>'', ''>>'', ''<'', ''$('', [CHR 0x60], ''&'', [CHR 0x0A], [CHR 0x0D]]"

definition in_quotes :: "string \<Rightarrow> string" where
  "in_quotes s = [CHR 0x27] @ s @ [CHR 0x27]"

text \<open>The executable is the last segment of the first word, in lower case\<close>

definition executable_of :: "string \<Rightarrow> string" where
  "executable_of t = last (split_on (CHR ''/'') (replace_char (CHR 0x5C) ''/'' (lower t)))"

text \<open>\<^verbatim>\<open>_validate_executable\<close>; a list of words is never empty there\<close>

definition executable_errors :: "string list \<Rightarrow> string list" where
  "executable_errors tokens =
     (let exe = executable_of (hd tokens);
          errs = (if exe \<in> set forbidden_commands then [''Command '' @ in_quotes exe @ '' is not allowed''] else [])
            @ (if exe = ''git'' \<and> 1 < length tokens \<and> lower (tokens ! 1) \<in> set forbidden_git
               then [''Git subcommand '' @ in_quotes (tokens ! 1) @ '' is not allowed''] else [])
      in if exe = ''pytest'' \<or> exe = ''echo'' \<or> exe = ''exit'' then errs
         else if exe = ''npm'' then errs @
           (if map lower tokens \<in> {[''npm'', ''test''], [''npm'', ''run'', ''build'']} then []
            else [''npm only allows \"npm test\" or \"npm run build\"''])
         else if exe = ''python'' then errs @
           (if length tokens < 3 \<or> tokens ! 1 \<noteq> ''-m'' \<or> lower (tokens ! 2) \<noteq> ''pytest''
            then [''python only allows \"python -m pytest ...\"''] else [])
         else errs @ [''Command '' @ in_quotes (if endswith exe ''.exe'' then take (length exe - 4) exe else exe)
           @ '' is not in allowlist''])"

definition network_words :: "string list" where
  "network_words = [''curl'', ''wget'', ''http://'', ''https://'']"

definition validate_command :: "string \<Rightarrow> string list" where
  "validate_command command =
     (if strip command = [] then [''Empty test command'']
      else
        (let cmd = strip command; lowered = lower cmd;
             errs = (case find (\<lambda>m. occurs_in m cmd) shell_metas of
                None \<Rightarrow> [] | Some m \<Rightarrow> [''Shell operator '' @ in_quotes m @ '' is not allowed''])
              @ (if occurs_in ''powershell'' lowered \<or> startswith lowered ''cmd ''
                 then [''Shell invocation is not allowed''] else [])
         in case parse_command_argv cmd of
              Inl e \<Rightarrow> errs @ [''Cannot parse command: '' @ error_code e]
            | Inr p \<Rightarrow> errs @ executable_errors (pc_argv p)
                @ (if \<not> occurs_in ''requires_network'' lowered \<and> list_ex (\<lambda>n. occurs_in n lowered) network_words
                   then [''Network commands require explicit requires_network approval''] else [])))"

definition validate_commands :: "string list \<Rightarrow> string list" where
  "validate_commands cmds = concat (map validate_command cmds)"


subsection \<open>The tests of a proposal\<close>

definition allowed_test_commands :: "dict \<Rightarrow> string list \<Rightarrow> string list" where
  "allowed_test_commands snapshot context_tests =
     (let clean = (\<lambda>cs. remdups (filter (\<lambda>c. c \<noteq> []) (map strip cs))) in
      case map_of snapshot ''allowed_test_commands'' of
        Some (JList vs) \<Rightarrow> clean (map py_str vs)
      | Some _ \<Rightarrow> []
      | None \<Rightarrow> clean context_tests)"

definition proposal_test_errors :: "string list \<Rightarrow> dict \<Rightarrow> string list \<Rightarrow> string list" where
  "proposal_test_errors tests snapshot context_tests =
     (let allowed = allowed_test_commands snapshot context_tests in
      concat (map (\<lambda>cmd.
        let t = strip cmd in
        if t = [] then []
        else if t \<notin> set allowed then [''Command not in sandbox allowlist: '' @ t]
        else validate_command t) tests))"

section \<open>The sandbox of a run\<close>

record sandbox =
  sb_run_id :: string
  sb_node_id :: string
  sb_root :: string
  sb_allowed_files :: "string list"
  sb_allowed_tests :: "string list"
  sb_network :: bool
  sb_install :: bool
  sb_env_visible :: bool
  sb_timeout :: int
  sb_readonly :: "string list"

definition relative_set :: "string list \<Rightarrow> string list" where
  "relative_set paths = remdups (filter (\<lambda>k. k \<noteq> []) (map workspace_relative paths))"

definition timeout_message :: string where
  "timeout_message = ''command_timeout_seconds exceeds max 300''"

definition sandbox_for_run ::
  "string \<Rightarrow> string \<Rightarrow> string \<Rightarrow> string list \<Rightarrow> string list \<Rightarrow> int \<Rightarrow> bool \<Rightarrow> sandbox result" where
  "sandbox_for_run run node dir files tests timeout network =
     (let t = max 1 timeout in
      if 300 < t then Inl (ValueError timeout_message)
      else Inr \<lparr>sb_run_id = run, sb_node_id = node, sb_root = dir, sb_allowed_files = relative_set files,
        sb_allowed_tests = remdups (filter (\<lambda>c. c \<noteq> [] \<and> validate_command c = []) (map strip tests)),
        sb_network = network, sb_install = False, sb_env_visible = False, sb_timeout = t, sb_readonly = []\<rparr>)"

definition with_readonly_files :: "string list \<Rightarrow> sandbox \<Rightarrow> sandbox" where
  "with_readonly_files paths sb = sb\<lparr>sb_readonly := relative_set paths\<rparr>"

definition with_granted_files :: "string list \<Rightarrow> sandbox \<Rightarrow> sandbox" where
  "with_granted_files extra sb = sb\<lparr>sb_allowed_files := remdups (sb_allowed_files sb @ relative_set extra)\<rparr>"

definition timeout_errors :: "sandbox \<Rightarrow> string list" where
  "timeout_errors sb = (if 300 < sb_timeout sb then [timeout_message] else [])"

text \<open>\<^verbatim>\<open>_DRIVE_PATTERN\<close> and \<^verbatim>\<open>_C_DRIVE_PATTERN\<close>, after backslashes became slashes\<close>

definition drive_letter :: "string \<Rightarrow> bool" where
  "drive_letter s \<longleftrightarrow> 2 \<le> length s \<and> (let n = of_char (lower_char (s ! 0)) :: nat in 97 \<le> n \<and> n \<le> 122) \<and> s ! 1 = CHR '':''"

definition c_drive :: "string \<Rightarrow> bool" where
  "c_drive s \<longleftrightarrow> 3 \<le> length s \<and> lower [s ! 0] = ''c'' \<and> s ! 1 = CHR '':'' \<and> s ! 2 \<in> {CHR ''/'', CHR 0x5C}"

abbreviation back_slash :: char where
  "back_slash \<equiv> CHR 0x5C"

definition has_traversal :: "string \<Rightarrow> bool" where
  "has_traversal raw \<longleftrightarrow> ''..'' \<in> set (split_on (CHR ''/'') raw) \<or> ''..'' \<in> set (split_on back_slash raw)"

definition outside_message :: "string \<Rightarrow> string" where
  "outside_message rel = ''Path resolves outside workspace: '' @ rel"

definition allowed_path_errors :: "(string list \<Rightarrow> bool) \<Rightarrow> string \<Rightarrow> sandbox \<Rightarrow> string \<Rightarrow> string list" where
  "allowed_path_errors escapes purpose sb path =
     (let raw = strip path; slashed = replace_char back_slash ''/'' raw; rel = workspace_relative raw;
          errs = (if startswith raw ''/'' then [''Absolute POSIX path is not allowed''] else [])
            @ (if drive_letter slashed
               then (if c_drive slashed then [''C: drive paths are not allowed'']
                     else [''Absolute Windows path is not allowed'']) else [])
            @ (if back_slash \<in> set raw then [''Backslash paths are not allowed; use POSIX relative paths''] else [])
            @ (if has_traversal raw then [''Parent traversal '' @ in_quotes ''..'' @ '' is not allowed''] else [])
      in if raw = [] then [''Empty path for '' @ purpose]
         else if rel = [] then errs @ [''Path is empty after normalization'']
         else errs @ (if escapes (split_on (CHR ''/'') rel) then [outside_message rel] else [])
           @ (if rel \<notin> set (sb_allowed_files sb) then [''Path '' @ in_quotes rel @ '' is not in allowed_files''] else []))"

definition validate_read_path :: "(string list \<Rightarrow> bool) \<Rightarrow> sandbox \<Rightarrow> string \<Rightarrow> string list" where
  "validate_read_path escapes sb path = allowed_path_errors escapes ''read'' sb path"

definition readonly_patch_errors :: "sandbox \<Rightarrow> string \<Rightarrow> string list" where
  "readonly_patch_errors sb path =
     (let rel = workspace_relative (strip path) in
      if rel \<in> set (sb_readonly sb) then [''Path '' @ in_quotes rel @ '' is readonly (module interface mock)''] else [])"

definition plan_db :: string where
  "plan_db = ''.bridle/plan.db''"

definition validate_patch_path :: "(string list \<Rightarrow> bool) \<Rightarrow> sandbox \<Rightarrow> string \<Rightarrow> string list" where
  "validate_patch_path escapes sb path =
     readonly_patch_errors sb path @ allowed_path_errors escapes ''patch'' sb path
     @ (if workspace_relative (strip path) = plan_db
        then [plan_db @ '' can only be changed through PlanService.patch_current''] else [])"

definition validate_test_command :: "sandbox \<Rightarrow> string \<Rightarrow> string list" where
  "validate_test_command sb command =
     (let cmd = strip command; lowered = lower cmd in
      if cmd = [] then [''Empty test command'']
      else validate_command cmd
        @ (if cmd \<notin> set (sb_allowed_tests sb) then [''Command is not in node.tests allowlist for this run''] else [])
        @ (if \<not> sb_network sb \<and> list_ex (\<lambda>n. occurs_in n lowered) network_words
           then [''Network access is disabled in sandbox policy''] else [])
        @ (if \<not> sb_install sb \<and> list_ex (\<lambda>n. occurs_in n lowered) [''npm install'', ''pip install'', ''uv add'']
           then [''Dependency install is disabled in sandbox policy''] else []))"

text \<open>The segments below the root, or nothing\<close>

definition resolve_read_path :: "(string list \<Rightarrow> bool) \<Rightarrow> sandbox \<Rightarrow> string \<Rightarrow> string list option" where
  "resolve_read_path escapes sb path =
     (if validate_read_path escapes sb path \<noteq> [] then None
      else Some (split_on (CHR ''/'') (workspace_relative path)))"

definition sandbox_snapshot :: "sandbox \<Rightarrow> dict" where
  "sandbox_snapshot sb =
     [(''run_id'', JStr (sb_run_id sb)), (''node_id'', JStr (sb_node_id sb)), (''workspace_root'', JStr (sb_root sb)),
      (''allowed_files'', JList (map JStr (sort (sb_allowed_files sb)))),
      (''allowed_test_commands'', JList (map JStr (sort (sb_allowed_tests sb)))),
      (''network_allowed'', JBool (sb_network sb)), (''dependency_install_allowed'', JBool (sb_install sb)),
      (''env_visible'', JBool (sb_env_visible sb)), (''command_timeout_seconds'', JInt (sb_timeout sb))]"


section \<open>Requests for further files\<close>

definition low_risk_names :: "string list" where
  "low_risk_names = [''__init__.py'', ''conftest.py'', ''pyproject.toml'', ''setup.cfg'', ''pytest.ini'']"

definition high_risk_markers :: "string list" where
  "high_risk_markers = [''.env'', ''credentials'', ''secret'', ''id_rsa'', ''.github/workflows'', ''docker-compose'', ''alembic'']"

record access_decision =
  fd_requested :: string
  fd_normalized :: string
  fd_risk :: string
  fd_auto_approve :: bool
  fd_reason :: string

definition request_payload :: "access_decision \<Rightarrow> string \<Rightarrow> string \<Rightarrow> dict option \<Rightarrow> string \<Rightarrow> string \<Rightarrow> string \<Rightarrow> dict" where
  "request_payload d change reason evidence node run status =
     [(''requested_path'', JStr (fd_requested d)), (''normalized_path'', JStr (fd_normalized d)),
      (''change_type'', JStr change), (''reason'', JStr reason),
      (''evidence'', JObj (case evidence of None \<Rightarrow> [] | Some e \<Rightarrow> e)), (''risk_level'', JStr (fd_risk d)),
      (''node_id'', JStr node), (''run_id'', JStr run), (''status'', JStr status),
      (''auto_approve'', JBool (fd_auto_approve d)), (''decision_reason'', JStr (fd_reason d))]"

definition boundary_errors :: "(string list \<Rightarrow> bool) \<Rightarrow> string \<Rightarrow> string list" where
  "boundary_errors escapes path =
     (let raw = strip path; slashed = replace_char back_slash ''/'' raw; rel = workspace_relative raw;
          errs = (if startswith raw ''/'' then [''Absolute POSIX path is not allowed''] else [])
            @ (if startswith (lower slashed) ''c:'' then [''C: drive paths are not allowed''] else [])
            @ (if 2 \<le> length slashed \<and> slashed ! 1 = CHR '':'' then [''Absolute Windows path is not allowed''] else [])
            @ (if back_slash \<in> set raw then [''Backslash paths are not allowed; use POSIX relative paths''] else [])
            @ (if has_traversal raw then [''Parent traversal '' @ in_quotes ''..'' @ '' is not allowed''] else [])
      in if raw = [] then [''Empty path for patch'']
         else if rel = [] then errs @ [''Path is empty after normalization'']
         else errs @ (if escapes (split_on (CHR ''/'') rel) then [outside_message rel] else []))"

definition high_risk :: "string \<Rightarrow> bool" where
  "high_risk rel \<longleftrightarrow> list_ex (\<lambda>m. occurs_in m (lower rel)) high_risk_markers"

definition low_risk_path :: "string \<Rightarrow> bool" where
  "low_risk_path rel \<longleftrightarrow> last (split_on (CHR ''/'') rel) \<in> set low_risk_names \<or> startswith rel ''tests/fixtures/''"

definition evaluate_file_access :: "(string list \<Rightarrow> bool) \<Rightarrow> string list \<Rightarrow> string \<Rightarrow> access_decision" where
  "evaluate_file_access escapes allowed path =
     (let rel = workspace_relative path; errs = boundary_errors escapes path in
      if errs \<noteq> [] then
        \<lparr>fd_requested = path, fd_normalized = (if rel = [] then path else rel), fd_risk = ''high'',
         fd_auto_approve = False, fd_reason = join_with ''; '' errs\<rparr>
      else if rel \<in> set allowed then
        \<lparr>fd_requested = path, fd_normalized = rel, fd_risk = ''low'', fd_auto_approve = True,
         fd_reason = ''Path already in allowed_files''\<rparr>
      else if high_risk rel then
        \<lparr>fd_requested = path, fd_normalized = rel, fd_risk = ''high'', fd_auto_approve = False,
         fd_reason = ''Path matches high-risk file pattern''\<rparr>
      else if low_risk_path rel then
        \<lparr>fd_requested = path, fd_normalized = rel, fd_risk = ''low'', fd_auto_approve = True,
         fd_reason = ''Low-risk optional helper file inside workspace''\<rparr>
      else
        \<lparr>fd_requested = path, fd_normalized = rel, fd_risk = ''high'', fd_auto_approve = False,
         fd_reason = ''Path is outside allowed_files and not auto-approvable''\<rparr>)"

section \<open>Roles\<close>

datatype runtime_role = Role_Planning | Role_Executing | Role_Mapping | Role_Sidecar

definition shared_tool_rules :: "(string \<times> runtime_role list) list" where
  "shared_tool_rules =
     [(''read_project_map'', [Role_Planning, Role_Executing, Role_Mapping, Role_Sidecar]),
      (''patch_plan_nodes'', [Role_Planning]), (''propose_semantic_annotation'', [Role_Mapping]),
      (''dispatch_child_agent'', [Role_Planning]), (''run_command'', [Role_Executing]),
      (''execute_plan_node'', [Role_Executing]), (''report_blocked'', [Role_Planning, Role_Executing, Role_Mapping])]"

definition role_manifest :: "runtime_role \<Rightarrow> (string \<times> bool) list" where
  "role_manifest r = map (\<lambda>(tool, roles). (tool, r \<in> set roles)) shared_tool_rules"

definition require_tool :: "runtime_role \<Rightarrow> string \<Rightarrow> unit result" where
  "require_tool r tool =
     (case map_of shared_tool_rules tool of
        None \<Rightarrow> Inl (ForbiddenError ''runtime_tool'' ''role_capability_denied'')
      | Some roles \<Rightarrow> if r \<in> set roles then Inr () else Inl (ForbiddenError ''runtime_tool'' ''role_capability_denied''))"

section \<open>Identifiers of candidates\<close>

text \<open>\<^verbatim>\<open>_SAFE_ID_PATTERN\<close>, matched on a stripped text\<close>

definition id_start :: "char \<Rightarrow> bool" where
  "id_start c \<longleftrightarrow> (let n = (of_char c :: nat) in
     (48 \<le> n \<and> n \<le> 57) \<or> (65 \<le> n \<and> n \<le> 90) \<or> (97 \<le> n \<and> n \<le> 122))"

definition id_rest :: "char \<Rightarrow> bool" where
  "id_rest c \<longleftrightarrow> id_start c \<or> c \<in> {CHR ''.'', CHR ''_'', CHR ''-''}"

definition safe_id_shape :: "string \<Rightarrow> bool" where
  "safe_id_shape s \<longleftrightarrow> (case s of [] \<Rightarrow> False | c # t \<Rightarrow> id_start c \<and> length t \<le> 127 \<and> list_all id_rest t)"

definition validate_safe_id :: "string \<Rightarrow> string \<Rightarrow> string result" where
  "validate_safe_id field v =
     (let t = strip v in
      if t = [] then Inl (ValueError (field @ ''_required''))
      else if \<not> safe_id_shape t then Inl (ValueError (field @ ''_invalid''))
      else if occurs_in ''..'' t \<or> CHR ''/'' \<in> set t \<or> back_slash \<in> set t then Inl (ValueError (field @ ''_invalid''))
      else Inr t)"

definition absolute_windows :: "string \<Rightarrow> bool" where
  "absolute_windows raw \<longleftrightarrow> (2 \<le> length raw \<and> raw ! 1 = CHR '':'')
     \<or> startswith raw [back_slash, back_slash] \<or> startswith raw ''//''"

definition candidate_rel_shape :: "string \<Rightarrow> bool" where
  "candidate_rel_shape s \<longleftrightarrow> startswith s ''candidates/'' \<and> safe_id_shape (drop 11 s)"

definition validate_candidate_rel :: "string \<Rightarrow> string result" where
  "validate_candidate_rel rel =
     (let raw = strip rel; err = Inl (ValueError ''candidate_rel_invalid'') in
      if raw = [] then Inl (ValueError ''candidate_rel_required'')
      else if startswith raw ''/'' \<or> startswith raw [back_slash] \<or> absolute_windows raw then err
      else if back_slash \<in> set raw then err
      else if endswith raw ''/'' then err
      else if list_ex (\<lambda>w. w = [] \<or> w = ''.'' \<or> w = ''..'') (split_on (CHR ''/'') raw) then err
      else if \<not> candidate_rel_shape raw then err
      else Inr raw)"


section \<open>Test paths of a change\<close>

definition tdd_normalize :: "string \<Rightarrow> string" where
  "tdd_normalize path = lstrip_chars ''/'' (lstrip_chars ''./'' (strip (replace_char back_slash ''/'' path)))"

text \<open>\<^verbatim>\<open>PurePosixPath\<close>: its root, its parts, its text and the joining of parts\<close>

definition posix_root :: "string \<Rightarrow> string" where
  "posix_root s =
     (if \<not> startswith s ''/'' then [] else if startswith s ''//'' \<and> \<not> startswith s ''///'' then ''//'' else ''/'')"

definition posix_segments :: "string \<Rightarrow> string list" where
  "posix_segments s = filter real_segment (split_on (CHR ''/'') s)"

definition posix_parts :: "string \<Rightarrow> string list" where
  "posix_parts s = (if posix_root s = [] then [] else [posix_root s]) @ posix_segments s"

definition posix_str :: "string \<Rightarrow> string" where
  "posix_str s = (let t = posix_root s @ join_with ''/'' (posix_segments s) in if t = [] then ''.'' else t)"

definition posix_join :: "string \<Rightarrow> string list \<Rightarrow> string" where
  "posix_join a bs = foldl (\<lambda>p b.
     if startswith b ''/'' then b else if p = [] \<or> endswith p ''/'' then p @ b else p @ ''/'' @ b) a bs"

definition posix_name :: "string \<Rightarrow> string" where
  "posix_name s = (if posix_segments s = [] then [] else last (posix_segments s))"

definition is_test_path :: "string \<Rightarrow> bool" where
  "is_test_path path \<longleftrightarrow>
     (let parts = posix_parts (tdd_normalize path) in
      path \<noteq> [] \<and> tdd_normalize path \<noteq> [] \<and> parts \<noteq> []
      \<and> (list_ex (\<lambda>w. w = ''tests'' \<or> w = ''test'') parts
         \<or> startswith (last parts) ''test_'' \<or> endswith (last parts) ''_test.py''))"

definition derive_test_path :: "string \<Rightarrow> string option" where
  "derive_test_path path =
     (let s = tdd_normalize path; name = ''test_'' @ posix_name s in
      if path = [] \<or> \<not> endswith s ''.py'' then None
      else if is_test_path s then Some s
      else if startswith s ''backend/src/'' then
        (let parts = posix_parts (drop 12 s) in
         Some (posix_str (posix_join ''backend/tests''
           ((if 2 \<le> length parts then butlast (tl parts) else butlast parts) @ [name]))))
      else if startswith s ''src/'' then
        Some (posix_str (posix_join ''tests'' (butlast (posix_parts (drop 4 s)) @ [name])))
      else Some (posix_str (posix_join ''tests'' [name])))"

fun normalized_entries :: "string list \<Rightarrow> string list \<Rightarrow> string list" where
  "normalized_entries out [] = out"
| "normalized_entries out (e # es) =
     (let k = tdd_normalize e in
      normalized_entries (if k = [] \<or> k \<in> set out then out else out @ [k]) es)"

fun derived_entries :: "string list \<Rightarrow> string list \<Rightarrow> string list" where
  "derived_entries out [] = out"
| "derived_entries out (e # es) =
     derived_entries
       (if is_test_path e then out
        else (case derive_test_path e of
            None \<Rightarrow> out
          | Some t \<Rightarrow> if t = [] \<or> t \<in> set out then out else out @ [t])) es"

definition expand_allowed_files :: "string list \<Rightarrow> string list" where
  "expand_allowed_files files = (let out = normalized_entries [] files in derived_entries out out)"

end
