(* ===== verification/Candidate_Patches.thy ===== *)
theory Candidate_Patches
  imports Candidate_Request Tool_Policy "HOL-Library.Product_Lexorder"
begin

text \<open>
  Candidates before and after their run: the validation and the dictionary form of a request and the
  patches of a result (\<^verbatim>\<open>agent/container/candidate_contract.py\<close>), the commands and the contract a
  run is started with (\<^verbatim>\<open>agent/container/test_command_compiler.py\<close>). The digest of a text is
  \<open>sha\<close>; the resolution of paths and the digests of files are parameters.
\<close>

section \<open>Requests\<close>

definition request_dict :: "(string \<Rightarrow> string) \<Rightarrow> candidate_request \<Rightarrow> dict" where
  "request_dict resolve q =
     [(''candidate_id'', JStr (cq_candidate_id q)), (''run_id'', JStr (cq_run_id q)), (''node_id'', JStr (cq_node_id q)),
      (''project_root'', JStr (resolve (cq_project_root q))), (''base_map_seq'', JInt (cq_base_map_seq q)),
      (''write_set'', JList (map JStr (cq_write_set q))), (''read_set'', JList (map JStr (cq_read_set q))),
      (''readonly_files'', JList (map JStr (cq_readonly_files q))), (''tests'', JList (map JStr (cq_tests q))),
      (''timeout_seconds'', JInt (cq_timeout_seconds q)), (''network_allowed'', JBool (cq_network_allowed q)),
      (''module_id'', JStr (cq_module_id q)), (''boundary_fingerprint'', JStr (cq_boundary_fingerprint q)),
      (''image_version'', JStr (cq_image_version q))]"

definition relative_path_errors :: "string \<Rightarrow> string list" where
  "relative_path_errors raw =
     (let t = strip raw in
      if t = [] then [''empty_path'']
      else if startswith t ''/'' then [''absolute_posix_path'']
      else if back_slash \<in> set t then [''backslash_path'']
      else if 2 \<le> length t \<and> t ! 1 = CHR '':'' then [''windows_drive_path'']
      else if ''..'' \<in> set (split_on (CHR ''/'') (replace_char back_slash ''/'' t)) then [''parent_traversal'']
      else if workspace_relative t = [] then [''empty_after_normalization'']
      else [])"

text \<open>
  The paths of the three sets, in order; a repetition counts only in the write set, which comes first.
\<close>

fun path_set_errors :: "string \<Rightarrow> string list \<Rightarrow> string list \<Rightarrow> string list \<times> string list" where
  "path_set_errors label seen [] = ([], seen)"
| "path_set_errors label seen (raw # rest) =
     (if relative_path_errors raw \<noteq> [] then
        (let (errs, seen') = path_set_errors label seen rest
         in (map (\<lambda>e. label @ '':'' @ e) (relative_path_errors raw) @ errs, seen'))
      else
        (let k = workspace_relative raw; (errs, seen') = path_set_errors label (k # seen) rest
         in ((if k \<in> set seen \<and> label = ''write_set'' then [''duplicate_path:'' @ k] else []) @ errs, seen')))"

definition id_errors :: "string \<Rightarrow> string \<Rightarrow> string list" where
  "id_errors field v =
     (if strip v = [] then [field @ ''_required'']
      else (case validate_safe_id field v of Inl e \<Rightarrow> [error_code e] | Inr _ \<Rightarrow> []))"

text \<open>
  \<open>inside\<close> says whether the directory of the candidate, for its two identifiers, resolves below the
  project and its runtime directory; an invalid candidate identifier makes this step fail too.
\<close>

definition candidate_root_errors :: "(string \<Rightarrow> string \<Rightarrow> bool) \<Rightarrow> candidate_request \<Rightarrow> string list" where
  "candidate_root_errors inside q =
     (case validate_safe_id ''module_id'' (cq_module_id q) of
        Inl _ \<Rightarrow> [''candidate_root_outside_project'']
      | Inr m \<Rightarrow> (case validate_safe_id ''candidate_id'' (cq_candidate_id q) of
            Inl _ \<Rightarrow> [''candidate_root_outside_project'']
          | Inr c \<Rightarrow> if inside m c then [] else [''candidate_root_outside_project'']))"

definition request_errors :: "(string \<Rightarrow> string \<Rightarrow> bool) \<Rightarrow> candidate_request \<Rightarrow> string list" where
  "request_errors inside q =
     (let ids = id_errors ''candidate_id'' (cq_candidate_id q) @ id_errors ''module_id'' (cq_module_id q);
          roots = (if ''module_id_required'' \<notin> set ids \<and> ''module_id_invalid'' \<notin> set ids
                   then candidate_root_errors inside q else []);
          timeout = (if cq_timeout_seconds q < 1 \<or> 3600 < cq_timeout_seconds q then [''timeout_out_of_range''] else []);
          (w, seen1) = path_set_errors ''write_set'' [] (cq_write_set q);
          (r, seen2) = path_set_errors ''read_set'' seen1 (cq_read_set q);
          (o', seen3) = path_set_errors ''readonly_files'' seen2 (cq_readonly_files q)
      in ids @ roots @ timeout @ w @ r @ o' @ (if cq_base_map_seq q < 0 then [''base_map_seq_invalid''] else []))"

definition validate_request :: "(string \<Rightarrow> string \<Rightarrow> bool) \<Rightarrow> candidate_request \<Rightarrow> unit result" where
  "validate_request inside q =
     (if request_errors inside q = [] then Inr ()
      else Inl (ValueError (join_with ''; '' (request_errors inside q))))"

text \<open>Decoding a stored request; \<open>resolve\<close> is \<^verbatim>\<open>Path.resolve\<close> on the text of a path\<close>

definition int_or_zero :: "dict \<Rightarrow> string \<Rightarrow> int result" where
  "int_or_zero d k = (let v = dict_get d k in if truthy v then py_int v else Inr 0)"

definition str_items :: "dict \<Rightarrow> string \<Rightarrow> string list result" where
  "str_items d k = bind_result (py_iter (dict_get d k)) (\<lambda>vs. Inr (map py_str vs))"

definition str_or :: "string \<Rightarrow> dict \<Rightarrow> string \<Rightarrow> string" where
  "str_or e d k = (let v = dict_get d k in if truthy v then py_str v else e)"

definition request_of_dict ::
  "(string \<Rightarrow> string) \<Rightarrow> (string \<Rightarrow> string \<Rightarrow> bool) \<Rightarrow> dict \<Rightarrow> candidate_request result" where
  "request_of_dict resolve inside d =
     bind_result (int_or_zero d ''base_map_seq'') (\<lambda>seq.
     bind_result (str_items d ''write_set'') (\<lambda>ws.
     bind_result (str_items d ''read_set'') (\<lambda>rs.
     bind_result (str_items d ''readonly_files'') (\<lambda>os.
     bind_result (str_items d ''tests'') (\<lambda>ts.
     bind_result (int_or_zero d ''timeout_seconds'') (\<lambda>timeout.
       let q = \<lparr>cq_candidate_id = str_or [] d ''candidate_id'', cq_run_id = str_or [] d ''run_id'',
                cq_node_id = str_or [] d ''node_id'', cq_project_root = resolve (str_or ''.'' d ''project_root''),
                cq_base_map_seq = seq, cq_write_set = ws, cq_read_set = rs, cq_readonly_files = os, cq_tests = ts,
                cq_timeout_seconds = timeout, cq_network_allowed = truthy (dict_get d ''network_allowed''),
                cq_module_id = str_or [] d ''module_id'', cq_boundary_fingerprint = str_or [] d ''boundary_fingerprint'',
                cq_image_version = str_or ''local'' d ''image_version''\<rparr>
       in bind_result (validate_request inside q) (\<lambda>_. Inr q)))))))"

section \<open>Patches\<close>

type_synonym hashes = "(string \<times> string) list"

datatype change_type = Change_Add | Change_Remove | Change_Modify | Change_Rename

record candidate_patch =
  ca_path :: string
  ca_old_path :: "string option"
  ca_type :: change_type
  ca_base :: "string option"
  ca_candidate :: "string option"

definition all_paths :: "string list \<Rightarrow> hashes \<Rightarrow> hashes \<Rightarrow> string list" where
  "all_paths write_set base cand = sort (remdups (write_set @ map fst base @ map fst cand))"

text \<open>The entries of \<open>a\<close> that \<open>b\<close> does not have\<close>

definition only_in :: "hashes \<Rightarrow> hashes \<Rightarrow> string list \<Rightarrow> hashes" where
  "only_in a b paths = concat (map (\<lambda>p.
     case map_of a p of None \<Rightarrow> [] | Some h \<Rightarrow> if map_of b p = None then [(p, h)] else []) paths)"

fun match_renames :: "hashes \<Rightarrow> hashes \<Rightarrow> string list \<Rightarrow> (string \<times> string \<times> string) list" where
  "match_renames [] added used = []"
| "match_renames ((old, digest) # rest) added used =
     (case sort (map fst (filter (\<lambda>(p, d). d = digest \<and> p \<notin> set used) added)) of
        [] \<Rightarrow> match_renames rest added used
      | new # _ \<Rightarrow> (old, new, digest) # match_renames rest added (new # used))"

definition rename_patch :: "string \<times> string \<times> string \<Rightarrow> candidate_patch" where
  "rename_patch = (\<lambda>(old, new, digest).
     \<lparr>ca_path = new, ca_old_path = Some old, ca_type = Change_Rename, ca_base = Some digest, ca_candidate = Some digest\<rparr>)"

definition plain_patch :: "hashes \<Rightarrow> hashes \<Rightarrow> string \<Rightarrow> candidate_patch" where
  "plain_patch base cand p =
     \<lparr>ca_path = p, ca_old_path = None,
      ca_type = (if map_of base p = None \<and> map_of cand p \<noteq> None then Change_Add
                 else if map_of base p \<noteq> None \<and> map_of cand p = None then Change_Remove else Change_Modify),
      ca_base = map_of base p, ca_candidate = map_of cand p\<rparr>"

definition compute_patches :: "hashes \<Rightarrow> hashes \<Rightarrow> string list \<Rightarrow> string list \<times> candidate_patch list" where
  "compute_patches base cand write_set =
     (let paths = all_paths write_set base cand;
          renames = match_renames (sort (only_in base cand paths)) (only_in cand base paths) [];
          changed = filter (\<lambda>p. map_of base p \<noteq> map_of cand p) paths;
          plain = filter (\<lambda>p. p \<notin> fst ` set renames \<and> p \<notin> (fst \<circ> snd) ` set renames) changed
      in (changed, sort_key ca_path (map (plain_patch base cand) plain @ map rename_patch renames)))"

section \<open>Commands and contracts of a run\<close>

record approved_command =
  ap_command_id :: string
  ap_argv :: "string list"
  ap_raw :: string
  ap_entity :: string
  ap_map_seq :: int

definition short_id :: "(string \<Rightarrow> string) \<Rightarrow> string \<Rightarrow> string" where
  "short_id sha s = take 16 (sha s)"

text \<open>The words go into the manifest as the splitter leaves them\<close>

fun compile_commands :: "(string \<Rightarrow> string) \<Rightarrow> string \<Rightarrow> int \<Rightarrow> string list \<Rightarrow> approved_command list result" where
  "compile_commands sha entity seq [] = Inr []"
| "compile_commands sha entity seq (raw # rest) =
     (let t = strip raw in
      if t = [] then compile_commands sha entity seq rest
      else (case validate_command t of
          e # _ \<Rightarrow> Inl (ValueError (''test_target_not_allowed: '' @ e))
        | [] \<Rightarrow>
            bind_result (shlex_split t) (\<lambda>argv.
            bind_result (compile_commands sha entity seq rest) (\<lambda>cmds.
              Inr (\<lparr>ap_command_id = short_id sha (entity @ '':'' @ int_str seq @ '':'' @ t), ap_argv = argv,
                    ap_raw = t, ap_entity = entity, ap_map_seq = seq\<rparr> # cmds)))))"

definition manifest_command :: "approved_command \<Rightarrow> json" where
  "manifest_command c = JObj
     [(''command_id'', JStr (ap_command_id c)), (''argv'', JList (map JStr (ap_argv c))),
      (''raw_command'', JStr (ap_raw c)), (''test_entity_id'', JStr (ap_entity c)), (''map_seq'', JInt (ap_map_seq c))]"

definition manifest_commands :: "approved_command list \<Rightarrow> json list" where
  "manifest_commands cmds = map manifest_command cmds"

text \<open>
  \<open>file_digest\<close> is the file system below the root: nothing for a path that resolves outside of it,
  otherwise the digest of the file there, if it is one.
\<close>

fun snapshot_files :: "(string \<Rightarrow> string option option) \<Rightarrow> string list \<Rightarrow> file_snapshot list result" where
  "snapshot_files file_digest [] = Inr []"
| "snapshot_files file_digest (raw # rest) =
     (let p = workspace_relative raw in
      case file_digest p of
        None \<Rightarrow> Inl (ValueError ''test_contract_file_outside_project'')
      | Some found \<Rightarrow>
          (case (if p = [] then None else found) of
             None \<Rightarrow> Inl (ValueError (''test_contract_file_missing:'' @ (if p = [] then raw else p)))
           | Some h \<Rightarrow> bind_result (snapshot_files file_digest rest) (\<lambda>fs. Inr (\<lparr>fs_path = p, fs_sha256 = h\<rparr> # fs))))"

definition case_node_id :: "string \<Rightarrow> string" where
  "case_node_id raw = replace_char back_slash ''/'' (strip raw)"

definition snapshot_cases :: "(string \<Rightarrow> string) \<Rightarrow> string \<Rightarrow> string list \<Rightarrow> case_snapshot list" where
  "snapshot_cases sha entity cases =
     map (\<lambda>n. \<lparr>cs_case_id = short_id sha (entity @ '':'' @ n), cs_node_id = n\<rparr>)
       (filter (\<lambda>n. n \<noteq> []) (map case_node_id cases))"

fun expected_ids :: "case_snapshot list \<Rightarrow> string list \<Rightarrow> string list result" where
  "expected_ids cases [] = Inr []"
| "expected_ids cases (raw # rest) =
     (case find (\<lambda>c. cs_node_id c = case_node_id raw) cases of
        None \<Rightarrow> Inl (ValueError (''test_contract_expected_failure_case_unknown:'' @ case_node_id raw))
      | Some c \<Rightarrow> bind_result (expected_ids cases rest) (\<lambda>ids. Inr (cs_case_id c # ids)))"

definition command_snapshot_of :: "approved_command \<Rightarrow> command_snapshot" where
  "command_snapshot_of c = \<lparr>cmd_command_id = ap_command_id c, cmd_argv = ap_argv c, cmd_raw_command = ap_raw c,
     cmd_test_entity_id = ap_entity c, cmd_map_seq = ap_map_seq c\<rparr>"

definition compile_contract ::
  "(string \<Rightarrow> string) \<Rightarrow> (string \<Rightarrow> string option option) \<Rightarrow> string list \<Rightarrow> string list \<Rightarrow> string list \<Rightarrow> string list
     \<Rightarrow> string \<Rightarrow> string \<Rightarrow> int \<Rightarrow> string \<Rightarrow> string \<Rightarrow> frozen_contract result" where
  "compile_contract sha file_digest files cases commands expected entity baseline seq boundary img =
     bind_result (snapshot_files file_digest files) (\<lambda>fs.
     bind_result (expected_ids (snapshot_cases sha entity cases) expected) (\<lambda>ids.
     bind_result (compile_commands sha entity seq commands) (\<lambda>cmds.
       freeze_contract sha fs (snapshot_cases sha entity cases) (map command_snapshot_of cmds) ids
         baseline seq boundary img)))"

end
