(* ===== verification/Tool_Properties.thy ===== *)
theory Tool_Properties
  imports Tool_Policy
begin

text \<open>
  What the policies of \<open>Tool_Policy\<close> let through: commands of a few known shapes without shell
  operators, and paths that are declared and stay below the root of the workspace.
\<close>

section \<open>Commands\<close>

subsection \<open>The words of a command\<close>

text \<open>
  The grammar of a command, apart from any parser: blanks, bare words that end at a blank and do not start with
  a quote, and quoted words, which are what stands between two equal quotes.
\<close>

definition word_blanks :: "char set" where
  "word_blanks = {CHR '' '', CHR 0x09, CHR 0x0A, CHR 0x0D}"

definition word_quotes :: "char set" where
  "word_quotes = {CHR 0x22, CHR 0x27}"

inductive reads :: "string \<Rightarrow> string list \<Rightarrow> bool" where
  nothing: "reads [] []"
| blank: "c \<in> word_blanks \<Longrightarrow> reads s ws \<Longrightarrow> reads (c # s) ws"
| bare: "w \<noteq> [] \<Longrightarrow> hd w \<notin> word_quotes \<Longrightarrow> set w \<inter> word_blanks = {} \<Longrightarrow> s = [] \<or> hd s \<in> word_blanks \<Longrightarrow>
    reads s ws \<Longrightarrow> reads (w @ s) (w # ws)"
| quoted: "q \<in> word_quotes \<Longrightarrow> q \<notin> set w \<Longrightarrow> reads s ws \<Longrightarrow> reads (q # w @ q # s) (w # ws)"

lemma blank_word_blanks: "shlex_blank c \<longleftrightarrow> c \<in> word_blanks"
  by (simp add: shlex_blank_def word_blanks_def)

lemma quote_word_quotes: "is_quote c \<longleftrightarrow> c \<in> word_quotes"
  by (simp add: is_quote_def word_quotes_def)

lemma strip_quotes_bare: "w \<noteq> [] \<Longrightarrow> hd w \<notin> word_quotes \<Longrightarrow> strip_quotes w = w"
  by (simp add: strip_quotes_def quote_word_quotes)

lemma strip_quotes_quoted: "q \<in> word_quotes \<Longrightarrow> strip_quotes (q # w @ [q]) = w"
  by (simp add: strip_quotes_def quote_word_quotes)

text \<open>What is read when the words still to come are known and one may be begun\<close>

definition continues :: "shlex_state \<Rightarrow> string \<Rightarrow> string \<Rightarrow> string list \<Rightarrow> bool" where
  "continues st t s ws \<longleftrightarrow> (case st of
      Between \<Rightarrow> reads s ws
    | In_Word \<Rightarrow> t \<noteq> [] \<longrightarrow> hd t \<notin> word_quotes \<longrightarrow> set t \<inter> word_blanks = {} \<longrightarrow> reads (t @ s) ws
    | In_Quotes q \<Rightarrow> \<forall>w. q \<in> word_quotes \<longrightarrow> t = q # w \<longrightarrow> q \<notin> set w \<longrightarrow> reads (t @ s) ws)"

lemma shlex_continues: "shlex_from st t s = Inr ts \<Longrightarrow> continues st t s (map strip_quotes ts)"
proof (induction st t s arbitrary: ts rule: shlex_from.induct)
  case (1 st t)
  then show ?case
    using reads.bare [OF _ _ _ _ reads.nothing, of t]
    by (auto simp: continues_def strip_quotes_bare intro: reads.nothing split: shlex_state.splits)
next
  case (2 st t c s)
  show ?case
  proof (cases st)
    case Between
    consider "c \<in> word_blanks" | "c \<notin> word_blanks" "c \<in> word_quotes" | "c \<notin> word_blanks" "c \<notin> word_quotes" by blast
    then show ?thesis
    proof cases
      case 1
      then have "reads s (map strip_quotes ts)" using 2(1,8) Between 1 by (simp add: continues_def blank_word_blanks)
      with 1 Between show ?thesis by (simp add: continues_def reads.blank)
    next
      case c: 2
      with 2(2,8) Between have "continues (In_Quotes c) [c] s (map strip_quotes ts)"
        by (simp add: blank_word_blanks quote_word_quotes)
      with c Between show ?thesis by (simp add: continues_def)
    next
      case c: 3
      with 2(3,8) Between have "continues In_Word [c] s (map strip_quotes ts)"
        by (simp add: blank_word_blanks quote_word_quotes)
      with c Between show ?thesis by (simp add: continues_def)
    qed
  next
    case In_Word
    show ?thesis
    proof (cases "c \<in> word_blanks")
      case True
      then obtain us where us: "shlex_from Between [] s = Inr us" "ts = t # us"
        using 2(8) In_Word by (auto simp: blank_word_blanks bind_result_Inr)
      with 2(4) In_Word True have "reads s (map strip_quotes us)" by (simp add: blank_word_blanks continues_def)
      with True have "reads (c # s) (map strip_quotes us)" by (intro reads.blank)
      with True In_Word us(2) show ?thesis
        using reads.bare [of t "c # s" "map strip_quotes us"] by (auto simp: continues_def strip_quotes_bare)
    next
      case False
      with 2(5,8) In_Word have "continues In_Word (t @ [c]) s (map strip_quotes ts)" by (simp add: blank_word_blanks)
      with False In_Word show ?thesis by (simp add: continues_def)
    qed
  next
    case (In_Quotes q)
    show ?thesis
    proof (cases "c = q")
      case True
      then obtain us where us: "shlex_from Between [] s = Inr us" "ts = (t @ [c]) # us"
        using 2(8) In_Quotes by (auto simp: bind_result_Inr)
      with 2(6) In_Quotes True have "reads s (map strip_quotes us)" by (simp add: continues_def)
      with True In_Quotes us(2) show ?thesis
        using reads.quoted [of q _ s "map strip_quotes us"] by (auto simp: continues_def strip_quotes_quoted)
    next
      case False
      with 2(7,8) In_Quotes have "continues (In_Quotes q) (t @ [c]) s (map strip_quotes ts)" by simp
      with False In_Quotes show ?thesis by (auto simp: continues_def)
    qed
  qed
qed

lemma shlex_in_word: "set w \<inter> word_blanks = {} \<Longrightarrow> shlex_from In_Word t (w @ s) = shlex_from In_Word (t @ w) s"
  by (induction w arbitrary: t) (auto simp: blank_word_blanks)

lemma shlex_in_quotes: "q \<notin> set w \<Longrightarrow> shlex_from (In_Quotes q) t (w @ s) = shlex_from (In_Quotes q) (t @ w) s"
  by (induction w arbitrary: t) auto

lemma reads_shlex: "reads s ws \<Longrightarrow> \<exists>ts. shlex_from Between [] s = Inr ts \<and> map strip_quotes ts = ws"
proof (induction rule: reads.induct)
  case (blank c s ws)
  then show ?case by (simp add: blank_word_blanks)
next
  case (bare w s ws)
  then obtain ts where ts: "shlex_from Between [] s = Inr ts" "map strip_quotes ts = ws" by blast
  obtain c v where w: "w = c # v" using bare.hyps(1) by (cases w) auto
  have "shlex_from Between [] (w @ s) = shlex_from In_Word w s"
    using bare.hyps(2,3) shlex_in_word [of v "[c]" s] by (simp add: w blank_word_blanks quote_word_quotes)
  moreover have "shlex_from In_Word w s = Inr (w # ts)"
    using bare.hyps(4) ts(1) by (cases s) (auto simp: blank_word_blanks)
  ultimately show ?case using ts(2) bare.hyps(1,2) by (simp add: strip_quotes_bare)
next
  case (quoted q w s ws)
  then obtain ts where ts: "shlex_from Between [] s = Inr ts" "map strip_quotes ts = ws" by blast
  have "q \<notin> word_blanks" using quoted.hyps(1) by (auto simp: word_blanks_def word_quotes_def)
  then have "shlex_from Between [] (q # w @ q # s) = Inr ((q # w @ [q]) # ts)"
    using quoted.hyps(1,2) ts(1) by (simp add: blank_word_blanks quote_word_quotes shlex_in_quotes)
  with ts(2) quoted.hyps(1) show ?case by (simp add: strip_quotes_quoted)
qed simp

lemma reads_iff: "reads s ws \<longleftrightarrow> (\<exists>ts. shlex_split s = Inr ts \<and> map strip_quotes ts = ws)"
  using reads_shlex [of s ws] shlex_continues [of Between "[]" s] by (auto simp: shlex_split_def continues_def)

subsection \<open>The programs\<close>

text \<open>A word runs a program: a path that ends in its name, in any case\<close>

definition runs_program :: "string \<Rightarrow> string \<Rightarrow> bool" where
  "runs_program w name \<longleftrightarrow> (\<exists>dir base. w = dir @ base \<and> (dir = [] \<or> last dir \<in> {CHR ''/'', CHR 0x5C}) \<and> lower base = name)"

definition test_command :: "string list \<Rightarrow> bool" where
  "test_command argv \<longleftrightarrow> argv \<noteq> [] \<and>
     (runs_program (hd argv) ''pytest'' \<or> runs_program (hd argv) ''echo'' \<or> runs_program (hd argv) ''exit''
      \<or> map lower argv = [''npm'', ''test''] \<or> map lower argv = [''npm'', ''run'', ''build'']
      \<or> runs_program (hd argv) ''python'' \<and> (\<exists>x rest. tl argv = ''-m'' # x # rest \<and> lower x = ''pytest''))"

lemma test_command_words: "test_command argv \<Longrightarrow> argv \<noteq> []"
  by (simp add: test_command_def)

lemma split_on_both: "split_on d (a @ d # s) = split_on d a @ split_on d s"
  by (induction a) (auto split: list.split)

lemma join_snoc: "ws \<noteq> [] \<Longrightarrow> join_with d (ws @ [p]) = join_with d ws @ d @ p"
proof (induction ws rule: list_nonempty_induct)
  case (cons w ws)
  then show ?case by (cases ws) auto
qed simp

lemma last_split_on:
  assumes "d \<notin> set p"
  shows "last (split_on d s) = p \<longleftrightarrow> (\<exists>dir. s = dir @ p \<and> (dir = [] \<or> last dir = d))"
proof
  assume l: "last (split_on d s) = p"
  define ws where "ws = butlast (split_on d s)"
  have s: "s = join_with [d] (ws @ [p])" using join_split_on [of d s] l by (simp add: ws_def flip: l)
  show "\<exists>dir. s = dir @ p \<and> (dir = [] \<or> last dir = d)"
  proof (cases "ws = []")
    case False
    with s show ?thesis by (intro exI [of _ "join_with [d] ws @ [d]"]) (simp add: join_snoc)
  qed (use s in simp)
next
  assume "\<exists>dir. s = dir @ p \<and> (dir = [] \<or> last dir = d)"
  then obtain dir where dir: "s = dir @ p" "dir = [] \<or> last dir = d" by blast
  with assms show "last (split_on d s) = p"
    by (cases dir rule: rev_cases) (simp_all add: split_on_word split_on_both)
qed

definition slash_char :: "char \<Rightarrow> char" where
  "slash_char c = (if lower_char c = CHR 0x5C then CHR ''/'' else lower_char c)"

lemma of_char_lower:
  "of_char (lower_char c) = (let n = (of_char c :: nat) in
     if (65 \<le> n \<and> n \<le> 90) \<or> (192 \<le> n \<and> n \<le> 222 \<and> n \<noteq> 215) then n + 32 else n)"
  by (auto simp: lower_char_def Let_def of_char_of)

lemma char_eq_nat: "c = d \<longleftrightarrow> (of_char c :: nat) = of_char d"
  by simp

lemma lower_char_slash: "lower_char c = CHR ''/'' \<longleftrightarrow> c = CHR ''/''" "lower_char c = CHR 0x5C \<longleftrightarrow> c = CHR 0x5C"
  unfolding char_eq_nat of_char_lower by (auto simp: Let_def simp del: of_char_eq_iff)

lemma executable_slashes: "replace_char (CHR 0x5C) ''/'' (lower t) = map slash_char t"
  by (induction t) (simp_all add: lower_def slash_char_def)

lemma executable_iff:
  assumes "CHR ''/'' \<notin> set name" and "CHR 0x5C \<notin> set name"
  shows "executable_of t = name \<longleftrightarrow> runs_program t name"
proof -
  have base: "map slash_char b = name \<longleftrightarrow> lower b = name" for b
    using assms
  proof (induction b arbitrary: name)
    case (Cons c b)
    show ?case
    proof (cases name)
      case (Cons n ns)
      with Cons.prems Cons.IH [of ns] show ?thesis by (auto simp: lower_def slash_char_def)
    qed (simp add: lower_def)
  qed (simp add: lower_def)
  have ends: "last (map slash_char dir) = CHR ''/'' \<longleftrightarrow> last dir \<in> {CHR ''/'', CHR 0x5C}" if "dir \<noteq> []" for dir
    using that by (simp add: last_map slash_char_def lower_char_slash)
  have side: "map slash_char dir = [] \<or> last (map slash_char dir) = CHR ''/'' \<longleftrightarrow> dir = [] \<or> last dir \<in> {CHR ''/'', CHR 0x5C}" for dir
    using ends [of dir] by (cases "dir = []") simp_all
  have "executable_of t = name \<longleftrightarrow> (\<exists>dir. map slash_char t = dir @ name \<and> (dir = [] \<or> last dir = CHR ''/''))"
    unfolding executable_of_def executable_slashes by (rule last_split_on [OF assms(1)])
  also have "\<dots> \<longleftrightarrow> (\<exists>dir b. t = dir @ b \<and> (map slash_char dir = [] \<or> last (map slash_char dir) = CHR ''/'') \<and> map slash_char b = name)"
    (is "?l \<longleftrightarrow> ?r")
  proof
    assume ?l
    then obtain dir where dir: "map slash_char t = dir @ name" "dir = [] \<or> last dir = CHR ''/''" by blast
    then obtain d b where "t = d @ b" "map slash_char d = dir" "map slash_char b = name" by (auto simp: map_eq_append_conv)
    with dir(2) show ?r by blast
  next
    assume ?r
    then obtain dir b where "t = dir @ b" "map slash_char dir = [] \<or> last (map slash_char dir) = CHR ''/''" "map slash_char b = name"
      by blast
    then show ?l by (intro exI [of _ "map slash_char dir"]) (simp only: map_append simp_thms)
  qed
  also have "\<dots> \<longleftrightarrow> runs_program t name"
    unfolding runs_program_def side base ..
  finally show ?thesis .
qed

lemma executable_accepted: "argv \<noteq> [] \<Longrightarrow> executable_errors argv = [] \<longleftrightarrow> test_command argv"
proof -
  assume ne: "argv \<noteq> []"
  define exe where "exe = executable_of (hd argv)"
  have runs: "runs_program (hd argv) ''pytest'' \<longleftrightarrow> exe = ''pytest''" "runs_program (hd argv) ''echo'' \<longleftrightarrow> exe = ''echo''"
    "runs_program (hd argv) ''exit'' \<longleftrightarrow> exe = ''exit''" "runs_program (hd argv) ''python'' \<longleftrightarrow> exe = ''python''"
    by (simp_all add: exe_def flip: executable_iff)
  have npm: "exe = ''npm''" if "map lower argv = [''npm'', ''test''] \<or> map lower argv = [''npm'', ''run'', ''build'']"
  proof -
    have "lower (hd argv) = ''npm''" using that ne by (cases argv) auto
    then have "runs_program (hd argv) ''npm''" unfolding runs_program_def by (intro exI [of _ "[]"] exI [of _ "hd argv"]) simp
    then show ?thesis by (simp add: exe_def flip: executable_iff)
  qed
  have python: "(\<exists>x rest. tl argv = ''-m'' # x # rest \<and> lower x = ''pytest'')
      \<longleftrightarrow> 3 \<le> length argv \<and> argv ! 1 = ''-m'' \<and> lower (argv ! 2) = ''pytest''"
    using ne by (cases argv; cases "tl argv"; cases "tl (tl argv)") (auto simp: numeral_2_eq_2 numeral_3_eq_3)
  show ?thesis
  proof (cases "exe \<in> {''pytest'', ''echo'', ''exit'', ''npm'', ''python''}")
    case True
    then have "exe \<notin> set forbidden_commands" "exe \<noteq> ''git''"
      by (elim insertE emptyE; simp add: forbidden_commands_def)+
    with True ne npm show ?thesis
      unfolding executable_errors_def test_command_def runs python Let_def exe_def [symmetric]
      by (elim insertE emptyE) (auto simp: not_less)
  next
    case False
    with npm show ?thesis
      unfolding executable_errors_def test_command_def runs python Let_def exe_def [symmetric] by auto
  qed
qed

subsection \<open>What is accepted\<close>

definition contains :: "string \<Rightarrow> string \<Rightarrow> bool" where
  "contains s part \<longleftrightarrow> (\<exists>a b. s = a @ part @ b)"

lemma contains_char: "contains s [c] \<longleftrightarrow> c \<in> set s"
  by (auto simp: contains_def in_set_conv_decomp)

lemma contains_part: "contains s (p @ q) \<Longrightarrow> contains s p"
  by (auto simp: contains_def)

lemma no_shell_metas:
  "list_all (\<lambda>m. \<not> occurs_in m s) shell_metas \<longleftrightarrow>
     set s \<inter> {CHR '';'', CHR ''&'', CHR ''|'', CHR ''>'', CHR ''<'', CHR 0x60, CHR 0x0A, CHR 0x0D} = {} \<and> \<not> contains s ''$(''"
proof -
  have o: "occurs_in m s \<longleftrightarrow> contains s m" for m by (simp add: occurs_in_iff contains_def)
  show ?thesis
    using contains_part [of s "''&''" "''&''"] contains_part [of s "''|''" "''|''"] contains_part [of s "''>''" "''>''"]
    by (auto simp: shell_metas_def o contains_char)
qed

lemma policy_order:
  "V \<longleftrightarrow> M \<and> \<not> (P \<or> C) \<and> T \<and> \<not> (\<not> R \<and> N) \<Longrightarrow> M \<longleftrightarrow> M1 \<and> M2 \<Longrightarrow> V \<longleftrightarrow> T \<and> M1 \<and> M2 \<and> \<not> P \<and> \<not> C \<and> (R \<or> \<not> N)"
  by blast

lemma parse_reads: "(\<exists>p. parse_command_argv command = Inr p \<and> pc_argv p = argv) \<longleftrightarrow> reads (strip command) argv \<and> argv \<noteq> []"
  by (cases "strip command = []") (auto simp: parse_command_argv_def Let_def bind_result_Inr reads_iff shlex_split_def)

text \<open>
  C28. The policy of test commands, said without its parser: a command has no message exactly when
  its text, without the blanks around it, reads as words that run \<^verbatim>\<open>pytest\<close>,
  \<^verbatim>\<open>echo\<close>, \<^verbatim>\<open>exit\<close> (from any directory), \<^verbatim>\<open>npm test\<close>,
  \<^verbatim>\<open>npm run build\<close> or \<^verbatim>\<open>python -m pytest\<close>, has none of the characters and pairs a
  shell gives a meaning, does not name PowerShell or start with \<^verbatim>\<open>cmd\<close>, and names a network
  tool or address only together with the word \<^verbatim>\<open>requires_network\<close>.
\<close>

theorem command_policy_exact:
  "validate_command command = [] \<longleftrightarrow>
     (\<exists>argv. reads (strip command) argv \<and> test_command argv)
     \<and> set (strip command) \<inter> {CHR '';'', CHR ''&'', CHR ''|'', CHR ''>'', CHR ''<'', CHR 0x60, CHR 0x0A, CHR 0x0D} = {}
     \<and> \<not> contains (strip command) ''$(''
     \<and> \<not> contains (lower (strip command)) ''powershell'' \<and> (\<nexists>t. lower (strip command) = ''cmd '' @ t)
     \<and> (contains (lower (strip command)) ''requires_network''
        \<or> \<not> (\<exists>w \<in> {''curl'', ''wget'', ''http://'', ''https://''}. contains (lower (strip command)) w))"
proof -
  have find: "find (\<lambda>m. occurs_in m s) shell_metas = None \<longleftrightarrow> list_all (\<lambda>m. \<not> occurs_in m s) shell_metas" for s
    by (auto simp: find_None_iff list_all_iff)
  have ne: "(case x of None \<Rightarrow> [] | Some m \<Rightarrow> [f m]) = [] \<longleftrightarrow> x = None" for x :: "string option" and f :: "string \<Rightarrow> string"
    by (cases x) auto
  have parse: "parse_command_argv (strip command) = parse_command_argv command"
    by (simp add: parse_command_argv_def)
  have o: "occurs_in m s \<longleftrightarrow> contains s m" for m s by (simp add: occurs_in_iff contains_def)
  have network: "list_ex (\<lambda>n. occurs_in n s) network_words \<longleftrightarrow> (\<exists>w \<in> {''curl'', ''wget'', ''http://'', ''https://''}. contains s w)" for s
    by (simp add: network_words_def o)
  show ?thesis
  proof (cases "parse_command_argv command")
    case (Inl e)
    then have "\<not> (\<exists>argv. reads (strip command) argv \<and> test_command argv)"
      using parse_reads [of command] test_command_words by fastforce
    with Inl show ?thesis by (simp add: validate_command_def Let_def parse)
  next
    case (Inr p)
    then have r: "reads (strip command) argv \<and> argv \<noteq> [] \<longleftrightarrow> argv = pc_argv p" for argv
      using parse_reads [of command argv] by auto
    have argv: "(\<exists>argv. reads (strip command) argv \<and> test_command argv) \<longleftrightarrow> test_command (pc_argv p)"
      using r [THEN iffD1, OF conjI [OF _ test_command_words]] r [THEN iffD2, OF refl] by metis
    have "executable_errors (pc_argv p) = [] \<longleftrightarrow> test_command (pc_argv p)"
      by (rule executable_accepted) (use r [of "pc_argv p"] in simp)
    moreover have "strip command \<noteq> []" using Inr by (auto simp: parse_command_argv_def Let_def)
    ultimately have "validate_command command = [] \<longleftrightarrow>
        list_all (\<lambda>m. \<not> occurs_in m (strip command)) shell_metas
        \<and> \<not> (occurs_in ''powershell'' (lower (strip command)) \<or> startswith (lower (strip command)) ''cmd '')
        \<and> test_command (pc_argv p)
        \<and> \<not> (\<not> occurs_in ''requires_network'' (lower (strip command)) \<and> list_ex (\<lambda>n. occurs_in n (lower (strip command))) network_words)"
      by (simp add: validate_command_def Let_def Inr parse ne find)
    from policy_order [OF this [unfolded network, unfolded o startswith_iff] no_shell_metas [unfolded o]]
    show ?thesis unfolding argv .
  qed
qed

lemma command_policy_exact_witness:
  "validate_command (CHR 0x22 # ''pytest'' @ CHR 0x22 # '' -q'') = [] \<and> validate_command ''pytest; ls'' \<noteq> []"
proof
  let ?c = "CHR 0x22 # ''pytest'' @ CHR 0x22 # '' -q''"
  have s: "strip ?c = ?c" "lower ?c = ?c" by code_simp+
  have "reads ''-q'' [''-q'']"
    using reads.bare [of "''-q''" "[]" "[]"] reads.nothing by (simp add: word_blanks_def word_quotes_def)
  then have "reads '' -q'' [''-q'']" by (rule reads.blank [rotated]) (simp add: word_blanks_def)
  then have r: "reads ?c [''pytest'', ''-q'']" by (rule reads.quoted [rotated 2]) (simp_all add: word_quotes_def)
  have "runs_program ''pytest'' ''pytest''"
    unfolding runs_program_def by (rule exI [of _ "[]"], rule exI [of _ "''pytest''"]) code_simp
  then have t: "test_command [''pytest'', ''-q'']" by (simp add: test_command_def)
  have none: "\<not> contains ?c w" if "w \<in> {''$('', ''powershell'', ''curl'', ''wget'', ''http://'', ''https://''}" for w
  proof -
    have "list_all (\<lambda>w. \<not> occurs_in w ?c) [''$('', ''powershell'', ''curl'', ''wget'', ''http://'', ''https://'']" by code_simp
    with that have "\<not> occurs_in w ?c" unfolding list_all_iff by (metis list.set(1,2))
    then show ?thesis unfolding occurs_in_iff contains_def .
  qed
  show "validate_command ?c = []"
    unfolding command_policy_exact [of ?c] s
  proof (intro conjI exI disjI2)
    show "\<not> (\<exists>w \<in> {''curl'', ''wget'', ''http://'', ''https://''}. contains ?c w)" using none by blast
  qed (use r t none in simp_all)
  have "strip ''pytest; ls'' = ''pytest; ls''" by code_simp
  then show "validate_command ''pytest; ls'' \<noteq> []" unfolding command_policy_exact by simp
qed

section \<open>Paths\<close>

text \<open>A segment of a path below the root: a name without separators, neither dot nor dot dot\<close>

definition plain_segment :: "string \<Rightarrow> bool" where
  "plain_segment w \<longleftrightarrow> w \<noteq> [] \<and> w \<noteq> ''.'' \<and> w \<noteq> ''..'' \<and> CHR ''/'' \<notin> set w \<and> back_slash \<notin> set w"

lemma split_drop_dot_slash: "set (split_on (CHR ''/'') (drop_dot_slash s)) \<subseteq> set (split_on (CHR ''/'') s)"
  by (induction s rule: drop_dot_slash.induct) (auto split: list.splits if_splits)

lemma set_drop_dot_slash: "set (drop_dot_slash s) \<subseteq> set s"
  by (induction s rule: drop_dot_slash.induct) auto

lemma set_split_on: "w \<in> set (split_on d s) \<Longrightarrow> set w \<subseteq> set s"
proof (induction s arbitrary: w)
  case (Cons c s)
  show ?case
  proof (cases "split_on d s")
    case (Cons v vs)
    with Cons.prems Cons.IH [of v] Cons.IH show ?thesis by (fastforce split: if_splits)
  qed simp
qed simp

lemma split_workspace_relative: "workspace_relative p \<noteq> [] \<Longrightarrow> split_on (CHR ''/'') (workspace_relative p) = path_segments p"
  unfolding workspace_relative_def
  by (rule split_join_on) (auto simp: path_segments_def dest: split_on_no_delim)

lemma workspace_relative_strip [simp]: "workspace_relative (strip p) = workspace_relative p"
  by (simp add: workspace_relative_def path_segments_def)

lemma path_segments_plain:
  assumes "\<not> has_traversal (strip p)" and "back_slash \<notin> set (strip p)"
  shows "list_all plain_segment (path_segments p)"
  unfolding list_all_iff
proof
  fix w assume "w \<in> set (path_segments p)"
  then have w: "w \<in> set (split_on (CHR ''/'') (drop_dot_slash (strip p)))" "real_segment w"
    by (simp_all add: path_segments_def)
  then have "set w \<subseteq> set (strip p)" "w \<in> set (split_on (CHR ''/'') (strip p))"
    using set_split_on set_drop_dot_slash split_drop_dot_slash by blast+
  with assms w split_on_no_delim [OF w(1)] show "plain_segment w"
    by (auto simp: plain_segment_def real_segment_def has_traversal_def)
qed

text \<open>A path below the root that is declared: what the sandbox may hand to its caller\<close>

definition sandbox_confined :: "(string list \<Rightarrow> bool) \<Rightarrow> string list \<Rightarrow> string list \<Rightarrow> bool" where
  "sandbox_confined escapes allowed ws \<longleftrightarrow> ws \<noteq> [] \<and> list_all plain_segment ws \<and> \<not> escapes ws \<and> join_with ''/'' ws \<in> set allowed"

lemma allowed_path_iff:
  assumes "allowed_path_errors escapes purpose sb path = []"
  shows "sandbox_confined escapes (sb_allowed_files sb) (path_segments path) \<and> workspace_relative path \<noteq> []"
proof -
  have ok: "\<not> has_traversal (strip path)" "back_slash \<notin> set (strip path)" "workspace_relative path \<noteq> []"
    "\<not> escapes (split_on (CHR ''/'') (workspace_relative path))" "workspace_relative path \<in> set (sb_allowed_files sb)"
    using assms by (auto simp: allowed_path_errors_def Let_def split: if_splits)
  then have "path_segments path \<noteq> []" by (auto simp: workspace_relative_def)
  with ok path_segments_plain [OF ok(1,2)] show ?thesis
    by (simp add: sandbox_confined_def split_workspace_relative flip: workspace_relative_def)
qed

text \<open>
  C13. What the sandbox lets an agent read is a declared file below the root of the workspace: the path it
  resolves has no empty, dot, parent or backslash segment and does not leave the root. What it lets
  the agent patch is moreover neither read-only nor the database of the plan.
\<close>

theorem sandbox_confines:
  "(resolve_read_path escapes sb path = Some ws \<longrightarrow> sandbox_confined escapes (sb_allowed_files sb) ws)
   \<and> (validate_patch_path escapes sb path = [] \<longrightarrow>
        sandbox_confined escapes (sb_allowed_files sb) (path_segments path)
        \<and> join_with ''/'' (path_segments path) \<notin> insert plan_db (set (sb_readonly sb)))"
proof (intro conjI impI)
  assume r: "resolve_read_path escapes sb path = Some ws"
  then have "allowed_path_errors escapes ''read'' sb path = []"
    by (auto simp: resolve_read_path_def validate_read_path_def split: if_splits)
  from allowed_path_iff [OF this] r show "sandbox_confined escapes (sb_allowed_files sb) ws"
    by (auto simp: resolve_read_path_def split_workspace_relative split: if_splits)
next
  assume v: "validate_patch_path escapes sb path = []"
  then have "allowed_path_errors escapes ''patch'' sb path = []" by (simp add: validate_patch_path_def)
  from allowed_path_iff [OF this] show "sandbox_confined escapes (sb_allowed_files sb) (path_segments path)" by simp
  show "join_with ''/'' (path_segments path) \<notin> insert plan_db (set (sb_readonly sb))"
    using v by (auto simp: validate_patch_path_def readonly_patch_errors_def Let_def workspace_relative_def [symmetric]
        split: if_splits)
qed

text \<open>A file granted on request can be read, and patched unless it is kept from patches\<close>

lemma granted_file_accepted:
  assumes "fd_auto_approve (evaluate_file_access escapes allowed path)"
  shows "validate_read_path escapes (with_granted_files [path] sb) path = []"
proof -
  have ok: "boundary_errors escapes path = []"
    using assms by (auto simp: evaluate_file_access_def Let_def split: if_splits)
  have "\<not> drive_letter s" if "\<not> (2 \<le> length s \<and> s ! 1 = CHR '':'')" for s
    using that by (simp add: drive_letter_def)
  with ok show ?thesis
    by (auto simp: boundary_errors_def validate_read_path_def allowed_path_errors_def with_granted_files_def
        relative_set_def Let_def split: if_splits)
qed


definition demo_sandbox :: sandbox where
  "demo_sandbox = \<lparr>sb_run_id = ''r'', sb_node_id = ''n'', sb_root = ''/w'', sb_allowed_files = [''src/a.py''],
     sb_allowed_tests = [], sb_network = False, sb_install = False, sb_env_visible = False, sb_timeout = 60,
     sb_readonly = [''src/b.py'']\<rparr>"

lemma sandbox_confines_witness:
  "sandbox_confined (\<lambda>ws. hd ws = ''link'') [''src/a.py''] [''src'', ''a.py'']"
proof -
  have "resolve_read_path (\<lambda>ws. hd ws = ''link'') demo_sandbox '' ./src//a.py'' = Some [''src'', ''a.py'']" by code_simp
  with sandbox_confines [of "\<lambda>ws. hd ws = ''link''" demo_sandbox "'' ./src//a.py''" "[''src'', ''a.py'']"]
  show ?thesis by (simp add: demo_sandbox_def)
qed

section \<open>What the policies miss\<close>

text \<open>A program is known by its name only: one of the workspace may have the name of a known one\<close>

lemma foreign_executable_accepted: "validate_command ''payload/pytest x'' = []"
  by code_simp

text \<open>The suffix is taken off for the message only\<close>

lemma windows_executable_refused: "validate_command ''pytest.exe tests'' \<noteq> []"
  by code_simp

text \<open>The approval for the network is read from the command itself\<close>

lemma network_self_approved: "validate_command ''echo requires_network http://x'' = []"
  by code_simp

text \<open>A path is not in normal form after one normalisation\<close>

lemma normalisation_not_idempotent:
  "workspace_relative ''./ a'' = '' a''" "workspace_relative '' a'' = ''a''"
  by code_simp+

text \<open>The test path of a source with a doubled separator is absolute, a parent directory is dropped\<close>

lemma derived_path_absolute: "derive_test_path ''src//x.py'' = Some ''/test_x.py''"
  by code_simp

lemma expanded_parent_path: "expand_allowed_files [''../test_x.py''] = [''test_x.py'']"
  by code_simp

end
