(* ===== verification/Candidate_Properties.thy ===== *)
theory Candidate_Properties
  imports Candidate_Patches Tool_Properties
begin

text \<open>
  The patches of a candidate are exactly the difference between the base and the candidate: applied to the
  base, each one finds what it expects, and together they give the candidate.
\<close>

section \<open>Applying patches\<close>

type_synonym file_hashes = "string \<Rightarrow> string option"

text \<open>What a patch expects and leaves at the paths it touches\<close>

definition effects :: "candidate_patch \<Rightarrow> (string \<times> string option \<times> string option) list" where
  "effects p = (case ca_type p of
      Change_Rename \<Rightarrow> [(the (ca_old_path p), ca_base p, None), (ca_path p, None, ca_candidate p)]
    | _ \<Rightarrow> [(ca_path p, ca_base p, ca_candidate p)])"

fun apply_effects :: "(string \<times> string option \<times> string option) list \<Rightarrow> file_hashes \<Rightarrow> file_hashes option" where
  "apply_effects [] h = Some h"
| "apply_effects ((q, before, after) # es) h = (if h q = before then apply_effects es (h(q := after)) else None)"

definition apply_candidate_patch :: "candidate_patch \<Rightarrow> file_hashes \<Rightarrow> file_hashes option" where
  "apply_candidate_patch p h = apply_effects (effects p) h"

fun apply_candidate_patches :: "candidate_patch list \<Rightarrow> file_hashes \<Rightarrow> file_hashes option" where
  "apply_candidate_patches [] h = Some h"
| "apply_candidate_patches (p # ps) h = Option.bind (apply_candidate_patch p h) (apply_candidate_patches ps)"

lemma apply_effects_append: "apply_effects (xs @ ys) h = Option.bind (apply_effects xs h) (apply_effects ys)"
proof (induction xs arbitrary: h)
  case (Cons e xs)
  then show ?case by (cases e) (simp add: fun_upd_def)
qed simp

lemma candidate_patches_effects: "apply_candidate_patches ps = apply_effects (concat (map effects ps))"
proof (induction ps)
  case (Cons p ps)
  show ?case by (rule ext) (simp add: Cons.IH apply_effects_append apply_candidate_patch_def)
qed (simp add: fun_eq_iff)

text \<open>Effects on different paths do not disturb each other\<close>

lemma apply_effects_disjoint:
  "distinct (map fst es) \<Longrightarrow> (\<And>q b a. (q, b, a) \<in> set es \<Longrightarrow> h q = b \<and> g q = a) \<Longrightarrow>
   (\<And>q. q \<notin> fst ` set es \<Longrightarrow> h q = g q) \<Longrightarrow> apply_effects es h = Some g"
proof (induction es arbitrary: h)
  case Nil
  then show ?case by auto
next
  case (Cons e es)
  obtain q b a where e: "e = (q, b, a)" by (cases e)
  have now: "h q = b" "g q = a" using Cons.prems(2) [of q b a] e by simp_all
  have "apply_effects es (h(q := a)) = Some g"
  proof (rule Cons.IH)
    show "distinct (map fst es)" using Cons.prems(1) by simp
    show "(h(q := a)) q' = b' \<and> g q' = a'" if "(q', b', a') \<in> set es" for q' b' a'
    proof -
      have "q' \<noteq> q" using Cons.prems(1) that e by force
      with Cons.prems(2) [of q' b' a'] that show ?thesis by simp
    qed
    show "(h(q := a)) q' = g q'" if "q' \<notin> fst ` set es" for q'
      using Cons.prems(3) [of q'] that now e by auto
  qed
  with now e show ?case by simp
qed

section \<open>Renames\<close>

lemma in_only_in: "(p, h) \<in> set (only_in a b paths) \<longleftrightarrow> p \<in> set paths \<and> map_of a p = Some h \<and> map_of b p = None"
  by (auto simp: only_in_def split: option.splits if_splits)

lemma distinct_only_in: "distinct paths \<Longrightarrow> distinct (map fst (only_in a b paths))"
proof (induction paths)
  case (Cons p paths)
  then have "p \<notin> fst ` set (only_in a b paths)" by (auto simp: in_only_in)
  with Cons show ?case by (auto simp: only_in_def split: option.splits)
qed (simp add: only_in_def)

lemma match_renames_sound:
  assumes "(old, new, d) \<in> set (match_renames removed added used)"
  shows "(old, d) \<in> set removed \<and> (new, d) \<in> set added \<and> new \<notin> set used"
  using assms
proof (induction removed added used rule: match_renames.induct)
  case (2 old' digest rest added used)
  let ?m = "sort (map fst (filter (\<lambda>(p, d). d = digest \<and> p \<notin> set used) added))"
  show ?case
  proof (cases ?m)
    case (Cons n ns)
    then have "n \<in> set ?m" by simp
    then have "(n, digest) \<in> set added \<and> n \<notin> set used" by auto
    with Cons "2.IH"(2) [OF Cons] "2.prems" show ?thesis by auto
  qed (use 2 in auto)
qed simp

lemma match_renames_distinct:
  "distinct (map fst removed) \<Longrightarrow> distinct (map fst (match_renames removed added used))
     \<and> distinct (map (fst \<circ> snd) (match_renames removed added used))"
proof (induction removed added used rule: match_renames.induct)
  case (2 old' digest rest added used)
  let ?m = "sort (map fst (filter (\<lambda>(p, d). d = digest \<and> p \<notin> set used) added))"
  show ?case
  proof (cases ?m)
    case Nil
    with "2.IH"(1) "2.prems" show ?thesis by simp
  next
    case (Cons n ns)
    let ?r = "match_renames rest added (n # used)"
    have "old' \<notin> fst ` set ?r" "n \<notin> (fst \<circ> snd) ` set ?r"
      using match_renames_sound [of _ _ _ rest added "n # used"] "2.prems" by force+
    with Cons "2.IH"(2) [OF Cons] "2.prems" show ?thesis by simp
  qed
qed simp


section \<open>The patches of a candidate\<close>

lemma effects_rename: "effects (rename_patch (old, new, d)) = [(old, Some d, None), (new, None, Some d)]"
  by (simp add: effects_def rename_patch_def)

lemma effects_plain: "effects (plain_patch base cand p) = [(p, map_of base p, map_of cand p)]"
  by (simp add: effects_def plain_patch_def)

lemma effects_renames:
  "map fst (concat (map effects (map rename_patch rs))) = concat (map (\<lambda>(old, new, d). [old, new]) rs)"
  by (induction rs) (auto simp: effects_rename)

lemma effects_plains:
  "concat (map effects (map (plain_patch base cand) ps)) = map (\<lambda>p. (p, map_of base p, map_of cand p)) ps"
  by (induction ps) (simp_all add: effects_plain)

lemma distinct_pairs:
  "distinct (map fst rs) \<Longrightarrow> distinct (map (fst \<circ> snd) rs) \<Longrightarrow> fst ` set rs \<inter> (fst \<circ> snd) ` set rs = {} \<Longrightarrow>
   distinct (concat (map (\<lambda>(old, new, d). [old, new]) rs))"
proof (induction rs)
  case (Cons r rs)
  obtain old new d where r: "r = (old, new, d)" by (cases r)
  have set: "set (concat (map (\<lambda>(old, new, d). [old, new]) rs)) = fst ` set rs \<union> (fst \<circ> snd) ` set rs"
    by (force simp: image_iff)
  have "old \<notin> fst ` set rs \<union> (fst \<circ> snd) ` set rs" "new \<notin> fst ` set rs \<union> (fst \<circ> snd) ` set rs" "old \<noteq> new"
    using Cons.prems r by auto
  moreover have "distinct (concat (map (\<lambda>(old, new, d). [old, new]) rs))"
    using Cons.prems by (intro Cons.IH) auto
  ultimately show ?case unfolding r set [symmetric] by simp
qed simp

text \<open>
  C8. The patches of a candidate are exactly its difference to the base. Applied to the base in the order
  of the result they all find what they expect, and they leave the candidate; the changed paths are
  the sorted list of the paths on which the two differ.
\<close>

theorem patches_reproduce_candidate:
  "apply_candidate_patches (snd (compute_patches base cand write_set)) (map_of base) = Some (map_of cand)
   \<and> sorted_wrt (<) (fst (compute_patches base cand write_set))
   \<and> set (fst (compute_patches base cand write_set)) = {p. map_of base p \<noteq> map_of cand p}"
proof -
  define paths where "paths = all_paths write_set base cand"
  define rs where "rs = match_renames (sort (only_in base cand paths)) (only_in cand base paths) []"
  define changed where "changed = filter (\<lambda>p. map_of base p \<noteq> map_of cand p) paths"
  define plain where "plain = filter (\<lambda>p. p \<notin> fst ` set rs \<and> p \<notin> (fst \<circ> snd) ` set rs) changed"
  define ps where "ps = map (plain_patch base cand) plain @ map rename_patch rs"
  have result: "compute_patches base cand write_set = (changed, sort_key ca_path ps)"
    by (simp add: compute_patches_def Let_def paths_def rs_def changed_def plain_def ps_def)
  have paths: "distinct paths" "sorted paths" by (simp_all add: paths_def all_paths_def)
  have all: "p \<in> set paths" if "map_of base p \<noteq> map_of cand p" for p
    using that by (auto simp: paths_def all_paths_def map_of_eq_None_iff) (metis map_of_eq_None_iff)+
  have rs: "map_of base old = Some d \<and> map_of cand old = None \<and> map_of cand new = Some d \<and> map_of base new = None"
    if "(old, new, d) \<in> set rs" for old new d
    using match_renames_sound [OF that [unfolded rs_def]] by (simp add: in_only_in)
  have "distinct (map fst (sort (only_in base cand paths)))"
    using distinct_only_in [OF paths(1), of base cand]
    by (metis distinct_map distinct_sort set_sort)
  then have rdist: "distinct (map fst rs)" "distinct (map (fst \<circ> snd) rs)"
    using match_renames_distinct by (auto simp: rs_def)
  have rsep: "fst ` set rs \<inter> (fst \<circ> snd) ` set rs = {}"
  proof (rule ccontr)
    assume "\<not> ?thesis"
    then obtain o1 n1 d1 o2 d2 where "(o1, n1, d1) \<in> set rs" "(o2, o1, d2) \<in> set rs" by force
    with rs [of o1 n1 d1] rs [of o2 o1 d2] show False by simp
  qed
  let ?es = "concat (map effects ps)"
  have es: "?es = map (\<lambda>p. (p, map_of base p, map_of cand p)) plain @ concat (map effects (map rename_patch rs))"
    by (simp add: ps_def effects_plains [symmetric])
  have efst: "map fst ?es = plain @ concat (map (\<lambda>(old, new, d). [old, new]) rs)"
    by (simp add: es effects_renames [symmetric] comp_def)
  have sep: "set (concat (map (\<lambda>(old, new, d). [old, new]) rs)) = fst ` set rs \<union> (fst \<circ> snd) ` set rs"
    by (force simp: image_iff)
  have dist: "distinct (map fst ?es)"
    unfolding efst using paths(1) distinct_pairs [OF rdist rsep] sep by (auto simp: plain_def changed_def)
  have fits: "map_of base q = b \<and> map_of cand q = a" if "(q, b, a) \<in> set ?es" for q b a
    using that rs by (auto simp: es effects_rename)
  have cover: "map_of base q = map_of cand q" if "q \<notin> fst ` set ?es" for q
  proof (rule ccontr)
    assume "map_of base q \<noteq> map_of cand q"
    then have "q \<in> set changed" using all by (simp add: changed_def)
    then have "q \<in> set (map fst ?es)" unfolding efst using sep by (auto simp: plain_def)
    with that show False by simp
  qed
  let ?fs = "concat (map effects (sort_key ca_path ps))"
  have perm: "mset ?fs = mset ?es" by (simp add: mset_concat flip: sum_mset_sum_list)
  then have "set ?fs = set ?es" by (rule mset_eq_setD)
  moreover have "distinct (map fst ?fs)" using dist perm by (metis mset_eq_imp_distinct_iff mset_map)
  ultimately have "apply_effects ?fs (map_of base) = Some (map_of cand)"
    by (intro apply_effects_disjoint) (use fits cover in auto)
  moreover have "sorted_wrt (<) changed"
    using paths by (simp add: changed_def strict_sorted_iff sorted_wrt_filter)
  moreover have "set changed = {p. map_of base p \<noteq> map_of cand p}" using all by (auto simp: changed_def)
  ultimately show ?thesis by (simp add: result candidate_patches_effects)
qed


section \<open>Accepted requests\<close>

lemma relative_path_ok:
  assumes "relative_path_errors raw = []"
  shows "list_all plain_segment (path_segments raw) \<and> path_segments raw \<noteq> []"
proof -
  have ok: "back_slash \<notin> set (strip raw)" "''..'' \<notin> set (split_on (CHR ''/'') (strip raw))" "workspace_relative raw \<noteq> []"
    using assms by (auto simp: relative_path_errors_def Let_def replace_char_absent split: if_splits)
  then have "strip raw \<noteq> ''..''" by auto
  with ok have "\<not> has_traversal (strip raw)" by (simp add: has_traversal_def split_on_word)
  from path_segments_plain [OF this ok(1)] ok(3) show ?thesis by (auto simp: workspace_relative_def)
qed

lemma path_set_ok:
  "fst (path_set_errors label seen ps) = [] \<Longrightarrow> list_all (\<lambda>p. relative_path_errors p = []) ps
     \<and> (label = ''write_set'' \<longrightarrow> distinct (map workspace_relative ps) \<and> set (map workspace_relative ps) \<inter> set seen = {})"
  by (induction label seen ps rule: path_set_errors.induct)
    (auto simp: Let_def split: if_splits prod.splits)

definition safe_id :: "string \<Rightarrow> bool" where
  "safe_id v \<longleftrightarrow> plain_segment (strip v) \<and> length (strip v) \<le> 128 \<and> list_all id_rest (strip v)"

lemma validate_safe_id_ok:
  assumes "validate_safe_id field v = Inr t"
  shows "t = strip v \<and> safe_id v"
proof -
  have t: "t = strip v" "safe_id_shape (strip v)" "\<not> occurs_in ''..'' (strip v)" "CHR ''/'' \<notin> set (strip v)"
    "back_slash \<notin> set (strip v)"
    using assms by (auto simp: validate_safe_id_def Let_def split: if_splits)
  obtain c u where v: "strip v = c # u" "id_start c" "length u \<le> 127" "list_all id_rest u"
    using t(2) by (auto simp: safe_id_shape_def split: list.splits)
  have "strip v \<noteq> ''.''" using v(1,2) by (auto simp: id_start_def)
  moreover have "strip v \<noteq> ''..''" using t(3) by (auto simp: startswith_def)
  ultimately show ?thesis
    using t v by (auto simp: safe_id_def plain_segment_def id_rest_def)
qed

lemma id_errors_ok: "id_errors field v = [] \<Longrightarrow> safe_id v"
  by (auto simp: id_errors_def dest: validate_safe_id_ok split: if_splits sum.splits)

definition safe_request :: "candidate_request \<Rightarrow> bool" where
  "safe_request q \<longleftrightarrow> safe_id (cq_candidate_id q) \<and> safe_id (cq_module_id q)
     \<and> list_all (\<lambda>p. list_all plain_segment (path_segments p) \<and> path_segments p \<noteq> [])
          (cq_write_set q @ cq_read_set q @ cq_readonly_files q)
     \<and> distinct (map workspace_relative (cq_write_set q))
     \<and> 1 \<le> cq_timeout_seconds q \<and> cq_timeout_seconds q \<le> 3600 \<and> 0 \<le> cq_base_map_seq q"

text \<open>
  C29. An accepted request of a candidate is safe to lay out on disk: its two identifiers are single
  path segments of a bounded length, the directory they name is inside the project's runtime, every
  path of its three sets stays below the root, the write set names no file twice, and the timeout
  and the map sequence are in range.
\<close>

theorem accepted_request_safe:
  "validate_request inside q = Inr () \<longrightarrow>
     safe_request q \<and> inside (strip (cq_module_id q)) (strip (cq_candidate_id q))"
proof
  assume "validate_request inside q = Inr ()"
  then have none: "request_errors inside q = []" by (simp add: validate_request_def split: if_splits)
  obtain w s1 where w: "path_set_errors ''write_set'' [] (cq_write_set q) = (w, s1)" by fastforce
  obtain r s2 where r: "path_set_errors ''read_set'' s1 (cq_read_set q) = (r, s2)" by fastforce
  obtain u s3 where u: "path_set_errors ''readonly_files'' s2 (cq_readonly_files q) = (u, s3)" by fastforce
  have ids: "id_errors ''candidate_id'' (cq_candidate_id q) = []" "id_errors ''module_id'' (cq_module_id q) = []"
    and rest: "w = []" "r = []" "u = []" "1 \<le> cq_timeout_seconds q" "cq_timeout_seconds q \<le> 3600" "0 \<le> cq_base_map_seq q"
    using none by (auto simp: request_errors_def Let_def w r u split: if_splits)
  then have root: "candidate_root_errors inside q = []"
    using none by (auto simp: request_errors_def Let_def w r u split: if_splits)
  have all: "list_all (\<lambda>p. relative_path_errors p = []) (cq_write_set q @ cq_read_set q @ cq_readonly_files q)"
    "distinct (map workspace_relative (cq_write_set q))"
    using path_set_ok [of "''write_set''" "[]" "cq_write_set q"] path_set_ok [of "''read_set''" s1 "cq_read_set q"]
      path_set_ok [of "''readonly_files''" s2 "cq_readonly_files q"] rest(1-3) w r u by simp_all
  have "safe_request q"
    using all rest(4-6) id_errors_ok [OF ids(1)] id_errors_ok [OF ids(2)] relative_path_ok
    by (auto simp: safe_request_def list_all_iff)
  moreover have "inside (strip (cq_module_id q)) (strip (cq_candidate_id q))"
    using root validate_safe_id_ok by (fastforce simp: candidate_root_errors_def split: sum.splits if_splits)
  ultimately show "safe_request q \<and> inside (strip (cq_module_id q)) (strip (cq_candidate_id q))" by blast
qed

definition demo_request :: candidate_request where
  "demo_request = \<lparr>cq_candidate_id = ''cand-1'', cq_run_id = ''r'', cq_node_id = ''n'', cq_project_root = ''/p'',
     cq_base_map_seq = 3, cq_write_set = [''src/a.py'', ''./src//b.py''], cq_read_set = [''src/a.py''],
     cq_readonly_files = [], cq_tests = [''pytest''], cq_timeout_seconds = 60, cq_network_allowed = False,
     cq_module_id = ''m'', cq_boundary_fingerprint = ''f'', cq_image_version = ''local''\<rparr>"

lemma accepted_request_safe_witness: "safe_request demo_request"
proof -
  have "validate_request (\<lambda>m c. m = ''m'' \<and> c = ''cand-1'') demo_request = Inr ()" by code_simp
  with accepted_request_safe [of "\<lambda>m c. m = ''m'' \<and> c = ''cand-1''" demo_request] show ?thesis by simp
qed

text \<open>The write set is read first, so a file that is also read-only is no repetition\<close>

lemma readonly_file_in_write_set:
  "request_errors (\<lambda>_ _. True) (demo_request\<lparr>cq_write_set := [''a''], cq_readonly_files := [''a'']\<rparr>) = []"
  by code_simp

section \<open>Compiled commands\<close>

text \<open>
  The policy judges the words without their quotes, the compiler keeps them: a quoted command is
  approved as \<^verbatim>\<open>pytest\<close> and started under a name with quotes, for which the policy has no leave.
\<close>

lemma compiled_argv_differs:
  "validate_command [CHR 0x22, CHR ''p'', CHR ''y'', CHR ''t'', CHR ''e'', CHR ''s'', CHR ''t'', CHR 0x22] = []"
  "map_sum id (map ap_argv) (compile_commands id ''t'' 1
     [[CHR 0x22, CHR ''p'', CHR ''y'', CHR ''t'', CHR ''e'', CHR ''s'', CHR ''t'', CHR 0x22]])
   = Inr [[[CHR 0x22, CHR ''p'', CHR ''y'', CHR ''t'', CHR ''e'', CHR ''s'', CHR ''t'', CHR 0x22]]]"
  by code_simp+


section \<open>The stored form of a request\<close>

lemma request_dict_get:
  "dict_get (request_dict resolve q) ''candidate_id'' = JStr (cq_candidate_id q)"
  "dict_get (request_dict resolve q) ''run_id'' = JStr (cq_run_id q)"
  "dict_get (request_dict resolve q) ''node_id'' = JStr (cq_node_id q)"
  "dict_get (request_dict resolve q) ''project_root'' = JStr (resolve (cq_project_root q))"
  "dict_get (request_dict resolve q) ''base_map_seq'' = JInt (cq_base_map_seq q)"
  "dict_get (request_dict resolve q) ''write_set'' = JList (map JStr (cq_write_set q))"
  "dict_get (request_dict resolve q) ''read_set'' = JList (map JStr (cq_read_set q))"
  "dict_get (request_dict resolve q) ''readonly_files'' = JList (map JStr (cq_readonly_files q))"
  "dict_get (request_dict resolve q) ''tests'' = JList (map JStr (cq_tests q))"
  "dict_get (request_dict resolve q) ''timeout_seconds'' = JInt (cq_timeout_seconds q)"
  "dict_get (request_dict resolve q) ''network_allowed'' = JBool (cq_network_allowed q)"
  "dict_get (request_dict resolve q) ''module_id'' = JStr (cq_module_id q)"
  "dict_get (request_dict resolve q) ''boundary_fingerprint'' = JStr (cq_boundary_fingerprint q)"
  "dict_get (request_dict resolve q) ''image_version'' = JStr (cq_image_version q)"
  by (simp_all add: request_dict_def dict_get_def)

lemma str_items_JList: "dict_get d k = JList (map JStr xs) \<Longrightarrow> str_items d k = Inr xs"
  by (simp add: str_items_def comp_def)

lemma str_or_JStr: "dict_get d k = JStr s \<Longrightarrow> str_or [] d k = s" "dict_get d k = JStr s \<Longrightarrow> s \<noteq> [] \<Longrightarrow> str_or e d k = s"
  by (simp_all add: str_or_def)

lemma request_roundtrip:
  assumes "validate_request inside q = Inr ()" and "resolve (cq_project_root q) = cq_project_root q"
    and "cq_project_root q \<noteq> []" and "cq_image_version q \<noteq> []"
  shows "request_of_dict resolve inside (request_dict resolve q) = Inr q"
proof -
  have ints: "int_or_zero (request_dict resolve q) ''base_map_seq'' = Inr (cq_base_map_seq q)"
    "int_or_zero (request_dict resolve q) ''timeout_seconds'' = Inr (cq_timeout_seconds q)"
    by (simp_all add: int_or_zero_def request_dict_get)
  have items: "str_items (request_dict resolve q) ''write_set'' = Inr (cq_write_set q)"
    "str_items (request_dict resolve q) ''read_set'' = Inr (cq_read_set q)"
    "str_items (request_dict resolve q) ''readonly_files'' = Inr (cq_readonly_files q)"
    "str_items (request_dict resolve q) ''tests'' = Inr (cq_tests q)"
    by (simp_all add: str_items_JList request_dict_get)
  have strs: "str_or [] (request_dict resolve q) ''candidate_id'' = cq_candidate_id q"
    "str_or [] (request_dict resolve q) ''run_id'' = cq_run_id q"
    "str_or [] (request_dict resolve q) ''node_id'' = cq_node_id q"
    "str_or [] (request_dict resolve q) ''module_id'' = cq_module_id q"
    "str_or [] (request_dict resolve q) ''boundary_fingerprint'' = cq_boundary_fingerprint q"
    "str_or ''.'' (request_dict resolve q) ''project_root'' = cq_project_root q"
    "str_or ''local'' (request_dict resolve q) ''image_version'' = cq_image_version q"
    using assms(2-4) by (simp_all add: str_or_JStr request_dict_get)
  show ?thesis
    unfolding request_of_dict_def ints items strs bind_result.simps Let_def request_dict_get truthy.simps assms(2)
    using assms(1) by (cases q) simp
qed

end
