(* ===== verification/Runtime_Host.thy ===== *)
theory Runtime_Host
  imports Runtime_Input
begin

text \<open>
  The runtimes of agents: their life cycle (\<^verbatim>\<open>agent/runtime/agent_runtime.py\<close>), the host that
  owns the live ones (\<^verbatim>\<open>agent/runtime/host.py\<close>), their rows in the application database
  (\<^verbatim>\<open>agent/runtime/persistence.py\<close>) and the recovery at the start of a process
  (\<^verbatim>\<open>agent/runtime/session_runtime_lifecycle.py\<close>). A handle is an object that outlives its entry
  in the host, so the host keeps every handle of the process and the identifiers of the entered ones.
  The locks of the host make a creation one step; whether a write to the database succeeds is an
  argument.
\<close>

section \<open>States\<close>

datatype runtime_state =
  R_CREATING | R_READY | R_RUNNING | R_STOPPING | R_COMPLETED | R_FAILED | R_CANCELLED | R_DESTROYED | R_INTERRUPTED

fun allowed_states :: "runtime_state \<Rightarrow> runtime_state list" where
  "allowed_states R_CREATING = [R_READY, R_FAILED, R_CANCELLED]"
| "allowed_states R_READY = [R_RUNNING, R_STOPPING, R_FAILED, R_CANCELLED]"
| "allowed_states R_RUNNING = [R_STOPPING, R_COMPLETED, R_FAILED, R_CANCELLED, R_INTERRUPTED]"
| "allowed_states R_STOPPING = [R_COMPLETED, R_FAILED, R_CANCELLED, R_INTERRUPTED]"
| "allowed_states R_COMPLETED = [R_DESTROYED]"
| "allowed_states R_FAILED = [R_DESTROYED]"
| "allowed_states R_CANCELLED = [R_DESTROYED]"
| "allowed_states R_INTERRUPTED = [R_DESTROYED]"
| "allowed_states R_DESTROYED = []"

datatype agent_role = Parent_Role | Child_Role | Map_Role

section \<open>Capabilities\<close>

text \<open>The names of the tools and skills a generation sees, in sorted order\<close>

record capabilities =
  cv_tools :: "string list"
  cv_skills :: "string list"

definition capability_view ::
  "string list \<Rightarrow> string list \<Rightarrow> string list \<Rightarrow> string list \<Rightarrow> capabilities option \<Rightarrow> capabilities result" where
  "capability_view granted_tools granted_skills tools skills parent =
     (case parent of
        Some p \<Rightarrow>
          (if \<not> set granted_tools \<subseteq> set (cv_tools p) \<or> \<not> set granted_skills \<subseteq> set (cv_skills p)
           then Inl (ValueError ''scope_escalation: child capability view exceeds parent'')
           else Inr \<lparr>cv_tools = filter (\<lambda>t. t \<in> set tools) (sort (remdups granted_tools)),
                     cv_skills = filter (\<lambda>t. t \<in> set skills) (sort (remdups granted_skills))\<rparr>)
      | None \<Rightarrow> Inr \<lparr>cv_tools = filter (\<lambda>t. t \<in> set tools) (sort (remdups granted_tools)),
                     cv_skills = filter (\<lambda>t. t \<in> set skills) (sort (remdups granted_skills))\<rparr>)"

text \<open>A tool outside of the view is a failed result, not an exception\<close>

definition unknown_capability :: dict where
  "unknown_capability = [(''status'', JStr ''failed''), (''error_code'', JStr ''unknown_capability'')]"

definition execute_tool :: "(string \<Rightarrow> dict \<Rightarrow> dict) \<Rightarrow> capabilities \<Rightarrow> string \<Rightarrow> dict \<Rightarrow> dict" where
  "execute_tool run v tool args = (if tool \<in> set (cv_tools v) then run tool args else unknown_capability)"

definition get_skill :: "(string \<Rightarrow> dict) \<Rightarrow> capabilities \<Rightarrow> string \<Rightarrow> dict" where
  "get_skill skill v i = (if i \<in> set (cv_skills v) then skill i else unknown_capability)"

section \<open>Rows\<close>

record runtime_row =
  ar_id :: string
  ar_role :: agent_role
  ar_owner_type :: string
  ar_owner_id :: string
  ar_project_id :: string
  ar_session_id :: "string option"
  ar_parent_agent :: "string option"
  ar_parent_runtime :: "string option"
  ar_agent_id :: string
  ar_generation :: int
  ar_status :: runtime_state
  ar_reason :: "string option"

definition active_states :: "runtime_state list" where
  "active_states = [R_CREATING, R_READY, R_RUNNING, R_STOPPING]"

definition active_row :: "runtime_row \<Rightarrow> bool" where
  "active_row r \<longleftrightarrow> ar_status r \<in> set active_states"

definition newest_generation :: "runtime_row list \<Rightarrow> runtime_row option" where
  "newest_generation rows = (case sort_key (\<lambda>r. - ar_generation r) rows of [] \<Rightarrow> None | r # _ \<Rightarrow> Some r)"

definition get_active_parent :: "string \<Rightarrow> runtime_row list \<Rightarrow> runtime_row option" where
  "get_active_parent session rows = newest_generation
     (filter (\<lambda>r. ar_role r = Parent_Role \<and> ar_session_id r = Some session \<and> active_row r) rows)"

definition get_active_map :: "string \<Rightarrow> runtime_row list \<Rightarrow> runtime_row option" where
  "get_active_map project rows = newest_generation
     (filter (\<lambda>r. ar_role r = Map_Role \<and> ar_project_id r = project \<and> active_row r) rows)"

definition list_active_children :: "string \<Rightarrow> runtime_row list \<Rightarrow> runtime_row list" where
  "list_active_children parent rows =
     sort_key (\<lambda>r. (ar_agent_id r, ar_generation r))
       (filter (\<lambda>r. ar_parent_runtime r = Some parent \<and> active_row r) rows)"

section \<open>The host\<close>

datatype runtime_task = No_Task | Task_Active | Task_Over

record runtime_handle =
  rh_id :: string
  rh_role :: agent_role
  rh_project_id :: string
  rh_session_id :: "string option"
  rh_agent_id :: string
  rh_generation :: int
  rh_parent :: "string option"
  rh_state :: runtime_state
  rh_reason :: "string option"
  rh_view :: capabilities
  rh_children :: "string list"
  rh_task :: runtime_task
  rh_resources :: nat
  rh_closed :: bool
  rh_revoked :: bool

type_synonym singleton_key = "agent_role \<times> string \<times> string option"

record runtime_host =
  ho_handles :: "runtime_handle list"
  ho_active :: "string list"
  ho_singletons :: "(singleton_key \<times> string) list"
  ho_rows :: "runtime_row list"

definition find_handle :: "runtime_host \<Rightarrow> string \<Rightarrow> runtime_handle option" where
  "find_handle h i = find (\<lambda>x. rh_id x = i) (ho_handles h)"

definition set_handle :: "string \<Rightarrow> (runtime_handle \<Rightarrow> runtime_handle) \<Rightarrow> runtime_host \<Rightarrow> runtime_host" where
  "set_handle i f h = h\<lparr>ho_handles := update_rows (\<lambda>x. rh_id x = i) f (ho_handles h)\<rparr>"

text \<open>\<^verbatim>\<open>update_runtime_state\<close>: the row and then the handle, if the write is committed\<close>

definition transition_runtime ::
  "bool \<Rightarrow> string \<Rightarrow> runtime_state \<Rightarrow> string \<Rightarrow> runtime_host \<Rightarrow> unit result \<times> runtime_host" where
  "transition_runtime db_ok i target reason h =
     (case find_handle h i of
        None \<Rightarrow> (Inl (BuiltinError ''LookupError''), h)
      | Some x \<Rightarrow>
          (if target \<notin> set (allowed_states (rh_state x)) then (Inl (RuntimeError ''runtime_invalid_transition''), h)
           else if \<not> db_ok then (Inl (BuiltinError ''OperationalError''), h)
           else if find (\<lambda>r. ar_id r = i) (ho_rows h) = None then (Inl (BuiltinError ''LookupError''), h)
           else (Inr (), (set_handle i (\<lambda>x. x\<lparr>rh_state := target, rh_reason := Some reason\<rparr>) h)
             \<lparr>ho_rows := update_rows (\<lambda>r. ar_id r = i) (\<lambda>r. r\<lparr>ar_status := target, ar_reason := Some reason\<rparr>) (ho_rows h)\<rparr>)))"

definition singleton_key :: "agent_role \<Rightarrow> string \<Rightarrow> string option \<Rightarrow> singleton_key option result" where
  "singleton_key role project session =
     (case role of
        Parent_Role \<Rightarrow> (case session of
            None \<Rightarrow> Inl (RuntimeError ''runtime_session_required'')
          | Some s \<Rightarrow> Inr (Some (Parent_Role, project, Some s)))
      | Map_Role \<Rightarrow> Inr (Some (Map_Role, project, None))
      | Child_Role \<Rightarrow> Inr None)"

definition handle_key :: "runtime_handle \<Rightarrow> singleton_key option" where
  "handle_key x = (case singleton_key (rh_role x) (rh_project_id x) (rh_session_id x) of Inl _ \<Rightarrow> None | Inr k \<Rightarrow> k)"

definition remove_handle :: "string \<Rightarrow> runtime_host \<Rightarrow> runtime_host" where
  "remove_handle i h =
     (let h1 = h\<lparr>ho_active := filter (\<lambda>j. j \<noteq> i) (ho_active h)\<rparr> in
      case find_handle h i of
        None \<Rightarrow> h1
      | Some x \<Rightarrow>
          (case handle_key x of
             None \<Rightarrow> h1
           | Some k \<Rightarrow>
               (if map_of (ho_singletons h) k = Some i
                then h1\<lparr>ho_singletons := filter (\<lambda>(k', _). k' \<noteq> k) (ho_singletons h)\<rparr> else h1)))"

definition close_resources :: "string \<Rightarrow> runtime_host \<Rightarrow> runtime_host" where
  "close_resources i h = set_handle i (\<lambda>x. if rh_closed x then x else x\<lparr>rh_resources := 0, rh_closed := True\<rparr>) h"

text \<open>
  A task that is cancelled may move its own runtime once more, to \<open>on_cancel i\<close>; an error of it is
  dropped.
\<close>

definition cancel_task :: "(string \<Rightarrow> runtime_state \<Rightarrow> bool) \<Rightarrow> (string \<Rightarrow> runtime_state option) \<Rightarrow> string \<Rightarrow> runtime_host \<Rightarrow> runtime_host" where
  "cancel_task db on_cancel i h =
     (case find_handle h i of
        None \<Rightarrow> h
      | Some x \<Rightarrow>
          (if rh_task x \<noteq> Task_Active then h
           else
             (let h1 = set_handle i (\<lambda>x. x\<lparr>rh_task := Task_Over\<rparr>) h in
              case on_cancel i of
                None \<Rightarrow> h1
              | Some s \<Rightarrow> snd (transition_runtime (db i s) i s ''child_work_cancelled'' h1))))"


section \<open>Creation\<close>

record creation =
  cr_id :: string
  cr_role :: agent_role
  cr_project_id :: string
  cr_agent_id :: string
  cr_generation :: int
  cr_session_id :: "string option"
  cr_parent :: "string option"
  cr_granted_tools :: "string list"
  cr_granted_skills :: "string list"
  cr_tools :: "string list"
  cr_skills :: "string list"
  cr_has_task :: bool
  cr_has_mailbox :: bool

text \<open>
  What the database answers to a creation: every write succeeds, the row cannot be written, or the
  step to \<open>R_READY\<close> raises (by a cancellation or not), the steps to the failed and to the destroyed
  state may fail too, and the task may move its runtime when it is cancelled.
\<close>

datatype creation_answer = All_Written | Row_Refused | Ready_Fails bool bool bool "runtime_state option"

definition parent_inactive :: "runtime_host \<Rightarrow> string option \<Rightarrow> bool" where
  "parent_inactive h p =
     (case p of None \<Rightarrow> False
      | Some i \<Rightarrow> (case find_handle h i of None \<Rightarrow> True | Some x \<Rightarrow> rh_state x \<notin> {R_READY, R_RUNNING}))"

definition existing_singleton :: "runtime_host \<Rightarrow> singleton_key option \<Rightarrow> runtime_handle option" where
  "existing_singleton h k =
     (case Option.bind (Option.bind k (map_of (ho_singletons h))) (find_handle h) of
        Some x \<Rightarrow> if rh_state x = R_DESTROYED then None else Some x
      | None \<Rightarrow> None)"

definition new_row :: "creation \<Rightarrow> runtime_host \<Rightarrow> runtime_row" where
  "new_row c h =
     \<lparr>ar_id = cr_id c, ar_role = cr_role c,
      ar_owner_type = (if cr_role c = Parent_Role then ''session'' else ''project''),
      ar_owner_id = (case cr_session_id c of None \<Rightarrow> cr_project_id c | Some s \<Rightarrow> if s = [] then cr_project_id c else s),
      ar_project_id = cr_project_id c, ar_session_id = cr_session_id c,
      ar_parent_agent = map_option rh_agent_id (Option.bind (cr_parent c) (find_handle h)),
      ar_parent_runtime = cr_parent c, ar_agent_id = cr_agent_id c, ar_generation = cr_generation c,
      ar_status = R_CREATING, ar_reason = Some ''create_started''\<rparr>"

definition new_handle :: "creation \<Rightarrow> capabilities \<Rightarrow> runtime_handle" where
  "new_handle c v =
     \<lparr>rh_id = cr_id c, rh_role = cr_role c, rh_project_id = cr_project_id c, rh_session_id = cr_session_id c,
      rh_agent_id = cr_agent_id c, rh_generation = cr_generation c, rh_parent = cr_parent c,
      rh_state = R_CREATING, rh_reason = Some ''create_started'', rh_view = v, rh_children = [],
      rh_task = (if cr_has_task c then Task_Active else No_Task),
      rh_resources = (if cr_has_mailbox c then 1 else 0), rh_closed = False, rh_revoked = False\<rparr>"

text \<open>The handle enters the host, its singleton and the children of its parent\<close>

definition enter_handle :: "creation \<Rightarrow> singleton_key option \<Rightarrow> capabilities \<Rightarrow> runtime_host \<Rightarrow> runtime_host" where
  "enter_handle c k v h =
     (let h1 = (case cr_parent c of None \<Rightarrow> h | Some p \<Rightarrow>
                  set_handle p (\<lambda>x. x\<lparr>rh_children := rh_children x @ [cr_id c]\<rparr>) h)
      in h1\<lparr>ho_handles := ho_handles h1 @ [new_handle c v], ho_active := ho_active h @ [cr_id c],
            ho_rows := ho_rows h @ [new_row c h],
            ho_singletons := (case k of None \<Rightarrow> ho_singletons h
               | Some k \<Rightarrow> AList.update k (cr_id c) (ho_singletons h))\<rparr>)"

text \<open>\<^verbatim>\<open>_cleanup_failed_creation\<close>: only a cancelled creation is marked destroyed\<close>

definition fail_creation ::
  "bool \<Rightarrow> bool \<Rightarrow> bool \<Rightarrow> runtime_state option \<Rightarrow> string \<Rightarrow> runtime_host \<Rightarrow> runtime_host" where
  "fail_creation cancelled fail_ok destroy_ok final i h =
     (let h1 = snd (transition_runtime fail_ok i (if cancelled then R_CANCELLED else R_FAILED)
                 (if cancelled then ''create_cancelled'' else ''create_failed'') h);
          h2 = remove_handle i h1;
          h3 = close_resources i (cancel_task (\<lambda>_ _. fail_ok) (\<lambda>_. final) i h2)
      in if cancelled \<and> map_option rh_state (find_handle h3 i) = Some R_CANCELLED
         then snd (transition_runtime destroy_ok i R_DESTROYED ''destroyed'' h3) else h3)"

text \<open>Gives the identifier of the handle: an existing one or the new one\<close>

definition create_runtime :: "creation_answer \<Rightarrow> creation \<Rightarrow> runtime_host \<Rightarrow> string result \<times> runtime_host" where
  "create_runtime ans c h =
     (if cr_role c = Child_Role \<and> cr_parent c = None then (Inl (RuntimeError ''runtime_parent_required''), h)
      else if parent_inactive h (cr_parent c) then (Inl (RuntimeError ''runtime_parent_inactive''), h)
      else (case singleton_key (cr_role c) (cr_project_id c) (cr_session_id c) of
          Inl e \<Rightarrow> (Inl e, h)
        | Inr k \<Rightarrow>
            (case existing_singleton h k of
               Some x \<Rightarrow>
                 (if rh_agent_id x = cr_agent_id c \<and> rh_generation x = cr_generation c then (Inr (rh_id x), h)
                  else (Inl (RuntimeError ''runtime_conflict''), h))
             | None \<Rightarrow>
                 (case capability_view (cr_granted_tools c) (cr_granted_skills c) (cr_tools c) (cr_skills c)
                         (map_option rh_view (Option.bind (cr_parent c) (find_handle h))) of
                    Inl e \<Rightarrow> (Inl e, h)
                  | Inr v \<Rightarrow>
                      (if ans = Row_Refused then (Inl (BuiltinError ''OperationalError''), h)
                       else if \<exists>r \<in> set (ho_rows h). ar_agent_id r = cr_agent_id c \<and> ar_generation r = cr_generation c
                       then (Inl (BuiltinError ''IntegrityError''), h)
                       else
                         (let h1 = enter_handle c k v h in
                          case ans of
                            Ready_Fails cancelled fail_ok destroy_ok final \<Rightarrow>
                              (Inl (BuiltinError (if cancelled then ''CancelledError'' else ''OperationalError'')),
                               fail_creation cancelled fail_ok destroy_ok final (cr_id c) h1)
                          | _ \<Rightarrow>
                              (case transition_runtime True (cr_id c) R_READY ''created'' h1 of
                                 (Inl e, h2) \<Rightarrow> (Inl e, h2)
                               | (Inr _, h2) \<Rightarrow> (Inr (cr_id c), h2))))))))"

text \<open>\<^verbatim>\<open>_parent_generation\<close> of the gateway: the live one, or one more than the last\<close>

definition parent_generation :: "string \<Rightarrow> string \<Rightarrow> runtime_host \<Rightarrow> int" where
  "parent_generation project session h =
     (let mine = (\<lambda>x. rh_role x = Parent_Role \<and> rh_project_id x = project \<and> rh_session_id x = Some session) in
      case find (\<lambda>x. mine x \<and> rh_state x \<noteq> R_DESTROYED) (List.map_filter (find_handle h) (ho_active h)) of
        Some x \<Rightarrow> rh_generation x
      | None \<Rightarrow>
          (case map ar_generation (filter (\<lambda>r. ar_role r = Parent_Role \<and> ar_project_id r = project
                  \<and> ar_session_id r = Some session) (ho_rows h)) of
             [] \<Rightarrow> 0
           | g # gs \<Rightarrow> fold max gs g) + 1)"

section \<open>Stopping and destroying\<close>

definition final_states :: "runtime_state list" where
  "final_states = [R_COMPLETED, R_FAILED, R_CANCELLED, R_INTERRUPTED, R_DESTROYED]"

text \<open>\<^verbatim>\<open>_children\<close>: those still entered, in the order of their creation (Python's set has none)\<close>

definition live_children :: "runtime_host \<Rightarrow> string \<Rightarrow> string list" where
  "live_children h i =
     (case find_handle h i of None \<Rightarrow> [] | Some x \<Rightarrow> filter (\<lambda>j. j \<in> set (ho_active h)) (rh_children x))"

text \<open>After the children: the task, the resources, the last state\<close>

definition finish_stop ::
  "(string \<Rightarrow> runtime_state \<Rightarrow> bool) \<Rightarrow> (string \<Rightarrow> runtime_state option) \<Rightarrow> string \<Rightarrow> runtime_host
     \<Rightarrow> unit result \<times> runtime_host" where
  "finish_stop db on_cancel i h =
     (let h1 = close_resources i (cancel_task db on_cancel i h) in
      if map_option rh_state (find_handle h1 i) = Some R_STOPPING
      then transition_runtime (db i R_COMPLETED) i R_COMPLETED ''stopped'' h1
      else (Inr (), h1))"

text \<open>
  The children are of later creations than their parent, so \<open>n\<close> bounds the depth; the depth of
  the recursion in Python is that of the tasks.
\<close>

fun stop_runtime ::
  "(string \<Rightarrow> runtime_state \<Rightarrow> bool) \<Rightarrow> (string \<Rightarrow> runtime_state option) \<Rightarrow> nat \<Rightarrow> string \<Rightarrow> runtime_host
     \<Rightarrow> unit result \<times> runtime_host"
  and stop_each ::
  "(string \<Rightarrow> runtime_state \<Rightarrow> bool) \<Rightarrow> (string \<Rightarrow> runtime_state option) \<Rightarrow> nat \<Rightarrow> string list \<Rightarrow> runtime_host
     \<Rightarrow> unit result \<times> runtime_host" where
  "stop_runtime db on_cancel 0 i h = (Inl (BuiltinError ''RecursionError''), h)"
| "stop_runtime db on_cancel (Suc n) i h =
     (case find_handle h i of
        None \<Rightarrow> (Inl (BuiltinError ''LookupError''), h)
      | Some x \<Rightarrow>
          (if rh_state x \<in> set final_states then (Inr (), h)
           else (case (if rh_state x = R_STOPPING then (Inr (), h)
                       else transition_runtime (db i R_STOPPING) i R_STOPPING ''stop_requested'' h) of
               (Inl e, h1) \<Rightarrow> (Inl e, h1)
             | (Inr _, h1) \<Rightarrow>
                 (case stop_each db on_cancel n (live_children h1 i) h1 of
                    (Inl e, h2) \<Rightarrow> (Inl e, h2)
                  | (Inr _, h2) \<Rightarrow> finish_stop db on_cancel i h2))))"
| "stop_each db on_cancel n [] h = (Inr (), h)"
| "stop_each db on_cancel n (i # is) h =
     (case stop_runtime db on_cancel n i h of
        (Inl e, h1) \<Rightarrow> (Inl e, h1)
      | (Inr _, h1) \<Rightarrow> stop_each db on_cancel n is h1)"

definition mark_destroyed :: "(string \<Rightarrow> runtime_state \<Rightarrow> bool) \<Rightarrow> string \<Rightarrow> runtime_host \<Rightarrow> unit result \<times> runtime_host" where
  "mark_destroyed db i h =
     (if map_option rh_state (find_handle h i) = Some R_DESTROYED then (Inr (), h)
      else transition_runtime (db i R_DESTROYED) i R_DESTROYED ''destroyed'' h)"

fun destroy_runtime ::
  "(string \<Rightarrow> runtime_state \<Rightarrow> bool) \<Rightarrow> (string \<Rightarrow> runtime_state option) \<Rightarrow> nat \<Rightarrow> string \<Rightarrow> runtime_host
     \<Rightarrow> unit result \<times> runtime_host"
  and destroy_each ::
  "(string \<Rightarrow> runtime_state \<Rightarrow> bool) \<Rightarrow> (string \<Rightarrow> runtime_state option) \<Rightarrow> nat \<Rightarrow> string list \<Rightarrow> runtime_host
     \<Rightarrow> unit result \<times> runtime_host" where
  "destroy_runtime db on_cancel 0 i h = (Inl (BuiltinError ''RecursionError''), h)"
| "destroy_runtime db on_cancel (Suc n) i h =
     (case stop_runtime db on_cancel (Suc n) i h of
        (Inl e, h1) \<Rightarrow> (Inl e, h1)
      | (Inr _, h1) \<Rightarrow>
          (case destroy_each db on_cancel n (live_children h1 i) h1 of
             (Inl e, h2) \<Rightarrow> (Inl e, h2)
           | (Inr _, h2) \<Rightarrow>
               (case mark_destroyed db i h2 of
                  (Inl e, h3) \<Rightarrow> (Inl e, h3)
                | (Inr _, h3) \<Rightarrow> (Inr (), remove_handle i h3))))"
| "destroy_each db on_cancel n [] h = (Inr (), h)"
| "destroy_each db on_cancel n (i # is) h =
     (case destroy_runtime db on_cancel n i h of
        (Inl e, h1) \<Rightarrow> (Inl e, h1)
      | (Inr _, h1) \<Rightarrow> destroy_each db on_cancel n is h1)"

definition revoke_runtime ::
  "(string \<Rightarrow> runtime_state \<Rightarrow> bool) \<Rightarrow> (string \<Rightarrow> runtime_state option) \<Rightarrow> nat \<Rightarrow> string \<Rightarrow> runtime_host
     \<Rightarrow> unit result \<times> runtime_host" where
  "revoke_runtime db on_cancel n i h = destroy_runtime db on_cancel n i (set_handle i (\<lambda>x. x\<lparr>rh_revoked := True\<rparr>) h)"

section \<open>Sessions and the start of a process\<close>

text \<open>\<^verbatim>\<open>close_session\<close>: the runtimes of the session, then its row\<close>

definition session_handles :: "string \<Rightarrow> runtime_host \<Rightarrow> string list" where
  "session_handles session h =
     filter (\<lambda>i. case find_handle h i of None \<Rightarrow> False | Some x \<Rightarrow> rh_session_id x = Some session) (ho_active h)"

definition close_runtime_session ::
  "(string \<Rightarrow> runtime_state \<Rightarrow> bool) \<Rightarrow> (string \<Rightarrow> runtime_state option) \<Rightarrow> nat \<Rightarrow> int \<Rightarrow> string
     \<Rightarrow> runtime_host \<Rightarrow> app_db \<Rightarrow> unit result \<times> runtime_host \<times> app_db" where
  "close_runtime_session db on_cancel n now session h app =
     (case destroy_each db on_cancel n (session_handles session h) h of
        (Inl e, h1) \<Rightarrow> (Inl e, h1, app)
      | (Inr _, h1) \<Rightarrow> (case close_session_row now session app of
            Inl e \<Rightarrow> (Inl e, h1, app)
          | Inr app' \<Rightarrow> (Inr (), h1, app')))"

text \<open>
  A new process has no handles; the rows that claim to be active are interrupted before the
  first request and the pending inputs relayed. The number of both is given.
\<close>

definition interrupt_rows :: "runtime_row list \<Rightarrow> nat \<times> runtime_row list" where
  "interrupt_rows rows =
     (rowcount active_row rows,
      update_rows active_row (\<lambda>r. r\<lparr>ar_status := R_INTERRUPTED, ar_reason := Some ''process_restart''\<rparr>) rows)"

definition restarted_host :: "runtime_row list \<Rightarrow> runtime_host" where
  "restarted_host rows = \<lparr>ho_handles = [], ho_active = [], ho_singletons = [], ho_rows = snd (interrupt_rows rows)\<rparr>"

definition recover_before_requests ::
  "(code_points \<Rightarrow> mailbox result) \<Rightarrow> (stop_point \<times> db_answer \<times> int) list \<Rightarrow> runtime_row list \<Rightarrow> app_db \<Rightarrow> mail_db
     \<Rightarrow> nat call \<times> runtime_host \<times> app_db \<times> mail_db" where
  "recover_before_requests mailbox_for env rows app mail =
     (case relay_pending mailbox_for env None app mail of
        (Returned n, app', mail') \<Rightarrow> (Returned (fst (interrupt_rows rows) + n), restarted_host rows, app', mail')
      | (Raised e, app', mail') \<Rightarrow> (Raised e, restarted_host rows, app', mail')
      | (Process_Stopped, app', mail') \<Rightarrow> (Process_Stopped, restarted_host rows, app', mail'))"

end
