(* ===== verification/Host_Properties.thy ===== *)
theory Host_Properties
  imports Runtime_Host
begin

text \<open>
  The host of the runtimes: its handles agree with their rows, a session has one live parent and a
  project one live map agent, no child has a capability its parent lacks, and destroying a runtime
  destroys its tree.
\<close>

section \<open>Steps\<close>

inductive host_step :: "runtime_host \<Rightarrow> runtime_host \<Rightarrow> bool" where
  create: "create_runtime ans c h = (r, h') \<Longrightarrow> cr_id c \<notin> rh_id ` set (ho_handles h) \<Longrightarrow>
    cr_id c \<notin> ar_id ` set (ho_rows h) \<Longrightarrow> host_step h h'"
| move: "transition_runtime ok i target reason h = (r, h') \<Longrightarrow> host_step h h'"
| task: "host_step h (cancel_task db on_cancel i h)"
| close: "host_step h (close_resources i h)"
| revoke: "host_step h (set_handle i (\<lambda>x. x\<lparr>rh_revoked := True\<rparr>) h)"
| remove: "find_handle h i = Some x \<Longrightarrow> rh_state x = R_DESTROYED \<Longrightarrow> host_step h (remove_handle i h)"
| restart: "host_step h (restarted_host (ho_rows h))"

inductive_cases host_stepE [consumes 1, case_names create move task close revoke remove restart]: "host_step h h'"

section \<open>Invariant\<close>

definition row_matches :: "runtime_handle \<Rightarrow> runtime_row \<Rightarrow> bool" where
  "row_matches x r \<longleftrightarrow> ar_id r = rh_id x \<and> ar_role r = rh_role x \<and> ar_project_id r = rh_project_id x
     \<and> ar_session_id r = rh_session_id x \<and> ar_parent_runtime r = rh_parent x \<and> ar_agent_id r = rh_agent_id x
     \<and> ar_generation r = rh_generation x \<and> ar_status r = rh_state x"

definition view_within :: "capabilities \<Rightarrow> capabilities \<Rightarrow> bool" where
  "view_within v w \<longleftrightarrow> set (cv_tools v) \<subseteq> set (cv_tools w) \<and> set (cv_skills v) \<subseteq> set (cv_skills w)"

fun children_later :: "runtime_handle list \<Rightarrow> bool" where
  "children_later [] \<longleftrightarrow> True"
| "children_later (x # xs) \<longleftrightarrow> (\<forall>c \<in> set (rh_children x). \<exists>y \<in> set xs. rh_id y = c \<and> rh_parent y = Some (rh_id x))
     \<and> children_later xs"

definition adopted :: "runtime_handle list \<Rightarrow> runtime_handle \<Rightarrow> bool" where
  "adopted xs x \<longleftrightarrow> (\<forall>p. rh_parent x = Some p \<longrightarrow>
     (\<exists>y \<in> set xs. rh_id y = p \<and> rh_id x \<in> set (rh_children y) \<and> view_within (rh_view x) (rh_view y)))"

definition host_core :: "runtime_host \<Rightarrow> bool" where
  "host_core h \<longleftrightarrow> unique_key rh_id (ho_handles h) \<and> unique_key ar_id (ho_rows h)
     \<and> distinct (ho_active h) \<and> set (ho_active h) \<subseteq> rh_id ` set (ho_handles h)
     \<and> (\<forall>x \<in> set (ho_handles h). \<exists>r \<in> set (ho_rows h). row_matches x r)
     \<and> distinct (map fst (ho_singletons h))
     \<and> (\<forall>k i. (k, i) \<in> set (ho_singletons h) \<longrightarrow> (\<exists>x \<in> set (ho_handles h). rh_id x = i \<and> handle_key x = Some k))
     \<and> (\<forall>x \<in> set (ho_handles h). \<forall>k. rh_id x \<in> set (ho_active h) \<longrightarrow> rh_state x \<noteq> R_DESTROYED \<longrightarrow>
          handle_key x = Some k \<longrightarrow> map_of (ho_singletons h) k = Some (rh_id x))
     \<and> (\<forall>x \<in> set (ho_handles h). adopted (ho_handles h) x) \<and> children_later (ho_handles h)"

definition settled_active :: "runtime_host \<Rightarrow> bool" where
  "settled_active h \<longleftrightarrow> (\<forall>x \<in> set (ho_handles h). rh_id x \<in> set (ho_active h) \<longrightarrow> rh_state x \<noteq> R_CREATING)"

lemma host_coreD:
  assumes "host_core h"
  shows "unique_key rh_id (ho_handles h)" "unique_key ar_id (ho_rows h)" "distinct (ho_active h)"
    "set (ho_active h) \<subseteq> rh_id ` set (ho_handles h)"
    "\<And>x. x \<in> set (ho_handles h) \<Longrightarrow> \<exists>r \<in> set (ho_rows h). row_matches x r"
    "distinct (map fst (ho_singletons h))"
    "\<And>k i. (k, i) \<in> set (ho_singletons h) \<Longrightarrow> \<exists>x \<in> set (ho_handles h). rh_id x = i \<and> handle_key x = Some k"
    "\<And>x k. x \<in> set (ho_handles h) \<Longrightarrow> rh_id x \<in> set (ho_active h) \<Longrightarrow> rh_state x \<noteq> R_DESTROYED \<Longrightarrow>
       handle_key x = Some k \<Longrightarrow> map_of (ho_singletons h) k = Some (rh_id x)"
    "\<And>x. x \<in> set (ho_handles h) \<Longrightarrow> adopted (ho_handles h) x" "children_later (ho_handles h)"
  using assms by (simp_all add: host_core_def del: split_paired_All)

text \<open>Writing one handle: its identity, its key, its tree and its view stay\<close>

definition same_identity :: "runtime_handle \<Rightarrow> runtime_handle \<Rightarrow> bool" where
  "same_identity x y \<longleftrightarrow> rh_id y = rh_id x \<and> rh_role y = rh_role x \<and> rh_project_id y = rh_project_id x
     \<and> rh_session_id y = rh_session_id x \<and> rh_agent_id y = rh_agent_id x \<and> rh_generation y = rh_generation x
     \<and> rh_parent y = rh_parent x \<and> rh_view y = rh_view x \<and> rh_children y = rh_children x"

lemma handle_key_same: "same_identity x y \<Longrightarrow> handle_key y = handle_key x"
  by (simp add: same_identity_def handle_key_def)

lemma find_handleD: "find_handle h i = Some x \<Longrightarrow> x \<in> set (ho_handles h) \<and> rh_id x = i"
  by (auto simp: find_handle_def dest: find_SomeD)

lemma find_handle_of: "host_core h \<Longrightarrow> x \<in> set (ho_handles h) \<Longrightarrow> find_handle h (rh_id x) = Some x"
  unfolding find_handle_def by (rule find_key_unique [OF host_coreD(1)])

lemma children_later_map: "(\<And>x. same_identity x (g x)) \<Longrightarrow> children_later (map g xs) = children_later xs"
proof (induction xs)
  case (Cons x xs)
  have "rh_id (g y) = rh_id y" "rh_children (g y) = rh_children y" "rh_parent (g y) = rh_parent y" for y
    using Cons.prems [of y] by (simp_all add: same_identity_def)
  then show ?case using Cons by simp
qed simp

lemma adopted_map:
  assumes "\<And>x. same_identity x (g x)" and "adopted xs x"
  shows "adopted (map g xs) (g x)"
  unfolding adopted_def
proof (intro allI impI)
  have g: "rh_id (g y) = rh_id y" "rh_children (g y) = rh_children y" "rh_view (g y) = rh_view y" "rh_parent (g y) = rh_parent y" for y
    using assms(1) [of y] by (simp_all add: same_identity_def)
  fix p assume "rh_parent (g x) = Some p"
  then obtain y where "y \<in> set xs" "rh_id y = p" "rh_id x \<in> set (rh_children y)" "view_within (rh_view x) (rh_view y)"
    using assms(2) g(4) by (auto simp: adopted_def)
  then show "\<exists>y \<in> set (map g xs). rh_id y = p \<and> rh_id (g x) \<in> set (rh_children y) \<and> view_within (rh_view (g x)) (rh_view y)"
    using g by force
qed

lemma host_core_map:
  assumes ok: "host_core h" and same: "\<And>x. same_identity x (g x)"
    and rows: "unique_key ar_id rows" "\<And>x. x \<in> set (ho_handles h) \<Longrightarrow> \<exists>r \<in> set rows. row_matches (g x) r"
    and state: "\<And>x. x \<in> set (ho_handles h) \<Longrightarrow> rh_state x = R_DESTROYED \<Longrightarrow> rh_state (g x) = R_DESTROYED"
  shows "host_core (h\<lparr>ho_handles := map g (ho_handles h), ho_rows := rows\<rparr>)"
proof -
  note c = host_coreD [OF ok]
  have ids: "rh_id (g x) = rh_id x" and key: "handle_key (g x) = handle_key x" for x
    using handle_key_same [OF same] same [of x] by (simp_all add: same_identity_def)
  have idset: "rh_id ` g ` set (ho_handles h) = rh_id ` set (ho_handles h)"
    by (simp add: image_image ids)
  have "rh_id \<circ> g = rh_id" by (simp add: fun_eq_iff ids)
  then have "unique_key rh_id (map g (ho_handles h))" using c(1) unfolding unique_key_def by simp
  moreover have "\<exists>x \<in> set (map g (ho_handles h)). rh_id x = j \<and> handle_key x = Some k"
    if "(k, j) \<in> set (ho_singletons h)" for k j
    using c(7) [OF that] ids key by force
  moreover have "map_of (ho_singletons h) k = Some (rh_id x)"
    if x: "x \<in> set (map g (ho_handles h))" "rh_id x \<in> set (ho_active h)" "rh_state x \<noteq> R_DESTROYED" "handle_key x = Some k" for x k
  proof -
    obtain y where y: "y \<in> set (ho_handles h)" "x = g y" using x(1) by auto
    with x(3) state [of y] have "rh_state y \<noteq> R_DESTROYED" by auto
    with c(8) [of y k] y x(2,4) ids [of y] key [of y] show ?thesis by simp
  qed
  moreover have "adopted (map g (ho_handles h)) x" if "x \<in> set (map g (ho_handles h))" for x
    using that c(9) adopted_map [OF same] by auto
  moreover have "\<exists>r \<in> set rows. row_matches x r" if "x \<in> set (map g (ho_handles h))" for x
    using that rows(2) by auto
  ultimately show ?thesis
    using c(3,4,6,10) rows(1) idset children_later_map [OF same]
    by (simp add: host_core_def del: split_paired_All)
qed

section \<open>Every step keeps it\<close>

text \<open>A write that leaves the state alone\<close>

definition same_state :: "runtime_handle \<Rightarrow> runtime_handle \<Rightarrow> bool" where
  "same_state x y \<longleftrightarrow> same_identity x y \<and> rh_state y = rh_state x"

lemma set_handle_map: "set_handle i f h = h\<lparr>ho_handles := map (\<lambda>x. if rh_id x = i then f x else x) (ho_handles h)\<rparr>"
  by (simp add: set_handle_def update_rows_def)

lemma host_core_set:
  assumes ok: "host_core h" and f: "\<And>x. same_state x (f x)"
  shows "host_core (set_handle i f h)"
proof -
  let ?g = "\<lambda>x. if rh_id x = i then f x else x"
  have g: "same_state x (?g x)" for x using f by (simp add: same_state_def same_identity_def)
  have "row_matches (?g x) r = row_matches x r" for x r
    using g [of x] unfolding row_matches_def same_state_def same_identity_def by (simp only:)
  then have "host_core (h\<lparr>ho_handles := map ?g (ho_handles h), ho_rows := ho_rows h\<rparr>)"
    using g host_coreD(2,5) [OF ok] by (intro host_core_map [OF ok]) (simp_all only: same_state_def)
  then show ?thesis by (simp add: set_handle_map)
qed

lemma settled_set:
  assumes "settled_active h" and f: "\<And>x. same_state x (f x)"
  shows "settled_active (set_handle i f h)"
  using assms(1) f by (auto simp: settled_active_def set_handle_map same_state_def same_identity_def)

lemma transition_cases:
  assumes "transition_runtime ok i target reason h = (r, h')"
  obtains (same) e where "r = Inl e" "h' = h"
  | (moved) x where "r = Inr ()" "ok" "find_handle h i = Some x" "target \<in> set (allowed_states (rh_state x))"
      "h' = (set_handle i (\<lambda>x. x\<lparr>rh_state := target, rh_reason := Some reason\<rparr>) h)
         \<lparr>ho_rows := update_rows (\<lambda>r. ar_id r = i) (\<lambda>r. r\<lparr>ar_status := target, ar_reason := Some reason\<rparr>) (ho_rows h)\<rparr>"
  using assms unfolding transition_runtime_def
  by (auto split: option.splits if_splits)

lemma allowed_final: "s \<in> set (allowed_states t) \<Longrightarrow> t \<noteq> R_DESTROYED" "s \<in> set (allowed_states t) \<Longrightarrow> s \<noteq> R_CREATING"
  by (cases t; auto)+

lemma host_core_transition:
  assumes ok: "host_core h" and "transition_runtime k i target reason h = (r, h')"
  shows "host_core h'"
  using assms(2)
proof (cases rule: transition_cases)
  case (moved x)
  let ?g = "\<lambda>x. if rh_id x = i then x\<lparr>rh_state := target, rh_reason := Some reason\<rparr> else x"
  let ?u = "\<lambda>r. if ar_id r = i then r\<lparr>ar_status := target, ar_reason := Some reason\<rparr> else r"
  let ?rows = "update_rows (\<lambda>r. ar_id r = i) (\<lambda>r. r\<lparr>ar_status := target, ar_reason := Some reason\<rparr>) (ho_rows h)"
  have x: "x \<in> set (ho_handles h)" "rh_id x = i" using find_handleD [OF moved(3)] by simp_all
  have "host_core (h\<lparr>ho_handles := map ?g (ho_handles h), ho_rows := ?rows\<rparr>)"
  proof (rule host_core_map [OF ok])
    show "same_identity y (?g y)" for y by (simp add: same_identity_def)
    show "unique_key ar_id ?rows" using host_coreD(2) [OF ok] by (subst unique_key_update) simp_all
    show "\<exists>r \<in> set ?rows. row_matches (?g y) r" if y: "y \<in> set (ho_handles h)" for y
    proof -
      obtain r where "r \<in> set (ho_rows h)" "row_matches y r" using host_coreD(5) [OF ok y] by blast
      then have "?u r \<in> set ?rows" "row_matches (?g y) (?u r)" by (auto simp: update_rows_def row_matches_def)
      then show ?thesis by blast
    qed
    show "rh_state (?g y) = R_DESTROYED" if "y \<in> set (ho_handles h)" "rh_state y = R_DESTROYED" for y
    proof -
      have "y \<noteq> x" using that(2) allowed_final(1) [OF moved(4)] by auto
      then have "rh_id y \<noteq> i" using unique_keyD [OF host_coreD(1) [OF ok] that(1) x(1)] x(2) by auto
      with that(2) show ?thesis by simp
    qed
  qed
  then show ?thesis by (simp add: moved(5) set_handle_map)
qed (use ok in simp)

lemma settled_transition:
  assumes "settled_active h" and "transition_runtime k i target reason h = (r, h')"
  shows "settled_active h'"
  using assms(2)
proof (cases rule: transition_cases)
  case (moved x)
  with assms(1) allowed_final(2) [OF moved(4)] show ?thesis
    by (auto simp: settled_active_def set_handle_map)
qed (use assms(1) in simp)

lemma map_of_other_key: "k' \<noteq> k \<Longrightarrow> map_of (filter (\<lambda>(k', _). k' \<noteq> k) xs) k' = map_of xs k'"
  by (induction xs) auto

lemma host_core_remove:
  assumes ok: "host_core h"
  shows "host_core (remove_handle i h)"
proof -
  note c = host_coreD [OF ok]
  let ?a = "filter (\<lambda>j. j \<noteq> i) (ho_active h)"
  have plain: "host_core (h\<lparr>ho_active := ?a\<rparr>)"
    using ok by (auto simp: host_core_def simp del: split_paired_All)
  show ?thesis
  proof (cases "\<exists>x k. find_handle h i = Some x \<and> handle_key x = Some k \<and> map_of (ho_singletons h) k = Some i")
    case True
    then obtain x k where x: "find_handle h i = Some x" "handle_key x = Some k" "map_of (ho_singletons h) k = Some i" by blast
    let ?s = "filter (\<lambda>(k', _). k' \<noteq> k) (ho_singletons h)"
    have map: "map_of ?s k' = map_of (ho_singletons h) k'" if "k' \<noteq> k" for k'
      using that by (rule map_of_other_key)
    have "map_of ?s k' = Some (rh_id y)"
      if y: "y \<in> set (ho_handles h)" "rh_id y \<in> set ?a" "rh_state y \<noteq> R_DESTROYED" "handle_key y = Some k'" for y k'
    proof -
      have m: "map_of (ho_singletons h) k' = Some (rh_id y)" using c(8) [of y k'] y by simp
      have "k' \<noteq> k" using m x(3) y(2) by auto
      with m map show ?thesis by simp
    qed
    moreover have "distinct (map fst ?s)" using c(6) by (rule distinct_map_filter)
    ultimately have "host_core (h\<lparr>ho_active := ?a, ho_singletons := ?s\<rparr>)"
      using plain by (simp add: host_core_def del: split_paired_All)
    with x show ?thesis by (simp add: remove_handle_def)
  next
    case False
    then have "remove_handle i h = h\<lparr>ho_active := ?a\<rparr>"
      by (auto simp: remove_handle_def Let_def split: option.splits)
    with plain show ?thesis by simp
  qed
qed

lemma settled_remove: "settled_active h \<Longrightarrow> settled_active (remove_handle i h)"
  by (auto simp: settled_active_def remove_handle_def Let_def split: option.splits)

lemma cancel_task_cases:
  obtains (same) "cancel_task db on_cancel i h = h"
  | (over) "cancel_task db on_cancel i h = set_handle i (\<lambda>x. x\<lparr>rh_task := Task_Over\<rparr>) h"
  | (moved) s r where "transition_runtime (db i s) i s ''child_work_cancelled'' (set_handle i (\<lambda>x. x\<lparr>rh_task := Task_Over\<rparr>) h)
      = (r, cancel_task db on_cancel i h)"
proof -
  show thesis
  proof (cases "find_handle h i")
    case None
    then show thesis by (intro same) (simp add: cancel_task_def)
  next
    case (Some x)
    show thesis
    proof (cases "rh_task x = Task_Active")
      case True
      note active = this
      show thesis
      proof (cases "on_cancel i")
        case None
        with Some active show thesis by (intro over) (simp add: cancel_task_def)
      next
        case (Some s)
        with \<open>find_handle h i = Some x\<close> active show thesis
          by (intro moved [of s "fst (transition_runtime (db i s) i s ''child_work_cancelled''
            (set_handle i (\<lambda>x. x\<lparr>rh_task := Task_Over\<rparr>) h))"]) (simp add: cancel_task_def prod_eq_iff)
      qed
    qed (use Some in \<open>intro same, simp add: cancel_task_def\<close>)
  qed
qed

lemma task_write: "same_state x (x\<lparr>rh_task := t\<rparr>)" "same_state x (x\<lparr>rh_revoked := b\<rparr>)"
  "same_state x (if rh_closed x then x else x\<lparr>rh_resources := n, rh_closed := c\<rparr>)"
  by (simp_all add: same_state_def same_identity_def)

lemma host_core_cancel: "host_core h \<Longrightarrow> host_core (cancel_task db on_cancel i h)"
  by (cases db on_cancel i h rule: cancel_task_cases) (auto intro: host_core_set host_core_transition task_write)

lemma settled_cancel: "settled_active h \<Longrightarrow> settled_active (cancel_task db on_cancel i h)"
  by (cases db on_cancel i h rule: cancel_task_cases) (auto intro: settled_set settled_transition task_write)

lemma host_core_close: "host_core h \<Longrightarrow> host_core (close_resources i h)"
  unfolding close_resources_def by (erule host_core_set) (rule task_write)

lemma settled_close: "settled_active h \<Longrightarrow> settled_active (close_resources i h)"
  unfolding close_resources_def by (erule settled_set) (rule task_write)

subsection \<open>Creation\<close>

lemma capability_view_within:
  "capability_view gt gs ts ss (Some p) = Inr v \<Longrightarrow> view_within v p"
  by (auto simp: capability_view_def view_within_def split: if_splits)

lemma children_later_append:
  "children_later xs \<Longrightarrow> rh_children x = [] \<Longrightarrow> children_later (xs @ [x])"
  by (induction xs) auto

lemma children_later_adopt:
  "children_later xs \<Longrightarrow> rh_children x = [] \<Longrightarrow> rh_parent x = Some p \<Longrightarrow>
   children_later (map (\<lambda>y. if rh_id y = p then y\<lparr>rh_children := rh_children y @ [rh_id x]\<rparr> else y) xs @ [x])"
proof (induction xs)
  case (Cons y ys)
  let ?g = "\<lambda>y. if rh_id y = p then y\<lparr>rh_children := rh_children y @ [rh_id x]\<rparr> else y"
  have "\<exists>z \<in> set (map ?g ys @ [x]). rh_id z = c \<and> rh_parent z = Some (rh_id y)" if "c \<in> set (rh_children y)" for c
  proof -
    obtain z where "z \<in> set ys \<and> rh_id z = c \<and> rh_parent z = Some (rh_id y)"
      using Cons.prems(1) \<open>c \<in> set (rh_children y)\<close> by auto
    then show ?thesis by (intro bexI [of _ "?g z"]) auto
  qed
  moreover have "rh_id y = p \<Longrightarrow> \<exists>z \<in> set (map ?g ys @ [x]). rh_id z = rh_id x \<and> rh_parent z = Some (rh_id y)"
    using Cons.prems(3) by auto
  moreover have "children_later (map ?g ys @ [x])" using Cons by simp
  ultimately show ?case by auto
qed simp

lemma children_later_parent:
  "children_later xs \<Longrightarrow> x \<in> set xs \<Longrightarrow> c \<in> set (rh_children x) \<Longrightarrow> \<exists>y \<in> set xs. rh_id y = c \<and> rh_parent y = Some (rh_id x)"
  by (induction xs) auto

lemma adopted_cong:
  assumes "adopted xs x" and "\<And>y. y \<in> set xs \<Longrightarrow> \<exists>z \<in> set ys. rh_id z = rh_id y \<and> set (rh_children y) \<subseteq> set (rh_children z) \<and> rh_view z = rh_view y"
    and "rh_id x' = rh_id x" "rh_parent x' = rh_parent x" "rh_view x' = rh_view x"
  shows "adopted ys x'"
  unfolding adopted_def
proof (intro allI impI)
  fix p assume "rh_parent x' = Some p"
  then obtain y where y: "y \<in> set xs" "rh_id y = p" "rh_id x \<in> set (rh_children y)" "view_within (rh_view x) (rh_view y)"
    using assms(1,4) by (auto simp: adopted_def)
  obtain z where "z \<in> set ys" "rh_id z = rh_id y" "set (rh_children y) \<subseteq> set (rh_children z)" "rh_view z = rh_view y"
    using assms(2) [OF y(1)] by blast
  then show "\<exists>y \<in> set ys. rh_id y = p \<and> rh_id x' \<in> set (rh_children y) \<and> view_within (rh_view x') (rh_view y)"
    using y assms(3,5) by (intro bexI [of _ z]) auto
qed

lemma new_row_matches: "row_matches (new_handle c v) (new_row c h)"
  by (simp add: row_matches_def new_handle_def new_row_def)

lemma host_core_enter:
  assumes ok: "host_core h" and fresh: "cr_id c \<notin> rh_id ` set (ho_handles h)" "cr_id c \<notin> ar_id ` set (ho_rows h)"
    and key: "singleton_key (cr_role c) (cr_project_id c) (cr_session_id c) = Inr k" "existing_singleton h k = None"
    and parent: "\<not> parent_inactive h (cr_parent c)"
    and view: "capability_view gt gs ts ss (map_option rh_view (Option.bind (cr_parent c) (find_handle h))) = Inr v"
  shows "host_core (enter_handle c k v h)"
proof -
  note co = host_coreD [OF ok]
  let ?n = "new_handle c v"
  define g :: "runtime_handle \<Rightarrow> runtime_handle" where "g = (\<lambda>x. if Some (rh_id x) = cr_parent c then x\<lparr>rh_children := rh_children x @ [cr_id c]\<rparr> else x)"
  have handles: "ho_handles (enter_handle c k v h) = map g (ho_handles h) @ [?n]"
    by (auto simp: enter_handle_def set_handle_map g_def split: option.splits)
  have rest: "ho_active (enter_handle c k v h) = ho_active h @ [cr_id c]"
    "ho_rows (enter_handle c k v h) = ho_rows h @ [new_row c h]"
    "ho_singletons (enter_handle c k v h) = (case k of None \<Rightarrow> ho_singletons h | Some k \<Rightarrow> AList.update k (cr_id c) (ho_singletons h))"
    by (simp_all add: enter_handle_def Let_def)
  have g: "rh_id (g x) = rh_id x" "rh_state (g x) = rh_state x" "handle_key (g x) = handle_key x"
    "rh_parent (g x) = rh_parent x" "rh_view (g x) = rh_view x" "set (rh_children x) \<subseteq> set (rh_children (g x))"
    "row_matches (g x) r = row_matches x r" for x r
    by (auto simp: g_def handle_key_def row_matches_def)
  have gid: "rh_id \<circ> g = rh_id" by (simp add: fun_eq_iff g)
  have nid: "rh_id ?n = cr_id c" "rh_state ?n = R_CREATING" "rh_children ?n = []" "rh_parent ?n = cr_parent c" "rh_view ?n = v"
    by (simp_all add: new_handle_def)
  have nkey: "handle_key ?n = k" using key(1) by (simp add: handle_key_def new_handle_def)
  have "unique_key rh_id (map g (ho_handles h) @ [?n])"
    using co(1) fresh(1) by (auto simp: unique_key_append1 unique_key_def gid g nid)
  moreover have "unique_key ar_id (ho_rows h @ [new_row c h])"
    using co(2) fresh(2) by (simp add: unique_key_append1 new_row_def) (metis imageI)
  moreover have "distinct (ho_active h @ [cr_id c])" using co(3,4) fresh(1) by auto
  moreover have "set (ho_active h @ [cr_id c]) \<subseteq> rh_id ` set (map g (ho_handles h) @ [?n])"
    using co(4) nid(1) by (auto simp: image_image g)
  moreover have "\<exists>r \<in> set (ho_rows h @ [new_row c h]). row_matches x r" if "x \<in> set (map g (ho_handles h) @ [?n])" for x
    using that co(5) new_row_matches g(7) by auto
  moreover have "distinct (map fst (ho_singletons (enter_handle c k v h)))"
    using co(6) by (simp add: rest distinct_update split: option.splits)
  moreover have "\<exists>x \<in> set (map g (ho_handles h) @ [?n]). rh_id x = i \<and> handle_key x = Some k'"
    if entry: "(k', i) \<in> set (ho_singletons (enter_handle c k v h))" for k' i
  proof (cases "(k', i) \<in> set (ho_singletons h)")
    case True
    then obtain y where "y \<in> set (ho_handles h)" "rh_id y = i" "handle_key y = Some k'" using co(7) by blast
    then show ?thesis using g(1,3) by (intro bexI [of _ "g y"]) simp_all
  next
    case False
    then obtain k0 where k0: "k = Some k0" "(k', i) \<in> set (AList.update k0 (cr_id c) (ho_singletons h))"
      using entry False rest(3) by (cases k) auto
    then have "map_of (AList.update k0 (cr_id c) (ho_singletons h)) k' = Some i"
      using distinct_update [OF co(6)] by simp
    then have "k' = k0 \<and> i = cr_id c"
      using False co(6) by (simp add: update_conv split: if_splits)
    with k0(1) nid(1) nkey show ?thesis by simp
  qed
  moreover have "map_of (ho_singletons (enter_handle c k v h)) k' = Some (rh_id x)"
    if x: "x \<in> set (map g (ho_handles h) @ [?n])" "rh_id x \<in> set (ho_active h @ [cr_id c])" "rh_state x \<noteq> R_DESTROYED"
      "handle_key x = Some k'" for x k'
  proof (cases "x = ?n")
    case True
    then have "k = Some k'" using x(4) nkey by simp
    with rest(3) True nid(1) show ?thesis by (simp add: update_conv)
  next
    case False
    then obtain y where y: "y \<in> set (ho_handles h)" "x = g y" using x(1) by auto
    then have "rh_id x \<noteq> cr_id c" using fresh(1) g(1) [of y] by (metis imageI)
    with y x have m: "map_of (ho_singletons h) k' = Some (rh_id y)" using co(8) [of y k'] g by auto
    have "k \<noteq> Some k'"
    proof
      assume "k = Some k'"
      then have "existing_singleton h k = Some y"
        using m find_handle_of [OF ok y(1)] x(3) y(2) g(2) by (simp add: existing_singleton_def)
      with key(2) show False by simp
    qed
    with m y(2) g(1) rest(3) show ?thesis by (cases k) (auto simp: update_conv)
  qed
  moreover have "adopted (map g (ho_handles h) @ [?n]) x" if member: "x \<in> set (map g (ho_handles h) @ [?n])" for x
  proof (cases "x = ?n")
    case True
    show ?thesis unfolding adopted_def
    proof (intro allI impI)
      fix p assume "rh_parent x = Some p"
      then have p: "cr_parent c = Some p" using True nid(4) by simp
      then obtain y where y: "find_handle h p = Some y" using parent by (auto simp: parent_inactive_def split: option.splits)
      then have "view_within v (rh_view y)" using view p by (auto intro: capability_view_within)
      moreover have "g y \<in> set (map g (ho_handles h) @ [?n])" "rh_id (g y) = p" "cr_id c \<in> set (rh_children (g y))"
        using find_handleD [OF y] p by (auto simp: g_def)
      ultimately show "\<exists>y \<in> set (map g (ho_handles h) @ [?n]). rh_id y = p \<and> rh_id x \<in> set (rh_children y) \<and> view_within (rh_view x) (rh_view y)"
        using True nid g(5) by (intro bexI [of _ "g y"]) auto
    qed
  next
    case False
    then obtain y where y: "y \<in> set (ho_handles h)" "x = g y" using member by auto
    show ?thesis
    proof (rule adopted_cong [OF co(9) [OF y(1)]])
      show "\<exists>z \<in> set (map g (ho_handles h) @ [?n]). rh_id z = rh_id w \<and> set (rh_children w) \<subseteq> set (rh_children z) \<and> rh_view z = rh_view w"
        if "w \<in> set (ho_handles h)" for w
        using that g by (intro bexI [of _ "g w"]) auto
    qed (use y(2) g in auto)
  qed
  moreover have "children_later (map g (ho_handles h) @ [?n])"
  proof (cases "cr_parent c")
    case None
    then have "map g (ho_handles h) = ho_handles h" by (simp add: g_def)
    with co(10) nid(3) show ?thesis by (simp add: children_later_append)
  next
    case (Some p)
    then have "g = (\<lambda>y. if rh_id y = p then y\<lparr>rh_children := rh_children y @ [rh_id ?n]\<rparr> else y)"
      by (auto simp: g_def nid(1))
    with children_later_adopt [OF co(10) nid(3), of p] nid(4) Some show ?thesis by simp
  qed
  ultimately show ?thesis
    unfolding host_core_def handles rest(1,2) by blast
qed

lemma transition_succeeds:
  assumes ok: "host_core h" and x: "find_handle h i = Some x" "target \<in> set (allowed_states (rh_state x))"
  shows "\<exists>h'. transition_runtime True i target reason h = (Inr (), h')"
proof -
  obtain r where "r \<in> set (ho_rows h)" "ar_id r = i"
    using host_coreD(5) [OF ok] find_handleD [OF x(1)] by (auto simp: row_matches_def)
  then have "find (\<lambda>r. ar_id r = i) (ho_rows h) \<noteq> None" by (auto simp: find_None_iff)
  with x show ?thesis by (simp add: transition_runtime_def)
qed

lemma find_set_handle:
  assumes "\<And>x. rh_id (f x) = rh_id x"
  shows "find_handle (set_handle i f h) j = map_option (\<lambda>x. if rh_id x = i then f x else x) (find_handle h j)"
  unfolding find_handle_def set_handle_def using assms by (simp add: find_update_rows)

lemma find_handle_rows [simp]: "find_handle (h\<lparr>ho_rows := rows\<rparr>) = find_handle h"
  by (simp add: find_handle_def fun_eq_iff)

lemma set_handle_other [simp]: "ho_active (set_handle i f h) = ho_active h" "ho_rows (set_handle i f h) = ho_rows h"
  "ho_singletons (set_handle i f h) = ho_singletons h"
  by (simp_all add: set_handle_def)

lemma transition_state:
  assumes "transition_runtime k i target reason h = (r, h')"
  shows "find_handle h' j = (if j = i \<and> r = Inr () then map_option (\<lambda>x. x\<lparr>rh_state := target, rh_reason := Some reason\<rparr>) (find_handle h i)
      else find_handle h j)"
    and "ho_active h' = ho_active h"
proof -
  have id: "map_option (\<lambda>x. if rh_id x = i then f x else x) (find_handle h j)
      = (if j = i then map_option f (find_handle h i) else find_handle h j)" for f
    by (cases "find_handle h j") (auto dest: find_handleD)
  show "find_handle h' j = (if j = i \<and> r = Inr () then map_option (\<lambda>x. x\<lparr>rh_state := target, rh_reason := Some reason\<rparr>) (find_handle h i)
      else find_handle h j)"
    using assms by (cases rule: transition_cases) (simp_all add: find_set_handle id)
  show "ho_active h' = ho_active h" using assms by (cases rule: transition_cases) simp_all
qed

lemma settled_active_iff:
  assumes "host_core h"
  shows "settled_active h \<longleftrightarrow> (\<forall>i \<in> set (ho_active h). map_option rh_state (find_handle h i) \<noteq> Some R_CREATING)"
proof
  assume s: "settled_active h"
  show "\<forall>i \<in> set (ho_active h). map_option rh_state (find_handle h i) \<noteq> Some R_CREATING"
  proof
    fix i assume "i \<in> set (ho_active h)"
    with s show "map_option rh_state (find_handle h i) \<noteq> Some R_CREATING"
      by (cases "find_handle h i") (auto simp: settled_active_def dest: find_handleD)
  qed
next
  assume "\<forall>i \<in> set (ho_active h). map_option rh_state (find_handle h i) \<noteq> Some R_CREATING"
  then show "settled_active h" using find_handle_of [OF assms] by (fastforce simp: settled_active_def)
qed

lemma find_enter:
  assumes "cr_id c \<notin> rh_id ` set (ho_handles h)"
  shows "find_handle (enter_handle c k v h) (cr_id c) = Some (new_handle c v)"
    and "j \<noteq> cr_id c \<Longrightarrow> map_option rh_state (find_handle (enter_handle c k v h) j) = map_option rh_state (find_handle h j)"
    and "ho_active (enter_handle c k v h) = ho_active h @ [cr_id c]"
proof -
  define h1 where "h1 = (case cr_parent c of None \<Rightarrow> h | Some p \<Rightarrow>
      set_handle p (\<lambda>x. x\<lparr>rh_children := rh_children x @ [cr_id c]\<rparr>) h)"
  have e: "ho_handles (enter_handle c k v h) = ho_handles h1 @ [new_handle c v]"
    by (simp add: enter_handle_def h1_def Let_def)
  have f: "map_option rh_state (find_handle h1 j) = map_option rh_state (find_handle h j)" for j
    by (cases "cr_parent c") (auto simp: h1_def find_set_handle option.map_comp comp_def intro!: map_option_cong)
  have n: "find_handle h (cr_id c) = None"
    using assms by (simp add: find_handle_def find_None_iff) (metis imageI)
  then have "find_handle h1 (cr_id c) = None" using f [of "cr_id c"] by simp
  then show "find_handle (enter_handle c k v h) (cr_id c) = Some (new_handle c v)"
    by (simp add: find_handle_def e find_append new_handle_def)
  have "rh_id (new_handle c v) = cr_id c" by (simp add: new_handle_def)
  then show "map_option rh_state (find_handle (enter_handle c k v h) j) = map_option rh_state (find_handle h j)"
    if "j \<noteq> cr_id c"
    using f [of j] that by (auto simp: find_handle_def e find_append split: option.splits)
  show "ho_active (enter_handle c k v h) = ho_active h @ [cr_id c]" by (simp add: enter_handle_def Let_def)
qed

definition host_ok :: "runtime_host \<Rightarrow> bool" where
  "host_ok h \<longleftrightarrow> host_core h \<and> settled_active h"

lemma host_okD: "host_ok h \<Longrightarrow> host_core h" "host_ok h \<Longrightarrow> settled_active h"
  by (simp_all add: host_ok_def)

lemma if_either: "(if P then a else b) = b \<or> (if P then a else b) = a"
  by simp

lemma host_core_fail:
  assumes "host_core h"
  shows "host_core (fail_creation cancelled fail_ok destroy_ok final i h)"
proof -
  let ?t = "transition_runtime fail_ok i (if cancelled then R_CANCELLED else R_FAILED)
    (if cancelled then ''create_cancelled'' else ''create_failed'') h"
  have "host_core (snd ?t)" by (rule host_core_transition [OF assms, of _ _ _ _ "fst ?t"]) simp
  then have "host_core (close_resources i (cancel_task (\<lambda>_ _. fail_ok) (\<lambda>_. final) i
      (remove_handle i (snd ?t))))" (is "host_core ?h3")
    by (intro host_core_close host_core_cancel host_core_remove)
  moreover have "host_core (snd (transition_runtime destroy_ok i R_DESTROYED ''destroyed'' ?h3))"
    by (rule host_core_transition [OF calculation, of _ _ _ _ "fst (transition_runtime destroy_ok i R_DESTROYED ''destroyed'' ?h3)"]) simp
  moreover have "fail_creation cancelled fail_ok destroy_ok final i h = ?h3
      \<or> fail_creation cancelled fail_ok destroy_ok final i h = snd (transition_runtime destroy_ok i R_DESTROYED ''destroyed'' ?h3)"
    unfolding fail_creation_def Let_def by (rule if_either)
  ultimately show ?thesis by (elim disjE) simp_all
qed

lemma remove_handle_simps [simp]:
  "find_handle (remove_handle i h) = find_handle h" "ho_active (remove_handle i h) = filter (\<lambda>j. j \<noteq> i) (ho_active h)"
  "ho_handles (remove_handle i h) = ho_handles h" "ho_rows (remove_handle i h) = ho_rows h"
  by (auto simp: remove_handle_def Let_def find_handle_def fun_eq_iff split: option.splits)

lemma state_after_write:
  assumes "\<And>x. rh_id (f x) = rh_id x" and "\<And>x. rh_state (f x) = rh_state x"
  shows "map_option rh_state (find_handle (set_handle i f h) j) = map_option rh_state (find_handle h j)"
  using assms by (cases "find_handle h j") (auto simp: find_set_handle)

lemma state_after_close [simp]: "map_option rh_state (find_handle (close_resources i h) j) = map_option rh_state (find_handle h j)"
  "ho_active (close_resources i h) = ho_active h"
  unfolding close_resources_def by (rule state_after_write) simp_all

lemma transition_other:
  "j \<noteq> i \<Longrightarrow> find_handle (snd (transition_runtime k i target reason h)) j = find_handle h j"
  "ho_active (snd (transition_runtime k i target reason h)) = ho_active h"
  using transition_state [of k i target reason h "fst (transition_runtime k i target reason h)" "snd (transition_runtime k i target reason h)"]
  by simp_all

lemma cancel_task_other:
  "j \<noteq> i \<Longrightarrow> map_option rh_state (find_handle (cancel_task db on_cancel i h) j) = map_option rh_state (find_handle h j)"
  "ho_active (cancel_task db on_cancel i h) = ho_active h"
proof -
  have "map_option rh_state (find_handle (set_handle i (\<lambda>x. x\<lparr>rh_task := Task_Over\<rparr>) h) j) = map_option rh_state (find_handle h j)" for j
    by (rule state_after_write) simp_all
  note task = this
  show "map_option rh_state (find_handle (cancel_task db on_cancel i h) j) = map_option rh_state (find_handle h j)" if "j \<noteq> i"
  proof (cases db on_cancel i h rule: cancel_task_cases)
    case (moved s r)
    from transition_state(1) [OF moved, of j] that task show ?thesis by simp
  qed (simp_all add: task)
  show "ho_active (cancel_task db on_cancel i h) = ho_active h"
  proof (cases db on_cancel i h rule: cancel_task_cases)
    case (moved s r)
    from transition_state(2) [OF moved] show ?thesis by simp
  qed simp_all
qed

lemma fail_creation_frame:
  "ho_active (fail_creation cancelled fail_ok destroy_ok final i h) = filter (\<lambda>j. j \<noteq> i) (ho_active h)"
  "j \<noteq> i \<Longrightarrow> map_option rh_state (find_handle (fail_creation cancelled fail_ok destroy_ok final i h) j)
     = map_option rh_state (find_handle h j)"
  unfolding fail_creation_def Let_def
  by (simp_all add: transition_other cancel_task_other)

lemma host_ok_create:
  assumes ok: "host_ok h" and c: "create_runtime ans c h = (r, h')"
    and fresh: "cr_id c \<notin> rh_id ` set (ho_handles h)" "cr_id c \<notin> ar_id ` set (ho_rows h)"
  shows "host_ok h'"
proof (cases "h' = h")
  case False
  note core = host_okD(1) [OF ok]
  obtain k v where key: "singleton_key (cr_role c) (cr_project_id c) (cr_session_id c) = Inr k" "existing_singleton h k = None"
    and parent: "\<not> parent_inactive h (cr_parent c)"
    and view: "capability_view (cr_granted_tools c) (cr_granted_skills c) (cr_tools c) (cr_skills c)
        (map_option rh_view (Option.bind (cr_parent c) (find_handle h))) = Inr v"
    and last: "(case ans of
        Ready_Fails cancelled fail_ok destroy_ok final \<Rightarrow>
          (Inl (BuiltinError (if cancelled then ''CancelledError'' else ''OperationalError'')),
           fail_creation cancelled fail_ok destroy_ok final (cr_id c) (enter_handle c k v h))
      | _ \<Rightarrow> (case transition_runtime True (cr_id c) R_READY ''created'' (enter_handle c k v h) of
           (Inl e, h2) \<Rightarrow> (Inl e, h2) | (Inr _, h2) \<Rightarrow> (Inr (cr_id c), h2))) = (r, h')"
    using c False unfolding create_runtime_def Let_def
    by (simp split: if_splits sum.splits option.splits)
  let ?e = "enter_handle c k v h"
  have e: "host_core ?e" by (rule host_core_enter [OF core fresh key parent view])
  have others: "map_option rh_state (find_handle ?e j) \<noteq> Some R_CREATING" if "j \<in> set (ho_active h)" "j \<noteq> cr_id c" for j
    using that find_enter(2) [OF fresh(1)] host_okD(2) [OF ok] by (simp add: settled_active_iff [OF core])
  show ?thesis
  proof (cases "\<exists>a b d l. ans = Ready_Fails a b d l")
    case True
    then obtain a b d l where "ans = Ready_Fails a b d l" by blast
    with last have h': "h' = fail_creation a b d l (cr_id c) ?e" by simp
    then have "host_core h'" using host_core_fail [OF e] by simp
    moreover from this have "settled_active h'"
      using others by (auto simp add: settled_active_iff h' fail_creation_frame find_enter(3) [OF fresh(1)])
    ultimately show ?thesis by (simp add: host_ok_def)
  next
    case False
    obtain h2 where h2: "transition_runtime True (cr_id c) R_READY ''created'' ?e = (Inr (), h2)"
      using transition_succeeds [OF e find_enter(1) [OF fresh(1)]] by (auto simp: new_handle_def)
    with last False have "h' = h2" by (cases ans) simp_all
    with h2 have t: "transition_runtime True (cr_id c) R_READY ''created'' ?e = (Inr (), h')" by simp
    then have "host_core h'" by (rule host_core_transition [OF e])
    moreover from this have "settled_active h'"
      using others transition_state [OF t] by (auto simp: settled_active_iff find_enter(1,3) [OF fresh(1)])
    ultimately show ?thesis by (simp add: host_ok_def)
  qed
qed (use ok in simp)

lemma host_ok_restart:
  assumes "host_core h"
  shows "host_ok (restarted_host (ho_rows h))"
proof -
  have "unique_key ar_id (snd (interrupt_rows (ho_rows h)))"
    using host_coreD(2) [OF assms] by (simp add: interrupt_rows_def unique_key_update)
  then show ?thesis by (simp add: host_ok_def host_core_def settled_active_def restarted_host_def unique_key_def)
qed

lemma host_ok_step:
  assumes "host_step h h'" and ok: "host_ok h"
  shows "host_ok h'"
  using assms(1)
proof (cases rule: host_stepE)
  case create
  then show ?thesis using host_ok_create [OF ok] by blast
next
  case move
  then show ?thesis using host_core_transition settled_transition host_okD [OF ok] by (simp add: host_ok_def)
next
  case task
  then show ?thesis using host_core_cancel settled_cancel host_okD [OF ok] by (simp add: host_ok_def)
next
  case close
  then show ?thesis using host_core_close settled_close host_okD [OF ok] by (simp add: host_ok_def)
next
  case revoke
  then show ?thesis using host_core_set settled_set task_write(2) host_okD [OF ok] by (simp add: host_ok_def)
next
  case remove
  then show ?thesis using host_core_remove settled_remove host_okD [OF ok] by (simp add: host_ok_def)
next
  case restart
  then show ?thesis using host_ok_restart host_okD(1) [OF ok] by simp
qed

lemma host_ok_run: "host_step\<^sup>*\<^sup>* h h' \<Longrightarrow> host_ok h \<Longrightarrow> host_ok h'"
  by (induction rule: rtranclp_induct) (auto dest: host_ok_step)

definition empty_host :: runtime_host where
  "empty_host = \<lparr>ho_handles = [], ho_active = [], ho_singletons = [], ho_rows = []\<rparr>"

lemma host_ok_empty: "host_ok empty_host"
  by (simp add: empty_host_def host_ok_def host_core_def settled_active_def unique_key_def)

section \<open>Consistency\<close>

text \<open>
  C16. In every state of the host, through creations with any answers of the database, moves, cancelled tasks,
  closed resources, removals and restarts of the process, a handle has exactly one row, with its
  identity and its state; a session has at most one live parent and a project at most one live map
  agent; and a child sees no tool and no skill that its parent does not see.
\<close>

theorem host_consistent:
  assumes "host_step\<^sup>*\<^sup>* empty_host h" and "x \<in> set (ho_handles h)"
  shows "(\<exists>r. filter (\<lambda>r. ar_id r = rh_id x) (ho_rows h) = [r] \<and> row_matches x r)
    \<and> (\<forall>y k. y \<in> set (ho_handles h) \<longrightarrow> {rh_id x, rh_id y} \<subseteq> set (ho_active h) \<longrightarrow> R_DESTROYED \<notin> {rh_state x, rh_state y} \<longrightarrow>
         handle_key x = Some k \<longrightarrow> handle_key y = Some k \<longrightarrow> y = x)
    \<and> (\<forall>p. rh_parent x = Some p \<longrightarrow> (\<exists>y. find_handle h p = Some y \<and> view_within (rh_view x) (rh_view y)))"
proof -
  have core: "host_core h" using host_ok_run [OF assms(1) host_ok_empty] by (rule host_okD)
  note c = host_coreD [OF core]
  obtain r where r: "r \<in> set (ho_rows h)" "row_matches x r" using c(5) [OF assms(2)] by blast
  then have "filter (\<lambda>r. ar_id r = rh_id x) (ho_rows h) = [r]"
    using filter_key_unique [OF c(2) r(1)] by (simp add: row_matches_def)
  moreover have "y = x" if "y \<in> set (ho_handles h)" "{rh_id x, rh_id y} \<subseteq> set (ho_active h)"
    "R_DESTROYED \<notin> {rh_state x, rh_state y}" "handle_key x = Some k" "handle_key y = Some k" for y k
  proof -
    have "map_of (ho_singletons h) k = Some (rh_id x)" by (rule c(8)) (use that assms(2) in auto)
    moreover have "map_of (ho_singletons h) k = Some (rh_id y)" by (rule c(8)) (use that in auto)
    ultimately show ?thesis using unique_keyD [OF c(1) that(1) assms(2)] by simp
  qed
  moreover have "\<exists>y. find_handle h p = Some y \<and> view_within (rh_view x) (rh_view y)" if "rh_parent x = Some p" for p
    using c(9) [OF assms(2)] that find_handle_of [OF core] by (auto simp: adopted_def)
  ultimately show ?thesis using r(2) by blast
qed

section \<open>Families\<close>

abbreviation state_of :: "runtime_host \<Rightarrow> string \<Rightarrow> runtime_state option" where
  "state_of h i \<equiv> map_option rh_state (find_handle h i)"

inductive tree :: "runtime_host \<Rightarrow> string \<Rightarrow> string \<Rightarrow> bool" for h i where
  self: "tree h i i"
| child: "tree h i j \<Longrightarrow> c \<in> set (live_children h j) \<Longrightarrow> tree h i c"

definition destroyed :: "runtime_host \<Rightarrow> string \<Rightarrow> bool" where
  "destroyed h j \<longleftrightarrow> state_of h j = Some R_DESTROYED \<and> j \<notin> set (ho_active h)"

text \<open>Children stay, final states stay final, destroyed ones destroyed\<close>

definition state_ages :: "runtime_state \<Rightarrow> runtime_state \<Rightarrow> bool" where
  "state_ages s t \<longleftrightarrow> (s \<in> set final_states \<longrightarrow> t \<in> set final_states)
     \<and> (s = R_STOPPING \<longrightarrow> t \<in> insert R_STOPPING (set final_states)) \<and> (s = R_DESTROYED \<longrightarrow> t = R_DESTROYED)"

definition handle_ages :: "runtime_handle \<Rightarrow> runtime_handle \<Rightarrow> bool" where
  "handle_ages x y \<longleftrightarrow> rh_children y = rh_children x \<and> state_ages (rh_state x) (rh_state y)"

definition ages :: "runtime_host \<Rightarrow> runtime_host \<Rightarrow> bool" where
  "ages h h' \<longleftrightarrow> (\<forall>j. rel_option handle_ages (find_handle h j) (find_handle h' j))"

definition shrinks :: "runtime_host \<Rightarrow> runtime_host \<Rightarrow> bool" where
  "shrinks h h' \<longleftrightarrow> ages h h' \<and> set (ho_active h') \<subseteq> set (ho_active h)
     \<and> (\<forall>j \<in> set (ho_active h) - set (ho_active h'). \<forall>k. tree h j k \<longrightarrow> destroyed h' k)"

lemma state_ages_refl [simp]: "state_ages s s"
  by (simp add: state_ages_def)

lemma state_ages_trans: "state_ages s t \<Longrightarrow> state_ages t u \<Longrightarrow> state_ages s u"
  by (auto simp: state_ages_def)

lemma handle_ages_refl [simp]: "handle_ages x x"
  by (simp add: handle_ages_def)

lemma ages_refl [simp]: "ages h h"
  by (simp add: ages_def option.rel_refl)

lemma ages_trans:
  assumes "ages h h1" and "ages h1 h2"
  shows "ages h h2"
  unfolding ages_def
proof
  fix j
  have "rel_option handle_ages (find_handle h j) (find_handle h1 j)" "rel_option handle_ages (find_handle h1 j) (find_handle h2 j)"
    using assms by (simp_all add: ages_def)
  then show "rel_option handle_ages (find_handle h j) (find_handle h2 j)"
    by (cases "find_handle h j"; cases "find_handle h1 j"; cases "find_handle h2 j")
      (auto simp: handle_ages_def intro: state_ages_trans)
qed

definition kids :: "runtime_host \<Rightarrow> string \<Rightarrow> string list" where
  "kids h i = (case find_handle h i of None \<Rightarrow> [] | Some x \<Rightarrow> rh_children x)"

lemma live_children_kids: "live_children h i = filter (\<lambda>j. j \<in> set (ho_active h)) (kids h i)"
  by (simp add: live_children_def kids_def split: option.splits)

lemma ages_kids: "ages h h' \<Longrightarrow> kids h' i = kids h i"
  by (drule ages_def [THEN iffD1, THEN spec [of _ i]])
    (cases "find_handle h i"; cases "find_handle h' i"; simp add: kids_def handle_ages_def)

lemma ages_state:
  assumes "ages h h'" and "state_of h j = Some s"
  shows "\<exists>t. state_of h' j = Some t \<and> state_ages s t"
  using assms(1) [unfolded ages_def, THEN spec, of j] assms(2)
  by (cases "find_handle h j"; cases "find_handle h' j") (auto simp: handle_ages_def)

lemma destroyed_ages: "ages h h' \<Longrightarrow> set (ho_active h') \<subseteq> set (ho_active h) \<Longrightarrow> destroyed h k \<Longrightarrow> destroyed h' k"
  using ages_state [of h h' k R_DESTROYED] by (auto simp: destroyed_def state_ages_def)

lemma shrinks_refl [simp]: "shrinks h h"
  by (simp add: shrinks_def)

lemma shrinks_frame: "ages h h' \<Longrightarrow> ho_active h' = ho_active h \<Longrightarrow> shrinks h h'"
  by (simp add: shrinks_def)

lemma shrinks_destroyed: "shrinks h h' \<Longrightarrow> destroyed h k \<Longrightarrow> destroyed h' k"
  unfolding shrinks_def using destroyed_ages by blast

lemma tree_kept:
  assumes s: "shrinks h h'" and "tree h j k" and j: "j \<in> set (ho_active h)"
  shows "tree h' j k \<or> destroyed h' k"
proof -
  have lost: "destroyed h' m" if "l \<in> set (ho_active h)" "l \<notin> set (ho_active h')" "tree h l m" for l m
    using s that by (auto simp: shrinks_def)
  have kids: "kids h' l = kids h l" for l using s by (simp add: shrinks_def ages_kids)
  from assms(2) have "k \<in> set (ho_active h) \<and> (tree h' j k \<or> destroyed h' k)"
  proof induction
    case self
    show ?case using j by (simp add: tree.self)
  next
    case (child k c)
    then have c: "c \<in> set (kids h k)" "c \<in> set (ho_active h)" by (simp_all add: live_children_kids)
    consider (gone) "destroyed h' k" | (removed) "c \<notin> set (ho_active h')" | (kept) "tree h' j k" "c \<in> set (ho_active h')"
      using child.IH by blast
    then have "tree h' j c \<or> destroyed h' c"
    proof cases
      case gone
      then have "k \<notin> set (ho_active h')" by (simp add: destroyed_def)
      moreover have "tree h k c" using child.hyps(2) tree.self tree.child by metis
      ultimately show ?thesis using lost child.IH by blast
    next
      case removed
      then show ?thesis using lost [OF c(2) removed tree.self] by blast
    next
      case kept
      then have "c \<in> set (live_children h' k)" using c(1) by (simp add: live_children_kids kids)
      with kept(1) show ?thesis by (blast intro: tree.child)
    qed
    with c(2) show ?case by blast
  qed
  then show ?thesis by blast
qed

lemma shrinks_trans:
  assumes s1: "shrinks h h1" and s2: "shrinks h1 h2"
  shows "shrinks h h2"
proof -
  have "destroyed h2 k" if j: "j \<in> set (ho_active h)" "j \<notin> set (ho_active h2)" and k: "tree h j k" for j k
  proof (cases "j \<in> set (ho_active h1)")
    case True
    from tree_kept [OF s1 k j(1)] show ?thesis
    proof
      assume "tree h1 j k"
      with True j(2) s2 show ?thesis by (auto simp: shrinks_def)
    qed (rule shrinks_destroyed [OF s2])
  next
    case False
    with j(1) k s1 have "destroyed h1 k" by (auto simp: shrinks_def)
    then show ?thesis by (rule shrinks_destroyed [OF s2])
  qed
  moreover have "ages h h2" "set (ho_active h2) \<subseteq> set (ho_active h)"
    using s1 s2 ages_trans by (auto simp: shrinks_def)
  ultimately show ?thesis by (auto simp: shrinks_def)
qed

lemma tree_root: "tree h i k \<Longrightarrow> k = i \<or> (\<exists>c \<in> set (live_children h i). tree h c k)"
  by (induction rule: tree.induct) (auto intro: tree.intros)

text \<open>Writes age a host and leave the entered handles alone\<close>

definition frames :: "runtime_host \<Rightarrow> runtime_host \<Rightarrow> bool" where
  "frames h h' \<longleftrightarrow> ages h h' \<and> ho_active h' = ho_active h \<and> map rh_id (ho_handles h') = map rh_id (ho_handles h)"

lemma frames_refl [simp]: "frames h h"
  by (simp add: frames_def)

lemma frames_trans: "frames h h1 \<Longrightarrow> frames h1 h2 \<Longrightarrow> frames h h2"
  by (auto simp: frames_def intro: ages_trans)

lemma frames_set:
  assumes "\<And>x. rh_id (f x) = rh_id x" and "\<And>x. rh_children (f x) = rh_children x" and "\<And>x. rh_state (f x) = rh_state x"
  shows "frames h (set_handle i f h)"
proof -
  have "rel_option handle_ages (find_handle h j) (find_handle (set_handle i f h) j)" for j
    using assms by (cases "find_handle h j") (simp_all add: find_set_handle handle_ages_def)
  moreover have "map rh_id (ho_handles (set_handle i f h)) = map rh_id (ho_handles h)"
    using assms(1) by (simp add: set_handle_def map_update_rows)
  ultimately show ?thesis by (simp add: frames_def ages_def)
qed

lemma allowed_ages: "t \<in> set (allowed_states s) \<Longrightarrow> state_ages s t"
  by (cases s) (auto simp: state_ages_def final_states_def)

lemma frames_transition:
  assumes "transition_runtime k i target reason h = (r, h')"
  shows "frames h h'"
  using assms
proof (cases rule: transition_cases)
  case (moved x)
  have "rel_option handle_ages (find_handle h j) (find_handle h' j)" for j
  proof (cases "j = i")
    case True
    then show ?thesis
      using transition_state(1) [OF assms, of j] moved(1,3) allowed_ages [OF moved(4)] by (simp add: handle_ages_def)
  next
    case False
    then show ?thesis using transition_state(1) [OF assms, of j] by (simp add: option.rel_refl)
  qed
  moreover have "map rh_id (ho_handles h') = map rh_id (ho_handles h)"
    by (simp add: moved(5) set_handle_def map_update_rows)
  ultimately show ?thesis using transition_state(2) [OF assms] by (simp add: frames_def ages_def)
qed simp

lemma frames_close: "frames h (close_resources i h)"
  unfolding close_resources_def by (rule frames_set) simp_all

lemma frames_cancel: "frames h (cancel_task db on_cancel i h)"
proof (cases db on_cancel i h rule: cancel_task_cases)
  case over
  show ?thesis unfolding over by (rule frames_set) simp_all
next
  case (moved s r)
  have "frames h (set_handle i (\<lambda>x. x\<lparr>rh_task := Task_Over\<rparr>) h)" by (rule frames_set) simp_all
  then show ?thesis using frames_transition [OF moved] by (rule frames_trans)
qed simp

lemma finish_stop_cases:
  assumes "finish_stop db on_cancel i h = (r, h')"
  obtains h1 where "frames h h1" "h1 = close_resources i (cancel_task db on_cancel i h)"
    "(state_of h1 i = Some R_STOPPING \<and> transition_runtime (db i R_COMPLETED) i R_COMPLETED ''stopped'' h1 = (r, h'))
     \<or> (state_of h1 i \<noteq> Some R_STOPPING \<and> r = Inr () \<and> h' = h1)"
proof
  show "frames h (close_resources i (cancel_task db on_cancel i h))"
    by (rule frames_trans [OF frames_cancel frames_close])
  show "(state_of (close_resources i (cancel_task db on_cancel i h)) i = Some R_STOPPING
       \<and> transition_runtime (db i R_COMPLETED) i R_COMPLETED ''stopped'' (close_resources i (cancel_task db on_cancel i h)) = (r, h'))
     \<or> (state_of (close_resources i (cancel_task db on_cancel i h)) i \<noteq> Some R_STOPPING \<and> r = Inr ()
       \<and> h' = close_resources i (cancel_task db on_cancel i h))"
    using assms by (simp add: finish_stop_def Let_def del: state_after_close split: if_splits)
qed simp

lemma stop_frames:
  "stop_runtime db on_cancel n i h = (r, h') \<Longrightarrow> frames h h'"
  "stop_each db on_cancel n is h = (r, h') \<Longrightarrow> frames h h'"
proof (induction db on_cancel n i h and db on_cancel n "is" h arbitrary: r h' and r h'
    rule: stop_runtime_stop_each.induct)
  case (2 db on_cancel n i h)
  show ?case
  proof (cases "find_handle h i")
    case (Some x)
    show ?thesis
    proof (cases "rh_state x \<in> set final_states")
      case False
      define t where "t = (if rh_state x = R_STOPPING then (Inr (), h)
        else transition_runtime (db i R_STOPPING) i R_STOPPING ''stop_requested'' h)"
      obtain r1 h1 where t: "t = (r1, h1)" by (cases t)
      have f1: "frames h h1"
        using t unfolding t_def by (auto split: if_splits intro: frames_transition)
      show ?thesis
      proof (cases r1)
        case (Inl e)
        with "2.prems" Some False t f1 show ?thesis by (simp add: t_def [symmetric])
      next
        case (Inr u)
        obtain r2 h2 where e: "stop_each db on_cancel n (live_children h1 i) h1 = (r2, h2)"
          by (cases "stop_each db on_cancel n (live_children h1 i) h1")
        have f2: "frames h h2"
          using "2.IH" [OF Some False _ Inr e] t [symmetric] f1 frames_trans unfolding t_def by blast
        show ?thesis
        proof (cases r2)
          case (Inl e')
          with "2.prems" Some False t Inr e f2 show ?thesis by (simp add: t_def [symmetric])
        next
          case r2: (Inr u')
          with "2.prems" Some False t Inr e have "finish_stop db on_cancel i h2 = (r, h')"
            by (simp add: t_def [symmetric])
          then have "frames h2 h'"
            by (cases rule: finish_stop_cases) (auto intro: frames_trans frames_transition)
          with f2 show ?thesis by (rule frames_trans)
        qed
      qed
    qed (use Some "2.prems" in simp)
  qed (use "2.prems" in simp)
qed (auto split: sum.splits prod.splits intro: frames_trans)

definition handle_ended :: "runtime_host \<Rightarrow> string \<Rightarrow> bool" where
  "handle_ended h i \<longleftrightarrow> (\<exists>s. state_of h i = Some s \<and> s \<in> set final_states)"

lemma ended_ages: "ages h h' \<Longrightarrow> handle_ended h i \<Longrightarrow> handle_ended h' i"
  using ages_state [of h h' i] by (fastforce simp: handle_ended_def state_ages_def)

lemma stopping_ages: "ages h h' \<Longrightarrow> state_of h i = Some R_STOPPING \<Longrightarrow> state_of h' i = Some R_STOPPING \<or> handle_ended h' i"
  using ages_state [of h h' i R_STOPPING] by (auto simp: handle_ended_def state_ages_def)

lemma moved_state:
  assumes "transition_runtime k i target reason h = (Inr (), h')"
  shows "state_of h' i = Some target"
  using assms transition_state(1) [OF assms, of i] by (cases rule: transition_cases) auto

lemma finish_stop_ended:
  assumes "finish_stop db on_cancel i h = (Inr (), h')" and "state_of h i = Some R_STOPPING \<or> handle_ended h i"
  shows "handle_ended h' i"
  using assms(1)
proof (cases rule: finish_stop_cases)
  case (1 h1)
  then have a: "ages h h1" by (simp add: frames_def)
  from 1(3) show ?thesis
  proof
    assume "state_of h1 i = Some R_STOPPING \<and> transition_runtime (db i R_COMPLETED) i R_COMPLETED ''stopped'' h1 = (Inr (), h')"
    then have "state_of h' i = Some R_COMPLETED" using moved_state by blast
    then show ?thesis unfolding handle_ended_def by (intro exI [of _ R_COMPLETED]) (simp add: final_states_def)
  next
    assume "state_of h1 i \<noteq> Some R_STOPPING \<and> Inr () = (Inr () :: unit result) \<and> h' = h1"
    then show ?thesis using assms(2) stopping_ages [OF a] ended_ages [OF a] by auto
  qed
qed

lemma stop_ended:
  assumes "stop_runtime db on_cancel n i h = (Inr (), h')"
  shows "handle_ended h' i"
proof (cases n)
  case 0
  with assms show ?thesis by simp
next
  case (Suc m)
  obtain x where x: "find_handle h i = Some x" using assms Suc by (auto split: option.splits)
  show ?thesis
  proof (cases "rh_state x \<in> set final_states")
    case True
    with assms Suc x show ?thesis by (simp add: handle_ended_def)
  next
    case False
    define t where "t = (if rh_state x = R_STOPPING then (Inr (), h)
      else transition_runtime (db i R_STOPPING) i R_STOPPING ''stop_requested'' h)"
    obtain h1 where h1: "t = (Inr (), h1)"
      using assms Suc x False by (cases t) (auto simp: t_def [symmetric] split: sum.splits)
    obtain h2 where h2: "stop_each db on_cancel m (live_children h1 i) h1 = (Inr (), h2)"
        "finish_stop db on_cancel i h2 = (Inr (), h')"
      using assms Suc x False h1 by (auto simp: t_def [symmetric] split: sum.splits prod.splits)
    have "state_of h1 i = Some R_STOPPING"
      using h1 x moved_state unfolding t_def by (auto split: if_splits)
    moreover have "ages h1 h2" using stop_frames(2) [OF h2(1)] by (simp add: frames_def)
    ultimately have "state_of h2 i = Some R_STOPPING \<or> handle_ended h2 i" by (rule stopping_ages [rotated])
    with h2(2) show ?thesis by (rule finish_stop_ended)
  qed
qed

lemma mark_destroyed_state:
  assumes "mark_destroyed db i h = (r, h')"
  shows "frames h h'" and "r = Inr () \<Longrightarrow> state_of h' i = Some R_DESTROYED"
  using assms moved_state frames_transition by (auto simp: mark_destroyed_def split: if_splits)

lemma frames_tree: "frames h h' \<Longrightarrow> live_children h' i = live_children h i"
  using ages_kids [of h h' i] by (simp add: live_children_kids frames_def)

lemma frames_tree_iff: "frames h h' \<Longrightarrow> tree h' i k = tree h i k"
proof
  assume f: "frames h h'"
  show "tree h' i k \<Longrightarrow> tree h i k"
    by (induction rule: tree.induct) (auto simp: frames_tree [OF f] intro: tree.intros)
  show "tree h i k \<Longrightarrow> tree h' i k"
    by (induction rule: tree.induct) (auto simp: frames_tree [OF f, symmetric] intro: tree.intros)
qed

lemma frames_shrinks: "frames h h' \<Longrightarrow> shrinks h h'"
  by (simp add: frames_def shrinks_frame)

lemma destroyed_after_remove: "state_of h k = Some R_DESTROYED \<Longrightarrow> k = i \<or> k \<notin> set (ho_active h) \<Longrightarrow> destroyed (remove_handle i h) k"
  by (auto simp: destroyed_def)

lemma destroy_shrinks:
  "destroy_runtime db on_cancel n i h = (Inr (), h') \<Longrightarrow> shrinks h h' \<and> (\<forall>k. tree h i k \<longrightarrow> destroyed h' k)"
  "destroy_each db on_cancel n is h = (Inr (), h') \<Longrightarrow>
     shrinks h h' \<and> (\<forall>c \<in> set is. c \<in> set (ho_active h) \<longrightarrow> (\<forall>k. tree h c k \<longrightarrow> destroyed h' k))"
proof (induction db on_cancel n i h and db on_cancel n "is" h arbitrary: h' and h'
    rule: destroy_runtime_destroy_each.induct)
  case (2 db on_cancel n i h)
  obtain r1 h1 where stop: "stop_runtime db on_cancel (Suc n) i h = (r1, h1)" by (cases "stop_runtime db on_cancel (Suc n) i h")
  obtain u1 where r1: "r1 = Inr u1" using "2.prems" stop by (auto simp del: stop_runtime.simps split: sum.splits)
  obtain r2 h2 where each: "destroy_each db on_cancel n (live_children h1 i) h1 = (r2, h2)"
    by (cases "destroy_each db on_cancel n (live_children h1 i) h1")
  obtain u2 where r2: "r2 = Inr u2" using "2.prems" stop r1 each by (auto simp del: stop_runtime.simps split: sum.splits)
  obtain h3 where mark: "mark_destroyed db i h2 = (Inr (), h3)" "h' = remove_handle i h3"
    using "2.prems" stop r1 each r2 by (auto simp del: stop_runtime.simps split: sum.splits prod.splits)
  have f1: "frames h h1" by (rule stop_frames(1) [OF stop])
  have e: "shrinks h1 h2 \<and> (\<forall>c \<in> set (live_children h1 i). c \<in> set (ho_active h1) \<longrightarrow> (\<forall>k. tree h1 c k \<longrightarrow> destroyed h2 k))"
    using "2.IH" stop [symmetric] r1 each r2 by (simp del: stop_runtime.simps)
  have f3: "frames h2 h3" "state_of h3 i = Some R_DESTROYED" using mark_destroyed_state [OF mark(1)] by simp_all
  have s3: "shrinks h h3" using f1 e f3(1) by (blast intro: shrinks_trans frames_shrinks)
  have fam: "destroyed h' k" if k: "tree h i k" for k
    using tree_root [OF k]
  proof
    assume "k = i"
    with f3(2) show ?thesis by (simp add: mark(2) destroyed_after_remove)
  next
    assume "\<exists>c \<in> set (live_children h i). tree h c k"
    then obtain c where "c \<in> set (live_children h1 i)" "tree h1 c k"
      using frames_tree [OF f1] frames_tree_iff [OF f1] by auto
    moreover from this(1) have "c \<in> set (ho_active h1)" by (simp add: live_children_kids)
    ultimately have "destroyed h2 k" using e by blast
    then have "destroyed h3 k" by (rule shrinks_destroyed [OF frames_shrinks [OF f3(1)]])
    then show ?thesis by (auto simp: mark(2) destroyed_def)
  qed
  have "destroyed h' k" if j: "j \<in> set (ho_active h)" "j \<notin> set (ho_active h')" and k: "tree h j k" for j k
  proof (cases "j = i")
    case True
    with fam k show ?thesis by simp
  next
    case False
    with j have "j \<notin> set (ho_active h3)" by (simp add: mark(2))
    with j(1) k s3 have "destroyed h3 k" by (auto simp: shrinks_def)
    then show ?thesis by (auto simp: mark(2) destroyed_def)
  qed
  moreover have "ages h3 h'" by (simp add: mark(2) ages_def option.rel_refl)
  then have "ages h h'" using s3 by (auto simp: shrinks_def intro: ages_trans)
  moreover have "set (ho_active h') \<subseteq> set (ho_active h)" using s3 by (auto simp: shrinks_def mark(2))
  ultimately have "shrinks h h'" by (auto simp: shrinks_def)
  with fam show ?case by blast
next
  case (4 db on_cancel n i "is" h)
  obtain r1 h1 where d: "destroy_runtime db on_cancel n i h = (r1, h1)" by (cases "destroy_runtime db on_cancel n i h")
  obtain u where r1: "r1 = Inr u" using "4.prems" d by (auto split: sum.splits)
  have rest: "destroy_each db on_cancel n is h1 = (Inr (), h')" using "4.prems" d r1 by simp
  have a: "shrinks h h1" "\<And>k. tree h i k \<Longrightarrow> destroyed h1 k" using "4.IH"(1) d r1 by simp_all
  have b: "shrinks h1 h'" "\<And>c k. c \<in> set is \<Longrightarrow> c \<in> set (ho_active h1) \<Longrightarrow> tree h1 c k \<Longrightarrow> destroyed h' k"
    using "4.IH"(2) [OF d [symmetric] r1 rest] by auto
  have "destroyed h' k" if c: "c \<in> set is" "c \<in> set (ho_active h)" and k: "tree h c k" for c k
  proof (cases "c \<in> set (ho_active h1)")
    case True
    from tree_kept [OF a(1) k c(2)] show ?thesis
      using b(2) [OF c(1) True] shrinks_destroyed [OF b(1)] by blast
  next
    case False
    with a(1) c(2) k have "destroyed h1 k" by (auto simp: shrinks_def)
    then show ?thesis by (rule shrinks_destroyed [OF b(1)])
  qed
  moreover have "destroyed h' k" if "tree h i k" for k by (rule shrinks_destroyed [OF b(1) a(2) [OF that]])
  ultimately show ?case using shrinks_trans [OF a(1) b(1)] by auto
qed simp_all

subsection \<open>Stopping and destroying are runs of the host\<close>

lemma transition_run: "transition_runtime k i target reason h = (r, h') \<Longrightarrow> host_step\<^sup>*\<^sup>* h h'"
  by (rule r_into_rtranclp [of host_step]) (rule host_step.move)

lemma finish_stop_run:
  assumes "finish_stop db on_cancel i h = (r, h')"
  shows "host_step\<^sup>*\<^sup>* h h'"
  using assms
proof (cases rule: finish_stop_cases)
  case (1 h1)
  have "host_step\<^sup>*\<^sup>* h h1" unfolding 1(2)
    by (meson host_step.task host_step.close r_into_rtranclp rtranclp_trans)
  with 1(3) show ?thesis using transition_run rtranclp_trans [of host_step h h1 h'] by blast
qed

lemma stop_run:
  "stop_runtime db on_cancel n i h = (r, h') \<Longrightarrow> host_step\<^sup>*\<^sup>* h h'"
  "stop_each db on_cancel n is h = (r, h') \<Longrightarrow> host_step\<^sup>*\<^sup>* h h'"
proof (induction db on_cancel n i h and db on_cancel n "is" h arbitrary: r h' and r h'
    rule: stop_runtime_stop_each.induct)
  case (2 db on_cancel n i h)
  show ?case
  proof (cases "find_handle h i")
    case (Some x)
    show ?thesis
    proof (cases "rh_state x \<in> set final_states")
      case False
      define t where "t = (if rh_state x = R_STOPPING then (Inr (), h)
        else transition_runtime (db i R_STOPPING) i R_STOPPING ''stop_requested'' h)"
      obtain r1 h1 where t: "t = (r1, h1)" by (cases t)
      have f1: "host_step\<^sup>*\<^sup>* h h1"
        using t unfolding t_def by (auto split: if_splits intro: transition_run)
      show ?thesis
      proof (cases r1)
        case (Inl e)
        with "2.prems" Some False t f1 show ?thesis by (simp add: t_def [symmetric])
      next
        case (Inr u)
        obtain r2 h2 where e: "stop_each db on_cancel n (live_children h1 i) h1 = (r2, h2)"
          by (cases "stop_each db on_cancel n (live_children h1 i) h1")
        have "host_step\<^sup>*\<^sup>* h1 h2"
          using "2.IH" [OF Some False _ Inr e] t [symmetric] unfolding t_def by blast
        with f1 have f2: "host_step\<^sup>*\<^sup>* h h2" by (rule rtranclp_trans)
        show ?thesis
        proof (cases r2)
          case (Inl e')
          with "2.prems" Some False t Inr e f2 show ?thesis by (simp add: t_def [symmetric])
        next
          case r2: (Inr u')
          with "2.prems" Some False t Inr e have "finish_stop db on_cancel i h2 = (r, h')"
            by (simp add: t_def [symmetric])
          then show ?thesis using f2 finish_stop_run rtranclp_trans by metis
        qed
      qed
    qed (use Some "2.prems" in simp)
  qed (use "2.prems" in simp)
qed (auto split: sum.splits prod.splits intro: rtranclp_trans)

lemma mark_destroyed_run: "mark_destroyed db i h = (r, h') \<Longrightarrow> host_step\<^sup>*\<^sup>* h h'"
  by (auto simp: mark_destroyed_def intro: transition_run split: if_splits)

lemma remove_run: "state_of h i = Some R_DESTROYED \<Longrightarrow> host_step\<^sup>*\<^sup>* h (remove_handle i h)"
  by (auto intro: r_into_rtranclp host_step.remove)

lemma destroy_run:
  "destroy_runtime db on_cancel n i h = (Inr (), h') \<Longrightarrow> host_step\<^sup>*\<^sup>* h h' \<and> map rh_id (ho_handles h') = map rh_id (ho_handles h)"
  "destroy_each db on_cancel n is h = (Inr (), h') \<Longrightarrow> host_step\<^sup>*\<^sup>* h h' \<and> map rh_id (ho_handles h') = map rh_id (ho_handles h)"
proof (induction db on_cancel n i h and db on_cancel n "is" h arbitrary: h' and h'
    rule: destroy_runtime_destroy_each.induct)
  case (2 db on_cancel n i h)
  obtain r1 h1 where stop: "stop_runtime db on_cancel (Suc n) i h = (r1, h1)" by (cases "stop_runtime db on_cancel (Suc n) i h")
  obtain u1 where r1: "r1 = Inr u1" using "2.prems" stop by (auto simp del: stop_runtime.simps split: sum.splits)
  obtain r2 h2 where each: "destroy_each db on_cancel n (live_children h1 i) h1 = (r2, h2)"
    by (cases "destroy_each db on_cancel n (live_children h1 i) h1")
  obtain u2 where r2: "r2 = Inr u2" using "2.prems" stop r1 each by (auto simp del: stop_runtime.simps split: sum.splits)
  obtain h3 where mark: "mark_destroyed db i h2 = (Inr (), h3)" "h' = remove_handle i h3"
    using "2.prems" stop r1 each r2 by (auto simp del: stop_runtime.simps split: sum.splits prod.splits)
  have "host_step\<^sup>*\<^sup>* h1 h2 \<and> map rh_id (ho_handles h2) = map rh_id (ho_handles h1)"
    using "2.IH" stop [symmetric] r1 each r2 by (simp del: stop_runtime.simps)
  moreover have "host_step\<^sup>*\<^sup>* h3 h'"
    unfolding mark(2) by (rule remove_run) (rule mark_destroyed_state(2) [OF mark(1) refl])
  ultimately show ?case
    using stop_run(1) [OF stop] stop_frames(1) [OF stop] mark_destroyed_run [OF mark(1)] mark_destroyed_state(1) [OF mark(1)]
    by (auto simp: frames_def mark(2) intro: rtranclp_trans)
next
  case (4 db on_cancel n i "is" h)
  obtain r1 h1 where d: "destroy_runtime db on_cancel n i h = (r1, h1)" by (cases "destroy_runtime db on_cancel n i h")
  obtain u where r1: "r1 = Inr u" using "4.prems" d by (auto split: sum.splits)
  have rest: "destroy_each db on_cancel n is h1 = (Inr (), h')" using "4.prems" d r1 by simp
  show ?case
    using "4.IH"(1) d r1 "4.IH"(2) [OF d [symmetric] r1 rest] by (auto intro: rtranclp_trans)
qed simp_all

subsection \<open>They come to an end\<close>

definition handle_rank :: "string list \<Rightarrow> string \<Rightarrow> nat" where
  "handle_rank ids i = length (dropWhile (\<lambda>j. j \<noteq> i) ids)"

lemma rank_in: "i \<in> set ids \<Longrightarrow> 0 < handle_rank ids i \<and> handle_rank ids i \<le> length ids"
  unfolding handle_rank_def using dropWhile_eq_Nil_conv [of "\<lambda>j. j \<noteq> i" ids] by (auto simp: length_dropWhile_le)

lemma later_rank:
  "children_later xs \<Longrightarrow> distinct (map rh_id xs) \<Longrightarrow> x \<in> set xs \<Longrightarrow> c \<in> set (rh_children x) \<Longrightarrow>
   handle_rank (map rh_id xs) c < handle_rank (map rh_id xs) (rh_id x)"
proof (induction xs)
  case (Cons y ys)
  show ?case
  proof (cases "x = y")
    case True
    have "c \<in> rh_id ` set ys" using children_later_parent [of "y # ys" y c] Cons.prems True by force
    moreover have "rh_id y \<notin> rh_id ` set ys" using Cons.prems(2) by simp
    ultimately have "c \<in> set (map rh_id ys)" "c \<noteq> rh_id y" by (simp_all only: set_map) blast
    then show ?thesis
      using rank_in [of c "map rh_id ys"] by (simp add: True handle_rank_def less_Suc_eq_le length_dropWhile_le)
  next
    case False
    then have x: "x \<in> set ys" using Cons.prems by simp
    have "c \<in> rh_id ` set ys" using children_later_parent [of ys x c] Cons.prems x by auto
    moreover have "rh_id y \<notin> rh_id ` set ys" using Cons.prems(2) by simp
    ultimately have "c \<noteq> rh_id y" "rh_id x \<noteq> rh_id y" using x by (metis imageI)+
    with Cons x show ?thesis by (simp add: handle_rank_def)
  qed
qed simp

definition stoppable :: "nat \<Rightarrow> runtime_host \<Rightarrow> string \<Rightarrow> bool" where
  "stoppable n h i \<longleftrightarrow> find_handle h i \<noteq> None \<and> (i \<in> set (ho_active h) \<or> handle_ended h i) \<and> handle_rank (map rh_id (ho_handles h)) i \<le> n"

lemma ages_found: "ages h h' \<Longrightarrow> find_handle h i \<noteq> None \<Longrightarrow> find_handle h' i \<noteq> None"
  by (drule ages_def [THEN iffD1, THEN spec [of _ i]]) (cases "find_handle h i"; cases "find_handle h' i"; simp)

lemma stoppable_frames: "frames h h' \<Longrightarrow> stoppable n h i \<Longrightarrow> stoppable n h' i"
  using ages_found [of h h' i] ended_ages [of h h' i] by (auto simp: stoppable_def frames_def)

lemma stoppable_bound: "stoppable n h i \<Longrightarrow> handle_rank (map rh_id (ho_handles h)) i \<le> n"
  by (simp add: stoppable_def)

lemma stoppable_children:
  assumes ok: "host_ok h" and s: "handle_rank (map rh_id (ho_handles h)) i \<le> Suc n" and c: "c \<in> set (live_children h i)"
  shows "stoppable n h c"
proof -
  note core = host_okD(1) [OF ok]
  obtain x where x: "find_handle h i = Some x" "c \<in> set (rh_children x)" "c \<in> set (ho_active h)"
    using c by (cases "find_handle h i") (auto simp: live_children_def)
  have "handle_rank (map rh_id (ho_handles h)) c < handle_rank (map rh_id (ho_handles h)) (rh_id x)"
    by (rule later_rank) (use host_coreD(1,10) [OF core] x find_handleD [OF x(1)] in \<open>auto simp: unique_key_def\<close>)
  moreover have "find_handle h c \<noteq> None"
    using host_coreD(4) [OF core] x(3) find_handle_of [OF core] by fastforce
  ultimately show ?thesis using s x find_handleD [OF x(1)] by (simp add: stoppable_def)
qed

abbreviation written :: "string \<Rightarrow> runtime_state \<Rightarrow> bool" where
  "written \<equiv> (\<lambda>_ _. True)"

lemma finish_stop_returns:
  assumes ok: "host_ok h"
  shows "\<exists>h'. finish_stop written on_cancel i h = (Inr (), h')"
proof -
  define h1 where "h1 = close_resources i (cancel_task written on_cancel i h)"
  have "host_core h1" unfolding h1_def by (rule host_core_close [OF host_core_cancel [OF host_okD(1) [OF ok]]])
  then have "state_of h1 i = Some R_STOPPING \<Longrightarrow> \<exists>h'. transition_runtime True i R_COMPLETED ''stopped'' h1 = (Inr (), h')"
    using transition_succeeds by fastforce
  then show ?thesis by (auto simp: finish_stop_def Let_def h1_def [symmetric] simp del: state_after_close)
qed

lemma stop_each_returns:
  assumes one: "\<And>i h. host_ok h \<Longrightarrow> stoppable n h i \<Longrightarrow> \<exists>h'. stop_runtime written on_cancel n i h = (Inr (), h')"
  shows "host_ok h \<Longrightarrow> (\<And>i. i \<in> set is \<Longrightarrow> stoppable n h i) \<Longrightarrow> \<exists>h'. stop_each written on_cancel n is h = (Inr (), h')"
proof (induction "is" arbitrary: h)
  case (Cons i "is")
  obtain h1 where h1: "stop_runtime written on_cancel n i h = (Inr (), h1)" using one Cons.prems by fastforce
  have "host_ok h1" using host_ok_run [OF stop_run(1) [OF h1] Cons.prems(1)] .
  moreover have "stoppable n h1 j" if "j \<in> set is" for j
    using stoppable_frames [OF stop_frames(1) [OF h1]] Cons.prems(2) that by simp
  ultimately obtain h2 where "stop_each written on_cancel n is h1 = (Inr (), h2)" using Cons.IH by blast
  with h1 show ?case by simp
qed simp

lemma state_found: "find_handle h i = Some x \<Longrightarrow> state_of h i = Some (rh_state x)"
  by simp

lemma stop_returns:
  "host_ok h \<Longrightarrow> stoppable n h i \<Longrightarrow> \<exists>h'. stop_runtime written on_cancel n i h = (Inr (), h')"
proof (induction n arbitrary: h i)
  case 0
  then obtain x where "find_handle h i = Some x" by (auto simp: stoppable_def)
  then have "i \<in> set (map rh_id (ho_handles h))" by (auto dest: find_handleD)
  then have "0 < handle_rank (map rh_id (ho_handles h)) i" by (simp only: rank_in)
  with "0.prems"(2) show ?case by (simp add: stoppable_def)
next
  case (Suc n)
  obtain x where x: "find_handle h i = Some x" using Suc.prems(2) by (auto simp: stoppable_def)
  show ?case
  proof (cases "rh_state x \<in> set final_states")
    case False
    define t where "t = (if rh_state x = R_STOPPING then (Inr (), h)
      else transition_runtime True i R_STOPPING ''stop_requested'' h)"
    have "i \<in> set (ho_active h)" using Suc.prems(2) x False by (auto simp: stoppable_def handle_ended_def)
    then have "rh_state x \<noteq> R_CREATING"
      using host_okD(2) [OF Suc.prems(1)] find_handleD [OF x] by (auto simp: settled_active_def)
    with False have "rh_state x \<noteq> R_STOPPING \<Longrightarrow> R_STOPPING \<in> set (allowed_states (rh_state x))"
      by (cases "rh_state x") (simp_all add: final_states_def)
    then obtain h1 where t: "t = (Inr (), h1)"
      unfolding t_def using transition_succeeds [OF host_okD(1) [OF Suc.prems(1)] x] by fastforce
    have f1: "frames h h1" and r1: "host_step\<^sup>*\<^sup>* h h1"
      using t unfolding t_def by (auto split: if_splits intro: transition_run frames_transition)
    have ok1: "host_ok h1" by (rule host_ok_run [OF r1 Suc.prems(1)])
    have "stoppable n h1 c" if "c \<in> set (live_children h1 i)" for c
      using that by (rule stoppable_children [OF ok1 stoppable_bound [OF stoppable_frames [OF f1 Suc.prems(2)]]])
    then obtain h2 where h2: "stop_each written on_cancel n (live_children h1 i) h1 = (Inr (), h2)"
      using stop_each_returns [OF Suc.IH ok1] by blast
    obtain h3 where "finish_stop written on_cancel i h2 = (Inr (), h3)"
      using finish_stop_returns [OF host_ok_run [OF stop_run(2) [OF h2] ok1]] by blast
    with x False t h2 show ?thesis by (simp add: t_def [symmetric])
  qed (use x in simp)
qed

lemma stoppable_destroy:
  assumes d: "destroy_runtime db on_cancel n i h = (Inr (), h')" and s: "stoppable m h j"
  shows "stoppable m h' j"
proof -
  have sh: "shrinks h h'" and ids: "map rh_id (ho_handles h') = map rh_id (ho_handles h)"
    using destroy_shrinks(1) [OF d] destroy_run(1) [OF d] by simp_all
  have a: "ages h h'" using sh by (simp add: shrinks_def)
  have "j \<in> set (ho_active h') \<or> handle_ended h' j"
  proof (cases "j \<in> set (ho_active h) \<and> j \<notin> set (ho_active h')")
    case True
    then have "destroyed h' j" using sh by (auto simp: shrinks_def intro: tree.self)
    then show ?thesis by (auto simp: destroyed_def handle_ended_def final_states_def)
  next
    case False
    with s ended_ages [OF a, of j] show ?thesis by (auto simp: stoppable_def)
  qed
  with s ids ages_found [OF a, of j] show ?thesis by (simp add: stoppable_def)
qed

lemma mark_destroyed_returns:
  assumes ok: "host_ok h" and e: "handle_ended h i"
  shows "\<exists>h'. mark_destroyed written i h = (Inr (), h')"
proof -
  obtain x where x: "find_handle h i = Some x" "rh_state x \<in> set final_states" using e by (auto simp: handle_ended_def)
  then have "rh_state x \<noteq> R_DESTROYED \<Longrightarrow> R_DESTROYED \<in> set (allowed_states (rh_state x))"
    by (auto simp: final_states_def)
  with x transition_succeeds [OF host_okD(1) [OF ok] x(1)] show ?thesis by (auto simp: mark_destroyed_def)
qed

lemma destroy_each_returns:
  assumes one: "\<And>i h. host_ok h \<Longrightarrow> stoppable n h i \<Longrightarrow> \<exists>h'. destroy_runtime written on_cancel n i h = (Inr (), h')"
  shows "host_ok h \<Longrightarrow> (\<And>i. i \<in> set is \<Longrightarrow> stoppable n h i) \<Longrightarrow> \<exists>h'. destroy_each written on_cancel n is h = (Inr (), h')"
proof (induction "is" arbitrary: h)
  case (Cons i "is")
  obtain h1 where h1: "destroy_runtime written on_cancel n i h = (Inr (), h1)" using one Cons.prems by fastforce
  have "host_ok h1" using host_ok_run destroy_run(1) [OF h1] Cons.prems(1) by blast
  moreover have "stoppable n h1 j" if "j \<in> set is" for j
    using stoppable_destroy [OF h1] Cons.prems(2) that by simp
  ultimately obtain h2 where "destroy_each written on_cancel n is h1 = (Inr (), h2)" using Cons.IH by blast
  with h1 show ?case by simp
qed simp

lemma destroy_returns:
  "host_ok h \<Longrightarrow> stoppable n h i \<Longrightarrow> \<exists>h'. destroy_runtime written on_cancel n i h = (Inr (), h')"
proof (induction n arbitrary: h i)
  case 0
  then show ?case using stop_returns [of h 0 i] by simp
next
  case (Suc n)
  obtain h1 where h1: "stop_runtime written on_cancel (Suc n) i h = (Inr (), h1)"
    using stop_returns [OF Suc.prems] by blast
  have ok1: "host_ok h1" by (rule host_ok_run [OF stop_run(1) [OF h1] Suc.prems(1)])
  have f1: "frames h h1" by (rule stop_frames(1) [OF h1])
  have "stoppable n h1 c" if "c \<in> set (live_children h1 i)" for c
    using that by (rule stoppable_children [OF ok1 stoppable_bound [OF stoppable_frames [OF f1 Suc.prems(2)]]])
  then obtain h2 where h2: "destroy_each written on_cancel n (live_children h1 i) h1 = (Inr (), h2)"
    using destroy_each_returns [OF Suc.IH ok1] by blast
  have "host_ok h2" using host_ok_run destroy_run(2) [OF h2] ok1 by blast
  moreover have "ages h1 h2" using destroy_shrinks(2) [OF h2] by (simp add: shrinks_def)
  then have "handle_ended h2 i" using ended_ages stop_ended [OF h1] by blast
  ultimately obtain h3 where "mark_destroyed written i h2 = (Inr (), h3)" using mark_destroyed_returns by blast
  with h1 h2 show ?case by (simp del: stop_runtime.simps)
qed

subsection \<open>They leave the others alone\<close>

definition spares :: "runtime_host \<Rightarrow> runtime_host \<Rightarrow> string \<Rightarrow> bool" where
  "spares h h' k \<longleftrightarrow> find_handle h' k = find_handle h k \<and> (k \<in> set (ho_active h') \<longleftrightarrow> k \<in> set (ho_active h))"

lemma spares_refl [simp]: "spares h h k"
  by (simp add: spares_def)

lemma spares_trans: "spares h h1 k \<Longrightarrow> spares h1 h2 k \<Longrightarrow> spares h h2 k"
  by (simp add: spares_def)

lemma spares_set: "(\<And>x. rh_id (f x) = rh_id x) \<Longrightarrow> k \<noteq> i \<Longrightarrow> spares h (set_handle i f h) k"
  by (cases "find_handle h k") (auto simp: spares_def find_set_handle dest: find_handleD)

lemma spares_transition: "transition_runtime ok i target reason h = (r, h') \<Longrightarrow> k \<noteq> i \<Longrightarrow> spares h h' k"
  using transition_state [of ok i target reason h r h'] by (simp add: spares_def)

lemma spares_close: "k \<noteq> i \<Longrightarrow> spares h (close_resources i h) k"
  unfolding close_resources_def by (rule spares_set) simp_all

lemma spares_cancel: "k \<noteq> i \<Longrightarrow> spares h (cancel_task db on_cancel i h) k"
proof (cases db on_cancel i h rule: cancel_task_cases)
  case (moved s r)
  assume "k \<noteq> i"
  then have "spares h (set_handle i (\<lambda>x. x\<lparr>rh_task := Task_Over\<rparr>) h) k" by (simp add: spares_set)
  then show ?thesis using spares_transition [OF moved \<open>k \<noteq> i\<close>] by (rule spares_trans)
qed (simp_all add: spares_set)

lemma spares_finish:
  assumes "finish_stop db on_cancel i h = (r, h')" and k: "k \<noteq> i"
  shows "spares h h' k"
  using assms(1)
proof (cases rule: finish_stop_cases)
  case (1 h1)
  from k have "spares h h1 k" unfolding 1(2) by (blast intro: spares_trans spares_close spares_cancel)
  with 1(3) k spares_transition spares_trans [of h h1 k h'] show ?thesis by blast
qed

lemma tree_child: "c \<in> set (live_children h i) \<Longrightarrow> tree h c k \<Longrightarrow> tree h i k"
  by (rotate_tac 1, induction rule: tree.induct) (auto intro: tree.intros)

lemma tree_shrinks: "tree h' i k \<Longrightarrow> shrinks h h' \<Longrightarrow> tree h i k"
proof (induction rule: tree.induct)
  case (child j c)
  then have "c \<in> set (live_children h j)" by (auto simp: live_children_kids shrinks_def ages_kids)
  with child show ?case by (auto intro: tree.child)
qed (rule tree.self)

lemma stop_spares:
  "stop_runtime db on_cancel n i h = (Inr (), h') \<Longrightarrow> \<not> tree h i k \<Longrightarrow> spares h h' k"
  "stop_each db on_cancel n is h = (Inr (), h') \<Longrightarrow> (\<And>c. c \<in> set is \<Longrightarrow> \<not> tree h c k) \<Longrightarrow> spares h h' k"
proof (induction db on_cancel n i h and db on_cancel n "is" h arbitrary: h' and h'
    rule: stop_runtime_stop_each.induct)
  case (2 db on_cancel n i h)
  have k: "k \<noteq> i" using "2.prems"(2) by (auto intro: tree.self)
  obtain x where x: "find_handle h i = Some x" using "2.prems"(1) by (cases "find_handle h i") auto
  show ?case
  proof (cases "rh_state x \<in> set final_states")
    case False
    define t where "t = (if rh_state x = R_STOPPING then (Inr (), h)
      else transition_runtime (db i R_STOPPING) i R_STOPPING ''stop_requested'' h)"
    obtain u h1 where t: "t = (Inr u, h1)"
      using "2.prems"(1) x False by (cases t; cases "fst t") (auto simp: t_def [symmetric])
    obtain u' h2 where e: "stop_each db on_cancel n (live_children h1 i) h1 = (Inr u', h2)"
      using "2.prems"(1) x False t
      by (cases "stop_each db on_cancel n (live_children h1 i) h1"; cases "fst (stop_each db on_cancel n (live_children h1 i) h1)")
        (auto simp: t_def [symmetric])
    have f: "finish_stop db on_cancel i h2 = (Inr (), h')" using "2.prems"(1) x False t e by (simp add: t_def [symmetric])
    have f1: "frames h h1" and s1: "spares h h1 k"
      using t k unfolding t_def by (auto split: if_splits intro: frames_transition spares_transition)
    have "\<not> tree h1 c k" if "c \<in> set (live_children h1 i)" for c
      using that "2.prems"(2) tree_child [of c h i k] by (auto simp: frames_tree_iff [OF f1] frames_tree [OF f1])
    with "2.IH" [OF x False _ refl] t [symmetric] e have "spares h1 h2 k" unfolding t_def by auto
    with s1 spares_finish [OF f k] show ?thesis by (blast intro: spares_trans)
  qed (use x "2.prems"(1) in simp)
next
  case (4 db on_cancel n i "is" h)
  obtain u h1 where d: "stop_runtime db on_cancel n i h = (Inr u, h1)" using "4.prems"(1)
    by (cases "stop_runtime db on_cancel n i h"; cases "fst (stop_runtime db on_cancel n i h)") auto
  have "spares h h1 k" using "4.IH"(1) d "4.prems"(2) by simp
  moreover have "spares h1 h' k"
    using "4.IH"(2) [OF d [symmetric] refl] "4.prems" d frames_tree_iff [OF stop_frames(1) [OF d]] by simp
  ultimately show ?case by (rule spares_trans)
qed simp_all

lemma destroy_spares:
  "destroy_runtime db on_cancel n i h = (Inr (), h') \<Longrightarrow> \<not> tree h i k \<Longrightarrow> spares h h' k"
  "destroy_each db on_cancel n is h = (Inr (), h') \<Longrightarrow> (\<And>c. c \<in> set is \<Longrightarrow> \<not> tree h c k) \<Longrightarrow> spares h h' k"
proof (induction db on_cancel n i h and db on_cancel n "is" h arbitrary: h' and h'
    rule: destroy_runtime_destroy_each.induct)
  case (2 db on_cancel n i h)
  have k: "k \<noteq> i" using "2.prems"(2) by (auto intro: tree.self)
  obtain r1 h1 where stop: "stop_runtime db on_cancel (Suc n) i h = (r1, h1)" by (cases "stop_runtime db on_cancel (Suc n) i h")
  obtain u1 where r1: "r1 = Inr u1" using "2.prems"(1) stop by (auto simp del: stop_runtime.simps split: sum.splits)
  obtain r2 h2 where each: "destroy_each db on_cancel n (live_children h1 i) h1 = (r2, h2)"
    by (cases "destroy_each db on_cancel n (live_children h1 i) h1")
  obtain u2 where r2: "r2 = Inr u2" using "2.prems"(1) stop r1 each by (auto simp del: stop_runtime.simps split: sum.splits)
  obtain h3 where mark: "mark_destroyed db i h2 = (Inr (), h3)" "h' = remove_handle i h3"
    using "2.prems"(1) stop r1 each r2 by (auto simp del: stop_runtime.simps split: sum.splits prod.splits)
  have f1: "frames h h1" by (rule stop_frames(1) [OF stop])
  have "\<not> tree h1 c k" if "c \<in> set (live_children h1 i)" for c
    using that "2.prems"(2) tree_child [of c h i k] by (auto simp: frames_tree_iff [OF f1] frames_tree [OF f1])
  then have "spares h1 h2 k" using "2.IH" stop [symmetric] r1 each r2 by (simp del: stop_runtime.simps)
  moreover have "spares h2 h3 k" using mark(1) k by (auto simp: mark_destroyed_def intro: spares_transition split: if_splits)
  moreover have "spares h3 h' k" using k by (simp add: mark(2) spares_def)
  moreover have "spares h h1 k" using stop_spares(1) stop r1 "2.prems"(2) by (simp del: stop_runtime.simps)
  ultimately show ?case by (blast intro: spares_trans)
next
  case (4 db on_cancel n i "is" h)
  obtain r1 h1 where d: "destroy_runtime db on_cancel n i h = (r1, h1)" by (cases "destroy_runtime db on_cancel n i h")
  obtain u where r1: "r1 = Inr u" using "4.prems"(1) d by (auto split: sum.splits)
  have rest: "destroy_each db on_cancel n is h1 = (Inr (), h')" using "4.prems"(1) d r1 by simp
  have "shrinks h h1" using destroy_shrinks(1) d r1 by simp
  then have "spares h1 h' k" using "4.IH"(2) [OF d [symmetric] r1 rest] "4.prems"(2) tree_shrinks by fastforce
  moreover have "spares h h1 k" using "4.IH"(1) d r1 "4.prems"(2) by simp
  ultimately show ?case using spares_trans by blast
qed simp_all

section \<open>Destroying a tree\<close>

text \<open>The family of a runtime: those entered whose parent is one of it\<close>

inductive family :: "runtime_host \<Rightarrow> string \<Rightarrow> string \<Rightarrow> bool" for h i where
  self: "family h i i"
| child: "family h i j \<Longrightarrow> find_handle h c = Some x \<Longrightarrow> rh_parent x = Some j \<Longrightarrow> c \<in> set (ho_active h) \<Longrightarrow> family h i c"

lemma live_children_iff:
  assumes ok: "host_core h"
  shows "c \<in> set (live_children h j) \<longleftrightarrow> c \<in> set (ho_active h) \<and> (\<exists>x. find_handle h c = Some x \<and> rh_parent x = Some j)"
proof
  assume "c \<in> set (live_children h j)"
  then obtain y where y: "find_handle h j = Some y" "c \<in> set (rh_children y)" "c \<in> set (ho_active h)"
    by (cases "find_handle h j") (auto simp: live_children_def)
  note m = find_handleD [OF y(1)]
  obtain x where x: "x \<in> set (ho_handles h)" "rh_id x = c" "rh_parent x = Some j"
    using children_later_parent [OF host_coreD(10) [OF ok]] m y(2) by blast
  with find_handle_of [OF ok x(1)] y(3)
  show "c \<in> set (ho_active h) \<and> (\<exists>x. find_handle h c = Some x \<and> rh_parent x = Some j)" by simp
next
  assume "c \<in> set (ho_active h) \<and> (\<exists>x. find_handle h c = Some x \<and> rh_parent x = Some j)"
  then obtain x where x: "c \<in> set (ho_active h)" "find_handle h c = Some x" "rh_parent x = Some j" by blast
  note m = find_handleD [OF x(2)]
  obtain y where y: "y \<in> set (ho_handles h)" "rh_id y = j" "c \<in> set (rh_children y)"
    using host_coreD(9) [OF ok, of x] m x(3) by (auto simp: adopted_def)
  with find_handle_of [OF ok y(1)] x(1) show "c \<in> set (live_children h j)" by (simp add: live_children_def)
qed

lemma family_tree:
  assumes ok: "host_core h"
  shows "family h i k \<longleftrightarrow> tree h i k"
proof
  show "family h i k \<Longrightarrow> tree h i k"
    by (induction rule: family.induct) (auto simp: live_children_iff [OF ok] intro: tree.intros)
  show "tree h i k \<Longrightarrow> family h i k"
    by (induction rule: tree.induct) (auto simp: live_children_iff [OF ok] intro: family.intros)
qed

text \<open>
  C11. If the database takes every write, \<^verbatim>\<open>destroy\<close> of an entered runtime returns, whatever its
  tasks do when they are cancelled and as deep as its children go, in any reachable state of the host.
  Then the runtime and everything below it is destroyed and has left the host, and every other
  runtime has the handle and the entry it had.
\<close>

theorem destroy_family:
  assumes "host_step\<^sup>*\<^sup>* empty_host h" and "i \<in> set (ho_active h)"
  shows "\<exists>h'. destroy_runtime (\<lambda>_ _. True) on_cancel (length (ho_handles h)) i h = (Inr (), h')
    \<and> (\<forall>k. if family h i k then destroyed h' k else spares h h' k)"
proof -
  have ok: "host_ok h" by (rule host_ok_run [OF assms(1) host_ok_empty])
  have "i \<in> set (map rh_id (ho_handles h))" using assms(2) host_coreD(4) [OF host_okD(1) [OF ok]] by auto
  moreover from this have "find_handle h i \<noteq> None" using find_handle_of [OF host_okD(1) [OF ok]] by auto
  ultimately have "stoppable (length (ho_handles h)) h i"
    using rank_in [of i "map rh_id (ho_handles h)"] assms(2) by (simp add: stoppable_def)
  then obtain h' where "destroy_runtime written on_cancel (length (ho_handles h)) i h = (Inr (), h')"
    using destroy_returns [OF ok] by blast
  then show ?thesis using destroy_shrinks(1) destroy_spares(1) family_tree [OF host_okD(1) [OF ok]] by fastforce
qed

definition sample_parent :: creation where
  "sample_parent =
     \<lparr>cr_id = ''r1'', cr_role = Parent_Role, cr_project_id = ''p'', cr_agent_id = ''parent'', cr_generation = 1,
      cr_session_id = Some ''s'', cr_parent = None, cr_granted_tools = [''write'', ''read''], cr_granted_skills = [],
      cr_tools = [''read'', ''write''], cr_skills = [], cr_has_task = False, cr_has_mailbox = True\<rparr>"

definition sample_child :: creation where
  "sample_child = sample_parent\<lparr>cr_id := ''r2'', cr_role := Child_Role, cr_agent_id := ''child'', cr_parent := Some ''r1'',
     cr_granted_tools := [''read''], cr_has_task := True\<rparr>"

definition sample_host :: runtime_host where
  "sample_host = snd (create_runtime All_Written sample_child (snd (create_runtime All_Written sample_parent empty_host)))"

lemma sample_run: "host_step\<^sup>*\<^sup>* empty_host sample_host"
proof -
  let ?a = "create_runtime All_Written sample_parent empty_host"
  let ?b = "create_runtime All_Written sample_child (snd ?a)"
  have "host_step empty_host (snd ?a)"
    by (rule host_step.create [of _ _ _ "fst ?a"]) (simp_all add: empty_host_def)
  moreover have "host_step (snd ?a) (snd ?b)"
  proof (rule host_step.create [of _ _ _ "fst ?b"])
    show "cr_id sample_child \<notin> rh_id ` set (ho_handles (snd ?a))" by code_simp
    show "cr_id sample_child \<notin> ar_id ` set (ho_rows (snd ?a))" by code_simp
  qed simp
  ultimately show ?thesis unfolding sample_host_def by (meson r_into_rtranclp rtranclp_trans)
qed

lemma sample_facts: "ho_active sample_host = [''r1'', ''r2'']"   "length (ho_handles sample_host) = 2" "find_handle sample_host ''r2'' = Some (hd (tl (ho_handles sample_host)))"
  "rh_parent (hd (tl (ho_handles sample_host))) = Some ''r1''" "rh_id (hd (tl (ho_handles sample_host))) = ''r2''"
  by code_simp+

lemma destroy_family_witness:
  "\<exists>h'. destroy_runtime (\<lambda>_ _. True) (\<lambda>_. Some R_CANCELLED) 2 ''r1'' sample_host = (Inr (), h')
    \<and> destroyed h' ''r1'' \<and> destroyed h' ''r2''"
proof -
  have "family sample_host ''r1'' ''r2''"
    by (rule family.child [OF family.self sample_facts(3,4)]) (simp add: sample_facts)
  moreover have "family sample_host ''r1'' ''r1''" by (rule family.self)
  ultimately show ?thesis
    using destroy_family [OF sample_run, of "''r1''" "\<lambda>_. Some R_CANCELLED"] by (auto simp: sample_facts)
qed

lemma host_consistent_witness:
  "\<exists>y. find_handle sample_host ''r1'' = Some y \<and> view_within (rh_view (hd (tl (ho_handles sample_host)))) (rh_view y)"
proof -
  have "hd (tl (ho_handles sample_host)) \<in> set (ho_handles sample_host)"
    using find_handleD [OF sample_facts(3)] by simp
  from host_consistent [OF sample_run this] show ?thesis by (simp add: sample_facts(4))
qed

text \<open>
  A runtime whose creation failed after its row, or that failed while it ran, is final: stopping it
  returns at once, with its task running and its resources open, and destroying it only takes it out of
  the host.
\<close>

lemma failed_runtime_keeps_resources:
  assumes "find_handle h i = Some x" and "rh_state x = R_FAILED"
  shows "stop_runtime db on_cancel (Suc n) i h = (Inr (), h)"
  using assms by (simp add: final_states_def)

end
