(* ===== verification/Spec2Isabelle.thy ===== *)
theory Spec2Isabelle
  imports Orchestrator_Properties Red_Properties Execution_Properties Evidence_Properties
    Authorization_Properties Outbox_Batch Plan_Progress Plan_Paging Child_Properties Publishing_Properties
    Arbitration_Properties Code_Map_Properties Diff_Properties Memory_Properties
    Input_Properties Candidate_Properties Host_Properties
begin

text \<open>
  \<^bold>\<open>Bridle backend, verified.\<close>

  Bridle runs coding agents on a project: agents exchange mail, a plan of nodes says what is to be
  done, child agents work on single nodes, their patches are tested in containers, and a change
  reaches the project only through a gate. This library models the parts of
  \<^verbatim>\<open>backend/src/bridle\<close> that decide when something may happen and that must survive a crash,
  and proves what they promise. Paths below are relative to that directory; \<^verbatim>\<open>store.py\<close> is
  \<^verbatim>\<open>features/project_map/store.py\<close>.

  \<^bold>\<open>How the parts interact.\<close> \<^verbatim>\<open>ProjectPlanStore\<close> keeps one SQLite database
  of a project with the plan graph, the node executions, the test contracts, the workflow of every
  modification, the queue of verification runs, the evidence chain, the code map and the change
  messages. \<^verbatim>\<open>VerificationOrchestrator\<close> claims runs from the queue, has them executed and
  moves the workflow through the gate. \<^verbatim>\<open>PersistentMailbox\<close> keeps a second database with
  leased messages; completions of node executions, results of child agents and committed changes
  reach it through outboxes of their own. \<^verbatim>\<open>ChangeOutbox\<close> writes accepted files into the
  project. \<^verbatim>\<open>AuthorizationRegistry\<close> says what an agent may do.

  \<^bold>\<open>Theories, from the bottom up.\<close>

  \<^item> \<open>Bridle_Prelude\<close>: errors, JSON values, Python strings, SQL tables as lists of rows, and the
    lemma collections. \<open>Canonical_Json\<close>, \<open>Canonical_Properties\<close>: the canonical JSON text
    of \<^verbatim>\<open>json.dumps(..., sort_keys=True)\<close> and that it determines the value.
    \<open>Number_Text\<close>: reading back printed integers. \<open>Path_Norm\<close>:
    \<^verbatim>\<open>posixpath.normpath\<close>.
  \<^item> \<open>Modification_Workflow\<close> (\<^verbatim>\<open>agent/runtime/modification_workflow.py\<close>) is the
    transition table of the gate; \<open>Plan_Store\<close> the tables of contracts, workflows and the change log
    with \<^verbatim>\<open>freeze_test_contract\<close>, \<^verbatim>\<open>invalidate_test_contract\<close> and
    \<^verbatim>\<open>apply_modification_transition\<close>. \<open>Gate_Invariants\<close> and
    \<open>Gate_Properties\<close>: the event trail replays to the stored state, and nothing is published
    without the full trail.
  \<^item> \<open>Verification_Runs\<close> (\<^verbatim>\<open>enqueue_verification_run\<close> to
    \<^verbatim>\<open>complete_verification_run\<close>), with \<open>Run_Invariants\<close>,
    \<open>Run_Properties\<close> and \<open>Queue_Properties\<close>: leases, fencing, final results.
    \<open>Leased_Work\<close> is the lease discipline as a locale, interpreted on this queue and on the mailbox.
  \<^item> \<open>Test_Contract\<close>, \<open>Contract_Properties\<close>
    (\<^verbatim>\<open>agent/container/candidate_contract.py\<close>): freezing, decoding and comparing test
    contracts. \<open>Red_Classification\<close>, \<open>Red_Properties\<close>
    (\<^verbatim>\<open>agent/container/red_classification.py\<close>): the verdict on the formal red run.
    \<open>Candidate_Request\<close> is the request a run is executed for.
  \<^item> \<open>Verification_Orchestrator\<close>, \<open>Orchestrator_Properties\<close>
    (\<^verbatim>\<open>agent/runtime/verification_orchestrator.py\<close>): \<^verbatim>\<open>reconcile_node\<close>,
    \<^verbatim>\<open>recover\<close> and the failure matrix over the queue and the gate.
  \<^item> \<open>Evidence_Chain\<close>, \<open>Evidence_Properties\<close>: the hash chain of verification evidence
    of \<^verbatim>\<open>store.py\<close>.
  \<^item> \<open>Agent_Address\<close> (\<^verbatim>\<open>agent/runtime/mailbox.py\<close>), \<open>Persistent_Mailbox\<close>,
    \<open>Mailbox_Properties\<close> (\<^verbatim>\<open>agent/runtime/persistent_mailbox.py\<close>): addresses and
    the message table under any interleaving of consumers.
  \<^item> \<open>Node_Execution\<close>, \<open>Execution_Properties\<close>: node executions and the completion outbox
    of \<^verbatim>\<open>store.py\<close> with \<^verbatim>\<open>forward_completion_mail\<close>; \<open>Outbox_Sink\<close> is
    what an outbox needs of its sink, as a locale interpreted on the mailbox.
  \<^item> \<open>Graph_Search\<close>, \<open>Plan_Graph\<close>, \<open>Plan_Graph_Properties\<close>, \<open>Plan_Run\<close>,
    \<open>Plan_Progress\<close>, \<open>Plan_Paging\<close>: the plan of \<^verbatim>\<open>store.py\<close>, its patches,
    the cycle check, the steps of its nodes, dispatch and results of child agents, and paged reading.
  \<^item> \<open>Child_Delivery\<close>, \<open>Child_Properties\<close>
    (\<^verbatim>\<open>agent/runtime/parent_child_runtime.py\<close> and the retry loop of
    \<^verbatim>\<open>agent/runtime/gateway.py\<close>): the result of a child over mailbox and plan.
  \<^item> \<open>Authorization\<close>, \<open>Authorization_Properties\<close>
    (\<^verbatim>\<open>agent/runtime/authorization.py\<close>): grants, derivation, revocation, continuations.
  \<^item> \<open>Change_Outbox\<close>, \<open>Outbox_Recovery\<close>, \<open>Outbox_Batch\<close>, \<open>Change_Publishing\<close>,
    \<open>Publishing_Properties\<close> (\<^verbatim>\<open>agent/runtime/change_outbox.py\<close>): writing changes with
    recovery after a stop at any effect, batches, and their announcement.
  \<^item> \<open>Code_Map\<close>, \<open>Code_Map_Properties\<close>
    (\<^verbatim>\<open>features/project_map/map_query_service.py\<close> and the tables of \<^verbatim>\<open>store.py\<close>):
    bounded searches over the code map. \<open>Semantic_Scan\<close>, \<open>Scan_Properties\<close>,
    \<open>Scan_History\<close>, \<open>Scan_Completion\<close>: the semantic phase with its run tokens.
    \<open>Arbitration\<close>, \<open>Arbitration_Properties\<close>: annotations, objections and change messages.
  \<^item> \<open>Py_Text\<close>: lines, case and substrings of Python texts. \<open>Unified_Diff\<close>,
    \<open>Diff_Properties\<close> (\<^verbatim>\<open>agent/tools/unified_diff.py\<close>): parsing, dry run and validation of
    patches, against edit scripts and a single pass over the document.
  \<^item> \<open>Session_Store\<close> (\<^verbatim>\<open>features/sessions/service.py\<close>): sessions, messages and inputs of
    the application database. \<open>Session_Memory\<close>, \<open>Memory_Properties\<close>
    (\<^verbatim>\<open>agent/memory/short_term_memory.py\<close> and the window manager of
    \<^verbatim>\<open>agent/runtime/gateway.py\<close>): the window of a session over turns, faults and restarts.
    \<open>Runtime_Input\<close>, \<open>Input_Properties\<close> (\<^verbatim>\<open>agent/runtime/input_relay.py\<close>,
    \<^verbatim>\<open>gateway.py\<close>, \<^verbatim>\<open>parent_child_runtime.py\<close>): how a message reaches the
    agent and is answered once.
  \<^item> \<open>Tool_Policy\<close>, \<open>Tool_Properties\<close> (\<^verbatim>\<open>agent/tools/\<close>,
    \<^verbatim>\<open>agent/safety/sandbox_policy.py\<close>): which paths and test commands an agent may use.
  \<^item> \<open>Candidate_Patches\<close>, \<open>Candidate_Properties\<close>
    (\<^verbatim>\<open>agent/container/candidate_contract.py\<close>,
    \<^verbatim>\<open>test_command_compiler.py\<close>): requests, their commands and the patches of a result.
  \<^item> \<open>Runtime_Host\<close>, \<open>Host_Properties\<close> (\<^verbatim>\<open>agent/runtime/host.py\<close>,
    \<^verbatim>\<open>agent_runtime.py\<close>, \<^verbatim>\<open>persistence.py\<close>,
    \<^verbatim>\<open>session_runtime_lifecycle.py\<close>): creating, stopping and destroying runtimes.

  \<^bold>\<open>How the code is read.\<close> A table is the list of its rows in insertion order; a statement
  of the code that reads or updates rows is a filter, a search or a map over the list. A method that
  runs in one transaction is a function from the arguments and the store to an error or a result with
  the new store: an error leaves the store as it was, as the rolled back transaction does. Enumerations
  are datatypes, records and dictionaries with fixed keys are records, other JSON is a value with its
  dictionaries in insertion order and integer numbers. Texts are lists of characters of one byte.
  What the code takes from outside is an argument: the clock in microseconds, fresh identifiers and
  lease tokens, the digests (SHA-256), the results of the executor, of the indexers and of the file
  system, and the order in which Python iterates a set where it can be seen. A theorem that
  needs a digest to be free of collisions says so for the texts in question. Python integers
  are unbounded; delays are exact rationals, and the overflow of a float product, reached from attempt
  1025 on, is a branch of its own.

  The change outbox runs in an environment in which each effect succeeds, fails or is the last one before
  a crash; the child delivery counts its effects and may stop at any of them. The interleaving of
  several workers is a list of operations or a step relation; an invariant is proved for every
  reachable state. The recursions of the code are structural or carry a termination proof (the
  batches of the semantic scan, the workset of the cycle check). The cycle check recurses in
  Python: the number of frames it may use is an argument, and the termination theorem says how many are
  enough.

  \<^bold>\<open>What is shown.\<close> The claims C1 to C40 are spread over the property theories; each
  stands after a text block with its number. They say that the orchestrator drives a triggered node to its
  one result and that no worker without its lease can interfere; that a commit of a file survives
  a stop anywhere; that batches are published as a whole or rolled back; that a committed change, a
  completion, a user's message and its answer are never lost, and that a child result delivered to its
  plan is recorded there once; that delegation never extends a grant and dies with any of its ancestors;
  that plans stay acyclic and can be finished; that a scan that is taken completes and fences
  superseded runs; that publication needs a trail of red, implementation and final verification; that
  runtimes agree with their rows and are destroyed as a family; that the window of a session is
  bounded and shows what it should; that accepted commands, paths, requests and patches mean what
  they seem to; and that contracts, addresses, canonical texts and evidence chains determine what
  they encode. Where a claim needs a condition its text names it. Behaviour that
  contradicts the purpose of the code is proved as a lemma and listed among the findings of the
  manifest.

  \<^bold>\<open>Not modelled.\<close>
  \<^item> The asyncio loops, tasks, timers and wake signals around the stores, logging and observability,
    the HTTP controllers with their schemas, the command line, configuration and database set-up: input,
    output and wiring without state of their own that the parts above rest on.
  \<^item> Docker: \<^verbatim>\<open>agent/container/\<close> apart from contracts, the classification, requests,
    patches, the compiler of test commands and the guard of identifiers (backends, runners, the active
    slot, the lifecycle manager, review images, the entry point in the container). What they do happens
    in the Docker daemon and the file system; the orchestrator receives their result as an argument.
  \<^item> The providers of language models, the execution of the tools they call and their schemas, skills
    and context assembly: they produce the requests that the modelled parts judge.
  \<^item> The indexers and the synthesis of semantic annotations, which read source texts of a project: their
    results are arguments of the scan.
  \<^item> \<^verbatim>\<open>scripts/ci\<close>, the front end and the tests: not part of the backend.
\<close>

end
